(* ===== verification/Prelude.thy ===== *)
theory Prelude
  imports Main "HOL-Library.Word" "HOL-Library.Code_Target_Numeral"
begin

text \<open>
  Shared vocabulary of the development: the machine integer types of the Rust sources, the
  outcome of a Rust computation (a value, an error value, or a panic), state passing with
  early return on error, Hoare triples for it, byte slices and their little-endian reading,
  and the text of the numbers that error messages print.

  Rust's \<open>usize\<close> is a \<^typ>\<open>nat\<close> here. The deployment target of the repository is armv7, so
  \<open>usize\<close> has 32 bits; arithmetic that leaves its range is \<open>Panic\<close>, as in a build with overflow
  checks, unless the source calls a \<open>wrapping_\<close> or \<open>checked_\<close> operation. Where the model does not
  panic, a build without overflow checks computes the same value.
\<close>

unbundle bit_operations_syntax

named_theorems monad_defs \<open>definitions of the state passing combinators\<close>
named_theorems wp \<open>Hoare rules for the operations of the model\<close>

section \<open>Machine integers\<close>

type_synonym u8 = "8 word"
type_synonym u16 = "16 word"
type_synonym u32 = "32 word"
type_synonym u64 = "64 word"
type_synonym i32 = "32 word"
type_synonym i64 = "64 word"
type_synonym usize = nat

abbreviation usize_bound :: nat where
  "usize_bound \<equiv> 2 ^ 32"

section \<open>Outcomes\<close>

datatype ('e, 'a) outcome = Ok 'a | Err 'e | Panic

fun bindO :: "('e, 'a) outcome \<Rightarrow> ('a \<Rightarrow> ('e, 'b) outcome) \<Rightarrow> ('e, 'b) outcome" where
  "bindO (Ok a) f = f a"
| "bindO (Err e) f = Err e"
| "bindO Panic f = Panic"

lemma bindO_Ok_iff [simp]: "bindO m f = Ok b \<longleftrightarrow> (\<exists>a. m = Ok a \<and> f a = Ok b)"
  by (cases m) auto

lemma bindO_Panic_iff [simp]:
  "bindO m f = Panic \<longleftrightarrow> m = Panic \<or> (\<exists>a. m = Ok a \<and> f a = Panic)"
  by (cases m) auto

lemma bindO_cong [fundef_cong]:
  "m = m' \<Longrightarrow> (\<And>a. m' = Ok a \<Longrightarrow> f a = f' a) \<Longrightarrow> bindO m f = bindO m' f'"
  by (cases m') auto

text \<open>An option turned into a result, as \<open>ok_or\<close> does.\<close>

fun ok_or :: "'a option \<Rightarrow> 'e \<Rightarrow> ('e, 'a) outcome" where
  "ok_or None e = Err e"
| "ok_or (Some a) e = Ok a"

lemma ok_or_simps [simp]:
  "ok_or x e = Ok a \<longleftrightarrow> x = Some a"
  "ok_or x e = Err e' \<longleftrightarrow> x = None \<and> e = e'"
  "ok_or x e \<noteq> Panic"
  by (cases x; auto)+

section \<open>State passing with early return\<close>

text \<open>
  A method with \<open>&mut self\<close> maps a state to an outcome and the state it leaves behind. The
  state is there on the error paths too: a Rust method that returns early keeps the
  mutations it made before the error.
\<close>

type_synonym ('s, 'e, 'a) routine = "'s \<Rightarrow> ('e, 'a) outcome \<times> 's"

definition ret :: "'a \<Rightarrow> ('s, 'e, 'a) routine" where
  [monad_defs]: "ret a = (\<lambda>s. (Ok a, s))"

definition raise :: "'e \<Rightarrow> ('s, 'e, 'a) routine" where
  [monad_defs]: "raise e = (\<lambda>s. (Err e, s))"

definition panic :: "('s, 'e, 'a) routine" where
  [monad_defs]: "panic = (\<lambda>s. (Panic, s))"

definition bnd :: "('s, 'e, 'a) routine \<Rightarrow> ('a \<Rightarrow> ('s, 'e, 'b) routine) \<Rightarrow> ('s, 'e, 'b) routine" where
  [monad_defs]: "bnd m f = (\<lambda>s. case m s of
     (Ok a, s') \<Rightarrow> f a s'
   | (Err e, s') \<Rightarrow> (Err e, s')
   | (Panic, s') \<Rightarrow> (Panic, s'))"

definition sq :: "('s, 'e, 'a) routine \<Rightarrow> ('s, 'e, 'b) routine \<Rightarrow> ('s, 'e, 'b) routine" where
  [monad_defs]: "sq m n = bnd m (\<lambda>_. n)"

text \<open>A query reads the state and leaves it alone; an update writes it and cannot fail.\<close>

definition query :: "('s \<Rightarrow> ('e, 'a) outcome) \<Rightarrow> ('s, 'e, 'a) routine" where
  [monad_defs]: "query q = (\<lambda>s. (q s, s))"

definition modify :: "('s \<Rightarrow> 's) \<Rightarrow> ('s, 'e, unit) routine" where
  [monad_defs]: "modify f = (\<lambda>s. (Ok (), f s))"

definition lift :: "('e, 'a) outcome \<Rightarrow> ('s, 'e, 'a) routine" where
  [monad_defs]: "lift r = (\<lambda>s. (r, s))"

lemma bnd_ret [simp]: "bnd (ret a) f = f a"
  by (simp add: monad_defs)

lemma bnd_assoc: "bnd (bnd m f) g = bnd m (\<lambda>x. bnd (f x) g)"
  by (rule ext) (simp add: monad_defs split: prod.splits outcome.splits)

lemma bnd_eq_Ok:
  "bnd m f s = (Ok b, t) \<longleftrightarrow> (\<exists>a u. m s = (Ok a, u) \<and> f a u = (Ok b, t))"
  by (auto simp: bnd_def split: prod.splits outcome.splits)

lemma bnd_Ok [simp]: "m s = (Ok a, t) \<Longrightarrow> bnd m f s = f a t"
  by (simp add: bnd_def)

lemma bnd_Err: "m s = (Err e, t) \<Longrightarrow> bnd m f s = (Err e, t)"
  by (simp add: bnd_def)

text \<open>Repeat a method \<open>n\<close> times, stopping at the first error: \<open>for _ in 0..n\<close>.\<close>

primrec repeatM :: "nat \<Rightarrow> ('s, 'e, unit) routine \<Rightarrow> ('s, 'e, unit) routine" where
  "repeatM 0 m = ret ()"
| "repeatM (Suc n) m = sq m (repeatM n m)"

text \<open>Run a method for every element of a list, in order.\<close>

primrec forM :: "'a list \<Rightarrow> ('a \<Rightarrow> ('s, 'e, unit) routine) \<Rightarrow> ('s, 'e, unit) routine" where
  "forM [] f = ret ()"
| "forM (x # xs) f = sq (f x) (forM xs f)"

lemma forM_append: "forM (xs @ ys) f s = sq (forM xs f) (forM ys f) s"
  by (induction xs arbitrary: s) (simp_all add: sq_def bnd_def ret_def split: prod.splits outcome.splits)

section \<open>Hoare triples\<close>

text \<open>
  \<open>triple P m Q E\<close>: from a state in \<open>P\<close>, \<open>m\<close> does not panic; a value and its state satisfy
  \<open>Q\<close>, and the state left behind on an error satisfies \<open>E\<close>.
\<close>

definition triple ::
  "('s \<Rightarrow> bool) \<Rightarrow> ('s, 'e, 'a) routine \<Rightarrow> ('a \<Rightarrow> 's \<Rightarrow> bool) \<Rightarrow> ('s \<Rightarrow> bool) \<Rightarrow> bool" where
  "triple P m Q E \<longleftrightarrow> (\<forall>s. P s \<longrightarrow>
     (case m s of (Ok a, t) \<Rightarrow> Q a t | (Err e, t) \<Rightarrow> E t | (Panic, t) \<Rightarrow> False))"

text \<open>\<open>keeps I m\<close>: whatever \<open>m\<close> does, \<open>I\<close> holds afterwards if it held before.\<close>

definition keeps :: "('s \<Rightarrow> bool) \<Rightarrow> ('s, 'e, 'a) routine \<Rightarrow> bool" where
  "keeps I m \<longleftrightarrow> (\<forall>s. I s \<longrightarrow> I (snd (m s)))"

lemma triple_conseq:
  "triple P' m Q' E' \<Longrightarrow> (\<And>s. P s \<Longrightarrow> P' s) \<Longrightarrow> (\<And>a t. Q' a t \<Longrightarrow> Q a t) \<Longrightarrow>
   (\<And>t. E' t \<Longrightarrow> E t) \<Longrightarrow> triple P m Q E"
  by (fastforce simp: triple_def split: prod.splits outcome.splits)

lemma triple_bnd:
  "triple P m R E \<Longrightarrow> (\<And>a. triple (R a) (f a) Q E) \<Longrightarrow> triple P (bnd m f) Q E"
  by (fastforce simp: triple_def bnd_def split: prod.splits outcome.splits)

lemma triple_sq:
  "triple P m (\<lambda>_. R) E \<Longrightarrow> triple R n Q E \<Longrightarrow> triple P (sq m n) Q E"
  unfolding sq_def by (rule triple_bnd)

lemma triple_ret: "(\<And>s. P s \<Longrightarrow> Q a s) \<Longrightarrow> triple P (ret a) Q E"
  by (simp add: triple_def ret_def)

lemma triple_raise: "(\<And>s. P s \<Longrightarrow> E s) \<Longrightarrow> triple P (raise e) Q E"
  by (simp add: triple_def raise_def)

lemma triple_if:
  "(b \<Longrightarrow> triple P m Q E) \<Longrightarrow> (\<not> b \<Longrightarrow> triple P n Q E) \<Longrightarrow>
   triple P (if b then m else n) Q E"
  by simp

lemma triple_Ok: "triple P m Q E \<Longrightarrow> P s \<Longrightarrow> m s = (Ok a, t) \<Longrightarrow> Q a t"
  by (fastforce simp: triple_def)

lemma triple_no_panic: "triple P m Q E \<Longrightarrow> P s \<Longrightarrow> fst (m s) \<noteq> Panic"
  by (cases "m s") (force simp: triple_def)

lemma triple_state:
  "triple I m (\<lambda>_. I) I \<Longrightarrow> I s \<Longrightarrow> I (snd (m s))"
  by (cases "m s"; cases "fst (m s)") (force simp: triple_def)+

lemma triple_repeatM:
  "triple I m (\<lambda>_. I) I \<Longrightarrow> triple I (repeatM n m) (\<lambda>_. I) I"
  by (induction n) (auto intro: triple_ret triple_sq)

lemma keeps_bnd [wp]: "keeps I m \<Longrightarrow> (\<And>a. keeps I (f a)) \<Longrightarrow> keeps I (bnd m f)"
  by (fastforce simp: keeps_def bnd_def split: prod.splits outcome.splits)

lemma keeps_sq [wp]: "keeps I m \<Longrightarrow> keeps I n \<Longrightarrow> keeps I (sq m n)"
  unfolding sq_def by (rule keeps_bnd)

lemma keeps_basic [wp]:
  "keeps I (ret a)" "keeps I (raise e)" "keeps I panic" "keeps I (query q)" "keeps I (lift r)"
  by (simp_all add: keeps_def monad_defs)

lemma keeps_modify: "(\<And>s. I s \<Longrightarrow> I (f s)) \<Longrightarrow> keeps I (modify f)"
  by (simp add: keeps_def modify_def)

lemma keeps_if [wp]: "keeps I m \<Longrightarrow> keeps I n \<Longrightarrow> keeps I (if b then m else n)"
  by simp

lemma keeps_repeatM [wp]: "keeps I m \<Longrightarrow> keeps I (repeatM n m)"
  by (induction n) (auto intro: wp)

lemma keeps_forM [wp]: "(\<And>x. keeps I (f x)) \<Longrightarrow> keeps I (forM xs f)"
  by (induction xs) (auto intro: wp)

section \<open>Byte slices\<close>

text \<open>\<open>xs.get(off..off + n)\<close>: the slice, or \<open>None\<close> when it reaches past the end.\<close>

definition get_range :: "'a list \<Rightarrow> nat \<Rightarrow> nat \<Rightarrow> 'a list option" where
  "get_range xs off n = (if off + n \<le> length xs then Some (take n (drop off xs)) else None)"

text \<open>\<open>copy_from_slice\<close> of \<open>ys\<close> into the slice of \<open>xs\<close> at \<open>off\<close>.\<close>

definition set_range :: "'a list \<Rightarrow> nat \<Rightarrow> 'a list \<Rightarrow> 'a list" where
  "set_range xs off ys = take off xs @ ys @ drop (off + length ys) xs"

lemma get_range_length: "get_range xs off n = Some ys \<Longrightarrow> length ys = n"
  by (auto simp: get_range_def split: if_splits)

lemma length_set_range [simp]: "off + length ys \<le> length xs \<Longrightarrow> length (set_range xs off ys) = length xs"
  by (simp add: set_range_def)

lemma get_set_range_same:
  "off + length ys \<le> length xs \<Longrightarrow> n = length ys \<Longrightarrow> get_range (set_range xs off ys) off n = Some ys"
  by (simp add: get_range_def set_range_def)

lemma nth_set_range_outside:
  assumes "off + length ys \<le> length xs" "i < off \<or> off + length ys \<le> i"
  shows "set_range xs off ys ! i = xs ! i"
  using assms by (auto simp: set_range_def nth_append)

lemma get_set_range_disjoint:
  assumes "off + length ys \<le> length xs" "p + n \<le> off \<or> off + length ys \<le> p"
  shows "get_range (set_range xs off ys) p n = get_range xs p n"
proof -
  have "take n (drop p (set_range xs off ys)) = take n (drop p xs)" if "p + n \<le> length xs"
  proof (rule nth_equalityI)
    show "length (take n (drop p (set_range xs off ys))) = length (take n (drop p xs))"
      using assms(1) by simp
  next
    fix i assume "i < length (take n (drop p (set_range xs off ys)))"
    with that assms(1) have i: "i < n" "p + i < length xs" by auto
    with assms have "set_range xs off ys ! (p + i) = xs ! (p + i)"
      by (intro nth_set_range_outside) auto
    with i that assms(1) show "take n (drop p (set_range xs off ys)) ! i = take n (drop p xs) ! i"
      by simp
  qed
  then show ?thesis using assms(1) by (simp add: get_range_def)
qed

section \<open>Little-endian words\<close>

text \<open>\<open>from_le_bytes\<close> and \<open>to_le_bytes\<close> for the widths of Rust's integers.\<close>

fun le_nat :: "u8 list \<Rightarrow> nat" where
  "le_nat [] = 0"
| "le_nat (b # bs) = unat b + 256 * le_nat bs"

fun nat_le :: "nat \<Rightarrow> nat \<Rightarrow> u8 list" where
  "nat_le 0 v = []"
| "nat_le (Suc n) v = of_nat (v mod 256) # nat_le n (v div 256)"

definition from_le :: "u8 list \<Rightarrow> 'n::len word" where
  "from_le bs = of_nat (le_nat bs)"

definition to_le :: "nat \<Rightarrow> 'n::len word \<Rightarrow> u8 list" where
  "to_le n w = nat_le n (unat w)"

lemma length_nat_le [simp]: "length (nat_le n v) = n"
  by (induction n arbitrary: v) simp_all

lemma length_to_le [simp]: "length (to_le n w) = n"
  by (simp add: to_le_def)

lemma unat_of_nat_byte [simp]: "unat (of_nat (v mod 256) :: u8) = v mod 256"
  by (simp add: unat_of_nat)

lemma le_nat_nat_le: "le_nat (nat_le n v) = v mod 256 ^ n"
proof (induction n arbitrary: v)
  case (Suc n)
  have "v mod (256 * 256 ^ n) = v mod 256 + 256 * (v div 256 mod 256 ^ n)"
    by (simp add: mod_mult2_eq)
  with Suc show ?case by simp
qed simp

lemma le_nat_bound: "le_nat bs < 256 ^ length bs"
proof (induction bs)
  case (Cons b bs)
  have "unat b < 256" using unsigned_less [of b, where ?'a = nat] by simp
  with Cons show ?case by simp
qed simp

lemma nat_le_le_nat: "nat_le (length bs) (le_nat bs) = bs"
proof (induction bs)
  case (Cons b bs)
  have b: "unat b < 256" using unsigned_less [of b, where ?'a = nat] by simp
  then have "(unat b + 256 * le_nat bs) mod 256 = unat b"
    and "(unat b + 256 * le_nat bs) div 256 = le_nat bs" by simp_all
  with Cons show ?case by simp
qed simp

lemma from_le_to_le:
  "LENGTH('n) = 8 * n \<Longrightarrow> from_le (to_le n (w :: 'n::len word)) = w"
proof -
  assume len: "LENGTH('n) = 8 * n"
  have "unat w < 256 ^ n"
    using unsigned_less [of w, where ?'a = nat] len by (simp add: power_mult)
  then show ?thesis by (simp add: from_le_def to_le_def le_nat_nat_le)
qed

lemma to_le_from_le:
  "LENGTH('n) = 8 * length bs \<Longrightarrow> to_le (length bs) (from_le bs :: 'n::len word) = bs"
proof -
  assume len: "LENGTH('n) = 8 * length bs"
  have "le_nat bs < 2 ^ LENGTH('n)"
    using le_nat_bound [of bs] len by (simp add: power_mult)
  then have "unat (from_le bs :: 'n word) = le_nat bs"
    by (simp add: from_le_def unat_of_nat take_bit_nat_eq_self)
  then show ?thesis by (simp add: to_le_def nat_le_le_nat)
qed

section \<open>Numbers in messages\<close>

text \<open>\<open>{}\<close> of an unsigned number in a format string, and \<open>{:08X}\<close> of a \<open>u32\<close>.\<close>

definition digit_char :: "nat \<Rightarrow> char" where
  "digit_char d = ''0123456789ABCDEF'' ! d"

fun show_nat :: "nat \<Rightarrow> string" where
  "show_nat n = (if n < 10 then [digit_char n] else show_nat (n div 10) @ [digit_char (n mod 10)])"

declare show_nat.simps [simp del]

fun show_hex_digits :: "nat \<Rightarrow> nat \<Rightarrow> string" where
  "show_hex_digits 0 n = []"
| "show_hex_digits (Suc k) n = show_hex_digits k (n div 16) @ [digit_char (n mod 16)]"

definition show_hex8 :: "u32 \<Rightarrow> string" where
  "show_hex8 w = show_hex_digits 8 (unat w)"

end
