(* ===== verification/Wire.thy ===== *)
theory Wire
  imports Prelude
begin

text \<open>
  What the network protocols share: big-endian words (\<open>from_be_bytes\<close>, \<open>to_be_bytes\<close>), the
  bytes of an ASCII literal, and \<open>String::from_utf8_lossy\<close>. A Rust \<open>String\<close> is the list of its
  UTF-8 bytes here.
\<close>

section \<open>Big-endian words\<close>

definition from_be :: "u8 list \<Rightarrow> 'n::len word" where
  "from_be bs = from_le (rev bs)"

definition to_be :: "nat \<Rightarrow> 'n::len word \<Rightarrow> u8 list" where
  "to_be n w = rev (to_le n w)"

lemma length_to_be [simp]: "length (to_be n w) = n"
  by (simp add: to_be_def)

lemma from_be_to_be: "LENGTH('n) = 8 * n \<Longrightarrow> from_be (to_be n (w :: 'n::len word)) = w"
  by (simp add: from_be_def to_be_def from_le_to_le)

lemma to_be_from_be: "LENGTH('n) = 8 * length bs \<Longrightarrow> to_be (length bs) (from_be bs :: 'n::len word) = bs"
  using to_le_from_le [of "rev bs", where ?'n = 'n] by (simp add: from_be_def to_be_def)

text \<open>The two shapes in which the decoders meet a 16-bit word.\<close>

lemma to_be_2: "\<exists>a b. to_be 2 (w :: u16) = [a, b]"
  by (simp add: to_be_def to_le_def numeral_2_eq_2)

lemma from_be_pair: "to_be 2 (w :: u16) = [a, b] \<Longrightarrow> from_be [a, b] = w"
  using from_be_to_be [of 2 w] by simp

section \<open>Text\<close>

definition ascii :: "string \<Rightarrow> u8 list" where
  "ascii = map of_char"

text \<open>
  \<open>from_utf8_lossy\<close> reads one chunk at a time: a well-formed character, or the longest prefix of
  one, which becomes the replacement character U+FFFD.
\<close>

definition char_width :: "u8 \<Rightarrow> nat" where
  "char_width b =
     (if b < 0x80 then 1 else if 0xC2 \<le> b \<and> b \<le> 0xDF then 2
      else if 0xE0 \<le> b \<and> b \<le> 0xEF then 3 else if 0xF0 \<le> b \<and> b \<le> 0xF4 then 4 else 0)"

definition byte_at :: "u8 list \<Rightarrow> nat \<Rightarrow> u8" where
  "byte_at bs i = (if i < length bs then bs ! i else 0)"

definition is_cont :: "u8 \<Rightarrow> bool" where
  "is_cont b \<longleftrightarrow> b AND 0xC0 = 0x80"

definition second_ok :: "u8 \<Rightarrow> u8 \<Rightarrow> bool" where
  "second_ok b c \<longleftrightarrow>
     (if b = 0xE0 then 0xA0 \<le> c \<and> c \<le> 0xBF else if b = 0xED then 0x80 \<le> c \<and> c \<le> 0x9F
      else if b = 0xF0 then 0x90 \<le> c \<and> c \<le> 0xBF else if b = 0xF4 then 0x80 \<le> c \<and> c \<le> 0x8F
      else 0x80 \<le> c \<and> c \<le> 0xBF)"

text \<open>Whether the first chunk is a character, and its length.\<close>

definition utf8_chunk :: "u8 list \<Rightarrow> bool \<times> nat" where
  "utf8_chunk bs =
     (let b = byte_at bs 0; w = char_width b in
      if w = 1 then (True, 1)
      else if w = 2 then (if is_cont (byte_at bs 1) then (True, 2) else (False, 1))
      else if w = 3 then
        (if \<not> second_ok b (byte_at bs 1) then (False, 1)
         else if is_cont (byte_at bs 2) then (True, 3) else (False, 2))
      else if w = 4 then
        (if \<not> second_ok b (byte_at bs 1) then (False, 1)
         else if \<not> is_cont (byte_at bs 2) then (False, 2)
         else if is_cont (byte_at bs 3) then (True, 4) else (False, 3))
      else (False, 1))"

lemma utf8_chunk_pos: "0 < snd (utf8_chunk bs)"
  by (simp add: utf8_chunk_def Let_def)

function utf8_lossy :: "u8 list \<Rightarrow> u8 list" where
  "utf8_lossy bs =
     (if bs = [] then []
      else (if fst (utf8_chunk bs) then take (snd (utf8_chunk bs)) bs else [0xEF, 0xBF, 0xBD]) @
           utf8_lossy (drop (snd (utf8_chunk bs)) bs))"
  by auto

termination
  by (relation "measure length") (use utf8_chunk_pos in auto)

declare utf8_lossy.simps [simp del]

lemma utf8_lossy_Nil [simp]: "utf8_lossy [] = []"
  by (subst utf8_lossy.simps) simp

text \<open>The invariant of a Rust \<open>String\<close>: its bytes are a sequence of characters.\<close>

function utf8_valid :: "u8 list \<Rightarrow> bool" where
  "utf8_valid bs \<longleftrightarrow>
     (if bs = [] then True else fst (utf8_chunk bs) \<and> utf8_valid (drop (snd (utf8_chunk bs)) bs))"
  by auto

termination
  by (relation "measure length") (use utf8_chunk_pos in auto)

declare utf8_valid.simps [simp del]

lemma utf8_lossy_valid: "utf8_valid bs \<Longrightarrow> utf8_lossy bs = bs"
proof (induction bs rule: utf8_valid.induct)
  case (1 bs)
  then show ?case by (cases "bs = []") (auto simp: utf8_valid.simps [of bs] utf8_lossy.simps [of bs])
qed

lemma utf8_valid_ascii: "\<forall>b \<in> set bs. b < 0x80 \<Longrightarrow> utf8_valid bs"
proof (induction bs)
  case (Cons b bs)
  then show ?case
    by (subst utf8_valid.simps) (simp add: utf8_chunk_def byte_at_def char_width_def)
qed (subst utf8_valid.simps, simp)

end
