(* ===== verification/Ieee.thy ===== *)
theory Ieee
  imports Prelude
begin

text \<open>
  Rust's \<open>f32\<close> and \<open>f64\<close>: IEEE 754 binary formats with round-to-nearest-even, as functions on bit
  patterns. A finite value is a sign, a natural significand and an exponent of two, so every
  operation is computed exactly on integers and rounded once. Where Rust leaves the payload of a
  resulting NaN open, the model picks the quiet NaN with a zero payload. \<open>as\<close> casts to integers
  truncate, saturate, and send NaN to 0.
\<close>

section \<open>Formats and values\<close>

record ffmt =
  ebits :: nat
  mbits :: nat

definition F32 :: ffmt where "F32 = \<lparr>ebits = 8, mbits = 23\<rparr>"
definition F64 :: ffmt where "F64 = \<lparr>ebits = 11, mbits = 52\<rparr>"

definition bias :: "ffmt \<Rightarrow> int" where
  "bias f = 2 ^ (ebits f - 1) - 1"

definition inf_bits :: "ffmt \<Rightarrow> nat" where
  "inf_bits f = (2 ^ ebits f - 1) * 2 ^ mbits f"

definition sign_bit :: "ffmt \<Rightarrow> nat" where
  "sign_bit f = 2 ^ (ebits f + mbits f)"

text \<open>\<open>FFin neg m e\<close> is \<open>m * 2 ^ e\<close>, negated when \<open>neg\<close>; zeros keep their sign.\<close>

datatype fval = FNaN | FInf bool | FFin bool nat int

definition magnitude :: "ffmt \<Rightarrow> nat \<Rightarrow> nat" where
  "magnitude f b = b mod sign_bit f"

definition negative :: "ffmt \<Rightarrow> nat \<Rightarrow> bool" where
  "negative f b \<longleftrightarrow> sign_bit f \<le> b"

definition is_nan :: "ffmt \<Rightarrow> nat \<Rightarrow> bool" where
  "is_nan f b \<longleftrightarrow> inf_bits f < magnitude f b"

definition decode_mag :: "ffmt \<Rightarrow> bool \<Rightarrow> nat \<Rightarrow> fval" where
  "decode_mag f neg g =
     (if inf_bits f < g then FNaN
      else if g = inf_bits f then FInf neg
      else if g div 2 ^ mbits f = 0 then FFin neg g (1 - bias f - int (mbits f))
      else FFin neg (2 ^ mbits f + g mod 2 ^ mbits f)
             (int (g div 2 ^ mbits f) - bias f - int (mbits f)))"

definition decode :: "ffmt \<Rightarrow> nat \<Rightarrow> fval" where
  "decode f b = decode_mag f (negative f b) (magnitude f b)"

section \<open>Rounding\<close>

fun bitlen :: "nat \<Rightarrow> nat" where
  "bitlen n = (if n = 0 then 0 else Suc (bitlen (n div 2)))"

declare bitlen.simps [simp del]

text \<open>The exponent \<open>k\<close> with \<open>2 ^ k \<le> n / d < 2 ^ (k + 1)\<close>.\<close>

definition ilog2_from :: "int \<Rightarrow> nat \<Rightarrow> nat \<Rightarrow> int" where
  "ilog2_from k n d = (if d * 2 ^ nat k \<le> n * 2 ^ nat (- k) then k else k - 1)"

definition ilog2 :: "nat \<Rightarrow> nat \<Rightarrow> int" where
  "ilog2 n d = ilog2_from (int (bitlen n) - int (bitlen d)) n d"

text \<open>Division rounded to the nearest integer, ties to the even one.\<close>

definition rne :: "nat \<Rightarrow> nat \<Rightarrow> nat" where
  "rne num den =
     (if den < 2 * (num mod den) \<or> 2 * (num mod den) = den \<and> odd (num div den)
      then num div den + 1 else num div den)"

text \<open>The bits of the magnitude nearest to \<open>n / d\<close> on the grid of exponent \<open>q\<close>, overflowing to
  infinity. A carry out of the significand moves to the next exponent by itself.\<close>

definition round_at :: "ffmt \<Rightarrow> int \<Rightarrow> nat \<Rightarrow> nat \<Rightarrow> nat" where
  "round_at f q n d =
     min (inf_bits f)
       (nat (q - (1 - bias f)) * 2 ^ mbits f +
        rne (n * 2 ^ nat (int (mbits f) - q)) (d * 2 ^ nat (q - int (mbits f))))"

definition round_mag :: "ffmt \<Rightarrow> nat \<Rightarrow> nat \<Rightarrow> nat" where
  "round_mag f n d = round_at f (max (ilog2 n d) (1 - bias f)) n d"

definition nan_bits :: "ffmt \<Rightarrow> nat" where
  "nan_bits f = inf_bits f + 2 ^ (mbits f - 1)"

definition pack :: "ffmt \<Rightarrow> bool \<Rightarrow> nat \<Rightarrow> nat" where
  "pack f neg g = (if neg then sign_bit f + g else g)"

definition encode :: "ffmt \<Rightarrow> fval \<Rightarrow> nat" where
  "encode f v =
     (case v of
        FNaN \<Rightarrow> nan_bits f
      | FInf neg \<Rightarrow> pack f neg (inf_bits f)
      | FFin neg m e \<Rightarrow> pack f neg
          (if m = 0 then 0 else round_mag f (m * 2 ^ nat e) (2 ^ nat (- e))))"

section \<open>Arithmetic\<close>

definition fmul :: "ffmt \<Rightarrow> nat \<Rightarrow> nat \<Rightarrow> nat" where
  "fmul f a b =
     (case (decode f a, decode f b) of
        (FFin s m e, FFin t n g) \<Rightarrow> encode f (FFin (s \<noteq> t) (m * n) (e + g))
      | (FInf s, FInf t) \<Rightarrow> encode f (FInf (s \<noteq> t))
      | (FInf s, FFin t n g) \<Rightarrow> encode f (if n = 0 then FNaN else FInf (s \<noteq> t))
      | (FFin s m e, FInf t) \<Rightarrow> encode f (if m = 0 then FNaN else FInf (s \<noteq> t))
      | _ \<Rightarrow> encode f FNaN)"

text \<open>A quotient \<open>m * 2 ^ e / (n * 2 ^ g)\<close> is rounded from its exact fraction.\<close>

definition fdiv :: "ffmt \<Rightarrow> nat \<Rightarrow> nat \<Rightarrow> nat" where
  "fdiv f a b =
     (case (decode f a, decode f b) of
        (FFin s m e, FFin t n g) \<Rightarrow>
          (if n = 0 then encode f (if m = 0 then FNaN else FInf (s \<noteq> t))
           else if m = 0 then pack f (s \<noteq> t) 0
           else pack f (s \<noteq> t)
                  (round_mag f (m * 2 ^ nat (e - g)) (n * 2 ^ nat (g - e))))
      | (FInf s, FFin t n g) \<Rightarrow> encode f (FInf (s \<noteq> t))
      | (FFin s m e, FInf t) \<Rightarrow> pack f (s \<noteq> t) 0
      | _ \<Rightarrow> encode f FNaN)"

definition signed_int :: "bool \<Rightarrow> nat \<Rightarrow> int" where
  "signed_int neg m = (if neg then - int m else int m)"

definition fadd :: "ffmt \<Rightarrow> nat \<Rightarrow> nat \<Rightarrow> nat" where
  "fadd f a b =
     (case (decode f a, decode f b) of
        (FFin s m e, FFin t n g) \<Rightarrow>
          (let k = min e g;
               x = signed_int s (m * 2 ^ nat (e - k)) + signed_int t (n * 2 ^ nat (g - k))
           in if x = 0 then pack f (s \<and> t) 0
              else encode f (FFin (x < 0) (nat \<bar>x\<bar>) k))
      | (FInf s, FInf t) \<Rightarrow> encode f (if s = t then FInf s else FNaN)
      | (FInf s, FFin t n g) \<Rightarrow> encode f (FInf s)
      | (FFin s m e, FInf t) \<Rightarrow> encode f (FInf t)
      | _ \<Rightarrow> encode f FNaN)"

text \<open>Unary minus flips the sign bit, also of a NaN; subtraction adds the negation.\<close>

definition fneg :: "ffmt \<Rightarrow> nat \<Rightarrow> nat" where
  "fneg f b = pack f (\<not> negative f b) (magnitude f b)"

definition fsub :: "ffmt \<Rightarrow> nat \<Rightarrow> nat \<Rightarrow> nat" where
  "fsub f a b = fadd f a (fneg f b)"

section \<open>Comparison\<close>

text \<open>Sign and magnitude as an integer: the order of the values other than NaN, with both zeros
  at 0.\<close>

definition fkey :: "ffmt \<Rightarrow> nat \<Rightarrow> int" where
  "fkey f b = signed_int (negative f b) (magnitude f b)"

definition feq :: "ffmt \<Rightarrow> nat \<Rightarrow> nat \<Rightarrow> bool" where
  "feq f a b \<longleftrightarrow> \<not> is_nan f a \<and> \<not> is_nan f b \<and> fkey f a = fkey f b"

definition flt :: "ffmt \<Rightarrow> nat \<Rightarrow> nat \<Rightarrow> bool" where
  "flt f a b \<longleftrightarrow> \<not> is_nan f a \<and> \<not> is_nan f b \<and> fkey f a < fkey f b"

definition fle :: "ffmt \<Rightarrow> nat \<Rightarrow> nat \<Rightarrow> bool" where
  "fle f a b \<longleftrightarrow> \<not> is_nan f a \<and> \<not> is_nan f b \<and> fkey f a \<le> fkey f b"

section \<open>Casts\<close>

definition int_to_float :: "ffmt \<Rightarrow> int \<Rightarrow> nat" where
  "int_to_float f i = encode f (FFin (i < 0) (nat \<bar>i\<bar>) 0)"

text \<open>To a signed integer of \<open>w\<close> bits.\<close>

definition float_to_int :: "ffmt \<Rightarrow> nat \<Rightarrow> nat \<Rightarrow> int" where
  "float_to_int f w b =
     (let lo = - (2 ^ (w - 1)); hi = 2 ^ (w - 1) - 1 in
      case decode f b of
        FNaN \<Rightarrow> 0
      | FInf neg \<Rightarrow> (if neg then lo else hi)
      | FFin neg m e \<Rightarrow>
          max lo (min hi (signed_int neg (m * 2 ^ nat e div 2 ^ nat (- e)))))"

definition float_to_float :: "ffmt \<Rightarrow> ffmt \<Rightarrow> nat \<Rightarrow> nat" where
  "float_to_float f g b = encode g (decode f b)"

section \<open>The two formats on words\<close>

definition op32 :: "(ffmt \<Rightarrow> nat \<Rightarrow> nat \<Rightarrow> nat) \<Rightarrow> u32 \<Rightarrow> u32 \<Rightarrow> u32" where
  "op32 h a b = of_nat (h F32 (unat a) (unat b))"

definition op64 :: "(ffmt \<Rightarrow> nat \<Rightarrow> nat \<Rightarrow> nat) \<Rightarrow> u64 \<Rightarrow> u64 \<Rightarrow> u64" where
  "op64 h a b = of_nat (h F64 (unat a) (unat b))"

definition rel32 :: "(ffmt \<Rightarrow> nat \<Rightarrow> nat \<Rightarrow> bool) \<Rightarrow> u32 \<Rightarrow> u32 \<Rightarrow> bool" where
  "rel32 h a b = h F32 (unat a) (unat b)"

definition rel64 :: "(ffmt \<Rightarrow> nat \<Rightarrow> nat \<Rightarrow> bool) \<Rightarrow> u64 \<Rightarrow> u64 \<Rightarrow> bool" where
  "rel64 h a b = h F64 (unat a) (unat b)"

definition nan32 :: "u32 \<Rightarrow> bool" where "nan32 a = is_nan F32 (unat a)"
definition nan64 :: "u64 \<Rightarrow> bool" where "nan64 a = is_nan F64 (unat a)"

definition neg32 :: "u32 \<Rightarrow> u32" where "neg32 a = of_nat (fneg F32 (unat a))"
definition neg64 :: "u64 \<Rightarrow> u64" where "neg64 a = of_nat (fneg F64 (unat a))"

definition f32_of_int :: "int \<Rightarrow> u32" where "f32_of_int i = of_nat (int_to_float F32 i)"
definition f64_of_int :: "int \<Rightarrow> u64" where "f64_of_int i = of_nat (int_to_float F64 i)"

definition f32_to_i32 :: "u32 \<Rightarrow> i32" where "f32_to_i32 a = of_int (float_to_int F32 32 (unat a))"
definition f32_to_i64 :: "u32 \<Rightarrow> i64" where "f32_to_i64 a = of_int (float_to_int F32 64 (unat a))"
definition f64_to_i32 :: "u64 \<Rightarrow> i32" where "f64_to_i32 a = of_int (float_to_int F64 32 (unat a))"
definition f64_to_i64 :: "u64 \<Rightarrow> i64" where "f64_to_i64 a = of_int (float_to_int F64 64 (unat a))"
definition f32_to_f64 :: "u32 \<Rightarrow> u64" where
  "f32_to_f64 a = of_nat (float_to_float F32 F64 (unat a))"
definition f64_to_f32 :: "u64 \<Rightarrow> u32" where
  "f64_to_f32 a = of_nat (float_to_float F64 F32 (unat a))"

section \<open>Facts\<close>

lemma fadd_commute: "fadd f a b = fadd f b a"
  by (simp add: fadd_def Let_def min.commute add.commute conj_commute split: fval.split)

lemma fmul_commute: "fmul f a b = fmul f b a"
proof -
  have neq: "(s = (\<not> t)) = (t = (\<not> s))" for s t by blast
  show ?thesis
    by (cases "decode f a"; cases "decode f b")
       (simp_all add: fmul_def mult.commute add.commute neq)
qed

lemma feq_refl: "feq f a a \<longleftrightarrow> \<not> is_nan f a"
  by (auto simp: feq_def)

lemma fle_iff: "fle f a b \<longleftrightarrow> flt f a b \<or> feq f a b"
  by (auto simp: fle_def flt_def feq_def)

lemma flt_trichotomy:
  "\<not> is_nan f a \<Longrightarrow> \<not> is_nan f b \<Longrightarrow> flt f a b \<or> feq f a b \<or> flt f b a"
  by (auto simp: flt_def feq_def)

lemmas ieee_defs = op32_def op64_def rel32_def rel64_def nan32_def nan64_def neg32_def neg64_def
  f32_of_int_def f64_of_int_def f32_to_i32_def f32_to_i64_def f64_to_i32_def f64_to_i64_def
  f32_to_f64_def f64_to_f32_def fdiv_def fadd_def fmul_def fsub_def fneg_def feq_def flt_def fle_def
  fkey_def int_to_float_def float_to_int_def float_to_float_def encode_def decode_def decode_mag_def round_mag_def
  round_at_def rne_def ilog2_from_def ilog2_def pack_def nan_bits_def inf_bits_def sign_bit_def bias_def magnitude_def negative_def
  is_nan_def F32_def F64_def signed_int_def

text \<open>Known roundings: the first integer that single precision cannot represent goes to its even
  neighbour, one third and one tenth to the patterns every IEEE implementation gives them, and a
  value past the largest finite one to infinity.\<close>

lemma rounding_examples:
  "round_mag F32 16777217 1 = 0x4B800000"
  "round_mag F32 1 3 = 0x3EAAAAAB"
  "round_mag F64 1 10 = 0x3FB999999999999A"
  "round_mag F32 (2 ^ 128) 1 = inf_bits F32"
  by (simp_all add: ieee_defs bitlen.simps)

end
