(* ===== verification/Floats.thy ===== *)
theory Floats
  imports Ieee
begin

text \<open>
  Rust's \<open>f64\<close> as the engine uses it, and time. A double is its bit pattern; the operators are those
  of \<open>Ieee\<close> at the double format, the methods \<open>abs\<close>, \<open>min\<close>, \<open>max\<close>, \<open>clamp\<close> and \<open>sqrt\<close> follow the
  standard library. A decimal literal is the double nearest to its fraction. An
  \<open>Instant\<close> is a number of nanoseconds on the monotonic clock and a \<open>Duration\<close> a number of nanoseconds.
\<close>

type_synonym f64 = u64

section \<open>Operators\<close>

definition add64 :: "f64 \<Rightarrow> f64 \<Rightarrow> f64" where "add64 = op64 fadd"
definition sub64 :: "f64 \<Rightarrow> f64 \<Rightarrow> f64" where "sub64 = op64 fsub"
definition mul64 :: "f64 \<Rightarrow> f64 \<Rightarrow> f64" where "mul64 = op64 fmul"
definition div64 :: "f64 \<Rightarrow> f64 \<Rightarrow> f64" where "div64 = op64 fdiv"
definition lt64 :: "f64 \<Rightarrow> f64 \<Rightarrow> bool" where "lt64 = rel64 flt"
definition le64 :: "f64 \<Rightarrow> f64 \<Rightarrow> bool" where "le64 = rel64 fle"
definition eq64 :: "f64 \<Rightarrow> f64 \<Rightarrow> bool" where "eq64 = rel64 feq"

text \<open>The literal \<open>n / d\<close>, for instance \<open>lit 1 1000\<close> for \<open>0.001\<close>.\<close>

definition lit :: "nat \<Rightarrow> nat \<Rightarrow> f64" where
  "lit n d = (if n = 0 then 0 else of_nat (round_mag F64 n d))"

definition abs64 :: "f64 \<Rightarrow> f64" where
  "abs64 a = of_nat (magnitude F64 (unat a))"

definition is_finite64 :: "f64 \<Rightarrow> bool" where
  "is_finite64 a \<longleftrightarrow> magnitude F64 (unat a) < inf_bits F64"

definition min64 :: "f64 \<Rightarrow> f64 \<Rightarrow> f64" where
  "min64 a b = (if nan64 a then b else if nan64 b then a else if lt64 b a then b else a)"

definition max64 :: "f64 \<Rightarrow> f64 \<Rightarrow> f64" where
  "max64 a b = (if nan64 a then b else if nan64 b then a else if lt64 a b then b else a)"

text \<open>\<open>clamp\<close> asserts that its bounds are ordered, so that a NaN bound panics too.\<close>

definition clamp64 :: "f64 \<Rightarrow> f64 \<Rightarrow> f64 \<Rightarrow> ('e, f64) outcome" where
  "clamp64 v lo hi =
     (if \<not> le64 lo hi then Panic else Ok (if lt64 v lo then lo else if lt64 hi v then hi else v))"

definition signum64 :: "f64 \<Rightarrow> f64" where
  "signum64 a = (if nan64 a then a else if negative F64 (unat a) then neg64 (lit 1 1) else lit 1 1)"

text \<open>\<open>f64::round\<close>: to the nearest integer, halves away from zero; the sign of the argument stays.\<close>

definition round64 :: "f64 \<Rightarrow> f64" where
  "round64 a = (case decode F64 (unat a) of
      FFin neg m e \<Rightarrow> (if 0 \<le> e then a
        else of_nat (encode F64 (FFin neg ((2 * m + 2 ^ nat (- e)) div (2 * 2 ^ nat (- e))) 0)))
    | _ \<Rightarrow> a)"

text \<open>\<open>f64::powi\<close> as the compiler's run-time library computes it: repeated squaring of the base, and the
  reciprocal of the result when the exponent is negative.\<close>

fun powi_loop :: "f64 \<Rightarrow> nat \<Rightarrow> f64 \<Rightarrow> f64" where
  "powi_loop a n r =
     (let r' = (if odd n then mul64 r a else r)
      in if n div 2 = 0 then r' else powi_loop (mul64 a a) (n div 2) r')"

declare powi_loop.simps [simp del]

definition powi64 :: "f64 \<Rightarrow> i32 \<Rightarrow> f64" where
  "powi64 a k = (let r = powi_loop a (nat \<bar>sint k\<bar>) (lit 1 1) in if sint k < 0 then div64 (lit 1 1) r else r)"

text \<open>The cast to \<open>u8\<close> saturates, and NaN is zero.\<close>

definition f64_to_u8 :: "f64 \<Rightarrow> u8" where
  "f64_to_u8 a = of_int (max 0 (min 255 (float_to_int F64 64 (unat a))))"

section \<open>Square root\<close>

definition isqrt_digit :: "nat \<Rightarrow> nat \<Rightarrow> nat" where
  "isqrt_digit n r = (if (2 * r + 1) * (2 * r + 1) \<le> n then 2 * r + 1 else 2 * r)"

fun isqrt :: "nat \<Rightarrow> nat" where
  "isqrt n = (if n = 0 then 0 else isqrt_digit n (isqrt (n div 4)))"

declare isqrt.simps [simp del]

text \<open>The root of an even power of two times an integer with at least 128 bits, with a sticky bit that
  records whether the integer root is exact; \<open>encode\<close> rounds the result once.\<close>

definition sticky :: "nat \<Rightarrow> nat \<Rightarrow> nat" where
  "sticky n r = 2 * r + (if r * r = n then 0 else 1)"

definition sqrt_fin :: "nat \<Rightarrow> int \<Rightarrow> fval" where
  "sqrt_fin m e =
     (if even e then FFin False (sticky (m * 2 ^ 128) (isqrt (m * 2 ^ 128))) ((e - 128) div 2 - 1)
      else FFin False (sticky (m * 2 ^ 129) (isqrt (m * 2 ^ 129))) ((e - 129) div 2 - 1))"

definition fsqrt :: "ffmt \<Rightarrow> nat \<Rightarrow> nat" where
  "fsqrt f a = (case decode f a of
      FNaN \<Rightarrow> encode f FNaN
    | FInf neg \<Rightarrow> encode f (if neg then FNaN else FInf False)
    | FFin neg m e \<Rightarrow> (if m = 0 then a else if neg then encode f FNaN else encode f (sqrt_fin m e)))"

definition sqrt64 :: "f64 \<Rightarrow> f64" where
  "sqrt64 a = of_nat (fsqrt F64 (unat a))"

lemma isqrt_spec: "isqrt n * isqrt n \<le> n \<and> n < (isqrt n + 1) * (isqrt n + 1)"
proof (induction n rule: less_induct)
  case (less n)
  show ?case
  proof (cases "n = 0")
    case False
    define r where "r = isqrt (n div 4)"
    have "r * r \<le> n div 4 \<and> n div 4 < (r + 1) * (r + 1)" using less False by (simp add: r_def)
    then have "4 * (r * r) \<le> n" "n < 4 * ((r + 1) * (r + 1))" by linarith+
    moreover have "isqrt n = isqrt_digit n r"
      using False by (simp add: isqrt.simps [of n] r_def)
    ultimately show ?thesis by (auto simp: isqrt_digit_def algebra_simps)
  qed (simp add: isqrt.simps)
qed

text \<open>Rules that evaluate the recursive functions on numerals only.\<close>

lemma bitlen_eval:
  "bitlen 0 = 0" "bitlen (Suc 0) = 1" "bitlen 2 = 2" "bitlen 3 = 2"
  "bitlen (numeral (num.Bit0 (num.Bit0 n))) = Suc (bitlen (numeral (num.Bit0 n)))"
  "bitlen (numeral (num.Bit0 (num.Bit1 n))) = Suc (bitlen (numeral (num.Bit1 n)))"
  "bitlen (numeral (num.Bit1 (num.Bit0 n))) = Suc (bitlen (numeral (num.Bit0 n)))"
  "bitlen (numeral (num.Bit1 (num.Bit1 n))) = Suc (bitlen (numeral (num.Bit1 n)))"
  by (subst bitlen.simps; simp add: bitlen.simps [of 1] bitlen.simps [of 0])+

lemma isqrt_eval:
  "isqrt 0 = 0" "isqrt (Suc 0) = 1" "isqrt (numeral n) = isqrt_digit (numeral n) (isqrt (numeral n div 4))"
  by (simp_all add: isqrt.simps isqrt_digit_def)

section \<open>Time\<close>

type_synonym instant = nat
type_synonym duration = nat

definition nanos :: nat where "nanos = 1000000000"

text \<open>\<open>Instant::elapsed\<close> and \<open>duration_since\<close> saturate at zero.\<close>

definition duration_since :: "instant \<Rightarrow> instant \<Rightarrow> duration" where
  "duration_since now prev = now - prev"

definition as_millis :: "duration \<Rightarrow> u64" where
  "as_millis d = of_nat (d div 1000000)"

definition from_millis :: "u64 \<Rightarrow> duration" where
  "from_millis ms = unat ms * 1000000"

definition as_secs_f64 :: "duration \<Rightarrow> f64" where
  "as_secs_f64 d = add64 (f64_of_int (int (d div nanos)))
     (div64 (f64_of_int (int (d mod nanos))) (f64_of_int (int nanos)))"

text \<open>\<open>Duration::from_secs_f64\<close> rounds to the nearest nanosecond and panics on a negative, infinite or NaN
  argument and on one that does not fit 64 bits of seconds.\<close>

definition from_secs_f64 :: "f64 \<Rightarrow> ('e, duration) outcome" where
  "from_secs_f64 a = (case decode F64 (unat a) of
      FFin neg m e \<Rightarrow>
        (if m = 0 then Ok 0 else if neg then Panic
         else let d = rne (m * 2 ^ nat e * nanos) (2 ^ nat (- e))
              in if d < 2 ^ 64 * nanos then Ok d else Panic)
    | _ \<Rightarrow> Panic)"

text \<open>\<open>Instant + Duration\<close> panics when the sum leaves the clock's 63 bits of seconds.\<close>

definition instant_add :: "instant \<Rightarrow> duration \<Rightarrow> ('e, instant) outcome" where
  "instant_add t d = (if t + d < 2 ^ 63 * nanos then Ok (t + d) else Panic)"

section \<open>Facts\<close>

lemmas float_defs = add64_def sub64_def mul64_def div64_def lt64_def le64_def eq64_def lit_def abs64_def
  is_finite64_def min64_def max64_def clamp64_def

lemma nan64_iff: "nan64 a \<longleftrightarrow> is_nan F64 (unat a)"
  by (simp add: nan64_def)

definition key64 :: "f64 \<Rightarrow> int" where
  "key64 a = fkey F64 (unat a)"

lemma lt64_key: "\<not> nan64 a \<Longrightarrow> \<not> nan64 b \<Longrightarrow> lt64 a b \<longleftrightarrow> key64 a < key64 b"
  by (simp add: lt64_def rel64_def flt_def key64_def nan64_def)

lemma le64_key: "\<not> nan64 a \<Longrightarrow> \<not> nan64 b \<Longrightarrow> le64 a b \<longleftrightarrow> key64 a \<le> key64 b"
  by (simp add: le64_def rel64_def fle_def key64_def nan64_def)

lemma eq64_key: "\<not> nan64 a \<Longrightarrow> \<not> nan64 b \<Longrightarrow> eq64 a b \<longleftrightarrow> key64 a = key64 b"
  by (simp add: eq64_def rel64_def feq_def key64_def nan64_def)

lemma nan_compare [simp]:
  "nan64 a \<Longrightarrow> \<not> lt64 a b" "nan64 b \<Longrightarrow> \<not> lt64 a b" "nan64 a \<Longrightarrow> \<not> le64 a b" "nan64 b \<Longrightarrow> \<not> le64 a b"
  "nan64 a \<Longrightarrow> \<not> eq64 a b" "nan64 b \<Longrightarrow> \<not> eq64 a b"
  by (simp_all add: float_defs rel64_def flt_def fle_def feq_def nan64_def)

lemma lt64_le64: "lt64 a b \<Longrightarrow> le64 a b"
  by (simp add: float_defs rel64_def flt_def fle_def)

lemma le64_trans: "le64 a b \<Longrightarrow> le64 b c \<Longrightarrow> le64 a c"
  by (simp add: float_defs rel64_def fle_def)

lemma not_le64: "\<not> nan64 a \<Longrightarrow> \<not> nan64 b \<Longrightarrow> \<not> le64 a b \<longleftrightarrow> lt64 b a"
  by (auto simp: le64_key lt64_key)

text \<open>A value clamped into ordered bounds lies between them unless it is NaN.\<close>

lemma clamp64_bounds:
  assumes "clamp64 v lo hi = (Ok w :: ('e, f64) outcome)" "\<not> nan64 v"
  shows "le64 lo w \<and> le64 w hi"
proof -
  have le: "le64 lo hi" using assms(1) by (simp add: clamp64_def split: if_splits)
  then have nn: "\<not> nan64 lo" "\<not> nan64 hi" by (metis nan_compare(3,4))+
  show ?thesis using assms le nn by (auto simp: clamp64_def le64_key lt64_key split: if_splits)
qed

lemma encode_eval:
  "encode f FNaN = nan_bits f" "encode f (FInf neg) = pack f neg (inf_bits f)"
  "encode f (FFin neg m e) = pack f neg (if m = 0 then 0 else round_mag f (m * 2 ^ nat e) (2 ^ nat (- e)))"
  by (simp_all add: encode_def)

text \<open>The operators as functions of the decoded values, with one rule for finite arguments.\<close>

definition add_val :: "ffmt \<Rightarrow> fval \<Rightarrow> fval \<Rightarrow> nat" where
  "add_val f x y = (case (x, y) of
        (FFin s m e, FFin t n g) \<Rightarrow>
          (let k = min e g;
               z = signed_int s (m * 2 ^ nat (e - k)) + signed_int t (n * 2 ^ nat (g - k))
           in if z = 0 then pack f (s \<and> t) 0
              else encode f (FFin (z < 0) (nat \<bar>z\<bar>) k))
      | (FInf s, FInf t) \<Rightarrow> encode f (if s = t then FInf s else FNaN)
      | (FInf s, FFin t n g) \<Rightarrow> encode f (FInf s)
      | (FFin s m e, FInf t) \<Rightarrow> encode f (FInf t)
      | _ \<Rightarrow> encode f FNaN)"

definition div_val :: "ffmt \<Rightarrow> fval \<Rightarrow> fval \<Rightarrow> nat" where
  "div_val f x y = (case (x, y) of
        (FFin s m e, FFin t n g) \<Rightarrow>
          (if n = 0 then encode f (if m = 0 then FNaN else FInf (s \<noteq> t))
           else if m = 0 then pack f (s \<noteq> t) 0
           else pack f (s \<noteq> t) (round_mag f (m * 2 ^ nat (e - g)) (n * 2 ^ nat (g - e))))
      | (FInf s, FFin t n g) \<Rightarrow> encode f (FInf (s \<noteq> t))
      | (FFin s m e, FInf t) \<Rightarrow> pack f (s \<noteq> t) 0
      | _ \<Rightarrow> encode f FNaN)"

definition mul_val :: "ffmt \<Rightarrow> fval \<Rightarrow> fval \<Rightarrow> nat" where
  "mul_val f x y = (case (x, y) of
        (FFin s m e, FFin t n g) \<Rightarrow> encode f (FFin (s \<noteq> t) (m * n) (e + g))
      | (FInf s, FInf t) \<Rightarrow> encode f (FInf (s \<noteq> t))
      | (FInf s, FFin t n g) \<Rightarrow> encode f (if n = 0 then FNaN else FInf (s \<noteq> t))
      | (FFin s m e, FInf t) \<Rightarrow> encode f (if m = 0 then FNaN else FInf (s \<noteq> t))
      | _ \<Rightarrow> encode f FNaN)"

lemma operator_vals:
  "fadd f a b = add_val f (decode f a) (decode f b)"
  "fdiv f a b = div_val f (decode f a) (decode f b)"
  "fmul f a b = mul_val f (decode f a) (decode f b)"
  by (simp_all add: fadd_def fdiv_def fmul_def add_val_def div_val_def mul_val_def)

lemma operator_fin:
  "add_val f (FFin s m e) (FFin t n g) =
     (let k = min e g; z = signed_int s (m * 2 ^ nat (e - k)) + signed_int t (n * 2 ^ nat (g - k))
      in if z = 0 then pack f (s \<and> t) 0 else encode f (FFin (z < 0) (nat \<bar>z\<bar>) k))"
  "n \<noteq> 0 \<Longrightarrow> m \<noteq> 0 \<Longrightarrow> div_val f (FFin s m e) (FFin t n g) =
     pack f (s \<noteq> t) (round_mag f (m * 2 ^ nat (e - g)) (n * 2 ^ nat (g - e)))"
  "mul_val f (FFin s m e) (FFin t n g) = encode f (FFin (s \<noteq> t) (m * n) (e + g))"
  by (simp_all add: add_val_def div_val_def mul_val_def)

lemmas float_eval = float_defs op64_def rel64_def nan64_def neg64_def f64_of_int_def f64_to_i32_def f64_to_i64_def
  operator_vals operator_fin fsub_def fneg_def feq_def flt_def fle_def fkey_def int_to_float_def float_to_int_def
  encode_eval decode_def decode_mag_def round_mag_def round_at_def rne_def ilog2_from_def ilog2_def pack_def
  nan_bits_def inf_bits_def sign_bit_def bias_def magnitude_def negative_def is_nan_def F64_def signed_int_def
  bitlen_eval isqrt_eval isqrt_digit_def sqrt64_def fsqrt_def sqrt_fin_def sticky_def as_secs_f64_def
  from_secs_f64_def nanos_def

text \<open>Known values: one tenth, five, the square roots of 2 and 6.25, and 1.5 seconds.\<close>

lemma literal_examples:
  "lit 1 10 = 0x3FB999999999999A"
  "f64_of_int 5 = 0x4014000000000000"
  "sqrt64 (f64_of_int 2) = 0x3FF6A09E667F3BCD"
  "sqrt64 (lit 625 100) = lit 25 10"
  "as_secs_f64 1500000000 = lit 15 10"
  "(from_secs_f64 (lit 15 10) :: (unit, duration) outcome) = Ok 1500000000"
  by (simp_all add: float_eval)

end
