(* ===== verification/Bacnet_Value.thy ===== *)
theory Bacnet_Value
  imports Wire Floats
begin

text \<open>
  The application tags of the BACnet driver (\<open>drivers/bacnet/value.rs\<close>), its errors (\<open>drivers/bacnet/mod.rs\<close>) and object types
  (\<open>drivers/bacnet/object.rs\<close>). Indexing and slicing outside an array are the outcome \<open>Panic\<close>; of an error message the model keeps what it is
  about. Floats are bit patterns, strings are their UTF-8 bytes.
\<close>

section \<open>Errors and slices\<close>

datatype bacnet_error =
  MalformedFrame string | UnsupportedEncoding string | PropertyNotFound | DeviceNotFound u32 | TransactionTimeout u32
| RemoteError u32 u32 | BacnetIo string

definition byte :: "u8 list \<Rightarrow> usize \<Rightarrow> ('e, u8) outcome" where
  "byte data i = (if i < length data then Ok (data ! i) else Panic)"

definition slice :: "u8 list \<Rightarrow> usize \<Rightarrow> usize \<Rightarrow> ('e, u8 list) outcome" where
  "slice data a b = (if a \<le> b \<and> b \<le> length data then Ok (take (b - a) (drop a data)) else Panic)"

definition slice_from :: "u8 list \<Rightarrow> usize \<Rightarrow> ('e, u8 list) outcome" where
  "slice_from data a = (if a \<le> length data then Ok (drop a data) else Panic)"

text \<open>\<open>from_be_bytes\<close> of consecutive bytes.\<close>

definition be_at :: "u8 list \<Rightarrow> usize \<Rightarrow> usize \<Rightarrow> ('e, 'n::len word) outcome" where
  "be_at data i n = bindO (slice data i (i + n)) (\<lambda>bs. Ok (from_be bs))"

lemmas slice_defs = byte_def slice_def slice_from_def be_at_def

section \<open>Values\<close>

datatype bacnet_value =
  Null | Boolean bool | Unsigned u32 | Signed i32 | Real u32 | Double u64 | OctetString "u8 list" | CharacterString "u8 list"
| BitString "u8 list" | Enumerated u32 | Date "u8 list" | Time "u8 list" | ObjectId u16 u32 | UnknownTag | Array "bacnet_value list"

fun to_f64 :: "bacnet_value \<Rightarrow> f64 option" where
  "to_f64 (Real v) = Some (f32_to_f64 v)"
| "to_f64 (Double v) = Some v"
| "to_f64 (Unsigned v) = Some (f64_of_int (uint v))"
| "to_f64 (Signed v) = Some (f64_of_int (sint v))"
| "to_f64 (Boolean b) = Some (if b then f64_of_int 1 else 0)"
| "to_f64 (Enumerated v) = Some (f64_of_int (uint v))"
| "to_f64 (Array (v # vs)) = to_f64 v"
| "to_f64 _ = None"

section \<open>Tags\<close>

definition tag_num :: "u8 \<Rightarrow> u8" where
  "tag_num b = drop_bit 4 b AND 0x0F"

definition tag_class :: "u8 \<Rightarrow> u8" where
  "tag_class b = drop_bit 3 b AND 0x01"

definition tag_lvt :: "u8 \<Rightarrow> usize" where
  "tag_lvt b = unat (b AND 0x07)"

text \<open>The number in the first bytes, big-endian, of at most four.\<close>

definition read_unsigned :: "u8 list \<Rightarrow> usize \<Rightarrow> (bacnet_error, u32) outcome" where
  "read_unsigned data len =
     (if length data < len then Err (MalformedFrame ''unsigned value'')
      else if len \<le> 4 then be_at data 0 len
      else Err (MalformedFrame ''unsigned value''))"

definition signed_of :: "usize \<Rightarrow> u32 \<Rightarrow> i32" where
  "signed_of lvt raw = (if lvt = 1 then scast (ucast raw :: u8) else if lvt = 2 then scast (ucast raw :: u16) else raw)"

text \<open>Length of a string and of its header.\<close>

definition string_header :: "u8 list \<Rightarrow> usize \<Rightarrow> (bacnet_error, usize \<times> usize) outcome" where
  "string_header data lvt =
     (if lvt \<le> 4 then Ok (lvt, 1)
      else if lvt = 5 then
        (if length data < 2 then Err (MalformedFrame ''CharacterString'') else bindO (byte data 1) (\<lambda>b. Ok (unat b, 2)))
      else if lvt = 6 then
        (if length data < 3 then Err (MalformedFrame ''CharacterString'') else bindO (be_at data 1 2) (\<lambda>n :: u16. Ok (unat n, 3)))
      else Err (MalformedFrame ''CharacterString''))"

definition decode_string :: "u8 list \<Rightarrow> usize \<Rightarrow> (bacnet_error, bacnet_value \<times> usize) outcome" where
  "decode_string data lvt = bindO (string_header data lvt) (\<lambda>(str_len, header_len).
     if str_len = 0 then Ok (CharacterString [], header_len)
     else if length data < header_len + str_len then Err (MalformedFrame ''CharacterString'')
     else bindO (if str_len > 1 then slice data (header_len + 1) (header_len + str_len) else Ok []) (\<lambda>s.
       Ok (CharacterString (utf8_lossy s), header_len + str_len)))"

text \<open>The two halves of an object identifier.\<close>

definition object_of :: "u32 \<Rightarrow> u16 \<times> u32" where
  "object_of raw = (ucast (drop_bit 22 raw AND 0x3FF), raw AND 0x3FFFFF)"

text \<open>A date or a time: four bytes.\<close>

definition decode_four :: "string \<Rightarrow> (u8 list \<Rightarrow> bacnet_value) \<Rightarrow> u8 list \<Rightarrow> usize \<Rightarrow> (bacnet_error, bacnet_value \<times> usize) outcome" where
  "decode_four what mk data lvt =
     (if lvt \<noteq> 4 \<or> length data < 5 then Err (MalformedFrame what) else bindO (slice data 1 5) (\<lambda>bs. Ok (mk bs, 5)))"

text \<open>The bytes behind the tag, as many as it says.\<close>

definition decode_bytes :: "string \<Rightarrow> (u8 list \<Rightarrow> bacnet_value) \<Rightarrow> u8 list \<Rightarrow> usize \<Rightarrow> (bacnet_error, bacnet_value \<times> usize) outcome" where
  "decode_bytes what mk data lvt =
     (if length data < 1 + lvt then Err (MalformedFrame what) else bindO (slice data 1 (1 + lvt)) (\<lambda>bs. Ok (mk bs, 1 + lvt)))"

definition decode_number :: "(u32 \<Rightarrow> bacnet_value) \<Rightarrow> u8 list \<Rightarrow> usize \<Rightarrow> (bacnet_error, bacnet_value \<times> usize) outcome" where
  "decode_number mk data lvt =
     bindO (slice_from data 1) (\<lambda>bs. bindO (read_unsigned bs lvt) (\<lambda>val. Ok (mk val, 1 + lvt)))"

definition decode_application_tag :: "u8 list \<Rightarrow> (bacnet_error, bacnet_value \<times> usize) outcome" where
  "decode_application_tag data =
     (if data = [] then Err (MalformedFrame ''application tag'')
      else bindO (byte data 0) (\<lambda>tag_byte.
        let tag = tag_num tag_byte; lvt = tag_lvt tag_byte
        in if tag_class tag_byte \<noteq> 0 then (if length data < 1 + lvt then Err (MalformedFrame ''context tag'') else Ok (UnknownTag, 1 + lvt))
           else if tag = 0 then Ok (Null, 1)
           else if tag = 1 then Ok (Boolean (lvt \<noteq> 0), 1)
           else if tag = 2 then decode_number Unsigned data lvt
           else if tag = 3 then decode_number (\<lambda>raw. Signed (signed_of lvt raw)) data lvt
           else if tag = 4 then
             (if lvt \<noteq> 4 then Err (MalformedFrame ''Real'')
              else if length data < 5 then Err (MalformedFrame ''Real'')
              else bindO (be_at data 1 4) (\<lambda>f. Ok (Real f, 5)))
           else if tag = 5 then
             (if length data < 9 then Err (MalformedFrame ''Double'') else bindO (be_at data 1 8) (\<lambda>d. Ok (Double d, 9)))
           else if tag = 6 then decode_bytes ''OctetString'' OctetString data lvt
           else if tag = 7 then decode_string data lvt
           else if tag = 8 then decode_bytes ''BitString'' BitString data lvt
           else if tag = 9 then decode_number Enumerated data lvt
           else if tag = 10 then decode_four ''Date'' Date data lvt
           else if tag = 11 then decode_four ''Time'' Time data lvt
           else if tag = 12 then
             (if lvt \<noteq> 4 then Err (MalformedFrame ''ObjectId'')
              else if length data < 5 then Err (MalformedFrame ''ObjectId'')
              else bindO (be_at data 1 4) (\<lambda>raw. case object_of raw of (t, i) \<Rightarrow> Ok (ObjectId t i, 5)))
           else if length data < 1 + lvt then Err (MalformedFrame ''unknown application tag'')
           else Ok (UnknownTag, 1 + lvt)))"

section \<open>Encoding helpers\<close>

definition encode_unsigned :: "u32 \<Rightarrow> u8 list" where
  "encode_unsigned n =
     (if n \<le> 0xFF then 0x21 # to_be 1 n else if n \<le> 0xFFFF then 0x22 # to_be 2 n
      else if n \<le> 0xFFFFFF then 0x23 # to_be 3 n else 0x24 # to_be 4 n)"

definition encode_object_id_context :: "u8 \<Rightarrow> u16 \<Rightarrow> u32 \<Rightarrow> u8 list" where
  "encode_object_id_context tag obj_type inst =
     (push_bit 4 (tag AND 0x0F) OR 0x08 OR 0x04) #
     to_be 4 (push_bit 22 (ucast obj_type AND 0x3FF) OR (inst AND 0x3FFFFF) :: u32)"

definition encode_property_id_context :: "u8 \<Rightarrow> u32 \<Rightarrow> u8 list" where
  "encode_property_id_context tag property_id =
     (let base = push_bit 4 (tag AND 0x0F) OR 0x08
      in if property_id \<le> 0xFF then (base OR 0x01) # to_be 1 property_id
         else if property_id \<le> 0xFFFF then (base OR 0x02) # to_be 2 property_id
         else if property_id \<le> 0xFFFFFF then (base OR 0x03) # to_be 3 property_id
         else (base OR 0x04) # to_be 4 property_id)"

section \<open>Object types and properties\<close>

datatype object_type =
  AnalogInput | AnalogOutput | AnalogValue | BinaryInput | BinaryOutput | BinaryValue | Device | TrendLog

definition object_type_from_u16 :: "u16 \<Rightarrow> object_type option" where
  "object_type_from_u16 n =
     (if n = 0 then Some AnalogInput else if n = 1 then Some AnalogOutput else if n = 2 then Some AnalogValue
      else if n = 3 then Some BinaryInput else if n = 4 then Some BinaryOutput else if n = 5 then Some BinaryValue
      else if n = 8 then Some Device else if n = 20 then Some TrendLog else None)"

fun object_type_number :: "object_type \<Rightarrow> u16" where
  "object_type_number AnalogInput = 0" | "object_type_number AnalogOutput = 1" | "object_type_number AnalogValue = 2"
| "object_type_number BinaryInput = 3" | "object_type_number BinaryOutput = 4" | "object_type_number BinaryValue = 5"
| "object_type_number Device = 8" | "object_type_number TrendLog = 20"

definition is_analog :: "object_type \<Rightarrow> bool" where
  "is_analog t \<longleftrightarrow> t = AnalogInput \<or> t = AnalogOutput \<or> t = AnalogValue"

definition is_binary :: "object_type \<Rightarrow> bool" where
  "is_binary t \<longleftrightarrow> t = BinaryInput \<or> t = BinaryOutput \<or> t = BinaryValue"

datatype property_id = Description | ObjectList | ObjectName | PresentValue | SystemStatus | Units

definition property_id_from_u32 :: "u32 \<Rightarrow> property_id option" where
  "property_id_from_u32 n =
     (if n = 28 then Some Description else if n = 76 then Some ObjectList else if n = 77 then Some ObjectName
      else if n = 85 then Some PresentValue else if n = 112 then Some SystemStatus else if n = 117 then Some Units else None)"

fun property_id_number :: "property_id \<Rightarrow> u32" where
  "property_id_number Description = 28" | "property_id_number ObjectList = 76" | "property_id_number ObjectName = 77"
| "property_id_number PresentValue = 85" | "property_id_number SystemStatus = 112" | "property_id_number Units = 117"

lemma object_type_number_inverse: "object_type_from_u16 n = Some t \<longleftrightarrow> object_type_number t = n"
  by (cases t) (auto simp: object_type_from_u16_def split: if_splits)

lemma property_id_number_inverse: "property_id_from_u32 n = Some p \<longleftrightarrow> property_id_number p = n"
  by (cases p) (auto simp: property_id_from_u32_def split: if_splits)

section \<open>Decoding is total\<close>

text \<open>No input makes the decoder index outside of it, and a value uses at least one byte and none that is not there.\<close>

lemma string_header_answers:
  assumes "data \<noteq> []"
  shows "string_header data lvt \<noteq> Panic" "string_header data lvt = Ok (n, h) \<Longrightarrow> 0 < h \<and> h \<le> length data"
  using assms by (auto simp: string_header_def slice_defs Suc_le_eq split: if_splits)

lemma decode_string_answers:
  assumes "data \<noteq> []"
  shows "decode_string data lvt \<noteq> Panic" "decode_string data lvt = Ok (v, n) \<Longrightarrow> 0 < n \<and> n \<le> length data"
  using string_header_answers [OF assms, of lvt] by (auto simp: decode_string_def slice_defs split: if_splits)

lemma decode_parts_answer:
  assumes "data \<noteq> []"
  shows "decode_number mk data lvt \<noteq> Panic" "decode_number mk data lvt = Ok (v, n) \<Longrightarrow> 0 < n \<and> n \<le> length data"
    "decode_bytes what mb data lvt \<noteq> Panic" "decode_bytes what mb data lvt = Ok (v, n) \<Longrightarrow> 0 < n \<and> n \<le> length data"
    "decode_four what mb data lvt \<noteq> Panic" "decode_four what mb data lvt = Ok (v, n) \<Longrightarrow> 0 < n \<and> n \<le> length data"
  using assms by (cases data; auto simp: decode_number_def decode_bytes_def decode_four_def read_unsigned_def slice_defs split: if_splits)+

lemma decode_application_tag_answers:
  shows "decode_application_tag data \<noteq> Panic" "decode_application_tag data = Ok (v, n) \<Longrightarrow> 0 < n \<and> n \<le> length data"
proof -
  have "decode_application_tag data \<noteq> Panic \<and> (\<forall>v n. decode_application_tag data = Ok (v, n) \<longrightarrow> 0 < n \<and> n \<le> length data)"
  proof (cases "data = []")
    case False
    note parts = decode_parts_answer [OF False] decode_string_answers [OF False]
    have "Suc 0 \<le> length data" using False by (cases data) auto
    then show ?thesis
      unfolding decode_application_tag_def Let_def
      by (auto simp: be_at_def slice_def byte_def object_of_def parts(1,3,5,7) dest: parts(2,4,6,8) split: if_split_asm)
  qed (simp add: decode_application_tag_def)
  then show "decode_application_tag data \<noteq> Panic" "decode_application_tag data = Ok (v, n) \<Longrightarrow> 0 < n \<and> n \<le> length data" by auto
qed

section \<open>Numbers in few bytes\<close>

lemma from_be_to_be_short:
  assumes "unat (w :: 'n::len word) < 256 ^ n"
  shows "from_be (to_be n w) = w"
  using assms by (simp add: from_be_def to_be_def from_le_def to_le_def le_nat_nat_le)

lemma read_unsigned_to_be: "unat w < 256 ^ n \<Longrightarrow> n \<le> 4 \<Longrightarrow> read_unsigned (to_be n w @ rest) n = Ok w"
  by (simp add: read_unsigned_def slice_defs from_be_to_be_short)

lemma unat_le_byte: "(w :: u32) \<le> 0xFF \<Longrightarrow> unat w < 256" "(w :: u32) \<le> 0xFFFF \<Longrightarrow> unat w < 65536" "(w :: u32) \<le> 0xFFFFFF \<Longrightarrow> unat w < 16777216"
  by (simp_all add: word_le_nat_alt)

end
