(* ===== verification/Bacnet_Frame.thy ===== *)
theory Bacnet_Frame
  imports Bacnet_Value "HOL-Library.Multiset"
begin

text \<open>
  The frames of BACnet/IP (\<open>drivers/bacnet/frame.rs\<close>): encoders for every request and response of the driver and the decoder from link header to
  service. A decoder of the source advances a position; here it takes the bytes that are left and returns those behind what it read, so that a
  position behind the end is the empty list where the source only compares it, and \<open>Panic\<close> where the source slices with it.
\<close>

section \<open>Constants\<close>

definition BVLL_BACNET_IP :: u8 where "BVLL_BACNET_IP = 0x81"
definition BVLL_UNICAST :: u8 where "BVLL_UNICAST = 0x0A"
definition BVLL_BROADCAST :: u8 where "BVLL_BROADCAST = 0x0B"
definition BVLL_REGISTER_FOREIGN_DEVICE :: u8 where "BVLL_REGISTER_FOREIGN_DEVICE = 0x05"
definition BVLL_DISTRIBUTE_BROADCAST :: u8 where "BVLL_DISTRIBUTE_BROADCAST = 0x09"
definition NPDU_VERSION :: u8 where "NPDU_VERSION = 0x01"
definition NPDU_CONTROL_NORMAL :: u8 where "NPDU_CONTROL_NORMAL = 0x00"
definition SVC_UNCONFIRMED_IAM :: u8 where "SVC_UNCONFIRMED_IAM = 0x00"
definition SVC_UNCONFIRMED_WHOIS :: u8 where "SVC_UNCONFIRMED_WHOIS = 0x08"
definition SVC_CONFIRMED_READ_PROPERTY :: u8 where "SVC_CONFIRMED_READ_PROPERTY = 0x0C"
definition SVC_CONFIRMED_READ_PROPERTY_MULTIPLE :: u8 where "SVC_CONFIRMED_READ_PROPERTY_MULTIPLE = 0x0E"
definition SVC_CONFIRMED_WRITE_PROPERTY :: u8 where "SVC_CONFIRMED_WRITE_PROPERTY = 0x0F"
definition SVC_CONFIRMED_SUBSCRIBE_COV :: u8 where "SVC_CONFIRMED_SUBSCRIBE_COV = 0x05"
definition SVC_UNCONFIRMED_COV_NOTIFICATION :: u8 where "SVC_UNCONFIRMED_COV_NOTIFICATION = 0x02"
definition SVC_CONFIRMED_COV_NOTIFICATION :: u8 where "SVC_CONFIRMED_COV_NOTIFICATION = 0x01"

lemmas bacnet_constants = BVLL_BACNET_IP_def BVLL_UNICAST_def BVLL_BROADCAST_def BVLL_REGISTER_FOREIGN_DEVICE_def
  BVLL_DISTRIBUTE_BROADCAST_def NPDU_VERSION_def NPDU_CONTROL_NORMAL_def SVC_UNCONFIRMED_IAM_def SVC_UNCONFIRMED_WHOIS_def
  SVC_CONFIRMED_READ_PROPERTY_def SVC_CONFIRMED_READ_PROPERTY_MULTIPLE_def SVC_CONFIRMED_WRITE_PROPERTY_def
  SVC_CONFIRMED_SUBSCRIBE_COV_def SVC_UNCONFIRMED_COV_NOTIFICATION_def SVC_CONFIRMED_COV_NOTIFICATION_def

section \<open>Messages\<close>

record rpm_request_spec =
  rs_type :: u16
  rs_instance :: u32
  rs_property :: u32
  rs_index :: "u32 option"

text \<open>The value of a result is an error class and code, or a value.\<close>

record rpm_result =
  rr_type :: u16
  rr_instance :: u32
  rr_property :: u32
  rr_index :: "u32 option"
  rr_value :: "(u32 \<times> u32) + bacnet_value"

record cov_property_value =
  cv_property :: u32
  cv_index :: "u32 option"
  cv_value :: bacnet_value

record cov_notification =
  cn_process :: u32
  cn_device :: u32
  cn_type :: u16
  cn_instance :: u32
  cn_remaining :: "u32 option"
  cn_values :: "cov_property_value list"

record bvll_header =
  bvll_type :: u8
  bvll_length :: u16

record npdu_header =
  npdu_version :: u8
  npdu_control :: u8

datatype apdu =
  WhoIs "u32 option" "u32 option"
| IAm u32 u16 u8 u16
| ReadPropertyRequest u8 u16 u32 u32 "u32 option"
| ReadPropertyAck u8 u16 u32 u32 bacnet_value
| ErrorPdu u8 u8 u32 u32
| WritePropertyRequest u8 u16 u32 u32 "u32 option" bacnet_value "u8 option"
| SimpleAck u8 u8
| ReadPropertyMultipleRequest u8 "rpm_request_spec list"
| ReadPropertyMultipleAck u8 "rpm_result list"
| UnconfirmedCov cov_notification
| ConfirmedCov u8 cov_notification
| OtherPdu u8 u8 "u8 list"

section \<open>Encoding\<close>

definition build_packet :: "u8 \<Rightarrow> u8 list \<Rightarrow> u8 list" where
  "build_packet kind apdu =
     (let total_len = 4 + 2 + length apdu
      in [BVLL_BACNET_IP, kind, of_nat (total_len div 256), of_nat (total_len mod 256), NPDU_VERSION, NPDU_CONTROL_NORMAL] @ apdu)"

definition encode_context_unsigned :: "u8 \<Rightarrow> u32 \<Rightarrow> u8 list" where
  "encode_context_unsigned tag val =
     (let len = (if val \<le> 0xFF then 1 else if val \<le> 0xFFFF then 2 else 4)
      in (push_bit 4 tag OR 0x08 OR of_nat len) # to_be len val)"

definition encode_object_id :: "u16 \<Rightarrow> u32 \<Rightarrow> u8 list" where
  "encode_object_id t inst = to_be 4 (push_bit 22 (ucast t) OR (inst AND 0x3FFFFF) :: u32)"

definition optional :: "('a \<Rightarrow> u8 list) \<Rightarrow> 'a option \<Rightarrow> u8 list" where
  "optional enc x = (case x of Some v \<Rightarrow> enc v | None \<Rightarrow> [])"

definition encode_enumerated :: "u32 \<Rightarrow> u8 list" where
  "encode_enumerated v = (if v \<le> 0xFF then 0x91 # to_be 1 v else 0x92 # to_be 2 v)"

definition encode_string :: "u8 list \<Rightarrow> u8 list" where
  "encode_string s =
     (let len = length s + 1
      in (if len \<le> 4 then [0x70 OR of_nat len] else if len \<le> 253 then [0x75, of_nat len] else 0x76 # to_be 2 (of_nat len :: u16)) @ 0 # s)"

fun encode_bacnet_value :: "bacnet_value \<Rightarrow> u8 list" where
  "encode_bacnet_value (Real f) = 0x44 # to_be 4 f"
| "encode_bacnet_value (Double d) = 0x55 # 8 # to_be 8 d"
| "encode_bacnet_value (Unsigned n) = (if n \<le> 0xFF then 0x21 # to_be 1 n else if n \<le> 0xFFFF then 0x22 # to_be 2 n else 0x24 # to_be 4 n)"
| "encode_bacnet_value (Boolean b) = [if b then 0x11 else 0x10]"
| "encode_bacnet_value (ObjectId t i) = 0xC4 # encode_object_id t i"
| "encode_bacnet_value (Enumerated v) = encode_enumerated v"
| "encode_bacnet_value (CharacterString s) = encode_string s"
| "encode_bacnet_value Null = [0]"
| "encode_bacnet_value (Array items) = concat (map encode_bacnet_value items)"
| "encode_bacnet_value _ = []"

definition encode_who_is :: "u32 option \<Rightarrow> u32 option \<Rightarrow> u8 list" where
  "encode_who_is low high = build_packet BVLL_BROADCAST ([0x10, SVC_UNCONFIRMED_WHOIS] @ (case (low, high) of
      (Some lo, Some hi) \<Rightarrow> encode_context_unsigned 0 lo @ encode_context_unsigned 1 hi
    | _ \<Rightarrow> []))"

definition encode_read_property :: "u8 \<Rightarrow> u16 \<Rightarrow> u32 \<Rightarrow> u32 \<Rightarrow> u32 option \<Rightarrow> u8 list" where
  "encode_read_property invoke_id t inst property_id array_index = build_packet BVLL_UNICAST
     ([0x00, 0x05, invoke_id, SVC_CONFIRMED_READ_PROPERTY] @ 0x0C # encode_object_id t inst @
      encode_context_unsigned 1 property_id @ optional (encode_context_unsigned 2) array_index)"

text \<open>A response with one value; of the values it writes three kinds, and zero for every other.\<close>

definition encode_ack_value :: "bacnet_value \<Rightarrow> u8 list" where
  "encode_ack_value v = (case v of
      Real f \<Rightarrow> 0x44 # to_be 4 f
    | Unsigned n \<Rightarrow> (if n \<le> 0xFF then 0x21 # to_be 1 n else if n \<le> 0xFFFF then 0x22 # to_be 2 n else 0x24 # to_be 4 n)
    | Boolean b \<Rightarrow> [if b then 0x11 else 0x10]
    | _ \<Rightarrow> 0x44 # to_be 4 (0 :: u32))"

definition encode_read_property_ack :: "u8 \<Rightarrow> u16 \<Rightarrow> u32 \<Rightarrow> u32 \<Rightarrow> bacnet_value \<Rightarrow> u8 list" where
  "encode_read_property_ack invoke_id t inst property_id v = build_packet BVLL_UNICAST
     ([0x30, invoke_id, SVC_CONFIRMED_READ_PROPERTY] @ 0x0C # encode_object_id t inst @
      encode_context_unsigned 1 property_id @ 0x3E # encode_ack_value v @ [0x3F])"

definition encode_read_property_ack_multi :: "u8 \<Rightarrow> u16 \<Rightarrow> u32 \<Rightarrow> u32 \<Rightarrow> bacnet_value list \<Rightarrow> u8 list" where
  "encode_read_property_ack_multi invoke_id t inst property_id vs = build_packet BVLL_UNICAST
     ([0x30, invoke_id, 0x0C] @ 0x0C # encode_object_id t inst @
      encode_context_unsigned 1 property_id @ 0x3E # concat (map encode_bacnet_value vs) @ [0x3F])"

text \<open>Properties of the same object go together, in the order in which the objects first occur.\<close>

fun add_group :: "('a \<Rightarrow> 'k) \<Rightarrow> ('k \<times> 'a list) list \<Rightarrow> 'a \<Rightarrow> ('k \<times> 'a list) list" where
  "add_group key [] x = [(key x, [x])]"
| "add_group key ((k, xs) # gs) x = (if k = key x then (k, xs @ [x]) # gs else (k, xs) # add_group key gs x)"

definition group_on :: "('a \<Rightarrow> 'k) \<Rightarrow> 'a list \<Rightarrow> ('k \<times> 'a list) list" where
  "group_on key xs = foldl (add_group key) [] xs"

definition spec_object :: "rpm_request_spec \<Rightarrow> u16 \<times> u32" where
  "spec_object s = (rs_type s, rs_instance s)"

definition result_object :: "rpm_result \<Rightarrow> u16 \<times> u32" where
  "result_object r = (rr_type r, rr_instance r)"

text \<open>One object of a request or response: its identifier and its properties in a pair of tags.\<close>

definition encode_object_group :: "('a \<Rightarrow> u8 list) \<Rightarrow> (u16 \<times> u32) \<times> 'a list \<Rightarrow> u8 list" where
  "encode_object_group enc g = (case g of ((t, inst), xs) \<Rightarrow>
     0x0C # encode_object_id t inst @ 0x1E # concat (map enc xs) @ [0x1F])"

definition encode_spec :: "rpm_request_spec \<Rightarrow> u8 list" where
  "encode_spec s = encode_context_unsigned 0 (rs_property s) @ optional (encode_context_unsigned 1) (rs_index s)"

definition encode_read_property_multiple :: "u8 \<Rightarrow> rpm_request_spec list \<Rightarrow> u8 list" where
  "encode_read_property_multiple invoke_id specs = build_packet BVLL_UNICAST
     ([0x00, 0x05, invoke_id, SVC_CONFIRMED_READ_PROPERTY_MULTIPLE] @ concat (map (encode_object_group encode_spec) (group_on spec_object specs)))"

definition encode_result :: "rpm_result \<Rightarrow> u8 list" where
  "encode_result r = encode_context_unsigned 2 (rr_property r) @ optional (encode_context_unsigned 3) (rr_index r) @ (case rr_value r of
      Inr v \<Rightarrow> 0x4E # encode_bacnet_value v @ [0x4F]
    | Inl (cls, code) \<Rightarrow> 0x5E # encode_enumerated cls @ encode_enumerated code @ [0x5F])"

definition encode_read_property_multiple_ack :: "u8 \<Rightarrow> rpm_result list \<Rightarrow> u8 list" where
  "encode_read_property_multiple_ack invoke_id results = build_packet BVLL_UNICAST
     ([0x30, invoke_id, SVC_CONFIRMED_READ_PROPERTY_MULTIPLE] @ concat (map (encode_object_group encode_result) (group_on result_object results)))"

definition encode_error_pdu :: "u8 \<Rightarrow> u8 \<Rightarrow> u32 \<Rightarrow> u32 \<Rightarrow> u8 list" where
  "encode_error_pdu invoke_id service cls code = build_packet BVLL_UNICAST
     ([0x50, invoke_id, service] @ encode_enumerated cls @ encode_enumerated code)"

definition encode_simple_ack :: "u8 \<Rightarrow> u8 \<Rightarrow> u8 list" where
  "encode_simple_ack invoke_id service = build_packet BVLL_UNICAST [0x20, invoke_id, service]"

definition encode_write_property :: "u8 \<Rightarrow> u16 \<Rightarrow> u32 \<Rightarrow> u32 \<Rightarrow> bacnet_value \<Rightarrow> u32 option \<Rightarrow> u8 option \<Rightarrow> u8 list" where
  "encode_write_property invoke_id t inst property_id v array_index priority = build_packet BVLL_UNICAST
     ([0x00, 0x05, invoke_id, SVC_CONFIRMED_WRITE_PROPERTY] @ 0x0C # encode_object_id t inst @
      encode_context_unsigned 1 property_id @ optional (encode_context_unsigned 2) array_index @
      0x3E # encode_bacnet_value v @ 0x3F # optional (\<lambda>p. encode_context_unsigned 4 (ucast p)) priority)"

definition encode_subscribe_cov :: "u8 \<Rightarrow> u32 \<Rightarrow> u16 \<Rightarrow> u32 \<Rightarrow> bool option \<Rightarrow> u32 option \<Rightarrow> u8 list" where
  "encode_subscribe_cov invoke_id process_id t inst issue_confirmed lifetime = build_packet BVLL_UNICAST
     ([0x00, 0x05, invoke_id, SVC_CONFIRMED_SUBSCRIBE_COV] @ encode_context_unsigned 0 process_id @ 0x1C # encode_object_id t inst @
      optional (\<lambda>c. [0x29, if c then 1 else 0] @ optional (encode_context_unsigned 3) lifetime) issue_confirmed)"

definition encode_register_foreign_device :: "u16 \<Rightarrow> u8 list" where
  "encode_register_foreign_device ttl = [BVLL_BACNET_IP, BVLL_REGISTER_FOREIGN_DEVICE] @ to_be 2 (6 :: u16) @ to_be 2 ttl"

definition encode_distribute_broadcast_to_network :: "u8 list \<Rightarrow> u8 list" where
  "encode_distribute_broadcast_to_network npdu_apdu =
     [BVLL_BACNET_IP, BVLL_DISTRIBUTE_BROADCAST] @ to_be 2 (of_nat (4 + length npdu_apdu) :: u16) @ npdu_apdu"

section \<open>Reading\<close>

type_synonym 'a bn_reader = "u8 list \<Rightarrow> (bacnet_error, 'a \<times> u8 list) outcome"

definition read_then :: "'a bn_reader \<Rightarrow> ('a \<Rightarrow> 'b bn_reader) \<Rightarrow> 'b bn_reader" where
  "read_then p f ds = bindO (p ds) (\<lambda>(v, rest). f v rest)"

definition give :: "'a \<Rightarrow> 'a bn_reader" where
  "give v ds = Ok (v, ds)"

definition malformed :: "string \<Rightarrow> 'a bn_reader" where
  "malformed what ds = Err (MalformedFrame what)"

text \<open>A step of the source that returns a value and the number of bytes it used, by which the position advances.\<close>

definition advance_by :: "(u8 list \<Rightarrow> (bacnet_error, 'a \<times> usize) outcome) \<Rightarrow> 'a bn_reader" where
  "advance_by f ds = bindO (f ds) (\<lambda>(v, n). bindO (slice_from ds n) (\<lambda>rest. Ok (v, rest)))"

definition read_context_unsigned :: "u8 \<Rightarrow> u8 list \<Rightarrow> (bacnet_error, u32 \<times> usize) outcome" where
  "read_context_unsigned expected data =
     (if data = [] then Err (MalformedFrame ''context tag'')
      else bindO (byte data 0) (\<lambda>tag_byte.
        let lvt = tag_lvt tag_byte
        in if tag_class tag_byte \<noteq> 1 then Err (MalformedFrame ''context tag'')
           else if tag_num tag_byte \<noteq> expected then Err (MalformedFrame ''context tag'')
           else if length data < 1 + lvt then Err (MalformedFrame ''context tag'')
           else if lvt \<le> 4 then bindO (be_at data 1 lvt) (\<lambda>val. Ok (val, 1 + lvt))
           else Err (MalformedFrame ''context tag'')))"

definition context_unsigned :: "u8 \<Rightarrow> u32 bn_reader" where
  "context_unsigned tag = advance_by (read_context_unsigned tag)"

definition application_tag :: "bacnet_value bn_reader" where
  "application_tag = advance_by decode_application_tag"

definition is_context :: "u8 \<Rightarrow> bool" where
  "is_context b \<longleftrightarrow> b AND 0x08 \<noteq> 0"

text \<open>A context tag that may be missing; some decoders do not take the opening and closing tags of its number for it.\<close>

definition optional_unsigned :: "(u8 \<Rightarrow> bool) \<Rightarrow> u8 \<Rightarrow> u32 option bn_reader" where
  "optional_unsigned plain tag ds =
     (if ds \<noteq> [] \<and> is_context (hd ds) \<and> tag_num (hd ds) = tag \<and> plain (hd ds)
      then read_then (context_unsigned tag) (\<lambda>v. give (Some v)) ds
      else Ok (None, ds))"

definition expect :: "string \<Rightarrow> u8 \<Rightarrow> unit bn_reader" where
  "expect what b ds = (if ds = [] \<or> hd ds \<noteq> b then Err (MalformedFrame what) else Ok ((), tl ds))"

definition object_header :: "string \<Rightarrow> (u16 \<times> u32) bn_reader" where
  "object_header what ds =
     (if length ds < 5 then Err (MalformedFrame what)
      else bindO (byte ds 0) (\<lambda>b. if b \<noteq> 0x0C then Err (MalformedFrame what)
        else bindO (be_at ds 1 4) (\<lambda>raw. Ok (object_of raw, drop 5 ds))))"

text \<open>
  A \<open>while\<close> loop that reads entries up to the end or to a byte that stops it. The source has no bound for it; the branch \<open>Panic\<close> stands for a
  loop that does not end, and is never taken because every entry uses a byte.
\<close>

function until_tag :: "(u8 \<Rightarrow> bool) \<Rightarrow> 'a bn_reader \<Rightarrow> 'a list bn_reader" where
  "until_tag stop p ds =
     (if ds = [] \<or> stop (hd ds) then Ok ([], ds)
      else bindO (p ds) (\<lambda>(v, rest).
        if length rest < length ds then bindO (until_tag stop p rest) (\<lambda>(vs, rest). Ok (v # vs, rest)) else Panic))"
  by pat_completeness auto

termination
  by (relation "measure (\<lambda>(stop, p, ds). length ds)") auto

declare until_tag.simps [simp del]

definition decode_enumerated_at :: "u32 bn_reader" where
  "decode_enumerated_at = read_then application_tag (\<lambda>v. case v of
      Enumerated n \<Rightarrow> give n
    | Unsigned n \<Rightarrow> give n
    | _ \<Rightarrow> malformed ''Enumerated'')"

section \<open>Services\<close>

definition decode_who_is :: "u8 list \<Rightarrow> (bacnet_error, apdu) outcome" where
  "decode_who_is payload =
     (if payload = [] then Ok (WhoIs None None)
      else bindO (read_then (context_unsigned 0) (\<lambda>low. read_then (context_unsigned 1) (\<lambda>high. give (WhoIs (Some low) (Some high)))) payload)
        (\<lambda>(a, _). Ok a))"

definition decode_i_am :: "u8 list \<Rightarrow> (bacnet_error, apdu) outcome" where
  "decode_i_am payload = bindO
     (read_then application_tag (\<lambda>obj. case obj of ObjectId t inst \<Rightarrow>
        read_then application_tag (\<lambda>size. case size of Unsigned max_apdu \<Rightarrow>
          read_then application_tag (\<lambda>seg. case seg of Enumerated segmentation \<Rightarrow>
            read_then application_tag (\<lambda>vid. case vid of Unsigned vendor \<Rightarrow>
              give (IAm inst (ucast max_apdu) (ucast segmentation) (ucast vendor))
            | _ \<Rightarrow> malformed ''I-Am'')
          | _ \<Rightarrow> malformed ''I-Am'')
        | _ \<Rightarrow> malformed ''I-Am'')
      | _ \<Rightarrow> malformed ''I-Am'') payload) (\<lambda>(a, _). Ok a)"

definition decode_read_property_request :: "u8 \<Rightarrow> u8 list \<Rightarrow> (bacnet_error, apdu) outcome" where
  "decode_read_property_request invoke_id payload = bindO
     (read_then (object_header ''ReadProperty request'') (\<lambda>(t, inst).
      read_then (context_unsigned 1) (\<lambda>prop.
      read_then (optional_unsigned (\<lambda>_. True) 2) (\<lambda>idx. give (ReadPropertyRequest invoke_id t inst prop idx)))) payload) (\<lambda>(a, _). Ok a)"

definition decode_write_property_request :: "u8 \<Rightarrow> u8 list \<Rightarrow> (bacnet_error, apdu) outcome" where
  "decode_write_property_request invoke_id payload = bindO
     (read_then (object_header ''WriteProperty request'') (\<lambda>(t, inst).
      read_then (context_unsigned 1) (\<lambda>prop.
      read_then (optional_unsigned (\<lambda>_. True) 2) (\<lambda>idx.
      read_then (expect ''WriteProperty request'' 0x3E) (\<lambda>_.
      read_then application_tag (\<lambda>v.
      read_then (expect ''WriteProperty request'' 0x3F) (\<lambda>_.
      read_then (optional_unsigned (\<lambda>_. True) 4) (\<lambda>prio.
        give (WritePropertyRequest invoke_id t inst prop idx v (map_option ucast prio))))))))) payload) (\<lambda>(a, _). Ok a)"

text \<open>The array index of a response is skipped, and so are values with a context tag.\<close>

definition skip_index :: "unit bn_reader" where
  "skip_index ds = Ok ((), if ds \<noteq> [] \<and> is_context (hd ds) \<and> tag_num (hd ds) = 2 then drop (1 + tag_lvt (hd ds)) ds else ds)"

definition ack_value :: "bacnet_value list \<Rightarrow> bacnet_value" where
  "ack_value vs = (case filter (\<lambda>v. v \<noteq> UnknownTag) vs of [v] \<Rightarrow> v | vals \<Rightarrow> Array vals)"

definition decode_read_property_ack :: "u8 \<Rightarrow> u8 list \<Rightarrow> (bacnet_error, apdu) outcome" where
  "decode_read_property_ack invoke_id payload = bindO
     (read_then (object_header ''ReadProperty-ACK'') (\<lambda>(t, inst).
      read_then (context_unsigned 1) (\<lambda>prop.
      read_then skip_index (\<lambda>_.
      read_then (expect ''ReadProperty-ACK'' 0x3E) (\<lambda>_.
      read_then (until_tag (\<lambda>b. b = 0x3F) application_tag) (\<lambda>vs. give (ReadPropertyAck invoke_id t inst prop (ack_value vs))))))) payload)
     (\<lambda>(a, _). Ok a)"

definition rpm_property :: "u16 \<times> u32 \<Rightarrow> rpm_request_spec bn_reader" where
  "rpm_property obj =
     read_then (context_unsigned 0) (\<lambda>prop.
     read_then (optional_unsigned (\<lambda>b. b \<noteq> 0x1E \<and> b \<noteq> 0x1F) 1) (\<lambda>idx.
       give \<lparr>rs_type = fst obj, rs_instance = snd obj, rs_property = prop, rs_index = idx\<rparr>))"

text \<open>One object with its list between the tags 0x1E and 0x1F.\<close>

definition rpm_object :: "string \<Rightarrow> (u16 \<times> u32 \<Rightarrow> 'a bn_reader) \<Rightarrow> 'a list bn_reader" where
  "rpm_object what entry =
     read_then (object_header what) (\<lambda>obj.
     read_then (expect what 0x1E) (\<lambda>_.
     read_then (until_tag (\<lambda>b. b = 0x1F) (entry obj)) (\<lambda>xs.
     read_then (expect what 0x1F) (\<lambda>_. give xs))))"

definition decode_read_property_multiple_request :: "u8 \<Rightarrow> u8 list \<Rightarrow> (bacnet_error, apdu) outcome" where
  "decode_read_property_multiple_request invoke_id payload =
     bindO (until_tag (\<lambda>_. False) (rpm_object ''RPM request'' rpm_property) payload)
       (\<lambda>(specs, _). Ok (ReadPropertyMultipleRequest invoke_id (concat specs)))"

definition rpm_value :: "((u32 \<times> u32) + bacnet_value) bn_reader" where
  "rpm_value ds =
     (if ds = [] then Err (MalformedFrame ''RPM-ACK'')
      else if hd ds = 0x4E then read_then application_tag (\<lambda>v. read_then (expect ''RPM-ACK'' 0x4F) (\<lambda>_. give (Inr v))) (tl ds)
      else if hd ds = 0x5E then
        read_then decode_enumerated_at (\<lambda>cls. read_then decode_enumerated_at (\<lambda>code.
          read_then (expect ''RPM-ACK'' 0x5F) (\<lambda>_. give (Inl (cls, code))))) (tl ds)
      else Err (MalformedFrame ''RPM-ACK''))"

definition rpm_entry :: "u16 \<times> u32 \<Rightarrow> rpm_result bn_reader" where
  "rpm_entry obj =
     read_then (context_unsigned 2) (\<lambda>prop.
     read_then (optional_unsigned (\<lambda>b. b \<noteq> 0x3E \<and> b \<noteq> 0x3F) 3) (\<lambda>idx.
     read_then rpm_value (\<lambda>v.
       give \<lparr>rr_type = fst obj, rr_instance = snd obj, rr_property = prop, rr_index = idx, rr_value = v\<rparr>)))"

definition decode_read_property_multiple_ack :: "u8 \<Rightarrow> u8 list \<Rightarrow> (bacnet_error, apdu) outcome" where
  "decode_read_property_multiple_ack invoke_id payload =
     bindO (until_tag (\<lambda>_. False) (rpm_object ''RPM-ACK'' rpm_entry) payload)
       (\<lambda>(results, _). Ok (ReadPropertyMultipleAck invoke_id (concat results)))"

section \<open>Notifications\<close>

text \<open>The decoder of notifications has readers of its own: numbers of up to seven bytes, of which the last four count.\<close>

definition cov_unsigned :: "u8 \<Rightarrow> u32 bn_reader" where
  "cov_unsigned expected ds =
     (if ds = [] then Err (MalformedFrame ''COV'')
      else bindO (byte ds 0) (\<lambda>b.
        let len = tag_lvt b
        in if \<not> is_context b \<or> tag_num b \<noteq> expected then Err (MalformedFrame ''COV'')
           else if 1 + len > length ds then Err (MalformedFrame ''COV'')
           else bindO (slice ds 1 (1 + len)) (\<lambda>bs. Ok (foldl (\<lambda>v b. push_bit 8 v OR ucast b) 0 bs, drop (1 + len) ds))))"

definition cov_object_id :: "u8 \<Rightarrow> (u16 \<times> u32) bn_reader" where
  "cov_object_id expected ds =
     (if ds = [] then Err (MalformedFrame ''COV'')
      else bindO (byte ds 0) (\<lambda>b.
        if \<not> is_context b \<or> tag_num b \<noteq> expected \<or> tag_lvt b \<noteq> 4 then Err (MalformedFrame ''COV'')
        else if 1 + 4 > length ds then Err (MalformedFrame ''COV'')
        else bindO (be_at ds 1 4) (\<lambda>raw. Ok (object_of raw, drop 5 ds))))"

definition plain_tag :: "u8 \<Rightarrow> u8 list \<Rightarrow> bool" where
  "plain_tag tag ds \<longleftrightarrow> ds \<noteq> [] \<and> is_context (hd ds) \<and> tag_num (hd ds) = tag \<and> hd ds AND 0x07 \<noteq> 6"

definition cov_remaining :: "u32 option bn_reader" where
  "cov_remaining ds = (if plain_tag 3 ds then read_then (cov_unsigned 3) (\<lambda>v. give (Some v)) ds else Ok (None, ds))"

definition cov_index :: "u32 option bn_reader" where
  "cov_index ds = (if plain_tag 1 ds \<and> hd ds AND 0x07 \<noteq> 7 then read_then (cov_unsigned 1) (\<lambda>v. give (Some v)) ds else Ok (None, ds))"

definition cov_value :: "bacnet_value bn_reader" where
  "cov_value ds = (if ds \<noteq> [] \<and> hd ds \<noteq> 0x2F then application_tag ds else Ok (Null, ds))"

definition cov_skip_priority :: "unit bn_reader" where
  "cov_skip_priority ds = Ok ((), if plain_tag 3 ds \<and> hd ds AND 0x07 \<noteq> 7 then drop (1 + tag_lvt (hd ds)) ds else ds)"

definition cov_entry :: "cov_property_value bn_reader" where
  "cov_entry =
     read_then (cov_unsigned 0) (\<lambda>prop.
     read_then cov_index (\<lambda>idx.
     read_then (expect ''COV'' 0x2E) (\<lambda>_.
     read_then cov_value (\<lambda>v.
     read_then (expect ''COV'' 0x2F) (\<lambda>_.
     read_then cov_skip_priority (\<lambda>_. give \<lparr>cv_property = prop, cv_index = idx, cv_value = v\<rparr>))))))"

definition cov_list :: "cov_property_value list bn_reader" where
  "cov_list ds = (if ds \<noteq> [] \<and> hd ds = 0x4E then until_tag (\<lambda>b. b = 0x4F) cov_entry (tl ds) else Ok ([], ds))"

definition decode_cov_notification_payload :: "u8 list \<Rightarrow> (bacnet_error, cov_notification) outcome" where
  "decode_cov_notification_payload data = bindO
     (read_then (cov_unsigned 0) (\<lambda>process.
      read_then (cov_object_id 1) (\<lambda>(_, device).
      read_then (cov_object_id 2) (\<lambda>(t, inst).
      read_then cov_remaining (\<lambda>remaining.
      read_then cov_list (\<lambda>vs.
        give \<lparr>cn_process = process, cn_device = device, cn_type = t, cn_instance = inst, cn_remaining = remaining, cn_values = vs\<rparr>)))))
      data) (\<lambda>(n, _). Ok n)"

section \<open>Frames\<close>

definition decode_simple_ack :: "u8 list \<Rightarrow> (bacnet_error, apdu) outcome" where
  "decode_simple_ack data =
     (if length data < 3 then Err (MalformedFrame ''Simple-ACK'')
      else bindO (byte data 1) (\<lambda>i. bindO (byte data 2) (\<lambda>s. Ok (SimpleAck i s))))"

definition decode_error_pdu :: "u8 list \<Rightarrow> (bacnet_error, apdu) outcome" where
  "decode_error_pdu data =
     (if length data < 3 then Err (MalformedFrame ''Error PDU'')
      else bindO (byte data 1) (\<lambda>i. bindO (byte data 2) (\<lambda>s. bindO (slice_from data 3) (\<lambda>rest.
        bindO (read_then decode_enumerated_at (\<lambda>cls. read_then decode_enumerated_at (\<lambda>code. give (ErrorPdu i s cls code))) rest) (\<lambda>(a, _). Ok a)))))"

definition decode_confirmed_request :: "u8 list \<Rightarrow> (bacnet_error, apdu) outcome" where
  "decode_confirmed_request data =
     (if length data < 4 then Err (MalformedFrame ''Confirmed-Request'')
      else bindO (byte data 2) (\<lambda>i. bindO (byte data 3) (\<lambda>service. bindO (slice_from data 4) (\<lambda>payload.
        if service = SVC_CONFIRMED_READ_PROPERTY then decode_read_property_request i payload
        else if service = SVC_CONFIRMED_WRITE_PROPERTY then decode_write_property_request i payload
        else if service = SVC_CONFIRMED_READ_PROPERTY_MULTIPLE then decode_read_property_multiple_request i payload
        else if service = SVC_CONFIRMED_COV_NOTIFICATION then bindO (decode_cov_notification_payload payload) (\<lambda>n. Ok (ConfirmedCov i n))
        else bindO (byte data 0) (\<lambda>t. Ok (OtherPdu t i data))))))"

definition decode_unconfirmed_request :: "u8 list \<Rightarrow> (bacnet_error, apdu) outcome" where
  "decode_unconfirmed_request data =
     (if length data < 2 then Err (MalformedFrame ''Unconfirmed-Request'')
      else bindO (byte data 1) (\<lambda>service. bindO (slice_from data 2) (\<lambda>payload.
        if service = SVC_UNCONFIRMED_WHOIS then decode_who_is payload
        else if service = SVC_UNCONFIRMED_IAM then decode_i_am payload
        else if service = SVC_UNCONFIRMED_COV_NOTIFICATION then bindO (decode_cov_notification_payload payload) (\<lambda>n. Ok (UnconfirmedCov n))
        else bindO (byte data 0) (\<lambda>t. Ok (OtherPdu t 0 data)))))"

definition decode_complex_ack :: "u8 list \<Rightarrow> (bacnet_error, apdu) outcome" where
  "decode_complex_ack data =
     (if length data < 3 then Err (MalformedFrame ''Complex-ACK'')
      else bindO (byte data 1) (\<lambda>i. bindO (byte data 2) (\<lambda>service. bindO (slice_from data 3) (\<lambda>payload.
        if service = SVC_CONFIRMED_READ_PROPERTY then decode_read_property_ack i payload
        else if service = SVC_CONFIRMED_READ_PROPERTY_MULTIPLE then decode_read_property_multiple_ack i payload
        else bindO (byte data 0) (\<lambda>t. Ok (OtherPdu t i data))))))"

definition decode_apdu :: "u8 list \<Rightarrow> (bacnet_error, apdu) outcome" where
  "decode_apdu data =
     (if data = [] then Err (MalformedFrame ''APDU'')
      else bindO (byte data 0) (\<lambda>b. let pdu_type = b AND 0xF0 in
        if pdu_type = 0x00 then decode_confirmed_request data
        else if pdu_type = 0x10 then decode_unconfirmed_request data
        else if pdu_type = 0x20 then decode_simple_ack data
        else if pdu_type = 0x30 then decode_complex_ack data
        else if pdu_type = 0x50 then decode_error_pdu data
        else bindO (if length data > 1 then byte data 1 else Ok 0) (\<lambda>i. Ok (OtherPdu b i data))))"

definition decode_bvll_header :: "u8 list \<Rightarrow> (bacnet_error, bvll_header) outcome" where
  "decode_bvll_header data =
     (if length data < 4 then Err (MalformedFrame ''BVLL header'')
      else bindO (byte data 0) (\<lambda>b. if b \<noteq> BVLL_BACNET_IP then Err (MalformedFrame ''BVLL header'')
        else bindO (be_at data 2 2) (\<lambda>len. if unat len > length data then Err (MalformedFrame ''BVLL header'')
          else bindO (byte data 1) (\<lambda>t. Ok \<lparr>bvll_type = t, bvll_length = len\<rparr>))))"

text \<open>The destination and source fields of a routed packet.\<close>

definition npdu_fields :: "usize \<Rightarrow> u8 list \<Rightarrow> usize \<Rightarrow> (bacnet_error, usize) outcome" where
  "npdu_fields extra data consumed =
     (if length data < consumed + 3 then Err (MalformedFrame ''NPDU'')
      else bindO (byte data (consumed + 2)) (\<lambda>len.
        let n = 2 + 1 + unat len + extra in if length data < consumed + n then Err (MalformedFrame ''NPDU'') else Ok (consumed + n)))"

definition decode_npdu :: "u8 list \<Rightarrow> (bacnet_error, npdu_header \<times> usize) outcome" where
  "decode_npdu data =
     (if length data < 2 then Err (MalformedFrame ''NPDU'')
      else bindO (byte data 0) (\<lambda>version. if version \<noteq> NPDU_VERSION then Err (MalformedFrame ''NPDU'')
        else bindO (byte data 1) (\<lambda>control.
          bindO (if control AND 0x20 \<noteq> 0 then npdu_fields 1 data 2 else Ok 2) (\<lambda>consumed.
          bindO (if control AND 0x08 \<noteq> 0 then npdu_fields 0 data consumed else Ok consumed) (\<lambda>consumed.
            Ok (\<lparr>npdu_version = version, npdu_control = control\<rparr>, consumed))))))"

definition decode_packet :: "u8 list \<Rightarrow> (bacnet_error, npdu_header \<times> apdu) outcome" where
  "decode_packet data =
     bindO (decode_bvll_header data) (\<lambda>bvll.
     bindO (slice data 4 (unat (bvll_length bvll))) (\<lambda>packet.
     bindO (decode_npdu packet) (\<lambda>(npdu, npdu_len).
     bindO (slice_from packet npdu_len) (\<lambda>bytes.
     bindO (decode_apdu bytes) (\<lambda>a. Ok (npdu, a))))))"

definition decode_bvll_result :: "u8 list \<Rightarrow> (bacnet_error, u16) outcome" where
  "decode_bvll_result data =
     (if length data < 6 then Err (MalformedFrame ''BVLL-Result'')
      else bindO (byte data 0) (\<lambda>a. bindO (byte data 1) (\<lambda>b.
        if a \<noteq> BVLL_BACNET_IP \<or> b \<noteq> 0x00 then Err (MalformedFrame ''BVLL-Result'') else be_at data 4 2)))"

section \<open>Decoding is total\<close>

text \<open>A reader is tame when it never panics and gives no bytes back, and eager when it uses a byte if there is one.\<close>

definition tame :: "'a bn_reader \<Rightarrow> bool" where
  "tame p \<longleftrightarrow> (\<forall>ds. p ds \<noteq> Panic \<and> (\<forall>v rest. p ds = Ok (v, rest) \<longrightarrow> length rest \<le> length ds))"

definition eager :: "'a bn_reader \<Rightarrow> bool" where
  "eager p \<longleftrightarrow> (\<forall>ds. p ds \<noteq> Panic \<and> (\<forall>v rest. p ds = Ok (v, rest) \<longrightarrow> length rest < length ds))"

named_theorems tame_rules

lemma eager_tame: "eager p \<Longrightarrow> tame p"
  by (auto simp: eager_def tame_def less_imp_le)

lemma tameD: "tame p \<Longrightarrow> p ds \<noteq> Panic" "tame p \<Longrightarrow> p ds = Ok (v, rest) \<Longrightarrow> length rest \<le> length ds"
  by (simp_all add: tame_def)

lemma eagerD: "eager p \<Longrightarrow> p ds \<noteq> Panic" "eager p \<Longrightarrow> p ds = Ok (v, rest) \<Longrightarrow> length rest < length ds"
  by (simp_all add: eager_def)

lemma tame_then [tame_rules]: "tame p \<Longrightarrow> (\<And>v. tame (f v)) \<Longrightarrow> tame (read_then p f)"
  unfolding tame_def read_then_def by (fastforce intro: le_trans)

lemma eager_then [tame_rules]: "eager p \<Longrightarrow> (\<And>v. tame (f v)) \<Longrightarrow> eager (read_then p f)"
  unfolding tame_def eager_def read_then_def by (fastforce intro: le_less_trans)

lemma tame_give [tame_rules]: "tame (give v)" "tame (malformed what)"
  by (simp_all add: tame_def give_def malformed_def)

lemma tame_pair [tame_rules]: "(\<And>a b. tame (f a b)) \<Longrightarrow> tame (case x of (a, b) \<Rightarrow> f a b)"
  by (cases x) simp

lemma tame_value [tame_rules]:
  "(\<And>t i. tame (f t i)) \<Longrightarrow> tame g \<Longrightarrow> tame (case v of ObjectId t i \<Rightarrow> f t i | _ \<Rightarrow> g)"
  "(\<And>n. tame (h n)) \<Longrightarrow> tame g \<Longrightarrow> tame (case v of Unsigned n \<Rightarrow> h n | _ \<Rightarrow> g)"
  "(\<And>n. tame (h n)) \<Longrightarrow> tame g \<Longrightarrow> tame (case v of Enumerated n \<Rightarrow> h n | _ \<Rightarrow> g)"
  "(\<And>n. tame (h n)) \<Longrightarrow> tame g \<Longrightarrow> tame (case v of Enumerated n \<Rightarrow> h n | Unsigned n \<Rightarrow> h n | _ \<Rightarrow> g)"
  by (cases v; simp)+

lemma eager_advance:
  assumes "\<And>ds. f ds \<noteq> Panic" "\<And>ds v n. f ds = Ok (v, n) \<Longrightarrow> 0 < n \<and> n \<le> length ds"
  shows "eager (advance_by f)"
  unfolding eager_def advance_by_def using assms by (fastforce simp: slice_from_def split: if_splits)

lemma read_context_unsigned_answers:
  "read_context_unsigned tag ds \<noteq> Panic" "read_context_unsigned tag ds = Ok (v, n) \<Longrightarrow> 0 < n \<and> n \<le> length ds"
  by (cases ds; auto simp: read_context_unsigned_def slice_defs Let_def split: if_split_asm)+

lemma eager_context_unsigned: "eager (context_unsigned tag)"
  unfolding context_unsigned_def by (rule eager_advance) (use read_context_unsigned_answers in auto)

lemma eager_application_tag: "eager application_tag"
  unfolding application_tag_def by (rule eager_advance) (use decode_application_tag_answers in auto)

lemma eager_tokens: "eager (expect what b)" "eager (object_header what)" "eager (cov_unsigned tag)" "eager (cov_object_id tag)"
  unfolding eager_def expect_def object_header_def cov_unsigned_def cov_object_id_def
  by (auto simp: slice_defs Let_def split: if_split_asm)

lemmas [tame_rules] = eager_context_unsigned eager_application_tag eager_tokens
  eager_context_unsigned [THEN eager_tame] eager_application_tag [THEN eager_tame] eager_tokens [THEN eager_tame]

lemma tame_optional [tame_rules]: "tame (optional_unsigned plain tag)" "tame cov_remaining" "tame cov_index" "tame cov_value"
proof -
  have some: "tame (read_then (context_unsigned t) (\<lambda>v. give (Some v)))" "tame (read_then (cov_unsigned t) (\<lambda>v. give (Some v)))" for t
    by (intro tame_rules)+
  show "tame (optional_unsigned plain tag)" "tame cov_remaining" "tame cov_index" "tame cov_value"
    using some eager_tame [OF eager_application_tag]
    by (simp_all add: tame_def optional_unsigned_def cov_remaining_def cov_index_def cov_value_def)
qed

lemma tame_skip [tame_rules]: "tame skip_index" "tame cov_skip_priority"
  by (simp_all add: tame_def skip_index_def cov_skip_priority_def)

lemma tame_until [tame_rules]:
  assumes "eager p"
  shows "tame (until_tag stop p)"
proof -
  have "until_tag stop p ds \<noteq> Panic \<and> (\<forall>vs rest. until_tag stop p ds = Ok (vs, rest) \<longrightarrow> length rest \<le> length ds)" for ds
  proof (induction "length ds" arbitrary: ds rule: less_induct)
    case less
    show ?case
    proof (cases "p ds")
      case (Ok a)
      obtain v rest where a: "a = (v, rest)" by fastforce
      have short: "length rest < length ds" using eagerD(2) [OF assms] Ok a by blast
      then show ?thesis using less [OF short] Ok a by (subst (1 2) until_tag.simps) (auto intro: le_trans)
    qed (use eagerD(1) [OF assms, of ds] in \<open>subst (1 2) until_tag.simps, auto\<close>)
  qed
  then show ?thesis by (simp add: tame_def)
qed

lemma eager_enumerated: "eager decode_enumerated_at"
  unfolding decode_enumerated_at_def by (intro tame_rules)

lemmas [tame_rules] = eager_enumerated eager_enumerated [THEN eager_tame]

lemma eager_rpm_property: "eager (rpm_property obj)"
  unfolding rpm_property_def by (intro tame_rules)

lemma eager_cov_entry: "eager cov_entry"
  unfolding cov_entry_def by (intro tame_rules)

lemma tame_rpm_value [tame_rules]: "tame rpm_value"
proof -
  have "tame (read_then application_tag (\<lambda>v. read_then (expect ''RPM-ACK'' 0x4F) (\<lambda>_. give (Inr v))) :: ((u32 \<times> u32) + bacnet_value) bn_reader)"
    "tame (read_then decode_enumerated_at (\<lambda>cls. read_then decode_enumerated_at (\<lambda>code.
       read_then (expect ''RPM-ACK'' 0x5F) (\<lambda>_. give (Inl (cls, code))))) :: ((u32 \<times> u32) + bacnet_value) bn_reader)"
    by (intro tame_rules)+
  then show ?thesis unfolding tame_def rpm_value_def by (auto simp: neq_Nil_conv le_Suc_eq)
qed

lemma eager_rpm_entry: "eager (rpm_entry obj)"
  unfolding rpm_entry_def by (intro tame_rules)

lemma eager_rpm_object [tame_rules]: "(\<And>obj. eager (entry obj)) \<Longrightarrow> eager (rpm_object what entry)"
  unfolding rpm_object_def by (intro tame_rules)

lemma tame_cov_list [tame_rules]: "tame cov_list"
  using tame_until [OF eager_cov_entry, of "\<lambda>b. b = 0x4F"] unfolding tame_def cov_list_def by (auto simp: neq_Nil_conv le_Suc_eq)

text \<open>A decoder of a service runs a tame reader and drops what is left.\<close>

lemma tame_run: "tame p \<Longrightarrow> bindO (p ds) (\<lambda>(a, _). Ok (f a)) \<noteq> Panic"
  using tameD(1) [of p ds] by (cases "p ds") auto

lemma services_answer:
  "decode_who_is payload \<noteq> Panic" "decode_i_am payload \<noteq> Panic" "decode_read_property_request i payload \<noteq> Panic"
  "decode_write_property_request i payload \<noteq> Panic" "decode_read_property_ack i payload \<noteq> Panic"
  "decode_read_property_multiple_request i payload \<noteq> Panic" "decode_read_property_multiple_ack i payload \<noteq> Panic"
  "decode_cov_notification_payload payload \<noteq> Panic"
proof -
  show "decode_who_is payload \<noteq> Panic"
  proof (cases "payload = []")
    case False
    show ?thesis unfolding decode_who_is_def if_not_P [OF False] by (rule tame_run) (intro tame_rules)
  qed (simp add: decode_who_is_def)
  show "decode_i_am payload \<noteq> Panic" unfolding decode_i_am_def
    by (rule tame_run) (intro tame_rules)
  show "decode_read_property_request i payload \<noteq> Panic" unfolding decode_read_property_request_def
    by (rule tame_run) (intro tame_rules)
  show "decode_write_property_request i payload \<noteq> Panic" unfolding decode_write_property_request_def
    by (rule tame_run) (intro tame_rules)
  show "decode_read_property_ack i payload \<noteq> Panic" unfolding decode_read_property_ack_def
    by (rule tame_run) (intro tame_rules)
  show "decode_read_property_multiple_request i payload \<noteq> Panic" unfolding decode_read_property_multiple_request_def
    by (rule tame_run) (intro tame_rules eager_rpm_property)
  show "decode_read_property_multiple_ack i payload \<noteq> Panic" unfolding decode_read_property_multiple_ack_def
    by (rule tame_run) (intro tame_rules eager_rpm_entry)
  show "decode_cov_notification_payload payload \<noteq> Panic" unfolding decode_cov_notification_payload_def
    by (rule tame_run) (intro tame_rules)
qed

lemma decode_apdu_answers: "decode_apdu data \<noteq> Panic"
proof -
  have "bindO (read_then decode_enumerated_at (\<lambda>cls. read_then decode_enumerated_at (\<lambda>code. give (ErrorPdu i s cls code))) rest) (\<lambda>(a, _). Ok a) \<noteq> Panic" for i s rest
    by (rule tame_run) (intro tame_rules)
  then have "decode_error_pdu data \<noteq> Panic" unfolding decode_error_pdu_def by (auto simp: byte_def slice_from_def)
  moreover have "decode_confirmed_request data \<noteq> Panic" "decode_unconfirmed_request data \<noteq> Panic" "decode_complex_ack data \<noteq> Panic"
    unfolding decode_confirmed_request_def decode_unconfirmed_request_def decode_complex_ack_def
    using services_answer by (auto simp: byte_def slice_from_def)
  ultimately show ?thesis by (auto simp: decode_apdu_def decode_simple_ack_def byte_def Let_def split: if_splits)
qed

lemma decode_npdu_answers: "decode_npdu data \<noteq> Panic" "decode_npdu data = Ok (h, n) \<Longrightarrow> n \<le> length data"
  by (auto simp: decode_npdu_def npdu_fields_def byte_def Let_def split: if_splits)

section \<open>What is written is read back\<close>

text \<open>Entries of a list, each of which is read back in front of whatever may follow it, are read back as a list.\<close>

locale bn_entries =
  fixes stop :: "u8 \<Rightarrow> bool" and enc :: "'a \<Rightarrow> u8 list" and dec :: "'b bn_reader" and view :: "'a \<Rightarrow> 'b" and ok :: "'a \<Rightarrow> bool"
    and follow :: "u8 list \<Rightarrow> bool"
  assumes entry: "ok v \<Longrightarrow> follow rest \<Longrightarrow> dec (enc v @ rest) = Ok (view v, rest)"
    and start: "ok v \<Longrightarrow> enc v \<noteq> [] \<and> \<not> stop (hd (enc v))"
    and next_entry: "ok v \<Longrightarrow> follow (enc v @ rest)"
    and at_end: "rest = [] \<or> stop (hd rest) \<Longrightarrow> follow rest"
begin

lemma entries:
  "list_all ok vs \<Longrightarrow> rest = [] \<or> stop (hd rest) \<Longrightarrow> until_tag stop dec (concat (map enc vs) @ rest) = Ok (map view vs, rest)"
proof (induction vs)
  case Nil
  then show ?case by (subst until_tag.simps) auto
next
  case (Cons v vs)
  have "follow (concat (map enc vs) @ rest)"
    using Cons.prems next_entry at_end by (cases vs) auto
  then show ?case using Cons start [of v] entry [of v] by (subst until_tag.simps) auto
qed

end

definition object_ok :: "u16 \<Rightarrow> u32 \<Rightarrow> bool" where
  "object_ok t inst \<longleftrightarrow> t < 0x400 \<and> inst < 0x400000"

lemma object_of_parts:
  assumes "object_ok t inst"
  shows "object_of (push_bit 22 (ucast t) OR (inst AND 0x3FFFFF)) = (t, inst)"
proof -
  have t: "take_bit 10 t = t" and inst: "take_bit 22 inst = inst"
    using assms by (simp_all add: object_ok_def word_unat_eq_iff word_less_nat_alt unsigned_take_bit_eq take_bit_nat_eq_self)
  have masks: "(0x3FF :: u32) = mask 10" "(0x3FFFFF :: u32) = mask 22" by (simp_all add: mask_eq_exp_minus_1)
  have "ucast (drop_bit 22 (push_bit 22 (ucast t) OR take_bit 22 inst) AND mask 10 :: u32) = t"
    by (subst (2) t [symmetric], rule bit_word_eqI) (auto simp: bit_simps)
  moreover have "(push_bit 22 (ucast t) OR take_bit 22 inst) AND mask 22 = inst"
    by (subst (2) inst [symmetric], rule bit_word_eqI) (auto simp: bit_simps)
  ultimately show ?thesis by (simp add: object_of_def masks flip: take_bit_eq_mask)
qed

lemma object_header_encoded [simp]:
  "object_ok t inst \<Longrightarrow> object_header what (0x0C # encode_object_id t inst @ rest) = Ok ((t, inst), rest)"
  by (simp add: object_header_def encode_object_id_def slice_defs from_be_to_be object_of_parts)

text \<open>Tag bytes with the numbers and lengths that the encoders use.\<close>

lemma context_tag_byte:
  assumes "tag \<in> {0, 1, 2, 3, 4}" "n \<in> {1, 2, 4}"
  shows "tag_num (push_bit 4 tag OR 8 OR of_nat n) = tag" "tag_class (push_bit 4 tag OR 8 OR of_nat n) = 1"
    "tag_lvt (push_bit 4 tag OR 8 OR of_nat n) = n" "is_context (push_bit 4 tag OR 8 OR of_nat n)"
  using assms by (auto simp: tag_num_def tag_class_def tag_lvt_def is_context_def)

lemma from_be_four [simp]: "from_be (to_be 4 (w :: u32)) = w"
  by (simp add: from_be_to_be)

lemma context_unsigned_encoded [simp]:
  assumes "tag \<in> {0, 1, 2, 3, 4}"
  shows "context_unsigned tag (encode_context_unsigned tag val @ rest) = Ok (val, rest)"
proof -
  define n :: nat where "n = (if val \<le> 0xFF then 1 else if val \<le> 0xFFFF then 2 else 4)"
  have n: "n \<in> {1, 2, 4}" by (simp add: n_def)
  have "unat val < 256 ^ n" using unat_le_byte(1,2) [of val] unsigned_less [of val, where ?'a = nat] by (auto simp: n_def)
  then have "from_be (to_be n val) = val" by (rule from_be_to_be_short)
  moreover have "n \<le> 4" using n by auto
  moreover have "encode_context_unsigned tag val = (push_bit 4 tag OR 8 OR of_nat n) # to_be n val"
    by (simp add: encode_context_unsigned_def n_def Let_def)
  ultimately show ?thesis using context_tag_byte [OF assms n]
    by (simp add: context_unsigned_def advance_by_def read_context_unsigned_def slice_defs Let_def)
qed

lemma encode_context_start:
  assumes "tag \<in> {0, 1, 2, 3, 4}"
  shows "encode_context_unsigned tag val \<noteq> []" "is_context (hd (encode_context_unsigned tag val))"
    "tag_num (hd (encode_context_unsigned tag val)) = tag" "tag_lvt (hd (encode_context_unsigned tag val)) \<le> 4"
  using context_tag_byte [OF assms] by (auto simp: encode_context_unsigned_def Let_def)

lemma optional_encoded:
  assumes "tag \<in> {0, 1, 2, 3, 4}" "\<And>b. tag_lvt b \<le> 4 \<Longrightarrow> plain b"
    "rest = [] \<or> \<not> (is_context (hd rest) \<and> tag_num (hd rest) = tag \<and> plain (hd rest))"
  shows "optional_unsigned plain tag (optional (encode_context_unsigned tag) x @ rest) = Ok (x, rest)"
proof (cases x)
  case (Some v)
  then show ?thesis using encode_context_start [OF assms(1), of v] assms(2)
    by (simp add: optional_unsigned_def optional_def read_then_def context_unsigned_encoded [OF assms(1)] give_def)
qed (use assms(3) in \<open>auto simp: optional_unsigned_def optional_def\<close>)

text \<open>The values that are read back as they were written.\<close>

fun value_ok :: "bacnet_value \<Rightarrow> bool" where
  "value_ok Null \<longleftrightarrow> True" | "value_ok (Boolean b) \<longleftrightarrow> True" | "value_ok (Unsigned n) \<longleftrightarrow> True" | "value_ok (Real f) \<longleftrightarrow> True"
| "value_ok (Enumerated n) \<longleftrightarrow> n \<le> 0xFFFF" | "value_ok (ObjectId t i) \<longleftrightarrow> object_ok t i"
| "value_ok (CharacterString s) \<longleftrightarrow> utf8_valid s \<and> length s < 65535" | "value_ok _ \<longleftrightarrow> False"

lemma tag_lvt_of: "n \<le> 4 \<Longrightarrow> tag_lvt (0x70 OR of_nat n) = n \<and> tag_num (0x70 OR of_nat n) = 7 \<and> tag_class (0x70 OR of_nat n) = 0"
proof -
  assume "n \<le> 4"
  then have "n \<in> {0, 1, 2, 3, 4}" by auto
  then show ?thesis by (auto simp: tag_lvt_def tag_num_def tag_class_def)
qed

lemma application_tag_string:
  assumes "utf8_valid s" "length s < 65535"
  shows "application_tag (encode_string s @ rest) = Ok (CharacterString s, rest)"
proof -
  have tags: "tag_num 0x75 = 7" "tag_num 0x76 = 7" "tag_class 0x75 = 0" "tag_class 0x76 = 0" "tag_lvt 0x75 = 5" "tag_lvt 0x76 = 6"
    by (simp_all add: tag_num_def tag_class_def tag_lvt_def)
  have lossy: "utf8_lossy s = s" using assms(1) by (rule utf8_lossy_valid)
  consider "length s + 1 \<le> 4" | "length s + 1 > 4" "length s + 1 \<le> 253" | "length s + 1 > 253" by linarith
  then show ?thesis
  proof cases
    case 1
    then show ?thesis using tag_lvt_of [OF 1] lossy
      by (simp add: application_tag_def advance_by_def encode_string_def decode_application_tag_def decode_string_def string_header_def slice_defs Let_def)
  next
    case 2
    then have "unat (of_nat (length s + 1) :: u8) = length s + 1" by (simp only: unat_of_nat) (simp add: take_bit_nat_eq_self)
    then show ?thesis using 2 tags lossy
      by (simp add: application_tag_def advance_by_def encode_string_def decode_application_tag_def decode_string_def string_header_def slice_defs Let_def
        del: of_nat_Suc)
  next
    case 3
    define w :: u16 where "w = of_nat (length s + 1)"
    have "unat w = length s + 1" unfolding w_def unat_of_nat using assms(2) by (simp add: take_bit_nat_eq_self)
    moreover obtain a b where ab: "to_be 2 w = [a, b]" using to_be_2 [of w] by blast
    moreover have "from_be [a, b] = w" using ab by (rule from_be_pair)
    moreover have "encode_string s = 0x76 # a # b # 0 # s" using 3 ab by (simp add: encode_string_def w_def Let_def)
    moreover have "drop (4 + length s) (x # y # z # u # s @ rest) = rest" for x y z u by (simp add: eval_nat_numeral)
    ultimately show ?thesis using 3 tags lossy
      by (simp add: application_tag_def advance_by_def decode_application_tag_def decode_string_def string_header_def slice_defs Let_def)
  qed
qed

lemma application_tag_number:
  assumes "tag_class b = 0" "tag_num b = 2 \<and> mk = Unsigned \<or> tag_num b = 9 \<and> mk = Enumerated" "tag_lvt b = n" "n \<le> 4" "unat v < 256 ^ n"
  shows "application_tag (b # to_be n v @ rest) = Ok (mk v, rest)"
  using assms by (auto simp: application_tag_def advance_by_def decode_application_tag_def decode_number_def slice_from_def byte_def Let_def
    read_unsigned_to_be)

lemma application_tag_encoded: "value_ok v \<Longrightarrow> application_tag (encode_bacnet_value v @ rest) = Ok (v, rest)"
proof (cases v)
  case (Unsigned n)
  have tags: "tag_num 0x21 = 2" "tag_num 0x22 = 2" "tag_num 0x24 = 2" "tag_class 0x21 = 0" "tag_class 0x22 = 0" "tag_class 0x24 = 0"
    "tag_lvt 0x21 = 1" "tag_lvt 0x22 = 2" "tag_lvt 0x24 = 4" by (simp_all add: tag_num_def tag_class_def tag_lvt_def)
  show ?thesis using unat_le_byte(1,2) [of n] unsigned_less [of n, where ?'a = nat]
    by (auto simp: Unsigned tags intro!: application_tag_number)
next
  case (Enumerated n)
  have tags: "tag_num 0x91 = 9" "tag_num 0x92 = 9" "tag_class 0x91 = 0" "tag_class 0x92 = 0" "tag_lvt 0x91 = 1" "tag_lvt 0x92 = 2"
    by (simp_all add: tag_num_def tag_class_def tag_lvt_def)
  assume "value_ok v"
  then show ?thesis using unat_le_byte(1,2) [of n] by (auto simp: Enumerated encode_enumerated_def tags intro!: application_tag_number)
next
  case (CharacterString s)
  assume "value_ok v"
  then show ?thesis by (simp add: CharacterString application_tag_string)
qed (auto simp: application_tag_def advance_by_def decode_application_tag_def tag_num_def tag_class_def tag_lvt_def slice_defs Let_def
  encode_object_id_def object_of_parts)

lemma encode_value_start: "value_ok v \<Longrightarrow> encode_bacnet_value v \<noteq> [] \<and> \<not> is_context (hd (encode_bacnet_value v))"
proof (cases v)
  case (CharacterString s)
  have "\<not> is_context (0x70 OR of_nat n)" if "n \<le> 4" for n
  proof -
    have "n \<in> {0, 1, 2, 3, 4}" using that by auto
    then show ?thesis by (auto simp: is_context_def)
  qed
  then show ?thesis by (auto simp: CharacterString encode_string_def Let_def is_context_def simp del: of_nat_Suc)
qed (auto simp: is_context_def encode_enumerated_def)

lemma decode_enumerated_encoded: "n \<le> 0xFFFF \<Longrightarrow> decode_enumerated_at (encode_enumerated n @ rest) = Ok (n, rest)"
  using application_tag_encoded [of "Enumerated n" rest] by (simp add: decode_enumerated_at_def read_then_def give_def)

interpretation value_list: bn_entries "\<lambda>b. b = 0x3F" encode_bacnet_value application_tag "\<lambda>v. v" value_ok "\<lambda>_. True"
proof
  have "is_context 0x3F" by (simp add: is_context_def)
  then show "encode_bacnet_value v \<noteq> [] \<and> hd (encode_bacnet_value v) \<noteq> 0x3F" if "value_ok v" for v
    using encode_value_start [OF that] by auto
qed (simp_all add: application_tag_encoded)

section \<open>Groups of properties\<close>

lemma mset_add_group: "mset (concat (map snd (add_group key gs x))) = add_mset x (mset (concat (map snd gs)))"
  by (induction key gs x rule: add_group.induct) auto

lemma mset_group_on: "mset (concat (map snd (group_on key xs))) = mset xs"
proof -
  have "mset (concat (map snd (foldl (add_group key) gs xs))) = mset xs + mset (concat (map snd gs))" for gs
    by (induction xs arbitrary: gs) (simp_all add: mset_add_group)
  then show ?thesis by (simp add: group_on_def)
qed

definition keyed :: "('a \<Rightarrow> 'k) \<Rightarrow> 'k \<times> 'a list \<Rightarrow> bool" where
  "keyed key g \<longleftrightarrow> snd g \<noteq> [] \<and> list_all (\<lambda>y. key y = fst g) (snd g)"

lemma add_group_keyed: "list_all (keyed key) gs \<Longrightarrow> list_all (keyed key) (add_group key gs x)"
proof (induction gs)
  case (Cons g gs)
  then show ?case by (cases g) (auto simp: keyed_def)
qed (simp add: keyed_def)

lemma group_on_keyed: "list_all (keyed key) (group_on key xs)"
proof -
  have "list_all (keyed key) gs \<Longrightarrow> list_all (keyed key) (foldl (add_group key) gs xs)" for gs
    by (induction xs arbitrary: gs) (simp_all add: add_group_keyed)
  then show ?thesis by (simp add: group_on_def)
qed

text \<open>Objects with their entries, where the entries of each object are read back as a list.\<close>

locale bn_objects =
  fixes what :: string and enc :: "'a \<Rightarrow> u8 list" and dec :: "u16 \<times> u32 \<Rightarrow> 'a bn_reader" and ok :: "u16 \<times> u32 \<Rightarrow> 'a \<Rightarrow> bool" and follow :: "u8 list \<Rightarrow> bool"
  assumes entries_of: "bn_entries (\<lambda>b. b = 0x1F) enc (dec obj) (\<lambda>v. v) (ok obj) follow"
begin

definition group_ok :: "(u16 \<times> u32) \<times> 'a list \<Rightarrow> bool" where
  "group_ok g \<longleftrightarrow> object_ok (fst (fst g)) (snd (fst g)) \<and> list_all (ok (fst g)) (snd g)"

lemma group_read: "group_ok g \<Longrightarrow> rpm_object what dec (encode_object_group enc g @ rest) = Ok (snd g, rest)"
  using bn_entries.entries [OF entries_of, of "fst g" "snd g" "0x1F # rest"]
  by (cases g) (auto simp: group_ok_def rpm_object_def encode_object_group_def read_then_def expect_def give_def simp del: bindO_Ok_iff)

end

sublocale bn_objects \<subseteq> groups: bn_entries "\<lambda>_. False" "encode_object_group enc" "rpm_object what dec" snd group_ok "\<lambda>_. True"
proof unfold_locales
  show "rpm_object what dec (encode_object_group enc g @ rest) = Ok (snd g, rest)" if "group_ok g" for g rest using that by (rule group_read)
qed (simp_all add: encode_object_group_def split: prod.splits)

text \<open>The properties of a request, grouped by their objects, are read back in groups.\<close>

context bn_objects
begin

lemma grouped_read:
  assumes "list_all (\<lambda>x. object_ok (fst (key x)) (snd (key x)) \<and> ok (key x) x) xs"
  shows "\<exists>yss. until_tag (\<lambda>_. False) (rpm_object what dec) (concat (map (encode_object_group enc) (group_on key xs))) = Ok (yss, []) \<and>
    mset (concat yss) = mset xs"
proof -
  let ?gs = "group_on key xs"
  have "group_ok g" if g: "g \<in> set ?gs" for g
  proof -
    have sub: "set (snd g) \<subseteq> set xs" using g mset_group_on [of key xs] by (metis UN_upper set_concat set_map set_mset_mset image_eqI)
    have "keyed key g" using group_on_keyed [of key xs] g by (simp add: list_all_iff)
    then have key: "key y = fst g" if "y \<in> set (snd g)" for y using that by (simp add: keyed_def list_all_iff)
    have all: "object_ok (fst (fst g)) (snd (fst g)) \<and> ok (fst g) y" if "y \<in> set (snd g)" for y
      using assms sub that key [OF that, symmetric] by (simp add: list_all_iff) blast
    have "hd (snd g) \<in> set (snd g)" using \<open>keyed key g\<close> by (simp add: keyed_def)
    then have "object_ok (fst (fst g)) (snd (fst g))" using all by blast
    moreover have "list_all (ok (fst g)) (snd g)" using all by (simp add: list_all_iff)
    ultimately show ?thesis by (simp add: group_ok_def)
  qed
  then have "list_all group_ok ?gs" by (simp add: list_all_iff)
  from groups.entries [OF this, of "[]"] show ?thesis using mset_group_on [of key xs] by simp
qed

end

definition spec_ok :: "u16 \<times> u32 \<Rightarrow> rpm_request_spec \<Rightarrow> bool" where
  "spec_ok obj s \<longleftrightarrow> spec_object s = obj"

definition result_ok :: "u16 \<times> u32 \<Rightarrow> rpm_result \<Rightarrow> bool" where
  "result_ok obj r \<longleftrightarrow> result_object r = obj \<and>
     (case rr_value r of Inr v \<Rightarrow> value_ok v | Inl (cls, code) \<Rightarrow> cls \<le> 0xFFFF \<and> code \<le> 0xFFFF)"

definition spec_follow :: "u8 list \<Rightarrow> bool" where
  "spec_follow rest \<longleftrightarrow> rest = [] \<or> \<not> (is_context (hd rest) \<and> tag_num (hd rest) = 1 \<and> hd rest \<noteq> 0x1E \<and> hd rest \<noteq> 0x1F)"

lemma closing_lvt: "tag_lvt b \<le> 4 \<Longrightarrow> b \<noteq> 0x1E \<and> b \<noteq> 0x1F \<and> b \<noteq> 0x3E \<and> b \<noteq> 0x3F"
  by (auto simp: tag_lvt_def)

lemma rpm_property_encoded: "spec_ok obj s \<Longrightarrow> spec_follow rest \<Longrightarrow> rpm_property obj (encode_spec s @ rest) = Ok (s, rest)"
  using optional_encoded [of 1 "\<lambda>b. b \<noteq> 0x1E \<and> b \<noteq> 0x1F" rest "rs_index s"] closing_lvt
  by (cases s) (auto simp: spec_ok_def spec_object_def spec_follow_def rpm_property_def encode_spec_def read_then_def give_def simp del: bindO_Ok_iff)

lemma spec_start: "encode_spec s \<noteq> [] \<and> is_context (hd (encode_spec s)) \<and> tag_num (hd (encode_spec s)) = 0"
  using encode_context_start [of 0 "rs_property s"] by (simp add: encode_spec_def)

interpretation spec_groups: bn_objects "''RPM request''" encode_spec rpm_property spec_ok spec_follow
proof (unfold_locales, goal_cases)
  case (2 obj v)
  have "tag_num 0x1F = 1" by (simp add: tag_num_def)
  then show ?case using spec_start [of v] by auto
qed (use spec_start in \<open>auto simp: rpm_property_encoded spec_follow_def\<close>)

lemma rpm_value_encoded:
  assumes "case v of Inr v \<Rightarrow> value_ok v | Inl (cls, code) \<Rightarrow> cls \<le> 0xFFFF \<and> code \<le> 0xFFFF"
  shows "rpm_value ((case v of Inr v \<Rightarrow> 0x4E # encode_bacnet_value v @ [0x4F]
      | Inl (cls, code) \<Rightarrow> 0x5E # encode_enumerated cls @ encode_enumerated code @ [0x5F]) @ rest) = Ok (v, rest)"
proof (cases v)
  case (Inl e)
  then show ?thesis using assms
    by (cases e) (simp add: rpm_value_def read_then_def expect_def give_def decode_enumerated_encoded del: bindO_Ok_iff)
qed (use assms in \<open>simp add: rpm_value_def read_then_def expect_def give_def application_tag_encoded del: bindO_Ok_iff\<close>)

lemma rpm_entry_encoded: "result_ok obj r \<Longrightarrow> rpm_entry obj (encode_result r @ rest) = Ok (r, rest)"
proof -
  assume r: "result_ok obj r"
  define v where "v = rr_value r"
  define body where "body = (case v of Inr v \<Rightarrow> 0x4E # encode_bacnet_value v @ [0x4F]
      | Inl (cls, code) \<Rightarrow> 0x5E # encode_enumerated cls @ encode_enumerated code @ [0x5F])"
  have "hd (body @ rest) = 0x4E \<or> hd (body @ rest) = 0x5E" by (auto simp: body_def split: sum.split)
  moreover have "tag_num 0x4E = 4" "tag_num 0x5E = 5" by (simp_all add: tag_num_def)
  ultimately have "tag_num (hd (body @ rest)) \<noteq> 3" by auto
  then have "optional_unsigned (\<lambda>b. b \<noteq> 0x3E \<and> b \<noteq> 0x3F) 3 (optional (encode_context_unsigned 3) (rr_index r) @ body @ rest) = Ok (rr_index r, body @ rest)"
    by (intro optional_encoded) (use closing_lvt in auto)
  moreover have "rpm_value (body @ rest) = Ok (v, rest)"
    unfolding body_def using r by (intro rpm_value_encoded) (simp add: result_ok_def v_def)
  moreover have "encode_result r @ rest = encode_context_unsigned 2 (rr_property r) @ optional (encode_context_unsigned 3) (rr_index r) @ body @ rest"
    by (simp add: encode_result_def body_def v_def)
  ultimately show ?thesis using r
    by (cases r) (auto simp: result_ok_def result_object_def rpm_entry_def read_then_def give_def v_def simp del: bindO_Ok_iff)
qed

lemma result_start: "encode_result r \<noteq> [] \<and> tag_num (hd (encode_result r)) = 2"
  using encode_context_start [of 2 "rr_property r"] by (simp add: encode_result_def)

interpretation result_groups: bn_objects "''RPM-ACK''" encode_result rpm_entry result_ok "\<lambda>_. True"
proof (unfold_locales, goal_cases)
  case (2 obj v)
  have "tag_num 0x1F = 1" by (simp add: tag_num_def)
  then show ?case using result_start [of v] by auto
qed (auto simp: rpm_entry_encoded)

section \<open>Packets\<close>

text \<open>The link and network headers that \<open>build_packet\<close> puts in front are those that \<open>decode_packet\<close> takes away.\<close>

lemma decode_built:
  assumes "6 + length bytes < 65536"
  shows "decode_packet (build_packet kind bytes) = bindO (decode_apdu bytes) (\<lambda>a. Ok (\<lparr>npdu_version = 1, npdu_control = 0\<rparr>, a))"
proof -
  define n where "n = 6 + length bytes"
  have n: "n < 65536" using assms by (simp add: n_def)
  have "from_be [of_nat (n div 256), of_nat (n mod 256)] = (of_nat n :: u16)"
    using n by (simp add: from_be_def from_le_def unat_of_nat take_bit_nat_eq_self less_mult_imp_div_less take_bit_eq_mod)
  moreover have "unat (of_nat n :: u16) = n" using n by (simp add: unat_of_nat take_bit_nat_eq_self)
  moreover have "build_packet kind bytes = [BVLL_BACNET_IP, kind, of_nat (n div 256), of_nat (n mod 256), 1, 0] @ bytes"
    by (simp add: build_packet_def n_def bacnet_constants Let_def)
  ultimately show ?thesis
    by (simp add: decode_packet_def decode_bvll_header_def decode_npdu_def slice_defs bacnet_constants n_def numeral_2_eq_2 del: bindO_Ok_iff)
qed

text \<open>The encoder of the source for each message that has one.\<close>

fun apdu_frame :: "apdu \<Rightarrow> u8 list" where
  "apdu_frame (WhoIs low high) = encode_who_is low high"
| "apdu_frame (ReadPropertyRequest i t inst prop idx) = encode_read_property i t inst prop idx"
| "apdu_frame (ReadPropertyAck i t inst prop (Array vs)) = encode_read_property_ack_multi i t inst prop vs"
| "apdu_frame (ReadPropertyAck i t inst prop v) = encode_read_property_ack i t inst prop v"
| "apdu_frame (ErrorPdu i s cls code) = encode_error_pdu i s cls code"
| "apdu_frame (WritePropertyRequest i t inst prop idx v prio) = encode_write_property i t inst prop v idx prio"
| "apdu_frame (SimpleAck i s) = encode_simple_ack i s"
| "apdu_frame (ReadPropertyMultipleRequest i specs) = encode_read_property_multiple i specs"
| "apdu_frame (ReadPropertyMultipleAck i results) = encode_read_property_multiple_ack i results"
| "apdu_frame _ = []"

fun apdu_encodable :: "apdu \<Rightarrow> bool" where
  "apdu_encodable (WhoIs low high) \<longleftrightarrow> (low = None \<longleftrightarrow> high = None)"
| "apdu_encodable (ReadPropertyRequest i t inst prop idx) \<longleftrightarrow> object_ok t inst"
| "apdu_encodable (ReadPropertyAck i t inst prop (Array vs)) \<longleftrightarrow> object_ok t inst \<and> length vs \<noteq> 1 \<and> list_all value_ok vs"
| "apdu_encodable (ReadPropertyAck i t inst prop (Real f)) \<longleftrightarrow> object_ok t inst"
| "apdu_encodable (ReadPropertyAck i t inst prop (Unsigned n)) \<longleftrightarrow> object_ok t inst"
| "apdu_encodable (ReadPropertyAck i t inst prop (Boolean b)) \<longleftrightarrow> object_ok t inst"
| "apdu_encodable (ErrorPdu i s cls code) \<longleftrightarrow> cls \<le> 0xFFFF \<and> code \<le> 0xFFFF"
| "apdu_encodable (WritePropertyRequest i t inst prop idx v prio) \<longleftrightarrow> object_ok t inst \<and> value_ok v"
| "apdu_encodable (SimpleAck i s) \<longleftrightarrow> True"
| "apdu_encodable (ReadPropertyMultipleRequest i specs) \<longleftrightarrow> list_all (\<lambda>s. object_ok (rs_type s) (rs_instance s)) specs"
| "apdu_encodable (ReadPropertyMultipleAck i results) \<longleftrightarrow>
     list_all (\<lambda>r. object_ok (rr_type r) (rr_instance r) \<and> result_ok (result_object r) r) results"
| "apdu_encodable _ \<longleftrightarrow> False"

text \<open>Properties of several objects may arrive in another order, grouped by their objects.\<close>

fun reads_as :: "apdu \<Rightarrow> apdu \<Rightarrow> bool" where
  "reads_as (ReadPropertyMultipleRequest i xs) (ReadPropertyMultipleRequest j ys) \<longleftrightarrow> i = j \<and> mset xs = mset ys"
| "reads_as (ReadPropertyMultipleAck i xs) (ReadPropertyMultipleAck j ys) \<longleftrightarrow> i = j \<and> mset xs = mset ys"
| "reads_as a b \<longleftrightarrow> a = b"

lemma length_build_packet: "length (build_packet kind bytes) = 6 + length bytes"
  by (simp add: build_packet_def Let_def)

text \<open>A frame is read back when its service is.\<close>

lemma packet_read:
  assumes "length (build_packet kind bytes) < 65536" "decode_apdu bytes = Ok a"
  shows "decode_packet (build_packet kind bytes) = Ok (\<lparr>npdu_version = 1, npdu_control = 0\<rparr>, a)"
  using assms decode_built [of bytes kind] by (simp add: length_build_packet del: bindO_Ok_iff)

lemmas apdu_run = decode_apdu_def decode_confirmed_request_def decode_unconfirmed_request_def decode_complex_ack_def slice_defs
  bacnet_constants Let_def

lemma confirmed_apdu:
  "decode_apdu (0x00 # 0x05 # i # 0x0C # payload) = decode_read_property_request i payload"
  "decode_apdu (0x00 # 0x05 # i # 0x0F # payload) = decode_write_property_request i payload"
  "decode_apdu (0x00 # 0x05 # i # 0x0E # payload) = decode_read_property_multiple_request i payload"
  "decode_apdu (0x10 # 0x08 # payload) = decode_who_is payload"
  "decode_apdu (0x30 # i # 0x0C # payload) = decode_read_property_ack i payload"
  "decode_apdu (0x30 # i # 0x0E # payload) = decode_read_property_multiple_ack i payload"
  by (simp_all add: apdu_run)

lemma who_is_read: "low = None \<longleftrightarrow> high = None \<Longrightarrow> decode_who_is (case (low, high) of
   (Some lo, Some hi) \<Rightarrow> encode_context_unsigned 0 lo @ encode_context_unsigned 1 hi | _ \<Rightarrow> []) = Ok (WhoIs low high)"
  using encode_context_start(1) [of 0] context_unsigned_encoded [of 1 _ "[]"]
  by (cases low; cases high) (simp_all add: decode_who_is_def read_then_def give_def del: bindO_Ok_iff)

lemma read_property_read: "object_ok t inst \<Longrightarrow> decode_read_property_request i (0x0C # encode_object_id t inst @
   encode_context_unsigned 1 prop @ optional (encode_context_unsigned 2) idx) = Ok (ReadPropertyRequest i t inst prop idx)"
  using optional_encoded [of 2 "\<lambda>_. True" "[]" idx]
  by (simp add: decode_read_property_request_def read_then_def give_def del: bindO_Ok_iff)

lemma opening_tag: "tag_num 0x3E = 3" "tag_num 0x3F = 3"
  by (simp_all add: tag_num_def)

lemma write_property_read:
  assumes "object_ok t inst" "value_ok v"
  shows "decode_write_property_request i (0x0C # encode_object_id t inst @ encode_context_unsigned 1 prop @ optional (encode_context_unsigned 2) idx @
     0x3E # encode_bacnet_value v @ 0x3F # optional (\<lambda>p. encode_context_unsigned 4 (ucast p)) prio) = Ok (WritePropertyRequest i t inst prop idx v prio)"
proof -
  have prio: "optional (\<lambda>p. encode_context_unsigned 4 (ucast p)) prio = optional (encode_context_unsigned 4) (map_option ucast prio)"
    by (cases prio) (simp_all add: optional_def)
  have "map_option (ucast :: u32 \<Rightarrow> u8) (map_option ucast prio) = prio" by (cases prio) (simp_all add: ucast_down_ucast_id is_down)
  then show ?thesis unfolding prio
    using optional_encoded [of 2 "\<lambda>_. True" "0x3E # rest" idx for rest] optional_encoded [of 4 "\<lambda>_. True" "[]"] assms
    by (simp add: decode_write_property_request_def read_then_def give_def expect_def opening_tag application_tag_encoded del: bindO_Ok_iff)
qed

lemma ack_values_read:
  assumes "object_ok t inst" "list_all value_ok vs"
  shows "decode_read_property_ack i (0x0C # encode_object_id t inst @ encode_context_unsigned 1 prop @ 0x3E # concat (map encode_bacnet_value vs) @ [0x3F]) =
     Ok (ReadPropertyAck i t inst prop (ack_value vs))"
  using assms value_list.entries [of vs "[0x3F]"]
  by (simp add: decode_read_property_ack_def read_then_def give_def expect_def skip_index_def opening_tag del: bindO_Ok_iff)

lemma ack_value_list: "list_all value_ok vs \<Longrightarrow> length vs \<noteq> 1 \<Longrightarrow> ack_value vs = Array vs"
proof -
  assume vs: "list_all value_ok vs" "length vs \<noteq> 1"
  then have "filter (\<lambda>v. v \<noteq> UnknownTag) vs = vs" by (auto simp: list_all_iff filter_id_conv)
  then show ?thesis using vs(2) by (auto simp: ack_value_def split: list.split)
qed

lemma error_pdu_read: "cls \<le> 0xFFFF \<Longrightarrow> code \<le> 0xFFFF \<Longrightarrow>
   decode_apdu ([0x50, i, s] @ encode_enumerated cls @ encode_enumerated code) = Ok (ErrorPdu i s cls code)"
  using decode_enumerated_encoded [of code "[]"]
  by (simp add: apdu_run decode_error_pdu_def read_then_def give_def decode_enumerated_encoded del: bindO_Ok_iff)

lemma specs_read:
  assumes "list_all (\<lambda>s. object_ok (rs_type s) (rs_instance s)) specs"
  shows "\<exists>a. decode_read_property_multiple_request i (concat (map (encode_object_group encode_spec) (group_on spec_object specs))) = Ok a \<and>
    reads_as (ReadPropertyMultipleRequest i specs) a"
proof -
  have "list_all (\<lambda>s. object_ok (fst (spec_object s)) (snd (spec_object s)) \<and> spec_ok (spec_object s) s) specs"
    using assms by (simp add: list_all_iff spec_object_def spec_ok_def)
  from spec_groups.grouped_read [OF this] show ?thesis by (auto simp: decode_read_property_multiple_request_def)
qed

lemma results_read:
  assumes "list_all (\<lambda>r. object_ok (rr_type r) (rr_instance r) \<and> result_ok (result_object r) r) results"
  shows "\<exists>a. decode_read_property_multiple_ack i (concat (map (encode_object_group encode_result) (group_on result_object results))) = Ok a \<and>
    reads_as (ReadPropertyMultipleAck i results) a"
proof -
  have "list_all (\<lambda>r. object_ok (fst (result_object r)) (snd (result_object r)) \<and> result_ok (result_object r) r) results"
    using assms by (simp add: list_all_iff result_object_def)
  from result_groups.grouped_read [OF this] show ?thesis by (auto simp: decode_read_property_multiple_ack_def)
qed

lemma single_ack_read:
  assumes "object_ok t inst" "case v of Real f \<Rightarrow> True | Unsigned n \<Rightarrow> True | Boolean b \<Rightarrow> True | _ \<Rightarrow> False"
  shows "decode_apdu ([0x30, i, SVC_CONFIRMED_READ_PROPERTY] @ 0x0C # encode_object_id t inst @
     encode_context_unsigned 1 prop @ 0x3E # encode_ack_value v @ [0x3F]) = Ok (ReadPropertyAck i t inst prop v)"
proof -
  have "encode_ack_value v = concat (map encode_bacnet_value [v])" "list_all value_ok [v]" "ack_value [v] = v"
    using assms(2) by (auto simp: encode_ack_value_def ack_value_def split: bacnet_value.splits)
  then show ?thesis using ack_values_read [OF assms(1), of "[v]" i "prop"] by (simp add: SVC_CONFIRMED_READ_PROPERTY_def confirmed_apdu)
qed

lemma packet_ex: "decode_apdu bytes = Ok b \<Longrightarrow> P b \<Longrightarrow> \<exists>k bs b. build_packet kind bytes = build_packet k bs \<and> decode_apdu bs = Ok b \<and> P b"
  by blast

text \<open>Every message that can be encoded is a service in a packet, and the service is read back.\<close>

lemma service_read:
  assumes "apdu_encodable a"
  shows "\<exists>kind bytes b. apdu_frame a = build_packet kind bytes \<and> decode_apdu bytes = Ok b \<and> reads_as a b"
proof (cases a)
  case (WhoIs low high)
  show ?thesis unfolding WhoIs apdu_frame.simps encode_who_is_def
    by (rule packet_ex [where b = a]) (use assms who_is_read [of low high] WhoIs in
      \<open>simp_all add: SVC_UNCONFIRMED_WHOIS_def confirmed_apdu del: prod.case\<close>)
next
  case (ReadPropertyRequest i t inst pid idx)
  show ?thesis unfolding ReadPropertyRequest apdu_frame.simps encode_read_property_def
    by (rule packet_ex [where b = a]) (use assms read_property_read [of t inst i pid idx] ReadPropertyRequest in
      \<open>simp_all add: SVC_CONFIRMED_READ_PROPERTY_def confirmed_apdu\<close>)
next
  case (ReadPropertyAck i t inst pid v)
  show ?thesis
  proof (cases "\<exists>vs. v = Array vs")
    case True
    then obtain vs where v: "v = Array vs" by blast
    show ?thesis unfolding ReadPropertyAck v apdu_frame.simps encode_read_property_ack_multi_def
      by (rule packet_ex [where b = a]) (use assms ack_values_read [of t inst vs i pid] ack_value_list [of vs] ReadPropertyAck v in
        \<open>simp_all add: confirmed_apdu\<close>)
  next
    case False
    then have "object_ok t inst" "case v of Real f \<Rightarrow> True | Unsigned n \<Rightarrow> True | Boolean b \<Rightarrow> True | _ \<Rightarrow> False"
      and frame: "apdu_frame a = encode_read_property_ack i t inst pid v"
      using assms ReadPropertyAck by (cases v; simp)+
    from single_ack_read [OF this(1,2), of i pid] show ?thesis unfolding frame encode_read_property_ack_def
      by (rule packet_ex) (simp add: ReadPropertyAck)
  qed
next
  case (ErrorPdu i s cls code)
  show ?thesis unfolding ErrorPdu apdu_frame.simps encode_error_pdu_def
    by (rule packet_ex [where b = a]) (use assms error_pdu_read [of cls code i s] ErrorPdu in simp_all)
next
  case (WritePropertyRequest i t inst pid idx v prio)
  show ?thesis unfolding WritePropertyRequest apdu_frame.simps encode_write_property_def
    by (rule packet_ex [where b = a]) (use assms write_property_read [of t inst v i pid idx prio] WritePropertyRequest in
      \<open>simp_all add: SVC_CONFIRMED_WRITE_PROPERTY_def confirmed_apdu\<close>)
next
  case (SimpleAck i s)
  show ?thesis unfolding SimpleAck apdu_frame.simps encode_simple_ack_def
    by (rule packet_ex [where b = a]) (simp_all add: SimpleAck apdu_run decode_simple_ack_def)
next
  case (ReadPropertyMultipleRequest i specs)
  then obtain b where "decode_read_property_multiple_request i (concat (map (encode_object_group encode_spec) (group_on spec_object specs))) = Ok b" "reads_as a b"
    using assms specs_read [of specs i] by auto
  then show ?thesis unfolding ReadPropertyMultipleRequest apdu_frame.simps encode_read_property_multiple_def
    by (intro packet_ex [where b = b]) (simp_all add: SVC_CONFIRMED_READ_PROPERTY_MULTIPLE_def confirmed_apdu)
next
  case (ReadPropertyMultipleAck i results)
  then obtain b where "decode_read_property_multiple_ack i (concat (map (encode_object_group encode_result) (group_on result_object results))) = Ok b" "reads_as a b"
    using assms results_read [of results i] by auto
  then show ?thesis unfolding ReadPropertyMultipleAck apdu_frame.simps encode_read_property_multiple_ack_def
    by (intro packet_ex [where b = b]) (simp_all add: SVC_CONFIRMED_READ_PROPERTY_MULTIPLE_def confirmed_apdu)
qed (use assms in simp_all)

section \<open>Properties\<close>

text \<open>C17. Whatever datagram arrives, decoding it ends with a message or an error, with one exception: a frame whose link header announces fewer than the four
  bytes of that header makes the decoder panic. No other index or slice of the decoder leaves the packet, and every loop ends.\<close>

theorem bacnet_decode_panics_iff:
  "decode_packet data = Panic \<longleftrightarrow>
     4 \<le> length data \<and> data ! 0 = BVLL_BACNET_IP \<and> unat (from_be [data ! 2, data ! 3] :: u16) < 4"
proof (cases "4 \<le> length data \<and> data ! 0 = BVLL_BACNET_IP")
  case True
  then obtain a b c d ds where "data = a # b # c # d # ds" by (auto simp: numeral_eq_Suc Suc_le_length_iff)
  then have "decode_bvll_header data = (let len = from_be [data ! 2, data ! 3] :: u16 in
      if unat len > length data then Err (MalformedFrame ''BVLL header'') else Ok \<lparr>bvll_type = data ! 1, bvll_length = len\<rparr>)"
    using True by (auto simp: decode_bvll_header_def slice_defs Let_def)
  then show ?thesis using True
    by (auto simp: decode_packet_def Let_def slice_def slice_from_def decode_apdu_answers decode_npdu_answers(1) dest!: decode_npdu_answers(2) split: if_splits)
qed (auto simp: decode_packet_def decode_bvll_header_def byte_def)



text \<open>The encoder of doubles writes a length byte that the decoder takes for the first byte of the number.\<close>

lemma double_misread:
  "decode_application_tag (encode_bacnet_value (Double d) @ rest) = Ok (Double (from_be (8 # take 7 (to_be 8 d))), 9)"
  by (simp add: decode_application_tag_def tag_num_def tag_class_def tag_lvt_def slice_defs)

end
