(* ===== verification/Bacnet_Transaction.thy ===== *)
theory Bacnet_Transaction
  imports Bacnet_Frame "HOL-Library.AList"
begin

text \<open>
  What the BACnet driver keeps between packets: the table of requests in flight (\<open>drivers/bacnet/transaction.rs\<close>), the discovered devices
  (\<open>drivers/bacnet/discovery.rs\<close>) and the values from notifications (\<open>CovCache\<close> in \<open>drivers/bacnet/mod.rs\<close>). The one-shot channels are numbered in the
  order of their creation; \<open>tt_sent\<close> holds what has been sent into them.
\<close>

section \<open>Requests in flight\<close>

type_synonym channel_message = "bacnet_error + apdu"

record transaction_table =
  tt_pending :: "(u8 \<times> nat) list"
  tt_next :: u8
  tt_channels :: nat
  tt_sent :: "(nat \<times> channel_message) list"

definition transactions_new :: transaction_table where
  "transactions_new = \<lparr>tt_pending = [], tt_next = 0, tt_channels = 0, tt_sent = []\<rparr>"

text \<open>The next free id, after at most the given number of candidates, with the receiving end of its channel.\<close>

fun allocate_loop :: "nat \<Rightarrow> transaction_table \<Rightarrow> (u8 \<times> nat) option \<times> transaction_table" where
  "allocate_loop 0 t = (None, t)"
| "allocate_loop (Suc n) t =
     (let i = tt_next t; t' = t\<lparr>tt_next := i + 1\<rparr>
      in if map_of (tt_pending t') i = None
         then (Some (i, tt_channels t'), t'\<lparr>tt_pending := (i, tt_channels t') # tt_pending t', tt_channels := tt_channels t' + 1\<rparr>)
         else allocate_loop n t')"

definition allocate :: "transaction_table \<Rightarrow> (u8 \<times> nat) option \<times> transaction_table" where
  "allocate t = allocate_loop 256 t"

definition send_to_waiter :: "u8 \<Rightarrow> channel_message \<Rightarrow> transaction_table \<Rightarrow> transaction_table" where
  "send_to_waiter i m t = (case map_of (tt_pending t) i of
      Some ch \<Rightarrow> t\<lparr>tt_pending := AList.delete i (tt_pending t), tt_sent := (ch, m) # tt_sent t\<rparr>
    | None \<Rightarrow> t)"

definition dispatch_apdu :: "u8 \<Rightarrow> apdu \<Rightarrow> transaction_table \<Rightarrow> transaction_table" where
  "dispatch_apdu i a = send_to_waiter i (Inr a)"

definition timeout_request :: "u8 \<Rightarrow> transaction_table \<Rightarrow> transaction_table" where
  "timeout_request i = send_to_waiter i (Inl (TransactionTimeout 3))"

definition pending_count :: "transaction_table \<Rightarrow> usize" where
  "pending_count t = length (tt_pending t)"

text \<open>\<open>try_recv\<close> on a channel.\<close>

definition try_recv :: "nat \<Rightarrow> transaction_table \<Rightarrow> channel_message option" where
  "try_recv ch t = map_of (tt_sent t) ch"

section \<open>Devices\<close>

type_synonym sock_addr = nat

record device_info =
  di_instance :: u32
  di_addr :: sock_addr
  di_max_apdu :: u16
  di_vendor :: u16
  di_segmentation :: u8

type_synonym device_registry = "(u32 \<times> device_info) list"

definition registry_insert :: "device_info \<Rightarrow> device_registry \<Rightarrow> device_registry" where
  "registry_insert d r = AList.update (di_instance d) d r"

definition bulk_insert :: "device_info list \<Rightarrow> device_registry \<Rightarrow> device_registry" where
  "bulk_insert ds r = foldl (\<lambda>r d. registry_insert d r) r ds"

definition registry_get :: "u32 \<Rightarrow> device_registry \<Rightarrow> device_info option" where
  "registry_get inst r = map_of r inst"

definition registry_all :: "device_registry \<Rightarrow> device_info list" where
  "registry_all r = map snd r"

definition registry_len :: "device_registry \<Rightarrow> usize" where
  "registry_len r = length r"

definition registry_is_empty :: "device_registry \<Rightarrow> bool" where
  "registry_is_empty r \<longleftrightarrow> r = []"

section \<open>Values from notifications\<close>

record cov_cache_entry =
  ce_value :: bacnet_value
  ce_updated :: instant
  ce_process :: u32

type_synonym cov_cache = "((u16 \<times> u32) \<times> cov_cache_entry) list"

definition cov_cache_update :: "instant \<Rightarrow> cov_notification \<Rightarrow> cov_cache \<Rightarrow> cov_cache" where
  "cov_cache_update now n c = foldl (\<lambda>c pv.
     if cv_property pv = 85
     then AList.update (cn_type n, cn_instance n) \<lparr>ce_value = cv_value pv, ce_updated = now, ce_process = cn_process n\<rparr> c
     else c) c (cn_values n)"

definition cov_cache_get :: "instant \<Rightarrow> duration \<Rightarrow> u16 \<Rightarrow> u32 \<Rightarrow> cov_cache \<Rightarrow> cov_cache_entry option" where
  "cov_cache_get now max_age t inst c = (case map_of c (t, inst) of
      Some e \<Rightarrow> if duration_since now (ce_updated e) < max_age then Some e else None
    | None \<Rightarrow> None)"

definition cov_cache_remove :: "u16 \<Rightarrow> u32 \<Rightarrow> cov_cache \<Rightarrow> cov_cache" where
  "cov_cache_remove t inst c = AList.delete (t, inst) c"

section \<open>The table of requests\<close>

text \<open>
  Ids in flight are different and so are their channels; a channel belongs to a request in flight or has its message, never both, and no channel has two
  messages.
\<close>

definition requests_ok :: "transaction_table \<Rightarrow> bool" where
  "requests_ok t \<longleftrightarrow> distinct (map fst (tt_pending t)) \<and> distinct (map snd (tt_pending t) @ map fst (tt_sent t)) \<and>
     (\<forall>ch \<in> set (map snd (tt_pending t) @ map fst (tt_sent t)). ch < tt_channels t)"

lemma table_ok_new [simp]: "requests_ok transactions_new"
  by (simp add: requests_ok_def transactions_new_def)

lemma allocate_loop_spec:
  assumes "allocate_loop n t = (r, t')"
  shows "case r of
      None \<Rightarrow> (\<forall>k < n. tt_next t + of_nat k \<in> fst ` set (tt_pending t)) \<and> (\<exists>k. t' = t\<lparr>tt_next := k\<rparr>)
    | Some (i, ch) \<Rightarrow> i \<notin> fst ` set (tt_pending t) \<and> ch = tt_channels t \<and>
        (\<exists>k. t' = t\<lparr>tt_next := k, tt_pending := (i, ch) # tt_pending t, tt_channels := ch + 1\<rparr>)"
  using assms
proof (induction n arbitrary: t)
  case 0
  then show ?case by (auto intro: exI [of _ "tt_next t"])
next
  case (Suc n)
  show ?case
  proof (cases "map_of (tt_pending t) (tt_next t)")
    case None
    then have "r = Some (tt_next t, tt_channels t)"
      "t' = t\<lparr>tt_next := tt_next t + 1, tt_pending := (tt_next t, tt_channels t) # tt_pending t, tt_channels := tt_channels t + 1\<rparr>"
      using Suc.prems by (simp_all add: Let_def)
    then show ?thesis using None by (auto simp: map_of_eq_None_iff)
  next
    case (Some ch)
    then have here: "tt_next t \<in> fst ` set (tt_pending t)" by (metis map_of_SomeD fst_conv image_eqI)
    have "allocate_loop n (t\<lparr>tt_next := tt_next t + 1\<rparr>) = (r, t')" using Suc.prems Some by (simp add: Let_def)
    note IH = Suc.IH [OF this]
    have "tt_next t + of_nat k \<in> fst ` set (tt_pending t)"
      if "\<forall>k < n. tt_next t + 1 + of_nat k \<in> fst ` set (tt_pending t)" "k < Suc n" for k
      using here that by (cases k) (auto simp: algebra_simps)
    then show ?thesis using IH by (auto split: option.splits)
  qed
qed

lemma allocate_spec:
  assumes "requests_ok t" "allocate t = (Some (i, ch), t')"
  shows "i \<notin> fst ` set (tt_pending t)" "requests_ok t'" "map_of (tt_pending t') i = Some ch" "try_recv ch t' = None"
    "tt_pending t' = (i, ch) # tt_pending t" "tt_sent t' = tt_sent t"
proof -
  have spec: "i \<notin> fst ` set (tt_pending t)" "ch = tt_channels t"
    and "\<exists>k. t' = t\<lparr>tt_next := k, tt_pending := (i, ch) # tt_pending t, tt_channels := ch + 1\<rparr>"
    using allocate_loop_spec [of 256 t "Some (i, ch)" t'] assms(2) by (auto simp: allocate_def)
  then obtain k where t': "t' = t\<lparr>tt_next := k, tt_pending := (i, ch) # tt_pending t, tt_channels := ch + 1\<rparr>" by blast
  have old: "ch \<notin> set (map snd (tt_pending t) @ map fst (tt_sent t))" using assms(1) spec(2) by (auto simp: requests_ok_def)
  show "i \<notin> fst ` set (tt_pending t)" by (rule spec(1))
  show "tt_pending t' = (i, ch) # tt_pending t" "tt_sent t' = tt_sent t" by (simp_all add: t')
  show "map_of (tt_pending t') i = Some ch" by (simp add: t')
  show "try_recv ch t' = None" using old by (auto simp: t' try_recv_def map_of_eq_None_iff)
  show "requests_ok t'" using assms(1) old spec by (auto simp: t' requests_ok_def less_Suc_eq)
qed

text \<open>All 256 ids are tried: allocation fails only when each of them is in flight.\<close>

lemma allocate_None_iff:
  assumes "requests_ok t"
  shows "fst (allocate t) = None \<longleftrightarrow> pending_count t = 256"
proof -
  have dist: "distinct (map fst (tt_pending t))" using assms by (simp add: requests_ok_def)
  have count: "pending_count t = card (fst ` set (tt_pending t))"
    using distinct_card [OF dist] by (simp add: pending_count_def)
  obtain r t' where run: "allocate_loop 256 t = (r, t')" by fastforce
  note spec = allocate_loop_spec [OF run]
  show ?thesis
  proof (cases r)
    case None
    have "x \<in> fst ` set (tt_pending t)" for x :: u8
    proof -
      have "unat (x - tt_next t) < 256" using unsigned_less [of "x - tt_next t", where ?'a = nat] by simp
      moreover have "\<forall>k < 256. tt_next t + of_nat k \<in> fst ` set (tt_pending t)" using spec None by simp
      ultimately have "tt_next t + of_nat (unat (x - tt_next t)) \<in> fst ` set (tt_pending t)" by blast
      then show ?thesis by simp
    qed
    then have "fst ` set (tt_pending t) = UNIV" by auto
    then show ?thesis using count None run by (simp add: allocate_def card_word)
  next
    case (Some p)
    obtain i ch where p: "p = (i, ch)" by fastforce
    have "fst ` set (tt_pending t) \<noteq> UNIV" using spec Some p by auto
    then have "card (fst ` set (tt_pending t)) < card (UNIV :: u8 set)" by (intro psubset_card_mono) auto
    then show ?thesis using count Some run by (simp add: allocate_def card_word)
  qed
qed

lemma delete_key: "distinct (map snd xs) \<Longrightarrow> map_of xs k = Some v \<Longrightarrow> v \<notin> snd ` set (AList.delete k xs)"
  by (force simp: AList.delete_eq distinct_map inj_on_def dest!: map_of_SomeD)

lemma send_to_waiter_ok: "requests_ok t \<Longrightarrow> requests_ok (send_to_waiter i m t)"
proof (cases "map_of (tt_pending t) i")
  case (Some ch)
  assume ok: "requests_ok t"
  have sub: "set (AList.delete i (tt_pending t)) \<subseteq> set (tt_pending t)" by (auto simp: AList.delete_eq)
  have here: "ch \<in> snd ` set (tt_pending t)" using map_of_SomeD [OF Some] by force
  have parts: "distinct (map fst (tt_pending t))" "distinct (map snd (tt_pending t))" "distinct (map fst (tt_sent t))"
    "snd ` set (tt_pending t) \<inter> fst ` set (tt_sent t) = {}" "\<And>c. c \<in> snd ` set (tt_pending t) \<union> fst ` set (tt_sent t) \<Longrightarrow> c < tt_channels t"
    using ok by (auto simp: requests_ok_def)
  let ?rest = "AList.delete i (tt_pending t)"
  have "ch \<notin> snd ` set ?rest" using parts(2) Some by (rule delete_key)
  moreover have "distinct (map fst ?rest)" "distinct (map snd ?rest)" using parts(1,2) by (simp_all add: AList.delete_eq distinct_map_filter)
  moreover have "ch \<notin> fst ` set (tt_sent t)" using here parts(4) by blast
  moreover have "snd ` set ?rest \<subseteq> snd ` set (tt_pending t)" using sub by blast
  ultimately have "requests_ok (t\<lparr>tt_pending := ?rest, tt_sent := (ch, m) # tt_sent t\<rparr>)"
    using parts(3-5) here unfolding requests_ok_def by simp blast
  then show ?thesis by (simp add: send_to_waiter_def Some)
qed (simp add: send_to_waiter_def)

lemma allocate_ok: "requests_ok t \<Longrightarrow> requests_ok (snd (allocate t))"
proof -
  assume ok: "requests_ok t"
  obtain r t' where run: "allocate t = (r, t')" by fastforce
  show ?thesis
  proof (cases r)
    case None
    then obtain k where "t' = t\<lparr>tt_next := k\<rparr>" using allocate_loop_spec [of 256 t r t'] run by (auto simp: allocate_def)
    then show ?thesis using ok run by (simp add: requests_ok_def)
  next
    case (Some p)
    then show ?thesis using allocate_spec(2) [OF ok] run by (cases p) auto
  qed
qed

end
