(* ===== verification/Bacnet_Driver.thy ===== *)
theory Bacnet_Driver
  imports Bacnet_Transaction
begin

text \<open>
  The BACnet driver (\<open>drivers/bacnet/mod.rs\<close>, \<open>drivers/bacnet/discovery.rs\<close>): the exchange of a request and its response with retries, and every
  operation of the driver on top of it. The network is part of the state: what successive receives give, whether successive sends succeed, what
  has been sent, and a clock that the waiting moves on. A list of events that has run out is silence. Locks and tasks do not occur: the source awaits
  one exchange at a time.
\<close>

section \<open>State\<close>

datatype driver_status =
  DriverPending | DriverOk | DriverStale | DriverFault string | DriverDisabled | DriverDown | DriverSyncing

datatype driver_error =
  ConfigFault string | CommFault string | NotSupported string | RemoteStatus string | DriverTimeout string | InternalError string
| HardwareNotFound string

datatype net_event = Arrive duration sock_addr "u8 list" | Expire duration | RecvFail duration

record net =
  rx_events :: "net_event list"
  tx_results :: "bool list"
  tx_log :: "(sock_addr \<times> u8 list) list"
  net_clock :: instant

record bacnet_object =
  bo_device :: u32
  bo_type :: u16
  bo_instance :: u32
  bo_scale :: f64
  bo_offset :: f64
  bo_unit :: "u8 list option"

record cov_subscription =
  cs_point :: u32
  cs_process :: u32
  cs_type :: u16
  cs_instance :: u32
  cs_device :: u32
  cs_lifetime :: "u32 option"
  cs_at :: instant

record bacnet_driver =
  bd_id :: "u8 list"
  bd_status :: driver_status
  bd_port :: u16
  bd_broadcast :: "u8 list"
  bd_connected :: bool
  bd_registry :: device_registry
  bd_objects :: "(u32 \<times> bacnet_object) list"
  bd_transactions :: transaction_table
  bd_discovery_timeout :: duration
  bd_broadcast_port :: u16
  bd_subscriptions :: "(u32 \<times> cov_subscription) list"
  bd_next_process :: u32
  bd_cache :: cov_cache
  bd_bbmd :: "sock_addr option"
  bd_foreign :: bool
  bd_renewal :: duration
  bd_net :: net

definition DEFAULT_BACNET_PORT :: u16 where "DEFAULT_BACNET_PORT = 47808"

definition driver_new :: "u8 list \<Rightarrow> u8 list \<Rightarrow> u16 \<Rightarrow> net \<Rightarrow> bacnet_driver" where
  "driver_new driver_id broadcast port n =
     \<lparr>bd_id = driver_id, bd_status = DriverPending, bd_port = port, bd_broadcast = broadcast, bd_connected = False, bd_registry = [], bd_objects = [],
      bd_transactions = transactions_new, bd_discovery_timeout = 2 * nanos, bd_broadcast_port = port, bd_subscriptions = [], bd_next_process = 1,
      bd_cache = [], bd_bbmd = None, bd_foreign = False, bd_renewal = 240 * nanos, bd_net = n\<rparr>"

definition add_object :: "u32 \<Rightarrow> bacnet_object \<Rightarrow> bacnet_driver \<Rightarrow> bacnet_driver" where
  "add_object point obj d = d\<lparr>bd_objects := AList.update point obj (bd_objects d)\<rparr>"

record bacnet_object_config =
  oc_point :: u32
  oc_device :: u32
  oc_type :: u16
  oc_instance :: u32
  oc_unit :: "u8 list option"
  oc_scale :: "f64 option"
  oc_offset :: "f64 option"

record bacnet_config =
  bc_id :: "u8 list"
  bc_port :: "u16 option"
  bc_broadcast :: "u8 list option"
  bc_objects :: "bacnet_object_config list"
  bc_bbmd :: "u8 list option"

definition or_value :: "'a option \<Rightarrow> 'a \<Rightarrow> 'a" where
  "or_value x y = (case x of Some v \<Rightarrow> v | None \<Rightarrow> y)"

definition configured_object :: "bacnet_object_config \<Rightarrow> bacnet_object" where
  "configured_object c =
     \<lparr>bo_device = oc_device c, bo_type = oc_type c, bo_instance = oc_instance c, bo_scale = or_value (oc_scale c) (f64_of_int 1),
      bo_offset = or_value (oc_offset c) 0, bo_unit = oc_unit c\<rparr>"

text \<open>The text of an address is read by the standard library, the parameter \<open>parse_addr\<close>.\<close>

definition from_config :: "(u8 list \<Rightarrow> sock_addr option) \<Rightarrow> bacnet_config \<Rightarrow> net \<Rightarrow> bacnet_driver" where
  "from_config parse_addr c n =
     (let port = or_value (bc_port c) DEFAULT_BACNET_PORT;
          d = driver_new (bc_id c) (or_value (bc_broadcast c) (ascii ''255.255.255.255'')) port n;
          d = d\<lparr>bd_bbmd := Option.bind (bc_bbmd c) parse_addr\<rparr>
      in foldl (\<lambda>d oc. add_object (oc_point oc) (configured_object oc) d) d (bc_objects c))"

section \<open>The socket\<close>

definition socket_send :: "sock_addr \<Rightarrow> u8 list \<Rightarrow> bacnet_driver \<Rightarrow> bool \<times> bacnet_driver" where
  "socket_send addr bytes d =
     (let n = bd_net d; sent = (tx_results n = [] \<or> hd (tx_results n))
      in (sent, d\<lparr>bd_net := n\<lparr>tx_results := tl (tx_results n), tx_log := (if sent then tx_log n @ [(addr, bytes)] else tx_log n)\<rparr>\<rparr>))"

definition after :: "duration \<Rightarrow> net_event list \<Rightarrow> bacnet_driver \<Rightarrow> bacnet_driver" where
  "after t es d = d\<lparr>bd_net := (bd_net d)\<lparr>rx_events := es, net_clock := net_clock (bd_net d) + t\<rparr>\<rparr>"

text \<open>The buffer holds 1500 bytes; the rest of a datagram is lost.\<close>

definition in_buffer :: "u8 list \<Rightarrow> u8 list" where
  "in_buffer bytes = take 1500 bytes"

definition apdu_invoke_id :: "apdu \<Rightarrow> u8 option" where
  "apdu_invoke_id a = (case a of
      ReadPropertyRequest i _ _ _ _ \<Rightarrow> Some i
    | ReadPropertyAck i _ _ _ _ \<Rightarrow> Some i
    | WritePropertyRequest i _ _ _ _ _ _ \<Rightarrow> Some i
    | SimpleAck i _ \<Rightarrow> Some i
    | ErrorPdu i _ _ _ \<Rightarrow> Some i
    | OtherPdu _ i _ \<Rightarrow> Some i
    | ReadPropertyMultipleRequest i _ \<Rightarrow> Some i
    | ReadPropertyMultipleAck i _ \<Rightarrow> Some i
    | ConfirmedCov i _ \<Rightarrow> Some i
    | WhoIs _ _ \<Rightarrow> None
    | IAm _ _ _ _ \<Rightarrow> None
    | UnconfirmedCov _ \<Rightarrow> None)"

definition handle_cov_notification :: "cov_notification \<Rightarrow> bacnet_driver \<Rightarrow> bacnet_driver" where
  "handle_cov_notification n d = d\<lparr>bd_cache := cov_cache_update (net_clock (bd_net d)) n (bd_cache d)\<rparr>"

text \<open>What a message does: notifications go to the cache, and whatever has an invoke id goes to the request of that id.\<close>

definition take_apdu :: "apdu \<Rightarrow> bacnet_driver \<Rightarrow> bacnet_driver" where
  "take_apdu a d =
     (let d = (case a of UnconfirmedCov n \<Rightarrow> handle_cov_notification n d | ConfirmedCov _ n \<Rightarrow> handle_cov_notification n d | _ \<Rightarrow> d)
      in case apdu_invoke_id a of Some i \<Rightarrow> d\<lparr>bd_transactions := dispatch_apdu i a (bd_transactions d)\<rparr> | None \<Rightarrow> d)"

section \<open>Exchanges\<close>

datatype wait_end = Answered channel_message | Silent | ReceiveFailed

fun await :: "nat \<Rightarrow> net_event list \<Rightarrow> (bacnet_driver, unit, wait_end) routine" where
  "await ch [] d = (Ok Silent, after 0 [] d)"
| "await ch (Expire t # es) d = (Ok Silent, after t es d)"
| "await ch (RecvFail t # es) d = (Ok ReceiveFailed, after t es d)"
| "await ch (Arrive t src bytes # es) d = (case decode_packet (in_buffer bytes) of
      Panic \<Rightarrow> (Panic, after t es d)
    | r \<Rightarrow> (let d = (case r of Ok (_, a) \<Rightarrow> take_apdu a (after t es d) | _ \<Rightarrow> after t es d)
            in case try_recv ch (bd_transactions d) of Some m \<Rightarrow> (Ok (Answered m), d) | None \<Rightarrow> await ch es d))"

datatype exchange_end = Answer channel_message | SendFailed | RecvFailed | Exhausted

text \<open>Send, wait, and send again after silence, the given number of times.\<close>

fun exchange :: "nat \<Rightarrow> nat \<Rightarrow> sock_addr \<Rightarrow> u8 list \<Rightarrow> (bacnet_driver, unit, exchange_end) routine" where
  "exchange 0 ch addr request d = (Ok Exhausted, d)"
| "exchange (Suc n) ch addr request d = (case socket_send addr request d of
      (False, d) \<Rightarrow> (Ok SendFailed, d)
    | (True, d) \<Rightarrow> (case await ch (rx_events (bd_net d)) d of
        (Ok (Answered m), d) \<Rightarrow> (Ok (Answer m), d)
      | (Ok Silent, d) \<Rightarrow> exchange n ch addr request d
      | (Ok ReceiveFailed, d) \<Rightarrow> (Ok RecvFailed, d)
      | (Err e, d) \<Rightarrow> (Err e, d)
      | (Panic, d) \<Rightarrow> (Panic, d)))"

definition on_transactions :: "(transaction_table \<Rightarrow> transaction_table) \<Rightarrow> bacnet_driver \<Rightarrow> bacnet_driver" where
  "on_transactions f d = d\<lparr>bd_transactions := f (bd_transactions d)\<rparr>"

text \<open>
  A request with an id of its own. The source has this loop three times, with different errors: \<open>no_id\<close>, \<open>failed\<close> (whether sending or receiving
  failed), \<open>exhausted\<close> and \<open>refused\<close> are those. A failure of the socket leaves the id in flight.
\<close>

record 'e exchange_errors =
  no_id :: 'e
  failed :: "bool \<Rightarrow> 'e"
  exhausted :: 'e
  refused :: "bacnet_error \<Rightarrow> 'e"

definition transact :: "'e exchange_errors \<Rightarrow> sock_addr \<Rightarrow> (u8 \<Rightarrow> u8 list) \<Rightarrow> nat \<Rightarrow> (bacnet_driver, 'e, apdu) routine" where
  "transact errs addr build_request max_retries d = (case allocate (bd_transactions d) of
      (None, t) \<Rightarrow> (Err (no_id errs), d\<lparr>bd_transactions := t\<rparr>)
    | (Some (i, ch), t) \<Rightarrow> (case exchange (Suc max_retries) ch addr (build_request i) (d\<lparr>bd_transactions := t\<rparr>) of
        (Ok (Answer (Inr a)), d) \<Rightarrow> (Ok a, d)
      | (Ok (Answer (Inl e)), d) \<Rightarrow> (Err (refused errs e), d)
      | (Ok SendFailed, d) \<Rightarrow> (Err (failed errs True), d)
      | (Ok RecvFailed, d) \<Rightarrow> (Err (failed errs False), d)
      | (Ok Exhausted, d) \<Rightarrow> (Err (exhausted errs), on_transactions (timeout_request i) d)
      | (Err _, d) \<Rightarrow> (Panic, d)
      | (Panic, d) \<Rightarrow> (Panic, d)))"

definition driver_errors :: "driver_error exchange_errors" where
  "driver_errors =
     \<lparr>no_id = CommFault ''bacnet: no invoke IDs available'', failed = (\<lambda>send. CommFault (if send then ''bacnet send'' else ''bacnet recv'')),
      exhausted = CommFault ''bacnet: timeout'', refused = (\<lambda>_. CommFault ''transaction timeout'')\<rparr>"

definition bacnet_transact_inner :: "sock_addr \<Rightarrow> (u8 \<Rightarrow> u8 list) \<Rightarrow> nat \<Rightarrow> (bacnet_driver, driver_error, apdu) routine" where
  "bacnet_transact_inner = transact driver_errors"

definition bacnet_errors :: "bacnet_error exchange_errors" where
  "bacnet_errors =
     \<lparr>no_id = MalformedFrame ''no invoke IDs available'', failed = (\<lambda>_. BacnetIo ''socket''), exhausted = TransactionTimeout 3, refused = (\<lambda>e. e)\<rparr>"

section \<open>Reading and writing properties\<close>

definition remote_error :: "string \<Rightarrow> u32 \<Rightarrow> u32 \<Rightarrow> driver_error" where
  "remote_error what cls code = RemoteStatus (what @ '' error class='' @ show_nat (unat cls) @ '' code='' @ show_nat (unat code))"

definition scaled :: "bacnet_object \<Rightarrow> f64 \<Rightarrow> f64" where
  "scaled obj raw = add64 (mul64 raw (bo_scale obj)) (bo_offset obj)"

definition when_connected :: "'e \<Rightarrow> (bacnet_driver, 'e, 'a) routine \<Rightarrow> (bacnet_driver, 'e, 'a) routine" where
  "when_connected e m d = (if bd_connected d then m d else (Err e, d))"

definition read_present_value :: "sock_addr \<Rightarrow> bacnet_object \<Rightarrow> (bacnet_driver, driver_error, f64) routine" where
  "read_present_value addr obj = when_connected (CommFault ''bacnet: not connected'')
     (bnd (bacnet_transact_inner addr (\<lambda>i. encode_read_property i (bo_type obj) (bo_instance obj) 85 None) 3) (\<lambda>a. lift (case a of
         ReadPropertyAck _ _ _ _ v \<Rightarrow> (case to_f64 v of
             Some raw \<Rightarrow> Ok (scaled obj raw)
           | None \<Rightarrow> Err (CommFault ''bacnet: non-numeric present value''))
       | ErrorPdu _ _ cls code \<Rightarrow> Err (remote_error ''BACnet'' cls code)
       | _ \<Rightarrow> Err (CommFault ''bacnet: unexpected response''))))"

definition read_property_generic :: "sock_addr \<Rightarrow> u16 \<Rightarrow> u32 \<Rightarrow> u32 \<Rightarrow> (bacnet_driver, bacnet_error, bacnet_value) routine" where
  "read_property_generic addr t inst property_id = when_connected (BacnetIo ''not connected'')
     (bnd (transact bacnet_errors addr (\<lambda>i. encode_read_property i t inst property_id None) 3) (\<lambda>a. lift (case a of
         ReadPropertyAck _ _ _ _ v \<Rightarrow> Ok v
       | ErrorPdu _ _ cls code \<Rightarrow> Err (RemoteError cls code)
       | _ \<Rightarrow> Err (MalformedFrame ''unexpected APDU type''))))"

text \<open>The result for a property is the first one with its object and number, whatever its index.\<close>

definition result_for :: "rpm_result list \<Rightarrow> rpm_request_spec \<Rightarrow> driver_error + bacnet_value" where
  "result_for results s =
     (case find (\<lambda>r. rr_type r = rs_type s \<and> rr_instance r = rs_instance s \<and> rr_property r = rs_property s) results of
        Some r \<Rightarrow> (case rr_value r of Inr v \<Rightarrow> Inr v | Inl (cls, code) \<Rightarrow> Inl (remote_error ''BACnet'' cls code))
      | None \<Rightarrow> Inl (CommFault ''BACnet RPM: missing result for spec''))"

definition read_properties_multiple :: "sock_addr \<Rightarrow> rpm_request_spec list \<Rightarrow> (bacnet_driver, bacnet_error, (driver_error + bacnet_value) list) routine" where
  "read_properties_multiple addr specs = when_connected (BacnetIo ''not connected'')
     (bnd (transact bacnet_errors addr (\<lambda>i. encode_read_property_multiple i specs) 3) (\<lambda>a. lift (case a of
         ReadPropertyMultipleAck _ results \<Rightarrow> Ok (map (result_for results) specs)
       | ErrorPdu _ _ cls code \<Rightarrow> Err (RemoteError cls code)
       | _ \<Rightarrow> Err (MalformedFrame ''unexpected APDU type''))))"

fun object_items :: "bacnet_value list \<Rightarrow> (u16 \<times> u32) list" where
  "object_items [] = []"
| "object_items (ObjectId t inst # vs) = (if t \<noteq> 8 then (t, inst) # object_items vs else object_items vs)"
| "object_items (_ # vs) = object_items vs"

definition read_object_list :: "sock_addr \<Rightarrow> u32 \<Rightarrow> (bacnet_driver, bacnet_error, (u16 \<times> u32) list) routine" where
  "read_object_list addr device = bnd (read_property_generic addr 8 device 76) (\<lambda>v.
     ret (object_items (case v of Array items \<Rightarrow> items | single \<Rightarrow> [single])))"

definition read_object_name :: "sock_addr \<Rightarrow> u16 \<Rightarrow> u32 \<Rightarrow> (bacnet_driver, bacnet_error, u8 list) routine" where
  "read_object_name addr t inst = bnd (read_property_generic addr t inst 77) (\<lambda>v. lift (case v of
      CharacterString s \<Rightarrow> Ok s
    | _ \<Rightarrow> Err (MalformedFrame ''expected CharacterString for object-name'')))"

text \<open>Requests that are answered by a plain acknowledgement.\<close>

definition acknowledged :: "string \<Rightarrow> sock_addr \<Rightarrow> (u8 \<Rightarrow> u8 list) \<Rightarrow> (bacnet_driver, driver_error, unit) routine" where
  "acknowledged what addr build_request = when_connected (CommFault ''bacnet: not connected'')
     (bnd (bacnet_transact_inner addr build_request 3) (\<lambda>a. lift (case a of
         SimpleAck _ _ \<Rightarrow> Ok ()
       | ErrorPdu _ _ cls code \<Rightarrow> Err (remote_error what cls code)
       | _ \<Rightarrow> Err (CommFault ''unexpected response''))))"

definition write_property :: "sock_addr \<Rightarrow> u16 \<Rightarrow> u32 \<Rightarrow> u32 \<Rightarrow> bacnet_value \<Rightarrow> u8 option \<Rightarrow> (bacnet_driver, driver_error, unit) routine" where
  "write_property addr t inst property_id v priority = acknowledged ''BACnet'' addr (\<lambda>i. encode_write_property i t inst property_id v None priority)"

definition subscribe_cov :: "sock_addr \<Rightarrow> u32 \<Rightarrow> u16 \<Rightarrow> u32 \<Rightarrow> bool \<Rightarrow> u32 option \<Rightarrow> (bacnet_driver, driver_error, unit) routine" where
  "subscribe_cov addr process t inst confirmed lifetime = acknowledged ''BACnet SubscribeCOV'' addr (\<lambda>i. encode_subscribe_cov i process t inst (Some confirmed) lifetime)"

definition unsubscribe_cov :: "sock_addr \<Rightarrow> u32 \<Rightarrow> u16 \<Rightarrow> u32 \<Rightarrow> (bacnet_driver, driver_error, unit) routine" where
  "unsubscribe_cov addr process t inst = acknowledged ''BACnet SubscribeCOV'' addr (\<lambda>i. encode_subscribe_cov i process t inst None None)"

section \<open>Operations of the driver\<close>

text \<open>An error that the caller looks at, and a loop that collects what its steps give.\<close>

definition caught :: "('s, 'e, 'a) routine \<Rightarrow> ('s, 'f, 'e + 'a) routine" where
  "caught m s = (case m s of (Ok a, s) \<Rightarrow> (Ok (Inr a), s) | (Err e, s) \<Rightarrow> (Ok (Inl e), s) | (Panic, s) \<Rightarrow> (Panic, s))"

fun collect :: "('a \<Rightarrow> ('s, 'e, 'b) routine) \<Rightarrow> 'a list \<Rightarrow> ('s, 'e, 'b list) routine" where
  "collect f [] = ret []"
| "collect f (x # xs) = bnd (f x) (\<lambda>y. bnd (collect f xs) (\<lambda>ys. ret (y # ys)))"

definition get :: "('s \<Rightarrow> 'a) \<Rightarrow> ('s, 'e, 'a) routine" where
  "get f s = (Ok (f s), s)"

definition addr_of :: "u32 \<Rightarrow> bacnet_driver \<Rightarrow> sock_addr option" where
  "addr_of device d = map_option di_addr (registry_get device (bd_registry d))"

definition allocate_process_id :: "(bacnet_driver, 'e, u32) routine" where
  "allocate_process_id d =
     (let i = bd_next_process d; k = i + 1 in (Ok i, d\<lparr>bd_next_process := (if k = 0 then 1 else k)\<rparr>))"

definition close_driver :: "(bacnet_driver, 'e, unit) routine" where
  "close_driver = modify (\<lambda>d. d\<lparr>bd_connected := False, bd_status := DriverDown\<rparr>)"

definition ping :: "(bacnet_driver, driver_error, string) routine" where
  "ping d = (if bd_connected d then Ok (''BACnet/IP port='' @ show_nat (unat (bd_port d))) else Err (CommFault ''not connected''), d)"

subsection \<open>Opening\<close>

text \<open>One datagram or the end of the wait for it.\<close>

fun receive_one :: "net_event list \<Rightarrow> (bacnet_driver, 'e, u8 list option) routine" where
  "receive_one [] d = (Ok None, after 0 [] d)"
| "receive_one (Expire t # es) d = (Ok None, after t es d)"
| "receive_one (RecvFail t # es) d = (Ok None, after t es d)"
| "receive_one (Arrive t src bytes # es) d = (Ok (Some (in_buffer bytes)), after t es d)"

fun register_attempts :: "nat \<Rightarrow> sock_addr \<Rightarrow> u16 \<Rightarrow> (bacnet_driver, bacnet_error, unit) routine" where
  "register_attempts 0 bbmd ttl d = (Err (TransactionTimeout 3), d)"
| "register_attempts (Suc n) bbmd ttl d = (case socket_send bbmd (encode_register_foreign_device ttl) d of
      (False, d) \<Rightarrow> (Err (BacnetIo ''socket''), d)
    | (True, d) \<Rightarrow> (case receive_one (rx_events (bd_net d)) d of
        (Ok (Some bytes), d) \<Rightarrow> (case decode_bvll_result bytes of
            Ok code \<Rightarrow> ((if code = 0 then Ok () else Err (MalformedFrame ''BBMD registration NAK'')), d)
          | Err _ \<Rightarrow> register_attempts n bbmd ttl d
          | Panic \<Rightarrow> (Panic, d))
      | (Ok None, d) \<Rightarrow> register_attempts n bbmd ttl d
      | (Err e, d) \<Rightarrow> (Err e, d)
      | (Panic, d) \<Rightarrow> (Panic, d)))"

definition register_foreign_device :: "sock_addr \<Rightarrow> u16 \<Rightarrow> (bacnet_driver, bacnet_error, unit) routine" where
  "register_foreign_device bbmd ttl = register_attempts 3 bbmd ttl"

fun collect_i_am :: "net_event list \<Rightarrow> (bacnet_driver, 'e, device_info list) routine" where
  "collect_i_am [] d = (Ok [], after 0 [] d)"
| "collect_i_am (Expire t # es) d = (Ok [], after t es d)"
| "collect_i_am (RecvFail t # es) d = (Ok [], after t es d)"
| "collect_i_am (Arrive t src bytes # es) d = (case decode_packet (in_buffer bytes) of
      Panic \<Rightarrow> (Panic, after t es d)
    | Ok (_, IAm inst max_apdu seg vendor) \<Rightarrow>
        bnd (collect_i_am es) (\<lambda>ds. ret (\<lparr>di_instance = inst, di_addr = src, di_max_apdu = max_apdu, di_vendor = vendor, di_segmentation = seg\<rparr> # ds))
          (after t es d)
    | _ \<Rightarrow> collect_i_am es (after t es d))"

definition send_who_is :: "sock_addr \<Rightarrow> (bacnet_driver, 'e, bool) routine" where
  "send_who_is broadcast d = (case socket_send broadcast (encode_who_is None None) d of (sent, d) \<Rightarrow> (Ok sent, d))"

definition register_if_configured :: "(bacnet_driver, 'e, unit) routine" where
  "register_if_configured = bnd (get bd_bbmd) (\<lambda>bbmd. case bbmd of
      None \<Rightarrow> ret ()
    | Some addr \<Rightarrow> bnd (caught (register_foreign_device addr 300)) (\<lambda>r. case r of
        Inr _ \<Rightarrow> modify (\<lambda>d. d\<lparr>bd_foreign := True\<rparr>)
      | Inl _ \<Rightarrow> ret ()))"

definition distribute_who_is :: "(bacnet_driver, 'e, unit) routine" where
  "distribute_who_is d = (case bd_bbmd d of
      Some addr \<Rightarrow> if bd_foreign d
        then (case socket_send addr (encode_distribute_broadcast_to_network [0x01, 0x00, 0x10, SVC_UNCONFIRMED_WHOIS]) d of (_, d) \<Rightarrow> (Ok (), d))
        else (Ok (), d)
    | None \<Rightarrow> (Ok (), d))"

text \<open>Whether the socket can be bound and broadcast, and the broadcast address, come from the operating system and from the text of the address.\<close>

definition open_driver :: "bool \<Rightarrow> bool \<Rightarrow> sock_addr option \<Rightarrow> (bacnet_driver, driver_error, string) routine" where
  "open_driver binds broadcasts bcast =
     (if \<not> binds then raise (CommFault ''bacnet bind'')
      else if \<not> broadcasts then raise (CommFault ''bacnet set_broadcast'')
      else sq register_if_configured (case bcast of
          None \<Rightarrow> raise (ConfigFault ''invalid broadcast addr'')
        | Some addr \<Rightarrow> sq (send_who_is addr) (sq distribute_who_is
            (bnd (\<lambda>d. collect_i_am (rx_events (bd_net d)) d) (\<lambda>devices.
              sq (modify (\<lambda>d. d\<lparr>bd_registry := bulk_insert devices (bd_registry d), bd_connected := True, bd_status := DriverOk\<rparr>))
                 (get (\<lambda>d. ''BACnet/IP port='' @ show_nat (unat (bd_port d)) @ '' ('' @ show_nat (length devices) @ '' device'' @
                   (if length devices = 1 then [] else ''s'') @ '')'')))))))"

subsection \<open>Learning\<close>

record learn_point =
  lp_name :: "u8 list"
  lp_address :: "u8 list"
  lp_kind :: string
  lp_unit :: "u8 list option"
  lp_tags :: "(string \<times> string) list"

definition point_kind :: "u16 \<Rightarrow> string option" where
  "point_kind t = (if t \<le> 2 then Some ''Number'' else if t \<le> 5 then Some ''Bool'' else None)"

definition learn_object :: "device_info \<Rightarrow> u16 \<times> u32 \<Rightarrow> (bacnet_driver, 'e, learn_point option) routine" where
  "learn_object dev obj = (case obj of (t, inst) \<Rightarrow> (case point_kind t of
      None \<Rightarrow> ret None
    | Some kind \<Rightarrow> bnd (caught (read_object_name (di_addr dev) t inst)) (\<lambda>r.
        let device = show_nat (unat (di_instance dev)); ts = show_nat (unat t); is = show_nat (unat inst);
            name = (case r of Inr s \<Rightarrow> s | Inl _ \<Rightarrow> ascii (ts @ ''-'' @ is))
        in ret (Some \<lparr>lp_name = ascii (device @ ''-'') @ name, lp_address = ascii (device @ '':'' @ ts @ '':'' @ is), lp_kind = kind, lp_unit = None,
             lp_tags = [(''deviceId'', device), (''objectType'', ts), (''instance'', is)]\<rparr>))))"

definition learn_device :: "device_info \<Rightarrow> (bacnet_driver, 'e, learn_point list) routine" where
  "learn_device dev = bnd (caught (read_object_list (di_addr dev) (di_instance dev))) (\<lambda>r. case r of
      Inl _ \<Rightarrow> ret []
    | Inr objs \<Rightarrow> bnd (collect (learn_object dev) objs) (\<lambda>ps. ret (List.map_filter (\<lambda>p. p) ps)))"

definition learn :: "(bacnet_driver, 'e, learn_point list) routine" where
  "learn = bnd (get (\<lambda>d. registry_all (bd_registry d))) (\<lambda>devices. bnd (collect learn_device devices) (\<lambda>pss. ret (concat pss)))"

subsection \<open>Polling\<close>

definition due_subscriptions :: "bacnet_driver \<Rightarrow> (u32 \<times> sock_addr \<times> u16 \<times> u32 \<times> u32 option) list" where
  "due_subscriptions d = List.map_filter (\<lambda>(process, sub).
     if duration_since (net_clock (bd_net d)) (cs_at sub) < bd_renewal d then None
     else map_option (\<lambda>addr. (process, addr, cs_type sub, cs_instance sub, cs_lifetime sub)) (addr_of (cs_device sub) d)) (bd_subscriptions d)"

definition renew_one :: "u32 \<times> sock_addr \<times> u16 \<times> u32 \<times> u32 option \<Rightarrow> (bacnet_driver, 'e, unit) routine" where
  "renew_one due = (case due of (process, addr, t, inst, lifetime) \<Rightarrow>
     bnd (caught (subscribe_cov addr process t inst False lifetime)) (\<lambda>r. case r of
       Inr _ \<Rightarrow> modify (\<lambda>d. d\<lparr>bd_subscriptions := AList.map_entry process (\<lambda>s. s\<lparr>cs_at := net_clock (bd_net d)\<rparr>) (bd_subscriptions d)\<rparr>)
     | Inl _ \<Rightarrow> ret ()))"

definition renew_due_subscriptions :: "(bacnet_driver, 'e, unit) routine" where
  "renew_due_subscriptions = bnd (get due_subscriptions) (\<lambda>due. sq (collect renew_one due) (ret ()))"

type_synonym point_result = "u32 \<times> (driver_error + f64)"

definition numeric_result :: "string \<Rightarrow> bacnet_object \<Rightarrow> bacnet_value \<Rightarrow> driver_error + f64" where
  "numeric_result what obj v = (case to_f64 v of Some raw \<Rightarrow> Inr (scaled obj raw) | None \<Rightarrow> Inl (CommFault what))"

definition read_point :: "sock_addr \<Rightarrow> u32 \<times> bacnet_object \<Rightarrow> (bacnet_driver, 'e, point_result) routine" where
  "read_point addr p = bnd (caught (read_present_value addr (snd p))) (\<lambda>r. ret (fst p, r))"

definition present_value_spec :: "bacnet_object \<Rightarrow> rpm_request_spec" where
  "present_value_spec obj = \<lparr>rs_type = bo_type obj, rs_instance = bo_instance obj, rs_property = 85, rs_index = None\<rparr>"

definition read_points :: "sock_addr \<Rightarrow> (u32 \<times> bacnet_object) list \<Rightarrow> (bacnet_driver, 'e, point_result list) routine" where
  "read_points addr pts = (case pts of
      [] \<Rightarrow> ret []
    | [p] \<Rightarrow> bnd (read_point addr p) (\<lambda>r. ret [r])
    | _ \<Rightarrow> bnd (caught (read_properties_multiple addr (map (present_value_spec \<circ> snd) pts))) (\<lambda>r. case r of
        Inr vals \<Rightarrow> ret (map (\<lambda>((pid, obj), v). (pid, case v of Inr v \<Rightarrow> numeric_result ''bacnet: non-numeric value'' obj v | Inl e \<Rightarrow> Inl e)) (zip pts vals))
      | Inl _ \<Rightarrow> collect (read_point addr) pts))"

definition cached_value :: "bacnet_driver \<Rightarrow> bacnet_object \<Rightarrow> cov_cache_entry option" where
  "cached_value d obj = cov_cache_get (net_clock (bd_net d)) (600 * nanos) (bo_type obj) (bo_instance obj) (bd_cache d)"

definition sync_device :: "u32 \<times> (u32 \<times> bacnet_object) list \<Rightarrow> (bacnet_driver, 'e, point_result list) routine" where
  "sync_device g = (case g of (device, pts) \<Rightarrow> bnd (get (\<lambda>d. (addr_of device d, cached_value d))) (\<lambda>(addr, cached). case addr of
      None \<Rightarrow> ret (map (\<lambda>(pid, obj). (pid, Inl (CommFault ''BACnet device not in registry''))) pts)
    | Some addr \<Rightarrow>
        let hits = List.map_filter (\<lambda>(pid, obj). map_option (\<lambda>e. (pid, numeric_result ''bacnet: non-numeric COV value'' obj (ce_value e))) (cached obj)) pts
        in bnd (read_points addr (filter (\<lambda>(pid, obj). cached obj = None) pts)) (\<lambda>rs. ret (hits @ rs))))"

definition sync_cur :: "u32 list \<Rightarrow> (bacnet_driver, 'e, point_result list) routine" where
  "sync_cur points = sq renew_due_subscriptions (bnd (get bd_objects) (\<lambda>objects.
     let known = List.map_filter (\<lambda>p. map_option (Pair p) (map_of objects p)) points;
         faults = map (\<lambda>p. (p, Inl (ConfigFault ''no BACnet object configured''))) (filter (\<lambda>p. map_of objects p = None) points)
     in bnd (collect sync_device (group_on (\<lambda>(p, obj). bo_device obj) known)) (\<lambda>rss. ret (faults @ concat rss))))"

subsection \<open>Writing\<close>

definition raw_value :: "bacnet_object \<Rightarrow> f64 \<Rightarrow> f64" where
  "raw_value obj v = (if eq64 (bo_scale obj) 0 then v else div64 (sub64 v (bo_offset obj)) (bo_scale obj))"

definition written_value :: "bacnet_object \<Rightarrow> f64 \<Rightarrow> bacnet_value option" where
  "written_value obj raw =
     (if bo_type obj \<le> 2 then Some (Real (f64_to_f32 raw))
      else if bo_type obj \<le> 5 then Some (Enumerated (if eq64 raw 0 then 0 else 1))
      else None)"

definition write_point :: "u32 \<times> f64 \<Rightarrow> (bacnet_driver, 'e, u32 \<times> (driver_error + unit)) routine" where
  "write_point w = (case w of (point, v) \<Rightarrow> bnd (get (\<lambda>d. d)) (\<lambda>d. case map_of (bd_objects d) point of
      None \<Rightarrow> ret (point, Inl (ConfigFault ''no BACnet object configured''))
    | Some obj \<Rightarrow> (case addr_of (bo_device obj) d of
        None \<Rightarrow> ret (point, Inl (CommFault ''BACnet device not in registry''))
      | Some addr \<Rightarrow> (case written_value obj (raw_value obj v) of
          None \<Rightarrow> ret (point, Inl (ConfigFault ''unsupported object type for write''))
        | Some bv \<Rightarrow> bnd (caught (write_property addr (bo_type obj) (bo_instance obj) 85 bv (Some 16))) (\<lambda>r. ret (point, r))))))"

definition write_points :: "(u32 \<times> f64) list \<Rightarrow> (bacnet_driver, 'e, (u32 \<times> (driver_error + unit)) list) routine" where
  "write_points writes = collect write_point writes"

subsection \<open>Watching\<close>

definition watch_point :: "u32 \<Rightarrow> (bacnet_driver, 'e, unit) routine" where
  "watch_point point = bnd (get (\<lambda>d. d)) (\<lambda>d.
     if list_ex (\<lambda>(process, s). cs_point s = point) (bd_subscriptions d) then ret ()
     else case map_of (bd_objects d) point of
       None \<Rightarrow> ret ()
     | Some obj \<Rightarrow> (case addr_of (bo_device obj) d of
         None \<Rightarrow> ret ()
       | Some addr \<Rightarrow> bnd allocate_process_id (\<lambda>process.
           bnd (caught (subscribe_cov addr process (bo_type obj) (bo_instance obj) False (Some 300))) (\<lambda>r. case r of
             Inr _ \<Rightarrow> modify (\<lambda>d. d\<lparr>bd_subscriptions := AList.update process
               \<lparr>cs_point = point, cs_process = process, cs_type = bo_type obj, cs_instance = bo_instance obj, cs_device = bo_device obj,
                cs_lifetime = Some 300, cs_at = net_clock (bd_net d)\<rparr> (bd_subscriptions d)\<rparr>)
           | Inl _ \<Rightarrow> ret ()))))"

definition on_watch :: "u32 list \<Rightarrow> (bacnet_driver, 'e, unit) routine" where
  "on_watch points = sq (collect watch_point points) (ret ())"

definition forget_subscription :: "cov_subscription \<Rightarrow> bacnet_driver \<Rightarrow> bacnet_driver" where
  "forget_subscription s d =
     d\<lparr>bd_subscriptions := AList.delete (cs_process s) (bd_subscriptions d), bd_cache := cov_cache_remove (cs_type s) (cs_instance s) (bd_cache d)\<rparr>"

definition unwatch_point :: "u32 \<Rightarrow> (bacnet_driver, 'e, unit) routine" where
  "unwatch_point point = bnd (get (\<lambda>d. d)) (\<lambda>d. case find (\<lambda>s. cs_point s = point) (map snd (bd_subscriptions d)) of
      None \<Rightarrow> ret ()
    | Some s \<Rightarrow> (case addr_of (cs_device s) d of
        None \<Rightarrow> modify (forget_subscription s)
      | Some addr \<Rightarrow> sq (caught (unsubscribe_cov addr (cs_process s) (cs_type s) (cs_instance s))) (modify (forget_subscription s))))"

definition on_unwatch :: "u32 list \<Rightarrow> (bacnet_driver, 'e, unit) routine" where
  "on_unwatch points = sq (collect unwatch_point points) (ret ())"

section \<open>What every operation keeps\<close>

text \<open>
  A property that the primitive steps keep is kept by every operation, on its error paths too; when it says that no datagram of the network
  breaks the decoder, no operation panics (\<open>calm\<close>).
\<close>

definition clean :: "bacnet_driver \<Rightarrow> bool" where
  "clean d \<longleftrightarrow> (\<forall>t src bytes. Arrive t src bytes \<in> set (rx_events (bd_net d)) \<longrightarrow> decode_packet (in_buffer bytes) \<noteq> Panic)"

lemma take_apdu_net [simp]: "bd_net (take_apdu a d) = bd_net d"
  by (auto simp: take_apdu_def handle_cov_notification_def Let_def split: apdu.split option.split)

lemma await_no_Err: "fst (await ch es d) \<noteq> Err e"
proof (induction ch es d rule: await.induct)
  case (4 ch t src bytes es d)
  then show ?case by (cases "decode_packet (in_buffer bytes)") (auto simp: Let_def split: option.splits)
qed simp_all

lemma exchange_no_Err: "fst (exchange n ch addr request d) \<noteq> Err e"
proof (induction n arbitrary: d)
  case (Suc n)
  obtain b d1 where s: "socket_send addr request d = (b, d1)" by fastforce
  obtain w d2 where w: "await ch (rx_events (bd_net d1)) d1 = (w, d2)" by fastforce
  show ?case using s w await_no_Err [of ch "rx_events (bd_net d1)" d1] Suc [of d2] by (auto split: bool.split outcome.split wait_end.split)
qed simp

locale driver_property =
  fixes I :: "bacnet_driver \<Rightarrow> bool" and calm :: bool
  assumes calm_clean: "calm \<Longrightarrow> I d \<Longrightarrow> clean d"
    and I_send: "I d \<Longrightarrow> I (snd (socket_send addr bytes d))"
    and I_after: "I d \<Longrightarrow> set es \<subseteq> set (rx_events (bd_net d)) \<Longrightarrow> I (after t es d)"
    and I_cache: "I d \<Longrightarrow> I (d\<lparr>bd_cache := cov_cache_update now n (bd_cache d)\<rparr>)"
    and I_allocate: "I d \<Longrightarrow> I (d\<lparr>bd_transactions := snd (allocate (bd_transactions d))\<rparr>)"
    and I_waiter: "I d \<Longrightarrow> I (d\<lparr>bd_transactions := send_to_waiter i m (bd_transactions d)\<rparr>)"
    and I_process: "I d \<Longrightarrow> I (snd (allocate_process_id d :: (unit, u32) outcome \<times> _))"
    and I_renewed: "I d \<Longrightarrow> I (d\<lparr>bd_subscriptions := AList.map_entry p (\<lambda>s. s\<lparr>cs_at := now\<rparr>) (bd_subscriptions d)\<rparr>)"
    and I_subscribed: "I d \<Longrightarrow> cs_process s = p \<Longrightarrow> I (d\<lparr>bd_subscriptions := AList.update p s (bd_subscriptions d)\<rparr>)"
    and I_forget: "I d \<Longrightarrow> I (forget_subscription s d)"
    and I_opened: "I d \<Longrightarrow> I (d\<lparr>bd_registry := bulk_insert devices (bd_registry d), bd_connected := True, bd_status := DriverOk\<rparr>)"
    and I_foreign: "I d \<Longrightarrow> I (d\<lparr>bd_foreign := True\<rparr>)"
    and I_closed: "I d \<Longrightarrow> I (d\<lparr>bd_connected := False, bd_status := DriverDown\<rparr>)"
begin

definition carries :: "(bacnet_driver, 'e, 'a) routine \<Rightarrow> bool" where
  "carries m \<longleftrightarrow> (\<forall>d. I d \<longrightarrow> I (snd (m d)) \<and> (calm \<longrightarrow> fst (m d) \<noteq> Panic))"

lemma holdsD: "carries m \<Longrightarrow> I d \<Longrightarrow> m d = (r, d') \<Longrightarrow> I d' \<and> (calm \<longrightarrow> r \<noteq> Panic)"
  by (metis fst_conv carries_def snd_conv)

lemma holds_bnd: "carries m \<Longrightarrow> (\<And>a. carries (f a)) \<Longrightarrow> carries (bnd m f)"
  unfolding carries_def bnd_def by (auto split: prod.split outcome.split)

lemma holds_simple:
  "carries (ret a)" "carries (raise e)" "carries (get g)" "r \<noteq> Panic \<Longrightarrow> carries (lift r)" "(\<And>d. I d \<Longrightarrow> I (f d)) \<Longrightarrow> carries (modify f)"
  by (simp_all add: carries_def ret_def raise_def get_def lift_def modify_def)

lemma holds_sq: "carries m \<Longrightarrow> carries n \<Longrightarrow> carries (sq m n)"
  unfolding sq_def by (rule holds_bnd)

lemma holds_attempt: "carries m \<Longrightarrow> carries (caught m)"
  unfolding carries_def caught_def by (auto split: prod.split outcome.split)

lemma holds_collect: "(\<And>x. carries (f x)) \<Longrightarrow> carries (collect f xs)"
  by (induction xs) (simp_all add: holds_simple holds_bnd)

lemma holds_when: "carries m \<Longrightarrow> carries (when_connected e m)"
  by (simp add: carries_def when_connected_def)

lemmas holds_rules = holds_simple holds_bnd holds_sq holds_attempt holds_collect holds_when

lemma I_take_apdu: "I d \<Longrightarrow> I (take_apdu a d)"
proof -
  assume d: "I d"
  define d' where "d' = (case a of UnconfirmedCov n \<Rightarrow> handle_cov_notification n d | ConfirmedCov _ n \<Rightarrow> handle_cov_notification n d | _ \<Rightarrow> d)"
  have "I d'" using d I_cache by (simp add: d'_def handle_cov_notification_def split: apdu.split)
  moreover have "take_apdu a d = (case apdu_invoke_id a of Some i \<Rightarrow> d'\<lparr>bd_transactions := dispatch_apdu i a (bd_transactions d')\<rparr> | None \<Rightarrow> d')"
    unfolding take_apdu_def Let_def d'_def by (rule refl)
  ultimately show ?thesis using I_waiter by (simp add: dispatch_apdu_def split: option.split)
qed

lemma await_keeps: "I d \<Longrightarrow> set es \<subseteq> set (rx_events (bd_net d)) \<Longrightarrow> I (snd (await ch es d)) \<and> (calm \<longrightarrow> fst (await ch es d) \<noteq> Panic)"
proof (induction es arbitrary: d)
  case (Cons e es)
  show ?case
  proof (cases e)
    case (Arrive t src bytes)
    have d: "I (after t es d)" using Cons.prems I_after by auto
    have "calm \<Longrightarrow> decode_packet (in_buffer bytes) \<noteq> Panic" using calm_clean [OF _ Cons.prems(1)] Cons.prems(2) by (auto simp: clean_def Arrive)
    moreover have "set es \<subseteq> set (rx_events (bd_net (after t es d)))" by (simp add: after_def)
    ultimately show ?thesis using Cons.IH [of "after t es d"] Cons.IH [of "take_apdu a (after t es d)" for a] d I_take_apdu [OF d]
      by (auto simp: Arrive Let_def split: outcome.splits option.splits)
  qed (use Cons.prems in \<open>auto intro: I_after\<close>)
qed (simp add: I_after)

lemma holds_await: "carries (\<lambda>d. await ch (rx_events (bd_net d)) d)"
  using await_keeps by (simp add: carries_def)

lemma holds_exchange: "carries (exchange n ch addr request)"
proof (induction n)
  case (Suc n)
  have "I (snd (exchange (Suc n) ch addr request d)) \<and> (calm \<longrightarrow> fst (exchange (Suc n) ch addr request d) \<noteq> Panic)" if "I d" for d
  proof -
    obtain b d1 where s: "socket_send addr request d = (b, d1)" by fastforce
    then have "I d1" using I_send [OF that, of addr request] by simp
    obtain w d2 where w: "await ch (rx_events (bd_net d1)) d1 = (w, d2)" by fastforce
    have d2: "I d2" "calm \<longrightarrow> w \<noteq> Panic" using await_keeps [OF \<open>I d1\<close>, of "rx_events (bd_net d1)" ch] w by auto
    have "I (snd (exchange n ch addr request d2)) \<and> (calm \<longrightarrow> fst (exchange n ch addr request d2) \<noteq> Panic)"
      using Suc d2(1) by (simp add: carries_def)
    then show ?thesis using s w d2 \<open>I d1\<close> by (auto split: bool.split outcome.split wait_end.split)
  qed
  then show ?case by (simp add: carries_def)
qed (simp add: carries_def)

lemma holds_transact: "carries (transact errs addr build max_retries)"
proof -
  have "I (snd (transact errs addr build max_retries d)) \<and> (calm \<longrightarrow> fst (transact errs addr build max_retries d) \<noteq> Panic)" if "I d" for d
  proof (cases "allocate (bd_transactions d)")
    case (Pair r t)
    have d: "I (d\<lparr>bd_transactions := t\<rparr>)" using I_allocate [OF that] Pair by simp
    show ?thesis
    proof (cases r)
      case (Some p)
      obtain i ch where p: "p = (i, ch)" by fastforce
      obtain x d2 where run: "exchange (Suc max_retries) ch addr (build i) (d\<lparr>bd_transactions := t\<rparr>) = (x, d2)" by fastforce
      have "I d2 \<and> (calm \<longrightarrow> x \<noteq> Panic)" using holdsD [OF holds_exchange d run] .
      moreover have "x \<noteq> Err e" for e using exchange_no_Err run by (metis fst_conv)
      ultimately show ?thesis using I_waiter [of d2]
        by (auto simp: transact_def Pair Some p run on_transactions_def timeout_request_def
          simp del: exchange.simps split: outcome.split exchange_end.split sum.split)
    qed (use d in \<open>simp add: transact_def Pair\<close>)
  qed
  then show ?thesis by (simp add: carries_def)
qed

lemma holds_requests:
  "carries (read_present_value addr obj)" "carries (read_property_generic addr t inst p)" "carries (read_properties_multiple addr specs)"
  "carries (read_object_list addr dev)" "carries (read_object_name addr t inst)" "carries (acknowledged what addr build)"
  unfolding read_present_value_def read_property_generic_def read_properties_multiple_def read_object_list_def read_object_name_def acknowledged_def
    bacnet_transact_inner_def
  by (intro holds_rules holds_transact, auto split: apdu.split option.split bacnet_value.split)+

lemma holds_writes: "carries (write_property addr t inst p v prio)" "carries (subscribe_cov addr process t inst c lt)" "carries (unsubscribe_cov addr process t inst)"
  unfolding write_property_def subscribe_cov_def unsubscribe_cov_def by (rule holds_requests)+

lemma holds_split: "carries f \<Longrightarrow> (\<And>a. carries (g a)) \<Longrightarrow> carries (case x of None \<Rightarrow> f | Some a \<Rightarrow> g a)"
  "(\<And>a. carries (f' a)) \<Longrightarrow> (\<And>a. carries (g' a)) \<Longrightarrow> carries (case y of Inl a \<Rightarrow> f' a | Inr a \<Rightarrow> g' a)"
  "(\<And>a b. carries (h a b)) \<Longrightarrow> carries (case z of (a, b) \<Rightarrow> h a b)"
  by (simp_all split: option.split sum.split prod.split)

lemma holds_if: "carries f \<Longrightarrow> carries g \<Longrightarrow> carries (if b then f else g)"
  by simp

lemma holds_process: "carries (allocate_process_id :: (bacnet_driver, 'e, u32) routine)"
  using I_process by (simp add: carries_def allocate_process_id_def Let_def)

lemmas operation_rules = holds_rules holds_requests holds_writes holds_split holds_if holds_process

lemma holds_sync: "carries (sync_cur points)"
proof -
  have "carries (renew_one due)" for due unfolding renew_one_def
    by (intro operation_rules) (auto intro: I_renewed)
  moreover have "carries (read_point addr p)" for addr p unfolding read_point_def by (intro operation_rules)
  moreover from this have "carries (read_points addr pts)" for addr pts unfolding read_points_def
    by (auto split: list.split intro!: operation_rules)
  moreover from this have "carries (sync_device g)" for g unfolding sync_device_def Let_def by (intro operation_rules)
  ultimately show ?thesis unfolding sync_cur_def renew_due_subscriptions_def Let_def by (intro operation_rules)
qed

lemma holds_write: "carries (write_points writes)"
  unfolding write_points_def write_point_def by (intro operation_rules)

lemma holds_learn: "carries learn"
  unfolding learn_def learn_device_def learn_object_def Let_def by (intro operation_rules)

lemma holds_watch: "carries (on_watch points)"
  unfolding on_watch_def watch_point_def by (intro operation_rules) (auto intro: I_subscribed)

lemma holds_unwatch: "carries (on_unwatch points)"
  unfolding on_unwatch_def unwatch_point_def by (intro operation_rules) (auto intro: I_forget)

lemma holds_close: "carries close_driver"
  unfolding close_driver_def by (intro operation_rules) (rule I_closed)

lemma holds_receive_one: "carries (\<lambda>d. (receive_one (rx_events (bd_net d)) d :: ('e, _) outcome \<times> _))"
proof -
  have "I (snd (receive_one es d :: ('e, _) outcome \<times> _)) \<and> fst (receive_one es d :: ('e, _) outcome \<times> _) \<noteq> Panic" if "I d" "set es \<subseteq> set (rx_events (bd_net d))" for es d
    using that by (induction es d rule: receive_one.induct) (auto intro: I_after)
  then show ?thesis by (simp add: carries_def)
qed

lemma holds_register: "carries (register_attempts n bbmd ttl)"
proof (induction n)
  case (Suc n)
  have "I (snd (register_attempts (Suc n) bbmd ttl d)) \<and> (calm \<longrightarrow> fst (register_attempts (Suc n) bbmd ttl d) \<noteq> Panic)" if "I d" for d
  proof -
    obtain b d1 where s: "socket_send bbmd (encode_register_foreign_device ttl) d = (b, d1)" by fastforce
    then have d1: "I d1" using I_send [OF that, of bbmd] by (metis snd_conv)
    obtain w :: "(bacnet_error, u8 list option) outcome" and d2 where w: "receive_one (rx_events (bd_net d1)) d1 = (w, d2)" by fastforce
    then have d2: "I d2" "calm \<longrightarrow> w \<noteq> Panic" using holdsD [OF holds_receive_one d1] by blast+
    have "decode_bvll_result bytes \<noteq> Panic" for bytes by (auto simp: decode_bvll_result_def slice_defs)
    moreover have "I (snd (register_attempts n bbmd ttl d2)) \<and> (calm \<longrightarrow> fst (register_attempts n bbmd ttl d2) \<noteq> Panic)"
      using Suc d2(1) by (simp add: carries_def)
    ultimately show ?thesis using s w d1 d2 by (auto split: bool.split outcome.split option.split)
  qed
  then show ?case by (simp add: carries_def)
qed (simp add: carries_def)

lemma holds_collect_i_am: "carries (\<lambda>d. (collect_i_am (rx_events (bd_net d)) d :: ('e, _) outcome \<times> _))"
proof -
  let ?run = "collect_i_am :: net_event list \<Rightarrow> (bacnet_driver, 'e, device_info list) routine"
  have "I (snd (?run es d)) \<and> (calm \<longrightarrow> fst (?run es d) \<noteq> Panic)" if "I d" "set es \<subseteq> set (rx_events (bd_net d))" for es d
    using that
  proof (induction es arbitrary: d)
    case (Cons e es)
    show ?case
    proof (cases e)
      case (Arrive t src bytes)
      have d: "I (after t es d)" using Cons.prems I_after by auto
      have "calm \<Longrightarrow> decode_packet (in_buffer bytes) \<noteq> Panic" using calm_clean [OF _ Cons.prems(1)] Cons.prems(2) by (auto simp: clean_def Arrive)
      moreover have "set es \<subseteq> set (rx_events (bd_net (after t es d)))" by (simp add: after_def)
      then have "I (snd (?run es (after t es d))) \<and> (calm \<longrightarrow> fst (?run es (after t es d)) \<noteq> Panic)"
        by (rule Cons.IH [OF d])
      ultimately show ?thesis using d by (auto simp: Arrive bnd_def ret_def split: outcome.splits prod.splits apdu.splits)
    qed (use Cons.prems in \<open>auto intro: I_after\<close>)
  qed (simp add: I_after)
  then show ?thesis by (simp add: carries_def)
qed

lemma holds_open: "carries (open_driver binds broadcasts bcast)"
proof -
  have "carries (send_who_is addr)" for addr using I_send by (auto simp: carries_def send_who_is_def split: prod.split) (metis snd_conv)
  moreover have "carries distribute_who_is" using I_send by (auto simp: carries_def distribute_who_is_def split: prod.split option.split) (metis snd_conv)
  moreover have "carries register_if_configured"
    unfolding register_if_configured_def register_foreign_device_def by (intro operation_rules holds_register) (rule I_foreign)
  ultimately show ?thesis unfolding open_driver_def by (intro operation_rules holds_collect_i_am) (auto intro: I_opened)
qed

lemmas operations_hold = holds_open holds_close holds_learn holds_sync holds_write holds_watch holds_unwatch

end

section \<open>Reachable drivers\<close>

definition driver_ok :: "bacnet_driver \<Rightarrow> bool" where
  "driver_ok d \<longleftrightarrow> requests_ok (bd_transactions d) \<and> bd_next_process d \<noteq> 0 \<and>
     distinct (map fst (bd_subscriptions d)) \<and> list_all (\<lambda>(p, s). cs_process s = p) (bd_subscriptions d) \<and>
     distinct (map fst (bd_registry d)) \<and> list_all (\<lambda>(k, dev). di_instance dev = k) (bd_registry d) \<and> distinct (map fst (bd_cache d))"

lemma list_all_update: "list_all P xs \<Longrightarrow> P (k, v) \<Longrightarrow> list_all P (AList.update k v xs)"
  by (induction xs) auto

lemma list_all_map_entry: "list_all P xs \<Longrightarrow> (\<And>v. P (k, v) \<Longrightarrow> P (k, f v)) \<Longrightarrow> list_all P (AList.map_entry k f xs)"
  by (induction xs) auto

lemma map_entry_keys: "map fst (AList.map_entry k f xs) = map fst xs"
  by (induction xs) auto

lemma list_all_delete: "list_all P xs \<Longrightarrow> list_all P (AList.delete k xs)"
  by (auto simp: list_all_iff AList.delete_eq)

lemma bulk_insert_ok:
  "distinct (map fst r) \<and> list_all (\<lambda>(k, dev). di_instance dev = k) r \<Longrightarrow>
   distinct (map fst (bulk_insert devices r)) \<and> list_all (\<lambda>(k, dev). di_instance dev = k) (bulk_insert devices r)"
  by (induction devices arbitrary: r) (simp_all add: bulk_insert_def registry_insert_def distinct_update list_all_update)

lemma cov_cache_update_distinct: "distinct (map fst c) \<Longrightarrow> distinct (map fst (cov_cache_update now n c))"
proof -
  have "distinct (map fst c) \<Longrightarrow> distinct (map fst (foldl (\<lambda>c pv. if Q pv then AList.update k (g pv) c else c) c vs))" for c k g Q and vs :: "'v list"
    by (induction vs arbitrary: c) (simp_all add: distinct_update)
  then show "distinct (map fst c) \<Longrightarrow> ?thesis" by (simp add: cov_cache_update_def)
qed

interpretation driver_tables: driver_property driver_ok False
  by unfold_locales
    (auto simp: driver_ok_def socket_send_def after_def allocate_process_id_def forget_subscription_def cov_cache_remove_def Let_def
      cov_cache_update_distinct allocate_ok send_to_waiter_ok distinct_update distinct_delete list_all_update list_all_delete
      map_entry_keys bulk_insert_ok intro!: list_all_map_entry)

interpretation driver_calm: driver_property clean True
  by unfold_locales (auto simp: clean_def socket_send_def after_def allocate_process_id_def forget_subscription_def Let_def)

inductive driver_reachable :: "(u8 list \<Rightarrow> sock_addr option) \<Rightarrow> bacnet_driver \<Rightarrow> bool" for parse_addr where
  start_driver: "driver_reachable parse_addr (from_config parse_addr c n)"
| step_network: "driver_reachable parse_addr d \<Longrightarrow> driver_reachable parse_addr (d\<lparr>bd_net := (bd_net d)\<lparr>rx_events := es, tx_results := ws\<rparr>\<rparr>)"
| step_open: "driver_reachable parse_addr d \<Longrightarrow> open_driver binds broadcasts bcast d = (r, d') \<Longrightarrow> driver_reachable parse_addr d'"
| step_close: "driver_reachable parse_addr d \<Longrightarrow> close_driver d = (r :: (unit, unit) outcome, d') \<Longrightarrow> driver_reachable parse_addr d'"
| step_learn: "driver_reachable parse_addr d \<Longrightarrow> learn d = (r :: (unit, _) outcome, d') \<Longrightarrow> driver_reachable parse_addr d'"
| step_sync: "driver_reachable parse_addr d \<Longrightarrow> sync_cur points d = (r :: (unit, _) outcome, d') \<Longrightarrow> driver_reachable parse_addr d'"
| step_write: "driver_reachable parse_addr d \<Longrightarrow> write_points writes d = (r :: (unit, _) outcome, d') \<Longrightarrow> driver_reachable parse_addr d'"
| step_watch: "driver_reachable parse_addr d \<Longrightarrow> on_watch points d = (r :: (unit, _) outcome, d') \<Longrightarrow> driver_reachable parse_addr d'"
| step_unwatch: "driver_reachable parse_addr d \<Longrightarrow> on_unwatch points d = (r :: (unit, _) outcome, d') \<Longrightarrow> driver_reachable parse_addr d'"

lemma from_config_ok: "driver_ok (from_config parse_addr c n)"
proof -
  have "driver_ok d \<Longrightarrow> driver_ok (foldl (\<lambda>d oc. add_object (oc_point oc) (configured_object oc) d) d ocs)" for d ocs
    by (induction ocs arbitrary: d) (simp_all add: add_object_def driver_ok_def)
  then show ?thesis by (simp add: from_config_def driver_new_def driver_ok_def Let_def)
qed

lemma reachable_ok: "driver_reachable parse_addr d \<Longrightarrow> driver_ok d"
proof (induction rule: driver_reachable.induct)
  case (start_driver c n)
  show ?case by (rule from_config_ok)
next
  case (step_network d es ws)
  then show ?case by (simp add: driver_ok_def)
next
  case (step_open d binds broadcasts bcast r d')
  from driver_tables.holdsD [OF driver_tables.holds_open step_open(3,2)] show ?case by simp
next
  case (step_close d r d')
  from driver_tables.holdsD [OF driver_tables.holds_close step_close(3,2)] show ?case by simp
next
  case (step_learn d r d')
  from driver_tables.holdsD [OF driver_tables.holds_learn step_learn(3,2)] show ?case by simp
next
  case (step_sync d points r d')
  from driver_tables.holdsD [OF driver_tables.holds_sync step_sync(3,2)] show ?case by simp
next
  case (step_write d writes r d')
  from driver_tables.holdsD [OF driver_tables.holds_write step_write(3,2)] show ?case by simp
next
  case (step_watch d points r d')
  from driver_tables.holdsD [OF driver_tables.holds_watch step_watch(3,2)] show ?case by simp
next
  case (step_unwatch d points r d')
  from driver_tables.holdsD [OF driver_tables.holds_unwatch step_unwatch(3,2)] show ?case by simp
qed

section \<open>Results of a poll\<close>

lemma collect_length: "collect f xs s = (Ok ys, s') \<Longrightarrow> length ys = length xs"
  by (induction xs arbitrary: s ys s') (auto simp: ret_def bnd_eq_Ok)

lemma collect_fst:
  assumes "\<And>x s r s'. f x s = (Ok r, s') \<Longrightarrow> h r = g x"
  shows "collect f xs s = (Ok ys, s') \<Longrightarrow> map h ys = map g xs"
  by (induction xs arbitrary: s ys s') (use assms in \<open>auto simp: ret_def bnd_eq_Ok\<close>)

lemma read_point_fst: "read_point addr p s = (Ok r, s') \<Longrightarrow> fst r = fst p"
  by (auto simp: read_point_def bnd_eq_Ok ret_def)

lemma read_multiple_length: "caught (read_properties_multiple addr specs) s = (Ok (Inr vals), s') \<Longrightarrow> length vals = length specs"
proof -
  assume "caught (read_properties_multiple addr specs) s = (Ok (Inr vals), s')"
  then have "read_properties_multiple addr specs s = (Ok vals, s')" by (auto simp: caught_def split: prod.splits outcome.splits)
  then obtain a where "(case a of ReadPropertyMultipleAck _ results \<Rightarrow> Ok (map (result_for results) specs)
       | ErrorPdu _ _ cls code \<Rightarrow> Err (RemoteError cls code) | _ \<Rightarrow> Err (MalformedFrame ''unexpected APDU type'')) = Ok vals"
    by (auto simp: read_properties_multiple_def when_connected_def bnd_eq_Ok lift_def split: if_splits)
  then show ?thesis by (cases a) auto
qed

lemma read_points_fst: "read_points addr pts s = (Ok rs :: ('e, _) outcome, s') \<Longrightarrow> map fst rs = map fst pts"
proof -
  assume run: "read_points addr pts s = (Ok rs :: ('e, _) outcome, s')"
  consider "pts = []" | p where "pts = [p]" | p q ps where "pts = p # q # ps" by (metis neq_Nil_conv)
  then show ?thesis
  proof cases
    case 3
    define after_multiple :: "_ \<Rightarrow> (bacnet_driver, 'e, point_result list) routine" where "after_multiple r = (case r of
        Inr vals \<Rightarrow> ret (map (\<lambda>((pid, obj), v). (pid, case v of Inr v \<Rightarrow> numeric_result ''bacnet: non-numeric value'' obj v | Inl e \<Rightarrow> Inl e)) (zip pts vals))
      | Inl _ \<Rightarrow> collect (read_point addr) pts)" for r :: "bacnet_error + (driver_error + bacnet_value) list"
    have "read_points addr pts = bnd (caught (read_properties_multiple addr (map (present_value_spec \<circ> snd) pts))) after_multiple"
      unfolding after_multiple_def by (simp only: read_points_def 3 list.case)
    then obtain r s1 where r: "caught (read_properties_multiple addr (map (present_value_spec \<circ> snd) pts)) s = (Ok r :: ('e, _) outcome, s1)"
        and rest: "after_multiple r s1 = (Ok rs, s')"
      using run by (auto simp only: bnd_eq_Ok)
    show ?thesis
    proof (cases r)
      case (Inl e)
      then have "collect (read_point addr) pts s1 = (Ok rs :: ('e, _) outcome, s')" using rest by (simp add: after_multiple_def)
      then show ?thesis by (rule collect_fst [rotated]) (rule read_point_fst)
    next
      case (Inr vals)
      then have len: "length vals = length pts" using read_multiple_length r by fastforce
      have "map fst (map (\<lambda>((pid, obj), v). (pid, g obj v)) (zip pts vals)) = map fst pts" for g using len
        by (induction pts vals rule: list_induct2') auto
      then show ?thesis using rest Inr by (auto simp: ret_def after_multiple_def)
    qed
  qed (use run in \<open>auto simp: read_points_def ret_def bnd_eq_Ok dest: read_point_fst\<close>)
qed

lemma map_filter_split: "mset (map fst (List.map_filter (\<lambda>(p, x). map_option (Pair p \<circ> g x) (c x)) xs)) + mset (map fst (filter (\<lambda>(p, x). c x = None) xs)) = mset (map fst xs)"
  by (induction xs) (auto simp: List.map_filter_simps split: option.split)

lemma sync_device_fst: "sync_device g s = (Ok rs :: ('e, _) outcome, s') \<Longrightarrow> mset (map fst rs) = mset (map fst (snd g))"
proof -
  assume run: "sync_device g s = (Ok rs :: ('e, _) outcome, s')"
  obtain device pts where g: "g = (device, pts)" by fastforce
  show ?thesis
  proof (cases "addr_of device s")
    case None
    then show ?thesis using run by (auto simp: sync_device_def g bnd_def get_def ret_def multiset.map_comp comp_def case_prod_unfold)
  next
    case (Some addr)
    let ?hit = "\<lambda>obj e. numeric_result ''bacnet: non-numeric COV value'' obj (ce_value e)"
    obtain rs' where missed: "read_points addr (filter (\<lambda>(pid, obj). cached_value s obj = None) pts) s = (Ok rs' :: ('e, _) outcome, s')"
      and "rs = List.map_filter (\<lambda>(pid, obj). map_option (\<lambda>e. (pid, ?hit obj e)) (cached_value s obj)) pts @ rs'"
      using run by (auto simp: sync_device_def g bnd_eq_Ok get_def ret_def Some Let_def)
    then show ?thesis using arg_cong [where f = mset, OF read_points_fst [OF missed]] map_filter_split [of ?hit "cached_value s" pts]
      by (simp add: g comp_def)
  qed
qed

lemma collect_concat:
  assumes "\<And>x s r s'. f x s = (Ok r, s') \<Longrightarrow> mset (map h r) = mset (map k (g x))"
  shows "collect f xs s = (Ok yss, s') \<Longrightarrow> mset (map h (concat yss)) = mset (map k (concat (map g xs)))"
  by (induction xs arbitrary: s yss s') (use assms in \<open>auto simp: ret_def bnd_eq_Ok\<close>)

lemma known_split: "mset (filter (\<lambda>p. map_of m p = None) ps) + mset (map fst (List.map_filter (\<lambda>p. map_option (Pair p) (map_of m p)) ps)) = mset ps"
  by (induction ps) (auto simp: List.map_filter_simps split: option.split)

lemma sync_cur_fst:
  assumes "sync_cur points d = (Ok rs :: ('e, _) outcome, d')"
  shows "mset (map fst rs) = mset points"
proof -
  obtain d1 rss where run: "collect sync_device (group_on (\<lambda>(p, obj). bo_device obj)
        (List.map_filter (\<lambda>p. map_option (Pair p) (map_of (bd_objects d1) p)) points)) d1 = (Ok rss :: ('e, _) outcome, d')"
      and rs: "rs = map (\<lambda>p. (p, Inl (ConfigFault ''no BACnet object configured''))) (filter (\<lambda>p. map_of (bd_objects d1) p = None) points) @ concat rss"
    using assms by (auto simp: sync_cur_def sq_def bnd_eq_Ok get_def ret_def Let_def)
  let ?known = "List.map_filter (\<lambda>p. map_option (Pair p) (map_of (bd_objects d1) p)) points"
  have "mset (map fst (concat rss)) = mset (map fst (concat (map snd (group_on (\<lambda>(p, obj). bo_device obj) ?known))))"
    using run by (rule collect_concat [rotated]) (rule sync_device_fst)
  also have "\<dots> = mset (map fst ?known)" by (simp only: mset_map mset_group_on)
  finally show ?thesis using known_split [of "bd_objects d1" points] by (simp add: rs multiset.map_comp comp_def)
qed

section \<open>Operations that report no error of their own\<close>

definition never_fails :: "('s, 'e, 'a) routine \<Rightarrow> bool" where
  "never_fails m \<longleftrightarrow> (\<forall>s e. fst (m s) \<noteq> Err e)"

lemma never_fails_rules:
  "never_fails (ret a)" "never_fails (get g)" "never_fails (modify f)" "never_fails (caught m)"
  "never_fails m1 \<Longrightarrow> (\<And>a. never_fails (k a)) \<Longrightarrow> never_fails (bnd m1 k)"
  by (auto simp: never_fails_def ret_def get_def modify_def caught_def bnd_def split: prod.split outcome.split) (metis fst_conv)+

lemma never_fails_sq: "never_fails m \<Longrightarrow> never_fails n \<Longrightarrow> never_fails (sq m n)"
  unfolding sq_def by (rule never_fails_rules)

lemma never_fails_collect: "(\<And>x. never_fails (f x)) \<Longrightarrow> never_fails (collect f xs)"
  by (induction xs) (simp_all add: never_fails_rules)

lemma never_fails_split: "never_fails f \<Longrightarrow> (\<And>a. never_fails (g a)) \<Longrightarrow> never_fails (case x of None \<Rightarrow> f | Some a \<Rightarrow> g a)"
  "(\<And>a. never_fails (f' a)) \<Longrightarrow> (\<And>a. never_fails (g' a)) \<Longrightarrow> never_fails (case y of Inl a \<Rightarrow> f' a | Inr a \<Rightarrow> g' a)"
  "(\<And>a b. never_fails (h a b)) \<Longrightarrow> never_fails (case z of (a, b) \<Rightarrow> h a b)"
  by (simp_all split: option.split sum.split prod.split)

lemmas never_fails_all = never_fails_rules never_fails_sq never_fails_collect never_fails_split

lemma sync_never_fails: "never_fails (sync_cur points)"
proof -
  have point: "never_fails (read_point addr p)" for addr p unfolding read_point_def by (intro never_fails_all)
  then have "never_fails (read_points addr pts)" for addr pts unfolding read_points_def
    by (auto split: list.split intro!: never_fails_all)
  then have "never_fails (sync_device g)" for g unfolding sync_device_def Let_def by (intro never_fails_all)
  then show ?thesis unfolding sync_cur_def renew_due_subscriptions_def renew_one_def Let_def by (intro never_fails_all)
qed

section \<open>An answered request\<close>

definition waiting :: "u8 \<Rightarrow> nat \<Rightarrow> bacnet_driver \<Rightarrow> bool" where
  "waiting i ch d \<longleftrightarrow> requests_ok (bd_transactions d) \<and> map_of (tt_pending (bd_transactions d)) i = Some ch \<and> tx_results (bd_net d) = []"

text \<open>A datagram that does not answer the request with the id, and the end of a wait.\<close>

definition unrelated :: "u8 \<Rightarrow> net_event \<Rightarrow> bool" where
  "unrelated i e \<longleftrightarrow> (case e of
      Arrive t src bytes \<Rightarrow> (case decode_packet (in_buffer bytes) of Ok (_, a) \<Rightarrow> apdu_invoke_id a \<noteq> Some i | Err _ \<Rightarrow> True | Panic \<Rightarrow> False)
    | _ \<Rightarrow> False)"

definition is_expire :: "net_event \<Rightarrow> bool" where
  "is_expire e \<longleftrightarrow> (case e of Expire _ \<Rightarrow> True | _ \<Rightarrow> False)"

lemma waiting_silent: "waiting i ch d \<Longrightarrow> try_recv ch (bd_transactions d) = None"
proof -
  assume w: "waiting i ch d"
  then have "ch \<in> snd ` set (tt_pending (bd_transactions d))" by (auto simp: waiting_def dest!: map_of_SomeD intro: rev_image_eqI)
  then show ?thesis using w by (auto simp: waiting_def requests_ok_def try_recv_def map_of_eq_None_iff)
qed

lemma waiting_after: "waiting i ch (after t es d) \<longleftrightarrow> waiting i ch d"
  by (simp add: waiting_def after_def)

lemma take_apdu_transactions:
  "bd_transactions (take_apdu a d) = (case apdu_invoke_id a of Some j \<Rightarrow> dispatch_apdu j a (bd_transactions d) | None \<Rightarrow> bd_transactions d)"
  by (cases a) (simp_all add: take_apdu_def handle_cov_notification_def apdu_invoke_id_def Let_def)

lemma send_other: "j \<noteq> i \<Longrightarrow> map_of (tt_pending (send_to_waiter j m t)) i = map_of (tt_pending t) i"
  by (simp add: send_to_waiter_def map_of_delete split: option.split)

lemma waiting_take: "waiting i ch d \<Longrightarrow> apdu_invoke_id a \<noteq> Some i \<Longrightarrow> waiting i ch (take_apdu a d)"
  by (auto simp: waiting_def take_apdu_transactions dispatch_apdu_def send_to_waiter_ok send_other split: option.split)

lemma await_unrelated:
  "list_all (unrelated i) pre \<Longrightarrow> waiting i ch d \<Longrightarrow> \<exists>d'. await ch (pre @ es) d = await ch es d' \<and> waiting i ch d'"
proof (induction pre arbitrary: d)
  case (Cons e pre)
  from Cons.prems(1) obtain t src bytes where e: "e = Arrive t src bytes" by (auto simp: unrelated_def split: net_event.splits)
  let ?d = "after t (pre @ es) d"
  have w: "waiting i ch ?d" using Cons.prems(2) by (simp add: waiting_after)
  obtain d1 where "await ch ((e # pre) @ es) d = await ch (pre @ es) d1" "waiting i ch d1"
  proof (cases "decode_packet (in_buffer bytes)")
    case (Ok p)
    obtain n a where p: "p = (n, a)" by fastforce
    have "apdu_invoke_id a \<noteq> Some i" using Cons.prems(1) by (simp add: e unrelated_def Ok p)
    with w have w': "waiting i ch (take_apdu a ?d)" by (rule waiting_take)
    then have "await ch ((e # pre) @ es) d = await ch (pre @ es) (take_apdu a ?d)"
      by (simp add: e Ok p Let_def waiting_silent [OF w'])
    with w' show ?thesis using that by blast
  next
    case (Err x)
    then have "await ch ((e # pre) @ es) d = await ch (pre @ es) ?d" by (simp add: e Let_def waiting_silent [OF w])
    with w show ?thesis using that by blast
  qed (use Cons.prems(1) in \<open>simp add: e unrelated_def\<close>)
  then show ?case using Cons.IH [of d1] Cons.prems(1) by auto
qed auto

lemma await_answer:
  assumes "waiting i ch d" "decode_packet (in_buffer bytes) = Ok (n, a)" "apdu_invoke_id a = Some i"
  shows "\<exists>d'. await ch (Arrive t src bytes # es) d = (Ok (Answered (Inr a)), d')"
proof -
  have "try_recv ch (bd_transactions (take_apdu a (after t es d))) = Some (Inr a)"
    using assms(1,3) by (simp add: take_apdu_transactions dispatch_apdu_def send_to_waiter_def waiting_def try_recv_def after_def)
  then show ?thesis using assms(2) by (simp add: Let_def)
qed

lemma waiting_send: "waiting i ch d \<Longrightarrow> \<exists>d'. socket_send addr bytes d = (True, d') \<and> waiting i ch d' \<and> rx_events (bd_net d') = rx_events (bd_net d)"
  by (auto simp: socket_send_def waiting_def Let_def)

lemma exchange_answered:
  assumes answer: "decode_packet (in_buffer bytes) = Ok (n, a)" "apdu_invoke_id a = Some i"
  shows "waiting i ch d \<Longrightarrow> rx_events (bd_net d) = quiet @ Arrive t src bytes # es \<Longrightarrow> list_all (\<lambda>e. unrelated i e \<or> is_expire e) quiet \<Longrightarrow>
    length (filter is_expire quiet) \<le> k \<Longrightarrow> \<exists>d'. exchange (Suc k) ch addr request d = (Ok (Answer (Inr a)), d')"
proof (induction k arbitrary: d quiet)
  case 0
  then have "list_all (unrelated i) quiet" by (auto simp: list_all_iff filter_empty_conv)
  obtain d1 where s: "socket_send addr request d = (True, d1)" "waiting i ch d1" "rx_events (bd_net d1) = quiet @ Arrive t src bytes # es"
    using waiting_send [OF 0(1)] 0(2) by metis
  obtain d2 where "await ch (quiet @ Arrive t src bytes # es) d1 = await ch (Arrive t src bytes # es) d2" "waiting i ch d2"
    using await_unrelated [OF \<open>list_all (unrelated i) quiet\<close> s(2)] by blast
  then show ?case using s await_answer [OF _ answer, of ch d2 t src es] by auto
next
  case (Suc k)
  obtain d1 where s: "socket_send addr request d = (True, d1)" "waiting i ch d1" "rx_events (bd_net d1) = quiet @ Arrive t src bytes # es"
    using waiting_send [OF Suc(2)] Suc(3) by metis
  define pre post where "pre = takeWhile (\<lambda>e. \<not> is_expire e) quiet" and "post = dropWhile (\<lambda>e. \<not> is_expire e) quiet"
  have quiet: "quiet = pre @ post" by (simp add: pre_def post_def)
  have pre: "list_all (unrelated i) pre" using Suc(4) by (auto simp: pre_def list_all_iff dest: set_takeWhileD)
  show ?case
  proof (cases post)
    case Nil
    obtain d2 where "await ch (quiet @ Arrive t src bytes # es) d1 = await ch (Arrive t src bytes # es) d2" "waiting i ch d2"
      using await_unrelated [OF pre s(2), of "Arrive t src bytes # es"] quiet Nil by auto
    then show ?thesis using s await_answer [OF _ answer, of ch d2 t src es] by auto
  next
    case (Cons x post')
    then have "is_expire x" using hd_dropWhile [of "\<lambda>e. \<not> is_expire e" quiet] by (simp add: post_def)
    then obtain u where x: "x = Expire u" by (auto simp: is_expire_def split: net_event.splits)
    obtain d2 where run: "await ch (quiet @ Arrive t src bytes # es) d1 = await ch (Expire u # post' @ Arrive t src bytes # es) d2" and "waiting i ch d2"
      using await_unrelated [OF pre s(2), of "post @ Arrive t src bytes # es"] quiet Cons x by auto
    let ?d = "after u (post' @ Arrive t src bytes # es) d2"
    have "\<exists>d'. exchange (Suc k) ch addr request ?d = (Ok (Answer (Inr a)), d')"
    proof (rule Suc.IH)
      show "waiting i ch ?d" using \<open>waiting i ch d2\<close> by (simp add: waiting_after)
      show "rx_events (bd_net ?d) = post' @ Arrive t src bytes # es" by (simp add: after_def)
      show "list_all (\<lambda>e. unrelated i e \<or> is_expire e) post'" "length (filter is_expire post') \<le> k"
        using Suc(4,5) \<open>is_expire x\<close> by (simp_all add: quiet Cons)
    qed
    then show ?thesis using s run by (simp del: exchange.simps add: exchange.simps(2) [of "Suc k"])
  qed
qed

lemma exchange_log:
  assumes "exchange n ch addr request d = (r, d')"
  shows "\<exists>k \<le> n. tx_log (bd_net d') = tx_log (bd_net d) @ replicate k (addr, request)"
  using assms
proof (induction n arbitrary: d)
  case (Suc n)
  have log: "tx_log (bd_net (snd (await ch es d))) = tx_log (bd_net d)" for es d
  proof (induction es arbitrary: d)
    case (Cons e es)
    then show ?case by (cases e) (auto simp: after_def Let_def split: outcome.split option.split)
  qed (simp add: after_def)
  obtain b d1 where s: "socket_send addr request d = (b, d1)" by fastforce
  obtain w d2 where w: "await ch (rx_events (bd_net d1)) d1 = (w, d2)" by fastforce
  have d2: "tx_log (bd_net d2) = tx_log (bd_net d1)" using log [of "rx_events (bd_net d1)" d1] w by simp
  have d1: "tx_log (bd_net d1) = tx_log (bd_net d) @ replicate (if b then 1 else 0) (addr, request)"
    using s by (auto simp: socket_send_def Let_def)
  show ?case
  proof (cases "b \<and> w = Ok Silent")
    case True
    then have "exchange n ch addr request d2 = (r, d')" using Suc.prems s w by simp
    from Suc.IH [OF this] obtain k where "k \<le> n" "tx_log (bd_net d') = tx_log (bd_net d2) @ replicate k (addr, request)" by blast
    then show ?thesis using d1 d2 True by (intro exI [of _ "Suc k"]) simp
  next
    case False
    then have "d' = (if b then d2 else d1)" using Suc.prems s w by (auto split: outcome.splits wait_end.splits bool.splits)
    then show ?thesis using d1 d2 by (intro exI [of _ "if b then 1 else 0"]) auto
  qed
qed simp

lemma ack_frame:
  assumes "object_ok t inst"
  shows "decode_packet (in_buffer (encode_read_property_ack i t inst p (Real v))) = Ok (\<lparr>npdu_version = 1, npdu_control = 0\<rparr>, ReadPropertyAck i t inst p (Real v))"
proof -
  have "length (encode_context_unsigned 1 p) \<le> 5" by (simp add: encode_context_unsigned_def Let_def)
  then have len: "length (encode_read_property_ack i t inst p (Real v)) < 1500"
    by (simp add: encode_read_property_ack_def length_build_packet encode_ack_value_def encode_object_id_def)
  then have "in_buffer (encode_read_property_ack i t inst p (Real v)) = encode_read_property_ack i t inst p (Real v)" by (simp add: in_buffer_def)
  moreover have "decode_packet (encode_read_property_ack i t inst p (Real v)) = Ok (\<lparr>npdu_version = 1, npdu_control = 0\<rparr>, ReadPropertyAck i t inst p (Real v))"
    unfolding encode_read_property_ack_def
    by (rule packet_read, use len in \<open>simp add: encode_read_property_ack_def\<close>, rule single_ack_read) (use assms in simp_all)
  ultimately show ?thesis by simp
qed

section \<open>Properties\<close>

text \<open>C13. Whatever the network delivers or refuses, and whatever the sequence of operations of the driver is, its tables stay sound: requests in flight have
  different ids, each has its own channel, and no channel gets more than one message; subscriptions are kept under their process ids, which are never
  zero when they are given out, devices under their instance numbers. A new request gets an id that no request in flight has, and it gets none only when all
  256 are in flight.\<close>

theorem bacnet_driver_invariant:
  assumes "driver_reachable parse_addr d"
  shows "driver_ok d \<and> (case allocate (bd_transactions d) of
      (None, _) \<Rightarrow> pending_count (bd_transactions d) = 256
    | (Some (i, ch), t) \<Rightarrow> i \<notin> fst ` set (tt_pending (bd_transactions d)) \<and> try_recv ch t = None \<and> pending_count (bd_transactions d) < 256)"
proof (rule conjI)
  show ok: "driver_ok d" using assms by (rule reachable_ok)
  then have table: "requests_ok (bd_transactions d)" by (simp add: driver_ok_def)
  have "distinct (map fst (tt_pending (bd_transactions d)))" using table by (simp add: requests_ok_def)
  then have "pending_count (bd_transactions d) = card (fst ` set (tt_pending (bd_transactions d)))"
    using distinct_card by (fastforce simp: pending_count_def)
  also have "\<dots> \<le> card (UNIV :: u8 set)" by (intro card_mono) auto
  finally have le: "pending_count (bd_transactions d) \<le> 256" by (simp add: card_word)
  obtain r t where run: "allocate (bd_transactions d) = (r, t)" by fastforce
  show "case allocate (bd_transactions d) of
      (None, _) \<Rightarrow> pending_count (bd_transactions d) = 256
    | (Some (i, ch), t) \<Rightarrow> i \<notin> fst ` set (tt_pending (bd_transactions d)) \<and> try_recv ch t = None \<and> pending_count (bd_transactions d) < 256"
  proof (cases r)
    case None
    then show ?thesis using allocate_None_iff [OF table] run by simp
  next
    case (Some p)
    obtain i ch where p: "p = (i, ch)" by fastforce
    then show ?thesis using allocate_spec [OF table, of i ch t] allocate_None_iff [OF table] le run Some by simp
  qed
qed

theorem bacnet_driver_invariant_witness:
  "driver_ok (from_config (\<lambda>_. None) \<lparr>bc_id = ascii ''bac'', bc_port = None, bc_broadcast = None, bc_objects = [], bc_bbmd = None\<rparr>
     \<lparr>rx_events = [], tx_results = [], tx_log = [], net_clock = 0\<rparr>)"
  using bacnet_driver_invariant [OF start_driver] by (rule conjunct1)

text \<open>C14. A poll answers for every point it was asked for, exactly once, with a value or with an error. It does so for every behaviour of the
  network, devices that do not answer, that refuse the combined request or whose frames cannot be decoded included, as long as no datagram makes the
  decoder panic.\<close>

theorem bacnet_sync_complete:
  assumes "clean d"
  shows "\<exists>rs d'. sync_cur points d = (Ok rs :: (unit, point_result list) outcome, d') \<and> mset (map fst rs) = mset points \<and> clean d'"
proof -
  obtain r d' where run: "sync_cur points d = (r :: (unit, point_result list) outcome, d')" by fastforce
  have "clean d' \<and> r \<noteq> Panic" using driver_calm.holdsD [OF driver_calm.holds_sync assms run] by simp
  moreover have "r \<noteq> Err e" for e using sync_never_fails [of points, where ?'a = unit] run unfolding never_fails_def by (metis fst_conv)
  ultimately obtain rs where "r = Ok rs" by (cases r) auto
  then show ?thesis using run sync_cur_fst [of points d rs d'] \<open>clean d' \<and> r \<noteq> Panic\<close> by auto
qed

theorem bacnet_sync_complete_witness:
  "\<exists>rs d'. sync_cur [7, 8, 7] (driver_new (ascii ''bac'') (ascii ''255.255.255.255'') 47808 \<lparr>rx_events = [Arrive 5 1 [1, 2, 3], RecvFail 1], tx_results = [False], tx_log = [], net_clock = 0\<rparr>)
     = (Ok rs :: (unit, point_result list) outcome, d') \<and> mset (map fst rs) = {#7, 7, 8#}"
proof -
  have "decode_packet (in_buffer [1, 2, 3]) \<noteq> Panic" by code_simp
  then have "clean (driver_new (ascii ''bac'') (ascii ''255.255.255.255'') 47808 \<lparr>rx_events = [Arrive 5 1 [1, 2, 3], RecvFail 1], tx_results = [False], tx_log = [], net_clock = 0\<rparr>)"
    by (simp add: clean_def driver_new_def)
  from bacnet_sync_complete [OF this, of "[7, 8, 7]"] show ?thesis by (auto simp: add_mset_commute)
qed



text \<open>C40. A socket that cannot send costs the driver its ids: every request that fails in this way stays in flight, so that after at most 256 of them no request can be
  made any more, although the network works again.\<close>

theorem bacnet_send_failures_exhaust:
  assumes "driver_ok d" "bd_connected d" "pending_count (bd_transactions d) + n = 256" "tx_results (bd_net d) = replicate n False"
  shows "\<exists>d'. collect (\<lambda>_. caught (read_present_value addr obj)) (replicate n ()) d =
      (Ok (replicate n (Inl (CommFault ''bacnet send''))) :: (unit, _) outcome, d') \<and>
    tx_results (bd_net d') = [] \<and> fst (read_present_value addr obj d') = Err (CommFault ''bacnet: no invoke IDs available'')"
  using assms
proof (induction n arbitrary: d)
  case 0
  then have "fst (allocate (bd_transactions d)) = None" using allocate_None_iff by (simp add: driver_ok_def)
  then obtain t where "allocate (bd_transactions d) = (None, t)" by (metis prod.collapse)
  then have "fst (read_present_value addr obj d) = Err (CommFault ''bacnet: no invoke IDs available'')"
    using 0(2) by (simp add: read_present_value_def when_connected_def bnd_def bacnet_transact_inner_def transact_def driver_errors_def)
  then show ?case using 0 by (simp add: ret_def)
next
  case (Suc n)
  have table: "requests_ok (bd_transactions d)" using Suc(2) by (simp add: driver_ok_def)
  then have "fst (allocate (bd_transactions d)) \<noteq> None" using allocate_None_iff Suc(4) by simp
  then obtain i ch t where a: "allocate (bd_transactions d) = (Some (i, ch), t)" by (metis option.exhaust prod.collapse)
  let ?d = "d\<lparr>bd_transactions := t, bd_net := (bd_net d)\<lparr>tx_results := replicate n False\<rparr>\<rparr>"
  have "socket_send addr bytes (d\<lparr>bd_transactions := t\<rparr>) = (False, ?d)" for bytes
    using Suc(5) by (simp add: socket_send_def Let_def)
  then have "exchange 4 ch addr (encode_read_property i (bo_type obj) (bo_instance obj) 85 None) (d\<lparr>bd_transactions := t\<rparr>) = (Ok SendFailed, ?d)"
    by (simp add: eval_nat_numeral)
  then have fails: "read_present_value addr obj d = (Err (CommFault ''bacnet send''), ?d)"
    using a Suc(3) by (simp add: read_present_value_def when_connected_def bnd_def bacnet_transact_inner_def transact_def driver_errors_def)
  have "driver_ok ?d" using allocate_spec(2) [OF table a] Suc(2) by (simp add: driver_ok_def)
  moreover have "pending_count (bd_transactions ?d) + n = 256" using allocate_spec(5) [OF table a] Suc(4) by (simp add: pending_count_def)
  ultimately obtain d' where "collect (\<lambda>_. caught (read_present_value addr obj)) (replicate n ()) ?d =
      (Ok (replicate n (Inl (CommFault ''bacnet send''))) :: (unit, _) outcome, d')" and
    "tx_results (bd_net d') = []" "fst (read_present_value addr obj d') = Err (CommFault ''bacnet: no invoke IDs available'')"
    using Suc.IH [of ?d] Suc(3) by auto
  moreover have "caught (read_present_value addr obj) d = (Ok (Inl (CommFault ''bacnet send'')) :: (unit, _) outcome, ?d)"
    using fails by (simp add: caught_def)
  ultimately show ?case by (simp add: bnd_def ret_def)
qed

theorem bacnet_send_failures_exhaust_witness:
  "\<exists>d'. collect (\<lambda>_. caught (read_present_value 9 \<lparr>bo_device = 1, bo_type = 0, bo_instance = 1, bo_scale = f64_of_int 1, bo_offset = 0, bo_unit = None\<rparr>)) (replicate 256 ())
      ((driver_new (ascii ''bac'') (ascii ''255.255.255.255'') 47808 \<lparr>rx_events = [], tx_results = replicate 256 False, tx_log = [], net_clock = 0\<rparr>)\<lparr>bd_connected := True\<rparr>) =
      (Ok (replicate 256 (Inl (CommFault ''bacnet send''))) :: (unit, _) outcome, d') \<and>
    tx_results (bd_net d') = [] \<and> fst (read_present_value 9 \<lparr>bo_device = 1, bo_type = 0, bo_instance = 1, bo_scale = f64_of_int 1, bo_offset = 0, bo_unit = None\<rparr> d') = Err (CommFault ''bacnet: no invoke IDs available'')"
  by (rule bacnet_send_failures_exhaust) (simp_all add: driver_new_def driver_ok_def pending_count_def transactions_new_def requests_ok_def)

end
