(* ===== verification/Vm_Base.thy ===== *)
theory Vm_Base
  imports Prelude
begin

text \<open>
  The error values of the virtual machine (\<open>vm_error.rs\<close>) and its configurable limits
  (\<open>vm_config.rs\<close>). Message texts are the texts the sources build.
\<close>

section \<open>Errors of the virtual machine\<close>

datatype vm_error =
    BadImage string
  | StackOverflow
  | StackUnderflow
  | InvalidOpcode u8
  | PcOutOfBounds usize usize
  | NativeError u8 u16 string
  | MethodNotFound u16
  | NullPointer
  | TypeMismatch u8 u8
  | ArrayOutOfBounds i32 i32
  | AssertFailure string
  | Stopped
  | Timeout

type_synonym 'a vm_result = "(vm_error, 'a) outcome"

text \<open>\<open>Display\<close>: signed numbers with their sign, opcode bytes in two hexadecimal digits.\<close>

definition show_i32 :: "i32 \<Rightarrow> string" where
  "show_i32 v = (if sint v < 0 then ''-'' @ show_nat (nat (- sint v)) else show_nat (nat (sint v)))"

fun vm_error_display :: "vm_error \<Rightarrow> string" where
  "vm_error_display (BadImage msg) = ''bad scode image: '' @ msg"
| "vm_error_display StackOverflow = ''stack overflow''"
| "vm_error_display StackUnderflow = ''stack underflow''"
| "vm_error_display (InvalidOpcode b) = ''invalid opcode 0x'' @ show_hex_digits 2 (unat b)"
| "vm_error_display (PcOutOfBounds p n) =
     ''PC '' @ show_nat p @ '' out of bounds (code length '' @ show_nat n @ '')''"
| "vm_error_display (NativeError kit meth msg) =
     ''native error kit='' @ show_nat (unat kit) @ '' method='' @ show_nat (unat meth) @ '': '' @ msg"
| "vm_error_display (MethodNotFound block) = ''method not found: block '' @ show_nat (unat block)"
| "vm_error_display NullPointer = ''null pointer dereference''"
| "vm_error_display (TypeMismatch expected got) =
     ''type mismatch: expected '' @ show_nat (unat expected) @ '', got '' @ show_nat (unat got)"
| "vm_error_display (ArrayOutOfBounds index len) =
     ''array index '' @ show_i32 index @ '' out of bounds (length '' @ show_i32 len @ '')''"
| "vm_error_display (AssertFailure meth) = ''assertion failed in '' @ meth"
| "vm_error_display Stopped = ''VM stopped''"
| "vm_error_display Timeout = ''VM execution timeout''"

section \<open>Limits\<close>

datatype address_width = Block16 | Byte32

record vm_config =
  max_stack_size :: usize
  max_components :: u32
  max_code_size :: usize
  max_data_size :: usize
  max_call_depth :: usize
  max_steps_per_tick :: u64
  address_width :: address_width

definition default_config :: vm_config where
  "default_config =
     \<lparr>max_stack_size = 64 * 1024, max_components = 4096, max_code_size = 4 * 1024 * 1024,
      max_data_size = 1024 * 1024, max_call_depth = 64, max_steps_per_tick = 1000000,
      address_width = Byte32\<rparr>"

definition sedona_compat :: vm_config where
  "sedona_compat =
     \<lparr>max_stack_size = 16 * 1024, max_components = 256, max_code_size = 256 * 1024,
      max_data_size = 64 * 1024, max_call_depth = 16, max_steps_per_tick = 100000,
      address_width = Block16\<rparr>"

definition beaglebone :: vm_config where
  "beaglebone = default_config"

definition config_validate :: "vm_config \<Rightarrow> (string, unit) outcome" where
  "config_validate c =
     (if max_stack_size c = 0 then Err ''max_stack_size must be > 0''
      else if max_components c = 0 then Err ''max_components must be > 0''
      else if max_code_size c = 0 then Err ''max_code_size must be > 0''
      else if max_data_size c = 0 then Err ''max_data_size must be > 0''
      else if max_call_depth c = 0 then Err ''max_call_depth must be > 0''
      else if max_steps_per_tick c = 0 then Err ''max_steps_per_tick must be > 0''
      else if address_width c = Block16 \<and> max_code_size c > 256 * 1024 then
        Err (''Block16 addressing limits scode to 256KB, but max_code_size = ''
             @ show_nat (max_code_size c))
      else Ok ())"

lemma presets_valid:
  "config_validate default_config = Ok ()" "config_validate sedona_compat = Ok ()"
  "config_validate beaglebone = Ok ()"
  by (simp_all add: config_validate_def default_config_def sedona_compat_def beaglebone_def)

section \<open>Properties\<close>

text \<open>
  Limits: a configuration that passes validation has positive limits, and with 16-bit block
  addresses every byte of the largest image it admits lies in a block that a 16-bit index of 4-byte blocks names.
\<close>

theorem config_validate_limits:
  "config_validate c = Ok () \<longrightarrow>
     0 < max_stack_size c \<and> 0 < max_call_depth c \<and>
     (address_width c = Block16 \<longrightarrow> max_code_size c \<le> 2 ^ 16 * 4)"
  by (auto simp: config_validate_def split: if_splits)

lemma config_validate_limits_witness: "max_code_size sedona_compat \<le> 2 ^ 16 * 4 \<and> 0 < max_stack_size beaglebone"
  using config_validate_limits [of sedona_compat] config_validate_limits [of beaglebone] presets_valid
  by (simp add: sedona_compat_def)

end
