(* ===== verification/Vm_Stack.thy ===== *)
theory Vm_Stack
  imports Vm_Base
begin

text \<open>
  The execution stack of \<open>vm_stack.rs\<close>: a fixed array of 32-bit cells with a stack pointer,
  and a separate stack of call frames. Every method of \<open>VmStack\<close> is here. The cells below the
  stack pointer are the contents; the locale \<open>typed_cells\<close> states what pushing and popping a
  value of some type promises of them, and is interpreted for every such pair of methods.
\<close>

section \<open>State\<close>

record call_frame =
  return_pc :: usize
  frame_pointer :: usize
  method_block :: u16
  num_params :: u8
  num_locals :: u8

record vm_stack =
  cells :: "i32 list"
  sp :: usize
  frames :: "call_frame list"

type_synonym 'a stack_method = "(vm_stack, vm_error, 'a) routine"

definition MAX_FRAME_DEPTH :: nat where
  "MAX_FRAME_DEPTH = 512"

definition stack_new :: "usize \<Rightarrow> vm_stack" where
  "stack_new n = \<lparr>cells = replicate n 0, sp = 0, frames = []\<rparr>"

section \<open>32-bit cells\<close>

definition push_i32 :: "i32 \<Rightarrow> unit stack_method" where
  "push_i32 val = (\<lambda>s.
     if sp s \<ge> length (cells s) then (Err StackOverflow, s)
     else (Ok (), s\<lparr>cells := (cells s)[sp s := val], sp := sp s + 1\<rparr>))"

text \<open>Indexing a vector panics out of range.\<close>

definition index_cell :: "usize \<Rightarrow> i32 stack_method" where
  "index_cell i = (\<lambda>s. if i < length (cells s) then (Ok (cells s ! i), s) else (Panic, s))"

definition pop_i32 :: "i32 stack_method" where
  "pop_i32 = (\<lambda>s.
     if sp s = 0 then (Err StackUnderflow, s)
     else index_cell (sp s - 1) (s\<lparr>sp := sp s - 1\<rparr>))"

definition peek_i32 :: "i32 stack_method" where
  "peek_i32 = (\<lambda>s. if sp s = 0 then (Err StackUnderflow, s) else index_cell (sp s - 1) s)"

text \<open>A float is pushed as its bit pattern, and the model keeps floats as bit patterns.\<close>

definition push_f32 :: "u32 \<Rightarrow> unit stack_method" where
  "push_f32 bits = push_i32 bits"

definition pop_f32 :: "u32 stack_method" where
  "pop_f32 = pop_i32"

section \<open>Wide values: two cells, the lower word first\<close>

definition lo_cell :: "i64 \<Rightarrow> i32" where
  "lo_cell val = ucast val"

definition hi_cell :: "i64 \<Rightarrow> i32" where
  "hi_cell val = ucast (signed_drop_bit 32 val)"

definition join_cells :: "i32 \<Rightarrow> i32 \<Rightarrow> i64" where
  "join_cells lo hi = (push_bit 32 (ucast hi) OR ucast lo)"

definition push_i64 :: "i64 \<Rightarrow> unit stack_method" where
  "push_i64 val = (\<lambda>s.
     if sp s + 1 \<ge> length (cells s) then (Err StackOverflow, s)
     else (Ok (), s\<lparr>cells := (cells s)[sp s := lo_cell val, sp s + 1 := hi_cell val],
                    sp := sp s + 2\<rparr>))"

definition pop_i64 :: "i64 stack_method" where
  "pop_i64 = (\<lambda>s.
     if sp s < 2 then (Err StackUnderflow, s)
     else bnd (index_cell (sp s - 2)) (\<lambda>lo. bnd (index_cell (sp s - 1))
            (\<lambda>hi. ret (join_cells lo hi))) (s\<lparr>sp := sp s - 2\<rparr>))"

definition push_f64 :: "u64 \<Rightarrow> unit stack_method" where
  "push_f64 bits = push_i64 bits"

definition pop_f64 :: "u64 stack_method" where
  "pop_f64 = pop_i64"

section \<open>References\<close>

text \<open>\<open>ptr as i32\<close> keeps the low 32 bits; \<open>v as u32 as usize\<close> reads them back unsigned.\<close>

definition push_ref :: "usize \<Rightarrow> unit stack_method" where
  "push_ref ptr = push_i32 (of_nat ptr)"

definition pop_ref :: "usize stack_method" where
  "pop_ref = bnd pop_i32 (\<lambda>v. ret (unat v))"

section \<open>Stack manipulation\<close>

definition dup :: "unit stack_method" where
  "dup = (\<lambda>s.
     if sp s = 0 then (Err StackUnderflow, s)
     else if sp s \<ge> length (cells s) then (Err StackOverflow, s)
     else (Ok (), s\<lparr>cells := (cells s)[sp s := cells s ! (sp s - 1)], sp := sp s + 1\<rparr>))"

definition dup2 :: "unit stack_method" where
  "dup2 = (\<lambda>s.
     if sp s < 2 then (Err StackUnderflow, s)
     else if sp s + 1 \<ge> length (cells s) then (Err StackOverflow, s)
     else (Ok (), s\<lparr>cells := (cells s)[sp s := cells s ! (sp s - 2),
                                       sp s + 1 := cells s ! (sp s - 1)],
                    sp := sp s + 2\<rparr>))"

definition dupdown2 :: "unit stack_method" where
  "dupdown2 = (\<lambda>s.
     if sp s < 2 then (Err StackUnderflow, s)
     else if sp s \<ge> length (cells s) then (Err StackOverflow, s)
     else let top = cells s ! (sp s - 1) in
       (Ok (), s\<lparr>cells := (cells s)[sp s := top, sp s - 1 := cells s ! (sp s - 2),
                                    sp s - 2 := top],
                 sp := sp s + 1\<rparr>))"

definition dupdown3 :: "unit stack_method" where
  "dupdown3 = (\<lambda>s.
     if sp s < 3 then (Err StackUnderflow, s)
     else if sp s \<ge> length (cells s) then (Err StackOverflow, s)
     else let top = cells s ! (sp s - 1) in
       (Ok (), s\<lparr>cells := (cells s)[sp s := top, sp s - 1 := cells s ! (sp s - 2),
                                    sp s - 2 := cells s ! (sp s - 3), sp s - 3 := top],
                 sp := sp s + 1\<rparr>))"

definition pop :: "unit stack_method" where
  "pop = (\<lambda>s. if sp s = 0 then (Err StackUnderflow, s) else (Ok (), s\<lparr>sp := sp s - 1\<rparr>))"

definition pop2 :: "unit stack_method" where
  "pop2 = (\<lambda>s. if sp s < 2 then (Err StackUnderflow, s) else (Ok (), s\<lparr>sp := sp s - 2\<rparr>))"

definition pop3 :: "unit stack_method" where
  "pop3 = (\<lambda>s. if sp s < 3 then (Err StackUnderflow, s) else (Ok (), s\<lparr>sp := sp s - 3\<rparr>))"

definition swap_top :: "unit stack_method" where
  "swap_top = (\<lambda>s.
     if sp s < 2 then (Err StackUnderflow, s)
     else if sp s > length (cells s) then (Panic, s)
     else (Ok (), s\<lparr>cells := (cells s)[sp s - 1 := cells s ! (sp s - 2),
                                       sp s - 2 := cells s ! (sp s - 1)]\<rparr>))"

section \<open>Direct access by absolute index\<close>

definition stack_get :: "usize \<Rightarrow> i32 stack_method" where
  "stack_get index = (\<lambda>s.
     if index \<ge> length (cells s) then (Err StackOverflow, s) else (Ok (cells s ! index), s))"

definition stack_set :: "usize \<Rightarrow> i32 \<Rightarrow> unit stack_method" where
  "stack_set index val = (\<lambda>s.
     if index \<ge> length (cells s) then (Err StackOverflow, s)
     else (Ok (), s\<lparr>cells := (cells s)[index := val]\<rparr>))"

definition stack_get_wide :: "usize \<Rightarrow> i64 stack_method" where
  "stack_get_wide index = (\<lambda>s.
     if index + 1 \<ge> length (cells s) then (Err StackOverflow, s)
     else (Ok (join_cells (cells s ! index) (cells s ! (index + 1))), s))"

definition stack_set_wide :: "usize \<Rightarrow> i64 \<Rightarrow> unit stack_method" where
  "stack_set_wide index val = (\<lambda>s.
     if index + 1 \<ge> length (cells s) then (Err StackOverflow, s)
     else (Ok (), s\<lparr>cells := (cells s)[index := lo_cell val, index + 1 := hi_cell val]\<rparr>))"

section \<open>Call frames\<close>

definition push_frame :: "call_frame \<Rightarrow> unit stack_method" where
  "push_frame f = (\<lambda>s.
     if length (frames s) \<ge> MAX_FRAME_DEPTH then (Err StackOverflow, s)
     else (Ok (), s\<lparr>frames := frames s @ [f]\<rparr>))"

definition pop_frame :: "call_frame stack_method" where
  "pop_frame = (\<lambda>s.
     if frames s = [] then (Err StackUnderflow, s)
     else (Ok (last (frames s)), s\<lparr>frames := butlast (frames s)\<rparr>))"

definition current_frame :: "vm_stack \<Rightarrow> call_frame vm_result" where
  "current_frame s = (if frames s = [] then Err StackUnderflow else Ok (last (frames s)))"

definition frame_base :: "vm_stack \<Rightarrow> usize" where
  "frame_base s = (if frames s = [] then 0 else frame_pointer (last (frames s)))"

definition set_sp :: "usize \<Rightarrow> unit stack_method" where
  "set_sp p = modify (\<lambda>s. s\<lparr>sp := p\<rparr>)"

definition depth :: "vm_stack \<Rightarrow> usize" where
  "depth s = sp s"

definition frame_depth :: "vm_stack \<Rightarrow> usize" where
  "frame_depth s = length (frames s)"

definition stack_is_empty :: "vm_stack \<Rightarrow> bool" where
  "stack_is_empty s \<longleftrightarrow> sp s = 0"

section \<open>The contents of the stack\<close>

text \<open>The cells below the stack pointer, oldest first, and the invariant of the stack.\<close>

definition contents :: "vm_stack \<Rightarrow> i32 list" where
  "contents s = take (sp s) (cells s)"

definition stack_ok :: "vm_stack \<Rightarrow> bool" where
  "stack_ok s \<longleftrightarrow> sp s \<le> length (cells s)"

text \<open>What no data operation of the stack changes: its size and its frames.\<close>

definition same_frame :: "vm_stack \<Rightarrow> vm_stack \<Rightarrow> bool" where
  "same_frame s t \<longleftrightarrow> length (cells t) = length (cells s) \<and> frames t = frames s"

lemma stack_ok_new: "stack_ok (stack_new n)"
  by (simp add: stack_ok_def stack_new_def)

lemma length_contents: "stack_ok s \<Longrightarrow> length (contents s) = sp s"
  by (simp add: stack_ok_def contents_def)

lemma take_Suc_update: "n < length xs \<Longrightarrow> take (Suc n) (xs[n := v]) = take n xs @ [v]"
  by (simp add: take_Suc_conv_app_nth)

lemma take_two_updates:
  "Suc n < length xs \<Longrightarrow> take (Suc (Suc n)) (xs[n := v, Suc n := w]) = take n xs @ [v, w]"
  by (simp add: take_Suc_conv_app_nth)

lemma contents_snoc:
  assumes "stack_ok s" "contents s = xs @ [v]"
  shows "sp s = Suc (length xs) \<and> length xs < length (cells s) \<and>
         cells s ! length xs = v \<and> take (length xs) (cells s) = xs"
proof -
  have len: "sp s = Suc (length xs)" using length_contents [OF assms(1)] assms(2) by simp
  with assms(1) have lt: "length xs < length (cells s)" by (simp add: stack_ok_def)
  with assms(2) len have "take (length xs) (cells s) @ [cells s ! length xs] = xs @ [v]"
    by (simp add: contents_def take_Suc_conv_app_nth)
  with len lt show ?thesis by simp
qed

lemma contents_snoc2:
  assumes "stack_ok s" "contents s = xs @ [v, w]"
  shows "sp s = Suc (Suc (length xs)) \<and> Suc (length xs) < length (cells s) \<and>
         cells s ! length xs = v \<and> cells s ! Suc (length xs) = w \<and>
         take (length xs) (cells s) = xs"
proof -
  have snoc: "contents s = (xs @ [v]) @ [w]" using assms(2) by simp
  note w = contents_snoc [OF assms(1) snoc]
  from w have "take (Suc (length xs)) (cells s) = xs @ [v]" by simp
  with w have "take (length xs) (cells s) @ [cells s ! length xs] = xs @ [v]"
    by (simp add: take_Suc_conv_app_nth)
  with w show ?thesis by simp
qed

section \<open>Typed values on the stack\<close>

lemma join_split [simp]: "join_cells (lo_cell v) (hi_cell v) = v"
  by (rule bit_word_eqI)
     (auto simp: join_cells_def lo_cell_def hi_cell_def bit_simps not_less le_less_Suc_eq)

lemma lo_join [simp]: "lo_cell (join_cells lo hi) = lo"
  by (rule bit_word_eqI) (auto simp: join_cells_def lo_cell_def bit_simps)

lemma hi_join [simp]: "hi_cell (join_cells lo hi) = hi"
  by (rule bit_word_eqI)
     (auto simp: join_cells_def hi_cell_def bit_simps dest: bit_imp_le_length)

text \<open>
  The contract of a pair of push and pop methods for values of one type: \<open>cells_of v\<close> are the
  \<open>width\<close> cells a value occupies; \<open>fits\<close> are the values a cell run can carry.
\<close>

locale typed_cells =
  fixes push :: "'v \<Rightarrow> unit stack_method"
    and pop_val :: "'v stack_method"
    and cells_of :: "'v \<Rightarrow> i32 list"
    and width :: nat
    and fits :: "'v \<Rightarrow> bool"
  assumes length_cells_of: "length (cells_of v) = width"
    and push_room: "stack_ok s \<Longrightarrow> sp s + width \<le> length (cells s) \<Longrightarrow>
      \<exists>t. push v s = (Ok (), t) \<and> stack_ok t \<and> same_frame s t \<and>
          contents t = contents s @ cells_of v"
    and push_full: "stack_ok s \<Longrightarrow> length (cells s) < sp s + width \<Longrightarrow>
      push v s = (Err StackOverflow, s)"
    and pop_some: "stack_ok s \<Longrightarrow> fits v \<Longrightarrow> contents s = xs @ cells_of v \<Longrightarrow>
      \<exists>t. pop_val s = (Ok v, t) \<and> stack_ok t \<and> same_frame s t \<and> contents t = xs"
    and pop_none: "sp s < width \<Longrightarrow> pop_val s = (Err StackUnderflow, s)"
begin

lemma push_then_pop:
  assumes "stack_ok s" "fits v" "sp s + width \<le> length (cells s)"
  shows "\<exists>t. sq (push v) pop_val s = (Ok v, t) \<and> stack_ok t \<and> same_frame s t \<and>
             contents t = contents s"
proof -
  from push_room [OF assms(1,3)] obtain t where
    t: "push v s = (Ok (), t)" "stack_ok t" "same_frame s t" "contents t = contents s @ cells_of v"
    by blast
  from pop_some [OF t(2) assms(2) t(4)] obtain u where
    "pop_val t = (Ok v, u)" "stack_ok u" "same_frame t u" "contents u = contents s" by blast
  with t(1,3) show ?thesis by (auto simp: sq_def same_frame_def)
qed

text \<open>Pushing a list of values and popping as many gives them back in reverse order.\<close>

lemma push_all:
  assumes "stack_ok s" "sp s + width * length vs \<le> length (cells s)"
  shows "\<exists>t. forM vs push s = (Ok (), t) \<and> stack_ok t \<and> same_frame s t \<and>
             contents t = contents s @ concat (map cells_of vs)"
  using assms
proof (induction vs arbitrary: s)
  case Nil
  then show ?case by (auto simp: ret_def same_frame_def)
next
  case (Cons v vs)
  from Cons.prems have "sp s + width \<le> length (cells s)" by simp
  from push_room [OF Cons.prems(1) this] obtain t where
    t: "push v s = (Ok (), t)" "stack_ok t" "same_frame s t" "contents t = contents s @ cells_of v"
    by blast
  have "sp t = sp s + width"
    using length_contents [OF t(2)] length_contents [OF Cons.prems(1)] t(4)
    by (simp add: length_cells_of)
  with Cons.prems(2) t(3) have "sp t + width * length vs \<le> length (cells t)"
    by (simp add: same_frame_def)
  from Cons.IH [OF t(2) this] t show ?case by (auto simp: sq_def same_frame_def)
qed

end

lemma push_i32_room:
  assumes "stack_ok s" "sp s < length (cells s)"
  shows "\<exists>t. push_i32 v s = (Ok (), t) \<and> stack_ok t \<and> same_frame s t \<and>
             contents t = contents s @ [v]"
  using assms by (simp add: push_i32_def stack_ok_def same_frame_def contents_def take_Suc_update)

lemma pop_i32_snoc:
  assumes "stack_ok s" "contents s = xs @ [v]"
  shows "\<exists>t. pop_i32 s = (Ok v, t) \<and> stack_ok t \<and> same_frame s t \<and> contents t = xs"
  using contents_snoc [OF assms]
  by (simp add: pop_i32_def index_cell_def stack_ok_def same_frame_def contents_def)

lemma push_i64_room:
  assumes "stack_ok s" "sp s + 2 \<le> length (cells s)"
  shows "\<exists>t. push_i64 v s = (Ok (), t) \<and> stack_ok t \<and> same_frame s t \<and>
             contents t = contents s @ [lo_cell v, hi_cell v]"
  using assms
  by (simp add: push_i64_def stack_ok_def same_frame_def contents_def take_two_updates)

lemma pop_i64_snoc:
  assumes "stack_ok s" "contents s = xs @ [lo_cell v, hi_cell v]"
  shows "\<exists>t. pop_i64 s = (Ok v, t) \<and> stack_ok t \<and> same_frame s t \<and> contents t = xs"
  using contents_snoc2 [OF assms]
  by (simp add: pop_i64_def index_cell_def bnd_def ret_def stack_ok_def same_frame_def
      contents_def)

interpretation i32_cells: typed_cells push_i32 pop_i32 "\<lambda>v. [v]" 1 "\<lambda>_. True"
  by unfold_locales
     (use push_i32_room pop_i32_snoc in \<open>auto simp: push_i32_def pop_i32_def stack_ok_def\<close>)

interpretation f32_cells: typed_cells push_f32 pop_f32 "\<lambda>v. [v]" 1 "\<lambda>_. True"
  unfolding push_f32_def pop_f32_def by (rule i32_cells.typed_cells_axioms)

interpretation i64_cells: typed_cells push_i64 pop_i64 "\<lambda>v. [lo_cell v, hi_cell v]" 2 "\<lambda>_. True"
  by unfold_locales
     (use push_i64_room pop_i64_snoc in \<open>auto simp: push_i64_def pop_i64_def stack_ok_def\<close>)

interpretation f64_cells: typed_cells push_f64 pop_f64 "\<lambda>v. [lo_cell v, hi_cell v]" 2 "\<lambda>_. True"
  unfolding push_f64_def pop_f64_def by (rule i64_cells.typed_cells_axioms)

lemma pop_ref_snoc:
  assumes "stack_ok s" "p < usize_bound" "contents s = xs @ [of_nat p]"
  shows "\<exists>t. pop_ref s = (Ok p, t) \<and> stack_ok t \<and> same_frame s t \<and> contents t = xs"
proof -
  have "unat (of_nat p :: i32) = p"
    using assms(2) by (simp add: unat_of_nat take_bit_nat_eq_self)
  with pop_i32_snoc [OF assms(1,3)] show ?thesis by (auto simp: pop_ref_def ret_def)
qed

interpretation ref_cells: typed_cells push_ref pop_ref "\<lambda>p. [of_nat p]" 1 "\<lambda>p. p < usize_bound"
proof unfold_locales
  show "\<exists>t. push_ref v s = (Ok (), t) \<and> stack_ok t \<and> same_frame s t \<and>
          contents t = contents s @ [word_of_nat v]"
    if "stack_ok s" "sp s + 1 \<le> length (cells s)" for s v
    using push_i32_room that by (simp add: push_ref_def)
next
  show "\<exists>t. pop_ref s = (Ok v, t) \<and> stack_ok t \<and> same_frame s t \<and> contents t = xs"
    if "stack_ok s" "v < usize_bound" "contents s = xs @ [word_of_nat v]" for s v xs
    using pop_ref_snoc that by blast
qed (auto simp: push_ref_def pop_ref_def push_i32_def pop_i32_def stack_ok_def bnd_def)

section \<open>Manipulation as rewriting of the contents\<close>

text \<open>A stack in its invariant is its contents followed by unused cells.\<close>

lemma stack_repr:
  assumes "stack_ok s" "contents s = xs"
  obtains rest where "cells s = xs @ rest" "sp s = length xs"
  using assms length_contents [of s]
  by (metis append_take_drop_id contents_def)

lemma dup_contents:
  assumes "stack_ok s" "contents s = xs @ [a]" "sp s < length (cells s)"
  shows "\<exists>t. dup s = (Ok (), t) \<and> stack_ok t \<and> same_frame s t \<and> contents t = xs @ [a, a]"
proof -
  from stack_repr [OF assms(1,2)] obtain rest where
    r: "cells s = (xs @ [a]) @ rest" "sp s = length (xs @ [a])" .
  with assms(3) show ?thesis
    by (cases rest) (auto simp: dup_def stack_ok_def same_frame_def contents_def
        list_update_append nth_append)
qed

lemma dup2_contents:
  assumes "stack_ok s" "contents s = xs @ [a, b]" "sp s + 1 < length (cells s)"
  shows "\<exists>t. dup2 s = (Ok (), t) \<and> stack_ok t \<and> same_frame s t \<and> contents t = xs @ [a, b, a, b]"
proof -
  from stack_repr [OF assms(1,2)] obtain rest where
    r: "cells s = (xs @ [a, b]) @ rest" "sp s = length (xs @ [a, b])" .
  with assms(3) obtain y z rest' where "rest = y # z # rest'"
    by (cases rest; cases "tl rest") auto
  with r show ?thesis
    by (auto simp: dup2_def stack_ok_def same_frame_def contents_def list_update_append nth_append)
qed

lemma dupdown2_contents:
  assumes "stack_ok s" "contents s = xs @ [a, b]" "sp s < length (cells s)"
  shows "\<exists>t. dupdown2 s = (Ok (), t) \<and> stack_ok t \<and> same_frame s t \<and> contents t = xs @ [b, a, b]"
proof -
  from stack_repr [OF assms(1,2)] obtain rest where
    r: "cells s = (xs @ [a, b]) @ rest" "sp s = length (xs @ [a, b])" .
  with assms(3) show ?thesis
    by (cases rest) (auto simp: dupdown2_def Let_def stack_ok_def same_frame_def contents_def
        list_update_append nth_append)
qed

lemma dupdown3_contents:
  assumes "stack_ok s" "contents s = xs @ [a, b, c]" "sp s < length (cells s)"
  shows "\<exists>t. dupdown3 s = (Ok (), t) \<and> stack_ok t \<and> same_frame s t \<and>
             contents t = xs @ [c, a, b, c]"
proof -
  from stack_repr [OF assms(1,2)] obtain rest where
    r: "cells s = (xs @ [a, b, c]) @ rest" "sp s = length (xs @ [a, b, c])" .
  with assms(3) show ?thesis
    by (cases rest) (auto simp: dupdown3_def Let_def stack_ok_def same_frame_def contents_def
        list_update_append nth_append)
qed

lemma swap_top_contents:
  assumes "stack_ok s" "contents s = xs @ [a, b]"
  shows "\<exists>t. swap_top s = (Ok (), t) \<and> stack_ok t \<and> same_frame s t \<and> contents t = xs @ [b, a]"
proof -
  from stack_repr [OF assms] obtain rest where
    r: "cells s = (xs @ [a, b]) @ rest" "sp s = length (xs @ [a, b])" .
  then show ?thesis
    by (auto simp: swap_top_def stack_ok_def same_frame_def contents_def
        list_update_append nth_append)
qed

section \<open>Properties\<close>

text \<open>
  Round trip: on a stack with room, popping gives back the pushed value for ints, floats, longs, doubles and
  references below the size of the address space, and the contents, the size and the frames are as before.
\<close>

theorem push_pop_roundtrip:
  assumes "stack_ok s" "sp s + 2 \<le> length (cells s)" "p < usize_bound"
  shows "(\<exists>t. sq (push_i32 i) pop_i32 s = (Ok i, t) \<and> same_frame s t \<and> contents t = contents s) \<and>
    (\<exists>t. sq (push_f32 x) pop_f32 s = (Ok x, t) \<and> same_frame s t \<and> contents t = contents s) \<and>
    (\<exists>t. sq (push_i64 l) pop_i64 s = (Ok l, t) \<and> same_frame s t \<and> contents t = contents s) \<and>
    (\<exists>t. sq (push_f64 d) pop_f64 s = (Ok d, t) \<and> same_frame s t \<and> contents t = contents s) \<and>
    (\<exists>t. sq (push_ref p) pop_ref s = (Ok p, t) \<and> same_frame s t \<and> contents t = contents s)"
  using i32_cells.push_then_pop [OF assms(1), of i] f32_cells.push_then_pop [OF assms(1), of x]
    i64_cells.push_then_pop [OF assms(1), of l] f64_cells.push_then_pop [OF assms(1), of d]
    ref_cells.push_then_pop [OF assms(1,3)] assms(2)
  by auto

lemma push_pop_roundtrip_witness:
  "\<exists>t. sq (push_i64 0x123456789) pop_i64 (stack_new 4) = (Ok 0x123456789, t) \<and>
     contents t = contents (stack_new 4)"
proof -
  have "stack_ok (stack_new 4)" "sp (stack_new 4) + 2 \<le> length (cells (stack_new 4))" "0 < usize_bound"
    by (simp_all add: stack_ok_def stack_new_def)
  from push_pop_roundtrip [OF this, of 0 0 "0x123456789" 0] show ?thesis by blast
qed

end
