(* ===== verification/Image_Loader.thy ===== *)
theory Image_Loader
  imports Vm_Base
begin

text \<open>
  The scode image loader of \<open>image_loader.rs\<close>: parsing and validating the 32-byte header, loading
  an image from bytes, and the typed readers of a loaded image. Reading the file itself is not
  modelled; its bytes are the argument.
\<close>

section \<open>Header\<close>

definition SCODE_MAGIC :: u32 where "SCODE_MAGIC = 0x5ED0BA07"
definition SCODE_MAJOR_VER :: u8 where "SCODE_MAJOR_VER = 1"
definition SCODE_MINOR_VER :: u8 where "SCODE_MINOR_VER = 5"
definition SCODE_BLOCK_SIZE :: u8 where "SCODE_BLOCK_SIZE = 4"
definition SCODE_HEADER_SIZE :: nat where "SCODE_HEADER_SIZE = 32"

lemmas scode_consts = SCODE_MAGIC_def SCODE_MAJOR_VER_def SCODE_MINOR_VER_def
  SCODE_BLOCK_SIZE_def SCODE_HEADER_SIZE_def

record scode_header =
  magic :: u32
  major_ver :: u8
  minor_ver :: u8
  block_size :: u8
  ref_size :: u8
  image_size :: u32
  data_size :: u32
  main_method :: u16
  tests_bix :: u16
  resume_method :: u16

text \<open>\<open>n\<close> little-endian bytes of \<open>data\<close> at \<open>off\<close>.\<close>

definition le_at :: "nat \<Rightarrow> nat \<Rightarrow> u8 list \<Rightarrow> 'n::len word" where
  "le_at n off data = from_le (take n (drop off data))"

definition header_parse :: "u8 list \<Rightarrow> scode_header vm_result" where
  "header_parse data =
     (if length data < SCODE_HEADER_SIZE then
        Err (BadImage (''scode too short for header: '' @ show_nat (length data) @
             '' bytes (need at least '' @ show_nat SCODE_HEADER_SIZE @ '')''))
      else Ok
        \<lparr>magic = le_at 4 0 data,
         major_ver = data ! 4,
         minor_ver = data ! 5,
         block_size = data ! 6,
         ref_size = data ! 7,
         image_size = le_at 4 8 data,
         data_size = le_at 4 12 data,
         main_method = le_at 2 16 data,
         tests_bix = le_at 2 18 data,
         resume_method = le_at 2 24 data\<rparr>)"

definition header_validate :: "scode_header \<Rightarrow> unit vm_result" where
  "header_validate h =
     (if magic h \<noteq> SCODE_MAGIC then
        Err (BadImage (''bad magic: expected 0x'' @ show_hex8 SCODE_MAGIC @ '', got 0x'' @
             show_hex8 (magic h)))
      else if major_ver h \<noteq> SCODE_MAJOR_VER \<or> minor_ver h \<noteq> SCODE_MINOR_VER then
        Err (BadImage (''unsupported version: '' @ show_nat (unat (major_ver h)) @ ''.'' @
             show_nat (unat (minor_ver h)) @ '' (expected '' @
             show_nat (unat SCODE_MAJOR_VER) @ ''.'' @ show_nat (unat SCODE_MINOR_VER) @ '')''))
      else if block_size h \<noteq> SCODE_BLOCK_SIZE then
        Err (BadImage (''bad block size: expected '' @ show_nat (unat SCODE_BLOCK_SIZE) @
             '', got '' @ show_nat (unat (block_size h))))
      else if unat (image_size h) < SCODE_HEADER_SIZE then
        Err (BadImage (''image_size '' @ show_nat (unat (image_size h)) @
             '' is smaller than header ('' @ show_nat SCODE_HEADER_SIZE @ '')''))
      else Ok ())"

definition header_validate_with_length :: "scode_header \<Rightarrow> usize \<Rightarrow> unit vm_result" where
  "header_validate_with_length h actual_len =
     bindO (header_validate h) (\<lambda>_.
       if actual_len \<noteq> unat (image_size h) then
         Err (BadImage (''image_size mismatch: header says '' @ show_nat (unat (image_size h)) @
              '' bytes, actual data is '' @ show_nat actual_len @ '' bytes''))
       else Ok ())"

section \<open>Images\<close>

record scode_image =
  header :: scode_header
  image_code :: "u8 list"

definition load_from_bytes :: "u8 list \<Rightarrow> scode_image vm_result" where
  "load_from_bytes data =
     bindO (header_parse data) (\<lambda>h.
       bindO (header_validate_with_length h (length data)) (\<lambda>_.
         Ok \<lparr>header = h, image_code = data\<rparr>))"

text \<open>The readers: the end of the range is an unchecked addition of offsets.\<close>

definition image_range :: "scode_image \<Rightarrow> usize \<Rightarrow> nat \<Rightarrow> (vm_error, u8 list option) outcome" where
  "image_range img offset n =
     (if offset + n < usize_bound then Ok (get_range (image_code img) offset n) else Panic)"

definition image_get_u8 :: "scode_image \<Rightarrow> usize \<Rightarrow> u8 option" where
  "image_get_u8 img offset =
     (if offset < length (image_code img) then Some (image_code img ! offset) else None)"

definition image_get_u16 :: "scode_image \<Rightarrow> usize \<Rightarrow> (vm_error, u16 option) outcome" where
  "image_get_u16 img offset = bindO (image_range img offset 2) (\<lambda>r. Ok (map_option from_le r))"

definition image_get_u32 :: "scode_image \<Rightarrow> usize \<Rightarrow> (vm_error, u32 option) outcome" where
  "image_get_u32 img offset = bindO (image_range img offset 4) (\<lambda>r. Ok (map_option from_le r))"

definition image_get_i32 :: "scode_image \<Rightarrow> usize \<Rightarrow> (vm_error, i32 option) outcome" where
  "image_get_i32 img offset = image_get_u32 img offset"

definition image_get_u64 :: "scode_image \<Rightarrow> usize \<Rightarrow> (vm_error, u64 option) outcome" where
  "image_get_u64 img offset = bindO (image_range img offset 8) (\<lambda>r. Ok (map_option from_le r))"

definition block_to_offset :: "scode_image \<Rightarrow> u16 \<Rightarrow> usize" where
  "block_to_offset img block = unat block * unat (block_size (header img))"

section \<open>The header layout\<close>

text \<open>
  The layout that the module documentation tabulates, as an encoder: the three reserved fields
  are its extra arguments.
\<close>

definition header_bytes :: "scode_header \<Rightarrow> u32 \<Rightarrow> u16 \<Rightarrow> u32 \<Rightarrow> u8 list" where
  "header_bytes h ra rb rc =
     to_le 4 (magic h) @ [major_ver h, minor_ver h, block_size h, ref_size h] @
     to_le 4 (image_size h) @ to_le 4 (data_size h) @
     to_le 2 (main_method h) @ to_le 2 (tests_bix h) @ to_le 4 ra @
     to_le 2 (resume_method h) @ to_le 2 rb @ to_le 4 rc"

lemma length_header_bytes [simp]: "length (header_bytes h ra rb rc) = SCODE_HEADER_SIZE"
  by (simp add: header_bytes_def SCODE_HEADER_SIZE_def)

lemma le_at_append:
  "length xs = off \<Longrightarrow> LENGTH('n) = 8 * n \<Longrightarrow>
   le_at n off (xs @ to_le n (w :: 'n::len word) @ ys) = w"
  by (simp add: le_at_def from_le_to_le)

lemma header_validate_iff:
  "header_validate h = Ok () \<longleftrightarrow>
     magic h = SCODE_MAGIC \<and> major_ver h = SCODE_MAJOR_VER \<and> minor_ver h = SCODE_MINOR_VER \<and>
     block_size h = SCODE_BLOCK_SIZE \<and> SCODE_HEADER_SIZE \<le> unat (image_size h)"
  by (auto simp: header_validate_def)

section \<open>Properties\<close>

text \<open>
  Round trip: parsing a header laid out as the module documents, followed by any image body, gives the
  header back.
\<close>

theorem header_roundtrip:
  "header_parse (header_bytes h ra rb rc @ body) = Ok h"
proof -
  let ?b = "header_bytes h ra rb rc @ body"
  have "le_at 4 0 ?b = magic h" "le_at 4 8 ?b = image_size h" "le_at 4 12 ?b = data_size h"
    "le_at 2 16 ?b = main_method h" "le_at 2 18 ?b = tests_bix h"
    "le_at 2 24 ?b = resume_method h"
    by (simp_all add: le_at_def header_bytes_def from_le_to_le)
  moreover have "?b ! 4 = major_ver h" "?b ! 5 = minor_ver h" "?b ! 6 = block_size h"
    "?b ! 7 = ref_size h"
    by (simp_all add: header_bytes_def nth_append)
  moreover have "\<not> length ?b < SCODE_HEADER_SIZE" by simp
  ultimately show ?thesis by (simp add: header_parse_def)
qed

text \<open>
  Loading: an image loads exactly when its header parses, has the magic number, the supported version and
  block size, and its size field is the length of the data and covers the header; the loaded image is the
  data with that header.
\<close>

theorem load_from_bytes_iff:
  "load_from_bytes data = Ok img \<longleftrightarrow>
     image_code img = data \<and> header_parse data = Ok (header img) \<and>
     magic (header img) = SCODE_MAGIC \<and> major_ver (header img) = SCODE_MAJOR_VER \<and>
     minor_ver (header img) = SCODE_MINOR_VER \<and> block_size (header img) = SCODE_BLOCK_SIZE \<and>
     SCODE_HEADER_SIZE \<le> unat (image_size (header img)) \<and> unat (image_size (header img)) = length data"
proof -
  have "load_from_bytes data = Ok img \<longleftrightarrow>
     image_code img = data \<and> header_parse data = Ok (header img) \<and>
     header_validate (header img) = Ok () \<and> unat (image_size (header img)) = length data"
    by (cases img) (force simp: load_from_bytes_def header_validate_with_length_def)
  then show ?thesis by (auto simp: header_validate_iff)
qed

end
