(* ===== verification/Vm_Memory.thy ===== *)
theory Vm_Memory
  imports Image_Loader
begin

text \<open>
  The memory of the virtual machine (\<open>vm_memory.rs\<close>): a read-only code segment and a zero-filled
  data segment, with little-endian accessors that check every bound. Every method of \<open>VmMemory\<close>
  is here. Offsets are signed 32-bit values, base addresses are \<open>usize\<close>.
\<close>

section \<open>State\<close>

record vm_memory =
  code :: "u8 list"
  data :: "u8 list"
  mem_block_size :: u8
  mem_address_width :: address_width

type_synonym 'a mem_method = "(vm_memory, vm_error, 'a) routine"

definition from_image :: "scode_image \<Rightarrow> vm_memory vm_result" where
  "from_image img =
     (if data_size (header img) = 0 then Err (BadImage ''data_size is 0 in scode header'')
      else Ok \<lparr>code = image_code img, data = replicate (unat (data_size (header img))) 0,
               mem_block_size = block_size (header img), mem_address_width = Block16\<rparr>)"

definition from_image_extended :: "scode_image \<Rightarrow> address_width \<Rightarrow> vm_memory vm_result" where
  "from_image_extended img w = bindO (from_image img) (\<lambda>m. Ok (m\<lparr>mem_address_width := w\<rparr>))"

definition block_to_addr :: "vm_memory \<Rightarrow> u16 \<Rightarrow> usize" where
  "block_to_addr m block = unat block * unat (mem_block_size m)"

definition read_addr :: "vm_memory \<Rightarrow> u8 list \<Rightarrow> usize \<Rightarrow> usize vm_result" where
  "read_addr m segment offset =
     (case mem_address_width m of
        Block16 \<Rightarrow> bindO (ok_or (get_range segment offset 2) NullPointer)
                     (\<lambda>s. Ok (block_to_addr m (from_le s)))
      | Byte32 \<Rightarrow> bindO (ok_or (get_range segment offset 4) NullPointer)
                    (\<lambda>s. Ok (unat (from_le s :: u32))))"

section \<open>Code segment\<close>

definition pc_error :: "vm_memory \<Rightarrow> usize \<Rightarrow> vm_error" where
  "pc_error m offset = PcOutOfBounds offset (length (code m))"

definition code_u8 :: "vm_memory \<Rightarrow> usize \<Rightarrow> u8 vm_result" where
  "code_u8 m offset =
     (if offset < length (code m) then Ok (code m ! offset) else Err (pc_error m offset))"

definition code_slice :: "vm_memory \<Rightarrow> usize \<Rightarrow> nat \<Rightarrow> u8 list vm_result" where
  "code_slice m offset n = ok_or (get_range (code m) offset n) (pc_error m offset)"

definition code_u16 :: "vm_memory \<Rightarrow> usize \<Rightarrow> u16 vm_result" where
  "code_u16 m offset = bindO (code_slice m offset 2) (\<lambda>s. Ok (from_le s))"

definition code_u32 :: "vm_memory \<Rightarrow> usize \<Rightarrow> u32 vm_result" where
  "code_u32 m offset = bindO (code_slice m offset 4) (\<lambda>s. Ok (from_le s))"

definition code_i32 :: "vm_memory \<Rightarrow> usize \<Rightarrow> i32 vm_result" where
  "code_i32 m offset = code_u32 m offset"

section \<open>Data segment\<close>

text \<open>
  \<open>base.checked_add\<close> or \<open>base.checked_sub\<close> of the offset's magnitude. Negating the least
  32-bit integer overflows.
\<close>

definition data_addr :: "usize \<Rightarrow> i32 \<Rightarrow> usize vm_result" where
  "data_addr base offset =
     (if 0 \<le> sint offset then
        (if base + nat (sint offset) < usize_bound then Ok (base + nat (sint offset))
         else Err NullPointer)
      else if sint offset = - (2 ^ 31) then Panic
      else if nat (- sint offset) \<le> base then Ok (base - nat (- sint offset))
      else Err NullPointer)"

definition data_read :: "vm_memory \<Rightarrow> usize \<Rightarrow> nat \<Rightarrow> u8 list vm_result" where
  "data_read m addr n = ok_or (get_range (data m) addr n) NullPointer"

text \<open>\<open>data_write\<close> returns the slice to write to; the model writes \<open>bs\<close> into it.\<close>

definition data_write :: "usize \<Rightarrow> u8 list \<Rightarrow> unit mem_method" where
  "data_write addr bs = (\<lambda>m.
     if addr + length bs \<le> length (data m) then (Ok (), m\<lparr>data := set_range (data m) addr bs\<rparr>)
     else (Err NullPointer, m))"

definition get_bytes :: "vm_memory \<Rightarrow> usize \<Rightarrow> i32 \<Rightarrow> nat \<Rightarrow> u8 list vm_result" where
  "get_bytes m base offset n = bindO (data_addr base offset) (\<lambda>addr. data_read m addr n)"

definition set_bytes :: "usize \<Rightarrow> i32 \<Rightarrow> u8 list \<Rightarrow> unit mem_method" where
  "set_bytes base offset bs = bnd (lift (data_addr base offset)) (\<lambda>addr. data_write addr bs)"

definition get_byte :: "vm_memory \<Rightarrow> usize \<Rightarrow> i32 \<Rightarrow> u8 vm_result" where
  "get_byte m base offset = bindO (get_bytes m base offset 1) (\<lambda>s. Ok (from_le s))"

definition get_short :: "vm_memory \<Rightarrow> usize \<Rightarrow> i32 \<Rightarrow> u16 vm_result" where
  "get_short m base offset = bindO (get_bytes m base offset 2) (\<lambda>s. Ok (from_le s))"

definition get_int :: "vm_memory \<Rightarrow> usize \<Rightarrow> i32 \<Rightarrow> i32 vm_result" where
  "get_int m base offset = bindO (get_bytes m base offset 4) (\<lambda>s. Ok (from_le s))"

definition get_float :: "vm_memory \<Rightarrow> usize \<Rightarrow> i32 \<Rightarrow> u32 vm_result" where
  "get_float m base offset = bindO (get_bytes m base offset 4) (\<lambda>s. Ok (from_le s))"

definition get_wide :: "vm_memory \<Rightarrow> usize \<Rightarrow> i32 \<Rightarrow> i64 vm_result" where
  "get_wide m base offset = bindO (get_bytes m base offset 8) (\<lambda>s. Ok (from_le s))"

definition set_byte :: "usize \<Rightarrow> i32 \<Rightarrow> u8 \<Rightarrow> unit mem_method" where
  "set_byte base offset val = set_bytes base offset [val]"

definition set_short :: "usize \<Rightarrow> i32 \<Rightarrow> u16 \<Rightarrow> unit mem_method" where
  "set_short base offset val = set_bytes base offset (to_le 2 val)"

definition set_int :: "usize \<Rightarrow> i32 \<Rightarrow> i32 \<Rightarrow> unit mem_method" where
  "set_int base offset val = set_bytes base offset (to_le 4 val)"

definition set_float :: "usize \<Rightarrow> i32 \<Rightarrow> u32 \<Rightarrow> unit mem_method" where
  "set_float base offset val = set_bytes base offset (to_le 4 val)"

definition set_wide :: "usize \<Rightarrow> i32 \<Rightarrow> i64 \<Rightarrow> unit mem_method" where
  "set_wide base offset val = set_bytes base offset (to_le 8 val)"

section \<open>Higher-level accessors\<close>

definition get_const :: "vm_memory \<Rightarrow> usize \<Rightarrow> i32 \<Rightarrow> usize vm_result" where
  "get_const m base offset = bindO (get_short m base offset) (\<lambda>bix. Ok (block_to_addr m bix))"

definition get_ref :: "vm_memory \<Rightarrow> usize \<Rightarrow> i32 \<Rightarrow> usize vm_result" where
  "get_ref m base offset = bindO (get_bytes m base offset 4) (\<lambda>s. Ok (unat (from_le s :: u32)))"

definition set_ref :: "usize \<Rightarrow> i32 \<Rightarrow> usize \<Rightarrow> unit mem_method" where
  "set_ref base offset val = set_bytes base offset (to_le 4 (of_nat val :: u32))"

text \<open>\<open>wrapping_add\<close> and \<open>wrapping_sub\<close> of the offset, modulo the width of \<open>usize\<close>; negating the
  least offset overflows here too.\<close>

definition get_inline :: "usize \<Rightarrow> i32 \<Rightarrow> usize vm_result" where
  "get_inline base offset =
     (if sint offset = - (2 ^ 31) then Panic
      else Ok (nat ((int base + sint offset) mod 2 ^ 32)))"

definition data_slice :: "vm_memory \<Rightarrow> usize \<Rightarrow> nat \<Rightarrow> u8 list vm_result" where
  "data_slice m offset n = data_read m offset n"

definition data_len :: "vm_memory \<Rightarrow> usize" where
  "data_len m = length (data m)"

definition code_len :: "vm_memory \<Rightarrow> usize" where
  "code_len m = length (code m)"

section \<open>Loads and stores\<close>

text \<open>The range of \<open>n\<close> bytes that a base and an offset name, when it lies in the data segment.\<close>

definition range_at :: "vm_memory \<Rightarrow> usize \<Rightarrow> i32 \<Rightarrow> nat \<Rightarrow> usize option" where
  "range_at m base offset n =
     (case data_addr base offset of
        Ok a \<Rightarrow> if a + n \<le> length (data m) then Some a else None
      | _ \<Rightarrow> None)"

lemma range_at_Some:
  "range_at m base offset n = Some a \<longleftrightarrow> data_addr base offset = Ok a \<and> a + n \<le> length (data m)"
  by (auto simp: range_at_def split: outcome.splits if_splits)

lemma data_addr_int:
  "base < usize_bound \<Longrightarrow> data_addr base offset = Ok a \<longleftrightarrow>
     int a = int base + sint offset \<and> a < usize_bound \<and> sint offset \<noteq> - (2 ^ 31)"
  by (cases "0 \<le> sint offset") (auto simp: data_addr_def)

lemma data_addr_bound: "base < usize_bound \<Longrightarrow> data_addr base offset = Ok a \<Longrightarrow> a < usize_bound"
  by (auto simp: data_addr_def split: if_splits)

lemma get_bytes_in: "range_at m base offset n = Some a \<Longrightarrow>
   get_bytes m base offset n = Ok (take n (drop a (data m)))"
  by (auto simp: range_at_Some get_bytes_def data_read_def get_range_def)

lemma get_bytes_out: "range_at m base offset n = None \<Longrightarrow> data_addr base offset \<noteq> Panic \<Longrightarrow>
   get_bytes m base offset n = Err NullPointer"
  by (cases "data_addr base offset")
     (auto simp: range_at_def get_bytes_def data_read_def get_range_def data_addr_def
       split: if_splits)

lemma set_bytes_in: "range_at m base offset (length bs) = Some a \<Longrightarrow>
   set_bytes base offset bs m = (Ok (), m\<lparr>data := set_range (data m) a bs\<rparr>)"
  by (auto simp: range_at_Some set_bytes_def data_write_def bnd_def lift_def)

lemma set_bytes_out: "range_at m base offset (length bs) = None \<Longrightarrow> data_addr base offset \<noteq> Panic \<Longrightarrow>
   set_bytes base offset bs m = (Err NullPointer, m)"
  by (cases "data_addr base offset")
     (auto simp: range_at_def set_bytes_def data_write_def bnd_def lift_def data_addr_def
       split: if_splits)

text \<open>
  The contract of a typed load and store of \<open>width\<close> bytes: inside the data segment a store
  replaces exactly the bytes of its range by the value's encoding and a load decodes them;
  outside it both fail with \<open>NullPointer\<close> and change nothing.
\<close>

locale typed_store =
  fixes load :: "vm_memory \<Rightarrow> usize \<Rightarrow> i32 \<Rightarrow> 'v vm_result"
    and store :: "usize \<Rightarrow> i32 \<Rightarrow> 'v \<Rightarrow> unit mem_method"
    and enc :: "'v \<Rightarrow> u8 list"
    and dec :: "u8 list \<Rightarrow> 'v"
    and width :: nat
    and fits :: "'v \<Rightarrow> bool"
  assumes dec_enc: "fits v \<Longrightarrow> dec (enc v) = v"
    and length_enc: "length (enc v) = width"
    and load_in: "range_at m base offset width = Some a \<Longrightarrow>
      load m base offset = Ok (dec (take width (drop a (data m))))"
    and load_out: "range_at m base offset width = None \<Longrightarrow> data_addr base offset \<noteq> Panic \<Longrightarrow>
      load m base offset = Err NullPointer"
    and store_in: "range_at m base offset width = Some a \<Longrightarrow>
      store base offset v m = (Ok (), m\<lparr>data := set_range (data m) a (enc v)\<rparr>)"
    and store_out: "range_at m base offset width = None \<Longrightarrow> data_addr base offset \<noteq> Panic \<Longrightarrow>
      store base offset v m = (Err NullPointer, m)"
    and store_panic: "data_addr base offset = Panic \<Longrightarrow> store base offset v m = (Panic, m)"
begin

lemma store_cases:
  obtains (stored) a where "range_at m base offset width = Some a"
      "store base offset v m = (Ok (), m\<lparr>data := set_range (data m) a (enc v)\<rparr>)"
  | (failed) "store base offset v m = (Err NullPointer, m)"
  | (panicked) "store base offset v m = (Panic, m)"
proof (cases "range_at m base offset width")
  case None
  then show ?thesis using store_out [OF None] store_panic that(2,3) by blast
next
  case (Some a)
  from store_in [OF this] that(1) [OF this] show ?thesis by blast
qed

lemma store_then_load:
  assumes "range_at m base offset width = Some a" "fits v" "store base offset v m = (r, m')"
  shows "r = Ok () \<and> load m' base offset = Ok v"
proof -
  from store_in [OF assms(1)] assms(3)
  have m': "m' = m\<lparr>data := set_range (data m) a (enc v)\<rparr>" and r: "r = Ok ()" by auto
  from assms(1) have fit: "a + width \<le> length (data m)" "data_addr base offset = Ok a"
    by (auto simp: range_at_Some)
  then have "range_at m' base offset width = Some a"
    by (simp add: m' range_at_Some length_enc)
  from load_in [OF this] have "load m' base offset = Ok (dec (take width (drop a (data m'))))" .
  moreover have "get_range (data m') a width = Some (enc v)"
    unfolding m' using fit by (simp add: get_set_range_same length_enc)
  ultimately show ?thesis
    using r dec_enc [OF assms(2)] by (auto simp: get_range_def split: if_splits)
qed

text \<open>A store changes nothing outside its own range, and neither segment's size.\<close>

lemma store_frame:
  assumes "store base offset v m = (r, m')"
  shows "code m' = code m \<and> length (data m') = length (data m) \<and>
    (\<forall>p n. (\<forall>a. range_at m base offset width = Some a \<longrightarrow> p + n \<le> a \<or> a + width \<le> p) \<longrightarrow>
       get_range (data m') p n = get_range (data m) p n)"
proof (cases rule: store_cases [of m base offset v])
  case (stored a)
  with assms have m': "m' = m\<lparr>data := set_range (data m) a (enc v)\<rparr>" by simp
  from stored(1) have "a + length (enc v) \<le> length (data m)"
    by (simp add: range_at_Some length_enc)
  then show ?thesis
    using stored(1) get_set_range_disjoint [of a "enc v" "data m"] by (auto simp: m' length_enc)
qed (use assms in auto)

end

lemmas load_defs = get_byte_def get_short_def get_int_def get_float_def get_wide_def get_ref_def

lemmas store_defs = set_byte_def set_short_def set_int_def set_float_def set_wide_def set_ref_def

lemma set_bytes_panic: "data_addr base offset = Panic \<Longrightarrow> set_bytes base offset bs m = (Panic, m)"
  by (simp add: set_bytes_def bnd_def lift_def)

text \<open>Every store of the memory writes an encoding with \<open>set_bytes\<close> and every load decodes
  \<open>get_bytes\<close>, so the contract reduces to the codec.\<close>

lemma typed_storeI:
  assumes "\<And>v. fits v \<Longrightarrow> dec (enc v) = v" "\<And>v. length (enc v) = width"
    and "\<And>m base offset. load m base offset = bindO (get_bytes m base offset width) (\<lambda>s. Ok (dec s))"
    and "\<And>base offset v. store base offset v = set_bytes base offset (enc v)"
  shows "typed_store load store enc dec width fits"
proof
  show "store base offset v m = (Ok (), m\<lparr>data := set_range (data m) a (enc v)\<rparr>)"
    if "range_at m base offset width = Some a" for m base offset a v
    using set_bytes_in [of m base offset "enc v" a] that by (simp add: assms(2,4))
  show "store base offset v m = (Err NullPointer, m)"
    if "range_at m base offset width = None" "data_addr base offset \<noteq> Panic" for m base offset v
    using set_bytes_out [of m base offset "enc v"] that by (simp add: assms(2,4))
qed (simp_all add: assms get_bytes_in get_bytes_out set_bytes_panic)

interpretation byte_store: typed_store get_byte set_byte "\<lambda>v. [v]" from_le 1 "\<lambda>_. True"
  by (rule typed_storeI) (simp_all add: load_defs store_defs from_le_def)

interpretation short_store: typed_store get_short set_short "to_le 2" from_le 2 "\<lambda>_. True"
  by (rule typed_storeI) (simp_all add: load_defs store_defs from_le_to_le)

interpretation int_store: typed_store get_int set_int "to_le 4" from_le 4 "\<lambda>_. True"
  by (rule typed_storeI) (simp_all add: load_defs store_defs from_le_to_le)

interpretation float_store: typed_store get_float set_float "to_le 4" from_le 4 "\<lambda>_. True"
  by (rule typed_storeI) (simp_all add: load_defs store_defs from_le_to_le)

interpretation wide_store: typed_store get_wide set_wide "to_le 8" from_le 8 "\<lambda>_. True"
  by (rule typed_storeI) (simp_all add: load_defs store_defs from_le_to_le)

interpretation ref_store: typed_store get_ref set_ref
  "\<lambda>p. to_le 4 (of_nat p :: u32)" "\<lambda>bs. unat (from_le bs :: u32)" 4 "\<lambda>p. p < usize_bound"
  by (rule typed_storeI)
     (simp_all add: load_defs store_defs from_le_to_le unat_of_nat take_bit_nat_eq_self)

section \<open>Properties\<close>

text \<open>
  Round trip: a value of any width stored inside the data segment is what the load of the same width
  at the same place returns.
\<close>

theorem memory_store_load:
  assumes "range_at m base offset 8 = Some a" "p < usize_bound"
  shows "get_byte (snd (set_byte base offset b m)) base offset = Ok b \<and>
    get_short (snd (set_short base offset h m)) base offset = Ok h \<and>
    get_int (snd (set_int base offset i m)) base offset = Ok i \<and>
    get_float (snd (set_float base offset f m)) base offset = Ok f \<and>
    get_wide (snd (set_wide base offset w m)) base offset = Ok w \<and>
    get_ref (snd (set_ref base offset p m)) base offset = Ok p"
proof -
  have "range_at m base offset n = Some a" if "n \<le> 8" for n
    using assms(1) that by (auto simp: range_at_Some)
  then show ?thesis
    using byte_store.store_then_load [of m base offset a b] short_store.store_then_load [of m base offset a h]
      int_store.store_then_load [of m base offset a i] float_store.store_then_load [of m base offset a f]
      wide_store.store_then_load [of m base offset a w] ref_store.store_then_load [of m base offset a p]
      assms(2)
    by (simp add: prod_eq_iff)
qed

lemma memory_store_load_witness:
  "get_wide (snd (set_wide 4 2 0xCAFE
     \<lparr>code = [], data = replicate 16 0, mem_block_size = 4, mem_address_width = Block16\<rparr>)) 4 2 = Ok 0xCAFE"
  using memory_store_load [of "\<lparr>code = [], data = replicate 16 0, mem_block_size = 4, mem_address_width = Block16\<rparr>"
    4 2 6 0] by (simp add: range_at_def data_addr_def)

text \<open>
  Frame: a store of any width leaves the code, the sizes and every byte outside its own range as
  they were, and outside the data segment it changes nothing at all.
\<close>

theorem memory_store_frame:
  assumes "store \<in> {\<lambda>m. set_byte base offset b m, \<lambda>m. set_short base offset h m,
      \<lambda>m. set_int base offset i m, \<lambda>m. set_float base offset f m, \<lambda>m. set_wide base offset w m,
      \<lambda>m. set_ref base offset p m}"
    and "store m = (r, m')"
  shows "code m' = code m \<and> length (data m') = length (data m) \<and>
    (r \<noteq> Ok () \<longrightarrow> m' = m) \<and>
    (\<forall>a q. data_addr base offset = Ok a \<and> (q < a \<or> a + 8 \<le> q) \<longrightarrow> data m' ! q = data m ! q)"
proof -
  obtain bs where bs: "store = set_bytes base offset bs" "length bs \<le> 8"
    using assms(1) by (auto simp: store_defs)
  show ?thesis
  proof (cases "range_at m base offset (length bs)")
    case None
    then show ?thesis
      using assms(2) bs(1) set_bytes_out [OF None] set_bytes_panic [of base offset bs m] by auto
  next
    case (Some a)
    then have fit: "a + length bs \<le> length (data m)" "data_addr base offset = Ok a"
      by (auto simp: range_at_Some)
    with set_bytes_in [OF Some] assms(2) bs show ?thesis
      by (auto simp: nth_set_range_outside)
  qed
qed

lemma memory_store_frame_witness:
  "data (snd (set_byte 3 0 7 \<lparr>code = [], data = replicate 16 1, mem_block_size = 4, mem_address_width = Block16\<rparr>)) ! 2 = 1"
  using memory_store_frame [of "\<lambda>m. set_byte 3 0 7 m" 3 0 7 0 0 0 0 0
    "\<lparr>code = [], data = replicate 16 1, mem_block_size = 4, mem_address_width = Block16\<rparr>"
    "fst (set_byte 3 0 7 \<lparr>code = [], data = replicate 16 1, mem_block_size = 4, mem_address_width = Block16\<rparr>)"
    "snd (set_byte 3 0 7 \<lparr>code = [], data = replicate 16 1, mem_block_size = 4, mem_address_width = Block16\<rparr>)"]
  by (simp add: data_addr_def)

text \<open>
  Bounds: an access whose range leaves the data segment, on either side, is \<open>NullPointer\<close>.
\<close>

theorem memory_out_of_bounds:
  assumes "range_at m base offset n = None" "data_addr base offset \<noteq> Panic"
  shows "(n = 1 \<longrightarrow> get_byte m base offset = Err NullPointer \<and> set_byte base offset b m = (Err NullPointer, m)) \<and>
    (n = 2 \<longrightarrow> get_short m base offset = Err NullPointer \<and> set_short base offset h m = (Err NullPointer, m)) \<and>
    (n = 4 \<longrightarrow> get_int m base offset = Err NullPointer \<and> set_int base offset i m = (Err NullPointer, m) \<and>
       get_float m base offset = Err NullPointer \<and> set_float base offset f m = (Err NullPointer, m) \<and>
       get_ref m base offset = Err NullPointer \<and> set_ref base offset p m = (Err NullPointer, m)) \<and>
    (n = 8 \<longrightarrow> get_wide m base offset = Err NullPointer \<and> set_wide base offset w m = (Err NullPointer, m))"
  using assms byte_store.load_out byte_store.store_out short_store.load_out short_store.store_out
    int_store.load_out int_store.store_out float_store.load_out float_store.store_out
    ref_store.load_out ref_store.store_out wide_store.load_out wide_store.store_out
  by auto

lemma memory_out_of_bounds_witness:
  "get_int \<lparr>code = [], data = replicate 16 0, mem_block_size = 4, mem_address_width = Block16\<rparr> 13 0 = Err NullPointer"
  using memory_out_of_bounds [of "\<lparr>code = [], data = replicate 16 0, mem_block_size = 4, mem_address_width = Block16\<rparr>" 13 0 4]
  by (simp add: range_at_def data_addr_def)

end
