(* ===== verification/Opcodes.thy ===== *)
theory Opcodes
  imports Vm_Base
begin

text \<open>
  The opcode set of \<open>opcodes.rs\<close>: the 240 variants of \<open>enum Opcode\<close> with their discriminants,
  the conversion from a bytecode byte, and the metadata methods. The variants are split into one
  datatype per section of the enum, in the enum's order; \<open>opcode\<close> is their sum.
\<close>

section \<open>Opcodes by section\<close>

text \<open>Literals.\<close>

datatype literal_op =
    Nop | LoadIM1 | LoadI0 | LoadI1 | LoadI2 | LoadI3 | LoadI4 | LoadI5 | LoadIntU1 |
    LoadIntU2 | LoadL0 | LoadL1 | LoadF0 | LoadF1 | LoadD0 | LoadD1 | LoadNull |
    LoadNullBool | LoadNullFloat | LoadNullDouble | LoadInt | LoadFloat | LoadLong |
    LoadDouble | LoadStr | LoadBuf | LoadType | LoadSlot | LoadDefine

text \<open>Parameters.\<close>

datatype param_op =
    LoadParam0 | LoadParam1 | LoadParam2 | LoadParam3 | LoadParam | LoadParamWide |
    StoreParam | StoreParamWide

text \<open>Locals.\<close>

datatype local_op =
    LoadLocal0 | LoadLocal1 | LoadLocal2 | LoadLocal3 | LoadLocal4 | LoadLocal5 |
    LoadLocal6 | LoadLocal7 | LoadLocal | LoadLocalWide | StoreLocal0 | StoreLocal1 |
    StoreLocal2 | StoreLocal3 | StoreLocal4 | StoreLocal5 | StoreLocal6 | StoreLocal7 |
    StoreLocal | StoreLocalWide

text \<open>Int compare.\<close>

datatype int_cmp_op =
    IntEq | IntNotEq | IntGt | IntGtEq | IntLt | IntLtEq

text \<open>Int math.\<close>

datatype int_math_op =
    IntMul | IntDiv | IntMod | IntAdd | IntSub | IntOr | IntXor | IntAnd | IntNot |
    IntNeg | IntShiftL | IntShiftR | IntInc | IntDec

text \<open>Long compare.\<close>

datatype long_cmp_op =
    LongEq | LongNotEq | LongGt | LongGtEq | LongLt | LongLtEq

text \<open>Long math.\<close>

datatype long_math_op =
    LongMul | LongDiv | LongMod | LongAdd | LongSub | LongOr | LongXor | LongAnd |
    LongNot | LongNeg | LongShiftL | LongShiftR

text \<open>Float compare.\<close>

datatype float_cmp_op =
    FloatEq | FloatNotEq | FloatGt | FloatGtEq | FloatLt | FloatLtEq

text \<open>Float math.\<close>

datatype float_math_op =
    FloatMul | FloatDiv | FloatAdd | FloatSub | FloatNeg

text \<open>Double compare.\<close>

datatype double_cmp_op =
    DoubleEq | DoubleNotEq | DoubleGt | DoubleGtEq | DoubleLt | DoubleLtEq

text \<open>Double math.\<close>

datatype double_math_op =
    DoubleMul | DoubleDiv | DoubleAdd | DoubleSub | DoubleNeg

text \<open>Casts.\<close>

datatype cast_op =
    IntToFloat | IntToLong | IntToDouble | LongToInt | LongToFloat | LongToDouble |
    FloatToInt | FloatToLong | FloatToDouble | DoubleToInt | DoubleToLong | DoubleToFloat

text \<open>Object and general compare.\<close>

datatype gen_cmp_op =
    ObjEq | ObjNotEq | EqZero | NotEqZero

text \<open>Stack manipulation.\<close>

datatype stack_op =
    Pop | Pop2 | Pop3 | Dup | Dup2 | DupDown2 | DupDown3 | Dup2Down2 | Dup2Down3

text \<open>Near jumps.\<close>

datatype near_jump_op =
    Jump | JumpNonZero | JumpZero | Foreach

text \<open>Far jumps.\<close>

datatype far_jump_op =
    JumpFar | JumpFarNonZero | JumpFarZero | ForeachFar

text \<open>Int compare near branch.\<close>

datatype near_int_op =
    JumpIntEq | JumpIntNotEq | JumpIntGt | JumpIntGtEq | JumpIntLt | JumpIntLtEq

text \<open>Int compare far branch.\<close>

datatype far_int_op =
    JumpFarIntEq | JumpFarIntNotEq | JumpFarIntGt | JumpFarIntGtEq | JumpFarIntLt |
    JumpFarIntLtEq

text \<open>Data address and 8-bit storage.\<close>

datatype store8_op =
    LoadDataAddr | Load8BitFieldU1 | Load8BitFieldU2 | Load8BitFieldU4 | Load8BitArray |
    Store8BitFieldU1 | Store8BitFieldU2 | Store8BitFieldU4 | Store8BitArray | Add8BitArray

text \<open>16-bit storage.\<close>

datatype store16_op =
    Load16BitFieldU1 | Load16BitFieldU2 | Load16BitFieldU4 | Load16BitArray |
    Store16BitFieldU1 | Store16BitFieldU2 | Store16BitFieldU4 | Store16BitArray |
    Add16BitArray

text \<open>32-bit storage.\<close>

datatype store32_op =
    Load32BitFieldU1 | Load32BitFieldU2 | Load32BitFieldU4 | Load32BitArray |
    Store32BitFieldU1 | Store32BitFieldU2 | Store32BitFieldU4 | Store32BitArray |
    Add32BitArray

text \<open>64-bit storage.\<close>

datatype store64_op =
    Load64BitFieldU1 | Load64BitFieldU2 | Load64BitFieldU4 | Load64BitArray |
    Store64BitFieldU1 | Store64BitFieldU2 | Store64BitFieldU4 | Store64BitArray |
    Add64BitArray

text \<open>Ref storage.\<close>

datatype ref_op =
    LoadRefFieldU1 | LoadRefFieldU2 | LoadRefFieldU4 | LoadRefArray | StoreRefFieldU1 |
    StoreRefFieldU2 | StoreRefFieldU4 | StoreRefArray | AddRefArray

text \<open>Const storage.\<close>

datatype const_op =
    LoadConstFieldU1 | LoadConstFieldU2 | LoadConstStatic | LoadConstArray

text \<open>Inline storage.\<close>

datatype inline_op =
    LoadInlineFieldU1 | LoadInlineFieldU2 | LoadInlineFieldU4 | LoadParam0InlineFieldU1 |
    LoadParam0InlineFieldU2 | LoadParam0InlineFieldU4 | LoadDataInlineFieldU1 |
    LoadDataInlineFieldU2 | LoadDataInlineFieldU4

text \<open>Method calling.\<close>

datatype call_op =
    Call | CallVirtual | CallNative | CallNativeWide | CallNativeVoid | ReturnVoid |
    ReturnPop | ReturnPopWide | LoadParam0Call

text \<open>Misc.\<close>

datatype misc_op =
    InitArray | InitVirt | InitComp | SizeOf | Assert | Switch | MetaSlot | Cast |
    LoadArrayLiteral | LoadSlotId

datatype opcode =
    Literal literal_op | Param param_op | Local local_op | IntCmp int_cmp_op |
    IntMath int_math_op | LongCmp long_cmp_op | LongMath long_math_op |
    FloatCmp float_cmp_op | FloatMath float_math_op | DoubleCmp double_cmp_op |
    DoubleMath double_math_op | CastOp cast_op | GenCmp gen_cmp_op | StackOp stack_op |
    NearJump near_jump_op | FarJump far_jump_op | NearInt near_int_op | FarInt far_int_op |
    Store8 store8_op | Store16 store16_op | Store32 store32_op | Store64 store64_op |
    RefOp ref_op | ConstOp const_op | InlineOp inline_op | CallOp call_op | Misc misc_op

definition NUM_OPCODES :: nat where
  "NUM_OPCODES = 240"

section \<open>Discriminants and enumerations\<close>

named_theorems opcode_enum \<open>every variant of a section is listed\<close>

definition literal_ops :: "literal_op list" where
  "literal_ops = [
     Nop, LoadIM1, LoadI0, LoadI1, LoadI2, LoadI3, LoadI4, LoadI5, LoadIntU1, LoadIntU2,
     LoadL0, LoadL1, LoadF0, LoadF1, LoadD0, LoadD1, LoadNull, LoadNullBool, LoadNullFloat,
     LoadNullDouble, LoadInt, LoadFloat, LoadLong, LoadDouble, LoadStr, LoadBuf, LoadType,
     LoadSlot, LoadDefine]"

lemma literal_ops_all [opcode_enum]: "x \<in> set literal_ops"
  by (cases x) (simp_all add: literal_ops_def)

primrec literal_op_num :: "literal_op \<Rightarrow> nat" where
  "literal_op_num Nop = 0"
| "literal_op_num LoadIM1 = 1"
| "literal_op_num LoadI0 = 2"
| "literal_op_num LoadI1 = 3"
| "literal_op_num LoadI2 = 4"
| "literal_op_num LoadI3 = 5"
| "literal_op_num LoadI4 = 6"
| "literal_op_num LoadI5 = 7"
| "literal_op_num LoadIntU1 = 8"
| "literal_op_num LoadIntU2 = 9"
| "literal_op_num LoadL0 = 10"
| "literal_op_num LoadL1 = 11"
| "literal_op_num LoadF0 = 12"
| "literal_op_num LoadF1 = 13"
| "literal_op_num LoadD0 = 14"
| "literal_op_num LoadD1 = 15"
| "literal_op_num LoadNull = 16"
| "literal_op_num LoadNullBool = 17"
| "literal_op_num LoadNullFloat = 18"
| "literal_op_num LoadNullDouble = 19"
| "literal_op_num LoadInt = 20"
| "literal_op_num LoadFloat = 21"
| "literal_op_num LoadLong = 22"
| "literal_op_num LoadDouble = 23"
| "literal_op_num LoadStr = 24"
| "literal_op_num LoadBuf = 25"
| "literal_op_num LoadType = 26"
| "literal_op_num LoadSlot = 27"
| "literal_op_num LoadDefine = 28"

definition param_ops :: "param_op list" where
  "param_ops = [
     LoadParam0, LoadParam1, LoadParam2, LoadParam3, LoadParam, LoadParamWide, StoreParam,
     StoreParamWide]"

lemma param_ops_all [opcode_enum]: "x \<in> set param_ops"
  by (cases x) (simp_all add: param_ops_def)

primrec param_op_num :: "param_op \<Rightarrow> nat" where
  "param_op_num LoadParam0 = 29"
| "param_op_num LoadParam1 = 30"
| "param_op_num LoadParam2 = 31"
| "param_op_num LoadParam3 = 32"
| "param_op_num LoadParam = 33"
| "param_op_num LoadParamWide = 34"
| "param_op_num StoreParam = 35"
| "param_op_num StoreParamWide = 36"

definition local_ops :: "local_op list" where
  "local_ops = [
     LoadLocal0, LoadLocal1, LoadLocal2, LoadLocal3, LoadLocal4, LoadLocal5, LoadLocal6,
     LoadLocal7, LoadLocal, LoadLocalWide, StoreLocal0, StoreLocal1, StoreLocal2,
     StoreLocal3, StoreLocal4, StoreLocal5, StoreLocal6, StoreLocal7, StoreLocal,
     StoreLocalWide]"

lemma local_ops_all [opcode_enum]: "x \<in> set local_ops"
  by (cases x) (simp_all add: local_ops_def)

primrec local_op_num :: "local_op \<Rightarrow> nat" where
  "local_op_num LoadLocal0 = 37"
| "local_op_num LoadLocal1 = 38"
| "local_op_num LoadLocal2 = 39"
| "local_op_num LoadLocal3 = 40"
| "local_op_num LoadLocal4 = 41"
| "local_op_num LoadLocal5 = 42"
| "local_op_num LoadLocal6 = 43"
| "local_op_num LoadLocal7 = 44"
| "local_op_num LoadLocal = 45"
| "local_op_num LoadLocalWide = 46"
| "local_op_num StoreLocal0 = 47"
| "local_op_num StoreLocal1 = 48"
| "local_op_num StoreLocal2 = 49"
| "local_op_num StoreLocal3 = 50"
| "local_op_num StoreLocal4 = 51"
| "local_op_num StoreLocal5 = 52"
| "local_op_num StoreLocal6 = 53"
| "local_op_num StoreLocal7 = 54"
| "local_op_num StoreLocal = 55"
| "local_op_num StoreLocalWide = 56"

definition int_cmp_ops :: "int_cmp_op list" where
  "int_cmp_ops = [
     IntEq, IntNotEq, IntGt, IntGtEq, IntLt, IntLtEq]"

lemma int_cmp_ops_all [opcode_enum]: "x \<in> set int_cmp_ops"
  by (cases x) (simp_all add: int_cmp_ops_def)

primrec int_cmp_op_num :: "int_cmp_op \<Rightarrow> nat" where
  "int_cmp_op_num IntEq = 57"
| "int_cmp_op_num IntNotEq = 58"
| "int_cmp_op_num IntGt = 59"
| "int_cmp_op_num IntGtEq = 60"
| "int_cmp_op_num IntLt = 61"
| "int_cmp_op_num IntLtEq = 62"

definition int_math_ops :: "int_math_op list" where
  "int_math_ops = [
     IntMul, IntDiv, IntMod, IntAdd, IntSub, IntOr, IntXor, IntAnd, IntNot, IntNeg,
     IntShiftL, IntShiftR, IntInc, IntDec]"

lemma int_math_ops_all [opcode_enum]: "x \<in> set int_math_ops"
  by (cases x) (simp_all add: int_math_ops_def)

primrec int_math_op_num :: "int_math_op \<Rightarrow> nat" where
  "int_math_op_num IntMul = 63"
| "int_math_op_num IntDiv = 64"
| "int_math_op_num IntMod = 65"
| "int_math_op_num IntAdd = 66"
| "int_math_op_num IntSub = 67"
| "int_math_op_num IntOr = 68"
| "int_math_op_num IntXor = 69"
| "int_math_op_num IntAnd = 70"
| "int_math_op_num IntNot = 71"
| "int_math_op_num IntNeg = 72"
| "int_math_op_num IntShiftL = 73"
| "int_math_op_num IntShiftR = 74"
| "int_math_op_num IntInc = 75"
| "int_math_op_num IntDec = 76"

definition long_cmp_ops :: "long_cmp_op list" where
  "long_cmp_ops = [
     LongEq, LongNotEq, LongGt, LongGtEq, LongLt, LongLtEq]"

lemma long_cmp_ops_all [opcode_enum]: "x \<in> set long_cmp_ops"
  by (cases x) (simp_all add: long_cmp_ops_def)

primrec long_cmp_op_num :: "long_cmp_op \<Rightarrow> nat" where
  "long_cmp_op_num LongEq = 77"
| "long_cmp_op_num LongNotEq = 78"
| "long_cmp_op_num LongGt = 79"
| "long_cmp_op_num LongGtEq = 80"
| "long_cmp_op_num LongLt = 81"
| "long_cmp_op_num LongLtEq = 82"

definition long_math_ops :: "long_math_op list" where
  "long_math_ops = [
     LongMul, LongDiv, LongMod, LongAdd, LongSub, LongOr, LongXor, LongAnd, LongNot,
     LongNeg, LongShiftL, LongShiftR]"

lemma long_math_ops_all [opcode_enum]: "x \<in> set long_math_ops"
  by (cases x) (simp_all add: long_math_ops_def)

primrec long_math_op_num :: "long_math_op \<Rightarrow> nat" where
  "long_math_op_num LongMul = 83"
| "long_math_op_num LongDiv = 84"
| "long_math_op_num LongMod = 85"
| "long_math_op_num LongAdd = 86"
| "long_math_op_num LongSub = 87"
| "long_math_op_num LongOr = 88"
| "long_math_op_num LongXor = 89"
| "long_math_op_num LongAnd = 90"
| "long_math_op_num LongNot = 91"
| "long_math_op_num LongNeg = 92"
| "long_math_op_num LongShiftL = 93"
| "long_math_op_num LongShiftR = 94"

definition float_cmp_ops :: "float_cmp_op list" where
  "float_cmp_ops = [
     FloatEq, FloatNotEq, FloatGt, FloatGtEq, FloatLt, FloatLtEq]"

lemma float_cmp_ops_all [opcode_enum]: "x \<in> set float_cmp_ops"
  by (cases x) (simp_all add: float_cmp_ops_def)

primrec float_cmp_op_num :: "float_cmp_op \<Rightarrow> nat" where
  "float_cmp_op_num FloatEq = 95"
| "float_cmp_op_num FloatNotEq = 96"
| "float_cmp_op_num FloatGt = 97"
| "float_cmp_op_num FloatGtEq = 98"
| "float_cmp_op_num FloatLt = 99"
| "float_cmp_op_num FloatLtEq = 100"

definition float_math_ops :: "float_math_op list" where
  "float_math_ops = [
     FloatMul, FloatDiv, FloatAdd, FloatSub, FloatNeg]"

lemma float_math_ops_all [opcode_enum]: "x \<in> set float_math_ops"
  by (cases x) (simp_all add: float_math_ops_def)

primrec float_math_op_num :: "float_math_op \<Rightarrow> nat" where
  "float_math_op_num FloatMul = 101"
| "float_math_op_num FloatDiv = 102"
| "float_math_op_num FloatAdd = 103"
| "float_math_op_num FloatSub = 104"
| "float_math_op_num FloatNeg = 105"

definition double_cmp_ops :: "double_cmp_op list" where
  "double_cmp_ops = [
     DoubleEq, DoubleNotEq, DoubleGt, DoubleGtEq, DoubleLt, DoubleLtEq]"

lemma double_cmp_ops_all [opcode_enum]: "x \<in> set double_cmp_ops"
  by (cases x) (simp_all add: double_cmp_ops_def)

primrec double_cmp_op_num :: "double_cmp_op \<Rightarrow> nat" where
  "double_cmp_op_num DoubleEq = 106"
| "double_cmp_op_num DoubleNotEq = 107"
| "double_cmp_op_num DoubleGt = 108"
| "double_cmp_op_num DoubleGtEq = 109"
| "double_cmp_op_num DoubleLt = 110"
| "double_cmp_op_num DoubleLtEq = 111"

definition double_math_ops :: "double_math_op list" where
  "double_math_ops = [
     DoubleMul, DoubleDiv, DoubleAdd, DoubleSub, DoubleNeg]"

lemma double_math_ops_all [opcode_enum]: "x \<in> set double_math_ops"
  by (cases x) (simp_all add: double_math_ops_def)

primrec double_math_op_num :: "double_math_op \<Rightarrow> nat" where
  "double_math_op_num DoubleMul = 112"
| "double_math_op_num DoubleDiv = 113"
| "double_math_op_num DoubleAdd = 114"
| "double_math_op_num DoubleSub = 115"
| "double_math_op_num DoubleNeg = 116"

definition cast_ops :: "cast_op list" where
  "cast_ops = [
     IntToFloat, IntToLong, IntToDouble, LongToInt, LongToFloat, LongToDouble, FloatToInt,
     FloatToLong, FloatToDouble, DoubleToInt, DoubleToLong, DoubleToFloat]"

lemma cast_ops_all [opcode_enum]: "x \<in> set cast_ops"
  by (cases x) (simp_all add: cast_ops_def)

primrec cast_op_num :: "cast_op \<Rightarrow> nat" where
  "cast_op_num IntToFloat = 117"
| "cast_op_num IntToLong = 118"
| "cast_op_num IntToDouble = 119"
| "cast_op_num LongToInt = 120"
| "cast_op_num LongToFloat = 121"
| "cast_op_num LongToDouble = 122"
| "cast_op_num FloatToInt = 123"
| "cast_op_num FloatToLong = 124"
| "cast_op_num FloatToDouble = 125"
| "cast_op_num DoubleToInt = 126"
| "cast_op_num DoubleToLong = 127"
| "cast_op_num DoubleToFloat = 128"

definition gen_cmp_ops :: "gen_cmp_op list" where
  "gen_cmp_ops = [
     ObjEq, ObjNotEq, EqZero, NotEqZero]"

lemma gen_cmp_ops_all [opcode_enum]: "x \<in> set gen_cmp_ops"
  by (cases x) (simp_all add: gen_cmp_ops_def)

primrec gen_cmp_op_num :: "gen_cmp_op \<Rightarrow> nat" where
  "gen_cmp_op_num ObjEq = 129"
| "gen_cmp_op_num ObjNotEq = 130"
| "gen_cmp_op_num EqZero = 131"
| "gen_cmp_op_num NotEqZero = 132"

definition stack_ops :: "stack_op list" where
  "stack_ops = [
     Pop, Pop2, Pop3, Dup, Dup2, DupDown2, DupDown3, Dup2Down2, Dup2Down3]"

lemma stack_ops_all [opcode_enum]: "x \<in> set stack_ops"
  by (cases x) (simp_all add: stack_ops_def)

primrec stack_op_num :: "stack_op \<Rightarrow> nat" where
  "stack_op_num Pop = 133"
| "stack_op_num Pop2 = 134"
| "stack_op_num Pop3 = 135"
| "stack_op_num Dup = 136"
| "stack_op_num Dup2 = 137"
| "stack_op_num DupDown2 = 138"
| "stack_op_num DupDown3 = 139"
| "stack_op_num Dup2Down2 = 140"
| "stack_op_num Dup2Down3 = 141"

definition near_jump_ops :: "near_jump_op list" where
  "near_jump_ops = [
     Jump, JumpNonZero, JumpZero, Foreach]"

lemma near_jump_ops_all [opcode_enum]: "x \<in> set near_jump_ops"
  by (cases x) (simp_all add: near_jump_ops_def)

primrec near_jump_op_num :: "near_jump_op \<Rightarrow> nat" where
  "near_jump_op_num Jump = 142"
| "near_jump_op_num JumpNonZero = 143"
| "near_jump_op_num JumpZero = 144"
| "near_jump_op_num Foreach = 145"

definition far_jump_ops :: "far_jump_op list" where
  "far_jump_ops = [
     JumpFar, JumpFarNonZero, JumpFarZero, ForeachFar]"

lemma far_jump_ops_all [opcode_enum]: "x \<in> set far_jump_ops"
  by (cases x) (simp_all add: far_jump_ops_def)

primrec far_jump_op_num :: "far_jump_op \<Rightarrow> nat" where
  "far_jump_op_num JumpFar = 146"
| "far_jump_op_num JumpFarNonZero = 147"
| "far_jump_op_num JumpFarZero = 148"
| "far_jump_op_num ForeachFar = 149"

definition near_int_ops :: "near_int_op list" where
  "near_int_ops = [
     JumpIntEq, JumpIntNotEq, JumpIntGt, JumpIntGtEq, JumpIntLt, JumpIntLtEq]"

lemma near_int_ops_all [opcode_enum]: "x \<in> set near_int_ops"
  by (cases x) (simp_all add: near_int_ops_def)

primrec near_int_op_num :: "near_int_op \<Rightarrow> nat" where
  "near_int_op_num JumpIntEq = 150"
| "near_int_op_num JumpIntNotEq = 151"
| "near_int_op_num JumpIntGt = 152"
| "near_int_op_num JumpIntGtEq = 153"
| "near_int_op_num JumpIntLt = 154"
| "near_int_op_num JumpIntLtEq = 155"

definition far_int_ops :: "far_int_op list" where
  "far_int_ops = [
     JumpFarIntEq, JumpFarIntNotEq, JumpFarIntGt, JumpFarIntGtEq, JumpFarIntLt,
     JumpFarIntLtEq]"

lemma far_int_ops_all [opcode_enum]: "x \<in> set far_int_ops"
  by (cases x) (simp_all add: far_int_ops_def)

primrec far_int_op_num :: "far_int_op \<Rightarrow> nat" where
  "far_int_op_num JumpFarIntEq = 156"
| "far_int_op_num JumpFarIntNotEq = 157"
| "far_int_op_num JumpFarIntGt = 158"
| "far_int_op_num JumpFarIntGtEq = 159"
| "far_int_op_num JumpFarIntLt = 160"
| "far_int_op_num JumpFarIntLtEq = 161"

definition store8_ops :: "store8_op list" where
  "store8_ops = [
     LoadDataAddr, Load8BitFieldU1, Load8BitFieldU2, Load8BitFieldU4, Load8BitArray,
     Store8BitFieldU1, Store8BitFieldU2, Store8BitFieldU4, Store8BitArray, Add8BitArray]"

lemma store8_ops_all [opcode_enum]: "x \<in> set store8_ops"
  by (cases x) (simp_all add: store8_ops_def)

primrec store8_op_num :: "store8_op \<Rightarrow> nat" where
  "store8_op_num LoadDataAddr = 162"
| "store8_op_num Load8BitFieldU1 = 163"
| "store8_op_num Load8BitFieldU2 = 164"
| "store8_op_num Load8BitFieldU4 = 165"
| "store8_op_num Load8BitArray = 166"
| "store8_op_num Store8BitFieldU1 = 167"
| "store8_op_num Store8BitFieldU2 = 168"
| "store8_op_num Store8BitFieldU4 = 169"
| "store8_op_num Store8BitArray = 170"
| "store8_op_num Add8BitArray = 171"

definition store16_ops :: "store16_op list" where
  "store16_ops = [
     Load16BitFieldU1, Load16BitFieldU2, Load16BitFieldU4, Load16BitArray,
     Store16BitFieldU1, Store16BitFieldU2, Store16BitFieldU4, Store16BitArray, Add16BitArray]"

lemma store16_ops_all [opcode_enum]: "x \<in> set store16_ops"
  by (cases x) (simp_all add: store16_ops_def)

primrec store16_op_num :: "store16_op \<Rightarrow> nat" where
  "store16_op_num Load16BitFieldU1 = 172"
| "store16_op_num Load16BitFieldU2 = 173"
| "store16_op_num Load16BitFieldU4 = 174"
| "store16_op_num Load16BitArray = 175"
| "store16_op_num Store16BitFieldU1 = 176"
| "store16_op_num Store16BitFieldU2 = 177"
| "store16_op_num Store16BitFieldU4 = 178"
| "store16_op_num Store16BitArray = 179"
| "store16_op_num Add16BitArray = 180"

definition store32_ops :: "store32_op list" where
  "store32_ops = [
     Load32BitFieldU1, Load32BitFieldU2, Load32BitFieldU4, Load32BitArray,
     Store32BitFieldU1, Store32BitFieldU2, Store32BitFieldU4, Store32BitArray, Add32BitArray]"

lemma store32_ops_all [opcode_enum]: "x \<in> set store32_ops"
  by (cases x) (simp_all add: store32_ops_def)

primrec store32_op_num :: "store32_op \<Rightarrow> nat" where
  "store32_op_num Load32BitFieldU1 = 181"
| "store32_op_num Load32BitFieldU2 = 182"
| "store32_op_num Load32BitFieldU4 = 183"
| "store32_op_num Load32BitArray = 184"
| "store32_op_num Store32BitFieldU1 = 185"
| "store32_op_num Store32BitFieldU2 = 186"
| "store32_op_num Store32BitFieldU4 = 187"
| "store32_op_num Store32BitArray = 188"
| "store32_op_num Add32BitArray = 189"

definition store64_ops :: "store64_op list" where
  "store64_ops = [
     Load64BitFieldU1, Load64BitFieldU2, Load64BitFieldU4, Load64BitArray,
     Store64BitFieldU1, Store64BitFieldU2, Store64BitFieldU4, Store64BitArray, Add64BitArray]"

lemma store64_ops_all [opcode_enum]: "x \<in> set store64_ops"
  by (cases x) (simp_all add: store64_ops_def)

primrec store64_op_num :: "store64_op \<Rightarrow> nat" where
  "store64_op_num Load64BitFieldU1 = 190"
| "store64_op_num Load64BitFieldU2 = 191"
| "store64_op_num Load64BitFieldU4 = 192"
| "store64_op_num Load64BitArray = 193"
| "store64_op_num Store64BitFieldU1 = 194"
| "store64_op_num Store64BitFieldU2 = 195"
| "store64_op_num Store64BitFieldU4 = 196"
| "store64_op_num Store64BitArray = 197"
| "store64_op_num Add64BitArray = 198"

definition ref_ops :: "ref_op list" where
  "ref_ops = [
     LoadRefFieldU1, LoadRefFieldU2, LoadRefFieldU4, LoadRefArray, StoreRefFieldU1,
     StoreRefFieldU2, StoreRefFieldU4, StoreRefArray, AddRefArray]"

lemma ref_ops_all [opcode_enum]: "x \<in> set ref_ops"
  by (cases x) (simp_all add: ref_ops_def)

primrec ref_op_num :: "ref_op \<Rightarrow> nat" where
  "ref_op_num LoadRefFieldU1 = 199"
| "ref_op_num LoadRefFieldU2 = 200"
| "ref_op_num LoadRefFieldU4 = 201"
| "ref_op_num LoadRefArray = 202"
| "ref_op_num StoreRefFieldU1 = 203"
| "ref_op_num StoreRefFieldU2 = 204"
| "ref_op_num StoreRefFieldU4 = 205"
| "ref_op_num StoreRefArray = 206"
| "ref_op_num AddRefArray = 207"

definition const_ops :: "const_op list" where
  "const_ops = [
     LoadConstFieldU1, LoadConstFieldU2, LoadConstStatic, LoadConstArray]"

lemma const_ops_all [opcode_enum]: "x \<in> set const_ops"
  by (cases x) (simp_all add: const_ops_def)

primrec const_op_num :: "const_op \<Rightarrow> nat" where
  "const_op_num LoadConstFieldU1 = 208"
| "const_op_num LoadConstFieldU2 = 209"
| "const_op_num LoadConstStatic = 210"
| "const_op_num LoadConstArray = 211"

definition inline_ops :: "inline_op list" where
  "inline_ops = [
     LoadInlineFieldU1, LoadInlineFieldU2, LoadInlineFieldU4, LoadParam0InlineFieldU1,
     LoadParam0InlineFieldU2, LoadParam0InlineFieldU4, LoadDataInlineFieldU1,
     LoadDataInlineFieldU2, LoadDataInlineFieldU4]"

lemma inline_ops_all [opcode_enum]: "x \<in> set inline_ops"
  by (cases x) (simp_all add: inline_ops_def)

primrec inline_op_num :: "inline_op \<Rightarrow> nat" where
  "inline_op_num LoadInlineFieldU1 = 212"
| "inline_op_num LoadInlineFieldU2 = 213"
| "inline_op_num LoadInlineFieldU4 = 214"
| "inline_op_num LoadParam0InlineFieldU1 = 215"
| "inline_op_num LoadParam0InlineFieldU2 = 216"
| "inline_op_num LoadParam0InlineFieldU4 = 217"
| "inline_op_num LoadDataInlineFieldU1 = 218"
| "inline_op_num LoadDataInlineFieldU2 = 219"
| "inline_op_num LoadDataInlineFieldU4 = 220"

definition call_ops :: "call_op list" where
  "call_ops = [
     Call, CallVirtual, CallNative, CallNativeWide, CallNativeVoid, ReturnVoid, ReturnPop,
     ReturnPopWide, LoadParam0Call]"

lemma call_ops_all [opcode_enum]: "x \<in> set call_ops"
  by (cases x) (simp_all add: call_ops_def)

primrec call_op_num :: "call_op \<Rightarrow> nat" where
  "call_op_num Call = 221"
| "call_op_num CallVirtual = 222"
| "call_op_num CallNative = 223"
| "call_op_num CallNativeWide = 224"
| "call_op_num CallNativeVoid = 225"
| "call_op_num ReturnVoid = 226"
| "call_op_num ReturnPop = 227"
| "call_op_num ReturnPopWide = 228"
| "call_op_num LoadParam0Call = 229"

definition misc_ops :: "misc_op list" where
  "misc_ops = [
     InitArray, InitVirt, InitComp, SizeOf, Assert, Switch, MetaSlot, Cast,
     LoadArrayLiteral, LoadSlotId]"

lemma misc_ops_all [opcode_enum]: "x \<in> set misc_ops"
  by (cases x) (simp_all add: misc_ops_def)

primrec misc_op_num :: "misc_op \<Rightarrow> nat" where
  "misc_op_num InitArray = 230"
| "misc_op_num InitVirt = 231"
| "misc_op_num InitComp = 232"
| "misc_op_num SizeOf = 233"
| "misc_op_num Assert = 234"
| "misc_op_num Switch = 235"
| "misc_op_num MetaSlot = 236"
| "misc_op_num Cast = 237"
| "misc_op_num LoadArrayLiteral = 238"
| "misc_op_num LoadSlotId = 239"

primrec discriminant :: "opcode \<Rightarrow> nat" where
  "discriminant (Literal x) = literal_op_num x"
| "discriminant (Param x) = param_op_num x"
| "discriminant (Local x) = local_op_num x"
| "discriminant (IntCmp x) = int_cmp_op_num x"
| "discriminant (IntMath x) = int_math_op_num x"
| "discriminant (LongCmp x) = long_cmp_op_num x"
| "discriminant (LongMath x) = long_math_op_num x"
| "discriminant (FloatCmp x) = float_cmp_op_num x"
| "discriminant (FloatMath x) = float_math_op_num x"
| "discriminant (DoubleCmp x) = double_cmp_op_num x"
| "discriminant (DoubleMath x) = double_math_op_num x"
| "discriminant (CastOp x) = cast_op_num x"
| "discriminant (GenCmp x) = gen_cmp_op_num x"
| "discriminant (StackOp x) = stack_op_num x"
| "discriminant (NearJump x) = near_jump_op_num x"
| "discriminant (FarJump x) = far_jump_op_num x"
| "discriminant (NearInt x) = near_int_op_num x"
| "discriminant (FarInt x) = far_int_op_num x"
| "discriminant (Store8 x) = store8_op_num x"
| "discriminant (Store16 x) = store16_op_num x"
| "discriminant (Store32 x) = store32_op_num x"
| "discriminant (Store64 x) = store64_op_num x"
| "discriminant (RefOp x) = ref_op_num x"
| "discriminant (ConstOp x) = const_op_num x"
| "discriminant (InlineOp x) = inline_op_num x"
| "discriminant (CallOp x) = call_op_num x"
| "discriminant (Misc x) = misc_op_num x"

text \<open>\<open>op as u8\<close>.\<close>

definition opcode_byte :: "opcode \<Rightarrow> u8" where
  "opcode_byte op = of_nat (discriminant op)"

text \<open>The variants in the order of the enum, so that position \<open>n\<close> has discriminant \<open>n\<close>.\<close>

definition all_opcodes :: "opcode list" where
  "all_opcodes =
     map Literal literal_ops @
     map Param param_ops @
     map Local local_ops @
     map IntCmp int_cmp_ops @
     map IntMath int_math_ops @
     map LongCmp long_cmp_ops @
     map LongMath long_math_ops @
     map FloatCmp float_cmp_ops @
     map FloatMath float_math_ops @
     map DoubleCmp double_cmp_ops @
     map DoubleMath double_math_ops @
     map CastOp cast_ops @
     map GenCmp gen_cmp_ops @
     map StackOp stack_ops @
     map NearJump near_jump_ops @
     map FarJump far_jump_ops @
     map NearInt near_int_ops @
     map FarInt far_int_ops @
     map Store8 store8_ops @
     map Store16 store16_ops @
     map Store32 store32_ops @
     map Store64 store64_ops @
     map RefOp ref_ops @
     map ConstOp const_ops @
     map InlineOp inline_ops @
     map CallOp call_ops @
     map Misc misc_ops"

text \<open>\<open>TryFrom<u8>\<close>: the byte is reinterpreted as the variant with that discriminant.\<close>

definition try_from :: "u8 \<Rightarrow> (u8, opcode) outcome" where
  "try_from value =
     (if unat value \<ge> NUM_OPCODES then Err value else Ok (all_opcodes ! unat value))"

section \<open>Metadata\<close>

definition is_wide_return :: "opcode \<Rightarrow> bool" where
  "is_wide_return op \<longleftrightarrow> op = CallOp ReturnPopWide \<or> op = CallOp CallNativeWide"

definition is_branch :: "opcode \<Rightarrow> bool" where
  "is_branch op \<longleftrightarrow> op \<in> set [
     NearJump Jump, NearJump JumpNonZero, NearJump JumpZero, NearJump Foreach,
     FarJump JumpFar, FarJump JumpFarNonZero, FarJump JumpFarZero, FarJump ForeachFar,
     NearInt JumpIntEq, NearInt JumpIntNotEq, NearInt JumpIntGt, NearInt JumpIntGtEq,
     NearInt JumpIntLt, NearInt JumpIntLtEq, FarInt JumpFarIntEq, FarInt JumpFarIntNotEq,
     FarInt JumpFarIntGt, FarInt JumpFarIntGtEq, FarInt JumpFarIntLt, FarInt JumpFarIntLtEq]"

fun operand_bytes :: "opcode \<Rightarrow> nat" where
  "operand_bytes (Literal x) =
     (case x of LoadIntU1 \<Rightarrow> 1 | LoadIntU2 \<Rightarrow> 2
        | LoadInt \<Rightarrow> 2 | LoadFloat \<Rightarrow> 2
        | LoadLong \<Rightarrow> 2 | LoadDouble \<Rightarrow> 2
        | LoadStr \<Rightarrow> 2 | LoadBuf \<Rightarrow> 2
        | LoadType \<Rightarrow> 2 | LoadSlot \<Rightarrow> 2 | _ \<Rightarrow> 0)"
| "operand_bytes (Param x) =
     (case x of LoadParam \<Rightarrow> 1 | LoadParamWide \<Rightarrow> 1
        | StoreParam \<Rightarrow> 1 | StoreParamWide \<Rightarrow> 1
        | _ \<Rightarrow> 0)"
| "operand_bytes (Local x) =
     (case x of LoadLocal \<Rightarrow> 1 | LoadLocalWide \<Rightarrow> 1
        | StoreLocal \<Rightarrow> 1 | StoreLocalWide \<Rightarrow> 1
        | _ \<Rightarrow> 0)"
| "operand_bytes (IntCmp _) = 0"
| "operand_bytes (IntMath _) = 0"
| "operand_bytes (LongCmp _) = 0"
| "operand_bytes (LongMath _) = 0"
| "operand_bytes (FloatCmp _) = 0"
| "operand_bytes (FloatMath _) = 0"
| "operand_bytes (DoubleCmp _) = 0"
| "operand_bytes (DoubleMath _) = 0"
| "operand_bytes (CastOp _) = 0"
| "operand_bytes (GenCmp _) = 0"
| "operand_bytes (StackOp _) = 0"
| "operand_bytes (NearJump _) = 1"
| "operand_bytes (FarJump _) = 2"
| "operand_bytes (NearInt _) = 1"
| "operand_bytes (FarInt _) = 2"
| "operand_bytes (Store8 x) =
     (case x of Load8BitFieldU1 \<Rightarrow> 1 | Store8BitFieldU1 \<Rightarrow> 1
        | Load8BitFieldU2 \<Rightarrow> 2 | Store8BitFieldU2 \<Rightarrow> 2
        | Load8BitFieldU4 \<Rightarrow> 4 | Store8BitFieldU4 \<Rightarrow> 4
        | _ \<Rightarrow> 0)"
| "operand_bytes (Store16 x) =
     (case x of Load16BitFieldU1 \<Rightarrow> 1 | Store16BitFieldU1 \<Rightarrow> 1
        | Load16BitFieldU2 \<Rightarrow> 2 | Store16BitFieldU2 \<Rightarrow> 2
        | Load16BitFieldU4 \<Rightarrow> 4 | Store16BitFieldU4 \<Rightarrow> 4
        | _ \<Rightarrow> 0)"
| "operand_bytes (Store32 x) =
     (case x of Load32BitFieldU1 \<Rightarrow> 1 | Store32BitFieldU1 \<Rightarrow> 1
        | Load32BitFieldU2 \<Rightarrow> 2 | Store32BitFieldU2 \<Rightarrow> 2
        | Load32BitFieldU4 \<Rightarrow> 4 | Store32BitFieldU4 \<Rightarrow> 4
        | _ \<Rightarrow> 0)"
| "operand_bytes (Store64 x) =
     (case x of Load64BitFieldU1 \<Rightarrow> 1 | Store64BitFieldU1 \<Rightarrow> 1
        | Load64BitFieldU2 \<Rightarrow> 2 | Store64BitFieldU2 \<Rightarrow> 2
        | Load64BitFieldU4 \<Rightarrow> 4 | Store64BitFieldU4 \<Rightarrow> 4
        | _ \<Rightarrow> 0)"
| "operand_bytes (RefOp x) =
     (case x of LoadRefFieldU1 \<Rightarrow> 1 | StoreRefFieldU1 \<Rightarrow> 1
        | LoadRefFieldU2 \<Rightarrow> 2 | StoreRefFieldU2 \<Rightarrow> 2
        | LoadRefFieldU4 \<Rightarrow> 4 | StoreRefFieldU4 \<Rightarrow> 4
        | _ \<Rightarrow> 0)"
| "operand_bytes (ConstOp x) =
     (case x of LoadConstArray \<Rightarrow> 0 | LoadConstFieldU1 \<Rightarrow> 1
        | _ \<Rightarrow> 2)"
| "operand_bytes (InlineOp x) =
     (case x of LoadInlineFieldU2 \<Rightarrow> 2
        | LoadParam0InlineFieldU2 \<Rightarrow> 2
        | LoadDataInlineFieldU2 \<Rightarrow> 2 | LoadInlineFieldU4 \<Rightarrow> 4
        | LoadParam0InlineFieldU4 \<Rightarrow> 4
        | LoadDataInlineFieldU4 \<Rightarrow> 4 | _ \<Rightarrow> 1)"
| "operand_bytes (CallOp x) =
     (case x of ReturnVoid \<Rightarrow> 0 | ReturnPop \<Rightarrow> 0
        | ReturnPopWide \<Rightarrow> 0 | Call \<Rightarrow> 2
        | LoadParam0Call \<Rightarrow> 2 | _ \<Rightarrow> 3)"
| "operand_bytes (Misc x) =
     (case x of InitArray \<Rightarrow> 0 | SizeOf \<Rightarrow> 0 | Cast \<Rightarrow> 0
        | LoadArrayLiteral \<Rightarrow> 0 | _ \<Rightarrow> 2)"

section \<open>The byte encoding is a bijection\<close>

lemmas opcode_lists = all_opcodes_def
  literal_ops_def param_ops_def local_ops_def int_cmp_ops_def int_math_ops_def
  long_cmp_ops_def long_math_ops_def float_cmp_ops_def float_math_ops_def
  double_cmp_ops_def double_math_ops_def cast_ops_def gen_cmp_ops_def stack_ops_def
  near_jump_ops_def far_jump_ops_def near_int_ops_def far_int_ops_def store8_ops_def
  store16_ops_def store32_ops_def store64_ops_def ref_ops_def const_ops_def inline_ops_def
  call_ops_def misc_ops_def

lemma length_all_opcodes: "length all_opcodes = NUM_OPCODES"
  by (simp add: opcode_lists NUM_OPCODES_def)

lemma map_discriminant_all: "map discriminant all_opcodes = [0..<NUM_OPCODES]"
  by (simp add: opcode_lists NUM_OPCODES_def upt_rec)

lemma all_opcodes_exhaustive: "op \<in> set all_opcodes"
  by (cases op) (simp_all add: all_opcodes_def opcode_enum)

lemma discriminant_nth: "n < NUM_OPCODES \<Longrightarrow> discriminant (all_opcodes ! n) = n"
  using map_discriminant_all length_all_opcodes by (metis add_0 nth_map nth_upt)

lemma nth_discriminant: "discriminant op < NUM_OPCODES \<and> all_opcodes ! discriminant op = op"
  using all_opcodes_exhaustive [of op] discriminant_nth length_all_opcodes
  by (metis in_set_conv_nth)

text \<open>A byte converts to exactly the opcode whose discriminant it is.\<close>

lemma try_from_iff: "try_from b = Ok op \<longleftrightarrow> unat b = discriminant op"
  using nth_discriminant [of op] discriminant_nth [of "unat b"] by (auto simp: try_from_def)

section \<open>Properties\<close>

text \<open>
  Encoding: the conversion from a byte inverts the encoding of every opcode, and it fails
  exactly for the sixteen bytes from 240 on, with the byte as the error.
\<close>

theorem opcode_roundtrip:
  "try_from (opcode_byte op) = Ok op \<and> (try_from b = Ok op \<longleftrightarrow> b = opcode_byte op) \<and>
   (try_from b = Err e \<longleftrightarrow> e = b \<and> 240 \<le> unat b)"
proof -
  have enc: "unat (opcode_byte op) = discriminant op"
    using nth_discriminant [of op] by (simp add: opcode_byte_def NUM_OPCODES_def unat_of_nat)
  then have "b = opcode_byte op \<longleftrightarrow> unat b = discriminant op" by (auto simp: word_unat_eq_iff)
  with enc show ?thesis by (auto simp: try_from_iff) (auto simp: try_from_def NUM_OPCODES_def split: if_splits)
qed

end
