(* ===== verification/Native_Table.thy ===== *)
theory Native_Table
  imports Vm_Base
begin

text \<open>
  The native method dispatch table of \<open>native_table.rs\<close>: registration, lookup and dispatch. The
  native methods are arguments of the model: functions of their context, their parameters and
  the state \<open>'w\<close> of everything outside the machine (files, sockets, string handles), which they
  may change. The interface is the locale \<open>dispatch_table\<close>.
\<close>

section \<open>State\<close>

record native_context =
  ctx_memory :: "u8 list"
  ctx_code :: "u8 list option"
  ctx_block_size :: u8

definition context_new :: "u8 list \<Rightarrow> native_context" where
  "context_new mem = \<lparr>ctx_memory = mem, ctx_code = None, ctx_block_size = 4\<rparr>"

definition context_with_code :: "u8 list \<Rightarrow> u8 list \<Rightarrow> u8 \<Rightarrow> native_context" where
  "context_with_code mem cd bs = \<lparr>ctx_memory = mem, ctx_code = Some cd, ctx_block_size = bs\<rparr>"

type_synonym ('w, 'a) native_fn =
  "native_context \<Rightarrow> i32 list \<Rightarrow> 'w \<Rightarrow> 'a vm_result \<times> native_context \<times> 'w"

datatype 'w native_entry =
    Normal "('w, i32) native_fn"
  | Wide "('w, i64) native_fn"
  | Stub

record 'w native_table =
  kits :: "'w native_entry list list"
  kit_names :: "string option list"

definition table_new :: "'w native_table" where
  "table_new = \<lparr>kits = [], kit_names = []\<rparr>"

section \<open>Registration\<close>

text \<open>\<open>Vec::resize\<close> to a larger length.\<close>

definition grow :: "'a list \<Rightarrow> nat \<Rightarrow> 'a \<Rightarrow> 'a list" where
  "grow xs n x = xs @ replicate (n - length xs) x"

definition ensure_slot :: "'w native_table \<Rightarrow> u8 \<Rightarrow> u16 \<Rightarrow> 'w native_table" where
  "ensure_slot t kit_id method_id =
     (let kid = unat kit_id; mid = unat method_id;
          ks = (if length (kits t) \<le> kid then grow (kits t) (kid + 1) [] else kits t);
          methods = ks ! kid;
          methods' = (if length methods \<le> mid then grow methods (mid + 1) Stub else methods)
      in t\<lparr>kits := ks[kid := methods']\<rparr>)"

definition put_entry :: "'w native_table \<Rightarrow> u8 \<Rightarrow> u16 \<Rightarrow> 'w native_entry \<Rightarrow> 'w native_table" where
  "put_entry t kit_id method_id e =
     (let t' = ensure_slot t kit_id method_id
      in t'\<lparr>kits := (kits t')[unat kit_id := (kits t' ! unat kit_id)[unat method_id := e]]\<rparr>)"

definition register :: "'w native_table \<Rightarrow> u8 \<Rightarrow> u16 \<Rightarrow> ('w, i32) native_fn \<Rightarrow> 'w native_table" where
  "register t kit_id method_id f = put_entry t kit_id method_id (Normal f)"

definition register_wide ::
  "'w native_table \<Rightarrow> u8 \<Rightarrow> u16 \<Rightarrow> ('w, i64) native_fn \<Rightarrow> 'w native_table" where
  "register_wide t kit_id method_id f = put_entry t kit_id method_id (Wide f)"

definition register_stub :: "'w native_table \<Rightarrow> u8 \<Rightarrow> u16 \<Rightarrow> 'w native_table" where
  "register_stub t kit_id method_id = put_entry t kit_id method_id Stub"

definition set_kit_name :: "'w native_table \<Rightarrow> u8 \<Rightarrow> string \<Rightarrow> 'w native_table" where
  "set_kit_name t kit_id name =
     (let idx = unat kit_id;
          ns = (if length (kit_names t) \<le> idx then grow (kit_names t) (idx + 1) None
                else kit_names t)
      in t\<lparr>kit_names := ns[idx := Some name]\<rparr>)"

section \<open>Lookup and dispatch\<close>

text \<open>\<open>Vec::get\<close>.\<close>

definition vec_get :: "'a list \<Rightarrow> nat \<Rightarrow> 'a option" where
  "vec_get xs i = (if i < length xs then Some (xs ! i) else None)"

definition kit_name :: "'w native_table \<Rightarrow> u8 \<Rightarrow> string option" where
  "kit_name t kit_id = Option.bind (vec_get (kit_names t) (unat kit_id)) (\<lambda>n. n)"

definition kit_label :: "'w native_table \<Rightarrow> u8 \<Rightarrow> string" where
  "kit_label t kit_id =
     (case kit_name t kit_id of Some name \<Rightarrow> '' ('' @ name @ '')'' | None \<Rightarrow> [])"

definition table_lookup :: "'w native_table \<Rightarrow> u8 \<Rightarrow> u16 \<Rightarrow> 'w native_entry vm_result" where
  "table_lookup t kit_id method_id =
     (case vec_get (kits t) (unat kit_id) of
        None \<Rightarrow> Err (NativeError kit_id method_id
          (''kit '' @ show_nat (unat kit_id) @ '' not registered'' @ kit_label t kit_id))
      | Some methods \<Rightarrow>
          if methods = [] then Err (NativeError kit_id method_id
            (''kit '' @ show_nat (unat kit_id) @ '' has no methods'' @ kit_label t kit_id))
          else ok_or (vec_get methods (unat method_id)) (NativeError kit_id method_id
            (''method '' @ show_nat (unat method_id) @ '' out of range for kit '' @
             show_nat (unat kit_id) @ '' (has '' @ show_nat (length methods) @ '' methods)'' @
             kit_label t kit_id)))"

definition table_call :: "'w native_table \<Rightarrow> u8 \<Rightarrow> u16 \<Rightarrow> ('w, i32) native_fn" where
  "table_call t kit_id method_id ctx params w =
     (case table_lookup t kit_id method_id of
        Ok (Normal f) \<Rightarrow> f ctx params w
      | Ok Stub \<Rightarrow> (Ok 0, ctx, w)
      | Ok (Wide f) \<Rightarrow>
          (Err (NativeError kit_id method_id ''called wide method via narrow dispatch''), ctx, w)
      | Err e \<Rightarrow> (Err e, ctx, w)
      | Panic \<Rightarrow> (Panic, ctx, w))"

definition table_call_wide :: "'w native_table \<Rightarrow> u8 \<Rightarrow> u16 \<Rightarrow> ('w, i64) native_fn" where
  "table_call_wide t kit_id method_id ctx params w =
     (case table_lookup t kit_id method_id of
        Ok (Wide f) \<Rightarrow> f ctx params w
      | Ok Stub \<Rightarrow> (Ok 0, ctx, w)
      | Ok (Normal f) \<Rightarrow>
          (Err (NativeError kit_id method_id ''called narrow method via wide dispatch''), ctx, w)
      | Err e \<Rightarrow> (Err e, ctx, w)
      | Panic \<Rightarrow> (Panic, ctx, w))"

section \<open>Introspection and validation\<close>

definition is_stub :: "'w native_entry \<Rightarrow> bool" where
  "is_stub e = (case e of Stub \<Rightarrow> True | _ \<Rightarrow> False)"

definition kit_count :: "'w native_table \<Rightarrow> usize" where
  "kit_count t = length (kits t)"

definition method_count :: "'w native_table \<Rightarrow> u8 \<Rightarrow> usize" where
  "method_count t kit_id =
     (case vec_get (kits t) (unat kit_id) of None \<Rightarrow> 0 | Some v \<Rightarrow> length v)"

definition is_implemented :: "'w native_table \<Rightarrow> u8 \<Rightarrow> u16 \<Rightarrow> bool" where
  "is_implemented t kit_id method_id =
     (case Option.bind (vec_get (kits t) (unat kit_id)) (\<lambda>v. vec_get v (unat method_id)) of
        None \<Rightarrow> False | Some e \<Rightarrow> \<not> is_stub e)"

definition implemented_count :: "'w native_table \<Rightarrow> u8 \<Rightarrow> usize" where
  "implemented_count t kit_id =
     (case vec_get (kits t) (unat kit_id) of
        None \<Rightarrow> 0 | Some v \<Rightarrow> length (filter (\<lambda>e. \<not> is_stub e) v))"

definition total_methods :: "'w native_table \<Rightarrow> usize" where
  "total_methods t = sum_list (map length (kits t))"

definition total_implemented :: "'w native_table \<Rightarrow> usize" where
  "total_implemented t = length (filter (\<lambda>e. \<not> is_stub e) (concat (kits t)))"

datatype native_table_mismatch =
    MethodCount u8 string usize usize
  | KitName u8 string string
  | MissingKitName u8 string

definition validate_kit ::
  "'w native_table \<Rightarrow> u8 \<times> string \<times> usize \<Rightarrow> native_table_mismatch list" where
  "validate_kit t e =
     (case e of (kit_id, expected_name, expected_count) \<Rightarrow>
        (if method_count t kit_id \<noteq> expected_count
         then [MethodCount kit_id expected_name expected_count (method_count t kit_id)] else []) @
        (case kit_name t kit_id of
           Some actual \<Rightarrow>
             (if actual \<noteq> expected_name then [KitName kit_id expected_name actual] else [])
         | None \<Rightarrow>
             (if method_count t kit_id > 0 then [MissingKitName kit_id expected_name] else [])))"

definition table_validate ::
  "'w native_table \<Rightarrow> (u8 \<times> string \<times> usize) list \<Rightarrow> native_table_mismatch list" where
  "table_validate t expected = concat (map (validate_kit t) expected)"

definition validate_sedonac_layout :: "'w native_table \<Rightarrow> native_table_mismatch list" where
  "validate_sedonac_layout t = table_validate t
     [(0, ''sys'', 60), (2, ''inet'', 17), (3, ''serial'', 6), (4, ''EacIo'', 23),
      (9, ''datetimeStd'', 3), (100, ''shaystack'', 28)]"

section \<open>Registration is a map update\<close>

text \<open>The entry of a slot, if the slot exists.\<close>

definition slot :: "'w native_table \<Rightarrow> u8 \<times> u16 \<Rightarrow> 'w native_entry option" where
  "slot t k = Option.bind (vec_get (kits t) (unat (fst k))) (\<lambda>v. vec_get v (unat (snd k)))"

lemma table_lookup_slot: "table_lookup t k m = Ok e \<longleftrightarrow> slot t (k, m) = Some e"
  by (auto simp: table_lookup_def slot_def vec_get_def split: option.splits if_splits)

lemma table_lookup_no_panic: "table_lookup t k m \<noteq> Panic"
  by (simp add: table_lookup_def split: option.splits)

text \<open>
  The contract of a growing dispatch table: an update is read back, no entry is lost, and a slot
  that comes into existence unasked holds a stub.
\<close>

locale dispatch_table =
  fixes upd :: "'t \<Rightarrow> 'k \<Rightarrow> 'e \<Rightarrow> 't"
    and look :: "'t \<Rightarrow> 'k \<Rightarrow> 'e option"
    and stub :: 'e
  assumes look_upd_same: "look (upd t k e) k = Some e"
    and look_upd_other: "k' \<noteq> k \<Longrightarrow> look t k' = Some e' \<Longrightarrow> look (upd t k e) k' = Some e'"
    and look_upd_new: "k' \<noteq> k \<Longrightarrow> look t k' = None \<Longrightarrow>
      look (upd t k e) k' = None \<or> look (upd t k e) k' = Some stub"
begin

primrec upds :: "'t \<Rightarrow> ('k \<times> 'e) list \<Rightarrow> 't" where
  "upds t [] = t"
| "upds t (p # ps) = upds (upd t (fst p) (snd p)) ps"

text \<open>After a sequence of updates every updated key holds its last entry.\<close>

lemma look_upds:
  assumes "map_of (rev ps) k = Some e \<or> map_of (rev ps) k = None \<and> look t k = Some e"
  shows "look (upds t ps) k = Some e"
  using assms
proof (induction ps arbitrary: t)
  case (Cons p ps)
  show ?case
  proof (cases "map_of (rev ps) k")
    case None
    with Cons.prems have "fst p = k \<and> snd p = e \<or> fst p \<noteq> k \<and> look t k = Some e"
      by (cases p) (auto simp: map_add_def split: if_splits)
    then have "look (upd t (fst p) (snd p)) k = Some e"
      using look_upd_same look_upd_other by metis
    with None show ?thesis using Cons.IH by simp
  next
    case (Some e')
    with Cons.prems have "e' = e" by (cases p) (auto simp: map_add_def)
    with Some show ?thesis using Cons.IH by simp
  qed
qed simp

end

text \<open>The methods of a kit, none for a kit that is not there.\<close>

definition row :: "'w native_table \<Rightarrow> nat \<Rightarrow> 'w native_entry list" where
  "row t i = (if i < length (kits t) then kits t ! i else [])"

lemma slot_row: "slot t k = vec_get (row t (unat (fst k))) (unat (snd k))"
  by (simp add: slot_def row_def vec_get_def)

lemma row_ensure_slot:
  "row (ensure_slot t k m) i =
     (if i = unat k then grow (row t i) (unat m + 1) Stub else row t i)"
  by (auto simp: row_def ensure_slot_def Let_def grow_def nth_append nth_list_update)

lemma row_put_entry:
  "row (put_entry t k m e) i =
     (if i = unat k then (row (ensure_slot t k m) i)[unat m := e] else row (ensure_slot t k m) i)"
  by (auto simp: row_def put_entry_def Let_def nth_list_update)

lemma slot_ensure_slot:
  "slot (ensure_slot t k m) k' =
     (case slot t k' of Some e \<Rightarrow> Some e
      | None \<Rightarrow> if fst k' = k \<and> unat (snd k') \<le> unat m then Some Stub else None)"
  by (auto simp: slot_row row_ensure_slot vec_get_def grow_def nth_append word_unat_eq_iff)

lemma slot_put_entry:
  "slot (put_entry t k m e) k' = (if k' = (k, m) then Some e else slot (ensure_slot t k m) k')"
  by (cases k')
     (auto simp: slot_row row_put_entry vec_get_def nth_list_update word_unat_eq_iff
       row_ensure_slot grow_def)

interpretation native_slots: dispatch_table "\<lambda>t k e. put_entry t (fst k) (snd k) e" slot Stub
  by unfold_locales (auto simp: slot_put_entry slot_ensure_slot split: if_splits option.splits)

section \<open>Properties\<close>

text \<open>
  Registration: after a sequence of registrations every slot that was registered holds the entry
  registered last, every other existing slot holds what it held, and a slot that was not there
  is missing or a stub.
\<close>

theorem registrations_dispatch:
  assumes "t' = foldl (\<lambda>t (k, m, e). put_entry t k m e) t regs"
  shows "(\<forall>e. map_of (rev (map (\<lambda>(k, m, e). ((k, m), e)) regs)) (kit, meth) = Some e \<longrightarrow>
      table_lookup t' kit meth = Ok e) \<and>
    (\<forall>e. map_of (rev (map (\<lambda>(k, m, e). ((k, m), e)) regs)) (kit, meth) = None \<and>
      table_lookup t kit meth = Ok e \<longrightarrow> table_lookup t' kit meth = Ok e)"
proof -
  have "foldl (\<lambda>t (k, m, e). put_entry t k m e) t regs =
      native_slots.upds t (map (\<lambda>(k, m, e). ((k, m), e)) regs)"
    by (induction regs arbitrary: t) auto
  with assms show ?thesis
    using native_slots.look_upds [of "map (\<lambda>(k, m, e). ((k, m), e)) regs" "(kit, meth)"]
    by (simp add: table_lookup_slot)
qed

lemma registrations_dispatch_witness:
  "table_lookup (foldl (\<lambda>t (k, m, e). put_entry t k m e) (table_new :: unit native_table)
     [(2, 5, Stub), (0, 1, Stub)]) 2 5 = Ok Stub"
  using registrations_dispatch [where t = "table_new :: unit native_table" and
    regs = "[(2, 5, Stub), (0, 1, Stub)]" and kit = 2 and meth = 5, OF refl]
  by simp

text \<open>
  Dispatch: a registered method is called with the context, the parameters and the world it is
  given; a stub returns 0 and changes nothing; a call through the wrong width and a call of a
  slot that does not exist are errors that change nothing.
\<close>

theorem table_call_cases:
  "table_call (register t k m f) k m ctx ps w = f ctx ps w \<and>
   table_call_wide (register_wide t k m g) k m ctx ps w = g ctx ps w \<and>
   table_call (register_stub t k m) k m ctx ps w = (Ok 0, ctx, w) \<and>
   table_call_wide (register_stub t k m) k m ctx ps w = (Ok 0, ctx, w) \<and>
   (\<exists>msg. table_call (register_wide t k m g) k m ctx ps w = (Err (NativeError k m msg), ctx, w)) \<and>
   (\<exists>msg. table_call_wide (register t k m f) k m ctx ps w = (Err (NativeError k m msg), ctx, w)) \<and>
   (slot t (k, m) = None \<longrightarrow> (\<exists>msg. table_call t k m ctx ps w = (Err (NativeError k m msg), ctx, w)))"
proof -
  have look: "table_lookup (put_entry t k m e) k m = Ok e" for e
    by (simp add: table_lookup_slot slot_put_entry)
  have miss: "\<exists>msg. table_lookup t k m = Err (NativeError k m msg)" if "slot t (k, m) = None"
    using that by (auto simp: table_lookup_def slot_def vec_get_def split: option.splits)
  show ?thesis
    using look miss
    by (auto simp: table_call_def table_call_wide_def register_def register_wide_def register_stub_def)
qed

lemma table_call_cases_witness:
  "\<exists>msg. table_call (table_new :: unit native_table) 3 4 (context_new []) [] () =
     (Err (NativeError 3 4 msg), context_new [], ())"
  using table_call_cases [of "table_new :: unit native_table" 3 4 _ "context_new []" "[]" "()"]
  by (simp add: slot_def vec_get_def table_new_def)

end
