(* ===== verification/Vm_Interpreter.thy ===== *)
theory Vm_Interpreter
  imports Vm_Stack Vm_Memory Opcodes Native_Table Ieee "HOL-Library.Signed_Division"
begin

text \<open>
  The bytecode interpreter of \<open>vm_interpreter.rs\<close>. One definition per section of the \<open>match\<close> in
  \<open>VmInterpreter::step\<close>, one equation per opcode; every arm performs the operations of the source in
  the source's order, so that the state left behind on an error is the one the source leaves.
  \<open>f32\<close> and \<open>f64\<close> values are bit patterns. The field \<open>world\<close> is the state of everything that
  native methods can reach outside the machine.
\<close>

section \<open>State\<close>

record 'w vm =
  stack :: vm_stack
  memory :: vm_memory
  natives :: "'w native_table"
  pc :: usize
  stopped :: bool
  assert_failures :: i32
  assert_successes :: i32
  instruction_count :: nat
  world :: 'w

type_synonym ('w, 'a) vm_method = "('w vm, vm_error, 'a) routine"

definition vm_new :: "vm_memory \<Rightarrow> 'w native_table \<Rightarrow> 'w \<Rightarrow> 'w vm" where
  "vm_new mem nat_table w =
     \<lparr>stack = stack_new 4096, memory = mem, natives = nat_table, pc = 0, stopped = False,
      assert_failures = 0, assert_successes = 0, instruction_count = 0, world = w\<rparr>"

datatype step_result = Continue | ReturnI32 i32 | ReturnWide i64 | ReturnedVoid

datatype unwind_result = TopLevel | Caller

definition NULLFLOAT :: i32 where "NULLFLOAT = 0x7fc00000"
definition NULLDOUBLE :: i64 where "NULLDOUBLE = 0x7ff8000000000000"
definition MAX_INSTRUCTIONS :: nat where "MAX_INSTRUCTIONS = 10000000"

section \<open>Access to the parts of the machine\<close>

definition on_stack :: "'a stack_method \<Rightarrow> ('w, 'a) vm_method" where
  "on_stack m = (\<lambda>s. case m (stack s) of (r, st) \<Rightarrow> (r, s\<lparr>stack := st\<rparr>))"

definition on_memory :: "'a mem_method \<Rightarrow> ('w, 'a) vm_method" where
  "on_memory m = (\<lambda>s. case m (memory s) of (r, mem) \<Rightarrow> (r, s\<lparr>memory := mem\<rparr>))"

definition of_memory :: "(vm_memory \<Rightarrow> 'a vm_result) \<Rightarrow> ('w, 'a) vm_method" where
  "of_memory q = query (\<lambda>s. q (memory s))"

definition advance :: "nat \<Rightarrow> ('w, unit) vm_method" where
  "advance n = modify (\<lambda>s. s\<lparr>pc := pc s + n\<rparr>)"

definition get_pc :: "('w, usize) vm_method" where
  "get_pc = query (\<lambda>s. Ok (pc s))"

text \<open>Operands at a distance from the opcode.\<close>

definition operand_u8 :: "nat \<Rightarrow> ('w, u8) vm_method" where
  "operand_u8 k = query (\<lambda>s. code_u8 (memory s) (pc s + k))"

definition operand_u16 :: "nat \<Rightarrow> ('w, u16) vm_method" where
  "operand_u16 k = query (\<lambda>s. code_u16 (memory s) (pc s + k))"

definition operand_u32 :: "nat \<Rightarrow> ('w, u32) vm_method" where
  "operand_u32 k = query (\<lambda>s. code_u32 (memory s) (pc s + k))"

abbreviation push :: "i32 \<Rightarrow> ('w, unit) vm_method" where "push v \<equiv> on_stack (push_i32 v)"
abbreviation push64 :: "i64 \<Rightarrow> ('w, unit) vm_method" where "push64 v \<equiv> on_stack (push_i64 v)"
abbreviation pushR :: "usize \<Rightarrow> ('w, unit) vm_method" where "pushR p \<equiv> on_stack (push_ref p)"
abbreviation pop32 :: "('w, i32) vm_method" where "pop32 \<equiv> on_stack pop_i32"
abbreviation pop64 :: "('w, i64) vm_method" where "pop64 \<equiv> on_stack pop_i64"
abbreviation popR :: "('w, usize) vm_method" where "popR \<equiv> on_stack pop_ref"
abbreviation popF :: "('w, u32) vm_method" where "popF \<equiv> on_stack pop_f32"
abbreviation pushF :: "u32 \<Rightarrow> ('w, unit) vm_method" where "pushF v \<equiv> on_stack (push_f32 v)"
abbreviation popD :: "('w, u64) vm_method" where "popD \<equiv> on_stack pop_f64"
abbreviation pushD :: "u64 \<Rightarrow> ('w, unit) vm_method" where "pushD v \<equiv> on_stack (push_f64 v)"

text \<open>The recurring shapes of an arm: pop operands, push a result, advance.\<close>

definition then_advance :: "('w, unit) vm_method \<Rightarrow> nat \<Rightarrow> ('w, unit) vm_method" where
  "then_advance m n = sq m (advance n)"

definition unary :: "('w, 'a) vm_method \<Rightarrow> ('b \<Rightarrow> ('w, unit) vm_method) \<Rightarrow> ('a \<Rightarrow> 'b) \<Rightarrow>
  ('w, unit) vm_method" where
  "unary pop_val push_val f = bnd pop_val (\<lambda>a. then_advance (push_val (f a)) 1)"

definition binary :: "('w, 'a) vm_method \<Rightarrow> ('w, 'a) vm_method \<Rightarrow> ('b \<Rightarrow> ('w, unit) vm_method) \<Rightarrow>
  ('a \<Rightarrow> 'a \<Rightarrow> 'b) \<Rightarrow> ('w, unit) vm_method" where
  "binary pop_b pop_a push_val f =
     bnd pop_b (\<lambda>b. bnd pop_a (\<lambda>a. then_advance (push_val (f a b)) 1))"

definition bool_cell :: "bool \<Rightarrow> i32" where
  "bool_cell c = (if c then 1 else 0)"

section \<open>Frame addressing\<close>

definition param_base :: "('w, usize) vm_method" where
  "param_base = query (\<lambda>s. bindO (current_frame (stack s)) (\<lambda>f.
     if unat (num_params f) \<le> frame_pointer f then Ok (frame_pointer f - unat (num_params f))
     else Panic))"

definition locals_base :: "('w, usize) vm_method" where
  "locals_base = query (\<lambda>s. bindO (current_frame (stack s)) (\<lambda>f. Ok (frame_pointer f + 3)))"

definition load_at :: "('w, usize) vm_method \<Rightarrow> nat \<Rightarrow> nat \<Rightarrow> ('w, unit) vm_method" where
  "load_at base idx len =
     bnd base (\<lambda>p. bnd (on_stack (stack_get (p + idx))) (\<lambda>v. then_advance (push v) len))"

definition load_wide_at :: "('w, usize) vm_method \<Rightarrow> nat \<Rightarrow> nat \<Rightarrow> ('w, unit) vm_method" where
  "load_wide_at base idx len =
     bnd base (\<lambda>p. bnd (on_stack (stack_get_wide (p + idx))) (\<lambda>v. then_advance (push64 v) len))"

definition store_at :: "('w, usize) vm_method \<Rightarrow> nat \<Rightarrow> nat \<Rightarrow> ('w, unit) vm_method" where
  "store_at base idx len =
     bnd base (\<lambda>p. bnd pop32 (\<lambda>v. then_advance (on_stack (stack_set (p + idx) v)) len))"

definition store_wide_at :: "('w, usize) vm_method \<Rightarrow> nat \<Rightarrow> nat \<Rightarrow> ('w, unit) vm_method" where
  "store_wide_at base idx len =
     bnd base (\<lambda>p. bnd pop64 (\<lambda>v. then_advance (on_stack (stack_set_wide (p + idx) v)) len))"

definition with_index :: "(nat \<Rightarrow> ('w, unit) vm_method) \<Rightarrow> ('w, unit) vm_method" where
  "with_index f = bnd (operand_u8 1) (\<lambda>idx. f (unat idx))"

section \<open>Literals, parameters and locals\<close>

text \<open>The address that a 16-bit block operand names.\<close>

definition block_operand :: "('w, usize) vm_method" where
  "block_operand =
     bnd (operand_u16 1) (\<lambda>bix. of_memory (\<lambda>m. Ok (block_to_addr m bix)))"

definition load_const32 :: "('w, unit) vm_method" where
  "load_const32 = bnd block_operand (\<lambda>addr.
     bnd (of_memory (\<lambda>m. code_i32 m addr)) (\<lambda>v. then_advance (push v) 3))"

definition load_const64 :: "('w, unit) vm_method" where
  "load_const64 = bnd block_operand (\<lambda>addr.
     bnd (of_memory (\<lambda>m. code_u32 m addr)) (\<lambda>lo.
       bnd (of_memory (\<lambda>m. code_u32 m (addr + 4))) (\<lambda>hi.
         then_advance (push64 (join_cells lo hi)) 3)))"

definition load_code_addr :: "('w, unit) vm_method" where
  "load_code_addr = bnd block_operand (\<lambda>addr. then_advance (pushR addr) 3)"

definition unsupported :: "opcode \<Rightarrow> ('w, 'a) vm_method" where
  "unsupported op = raise (InvalidOpcode (opcode_byte op))"

primrec step_literal :: "literal_op \<Rightarrow> ('w, unit) vm_method" where
  "step_literal Nop = advance 1"
| "step_literal LoadIM1 = then_advance (push (- 1)) 1"
| "step_literal LoadNull = then_advance (push 0) 1"
| "step_literal LoadI0 = then_advance (push 0) 1"
| "step_literal LoadI1 = then_advance (push 1) 1"
| "step_literal LoadNullBool = then_advance (push 2) 1"
| "step_literal LoadI2 = then_advance (push 2) 1"
| "step_literal LoadI3 = then_advance (push 3) 1"
| "step_literal LoadI4 = then_advance (push 4) 1"
| "step_literal LoadI5 = then_advance (push 5) 1"
| "step_literal LoadIntU1 = bnd (operand_u8 1) (\<lambda>v. then_advance (push (ucast v)) 2)"
| "step_literal LoadIntU2 = bnd (operand_u16 1) (\<lambda>v. then_advance (push (ucast v)) 3)"
| "step_literal LoadL0 = then_advance (push64 0) 1"
| "step_literal LoadL1 = then_advance (push64 1) 1"
| "step_literal LoadF0 = then_advance (pushF 0) 1"
| "step_literal LoadF1 = then_advance (pushF 0x3F800000) 1"
| "step_literal LoadNullFloat = then_advance (push NULLFLOAT) 1"
| "step_literal LoadNullDouble = then_advance (push64 NULLDOUBLE) 1"
| "step_literal LoadD0 = then_advance (pushD 0) 1"
| "step_literal LoadD1 = then_advance (pushD 0x3FF0000000000000) 1"
| "step_literal LoadInt = load_const32"
| "step_literal LoadFloat = load_const32"
| "step_literal LoadLong = load_const64"
| "step_literal LoadDouble = load_const64"
| "step_literal LoadStr = load_code_addr"
| "step_literal LoadBuf = load_code_addr"
| "step_literal LoadType = load_code_addr"
| "step_literal LoadSlot = load_code_addr"
| "step_literal LoadDefine = unsupported (Literal LoadDefine)"

primrec step_param :: "param_op \<Rightarrow> ('w, unit) vm_method" where
  "step_param LoadParam0 = load_at param_base 0 1"
| "step_param LoadParam1 = load_at param_base 1 1"
| "step_param LoadParam2 = load_at param_base 2 1"
| "step_param LoadParam3 = load_at param_base 3 1"
| "step_param LoadParam = with_index (\<lambda>i. load_at param_base i 2)"
| "step_param LoadParamWide = with_index (\<lambda>i. load_wide_at param_base i 2)"
| "step_param StoreParam = with_index (\<lambda>i. store_at param_base i 2)"
| "step_param StoreParamWide = with_index (\<lambda>i. store_wide_at param_base i 2)"

primrec step_local :: "local_op \<Rightarrow> ('w, unit) vm_method" where
  "step_local LoadLocal0 = load_at locals_base 0 1"
| "step_local LoadLocal1 = load_at locals_base 1 1"
| "step_local LoadLocal2 = load_at locals_base 2 1"
| "step_local LoadLocal3 = load_at locals_base 3 1"
| "step_local LoadLocal4 = load_at locals_base 4 1"
| "step_local LoadLocal5 = load_at locals_base 5 1"
| "step_local LoadLocal6 = load_at locals_base 6 1"
| "step_local LoadLocal7 = load_at locals_base 7 1"
| "step_local LoadLocal = with_index (\<lambda>i. load_at locals_base i 2)"
| "step_local LoadLocalWide = with_index (\<lambda>i. load_wide_at locals_base i 2)"
| "step_local StoreLocal0 = store_at locals_base 0 1"
| "step_local StoreLocal1 = store_at locals_base 1 1"
| "step_local StoreLocal2 = store_at locals_base 2 1"
| "step_local StoreLocal3 = store_at locals_base 3 1"
| "step_local StoreLocal4 = store_at locals_base 4 1"
| "step_local StoreLocal5 = store_at locals_base 5 1"
| "step_local StoreLocal6 = store_at locals_base 6 1"
| "step_local StoreLocal7 = store_at locals_base 7 1"
| "step_local StoreLocal = with_index (\<lambda>i. store_at locals_base i 2)"
| "step_local StoreLocalWide = with_index (\<lambda>i. store_wide_at locals_base i 2)"

section \<open>Integer operations\<close>

text \<open>Truncating division and remainder that wrap, with 0 for a zero divisor.\<close>

definition vm_div :: "'n::len word \<Rightarrow> 'n word \<Rightarrow> 'n word" where
  "vm_div a b = (if b = 0 then 0 else of_int (sint a sdiv sint b))"

definition vm_mod :: "'n::len word \<Rightarrow> 'n word \<Rightarrow> 'n word" where
  "vm_mod a b = (if b = 0 then 0 else of_int (sint a smod sint b))"

text \<open>\<open>wrapping_shl\<close> and \<open>wrapping_shr\<close> take the shift amount modulo the width.\<close>

definition vm_shl :: "'n::len word \<Rightarrow> i32 \<Rightarrow> 'n word" where
  "vm_shl a b = push_bit (unat b mod LENGTH('n)) a"

definition vm_shr :: "'n::len word \<Rightarrow> i32 \<Rightarrow> 'n word" where
  "vm_shr a b = signed_drop_bit (unat b mod LENGTH('n)) a"

abbreviation int_binary :: "(i32 \<Rightarrow> i32 \<Rightarrow> i32) \<Rightarrow> ('w, unit) vm_method" where
  "int_binary f \<equiv> binary pop32 pop32 push f"

abbreviation int_compare :: "(int \<Rightarrow> int \<Rightarrow> bool) \<Rightarrow> ('w, unit) vm_method" where
  "int_compare f \<equiv> binary pop32 pop32 push (\<lambda>a b. bool_cell (f (sint a) (sint b)))"

abbreviation long_binary :: "(i64 \<Rightarrow> i64 \<Rightarrow> i64) \<Rightarrow> ('w, unit) vm_method" where
  "long_binary f \<equiv> binary pop64 pop64 push64 f"

abbreviation long_compare :: "(int \<Rightarrow> int \<Rightarrow> bool) \<Rightarrow> ('w, unit) vm_method" where
  "long_compare f \<equiv> binary pop64 pop64 push (\<lambda>a b. bool_cell (f (sint a) (sint b)))"

primrec step_int_cmp :: "int_cmp_op \<Rightarrow> ('w, unit) vm_method" where
  "step_int_cmp IntEq = int_compare (=)"
| "step_int_cmp IntNotEq = int_compare (\<noteq>)"
| "step_int_cmp IntGt = int_compare (>)"
| "step_int_cmp IntGtEq = int_compare (\<ge>)"
| "step_int_cmp IntLt = int_compare (<)"
| "step_int_cmp IntLtEq = int_compare (\<le>)"

primrec step_int_math :: "int_math_op \<Rightarrow> ('w, unit) vm_method" where
  "step_int_math IntMul = int_binary (*)"
| "step_int_math IntDiv = int_binary vm_div"
| "step_int_math IntMod = int_binary vm_mod"
| "step_int_math IntAdd = int_binary (+)"
| "step_int_math IntSub = int_binary (-)"
| "step_int_math IntOr = int_binary (OR)"
| "step_int_math IntXor = int_binary (XOR)"
| "step_int_math IntAnd = int_binary (AND)"
| "step_int_math IntNot = unary pop32 push (\<lambda>a. NOT a)"
| "step_int_math IntNeg = unary pop32 push (\<lambda>a. - a)"
| "step_int_math IntShiftL = int_binary vm_shl"
| "step_int_math IntShiftR = int_binary vm_shr"
| "step_int_math IntInc = unary pop32 push (\<lambda>a. a + 1)"
| "step_int_math IntDec = unary pop32 push (\<lambda>a. a - 1)"

primrec step_long_cmp :: "long_cmp_op \<Rightarrow> ('w, unit) vm_method" where
  "step_long_cmp LongEq = long_compare (=)"
| "step_long_cmp LongNotEq = long_compare (\<noteq>)"
| "step_long_cmp LongGt = long_compare (>)"
| "step_long_cmp LongGtEq = long_compare (\<ge>)"
| "step_long_cmp LongLt = long_compare (<)"
| "step_long_cmp LongLtEq = long_compare (\<le>)"

text \<open>The shift amount of the long shifts is an int.\<close>

definition long_shift :: "(i64 \<Rightarrow> i32 \<Rightarrow> i64) \<Rightarrow> ('w, unit) vm_method" where
  "long_shift f = bnd pop32 (\<lambda>b. bnd pop64 (\<lambda>a. then_advance (push64 (f a b)) 1))"

primrec step_long_math :: "long_math_op \<Rightarrow> ('w, unit) vm_method" where
  "step_long_math LongMul = long_binary (*)"
| "step_long_math LongDiv = long_binary vm_div"
| "step_long_math LongMod = long_binary vm_mod"
| "step_long_math LongAdd = long_binary (+)"
| "step_long_math LongSub = long_binary (-)"
| "step_long_math LongOr = long_binary (OR)"
| "step_long_math LongXor = long_binary (XOR)"
| "step_long_math LongAnd = long_binary (AND)"
| "step_long_math LongNot = unary pop64 push64 (\<lambda>a. NOT a)"
| "step_long_math LongNeg = unary pop64 push64 (\<lambda>a. - a)"
| "step_long_math LongShiftL = long_shift vm_shl"
| "step_long_math LongShiftR = long_shift vm_shr"

section \<open>Floating point operations\<close>

definition sedona_eq32 :: "u32 \<Rightarrow> u32 \<Rightarrow> bool" where
  "sedona_eq32 a b \<longleftrightarrow> nan32 a \<and> nan32 b \<or> rel32 feq a b"

definition sedona_ne32 :: "u32 \<Rightarrow> u32 \<Rightarrow> bool" where
  "sedona_ne32 a b \<longleftrightarrow> (if nan32 a \<and> nan32 b then False else \<not> rel32 feq a b)"

definition sedona_eq64 :: "u64 \<Rightarrow> u64 \<Rightarrow> bool" where
  "sedona_eq64 a b \<longleftrightarrow> nan64 a \<and> nan64 b \<or> rel64 feq a b"

definition sedona_ne64 :: "u64 \<Rightarrow> u64 \<Rightarrow> bool" where
  "sedona_ne64 a b \<longleftrightarrow> (if nan64 a \<and> nan64 b then False else \<not> rel64 feq a b)"

abbreviation float_compare :: "(u32 \<Rightarrow> u32 \<Rightarrow> bool) \<Rightarrow> ('w, unit) vm_method" where
  "float_compare f \<equiv> binary popF popF push (\<lambda>a b. bool_cell (f a b))"

abbreviation double_compare :: "(u64 \<Rightarrow> u64 \<Rightarrow> bool) \<Rightarrow> ('w, unit) vm_method" where
  "double_compare f \<equiv> binary popD popD push (\<lambda>a b. bool_cell (f a b))"

primrec step_float_cmp :: "float_cmp_op \<Rightarrow> ('w, unit) vm_method" where
  "step_float_cmp FloatEq = float_compare sedona_eq32"
| "step_float_cmp FloatNotEq = float_compare sedona_ne32"
| "step_float_cmp FloatGt = float_compare (\<lambda>a b. rel32 flt b a)"
| "step_float_cmp FloatGtEq = float_compare (\<lambda>a b. rel32 fle b a)"
| "step_float_cmp FloatLt = float_compare (rel32 flt)"
| "step_float_cmp FloatLtEq = float_compare (rel32 fle)"

primrec step_float_math :: "float_math_op \<Rightarrow> ('w, unit) vm_method" where
  "step_float_math FloatMul = binary popF popF pushF (op32 fmul)"
| "step_float_math FloatDiv = binary popF popF pushF (op32 fdiv)"
| "step_float_math FloatAdd = binary popF popF pushF (op32 fadd)"
| "step_float_math FloatSub = binary popF popF pushF (op32 fsub)"
| "step_float_math FloatNeg = unary popF pushF neg32"

primrec step_double_cmp :: "double_cmp_op \<Rightarrow> ('w, unit) vm_method" where
  "step_double_cmp DoubleEq = double_compare sedona_eq64"
| "step_double_cmp DoubleNotEq = double_compare sedona_ne64"
| "step_double_cmp DoubleGt = double_compare (\<lambda>a b. rel64 flt b a)"
| "step_double_cmp DoubleGtEq = double_compare (\<lambda>a b. rel64 fle b a)"
| "step_double_cmp DoubleLt = double_compare (rel64 flt)"
| "step_double_cmp DoubleLtEq = double_compare (rel64 fle)"

primrec step_double_math :: "double_math_op \<Rightarrow> ('w, unit) vm_method" where
  "step_double_math DoubleMul = binary popD popD pushD (op64 fmul)"
| "step_double_math DoubleDiv = binary popD popD pushD (op64 fdiv)"
| "step_double_math DoubleAdd = binary popD popD pushD (op64 fadd)"
| "step_double_math DoubleSub = binary popD popD pushD (op64 fsub)"
| "step_double_math DoubleNeg = unary popD pushD neg64"

primrec step_cast :: "cast_op \<Rightarrow> ('w, unit) vm_method" where
  "step_cast IntToFloat = unary pop32 pushF (\<lambda>a. f32_of_int (sint a))"
| "step_cast IntToLong = unary pop32 push64 scast"
| "step_cast IntToDouble = unary pop32 pushD (\<lambda>a. f64_of_int (sint a))"
| "step_cast LongToInt = unary pop64 push ucast"
| "step_cast LongToFloat = unary pop64 pushF (\<lambda>a. f32_of_int (sint a))"
| "step_cast LongToDouble = unary pop64 pushD (\<lambda>a. f64_of_int (sint a))"
| "step_cast FloatToInt = unary popF push f32_to_i32"
| "step_cast FloatToLong = unary popF push64 f32_to_i64"
| "step_cast FloatToDouble = unary popF pushD f32_to_f64"
| "step_cast DoubleToInt = unary popD push f64_to_i32"
| "step_cast DoubleToLong = unary popD push64 f64_to_i64"
| "step_cast DoubleToFloat = unary popD pushF f64_to_f32"

section \<open>General compare and stack manipulation\<close>

primrec step_gen_cmp :: "gen_cmp_op \<Rightarrow> ('w, unit) vm_method" where
  "step_gen_cmp ObjEq = binary popR popR push (\<lambda>a b. bool_cell (a = b))"
| "step_gen_cmp ObjNotEq = binary popR popR push (\<lambda>a b. bool_cell (a \<noteq> b))"
| "step_gen_cmp EqZero = unary pop32 push (\<lambda>a. bool_cell (a = 0))"
| "step_gen_cmp NotEqZero = unary pop32 push (\<lambda>a. bool_cell (a \<noteq> 0))"

text \<open>The last \<open>n\<close> cells, by \<open>get\<close> at ascending indices below a stack pointer that is at least \<open>n\<close>.\<close>

primrec get_all :: "usize list \<Rightarrow> i32 list stack_method" where
  "get_all [] = ret []"
| "get_all (i # is) = bnd (stack_get i) (\<lambda>v. bnd (get_all is) (\<lambda>vs. ret (v # vs)))"

primrec set_all :: "(usize \<times> i32) list \<Rightarrow> unit stack_method" where
  "set_all [] = ret ()"
| "set_all (p # ps) = sq (stack_set (fst p) (snd p)) (set_all ps)"

text \<open>Duplicate the top two cells below the \<open>k\<close> cells under them: read the \<open>k + 2\<close> top cells, push
  two zeros, then write all \<open>k + 4\<close> cells.\<close>

definition dup2down :: "nat \<Rightarrow> unit stack_method" where
  "dup2down k = (\<lambda>s.
     if sp s < k + 2 then (Err StackUnderflow, s)
     else bnd (get_all [sp s - (k + 2) ..< sp s]) (\<lambda>vs.
       sq (push_i32 0) (sq (push_i32 0) (\<lambda>t.
         set_all (zip [sp t - (k + 4) ..< sp t] (drop k vs @ take k vs @ drop k vs)) t))) s)"

primrec step_stack :: "stack_op \<Rightarrow> ('w, unit) vm_method" where
  "step_stack Pop = then_advance (on_stack pop) 1"
| "step_stack Pop2 = then_advance (on_stack pop2) 1"
| "step_stack Pop3 = then_advance (on_stack pop3) 1"
| "step_stack Dup = then_advance (on_stack dup) 1"
| "step_stack Dup2 = then_advance (on_stack dup2) 1"
| "step_stack DupDown2 = then_advance (on_stack dupdown2) 1"
| "step_stack DupDown3 = then_advance (on_stack dupdown3) 1"
| "step_stack Dup2Down2 = then_advance (on_stack (dup2down 2)) 1"
| "step_stack Dup2Down3 = then_advance (on_stack (dup2down 3)) 1"


section \<open>Jumps\<close>

text \<open>\<open>(base as isize + offset as isize) as usize\<close>: the addition is checked, the casts are not.\<close>

definition jump_rel :: "usize \<Rightarrow> int \<Rightarrow> ('w, unit) vm_method" where
  "jump_rel base offset =
     (let t = sint (of_nat base :: i32) + offset in
      if - (2 ^ 31) \<le> t \<and> t < 2 ^ 31 then modify (\<lambda>s. s\<lparr>pc := nat (t mod 2 ^ 32)\<rparr>) else panic)"

definition near_jump :: "('w, unit) vm_method" where
  "near_jump = bnd (operand_u8 1) (\<lambda>offset.
     bnd get_pc (\<lambda>p. jump_rel (p + 2) (sint offset)))"

definition far_jump :: "('w, unit) vm_method" where
  "far_jump = bnd (operand_u16 1) (\<lambda>offset.
     bnd get_pc (\<lambda>p. jump_rel (p + 3) (sint offset)))"

text \<open>A conditional jump reads its offset only when it is taken.\<close>

definition branch :: "('w, unit) vm_method \<Rightarrow> nat \<Rightarrow> bool \<Rightarrow> ('w, unit) vm_method" where
  "branch jump len taken = (if taken then jump else advance len)"

text \<open>\<open>self.stack.sp() - k\<close> is a checked subtraction.\<close>

definition below_top :: "nat \<Rightarrow> ('w, usize) vm_method" where
  "below_top k = query (\<lambda>s. if k \<le> sp (stack s) then Ok (sp (stack s) - k) else Panic)"

definition foreach :: "('w, unit) vm_method \<Rightarrow> nat \<Rightarrow> ('w, unit) vm_method" where
  "foreach jump len =
     bnd (below_top 1) (\<lambda>top.
     bnd (on_stack (stack_get top)) (\<lambda>v.
     let counter = v + 1 in
     sq (on_stack (stack_set top counter))
     (bnd (below_top 2) (\<lambda>len_at.
      bnd (on_stack (stack_get len_at)) (\<lambda>len_val.
      if sint len_val \<le> sint counter then jump
      else bnd (below_top 3) (\<lambda>ref_at.
        bnd (on_stack (stack_get ref_at)) (\<lambda>array_ref.
        sq (push array_ref) (then_advance (push counter) len))))))))"

primrec step_near_jump :: "near_jump_op \<Rightarrow> ('w, unit) vm_method" where
  "step_near_jump Jump = near_jump"
| "step_near_jump JumpNonZero = bnd pop32 (\<lambda>v. branch near_jump 2 (v \<noteq> 0))"
| "step_near_jump JumpZero = bnd pop32 (\<lambda>v. branch near_jump 2 (v = 0))"
| "step_near_jump Foreach = foreach near_jump 2"

primrec step_far_jump :: "far_jump_op \<Rightarrow> ('w, unit) vm_method" where
  "step_far_jump JumpFar = far_jump"
| "step_far_jump JumpFarNonZero = bnd pop32 (\<lambda>v. branch far_jump 3 (v \<noteq> 0))"
| "step_far_jump JumpFarZero = bnd pop32 (\<lambda>v. branch far_jump 3 (v = 0))"
| "step_far_jump ForeachFar = foreach far_jump 3"

definition int_branch ::
  "('w, unit) vm_method \<Rightarrow> nat \<Rightarrow> (int \<Rightarrow> int \<Rightarrow> bool) \<Rightarrow> ('w, unit) vm_method" where
  "int_branch jump len cmp =
     bnd pop32 (\<lambda>b. bnd pop32 (\<lambda>a. branch jump len (cmp (sint a) (sint b))))"

primrec step_near_int :: "near_int_op \<Rightarrow> ('w, unit) vm_method" where
  "step_near_int JumpIntEq = int_branch near_jump 2 (=)"
| "step_near_int JumpIntNotEq = int_branch near_jump 2 (\<noteq>)"
| "step_near_int JumpIntGt = int_branch near_jump 2 (>)"
| "step_near_int JumpIntGtEq = int_branch near_jump 2 (\<ge>)"
| "step_near_int JumpIntLt = int_branch near_jump 2 (<)"
| "step_near_int JumpIntLtEq = int_branch near_jump 2 (\<le>)"

primrec step_far_int :: "far_int_op \<Rightarrow> ('w, unit) vm_method" where
  "step_far_int JumpFarIntEq = int_branch far_jump 3 (=)"
| "step_far_int JumpFarIntNotEq = int_branch far_jump 3 (\<noteq>)"
| "step_far_int JumpFarIntGt = int_branch far_jump 3 (>)"
| "step_far_int JumpFarIntGtEq = int_branch far_jump 3 (\<ge>)"
| "step_far_int JumpFarIntLt = int_branch far_jump 3 (<)"
| "step_far_int JumpFarIntLtEq = int_branch far_jump 3 (\<le>)"

section \<open>Fields and arrays\<close>

text \<open>The offset operands of one, two and four bytes, read as \<open>i32\<close>.\<close>

definition offset_u1 :: "('w, i32) vm_method" where
  "offset_u1 = bnd (operand_u8 1) (\<lambda>b. ret (ucast b))"

definition offset_u2 :: "('w, i32) vm_method" where
  "offset_u2 = bnd (operand_u16 1) (\<lambda>b. ret (ucast b))"

definition offset_u4 :: "('w, i32) vm_method" where
  "offset_u4 = operand_u32 1"

definition load_field :: "(vm_memory \<Rightarrow> usize \<Rightarrow> i32 \<Rightarrow> 'v vm_result) \<Rightarrow> ('v \<Rightarrow> ('w, unit) vm_method) \<Rightarrow>
  ('w, i32) vm_method \<Rightarrow> nat \<Rightarrow> ('w, unit) vm_method" where
  "load_field load push_val off len =
     bnd popR (\<lambda>base. bnd off (\<lambda>offset.
     bnd (of_memory (\<lambda>m. load m base offset)) (\<lambda>v. then_advance (push_val v) len)))"

definition store_field :: "(usize \<Rightarrow> i32 \<Rightarrow> 'v \<Rightarrow> unit mem_method) \<Rightarrow> ('w, 'v) vm_method \<Rightarrow>
  ('w, i32) vm_method \<Rightarrow> nat \<Rightarrow> ('w, unit) vm_method" where
  "store_field store pop_val off len =
     bnd pop_val (\<lambda>v. bnd popR (\<lambda>base. bnd off (\<lambda>offset.
     then_advance (on_memory (store base offset v)) len)))"

text \<open>\<open>base.wrapping_add(idx as usize * k)\<close>: the product is checked, the sum wraps.\<close>

definition elem_addr :: "usize \<Rightarrow> i32 \<Rightarrow> nat \<Rightarrow> ('w, usize) vm_method" where
  "elem_addr base idx k =
     (if unat idx * k < usize_bound then ret ((base + unat idx * k) mod usize_bound) else panic)"

definition load_array :: "(vm_memory \<Rightarrow> usize \<Rightarrow> i32 \<Rightarrow> 'v vm_result) \<Rightarrow> ('v \<Rightarrow> ('w, unit) vm_method) \<Rightarrow>
  nat \<Rightarrow> ('w, unit) vm_method" where
  "load_array load push_val k =
     bnd pop32 (\<lambda>idx. bnd popR (\<lambda>base. bnd (elem_addr base idx k) (\<lambda>addr.
     bnd (of_memory (\<lambda>m. load m addr 0)) (\<lambda>v. then_advance (push_val v) 1))))"

definition store_array :: "(usize \<Rightarrow> i32 \<Rightarrow> 'v \<Rightarrow> unit mem_method) \<Rightarrow> ('w, 'v) vm_method \<Rightarrow>
  nat \<Rightarrow> ('w, unit) vm_method" where
  "store_array store pop_val k =
     bnd pop_val (\<lambda>v. bnd pop32 (\<lambda>idx. bnd popR (\<lambda>base. bnd (elem_addr base idx k) (\<lambda>addr.
     then_advance (on_memory (store addr 0 v)) 1))))"

definition add_array :: "nat \<Rightarrow> ('w, unit) vm_method" where
  "add_array k =
     bnd pop32 (\<lambda>idx. bnd popR (\<lambda>base. bnd (elem_addr base idx k) (\<lambda>addr.
     then_advance (pushR addr) 1)))"

text \<open>Values narrower than a cell are zero-extended on the stack and truncated on a store.\<close>

definition pop_u8 :: "('w, u8) vm_method" where
  "pop_u8 = bnd pop32 (\<lambda>v. ret (ucast v))"

definition pop_u16 :: "('w, u16) vm_method" where
  "pop_u16 = bnd pop32 (\<lambda>v. ret (ucast v))"

definition push_u8 :: "u8 \<Rightarrow> ('w, unit) vm_method" where
  "push_u8 v = push (ucast v)"

definition push_u16 :: "u16 \<Rightarrow> ('w, unit) vm_method" where
  "push_u16 v = push (ucast v)"

text \<open>Byte arrays use the index as a signed offset.\<close>

primrec step_store8 :: "store8_op \<Rightarrow> ('w, unit) vm_method" where
  "step_store8 LoadDataAddr = then_advance (pushR 0) 1"
| "step_store8 Load8BitFieldU1 = load_field get_byte push_u8 offset_u1 2"
| "step_store8 Load8BitFieldU2 = load_field get_byte push_u8 offset_u2 3"
| "step_store8 Load8BitFieldU4 = load_field get_byte push_u8 offset_u4 5"
| "step_store8 Load8BitArray = bnd pop32 (\<lambda>idx. bnd popR (\<lambda>base.
     bnd (of_memory (\<lambda>m. get_byte m base idx)) (\<lambda>v. then_advance (push_u8 v) 1)))"
| "step_store8 Store8BitFieldU1 = store_field set_byte pop_u8 offset_u1 2"
| "step_store8 Store8BitFieldU2 = store_field set_byte pop_u8 offset_u2 3"
| "step_store8 Store8BitFieldU4 = store_field set_byte pop_u8 offset_u4 5"
| "step_store8 Store8BitArray = bnd pop_u8 (\<lambda>v. bnd pop32 (\<lambda>idx. bnd popR (\<lambda>base.
     then_advance (on_memory (set_byte base idx v)) 1)))"
| "step_store8 Add8BitArray = add_array 1"

primrec step_store16 :: "store16_op \<Rightarrow> ('w, unit) vm_method" where
  "step_store16 Load16BitFieldU1 = load_field get_short push_u16 offset_u1 2"
| "step_store16 Load16BitFieldU2 = load_field get_short push_u16 offset_u2 3"
| "step_store16 Load16BitFieldU4 = load_field get_short push_u16 offset_u4 5"
| "step_store16 Load16BitArray = load_array get_short push_u16 2"
| "step_store16 Store16BitFieldU1 = store_field set_short pop_u16 offset_u1 2"
| "step_store16 Store16BitFieldU2 = store_field set_short pop_u16 offset_u2 3"
| "step_store16 Store16BitFieldU4 = store_field set_short pop_u16 offset_u4 5"
| "step_store16 Store16BitArray = store_array set_short pop_u16 2"
| "step_store16 Add16BitArray = add_array 2"

primrec step_store32 :: "store32_op \<Rightarrow> ('w, unit) vm_method" where
  "step_store32 Load32BitFieldU1 = load_field get_int (\<lambda>v. push v) offset_u1 2"
| "step_store32 Load32BitFieldU2 = load_field get_int (\<lambda>v. push v) offset_u2 3"
| "step_store32 Load32BitFieldU4 = load_field get_int (\<lambda>v. push v) offset_u4 5"
| "step_store32 Load32BitArray = load_array get_int (\<lambda>v. push v) 4"
| "step_store32 Store32BitFieldU1 = store_field set_int pop32 offset_u1 2"
| "step_store32 Store32BitFieldU2 = store_field set_int pop32 offset_u2 3"
| "step_store32 Store32BitFieldU4 = store_field set_int pop32 offset_u4 5"
| "step_store32 Store32BitArray = store_array set_int pop32 4"
| "step_store32 Add32BitArray = add_array 4"

primrec step_store64 :: "store64_op \<Rightarrow> ('w, unit) vm_method" where
  "step_store64 Load64BitFieldU1 = load_field get_wide (\<lambda>v. push64 v) offset_u1 2"
| "step_store64 Load64BitFieldU2 = load_field get_wide (\<lambda>v. push64 v) offset_u2 3"
| "step_store64 Load64BitFieldU4 = load_field get_wide (\<lambda>v. push64 v) offset_u4 5"
| "step_store64 Load64BitArray = load_array get_wide (\<lambda>v. push64 v) 8"
| "step_store64 Store64BitFieldU1 = store_field set_wide pop64 offset_u1 2"
| "step_store64 Store64BitFieldU2 = store_field set_wide pop64 offset_u2 3"
| "step_store64 Store64BitFieldU4 = store_field set_wide pop64 offset_u4 5"
| "step_store64 Store64BitArray = store_array set_wide pop64 8"
| "step_store64 Add64BitArray = add_array 8"

primrec step_ref :: "ref_op \<Rightarrow> ('w, unit) vm_method" where
  "step_ref LoadRefFieldU1 = load_field get_ref (\<lambda>v. pushR v) offset_u1 2"
| "step_ref LoadRefFieldU2 = load_field get_ref (\<lambda>v. pushR v) offset_u2 3"
| "step_ref LoadRefFieldU4 = load_field get_ref (\<lambda>v. pushR v) offset_u4 5"
| "step_ref LoadRefArray = load_array get_ref (\<lambda>v. pushR v) 4"
| "step_ref StoreRefFieldU1 = store_field set_ref popR offset_u1 2"
| "step_ref StoreRefFieldU2 = store_field set_ref popR offset_u2 3"
| "step_ref StoreRefFieldU4 = store_field set_ref popR offset_u4 5"
| "step_ref StoreRefArray = store_array set_ref popR 4"
| "step_ref AddRefArray = add_array 4"

text \<open>A block index of 0 is the null constant.\<close>

definition push_const :: "u16 \<Rightarrow> ('w, unit) vm_method" where
  "push_const bix =
     bnd (of_memory (\<lambda>m. Ok (if bix \<noteq> 0 then block_to_addr m bix else 0))) (\<lambda>addr. pushR addr)"

primrec step_const :: "const_op \<Rightarrow> ('w, unit) vm_method" where
  "step_const LoadConstFieldU1 = load_field get_short push_const offset_u1 2"
| "step_const LoadConstFieldU2 = load_field get_short push_const offset_u2 3"
| "step_const LoadConstStatic = bnd (operand_u16 1) (\<lambda>bix. then_advance (push_const bix) 3)"
| "step_const LoadConstArray = load_array get_short push_const 2"

definition push_sum :: "usize \<Rightarrow> i32 \<Rightarrow> nat \<Rightarrow> ('w, unit) vm_method" where
  "push_sum base offset len = then_advance (pushR ((base + unat offset) mod usize_bound)) len"

definition inline_field :: "('w, i32) vm_method \<Rightarrow> nat \<Rightarrow> ('w, unit) vm_method" where
  "inline_field off len = bnd popR (\<lambda>base. bnd off (\<lambda>offset. push_sum base offset len))"

definition param0_inline :: "('w, i32) vm_method \<Rightarrow> nat \<Rightarrow> ('w, unit) vm_method" where
  "param0_inline off len =
     bnd param_base (\<lambda>pp. bnd (on_stack (stack_get pp)) (\<lambda>base.
     bnd off (\<lambda>offset. push_sum (unat base) offset len)))"

definition data_inline :: "('w, i32) vm_method \<Rightarrow> nat \<Rightarrow> ('w, unit) vm_method" where
  "data_inline off len = bnd off (\<lambda>offset. then_advance (pushR (unat offset)) len)"

primrec step_inline :: "inline_op \<Rightarrow> ('w, unit) vm_method" where
  "step_inline LoadInlineFieldU1 = inline_field offset_u1 2"
| "step_inline LoadInlineFieldU2 = inline_field offset_u2 3"
| "step_inline LoadInlineFieldU4 = inline_field offset_u4 5"
| "step_inline LoadParam0InlineFieldU1 = param0_inline offset_u1 2"
| "step_inline LoadParam0InlineFieldU2 = param0_inline offset_u2 3"
| "step_inline LoadParam0InlineFieldU4 = param0_inline offset_u4 5"
| "step_inline LoadDataInlineFieldU1 = data_inline offset_u1 2"
| "step_inline LoadDataInlineFieldU2 = data_inline offset_u2 3"
| "step_inline LoadDataInlineFieldU4 = data_inline offset_u4 5"

section \<open>Calls and returns\<close>

text \<open>
  The three bookkeeping cells of a frame, the frame itself and its zeroed locals. The frame
  pointer is the index of the first of the three cells.
\<close>

definition enter_frame :: "usize \<Rightarrow> usize \<Rightarrow> usize \<Rightarrow> u8 \<Rightarrow> u8 \<Rightarrow> unit stack_method" where
  "enter_frame ret_pc prev_fp addr np nl =
     sq (push_i32 (of_nat ret_pc)) (sq (push_i32 (of_nat prev_fp)) (sq (push_i32 (of_nat addr))
     (sq (\<lambda>s. push_frame \<lparr>return_pc = ret_pc, frame_pointer = sp s - 3, method_block = 0,
                          num_params = np, num_locals = nl\<rparr> s)
     (repeatM (unat nl) (push_i32 0)))))"

definition setup_call_frame :: "usize \<Rightarrow> u8 \<Rightarrow> u8 \<Rightarrow> usize \<Rightarrow> ('w, unit) vm_method" where
  "setup_call_frame method_addr np nl ret_pc =
     bnd (query (\<lambda>s. Ok (frame_base (stack s)))) (\<lambda>prev_fp.
     sq (on_stack (enter_frame ret_pc prev_fp method_addr np nl)) (modify (\<lambda>s. s\<lparr>pc := method_addr + 2\<rparr>)))"

text \<open>Read the two-byte header of the method at an address and enter it.\<close>

definition enter_method :: "usize \<Rightarrow> usize \<Rightarrow> ('w, unit) vm_method" where
  "enter_method method_addr ret_pc =
     bnd (of_memory (\<lambda>m. code_u8 m method_addr)) (\<lambda>np.
     bnd (of_memory (\<lambda>m. code_u8 m (method_addr + 1))) (\<lambda>nl.
     setup_call_frame method_addr np nl ret_pc))"

definition do_call :: "usize \<Rightarrow> ('w, unit) vm_method" where
  "do_call bix_offset =
     bnd (of_memory (\<lambda>m. code_u16 m bix_offset)) (\<lambda>bix.
     bnd (of_memory (\<lambda>m. Ok (block_to_addr m bix))) (\<lambda>method_addr.
     enter_method method_addr (bix_offset + 2)))"

definition call_virtual :: "('w, unit) vm_method" where
  "call_virtual =
     bnd (operand_u16 1) (\<lambda>method_idx.
     bnd (operand_u8 3) (\<lambda>np.
     bnd (below_top (unat np)) (\<lambda>this_at.
     bnd (on_stack (stack_get this_at)) (\<lambda>this_ref.
     bnd (of_memory (\<lambda>m. get_short m (unat this_ref) 0)) (\<lambda>vtable_bix.
     bnd (of_memory (\<lambda>m. code_u16 m (block_to_addr m vtable_bix + unat method_idx * 2)))
       (\<lambda>method_bix.
     bnd (of_memory (\<lambda>m. Ok (block_to_addr m method_bix))) (\<lambda>method_addr.
     bnd get_pc (\<lambda>p. enter_method method_addr (p + 4)))))))))"

text \<open>
  Native calls. The native receives a context over an empty buffer, the parameters in stack order
  and the outside world; it changes nothing of the machine itself.
\<close>

definition call_native :: "('w native_table \<Rightarrow> u8 \<Rightarrow> u16 \<Rightarrow> ('w, 'a) native_fn) \<Rightarrow> u8 \<Rightarrow> u16 \<Rightarrow> i32 list \<Rightarrow>
  ('w, 'a) vm_method" where
  "call_native dispatch kit_id method_id params = (\<lambda>s.
     case dispatch (natives s) kit_id method_id (context_new []) params (world s) of
       (r, _, w) \<Rightarrow> (r, s\<lparr>world := w\<rparr>))"

definition native_params :: "nat \<Rightarrow> ('w, i32 list) vm_method" where
  "native_params n = bnd (below_top n) (\<lambda>p. on_stack (get_all [p ..< p + n]))"

definition drop_params :: "nat \<Rightarrow> ('w, unit) vm_method" where
  "drop_params n = repeatM n (sq pop32 (ret ()))"

definition native_call :: "('w native_table \<Rightarrow> u8 \<Rightarrow> u16 \<Rightarrow> ('w, 'a) native_fn) \<Rightarrow>
  ('a \<Rightarrow> ('w, unit) vm_method) \<Rightarrow> ('w, unit) vm_method" where
  "native_call dispatch push_val =
     bnd (operand_u8 1) (\<lambda>kit_id.
     bnd (operand_u8 2) (\<lambda>method_id.
     bnd (operand_u8 3) (\<lambda>np.
     bnd (native_params (unat np)) (\<lambda>params.
     bnd (call_native dispatch kit_id (ucast method_id) params) (\<lambda>result.
     sq (drop_params (unat np)) (then_advance (push_val result) 4))))))"

text \<open>
  Leave the current frame: the stack pointer goes back below the parameters. \<open>fp - num_params\<close> is
  a checked subtraction, after the frame has been popped.
\<close>

definition leave_frame :: "usize stack_method" where
  "leave_frame = bnd pop_frame (\<lambda>f.
     if unat (num_params f) \<le> frame_pointer f
     then sq (set_sp (frame_pointer f - unat (num_params f))) (ret (return_pc f))
     else panic)"

definition unwind_frame :: "('w, unwind_result) vm_method" where
  "unwind_frame = bnd (on_stack leave_frame) (\<lambda>ret_pc.
     if ret_pc = 0 then ret TopLevel
     else sq (modify (\<lambda>s. s\<lparr>pc := ret_pc\<rparr>)) (ret Caller))"

definition return_value :: "('w, 'v) vm_method \<Rightarrow> ('v \<Rightarrow> ('w, unit) vm_method) \<Rightarrow> ('v \<Rightarrow> step_result) \<Rightarrow>
  ('w, step_result) vm_method" where
  "return_value pop_val push_val result =
     bnd pop_val (\<lambda>v. bnd unwind_frame (\<lambda>u. case u of
       TopLevel \<Rightarrow> ret (result v)
     | Caller \<Rightarrow> sq (push_val v) (ret Continue)))"

definition continue :: "('w, unit) vm_method \<Rightarrow> ('w, step_result) vm_method" where
  "continue m = sq m (ret Continue)"

primrec step_call :: "call_op \<Rightarrow> ('w, step_result) vm_method" where
  "step_call LoadParam0Call = continue (bnd param_base (\<lambda>pp. bnd (on_stack (stack_get pp)) (\<lambda>v.
     sq (push v) (bnd get_pc (\<lambda>p. do_call (p + 1))))))"
| "step_call Call = continue (bnd get_pc (\<lambda>p. do_call (p + 1)))"
| "step_call CallVirtual = continue call_virtual"
| "step_call CallNative = continue (native_call table_call (\<lambda>v. push v))"
| "step_call CallNativeWide = continue (native_call table_call_wide (\<lambda>v. push64 v))"
| "step_call CallNativeVoid = continue (native_call table_call (\<lambda>_. ret ()))"
| "step_call ReturnPop = return_value pop32 (\<lambda>v. push v) ReturnI32"
| "step_call ReturnPopWide = return_value pop64 (\<lambda>v. push64 v) ReturnWide"
| "step_call ReturnVoid = return_value (ret ()) (\<lambda>_. ret ()) (\<lambda>_. ReturnedVoid)"

section \<open>Miscellaneous\<close>

text \<open>Element \<open>i\<close> of the reference array points at object \<open>i\<close>; \<open>n\<close> elements are left.\<close>

primrec init_refs :: "usize \<Rightarrow> usize \<Rightarrow> nat \<Rightarrow> nat \<Rightarrow> nat \<Rightarrow> ('w, unit) vm_method" where
  "init_refs refs objs elem_size i 0 = ret ()"
| "init_refs refs objs elem_size i (Suc n) =
     (if objs + i * elem_size < usize_bound
      then sq (on_memory (set_ref (refs + i * 4) 0 (objs + i * elem_size)))
              (init_refs refs objs elem_size (i + 1) n)
      else panic)"

definition init_array :: "('w, unit) vm_method" where
  "init_array =
     bnd pop32 (\<lambda>elem_size. bnd pop32 (\<lambda>len. bnd popR (\<lambda>base.
     if base + unat len * 4 < usize_bound
     then then_advance (init_refs base (base + unat len * 4) (unat elem_size) 0 (unat len)) 1
     else panic)))"

definition init_field :: "i32 \<Rightarrow> ('w, unit) vm_method" where
  "init_field offset =
     bnd popR (\<lambda>obj. bnd (operand_u16 1) (\<lambda>bix.
     then_advance (on_memory (set_short obj offset bix)) 3))"

text \<open>The assertion counters are \<open>i32\<close> and their increment is checked.\<close>

definition count_assert :: "i32 \<Rightarrow> ('w, unit) vm_method" where
  "count_assert v = (\<lambda>s.
     if v = 0
     then (if assert_failures s = 0x7FFFFFFF then (Panic, s)
           else (Ok (), s\<lparr>assert_failures := assert_failures s + 1\<rparr>))
     else (if assert_successes s = 0x7FFFFFFF then (Panic, s)
           else (Ok (), s\<lparr>assert_successes := assert_successes s + 1\<rparr>)))"

definition assert_op :: "('w, unit) vm_method" where
  "assert_op = bnd pop32 (\<lambda>v. sq (operand_u16 1) (then_advance (count_assert v) 3))"

text \<open>Offsets of the switch table are relative to the opcode.\<close>

definition switch_op :: "('w, unit) vm_method" where
  "switch_op =
     bnd (operand_u16 1) (\<lambda>num. bnd pop32 (\<lambda>cond.
     if sint cond < 0 \<or> int (unat num) \<le> sint cond then advance (3 + unat num * 2)
     else bnd (operand_u16 (3 + unat cond * 2)) (\<lambda>offset.
       bnd get_pc (\<lambda>p. jump_rel p (sint offset)))))"

primrec step_misc :: "misc_op \<Rightarrow> ('w, unit) vm_method" where
  "step_misc InitArray = init_array"
| "step_misc InitVirt = init_field 0"
| "step_misc InitComp = init_field 2"
| "step_misc Assert = assert_op"
| "step_misc Switch = switch_op"
| "step_misc MetaSlot = advance 3"
| "step_misc SizeOf = unsupported (Misc SizeOf)"
| "step_misc Cast = unsupported (Misc Cast)"
| "step_misc LoadArrayLiteral = unsupported (Misc LoadArrayLiteral)"
| "step_misc LoadSlotId = unsupported (Misc LoadSlotId)"

section \<open>The dispatch loop\<close>

primrec exec_op :: "opcode \<Rightarrow> ('w, step_result) vm_method" where
  "exec_op (Literal x) = continue (step_literal x)"
| "exec_op (Param x) = continue (step_param x)"
| "exec_op (Local x) = continue (step_local x)"
| "exec_op (IntCmp x) = continue (step_int_cmp x)"
| "exec_op (IntMath x) = continue (step_int_math x)"
| "exec_op (LongCmp x) = continue (step_long_cmp x)"
| "exec_op (LongMath x) = continue (step_long_math x)"
| "exec_op (FloatCmp x) = continue (step_float_cmp x)"
| "exec_op (FloatMath x) = continue (step_float_math x)"
| "exec_op (DoubleCmp x) = continue (step_double_cmp x)"
| "exec_op (DoubleMath x) = continue (step_double_math x)"
| "exec_op (CastOp x) = continue (step_cast x)"
| "exec_op (GenCmp x) = continue (step_gen_cmp x)"
| "exec_op (StackOp x) = continue (step_stack x)"
| "exec_op (NearJump x) = continue (step_near_jump x)"
| "exec_op (FarJump x) = continue (step_far_jump x)"
| "exec_op (NearInt x) = continue (step_near_int x)"
| "exec_op (FarInt x) = continue (step_far_int x)"
| "exec_op (Store8 x) = continue (step_store8 x)"
| "exec_op (Store16 x) = continue (step_store16 x)"
| "exec_op (Store32 x) = continue (step_store32 x)"
| "exec_op (Store64 x) = continue (step_store64 x)"
| "exec_op (RefOp x) = continue (step_ref x)"
| "exec_op (ConstOp x) = continue (step_const x)"
| "exec_op (InlineOp x) = continue (step_inline x)"
| "exec_op (CallOp x) = step_call x"
| "exec_op (Misc x) = continue (step_misc x)"

lemmas step_simps = exec_op.simps step_literal.simps step_param.simps step_local.simps
  step_int_cmp.simps step_int_math.simps step_long_cmp.simps step_long_math.simps
  step_float_cmp.simps step_float_math.simps step_double_cmp.simps step_double_math.simps
  step_cast.simps step_gen_cmp.simps step_stack.simps step_near_jump.simps step_far_jump.simps
  step_near_int.simps step_far_int.simps step_store8.simps step_store16.simps step_store32.simps
  step_store64.simps step_ref.simps step_const.simps step_inline.simps step_call.simps
  step_misc.simps

definition fetch :: "('w, opcode) vm_method" where
  "fetch = query (\<lambda>s. bindO (code_u8 (memory s) (pc s)) (\<lambda>b.
     case try_from b of Ok op \<Rightarrow> Ok op | Err e \<Rightarrow> Err (InvalidOpcode e) | Panic \<Rightarrow> Panic))"

definition step :: "('w, step_result) vm_method" where
  "step = bnd fetch exec_op"

section \<open>A small machine\<close>

text \<open>
  Machines for concrete instances: a code segment with 4-byte blocks, a data segment of 16 zero bytes, a stack
  with eight cells above its contents, no natives.
\<close>

definition sample_vm :: "u8 list \<Rightarrow> i32 list \<Rightarrow> call_frame list \<Rightarrow> unit vm" where
  "sample_vm bytes cs fs =
     \<lparr>stack = \<lparr>cells = cs @ replicate 8 0, sp = length cs, frames = fs\<rparr>,
      memory = \<lparr>code = bytes, data = replicate 16 0, mem_block_size = 4, mem_address_width = Block16\<rparr>,
      natives = table_new, pc = 0, stopped = False, assert_failures = 0, assert_successes = 0,
      instruction_count = 0, world = ()\<rparr>"

lemma sample_vm_simps [simp]:
  "stack (sample_vm bytes cs fs) = \<lparr>cells = cs @ replicate 8 0, sp = length cs, frames = fs\<rparr>"
  "code (memory (sample_vm bytes cs fs)) = bytes" "pc (sample_vm bytes cs fs) = 0"
  "stopped (sample_vm bytes cs fs) = False" "block_to_addr (memory (sample_vm bytes cs fs)) b = unat b * 4"
  by (simp_all add: sample_vm_def block_to_addr_def)

lemma sample_code [simp]:
  "code_u8 (memory (sample_vm bytes cs fs)) i = (if i < length bytes then Ok (bytes ! i)
     else Err (PcOutOfBounds i (length bytes)))"
  by (simp add: code_u8_def pc_error_def)

end
