(* ===== verification/Vm_Safety.thy ===== *)
theory Vm_Safety
  imports Vm_Interpreter
begin

text \<open>
  What every instruction keeps, whatever the bytecode. The stack and the memory promise relations
  between the states before and after their methods: \<open>data_rel\<close> for the methods that
  work on cells, \<open>stack_rel\<close> for those that also enter and leave frames, \<open>mem_rel\<close> for stores. Two
  locales are the interfaces through which the interpreter uses these promises: a
  predicate of \<open>vm_data_invariant\<close> survives every instruction that is no call or return, one of its
  extension \<open>vm_invariant\<close> survives every step.
\<close>

section \<open>What stack methods promise\<close>

text \<open>The stack pointer and every frame lie within the cells, and the frames within their limit.\<close>

definition stack_inv :: "vm_stack \<Rightarrow> bool" where
  "stack_inv s \<longleftrightarrow> sp s \<le> length (cells s) \<and> length (frames s) \<le> MAX_FRAME_DEPTH \<and>
     (\<forall>f \<in> set (frames s). frame_pointer f + 3 \<le> length (cells s))"

definition stack_rel :: "vm_stack \<Rightarrow> vm_stack \<Rightarrow> bool" where
  "stack_rel s t \<longleftrightarrow> length (cells t) = length (cells s) \<and> (stack_inv s \<longrightarrow> stack_inv t)"

text \<open>The stronger promise of the methods that only work on cells: the frames are untouched.\<close>

definition data_rel :: "vm_stack \<Rightarrow> vm_stack \<Rightarrow> bool" where
  "data_rel s t \<longleftrightarrow> same_frame s t \<and> (stack_ok s \<longrightarrow> stack_ok t)"

definition stack_safe :: "'a stack_method \<Rightarrow> bool" where
  "stack_safe m \<longleftrightarrow> (\<forall>s. stack_rel s (snd (m s)))"

definition data_safe :: "'a stack_method \<Rightarrow> bool" where
  "data_safe m \<longleftrightarrow> (\<forall>s. data_rel s (snd (m s)))"

lemma stack_inv_new: "stack_inv (stack_new n)"
  by (simp add: stack_inv_def stack_new_def)

lemma stack_rel_refl: "stack_rel s s"
  by (simp add: stack_rel_def)

lemma stack_rel_trans: "stack_rel s t \<Longrightarrow> stack_rel t u \<Longrightarrow> stack_rel s u"
  by (simp add: stack_rel_def)

lemma data_rel_refl: "data_rel s s"
  by (simp add: data_rel_def same_frame_def)

lemma data_rel_trans: "data_rel s t \<Longrightarrow> data_rel t u \<Longrightarrow> data_rel s u"
  by (simp add: data_rel_def same_frame_def)

lemma data_rel_stack: "data_rel s t \<Longrightarrow> stack_rel s t"
  by (auto simp: data_rel_def stack_rel_def stack_inv_def same_frame_def stack_ok_def)

lemma data_safe_stack: "data_safe m \<Longrightarrow> stack_safe m"
  by (simp add: data_safe_def stack_safe_def data_rel_stack)

lemma data_safe_bnd [wp]:
  assumes "data_safe m" "\<And>a. data_safe (f a)"
  shows "data_safe (bnd m f)"
  unfolding data_safe_def
proof
  fix s
  obtain r t where m: "m s = (r, t)" by fastforce
  with assms(1) have st: "data_rel s t" by (auto simp: data_safe_def dest: spec [of _ s])
  show "data_rel s (snd (bnd m f s))"
  proof (cases r)
    case (Ok a)
    with assms(2) have "data_rel t (snd (f a t))" by (simp add: data_safe_def)
    with st m Ok show ?thesis by (auto intro: data_rel_trans)
  qed (use m st in \<open>simp_all add: bnd_def\<close>)
qed

lemma data_safe_sq [wp]: "data_safe m \<Longrightarrow> data_safe n \<Longrightarrow> data_safe (sq m n)"
  unfolding sq_def by (rule data_safe_bnd)

lemma data_safe_basic [wp]: "data_safe (ret a)" "data_safe (raise e)" "data_safe panic"
  by (simp_all add: data_safe_def monad_defs data_rel_refl)

lemma data_safe_repeatM [wp]: "data_safe m \<Longrightarrow> data_safe (repeatM n m)"
  by (induction n) (auto intro: wp)

lemma data_safe_forM [wp]: "(\<And>x. data_safe (f x)) \<Longrightarrow> data_safe (forM xs f)"
  by (induction xs) (auto intro: wp)

lemmas data_safe_defs = data_safe_def data_rel_def same_frame_def stack_ok_def

lemma data_safe_push_pop [wp]:
  "data_safe (push_i32 v)" "data_safe pop_i32" "data_safe (push_i64 w)" "data_safe pop_i64"
  by (auto simp: data_safe_defs push_i32_def pop_i32_def push_i64_def pop_i64_def index_cell_def
      bnd_def ret_def)

lemma data_safe_typed [wp]:
  "data_safe (push_f32 f)" "data_safe pop_f32" "data_safe (push_f64 d)" "data_safe pop_f64"
  "data_safe (push_ref p)" "data_safe pop_ref"
  by (auto simp: push_f32_def pop_f32_def push_f64_def pop_f64_def push_ref_def pop_ref_def
      intro: wp)

lemma data_safe_manip [wp]:
  "data_safe dup" "data_safe dup2" "data_safe dupdown2" "data_safe dupdown3"
  "data_safe pop" "data_safe pop2" "data_safe pop3"
  by (auto simp: data_safe_defs dup_def dup2_def dupdown2_def dupdown3_def pop_def pop2_def
      pop3_def Let_def)

lemma data_safe_access [wp]:
  "data_safe (stack_get i)" "data_safe (stack_set i v)"
  "data_safe (stack_get_wide i)" "data_safe (stack_set_wide i w)"
  by (auto simp: data_safe_defs stack_get_def stack_set_def stack_get_wide_def stack_set_wide_def)

lemma data_safe_get_all [wp]: "data_safe (get_all is)"
  by (induction "is") (auto intro: wp)

lemma data_safe_set_all [wp]: "data_safe (set_all ps)"
  by (induction ps) (auto intro: wp)

text \<open>A method that inspects the state first is safe if it is from every state it may see.\<close>

lemma data_safe_at: "(\<And>s. data_safe (m s)) \<Longrightarrow> data_safe (\<lambda>s. m s s)"
  by (simp add: data_safe_def)

lemma data_safe_dup2down [wp]: "data_safe (dup2down k)"
proof -
  have "data_safe (\<lambda>t. set_all (zip [sp t - (k + 4) ..< sp t] vs) t)" for vs
    by (rule data_safe_at) (rule wp)
  then have "data_safe (bnd (get_all is) (\<lambda>vs. sq (push_i32 0) (sq (push_i32 0)
      (\<lambda>t. set_all (zip [sp t - (k + 4) ..< sp t] (drop k vs @ take k vs @ drop k vs)) t))))" for "is"
    by (intro wp)
  then show ?thesis
    by (auto simp: dup2down_def data_safe_def data_rel_refl)
qed

text \<open>Entering a frame puts its pointer three cells below the stack pointer.\<close>

lemma push_i32_Ok: "push_i32 v s = (Ok (), t) \<Longrightarrow>
   stack_rel s t \<and> sp t = Suc (sp s) \<and> sp t \<le> length (cells t) \<and> frames t = frames s"
  by (auto simp: push_i32_def stack_rel_def stack_inv_def split: if_splits)

lemma push_frame_rel:
  assumes "3 \<le> sp s" "frame_pointer f = sp s - 3"
  shows "stack_rel s (snd (push_frame f s))"
  using assms by (auto simp: push_frame_def stack_rel_def stack_inv_def)

lemma stack_safe_enter_frame [wp]: "stack_safe (enter_frame ret_pc prev_fp addr np nl)"
  unfolding stack_safe_def
proof
  fix s
  let ?frame = "\<lambda>s. \<lparr>return_pc = ret_pc, frame_pointer = sp s - 3, method_block = 0,
                     num_params = np, num_locals = nl\<rparr>"
  let ?rest = "repeatM (unat nl) (push_i32 0) :: unit stack_method"
  have tail: "stack_rel t (snd (sq (\<lambda>s. push_frame (?frame s) s) ?rest t))" if "3 \<le> sp t" for t
  proof -
    have "stack_rel t (snd (push_frame (?frame t) t))"
      using that by (intro push_frame_rel) simp_all
    moreover have "stack_safe ?rest" by (intro data_safe_stack wp)
    ultimately show ?thesis
      by (auto simp: sq_def bnd_def stack_safe_def split: prod.split outcome.split
          intro: stack_rel_trans)
  qed
  have three: "stack_rel u (snd (sq (push_i32 v) n u))"
    if n: "\<And>t. sp t = Suc (sp u) \<Longrightarrow> stack_rel t (snd (n t))" for u v and n :: "unit stack_method"
  proof (cases "sp u < length (cells u)")
    case True
    then obtain t where t: "push_i32 v u = (Ok (), t)" by (auto simp: push_i32_def)
    from push_i32_Ok [OF t] have "stack_rel u t" "stack_rel t (snd (n t))" by (auto intro: n)
    with t show ?thesis by (auto simp: sq_def intro: stack_rel_trans)
  qed (simp add: sq_def bnd_def push_i32_def stack_rel_refl)
  show "stack_rel s (snd (enter_frame ret_pc prev_fp addr np nl s))"
    unfolding enter_frame_def by (intro three tail) simp
qed

lemma stack_safe_leave_frame [wp]: "stack_safe leave_frame"
  unfolding stack_safe_def
proof
  fix s
  show "stack_rel s (snd (leave_frame s))"
  proof (cases "frames s" rule: rev_cases)
    case Nil
    then show ?thesis by (simp add: leave_frame_def pop_frame_def bnd_def stack_rel_refl)
  next
    case (snoc fs f)
    then show ?thesis
      by (auto simp: leave_frame_def pop_frame_def set_sp_def monad_defs stack_rel_def stack_inv_def)
  qed
qed

section \<open>What memory methods promise\<close>

text \<open>The code, the size of the data segment and the addressing are fixed.\<close>

definition mem_rel :: "vm_memory \<Rightarrow> vm_memory \<Rightarrow> bool" where
  "mem_rel m m' \<longleftrightarrow> code m' = code m \<and> length (data m') = length (data m) \<and>
     mem_block_size m' = mem_block_size m \<and> mem_address_width m' = mem_address_width m"

definition mem_safe :: "'a mem_method \<Rightarrow> bool" where
  "mem_safe f \<longleftrightarrow> (\<forall>m. mem_rel m (snd (f m)))"

lemma mem_safe_set_bytes [wp]: "mem_safe (set_bytes base offset bs)"
  by (auto simp: mem_safe_def mem_rel_def set_bytes_def data_write_def bnd_def lift_def
      split: outcome.split)

lemma mem_safe_stores [wp]:
  "mem_safe (set_byte base offset a)" "mem_safe (set_short base offset b)"
  "mem_safe (set_int base offset c)" "mem_safe (set_float base offset d)"
  "mem_safe (set_wide base offset e)" "mem_safe (set_ref base offset p)"
  by (simp_all add: store_defs wp)


section \<open>Invariants of the machine\<close>

text \<open>The instructions that enter or leave a frame.\<close>

definition changes_frames :: "opcode \<Rightarrow> bool" where
  "changes_frames op = (case op of
     CallOp x \<Rightarrow> x \<notin> {CallNative, CallNativeWide, CallNativeVoid} | _ \<Rightarrow> False)"

text \<open>
  A predicate on the machine that survives whatever the methods on cells and the stores may do,
  every jump, every assertion and every effect of a native on the outside world.
\<close>

locale vm_data_invariant =
  fixes I :: "'w vm \<Rightarrow> bool"
  assumes inv_data: "I s \<Longrightarrow> data_rel (stack s) st \<Longrightarrow> I (s\<lparr>stack := st\<rparr>)"
    and inv_memory: "I s \<Longrightarrow> mem_rel (memory s) m \<Longrightarrow> I (s\<lparr>memory := m\<rparr>)"
    and inv_pc: "I s \<Longrightarrow> I (s\<lparr>pc := p\<rparr>)"
    and inv_failures: "I s \<Longrightarrow> I (s\<lparr>assert_failures := n\<rparr>)"
    and inv_successes: "I s \<Longrightarrow> I (s\<lparr>assert_successes := n\<rparr>)"
    and inv_world: "I s \<Longrightarrow> I (s\<lparr>world := w\<rparr>)"
begin

lemma on_stack_keeps: "data_safe m \<Longrightarrow> keeps I (on_stack m)"
  unfolding keeps_def
proof (intro allI impI)
  fix s assume "data_safe m" "I s"
  then have "data_rel (stack s) (snd (m (stack s)))" by (simp add: data_safe_def)
  with \<open>I s\<close> show "I (snd (on_stack m s))"
    by (auto simp: on_stack_def split: prod.split intro: inv_data)
qed

lemma on_memory_keeps: "mem_safe f \<Longrightarrow> keeps I (on_memory f)"
  unfolding keeps_def
proof (intro allI impI)
  fix s assume "mem_safe f" "I s"
  then have "mem_rel (memory s) (snd (f (memory s)))" by (simp add: mem_safe_def)
  with \<open>I s\<close> show "I (snd (on_memory f s))"
    by (auto simp: on_memory_def split: prod.split intro: inv_memory)
qed

lemma set_pc_keeps: "keeps I (modify (\<lambda>s. s\<lparr>pc := f s\<rparr>))"
  by (rule keeps_modify) (rule inv_pc)

lemma query_keeps:
  "keeps I (of_memory q)" "keeps I (operand_u8 k)" "keeps I (operand_u16 k)" "keeps I (operand_u32 k)"
  "keeps I param_base" "keeps I locals_base" "keeps I (below_top k)" "keeps I fetch" "keeps I get_pc"
  by (simp_all add: of_memory_def operand_u8_def operand_u16_def operand_u32_def param_base_def
      locals_base_def below_top_def fetch_def get_pc_def wp)

lemma advance_keeps: "keeps I (advance n)" "keeps I m \<Longrightarrow> keeps I (then_advance m n)"
  by (simp_all add: advance_def then_advance_def set_pc_keeps keeps_sq)

lemma jump_keeps: "keeps I (jump_rel base offset)"
  by (simp add: jump_rel_def Let_def set_pc_keeps wp)

lemma call_native_keeps: "keeps I (call_native d k m ps)"
  by (auto simp: keeps_def call_native_def split: prod.split intro: inv_world)

lemma count_assert_keeps: "keeps I (count_assert v)"
  by (auto simp: keeps_def count_assert_def intro: inv_failures inv_successes)

lemma init_refs_keeps: "keeps I (init_refs refs objs sz i n)"
  by (induction n arbitrary: i) (auto intro!: wp on_memory_keeps)

lemmas primitive_keeps = on_stack_keeps on_memory_keeps query_keeps advance_keeps set_pc_keeps
  call_native_keeps count_assert_keeps init_refs_keeps wp

lemma near_far_keeps: "keeps I near_jump" "keeps I far_jump"
  unfolding near_jump_def far_jump_def
  by (intro primitive_keeps jump_keeps)+

lemma branch_keeps: "keeps I j \<Longrightarrow> keeps I (branch j n c)"
  by (simp add: branch_def primitive_keeps)

lemma foreach_keeps: "keeps I j \<Longrightarrow> keeps I (foreach j n)"
  unfolding foreach_def Let_def by (intro primitive_keeps)

lemma native_call_keeps: "(\<And>v. keeps I (p v)) \<Longrightarrow> keeps I (native_call d p)"
  unfolding native_call_def native_params_def drop_params_def by (intro primitive_keeps)

lemma storage_keeps:
  "(\<And>v. keeps I (p v)) \<Longrightarrow> keeps I d \<Longrightarrow> keeps I (load_field l p d n)"
  "(\<And>v. keeps I (p v)) \<Longrightarrow> keeps I (load_array l p k)"
  "(\<And>b z v. mem_safe (st b z v)) \<Longrightarrow> keeps I q \<Longrightarrow> keeps I d \<Longrightarrow> keeps I (store_field st q d n)"
  "(\<And>b z v. mem_safe (st b z v)) \<Longrightarrow> keeps I q \<Longrightarrow> keeps I (store_array st q k)"
  "keeps I (add_array k)"
  unfolding load_field_def load_array_def store_field_def store_array_def add_array_def elem_addr_def
  by (intro primitive_keeps | assumption)+

lemma inline_keeps:
  "keeps I d \<Longrightarrow> keeps I (inline_field d n)" "keeps I d \<Longrightarrow> keeps I (param0_inline d n)"
  "keeps I d \<Longrightarrow> keeps I (data_inline d n)"
  unfolding inline_field_def param0_inline_def data_inline_def push_sum_def
  by (intro primitive_keeps | assumption)+

lemma narrow_keeps:
  "keeps I offset_u1" "keeps I offset_u2" "keeps I offset_u4" "keeps I pop_u8" "keeps I pop_u16"
  "keeps I (push_u8 a)" "keeps I (push_u16 b)" "keeps I (push_const b)"
  unfolding offset_u1_def offset_u2_def offset_u4_def pop_u8_def pop_u16_def push_u8_def
    push_u16_def push_const_def
  by (intro primitive_keeps)+

lemma arm_keeps:
  "keeps I p \<Longrightarrow> (\<And>v. keeps I (q v)) \<Longrightarrow> keeps I (unary p q f)"
  "keeps I p \<Longrightarrow> keeps I p' \<Longrightarrow> (\<And>v. keeps I (q v)) \<Longrightarrow> keeps I (binary p p' q g)"
  "keeps I b \<Longrightarrow> keeps I (load_at b i n)" "keeps I b \<Longrightarrow> keeps I (load_wide_at b i n)"
  "keeps I b \<Longrightarrow> keeps I (store_at b i n)" "keeps I b \<Longrightarrow> keeps I (store_wide_at b i n)"
  "(\<And>i. keeps I (w i)) \<Longrightarrow> keeps I (with_index w)"
  "keeps I (long_shift h)" "keeps I load_const32" "keeps I load_const64" "keeps I load_code_addr"
  "keeps I j \<Longrightarrow> keeps I (int_branch j n c)"
  "keeps I m \<Longrightarrow> keeps I (continue m)" "keeps I (unsupported x)"
  "keeps I init_array" "keeps I (init_field z)" "keeps I assert_op"
  unfolding unary_def binary_def load_at_def load_wide_at_def store_at_def store_wide_at_def
    with_index_def long_shift_def load_const32_def load_const64_def load_code_addr_def
    block_operand_def int_branch_def continue_def unsupported_def init_array_def init_field_def
    assert_op_def
  by (intro primitive_keeps branch_keeps | assumption)+

lemma switch_keeps: "keeps I switch_op"
  unfolding switch_op_def by (intro primitive_keeps jump_keeps)

lemmas op_keeps = arm_keeps storage_keeps inline_keeps narrow_keeps near_far_keeps branch_keeps
  foreach_keeps native_call_keeps switch_keeps primitive_keeps

lemma exec_data_keeps: "changes_frames op \<or> keeps I (exec_op op)"
proof -
  have "\<forall>op \<in> set all_opcodes. changes_frames op \<or> keeps I (exec_op op)"
    unfolding opcode_lists
    by (simp only: list.set list.map append.simps ball_simps set_append set_map ball_Un
        changes_frames_def opcode.case step_simps simp_thms call_op.distinct insert_iff empty_iff)
       (intro conjI op_keeps)
  with all_opcodes_exhaustive show ?thesis by blast
qed

end

text \<open>A predicate that survives calls and returns too.\<close>

locale vm_invariant = vm_data_invariant +
  assumes inv_stack: "I s \<Longrightarrow> stack_rel (stack s) st \<Longrightarrow> I (s\<lparr>stack := st\<rparr>)"
begin

lemma frames_keeps: "stack_safe m \<Longrightarrow> keeps I (on_stack m)"
  unfolding keeps_def
proof (intro allI impI)
  fix s assume "stack_safe m" "I s"
  then have "stack_rel (stack s) (snd (m (stack s)))" by (simp add: stack_safe_def)
  with \<open>I s\<close> show "I (snd (on_stack m s))"
    by (auto simp: on_stack_def split: prod.split intro: inv_stack)
qed

lemmas frame_keeps = frames_keeps [OF stack_safe_enter_frame] frames_keeps [OF stack_safe_leave_frame]

lemma enter_method_keeps: "keeps I (enter_method a r)"
  unfolding enter_method_def setup_call_frame_def by (intro frame_keeps primitive_keeps)

lemma do_call_keeps: "keeps I (do_call p)"
  unfolding do_call_def by (intro primitive_keeps enter_method_keeps)

lemma call_virtual_keeps: "keeps I call_virtual"
  unfolding call_virtual_def by (intro primitive_keeps enter_method_keeps)

lemma unwind_keeps: "keeps I unwind_frame"
  unfolding unwind_frame_def by (intro frame_keeps primitive_keeps)

lemma return_keeps: "keeps I p \<Longrightarrow> (\<And>v. keeps I (q v)) \<Longrightarrow> keeps I (return_value p q r)"
  unfolding return_value_def
  by (intro keeps_bnd unwind_keeps) (auto split: unwind_result.split intro: wp)

lemma step_call_keeps: "keeps I (step_call x)"
  by (cases x; simp only: step_call.simps;
      intro return_keeps do_call_keeps call_virtual_keeps op_keeps)

lemma exec_op_keeps: "keeps I (exec_op op)"
  using exec_data_keeps [of op] step_call_keeps
  by (cases op) (auto simp: changes_frames_def)

lemma step_keeps: "keeps I step"
  unfolding step_def by (intro keeps_bnd query_keeps exec_op_keeps)

end

end
