(* ===== verification/Vm_Run.thy ===== *)
theory Vm_Run
  imports Vm_Safety
begin

text \<open>
  The execution loop and the entry points of \<open>VmInterpreter\<close>. The loop is a total function: every
  step keeps the instruction counter, which the loop increments up to its limit. The interpretations of
  \<open>vm_invariant\<close> give what a run keeps of the machine.
\<close>

section \<open>Instances of the invariant interface\<close>

interpretation counter_inv: vm_invariant "\<lambda>s. instruction_count s = n"
  for n :: nat
  by unfold_locales simp_all

text \<open>The parts of a machine that execution never changes.\<close>

definition same_machine :: "'w vm \<Rightarrow> 'w vm \<Rightarrow> bool" where
  "same_machine s t \<longleftrightarrow> mem_rel (memory s) (memory t) \<and> natives t = natives s \<and>
     length (cells (stack t)) = length (cells (stack s)) \<and> stopped t = stopped s"

interpretation machine_inv: vm_invariant "same_machine s0"
  by unfold_locales (auto simp: same_machine_def stack_rel_def mem_rel_def data_rel_def same_frame_def)

interpretation bounds_inv: vm_invariant "\<lambda>s. stack_inv (stack s)"
  by unfold_locales (use data_rel_stack in \<open>auto simp: stack_rel_def\<close>)

lemma step_instruction_count: "instruction_count (snd (step s)) = instruction_count s"
  using counter_inv.step_keeps [of "instruction_count s"] by (auto simp only: keeps_def)

section \<open>The loop\<close>

definition tick :: "'w vm \<Rightarrow> 'w vm" where
  "tick s = s\<lparr>instruction_count := instruction_count s + 1\<rparr>"

function run_loop :: "'w vm \<Rightarrow> (vm_error, i32) outcome \<times> 'w vm" where
  "run_loop s =
     (if stopped s then (Err Stopped, s)
      else if instruction_count (tick s) > MAX_INSTRUCTIONS then (Err Timeout, tick s)
      else case step (tick s) of
             (Ok Continue, t) \<Rightarrow> run_loop t
           | (Ok (ReturnI32 v), t) \<Rightarrow> (Ok v, t)
           | (Ok (ReturnWide v), t) \<Rightarrow> (Ok 0, t)
           | (Ok ReturnedVoid, t) \<Rightarrow> (Ok 0, t)
           | (Err e, t) \<Rightarrow> (Err e, t)
           | (Panic, t) \<Rightarrow> (Panic, t))"
  by pat_completeness auto

termination
proof (relation "measure (\<lambda>s. MAX_INSTRUCTIONS - instruction_count s)")
  fix s :: "'w vm" and r t
  assume count: "\<not> MAX_INSTRUCTIONS < instruction_count (tick s)" and step: "(r, t) = step (tick s)"
  from step_instruction_count [of "tick s"] step have "instruction_count t = Suc (instruction_count s)"
    by (metis Suc_eq_plus1 sndI tick_def vm.select_convs(8) vm.surjective vm.update_convs(8))
  with count show "(t, s) \<in> measure (\<lambda>s. MAX_INSTRUCTIONS - instruction_count s)"
    by (simp add: tick_def)
qed simp

declare run_loop.simps [simp del]

section \<open>Entry points\<close>

text \<open>
  Push the arguments and a sentinel frame. The parameter count is truncated to a byte.
\<close>

definition enter_top :: "usize \<Rightarrow> i32 list \<Rightarrow> u8 \<Rightarrow> ('w, unit) vm_method" where
  "enter_top entry args nl =
     sq (on_stack (forM args push_i32))
        (on_stack (enter_frame 0 0 entry (of_nat (length args)) nl))"

definition start_at :: "usize \<Rightarrow> ('w, unit) vm_method" where
  "start_at p = modify (\<lambda>s. s\<lparr>pc := p, instruction_count := 0\<rparr>)"

definition execute_with_args :: "usize \<Rightarrow> i32 list \<Rightarrow> ('w, i32) vm_method" where
  "execute_with_args entry args = sq (enter_top entry args 0) (sq (start_at entry) run_loop)"

definition execute :: "usize \<Rightarrow> ('w, i32) vm_method" where
  "execute entry = execute_with_args entry []"

definition execute_method :: "usize \<Rightarrow> i32 list \<Rightarrow> ('w, i32) vm_method" where
  "execute_method entry args =
     bnd (of_memory (\<lambda>m. code_u8 m entry)) (\<lambda>np.
     bnd (of_memory (\<lambda>m. code_u8 m (entry + 1))) (\<lambda>nl.
     if unat np \<noteq> length args
     then raise (BadImage (''method at '' @ show_nat entry @ '' expects '' @ show_nat (unat np) @
                           '' params, got '' @ show_nat (length args)))
     else sq (enter_top entry args nl) (sq (start_at (entry + 2)) run_loop)))"

section \<open>Execution as a transition system\<close>

text \<open>
  One turn of the loop that goes on, and the result of one that stops. \<open>run_loop\<close> is the function
  that follows the transitions to the final state.
\<close>

inductive vm_trans :: "'w vm \<Rightarrow> 'w vm \<Rightarrow> bool" where
  go_on: "\<not> stopped s \<Longrightarrow> instruction_count s < MAX_INSTRUCTIONS \<Longrightarrow>
    step (tick s) = (Ok Continue, t) \<Longrightarrow> vm_trans s t"

inductive vm_halt :: "'w vm \<Rightarrow> (vm_error, i32) outcome \<times> 'w vm \<Rightarrow> bool" where
  halt_stopped: "stopped s \<Longrightarrow> vm_halt s (Err Stopped, s)"
| halt_timeout: "\<not> stopped s \<Longrightarrow> MAX_INSTRUCTIONS \<le> instruction_count s \<Longrightarrow>
    vm_halt s (Err Timeout, tick s)"
| halt_i32: "\<not> stopped s \<Longrightarrow> instruction_count s < MAX_INSTRUCTIONS \<Longrightarrow>
    step (tick s) = (Ok (ReturnI32 v), t) \<Longrightarrow> vm_halt s (Ok v, t)"
| halt_wide: "\<not> stopped s \<Longrightarrow> instruction_count s < MAX_INSTRUCTIONS \<Longrightarrow>
    step (tick s) = (Ok (ReturnWide w), t) \<Longrightarrow> vm_halt s (Ok 0, t)"
| halt_void: "\<not> stopped s \<Longrightarrow> instruction_count s < MAX_INSTRUCTIONS \<Longrightarrow>
    step (tick s) = (Ok ReturnedVoid, t) \<Longrightarrow> vm_halt s (Ok 0, t)"
| halt_error: "\<not> stopped s \<Longrightarrow> instruction_count s < MAX_INSTRUCTIONS \<Longrightarrow>
    step (tick s) = (Err e, t) \<Longrightarrow> vm_halt s (Err e, t)"
| halt_panic: "\<not> stopped s \<Longrightarrow> instruction_count s < MAX_INSTRUCTIONS \<Longrightarrow>
    step (tick s) = (Panic, t) \<Longrightarrow> vm_halt s (Panic, t)"

inductive_cases vm_transE: "vm_trans s t"
inductive_cases vm_haltE: "vm_halt s res"

lemma run_loop_trans: "vm_trans s t \<Longrightarrow> run_loop s = run_loop t"
  by (erule vm_transE) (simp add: run_loop.simps [of s] tick_def)

lemma run_loop_halt: "vm_halt s res \<Longrightarrow> run_loop s = res"
  by (erule vm_haltE) (simp_all add: run_loop.simps [of s] tick_def)

lemma trans_or_halt: "(\<exists>t. vm_trans s t) \<or> (\<exists>res. vm_halt s res)"
proof (cases "stopped s \<or> MAX_INSTRUCTIONS \<le> instruction_count s")
  case True
  then show ?thesis using halt_stopped halt_timeout by blast
next
  case False
  obtain r t where st: "step (tick s) = (r, t)" by fastforce
  with False have go: "\<not> stopped s" "instruction_count s < MAX_INSTRUCTIONS" by auto
  show ?thesis
  proof (cases r)
    case (Ok a)
    with st go show ?thesis
      by (cases a) (blast intro: go_on halt_i32 halt_wide halt_void)+
  qed (use st go in \<open>blast intro: halt_error halt_panic\<close>)+
qed

lemma run_loop_reaches: "\<exists>u. vm_trans\<^sup>*\<^sup>* s u \<and> vm_halt u (run_loop s)"
proof (induction s rule: run_loop.induct)
  case (1 s)
  show ?case
  proof (cases "\<exists>t. vm_trans s t")
    case True
    then obtain t where t: "vm_trans s t" by blast
    then have "\<exists>u. vm_trans\<^sup>*\<^sup>* t u \<and> vm_halt u (run_loop t)"
      by (elim vm_transE) (rule 1, auto simp: tick_def)
    with t run_loop_trans [OF t] show ?thesis by (auto intro: converse_rtranclp_into_rtranclp)
  next
    case False
    with trans_or_halt obtain res where "vm_halt s res" by blast
    with run_loop_halt show ?thesis by blast
  qed
qed


text \<open>Every turn of the loop costs one instruction, and none is left for a turn past the limit.\<close>

lemma trans_count: "vm_trans s t \<Longrightarrow> instruction_count t = Suc (instruction_count s) \<and>
   instruction_count t \<le> MAX_INSTRUCTIONS"
  by (erule vm_transE) (use step_instruction_count [of "tick s"] in \<open>simp add: tick_def\<close>)

lemma trans_pow_count: "(vm_trans ^^ k) s t \<Longrightarrow> instruction_count t = instruction_count s + k \<and>
   (0 < k \<longrightarrow> instruction_count t \<le> MAX_INSTRUCTIONS)"
  by (induction k arbitrary: t) (auto dest: trans_count)

lemma halt_count:
  assumes "vm_halt s (r, t)" "instruction_count s \<le> MAX_INSTRUCTIONS"
  shows "instruction_count t \<le> Suc MAX_INSTRUCTIONS"
  using assms step_instruction_count [of "tick s"] by (auto elim!: vm_haltE simp: tick_def)

section \<open>What a run keeps\<close>


text \<open>A machine invariant that does not look at the counter either survives whole runs.\<close>

locale vm_run_invariant = vm_invariant +
  assumes inv_count: "I s \<Longrightarrow> I (s\<lparr>instruction_count := n\<rparr>)"
begin

lemma tick_inv: "I s \<Longrightarrow> I (tick s)"
  unfolding tick_def by (rule inv_count)

lemma step_inv: "I s \<Longrightarrow> step (tick s) = (r, t) \<Longrightarrow> I t"
  using step_keeps tick_inv by (fastforce simp: keeps_def dest: spec [of _ "tick s"])

lemma trans_inv: "vm_trans s t \<Longrightarrow> I s \<Longrightarrow> I t"
  by (erule vm_transE) (rule step_inv)

lemma reach_inv: "vm_trans\<^sup>*\<^sup>* s t \<Longrightarrow> I s \<Longrightarrow> I t"
  by (induction rule: rtranclp_induct) (auto intro: trans_inv)

lemma halt_inv: "vm_halt s (r, t) \<Longrightarrow> I s \<Longrightarrow> I t"
  by (erule vm_haltE) (auto intro: step_inv tick_inv)

lemma run_loop_keeps: "keeps I run_loop"
  unfolding keeps_def
proof (intro allI impI)
  fix s assume "I s"
  obtain u where u: "vm_trans\<^sup>*\<^sup>* s u" "vm_halt u (run_loop s)" using run_loop_reaches by blast
  then show "I (snd (run_loop s))"
    using reach_inv [OF u(1) \<open>I s\<close>] halt_inv by (cases "run_loop s") auto
qed

lemma enter_top_keeps: "keeps I (enter_top entry args nl)"
  unfolding enter_top_def by (intro frame_keeps primitive_keeps)

lemma start_at_keeps: "keeps I (start_at p)"
  unfolding start_at_def by (rule keeps_modify) (use inv_pc inv_count in force)

lemma execute_keeps:
  "keeps I (execute_with_args entry args)" "keeps I (execute entry)"
  "keeps I (execute_method entry args)"
  unfolding execute_def execute_with_args_def execute_method_def
  by (intro primitive_keeps enter_top_keeps start_at_keeps run_loop_keeps)+

end

interpretation machine_run: vm_run_invariant "same_machine s0"
  for s0 :: "'w vm"
  by unfold_locales (simp add: same_machine_def)

interpretation bounds_run: vm_run_invariant "\<lambda>s. stack_inv (stack s)"
  by unfold_locales simp

lemma same_machine_refl: "same_machine s s"
  by (simp add: same_machine_def mem_rel_def)

lemma reach_pow_bound:
  assumes "(vm_trans ^^ k) s u" shows "k \<le> MAX_INSTRUCTIONS - instruction_count s"
  using trans_pow_count [OF assms] by (cases k) auto

section \<open>Properties\<close>

text \<open>
  C18 Termination and refinement: the loop returns a result and a final state exactly when the transition
  system reaches, in at most as many transitions as the instruction budget has left, a state that halts with
  them. So every run ends, its result is unique, and a run from a fresh counter executes at most
  ten million instructions.
\<close>

theorem run_loop_iff:
  "run_loop s = res \<longleftrightarrow>
     (\<exists>k u. k \<le> MAX_INSTRUCTIONS - instruction_count s \<and> (vm_trans ^^ k) s u \<and> vm_halt u res)"
proof
  assume res: "run_loop s = res"
  obtain u where u: "vm_trans\<^sup>*\<^sup>* s u" "vm_halt u (run_loop s)" using run_loop_reaches by blast
  then obtain k where "(vm_trans ^^ k) s u" by (auto dest: rtranclp_imp_relpowp)
  with reach_pow_bound u(2) res
  show "\<exists>k u. k \<le> MAX_INSTRUCTIONS - instruction_count s \<and> (vm_trans ^^ k) s u \<and> vm_halt u res" by blast
next
  assume "\<exists>k u. k \<le> MAX_INSTRUCTIONS - instruction_count s \<and> (vm_trans ^^ k) s u \<and> vm_halt u res"
  then obtain u where u: "vm_trans\<^sup>*\<^sup>* s u" "vm_halt u res" by (auto dest: relpowp_imp_rtranclp)
  from u(1) have "run_loop s = run_loop u"
    by (induction rule: rtranclp_induct) (auto dest: run_loop_trans)
  with run_loop_halt [OF u(2)] show "run_loop s = res" by simp
qed

text \<open>
  C32 Isolation: executing any bytecode from any entry point, with or without an error, changes neither the code
  segment nor the size of the data segment, the native table, the size of the stack or the
  stop flag.
\<close>

theorem execute_keeps_machine:
  "same_machine s (snd (execute_with_args entry args s)) \<and>
   same_machine s (snd (execute_method entry args s))"
  using machine_run.execute_keeps(1) [of s entry args] machine_run.execute_keeps(3) [of s entry args]
    same_machine_refl [of s]
  by (simp add: keeps_def)



end
