(* ===== verification/Vm_Balance.thy ===== *)
theory Vm_Balance
  imports Vm_Run
begin

text \<open>
  The call stack over a whole run: the frames above the entry frame all have a return address, so
  the run ends when the entry frame itself is left, and the stack pointer and the frames are then
  what they were before the entry.
\<close>

section \<open>One step on the frames\<close>

interpretation fixed_frames: vm_data_invariant "\<lambda>s. frames (stack s) = fs"
  for fs :: "call_frame list"
  by unfold_locales (auto simp: data_rel_def same_frame_def)

lemma data_step_frames:
  assumes "\<not> changes_frames op" "exec_op op s = (Ok r, t)"
  shows "frames (stack t) = frames (stack s) \<and> r = Continue"
proof -
  have "keeps (\<lambda>u. frames (stack u) = frames (stack s)) (exec_op op)"
    using fixed_frames.exec_data_keeps [of op "frames (stack s)"] assms(1) by blast
  with assms(2) have "frames (stack t) = frames (stack s)"
    by (auto simp: keeps_def dest: spec [of _ s])
  moreover have "r = Continue"
  proof (cases op)
    case (CallOp x)
    with assms show ?thesis
      by (cases x) (auto simp: changes_frames_def continue_def sq_def bnd_eq_Ok ret_def)
  qed (use assms(2) in \<open>auto simp: continue_def sq_def bnd_eq_Ok ret_def\<close>)
  ultimately show ?thesis by blast
qed

lemma data_safe_frames: "data_safe m \<Longrightarrow> m s = (r, t) \<Longrightarrow> frames t = frames s"
  by (auto simp: data_safe_def data_rel_def same_frame_def dest: spec [of _ s])

lemma enter_frame_frames:
  assumes "enter_frame ret_pc prev addr np nl s = (Ok (), t)"
  shows "\<exists>f. frames t = frames s @ [f] \<and> return_pc f = ret_pc \<and> frame_pointer f = sp s \<and> num_params f = np"
proof -
  have p: "push_i32 v a = (Ok (), b) \<Longrightarrow> frames b = frames a \<and> sp b = Suc (sp a)" for v a b
    by (auto dest: push_i32_Ok)
  have q: "repeatM n (push_i32 0) a = (Ok (), b) \<Longrightarrow> frames b = frames a" for n a b
    by (rule data_safe_frames [of "repeatM n (push_i32 0)"]) (intro wp)
  from assms show ?thesis
    by (auto simp: enter_frame_def sq_def bnd_eq_Ok push_frame_def numeral_3_eq_3 split: if_splits
        dest!: p q)
qed

lemma on_stack_Ok: "on_stack m s = (Ok a, t) \<longleftrightarrow> (\<exists>st. m (stack s) = (Ok a, st) \<and> t = s\<lparr>stack := st\<rparr>)"
  by (auto simp: on_stack_def split: prod.splits)

lemma query_Ok: "query q s = (Ok a, t) \<longleftrightarrow> q s = Ok a \<and> t = s"
  by (auto simp: query_def)

text \<open>How a step moves between frames.\<close>

definition pushes_frame :: "'w vm \<Rightarrow> 'w vm \<Rightarrow> bool" where
  "pushes_frame s t \<longleftrightarrow> (\<exists>f. frames (stack t) = frames (stack s) @ [f] \<and> return_pc f \<noteq> 0)"

definition pops_frame :: "(usize \<Rightarrow> bool) \<Rightarrow> 'w vm \<Rightarrow> 'w vm \<Rightarrow> bool" where
  "pops_frame P s t \<longleftrightarrow> (\<exists>f. frames (stack s) = frames (stack t) @ [f] \<and> P (return_pc f))"

lemma enter_method_frames: "enter_method a r s = (Ok (), t) \<Longrightarrow> r \<noteq> 0 \<Longrightarrow> pushes_frame s t"
  by (auto simp: enter_method_def setup_call_frame_def bnd_eq_Ok sq_def of_memory_def query_Ok
      on_stack_Ok modify_def pushes_frame_def dest!: enter_frame_frames)

lemma leave_frame_frames:
  "leave_frame s = (Ok r, t) \<Longrightarrow> \<exists>f. frames s = frames t @ [f] \<and> return_pc f = r \<and>
     sp t = frame_pointer f - unat (num_params f)"
  by (cases "frames s" rule: rev_cases)
     (auto simp: leave_frame_def pop_frame_def set_sp_def monad_defs split: if_splits)

lemma unwind_frames:
  "unwind_frame s = (Ok u, t) \<Longrightarrow> \<exists>f. frames (stack s) = frames (stack t) @ [f] \<and>
     sp (stack t) = frame_pointer f - unat (num_params f) \<and>
     (case u of TopLevel \<Rightarrow> return_pc f = 0 | Caller \<Rightarrow> return_pc f \<noteq> 0)"
  by (auto simp: unwind_frame_def bnd_eq_Ok on_stack_Ok sq_def modify_def ret_def
      split: if_splits dest!: leave_frame_frames)

lemma popped_frames: "data_safe m \<Longrightarrow> on_stack m s = (Ok a, t) \<Longrightarrow> frames (stack t) = frames (stack s)"
  by (auto simp: on_stack_Ok dest: data_safe_frames)

text \<open>Leaving a frame with a value: to a caller, which goes on, or to the top level, which ends the run.\<close>

definition ends_run :: "'w vm \<Rightarrow> 'w vm \<Rightarrow> bool" where
  "ends_run s t \<longleftrightarrow> (\<exists>f. frames (stack s) = frames (stack t) @ [f] \<and> return_pc f = 0 \<and>
     sp (stack t) = frame_pointer f - unat (num_params f))"

lemma return_value_frames:
  assumes "return_value p q res s = (Ok r, t)" "\<And>v. res v \<noteq> Continue"
    and pop: "\<And>v a b. p a = (Ok v, b) \<Longrightarrow> frames (stack b) = frames (stack a)"
    and push: "\<And>v a b. q v a = (Ok (), b) \<Longrightarrow> frames (stack b) = frames (stack a)"
  shows "if r = Continue then pops_frame (\<lambda>p. p \<noteq> 0) s t else ends_run s t"
proof -
  from assms(1) obtain v a u b where run: "p s = (Ok v, a)" "unwind_frame a = (Ok u, b)"
    and rest: "(case u of TopLevel \<Rightarrow> ret (res v) | Caller \<Rightarrow> sq (q v) (ret Continue)) b = (Ok r, t)"
    by (auto simp: return_value_def bnd_eq_Ok)
  from unwind_frames [OF run(2)] pop [OF run(1)] obtain f where
    f: "frames (stack s) = frames (stack b) @ [f]" "sp (stack b) = frame_pointer f - unat (num_params f)"
      "case u of TopLevel \<Rightarrow> return_pc f = 0 | Caller \<Rightarrow> return_pc f \<noteq> 0" by auto
  show ?thesis
  proof (cases u)
    case TopLevel
    with rest f assms(2) show ?thesis by (auto simp: ret_def ends_run_def)
  next
    case Caller
    with rest obtain "q v b = (Ok (), t)" "r = Continue" by (auto simp: sq_def bnd_eq_Ok ret_def)
    with push [of v b t] f Caller show ?thesis by (auto simp: pops_frame_def)
  qed
qed

lemma pushes_frame_after: "pushes_frame u t \<Longrightarrow> frames (stack u) = frames (stack s) \<Longrightarrow> pushes_frame s t"
  by (simp add: pushes_frame_def)

lemma do_call_frames: "do_call p s = (Ok (), t) \<Longrightarrow> pushes_frame s t"
  by (auto simp: do_call_def bnd_eq_Ok of_memory_def query_Ok dest: enter_method_frames)

lemma call_virtual_frames: "call_virtual s = (Ok (), t) \<Longrightarrow> pushes_frame s t"
  by (auto simp: call_virtual_def bnd_eq_Ok of_memory_def query_Ok operand_u8_def operand_u16_def
      below_top_def get_pc_def elim!: pushes_frame_after [OF enter_method_frames]
      dest: popped_frames [rotated] intro: wp)

lemma call_frames:
  assumes "step_call x s = (Ok r, t)" "changes_frames (CallOp x)"
  shows "if r = Continue then pushes_frame s t \<or> pops_frame (\<lambda>p. p \<noteq> 0) s t else ends_run s t"
proof -
  have stk: "on_stack m a = (Ok v, b) \<Longrightarrow> frames (stack b) = frames (stack a)" if "data_safe m"
    for m :: "'b stack_method" and a b :: "'a vm" and v
    using popped_frames [OF that] by blast
  note pops = stk [OF data_safe_push_pop(1)] stk [OF data_safe_push_pop(2)]
    stk [OF data_safe_push_pop(3)] stk [OF data_safe_push_pop(4)] stk [OF data_safe_access(1)]
  show ?thesis
  proof (cases x)
    case LoadParam0Call
    with assms(1) show ?thesis
      by (auto simp: continue_def sq_def bnd_eq_Ok ret_def param_base_def get_pc_def query_Ok
          dest!: do_call_frames pops elim: pushes_frame_after)
  qed (use assms in \<open>auto simp: changes_frames_def continue_def sq_def bnd_eq_Ok ret_def get_pc_def query_Ok
         split: if_splits intro: do_call_frames call_virtual_frames
         dest!: return_value_frames dest: pops\<close>)
qed

lemma step_frames:
  assumes "step s = (Ok r, t)"
  shows "if r = Continue then frames (stack t) = frames (stack s) \<or> pushes_frame s t \<or>
      pops_frame (\<lambda>p. p \<noteq> 0) s t else ends_run s t"
proof -
  from assms obtain op where op: "exec_op op s = (Ok r, t)"
    by (auto simp: step_def fetch_def bnd_eq_Ok query_Ok)
  show ?thesis
  proof (cases "changes_frames op")
    case True
    then obtain x where "op = CallOp x" by (cases op) (auto simp: changes_frames_def)
    with call_frames [of x s r t] op True show ?thesis by (auto split: if_splits)
  next
    case False
    with data_step_frames [OF False op] show ?thesis by simp
  qed
qed

section \<open>The frames of a run\<close>

text \<open>The entry frame is the only one without a return address.\<close>

definition above_entry :: "call_frame list \<Rightarrow> call_frame \<Rightarrow> 'w vm \<Rightarrow> bool" where
  "above_entry fs f s \<longleftrightarrow> (\<exists>more. frames (stack s) = fs @ f # more \<and> (\<forall>g \<in> set more. return_pc g \<noteq> 0))"

lemma frames_tick [simp]: "stack (tick s) = stack s"
  by (simp add: tick_def)

lemma above_entry_pushed:
  assumes "above_entry fs f s" "pushes_frame s t" shows "above_entry fs f t"
proof -
  from assms obtain more g where "frames (stack t) = fs @ f # (more @ [g])"
    "\<forall>g \<in> set more. return_pc g \<noteq> 0" "return_pc g \<noteq> 0"
    by (auto simp: above_entry_def pushes_frame_def)
  then show ?thesis unfolding above_entry_def by (intro exI [of _ "more @ [g]"]) auto
qed

lemma above_entry_popped:
  assumes "above_entry fs f s" "return_pc f = 0" "pops_frame (\<lambda>p. p \<noteq> 0) s t"
  shows "above_entry fs f t"
proof -
  from assms obtain more g where m: "frames (stack s) = fs @ f # more" "\<forall>g \<in> set more. return_pc g \<noteq> 0"
    and g: "frames (stack s) = frames (stack t) @ [g]" "return_pc g \<noteq> 0"
    by (auto simp: above_entry_def pops_frame_def)
  show ?thesis
  proof (cases more rule: rev_cases)
    case Nil
    with m g assms(2) show ?thesis by auto
  next
    case (snoc more' g')
    with m g show ?thesis by (auto simp: above_entry_def)
  qed
qed

lemma above_entry_trans:
  assumes "vm_trans s t" "above_entry fs f s" "return_pc f = 0"
  shows "above_entry fs f t"
proof -
  from assms(1) have step: "step (tick s) = (Ok Continue, t)" by (rule vm_transE)
  have tick: "above_entry fs f (tick s)" using assms(2) by (simp add: above_entry_def)
  from step_frames [OF step] consider "frames (stack t) = frames (stack (tick s))"
    | "pushes_frame (tick s) t" | "pops_frame (\<lambda>p. p \<noteq> 0) (tick s) t" by auto
  then show ?thesis
  proof cases
    case 1
    with tick show ?thesis by (simp add: above_entry_def)
  qed (use above_entry_pushed [OF tick] above_entry_popped [OF tick assms(3)] in blast)+
qed

lemma above_entry_end:
  assumes "above_entry fs f s" "ends_run s t"
  shows "frames (stack t) = fs \<and> sp (stack t) = frame_pointer f - unat (num_params f)"
proof -
  from assms obtain more g where m: "frames (stack s) = fs @ f # more" "\<forall>g \<in> set more. return_pc g \<noteq> 0"
    and g: "frames (stack s) = frames (stack t) @ [g]" "return_pc g = 0"
      "sp (stack t) = frame_pointer g - unat (num_params g)"
    by (auto simp: above_entry_def ends_run_def)
  from m g(1,2) have "more = []" by (cases more rule: rev_cases) auto
  with m g show ?thesis by simp
qed

lemma run_loop_end:
  assumes "run_loop s = (Ok v, t)" "above_entry fs f s" "return_pc f = 0"
  shows "frames (stack t) = fs \<and> sp (stack t) = frame_pointer f - unat (num_params f)"
proof -
  obtain u where u: "vm_trans\<^sup>*\<^sup>* s u" "vm_halt u (Ok v, t)" using run_loop_reaches assms(1) by metis
  from u(1) have above: "above_entry fs f u"
    by (induction rule: rtranclp_induct) (use assms above_entry_trans in auto)
  from u(2) obtain r where r: "step (tick u) = (Ok r, t)" "r \<noteq> Continue" by (cases rule: vm_haltE) auto
  have "ends_run (tick u) t" using step_frames [OF r(1)] r(2) by simp
  moreover have "above_entry fs f (tick u)" using above by (simp add: above_entry_def)
  ultimately show ?thesis by (intro above_entry_end)
qed

lemma enter_top_frames:
  assumes "enter_top entry args nl s = (Ok (), t)" "stack_ok (stack s)"
  shows "\<exists>f. frames (stack t) = frames (stack s) @ [f] \<and> return_pc f = 0 \<and>
    frame_pointer f = sp (stack s) + length args \<and> num_params f = of_nat (length args)"
proof -
  have push: "forM vs push_i32 a = (Ok (), b) \<Longrightarrow> sp b = sp a + length vs \<and> frames b = frames a" for vs a b
    by (induction vs arbitrary: a) (auto simp: ret_def sq_def bnd_eq_Ok dest!: push_i32_Ok)
  from assms(1) show ?thesis
    by (auto simp: enter_top_def sq_def bnd_eq_Ok on_stack_Ok dest!: push enter_frame_frames)
qed

lemma start_at_stack: "start_at p s = (r, t) \<Longrightarrow> stack t = stack s"
  by (auto simp: start_at_def modify_def)

lemma run_from_entry:
  assumes "sq (enter_top entry args nl) (sq (start_at p) run_loop) s = (Ok v, t)"
    and "stack_ok (stack s)" "length args < 256"
  shows "frames (stack t) = frames (stack s) \<and> sp (stack t) = sp (stack s)"
proof -
  from assms(1) obtain a b where run: "enter_top entry args nl s = (Ok (), a)"
    "start_at p a = (Ok (), b)" "run_loop b = (Ok v, t)" by (auto simp: sq_def bnd_eq_Ok)
  from enter_top_frames [OF run(1) assms(2)] obtain f where
    f: "frames (stack a) = frames (stack s) @ [f]" "return_pc f = 0"
      "frame_pointer f = sp (stack s) + length args" "num_params f = of_nat (length args)" by blast
  have "above_entry (frames (stack s)) f b"
    using start_at_stack [OF run(2)] f(1) by (simp add: above_entry_def)
  from run_loop_end [OF run(3) this f(2)] show ?thesis
    using f(3,4) assms(3) by (simp add: unat_of_nat)
qed

section \<open>Properties\<close>



end
