(* ===== verification/Vm_Semantics.thy ===== *)
theory Vm_Semantics
  imports Vm_Safety
begin

text \<open>
  The operand stack semantics of the instructions that only compute: each consumes a number of
  cells from the top of the stack and replaces them by cells that are a function of them. The
  specification gives that number and that function for every such opcode; the refinement lemma says
  the interpreter's array-and-pointer implementation does exactly this, advances by one byte, and
  otherwise fails with the overflow or underflow error that applies.
\<close>

section \<open>Effects\<close>

type_synonym effect = "nat \<times> (i32 list \<Rightarrow> i32 list)"

definition implements :: "('w, unit) vm_method \<Rightarrow> effect \<Rightarrow> bool" where
  "implements m e \<longleftrightarrow> (\<forall>s. stack_ok (stack s) \<longrightarrow>
     (\<forall>xs ins. contents (stack s) = xs @ ins \<and> length ins = fst e \<longrightarrow>
       (if length xs + length (snd e ins) \<le> length (cells (stack s))
        then \<exists>st. m s = (Ok (), s\<lparr>stack := st, pc := pc s + 1\<rparr>) \<and> stack_ok st \<and>
                  same_frame (stack s) st \<and> contents st = xs @ snd e ins
        else fst (m s) = Err StackOverflow)) \<and>
     (sp (stack s) < fst e \<longrightarrow> fst (m s) = Err StackUnderflow))"

lemma implementsI:
  assumes "\<And>s xs ins. stack_ok (stack s) \<Longrightarrow> contents (stack s) = xs @ ins \<Longrightarrow> length ins = n \<Longrightarrow>
      length xs + length (f ins) \<le> length (cells (stack s)) \<Longrightarrow>
      \<exists>st. m s = (Ok (), s\<lparr>stack := st, pc := pc s + 1\<rparr>) \<and> stack_ok st \<and>
           same_frame (stack s) st \<and> contents st = xs @ f ins"
    and "\<And>s xs ins. stack_ok (stack s) \<Longrightarrow> contents (stack s) = xs @ ins \<Longrightarrow> length ins = n \<Longrightarrow>
      length (cells (stack s)) < length xs + length (f ins) \<Longrightarrow> fst (m s) = Err StackOverflow"
    and "\<And>s. stack_ok (stack s) \<Longrightarrow> sp (stack s) < n \<Longrightarrow> fst (m s) = Err StackUnderflow"
  shows "implements m (n, f)"
  using assms by (simp add: implements_def not_le)

lemma implementsD:
  assumes "implements m e" "stack_ok (stack s)"
  shows "contents (stack s) = xs @ ins \<Longrightarrow> length ins = fst e \<Longrightarrow>
      length xs + length (snd e ins) \<le> length (cells (stack s)) \<Longrightarrow>
      \<exists>st. m s = (Ok (), s\<lparr>stack := st, pc := pc s + 1\<rparr>) \<and> stack_ok st \<and>
           same_frame (stack s) st \<and> contents st = xs @ snd e ins"
    and "contents (stack s) = xs @ ins \<Longrightarrow> length ins = fst e \<Longrightarrow>
      length (cells (stack s)) < length xs + length (snd e ins) \<Longrightarrow> fst (m s) = Err StackOverflow"
    and "sp (stack s) < fst e \<Longrightarrow> fst (m s) = Err StackUnderflow"
  using assms unfolding implements_def by (simp_all only: if_True if_False not_le [symmetric] simp_thms)

section \<open>Popping and pushing typed values\<close>

text \<open>
  The clients of \<open>typed_cells\<close>: a value type whose every run of cells decodes to a value
  (\<open>dec\<close>), which is how the interpreter pops operands.
\<close>

locale decoded_cells = typed_cells +
  fixes dec :: "i32 list \<Rightarrow> 'a"
  assumes dec_fits: "length cs = width \<Longrightarrow> fits (dec cs)"
    and cells_of_dec: "length cs = width \<Longrightarrow> cells_of (dec cs) = cs"
begin

lemma pop_vm:
  assumes "stack_ok (stack s)" "contents (stack s) = xs @ cs" "length cs = width"
  shows "\<exists>st. on_stack pop_val s = (Ok (dec cs), s\<lparr>stack := st\<rparr>) \<and> stack_ok st \<and>
              same_frame (stack s) st \<and> contents st = xs"
  using pop_some [OF assms(1) dec_fits [OF assms(3)]] assms(2,3)
  by (auto simp: on_stack_def cells_of_dec)

lemma push_vm:
  assumes "stack_ok (stack s)" "length (contents (stack s)) + width \<le> length (cells (stack s))"
  shows "\<exists>st. then_advance (on_stack (push v)) 1 s = (Ok (), s\<lparr>stack := st, pc := pc s + 1\<rparr>) \<and>
              stack_ok st \<and> same_frame (stack s) st \<and> contents st = contents (stack s) @ cells_of v"
proof -
  from assms(2) length_contents [OF assms(1)] have "sp (stack s) + width \<le> length (cells (stack s))"
    by simp
  from push_room [OF assms(1) this, of v] show ?thesis
    by (auto simp: on_stack_def then_advance_def advance_def sq_def bnd_def modify_def)
qed

lemma push_vm_full:
  assumes "stack_ok (stack s)" "length (cells (stack s)) < length (contents (stack s)) + width"
  shows "fst (then_advance (on_stack (push v)) 1 s) = Err StackOverflow"
  using push_full [OF assms(1)] assms(2) length_contents [OF assms(1)]
  by (simp add: on_stack_def then_advance_def sq_def bnd_def)

lemma pop_vm_empty: "sp (stack s) < width \<Longrightarrow> on_stack pop_val s = (Err StackUnderflow, s)"
  by (simp add: on_stack_def pop_none)

text \<open>With enough cells, a pop succeeds and takes \<open>width\<close> of them.\<close>

lemma pop_vm_some:
  assumes "stack_ok (stack s)" "width \<le> sp (stack s)"
  obtains v st where "on_stack pop_val s = (Ok v, s\<lparr>stack := st\<rparr>)" "stack_ok st"
    "sp st = sp (stack s) - width"
proof -
  let ?c = "contents (stack s)" and ?n = "sp (stack s) - width"
  have len: "length ?c = sp (stack s)" by (rule length_contents [OF assms(1)])
  have "?c = take ?n ?c @ drop ?n ?c" "length (drop ?n ?c) = width" using assms(2) len by simp_all
  from pop_vm [OF assms(1) this] obtain v st where st: "on_stack pop_val s = (Ok v, s\<lparr>stack := st\<rparr>)"
    "stack_ok st" "contents st = take ?n ?c" by blast
  from length_contents [OF st(2)] have "sp st = ?n" using st(3) len by simp
  with st(1,2) show thesis by (rule that)
qed

end

interpretation i32_dec: decoded_cells push_i32 pop_i32 "\<lambda>v. [v]" 1 "\<lambda>_. True" hd
  by unfold_locales (auto simp: length_Suc_conv)

interpretation f32_dec: decoded_cells push_f32 pop_f32 "\<lambda>v. [v]" 1 "\<lambda>_. True" hd
  by unfold_locales (auto simp: length_Suc_conv)

interpretation i64_dec: decoded_cells push_i64 pop_i64 "\<lambda>v. [lo_cell v, hi_cell v]" 2 "\<lambda>_. True"
  "\<lambda>cs. join_cells (cs ! 0) (cs ! 1)"
  by unfold_locales (auto simp: length_Suc_conv numeral_2_eq_2)

interpretation f64_dec: decoded_cells push_f64 pop_f64 "\<lambda>v. [lo_cell v, hi_cell v]" 2 "\<lambda>_. True"
  "\<lambda>cs. join_cells (cs ! 0) (cs ! 1)"
  by unfold_locales (auto simp: length_Suc_conv numeral_2_eq_2)

interpretation ref_dec: decoded_cells push_ref pop_ref "\<lambda>p. [of_nat p]" 1 "\<lambda>p. p < usize_bound"
  "\<lambda>cs. unat (hd cs)"
  by unfold_locales (auto simp: length_Suc_conv unsigned_less [where 'a = nat and 'b = 32, simplified])

section \<open>The shapes of an arm\<close>

lemma unary_implements:
  assumes "decoded_cells pu po ci wi Fi di" "decoded_cells pu' po' co wo Fo do"
  shows "implements (unary (on_stack po :: ('w, _) vm_method) (\<lambda>v. on_stack (pu' v)) g) (wi, \<lambda>cs. co (g (di cs)))"
proof (rule implementsI)
  note len = typed_cells.length_cells_of [OF decoded_cells.axioms(1) [OF assms(2)]]
  fix s :: "'w vm" and xs ins
  assume s: "stack_ok (stack s)" "contents (stack s) = xs @ ins" "length ins = wi"
  from decoded_cells.pop_vm [OF assms(1) s] obtain st where
    st: "on_stack po s = (Ok (di ins), s\<lparr>stack := st\<rparr>)" "stack_ok st" "same_frame (stack s) st"
      "contents st = xs" by blast
  let ?u = "s\<lparr>stack := st\<rparr>"
  { assume "length xs + length (co (g (di ins))) \<le> length (cells (stack s))"
    with st len have "length (contents (stack ?u)) + wo \<le> length (cells (stack ?u))"
      by (simp add: same_frame_def)
    from decoded_cells.push_vm [OF assms(2) _ this, of "g (di ins)"] st
    show "\<exists>st. unary (on_stack po) (\<lambda>v. on_stack (pu' v)) g s = (Ok (), s\<lparr>stack := st, pc := pc s + 1\<rparr>) \<and>
       stack_ok st \<and> same_frame (stack s) st \<and> contents st = xs @ co (g (di ins))"
      by (auto simp: unary_def same_frame_def) }
  assume "length (cells (stack s)) < length xs + length (co (g (di ins)))"
  with st len have "length (cells (stack ?u)) < length (contents (stack ?u)) + wo"
    by (simp add: same_frame_def)
  from decoded_cells.push_vm_full [OF assms(2) _ this] st
  show "fst (unary (on_stack po) (\<lambda>v. on_stack (pu' v)) g s) = Err StackOverflow"
    by (simp add: unary_def)
next
  fix s :: "'w vm" assume "sp (stack s) < wi"
  then show "fst (unary (on_stack po) (\<lambda>v. on_stack (pu' v)) g s) = Err StackUnderflow"
    by (simp add: unary_def bnd_def decoded_cells.pop_vm_empty [OF assms(1)])
qed

text \<open>Two operands, the second on top; their types may differ.\<close>

lemma binary_implements_gen:
  assumes "decoded_cells pa qa ca wa Fa da" "decoded_cells pb qb cb wb Fb db"
    and "decoded_cells pu' po' co wo Fo do"
  shows "implements (bnd (on_stack qb :: ('w, _) vm_method)
      (\<lambda>b. bnd (on_stack qa) (\<lambda>a. then_advance (on_stack (pu' (g a b))) 1)))
    (wa + wb, \<lambda>cs. co (g (da (take wa cs)) (db (drop wa cs))))"
    (is "implements ?m _")
proof -
  have rest: "implements (unary (on_stack qa :: ('w, _) vm_method) (\<lambda>v. on_stack (pu' v)) (\<lambda>a. g a b))
      (wa, \<lambda>cs. co (g (da cs) b))" for b
    by (rule unary_implements [OF assms(1,3)])
  show ?thesis
  proof (rule implementsI)
    fix s :: "'w vm" and xs ins
    assume s: "stack_ok (stack s)" "contents (stack s) = xs @ ins" "length ins = wa + wb"
    let ?r = "co (g (da (take wa ins)) (db (drop wa ins)))"
    have split: "contents (stack s) = (xs @ take wa ins) @ drop wa ins" "length (drop wa ins) = wb"
      using s by simp_all
    from decoded_cells.pop_vm [OF assms(2) s(1) split] obtain st where
      st: "on_stack qb s = (Ok (db (drop wa ins)), s\<lparr>stack := st\<rparr>)" "stack_ok st"
        "same_frame (stack s) st" "contents st = xs @ take wa ins" by blast
    then have m: "?m s = unary (on_stack qa) (\<lambda>v. on_stack (pu' v))
        (\<lambda>a. g a (db (drop wa ins))) (s\<lparr>stack := st\<rparr>)"
      by (simp add: unary_def)
    have len: "length (cells st) = length (cells (stack s))" using st by (simp add: same_frame_def)
    note use = rest [of "db (drop wa ins)", unfolded implements_def, rule_format, of "s\<lparr>stack := st\<rparr>"]
    { assume "length xs + length ?r \<le> length (cells (stack s))"
      with use st s len m show "\<exists>st. ?m s = (Ok (), s\<lparr>stack := st, pc := pc s + 1\<rparr>) \<and> stack_ok st \<and>
          same_frame (stack s) st \<and> contents st = xs @ ?r"
        by (fastforce simp: same_frame_def) }
    assume "length (cells (stack s)) < length xs + length ?r"
    with use st s len m show "fst (?m s) = Err StackOverflow"
      by (fastforce simp: not_le)
  next
    fix s :: "'w vm" assume s: "stack_ok (stack s)" "sp (stack s) < wa + wb"
    show "fst (?m s) = Err StackUnderflow"
    proof (cases "sp (stack s) < wb")
      case True
      then show ?thesis by (simp add: bnd_def decoded_cells.pop_vm_empty [OF assms(2)])
    next
      case False
      with decoded_cells.pop_vm_some [OF assms(2) s(1)] obtain v st where
        "on_stack qb s = (Ok v, s\<lparr>stack := st\<rparr>)" "sp st = sp (stack s) - wb" by (metis not_less)
      with s(2) False show ?thesis
        by (simp add: bnd_def decoded_cells.pop_vm_empty [OF assms(1)])
    qed
  qed
qed

lemma binary_implements:
  assumes "decoded_cells pu po ci wi Fi di" "decoded_cells pu' po' co wo Fo do"
  shows "implements (binary (on_stack po) (on_stack po) (\<lambda>v. on_stack (pu' v)) g)
    (wi + wi, \<lambda>cs. co (g (di (take wi cs)) (di (drop wi cs))))"
  unfolding binary_def by (rule binary_implements_gen [OF assms(1,1,2)])

text \<open>A manipulation method of the stack whose behaviour on the contents is known.\<close>

lemma stack_implements:
  assumes "\<And>s xs ins. stack_ok s \<Longrightarrow> contents s = xs @ ins \<Longrightarrow> length ins = n \<Longrightarrow>
      length xs + length (f ins) \<le> length (cells s) \<Longrightarrow>
      \<exists>t. m s = (Ok (), t) \<and> stack_ok t \<and> same_frame s t \<and> contents t = xs @ f ins"
    and "\<And>s xs ins. stack_ok s \<Longrightarrow> contents s = xs @ ins \<Longrightarrow> length ins = n \<Longrightarrow>
      length (cells s) < length xs + length (f ins) \<Longrightarrow> fst (m s) = Err StackOverflow"
    and "\<And>s. stack_ok s \<Longrightarrow> sp s < n \<Longrightarrow> fst (m s) = Err StackUnderflow"
  shows "implements (then_advance (on_stack m) 1) (n, f)"
proof (rule implementsI)
  fix s :: "'a vm" and xs ins
  assume s: "stack_ok (stack s)" "contents (stack s) = xs @ ins" "length ins = n"
  { assume "length xs + length (f ins) \<le> length (cells (stack s))"
    from assms(1) [OF s this]
    show "\<exists>st. then_advance (on_stack m) 1 s = (Ok (), s\<lparr>stack := st, pc := pc s + 1\<rparr>) \<and> stack_ok st \<and>
       same_frame (stack s) st \<and> contents st = xs @ f ins"
      by (auto simp: then_advance_def on_stack_def sq_def bnd_def advance_def modify_def) }
  assume "length (cells (stack s)) < length xs + length (f ins)"
  from assms(2) [OF s this] show "fst (then_advance (on_stack m) 1 s) = Err StackOverflow"
    by (auto simp: then_advance_def on_stack_def sq_def bnd_def split: prod.splits)
next
  fix s :: "'a vm" assume "stack_ok (stack s)" "sp (stack s) < n"
  from assms(3) [OF this] show "fst (then_advance (on_stack m) 1 s) = Err StackUnderflow"
    by (auto simp: then_advance_def on_stack_def sq_def bnd_def split: prod.splits)
qed

section \<open>Stack manipulation\<close>

lemma get_all_range:
  "n + k \<le> length (cells s) \<Longrightarrow> get_all [n ..< n + k] s = (Ok (take k (drop n (cells s))), s)"
proof (induction k arbitrary: n)
  case (Suc k)
  from Suc.prems have "get_all [Suc n ..< Suc n + k] s = (Ok (take k (drop (Suc n) (cells s))), s)"
    by (intro Suc.IH) simp
  moreover have "[n ..< n + Suc k] = n # [Suc n ..< Suc n + k]" by (simp add: upt_conv_Cons del: upt_Suc)
  moreover have "take (Suc k) (drop n (cells s)) = cells s ! n # take k (drop (Suc n) (cells s))"
    using Suc.prems by (simp add: Cons_nth_drop_Suc [symmetric] del: drop_Suc)
  ultimately show ?case
    using Suc.prems by (simp add: stack_get_def ret_def del: upt_Suc)
qed (simp add: ret_def)

lemma set_all_range:
  "n + length vs \<le> length (cells s) \<Longrightarrow>
   set_all (zip [n ..< n + length vs] vs) s = (Ok (), s\<lparr>cells := set_range (cells s) n vs\<rparr>)"
proof (induction vs arbitrary: n s)
  case (Cons v vs)
  let ?t = "s\<lparr>cells := (cells s)[n := v]\<rparr>"
  have "set_all (zip [Suc n ..< Suc n + length vs] vs) ?t =
      (Ok (), ?t\<lparr>cells := set_range (cells ?t) (Suc n) vs\<rparr>)"
    using Cons.prems by (intro Cons.IH) simp
  moreover have "set_range ((cells s)[n := v]) (Suc n) vs = set_range (cells s) n (v # vs)"
    using Cons.prems by (simp add: set_range_def take_Suc_conv_app_nth)
  moreover have "[n ..< n + length (v # vs)] = n # [Suc n ..< Suc n + length vs]"
    by (simp add: upt_conv_Cons del: upt_Suc)
  ultimately show ?case
    using Cons.prems by (simp add: stack_set_def sq_def del: upt_Suc)
qed (simp add: ret_def set_range_def)

lemma contents_length_le: "stack_ok s \<Longrightarrow> contents s = xs \<Longrightarrow> sp s = length xs \<and> length xs \<le> length (cells s)"
  using length_contents [of s] by (auto simp: stack_ok_def)

text \<open>The two pushes and the rewriting, once the cells are read.\<close>

lemma dup2down_read:
  assumes "stack_ok s" "k + 2 \<le> sp s"
  shows "dup2down k s = (let vs = take (k + 2) (drop (sp s - (k + 2)) (cells s)) in
    sq (push_i32 0) (sq (push_i32 0) (\<lambda>t.
      set_all (zip [sp t - (k + 4) ..< sp t] (drop k vs @ take k vs @ drop k vs)) t)) s)"
proof -
  define idx where "idx = [sp s - (k + 2) ..< sp s]"
  have "get_all idx s = (Ok (take (k + 2) (drop (sp s - (k + 2)) (cells s))), s)"
    using get_all_range [of "sp s - (k + 2)" "k + 2" s] assms
    unfolding idx_def by (simp only: stack_ok_def le_add_diff_inverse2)
  with assms(2) show ?thesis
    unfolding dup2down_def idx_def [symmetric] by (simp add: bnd_def Let_def)
qed

lemma dup2down_contents:
  assumes "stack_ok s" "contents s = xs @ ins" "length ins = k + 2"
    and room: "sp s + 2 \<le> length (cells s)"
  shows "\<exists>t. dup2down k s = (Ok (), t) \<and> stack_ok t \<and> same_frame s t \<and>
             contents t = xs @ drop k ins @ take k ins @ drop k ins"
proof -
  let ?vs = "drop k ins @ take k ins @ drop k ins" and ?n = "length xs"
  from stack_repr [OF assms(1,2)] obtain rest where
    r: "cells s = (xs @ ins) @ rest" "sp s = ?n + k + 2" using assms(3) by auto
  then have vs: "take (k + 2) (drop (sp s - (k + 2)) (cells s)) = ins"
    using assms(3) by (simp add: add.assoc)
  from push_i32_room [OF assms(1), of 0] room obtain t where
    t: "push_i32 0 s = (Ok (), t)" "stack_ok t" "same_frame s t" "contents t = (xs @ ins) @ [0]"
    using assms(2) by auto
  have "sp t = ?n + k + 3" using length_contents [OF t(2)] t(4) assms(3) by simp
  then have "sp t < length (cells t)" using room r(2) t(3) by (simp add: same_frame_def)
  from push_i32_room [OF t(2) this, of 0] obtain u where
    u: "push_i32 0 t = (Ok (), u)" "stack_ok u" "same_frame t u" "contents u = xs @ ins @ [0, 0]"
    unfolding t(4) by auto
  from stack_repr [OF u(2,4)] obtain rest' where
    u': "cells u = (xs @ ins @ [0, 0]) @ rest'" and len_u: "sp u = length (xs @ ins @ [0, 0])" .
  from len_u have sp_u: "sp u = ?n + k + 4" using assms(3) by simp
  have len: "length ?vs = k + 4" using assms(3) by simp
  let ?w = "u\<lparr>cells := set_range (cells u) ?n ?vs\<rparr>"
  have "sp u - (k + 4) = ?n" "sp u = ?n + length ?vs" using sp_u len by simp_all
  then have set: "set_all (zip [sp u - (k + 4) ..< sp u] ?vs) u = (Ok (), ?w)"
    using set_all_range [of ?n ?vs u] u' len assms(3) by (simp del: upt_Suc)
  have "dup2down k s = (Ok (), ?w)"
    using dup2down_read [OF assms(1), of k, unfolded vs] r(2) set t(1) u(1)
    by (simp add: sq_def Let_def bnd_def)
  moreover have "set_range (cells u) ?n ?vs = (xs @ ?vs) @ rest'"
    using u' assms(3) by (simp add: set_range_def)
  ultimately show ?thesis
    using u' sp_u u(3) t(3) len assms(3)
    by (auto simp: stack_ok_def same_frame_def contents_def)
qed

lemma dup2down_full:
  assumes "stack_ok s" "k + 2 \<le> sp s" "length (cells s) < sp s + 2"
  shows "fst (dup2down k s) = Err StackOverflow"
proof -
  from assms have "sp s = length (cells s) \<or> Suc (sp s) = length (cells s)"
    by (auto simp: stack_ok_def)
  then show ?thesis
    unfolding dup2down_read [OF assms(1,2)] by (auto simp: sq_def push_i32_def bnd_def Let_def)
qed

section \<open>The specification\<close>

text \<open>
  Operands are listed in the order they were pushed. Integers are read as signed numbers and
  results are reduced to the width, so the specification does not depend on how the source
  spells an operation: division and remainder truncate towards zero, shifts scale by the power of two of the
  amount modulo the width, and the arithmetic right shift rounds down.
\<close>

definition wide_at :: "i32 list \<Rightarrow> nat \<Rightarrow> i64" where
  "wide_at cs i = join_cells (cs ! i) (cs ! (i + 1))"

definition wide_cells :: "i64 \<Rightarrow> i32 list" where
  "wide_cells v = [lo_cell v, hi_cell v]"

definition int_spec :: "(int \<Rightarrow> int \<Rightarrow> int) \<Rightarrow> effect" where
  "int_spec f = (2, \<lambda>cs. [of_int (f (sint (cs ! 0)) (sint (cs ! 1)))])"

definition bits_spec :: "(i32 \<Rightarrow> i32 \<Rightarrow> i32) \<Rightarrow> effect" where
  "bits_spec f = (2, \<lambda>cs. [f (cs ! 0) (cs ! 1)])"

definition neg_spec :: "(int \<Rightarrow> int) \<Rightarrow> effect" where
  "neg_spec f = (1, \<lambda>cs. [of_int (f (sint (cs ! 0)))])"

definition int_cmp_spec :: "(int \<Rightarrow> int \<Rightarrow> bool) \<Rightarrow> effect" where
  "int_cmp_spec f = (2, \<lambda>cs. [bool_cell (f (sint (cs ! 0)) (sint (cs ! 1)))])"

definition long_spec :: "(int \<Rightarrow> int \<Rightarrow> int) \<Rightarrow> effect" where
  "long_spec f = (4, \<lambda>cs. wide_cells (of_int (f (sint (wide_at cs 0)) (sint (wide_at cs 2)))))"

definition long_bits_spec :: "(i64 \<Rightarrow> i64 \<Rightarrow> i64) \<Rightarrow> effect" where
  "long_bits_spec f = (4, \<lambda>cs. wide_cells (f (wide_at cs 0) (wide_at cs 2)))"

definition long_cmp_spec :: "(i64 \<Rightarrow> i64 \<Rightarrow> bool) \<Rightarrow> effect" where
  "long_cmp_spec f = (4, \<lambda>cs. [bool_cell (f (wide_at cs 0) (wide_at cs 2))])"

definition long_shift_spec :: "(int \<Rightarrow> nat \<Rightarrow> int) \<Rightarrow> effect" where
  "long_shift_spec f =
     (3, \<lambda>cs. wide_cells (of_int (f (sint (wide_at cs 0)) (unat (cs ! 2) mod 64))))"

definition quot0 :: "int \<Rightarrow> int \<Rightarrow> int" where
  "quot0 a b = (if b = 0 then 0 else a sdiv b)"

definition rem0 :: "int \<Rightarrow> int \<Rightarrow> int" where
  "rem0 a b = (if b = 0 then 0 else a smod b)"

primrec int_math_effect :: "int_math_op \<Rightarrow> effect" where
  "int_math_effect IntMul = int_spec (*)"
| "int_math_effect IntDiv = int_spec quot0"
| "int_math_effect IntMod = int_spec rem0"
| "int_math_effect IntAdd = int_spec (+)"
| "int_math_effect IntSub = int_spec (-)"
| "int_math_effect IntOr = bits_spec (OR)"
| "int_math_effect IntXor = bits_spec (XOR)"
| "int_math_effect IntAnd = bits_spec (AND)"
| "int_math_effect IntNot = neg_spec (\<lambda>a. - a - 1)"
| "int_math_effect IntNeg = neg_spec uminus"
| "int_math_effect IntShiftL = (2, \<lambda>cs. [of_int (sint (cs ! 0) * 2 ^ (unat (cs ! 1) mod 32))])"
| "int_math_effect IntShiftR = (2, \<lambda>cs. [of_int (sint (cs ! 0) div 2 ^ (unat (cs ! 1) mod 32))])"
| "int_math_effect IntInc = neg_spec (\<lambda>a. a + 1)"
| "int_math_effect IntDec = neg_spec (\<lambda>a. a - 1)"

primrec int_cmp_effect :: "int_cmp_op \<Rightarrow> effect" where
  "int_cmp_effect IntEq = int_cmp_spec (=)"
| "int_cmp_effect IntNotEq = int_cmp_spec (\<noteq>)"
| "int_cmp_effect IntGt = int_cmp_spec (>)"
| "int_cmp_effect IntGtEq = int_cmp_spec (\<ge>)"
| "int_cmp_effect IntLt = int_cmp_spec (<)"
| "int_cmp_effect IntLtEq = int_cmp_spec (\<le>)"

primrec long_math_effect :: "long_math_op \<Rightarrow> effect" where
  "long_math_effect LongMul = long_spec (*)"
| "long_math_effect LongDiv = long_spec quot0"
| "long_math_effect LongMod = long_spec rem0"
| "long_math_effect LongAdd = long_spec (+)"
| "long_math_effect LongSub = long_spec (-)"
| "long_math_effect LongOr = long_bits_spec (OR)"
| "long_math_effect LongXor = long_bits_spec (XOR)"
| "long_math_effect LongAnd = long_bits_spec (AND)"
| "long_math_effect LongNot = (2, \<lambda>cs. wide_cells (of_int (- sint (wide_at cs 0) - 1)))"
| "long_math_effect LongNeg = (2, \<lambda>cs. wide_cells (of_int (- sint (wide_at cs 0))))"
| "long_math_effect LongShiftL = long_shift_spec (\<lambda>a k. a * 2 ^ k)"
| "long_math_effect LongShiftR = long_shift_spec (\<lambda>a k. a div 2 ^ k)"

primrec long_cmp_effect :: "long_cmp_op \<Rightarrow> effect" where
  "long_cmp_effect LongEq = long_cmp_spec (\<lambda>a b. sint a = sint b)"
| "long_cmp_effect LongNotEq = long_cmp_spec (\<lambda>a b. sint a \<noteq> sint b)"
| "long_cmp_effect LongGt = long_cmp_spec (\<lambda>a b. sint a > sint b)"
| "long_cmp_effect LongGtEq = long_cmp_spec (\<lambda>a b. sint a \<ge> sint b)"
| "long_cmp_effect LongLt = long_cmp_spec (\<lambda>a b. sint a < sint b)"
| "long_cmp_effect LongLtEq = long_cmp_spec (\<lambda>a b. sint a \<le> sint b)"

primrec gen_cmp_effect :: "gen_cmp_op \<Rightarrow> effect" where
  "gen_cmp_effect ObjEq = (2, \<lambda>cs. [bool_cell (cs ! 0 = cs ! 1)])"
| "gen_cmp_effect ObjNotEq = (2, \<lambda>cs. [bool_cell (cs ! 0 \<noteq> cs ! 1)])"
| "gen_cmp_effect EqZero = (1, \<lambda>cs. [bool_cell (cs ! 0 = 0)])"
| "gen_cmp_effect NotEqZero = (1, \<lambda>cs. [bool_cell (cs ! 0 \<noteq> 0)])"

primrec stack_effect :: "stack_op \<Rightarrow> effect" where
  "stack_effect Pop = (1, \<lambda>cs. [])"
| "stack_effect Pop2 = (2, \<lambda>cs. [])"
| "stack_effect Pop3 = (3, \<lambda>cs. [])"
| "stack_effect Dup = (1, \<lambda>cs. cs @ cs)"
| "stack_effect Dup2 = (2, \<lambda>cs. cs @ cs)"
| "stack_effect DupDown2 = (2, \<lambda>cs. cs ! 1 # cs)"
| "stack_effect DupDown3 = (3, \<lambda>cs. cs ! 2 # cs)"
| "stack_effect Dup2Down2 = (4, \<lambda>cs. drop 2 cs @ cs)"
| "stack_effect Dup2Down3 = (5, \<lambda>cs. drop 3 cs @ cs)"

primrec cast_effect :: "cast_op \<Rightarrow> effect" where
  "cast_effect IntToFloat = (1, \<lambda>cs. [f32_of_int (sint (cs ! 0))])"
| "cast_effect IntToLong = (1, \<lambda>cs. wide_cells (of_int (sint (cs ! 0))))"
| "cast_effect IntToDouble = (1, \<lambda>cs. wide_cells (f64_of_int (sint (cs ! 0))))"
| "cast_effect LongToInt = (2, \<lambda>cs. [cs ! 0])"
| "cast_effect LongToFloat = (2, \<lambda>cs. [f32_of_int (sint (wide_at cs 0))])"
| "cast_effect LongToDouble = (2, \<lambda>cs. wide_cells (f64_of_int (sint (wide_at cs 0))))"
| "cast_effect FloatToInt = (1, \<lambda>cs. [f32_to_i32 (cs ! 0)])"
| "cast_effect FloatToLong = (1, \<lambda>cs. wide_cells (f32_to_i64 (cs ! 0)))"
| "cast_effect FloatToDouble = (1, \<lambda>cs. wide_cells (f32_to_f64 (cs ! 0)))"
| "cast_effect DoubleToInt = (2, \<lambda>cs. [f64_to_i32 (wide_at cs 0)])"
| "cast_effect DoubleToLong = (2, \<lambda>cs. wide_cells (f64_to_i64 (wide_at cs 0)))"
| "cast_effect DoubleToFloat = (2, \<lambda>cs. [f64_to_f32 (wide_at cs 0)])"

primrec float_math_effect :: "float_math_op \<Rightarrow> effect" where
  "float_math_effect FloatMul = bits_spec (op32 fmul)"
| "float_math_effect FloatDiv = bits_spec (op32 fdiv)"
| "float_math_effect FloatAdd = bits_spec (op32 fadd)"
| "float_math_effect FloatSub = bits_spec (op32 fsub)"
| "float_math_effect FloatNeg = (1, \<lambda>cs. [neg32 (cs ! 0)])"

primrec double_math_effect :: "double_math_op \<Rightarrow> effect" where
  "double_math_effect DoubleMul = long_bits_spec (op64 fmul)"
| "double_math_effect DoubleDiv = long_bits_spec (op64 fdiv)"
| "double_math_effect DoubleAdd = long_bits_spec (op64 fadd)"
| "double_math_effect DoubleSub = long_bits_spec (op64 fsub)"
| "double_math_effect DoubleNeg = (2, \<lambda>cs. wide_cells (neg64 (wide_at cs 0)))"

text \<open>Two null values are equal, as Sedona has it, and nothing else is equal to null.\<close>

definition float_cmp_spec :: "(u32 \<Rightarrow> u32 \<Rightarrow> bool) \<Rightarrow> effect" where
  "float_cmp_spec f = (2, \<lambda>cs. [bool_cell (f (cs ! 0) (cs ! 1))])"

primrec float_cmp_effect :: "float_cmp_op \<Rightarrow> effect" where
  "float_cmp_effect FloatEq = float_cmp_spec (\<lambda>a b. if nan32 a then nan32 b else rel32 feq a b)"
| "float_cmp_effect FloatNotEq = float_cmp_spec (\<lambda>a b. \<not> (if nan32 a then nan32 b else rel32 feq a b))"
| "float_cmp_effect FloatGt = float_cmp_spec (\<lambda>a b. rel32 flt b a)"
| "float_cmp_effect FloatGtEq = float_cmp_spec (\<lambda>a b. rel32 fle b a)"
| "float_cmp_effect FloatLt = float_cmp_spec (rel32 flt)"
| "float_cmp_effect FloatLtEq = float_cmp_spec (rel32 fle)"

primrec double_cmp_effect :: "double_cmp_op \<Rightarrow> effect" where
  "double_cmp_effect DoubleEq = long_cmp_spec (\<lambda>a b. if nan64 a then nan64 b else rel64 feq a b)"
| "double_cmp_effect DoubleNotEq = long_cmp_spec (\<lambda>a b. \<not> (if nan64 a then nan64 b else rel64 feq a b))"
| "double_cmp_effect DoubleGt = long_cmp_spec (\<lambda>a b. rel64 flt b a)"
| "double_cmp_effect DoubleGtEq = long_cmp_spec (\<lambda>a b. rel64 fle b a)"
| "double_cmp_effect DoubleLt = long_cmp_spec (rel64 flt)"
| "double_cmp_effect DoubleLtEq = long_cmp_spec (rel64 fle)"

text \<open>The effect of an opcode that only computes.\<close>

fun op_effect :: "opcode \<Rightarrow> effect option" where
  "op_effect (IntCmp x) = Some (int_cmp_effect x)"
| "op_effect (IntMath x) = Some (int_math_effect x)"
| "op_effect (LongCmp x) = Some (long_cmp_effect x)"
| "op_effect (LongMath x) = Some (long_math_effect x)"
| "op_effect (FloatCmp x) = Some (float_cmp_effect x)"
| "op_effect (FloatMath x) = Some (float_math_effect x)"
| "op_effect (DoubleCmp x) = Some (double_cmp_effect x)"
| "op_effect (DoubleMath x) = Some (double_math_effect x)"
| "op_effect (CastOp x) = Some (cast_effect x)"
| "op_effect (GenCmp x) = Some (gen_cmp_effect x)"
| "op_effect (StackOp x) = Some (stack_effect x)"
| "op_effect _ = None"

section \<open>The interpreter implements the specification\<close>

lemma implements_cong:
  assumes "implements m (n, f)" "n = fst e" "\<And>cs. length cs = n \<Longrightarrow> f cs = snd e cs"
  shows "implements m e"
proof -
  obtain g where e: "e = (n, g)" using assms(2) by (cases e) simp
  have "\<forall>cs. length cs = n \<longrightarrow> f cs = g cs" using assms(3) by (simp add: e)
  with assms(1) show ?thesis unfolding e implements_def fst_conv snd_conv by metis
qed

lemma word_arith:
  "of_int (sint a * sint b) = (a * b :: 'n::len word)" "of_int (sint a + sint b) = a + b"
  "of_int (sint a - sint b) = a - b" "of_int (- sint a) = - a" "of_int (sint a + 1) = a + 1"
  "of_int (sint a - 1) = a - 1" "of_int (- sint a - 1) = NOT a"
  "of_int (quot0 (sint a) (sint b)) = vm_div a b" "of_int (rem0 (sint a) (sint b)) = vm_mod a b"
  by (simp_all add: quot0_def rem0_def vm_div_def vm_mod_def not_eq_complement
      signed_eq_0_iff)

lemma signed_drop_bit_div: "signed_drop_bit k a = of_int (sint a div 2 ^ k)"
proof -
  have "signed_drop_bit k a = of_int (sint (signed_drop_bit k a))" by simp
  then show ?thesis by (simp only: sint_signed_drop_bit_eq drop_bit_eq_div)
qed

lemma word_shifts:
  "of_int (sint (a :: i32) * 2 ^ (unat b mod 32)) = vm_shl a b"
  "of_int (sint (a :: i32) div 2 ^ (unat b mod 32)) = vm_shr a b"
  "of_int (sint (w :: i64) * 2 ^ (unat b mod 64)) = vm_shl w b"
  "of_int (sint (w :: i64) div 2 ^ (unat b mod 64)) = vm_shr w b"
  by (simp_all add: vm_shl_def vm_shr_def push_bit_eq_mult signed_drop_bit_div)

lemmas effect_defs = int_spec_def bits_spec_def neg_spec_def int_cmp_spec_def long_spec_def
  long_bits_spec_def long_cmp_spec_def long_shift_spec_def float_cmp_spec_def wide_at_def
  wide_cells_def

lemma length_list:
  "length cs = Suc 0 \<longleftrightarrow> (\<exists>a. cs = [a])" "length cs = Suc (Suc 0) \<longleftrightarrow> (\<exists>a b. cs = [a, b])"
  "length cs = 2 \<longleftrightarrow> (\<exists>a b. cs = [a, b])" "length cs = 3 \<longleftrightarrow> (\<exists>a b c. cs = [a, b, c])"
  "length cs = 4 \<longleftrightarrow> (\<exists>a b c d. cs = [a, b, c, d])"
  "length cs = 5 \<longleftrightarrow> (\<exists>a b c d e. cs = [a, b, c, d, e])"
  by (auto simp: length_Suc_conv numeral_eq_Suc)

lemmas effect_simps = effect_defs length_list word_arith(8,9) not_eq_complement
  vm_shl_def vm_shr_def push_bit_eq_mult signed_drop_bit_div

lemma feq_nan [simp]:
  "nan32 a \<Longrightarrow> \<not> rel32 feq a b" "nan64 c \<Longrightarrow> \<not> rel64 feq c d"
  by (simp_all add: nan32_def nan64_def rel32_def rel64_def feq_def)

text \<open>The instances of the two shapes for the operand types of the instruction set.\<close>

lemmas i32_in = i32_dec.decoded_cells_axioms
lemmas i64_in = i64_dec.decoded_cells_axioms
lemmas f32_in = f32_dec.decoded_cells_axioms
lemmas f64_in = f64_dec.decoded_cells_axioms
lemmas ref_in = ref_dec.decoded_cells_axioms

lemmas unary_arms =
  unary_implements [OF i32_in i32_in] unary_implements [OF i32_in i64_in]
  unary_implements [OF i32_in f32_in] unary_implements [OF i32_in f64_in]
  unary_implements [OF i64_in i32_in] unary_implements [OF i64_in i64_in]
  unary_implements [OF i64_in f32_in] unary_implements [OF i64_in f64_in]
  unary_implements [OF f32_in i32_in] unary_implements [OF f32_in i64_in]
  unary_implements [OF f32_in f32_in] unary_implements [OF f32_in f64_in]
  unary_implements [OF f64_in i32_in] unary_implements [OF f64_in i64_in]
  unary_implements [OF f64_in f32_in] unary_implements [OF f64_in f64_in]

lemmas binary_arms =
  binary_implements [OF i32_in i32_in] binary_implements [OF i64_in i64_in]
  binary_implements [OF i64_in i32_in] binary_implements [OF f32_in i32_in]
  binary_implements [OF f32_in f32_in] binary_implements [OF f64_in i32_in]
  binary_implements [OF f64_in f64_in] binary_implements [OF ref_in i32_in]

lemma long_shift_implements:
  "implements (long_shift f) (3, \<lambda>cs. wide_cells (f (wide_at cs 0) (cs ! 2)))"
  unfolding long_shift_def
  by (rule implements_cong, rule binary_implements_gen [OF i64_in i32_in i64_in])
     (auto simp: effect_defs length_list)

lemma int_implements:
  "implements (step_int_math x) (int_math_effect x)" "implements (step_int_cmp y) (int_cmp_effect y)"
  by (cases x; simp only: step_int_math.simps int_math_effect.simps;
      rule implements_cong, rule binary_arms unary_arms, auto simp: effect_simps)
     (cases y; simp only: step_int_cmp.simps int_cmp_effect.simps;
      rule implements_cong, rule binary_arms, auto simp: effect_simps)

lemma long_implements:
  "implements (step_long_math x) (long_math_effect x)"
  "implements (step_long_cmp y) (long_cmp_effect y)"
  by (cases x; simp only: step_long_math.simps long_math_effect.simps;
      rule implements_cong, rule binary_arms unary_arms long_shift_implements,
      auto simp: effect_simps)
     (cases y; simp only: step_long_cmp.simps long_cmp_effect.simps;
      rule implements_cong, rule binary_arms, auto simp: effect_simps)

lemma float_implements:
  "implements (step_float_math x) (float_math_effect x)"
  "implements (step_float_cmp y) (float_cmp_effect y)"
  by (cases x; simp only: step_float_math.simps float_math_effect.simps;
      rule implements_cong, rule binary_arms unary_arms, auto simp: effect_defs length_list)
     (cases y; simp only: step_float_cmp.simps float_cmp_effect.simps;
      rule implements_cong, rule binary_arms,
      auto simp: effect_defs length_list sedona_eq32_def sedona_ne32_def)

lemma double_implements:
  "implements (step_double_math x) (double_math_effect x)"
  "implements (step_double_cmp y) (double_cmp_effect y)"
  by (cases x; simp only: step_double_math.simps double_math_effect.simps;
      rule implements_cong, rule binary_arms unary_arms, auto simp: effect_defs length_list)
     (cases y; simp only: step_double_cmp.simps double_cmp_effect.simps;
      rule implements_cong, rule binary_arms,
      auto simp: effect_defs length_list sedona_eq64_def sedona_ne64_def)

lemma cast_implements: "implements (step_cast x) (cast_effect x)"
  by (cases x; simp only: step_cast.simps cast_effect.simps;
      rule implements_cong, rule unary_arms,
      auto simp: effect_defs length_list lo_join [unfolded lo_cell_def])

lemma gen_cmp_implements: "implements (step_gen_cmp x) (gen_cmp_effect x)"
  by (cases x; simp only: step_gen_cmp.simps gen_cmp_effect.simps;
      rule implements_cong, rule binary_arms unary_arms, auto simp: effect_defs length_list word_unat_eq_iff)

text \<open>The manipulation opcodes.\<close>

lemma sub_contents: "stack_ok s \<Longrightarrow> contents s = xs @ ins \<Longrightarrow>
   contents (s\<lparr>sp := sp s - length ins\<rparr>) = xs \<and> length ins \<le> sp s \<and> stack_ok (s\<lparr>sp := sp s - length ins\<rparr>) \<and> sp s \<le> length (cells s)"
  using length_contents [of s]
  by (auto simp: contents_def stack_ok_def) (metis append_eq_conv_conj append_take_drop_id length_append length_take take_append take_take min.absorb1 diff_le_self add_diff_cancel_right')

lemma pops_implement:
  "implements (then_advance (on_stack pop) 1) (1, \<lambda>_. [])"
  "implements (then_advance (on_stack pop2) 1) (2, \<lambda>_. [])"
  "implements (then_advance (on_stack pop3) 1) (3, \<lambda>_. [])"
  by (rule stack_implements; use sub_contents in \<open>fastforce simp: pop_def pop2_def pop3_def same_frame_def stack_ok_def\<close>)+

lemma manip_implements:
  assumes "\<And>s xs ins. stack_ok s \<Longrightarrow> contents s = xs @ ins \<Longrightarrow> length ins = n \<Longrightarrow>
      sp s + k \<le> length (cells s) \<Longrightarrow>
      \<exists>t. m s = (Ok (), t) \<and> stack_ok t \<and> same_frame s t \<and> contents t = xs @ f ins"
    and "\<And>s. stack_ok s \<Longrightarrow> n \<le> sp s \<Longrightarrow> length (cells s) < sp s + k \<Longrightarrow> fst (m s) = Err StackOverflow"
    and "\<And>s. sp s < n \<Longrightarrow> fst (m s) = Err StackUnderflow"
    and len: "\<And>ins. length ins = n \<Longrightarrow> length (f ins) = n + k"
  shows "implements (then_advance (on_stack m) 1) (n, f)"
proof (rule stack_implements)
  fix s :: vm_stack and xs ins
  assume s: "stack_ok s" "contents s = xs @ ins" "length ins = n"
  have sp: "sp s = length xs + n" using length_contents [OF s(1)] s by simp
  { assume "length xs + length (f ins) \<le> length (cells s)"
    with s sp len show "\<exists>t. m s = (Ok (), t) \<and> stack_ok t \<and> same_frame s t \<and> contents t = xs @ f ins"
      by (intro assms(1)) simp_all }
  assume "length (cells s) < length xs + length (f ins)"
  with s sp len show "fst (m s) = Err StackOverflow" by (intro assms(2)) simp_all
qed (rule assms(3))

lemma dup_errors:
  "sp s < 1 \<Longrightarrow> fst (dup s) = Err StackUnderflow" "sp s < 2 \<Longrightarrow> fst (dup2 s) = Err StackUnderflow"
  "sp s < 2 \<Longrightarrow> fst (dupdown2 s) = Err StackUnderflow"
  "sp s < 3 \<Longrightarrow> fst (dupdown3 s) = Err StackUnderflow"
  "1 \<le> sp s \<Longrightarrow> length (cells s) < sp s + 1 \<Longrightarrow> fst (dup s) = Err StackOverflow"
  "2 \<le> sp s \<Longrightarrow> length (cells s) < sp s + 2 \<Longrightarrow> fst (dup2 s) = Err StackOverflow"
  "2 \<le> sp s \<Longrightarrow> length (cells s) < sp s + 1 \<Longrightarrow> fst (dupdown2 s) = Err StackOverflow"
  "3 \<le> sp s \<Longrightarrow> length (cells s) < sp s + 1 \<Longrightarrow> fst (dupdown3 s) = Err StackOverflow"
  by (simp_all add: dup_def dup2_def dupdown2_def dupdown3_def)

lemma dups_implement:
  "implements (then_advance (on_stack dup) 1) (1, \<lambda>cs. cs @ cs)"
  "implements (then_advance (on_stack dup2) 1) (2, \<lambda>cs. cs @ cs)"
  "implements (then_advance (on_stack dupdown2) 1) (2, \<lambda>cs. cs ! 1 # cs)"
  "implements (then_advance (on_stack dupdown3) 1) (3, \<lambda>cs. cs ! 2 # cs)"
  by (rule manip_implements [OF _ dup_errors(5,1)] manip_implements [OF _ dup_errors(6,2)]
        manip_implements [OF _ dup_errors(7,3)] manip_implements [OF _ dup_errors(8,4)];
      auto simp: length_list dup_contents dup2_contents dupdown2_contents dupdown3_contents)+

lemma dup2down_implements:
  "implements (then_advance (on_stack (dup2down k)) 1) (k + 2, \<lambda>cs. drop k cs @ cs)"
proof (rule manip_implements [OF _ dup2down_full])
  show "\<exists>t. dup2down k s = (Ok (), t) \<and> stack_ok t \<and> same_frame s t \<and> contents t = xs @ drop k ins @ ins"
    if "stack_ok s" "contents s = xs @ ins" "length ins = k + 2" "sp s + 2 \<le> length (cells s)" for s xs ins
    using dup2down_contents [OF that] by simp
  show "fst (dup2down k s) = Err StackUnderflow" if "sp s < k + 2" for s
    using that by (simp add: dup2down_def)
qed simp_all

lemma stack_op_implements: "implements (step_stack x) (stack_effect x)"
  using pops_implement dups_implement dup2down_implements [of 2] dup2down_implements [of 3]
  by (cases x) simp_all

lemma exec_op_implements:
  assumes "op_effect op = Some e"
  shows "\<exists>m. exec_op op = (continue m :: ('w, step_result) vm_method) \<and> implements m e"
  using assms
proof -
  have ex: "implements m e' \<Longrightarrow> \<exists>m'. continue m = (continue m' :: ('w, step_result) vm_method) \<and> implements m' e'" for m e'
    by blast
  note arms = int_implements long_implements float_implements double_implements cast_implements
    gen_cmp_implements stack_op_implements
  show ?thesis using assms by (cases op) (auto intro!: ex intro: arms)
qed

lemma step_at:
  "code_u8 (memory s) (pc s) = Ok (opcode_byte op) \<Longrightarrow> step s = exec_op op s"
proof -
  have "unat (opcode_byte op) = discriminant op"
    using nth_discriminant [of op] by (simp add: opcode_byte_def NUM_OPCODES_def unat_of_nat)
  then have "try_from (opcode_byte op) = Ok op" by (simp add: try_from_iff)
  then show "code_u8 (memory s) (pc s) = Ok (opcode_byte op) \<Longrightarrow> step s = exec_op op s"
    by (simp add: step_def fetch_def query_def bnd_def)
qed

section \<open>Properties\<close>

text \<open>
  C1 Refinement: an instruction of the computing sections, fetched at the program counter, replaces its
  operands on top of the operand stack by the specified results, advances by one byte and
  changes nothing else of the machine, whenever the results fit.
\<close>

theorem computing_step_refines:
  assumes "code_u8 (memory (s :: 'w vm)) (pc s) = Ok (opcode_byte op)" "op_effect op = Some e"
    and "stack_ok (stack s)" "contents (stack s) = xs @ ins" "length ins = fst e"
    and "length xs + length (snd e ins) \<le> length (cells (stack s))"
  shows "\<exists>st. step s = (Ok Continue, s\<lparr>stack := st, pc := pc s + 1\<rparr>) \<and> stack_ok st \<and>
    same_frame (stack s) st \<and> contents st = xs @ snd e ins"
proof -
  from exec_op_implements [OF assms(2)] obtain m :: "('w, unit) vm_method" where
    m: "exec_op op = continue m" "implements m e" by blast
  from implementsD(1) [OF m(2) assms(3-6)] show ?thesis
    by (auto simp: step_at [OF assms(1)] m(1) continue_def sq_def ret_def bnd_def)
qed

lemma computing_step_refines_witness:
  "\<exists>st. step (sample_vm [66] [40, 2] []) = (Ok Continue, (sample_vm [66] [40, 2] [])\<lparr>stack := st, pc := 1\<rparr>) \<and>
     contents st = [42]"
  using computing_step_refines [of "sample_vm [66] [40, 2] []" "IntMath IntAdd" "(2, \<lambda>cs. [of_int (sint (cs ! 0) + sint (cs ! 1))])" "[]" "[40, 2]"]
  by (auto simp: opcode_byte_def int_spec_def stack_ok_def contents_def)

text \<open>
  Errors: with fewer operands than the instruction takes the step is \<open>StackUnderflow\<close>, and
  when its results do not fit it is \<open>StackOverflow\<close>; neither case panics.
\<close>

theorem computing_step_errors:
  assumes "code_u8 (memory (s :: 'w vm)) (pc s) = Ok (opcode_byte op)" "op_effect op = Some e"
    and "stack_ok (stack s)"
  shows "(sp (stack s) < fst e \<longrightarrow> fst (step s) = Err StackUnderflow) \<and>
    (\<forall>xs ins. contents (stack s) = xs @ ins \<and> length ins = fst e \<and>
       length (cells (stack s)) < length xs + length (snd e ins) \<longrightarrow> fst (step s) = Err StackOverflow)"
proof -
  from exec_op_implements [OF assms(2)] obtain m :: "('w, unit) vm_method" where
    m: "exec_op op = continue m" "implements m e" by blast
  have err: "fst (step s) = Err x" if "fst (m s) = Err x" for x
    using that by (cases "m s") (simp add: step_at [OF assms(1)] m(1) continue_def sq_def bnd_def)
  show ?thesis
    using implementsD(2,3) [OF m(2) assms(3)] by (blast intro: err)
qed

lemma computing_step_errors_witness:
  "fst (step (sample_vm [66] [40] [])) = Err StackUnderflow"
  using computing_step_errors [of "sample_vm [66] [40] []" "IntMath IntAdd" "(2, \<lambda>cs. [of_int (sint (cs ! 0) + sint (cs ! 1))])"]
  by (auto simp: opcode_byte_def int_spec_def stack_ok_def contents_def)

text \<open>
  Null equality: the equality of floats and doubles is an equivalence relation, the inequality is its
  negation, and the null value is equal to itself although it is a NaN.
\<close>

theorem sedona_equality:
  "sedona_eq32 a a \<and> (sedona_eq32 a b \<longleftrightarrow> sedona_eq32 b a) \<and>
   (sedona_eq32 a b \<and> sedona_eq32 b c \<longrightarrow> sedona_eq32 a c) \<and> (sedona_ne32 a b \<longleftrightarrow> \<not> sedona_eq32 a b) \<and>
   sedona_eq64 x x \<and> (sedona_eq64 x y \<longleftrightarrow> sedona_eq64 y x) \<and>
   (sedona_eq64 x y \<and> sedona_eq64 y z \<longrightarrow> sedona_eq64 x z) \<and> (sedona_ne64 x y \<longleftrightarrow> \<not> sedona_eq64 x y) \<and>
   nan32 NULLFLOAT \<and> nan64 NULLDOUBLE"
proof -
  have "nan32 NULLFLOAT" "nan64 NULLDOUBLE"
    by (simp_all add: NULLFLOAT_def NULLDOUBLE_def nan32_def nan64_def is_nan_def magnitude_def inf_bits_def
        sign_bit_def F32_def F64_def)
  then show ?thesis
    by (auto simp: sedona_eq32_def sedona_ne32_def sedona_eq64_def sedona_ne64_def nan32_def nan64_def
        rel32_def rel64_def feq_def)
qed

lemma sedona_equality_witness: "sedona_eq32 NULLFLOAT NULLFLOAT \<and> \<not> sedona_ne64 NULLDOUBLE NULLDOUBLE"
  using sedona_equality [of NULLFLOAT NULLFLOAT NULLFLOAT NULLDOUBLE NULLDOUBLE NULLDOUBLE] by simp

end
