(* ===== verification/Vm_Calls.thy ===== *)
theory Vm_Calls
  imports Vm_Semantics
begin

text \<open>
  The calling convention: what a call leaves on the stack, where the callee finds its
  parameters and locals, and that a return gives the caller its stack back with the result in
  place of the arguments.
\<close>

section \<open>Frames on the stack\<close>

definition frame_at :: "usize \<Rightarrow> usize \<Rightarrow> u8 \<Rightarrow> u8 \<Rightarrow> call_frame" where
  "frame_at ret_pc fp np nl = \<lparr>return_pc = ret_pc, frame_pointer = fp, method_block = 0,
     num_params = np, num_locals = nl\<rparr>"

lemma repeat_push:
  assumes "stack_ok s" "sp s + n \<le> length (cells s)"
  shows "\<exists>t. repeatM n (push_i32 v) s = (Ok (), t) \<and> stack_ok t \<and> same_frame s t \<and>
             contents t = contents s @ replicate n v"
  using assms
proof (induction n arbitrary: s)
  case 0
  then show ?case by (simp add: ret_def same_frame_def)
next
  case (Suc n)
  then obtain t where t: "push_i32 v s = (Ok (), t)" "stack_ok t" "same_frame s t"
    "contents t = contents s @ [v]" using push_i32_room [of s v] by auto
  have "sp t = Suc (sp s)" using push_i32_Ok [OF t(1)] by simp
  with Suc.prems t(3) have "sp t + n \<le> length (cells t)" by (simp add: same_frame_def)
  from Suc.IH [OF t(2) this] t show ?case
    by (auto simp: sq_def same_frame_def replicate_app_Cons_same)
qed

lemma enter_frame_contents:
  assumes s: "stack_ok s" and room: "sp s + 3 + unat nl \<le> length (cells s)"
    and depth: "length (frames s) < MAX_FRAME_DEPTH"
  shows "\<exists>t. enter_frame ret_pc prev addr np nl s = (Ok (), t) \<and> stack_ok t \<and>
     length (cells t) = length (cells s) \<and> frames t = frames s @ [frame_at ret_pc (sp s) np nl] \<and>
     contents t = contents s @ [of_nat ret_pc, of_nat prev, of_nat addr] @ replicate (unat nl) 0"
proof -
  let ?vs = "[of_nat ret_pc, of_nat prev, of_nat addr]"
  from i32_cells.push_all [OF s, of ?vs] room obtain t where
    t: "forM ?vs push_i32 s = (Ok (), t)" "stack_ok t" "same_frame s t"
      "contents t = contents s @ ?vs" by auto
  have sp_t: "sp t = sp s + 3" using length_contents [OF t(2)] length_contents [OF s] t(4) by simp
  let ?f = "frame_at ret_pc (sp s) np nl"
  let ?u = "t\<lparr>frames := frames t @ [?f]\<rparr>"
  have "stack_ok ?u" "contents ?u = contents t" "sp ?u + unat nl \<le> length (cells ?u)"
    using t room sp_t by (simp_all add: stack_ok_def contents_def same_frame_def)
  with repeat_push [of ?u "unat nl" 0] obtain w where
    w: "repeatM (unat nl) (push_i32 0) ?u = (Ok (), w)" "stack_ok w" "same_frame ?u w"
      "contents w = contents t @ replicate (unat nl) 0" by auto
  have "push_frame \<lparr>return_pc = ret_pc, frame_pointer = sp t - 3, method_block = 0,
      num_params = np, num_locals = nl\<rparr> t = (Ok (), ?u)"
    using depth t(3) sp_t by (simp add: push_frame_def frame_at_def same_frame_def)
  then have "enter_frame ret_pc prev addr np nl s = (Ok (), w)"
    using t(1) w(1)
    by (auto simp: enter_frame_def sq_def bnd_def ret_def split: prod.splits outcome.splits)
  with w t show ?thesis by (auto simp: same_frame_def)
qed

lemma leave_frame_last:
  assumes "frames s = fs @ [f]" "unat (num_params f) \<le> frame_pointer f"
  shows "leave_frame s =
    (Ok (return_pc f), s\<lparr>frames := fs, sp := frame_pointer f - unat (num_params f)\<rparr>)"
  using assms by (simp add: leave_frame_def pop_frame_def set_sp_def monad_defs)

section \<open>Calls\<close>

lemma enter_method_ok:
  assumes s: "stack_ok (stack s)"
    and hdr: "code_u8 (memory s) addr = Ok np" "code_u8 (memory s) (addr + 1) = Ok nl"
    and room: "sp (stack s) + 3 + unat nl \<le> length (cells (stack s))"
    and depth: "length (frames (stack s)) < MAX_FRAME_DEPTH"
  shows "\<exists>st. enter_method addr ret_pc s = (Ok (), s\<lparr>stack := st, pc := addr + 2\<rparr>) \<and> stack_ok st \<and>
     length (cells st) = length (cells (stack s)) \<and>
     frames st = frames (stack s) @ [frame_at ret_pc (sp (stack s)) np nl] \<and>
     contents st = contents (stack s) @
       [of_nat ret_pc, of_nat (frame_base (stack s)), of_nat addr] @ replicate (unat nl) 0"
  using enter_frame_contents [OF s room depth, of ret_pc "frame_base (stack s)" addr np] hdr
  by (auto simp: enter_method_def setup_call_frame_def of_memory_def query_def on_stack_def
      modify_def bnd_def sq_def)

lemma do_call_ok:
  assumes "code_u16 (memory s) p = Ok bix" "addr = block_to_addr (memory s) bix"
  shows "do_call p s = enter_method addr (p + 2) s"
  using assms by (simp add: do_call_def of_memory_def query_def bnd_def)

section \<open>Returns\<close>

lemma unwind_ok:
  assumes "frames (stack s) = fs @ [f]" "unat (num_params f) \<le> frame_pointer f" "return_pc f \<noteq> 0"
  shows "unwind_frame s = (Ok Caller, s\<lparr>stack := (stack s)\<lparr>frames := fs,
    sp := frame_pointer f - unat (num_params f)\<rparr>, pc := return_pc f\<rparr>)"
  using leave_frame_last [OF assms(1,2)] assms(3)
  by (simp add: unwind_frame_def on_stack_def bnd_def sq_def modify_def ret_def)

text \<open>A frame left by a return: the callee's result, popped, goes where the parameters began.\<close>

lemma return_pop_ok:
  assumes u: "stack_ok (stack u)" "contents (stack u) = ys @ [v]"
    and fr: "frames (stack u) = fs @ [f]" "unat (num_params f) \<le> frame_pointer f" "return_pc f \<noteq> 0"
    and base: "frame_pointer f - unat (num_params f) = length xs"
    and below: "take (length xs) (cells (stack u)) = xs" "length xs \<le> length ys"
  shows "\<exists>st. step_call ReturnPop u = (Ok Continue, u\<lparr>stack := st, pc := return_pc f\<rparr>) \<and>
     stack_ok st \<and> length (cells st) = length (cells (stack u)) \<and> frames st = fs \<and>
     contents st = xs @ [v]"
proof -
  from i32_dec.pop_vm [OF u, simplified] obtain st where
    st: "pop32 u = (Ok v, u\<lparr>stack := st\<rparr>)" "stack_ok st" "same_frame (stack u) st"
      "contents st = ys" by auto
  have fits: "length xs < length (cells (stack u))"
    using length_contents [OF u(1)] u below(2) by (simp add: stack_ok_def)
  let ?st = "st\<lparr>frames := fs, sp := length xs\<rparr>"
  let ?w = "u\<lparr>stack := ?st, pc := return_pc f\<rparr>"
  have un: "unwind_frame (u\<lparr>stack := st\<rparr>) = (Ok Caller, ?w)"
    using unwind_ok [of "u\<lparr>stack := st\<rparr>" fs f] fr st(3) base by (simp add: same_frame_def)
  have "take (length xs) (cells st) = take (length xs) (cells (stack u))"
  proof -
    have "stack (snd (pop32 u)) = st" using st(1) by simp
    moreover have "cells (stack (snd (pop32 u))) = cells (stack u)"
      by (simp add: on_stack_def pop_i32_def index_cell_def split: prod.split)
    ultimately show ?thesis by simp
  qed
  then have "stack_ok ?st" "contents ?st = xs" "sp ?st + 1 \<le> length (cells ?st)"
    using fits st(3) below by (simp_all add: stack_ok_def contents_def same_frame_def)
  with push_i32_room [of ?st v] obtain st' where
    st': "push_i32 v ?st = (Ok (), st')" "stack_ok st'" "same_frame ?st st'" "contents st' = xs @ [v]"
    by auto
  then have "push v ?w = (Ok (), u\<lparr>stack := st', pc := return_pc f\<rparr>)"
    by (simp add: on_stack_def)
  with st(1) un have "step_call ReturnPop u = (Ok Continue, u\<lparr>stack := st', pc := return_pc f\<rparr>)"
    by (simp add: return_value_def sq_def ret_def)
  with st' st(3) show ?thesis by (auto simp: same_frame_def)
qed

section \<open>Parameters and locals\<close>

text \<open>Reading a cell of the frame by its absolute index pushes it.\<close>

lemma load_at_ok:
  assumes s: "stack_ok (stack s)" and base: "base s = (Ok p, s)"
    and i: "p + i < sp (stack s)" and room: "sp (stack s) < length (cells (stack s))"
  shows "\<exists>st. load_at base i n s = (Ok (), s\<lparr>stack := st, pc := pc s + n\<rparr>) \<and> stack_ok st \<and>
     same_frame (stack s) st \<and> contents st = contents (stack s) @ [contents (stack s) ! (p + i)]"
proof -
  have get: "stack_get (p + i) (stack s) = (Ok (contents (stack s) ! (p + i)), stack s)"
    using i room by (simp add: stack_get_def contents_def)
  from push_i32_room [OF s room, of "contents (stack s) ! (p + i)"] obtain st where
    "push_i32 (contents (stack s) ! (p + i)) (stack s) = (Ok (), st)" "stack_ok st"
    "same_frame (stack s) st" "contents st = contents (stack s) @ [contents (stack s) ! (p + i)]"
    by blast
  then show ?thesis
    by (auto simp: load_at_def base get then_advance_def sq_def on_stack_def advance_def modify_def bnd_def)
qed

lemma store_at_ok:
  assumes s: "stack_ok (stack s)" "contents (stack s) = xs @ [v]" and base: "base s = (Ok p, s)"
    and i: "p + i < length xs"
  shows "\<exists>st. store_at base i n s = (Ok (), s\<lparr>stack := st, pc := pc s + n\<rparr>) \<and> stack_ok st \<and>
     same_frame (stack s) st \<and> contents st = xs[p + i := v]"
proof -
  from i32_dec.pop_vm [OF s, simplified] obtain st where
    st: "pop32 s = (Ok v, s\<lparr>stack := st\<rparr>)" "stack_ok st" "same_frame (stack s) st" "contents st = xs"
    by auto
  have "sp st = length xs" using length_contents [OF st(2)] st(4) by simp
  with st(2) i have lt: "p + i < length (cells st)" by (simp add: stack_ok_def)
  let ?st = "st\<lparr>cells := (cells st)[p + i := v]\<rparr>"
  have "contents ?st = xs[p + i := v]" using st(4) by (auto simp: contents_def take_update_swap)
  with st lt show ?thesis
    by (auto simp: store_at_def base then_advance_def sq_def on_stack_def stack_set_def advance_def
        modify_def bnd_def stack_ok_def same_frame_def)
qed

lemma param_base_ok:
  assumes "frames (stack s) = fs @ [frame_at r fp np nl]" "unat np \<le> fp"
  shows "param_base s = (Ok (fp - unat np), s)"
  using assms by (simp add: param_base_def query_def current_frame_def frame_at_def)

lemma locals_base_ok:
  assumes "frames (stack s) = fs @ [frame_at r fp np nl]"
  shows "locals_base s = (Ok (fp + 3), s)"
  using assms by (simp add: locals_base_def query_def current_frame_def frame_at_def)

lemma with_index_at:
  "code_u8 (memory s) (pc s + 1) = Ok i \<Longrightarrow> f (unat i) s = (Ok (), t) \<Longrightarrow>
   continue (with_index f) s = (Ok Continue, t)"
  by (simp add: continue_def sq_def with_index_def operand_u8_def query_def ret_def bnd_def)

section \<open>Properties\<close>

text \<open>
  C19 Calling convention: \<open>Call\<close> of a method whose header announces as many parameters as the caller
  has pushed leaves the caller's cells and the arguments in place, adds the frame
  with zeroed locals and continues at the first instruction of the method; and from any state
  the callee reaches with its own frame on top and the caller's cells untouched, \<open>ReturnPop\<close>
  continues after the call, with the arguments replaced by the result and the caller's frames.
\<close>

theorem call_return:
  assumes s: "stack_ok (stack (s :: 'w vm))" "contents (stack s) = xs @ args"
    and call: "code_u8 (memory s) (pc s) = Ok (opcode_byte (CallOp Call))"
      "code_u16 (memory s) (pc s + 1) = Ok bix" "block_to_addr (memory s) bix = addr"
    and hdr: "code_u8 (memory s) addr = Ok np" "code_u8 (memory s) (addr + 1) = Ok nl"
      "unat np = length args"
    and room: "sp (stack s) + 3 + unat nl \<le> length (cells (stack s))"
    and depth: "length (frames (stack s)) < MAX_FRAME_DEPTH"
  shows "\<exists>t. step s = (Ok Continue, t) \<and> pc t = addr + 2 \<and> memory t = memory s \<and>
    contents (stack t) = xs @ args @ [of_nat (pc s + 3), of_nat (frame_base (stack s)), of_nat addr] @
      replicate (unat nl) 0 \<and>
    (\<forall>(u :: 'w vm) ys v. stack_ok (stack u) \<and> contents (stack u) = ys @ [v] \<and>
        frames (stack u) = frames (stack t) \<and> take (length xs) (cells (stack u)) = xs \<and>
        length xs \<le> length ys \<and> code_u8 (memory u) (pc u) = Ok (opcode_byte (CallOp ReturnPop)) \<longrightarrow>
      (\<exists>st. step u = (Ok Continue, u\<lparr>stack := st, pc := pc s + 3\<rparr>) \<and> contents st = xs @ [v] \<and>
        frames st = frames (stack s)))"
proof -
  from enter_method_ok [OF s(1) hdr(1,2) room depth, of "pc s + 3"] obtain st where
    st: "enter_method addr (pc s + 3) s = (Ok (), s\<lparr>stack := st, pc := addr + 2\<rparr>)"
      "frames st = frames (stack s) @ [frame_at (pc s + 3) (sp (stack s)) np nl]"
      "contents st = contents (stack s) @ [of_nat (pc s + 3), of_nat (frame_base (stack s)), of_nat addr] @
         replicate (unat nl) 0" by blast
  let ?t = "s\<lparr>stack := st, pc := addr + 2\<rparr>"
  have "do_call (pc s + 1) s = enter_method addr (pc s + 3) s"
    using do_call_ok [OF call(2), of addr] call(3) by (simp add: numeral_3_eq_3)
  with st(1) have step: "step s = (Ok Continue, ?t)"
    by (simp add: step_at [OF call(1)] continue_def sq_def get_pc_def query_def ret_def bnd_def)
  have sp: "sp (stack s) - unat np = length xs" "unat np \<le> sp (stack s)"
    using length_contents [OF s(1)] s(2) hdr(3) by simp_all
  have ret: "\<exists>st'. step u = (Ok Continue, u\<lparr>stack := st', pc := pc s + 3\<rparr>) \<and> contents st' = xs @ [v] \<and>
        frames st' = frames (stack s)"
    if "stack_ok (stack u)" "contents (stack u) = ys @ [v]" "frames (stack u) = frames st"
      "take (length xs) (cells (stack u)) = xs" "length xs \<le> length ys"
      "code_u8 (memory u) (pc u) = Ok (opcode_byte (CallOp ReturnPop))" for u :: "'w vm" and ys v
    using return_pop_ok [of u ys v "frames (stack s)" "frame_at (pc s + 3) (sp (stack s)) np nl" xs]
      that sp st(2) step_at [OF that(6)] by (auto simp: frame_at_def)
  show ?thesis
    by (intro exI [of _ ?t] conjI step allI impI) (use st(3) s(2) ret in \<open>auto simp: append_assoc\<close>)
qed

lemma call_return_witness:
  "\<exists>t. step (sample_vm [221, 1, 0, 0, 1, 2] [9, 5] []) = (Ok Continue, t) \<and> pc t = 6 \<and>
     contents (stack t) = [9, 5, 3, 0, 4] @ replicate 2 0"
  using call_return [of "sample_vm [221, 1, 0, 0, 1, 2] [9, 5] []" "[9]" "[5]" 1 4 1 2]
  by (auto simp: opcode_byte_def stack_ok_def contents_def code_u16_def code_slice_def get_range_def
      from_le_def MAX_FRAME_DEPTH_def frame_base_def)

text \<open>
  Parameters: in a frame entered with the arguments just below it, \<open>LoadParam\<close> with index
  \<open>i\<close> pushes argument \<open>i\<close>.
\<close>

theorem load_param_argument:
  assumes s: "stack_ok (stack s)" "contents (stack s) = xs @ args @ ys"
    and fr: "frames (stack s) = fs @ [frame_at r (length xs + length args) np nl]"
      "unat np = length args"
    and op: "code_u8 (memory s) (pc s) = Ok (opcode_byte (Param LoadParam))"
      "code_u8 (memory s) (pc s + 1) = Ok i" "unat i < length args"
    and room: "sp (stack s) < length (cells (stack s))"
  shows "\<exists>st. step s = (Ok Continue, s\<lparr>stack := st, pc := pc s + 2\<rparr>) \<and> stack_ok st \<and>
    contents st = contents (stack s) @ [args ! unat i]"
proof -
  have base: "param_base s = (Ok (length xs), s)"
    using param_base_ok [OF fr(1)] fr(2) by simp
  have "length xs + unat i < sp (stack s)"
    using length_contents [OF s(1)] s(2) op(3) by simp
  from load_at_ok [where base = param_base, OF s(1) base this room, of 2] show ?thesis
    using s(2) op(3) with_index_at [OF op(2)]
    by (auto simp: step_at [OF op(1)] nth_append)
qed

lemma load_param_argument_witness:
  "\<exists>st. step (sample_vm [33, 0] [8, 1, 0, 4] [frame_at 1 1 1 0]) =
     (Ok Continue, (sample_vm [33, 0] [8, 1, 0, 4] [frame_at 1 1 1 0])\<lparr>stack := st, pc := 2\<rparr>) \<and>
     contents st = [8, 1, 0, 4, 8]"
  using load_param_argument [of "sample_vm [33, 0] [8, 1, 0, 4] [frame_at 1 1 1 0]" "[]" "[8]" "[1, 0, 4]"
    "[]" 1 1 0 0]
  by (auto simp: opcode_byte_def stack_ok_def contents_def numeral_2_eq_2)

text \<open>
  Locals: a value stored with \<open>StoreLocal\<close> into a local of the current frame is what
  \<open>LoadLocal\<close> of the same index pushes next.
\<close>

theorem store_load_local:
  assumes s: "stack_ok (stack s)" "contents (stack s) = xs @ [v]"
    and fr: "frames (stack s) = fs @ [frame_at r fp np nl]" "fp + 3 + unat i < length xs"
    and op: "code_u8 (memory s) (pc s) = Ok (opcode_byte (Local StoreLocal))"
      "code_u8 (memory s) (pc s + 1) = Ok i"
      "code_u8 (memory s) (pc s + 2) = Ok (opcode_byte (Local LoadLocal))"
      "code_u8 (memory s) (pc s + 3) = Ok i"
  shows "\<exists>st. sq step step s = (Ok Continue, s\<lparr>stack := st, pc := pc s + 4\<rparr>) \<and> stack_ok st \<and>
    contents st = xs[fp + 3 + unat i := v] @ [v]"
proof -
  from store_at_ok [where base = locals_base, OF s locals_base_ok [OF fr(1)] fr(2), of 2] obtain st where
    st: "store_at locals_base (unat i) 2 s = (Ok (), s\<lparr>stack := st, pc := pc s + 2\<rparr>)" "stack_ok st"
      "same_frame (stack s) st" "contents st = xs[fp + 3 + unat i := v]" by blast
  let ?t = "s\<lparr>stack := st, pc := pc s + 2\<rparr>"
  have 1: "step s = (Ok Continue, ?t)"
    using with_index_at [OF op(2), of "\<lambda>i. store_at locals_base i 2"] st(1)
    by (simp add: step_at [OF op(1)])
  have "frames (stack ?t) = fs @ [frame_at r fp np nl]" using st(3) fr(1) by (simp add: same_frame_def)
  note base = locals_base_ok [OF this]
  have sp: "sp st = length xs" using length_contents [OF st(2)] st(4) by simp
  have "fp + 3 + unat i < sp (stack ?t)" "sp (stack ?t) < length (cells (stack ?t))"
    using sp fr(2) st(3) s contents_length_le [OF s] by (simp_all add: same_frame_def)
  from load_at_ok [where base = locals_base and s = ?t, OF _ base this, of 2] st(2) obtain st' where
    st': "load_at locals_base (unat i) 2 ?t = (Ok (), ?t\<lparr>stack := st', pc := pc ?t + 2\<rparr>)" "stack_ok st'"
      "contents st' = contents st @ [contents st ! (fp + 3 + unat i)]" by auto
  have at: "code_u8 (memory ?t) (pc ?t) = Ok (opcode_byte (Local LoadLocal))" using op(3) by simp
  have "code_u8 (memory ?t) (pc ?t + 1) = Ok i" using op(4) by (simp add: numeral_3_eq_3)
  from step_at [OF at] with_index_at [OF this, of "\<lambda>i. load_at locals_base i 2", OF st'(1)]
  have "step ?t = (Ok Continue, s\<lparr>stack := st', pc := pc s + 4\<rparr>)"
    by simp
  with 1 st' st(4) fr(2) show ?thesis by (auto simp: sq_def bnd_def)
qed

lemma store_load_local_witness:
  "\<exists>st. sq step step (sample_vm [55, 0, 45, 0] [1, 0, 4, 0, 33] [frame_at 1 0 0 1]) =
     (Ok Continue, (sample_vm [55, 0, 45, 0] [1, 0, 4, 0, 33] [frame_at 1 0 0 1])\<lparr>stack := st, pc := 4\<rparr>) \<and>
     contents st = [1, 0, 4, 33, 33]"
  using store_load_local [of "sample_vm [55, 0, 45, 0] [1, 0, 4, 0, 33] [frame_at 1 0 0 1]" "[1, 0, 4, 0]" 33
    "[]" 1 0 0 1 0]
  by (auto simp: opcode_byte_def stack_ok_def contents_def numeral_eq_Suc)

end
