(* ===== verification/Svm_Runner.thy ===== *)
theory Svm_Runner
  imports Vm_Balance Vm_Calls
begin

text \<open>
  The runner of \<open>rust_runner.rs\<close>: \<open>start\<close>, \<open>resume\<close> and \<open>stop\<close> around one interpreter. The
  result of reading the scode file is an argument of \<open>start\<close>, as is the native table that the source builds with
  \<open>NativeTable::with_defaults\<close>. The field \<open>outside\<close> is the state of the world that natives
  change; it outlives the interpreter. Log messages are not modelled.
\<close>

section \<open>State\<close>

record 'w runner =
  running :: bool
  interpreter :: "'w vm option"
  resume_offset :: "usize option"
  outside :: 'w

type_synonym ('w, 'a) runner_method = "('w runner, vm_error, 'a) routine"

definition runner_new :: "'w \<Rightarrow> 'w runner" where
  "runner_new w = \<lparr>running = False, interpreter = None, resume_offset = None, outside = w\<rparr>"

definition load_from_file :: "string \<Rightarrow> (string, u8 list) outcome \<Rightarrow> scode_image vm_result" where
  "load_from_file path file =
     (case file of
        Ok bytes \<Rightarrow> load_from_bytes bytes
      | Err e \<Rightarrow> Err (BadImage (''failed to read '' @ path @ '': '' @ e))
      | Panic \<Rightarrow> Panic)"

section \<open>Operations\<close>

text \<open>
  The resume offset is cached before the memory is built and the main method runs, so it stays
  when these fail; the interpreter is stored only when the main method returns.
\<close>

definition start :: "string \<Rightarrow> (string, u8 list) outcome \<Rightarrow> 'w native_table \<Rightarrow> ('w, unit) runner_method" where
  "start path file table = (\<lambda>r.
     if running r then (Err (BadImage ''VM already running''), r)
     else bnd (lift (load_from_file path file)) (\<lambda>image.
       sq (modify (\<lambda>r. r\<lparr>resume_offset :=
             if resume_method (header image) \<noteq> 0
             then Some (block_to_offset image (resume_method (header image))) else None\<rparr>))
      (bnd (lift (from_image image)) (\<lambda>mem r.
        case execute (block_to_offset image (main_method (header image)))
               (vm_new mem table (outside r)) of
          (Ok _, vm) \<Rightarrow> (Ok (), r\<lparr>running := True, interpreter := Some vm, outside := world vm\<rparr>)
        | (Err e, vm) \<Rightarrow> (Err e, r\<lparr>outside := world vm\<rparr>)
        | (Panic, vm) \<Rightarrow> (Panic, r\<lparr>outside := world vm\<rparr>)))) r)"

definition resume :: "('w, i32) runner_method" where
  "resume = (\<lambda>r.
     if \<not> running r then (Err Stopped, r)
     else case resume_offset r of
       None \<Rightarrow> (Err (BadImage ''no resume method defined in scode header''), r)
     | Some offset \<Rightarrow>
       (case interpreter r of
          None \<Rightarrow> (Err Stopped, r)
        | Some vm \<Rightarrow>
          if stopped vm then (Err Stopped, r\<lparr>running := False\<rparr>)
          else case execute offset (vm\<lparr>world := outside r\<rparr>) of
            (res, vm') \<Rightarrow> (res, r\<lparr>interpreter := Some vm', outside := world vm'\<rparr>)))"

definition stop :: "('w, unit) runner_method" where
  "stop = modify (\<lambda>r. r\<lparr>interpreter := map_option (\<lambda>vm. vm\<lparr>stopped := True\<rparr>) (interpreter r),
                        running := False\<rparr>)"

section \<open>The lifecycle\<close>

text \<open>The calls a client can make, and the runners they lead to.\<close>

inductive runner_reach :: "'w native_table \<Rightarrow> 'w runner \<Rightarrow> bool" for table where
  reach_new: "runner_reach table (runner_new w)"
| reach_start: "runner_reach table r \<Longrightarrow> start path file table r = (res, r') \<Longrightarrow> runner_reach table r'"
| reach_resume: "runner_reach table r \<Longrightarrow> resume r = (res, r') \<Longrightarrow> runner_reach table r'"
| reach_stop: "runner_reach table r \<Longrightarrow> stop r = (res, r') \<Longrightarrow> runner_reach table r'"

text \<open>
  A running runner has an interpreter that is not stopped; a stored interpreter is within its stack
  bounds and has the runner's native table and a stack of 4096 cells.
\<close>

definition vm_sound :: "'w native_table \<Rightarrow> 'w vm \<Rightarrow> bool" where
  "vm_sound table vm \<longleftrightarrow> natives vm = table \<and> stack_inv (stack vm) \<and> length (cells (stack vm)) = 4096"

definition runner_inv :: "'w native_table \<Rightarrow> 'w runner \<Rightarrow> bool" where
  "runner_inv table r \<longleftrightarrow>
     (running r \<longrightarrow> (\<exists>vm. interpreter r = Some vm \<and> \<not> stopped vm)) \<and>
     (\<forall>vm. interpreter r = Some vm \<longrightarrow> vm_sound table vm)"

lemma execute_sound:
  assumes "execute entry vm = (res, vm')"
  shows "stopped vm' = stopped vm" "natives vm' = natives vm"
    "length (cells (stack vm')) = length (cells (stack vm))"
    "stack_inv (stack vm) \<Longrightarrow> stack_inv (stack vm')"
proof -
  have "same_machine vm vm'"
    using machine_run.execute_keeps(2) [of vm entry] same_machine_refl [of vm] assms
    by (auto simp: keeps_def dest: spec [of _ vm])
  then show "stopped vm' = stopped vm" "natives vm' = natives vm"
    "length (cells (stack vm')) = length (cells (stack vm))" by (simp_all add: same_machine_def)
  show "stack_inv (stack vm) \<Longrightarrow> stack_inv (stack vm')"
    using bounds_run.execute_keeps(2) [of entry] assms by (auto simp: keeps_def dest: spec [of _ vm])
qed

lemma vm_new_sound: "vm_sound table (vm_new mem table w)"
  by (simp add: vm_sound_def vm_new_def stack_inv_def stack_new_def)

lemma execute_vm_sound: "execute entry vm = (res, vm') \<Longrightarrow> vm_sound table vm \<Longrightarrow> vm_sound table vm'"
  using execute_sound [of entry vm res vm'] by (simp add: vm_sound_def)

lemma start_cases:
  assumes "start path file table r = (res, r')" "\<not> running r"
  obtains (failed) "running r' = running r" "interpreter r' = interpreter r" "res \<noteq> Ok ()"
  | (started) image mem vm v where "load_from_file path file = Ok image" "from_image image = Ok mem"
      "execute (block_to_offset image (main_method (header image))) (vm_new mem table (outside r)) = (Ok v, vm)"
      "running r'" "interpreter r' = Some vm" "outside r' = world vm" "res = Ok ()"
proof (cases "load_from_file path file")
  case (Ok image)
  show ?thesis
  proof (cases "from_image image")
    case mem: (Ok mem)
    obtain x vm where "execute (block_to_offset image (main_method (header image)))
        (vm_new mem table (outside r)) = (x, vm)" by fastforce
    with assms Ok mem started failed show ?thesis
      by (cases x) (auto simp: start_def lift_def bnd_def sq_def modify_def)
  qed (use assms Ok failed in \<open>auto simp: start_def lift_def bnd_def sq_def modify_def\<close>)
qed (use assms failed in \<open>auto simp: start_def lift_def bnd_def\<close>)

lemma start_inv: "runner_inv table r \<Longrightarrow> start path file table r = (res, r') \<Longrightarrow> runner_inv table r'"
proof (cases "running r")
  case True
  then show "runner_inv table r \<Longrightarrow> start path file table r = (res, r') \<Longrightarrow> ?thesis"
    by (auto simp: start_def)
next
  case False
  assume inv: "runner_inv table r" and st: "start path file table r = (res, r')"
  from st False show ?thesis
  proof (cases rule: start_cases)
    case failed
    with inv show ?thesis by (simp add: runner_inv_def)
  next
    case (started image mem vm v)
    have "\<not> stopped vm" using execute_sound(1) [OF started(3)] by (simp add: vm_new_def)
    moreover have "vm_sound table vm" using execute_vm_sound [OF started(3) vm_new_sound] .
    ultimately show ?thesis using started by (simp add: runner_inv_def)
  qed
qed

lemma resume_inv: "runner_inv table r \<Longrightarrow> resume r = (res, r') \<Longrightarrow> runner_inv table r'"
proof -
  assume inv: "runner_inv table r" and res: "resume r = (res, r')"
  show ?thesis
  proof (cases "running r \<and> resume_offset r \<noteq> None")
    case False
    with inv res show ?thesis by (auto simp: resume_def split: if_splits option.splits)
  next
    case True
    with inv obtain vm off where vm: "interpreter r = Some vm" "\<not> stopped vm" "resume_offset r = Some off"
      "vm_sound table vm" by (auto simp: runner_inv_def)
    obtain x vm' where ex: "execute off (vm\<lparr>world := outside r\<rparr>) = (x, vm')" by fastforce
    have "vm_sound table (vm\<lparr>world := outside r\<rparr>)" using vm(4) by (simp add: vm_sound_def)
    from execute_vm_sound [OF ex this] execute_sound(1) [OF ex] res True vm ex
    show ?thesis by (auto simp: resume_def runner_inv_def)
  qed
qed

lemma stop_inv: "runner_inv table r \<Longrightarrow> stop r = (res, r') \<Longrightarrow> runner_inv table r'"
  by (auto simp: stop_def modify_def runner_inv_def vm_sound_def)

text \<open>A small image: its main and its resume method are \<open>LoadI1; ReturnPop\<close>.\<close>

definition sample_image :: "u8 list" where
  "sample_image = [0x07, 0xBA, 0xD0, 0x5E, 1, 5, 4, 4, 34, 0, 0, 0, 16, 0, 0, 0, 8, 0, 0, 0,
     0, 0, 0, 0, 8, 0, 0, 0, 0, 0, 0, 0, 3, 227]"

section \<open>Properties\<close>

text \<open>
  Lifecycle invariant: over every sequence of \<open>start\<close>, \<open>resume\<close> and \<open>stop\<close> calls, with any files and any
  bytecode, a running runner holds an interpreter that is not stopped, and a held interpreter
  has the native table it was given and a stack within the bounds of its 4096 cells and 512 frames.
\<close>

theorem runner_invariant: "runner_reach table r \<Longrightarrow> runner_inv table r"
  by (induction rule: runner_reach.induct)
     (auto intro: start_inv resume_inv stop_inv, simp add: runner_inv_def runner_new_def)

lemma runner_invariant_witness:
  "runner_inv table_new (snd (stop (snd (start ''app.scode'' (Ok sample_image) table_new (runner_new ())))))"
  by (rule runner_invariant [OF reach_stop [OF reach_start [OF reach_new]]]) (rule prod.collapse [symmetric])+

text \<open>
  Start: a runner that is not running starts exactly when the file loads, the image has a data segment
  and its main method returns a value; then it runs that interpreter. In every other case it
  does not run and keeps the interpreter it had.
\<close>

theorem start_outcome:
  assumes "\<not> running r" "start path file table r = (res, r')"
  shows "(running r' \<longleftrightarrow> res = Ok ()) \<and>
    (running r' \<longleftrightarrow> (\<exists>image mem v vm. load_from_file path file = Ok image \<and> from_image image = Ok mem \<and>
       execute (block_to_offset image (main_method (header image))) (vm_new mem table (outside r)) = (Ok v, vm) \<and>
       interpreter r' = Some vm)) \<and>
    (\<not> running r' \<longrightarrow> interpreter r' = interpreter r)"
proof -
  have "running r'" if "load_from_file path file = Ok image" "from_image image = Ok mem"
    "execute (block_to_offset image (main_method (header image))) (vm_new mem table (outside r)) = (Ok v, vm)"
    for image mem v vm
    using that assms by (auto simp: start_def lift_def bnd_def sq_def modify_def)
  with assms(2,1) show ?thesis by (cases rule: start_cases) (use assms(1) in auto)
qed

lemma start_outcome_witness:
  "\<not> running (snd (start ''app.scode'' (Err ''not found'') table_new (runner_new ()))) \<and>
   interpreter (snd (start ''app.scode'' (Err ''not found'') table_new (runner_new ()))) = None"
proof -
  have "\<not> running (runner_new ())" "interpreter (runner_new ()) = None" by (simp_all add: runner_new_def)
  moreover have "fst (start ''app.scode'' (Err ''not found'') table_new (runner_new ())) \<noteq> Ok ()"
    by (simp add: start_def runner_new_def load_from_file_def lift_def bnd_def)
  ultimately show ?thesis
    using start_outcome [of "runner_new ()" "''app.scode''" "Err ''not found''" table_new] by (metis prod.collapse)
qed

text \<open>
  Stop: after \<open>stop\<close>, \<open>resume\<close> fails with \<open>Stopped\<close> and changes nothing; on a running runner \<open>start\<close> is refused.
\<close>

theorem stop_resume:
  assumes "stop r = (res, r')"
  shows "resume r' = (Err Stopped, r') \<and> \<not> running r' \<and>
    (running r \<longrightarrow> start path file table r = (Err (BadImage ''VM already running''), r))"
  using assms by (auto simp: stop_def modify_def resume_def start_def)

lemma stop_resume_witness:
  "resume (snd (stop (runner_new ()))) = (Err Stopped, snd (stop (runner_new ())))"
  using stop_resume [of "runner_new ()" "fst (stop (runner_new ()))" "snd (stop (runner_new ()))"] by simp

text \<open>
  Error path: a run that fails in its first instruction leaves the three bookkeeping cells and the
  frame of its entry on the stack, so that a runner whose resume method fails loses three cells and one
  frame with every cycle.
\<close>

theorem failed_execute_leaks:
  assumes "stack_ok (stack s)" "sp (stack s) + 3 \<le> length (cells (stack s))"
    and "length (frames (stack s)) < MAX_FRAME_DEPTH" "\<not> stopped s"
    and "code_u8 (memory s) entry = Ok b" "NUM_OPCODES \<le> unat b"
  shows "\<exists>t. execute entry s = (Err (InvalidOpcode b), t) \<and> sp (stack t) = sp (stack s) + 3 \<and>
    length (frames (stack t)) = length (frames (stack s)) + 1"
proof -
  from enter_frame_contents [OF assms(1), of 0 0 0 entry 0] assms(2,3) obtain st where
    st: "enter_frame 0 0 entry 0 0 (stack s) = (Ok (), st)" "stack_ok st"
      "length (frames st) = length (frames (stack s)) + 1" "length (contents st) = length (contents (stack s)) + 3"
    by auto
  let ?u = "s\<lparr>stack := st, pc := entry, instruction_count := 0\<rparr>"
  have "sp st = sp (stack s) + 3"
    using st(4) length_contents [OF st(2)] length_contents [OF assms(1)] by simp
  moreover have "step (tick ?u) = (Err (InvalidOpcode b), tick ?u)"
    using assms(5,6) by (simp add: step_def fetch_def query_def bnd_def tick_def try_from_def)
  then have "run_loop ?u = (Err (InvalidOpcode b), tick ?u)"
    by (intro run_loop_halt halt_error) (simp_all add: assms(4) MAX_INSTRUCTIONS_def)
  then have "execute entry s = (Err (InvalidOpcode b), tick ?u)"
    using st(1) by (simp add: execute_def execute_with_args_def enter_top_def start_at_def sq_def bnd_def
        modify_def ret_def on_stack_def)
  ultimately show ?thesis using st(3) by simp
qed

lemma failed_execute_leaks_witness:
  "\<exists>t. execute 0 (sample_vm [255] [] []) = (Err (InvalidOpcode 255), t) \<and> sp (stack t) = 3"
  using failed_execute_leaks [of "sample_vm [255] [] []" 0 255]
  by (auto simp: stack_ok_def MAX_FRAME_DEPTH_def NUM_OPCODES_def)

end
