(* ===== verification/Vm_Control.thy ===== *)
theory Vm_Control
  imports Vm_Semantics
begin

text \<open>
  Control flow: which instructions fall through to the next one, where the others go, and which
  instructions cannot panic whatever the bytecode does.
\<close>

section \<open>Falling through\<close>

text \<open>\<open>advances n m\<close>: if \<open>m\<close> succeeds, the program counter has moved by \<open>n\<close>.\<close>

definition advances :: "nat \<Rightarrow> ('w, 'a) vm_method \<Rightarrow> bool" where
  "advances n m \<longleftrightarrow> (\<forall>s a t. m s = (Ok a, t) \<longrightarrow> pc t = pc s + n)"

named_theorems adv \<open>how far the parts of an arm move the program counter\<close>

lemma advances_bnd [adv]: "advances 0 m \<Longrightarrow> (\<And>a. advances n (f a)) \<Longrightarrow> advances n (bnd m f)"
  by (fastforce simp: advances_def bnd_eq_Ok)

lemma advances_sq [adv]: "advances 0 m \<Longrightarrow> advances n k \<Longrightarrow> advances n (sq m k)"
  unfolding sq_def by (rule advances_bnd)

lemma advances_then [adv]: "advances 0 m \<Longrightarrow> k = n \<Longrightarrow> advances n (then_advance m k)"
  by (fastforce simp: advances_def then_advance_def sq_def bnd_eq_Ok advance_def modify_def)

lemma advances_basic [adv]:
  "advances 0 (ret a)" "advances n (raise e)" "advances n panic" "advances 0 (query q)"
  "k = n \<Longrightarrow> advances n (advance k)"
  by (auto simp: advances_def monad_defs advance_def)

lemma advances_parts [adv]:
  "advances 0 (on_stack m)" "advances 0 (on_memory f)" "advances 0 (call_native d k i ps)"
  "advances 0 (count_assert v)"
  by (auto simp: advances_def on_stack_def on_memory_def call_native_def count_assert_def
      split: prod.splits if_splits)

lemma advances_if [adv]: "advances n m \<Longrightarrow> advances n k \<Longrightarrow> advances n (if b then m else k)"
  by simp

lemma advances_repeatM [adv]: "advances 0 m \<Longrightarrow> advances 0 (repeatM n m)"
  by (induction n) (auto intro: adv)

lemma advances_init_refs [adv]: "advances 0 (init_refs a b c i n)"
  by (induction n arbitrary: i) (auto intro: adv)

lemma advances_queries [adv]:
  "advances 0 (of_memory q)" "advances 0 (operand_u8 k)" "advances 0 (operand_u16 k)"
  "advances 0 (operand_u32 k)" "advances 0 param_base" "advances 0 locals_base"
  "advances 0 (below_top k)" "advances n (unsupported x)"
  unfolding of_memory_def operand_u8_def operand_u16_def operand_u32_def param_base_def
    locals_base_def below_top_def unsupported_def
  by (intro adv)+

lemmas arm_defs = unary_def binary_def load_at_def load_wide_at_def store_at_def
  store_wide_at_def with_index_def long_shift_def load_const32_def load_const64_def
  load_code_addr_def block_operand_def init_array_def init_field_def assert_op_def
  load_field_def load_array_def store_field_def store_array_def add_array_def elem_addr_def
  inline_field_def param0_inline_def data_inline_def push_sum_def offset_u1_def offset_u2_def
  offset_u4_def pop_u8_def pop_u16_def push_u8_def push_u16_def push_const_def native_call_def
  native_params_def drop_params_def

text \<open>The instructions that set the program counter themselves.\<close>

definition transfers :: "opcode \<Rightarrow> bool" where
  "transfers op = (case op of
     NearJump _ \<Rightarrow> True | FarJump _ \<Rightarrow> True | NearInt _ \<Rightarrow> True | FarInt _ \<Rightarrow> True
   | Misc x \<Rightarrow> x = Switch
   | CallOp x \<Rightarrow> x \<notin> {CallNative, CallNativeWide, CallNativeVoid}
   | _ \<Rightarrow> False)"

definition falls_through :: "opcode \<Rightarrow> ('w, step_result) vm_method \<Rightarrow> bool" where
  "falls_through op m \<longleftrightarrow> (\<forall>s a t. m s = (Ok a, t) \<longrightarrow> a = Continue \<and> pc t = pc s + 1 + operand_bytes op)"

lemma falls_through_continue:
  "advances (1 + operand_bytes op) m \<Longrightarrow> falls_through op (continue m)"
  by (fastforce simp: falls_through_def advances_def continue_def sq_def bnd_eq_Ok ret_def)

lemma exec_op_falls_through: "transfers op \<or> falls_through op (exec_op op)"
proof -
  have "\<forall>op \<in> set all_opcodes. transfers op \<or> falls_through op (exec_op op)"
    unfolding opcode_lists
    by (simp only: list.set list.map append.simps ball_simps set_append set_map ball_Un
        transfers_def opcode.case step_simps simp_thms misc_op.distinct call_op.distinct insert_iff
        empty_iff)
       (unfold arm_defs, intro conjI falls_through_continue adv, simp_all)
  with all_opcodes_exhaustive show ?thesis by blast
qed

section \<open>Instructions that cannot panic\<close>

text \<open>\<open>quiet m\<close>: from a stack within its bounds, \<open>m\<close> does not panic and leaves the stack within them.\<close>

definition quiet :: "('w, 'a) vm_method \<Rightarrow> bool" where
  "quiet m \<longleftrightarrow> (\<forall>s. stack_inv (stack s) \<longrightarrow> fst (m s) \<noteq> Panic \<and> stack_inv (stack (snd (m s))))"

definition stack_quiet :: "'a stack_method \<Rightarrow> bool" where
  "stack_quiet m \<longleftrightarrow> (\<forall>s. stack_inv s \<longrightarrow> fst (m s) \<noteq> Panic \<and> stack_inv (snd (m s)))"

lemma stack_quietI:
  "stack_safe m \<Longrightarrow> (\<And>s. stack_inv s \<Longrightarrow> fst (m s) \<noteq> Panic) \<Longrightarrow> stack_quiet m"
  by (simp add: stack_quiet_def stack_safe_def stack_rel_def)

named_theorems qt \<open>methods that do not panic\<close>

lemma stack_quiet_bnd [qt]:
  "stack_quiet m \<Longrightarrow> (\<And>a. stack_quiet (f a)) \<Longrightarrow> stack_quiet (bnd m f)"
  unfolding stack_quiet_def bnd_def by (auto split: prod.split outcome.split)

lemma stack_quiet_sq [qt]: "stack_quiet m \<Longrightarrow> stack_quiet n \<Longrightarrow> stack_quiet (sq m n)"
  unfolding sq_def by (rule stack_quiet_bnd)

lemma stack_no_panic:
  "fst (ret a s) \<noteq> Panic" "fst (push_i32 v s) \<noteq> Panic" "fst (push_i64 w s) \<noteq> Panic"
  "fst (stack_get i s) \<noteq> Panic" "fst (stack_set i v s) \<noteq> Panic" "fst (stack_get_wide i s) \<noteq> Panic"
  "fst (stack_set_wide i w s) \<noteq> Panic" "fst (dup s) \<noteq> Panic" "fst (dup2 s) \<noteq> Panic"
  "fst (dupdown2 s) \<noteq> Panic" "fst (dupdown3 s) \<noteq> Panic" "fst (pop s) \<noteq> Panic"
  "fst (pop2 s) \<noteq> Panic" "fst (pop3 s) \<noteq> Panic" "stack_inv s \<Longrightarrow> fst (pop_i32 s) \<noteq> Panic"
  "stack_inv s \<Longrightarrow> fst (pop_i64 s) \<noteq> Panic"
  by (auto simp: stack_inv_def push_i32_def pop_i32_def push_i64_def pop_i64_def
      index_cell_def bnd_def ret_def stack_get_def stack_set_def stack_get_wide_def stack_set_wide_def
      dup_def dup2_def dupdown2_def dupdown3_def pop_def pop2_def pop3_def Let_def)

lemma stack_quiet_prims [qt]:
  "stack_quiet (ret a)" "stack_quiet (push_i32 v)" "stack_quiet pop_i32" "stack_quiet (push_i64 w)"
  "stack_quiet pop_i64" "stack_quiet (stack_get i)" "stack_quiet (stack_set i v)"
  "stack_quiet (stack_get_wide i)" "stack_quiet (stack_set_wide i w)"
  "stack_quiet dup" "stack_quiet dup2" "stack_quiet dupdown2" "stack_quiet dupdown3"
  "stack_quiet pop" "stack_quiet pop2" "stack_quiet pop3"
  by (rule stack_quietI, rule data_safe_stack, rule wp, simp add: stack_no_panic)+

lemma stack_quiet_typed [qt]:
  "stack_quiet (push_f32 f)" "stack_quiet pop_f32" "stack_quiet (push_f64 d)" "stack_quiet pop_f64"
  "stack_quiet (push_ref p)" "stack_quiet pop_ref"
  by (auto simp: push_f32_def pop_f32_def push_f64_def pop_f64_def push_ref_def pop_ref_def
      intro: qt)

lemma stack_quiet_repeatM [qt]: "stack_quiet m \<Longrightarrow> stack_quiet (repeatM n m)"
  by (induction n) (auto intro: qt)

lemma get_all_no_panic: "fst (get_all is s) \<noteq> Panic"
  by (induction "is" arbitrary: s)
     (auto simp: ret_def bnd_def stack_get_def split: prod.splits outcome.splits, metis fst_conv)

lemma set_all_no_panic: "fst (set_all ps s) \<noteq> Panic"
  by (induction ps arbitrary: s)
     (auto simp: ret_def sq_def bnd_def stack_set_def split: prod.splits outcome.splits)

lemma stack_quiet_dup2down [qt]: "stack_quiet (dup2down k)"
proof -
  have "fst (dup2down k s) \<noteq> Panic" for s
    using get_all_no_panic set_all_no_panic
    by (auto simp: dup2down_def bnd_def sq_def push_i32_def split: prod.splits outcome.splits)
       (metis fst_conv)+
  then show ?thesis by (intro stack_quietI data_safe_stack wp)
qed

lemma stack_quiet_enter_frame [qt]: "stack_quiet (enter_frame r p a np nl)"
proof -
  have "fst (enter_frame r p a np nl s) \<noteq> Panic" for s
  proof -
    have "fst (repeatM n (push_i32 0 :: unit stack_method) t) \<noteq> Panic" for n t
      by (induction n arbitrary: t) (auto simp: ret_def sq_def bnd_def push_i32_def)
    then show ?thesis
      by (auto simp: enter_frame_def sq_def bnd_def push_i32_def push_frame_def)
  qed
  then show ?thesis by (intro stack_quietI stack_safe_enter_frame)
qed

lemma quiet_bnd [qt]: "quiet m \<Longrightarrow> (\<And>a. quiet (f a)) \<Longrightarrow> quiet (bnd m f)"
  unfolding quiet_def bnd_def
  by (auto split: prod.split outcome.split)

lemma quiet_sq [qt]: "quiet m \<Longrightarrow> quiet n \<Longrightarrow> quiet (sq m n)"
  unfolding sq_def by (rule quiet_bnd)

lemma quiet_basic [qt]:
  "quiet (ret a)" "quiet (raise e)" "quiet (modify (\<lambda>s. s\<lparr>pc := g s\<rparr>))" "quiet (advance n)"
  "quiet get_pc" "quiet locals_base"
  by (auto simp: quiet_def monad_defs advance_def get_pc_def locals_base_def current_frame_def)

lemma quiet_on_stack [qt]: "stack_quiet m \<Longrightarrow> quiet (on_stack m)"
  by (auto simp: quiet_def stack_quiet_def on_stack_def split: prod.split)

lemma code_no_panic:
  "code_u8 m p \<noteq> Panic" "code_u16 m p \<noteq> Panic" "code_u32 m p \<noteq> Panic" "code_i32 m p \<noteq> Panic"
  by (auto simp: code_u8_def code_u16_def code_u32_def code_i32_def code_slice_def)

lemma quiet_code [qt]:
  "quiet (operand_u8 k)" "quiet (operand_u16 k)" "quiet (operand_u32 k)"
  "quiet (of_memory (\<lambda>m. code_u8 m a))" "quiet (of_memory (\<lambda>m. code_u16 m a))"
  "quiet (of_memory (\<lambda>m. code_u32 m a))" "quiet (of_memory (\<lambda>m. code_i32 m a))"
  "quiet (of_memory (\<lambda>m. Ok (f m)))"
  by (simp_all add: quiet_def operand_u8_def operand_u16_def operand_u32_def of_memory_def query_def
      code_no_panic)

lemma quiet_if [qt]: "quiet m \<Longrightarrow> quiet n \<Longrightarrow> quiet (if b then m else n)"
  by simp

lemma quiet_then [qt]: "quiet m \<Longrightarrow> quiet (then_advance m n)"
  unfolding then_advance_def by (intro qt)

lemma quiet_continue [qt]: "quiet m \<Longrightarrow> quiet (continue m)"
  unfolding continue_def by (intro qt)

text \<open>Loads and stores whose offset operand has one or two bytes: the offset is not negative.\<close>

lemma data_addr_nonneg: "0 \<le> sint z \<Longrightarrow> data_addr b z \<noteq> Panic"
  by (simp add: data_addr_def)

lemma get_bytes_no_panic: "0 \<le> sint z \<Longrightarrow> get_bytes m b z n \<noteq> Panic"
  using data_addr_nonneg [of z b] by (auto simp: get_bytes_def data_read_def)

lemma set_bytes_no_panic: "0 \<le> sint z \<Longrightarrow> fst (set_bytes b z bs m) \<noteq> Panic"
  using data_addr_nonneg [of z b]
  by (cases "data_addr b z") (auto simp: set_bytes_def bnd_def lift_def data_write_def)

lemma ucast_nonneg: "0 \<le> sint (ucast (a :: u8) :: i32)" "0 \<le> sint (ucast (b :: u16) :: i32)"
  by (simp_all add: sint_uint signed_take_bit_eq_if_positive bit_simps not_le)
     (auto dest: bit_imp_le_length)

definition quiet_load :: "(vm_memory \<Rightarrow> usize \<Rightarrow> i32 \<Rightarrow> 'v vm_result) \<Rightarrow> bool" where
  "quiet_load load \<longleftrightarrow> (\<forall>m b z. 0 \<le> sint z \<longrightarrow> load m b z \<noteq> Panic)"

definition quiet_store :: "(usize \<Rightarrow> i32 \<Rightarrow> 'v \<Rightarrow> unit mem_method) \<Rightarrow> bool" where
  "quiet_store store \<longleftrightarrow> (\<forall>m b z v. 0 \<le> sint z \<longrightarrow> fst (store b z v m) \<noteq> Panic)"

lemma quiet_accessors [qt]:
  "quiet_load get_byte" "quiet_load get_short" "quiet_load get_int" "quiet_load get_wide"
  "quiet_load get_ref" "quiet_store set_byte" "quiet_store set_short" "quiet_store set_int"
  "quiet_store set_wide" "quiet_store set_ref"
  by (simp_all add: quiet_load_def quiet_store_def load_defs store_defs get_bytes_no_panic
      set_bytes_no_panic)

lemma quiet_store_at: "quiet_store st \<Longrightarrow> 0 \<le> sint z \<Longrightarrow> quiet (on_memory (st b z v))"
  by (auto simp: quiet_def quiet_store_def on_memory_def split: prod.split) (metis fst_conv)

lemma quiet_load_field [qt]:
  "quiet_load l \<Longrightarrow> (\<And>v. quiet (p v)) \<Longrightarrow> quiet (load_field l p offset_u1 n)"
  "quiet_load l \<Longrightarrow> (\<And>v. quiet (p v)) \<Longrightarrow> quiet (load_field l p offset_u2 n)"
proof -
  assume l: "quiet_load l" and p: "\<And>v. quiet (p v)"
  have at: "quiet (of_memory (\<lambda>m. l m b z))" if "0 \<le> sint z" for b z
    using l that by (simp add: quiet_def quiet_load_def of_memory_def query_def)
  show "quiet (load_field l p offset_u1 n)" "quiet (load_field l p offset_u2 n)"
    unfolding load_field_def offset_u1_def offset_u2_def bnd_assoc bnd_ret
    by (intro qt p at ucast_nonneg)+
qed

lemma quiet_store_field [qt]:
  "quiet_store st \<Longrightarrow> quiet q \<Longrightarrow> quiet (store_field st q offset_u1 n)"
  "quiet_store st \<Longrightarrow> quiet q \<Longrightarrow> quiet (store_field st q offset_u2 n)"
  unfolding store_field_def offset_u1_def offset_u2_def bnd_assoc bnd_ret
  by (intro qt quiet_store_at ucast_nonneg; assumption)+

lemma quiet_offsets: "quiet offset_u1" "quiet offset_u2"
  unfolding offset_u1_def offset_u2_def by (intro qt)+

text \<open>
  The instructions that cannot panic. The others compute an index or an address with unchecked
  \<open>usize\<close> arithmetic, negate an arbitrary offset, count assertions or call natives.
\<close>

definition never_panics :: "opcode \<Rightarrow> bool" where
  "never_panics op = (case op of
     Param _ \<Rightarrow> False | NearJump _ \<Rightarrow> False | FarJump _ \<Rightarrow> False | NearInt _ \<Rightarrow> False | FarInt _ \<Rightarrow> False
   | Store8 x \<Rightarrow> x \<notin> {Load8BitFieldU4, Load8BitArray, Store8BitFieldU4, Store8BitArray, Add8BitArray}
   | Store16 x \<Rightarrow> x \<in> {Load16BitFieldU1, Load16BitFieldU2, Store16BitFieldU1, Store16BitFieldU2}
   | Store32 x \<Rightarrow> x \<in> {Load32BitFieldU1, Load32BitFieldU2, Store32BitFieldU1, Store32BitFieldU2}
   | Store64 x \<Rightarrow> x \<in> {Load64BitFieldU1, Load64BitFieldU2, Store64BitFieldU1, Store64BitFieldU2}
   | RefOp x \<Rightarrow> x \<in> {LoadRefFieldU1, LoadRefFieldU2, StoreRefFieldU1, StoreRefFieldU2}
   | ConstOp x \<Rightarrow> x \<noteq> LoadConstArray
   | InlineOp x \<Rightarrow> x \<notin> {LoadParam0InlineFieldU1, LoadParam0InlineFieldU2, LoadParam0InlineFieldU4}
   | CallOp x \<Rightarrow> x = Call
   | Misc x \<Rightarrow> x \<notin> {InitArray, Assert, Switch}
   | _ \<Rightarrow> True)"

lemma quiet_call [qt]: "quiet (do_call p)"
  unfolding do_call_def enter_method_def setup_call_frame_def
  by (intro qt) (simp add: quiet_def query_def)

lemma exec_op_quiet: "never_panics op \<longrightarrow> quiet (exec_op op)"
proof -
  have "\<forall>op \<in> set all_opcodes. never_panics op \<longrightarrow> quiet (exec_op op)"
    unfolding opcode_lists
    by (simp only: list.set list.map append.simps ball_simps set_append set_map ball_Un
        never_panics_def opcode.case step_simps simp_thms insert_iff empty_iff store8_op.distinct
        store16_op.distinct store32_op.distinct store64_op.distinct ref_op.distinct const_op.distinct
        inline_op.distinct call_op.distinct misc_op.distinct)
       (unfold unary_def binary_def load_at_def load_wide_at_def store_at_def
        store_wide_at_def with_index_def long_shift_def load_const32_def load_const64_def
        load_code_addr_def block_operand_def init_field_def inline_field_def data_inline_def
        push_sum_def push_const_def unsupported_def offset_u4_def push_u8_def push_u16_def pop_u8_def pop_u16_def,
        intro conjI qt quiet_offsets quiet_store_at, simp_all)
  with all_opcodes_exhaustive show ?thesis by blast
qed

section \<open>Branch targets\<close>

primrec near_cmp :: "near_int_op \<Rightarrow> int \<Rightarrow> int \<Rightarrow> bool" where
  "near_cmp JumpIntEq a b \<longleftrightarrow> a = b"
| "near_cmp JumpIntNotEq a b \<longleftrightarrow> a \<noteq> b"
| "near_cmp JumpIntGt a b \<longleftrightarrow> a > b"
| "near_cmp JumpIntGtEq a b \<longleftrightarrow> a \<ge> b"
| "near_cmp JumpIntLt a b \<longleftrightarrow> a < b"
| "near_cmp JumpIntLtEq a b \<longleftrightarrow> a \<le> b"

primrec far_cmp :: "far_int_op \<Rightarrow> int \<Rightarrow> int \<Rightarrow> bool" where
  "far_cmp JumpFarIntEq a b \<longleftrightarrow> a = b"
| "far_cmp JumpFarIntNotEq a b \<longleftrightarrow> a \<noteq> b"
| "far_cmp JumpFarIntGt a b \<longleftrightarrow> a > b"
| "far_cmp JumpFarIntGtEq a b \<longleftrightarrow> a \<ge> b"
| "far_cmp JumpFarIntLt a b \<longleftrightarrow> a < b"
| "far_cmp JumpFarIntLtEq a b \<longleftrightarrow> a \<le> b"

lemma step_near_int_eq: "step_near_int x = int_branch near_jump 2 (near_cmp x)"
  by (cases x) (simp_all add: near_cmp_def fun_eq_iff)

lemma step_far_int_eq: "step_far_int x = int_branch far_jump 3 (far_cmp x)"
  by (cases x) (simp_all add: far_cmp_def fun_eq_iff)

text \<open>A target inside the address space is reached exactly.\<close>

lemma jump_rel_ok:
  assumes "base < 2 ^ 31" "0 \<le> int base + z" "int base + z < 2 ^ 31"
  shows "jump_rel base z s = (Ok (), s\<lparr>pc := nat (int base + z)\<rparr>)"
proof -
  have "sint (of_nat base :: i32) = int base"
    using assms(1) by (simp add: signed_take_bit_int_eq_self_iff signed_of_nat)
  with assms show ?thesis by (simp add: jump_rel_def modify_def)
qed

lemma near_jump_ok:
  assumes "code_u8 (memory s) (pc s + 1) = Ok k" "pc s + 2 < 2 ^ 31"
    and "0 \<le> int (pc s + 2) + sint k" "int (pc s + 2) + sint k < 2 ^ 31"
  shows "near_jump s = (Ok (), s\<lparr>pc := nat (int (pc s + 2) + sint k)\<rparr>)"
  using jump_rel_ok [OF assms(2-4)] assms(1)
  by (simp add: near_jump_def operand_u8_def get_pc_def query_def bnd_def)

lemma far_jump_ok:
  assumes "code_u16 (memory s) (pc s + 1) = Ok k" "pc s + 3 < 2 ^ 31"
    and "0 \<le> int (pc s + 3) + sint k" "int (pc s + 3) + sint k < 2 ^ 31"
  shows "far_jump s = (Ok (), s\<lparr>pc := nat (int (pc s + 3) + sint k)\<rparr>)"
  using jump_rel_ok [OF assms(2-4)] assms(1)
  by (simp add: far_jump_def operand_u16_def get_pc_def query_def bnd_def)

lemma int_branch_ok:
  assumes "stack_ok (stack s)" "contents (stack s) = xs @ [a, b]"
    and jump: "\<And>st. jump (s\<lparr>stack := st\<rparr>) = (Ok (), s\<lparr>stack := st, pc := target\<rparr>)"
  shows "\<exists>st. int_branch jump n cmp s =
      (Ok (), s\<lparr>stack := st, pc := if cmp (sint a) (sint b) then target else pc s + n\<rparr>) \<and>
    stack_ok st \<and> same_frame (stack s) st \<and> contents st = xs"
proof -
  from i32_dec.pop_vm [OF assms(1), of "xs @ [a]" "[b]"] assms(2) obtain st where
    st: "pop32 s = (Ok b, s\<lparr>stack := st\<rparr>)" "stack_ok st" "same_frame (stack s) st" "contents st = xs @ [a]"
    by auto
  from i32_dec.pop_vm [of "s\<lparr>stack := st\<rparr>" xs "[a]"] st obtain st' where
    st': "pop32 (s\<lparr>stack := st\<rparr>) = (Ok a, s\<lparr>stack := st'\<rparr>)" "stack_ok st'" "same_frame st st'" "contents st' = xs"
    by auto
  from st st' jump [of st'] show ?thesis
    by (auto simp: int_branch_def branch_def advance_def modify_def same_frame_def)
qed

section \<open>Properties\<close>

text \<open>
  Sequencing: an instruction that does not transfer control and succeeds continues
  right behind its operands, whose number is the one \<open>Opcode::operand_bytes\<close> reports.
\<close>

theorem step_falls_through:
  assumes "code_u8 (memory (s :: 'w vm)) (pc s) = Ok (opcode_byte op)" "\<not> transfers op" "step s = (Ok r, t)"
  shows "r = Continue \<and> pc t = pc s + 1 + operand_bytes op"
proof -
  have "falls_through op (exec_op op :: ('w, _) vm_method)"
    using exec_op_falls_through assms(2) by blast
  with assms(3) step_at [OF assms(1)] show ?thesis by (simp add: falls_through_def)
qed

lemma step_falls_through_witness:
  "pc (snd (step (sample_vm [8, 5] [] []))) = 2"
proof -
  have "step (sample_vm [8, 5] [] []) = (Ok Continue, (sample_vm [8, 5] [] [])\<lparr>
      stack := \<lparr>cells = (replicate 8 0)[0 := 5], sp = 1, frames = []\<rparr>, pc := 2\<rparr>)"
    by (subst step_at [of _ "Literal LoadIntU1"])
       (simp_all add: opcode_byte_def continue_def sq_def bnd_def operand_u8_def query_def then_advance_def
         on_stack_def push_i32_def advance_def modify_def ret_def)
  with step_falls_through [of "sample_vm [8, 5] [] []" "Literal LoadIntU1"] show ?thesis
    by (simp add: opcode_byte_def transfers_def)
qed

text \<open>
  C33 Panic freedom: from a stack within its bounds, an instruction of the quiet set never
  panics, whatever its operands, the code and the data are.
\<close>

theorem step_no_panic:
  assumes "code_u8 (memory (s :: 'w vm)) (pc s) = Ok (opcode_byte op)" "never_panics op" "stack_inv (stack s)"
  shows "fst (step s) \<noteq> Panic \<and> stack_inv (stack (snd (step s)))"
proof -
  have "quiet (exec_op op :: ('w, _) vm_method)" using exec_op_quiet assms(2) by blast
  with assms(3) step_at [OF assms(1)] show ?thesis by (simp add: quiet_def)
qed

lemma step_no_panic_witness: "fst (step (sample_vm [64] [7, 0] [])) \<noteq> Panic"
  using step_no_panic [of "sample_vm [64] [7, 0] []" "IntMath IntDiv"]
  by (simp add: opcode_byte_def never_panics_def stack_inv_def)

text \<open>
  Fetch errors: a program counter outside the code segment and a byte that is no opcode stop
  the machine with the matching error and change nothing.
\<close>

theorem step_fetch_errors:
  "(length (code (memory s)) \<le> pc s \<longrightarrow>
     step s = (Err (PcOutOfBounds (pc s) (length (code (memory s)))), s)) \<and>
   (\<forall>b. code_u8 (memory s) (pc s) = Ok b \<and> NUM_OPCODES \<le> unat b \<longrightarrow>
     step s = (Err (InvalidOpcode b), s))"
  by (auto simp: step_def fetch_def query_def bnd_def code_u8_def pc_error_def try_from_def
      split: if_splits)

lemma step_fetch_errors_witness:
  "step (sample_vm [255] [] []) = (Err (InvalidOpcode 255), sample_vm [255] [] []) \<and>
   step (sample_vm [] [] []) = (Err (PcOutOfBounds 0 0), sample_vm [] [] [])"
  using step_fetch_errors [of "sample_vm [255] [] []"] step_fetch_errors [of "sample_vm [] [] []"]
  by (simp add: NUM_OPCODES_def)

text \<open>
  Conditional branches: the six near comparisons pop their operands and continue at the
  signed byte offset from the end of the instruction when the comparison holds, behind the
  instruction otherwise.
\<close>

theorem near_int_branch:
  assumes "code_u8 (memory s) (pc s) = Ok (opcode_byte (NearInt op))"
    and "code_u8 (memory s) (pc s + 1) = Ok k" "pc s + 2 < 2 ^ 31"
    and "0 \<le> int (pc s + 2) + sint k" "int (pc s + 2) + sint k < 2 ^ 31"
    and "stack_ok (stack s)" "contents (stack s) = xs @ [a, b]"
  shows "\<exists>st. step s = (Ok Continue, s\<lparr>stack := st,
      pc := if near_cmp op (sint a) (sint b) then nat (int (pc s + 2) + sint k) else pc s + 2\<rparr>) \<and>
    stack_ok st \<and> contents st = xs"
proof -
  have "near_jump (s\<lparr>stack := st\<rparr>) = (Ok (), s\<lparr>stack := st, pc := nat (int (pc s + 2) + sint k)\<rparr>)" for st
    using near_jump_ok [of "s\<lparr>stack := st\<rparr>" k] assms(2-5) by simp
  from int_branch_ok [OF assms(6,7) this, of 2 "near_cmp op"] show ?thesis
    by (auto simp: step_at [OF assms(1)] step_near_int_eq continue_def sq_def ret_def bnd_def)
qed

lemma near_int_branch_witness:
  "\<exists>st. step (sample_vm [154, 5] [1, 2] []) = (Ok Continue, (sample_vm [154, 5] [1, 2] [])\<lparr>stack := st, pc := 7\<rparr>) \<and>
     contents st = []"
  using near_int_branch [of "sample_vm [154, 5] [1, 2] []" JumpIntLt 5 "[]" 1 2]
  by (auto simp: opcode_byte_def stack_ok_def contents_def)

text \<open>The far comparisons do the same with a signed 16-bit offset.\<close>

theorem far_int_branch:
  assumes "code_u8 (memory s) (pc s) = Ok (opcode_byte (FarInt op))"
    and "code_u16 (memory s) (pc s + 1) = Ok k" "pc s + 3 < 2 ^ 31"
    and "0 \<le> int (pc s + 3) + sint k" "int (pc s + 3) + sint k < 2 ^ 31"
    and "stack_ok (stack s)" "contents (stack s) = xs @ [a, b]"
  shows "\<exists>st. step s = (Ok Continue, s\<lparr>stack := st,
      pc := if far_cmp op (sint a) (sint b) then nat (int (pc s + 3) + sint k) else pc s + 3\<rparr>) \<and>
    stack_ok st \<and> contents st = xs"
proof -
  have "far_jump (s\<lparr>stack := st\<rparr>) = (Ok (), s\<lparr>stack := st, pc := nat (int (pc s + 3) + sint k)\<rparr>)" for st
    using far_jump_ok [of "s\<lparr>stack := st\<rparr>" k] assms(2-5) by simp
  from int_branch_ok [OF assms(6,7) this, of 3 "far_cmp op"] show ?thesis
    by (auto simp: step_at [OF assms(1)] step_far_int_eq continue_def sq_def ret_def bnd_def)
qed

lemma far_int_branch_witness:
  "\<exists>st. step (sample_vm [160, 5, 0] [3, 2] []) = (Ok Continue, (sample_vm [160, 5, 0] [3, 2] [])\<lparr>stack := st, pc := 3\<rparr>) \<and>
     contents st = []"
  using far_int_branch [of "sample_vm [160, 5, 0] [3, 2] []" JumpFarIntLt 5 "[]" 3 2]
  by (auto simp: opcode_byte_def stack_ok_def contents_def code_u16_def code_slice_def get_range_def
      from_le_def)

end
