(* ===== verification/Vm_Objects.thy ===== *)
theory Vm_Objects
  imports Vm_Semantics
begin

text \<open>
  Object initialisation: the reference table that \<open>InitArray\<close> builds in front of the objects of an
  array, and iteration over an array with \<open>Foreach\<close>.
\<close>

section \<open>The reference table of an array\<close>

lemma set_ref_inside:
  assumes "a + 4 \<le> length (data m)" "a < usize_bound"
  shows "set_ref a 0 v m = (Ok (), m\<lparr>data := set_range (data m) a (to_le 4 (of_nat v :: u32))\<rparr>)"
proof -
  have "range_at m a 0 (length (to_le 4 (of_nat v :: u32))) = Some a"
    using assms by (simp add: range_at_def data_addr_def)
  from set_bytes_in [OF this] show ?thesis by (simp add: set_ref_def)
qed

lemma get_ref_inside:
  assumes "a + 4 \<le> length (data m)" "a < usize_bound"
  shows "get_ref m a 0 = Ok (unat (from_le (take 4 (drop a (data m))) :: u32))"
proof -
  have "range_at m a 0 4 = Some a" using assms by (simp add: range_at_def data_addr_def)
  from get_bytes_in [OF this] show ?thesis by (simp add: get_ref_def)
qed

text \<open>The loop writes entry \<open>j\<close> for every \<open>j\<close> it covers, and no byte outside the entries it covers.\<close>

definition table_filled :: "usize \<Rightarrow> usize \<Rightarrow> nat \<Rightarrow> nat \<Rightarrow> nat \<Rightarrow> vm_memory \<Rightarrow> bool" where
  "table_filled refs objs sz lo hi m \<longleftrightarrow>
     (\<forall>j. lo \<le> j \<and> j < hi \<longrightarrow> get_range (data m) (refs + j * 4) 4 = Some (to_le 4 (of_nat (objs + j * sz) :: u32)))"

lemma table_filled_Suc:
  assumes "get_range (data m) (refs + i * 4) 4 = Some (to_le 4 (of_nat (objs + i * sz) :: u32))"
    and "table_filled refs objs sz (Suc i) hi m"
  shows "table_filled refs objs sz i hi m"
  unfolding table_filled_def
proof (intro allI impI)
  fix j assume "i \<le> j \<and> j < hi"
  then show "get_range (data m) (refs + j * 4) 4 = Some (to_le 4 (of_nat (objs + j * sz) :: u32))"
    using assms by (cases "j = i") (simp_all add: table_filled_def)
qed

lemma init_refs_ok:
  assumes "refs + (i + n) * 4 \<le> length (data (memory s))" "refs + (i + n) * 4 < usize_bound"
    and "objs + (i + n) * sz < usize_bound"
  shows "\<exists>m'. init_refs refs objs sz i n s = (Ok (), s\<lparr>memory := m'\<rparr>) \<and>
    length (data m') = length (data (memory s)) \<and> code m' = code (memory s) \<and>
    (\<forall>q. q < refs + i * 4 \<or> refs + (i + n) * 4 \<le> q \<longrightarrow> data m' ! q = data (memory s) ! q) \<and>
    (\<forall>q k. q + k \<le> refs + i * 4 \<longrightarrow> get_range (data m') q k = get_range (data (memory s)) q k) \<and>
    table_filled refs objs sz i (i + n) m'"
  using assms
proof (induction n arbitrary: i s)
  case 0
  then show ?case by (intro exI [of _ "memory s"]) (auto simp: ret_def table_filled_def)
next
  case (Suc n)
  let ?a = "refs + i * 4" and ?v = "objs + i * sz"
  let ?bs = "to_le 4 (of_nat ?v :: u32)"
  let ?m = "(memory s)\<lparr>data := set_range (data (memory s)) ?a ?bs\<rparr>"
  let ?s = "s\<lparr>memory := ?m\<rparr>"
  have a: "?a + 4 \<le> length (data (memory s))" "?a < usize_bound" and v: "?v < usize_bound"
    using Suc.prems by (auto simp: algebra_simps)
  have len: "length (data ?m) = length (data (memory s))" using a(1) by simp
  have one: "on_memory (set_ref ?a 0 ?v) s = (Ok (), ?s)"
    by (simp add: on_memory_def set_ref_inside [OF a])
  have "refs + (Suc i + n) * 4 \<le> length (data (memory ?s))" "refs + (Suc i + n) * 4 < usize_bound"
    "objs + (Suc i + n) * sz < usize_bound"
    using Suc.prems len by simp_all
  from Suc.IH [OF this] obtain m' where
    m': "init_refs refs objs sz (Suc i) n ?s = (Ok (), ?s\<lparr>memory := m'\<rparr>)"
      "length (data m') = length (data ?m)" "code m' = code ?m"
      "\<forall>q. q < refs + Suc i * 4 \<or> refs + (Suc i + n) * 4 \<le> q \<longrightarrow> data m' ! q = data ?m ! q"
      "\<forall>q k. q + k \<le> refs + Suc i * 4 \<longrightarrow> get_range (data m') q k = get_range (data ?m) q k"
      "table_filled refs objs sz (Suc i) (Suc i + n) m'" by auto
  have "get_range (data m') ?a 4 = Some ?bs"
    using m'(5) a(1) by (simp add: get_set_range_same del: of_nat_add of_nat_mult)
  from table_filled_Suc [OF this m'(6)] have "table_filled refs objs sz i (i + Suc n) m'" by simp
  moreover have "init_refs refs objs sz i (Suc n) s = (Ok (), s\<lparr>memory := m'\<rparr>)"
    using one m'(1) v by (simp add: sq_def)
  moreover have "data m' ! q = data (memory s) ! q" if "q < ?a \<or> refs + (i + Suc n) * 4 \<le> q" for q
    using that m'(4) a(1) by (auto simp: nth_set_range_outside algebra_simps)
  moreover have "get_range (data m') q k = get_range (data (memory s)) q k" if "q + k \<le> ?a" for q k
    using that m'(5) a(1) by (simp add: get_set_range_disjoint)
  ultimately show ?case using m'(2,3) len by (intro exI [of _ m']) auto
qed

lemma table_filled_get:
  assumes "table_filled refs objs sz 0 n m" "j < n" "objs + j * sz < usize_bound" "refs + j * 4 < usize_bound"
  shows "get_ref m (refs + j * 4) 0 = Ok (objs + j * sz)"
proof -
  have "get_range (data m) (refs + j * 4) 4 = Some (to_le 4 (of_nat (objs + j * sz) :: u32))"
    using assms(1,2) by (simp add: table_filled_def)
  then have "refs + j * 4 + 4 \<le> length (data m)"
    "take 4 (drop (refs + j * 4) (data m)) = to_le 4 (of_nat (objs + j * sz) :: u32)"
    by (auto simp: get_range_def split: if_splits)
  with get_ref_inside [of "refs + j * 4" m] assms(3,4) show ?thesis
    by (simp add: from_le_to_le unat_of_nat take_bit_nat_eq_self del: of_nat_add of_nat_mult)
qed

text \<open>The three operands, popped from the top.\<close>

lemma pop_three:
  assumes "stack_ok (stack s)" "contents (stack s) = xs @ [a, b, c]"
  shows "\<exists>st. bnd pop32 (\<lambda>z. bnd pop32 (\<lambda>y. bnd popR (\<lambda>x. f x y z))) s =
      f (unat a) b c (s\<lparr>stack := st\<rparr>) \<and> stack_ok st \<and> same_frame (stack s) st \<and> contents st = xs"
proof -
  from i32_dec.pop_vm [of s "xs @ [a, b]" "[c]"] assms obtain st1 where
    1: "pop32 s = (Ok c, s\<lparr>stack := st1\<rparr>)" "stack_ok st1" "same_frame (stack s) st1"
      "contents st1 = xs @ [a, b]" by auto
  from i32_dec.pop_vm [of "s\<lparr>stack := st1\<rparr>" "xs @ [a]" "[b]"] 1 obtain st2 where
    2: "pop32 (s\<lparr>stack := st1\<rparr>) = (Ok b, s\<lparr>stack := st2\<rparr>)" "stack_ok st2" "same_frame st1 st2"
      "contents st2 = xs @ [a]" by auto
  from ref_dec.pop_vm [of "s\<lparr>stack := st2\<rparr>" xs "[a]"] 2 obtain st3 where
    "popR (s\<lparr>stack := st2\<rparr>) = (Ok (unat a), s\<lparr>stack := st3\<rparr>)" "stack_ok st3" "same_frame st2 st3"
      "contents st3 = xs" by auto
  with 1 2 show ?thesis by (auto simp: same_frame_def)
qed

section \<open>Properties\<close>

text \<open>
  \<open>InitArray\<close>: with a reference table that lies in the data segment and addresses that do not overflow,
  the instruction pops its operands and makes entry \<open>j\<close> of the table the address of object \<open>j\<close> behind it,
  and it changes no byte outside the table.
\<close>

theorem init_array_table:
  assumes op: "code_u8 (memory s) (pc s) = Ok (opcode_byte (Misc InitArray))"
    and s: "stack_ok (stack s)" "contents (stack s) = xs @ [base, len, sz]"
    and fits: "unat base + unat len * 4 \<le> length (data (memory s))"
      "unat base + unat len * 4 + unat len * unat sz < usize_bound"
  shows "\<exists>t. step s = (Ok Continue, t) \<and> contents (stack t) = xs \<and> pc t = pc s + 1 \<and>
    (\<forall>j < unat len. get_ref (memory t) (unat base + j * 4) 0 =
       Ok (unat base + unat len * 4 + j * unat sz)) \<and>
    (\<forall>q. q < unat base \<or> unat base + unat len * 4 \<le> q \<longrightarrow> data (memory t) ! q = data (memory s) ! q)"
proof -
  let ?b = "unat base" and ?n = "unat len" and ?z = "unat sz"
  let ?objs = "?b + ?n * 4"
  let ?body = "\<lambda>x y z. if x + unat y * 4 < usize_bound
     then then_advance (init_refs x (x + unat y * 4) (unat z) 0 (unat y)) 1 else panic"
  from pop_three [OF s, of ?body] obtain st where
    st: "init_array s = ?body ?b len sz (s\<lparr>stack := st\<rparr>)" "contents st = xs"
    by (auto simp: init_array_def)
  have "?b + (0 + ?n) * 4 \<le> length (data (memory (s\<lparr>stack := st\<rparr>)))" "?b + (0 + ?n) * 4 < usize_bound"
    "?objs + (0 + ?n) * ?z < usize_bound" using fits by auto
  from init_refs_ok [OF this] obtain m' where
    m': "init_refs ?b ?objs ?z 0 ?n (s\<lparr>stack := st\<rparr>) = (Ok (), s\<lparr>stack := st, memory := m'\<rparr>)"
      "\<forall>q. q < ?b \<or> ?b + ?n * 4 \<le> q \<longrightarrow> data m' ! q = data (memory s) ! q"
      "table_filled ?b ?objs ?z 0 ?n m'" by auto
  let ?t = "s\<lparr>stack := st, memory := m', pc := pc s + 1\<rparr>"
  have "step s = (Ok Continue, ?t)"
    using st(1) m'(1) fits(2)
    by (simp add: step_at [OF op] continue_def sq_def ret_def then_advance_def advance_def modify_def bnd_def)
  moreover have "get_ref m' (?b + j * 4) 0 = Ok (?objs + j * ?z)" if "j < ?n" for j
  proof -
    have "j * ?z \<le> ?n * ?z" "j * 4 \<le> ?n * 4" using that by (simp_all add: mult_le_mono1)
    then have "?objs + j * ?z < usize_bound" "?b + j * 4 < usize_bound" using fits(2) by linarith+
    then show ?thesis by (rule table_filled_get [OF m'(3) that])
  qed
  ultimately show ?thesis using st(2) m'(2) by (intro exI [of _ ?t]) auto
qed

lemma init_array_table_witness:
  "\<exists>t. step (sample_vm [230] [0, 2, 3] []) = (Ok Continue, t) \<and> get_ref (memory t) 4 0 = Ok 11"
proof -
  let ?s = "sample_vm [230] [0, 2, 3] []"
  have "code_u8 (memory ?s) (pc ?s) = Ok (opcode_byte (Misc InitArray))" "stack_ok (stack ?s)"
    "contents (stack ?s) = [] @ [0, 2, 3]" "unat (0 :: i32) + unat (2 :: i32) * 4 \<le> length (data (memory ?s))"
    "unat (0 :: i32) + unat (2 :: i32) * 4 + unat (2 :: i32) * unat (3 :: i32) < usize_bound"
    by (simp_all add: opcode_byte_def stack_ok_def contents_def) (simp add: sample_vm_def)
  from init_array_table [OF this] obtain t where "step ?s = (Ok Continue, t)"
    "\<forall>j < unat (2 :: i32). get_ref (memory t) (unat (0 :: i32) + j * 4) 0 =
       Ok (unat (0 :: i32) + unat (2 :: i32) * 4 + j * unat (3 :: i32))" by blast
  then show ?thesis by (intro exI [of _ t]) (auto dest: spec [of _ "1 :: nat"])
qed

end
