(* ===== verification/Sab_Validator.thy ===== *)
theory Sab_Validator
  imports Image_Loader Opcodes Native_Table
begin

text \<open>
  The compatibility validator of \<open>sab_validator.rs\<close>. The scan of the bytecode visits one position per
  turn of its loop and is a total function; \<open>visited\<close> lists the positions. The native
  table, which the source builds with \<open>NativeTable::with_defaults\<close>, is an argument. Texts of \<open>.sax\<close> files are
  byte strings with ASCII white space.
\<close>

section \<open>Reports\<close>

record sab_kit_info =
  kit_info_id :: u8
  kit_info_name :: string
  checksum :: u32
  native_count :: u16

record native_method_ref =
  ref_kit_id :: u8
  ref_method_id :: u8
  ref_kit_name :: string

record sab_report =
  file_path :: string
  file_size :: usize
  header_valid :: bool
  scode_version :: u32
  report_kit_count :: u8
  report_kits :: "sab_kit_info list"
  component_count :: u16
  native_method_refs :: "native_method_ref list"
  unsupported_natives :: "native_method_ref list"
  opcode_usage :: "u8 \<rightharpoonup> nat"
  unsupported_opcodes :: "u8 list"
  warnings :: "string list"
  errors :: "string list"
  compatible :: bool

definition report_new :: "string \<Rightarrow> usize \<Rightarrow> sab_report" where
  "report_new path n =
     \<lparr>file_path = path, file_size = n, header_valid = False, scode_version = 0,
      report_kit_count = 0, report_kits = [], component_count = 0, native_method_refs = [],
      unsupported_natives = [], opcode_usage = Map.empty, unsupported_opcodes = [],
      warnings = [], errors = [], compatible = False\<rparr>"

section \<open>Opcode metadata\<close>

text \<open>The size of an instruction with its opcode byte, as this module tabulates it.\<close>

fun opcode_size :: "opcode \<Rightarrow> nat" where
  "opcode_size (Literal x) =
     (case x of LoadIntU1 \<Rightarrow> 2 | LoadIntU2 \<Rightarrow> 3
        | LoadInt \<Rightarrow> 3 | LoadFloat \<Rightarrow> 3
        | LoadLong \<Rightarrow> 3 | LoadDouble \<Rightarrow> 3
        | LoadStr \<Rightarrow> 3 | LoadBuf \<Rightarrow> 3
        | LoadType \<Rightarrow> 3 | LoadSlot \<Rightarrow> 3
        | LoadDefine \<Rightarrow> 3 | _ \<Rightarrow> 1)"
| "opcode_size (Param x) =
     (case x of LoadParam \<Rightarrow> 2 | LoadParamWide \<Rightarrow> 2
        | StoreParam \<Rightarrow> 2 | StoreParamWide \<Rightarrow> 2
        | _ \<Rightarrow> 1)"
| "opcode_size (Local x) =
     (case x of LoadLocal \<Rightarrow> 2 | LoadLocalWide \<Rightarrow> 2
        | StoreLocal \<Rightarrow> 2 | StoreLocalWide \<Rightarrow> 2
        | _ \<Rightarrow> 1)"
| "opcode_size (IntCmp _) = 1"
| "opcode_size (IntMath _) = 1"
| "opcode_size (LongCmp _) = 1"
| "opcode_size (LongMath _) = 1"
| "opcode_size (FloatCmp _) = 1"
| "opcode_size (FloatMath _) = 1"
| "opcode_size (DoubleCmp _) = 1"
| "opcode_size (DoubleMath _) = 1"
| "opcode_size (CastOp _) = 1"
| "opcode_size (GenCmp _) = 1"
| "opcode_size (StackOp _) = 1"
| "opcode_size (NearJump x) =
     (case x of Foreach \<Rightarrow> 4 | _ \<Rightarrow> 2)"
| "opcode_size (FarJump x) =
     (case x of ForeachFar \<Rightarrow> 4 | _ \<Rightarrow> 3)"
| "opcode_size (NearInt _) = 3"
| "opcode_size (FarInt _) = 4"
| "opcode_size (Store8 x) =
     (case x of LoadDataAddr \<Rightarrow> 1 | Load8BitFieldU2 \<Rightarrow> 3
        | Store8BitFieldU2 \<Rightarrow> 3 | Load8BitFieldU4 \<Rightarrow> 5
        | Store8BitFieldU4 \<Rightarrow> 5 | _ \<Rightarrow> 2)"
| "opcode_size (Store16 x) =
     (case x of Load16BitFieldU2 \<Rightarrow> 3 | Store16BitFieldU2 \<Rightarrow> 3
        | Load16BitFieldU4 \<Rightarrow> 5 | Store16BitFieldU4 \<Rightarrow> 5
        | _ \<Rightarrow> 2)"
| "opcode_size (Store32 x) =
     (case x of Load32BitFieldU2 \<Rightarrow> 3 | Store32BitFieldU2 \<Rightarrow> 3
        | Load32BitFieldU4 \<Rightarrow> 5 | Store32BitFieldU4 \<Rightarrow> 5
        | _ \<Rightarrow> 2)"
| "opcode_size (Store64 x) =
     (case x of Load64BitFieldU2 \<Rightarrow> 3 | Store64BitFieldU2 \<Rightarrow> 3
        | Load64BitFieldU4 \<Rightarrow> 5 | Store64BitFieldU4 \<Rightarrow> 5
        | _ \<Rightarrow> 2)"
| "opcode_size (RefOp x) =
     (case x of LoadRefFieldU2 \<Rightarrow> 3 | StoreRefFieldU2 \<Rightarrow> 3
        | LoadRefFieldU4 \<Rightarrow> 5 | StoreRefFieldU4 \<Rightarrow> 5
        | _ \<Rightarrow> 2)"
| "opcode_size (ConstOp x) =
     (case x of LoadConstFieldU2 \<Rightarrow> 3 | LoadConstStatic \<Rightarrow> 3
        | _ \<Rightarrow> 2)"
| "opcode_size (InlineOp x) =
     (case x of LoadInlineFieldU2 \<Rightarrow> 3
        | LoadParam0InlineFieldU2 \<Rightarrow> 3
        | LoadDataInlineFieldU2 \<Rightarrow> 3 | LoadInlineFieldU4 \<Rightarrow> 5
        | LoadParam0InlineFieldU4 \<Rightarrow> 5
        | LoadDataInlineFieldU4 \<Rightarrow> 5 | _ \<Rightarrow> 2)"
| "opcode_size (CallOp x) =
     (case x of ReturnVoid \<Rightarrow> 1 | ReturnPop \<Rightarrow> 1
        | ReturnPopWide \<Rightarrow> 1 | Call \<Rightarrow> 3
        | LoadParam0Call \<Rightarrow> 3 | _ \<Rightarrow> 4)"
| "opcode_size (Misc x) =
     (case x of SizeOf \<Rightarrow> 1 | Cast \<Rightarrow> 1
        | LoadArrayLiteral \<Rightarrow> 1 | InitArray \<Rightarrow> 4
        | _ \<Rightarrow> 3)"

definition opcode_instruction_size :: "u8 \<Rightarrow> nat option" where
  "opcode_instruction_size b =
     (case try_from b of Ok op \<Rightarrow> Some (opcode_size op) | _ \<Rightarrow> None)"

text \<open>The opcodes the module lists as handled by the interpreter, in its order.\<close>

definition handled_opcodes :: "opcode list" where
  "handled_opcodes = [
     Literal Nop, Literal LoadIM1, Literal LoadI0, Literal LoadI1, Literal LoadI2,
     Literal LoadI3, Literal LoadI4, Literal LoadI5, Literal LoadIntU1, Literal LoadIntU2,
     Literal LoadL0, Literal LoadL1, Literal LoadF0, Literal LoadF1, Literal LoadD0,
     Literal LoadD1, Literal LoadNull, Literal LoadNullBool, Literal LoadNullFloat,
     Literal LoadNullDouble, Literal LoadInt, Literal LoadFloat, Literal LoadLong,
     Literal LoadDouble, Literal LoadStr, Literal LoadBuf, Literal LoadType,
     Literal LoadSlot, Param LoadParam0, Param LoadParam1, Param LoadParam2,
     Param LoadParam3, Param LoadParam, Param LoadParamWide, Param StoreParam,
     Param StoreParamWide, Local LoadLocal0, Local LoadLocal1, Local LoadLocal2,
     Local LoadLocal3, Local LoadLocal4, Local LoadLocal5, Local LoadLocal6,
     Local LoadLocal7, Local LoadLocal, Local LoadLocalWide, Local StoreLocal0,
     Local StoreLocal1, Local StoreLocal2, Local StoreLocal3, Local StoreLocal4,
     Local StoreLocal5, Local StoreLocal6, Local StoreLocal7, Local StoreLocal,
     Local StoreLocalWide, IntCmp IntEq, IntCmp IntNotEq, IntCmp IntGt, IntCmp IntGtEq,
     IntCmp IntLt, IntCmp IntLtEq, IntMath IntMul, IntMath IntDiv, IntMath IntMod,
     IntMath IntAdd, IntMath IntSub, IntMath IntOr, IntMath IntXor, IntMath IntAnd,
     IntMath IntNot, IntMath IntNeg, IntMath IntShiftL, IntMath IntShiftR, IntMath IntInc,
     IntMath IntDec, LongCmp LongEq, LongCmp LongNotEq, LongCmp LongGt, LongCmp LongGtEq,
     LongCmp LongLt, LongCmp LongLtEq, LongMath LongMul, LongMath LongDiv,
     LongMath LongMod, LongMath LongAdd, LongMath LongSub, LongMath LongOr,
     LongMath LongXor, LongMath LongAnd, LongMath LongNot, LongMath LongNeg,
     LongMath LongShiftL, LongMath LongShiftR, FloatCmp FloatEq, FloatCmp FloatNotEq,
     FloatCmp FloatGt, FloatCmp FloatGtEq, FloatCmp FloatLt, FloatCmp FloatLtEq,
     FloatMath FloatMul, FloatMath FloatDiv, FloatMath FloatAdd, FloatMath FloatSub,
     FloatMath FloatNeg, DoubleCmp DoubleEq, DoubleCmp DoubleNotEq, DoubleCmp DoubleGt,
     DoubleCmp DoubleGtEq, DoubleCmp DoubleLt, DoubleCmp DoubleLtEq, DoubleMath DoubleMul,
     DoubleMath DoubleDiv, DoubleMath DoubleAdd, DoubleMath DoubleSub,
     DoubleMath DoubleNeg, CastOp IntToFloat, CastOp IntToLong, CastOp IntToDouble,
     CastOp LongToInt, CastOp LongToFloat, CastOp LongToDouble, CastOp FloatToInt,
     CastOp FloatToLong, CastOp FloatToDouble, CastOp DoubleToInt, CastOp DoubleToLong,
     CastOp DoubleToFloat, GenCmp ObjEq, GenCmp ObjNotEq, GenCmp EqZero, GenCmp NotEqZero,
     StackOp Pop, StackOp Pop2, StackOp Pop3, StackOp Dup, StackOp Dup2, StackOp DupDown2,
     StackOp DupDown3, StackOp Dup2Down2, StackOp Dup2Down3, NearJump Jump,
     NearJump JumpNonZero, NearJump JumpZero, NearJump Foreach, FarJump JumpFar,
     FarJump JumpFarNonZero, FarJump JumpFarZero, FarJump ForeachFar, NearInt JumpIntEq,
     NearInt JumpIntNotEq, NearInt JumpIntGt, NearInt JumpIntGtEq, NearInt JumpIntLt,
     NearInt JumpIntLtEq, FarInt JumpFarIntEq, FarInt JumpFarIntNotEq, FarInt JumpFarIntGt,
     FarInt JumpFarIntGtEq, FarInt JumpFarIntLt, FarInt JumpFarIntLtEq,
     Store8 LoadDataAddr, Store8 Load8BitFieldU1, Store8 Load8BitFieldU2,
     Store8 Load8BitFieldU4, Store8 Load8BitArray, Store8 Store8BitFieldU1,
     Store8 Store8BitFieldU2, Store8 Store8BitFieldU4, Store8 Store8BitArray,
     Store8 Add8BitArray, Store16 Load16BitFieldU1, Store16 Load16BitFieldU2,
     Store16 Load16BitFieldU4, Store16 Load16BitArray, Store16 Store16BitFieldU1,
     Store16 Store16BitFieldU2, Store16 Store16BitFieldU4, Store16 Store16BitArray,
     Store16 Add16BitArray, Store32 Load32BitFieldU1, Store32 Load32BitFieldU2,
     Store32 Load32BitFieldU4, Store32 Load32BitArray, Store32 Store32BitFieldU1,
     Store32 Store32BitFieldU2, Store32 Store32BitFieldU4, Store32 Store32BitArray,
     Store32 Add32BitArray, Store64 Load64BitFieldU1, Store64 Load64BitFieldU2,
     Store64 Load64BitFieldU4, Store64 Load64BitArray, Store64 Store64BitFieldU1,
     Store64 Store64BitFieldU2, Store64 Store64BitFieldU4, Store64 Store64BitArray,
     Store64 Add64BitArray, RefOp LoadRefFieldU1, RefOp LoadRefFieldU2,
     RefOp LoadRefFieldU4, RefOp LoadRefArray, RefOp StoreRefFieldU1,
     RefOp StoreRefFieldU2, RefOp StoreRefFieldU4, RefOp StoreRefArray, RefOp AddRefArray,
     ConstOp LoadConstFieldU1, ConstOp LoadConstFieldU2, ConstOp LoadConstStatic,
     ConstOp LoadConstArray, InlineOp LoadInlineFieldU1, InlineOp LoadInlineFieldU2,
     InlineOp LoadInlineFieldU4, InlineOp LoadParam0InlineFieldU1,
     InlineOp LoadParam0InlineFieldU2, InlineOp LoadParam0InlineFieldU4,
     InlineOp LoadDataInlineFieldU1, InlineOp LoadDataInlineFieldU2,
     InlineOp LoadDataInlineFieldU4, CallOp LoadParam0Call, CallOp Call,
     CallOp CallVirtual, CallOp CallNative, CallOp CallNativeWide, CallOp CallNativeVoid,
     CallOp ReturnPop, CallOp ReturnPopWide, CallOp ReturnVoid, Misc InitArray,
     Misc InitVirt, Misc InitComp, Misc Assert, Misc Switch, Misc MetaSlot,
     Misc LoadSlotId, Literal LoadDefine, Misc SizeOf, Misc Cast, Misc LoadArrayLiteral]"

definition supported_opcodes :: "bool list" where
  "supported_opcodes =
     foldl (\<lambda>v op. v[discriminant op := True]) (replicate NUM_OPCODES False) handled_opcodes"

section \<open>The bytecode scan\<close>

text \<open>\<open>Vec::push\<close> guarded by \<open>!contains\<close>.\<close>

definition push_new :: "'a \<Rightarrow> 'a list \<Rightarrow> 'a list" where
  "push_new x xs = (if x \<in> set xs then xs else xs @ [x])"

definition count_opcode :: "u8 \<Rightarrow> sab_report \<Rightarrow> sab_report" where
  "count_opcode b r = r\<lparr>opcode_usage := (opcode_usage r)(b \<mapsto>
     (case opcode_usage r b of None \<Rightarrow> 0 | Some n \<Rightarrow> n) + 1)\<rparr>"

definition is_native_call :: "u8 \<Rightarrow> bool" where
  "is_native_call b \<longleftrightarrow> b = opcode_byte (CallOp CallNative) \<or> b = opcode_byte (CallOp CallNativeWide) \<or>
     b = opcode_byte (CallOp CallNativeVoid)"

definition note_native :: "'w native_table \<Rightarrow> u8 \<Rightarrow> u8 \<Rightarrow> sab_report \<Rightarrow> sab_report" where
  "note_native t kit_id method_id r =
     (let name = (case kit_name t kit_id of None \<Rightarrow> ''unknown'' | Some n \<Rightarrow> n);
          nref = \<lparr>ref_kit_id = kit_id, ref_method_id = method_id, ref_kit_name = name\<rparr>;
          r' = r\<lparr>native_method_refs := push_new nref (native_method_refs r)\<rparr>
      in if \<not> is_implemented t kit_id (ucast method_id)
         then r'\<lparr>unsupported_natives := push_new nref (unsupported_natives r')\<rparr> else r')"

text \<open>One turn of the loop at an opcode byte: what it records, and how far it moves.\<close>

definition scan_record :: "'w native_table \<Rightarrow> u8 list \<Rightarrow> nat \<Rightarrow> sab_report \<Rightarrow> sab_report" where
  "scan_record t data pc r =
     (let b = data ! pc; r1 = count_opcode b r in
      if NUM_OPCODES \<le> unat b then r1\<lparr>unsupported_opcodes := push_new b (unsupported_opcodes r1)\<rparr>
      else let r2 = (if \<not> supported_opcodes ! unat b
                     then r1\<lparr>unsupported_opcodes := push_new b (unsupported_opcodes r1)\<rparr> else r1)
      in if is_native_call b \<and> pc + 3 < length data
         then note_native t (data ! (pc + 1)) (data ! (pc + 2)) r2 else r2)"

definition scan_advance :: "u8 list \<Rightarrow> nat \<Rightarrow> nat" where
  "scan_advance data pc =
     (let b = data ! pc in
      if NUM_OPCODES \<le> unat b then 1
      else if b = opcode_byte (Misc Switch) \<and> pc + 3 \<le> length data
      then 3 + unat (from_le [data ! (pc + 1), data ! (pc + 2)] :: u16) * 2
      else (case opcode_instruction_size b of None \<Rightarrow> 1 | Some n \<Rightarrow> n))"

lemma opcode_size_pos: "0 < opcode_size op"
proof -
  have "\<forall>op \<in> set all_opcodes. 0 < opcode_size op" by (simp add: opcode_lists)
  with all_opcodes_exhaustive show ?thesis by blast
qed

lemma scan_advance_pos [simp]: "0 < scan_advance data pc"
  using opcode_size_pos
  by (auto simp: scan_advance_def Let_def opcode_instruction_size_def split: outcome.split)

function scan :: "'w native_table \<Rightarrow> u8 list \<Rightarrow> nat \<Rightarrow> sab_report \<Rightarrow> sab_report" where
  "scan t data pc r =
     (if pc < length data then scan t data (pc + scan_advance data pc) (scan_record t data pc r)
      else r)"
  by pat_completeness auto
termination
  by (relation "measure (\<lambda>(t, data, pc, r). length data - pc)") (simp_all add: diff_less_mono2)

declare scan.simps [simp del]

text \<open>The positions at which the scan looks for an opcode.\<close>

function visited :: "u8 list \<Rightarrow> nat \<Rightarrow> nat list" where
  "visited data pc = (if pc < length data then pc # visited data (pc + scan_advance data pc) else [])"
  by pat_completeness auto
termination
  by (relation "measure (\<lambda>(data, pc). length data - pc)") (simp_all add: diff_less_mono2)

declare visited.simps [simp del]

section \<open>Validation\<close>

text \<open>\<open>join\<close> with a separator, and the debug form of a byte vector.\<close>

fun join_with :: "string \<Rightarrow> string list \<Rightarrow> string" where
  "join_with sep [] = []"
| "join_with sep [x] = x"
| "join_with sep (x # y # ys) = x @ sep @ join_with sep (y # ys)"

definition debug_bytes :: "u8 list \<Rightarrow> string" where
  "debug_bytes bs = ''['' @ join_with '', '' (map (\<lambda>b. show_nat (unat b)) bs) @ '']''"

definition push_error :: "string \<Rightarrow> sab_report \<Rightarrow> sab_report" where
  "push_error msg r = r\<lparr>errors := errors r @ [msg]\<rparr>"

definition push_warning :: "string \<Rightarrow> sab_report \<Rightarrow> sab_report" where
  "push_warning msg r = r\<lparr>warnings := warnings r @ [msg]\<rparr>"

definition warn_natives :: "sab_report \<Rightarrow> sab_report" where
  "warn_natives r =
     (if unsupported_natives r = [] then r
      else push_warning (show_nat (length (unsupported_natives r)) @
        '' native method(s) are stubbed (return 0): '' @
        join_with '', '' (map (\<lambda>n. ref_kit_name n @ '':'' @ show_nat (unat (ref_method_id n)))
          (unsupported_natives r))) r)"

definition report_opcodes :: "sab_report \<Rightarrow> sab_report" where
  "report_opcodes r =
     (if unsupported_opcodes r = [] then r
      else push_error (show_nat (length (unsupported_opcodes r)) @ '' unsupported opcode(s): '' @
        debug_bytes (unsupported_opcodes r)) r)"

definition conclude :: "sab_report \<Rightarrow> sab_report" where
  "conclude r = r\<lparr>compatible := errors r = [] \<and> header_valid r\<rparr>"

definition with_header :: "scode_header \<Rightarrow> sab_report \<Rightarrow> sab_report" where
  "with_header h r =
     (let r' = (case header_validate h of
                  Ok _ \<Rightarrow> r\<lparr>header_valid := True\<rparr>
                | Err e \<Rightarrow> push_error (''header validation failed: '' @ vm_error_display e) r
                | Panic \<Rightarrow> r)
      in r'\<lparr>scode_version := push_bit 8 (ucast (major_ver h)) OR ucast (minor_ver h)\<rparr>)"

definition validate_sab_bytes :: "'w native_table \<Rightarrow> string \<Rightarrow> u8 list \<Rightarrow> sab_report" where
  "validate_sab_bytes t path data =
     (let r = report_new path (length data) in
      if length data < SCODE_HEADER_SIZE
      then push_error (''file too short for scode header: '' @ show_nat (length data) @
        '' bytes (need at least '' @ show_nat SCODE_HEADER_SIZE @ '')'') r
      else case header_parse data of
        Ok h \<Rightarrow> conclude (report_opcodes (warn_natives (scan t data SCODE_HEADER_SIZE (with_header h r))))
      | Err e \<Rightarrow> push_error (''header parse failed: '' @ vm_error_display e) r
      | Panic \<Rightarrow> r)"

text \<open>\<open>validate_sab\<close> with the result of reading the file.\<close>

definition validate_sab :: "'w native_table \<Rightarrow> string \<Rightarrow> (string, u8 list) outcome \<Rightarrow>
  (string, sab_report) outcome" where
  "validate_sab t path file =
     (case file of
        Ok data \<Rightarrow> Ok (validate_sab_bytes t path data)
      | Err e \<Rightarrow> Err (''failed to read '' @ path @ '': '' @ e)
      | Panic \<Rightarrow> Panic)"

section \<open>What the scan finds\<close>

lemma foldl_set_bits:
  "n < length v \<Longrightarrow> foldl (\<lambda>v op. v[discriminant op := True]) v ops ! n \<longleftrightarrow>
   v ! n \<or> n \<in> discriminant ` set ops"
proof (induction ops arbitrary: v)
  case (Cons op ops)
  then show ?case by (cases "discriminant op = n") auto
qed simp

lemma handled_discriminants: "sort (map discriminant handled_opcodes) = [0..<NUM_OPCODES]"
  by code_simp

lemma supported_all: "n < NUM_OPCODES \<Longrightarrow> supported_opcodes ! n"
proof -
  assume n: "n < NUM_OPCODES"
  have "set (map discriminant handled_opcodes) = {0..<NUM_OPCODES}"
    using handled_discriminants by (metis set_sort set_upt)
  with n have "n \<in> discriminant ` set handled_opcodes" by (metis atLeastLessThan_iff le0 set_map)
  with n show ?thesis by (simp add: supported_opcodes_def foldl_set_bits)
qed

lemma set_push_new [simp]: "set (push_new x xs) = insert x (set xs)"
  by (auto simp: push_new_def)

lemma note_native_frame [simp]:
  "errors (note_native t k m r) = errors r" "header_valid (note_native t k m r) = header_valid r"
  "unsupported_opcodes (note_native t k m r) = unsupported_opcodes r"
  "opcode_usage (note_native t k m r) = opcode_usage r"
  by (simp_all add: note_native_def Let_def)

lemma count_opcode_frame [simp]:
  "errors (count_opcode b r) = errors r" "header_valid (count_opcode b r) = header_valid r"
  "unsupported_opcodes (count_opcode b r) = unsupported_opcodes r"
  "unsupported_natives (count_opcode b r) = unsupported_natives r"
  by (simp_all add: count_opcode_def)

lemma scan_record_frame:
  "errors (scan_record t data pc r) = errors r" "header_valid (scan_record t data pc r) = header_valid r"
  by (simp_all add: scan_record_def Let_def)

lemma scan_record_opcodes:
  "set (unsupported_opcodes (scan_record t data pc r)) =
   set (unsupported_opcodes r) \<union> (if NUM_OPCODES \<le> unat (data ! pc) then {data ! pc} else {})"
  by (simp add: scan_record_def Let_def supported_all)

lemma scan_frame: "errors (scan t data pc r) = errors r \<and> header_valid (scan t data pc r) = header_valid r"
  by (induction t data pc r rule: scan.induct)
     (subst (1 2) scan.simps, simp add: scan_record_frame)

lemma scan_opcodes:
  "set (unsupported_opcodes (scan t data pc r)) =
   set (unsupported_opcodes r) \<union> {data ! p | p. p \<in> set (visited data pc) \<and> NUM_OPCODES \<le> unat (data ! p)}"
  by (induction t data pc r rule: scan.induct)
     (subst scan.simps, subst visited.simps, auto simp: scan_record_opcodes)

text \<open>The native calls that the scan sees at a position, and the reference it records for one.\<close>

definition native_at :: "u8 list \<Rightarrow> nat \<Rightarrow> bool" where
  "native_at data p \<longleftrightarrow> is_native_call (data ! p) \<and> p + 3 < length data"

definition stub_at :: "'w native_table \<Rightarrow> u8 list \<Rightarrow> nat \<Rightarrow> bool" where
  "stub_at t data p \<longleftrightarrow> native_at data p \<and>
     \<not> is_implemented t (data ! (p + 1)) (ucast (data ! (p + 2)))"

definition ref_at :: "'w native_table \<Rightarrow> u8 list \<Rightarrow> nat \<Rightarrow> native_method_ref" where
  "ref_at t data p = \<lparr>ref_kit_id = data ! (p + 1), ref_method_id = data ! (p + 2),
     ref_kit_name = (case kit_name t (data ! (p + 1)) of None \<Rightarrow> ''unknown'' | Some n \<Rightarrow> n)\<rparr>"

lemma is_native_call_opcode: "is_native_call b \<Longrightarrow> unat b < NUM_OPCODES"
  by (auto simp: is_native_call_def opcode_byte_def NUM_OPCODES_def)

lemma scan_record_natives:
  "set (unsupported_natives (scan_record t data pc r)) =
   set (unsupported_natives r) \<union> (if stub_at t data pc then {ref_at t data pc} else {})"
  using is_native_call_opcode [of "data ! pc"]
  by (auto simp: scan_record_def Let_def supported_all note_native_def stub_at_def native_at_def ref_at_def)

lemma scan_natives:
  "set (unsupported_natives (scan t data pc r)) =
   set (unsupported_natives r) \<union> ref_at t data ` {p \<in> set (visited data pc). stub_at t data p}"
  by (induction t data pc r rule: scan.induct)
     (subst scan.simps, subst visited.simps, auto simp: scan_record_natives)

definition usage_count :: "sab_report \<Rightarrow> u8 \<Rightarrow> nat" where
  "usage_count r b = (case opcode_usage r b of None \<Rightarrow> 0 | Some n \<Rightarrow> n)"

lemma scan_record_usage:
  "usage_count (scan_record t data pc r) b = usage_count r b + (if data ! pc = b then 1 else 0)"
  by (simp add: scan_record_def Let_def usage_count_def count_opcode_def)

lemma scan_usage:
  "usage_count (scan t data pc r) b =
   usage_count r b + count_list (map (\<lambda>p. data ! p) (visited data pc)) b"
  by (induction t data pc r rule: scan.induct)
     (subst scan.simps, subst visited.simps, simp add: scan_record_usage)

lemma conclude_fields [simp]:
  "unsupported_natives (conclude r) = unsupported_natives r" "opcode_usage (conclude r) = opcode_usage r"
  "unsupported_natives (report_opcodes r) = unsupported_natives r"
  "opcode_usage (report_opcodes r) = opcode_usage r"
  "unsupported_natives (warn_natives r) = unsupported_natives r"
  "opcode_usage (warn_natives r) = opcode_usage r"
  "errors (warn_natives r) = errors r" "header_valid (warn_natives r) = header_valid r"
  "unsupported_opcodes (warn_natives r) = unsupported_opcodes r"
  by (simp_all add: conclude_def report_opcodes_def warn_natives_def push_error_def push_warning_def)

lemma with_header_fields:
  "unsupported_natives (with_header h r) = unsupported_natives r"
  "opcode_usage (with_header h r) = opcode_usage r"
  "unsupported_opcodes (with_header h r) = unsupported_opcodes r"
  "header_valid (with_header h r) \<longleftrightarrow> header_valid r \<or> header_validate h = Ok ()"
  "errors (with_header h r) = [] \<longleftrightarrow> errors r = [] \<and> (\<forall>e. header_validate h \<noteq> Err e)"
  by (cases "header_validate h"; simp add: with_header_def push_error_def)+

lemma report_new_fields:
  "unsupported_natives (report_new p n) = []" "opcode_usage (report_new p n) = Map.empty"
  "unsupported_opcodes (report_new p n) = []" "\<not> header_valid (report_new p n)"
  "errors (report_new p n) = []" "\<not> compatible (report_new p n)"
  by (simp_all add: report_new_def)

lemma usage_count_init: "usage_count (with_header h (report_new p n)) b = 0"
  by (simp add: usage_count_def with_header_fields report_new_fields)

section \<open>Properties\<close>

text \<open>
  Verdict: a file is reported compatible exactly when it has a header that parses and validates
  and every byte at which the scan looks for an opcode is one.
\<close>

theorem sab_compatible_iff:
  "compatible (validate_sab_bytes t path data) \<longleftrightarrow>
     SCODE_HEADER_SIZE \<le> length data \<and>
     (\<exists>h. header_parse data = Ok h \<and> header_validate h = Ok ()) \<and>
     (\<nexists>p. p \<in> set (visited data SCODE_HEADER_SIZE) \<and> NUM_OPCODES \<le> unat (data ! p))"
proof (cases "length data < SCODE_HEADER_SIZE")
  case True
  then show ?thesis by (simp add: validate_sab_bytes_def Let_def push_error_def report_new_fields)
next
  case False
  show ?thesis
  proof (cases "header_parse data")
    case (Ok h)
    let ?r = "scan t data SCODE_HEADER_SIZE (with_header h (report_new path (length data)))"
    have bad: "unsupported_opcodes ?r = [] \<longleftrightarrow>
        (\<nexists>p. p \<in> set (visited data SCODE_HEADER_SIZE) \<and> NUM_OPCODES \<le> unat (data ! p))"
      using scan_opcodes [of t data SCODE_HEADER_SIZE "with_header h (report_new path (length data))"]
      by (auto simp: with_header_fields report_new_fields simp flip: set_empty)
    with Ok False scan_frame [of t data SCODE_HEADER_SIZE "with_header h (report_new path (length data))"]
    show ?thesis
      by (auto simp: validate_sab_bytes_def Let_def conclude_def report_opcodes_def push_error_def
          with_header_fields report_new_fields)
  qed (use False in \<open>simp_all add: validate_sab_bytes_def Let_def push_error_def report_new_fields\<close>)
qed

text \<open>
  Findings: the natives reported as stubbed are those of the native calls at scanned positions whose slot
  has no implementation, and the usage counters are the numbers of scanned occurrences.
\<close>

theorem sab_findings:
  assumes "header_parse data = Ok h" "SCODE_HEADER_SIZE \<le> length data"
  shows "set (unsupported_natives (validate_sab_bytes t path data)) =
      ref_at t data ` {p \<in> set (visited data SCODE_HEADER_SIZE). stub_at t data p} \<and>
    usage_count (validate_sab_bytes t path data) b =
      count_list (map (\<lambda>p. data ! p) (visited data SCODE_HEADER_SIZE)) b"
proof -
  have un: "unsupported_natives (validate_sab_bytes t path data) =
      unsupported_natives (scan t data SCODE_HEADER_SIZE (with_header h (report_new path (length data))))"
    and us: "opcode_usage (validate_sab_bytes t path data) =
      opcode_usage (scan t data SCODE_HEADER_SIZE (with_header h (report_new path (length data))))"
    using assms by (simp_all add: validate_sab_bytes_def Let_def)
  have "usage_count (validate_sab_bytes t path data) b =
      usage_count (scan t data SCODE_HEADER_SIZE (with_header h (report_new path (length data)))) b"
    by (simp add: usage_count_def us)
  with un show ?thesis
    by (simp add: scan_natives scan_usage with_header_fields report_new_fields usage_count_init)
qed

definition sample_sab :: "u8 list" where
  "sample_sab = header_bytes
     \<lparr>magic = SCODE_MAGIC, major_ver = 1, minor_ver = 5, block_size = 4, ref_size = 4, image_size = 36,
      data_size = 64, main_method = 8, tests_bix = 0, resume_method = 8\<rparr> 0 0 0 @
     [opcode_byte (CallOp CallNative), 5, 3, 0]"

lemma sab_findings_witness:
  "set (unsupported_natives (validate_sab_bytes (table_new :: unit native_table) ''a.sab'' sample_sab)) =
     {\<lparr>ref_kit_id = 5, ref_method_id = 3, ref_kit_name = ''unknown''\<rparr>}"
proof -
  have "case header_parse sample_sab of Ok h \<Rightarrow> True | _ \<Rightarrow> False" by code_simp
  then obtain h where h: "header_parse sample_sab = Ok h" by (auto split: outcome.splits)
  have v: "visited sample_sab SCODE_HEADER_SIZE = [32]" by code_simp
  have "stub_at (table_new :: unit native_table) sample_sab 32" by code_simp
  moreover have "ref_at (table_new :: unit native_table) sample_sab 32 =
      \<lparr>ref_kit_id = 5, ref_method_id = 3, ref_kit_name = ''unknown''\<rparr>" by code_simp
  moreover have "SCODE_HEADER_SIZE \<le> length sample_sab" by code_simp
  ultimately show ?thesis
    using sab_findings [OF h, of "table_new :: unit native_table" "''a.sab''" 0] by (auto simp: v)
qed

text \<open>
  Divergence: the validator's instruction sizes differ from those of the
  interpreter, whose fixed part is one byte and the operand bytes, for exactly the array
  instructions, the compare-and-branch and \<open>Foreach\<close> instructions, \<open>InitArray\<close> and \<open>LoadDefine\<close>.
\<close>

theorem sab_size_mismatch:
  "opcode_size op \<noteq> 1 + operand_bytes op \<longleftrightarrow> op \<in> set
    ([Literal LoadDefine, NearJump Foreach, FarJump ForeachFar, Misc InitArray, ConstOp LoadConstArray] @
     map NearInt near_int_ops @ map FarInt far_int_ops @
     map Store8 [Load8BitArray, Store8BitArray, Add8BitArray] @
     map Store16 [Load16BitArray, Store16BitArray, Add16BitArray] @
     map Store32 [Load32BitArray, Store32BitArray, Add32BitArray] @
     map Store64 [Load64BitArray, Store64BitArray, Add64BitArray] @
     map RefOp [LoadRefArray, StoreRefArray, AddRefArray])" (is "?P op")
proof -
  have "\<forall>op \<in> set all_opcodes. ?P op" by (simp add: opcode_lists)
  with all_opcodes_exhaustive show ?thesis by blast
qed

end
