(* ===== verification/Dasp_Message.thy ===== *)
theory Dasp_Message
  imports Wire
begin

text \<open>
  The message layer of \<open>sox/dasp.rs\<close>: the header of a DASP packet, \<open>parse_header\<close>, \<open>encode_message\<close>
  and their round trip. The low two bits of a field id are the type of its value: none, a 16-bit
  word, a zero-terminated string, or bytes with a length prefix.
\<close>

section \<open>Constants\<close>

definition MAX_SESSIONS :: nat where "MAX_SESSIONS = 4"
definition SESSION_TIMEOUT_SECS :: nat where "SESSION_TIMEOUT_SECS = 60"
definition DASP_VERSION :: u16 where "DASP_VERSION = 0x0100"
definition IDEAL_MAX :: u16 where "IDEAL_MAX = 512"
definition ABS_MAX :: u16 where "ABS_MAX = 512"
definition RECEIVE_MAX :: u16 where "RECEIVE_MAX = 31"
definition RECEIVE_TIMEOUT_SECS :: u16 where "RECEIVE_TIMEOUT_SECS = 30"
definition RECV_BUF_SIZE :: nat where "RECV_BUF_SIZE = 1500"
definition PLATFORM_ID :: "u8 list" where "PLATFORM_ID = ascii ''sandstar-rust''"

datatype dasp_msg_type =
    Discover | Hello | Challenge | Authenticate | Welcome | Keepalive | Datagram | Close

primrec msg_type_num :: "dasp_msg_type \<Rightarrow> u8" where
  "msg_type_num Discover = 0"
| "msg_type_num Hello = 1"
| "msg_type_num Challenge = 2"
| "msg_type_num Authenticate = 3"
| "msg_type_num Welcome = 4"
| "msg_type_num Keepalive = 5"
| "msg_type_num Datagram = 6"
| "msg_type_num Close = 7"

definition msg_type_from_u8 :: "u8 \<Rightarrow> dasp_msg_type option" where
  "msg_type_from_u8 v =
     (if v = 0 then Some Discover else if v = 1 then Some Hello else if v = 2 then Some Challenge
      else if v = 3 then Some Authenticate else if v = 4 then Some Welcome
      else if v = 5 then Some Keepalive else if v = 6 then Some Datagram
      else if v = 7 then Some Close else None)"

definition ID_VERSION :: u8 where "ID_VERSION = 0x05"
definition ID_REMOTE_ID :: u8 where "ID_REMOTE_ID = 0x09"
definition ID_DIGEST_ALGORITHM :: u8 where "ID_DIGEST_ALGORITHM = 0x0e"
definition ID_NONCE :: u8 where "ID_NONCE = 0x13"
definition ID_USERNAME :: u8 where "ID_USERNAME = 0x16"
definition ID_DIGEST :: u8 where "ID_DIGEST = 0x1b"
definition ID_IDEAL_MAX :: u8 where "ID_IDEAL_MAX = 0x1d"
definition ID_ABS_MAX :: u8 where "ID_ABS_MAX = 0x21"
definition ID_ACK :: u8 where "ID_ACK = 0x25"
definition ID_ACK_MORE :: u8 where "ID_ACK_MORE = 0x2b"
definition ID_RECEIVE_MAX :: u8 where "ID_RECEIVE_MAX = 0x2d"
definition ID_RECEIVE_TIMEOUT :: u8 where "ID_RECEIVE_TIMEOUT = 0x31"
definition ID_ERROR_CODE :: u8 where "ID_ERROR_CODE = 0x35"
definition ID_PLATFORM_ID :: u8 where "ID_PLATFORM_ID = 0x3a"

lemmas field_ids =
  ID_VERSION_def ID_REMOTE_ID_def ID_DIGEST_ALGORITHM_def ID_NONCE_def ID_USERNAME_def ID_DIGEST_def
  ID_IDEAL_MAX_def ID_ABS_MAX_def ID_ACK_def ID_ACK_MORE_def ID_RECEIVE_MAX_def
  ID_RECEIVE_TIMEOUT_def ID_ERROR_CODE_def ID_PLATFORM_ID_def

datatype dasp_error_code = IncompatibleVersion | Busy | DigestNotSupported | NotAuthenticated | SessionTimeout

primrec error_code_num :: "dasp_error_code \<Rightarrow> u16" where
  "error_code_num IncompatibleVersion = 0xe1"
| "error_code_num Busy = 0xe2"
| "error_code_num DigestNotSupported = 0xe3"
| "error_code_num NotAuthenticated = 0xe4"
| "error_code_num SessionTimeout = 0xe5"

section \<open>The header\<close>

record dasp_header =
  session_id :: u16
  seq_num :: u16
  msg_type :: dasp_msg_type
  version :: "u16 option"
  remote_id :: "u16 option"
  digest_algorithm :: "u8 list option"
  nonce :: "u8 list option"
  username :: "u8 list option"
  digest :: "u8 list option"
  ideal_max :: "u16 option"
  abs_max :: "u16 option"
  ack :: "u16 option"
  ack_more :: "u8 list option"
  receive_max :: "u16 option"
  receive_timeout_secs :: "u16 option"
  error_code :: "u16 option"
  platform_id :: "u8 list option"
  payload_offset :: usize

definition empty_header :: "dasp_msg_type \<Rightarrow> u16 \<Rightarrow> u16 \<Rightarrow> dasp_header" where
  "empty_header ty sid seq = \<lparr>session_id = sid, seq_num = seq, msg_type = ty, version = None,
     remote_id = None, digest_algorithm = None, nonce = None, username = None, digest = None,
     ideal_max = None, abs_max = None, ack = None, ack_more = None, receive_max = None,
     receive_timeout_secs = None, error_code = None, platform_id = None, payload_offset = 0\<rparr>"

section \<open>Parsing\<close>

definition set_u2_field :: "u8 \<Rightarrow> u16 \<Rightarrow> dasp_header \<Rightarrow> dasp_header" where
  "set_u2_field fid v h =
     (if fid = ID_VERSION then h\<lparr>version := Some v\<rparr>
      else if fid = ID_REMOTE_ID then h\<lparr>remote_id := Some v\<rparr>
      else if fid = ID_IDEAL_MAX then h\<lparr>ideal_max := Some v\<rparr>
      else if fid = ID_ABS_MAX then h\<lparr>abs_max := Some v\<rparr>
      else if fid = ID_ACK then h\<lparr>ack := Some v\<rparr>
      else if fid = ID_RECEIVE_MAX then h\<lparr>receive_max := Some v\<rparr>
      else if fid = ID_RECEIVE_TIMEOUT then h\<lparr>receive_timeout_secs := Some v\<rparr>
      else if fid = ID_ERROR_CODE then h\<lparr>error_code := Some v\<rparr>
      else h)"

definition set_str_field :: "u8 \<Rightarrow> u8 list \<Rightarrow> dasp_header \<Rightarrow> dasp_header" where
  "set_str_field fid s h =
     (if fid = ID_DIGEST_ALGORITHM then h\<lparr>digest_algorithm := Some s\<rparr>
      else if fid = ID_USERNAME then h\<lparr>username := Some s\<rparr>
      else if fid = ID_PLATFORM_ID then h\<lparr>platform_id := Some s\<rparr>
      else h)"

definition set_bytes_field :: "u8 \<Rightarrow> u8 list \<Rightarrow> dasp_header \<Rightarrow> dasp_header" where
  "set_bytes_field fid b h =
     (if fid = ID_NONCE then h\<lparr>nonce := Some b\<rparr>
      else if fid = ID_DIGEST then h\<lparr>digest := Some b\<rparr>
      else if fid = ID_ACK_MORE then h\<lparr>ack_more := Some b\<rparr>
      else h)"

text \<open>The loop that looks for the terminator of a string.\<close>

function str_end :: "u8 list \<Rightarrow> usize \<Rightarrow> usize" where
  "str_end packet pos =
     (if pos < length packet \<and> packet ! pos \<noteq> 0 then str_end packet (pos + 1) else pos)"
  by auto

termination
  by (relation "measure (\<lambda>(packet, pos). length packet - pos)") auto

declare str_end.simps [simp del]

text \<open>
  One iteration of the field loop: the position behind the field and the updated header. A slice
  is shorter than \<open>2 ^ 31\<close> bytes, so the sums of positions stay in the range of \<open>usize\<close>.
\<close>

definition parse_field :: "u8 list \<Rightarrow> usize \<Rightarrow> dasp_header \<Rightarrow> (usize \<times> dasp_header) option" where
  "parse_field packet pos h =
     (if pos \<ge> length packet then None
      else let fid = packet ! pos; pos = pos + 1; ty = fid AND 3 in
        if ty = 0 then Some (pos, h)
        else if ty = 1 then
          (if pos + 2 > length packet then None
           else Some (pos + 2, set_u2_field fid (from_be [packet ! pos, packet ! (pos + 1)]) h))
        else if ty = 2 then
          (let e = str_end packet pos in
           if e \<ge> length packet then None
           else Some (e + 1, set_str_field fid (utf8_lossy (take (e - pos) (drop pos packet))) h))
        else
          (if pos \<ge> length packet then None
           else let blen = unat (packet ! pos); pos = pos + 1 in
             if pos + blen > length packet then None
             else Some (pos + blen, set_bytes_field fid (take blen (drop pos packet)) h)))"

primrec parse_fields :: "nat \<Rightarrow> u8 list \<Rightarrow> usize \<Rightarrow> dasp_header \<Rightarrow> dasp_header option" where
  "parse_fields 0 packet pos h = Some (h\<lparr>payload_offset := pos\<rparr>)"
| "parse_fields (Suc n) packet pos h =
     (case parse_field packet pos h of
        None \<Rightarrow> None
      | Some (pos', h') \<Rightarrow> parse_fields n packet pos' h')"

definition parse_header :: "u8 list \<Rightarrow> dasp_header option" where
  "parse_header packet =
     (if length packet < 5 then None
      else case msg_type_from_u8 (drop_bit 4 (packet ! 4)) of
        None \<Rightarrow> None
      | Some ty \<Rightarrow>
          parse_fields (unat (packet ! 4 AND 0x0f)) packet 5
            (empty_header ty (from_be [packet ! 0, packet ! 1]) (from_be [packet ! 2, packet ! 3])))"

section \<open>Encoding\<close>

text \<open>The counter of fields and the buffer.\<close>

type_synonym encoder = "u8 \<times> u8 list \<Rightarrow> u8 \<times> u8 list"

definition put :: "u8 \<Rightarrow> u8 list \<Rightarrow> encoder" where
  "put fid bs = (\<lambda>(n, buf). (n + 1, buf @ fid # bs))"

definition put_u2 :: "u8 \<Rightarrow> u16 option \<Rightarrow> encoder" where
  "put_u2 fid x = (case x of None \<Rightarrow> (\<lambda>st. st) | Some v \<Rightarrow> put fid (to_be 2 v))"

definition put_tuned :: "u8 \<Rightarrow> u16 \<Rightarrow> u16 option \<Rightarrow> encoder" where
  "put_tuned fid dflt x =
     (case x of None \<Rightarrow> (\<lambda>st. st) | Some v \<Rightarrow> if v \<noteq> dflt then put fid (to_be 2 v) else (\<lambda>st. st))"

definition put_str :: "u8 \<Rightarrow> u8 list option \<Rightarrow> encoder" where
  "put_str fid x = (case x of None \<Rightarrow> (\<lambda>st. st) | Some s \<Rightarrow> put fid (s @ [0]))"

definition put_bytes :: "u8 \<Rightarrow> u8 list option \<Rightarrow> encoder" where
  "put_bytes fid x = (case x of None \<Rightarrow> (\<lambda>st. st) | Some b \<Rightarrow> put fid (of_nat (length b) # b))"

definition put_fields :: "dasp_header \<Rightarrow> encoder" where
  "put_fields h st =
     (let st = put_u2 ID_VERSION (version h) st;
          st = put_u2 ID_REMOTE_ID (remote_id h) st;
          st = put_str ID_DIGEST_ALGORITHM (digest_algorithm h) st;
          st = put_bytes ID_NONCE (nonce h) st;
          st = put_str ID_USERNAME (username h) st;
          st = put_bytes ID_DIGEST (digest h) st;
          st = put_tuned ID_IDEAL_MAX IDEAL_MAX (ideal_max h) st;
          st = put_tuned ID_ABS_MAX ABS_MAX (abs_max h) st;
          st = put_u2 ID_ACK (ack h) st;
          st = put_bytes ID_ACK_MORE (ack_more h) st;
          st = put_tuned ID_RECEIVE_MAX RECEIVE_MAX (receive_max h) st;
          st = put_tuned ID_RECEIVE_TIMEOUT RECEIVE_TIMEOUT_SECS (receive_timeout_secs h) st;
          st = put_u2 ID_ERROR_CODE (error_code h) st
      in put_str ID_PLATFORM_ID (platform_id h) st)"

definition encode_message :: "dasp_header \<Rightarrow> u8 list \<Rightarrow> u8 list" where
  "encode_message h payload =
     (let (n, buf) = put_fields h (0, to_be 2 (session_id h) @ to_be 2 (seq_num h) @ [0])
      in buf[4 := push_bit 4 (msg_type_num (msg_type h)) OR (n AND 0x0f)] @ payload)"

section \<open>Fields on the wire\<close>

text \<open>
  The fields a header is encoded to, as pairs of an id and the bytes behind it, and what such a field
  does to the header under construction.
\<close>

type_synonym wire_field = "u8 \<times> u8 list"

definition fields_u2 :: "u8 \<Rightarrow> u16 option \<Rightarrow> wire_field list" where
  "fields_u2 fid x = (case x of None \<Rightarrow> [] | Some v \<Rightarrow> [(fid, to_be 2 v)])"

definition fields_str :: "u8 \<Rightarrow> u8 list option \<Rightarrow> wire_field list" where
  "fields_str fid x = (case x of None \<Rightarrow> [] | Some s \<Rightarrow> [(fid, s @ [0])])"

definition fields_bytes :: "u8 \<Rightarrow> u8 list option \<Rightarrow> wire_field list" where
  "fields_bytes fid x = (case x of None \<Rightarrow> [] | Some b \<Rightarrow> [(fid, of_nat (length b) # b)])"

definition untuned :: "u16 \<Rightarrow> u16 option \<Rightarrow> u16 option" where
  "untuned dflt x = (if x = Some dflt then None else x)"

definition wire_fields :: "dasp_header \<Rightarrow> wire_field list" where
  "wire_fields h =
     fields_u2 ID_VERSION (version h) @ fields_u2 ID_REMOTE_ID (remote_id h) @
     fields_str ID_DIGEST_ALGORITHM (digest_algorithm h) @ fields_bytes ID_NONCE (nonce h) @
     fields_str ID_USERNAME (username h) @ fields_bytes ID_DIGEST (digest h) @
     fields_u2 ID_IDEAL_MAX (untuned IDEAL_MAX (ideal_max h)) @
     fields_u2 ID_ABS_MAX (untuned ABS_MAX (abs_max h)) @ fields_u2 ID_ACK (ack h) @
     fields_bytes ID_ACK_MORE (ack_more h) @
     fields_u2 ID_RECEIVE_MAX (untuned RECEIVE_MAX (receive_max h)) @
     fields_u2 ID_RECEIVE_TIMEOUT (untuned RECEIVE_TIMEOUT_SECS (receive_timeout_secs h)) @
     fields_u2 ID_ERROR_CODE (error_code h) @ fields_str ID_PLATFORM_ID (platform_id h)"

definition flat :: "wire_field list \<Rightarrow> u8 list" where
  "flat fs = concat (map (\<lambda>(fid, bs). fid # bs) fs)"

definition puts :: "wire_field list \<Rightarrow> encoder" where
  "puts fs st = foldl (\<lambda>st (fid, bs). put fid bs st) st fs"

lemma puts_eq: "puts fs (n, buf) = (n + of_nat (length fs), buf @ flat fs)"
  by (induction fs arbitrary: n buf) (auto simp: puts_def flat_def put_def algebra_simps)

lemma puts_append: "puts gs (puts fs st) = puts (fs @ gs) st"
  by (simp add: puts_def)

lemma put_puts:
  "put_u2 fid x = puts (fields_u2 fid x)" "put_str fid s = puts (fields_str fid s)"
  "put_bytes fid s = puts (fields_bytes fid s)" "put_tuned fid d x = puts (fields_u2 fid (untuned d x))"
  by (auto simp: put_u2_def put_str_def put_bytes_def put_tuned_def puts_def fields_u2_def
      fields_str_def fields_bytes_def untuned_def fun_eq_iff split: option.split)

lemma put_fields_eq: "put_fields h (n, buf) = (n + of_nat (length (wire_fields h)), buf @ flat (wire_fields h))"
  unfolding put_fields_def Let_def put_puts puts_append
  by (simp add: puts_eq wire_fields_def flat_def)

lemma length_wire_fields: "length (wire_fields h) \<le> 14"
proof -
  have "length (fields_u2 fid x) \<le> 1" "length (fields_str fid y) \<le> 1" "length (fields_bytes fid y) \<le> 1" for fid x y
    by (simp_all add: fields_u2_def fields_str_def fields_bytes_def split: option.split)
  note le = this
  show ?thesis unfolding wire_fields_def length_append
    by (rule order_trans, (rule add_mono le)+) simp
qed

text \<open>The shape of a field that the parser reads back.\<close>

definition field_ok :: "wire_field \<Rightarrow> bool" where
  "field_ok f = (case f of (fid, bs) \<Rightarrow>
     fid AND 3 = 1 \<and> length bs = 2 \<or>
     fid AND 3 = 2 \<and> (\<exists>s. bs = s @ [0] \<and> 0 \<notin> set s) \<or>
     fid AND 3 = 3 \<and> (\<exists>b. bs = of_nat (length b) # b \<and> length b < 256))"

definition field_effect :: "dasp_header \<Rightarrow> wire_field \<Rightarrow> dasp_header" where
  "field_effect h f = (case f of (fid, bs) \<Rightarrow>
     if fid AND 3 = 1 then set_u2_field fid (from_be bs) h
     else if fid AND 3 = 2 then set_str_field fid (utf8_lossy (butlast bs)) h
     else set_bytes_field fid (tl bs) h)"

lemma str_end_eq:
  "0 \<notin> set s \<Longrightarrow> str_end (pre @ s @ 0 # rest) (length pre) = length pre + length s"
proof (induction s arbitrary: pre)
  case Nil
  show ?case by (subst str_end.simps) simp
next
  case (Cons b s)
  from Cons.IH [of "pre @ [b]"] Cons.prems show ?case by (subst str_end.simps) simp
qed

lemma parse_field_eq:
  assumes "field_ok (fid, bs)"
  shows "parse_field (pre @ fid # bs @ rest) (length pre) h =
    Some (length pre + Suc (length bs), field_effect h (fid, bs))"
proof -
  let ?p = "pre @ fid # bs @ rest" and ?pos = "Suc (length pre)"
  from assms consider (u2) a b where "fid AND 3 = 1" "bs = [a, b]"
    | (str) s where "fid AND 3 = 2" "bs = s @ [0]" "0 \<notin> set s"
    | (bytes) b where "fid AND 3 = 3" "bs = of_nat (length b) # b" "length b < 256"
    by (auto simp: field_ok_def numeral_2_eq_2 length_Suc_conv)
  then show ?thesis
  proof cases
    case u2
    then show ?thesis by (simp add: parse_field_def field_effect_def nth_append)
  next
    case str
    have "str_end ?p ?pos = ?pos + length s"
      using str_end_eq [of s "pre @ [fid]" rest] str by simp
    with str show ?thesis by (simp add: parse_field_def field_effect_def Let_def)
  next
    case bytes
    then show ?thesis by (simp add: parse_field_def field_effect_def Let_def nth_append unat_of_nat)
  qed
qed

lemma parse_fields_flat:
  "\<forall>f \<in> set fs. field_ok f \<Longrightarrow>
   parse_fields (length fs) (pre @ flat fs @ rest) (length pre) h =
   Some ((foldl field_effect h fs)\<lparr>payload_offset := length pre + length (flat fs)\<rparr>)"
proof (induction fs arbitrary: pre h)
  case (Cons f fs)
  obtain fid bs where f: "f = (fid, bs)" by fastforce
  from Cons.IH [of "pre @ fid # bs" "field_effect h f"] Cons.prems parse_field_eq [of fid bs pre "flat fs @ rest" h]
  show ?case by (simp add: f flat_def)
qed (simp add: flat_def)

text \<open>What a field of a header does to a header that does not have it yet.\<close>

lemma foldl_fields:
  "version g = None \<Longrightarrow> foldl field_effect g (fields_u2 ID_VERSION x) = g\<lparr>version := x\<rparr>"
  "remote_id g = None \<Longrightarrow> foldl field_effect g (fields_u2 ID_REMOTE_ID x) = g\<lparr>remote_id := x\<rparr>"
  "ideal_max g = None \<Longrightarrow> foldl field_effect g (fields_u2 ID_IDEAL_MAX x) = g\<lparr>ideal_max := x\<rparr>"
  "abs_max g = None \<Longrightarrow> foldl field_effect g (fields_u2 ID_ABS_MAX x) = g\<lparr>abs_max := x\<rparr>"
  "ack g = None \<Longrightarrow> foldl field_effect g (fields_u2 ID_ACK x) = g\<lparr>ack := x\<rparr>"
  "receive_max g = None \<Longrightarrow> foldl field_effect g (fields_u2 ID_RECEIVE_MAX x) = g\<lparr>receive_max := x\<rparr>"
  "receive_timeout_secs g = None \<Longrightarrow>
     foldl field_effect g (fields_u2 ID_RECEIVE_TIMEOUT x) = g\<lparr>receive_timeout_secs := x\<rparr>"
  "error_code g = None \<Longrightarrow> foldl field_effect g (fields_u2 ID_ERROR_CODE x) = g\<lparr>error_code := x\<rparr>"
  "digest_algorithm g = None \<Longrightarrow> pred_option utf8_valid s \<Longrightarrow>
     foldl field_effect g (fields_str ID_DIGEST_ALGORITHM s) = g\<lparr>digest_algorithm := s\<rparr>"
  "username g = None \<Longrightarrow> pred_option utf8_valid s \<Longrightarrow>
     foldl field_effect g (fields_str ID_USERNAME s) = g\<lparr>username := s\<rparr>"
  "platform_id g = None \<Longrightarrow> pred_option utf8_valid s \<Longrightarrow>
     foldl field_effect g (fields_str ID_PLATFORM_ID s) = g\<lparr>platform_id := s\<rparr>"
  "nonce g = None \<Longrightarrow> foldl field_effect g (fields_bytes ID_NONCE s) = g\<lparr>nonce := s\<rparr>"
  "digest g = None \<Longrightarrow> foldl field_effect g (fields_bytes ID_DIGEST s) = g\<lparr>digest := s\<rparr>"
  "ack_more g = None \<Longrightarrow> foldl field_effect g (fields_bytes ID_ACK_MORE s) = g\<lparr>ack_more := s\<rparr>"
  by (auto simp: fields_u2_def fields_str_def fields_bytes_def field_effect_def set_u2_field_def
      set_str_field_def set_bytes_field_def field_ids from_be_to_be utf8_lossy_valid split: option.split)

text \<open>
  The headers the encoder can represent: strings are valid and have no zero byte, byte fields have a
  length that fits their prefix.
\<close>

definition text_ok :: "u8 list option \<Rightarrow> bool" where
  "text_ok = pred_option (\<lambda>s. utf8_valid s \<and> 0 \<notin> set s)"

definition bytes_ok :: "u8 list option \<Rightarrow> bool" where
  "bytes_ok = pred_option (\<lambda>b. length b < 256)"

definition encodable :: "dasp_header \<Rightarrow> bool" where
  "encodable h \<longleftrightarrow> text_ok (digest_algorithm h) \<and> text_ok (username h) \<and> text_ok (platform_id h) \<and>
     bytes_ok (nonce h) \<and> bytes_ok (digest h) \<and> bytes_ok (ack_more h)"

lemma fields_ok:
  "fid AND 3 = 1 \<Longrightarrow> f \<in> set (fields_u2 fid x) \<Longrightarrow> field_ok f"
  "fid AND 3 = 2 \<Longrightarrow> text_ok s \<Longrightarrow> f \<in> set (fields_str fid s) \<Longrightarrow> field_ok f"
  "fid AND 3 = 3 \<Longrightarrow> bytes_ok s \<Longrightarrow> f \<in> set (fields_bytes fid s) \<Longrightarrow> field_ok f"
  by (auto simp: text_ok_def bytes_ok_def fields_u2_def fields_str_def fields_bytes_def field_ok_def
      split: option.splits)

lemma field_types:
  "ID_VERSION AND 3 = 1" "ID_REMOTE_ID AND 3 = 1" "ID_IDEAL_MAX AND 3 = 1" "ID_ABS_MAX AND 3 = 1"
  "ID_ACK AND 3 = 1" "ID_RECEIVE_MAX AND 3 = 1" "ID_RECEIVE_TIMEOUT AND 3 = 1" "ID_ERROR_CODE AND 3 = 1"
  "ID_DIGEST_ALGORITHM AND 3 = 2" "ID_USERNAME AND 3 = 2" "ID_PLATFORM_ID AND 3 = 2"
  "ID_NONCE AND 3 = 3" "ID_DIGEST AND 3 = 3" "ID_ACK_MORE AND 3 = 3"
  by (simp_all add: field_ids)

lemma wire_fields_ok: "encodable h \<Longrightarrow> f \<in> set (wire_fields h) \<Longrightarrow> field_ok f"
  unfolding wire_fields_def set_append Un_iff encodable_def
  by (elim disjE conjE) (blast intro: fields_ok field_types)+

text \<open>What the receiver sees of a header: a tuning value that is the default is left out.\<close>

definition received :: "dasp_header \<Rightarrow> usize \<Rightarrow> dasp_header" where
  "received h off = h\<lparr>ideal_max := untuned IDEAL_MAX (ideal_max h), abs_max := untuned ABS_MAX (abs_max h),
     receive_max := untuned RECEIVE_MAX (receive_max h),
     receive_timeout_secs := untuned RECEIVE_TIMEOUT_SECS (receive_timeout_secs h), payload_offset := off\<rparr>"

lemma foldl_wire_fields:
  assumes "encodable h"
  shows "(foldl field_effect (empty_header (msg_type h) (session_id h) (seq_num h)) (wire_fields h))
    \<lparr>payload_offset := off\<rparr> = received h off"
proof -
  have "pred_option utf8_valid (digest_algorithm h)" "pred_option utf8_valid (username h)"
    "pred_option utf8_valid (platform_id h)"
    using assms by (auto simp: encodable_def text_ok_def elim: option.pred_mono_strong)
  then show ?thesis
    by (simp add: wire_fields_def foldl_fields empty_header_def received_def)
qed

text \<open>The byte that holds the message type and the number of fields.\<close>

lemma type_byte:
  assumes "n < 16"
  shows "drop_bit 4 (push_bit 4 (msg_type_num ty) OR (of_nat n AND 0x0f)) = msg_type_num ty"
    and "unat (push_bit 4 (msg_type_num ty) OR (of_nat n AND 0x0f)) AND 15 = n"
proof -
  have "n \<in> set [0..<16]" using assms by simp
  then show "drop_bit 4 (push_bit 4 (msg_type_num ty) OR (of_nat n AND 0x0f)) = msg_type_num ty"
    by (cases ty) (auto simp: upt_conv_Cons)
  from \<open>n \<in> set [0..<16]\<close> show "unat (push_bit 4 (msg_type_num ty) OR (of_nat n AND 0x0f)) AND 15 = n"
    by (cases ty) (auto simp: upt_conv_Cons)
qed

section \<open>Properties\<close>

text \<open>
  C34 Round trip: parsing an encoded message gives the header that was encoded, without the tuning values
  that are the defaults, and the offset at which the payload begins.
\<close>

theorem dasp_roundtrip:
  assumes "encodable h"
  shows "\<exists>off. parse_header (encode_message h payload) = Some (received h off) \<and>
    drop off (encode_message h payload) = payload"
proof -
  let ?fs = "wire_fields h"
  define x where "x = push_bit 4 (msg_type_num (msg_type h)) OR (of_nat (length ?fs) AND 0x0f)"
  obtain a b c d where ids: "to_be 2 (session_id h) = [a, b]" "to_be 2 (seq_num h) = [c, d]"
    using to_be_2 [of "session_id h"] to_be_2 [of "seq_num h"] by blast
  have enc: "encode_message h payload = [a, b, c, d, x] @ flat ?fs @ payload"
    by (simp add: encode_message_def put_fields_eq ids x_def)
  have n: "length ?fs < 16" using length_wire_fields [of h] by simp
  have "msg_type_from_u8 (drop_bit 4 x) = Some (msg_type h)"
    using type_byte(1) [OF n] by (cases "msg_type h") (simp_all add: x_def msg_type_from_u8_def)
  moreover have "unat (x AND 0x0f) = length ?fs"
    using type_byte(2) [OF n] by (simp add: x_def unsigned_and_eq)
  moreover have "parse_fields (length ?fs) ([a, b, c, d, x] @ flat ?fs @ payload) 5
      (empty_header (msg_type h) (session_id h) (seq_num h)) = Some (received h (5 + length (flat ?fs)))"
    using parse_fields_flat [of ?fs "[a, b, c, d, x]" payload] wire_fields_ok [OF assms]
    by (simp add: foldl_wire_fields [OF assms] eval_nat_numeral)
  ultimately have "parse_header (encode_message h payload) = Some (received h (5 + length (flat ?fs)))"
    by (simp add: parse_header_def enc from_be_pair [OF ids(1)] from_be_pair [OF ids(2)])
  then show ?thesis by (intro exI [of _ "5 + length (flat ?fs)"]) (simp add: enc eval_nat_numeral)
qed

lemma dasp_roundtrip_witness:
  "\<exists>off. parse_header (encode_message ((empty_header Challenge 7 0)\<lparr>remote_id := Some 1, nonce := Some [1, 2, 3],
      username := Some (ascii ''admin''), ideal_max := Some 512, abs_max := Some 100\<rparr>) [9, 8]) =
    Some ((empty_header Challenge 7 0)\<lparr>remote_id := Some 1, nonce := Some [1, 2, 3],
      username := Some (ascii ''admin''), abs_max := Some 100, payload_offset := off\<rparr>)"
proof -
  let ?h = "(empty_header Challenge 7 0)\<lparr>remote_id := Some 1, nonce := Some [1, 2, 3],
      username := Some (ascii ''admin''), ideal_max := Some 512, abs_max := Some 100\<rparr>"
  have "utf8_valid (ascii ''admin'')" by (rule utf8_valid_ascii) (simp add: ascii_def)
  then have "encodable ?h"
    by (simp add: encodable_def text_ok_def bytes_ok_def empty_header_def ascii_def)
  from dasp_roundtrip [OF this, of "[9, 8]"] show ?thesis
    by (auto simp: received_def untuned_def empty_header_def IDEAL_MAX_def ABS_MAX_def)
qed

end
