(* ===== verification/Dasp_Transport.thy ===== *)
theory Dasp_Transport
  imports Dasp_Message "HOL-Library.AList"
begin

text \<open>
  The session layer of \<open>sox/dasp.rs\<close>: \<open>DaspSession\<close>, \<open>DaspTransport\<close> with its handshake, the delivery
  of datagrams and the expiry of sessions.

  A \<open>HashMap\<close> is an association list with distinct keys; the order of the list stands for the
  unspecified order of iteration. Socket addresses are a type parameter. \<open>Instant::now()\<close> is an argument, in
  nanoseconds, as are the random nonce and the result of \<open>recv_from\<close>; \<open>sha1\<close> is a parameter, the function of the crate of that
  name. The socket records the packets it has sent; the sends to come fail or succeed as the list \<open>outages\<close> says,
  and succeed beyond its end. Log messages and the scratch buffer of the encoder are not modelled.
\<close>

section \<open>State\<close>

datatype io_error = NotFound | SendFailed | RecvFailed

record 'a udp =
  sent :: "('a \<times> u8 list) list"
  outages :: "bool list"

definition send_to :: "u8 list \<Rightarrow> 'a \<Rightarrow> ('a udp, io_error, unit) routine" where
  "send_to buf addr k =
     (case outages k of
        [] \<Rightarrow> (Ok (), k\<lparr>sent := sent k @ [(addr, buf)]\<rparr>)
      | down # rest \<Rightarrow>
          if down then (Err SendFailed, k\<lparr>outages := rest\<rparr>)
          else (Ok (), k\<lparr>sent := sent k @ [(addr, buf)], outages := rest\<rparr>))"

record 'a dasp_session =
  sn_session_id :: u16
  sn_remote_id :: u16
  sn_remote_addr :: 'a
  sn_authenticated :: bool
  send_seq :: u16
  recv_seq :: u16
  last_activity :: nat
  sn_nonce :: "u8 list"
  sn_ideal_max :: u16
  sn_abs_max :: u16

definition session_new :: "nat \<Rightarrow> u16 \<Rightarrow> u16 \<Rightarrow> 'a \<Rightarrow> u8 list \<Rightarrow> 'a dasp_session" where
  "session_new now sid rid addr nc = \<lparr>sn_session_id = sid, sn_remote_id = rid, sn_remote_addr = addr,
     sn_authenticated = False, send_seq = 0, recv_seq = 0, last_activity = now, sn_nonce = nc,
     sn_ideal_max = IDEAL_MAX, sn_abs_max = ABS_MAX\<rparr>"

definition next_seq :: "'a dasp_session \<Rightarrow> u16 \<times> 'a dasp_session" where
  "next_seq s = (send_seq s, s\<lparr>send_seq := send_seq s + 1\<rparr>)"

definition is_expired :: "nat \<Rightarrow> 'a dasp_session \<Rightarrow> bool" where
  "is_expired now s \<longleftrightarrow> now - last_activity s > SESSION_TIMEOUT_SECS * 10 ^ 9"

definition touch :: "nat \<Rightarrow> 'a dasp_session \<Rightarrow> 'a dasp_session" where
  "touch now s = s\<lparr>last_activity := now\<rparr>"

record 'a transport =
  socket :: "'a udp"
  sessions :: "(u16 \<times> 'a dasp_session) list"
  addr_to_session :: "('a \<times> u16) list"
  next_session_id :: u16
  credentials :: "u8 list"

definition compute_credentials :: "(u8 list \<Rightarrow> u8 list) \<Rightarrow> u8 list \<Rightarrow> u8 list \<Rightarrow> u8 list" where
  "compute_credentials sha1 user pass = sha1 (user @ ascii '':'' @ pass)"

definition compute_auth_digest :: "(u8 list \<Rightarrow> u8 list) \<Rightarrow> u8 list \<Rightarrow> u8 list \<Rightarrow> u8 list" where
  "compute_auth_digest sha1 cred nc = sha1 (cred @ nc)"

definition from_socket :: "(u8 list \<Rightarrow> u8 list) \<Rightarrow> 'a udp \<Rightarrow> u8 list \<Rightarrow> u8 list \<Rightarrow> 'a transport" where
  "from_socket sha1 k user pass = \<lparr>socket = k, sessions = [], addr_to_session = [], next_session_id = 1,
     credentials = compute_credentials sha1 user pass\<rparr>"

definition session_count :: "'a transport \<Rightarrow> usize" where
  "session_count t = length (sessions t)"

definition session_of :: "'a transport \<Rightarrow> u16 \<Rightarrow> 'a dasp_session option" where
  "session_of t sid = map_of (sessions t) sid"

section \<open>Sending\<close>

definition send_msg :: "dasp_header \<Rightarrow> u8 list \<Rightarrow> 'a \<Rightarrow> ('a transport, io_error, unit) routine" where
  "send_msg h payload addr t =
     (case send_to (encode_message h payload) addr (socket t) of (r, k) \<Rightarrow> (r, t\<lparr>socket := k\<rparr>))"

definition put_session :: "u16 \<Rightarrow> 'a dasp_session \<Rightarrow> 'a transport \<Rightarrow> 'a transport" where
  "put_session sid s t = t\<lparr>sessions := AList.update sid s (sessions t)\<rparr>"

definition drop_session :: "u16 \<Rightarrow> 'a transport \<Rightarrow> 'a transport" where
  "drop_session sid t = t\<lparr>sessions := AList.delete sid (sessions t)\<rparr>"

definition drop_addr :: "'a \<Rightarrow> 'a transport \<Rightarrow> 'a transport" where
  "drop_addr a t = t\<lparr>addr_to_session := AList.delete a (addr_to_session t)\<rparr>"

definition send_close :: "u16 \<Rightarrow> 'a \<Rightarrow> dasp_error_code option \<Rightarrow> ('a transport, io_error, unit) routine" where
  "send_close rid addr e =
     send_msg ((empty_header Close rid 0xffff)\<lparr>error_code := map_option error_code_num e\<rparr>) [] addr"

definition send_ack :: "u16 \<Rightarrow> u16 \<Rightarrow> ('a transport, io_error, unit) routine" where
  "send_ack sid ack_seq t =
     (case session_of t sid of
        None \<Rightarrow> (Ok (), t)
      | Some s \<Rightarrow>
          send_msg ((empty_header Datagram (sn_remote_id s) 0xffff)\<lparr>ack := Some ack_seq\<rparr>) [] (sn_remote_addr s) t)"

definition send_to_session :: "u16 \<Rightarrow> u8 list \<Rightarrow> ('a transport, io_error, unit) routine" where
  "send_to_session sid payload t =
     (case session_of t sid of
        None \<Rightarrow> (Err NotFound, t)
      | Some s \<Rightarrow>
          (case next_seq s of (seq, s') \<Rightarrow>
             send_msg ((empty_header Datagram (sn_remote_id s) seq)\<lparr>ack := Some (recv_seq s)\<rparr>) payload
               (sn_remote_addr s) (put_session sid s' t)))"

definition send_event :: "u16 \<Rightarrow> u8 list \<Rightarrow> ('a transport, io_error, unit) routine" where
  "send_event sid payload t =
     (case session_of t sid of
        None \<Rightarrow> (Err NotFound, t)
      | Some s \<Rightarrow>
          send_msg ((empty_header Datagram (sn_remote_id s) 0xFFFF)\<lparr>ack := Some (recv_seq s)\<rparr>) payload
            (sn_remote_addr s) t)"

section \<open>Expiry\<close>

definition expired_session_ids :: "nat \<Rightarrow> 'a transport \<Rightarrow> u16 list" where
  "expired_session_ids now t = map fst (filter (\<lambda>(_, s). is_expired now s) (sessions t))"

definition expire :: "u16 \<Rightarrow> 'a transport \<Rightarrow> 'a transport" where
  "expire sid t =
     (case session_of t sid of
        None \<Rightarrow> t
      | Some s \<Rightarrow>
          snd (send_close (sn_remote_id s) (sn_remote_addr s) (Some SessionTimeout)
            (drop_addr (sn_remote_addr s) (drop_session sid t))))"

definition cleanup_expired :: "nat \<Rightarrow> 'a transport \<Rightarrow> 'a transport" where
  "cleanup_expired now t = fold expire (expired_session_ids now t) t"

definition authenticated_sessions :: "'a transport \<Rightarrow> u16 list" where
  "authenticated_sessions t = map fst (filter (\<lambda>(_, s). sn_authenticated s) (sessions t))"

section \<open>The handshake\<close>

definition handle_discover :: "'a \<Rightarrow> 'a transport \<Rightarrow> 'a transport" where
  "handle_discover from t =
     snd (send_msg ((empty_header Discover 0xffff 0)\<lparr>platform_id := Some PLATFORM_ID\<rparr>) [] from t)"

text \<open>
  The search for a free session id: the id and the next candidate. It does not end when every id is taken.
\<close>

partial_function (option) alloc_loop :: "u16 list \<Rightarrow> u16 \<Rightarrow> (u16 \<times> u16) option" where
  "alloc_loop taken candidate =
     (if candidate = 0xffff \<or> candidate \<in> set taken then alloc_loop taken (candidate + 1)
      else Some (candidate, candidate + 1))"

declare alloc_loop.simps [code]

definition alloc_session_id :: "'a transport \<Rightarrow> (u16 \<times> 'a transport) option" where
  "alloc_session_id t =
     (case alloc_loop (map fst (sessions t)) (next_session_id t) of
        None \<Rightarrow> None
      | Some (sid, next) \<Rightarrow> Some (sid, t\<lparr>next_session_id := next\<rparr>))"

definition drop_pending :: "'a \<Rightarrow> 'a transport \<Rightarrow> 'a transport" where
  "drop_pending from t =
     (case map_of (addr_to_session t) from of
        None \<Rightarrow> t
      | Some old \<Rightarrow> drop_session old (drop_addr from t))"

definition tune :: "u16 option \<Rightarrow> u16 \<Rightarrow> u16" where
  "tune offer ours = (case offer of None \<Rightarrow> ours | Some v \<Rightarrow> min ours v)"

definition hello_session :: "nat \<Rightarrow> u8 list \<Rightarrow> 'a \<Rightarrow> dasp_header \<Rightarrow> u16 \<Rightarrow> 'a dasp_session" where
  "hello_session now nc from hello sid =
     (session_new now sid (case remote_id hello of None \<Rightarrow> 0 | Some r \<Rightarrow> r) from nc)
       \<lparr>sn_ideal_max := tune (ideal_max hello) IDEAL_MAX, sn_abs_max := tune (abs_max hello) ABS_MAX,
        recv_seq := seq_num hello\<rparr>"

text \<open>The result \<open>None\<close> is a handler that does not return.\<close>

definition handle_hello :: "nat \<Rightarrow> u8 list \<Rightarrow> 'a \<Rightarrow> dasp_header \<Rightarrow> 'a transport \<Rightarrow>
  ((io_error, unit) outcome \<times> 'a transport) option" where
  "handle_hello now nc from hello t =
     (let peer = (case remote_id hello of None \<Rightarrow> 0xffff | Some r \<Rightarrow> r) in
      if (case version hello of None \<Rightarrow> False | Some v \<Rightarrow> v \<noteq> DASP_VERSION)
      then Some (send_close peer from (Some IncompatibleVersion) t)
      else if length (sessions t) \<ge> MAX_SESSIONS then Some (send_close peer from (Some Busy) t)
      else
        (case alloc_session_id (drop_pending from t) of
           None \<Rightarrow> None
         | Some (sid, t) \<Rightarrow>
             let s = hello_session now nc from hello sid;
                 t = put_session sid s t;
                 t = t\<lparr>addr_to_session := AList.update from sid (addr_to_session t)\<rparr>
             in Some (send_msg ((empty_header Challenge (sn_remote_id s) 0)
                        \<lparr>remote_id := Some sid, nonce := Some nc\<rparr>) [] from t)))"

definition welcome_header :: "u16 \<Rightarrow> 'a dasp_session \<Rightarrow> dasp_header" where
  "welcome_header sid s = (empty_header Welcome (sn_remote_id s) 0)\<lparr>remote_id := Some sid,
     ideal_max := Some (sn_ideal_max s), abs_max := Some (sn_abs_max s),
     receive_max := Some RECEIVE_MAX, receive_timeout_secs := Some RECEIVE_TIMEOUT_SECS\<rparr>"

definition handle_authenticate :: "(u8 list \<Rightarrow> u8 list) \<Rightarrow> nat \<Rightarrow> 'a \<Rightarrow> dasp_header \<Rightarrow>
  ('a transport, io_error, unit) routine" where
  "handle_authenticate sha1 now from auth t =
     (let sid = session_id auth in
      case session_of t sid of
        None \<Rightarrow> (Ok (), t)
      | Some s \<Rightarrow>
          if sn_remote_addr s \<noteq> from then (Ok (), t)
          else
            let expected = compute_auth_digest sha1 (credentials t) (sn_nonce s);
                actual = (case digest auth of None \<Rightarrow> [] | Some d \<Rightarrow> d)
            in if length actual \<noteq> 20 \<or> actual \<noteq> expected
               then send_close (sn_remote_id s) from (Some NotAuthenticated)
                      (drop_addr from (drop_session sid t))
               else
                 let s = touch now (s\<lparr>sn_authenticated := True\<rparr>)
                 in send_msg (welcome_header sid s) [] from (put_session sid s t))"

definition handle_keepalive :: "nat \<Rightarrow> u16 \<Rightarrow> 'a transport \<Rightarrow> 'a transport" where
  "handle_keepalive now sid t =
     (case session_of t sid of
        None \<Rightarrow> t
      | Some s \<Rightarrow>
          snd (send_msg (empty_header Keepalive (sn_remote_id s) 0xffff) [] (sn_remote_addr s)
            (put_session sid (touch now s) t)))"

definition handle_close :: "u16 \<Rightarrow> 'a transport \<Rightarrow> 'a transport" where
  "handle_close sid t =
     (case session_of t sid of
        None \<Rightarrow> t
      | Some s \<Rightarrow> drop_addr (sn_remote_addr s) (drop_session sid t))"

definition handle_datagram :: "nat \<Rightarrow> 'a \<Rightarrow> dasp_header \<Rightarrow> u8 list \<Rightarrow> 'a transport \<Rightarrow>
  (u16 \<times> u8 list) option \<times> 'a transport" where
  "handle_datagram now from h packet t =
     (case session_of t (session_id h) of
        None \<Rightarrow> (None, t)
      | Some s \<Rightarrow>
          if \<not> sn_authenticated s \<or> sn_remote_addr s \<noteq> from then (None, t)
          else
            let t = put_session (session_id h) ((touch now s)\<lparr>recv_seq := seq_num h\<rparr>) t;
                t = snd (send_ack (session_id h) (seq_num h) t);
                payload = drop (payload_offset h) packet
            in (if payload = [] then None else Some (session_id h, payload), t))"

definition poll :: "(u8 list \<Rightarrow> u8 list) \<Rightarrow> nat \<Rightarrow> u8 list \<Rightarrow> (io_error, u8 list \<times> 'a) outcome \<Rightarrow>
  'a transport \<Rightarrow> ((u16 \<times> u8 list) option \<times> 'a transport) option" where
  "poll sha1 now nc recv t =
     (case recv of
        Ok (bytes, from) \<Rightarrow>
          let packet = take RECV_BUF_SIZE bytes in
          (case parse_header packet of
             None \<Rightarrow> Some (None, t)
           | Some h \<Rightarrow>
               (case msg_type h of
                  Discover \<Rightarrow> Some (None, handle_discover from t)
                | Hello \<Rightarrow> map_option (\<lambda>(_, t). (None, t)) (handle_hello now nc from h t)
                | Authenticate \<Rightarrow> Some (None, snd (handle_authenticate sha1 now from h t))
                | Keepalive \<Rightarrow> Some (None, handle_keepalive now (session_id h) t)
                | Close \<Rightarrow> Some (None, handle_close (session_id h) t)
                | Datagram \<Rightarrow> Some (handle_datagram now from h packet t)
                | Challenge \<Rightarrow> Some (None, t)
                | Welcome \<Rightarrow> Some (None, t)))
      | _ \<Rightarrow> Some (None, t))"

section \<open>Sending changes the socket only\<close>

lemma send_msg_frame [simp]:
  "sessions (snd (send_msg h p a t)) = sessions t"
  "addr_to_session (snd (send_msg h p a t)) = addr_to_session t"
  "credentials (snd (send_msg h p a t)) = credentials t"
  "next_session_id (snd (send_msg h p a t)) = next_session_id t"
  by (simp_all add: send_msg_def split: prod.split)

lemma send_msg_eq:
  "send_msg h p a t = (r, t') \<Longrightarrow>
   sessions t' = sessions t \<and> addr_to_session t' = addr_to_session t \<and> credentials t' = credentials t"
  using send_msg_frame [of h p a t] by simp

lemma send_ack_frame [simp]:
  "sessions (snd (send_ack sid q t)) = sessions t"
  "addr_to_session (snd (send_ack sid q t)) = addr_to_session t"
  "credentials (snd (send_ack sid q t)) = credentials t"
  by (simp_all add: send_ack_def split: option.split)

lemma table_ops [simp]:
  "sessions (put_session sid s t) = AList.update sid s (sessions t)"
  "addr_to_session (put_session sid s t) = addr_to_session t"
  "credentials (put_session sid s t) = credentials t"
  "sessions (drop_session sid t) = AList.delete sid (sessions t)"
  "addr_to_session (drop_session sid t) = addr_to_session t"
  "credentials (drop_session sid t) = credentials t"
  "sessions (drop_addr a t) = sessions t"
  "addr_to_session (drop_addr a t) = AList.delete a (addr_to_session t)"
  "credentials (drop_addr a t) = credentials t"
  by (simp_all add: put_session_def drop_session_def drop_addr_def)

section \<open>The two tables\<close>

declare map_of_eq_Some_iff [simp del]

text \<open>
  The invariant of \<open>sessions\<close> and \<open>addr_to_session\<close>: at most four sessions, filed under their ids, none under the
  reserved id, and the address table is the inverse of the addresses of the sessions.
\<close>

definition tables_ok :: "(u16 \<times> 'a dasp_session) list \<Rightarrow> ('a \<times> u16) list \<Rightarrow> bool" where
  "tables_ok ss am \<longleftrightarrow>
     distinct (map fst ss) \<and> distinct (map fst am) \<and> length ss \<le> MAX_SESSIONS \<and>
     (\<forall>sid s. map_of ss sid = Some s \<longrightarrow>
        sn_session_id s = sid \<and> sid \<noteq> 0xffff \<and> map_of am (sn_remote_addr s) = Some sid) \<and>
     (\<forall>a sid. map_of am a = Some sid \<longrightarrow> (\<exists>s. map_of ss sid = Some s \<and> sn_remote_addr s = a))"

lemma tables_ok_new: "tables_ok [] []"
  by (simp add: tables_ok_def)

lemma length_update_old: "map_of al k = Some x \<Longrightarrow> length (AList.update k v al) = length al"
  by (induction al) auto

lemma length_update_le: "length (AList.update k v al) \<le> Suc (length al)"
  by (induction al) auto

lemma tables_okI:
  assumes "distinct (map fst ss)" "distinct (map fst am)" "length ss \<le> MAX_SESSIONS"
    and "\<And>sid s. map_of ss sid = Some s \<Longrightarrow> sn_session_id s = sid \<and> sid \<noteq> 0xffff \<and> map_of am (sn_remote_addr s) = Some sid"
    and "\<And>a sid. map_of am a = Some sid \<Longrightarrow> \<exists>s. map_of ss sid = Some s \<and> sn_remote_addr s = a"
  shows "tables_ok ss am"
  using assms by (simp add: tables_ok_def)

lemma tables_okD:
  assumes "tables_ok ss am"
  shows "distinct (map fst ss)" "distinct (map fst am)" "length ss \<le> MAX_SESSIONS"
    and "\<And>sid s. map_of ss sid = Some s \<Longrightarrow> sn_session_id s = sid \<and> sid \<noteq> 0xffff \<and> map_of am (sn_remote_addr s) = Some sid"
    and "\<And>a sid. map_of am a = Some sid \<Longrightarrow> \<exists>s. map_of ss sid = Some s \<and> sn_remote_addr s = a"
  using assms by (simp_all add: tables_ok_def)

lemma tables_ok_change:
  assumes "tables_ok ss am" "map_of ss sid = Some s" "sn_session_id s' = sid" "sn_remote_addr s' = sn_remote_addr s"
  shows "tables_ok (AList.update sid s' ss) am"
proof (rule tables_okI)
  note ok = tables_okD [OF assms(1)]
  show "\<exists>x. map_of (AList.update sid s' ss) i = Some x \<and> sn_remote_addr x = a" if "map_of am a = Some i" for a i
    using ok(5) [OF that] assms(2,4) by (cases "i = sid") (auto simp: update_conv')
  show "sn_session_id x = i \<and> i \<noteq> 0xffff \<and> map_of am (sn_remote_addr x) = Some i"
    if "map_of (AList.update sid s' ss) i = Some x" for i x
    using that ok(4) [of i] ok(4) [OF assms(2)] assms(3,4) by (auto simp: update_conv' split: if_splits)
qed (use tables_okD [OF assms(1)] assms(2) in \<open>simp_all add: distinct_update length_update_old\<close>)

lemma tables_ok_remove:
  assumes "tables_ok ss am" "map_of ss sid = Some s"
  shows "tables_ok (AList.delete sid ss) (AList.delete (sn_remote_addr s) am)"
proof (rule tables_okI)
  note ok = tables_okD [OF assms(1)]
  show "length (AList.delete sid ss) \<le> MAX_SESSIONS" using ok(3) length_delete_le [of sid ss] by simp
  show "\<exists>x. map_of (AList.delete sid ss) i = Some x \<and> sn_remote_addr x = a"
    if "map_of (AList.delete (sn_remote_addr s) am) a = Some i" for a i
    using that ok(5) [of a i] assms(2) by (auto simp: delete_conv' split: if_splits)
  show "sn_session_id x = i \<and> i \<noteq> 0xffff \<and> map_of (AList.delete (sn_remote_addr s) am) (sn_remote_addr x) = Some i"
    if "map_of (AList.delete sid ss) i = Some x" for i x
    using that ok(4) [of i x] ok(4) [OF assms(2)] by (auto simp: delete_conv' split: if_splits)
qed (use tables_okD [OF assms(1)] in \<open>simp_all add: distinct_delete\<close>)

lemma tables_ok_insert:
  assumes "tables_ok ss am" "map_of am a = None" "sid \<notin> set (map fst ss)" "sid \<noteq> 0xffff" "length ss < MAX_SESSIONS"
    and "sn_session_id s = sid" "sn_remote_addr s = a"
  shows "tables_ok (AList.update sid s ss) (AList.update a sid am)"
proof (rule tables_okI)
  note ok = tables_okD [OF assms(1)]
  have new: "map_of ss sid = None" using assms(3) by (simp add: map_of_eq_None_iff)
  show "length (AList.update sid s ss) \<le> MAX_SESSIONS"
    using assms(5) length_update_le [of sid s ss] by simp
  show "\<exists>x. map_of (AList.update sid s ss) i = Some x \<and> sn_remote_addr x = b"
    if "map_of (AList.update a sid am) b = Some i" for b i
    using that ok(5) [of b i] new assms(7) by (auto simp: update_conv' split: if_splits)
  show "sn_session_id x = i \<and> i \<noteq> 0xffff \<and> map_of (AList.update a sid am) (sn_remote_addr x) = Some i"
    if "map_of (AList.update sid s ss) i = Some x" for i x
    using that ok(4) [of i x] assms(2,4,6,7) by (auto simp: update_conv' split: if_splits)
qed (use tables_okD [OF assms(1)] in \<open>simp_all add: distinct_update\<close>)

section \<open>Allocation of ids\<close>

lemma alloc_loop_result:
  "alloc_loop taken c = Some r \<Longrightarrow> fst r \<notin> set taken \<and> fst r \<noteq> 0xffff \<and> snd r = fst r + 1"
  by (erule alloc_loop.raw_induct [rotated]) (auto split: if_splits)

lemma alloc_loop_finds:
  "c + of_nat k \<noteq> 0xffff \<Longrightarrow> c + of_nat k \<notin> set taken \<Longrightarrow> alloc_loop taken c \<noteq> None"
proof (induction k arbitrary: c)
  case (Suc k)
  from Suc.IH [of "c + 1"] Suc.prems show ?case
    by (subst alloc_loop.simps) (simp add: algebra_simps)
qed (subst alloc_loop.simps, simp)

lemma alloc_loop_returns:
  assumes "length taken < 0xffff"
  shows "alloc_loop taken c \<noteq> None"
proof -
  have "card (set (0xffff # taken)) \<le> length (0xffff # taken)" by (rule card_length)
  also have "\<dots> < card (UNIV :: u16 set)" using assms by (simp add: card_word)
  finally obtain w where "w \<notin> set (0xffff # taken)" by (metis UNIV_I less_irrefl subsetI subset_antisym top_greatest)
  then show ?thesis using alloc_loop_finds [of c "unat (w - c)" taken] by simp
qed

lemma alloc_session_id_result:
  assumes "alloc_session_id t = Some (sid, u)"
  shows "sid \<notin> set (map fst (sessions t))" "sid \<noteq> 0xffff" "sessions u = sessions t"
    "addr_to_session u = addr_to_session t" "credentials u = credentials t" "socket u = socket t"
proof -
  obtain n where "alloc_loop (map fst (sessions t)) (next_session_id t) = Some (sid, n)"
    and u: "u = t\<lparr>next_session_id := n\<rparr>"
    using assms by (auto simp: alloc_session_id_def split: option.splits)
  from alloc_loop_result [OF this(1)] show "sid \<notin> set (map fst (sessions t))" "sid \<noteq> 0xffff" by simp_all
  from u show "sessions u = sessions t" "addr_to_session u = addr_to_session t" "credentials u = credentials t"
    "socket u = socket t" by simp_all
qed

section \<open>Handlers keep the tables\<close>

definition transport_ok :: "'a transport \<Rightarrow> bool" where
  "transport_ok t \<longleftrightarrow> tables_ok (sessions t) (addr_to_session t)"

lemma session_id_of: "transport_ok t \<Longrightarrow> session_of t sid = Some s \<Longrightarrow> sn_session_id s = sid"
  by (simp add: transport_ok_def tables_ok_def session_of_def)

lemma transport_ok_send [simp]: "transport_ok (snd (send_msg h p a t)) \<longleftrightarrow> transport_ok t"
  by (simp add: transport_ok_def)

lemma transport_ok_send_close [simp]: "transport_ok (snd (send_close r a e t)) \<longleftrightarrow> transport_ok t"
  by (simp add: send_close_def)

lemma transport_ok_change:
  "transport_ok t \<Longrightarrow> session_of t sid = Some s \<Longrightarrow> sn_session_id s' = sid \<Longrightarrow>
   sn_remote_addr s' = sn_remote_addr s \<Longrightarrow> transport_ok (put_session sid s' t)"
  by (simp add: transport_ok_def session_of_def tables_ok_change)

lemma transport_ok_remove:
  "transport_ok t \<Longrightarrow> session_of t sid = Some s \<Longrightarrow> transport_ok (drop_addr (sn_remote_addr s) (drop_session sid t))"
  by (simp add: transport_ok_def session_of_def tables_ok_remove)

lemma drop_pending_ok:
  assumes "transport_ok t"
  shows "transport_ok (drop_pending a t)" "map_of (addr_to_session (drop_pending a t)) a = None"
    "length (sessions (drop_pending a t)) \<le> length (sessions t)"
proof -
  show "transport_ok (drop_pending a t)"
  proof (cases "map_of (addr_to_session t) a")
    case (Some old)
    with assms obtain s where s: "map_of (sessions t) old = Some s" "sn_remote_addr s = a"
      using tables_okD(5) [of "sessions t" "addr_to_session t" a old] by (auto simp: transport_ok_def)
    with assms Some tables_ok_remove [of "sessions t" "addr_to_session t" old s] show ?thesis
      by (simp add: drop_pending_def transport_ok_def)
  qed (use assms in \<open>simp add: drop_pending_def\<close>)
  show "map_of (addr_to_session (drop_pending a t)) a = None"
    by (simp add: drop_pending_def delete_conv split: option.split)
  show "length (sessions (drop_pending a t)) \<le> length (sessions t)"
    by (simp add: drop_pending_def length_delete_le split: option.split)
qed

lemma hello_session_simps [simp]:
  "sn_session_id (hello_session now nc a h sid) = sid" "sn_remote_addr (hello_session now nc a h sid) = a"
  "\<not> sn_authenticated (hello_session now nc a h sid)" "sn_nonce (hello_session now nc a h sid) = nc"
  by (simp_all add: hello_session_def session_new_def)

lemma touch_simps [simp]:
  "sn_session_id (touch now s) = sn_session_id s" "sn_remote_addr (touch now s) = sn_remote_addr s"
  "sn_authenticated (touch now s) = sn_authenticated s" "sn_nonce (touch now s) = sn_nonce s"
  "sn_remote_id (touch now s) = sn_remote_id s"
  by (simp_all add: touch_def)

text \<open>What a \<open>HELLO\<close> does, when the version fits and there is room: it replaces the pending session of the address.\<close>

lemma handle_hello_cases:
  assumes "handle_hello now nc a h t = Some (r, t')"
  obtains (refused) e where "t' = snd (send_close (case remote_id h of None \<Rightarrow> 0xffff | Some i \<Rightarrow> i) a e t)"
  | (opened) sid u where "length (sessions t) < MAX_SESSIONS" "alloc_session_id (drop_pending a t) = Some (sid, u)"
      "sessions t' = AList.update sid (hello_session now nc a h sid) (sessions u)"
      "addr_to_session t' = AList.update a sid (addr_to_session u)" "credentials t' = credentials u"
proof (cases "length (sessions t) \<ge> MAX_SESSIONS \<or> (case version h of None \<Rightarrow> False | Some v \<Rightarrow> v \<noteq> DASP_VERSION)")
  case True
  define e where "e = (if (case version h of None \<Rightarrow> False | Some v \<Rightarrow> v \<noteq> DASP_VERSION)
    then Some IncompatibleVersion else Some Busy)"
  have "handle_hello now nc a h t = Some (send_close (case remote_id h of None \<Rightarrow> 0xffff | Some i \<Rightarrow> i) a e t)"
    using True
    by (cases "case version h of None \<Rightarrow> False | Some v \<Rightarrow> v \<noteq> DASP_VERSION"; simp add: handle_hello_def e_def)
  with assms have "send_close (case remote_id h of None \<Rightarrow> 0xffff | Some i \<Rightarrow> i) a e t = (r, t')" by simp
  then show ?thesis by (intro refused [of e]) simp
next
  case False
  with assms obtain sid u where a: "alloc_session_id (drop_pending a t) = Some (sid, u)"
    by (auto simp: handle_hello_def Let_def split: option.splits)
  with assms False have "sessions t' = AList.update sid (hello_session now nc a h sid) (sessions u)"
      "addr_to_session t' = AList.update a sid (addr_to_session u)" "credentials t' = credentials u"
    by (auto simp: handle_hello_def Let_def dest!: send_msg_eq split: if_splits option.splits)
  with False a opened show ?thesis by simp
qed

lemma handle_hello_ok:
  assumes "handle_hello now nc a h t = Some (r, t')" "transport_ok t"
  shows "transport_ok t'"
  using assms(1)
proof (cases rule: handle_hello_cases)
  case (opened sid u)
  note new = alloc_session_id_result [OF opened(2)] and old = drop_pending_ok [OF assms(2), of a]
  from old(1) new(1-4) old(2,3) opened(1) show ?thesis
    unfolding transport_ok_def opened(3,4) by (intro tables_ok_insert) simp_all
qed (use assms(2) in simp)

lemma handle_authenticate_ok: "transport_ok t \<Longrightarrow> transport_ok (snd (handle_authenticate sha1 now a h t))"
  by (auto simp: handle_authenticate_def Let_def session_id_of intro!: transport_ok_remove transport_ok_change
      split: option.split)

lemma handle_keepalive_ok: "transport_ok t \<Longrightarrow> transport_ok (handle_keepalive now sid t)"
  by (auto simp: handle_keepalive_def session_id_of intro!: transport_ok_change split: option.split)

lemma handle_close_ok: "transport_ok t \<Longrightarrow> transport_ok (handle_close sid t)"
  by (auto simp: handle_close_def intro!: transport_ok_remove split: option.split)

lemma transport_ok_send_ack [simp]: "transport_ok (snd (send_ack sid q t)) \<longleftrightarrow> transport_ok t"
  by (simp add: transport_ok_def)

lemma handle_datagram_ok: "transport_ok t \<Longrightarrow> transport_ok (snd (handle_datagram now a h p t))"
  by (auto simp: handle_datagram_def Let_def session_id_of intro!: transport_ok_change split: option.split)

lemma expire_ok: "transport_ok t \<Longrightarrow> transport_ok (expire sid t)"
  by (auto simp: expire_def intro!: transport_ok_remove split: option.split)

text \<open>The packet that one call of \<open>poll\<close> handles, and its handler.\<close>

lemma poll_cases:
  assumes "poll sha1 now nc recv t = Some (r, t')"
  obtains (idle) "t' = t" "r = None"
  | (packet) bytes a h where "recv = Ok (bytes, a)" "parse_header (take RECV_BUF_SIZE bytes) = Some h"
      "msg_type h = Discover \<and> t' = handle_discover a t \<and> r = None \<or>
       msg_type h = Hello \<and> (\<exists>x. handle_hello now nc a h t = Some (x, t')) \<and> r = None \<or>
       msg_type h = Authenticate \<and> t' = snd (handle_authenticate sha1 now a h t) \<and> r = None \<or>
       msg_type h = Keepalive \<and> t' = handle_keepalive now (session_id h) t \<and> r = None \<or>
       msg_type h = Close \<and> t' = handle_close (session_id h) t \<and> r = None \<or>
       msg_type h = Datagram \<and> handle_datagram now a h (take RECV_BUF_SIZE bytes) t = (r, t')"
proof (cases "\<exists>bytes a h. recv = Ok (bytes, a) \<and> parse_header (take RECV_BUF_SIZE bytes) = Some h \<and>
    msg_type h \<noteq> Challenge \<and> msg_type h \<noteq> Welcome")
  case True
  then obtain bytes a h where rx: "recv = Ok (bytes, a)" "parse_header (take RECV_BUF_SIZE bytes) = Some h"
    "msg_type h \<noteq> Challenge" "msg_type h \<noteq> Welcome" by blast
  show ?thesis
    by (rule packet [OF rx(1,2)]) (use assms rx in \<open>cases "msg_type h"; auto simp: poll_def\<close>)
next
  case False
  with assms show ?thesis
    by (intro idle) (auto simp: poll_def Let_def split: outcome.splits option.splits prod.splits dasp_msg_type.splits)
qed

lemma poll_ok:
  assumes "poll sha1 now nc recv t = Some (r, t')" "transport_ok t"
  shows "transport_ok t'"
  using assms(1)
proof (cases rule: poll_cases)
  case (packet bytes a h)
  have "transport_ok (handle_discover a t)" using assms(2) by (simp add: handle_discover_def)
  with packet(3) assms(2) show ?thesis
    using handle_datagram_ok [OF assms(2), of now a h "take RECV_BUF_SIZE bytes"]
    by (auto intro: handle_hello_ok handle_authenticate_ok handle_keepalive_ok handle_close_ok)
qed (use assms(2) in simp)

section \<open>Runs\<close>

text \<open>The calls of the server and the packets that arrive, and the transports they lead to.\<close>

datatype 'a dasp_event =
    Poll nat "u8 list" "(io_error, u8 list \<times> 'a) outcome"
  | SendTo u16 "u8 list"
  | SendEvent u16 "u8 list"
  | Cleanup nat

inductive dasp_run :: "(u8 list \<Rightarrow> u8 list) \<Rightarrow> u8 list \<Rightarrow> u8 list \<Rightarrow> 'a dasp_event list \<Rightarrow> 'a transport \<Rightarrow> bool"
  for sha1 user pass where
  run_new: "dasp_run sha1 user pass [] (from_socket sha1 k user pass)"
| run_poll: "dasp_run sha1 user pass evs t \<Longrightarrow> poll sha1 now nc recv t = Some (r, t') \<Longrightarrow>
    dasp_run sha1 user pass (evs @ [Poll now nc recv]) t'"
| run_send: "dasp_run sha1 user pass evs t \<Longrightarrow> send_to_session sid p t = (r, t') \<Longrightarrow>
    dasp_run sha1 user pass (evs @ [SendTo sid p]) t'"
| run_event: "dasp_run sha1 user pass evs t \<Longrightarrow> send_event sid p t = (r, t') \<Longrightarrow>
    dasp_run sha1 user pass (evs @ [SendEvent sid p]) t'"
| run_cleanup: "dasp_run sha1 user pass evs t \<Longrightarrow>
    dasp_run sha1 user pass (evs @ [Cleanup now]) (cleanup_expired now t)"

text \<open>
  A property of histories and transports that every call keeps holds in every run. The last law is for one
  round of the loop of \<open>cleanup_expired\<close>.
\<close>

locale dasp_invariant =
  fixes sha1 :: "u8 list \<Rightarrow> u8 list" and user pass :: "u8 list"
    and I :: "'a dasp_event list \<Rightarrow> 'a transport \<Rightarrow> bool"
  assumes new: "I [] (from_socket sha1 k user pass)"
    and later: "I evs t \<Longrightarrow> I (evs @ [e]) t"
    and poll: "I evs t \<Longrightarrow> poll sha1 now nc recv t = Some (r, t') \<Longrightarrow> I (evs @ [Poll now nc recv]) t'"
    and send: "I evs t \<Longrightarrow> I evs (snd (send_to_session sid p t))"
    and event: "I evs t \<Longrightarrow> I evs (snd (send_event sid p t))"
    and expire: "I evs t \<Longrightarrow> I evs (expire sid t)"
begin

lemma cleanup: "I evs t \<Longrightarrow> I evs (cleanup_expired now t)"
proof -
  have "I evs t \<Longrightarrow> I evs (fold Dasp_Transport.expire sids t)" for sids t
    by (induction sids arbitrary: t) (auto intro: expire)
  then show "I evs t \<Longrightarrow> I evs (cleanup_expired now t)" by (simp add: cleanup_expired_def)
qed

lemma run: "dasp_run sha1 user pass evs t \<Longrightarrow> I evs t"
proof (induction rule: dasp_run.induct)
  case (run_send evs t sid p r t')
  from send [OF run_send.IH, of sid p] run_send.hyps(2) show ?case by (auto intro: later)
next
  case (run_event evs t sid p r t')
  from event [OF run_event.IH, of sid p] run_event.hyps(2) show ?case by (auto intro: later)
qed (auto intro: new poll later cleanup)

end

lemma send_to_session_ok: "transport_ok t \<Longrightarrow> transport_ok (snd (send_to_session sid p t))"
  by (auto simp: send_to_session_def next_seq_def session_id_of intro!: transport_ok_change split: option.split)

lemma send_event_ok: "transport_ok t \<Longrightarrow> transport_ok (snd (send_event sid p t))"
  by (auto simp: send_event_def split: option.split)

lemma transport_ok_new: "transport_ok (from_socket sha1 k user pass)"
  by (simp add: from_socket_def transport_ok_def tables_ok_new)

interpretation tables: dasp_invariant sha1 user pass "\<lambda>evs t. transport_ok t"
  by unfold_locales (auto intro: transport_ok_new poll_ok send_to_session_ok send_event_ok expire_ok)

section \<open>Authentication\<close>

text \<open>The authenticated sessions of the second transport are those of the first, with the same peer and nonce.\<close>

definition no_new_auth :: "'a transport \<Rightarrow> 'a transport \<Rightarrow> bool" where
  "no_new_auth t t' \<longleftrightarrow> credentials t' = credentials t \<and>
     (\<forall>sid s'. session_of t' sid = Some s' \<and> sn_authenticated s' \<longrightarrow>
       (\<exists>s. session_of t sid = Some s \<and> sn_authenticated s \<and> sn_remote_addr s = sn_remote_addr s' \<and> sn_nonce s = sn_nonce s'))"

lemma no_new_auth_refl [simp]: "no_new_auth t t"
  by (auto simp: no_new_auth_def)

lemma no_new_auth_send [simp]: "no_new_auth t (snd (send_msg h p a u)) \<longleftrightarrow> no_new_auth t u"
  by (simp add: no_new_auth_def session_of_def)

lemma no_new_auth_close [simp]: "no_new_auth t (snd (send_close i a e u)) \<longleftrightarrow> no_new_auth t u"
  by (simp add: send_close_def)

lemma no_new_auth_ack [simp]: "no_new_auth t (snd (send_ack i q u)) \<longleftrightarrow> no_new_auth t u"
  by (simp add: no_new_auth_def session_of_def)

lemma no_new_auth_drop: "no_new_auth t (drop_addr a (drop_session sid t))"
  by (auto simp: no_new_auth_def session_of_def delete_conv' split: if_splits)

lemma no_new_auth_put:
  "session_of t sid = Some s \<Longrightarrow> sn_authenticated s' = sn_authenticated s \<Longrightarrow> sn_remote_addr s' = sn_remote_addr s \<Longrightarrow>
   sn_nonce s' = sn_nonce s \<Longrightarrow> no_new_auth t (put_session sid s' t)"
  by (auto simp: no_new_auth_def session_of_def update_conv' split: if_splits)

lemma handle_hello_auth:
  assumes "handle_hello now nc a h t = Some (r, t')"
  shows "no_new_auth t t'"
  using assms
proof (cases rule: handle_hello_cases)
  case (opened sid u)
  have "map_of (sessions (drop_pending a t)) i = Some s \<Longrightarrow> map_of (sessions t) i = Some s" for i s
    by (auto simp: drop_pending_def delete_conv' split: option.splits if_splits)
  moreover have "credentials (drop_pending a t) = credentials t"
    by (simp add: drop_pending_def split: option.split)
  ultimately show ?thesis
    using opened(3,5) alloc_session_id_result(3,5) [OF opened(2)]
    by (auto simp: no_new_auth_def session_of_def update_conv' split: if_splits)
qed simp

lemma handlers_auth:
  "no_new_auth t (handle_discover a t)" "no_new_auth t (handle_keepalive now sid t)"
  "no_new_auth t (handle_close sid t)" "no_new_auth t (snd (handle_datagram now a h p t))"
  by (auto simp: handle_discover_def handle_keepalive_def handle_close_def handle_datagram_def Let_def
      intro!: no_new_auth_drop no_new_auth_put split: option.split)

lemma handle_authenticate_auth:
  "no_new_auth t (snd (handle_authenticate sha1 now a h t)) \<or>
   (\<exists>s. session_of t (session_id h) = Some s \<and> sn_remote_addr s = a \<and>
      digest h = Some (compute_auth_digest sha1 (credentials t) (sn_nonce s)) \<and>
      (\<exists>u. no_new_auth t u \<and> sessions (snd (handle_authenticate sha1 now a h t)) =
         AList.update (session_id h) (touch now (s\<lparr>sn_authenticated := True\<rparr>)) (sessions u) \<and>
         credentials (snd (handle_authenticate sha1 now a h t)) = credentials u))"
proof (cases "session_of t (session_id h)")
  case (Some s)
  show ?thesis
  proof (cases "sn_remote_addr s = a \<and> digest h = Some (compute_auth_digest sha1 (credentials t) (sn_nonce s)) \<and>
      length (compute_auth_digest sha1 (credentials t) (sn_nonce s)) = 20")
    case True
    with Some show ?thesis
      by (intro disjI2 exI [of _ s]) (auto simp: handle_authenticate_def Let_def intro: exI [of _ t])
  next
    case False
    with Some no_new_auth_drop [of t a "session_id h"] show ?thesis
      by (auto simp: handle_authenticate_def Let_def split: option.splits)
  qed
qed (simp add: handle_authenticate_def)

text \<open>The packet that authenticates a session, in the history of the transport.\<close>

definition authenticated_by :: "(u8 list \<Rightarrow> u8 list) \<Rightarrow> u8 list \<Rightarrow> 'a dasp_event list \<Rightarrow> u16 \<Rightarrow> 'a dasp_session \<Rightarrow> bool" where
  "authenticated_by sha1 cred evs sid s \<longleftrightarrow>
     (\<exists>now nc bytes h. Poll now nc (Ok (bytes, sn_remote_addr s)) \<in> set evs \<and>
        parse_header (take RECV_BUF_SIZE bytes) = Some h \<and> msg_type h = Authenticate \<and> session_id h = sid \<and>
        digest h = Some (compute_auth_digest sha1 cred (sn_nonce s)))"

definition agreement :: "(u8 list \<Rightarrow> u8 list) \<Rightarrow> u8 list \<Rightarrow> 'a dasp_event list \<Rightarrow> 'a transport \<Rightarrow> bool" where
  "agreement sha1 cred evs t \<longleftrightarrow> credentials t = cred \<and>
     (\<forall>sid s. session_of t sid = Some s \<and> sn_authenticated s \<longrightarrow> authenticated_by sha1 cred evs sid s)"

lemma agreement_mono:
  assumes "agreement sha1 cred evs t" "no_new_auth t t'" "set evs \<subseteq> set evs'"
  shows "agreement sha1 cred evs' t'"
  unfolding agreement_def
proof (intro conjI allI impI)
  show "credentials t' = cred" using assms(1,2) by (simp add: agreement_def no_new_auth_def)
next
  fix sid s' assume "session_of t' sid = Some s' \<and> sn_authenticated s'"
  with assms(2) obtain s where s: "session_of t sid = Some s" "sn_authenticated s"
    "sn_remote_addr s = sn_remote_addr s'" "sn_nonce s = sn_nonce s'" by (auto simp: no_new_auth_def)
  with assms(1) have "authenticated_by sha1 cred evs sid s" by (simp add: agreement_def)
  with s assms(3) show "authenticated_by sha1 cred evs' sid s'" by (auto simp: authenticated_by_def)
qed

lemma agreement_poll:
  assumes "agreement sha1 cred evs t" "poll sha1 now nc recv t = Some (r, t')"
  shows "agreement sha1 cred (evs @ [Poll now nc recv]) t'"
  using assms(2)
proof (cases rule: poll_cases)
  case idle
  with assms(1) show ?thesis by (auto intro: agreement_mono)
next
  case (packet bytes a h)
  have quiet: ?thesis if "no_new_auth t t'" by (rule agreement_mono [OF assms(1) that]) auto
  from packet(3) consider "no_new_auth t t'"
    | "msg_type h = Authenticate" "t' = snd (handle_authenticate sha1 now a h t)"
    using handle_hello_auth [of now nc a h t] handlers_auth [of t]
    by (metis snd_conv)
  then show ?thesis
  proof cases
    case auth: 2
    show ?thesis
    proof (cases "no_new_auth t t'")
      case False
      with handle_authenticate_auth [of t sha1 now a h] auth(2) obtain s u where
        s: "sn_remote_addr s = a" "digest h = Some (compute_auth_digest sha1 (credentials t) (sn_nonce s))"
        and u: "no_new_auth t u" "credentials t' = credentials u"
          "sessions t' = AList.update (session_id h) (touch now (s\<lparr>sn_authenticated := True\<rparr>)) (sessions u)"
        by blast
      have cred: "credentials t = cred" using assms(1) by (simp add: agreement_def)
      have "authenticated_by sha1 cred (evs @ [Poll now nc recv]) (session_id h) (touch now (s\<lparr>sn_authenticated := True\<rparr>))"
        unfolding authenticated_by_def using s cred packet(1,2) auth(1) by auto
      moreover have "agreement sha1 cred (evs @ [Poll now nc recv]) u"
        by (rule agreement_mono [OF assms(1) u(1)]) auto
      ultimately show ?thesis using u(2,3)
        by (auto simp: agreement_def session_of_def update_conv' split: if_splits)
    qed (rule quiet)
  qed (rule quiet)
qed

interpretation auth: dasp_invariant sha1 user pass "agreement sha1 (compute_credentials sha1 user pass)"
proof unfold_locales
  fix evs t sid p
  assume a: "agreement sha1 (compute_credentials sha1 user pass) evs t"
  have "no_new_auth t (snd (send_to_session sid p t))" "no_new_auth t (snd (send_event sid p t))" "no_new_auth t (expire sid t)"
    by (auto simp: send_to_session_def next_seq_def send_event_def expire_def
        intro!: no_new_auth_put no_new_auth_drop split: option.split)
  with a show "agreement sha1 (compute_credentials sha1 user pass) evs (snd (send_to_session sid p t))"
    "agreement sha1 (compute_credentials sha1 user pass) evs (snd (send_event sid p t))"
    "agreement sha1 (compute_credentials sha1 user pass) evs (expire sid t)"
    by (blast intro: agreement_mono)+
qed (auto simp: from_socket_def session_of_def agreement_def [of _ _ "[]"] intro: agreement_poll agreement_mono)

section \<open>Returning and sending\<close>

lemma handle_hello_returns:
  assumes "transport_ok t"
  shows "\<exists>r t'. handle_hello now nc a h t = Some (r, t')"
proof -
  have "length (map fst (sessions (drop_pending a t))) < 0xffff"
    using tables_okD(3) [OF drop_pending_ok(1) [OF assms, of a, unfolded transport_ok_def]]
    by (simp add: MAX_SESSIONS_def)
  from alloc_loop_returns [OF this] obtain sid n where
    "alloc_loop (map fst (sessions (drop_pending a t))) (next_session_id (drop_pending a t)) = Some (sid, n)"
    by fastforce
  then show ?thesis
    by (simp add: handle_hello_def alloc_session_id_def Let_def)
qed

lemma poll_returns_ok:
  assumes "transport_ok t"
  shows "\<exists>r t'. poll sha1 now nc recv t = Some (r, t')"
proof (cases "\<exists>bytes a h. recv = Ok (bytes, a) \<and> parse_header (take RECV_BUF_SIZE bytes) = Some h \<and> msg_type h = Hello")
  case True
  then obtain bytes a h where "recv = Ok (bytes, a)" "parse_header (take RECV_BUF_SIZE bytes) = Some h"
    "msg_type h = Hello" by blast
  with handle_hello_returns [OF assms, of now nc a h] show ?thesis by (auto simp: poll_def)
next
  case False
  then show ?thesis
    by (auto simp: poll_def Let_def split: outcome.split option.split dasp_msg_type.split)
qed

lemma send_msg_up:
  "outages (socket t) = [] \<Longrightarrow>
   send_msg h p a t = (Ok (), t\<lparr>socket := (socket t)\<lparr>sent := sent (socket t) @ [(a, encode_message h p)]\<rparr>\<rparr>)"
  by (simp add: send_msg_def send_to_def)

section \<open>Properties\<close>

text \<open>
  C29 Session tables: whatever packets arrive, there are at most four sessions, each filed under its own id and none under
  the reserved id \<open>0xffff\<close>, and the address table maps exactly the addresses of the sessions to their ids.
\<close>

theorem dasp_tables: "dasp_run sha1 user pass evs t \<Longrightarrow> transport_ok t"
  by (rule tables.run)

lemma dasp_tables_witness:
  "transport_ok (cleanup_expired 5 (from_socket (\<lambda>_. []) \<lparr>sent = ([] :: (nat \<times> u8 list) list), outages = []\<rparr> [] []))"
  by (rule dasp_tables [OF run_cleanup [OF run_new]])

text \<open>
  C4 Agreement: a session is authenticated only when a packet from its own address carried the digest of the
  credentials and the nonce that was generated for this session.
\<close>

theorem dasp_agreement:
  assumes "dasp_run sha1 user pass evs t" "session_of t sid = Some s" "sn_authenticated s"
  shows "\<exists>now nc bytes h. Poll now nc (Ok (bytes, sn_remote_addr s)) \<in> set evs \<and>
    parse_header (take RECV_BUF_SIZE bytes) = Some h \<and> msg_type h = Authenticate \<and> session_id h = sid \<and>
    digest h = Some (sha1 (sha1 (user @ ascii '':'' @ pass) @ sn_nonce s))"
  using auth.run [OF assms(1)] assms(2,3)
  by (auto simp: agreement_def authenticated_by_def compute_credentials_def compute_auth_digest_def)

text \<open>A server with a constant hash function, and the packets of a client that logs in.\<close>

definition sample_server :: "nat transport" where
  "sample_server = from_socket (\<lambda>_. replicate 20 0) \<lparr>sent = [], outages = []\<rparr> [] []"

definition sample_hello :: "u8 list" where
  "sample_hello = [0, 0, 0, 0, 0x10]"

definition sample_auth :: "u8 list" where
  "sample_auth = [0, 1, 0, 0, 0x31, 0x1b, 20] @ replicate 20 0"

definition sample_login :: "nat transport option" where
  "sample_login = (case poll (\<lambda>_. replicate 20 0) 0 [9] (Ok (sample_hello, 7)) sample_server of
     None \<Rightarrow> None
   | Some (_, t) \<Rightarrow> map_option snd (poll (\<lambda>_. replicate 20 0) 1 [] (Ok (sample_auth, 7)) t))"

lemma sample_login_run:
  "\<exists>t s. sample_login = Some t \<and> session_of t 1 = Some s \<and> sn_authenticated s \<and> sn_remote_addr s = 7 \<and> sn_nonce s = [9] \<and>
     dasp_run (\<lambda>_. replicate 20 0) [] [] [Poll 0 [9] (Ok (sample_hello, 7)), Poll 1 [] (Ok (sample_auth, 7))] t"
proof -
  have "case sample_login of None \<Rightarrow> False | Some t \<Rightarrow>
      (case session_of t 1 of None \<Rightarrow> False | Some s \<Rightarrow> sn_authenticated s \<and> sn_remote_addr s = 7 \<and> sn_nonce s = [9])"
    by code_simp
  then obtain t s where t: "sample_login = Some t" "session_of t 1 = Some s" "sn_authenticated s" "sn_remote_addr s = 7"
    "sn_nonce s = [9]" by (auto split: option.splits)
  from t(1) obtain x r u where "poll (\<lambda>_. replicate 20 0) 0 [9] (Ok (sample_hello, 7)) sample_server = Some (x, u)"
    "poll (\<lambda>_. replicate 20 0) 1 [] (Ok (sample_auth, 7)) u = Some (r, t)"
    by (auto simp: sample_login_def split: option.splits)
  from run_poll [OF run_poll [OF run_new this(1) [unfolded sample_server_def]] this(2)] t show ?thesis by auto
qed

lemma dasp_agreement_witness:
  "\<exists>now nc bytes h. Poll now nc (Ok (bytes, 7)) \<in> set [Poll 0 [9] (Ok (sample_hello, 7)), Poll 1 [] (Ok (sample_auth, (7 :: nat)))] \<and>
    parse_header (take RECV_BUF_SIZE bytes) = Some h \<and> msg_type h = Authenticate \<and> session_id h = 1 \<and>
    digest h = Some (replicate 20 0)"
proof -
  obtain t s where t: "session_of t 1 = Some s" "sn_authenticated s" "sn_remote_addr s = 7"
    "dasp_run (\<lambda>_. replicate 20 0) [] [] [Poll 0 [9] (Ok (sample_hello, 7)), Poll 1 [] (Ok (sample_auth, 7 :: nat))] t"
    using sample_login_run by blast
  from dasp_agreement [OF t(4,1,2)] t(3) show ?thesis by simp
qed

text \<open>
  Delivery: \<open>poll\<close> hands a payload to the server exactly when the packet is a datagram of an authenticated session that
  comes from the address of this session and has bytes behind its header.
\<close>

theorem dasp_delivery:
  "(\<exists>t'. poll sha1 now nc recv t = Some (Some (sid, payload), t')) \<longleftrightarrow>
   (\<exists>bytes a h s. recv = Ok (bytes, a) \<and> parse_header (take RECV_BUF_SIZE bytes) = Some h \<and>
      msg_type h = Datagram \<and> session_id h = sid \<and> session_of t sid = Some s \<and> sn_authenticated s \<and>
      sn_remote_addr s = a \<and> payload = drop (payload_offset h) (take RECV_BUF_SIZE bytes) \<and> payload \<noteq> [])"
proof
  assume "\<exists>t'. poll sha1 now nc recv t = Some (Some (sid, payload), t')"
  then obtain t' where "poll sha1 now nc recv t = Some (Some (sid, payload), t')" ..
  then show "\<exists>bytes a h s. recv = Ok (bytes, a) \<and> parse_header (take RECV_BUF_SIZE bytes) = Some h \<and>
      msg_type h = Datagram \<and> session_id h = sid \<and> session_of t sid = Some s \<and> sn_authenticated s \<and>
      sn_remote_addr s = a \<and> payload = drop (payload_offset h) (take RECV_BUF_SIZE bytes) \<and> payload \<noteq> []"
    by (cases rule: poll_cases) (auto simp: handle_datagram_def Let_def split: option.splits if_splits)
qed (auto simp: poll_def handle_datagram_def Let_def)

text \<open>
  Responsiveness: \<open>poll\<close> always returns, although the search for a free session id has no bound of its own.
\<close>

theorem dasp_poll_returns:
  assumes "dasp_run sha1 user pass evs t"
  shows "\<exists>r t'. poll sha1 now nc recv t = Some (r, t')"
  by (rule poll_returns_ok [OF tables.run [OF assms]])

lemma dasp_poll_returns_witness:
  "\<exists>r t'. poll (\<lambda>_. []) 5 [] (Ok ([0, 0, 0, 0, 16], 7))
     (from_socket (\<lambda>_. []) \<lparr>sent = ([] :: (nat \<times> u8 list) list), outages = []\<rparr> [] []) = Some (r, t')"
  by (rule dasp_poll_returns [OF run_new])

text \<open>
  C5 Handshake: when there is room and the network is up, a \<open>HELLO\<close> of the supported version is answered by a challenge with a
  session id and the nonce, and a client that then sends the digest of the credentials and this nonce from the same
  address is authenticated and welcomed.
\<close>

theorem dasp_handshake:
  assumes t: "transport_ok t" "length (sessions t) < MAX_SESSIONS" "outages (socket t) = []"
    and hello: "parse_header (take RECV_BUF_SIZE b) = Some h" "msg_type h = Hello"
      "version h = None \<or> version h = Some DASP_VERSION"
  shows "\<exists>sid t1. poll sha1 now nc (Ok (b, a)) t = Some (None, t1) \<and>
    sent (socket t1) = sent (socket t) @ [(a, encode_message ((empty_header Challenge
      (case remote_id h of None \<Rightarrow> 0 | Some r \<Rightarrow> r) 0)\<lparr>remote_id := Some sid, nonce := Some nc\<rparr>) [])] \<and>
    (\<forall>b' h' now' nc'. parse_header (take RECV_BUF_SIZE b') = Some h' \<and> msg_type h' = Authenticate \<and>
        session_id h' = sid \<and> digest h' = Some (sha1 (credentials t @ nc)) \<and> length (sha1 (credentials t @ nc)) = 20 \<longrightarrow>
      (\<exists>t2 s. poll sha1 now' nc' (Ok (b', a)) t1 = Some (None, t2) \<and> session_of t2 sid = Some s \<and>
        sn_authenticated s \<and> sn_remote_addr s = a \<and>
        sent (socket t2) = sent (socket t1) @ [(a, encode_message (welcome_header sid s) [])]))"
proof -
  obtain r t1 where r: "handle_hello now nc a h t = Some (r, t1)" using handle_hello_returns [OF t(1)] by blast
  then obtain sid u where u: "alloc_session_id (drop_pending a t) = Some (sid, u)"
    using t(2) hello(3) by (auto simp: handle_hello_def Let_def split: option.splits)
  have sock: "socket u = socket t" using alloc_session_id_result(6) [OF u]
    by (simp add: drop_pending_def drop_session_def drop_addr_def split: option.splits)
  let ?s = "hello_session now nc a h sid"
  define u' where "u' = (put_session sid ?s u)\<lparr>addr_to_session := AList.update a sid (addr_to_session u)\<rparr>"
  have u': "socket u' = socket t" "sessions u' = AList.update sid ?s (sessions u)" "credentials u' = credentials t"
    using sock alloc_session_id_result(5) [OF u]
    by (simp_all add: u'_def put_session_def drop_pending_def drop_session_def drop_addr_def split: option.splits)
  have t1: "t1 = u'\<lparr>socket := (socket u')\<lparr>sent := sent (socket u') @ [(a, encode_message ((empty_header Challenge
      (case remote_id h of None \<Rightarrow> 0 | Some r \<Rightarrow> r) 0)\<lparr>remote_id := Some sid, nonce := Some nc\<rparr>) [])]\<rparr>\<rparr>"
    using r u t(2,3) hello(3) u'(1)
    by (auto simp: handle_hello_def Let_def u'_def send_msg_up hello_session_def session_new_def)
  have auth: "\<exists>t2 s. poll sha1 now' nc' (Ok (b', a)) t1 = Some (None, t2) \<and> session_of t2 sid = Some s \<and>
        sn_authenticated s \<and> sn_remote_addr s = a \<and>
        sent (socket t2) = sent (socket t1) @ [(a, encode_message (welcome_header sid s) [])]"
    if "parse_header (take RECV_BUF_SIZE b') = Some h'" "msg_type h' = Authenticate" "session_id h' = sid"
      "digest h' = Some (sha1 (credentials t @ nc))" "length (sha1 (credentials t @ nc)) = 20" for b' h' now' nc'
    using that t(3) u' by (simp add: t1 poll_def handle_authenticate_def session_of_def update_conv' Let_def
      compute_auth_digest_def send_msg_up put_session_def)
  have "poll sha1 now nc (Ok (b, a)) t = Some (None, t1)" using r hello by (simp add: poll_def)
  moreover have "sent (socket t1) = sent (socket t) @ [(a, encode_message ((empty_header Challenge
      (case remote_id h of None \<Rightarrow> 0 | Some r \<Rightarrow> r) 0)\<lparr>remote_id := Some sid, nonce := Some nc\<rparr>) [])]"
    by (simp add: t1 u'(1))
  ultimately show ?thesis using auth by blast
qed

lemma dasp_handshake_witness:
  "\<exists>sid t1. poll (\<lambda>_. replicate 20 0) 3 [9] (Ok (sample_hello, 7)) sample_server = Some (None, t1) \<and>
    sent (socket t1) = [(7, encode_message ((empty_header Challenge 0 0)\<lparr>remote_id := Some sid, nonce := Some [9]\<rparr>) [])]"
proof -
  have "case parse_header (take RECV_BUF_SIZE sample_hello) of None \<Rightarrow> False
     | Some h \<Rightarrow> msg_type h = Hello \<and> version h = None \<and> remote_id h = None" by code_simp
  then obtain h where h: "parse_header (take RECV_BUF_SIZE sample_hello) = Some h" "msg_type h = Hello"
    "version h = None \<or> version h = Some DASP_VERSION" "remote_id h = None" by (auto split: option.splits)
  have s: "transport_ok sample_server" "length (sessions sample_server) < MAX_SESSIONS" "outages (socket sample_server) = []"
    "sent (socket sample_server) = []"
    using transport_ok_new by (simp_all add: sample_server_def) (simp_all add: from_socket_def MAX_SESSIONS_def)
  from dasp_handshake [OF s(1-3) h(1-3), of "\<lambda>_. replicate 20 0" 3 "[9]" 7] h(4) s(4) show ?thesis by auto
qed

end
