(* ===== verification/Text.thy ===== *)
theory Text
  imports Floats
begin

text \<open>
  The parts of Rust's string library that configuration files go through: \<open>trim\<close>, \<open>lines\<close>, \<open>split\<close>,
  \<open>to_lowercase\<close>, \<open>parse::<f32>\<close> and \<open>parse::<f64>\<close>. A \<open>String\<close> is a list of characters; the first 256 code points are enough for the
  files of the program.
\<close>

definition is_whitespace :: "char \<Rightarrow> bool" where
  "is_whitespace c \<longleftrightarrow> (let n = of_char c :: nat in (9 \<le> n \<and> n \<le> 13) \<or> n = 32 \<or> n = 133 \<or> n = 160)"

definition trim :: "string \<Rightarrow> string" where
  "trim s = rev (dropWhile is_whitespace (rev (dropWhile is_whitespace s)))"

definition strip_cr :: "string \<Rightarrow> string" where
  "strip_cr s = (if s \<noteq> [] \<and> last s = CHR 0x0D then butlast s else s)"

text \<open>\<open>str::lines\<close>: split at line feeds, which a carriage return may precede; no empty line after the last one.\<close>

fun lines_from :: "string \<Rightarrow> string \<Rightarrow> string list" where
  "lines_from cur [] = (if cur = [] then [] else [cur])"
| "lines_from cur (c # cs) =
     (if c = CHR 0x0A then strip_cr cur # lines_from [] cs else lines_from (cur @ [c]) cs)"

definition lines :: "string \<Rightarrow> string list" where
  "lines s = lines_from [] s"

fun split_from :: "char \<Rightarrow> string \<Rightarrow> string \<Rightarrow> string list" where
  "split_from sep cur [] = [cur]"
| "split_from sep cur (c # cs) = (if c = sep then cur # split_from sep [] cs else split_from sep (cur @ [c]) cs)"

definition split_at :: "char \<Rightarrow> string \<Rightarrow> string list" where
  "split_at sep s = split_from sep [] s"

text \<open>Lower case of ASCII and of the letters from 192 to 222, of which 215 is no letter.\<close>

definition lower_char :: "char \<Rightarrow> char" where
  "lower_char c = (let n = of_char c :: nat in
     if (65 \<le> n \<and> n \<le> 90) \<or> (192 \<le> n \<and> n \<le> 222 \<and> n \<noteq> 215) then char_of (n + 32) else c)"

definition to_lowercase :: "string \<Rightarrow> string" where
  "to_lowercase s = map lower_char s"

section \<open>Decimal numbers\<close>

definition is_digit :: "char \<Rightarrow> bool" where
  "is_digit c \<longleftrightarrow> (let n = of_char c :: nat in 48 \<le> n \<and> n \<le> 57)"

definition digits_value :: "string \<Rightarrow> nat" where
  "digits_value s = foldl (\<lambda>v c. 10 * v + (of_char c - 48)) 0 s"

definition decimal_bits :: "ffmt \<Rightarrow> nat \<Rightarrow> int \<Rightarrow> nat" where
  "decimal_bits f n e = (if n = 0 then 0 else round_mag f (n * 10 ^ nat e) (10 ^ nat (- e)))"

text \<open>An exponent part: nothing, or \<open>e\<close> with an optional sign and at least one digit up to the end.\<close>

definition exponent_value :: "string \<Rightarrow> int option" where
  "exponent_value s = (case s of
      [] \<Rightarrow> Some 0
    | c # cs \<Rightarrow>
        if c \<noteq> CHR ''e'' \<and> c \<noteq> CHR ''E'' then None
        else let neg = (cs \<noteq> [] \<and> hd cs = CHR ''-'');
                 ds = (if cs \<noteq> [] \<and> (hd cs = CHR ''-'' \<or> hd cs = CHR ''+'') then tl cs else cs)
             in if ds = [] \<or> \<not> list_all is_digit ds then None
                else Some (if neg then - int (digits_value ds) else int (digits_value ds)))"

definition parse_magnitude :: "ffmt \<Rightarrow> string \<Rightarrow> nat option" where
  "parse_magnitude f s =
     (if to_lowercase s = ''inf'' \<or> to_lowercase s = ''infinity'' then Some (inf_bits f)
      else if to_lowercase s = ''nan'' then Some (nan_bits f)
      else
        let whole = takeWhile is_digit s; rest = dropWhile is_digit s;
            dot = (rest \<noteq> [] \<and> hd rest = CHR ''.'');
            part = (if dot then takeWhile is_digit (tl rest) else []);
            expo = (if dot then dropWhile is_digit (tl rest) else rest)
        in if whole = [] \<and> part = [] then None
           else map_option (\<lambda>e. decimal_bits f (digits_value (whole @ part)) (e - int (length part))) (exponent_value expo))"

definition parse_float :: "ffmt \<Rightarrow> string \<Rightarrow> nat option" where
  "parse_float f s =
     (let neg = (s \<noteq> [] \<and> hd s = CHR ''-'');
          body = (if s \<noteq> [] \<and> (hd s = CHR ''-'' \<or> hd s = CHR ''+'') then tl s else s)
      in map_option (pack f neg) (parse_magnitude f body))"

definition parse_f64 :: "string \<Rightarrow> f64 option" where
  "parse_f64 s = map_option of_nat (parse_float F64 s)"

definition parse_f32 :: "string \<Rightarrow> u32 option" where
  "parse_f32 s = map_option of_nat (parse_float F32 s)"

text \<open>The characters of a text that is given by its bytes; the parsers above accept ASCII only.\<close>

definition text_chars :: "u8 list \<Rightarrow> string" where
  "text_chars = map (\<lambda>b. char_of (unat b))"

text \<open>Known values.\<close>

lemma parse_examples:
  "parse_f64 ''12.5'' = Some (lit 125 10)" "parse_f64 ''-.5e1'' = Some (neg64 (lit 5 1))"
  "parse_f64 ''1e'' = None" "parse_f64 ''.'' = None" "parse_f64 '' 1'' = None" "parse_f64 ''-Inf'' = Some (neg64 0x7FF0000000000000)"
  "parse_f32 ''0.1'' = Some 0x3DCCCCCD"
  by code_simp+

lemma text_examples:
  "lines (''a'' @ [CHR 0x0D, CHR 0x0A] @ ''b'' @ [CHR 0x0A]) = [''a'', ''b'']"
  "split_at CHR '','' ''x,,y'' = [''x'', '''', ''y'']" "trim '' k '' = ''k''" "to_lowercase ''KelviN'' = ''kelvin''"
  by code_simp+

end
