(* ===== verification/Engine_Base.thy ===== *)
theory Engine_Base
  imports Text
begin

text \<open>
  The vocabulary of the engine (\<open>sandstar-engine/src/lib.rs\<close>, \<open>error.rs\<close>) and the errors of the hardware
  abstraction (\<open>sandstar-hal/src/lib.rs\<close>). The text of an operating system error is a parameter of
  the error value.
\<close>

type_synonym channel_id = u32

datatype hal_error =
  DeviceError u32 u32 string
| HalIo string
| BusError u32 string
| HalTimeout u32 u32

datatype engine_error =
  ChannelNotFound u32
| ChannelCapacityExceeded
| TableNotFound string
| TableCapacityExceeded
| ConversionFault u32 string
| HalFailure hal_error
| WriteNotSupported u32
| InvalidWriteLevel u8
| EngineIo string
| PollCapacityExceeded
| DuplicateChannel u32
| DuplicateTable string
| InvalidTableFile string

datatype engine_status = StatusOk | Unknown | Stale | Disabled | Fault | Down

definition status_as_str :: "engine_status \<Rightarrow> string" where
  "status_as_str s = (case s of StatusOk \<Rightarrow> ''Ok'' | Unknown \<Rightarrow> ''Unknown'' | Stale \<Rightarrow> ''Stale''
     | Disabled \<Rightarrow> ''Disabled'' | Fault \<Rightarrow> ''Fault'' | Down \<Rightarrow> ''Down'')"

text \<open>\<open>ValueFlags\<close>: one bit for the raw and one for the converted value.\<close>

definition FLAG_RAW :: u8 where "FLAG_RAW = 0x01"
definition FLAG_CUR :: u8 where "FLAG_CUR = 0x02"

definition has_flag :: "u8 \<Rightarrow> u8 \<Rightarrow> bool" where
  "has_flag flags f \<longleftrightarrow> flags AND f = f"

record engine_value =
  status :: engine_status
  raw :: f64
  cur :: f64
  flags :: u8
  trigger :: bool

definition default_value :: engine_value where
  "default_value = \<lparr>status = Unknown, raw = 0, cur = 0, flags = 0, trigger = False\<rparr>"

definition with_status :: "engine_status \<Rightarrow> engine_value" where
  "with_status s = default_value\<lparr>status := s\<rparr>"

definition set_raw :: "f64 \<Rightarrow> engine_value \<Rightarrow> engine_value" where
  "set_raw v ev = ev\<lparr>raw := v, flags := FLAG_RAW, trigger := False\<rparr>"

definition set_cur :: "f64 \<Rightarrow> engine_value \<Rightarrow> engine_value" where
  "set_cur v ev = ev\<lparr>cur := v, flags := FLAG_CUR, trigger := False\<rparr>"

definition values_equal :: "engine_value \<Rightarrow> engine_value \<Rightarrow> bool" where
  "values_equal a b \<longleftrightarrow> status a = status b \<and> eq64 (cur a) (cur b)"

text \<open>A value is equal to itself unless it is NaN.\<close>

lemma values_equal_refl: "values_equal v v \<longleftrightarrow> \<not> nan64 (cur v)"
  by (cases "nan64 (cur v)") (auto simp: values_equal_def eq64_key)

lemma flag_tests [simp]:
  "has_flag FLAG_CUR FLAG_CUR" "\<not> has_flag FLAG_CUR FLAG_RAW" "has_flag FLAG_RAW FLAG_RAW" "\<not> has_flag FLAG_RAW FLAG_CUR"
  "FLAG_CUR \<noteq> 0"
  by (simp_all add: has_flag_def FLAG_RAW_def FLAG_CUR_def)

end
