(* ===== verification/Engine_Tables.thy ===== *)
theory Engine_Tables
  imports Engine_Base
begin

text \<open>
  Sensor lookup tables (\<open>sandstar-engine/src/table.rs\<close>): loading from configuration and data files,
  the slots of the store, conversion by binary search and linear interpolation, and the reverse conversion.
  Files are a parameter: a function from paths to their text or to the text of the error. The binary search is compared
  with a count over the whole table.
\<close>

section \<open>Tables and their store\<close>

datatype table_direction = Increasing | Decreasing

record table_ranges =
  fahrenheit :: "f64 \<times> f64"
  celsius :: "f64 \<times> f64"
  kelvin :: "f64 \<times> f64"

definition default_ranges :: table_ranges where
  "default_ranges = \<lparr>fahrenheit = (0, 0), celsius = (0, 0), kelvin = (0, 0)\<rparr>"

record table_item =
  table_tag :: string
  unit_type :: string
  table_path :: string
  values_of :: "f64 list"
  direction :: table_direction
  ranges :: table_ranges

definition first_value :: "table_item \<Rightarrow> f64 option" where
  "first_value t = (if values_of t = [] then None else Some (hd (values_of t)))"

definition last_value :: "table_item \<Rightarrow> f64 option" where
  "last_value t = (if values_of t = [] then None else Some (last (values_of t)))"

definition low_value :: "table_item \<Rightarrow> f64 option" where
  "low_value t = (case direction t of Increasing \<Rightarrow> first_value t | Decreasing \<Rightarrow> last_value t)"

definition high_value :: "table_item \<Rightarrow> f64 option" where
  "high_value t = (case direction t of Increasing \<Rightarrow> last_value t | Decreasing \<Rightarrow> first_value t)"

type_synonym table_store = "table_item option list"
type_synonym files = "string \<Rightarrow> string + string"

fun position :: "('a \<Rightarrow> bool) \<Rightarrow> 'a list \<Rightarrow> nat option" where
  "position p [] = None"
| "position p (x # xs) = (if p x then Some 0 else map_option Suc (position p xs))"

definition find_by_tag :: "table_store \<Rightarrow> string \<Rightarrow> usize option" where
  "find_by_tag ts tg = position (\<lambda>slot. case slot of Some t \<Rightarrow> table_tag t = tg | None \<Rightarrow> False) ts"

definition find_by_tag_and_unit :: "table_store \<Rightarrow> string \<Rightarrow> string \<Rightarrow> usize option" where
  "find_by_tag_and_unit ts tg u =
     position (\<lambda>slot. case slot of Some t \<Rightarrow> table_tag t = tg \<and> unit_type t = u | None \<Rightarrow> False) ts"

definition table_get :: "table_store \<Rightarrow> usize \<Rightarrow> table_item option" where
  "table_get ts i = (if i < length ts then ts ! i else None)"

definition table_count :: "table_store \<Rightarrow> usize" where
  "table_count ts = length (filter (\<lambda>s. s \<noteq> None) ts)"

definition table_remove :: "usize \<Rightarrow> table_store \<Rightarrow> table_store" where
  "table_remove i ts = (if i < length ts then ts[i := None] else ts)"

definition table_clear :: "table_store \<Rightarrow> table_store" where
  "table_clear ts = map (\<lambda>_. None) ts"

text \<open>The first empty slot takes the item, or a new one at the end.\<close>

fun put_slot :: "table_item \<Rightarrow> table_store \<Rightarrow> table_store" where
  "put_slot t [] = [Some t]"
| "put_slot t (None # ts) = Some t # ts"
| "put_slot t (Some s # ts) = Some s # put_slot t ts"

section \<open>Loading\<close>

definition load_values :: "files \<Rightarrow> string \<Rightarrow> (engine_error, f64 list) outcome" where
  "load_values fs p = (case fs p of
      Inl e \<Rightarrow> Err (InvalidTableFile (''cannot read '' @ p @ '': '' @ e))
    | Inr content \<Rightarrow>
        let vs = List.map_filter (\<lambda>l. if trim l = [] then None else parse_f64 (trim l)) (lines content)
        in if vs = [] then Err (InvalidTableFile (''no numeric values found in '' @ p)) else Ok vs)"

definition direction_of :: "f64 list \<Rightarrow> table_direction" where
  "direction_of vs = (if lt64 (hd vs) (last vs) then Increasing else Decreasing)"

definition table_add :: "files \<Rightarrow> string \<Rightarrow> string \<Rightarrow> string \<Rightarrow> table_ranges \<Rightarrow> (table_store, engine_error, unit) routine" where
  "table_add fs tg u p rs ts =
     (if find_by_tag_and_unit ts tg u \<noteq> None then (Ok (), ts)
      else case load_values fs p of
        Err e \<Rightarrow> (Err e, ts)
      | Panic \<Rightarrow> (Panic, ts)
      | Ok vs \<Rightarrow>
          if vs = [] then (Err (InvalidTableFile (''no values in '' @ p)), ts)
          else (Ok (), put_slot \<lparr>table_tag = tg, unit_type = u, table_path = p, values_of = vs,
                                 direction = direction_of vs, ranges = rs\<rparr> ts))"

definition add_with_values :: "string \<Rightarrow> string \<Rightarrow> f64 list \<Rightarrow> table_ranges \<Rightarrow> (table_store, engine_error, unit) routine" where
  "add_with_values tg u vs rs ts =
     (if vs = [] then (Err (InvalidTableFile ''empty values''), ts)
      else (Ok (), put_slot \<lparr>table_tag = tg, unit_type = u, table_path = [], values_of = vs,
                             direction = direction_of vs, ranges = rs\<rparr> ts))"

definition field_f64 :: "string list \<Rightarrow> nat \<Rightarrow> f64" where
  "field_f64 cols i =
     (if i < length cols then (case parse_f64 (trim (cols ! i)) of Some v \<Rightarrow> v | None \<Rightarrow> 0) else 0)"

definition load_line :: "files \<Rightarrow> string \<Rightarrow> (table_store, engine_error, unit) routine" where
  "load_line fs line0 =
     (let line = trim line0; cols = split_at CHR '','' line in
      if line = [] \<or> hd line = CHR ''#'' then ret ()
      else if length cols < 3 then ret ()
      else table_add fs (trim (cols ! 0)) (trim (cols ! 1)) (trim (cols ! 2))
             \<lparr>fahrenheit = (field_f64 cols 3, field_f64 cols 4),
              celsius = (field_f64 cols 5, field_f64 cols 6),
              kelvin = (field_f64 cols 7, field_f64 cols 8)\<rparr>)"

definition load_from_csv :: "files \<Rightarrow> string \<Rightarrow> (table_store, engine_error, unit) routine" where
  "load_from_csv fs csv_path = (case fs csv_path of
      Inl e \<Rightarrow> raise (EngineIo e)
    | Inr content \<Rightarrow> forM (lines content) (load_line fs))"

section \<open>Conversion\<close>

definition lerp :: "f64 \<Rightarrow> f64 \<Rightarrow> f64 \<Rightarrow> f64" where
  "lerp a b f = add64 (mul64 a (sub64 (lit 1 1) f)) (mul64 b f)"

text \<open>The loop of both binary searches; \<open>p\<close> tells whether to continue in the upper half.\<close>

function bisect :: "(f64 \<Rightarrow> bool) \<Rightarrow> f64 list \<Rightarrow> nat \<Rightarrow> nat \<Rightarrow> nat" where
  "bisect p vs lo hi =
     (if hi - lo > 1
      then let mid = lo + (hi - lo) div 2 in if p (vs ! mid) then bisect p vs mid hi else bisect p vs lo mid
      else lo)"
  by pat_completeness auto
termination by (relation "measure (\<lambda>(p, vs, lo, hi). hi - lo)") (auto simp: Let_def)

declare bisect.simps [simp del]

definition binary_search_increasing :: "f64 list \<Rightarrow> f64 \<Rightarrow> usize" where
  "binary_search_increasing vs x = bisect (\<lambda>v. le64 v x) vs 0 (length vs - 1)"

definition binary_search_decreasing :: "f64 list \<Rightarrow> f64 \<Rightarrow> usize" where
  "binary_search_decreasing vs x = bisect (\<lambda>v. le64 x v) vs 0 (length vs - 1)"

definition unit_step :: "f64 list \<Rightarrow> f64 \<Rightarrow> f64 \<Rightarrow> f64" where
  "unit_step vs lo hi = div64 (sub64 hi lo) (sub64 (f64_of_int (int (length vs))) (lit 1 1))"

text \<open>The engineering value at a table position.\<close>

definition position_value :: "f64 list \<Rightarrow> f64 \<Rightarrow> f64 \<Rightarrow> nat \<Rightarrow> f64" where
  "position_value vs lo hi pos = add64 lo (mul64 (f64_of_int (int pos)) (unit_step vs lo hi))"

definition interpolate_increasing :: "f64 list \<Rightarrow> f64 \<Rightarrow> f64 \<Rightarrow> f64 \<Rightarrow> nat \<Rightarrow> f64" where
  "interpolate_increasing vs x lo hi pos =
     (let r1 = vs ! pos; r2 = vs ! (pos + 1); c1 = position_value vs lo hi pos; c2 = add64 c1 (unit_step vs lo hi)
      in lerp c1 c2 (div64 (sub64 x r1) (sub64 r2 r1)))"

definition interpolate_decreasing :: "f64 list \<Rightarrow> f64 \<Rightarrow> f64 \<Rightarrow> f64 \<Rightarrow> nat \<Rightarrow> f64" where
  "interpolate_decreasing vs x lo hi pos =
     (let r1 = vs ! pos; r2 = vs ! (pos + 1); c1 = position_value vs lo hi pos; c2 = add64 c1 (unit_step vs lo hi)
      in lerp c2 c1 (div64 (sub64 x r2) (sub64 r1 r2)))"

definition lookup :: "table_store \<Rightarrow> usize \<Rightarrow> f64 \<Rightarrow> f64 \<Rightarrow> f64 \<Rightarrow> f64 option" where
  "lookup ts index x lo hi = (case table_get ts index of
      None \<Rightarrow> None
    | Some item \<Rightarrow>
        let vs = values_of item; n = length vs in
        if n < 2 then None
        else case direction item of
          Increasing \<Rightarrow>
            if le64 x (vs ! 0) then Some lo
            else if le64 (vs ! (n - 1)) x then Some hi
            else Some (interpolate_increasing vs x lo hi (binary_search_increasing vs x))
        | Decreasing \<Rightarrow>
            if le64 (vs ! 0) x then Some lo
            else if le64 x (vs ! (n - 1)) then Some hi
            else Some (interpolate_decreasing vs x lo hi (binary_search_decreasing vs x)))"

text \<open>The linear scan of the reverse conversion, from position \<open>n\<close> on with \<open>k\<close> intervals left.\<close>

fun reverse_scan :: "f64 list \<Rightarrow> f64 \<Rightarrow> f64 \<Rightarrow> f64 \<Rightarrow> nat \<Rightarrow> nat \<Rightarrow> f64 option" where
  "reverse_scan vs x lo hi n 0 = None"
| "reverse_scan vs x lo hi n (Suc k) =
     (let c1 = position_value vs lo hi n; c2 = add64 c1 (unit_step vs lo hi)
      in if le64 c1 x \<and> le64 x c2
         then let frac = div64 (sub64 x c1) (sub64 c2 c1)
              in Some (f64_of_int (sint (f64_to_i64 (lerp (vs ! n) (vs ! (n + 1)) frac))))
         else reverse_scan vs x lo hi (n + 1) k)"

definition reverse_lookup :: "table_store \<Rightarrow> usize \<Rightarrow> f64 \<Rightarrow> f64 \<Rightarrow> f64 \<Rightarrow> f64 option" where
  "reverse_lookup ts index x lo hi = (case table_get ts index of
      None \<Rightarrow> None
    | Some item \<Rightarrow>
        let vs = values_of item; n = length vs in
        if n < 2 then None
        else if le64 x lo then Some (vs ! 0)
        else if le64 hi x then Some (vs ! (n - 1))
        else reverse_scan vs x lo hi 0 (n - 1))"

section \<open>The search finds the interval\<close>

lemma bisect_bracket:
  "lo < hi \<Longrightarrow> p (vs ! lo) \<Longrightarrow> \<not> p (vs ! hi) \<Longrightarrow>
   lo \<le> bisect p vs lo hi \<and> bisect p vs lo hi < hi \<and> p (vs ! bisect p vs lo hi) \<and> \<not> p (vs ! (bisect p vs lo hi + 1))"
proof (induction p vs lo hi rule: bisect.induct)
  case (1 p vs lo hi)
  define mid where "mid = lo + (hi - lo) div 2"
  show ?case
  proof (cases "hi - lo > 1")
    case True
    then have mid: "lo < mid" "mid < hi" by (auto simp: mid_def)
    have eq: "bisect p vs lo hi = (if p (vs ! mid) then bisect p vs mid hi else bisect p vs lo mid)"
      using True by (simp add: bisect.simps [of p vs lo hi] mid_def Let_def)
    show ?thesis using 1 True mid unfolding eq by (cases "p (vs ! mid)") (auto simp: mid_def)
  next
    case False
    with "1.prems" have "hi = Suc lo" by simp
    with "1.prems" show ?thesis by (simp add: bisect.simps)
  qed
qed

text \<open>Where the predicate holds on a prefix of the table only, the interval is found by counting.\<close>

lemma count_prefix:
  assumes "pos + 1 < length vs" "\<And>i. i \<le> pos \<Longrightarrow> p (vs ! i)" "\<And>i. pos < i \<Longrightarrow> i < length vs \<Longrightarrow> \<not> p (vs ! i)"
  shows "length (filter p vs) = pos + 1"
proof -
  have "filter p vs = filter p (take (pos + 1) vs @ drop (pos + 1) vs)" by simp
  also have "\<dots> = filter p (take (pos + 1) vs) @ filter p (drop (pos + 1) vs)" by (rule filter_append)
  also have "filter p (take (pos + 1) vs) = take (pos + 1) vs"
    using assms(1,2) by (auto simp: filter_id_conv in_set_conv_nth)
  also have "filter p (drop (pos + 1) vs) = []"
    using assms(3) by (auto simp: filter_empty_conv in_set_conv_nth)
  finally show ?thesis using assms(1) by simp
qed

lemma bisect_count:
  assumes "1 < length vs" "p (vs ! 0)" "\<not> p (vs ! (length vs - 1))"
    and mono: "\<And>i j. i \<le> j \<Longrightarrow> j < length vs \<Longrightarrow> p (vs ! j) \<Longrightarrow> p (vs ! i)"
  shows "bisect p vs 0 (length vs - 1) + 1 = length (filter p vs)"
proof -
  let ?pos = "bisect p vs 0 (length vs - 1)"
  have pos: "?pos < length vs - 1" "p (vs ! ?pos)" "\<not> p (vs ! (?pos + 1))"
    using bisect_bracket [of 0 "length vs - 1" p vs] assms by simp_all
  have "p (vs ! i)" if "i \<le> ?pos" for i using mono [OF that] pos by simp
  moreover have "\<not> p (vs ! i)" if "?pos < i" "i < length vs" for i using mono [of "?pos + 1" i] pos that by auto
  ultimately show ?thesis using count_prefix [of ?pos vs p] pos by simp
qed

section \<open>Lookup against the intervals of the table\<close>

text \<open>The interval of a table that contains a reading, in either direction.\<close>

definition bracket :: "table_direction \<Rightarrow> f64 list \<Rightarrow> f64 \<Rightarrow> nat \<Rightarrow> bool" where
  "bracket d vs x pos \<longleftrightarrow> pos + 1 < length vs \<and>
     (case d of Increasing \<Rightarrow> le64 (vs ! pos) x \<and> lt64 x (vs ! (pos + 1))
              | Decreasing \<Rightarrow> le64 x (vs ! pos) \<and> lt64 (vs ! (pos + 1)) x)"

definition interpolate :: "table_direction \<Rightarrow> f64 list \<Rightarrow> f64 \<Rightarrow> f64 \<Rightarrow> f64 \<Rightarrow> nat \<Rightarrow> f64" where
  "interpolate d = (case d of Increasing \<Rightarrow> interpolate_increasing | Decreasing \<Rightarrow> interpolate_decreasing)"

text \<open>A table whose values are numbers that run in its direction.\<close>

definition monotone_table :: "table_direction \<Rightarrow> f64 list \<Rightarrow> bool" where
  "monotone_table d vs \<longleftrightarrow> (\<forall>v\<in>set vs. \<not> nan64 v) \<and>
     (case d of Increasing \<Rightarrow> sorted (map key64 vs) | Decreasing \<Rightarrow> sorted (rev (map key64 vs)))"

lemma monotone_nth:
  assumes "monotone_table d vs" "i \<le> j" "j < length vs"
  shows "case d of Increasing \<Rightarrow> key64 (vs ! i) \<le> key64 (vs ! j) | Decreasing \<Rightarrow> key64 (vs ! j) \<le> key64 (vs ! i)"
proof (cases d)
  case Increasing
  with assms show ?thesis
    using sorted_nth_mono [of "map key64 vs" i j] by (simp add: monotone_table_def)
next
  case Decreasing
  with assms have "sorted_wrt (\<ge>) (map key64 vs)" by (simp add: monotone_table_def sorted_wrt_rev)
  with assms Decreasing show ?thesis
    by (cases "i = j") (auto simp: sorted_wrt_iff_nth_less)
qed

lemma bracket_unique:
  assumes "monotone_table d vs" "\<not> nan64 x" "bracket d vs x i" "bracket d vs x j"
  shows "i = j"
proof -
  have num: "k < length vs \<Longrightarrow> \<not> nan64 (vs ! k)" for k using assms(1) by (simp add: monotone_table_def)
  have False if "bracket d vs x i" "bracket d vs x j" "i < j" for i j
  proof -
    have len: "j + 1 < length vs" using that by (simp add: bracket_def)
    show False
      using that monotone_nth [OF assms(1), of "i + 1" j] len num [of i] num [of j] num [of "i + 1"] num [of "j + 1"] assms(2)
      by (cases d) (auto simp: bracket_def le64_key lt64_key)
  qed
  then show ?thesis using assms(3,4) nat_neq_iff by blast
qed

lemma search_bracket:
  assumes vs: "monotone_table d vs" "1 < length vs" and x: "\<not> nan64 x"
  shows "d = Increasing \<Longrightarrow> \<not> le64 x (vs ! 0) \<Longrightarrow> \<not> le64 (vs ! (length vs - 1)) x \<Longrightarrow>
           bracket d vs x (binary_search_increasing vs x)"
    and "d = Decreasing \<Longrightarrow> \<not> le64 (vs ! 0) x \<Longrightarrow> \<not> le64 x (vs ! (length vs - 1)) \<Longrightarrow>
           bracket d vs x (binary_search_decreasing vs x)"
proof -
  have num: "k < length vs \<Longrightarrow> \<not> nan64 (vs ! k)" for k using vs(1) by (simp add: monotone_table_def)
  have num0: "\<not> nan64 (vs ! 0)" by (rule num) (use vs(2) in linarith)
  show "bracket d vs x (binary_search_increasing vs x)"
    if "d = Increasing" "\<not> le64 x (vs ! 0)" "\<not> le64 (vs ! (length vs - 1)) x"
  proof -
    have "le64 (vs ! 0) x" using that(2) num0 x by (simp add: le64_key)
    from bisect_bracket [of 0 "length vs - 1" "\<lambda>v. le64 v x" vs, OF _ this that(3)] vs(2) num x that(1)
    show ?thesis by (auto simp: bracket_def binary_search_increasing_def not_le64)
  qed
  show "bracket d vs x (binary_search_decreasing vs x)"
    if "d = Decreasing" "\<not> le64 (vs ! 0) x" "\<not> le64 x (vs ! (length vs - 1))"
  proof -
    have "le64 x (vs ! 0)" using that(2) num0 x by (simp add: le64_key)
    from bisect_bracket [of 0 "length vs - 1" "\<lambda>v. le64 x v" vs, OF _ this that(3)] vs(2) num x that(1)
    show ?thesis by (auto simp: bracket_def binary_search_decreasing_def not_le64)
  qed
qed

text \<open>The low and the high end of a table in its direction.\<close>

definition below_first :: "table_direction \<Rightarrow> f64 list \<Rightarrow> f64 \<Rightarrow> bool" where
  "below_first d vs x = (case d of Increasing \<Rightarrow> le64 x (vs ! 0) | Decreasing \<Rightarrow> le64 (vs ! 0) x)"

definition beyond_last :: "table_direction \<Rightarrow> f64 list \<Rightarrow> f64 \<Rightarrow> bool" where
  "beyond_last d vs x = (case d of Increasing \<Rightarrow> le64 (vs ! (length vs - 1)) x | Decreasing \<Rightarrow> le64 x (vs ! (length vs - 1)))"

lemma table_lookup_interval_cases:
  assumes "table_get ts index = Some item" "monotone_table (direction item) (values_of item)" "\<not> nan64 x"
  defines "d \<equiv> direction item" and "vs \<equiv> values_of item"
  shows "length vs < 2 \<Longrightarrow> lookup ts index x lo hi = None"
    and "2 \<le> length vs \<Longrightarrow> below_first d vs x \<Longrightarrow> lookup ts index x lo hi = Some lo"
    and "2 \<le> length vs \<Longrightarrow> \<not> below_first d vs x \<Longrightarrow> beyond_last d vs x \<Longrightarrow> lookup ts index x lo hi = Some hi"
    and "2 \<le> length vs \<Longrightarrow> \<not> below_first d vs x \<Longrightarrow> \<not> beyond_last d vs x \<Longrightarrow>
      (\<exists>!pos. bracket d vs x pos) \<and> (\<forall>pos. bracket d vs x pos \<longrightarrow> lookup ts index x lo hi = Some (interpolate d vs x lo hi pos))"
proof -
  note simps = lookup_def assms(1) d_def [symmetric] vs_def [symmetric] below_first_def beyond_last_def
  show "length vs < 2 \<Longrightarrow> lookup ts index x lo hi = None" by (simp add: simps)
  show "2 \<le> length vs \<Longrightarrow> below_first d vs x \<Longrightarrow> lookup ts index x lo hi = Some lo"
    by (cases d) (simp_all add: simps)
  show "2 \<le> length vs \<Longrightarrow> \<not> below_first d vs x \<Longrightarrow> beyond_last d vs x \<Longrightarrow> lookup ts index x lo hi = Some hi"
    by (cases d) (simp_all add: simps)
  assume inside: "2 \<le> length vs" "\<not> below_first d vs x" "\<not> beyond_last d vs x"
  have vs: "monotone_table d vs" using assms(2) by (simp add: d_def vs_def)
  obtain pos where pos: "bracket d vs x pos" "lookup ts index x lo hi = Some (interpolate d vs x lo hi pos)"
    using search_bracket [OF vs _ assms(3)] inside
    by (cases d) (auto simp: simps interpolate_def)
  with bracket_unique [OF vs assms(3)]
  show "(\<exists>!pos. bracket d vs x pos) \<and> (\<forall>pos. bracket d vs x pos \<longrightarrow> lookup ts index x lo hi = Some (interpolate d vs x lo hi pos))"
    by metis
qed

text \<open>C39. Table lookup is interpolation in the interval that contains the reading: for a loaded table whose values run in
  its direction, a reading at or before the first value gives the lower limit, one at or past the last value the upper limit,
  and every other reading lies in exactly one interval of the table, which the binary search finds and interpolates in.
  A missing table and one with fewer than two values give no value.\<close>

theorem table_lookup_interval:
  assumes "table_get ts index = Some item" "monotone_table (direction item) (values_of item)" "\<not> nan64 x"
  defines "d \<equiv> direction item" and "vs \<equiv> values_of item"
  shows "(length vs < 2 \<longrightarrow>
      lookup ts index x lo hi = None) \<and>
    (2 \<le> length vs \<and> below_first d vs x \<longrightarrow>
      lookup ts index x lo hi = Some lo) \<and>
    (2 \<le> length vs \<and> \<not> below_first d vs x \<and> beyond_last d vs x \<longrightarrow>
      lookup ts index x lo hi = Some hi) \<and>
    (2 \<le> length vs \<and> \<not> below_first d vs x \<and> \<not> beyond_last d vs x \<longrightarrow>
      (\<exists>!pos. bracket d vs x pos) \<and> (\<forall>pos. bracket d vs x pos \<longrightarrow> lookup ts index x lo hi = Some (interpolate d vs x lo hi pos)))"
  unfolding d_def vs_def using table_lookup_interval_cases [OF assms(1-3)] by blast

definition sample_table :: table_item where
  "sample_table = \<lparr>table_tag = ''t'', unit_type = ''C'', table_path = [], values_of = [lit 90 1, lit 50 1, lit 10 1],
     direction = Decreasing, ranges = default_ranges\<rparr>"

theorem table_lookup_interval_witness:
  "lookup [Some sample_table] 0 (lit 30 1) 0 (lit 100 1) =
     Some (interpolate_decreasing [lit 90 1, lit 50 1, lit 10 1] (lit 30 1) 0 (lit 100 1) 1) \<and>
   lookup [Some sample_table] 0 (lit 95 1) 0 (lit 100 1) = Some 0"
proof -
  let ?vs = "[lit 90 1, lit 50 1, lit 10 1]"
  have g: "table_get [Some sample_table] 0 = Some sample_table" by (simp add: table_get_def)
  have s: "direction sample_table = Decreasing" "values_of sample_table = ?vs" by (simp_all add: sample_table_def)
  have m: "monotone_table (direction sample_table) (values_of sample_table)"
    by (simp add: s monotone_table_def key64_def float_eval)
  have n: "\<not> nan64 (lit 30 1)" "\<not> nan64 (lit 95 1)" by (simp_all add: float_eval)
  have "bracket Decreasing ?vs (lit 30 1) 1" "\<not> below_first Decreasing ?vs (lit 30 1)"
    "\<not> beyond_last Decreasing ?vs (lit 30 1)" "below_first Decreasing ?vs (lit 95 1)"
    by (simp_all add: bracket_def below_first_def beyond_last_def float_eval)
  then show ?thesis
    using table_lookup_interval [OF g m n(1), of 0 "lit 100 1"] table_lookup_interval [OF g m n(2), of 0 "lit 100 1"]
    by (simp add: s interpolate_def)
qed

section \<open>Loading keeps the tables that are there\<close>

definition tables_extend :: "table_store \<Rightarrow> table_store \<Rightarrow> bool" where
  "tables_extend ts ts' \<longleftrightarrow> (\<forall>i t. table_get ts i = Some t \<longrightarrow> table_get ts' i = Some t)"

lemma tables_extend_refl: "tables_extend ts ts"
  by (simp add: tables_extend_def)

lemma tables_extend_trans: "tables_extend ts us \<Longrightarrow> tables_extend us vs \<Longrightarrow> tables_extend ts vs"
  by (simp add: tables_extend_def)

lemma table_get_Nil [simp]: "table_get [] i = None"
  by (simp add: table_get_def)

lemma table_get_Cons [simp]: "table_get (s # ts) i = (case i of 0 \<Rightarrow> s | Suc j \<Rightarrow> table_get ts j)"
  by (simp add: table_get_def split: nat.splits)

lemma put_slot_get: "table_get ts i = Some t \<Longrightarrow> table_get (put_slot s ts) i = Some t"
  by (induction s ts arbitrary: i rule: put_slot.induct) (auto split: nat.splits)

lemma position_find:
  "position (\<lambda>slot. case slot of Some t \<Rightarrow> p t | None \<Rightarrow> False) ts = Some i \<Longrightarrow> \<exists>t. table_get ts i = Some t \<and> p t"
  "position (\<lambda>slot. case slot of Some t \<Rightarrow> p t | None \<Rightarrow> False) ts = None \<Longrightarrow> table_get ts j = Some t \<Longrightarrow> \<not> p t"
  by (induction ts arbitrary: i j) (auto split: option.splits if_splits nat.splits)

text \<open>A table with the tag and the unit is in the store.\<close>

definition loaded :: "table_store \<Rightarrow> string \<Rightarrow> string \<Rightarrow> bool" where
  "loaded ts tg u \<longleftrightarrow> (\<exists>i t. table_get ts i = Some t \<and> table_tag t = tg \<and> unit_type t = u)"

lemma find_by_tag_and_unit_iff: "find_by_tag_and_unit ts tg u \<noteq> None \<longleftrightarrow> loaded ts tg u"
  using position_find [where ts = ts and p = "\<lambda>t. table_tag t = tg \<and> unit_type t = u"]
  by (fastforce simp: find_by_tag_and_unit_def loaded_def)

lemma put_slot_loaded: "loaded (put_slot t ts) (table_tag t) (unit_type t)"
proof -
  have "\<exists>i. table_get (put_slot t ts) i = Some t"
  proof (induction t ts rule: put_slot.induct)
    case (3 t s ts)
    then obtain i where "table_get (put_slot t ts) i = Some t" by blast
    then show ?case by (intro exI [of _ "Suc i"]) simp
  qed (auto intro: exI [of _ 0])
  then show ?thesis by (auto simp: loaded_def)
qed

lemma loaded_extend: "tables_extend ts ts' \<Longrightarrow> loaded ts tg u \<Longrightarrow> loaded ts' tg u"
  by (auto simp: tables_extend_def loaded_def)

lemma table_add_extend: "tables_extend ts (snd (table_add fs tg u p rs ts))"
  by (auto simp: table_add_def tables_extend_def put_slot_get split: outcome.splits)

lemma table_add_loaded:
  assumes "table_add fs tg u p rs ts = (Ok (), ts')"
  shows "loaded ts' tg u"
proof (cases "find_by_tag_and_unit ts tg u = None")
  case True
  with assms obtain t where "ts' = put_slot t ts" "table_tag t = tg" "unit_type t = u"
    by (auto simp: table_add_def split: outcome.splits if_splits)
  then show ?thesis using put_slot_loaded [of t ts] by simp
next
  case False
  with assms find_by_tag_and_unit_iff [of ts tg u] show ?thesis by (simp add: table_add_def)
qed

text \<open>The tag and the unit of a line of the configuration, if it names a table.\<close>

definition line_key :: "string \<Rightarrow> (string \<times> string) option" where
  "line_key line0 = (let line = trim line0; cols = split_at CHR '','' line in
     if line = [] \<or> hd line = CHR ''#'' \<or> length cols < 3 then None else Some (trim (cols ! 0), trim (cols ! 1)))"

lemma load_line_extend: "tables_extend ts (snd (load_line fs l ts))"
  by (simp add: load_line_def Let_def ret_def tables_extend_refl table_add_extend)

lemma load_line_loaded: "load_line fs l ts = (Ok (), ts') \<Longrightarrow> line_key l = Some (tg, u) \<Longrightarrow> loaded ts' tg u"
  by (auto simp: load_line_def line_key_def Let_def table_add_loaded split: if_splits)

lemma load_lines_extend: "tables_extend ts (snd (forM ls (load_line fs) ts))"
proof (induction ls arbitrary: ts)
  case (Cons l ls)
  show ?case
  proof (cases "load_line fs l ts")
    case (Pair r us)
    have "tables_extend ts us" using load_line_extend [of ts fs l] Pair by simp
    then show ?thesis using Cons [of us] tables_extend_trans Pair
      by (cases r) (auto simp: monad_defs)
  qed
qed (simp add: ret_def tables_extend_refl)

lemma load_lines_loaded:
  "forM ls (load_line fs) ts = (Ok (), ts') \<Longrightarrow> l \<in> set ls \<Longrightarrow> line_key l = Some (tg, u) \<Longrightarrow> loaded ts' tg u"
proof (induction ls arbitrary: ts)
  case (Cons k ls)
  from Cons.prems(1) obtain us where us: "load_line fs k ts = (Ok (), us)" "forM ls (load_line fs) us = (Ok (), ts')"
    by (auto simp: sq_def bnd_eq_Ok)
  show ?case
  proof (cases "l = k")
    case True
    then have "loaded us tg u" using us(1) Cons.prems(3) load_line_loaded by simp
    then show ?thesis using load_lines_extend [of us ls fs] us(2) loaded_extend by simp
  qed (use Cons us in auto)
qed simp

lemma csv_load_keeps_tables_cases:
  assumes "load_from_csv fs csv_path ts = (r, ts')"
  shows "table_get ts i = Some t \<Longrightarrow> table_get ts' i = Some t"
    and "r = Ok () \<Longrightarrow> fs csv_path = Inr content \<Longrightarrow> l \<in> set (lines content) \<Longrightarrow> line_key l = Some (tg, u) \<Longrightarrow>
      (\<exists>j. find_by_tag_and_unit ts' tg u = Some j)"
proof -
  have "tables_extend ts ts'"
    using assms load_lines_extend [of ts _ fs] tables_extend_refl
    by (auto simp: load_from_csv_def raise_def split: sum.splits) (metis snd_conv)
  then show "table_get ts i = Some t \<Longrightarrow> table_get ts' i = Some t" by (simp add: tables_extend_def)
  assume "r = Ok ()" "fs csv_path = Inr content" "l \<in> set (lines content)" "line_key l = Some (tg, u)"
  then show "\<exists>j. find_by_tag_and_unit ts' tg u = Some j"
    using assms load_lines_loaded [of "lines content" fs ts ts' l tg u] find_by_tag_and_unit_iff [of ts' tg u]
    by (auto simp: load_from_csv_def)
qed

text \<open>Loading a table configuration never moves, changes or removes a table that is already there, whether it
  succeeds or stops with an error, so that the table indices which channels hold stay valid. When it succeeds, every line that names a table
  has one in the store with its tag and unit.\<close>

theorem csv_load_keeps_tables:
  assumes "load_from_csv fs csv_path ts = (r, ts')"
  shows "(table_get ts i = Some t \<longrightarrow>
      table_get ts' i = Some t) \<and>
    (r = Ok () \<and> fs csv_path = Inr content \<and> l \<in> set (lines content) \<and> line_key l = Some (tg, u) \<longrightarrow>
      (\<exists>j. find_by_tag_and_unit ts' tg u = Some j))"
  using csv_load_keeps_tables_cases [OF assms] by blast

definition sample_files :: files where
  "sample_files p = (if p = ''conf'' then Inr ''a,C,f1'' else if p = ''f1'' then Inr ''1'' else Inl ''no such file'')"

theorem csv_load_keeps_tables_witness:
  "\<exists>ts' j. load_from_csv sample_files ''conf'' [Some sample_table] = (Ok (), ts') \<and>
     table_get ts' 0 = Some sample_table \<and> find_by_tag_and_unit ts' ''a'' ''C'' = Some j"
proof -
  let ?r = "load_from_csv sample_files ''conf'' [Some sample_table]"
  have ok: "fst ?r = Ok ()" by code_simp
  have "line_key ''a,C,f1'' = Some (''a'', ''C'')" "lines ''a,C,f1'' = [''a,C,f1'']" by code_simp+
  then show ?thesis
    using csv_load_keeps_tables [OF prod.collapse [symmetric, of ?r], of 0 sample_table "''a,C,f1''" "''a,C,f1''" "''a''" "''C''"] ok
    by (cases ?r) (auto simp: sample_files_def)
qed

end
