(* ===== verification/Engine_Filters.thy ===== *)
theory Engine_Filters
  imports Floats "HOL-Library.Multiset"
begin

text \<open>
  Signal processing of sensor readings (\<open>sandstar-engine/src/conversion/filters.rs\<close> and \<open>sdp610.rs\<close>):
  smoothing over a circular buffer, the spike filter, the rate limiter, the flow
  conversions of the differential pressure sensor and its hysteresis. The median filter is compared with
  a specification that keeps the history of readings and sorts its last values.
\<close>

section \<open>State and configuration\<close>

definition SMOOTH_BUFFER_MAX :: usize where "SMOOTH_BUFFER_MAX = 10"

datatype smooth_method = Mean | Median | Ewma

definition smooth_method_from_int :: "i32 \<Rightarrow> smooth_method" where
  "smooth_method_from_int v = (if v = 0 then Mean else if v = 2 then Ewma else Median)"

record smooth_state =
  buffer :: "f64 list"
  head_pos :: usize
  sample_count :: usize
  ewma_value :: f64

definition default_smooth :: smooth_state where
  "default_smooth = \<lparr>buffer = replicate SMOOTH_BUFFER_MAX 0, head_pos = 0, sample_count = 0, ewma_value = 0\<rparr>"

record rate_limit_state =
  last_output :: f64
  last_time :: "instant option"
  initialized :: bool

definition default_rate_limit :: rate_limit_state where
  "default_rate_limit = \<lparr>last_output = 0, last_time = None, initialized = False\<rparr>"

record spike_state =
  last_valid :: f64
  reading_count :: u32

definition default_spike :: spike_state where
  "default_spike = \<lparr>last_valid = 0, reading_count = 0\<rparr>"

record spike_config =
  threshold :: f64
  startup_discard :: u32
  reverse_threshold :: f64

definition default_spike_config :: spike_config where
  "default_spike_config = \<lparr>threshold = lit 5 1, startup_discard = 8, reverse_threshold = lit 10 1\<rparr>"

record smoothing_config =
  window :: usize
  smoothing_method :: smooth_method

definition default_smoothing_config :: smoothing_config where
  "default_smoothing_config = \<lparr>window = 5, smoothing_method = Median\<rparr>"

record rate_limit_config =
  max_rise :: f64
  max_fall :: f64

definition default_rate_limit_config :: rate_limit_config where
  "default_rate_limit_config = \<lparr>max_rise = lit 100 1, max_fall = lit 150 1\<rparr>"

section \<open>Smoothing\<close>

text \<open>One comparison of the bubble sort, one pass over \<open>n\<close> pairs from \<open>j\<close> on, and all passes.\<close>

definition compare_swap :: "nat \<Rightarrow> f64 list \<Rightarrow> f64 list" where
  "compare_swap j xs = (if lt64 (xs ! (j + 1)) (xs ! j) then xs[j := xs ! (j + 1), j + 1 := xs ! j] else xs)"

fun bubble_pass :: "nat \<Rightarrow> nat \<Rightarrow> f64 list \<Rightarrow> f64 list" where
  "bubble_pass j 0 xs = xs"
| "bubble_pass j (Suc n) xs = bubble_pass (j + 1) n (compare_swap j xs)"

definition bubble_sort :: "f64 list \<Rightarrow> f64 list" where
  "bubble_sort xs = fold (\<lambda>i. bubble_pass 0 (length xs - 1 - i)) [0..<length xs] xs"

text \<open>\<open>iter().sum()\<close> adds from the left to negative zero, the neutral element of the addition.\<close>

definition sum64 :: "f64 list \<Rightarrow> f64" where
  "sum64 xs = foldl add64 (neg64 0) xs"

definition clamp_window :: "usize \<Rightarrow> usize" where
  "clamp_window w = max 2 (min SMOOTH_BUFFER_MAX w)"

definition push_sample :: "smooth_state \<Rightarrow> f64 \<Rightarrow> usize \<Rightarrow> smooth_state" where
  "push_sample st v w = st\<lparr>buffer := (buffer st)[head_pos st := v],
     head_pos := (head_pos st + 1) mod w,
     sample_count := if sample_count st < w then sample_count st + 1 else sample_count st\<rparr>"

definition apply_smoothing :: "smooth_state \<Rightarrow> f64 \<Rightarrow> usize \<Rightarrow> smooth_method \<Rightarrow> f64 \<times> smooth_state" where
  "apply_smoothing st0 v win meth =
     (let w = clamp_window win;
          st = push_sample st0 v w;
          samples = take (sample_count st) (buffer st)
      in if sample_count st < 2
         then (v, if meth = Ewma then st\<lparr>ewma_value := v\<rparr> else st)
         else case meth of
           Mean \<Rightarrow> (div64 (sum64 samples) (f64_of_int (int (sample_count st))), st)
         | Median \<Rightarrow> (bubble_sort samples ! (sample_count st div 2), st)
         | Ewma \<Rightarrow>
             let alpha = div64 (lit 2 1) (add64 (f64_of_int (int w)) (lit 1 1));
                 e = (if sample_count st = 1 then v
                      else add64 (mul64 alpha v) (mul64 (sub64 (lit 1 1) alpha) (ewma_value st)))
             in (e, st\<lparr>ewma_value := e\<rparr>))"

section \<open>Rate limit and spike filter\<close>

definition apply_rate_limit :: "instant \<Rightarrow> rate_limit_state \<Rightarrow> f64 \<Rightarrow> f64 \<Rightarrow> f64 \<Rightarrow> f64 \<times> rate_limit_state" where
  "apply_rate_limit now st v rise fall =
     (if \<not> initialized st then (v, st\<lparr>initialized := True, last_output := v, last_time := Some now\<rparr>)
      else
        let dt = (case last_time st of
                    Some prev \<Rightarrow> max64 (as_secs_f64 (duration_since now prev)) (lit 1 1000)
                  | None \<Rightarrow> lit 1 1000);
            out = (if lt64 (last_output st) v
                   then let max_change = mul64 rise dt in
                        if lt64 max_change (sub64 v (last_output st)) then add64 (last_output st) max_change else v
                   else let max_change = mul64 fall dt in
                        if lt64 max_change (sub64 (last_output st) v) then sub64 (last_output st) max_change else v)
        in (out, st\<lparr>last_output := out, last_time := Some now\<rparr>))"

definition apply_spike_filter :: "spike_state \<Rightarrow> f64 \<Rightarrow> spike_config \<Rightarrow> ('e, f64 \<times> spike_state) outcome" where
  "apply_spike_filter st0 v cfg =
     (if reading_count st0 = - 1 then Panic
      else Ok (
        let st = st0\<lparr>reading_count := reading_count st0 + 1\<rparr>;
            baseline = last_valid st
        in if reading_count st \<le> startup_discard cfg then (v, st\<lparr>last_valid := v\<rparr>)
           else if lt64 (abs64 baseline) (lit 1 (10 ^ 10)) then (v, st\<lparr>last_valid := v\<rparr>)
           else
             let ratio = abs64 (div64 v baseline)
             in if lt64 (threshold cfg) ratio \<or> lt64 ratio (div64 (lit 1 1) (threshold cfg))
                then (if lt64 (lit 50 1) (abs64 baseline) \<and> lt64 (abs64 v) (lit 1 1) then (baseline, st) else (baseline, st))
                else (v, st\<lparr>last_valid := v\<rparr>)))"

section \<open>Differential pressure sensor\<close>

definition PA_TO_INCHES_WC :: f64 where "PA_TO_INCHES_WC = lit 401865 (10 ^ 8)"
definition PA_TO_PSI :: f64 where "PA_TO_PSI = lit 145038 (10 ^ 9)"
definition CFM_TO_LPS :: f64 where "CFM_TO_LPS = lit 4719 10000"
definition DEFAULT_DEAD_BAND :: f64 where "DEFAULT_DEAD_BAND = lit 5 1"
definition DEFAULT_K_FACTOR :: f64 where "DEFAULT_K_FACTOR = lit 14000 1"
definition DEFAULT_HYST_ON :: f64 where "DEFAULT_HYST_ON = lit 16 1"
definition DEFAULT_HYST_OFF :: f64 where "DEFAULT_HYST_OFF = lit 8 1"
definition DEFAULT_SCALE_FACTOR :: f64 where "DEFAULT_SCALE_FACTOR = lit 60 1"

definition raw_to_pa :: "f64 \<Rightarrow> f64 \<Rightarrow> f64" where
  "raw_to_pa raw scale = div64 raw scale"

definition raw_to_inh2o :: "f64 \<Rightarrow> f64 \<Rightarrow> f64" where
  "raw_to_inh2o raw scale = mul64 (raw_to_pa raw scale) PA_TO_INCHES_WC"

definition raw_to_psi :: "f64 \<Rightarrow> f64 \<Rightarrow> f64" where
  "raw_to_psi raw scale = mul64 (raw_to_pa raw scale) PA_TO_PSI"

definition raw_to_cfm :: "f64 \<Rightarrow> f64 \<Rightarrow> f64 \<Rightarrow> f64 \<Rightarrow> f64" where
  "raw_to_cfm raw k dead_band scale =
     (if lt64 raw dead_band then 0
      else let inh2o = raw_to_inh2o raw scale in if lt64 inh2o 0 then 0 else mul64 k (sqrt64 inh2o))"

definition raw_to_lps :: "f64 \<Rightarrow> f64 \<Rightarrow> f64 \<Rightarrow> f64 \<Rightarrow> f64" where
  "raw_to_lps raw k dead_band scale = mul64 (raw_to_cfm raw k dead_band scale) CFM_TO_LPS"

definition apply_hysteresis :: "f64 \<Rightarrow> f64 \<Rightarrow> f64 \<Rightarrow> bool \<Rightarrow> f64 \<times> bool" where
  "apply_hysteresis raw on off detected =
     (if le64 raw 0 then (0, False)
      else if detected then (if le64 off raw then (raw, detected) else (0, False))
      else (if le64 on raw then (raw, True) else (0, detected)))"

section \<open>Bubble sort\<close>

lemma length_compare_swap [simp]: "length (compare_swap j xs) = length xs"
  by (simp add: compare_swap_def)

lemma length_bubble_pass [simp]: "length (bubble_pass j n xs) = length xs"
  by (induction j n xs rule: bubble_pass.induct) simp_all

lemma mset_compare_swap: "j + 1 < length xs \<Longrightarrow> mset (compare_swap j xs) = mset xs"
  by (simp add: compare_swap_def mset_swap)

lemma mset_bubble_pass: "j + n < length xs \<Longrightarrow> mset (bubble_pass j n xs) = mset xs"
  by (induction j n xs rule: bubble_pass.induct) (simp_all add: mset_compare_swap)

lemma nth_compare_swap_outside: "i < j \<or> j + 1 < i \<Longrightarrow> compare_swap j xs ! i = xs ! i"
  by (auto simp: compare_swap_def)

lemma bubble_pass_outside: "i < j \<or> j + n < i \<Longrightarrow> bubble_pass j n xs ! i = xs ! i"
  by (induction j n xs rule: bubble_pass.induct) (auto simp: nth_compare_swap_outside)

lemma compare_swap_pair:
  assumes "j + 1 < length xs"
  shows "compare_swap j xs ! j \<in> {xs ! j, xs ! (j + 1)}" "compare_swap j xs ! (j + 1) \<in> {xs ! j, xs ! (j + 1)}"
  using assms by (auto simp: compare_swap_def)

lemma bubble_pass_inside:
  "j + n < length xs \<Longrightarrow> i \<in> {j..j + n} \<Longrightarrow> bubble_pass j n xs ! i \<in> (!) xs ` {j..j + n}"
proof (induction j n xs arbitrary: i rule: bubble_pass.induct)
  case (2 j n xs)
  let ?ys = "compare_swap j xs"
  have pair: "?ys ! j \<in> (!) xs ` {j..j + Suc n}" "?ys ! (j + 1) \<in> (!) xs ` {j..j + Suc n}"
    using compare_swap_pair [of j xs] "2.prems" by auto
  have ys: "?ys ! k \<in> (!) xs ` {j..j + Suc n}" if "k \<in> {j + 1..j + 1 + n}" for k
    using that pair(2) by (cases "k = j + 1") (auto simp: nth_compare_swap_outside)
  show ?case
  proof (cases "i = j")
    case True
    then show ?thesis using pair by (simp add: bubble_pass_outside)
  next
    case False
    with "2.prems" have "bubble_pass (j + 1) n ?ys ! i \<in> (!) ?ys ` {j + 1..j + 1 + n}" by (intro "2.IH") auto
    then obtain k where "k \<in> {j + 1..j + 1 + n}" "bubble_pass (j + 1) n ?ys ! i = ?ys ! k" by blast
    with ys show ?thesis by simp
  qed
qed simp

definition numbers :: "f64 list \<Rightarrow> bool" where
  "numbers xs \<longleftrightarrow> (\<forall>x\<in>set xs. \<not> nan64 x)"

lemma numbers_nth: "numbers xs \<Longrightarrow> i < length xs \<Longrightarrow> \<not> nan64 (xs ! i)"
  by (simp add: numbers_def)

lemma numbers_mset: "mset xs = mset ys \<Longrightarrow> numbers xs \<longleftrightarrow> numbers ys"
  by (simp add: numbers_def flip: set_mset_mset)

lemma compare_swap_order:
  assumes "numbers xs" "j + 1 < length xs"
  shows "key64 (xs ! j) \<le> key64 (compare_swap j xs ! (j + 1))" "key64 (xs ! (j + 1)) \<le> key64 (compare_swap j xs ! (j + 1))"
proof -
  have "lt64 (xs ! (j + 1)) (xs ! j) \<longleftrightarrow> key64 (xs ! (j + 1)) < key64 (xs ! j)"
    using assms by (intro lt64_key numbers_nth) auto
  then show "key64 (xs ! j) \<le> key64 (compare_swap j xs ! (j + 1))" "key64 (xs ! (j + 1)) \<le> key64 (compare_swap j xs ! (j + 1))"
    using assms(2) by (auto simp: compare_swap_def)
qed

lemma bubble_pass_max_old:
  "numbers xs \<Longrightarrow> j + n < length xs \<Longrightarrow> k \<in> {j..j + n} \<Longrightarrow> key64 (xs ! k) \<le> key64 (bubble_pass j n xs ! (j + n))"
proof (induction j n xs arbitrary: k rule: bubble_pass.induct)
  case (2 j n xs)
  let ?ys = "compare_swap j xs" and ?m = "key64 (bubble_pass j (Suc n) xs ! (j + Suc n))"
  have "numbers ?ys" using "2.prems" by (simp add: numbers_mset [OF mset_compare_swap])
  then have IH: "key64 (?ys ! k) \<le> ?m" if "k \<in> {j + 1..j + 1 + n}" for k
    using "2.IH" [of k] "2.prems"(2) that by simp
  have swap: "key64 (xs ! j) \<le> key64 (?ys ! (j + 1))" "key64 (xs ! (j + 1)) \<le> key64 (?ys ! (j + 1))"
    using compare_swap_order [of xs j] "2.prems" by simp_all
  consider "k = j" | "k = j + 1" | "k \<in> {j + 1..j + 1 + n}" "j + 1 < k" using "2.prems"(3) by force
  then show ?case using swap IH [of "j + 1"] IH [of k] by cases (auto simp: nth_compare_swap_outside)
qed simp

lemma bubble_pass_max:
  assumes "numbers xs" "j + n < length xs" "i \<in> {j..j + n}"
  shows "key64 (bubble_pass j n xs ! i) \<le> key64 (bubble_pass j n xs ! (j + n))"
  using bubble_pass_inside [OF assms(2,3)] bubble_pass_max_old [OF assms(1,2)] by auto

text \<open>After \<open>k\<close> passes the last \<open>k\<close> positions hold the largest values in order.\<close>

definition tail_sorted :: "nat \<Rightarrow> f64 list \<Rightarrow> bool" where
  "tail_sorted k ys \<longleftrightarrow> (\<forall>q<length ys. length ys \<le> q + k \<longrightarrow> (\<forall>p<q. key64 (ys ! p) \<le> key64 (ys ! q)))"

lemma tail_sorted_pass:
  assumes "numbers ys" "tail_sorted k ys" "k < length ys"
  shows "tail_sorted (Suc k) (bubble_pass 0 (length ys - 1 - k) ys)"
proof -
  define m where "m = length ys - 1 - k"
  let ?zs = "bubble_pass 0 m ys"
  have m: "m < length ys" using assms(3) by (simp add: m_def)
  have "key64 (?zs ! p) \<le> key64 (?zs ! q)" if q: "q < length ys" "length ys \<le> q + Suc k" "p < q" for p q
  proof (cases "q = m")
    case True
    then show ?thesis using bubble_pass_max [of ys 0 m p] assms(1) m q(3) by simp
  next
    case False
    then have "m < q" "length ys \<le> q + k" using q m_def by auto
    then have old: "key64 (ys ! p) \<le> key64 (ys ! q)" if "p < q" for p
      using assms(2) q(1) that by (simp add: tail_sorted_def)
    show ?thesis
    proof (cases "p \<le> m")
      case True
      then show ?thesis using bubble_pass_inside [of 0 m ys p] m \<open>m < q\<close> old
        by (auto simp: bubble_pass_outside)
    qed (simp add: bubble_pass_outside \<open>m < q\<close> old q)
  qed
  then show ?thesis by (simp add: tail_sorted_def m_def)
qed

lemma bubble_sort_prefix:
  assumes "numbers xs" "k \<le> length xs"
  defines "ys \<equiv> fold (\<lambda>i. bubble_pass 0 (length xs - 1 - i)) [0..<k] xs"
  shows "mset ys = mset xs \<and> length ys = length xs \<and> tail_sorted k ys"
  using assms(2) unfolding ys_def
proof (induction k)
  case 0
  then show ?case by (simp add: tail_sorted_def)
next
  case (Suc k)
  let ?ys = "fold (\<lambda>i. bubble_pass 0 (length xs - 1 - i)) [0..<k] xs"
  have IH: "mset ?ys = mset xs" "length ?ys = length xs" "tail_sorted k ?ys" using Suc by simp_all
  have "numbers ?ys" using assms(1) numbers_mset [OF IH(1)] by simp
  then show ?case using tail_sorted_pass [of ?ys k] IH Suc.prems by (simp add: mset_bubble_pass)
qed

lemma bubble_sort_sorts:
  assumes "numbers xs"
  shows "mset (bubble_sort xs) = mset xs" "map key64 (bubble_sort xs) = sort (map key64 xs)"
proof -
  have ys: "mset (bubble_sort xs) = mset xs" "tail_sorted (length xs) (bubble_sort xs)"
    using bubble_sort_prefix [OF assms order_refl] by (simp_all add: bubble_sort_def)
  then have "length (bubble_sort xs) = length xs" by (metis mset_eq_length)
  with ys(2) have "sorted (map key64 (bubble_sort xs))"
    by (auto simp: tail_sorted_def sorted_iff_nth_mono_less)
  with ys(1) show "map key64 (bubble_sort xs) = sort (map key64 xs)"
    by (intro properties_for_sort [symmetric]) simp_all
  show "mset (bubble_sort xs) = mset xs" by (rule ys)
qed

section \<open>Filters and the history of their readings\<close>

text \<open>The state of a filter after a sequence of readings, and the output for the last of them.\<close>

definition filter_after :: "('s \<Rightarrow> 'v \<Rightarrow> 'o \<times> 's) \<Rightarrow> 's \<Rightarrow> 'v list \<Rightarrow> 's" where
  "filter_after step s vs = foldl (\<lambda>s v. snd (step s v)) s vs"

lemma filter_after_snoc [simp]:
  "filter_after step s [] = s" "filter_after step s (vs @ [v]) = snd (step (filter_after step s vs) v)"
  by (simp_all add: filter_after_def)

text \<open>A filter whose state is related to the history of its readings, whatever the readings are.\<close>

locale history_filter =
  fixes step :: "'s \<Rightarrow> 'v \<Rightarrow> 'o \<times> 's" and init :: 's and rel :: "'v list \<Rightarrow> 's \<Rightarrow> bool"
  assumes rel_init: "rel [] init"
    and rel_step: "rel vs s \<Longrightarrow> rel (vs @ [v]) (snd (step s v))"
begin

lemma rel_after: "rel vs (filter_after step init vs)"
  by (induction vs rule: rev_induct) (simp_all add: rel_init rel_step)

end

text \<open>The circular buffer holds, at its position modulo the window, each of the last readings.\<close>

definition smooth_rel :: "usize \<Rightarrow> f64 list \<Rightarrow> smooth_state \<Rightarrow> bool" where
  "smooth_rel w vs st \<longleftrightarrow>
     length (buffer st) = SMOOTH_BUFFER_MAX \<and> head_pos st = length vs mod w \<and> sample_count st = min (length vs) w \<and>
     (\<forall>k<length vs. length vs \<le> k + w \<longrightarrow> buffer st ! (k mod w) = vs ! k)"

lemma clamp_window_range: "2 \<le> clamp_window win" "clamp_window win \<le> 10"
  by (simp_all add: clamp_window_def SMOOTH_BUFFER_MAX_def)

lemma mod_window_distinct: "k < n \<Longrightarrow> n < k + w \<Longrightarrow> k mod w \<noteq> n mod (w :: nat)"
  using mod_eq_dvd_iff_nat [of k n w] by (auto dest: dvd_imp_le)

lemma smooth_rel_push:
  assumes rel: "smooth_rel w vs st" and w: "2 \<le> w" "w \<le> 10"
  shows "smooth_rel w (vs @ [v]) (push_sample st v w)"
proof -
  let ?n = "length vs"
  have head: "head_pos st < length (buffer st)"
    using rel w less_le_trans [OF mod_less_divisor [of w ?n], of 10] by (simp add: smooth_rel_def SMOOTH_BUFFER_MAX_def)
  have "buffer (push_sample st v w) ! (k mod w) = (vs @ [v]) ! k" if "k < Suc ?n" "Suc ?n \<le> k + w" for k
  proof (cases "k = ?n")
    case True
    with rel head show ?thesis by (simp add: push_sample_def smooth_rel_def)
  next
    case False
    with that have "k < ?n" "k mod w \<noteq> ?n mod w" using mod_window_distinct [of k ?n w] by auto
    with rel that show ?thesis by (auto simp: push_sample_def smooth_rel_def nth_append)
  qed
  then show ?thesis using rel by (auto simp: smooth_rel_def push_sample_def mod_Suc_eq)
qed

lemma apply_smoothing_state:
  "buffer (snd (apply_smoothing st v win meth)) = buffer (push_sample st v (clamp_window win))"
  "head_pos (snd (apply_smoothing st v win meth)) = head_pos (push_sample st v (clamp_window win))"
  "sample_count (snd (apply_smoothing st v win meth)) = sample_count (push_sample st v (clamp_window win))"
  by (cases meth; simp add: apply_smoothing_def Let_def)+

interpretation smoothing: history_filter "\<lambda>st v. apply_smoothing st v win meth" default_smooth "smooth_rel (clamp_window win)"
  for win meth
proof
  show "smooth_rel (clamp_window win) [] default_smooth"
    by (simp add: smooth_rel_def default_smooth_def)
next
  fix vs st v
  assume "smooth_rel (clamp_window win) vs st"
  from smooth_rel_push [OF this clamp_window_range, of v]
  show "smooth_rel (clamp_window win) (vs @ [v]) (snd (apply_smoothing st v win meth))"
    by (simp add: smooth_rel_def apply_smoothing_state)
qed

text \<open>The last readings that fit the window.\<close>

definition recent :: "usize \<Rightarrow> 'a list \<Rightarrow> 'a list" where
  "recent w vs = drop (length vs - w) vs"

lemma mod_window_image:
  assumes "0 < w"
  shows "(\<lambda>k. k mod w) ` {n - w..<n} = {0..<min n w}" "inj_on (\<lambda>k. k mod w) {n - w..<n :: nat}"
proof -
  show inj: "inj_on (\<lambda>k. k mod w) {n - w..<n}"
  proof (rule inj_onI)
    fix a b assume "a \<in> {n - w..<n}" "b \<in> {n - w..<n}" "a mod w = b mod w"
    then show "a = b" using mod_window_distinct [of a b w] mod_window_distinct [of b a w] by force
  qed
  show "(\<lambda>k. k mod w) ` {n - w..<n} = {0..<min n w}"
  proof (rule card_subset_eq)
    show "(\<lambda>k. k mod w) ` {n - w..<n} \<subseteq> {0..<min n w}"
      using assms by (auto simp: less_le_trans intro: le_less_trans [OF mod_less_eq_dividend])
    show "card ((\<lambda>k. k mod w) ` {n - w..<n}) = card {0..<min n w}"
      by (simp add: card_image [OF inj])
  qed simp
qed

lemma mset_as_image: "m \<le> n \<Longrightarrow> n \<le> length xs \<Longrightarrow> mset (take (n - m) (drop m xs)) = image_mset ((!) xs) (mset_set {m..<n})"
proof -
  assume "m \<le> n" "n \<le> length xs"
  then have "take (n - m) (drop m xs) = map ((!) xs) [m..<n]"
    by (intro nth_equalityI) auto
  then show ?thesis by simp
qed

lemma window_contents:
  assumes rel: "smooth_rel w vs st" and w: "2 \<le> w" "w \<le> 10"
  shows "mset (take (sample_count st) (buffer st)) = mset (recent w vs)"
proof -
  let ?n = "length vs"
  have c: "sample_count st = min ?n w" "min ?n w \<le> length (buffer st)"
    using rel w by (simp_all add: smooth_rel_def SMOOTH_BUFFER_MAX_def)
  have "mset (take (sample_count st) (buffer st)) = image_mset ((!) (buffer st)) (mset_set {0..<min ?n w})"
    using mset_as_image [of 0 "min ?n w" "buffer st"] c by simp
  also have "\<dots> = image_mset ((!) (buffer st)) (image_mset (\<lambda>k. k mod w) (mset_set {?n - w..<?n}))"
    using mod_window_image [of w ?n] w by (simp add: image_mset_mset_set)
  also have "\<dots> = image_mset ((!) vs) (mset_set {?n - w..<?n})"
    using rel by (auto simp: smooth_rel_def multiset.map_comp intro!: image_mset_cong)
  also have "\<dots> = mset (recent w vs)"
    using mset_as_image [of "?n - w" ?n vs] by (simp add: recent_def)
  finally show ?thesis .
qed

text \<open>C38. The median filter refines its specification: fed any sequence of readings without NaN, a fresh filter answers
  every reading with a value whose place in the numeric order is the middle of the sorted last readings, as
  many of them as the clamped window (2 to 10) holds. The circular buffer and the hand-written
  bubble sort do not show.\<close>

theorem median_filter_refines:
  assumes "\<forall>x\<in>set (vs @ [v]). \<not> nan64 x"
    and "apply_smoothing (filter_after (\<lambda>st v. apply_smoothing st v win Median) default_smooth vs) v win Median = (out, st)"
    and "last_readings = recent (clamp_window win) (vs @ [v])"
  shows "out \<in> set last_readings \<and> key64 out = sort (map key64 last_readings) ! (length last_readings div 2)"
proof -
  define st0 where "st0 = filter_after (\<lambda>st v. apply_smoothing st v win Median) default_smooth vs"
  let ?w = "clamp_window win"
  define xs where "xs = take (sample_count (push_sample st0 v ?w)) (buffer (push_sample st0 v ?w))"
  have run: "apply_smoothing st0 v win Median = (out, st)" using assms(2) by (simp only: st0_def)
  have rel: "smooth_rel ?w (vs @ [v]) (push_sample st0 v ?w)"
    unfolding st0_def by (intro smooth_rel_push smoothing.rel_after clamp_window_range)
  have mset: "mset xs = mset last_readings"
    using window_contents [OF rel clamp_window_range] assms(3) by (simp add: xs_def)
  then have set: "set xs = set last_readings" and len: "length xs = length last_readings"
    using mset_eq_setD mset_eq_length by blast+
  have count: "sample_count (push_sample st0 v ?w) = length xs" "xs \<noteq> []"
    using rel clamp_window_range [of win] by (auto simp: smooth_rel_def SMOOTH_BUFFER_MAX_def xs_def)
  then have xs: "xs = take (length xs) (buffer (push_sample st0 v ?w))" by (simp add: xs_def)
  have num: "numbers xs" using assms(1) set by (auto simp: numbers_def assms(3) recent_def dest: in_set_dropD)
  have out: "out = bubble_sort xs ! (length xs div 2)"
  proof (cases "length xs < 2")
    case True
    then have "length xs = 1" using count(2) by (cases xs) auto
    then have "vs = []" using clamp_window_range [of win] by (cases vs) (auto simp: len assms(3) recent_def)
    then have "xs = [v]" using mset clamp_window_range [of win] by (simp add: assms(3) recent_def)
    moreover have "out = v" using run True by (simp add: apply_smoothing_def Let_def count(1))
    ultimately show ?thesis by (simp add: bubble_sort_def)
  next
    case False
    with run show ?thesis
      by (auto simp: apply_smoothing_def Let_def count(1) xs [symmetric])
  qed
  have mid: "length xs div 2 < length xs" using count(2) by simp
  have sorted: "mset (bubble_sort xs) = mset xs" "map key64 (bubble_sort xs) = sort (map key64 xs)"
    using bubble_sort_sorts [OF num] by simp_all
  have lenb: "length (bubble_sort xs) = length xs" using sorted(1) mset_eq_length by blast
  have "out \<in> set xs" using sorted(1) mid lenb unfolding out by (metis mset_eq_setD nth_mem)
  moreover have "key64 out = sort (map key64 xs) ! (length xs div 2)"
    using sorted(2) mid lenb unfolding out by (metis nth_map)
  moreover have "sort (map key64 xs) = sort (map key64 last_readings)"
    using mset by (intro properties_for_sort) simp_all
  ultimately show ?thesis using set len by simp
qed

theorem median_filter_refines_witness:
  "fst (apply_smoothing (filter_after (\<lambda>st v. apply_smoothing st v 3 Median) default_smooth
      [lit 40 1, lit 2 1, lit 9 1]) (lit 7 1) 3 Median) = lit 7 1"
proof -
  let ?vs = "[lit 40 1, lit 2 1, lit 9 1]"
  define r where "r = apply_smoothing (filter_after (\<lambda>st v. apply_smoothing st v 3 Median) default_smooth ?vs) (lit 7 1) 3 Median"
  have "\<forall>x\<in>set (?vs @ [lit 7 1]). \<not> nan64 x" by (simp add: float_eval)
  from median_filter_refines [OF this, of 3 "fst r" "snd r", OF _ refl] r_def
  have "fst r \<in> set [lit 2 1, lit 9 1, lit 7 1] \<and> key64 (fst r) = sort (map key64 [lit 2 1, lit 9 1, lit 7 1]) ! 1"
    by (simp add: recent_def clamp_window_def SMOOTH_BUFFER_MAX_def)
  then have "fst r = lit 7 1" by (auto simp: float_eval key64_def)
  then show ?thesis by (simp add: r_def)
qed

section \<open>Hysteresis\<close>

definition hysteresis_step :: "f64 \<Rightarrow> f64 \<Rightarrow> bool \<Rightarrow> f64 \<Rightarrow> f64 \<times> bool" where
  "hysteresis_step on off detected raw = apply_hysteresis raw on off detected"

text \<open>Flow is on when some positive reading reached the upper threshold and no later one fell below the lower one.\<close>

definition flow_on :: "f64 \<Rightarrow> f64 \<Rightarrow> f64 list \<Rightarrow> bool" where
  "flow_on on off rs \<longleftrightarrow> (\<exists>pre r post. rs = pre @ r # post \<and> le64 on r \<and> \<not> le64 r 0 \<and>
     (\<forall>x\<in>set post. le64 off x \<and> \<not> le64 x 0))"

lemma flow_on_Nil: "\<not> flow_on on off []"
  by (simp add: flow_on_def)

lemma flow_on_snoc:
  assumes "le64 off on"
  shows "flow_on on off (rs @ [x]) \<longleftrightarrow> \<not> le64 x 0 \<and> (le64 on x \<or> flow_on on off rs \<and> le64 off x)"
proof
  assume "flow_on on off (rs @ [x])"
  then obtain pre r post where r: "rs @ [x] = pre @ r # post" "le64 on r" "\<not> le64 r 0"
    "\<forall>x\<in>set post. le64 off x \<and> \<not> le64 x 0" by (auto simp: flow_on_def)
  show "\<not> le64 x 0 \<and> (le64 on x \<or> flow_on on off rs \<and> le64 off x)"
  proof (cases post rule: rev_cases)
    case (snoc post' y)
    with r have "rs = pre @ r # post'" "y = x" by simp_all
    with r snoc show ?thesis by (auto simp: flow_on_def)
  qed (use r in auto)
next
  assume x: "\<not> le64 x 0 \<and> (le64 on x \<or> flow_on on off rs \<and> le64 off x)"
  then consider "le64 on x" | pre r post where "rs = pre @ r # post" "le64 on r" "\<not> le64 r 0"
    "\<forall>x\<in>set post. le64 off x \<and> \<not> le64 x 0" "le64 off x" by (auto simp: flow_on_def)
  then show "flow_on on off (rs @ [x])"
  proof cases
    case 1
    with x show ?thesis unfolding flow_on_def by (intro exI [of _ rs] exI [of _ x] exI [of _ "[]"]) simp
  next
    case 2
    with x show ?thesis unfolding flow_on_def by (intro exI [of _ pre] exI [of _ r] exI [of _ "post @ [x]"]) auto
  qed
qed

interpretation hysteresis: history_filter "hysteresis_step on off" False
    "\<lambda>rs detected. le64 off on \<longrightarrow> detected = flow_on on off rs" for on off
  by unfold_locales (auto simp: flow_on_Nil flow_on_snoc hysteresis_step_def apply_hysteresis_def dest: le64_trans)

lemma hysteresis_history_cases:
  assumes "le64 off on"
    and "apply_hysteresis raw on off (filter_after (hysteresis_step on off) False rs) = (out, detected)"
  shows "detected \<longleftrightarrow> (\<exists>pre r post. rs @ [raw] = pre @ r # post \<and> le64 on r \<and> \<not> le64 r 0 \<and>
      (\<forall>x\<in>set post. le64 off x \<and> \<not> le64 x 0))"
    and "out = (if detected then raw else 0)"
proof -
  have "detected = flow_on on off (rs @ [raw])"
    using hysteresis.rel_after [of off on "rs @ [raw]"] assms by (simp add: hysteresis_step_def)
  then show "detected \<longleftrightarrow> (\<exists>pre r post. rs @ [raw] = pre @ r # post \<and> le64 on r \<and> \<not> le64 r 0 \<and>
      (\<forall>x\<in>set post. le64 off x \<and> \<not> le64 x 0))" by (simp only: flow_on_def)
  show "out = (if detected then raw else 0)"
    using assms(2) by (auto simp: apply_hysteresis_def split: if_splits)
qed

text \<open>The flow switch is a Schmitt trigger on the whole history of readings: with the lower threshold at most the
  upper one, flow is reported exactly when some positive reading reached the upper threshold and every
  reading since then was positive and reached the lower one. The output is then the reading itself, and
  zero otherwise. Readings that are not numbers never switch the flow on and always switch it off.\<close>

theorem hysteresis_history:
  assumes "le64 off on"
    and "apply_hysteresis raw on off (filter_after (hysteresis_step on off) False rs) = (out, detected)"
  shows "(detected \<longleftrightarrow> (\<exists>pre r post. rs @ [raw] = pre @ r # post \<and> le64 on r \<and> \<not> le64 r 0 \<and>
      (\<forall>x\<in>set post. le64 off x \<and> \<not> le64 x 0))) \<and>
    out = (if detected then raw else 0)"
  using hysteresis_history_cases [OF assms] by blast

theorem hysteresis_history_witness:
  "apply_hysteresis (lit 9 1) DEFAULT_HYST_ON DEFAULT_HYST_OFF
     (filter_after (hysteresis_step DEFAULT_HYST_ON DEFAULT_HYST_OFF) False [lit 3 1, lit 17 1, lit 10 1]) = (lit 9 1, True)"
proof -
  let ?on = "DEFAULT_HYST_ON" and ?off = "DEFAULT_HYST_OFF" and ?rs = "[lit 3 1, lit 17 1, lit 10 1]"
  define r where "r = apply_hysteresis (lit 9 1) ?on ?off (filter_after (hysteresis_step ?on ?off) False ?rs)"
  have le: "le64 ?off ?on" "le64 ?on (lit 17 1)" "\<not> le64 (lit 17 1) 0"
    "\<forall>x\<in>set [lit 10 1, lit 9 1]. le64 ?off x \<and> \<not> le64 x 0"
    by (simp_all add: DEFAULT_HYST_ON_def DEFAULT_HYST_OFF_def float_eval)
  have run: "r = (fst r, snd r)" by simp
  note hyst = hysteresis_history [OF le(1) run [unfolded r_def], folded r_def]
  have "snd r" unfolding conjunct1 [OF hyst] using le
    by (intro exI [of _ "[lit 3 1]"] exI [of _ "lit 17 1"] exI [of _ "[lit 10 1, lit 9 1]"]) simp
  with conjunct2 [OF hyst] run show ?thesis by (simp add: r_def)
qed

end
