(* ===== verification/Engine_Values.thy ===== *)
theory Engine_Values
  imports Engine_Tables Engine_Filters
begin

text \<open>
  Conversion between raw readings and engineering units (\<open>sandstar-engine/src/value.rs\<close>) and the
  detection of a sensor from its channel number (\<open>conversion/auto_detect.rs\<close>). \<open>f64::clamp\<close> panics when its
  bounds are not ordered, so that a conversion with such bounds panics.
\<close>

section \<open>Configuration\<close>

datatype conversion_fn = Sdp610ToPa | Sdp610ToInH2O | Sdp610ToPsi | Sdp610ToCfm | Sdp610ToLps

definition conversion_from_tag :: "string \<Rightarrow> conversion_fn option" where
  "conversion_from_tag t =
     (if t = ''SDP610ToPa'' then Some Sdp610ToPa
      else if t = ''SDP610ToInH2O'' then Some Sdp610ToInH2O
      else if t = ''SDP610ToPSI'' \<or> t = ''SDP610ToPsi'' then Some Sdp610ToPsi
      else if t = ''SDP610ToCFM'' \<or> t = ''SDP610ToCfm'' then Some Sdp610ToCfm
      else if t = ''SDP610ToLPS'' \<or> t = ''SDP610ToLps'' then Some Sdp610ToLps
      else None)"

definition conversion_from_channel_id :: "channel_id \<Rightarrow> conversion_fn option" where
  "conversion_from_channel_id c =
     (if c = 610 then Some Sdp610ToInH2O else if c = 611 then Some Sdp610ToPa else if c = 612 then Some Sdp610ToCfm
      else if c = 613 then Some Sdp610ToPsi else if c = 614 then Some Sdp610ToLps else None)"

definition is_sdp610 :: "conversion_fn \<Rightarrow> bool" where
  "is_sdp610 f = True"

record flow_config =
  k_factor :: f64
  dead_band :: f64
  hyst_on :: f64
  hyst_off :: f64
  scale_factor :: f64
  hysteresis_enabled :: bool
  allow_reverse :: bool
  flow_reverse_threshold :: f64

definition default_flow_config :: flow_config where
  "default_flow_config = \<lparr>k_factor = DEFAULT_K_FACTOR, dead_band = DEFAULT_DEAD_BAND, hyst_on = DEFAULT_HYST_ON,
     hyst_off = DEFAULT_HYST_OFF, scale_factor = DEFAULT_SCALE_FACTOR, hysteresis_enabled = False,
     allow_reverse = False, flow_reverse_threshold = lit 10 1\<rparr>"

record filter_config =
  spike_filter :: "spike_config option"
  smoothing :: "smoothing_config option"
  rate_limit :: "rate_limit_config option"

record value_conv =
  table_index :: "usize option"
  low :: "f64 option"
  high :: "f64 option"
  conv_offset :: "f64 option"
  conv_scale :: "f64 option"
  conv_min :: "f64 option"
  conv_max :: "f64 option"
  adc_mode :: bool
  dac_mode :: bool
  conv_func :: "conversion_fn option"
  conv_unit :: string
  flow_cfg :: "flow_config option"
  filter_cfg :: "filter_config option"

definition default_conv :: value_conv where
  "default_conv = \<lparr>table_index = None, low = None, high = None, conv_offset = None, conv_scale = None,
     conv_min = None, conv_max = None, adc_mode = False, dac_mode = False, conv_func = None, conv_unit = [],
     flow_cfg = None, filter_cfg = None\<rparr>"

definition or_else :: "'a option \<Rightarrow> 'a \<Rightarrow> 'a" where
  "or_else x d = (case x of Some v \<Rightarrow> v | None \<Rightarrow> d)"

section \<open>Conversion\<close>

definition clamp_output :: "value_conv \<Rightarrow> f64 \<Rightarrow> f64" where
  "clamp_output c v =
     (let v1 = (case conv_min c of Some m \<Rightarrow> max64 v m | None \<Rightarrow> v)
      in case conv_max c of Some m \<Rightarrow> min64 v1 m | None \<Rightarrow> v1)"

definition apply_combined_transform :: "value_conv \<Rightarrow> f64 \<Rightarrow> ('e, f64) outcome" where
  "apply_combined_transform c v =
     (case (low c, high c, conv_offset c, conv_scale c, conv_min c, conv_max c) of
        (Some lo, Some hi, Some off, Some sc, Some mn, Some mx) \<Rightarrow>
          let range = sub64 hi lo in
          if \<not> eq64 range 0 then clamp64 (add64 (mul64 (div64 v range) sc) off) mn mx else Ok v
      | _ \<Rightarrow> Ok v)"

definition flow_convert :: "conversion_fn \<Rightarrow> flow_config \<Rightarrow> f64 \<Rightarrow> f64" where
  "flow_convert f cfg x = (case f of
      Sdp610ToPa \<Rightarrow> raw_to_pa x (scale_factor cfg)
    | Sdp610ToInH2O \<Rightarrow> raw_to_inh2o x (scale_factor cfg)
    | Sdp610ToPsi \<Rightarrow> raw_to_psi x (scale_factor cfg)
    | Sdp610ToCfm \<Rightarrow> raw_to_cfm x (k_factor cfg) (dead_band cfg) (scale_factor cfg)
    | Sdp610ToLps \<Rightarrow> raw_to_lps x (k_factor cfg) (dead_band cfg) (scale_factor cfg))"

text \<open>The write back at the end of a conversion.\<close>

definition written :: "engine_status \<Rightarrow> f64 \<Rightarrow> f64 \<Rightarrow> engine_value \<Rightarrow> engine_value" where
  "written st r c v = v\<lparr>status := st, raw := r, cur := c, flags := flags v OR FLAG_CUR, trigger := False\<rparr>"

definition range_scaled :: "f64 \<Rightarrow> f64 \<Rightarrow> f64 \<Rightarrow> f64" where
  "range_scaled lo hi r = (let range = sub64 hi lo in if \<not> eq64 range 0 then div64 r range else 0)"

text \<open>Offset, scale and limits, after which the value is written back.\<close>

definition finish_range :: "value_conv \<Rightarrow> f64 \<Rightarrow> f64 \<Rightarrow> engine_value \<Rightarrow> engine_value" where
  "finish_range c r x v =
     (let x1 = (case conv_offset c of Some off \<Rightarrow> add64 x off | None \<Rightarrow> x);
          x2 = (case conv_scale c of Some sc \<Rightarrow> mul64 x1 sc | None \<Rightarrow> x1)
      in written StatusOk r (clamp_output c x2) v)"

definition convert_table_or_range :: "value_conv \<Rightarrow> table_store \<Rightarrow> engine_value \<Rightarrow> ('e, engine_value) outcome" where
  "convert_table_or_range c ts v =
     (if table_index c \<noteq> None \<and> low c = None \<and> high c = None then Ok (v\<lparr>status := Fault, trigger := False\<rparr>)
      else
        let lo = or_else (low c) 0; hi = or_else (high c) (lit 4096 1); unclamped = raw v in
        bindO (clamp64 unclamped lo hi) (\<lambda>r.
          if adc_mode c then
            let mid = add64 lo (mul64 (sub64 hi lo) (lit 1 2))
            in Ok (finish_range c r (if le64 r mid then 0 else lit 1 1) v)
          else case table_index c of
            Some idx \<Rightarrow>
              let mn = or_else (conv_min c) 0; mx = or_else (conv_max c) (lit 100 1);
                  margin = mul64 (sub64 hi lo) (lit 2 100)
              in if le64 unclamped (add64 lo margin) then Ok (written Fault unclamped mn v)
                 else if le64 (sub64 hi margin) unclamped then Ok (written Fault unclamped mx v)
                 else Ok (finish_range c r (or_else (lookup ts idx r mn mx) (range_scaled lo hi r)) v)
          | None \<Rightarrow>
              if low c \<noteq> None \<and> high c \<noteq> None then Ok (finish_range c r (range_scaled lo hi r) v)
              else Ok (finish_range c r r v)))"

definition convert :: "value_conv \<Rightarrow> table_store \<Rightarrow> engine_value \<Rightarrow> bool option \<Rightarrow>
    ('e, engine_value \<times> bool option) outcome" where
  "convert c ts v flow = (case conv_func c of
      Some f \<Rightarrow>
        let r0 = max64 (raw v) 0;
            cfg = or_else (flow_cfg c) default_flow_config;
            (r, flow') = (case flow of
                Some detected \<Rightarrow>
                  if hysteresis_enabled cfg
                  then let (x, d) = apply_hysteresis r0 (hyst_on cfg) (hyst_off cfg) detected in (x, Some d)
                  else (r0, flow)
              | None \<Rightarrow> (r0, flow))
        in bindO (apply_combined_transform c (flow_convert f cfg r)) (\<lambda>x.
             Ok (written StatusOk r (clamp_output c x) v, flow'))
    | None \<Rightarrow> bindO (convert_table_or_range c ts v) (\<lambda>v'. Ok (v', flow)))"

definition revert :: "value_conv \<Rightarrow> table_store \<Rightarrow> engine_value \<Rightarrow> ('e, engine_value) outcome" where
  "revert c ts v =
     (let x1 = (case conv_max c of Some m \<Rightarrow> min64 (cur v) m | None \<Rightarrow> cur v);
          x2 = (case conv_min c of Some m \<Rightarrow> max64 x1 m | None \<Rightarrow> x1);
          x3 = (case conv_scale c of Some sc \<Rightarrow> if \<not> eq64 sc 0 then div64 x2 sc else x2 | None \<Rightarrow> x2);
          x4 = (case conv_offset c of Some off \<Rightarrow> sub64 x3 off | None \<Rightarrow> x3);
          r = (if adc_mode c then
                 if le64 x4 0 then or_else (low c) 0 else or_else (high c) (lit 4096 1)
               else case table_index c of
                 Some idx \<Rightarrow> or_else (reverse_lookup ts idx x4 (or_else (conv_min c) 0) (or_else (conv_max c) (lit 100 1))) x4
               | None \<Rightarrow> mul64 x4 (sub64 (or_else (high c) (lit 1 1)) (or_else (low c) 0)))
      in bindO (case (low c, high c) of (Some lo, Some hi) \<Rightarrow> clamp64 r lo hi | _ \<Rightarrow> Ok r) (\<lambda>r'.
           Ok (v\<lparr>status := StatusOk, raw := r', cur := x4, flags := flags v OR FLAG_RAW, trigger := False\<rparr>)))"

section \<open>Sensor detection\<close>

definition variant_to_tag :: "u32 \<Rightarrow> string option" where
  "variant_to_tag v =
     (if v = 0 then Some ''range0to10V'' else if v = 1 then Some ''range0to5V''
      else if v = 2 then Some ''range0to20mA'' else if v = 3 then Some ''range4to20mA''
      else if v = 10 then Some ''thermistor2200'' else if v = 11 then Some ''thermistor3000''
      else if v = 12 then Some ''thermistor10K1'' else if v = 13 then Some ''thermistor10K2''
      else if v = 14 then Some ''thermistor10K3'' else if v = 15 then Some ''thermistor20K''
      else if v = 16 then Some ''thermistor100K'' else if v = 20 then Some ''pt100''
      else if v = 21 then Some ''pt500'' else if v = 22 then Some ''pt1000'' else if v = 23 then Some ''ni1000''
      else None)"

definition unit_range :: "string \<Rightarrow> table_ranges \<Rightarrow> f64 \<times> f64" where
  "unit_range u rs =
     (if u = ''f'' \<or> u = [CHR 0xB0, CHR ''f''] \<or> u = ''fahrenheit'' then fahrenheit rs
      else if u = ''c'' \<or> u = [CHR 0xB0, CHR ''c''] \<or> u = ''celsius'' then celsius rs
      else if u = ''k'' \<or> u = ''kelvin'' then kelvin rs
      else fahrenheit rs)"

definition use_table :: "usize \<Rightarrow> table_item \<Rightarrow> value_conv \<Rightarrow> value_conv" where
  "use_table idx t c =
     (let c1 = c\<lparr>table_index := Some idx\<rparr>;
          c2 = (case (low_value t, high_value t) of (Some l, Some h) \<Rightarrow> c1\<lparr>low := Some l, high := Some h\<rparr> | _ \<Rightarrow> c1);
          (mn, mx) = unit_range (to_lowercase (conv_unit c)) (ranges t)
      in if conv_min c2 = None then c2\<lparr>conv_min := Some mn, conv_max := Some mx\<rparr> else c2)"

definition auto_detect_sensor :: "channel_id \<Rightarrow> table_store \<Rightarrow> value_conv \<Rightarrow> bool \<times> value_conv" where
  "auto_detect_sensor channel ts c =
     (let physical_input = channel div 100; sensor_variant = channel mod 100 in
      if table_index c \<noteq> None \<and> low c \<noteq> None \<and> high c \<noteq> None then (False, c)
      else if \<not> (1100 \<le> channel \<and> channel \<le> 1723) then (False, c)
      else if \<not> (11 \<le> physical_input \<and> physical_input \<le> 71) then (False, c)
      else if conv_unit c = [] then (False, c)
      else case variant_to_tag sensor_variant of
        None \<Rightarrow> (False, c)
      | Some tg \<Rightarrow>
          case find_by_tag ts tg of
            None \<Rightarrow> (False, c)
          | Some idx \<Rightarrow>
              case table_get ts idx of
                None \<Rightarrow> (False, c)
              | Some t \<Rightarrow> (True, use_table idx t c))"

section \<open>Limits hold\<close>

lemma clamp_output_bounds:
  assumes "conv_min c = Some mn" "conv_max c = Some mx" "le64 mn mx"
  shows "le64 mn (clamp_output c x)" "le64 (clamp_output c x) mx"
proof -
  have nn: "\<not> nan64 mn" "\<not> nan64 mx" using assms(3) by (metis nan_compare(3,4))+
  have "\<not> nan64 (max64 x mn)" using nn by (simp add: max64_def)
  moreover have "le64 mn (max64 x mn)"
    using nn by (cases "nan64 x") (auto simp: max64_def le64_key lt64_key)
  ultimately show "le64 mn (clamp_output c x)" "le64 (clamp_output c x) mx"
    using nn assms by (auto simp: clamp_output_def min64_def le64_key lt64_key Let_def)
qed

lemma finish_range_cur: "cur (finish_range c r x v) = clamp_output c
    (case conv_scale c of Some sc \<Rightarrow> mul64 (case conv_offset c of Some off \<Rightarrow> add64 x off | None \<Rightarrow> x) sc
                        | None \<Rightarrow> (case conv_offset c of Some off \<Rightarrow> add64 x off | None \<Rightarrow> x))"
  "status (finish_range c r x v) = StatusOk" "raw (finish_range c r x v) = r"
  by (simp_all add: finish_range_def written_def Let_def)

lemma written_fields [simp]:
  "status (written st r c v) = st" "raw (written st r c v) = r" "cur (written st r c v) = c" "trigger (written st r c v) = False"
  by (simp_all add: written_def)

lemma convert_range_cases:
  assumes "convert_table_or_range c ts v = (Ok v' :: ('e, engine_value) outcome)"
  obtains (no_range) "v' = v\<lparr>status := Fault, trigger := False\<rparr>"
  | (fault) m where "v' = written Fault (raw v) m v" "m = or_else (conv_min c) 0 \<or> m = or_else (conv_max c) (lit 100 1)"
  | (fine) r x where "v' = finish_range c r x v"
      "clamp64 (raw v) (or_else (low c) 0) (or_else (high c) (lit 4096 1)) = (Ok r :: ('e, f64) outcome)"
proof (cases "table_index c \<noteq> None \<and> low c = None \<and> high c = None")
  case True
  with assms no_range show thesis by (simp add: convert_table_or_range_def)
next
  case False
  then obtain r where r: "clamp64 (raw v) (or_else (low c) 0) (or_else (high c) (lit 4096 1)) = (Ok r :: ('e, f64) outcome)"
    using assms by (auto simp: convert_table_or_range_def Let_def)
  have "(\<exists>m. v' = written Fault (raw v) m v \<and> (m = or_else (conv_min c) 0 \<or> m = or_else (conv_max c) (lit 100 1))) \<or>
      (\<exists>x. v' = finish_range c r x v)"
    using assms False unfolding convert_table_or_range_def Let_def r bindO.simps
    by (cases "adc_mode c"; cases "table_index c") (simp_all split: if_splits, blast+)
  with r fault fine show thesis by blast
qed

lemma convert_func_cases:
  assumes "convert c ts v flow = (Ok (v', flow') :: ('e, _) outcome)" "conv_func c = Some f"
  obtains r x where "v' = written StatusOk r (clamp_output c x) v"
  using assms unfolding convert_def Let_def by (auto split: prod.splits)

lemma convert_bounded_cases:
  assumes "convert c ts v flow = (Ok (v', flow') :: (engine_error, _) outcome)"
    and "conv_min c = Some mn" "conv_max c = Some mx" "le64 mn mx"
  shows "le64 mn (cur v') \<and> le64 (cur v') mx \<or> (status v' = Fault \<and> cur v' = cur v)"
    and "conv_func c = None \<Longrightarrow> \<not> nan64 (raw v) \<Longrightarrow> status v' = StatusOk \<Longrightarrow>
      le64 (or_else (low c) 0) (raw v') \<and> le64 (raw v') (or_else (high c) (lit 4096 1))"
    and "trigger v' = False"
proof -
  have nn: "le64 mn mn" "le64 mx mx" using assms(4) by (metis nan_compare(3,4) le64_key order_refl)+
  note bounds = clamp_output_bounds [OF assms(2-4)]
  have "(le64 mn (cur v') \<and> le64 (cur v') mx \<or> status v' = Fault \<and> cur v' = cur v) \<and> \<not> trigger v' \<and>
    (conv_func c = None \<longrightarrow> \<not> nan64 (raw v) \<longrightarrow> status v' = StatusOk \<longrightarrow>
      le64 (or_else (low c) 0) (raw v') \<and> le64 (raw v') (or_else (high c) (lit 4096 1)))"
  proof (cases "conv_func c")
    case (Some f)
    from assms(1) Some obtain r x where "v' = written StatusOk r (clamp_output c x) v" by (rule convert_func_cases)
    then show ?thesis using bounds Some by simp
  next
    case None
    then have "convert_table_or_range c ts v = (Ok v' :: (engine_error, _) outcome)" using assms(1) by (auto simp: convert_def)
    then show ?thesis
    proof (cases rule: convert_range_cases)
      case (fine r x)
      then show ?thesis using bounds clamp64_bounds [OF fine(2)]
        by (simp add: finish_range_cur) (simp add: finish_range_def Let_def)
    qed (use nn assms(2-4) in \<open>auto simp: or_else_def\<close>)
  qed
  then show "le64 mn (cur v') \<and> le64 (cur v') mx \<or> (status v' = Fault \<and> cur v' = cur v)"
    and "conv_func c = None \<Longrightarrow> \<not> nan64 (raw v) \<Longrightarrow> status v' = StatusOk \<Longrightarrow>
      le64 (or_else (low c) 0) (raw v') \<and> le64 (raw v') (or_else (high c) (lit 4096 1))"
    and "trigger v' = False" by blast+
qed

text \<open>Conversion keeps its limits. With output limits that are ordered, a conversion that returns leaves the converted
  value between them, whatever the reading, the table and the formula are, NaN included; the only exception is the
  fault of a table without a range, which leaves the value as it was. In the range and table conversions that
  report success, the raw value written back lies in the input range.\<close>

theorem convert_bounded:
  assumes "convert c ts v flow = (Ok (v', flow') :: (engine_error, _) outcome)"
    and "conv_min c = Some mn" "conv_max c = Some mx" "le64 mn mx"
  shows "(le64 mn (cur v') \<and> le64 (cur v') mx \<or> (status v' = Fault \<and> cur v' = cur v)) \<and>
    (conv_func c = None \<and> \<not> nan64 (raw v) \<and> status v' = StatusOk \<longrightarrow>
      le64 (or_else (low c) 0) (raw v') \<and> le64 (raw v') (or_else (high c) (lit 4096 1))) \<and>
    trigger v' = False"
  using convert_bounded_cases [OF assms] by blast

definition sample_conv :: value_conv where
  "sample_conv = default_conv\<lparr>low := Some 0, high := Some (lit 4 1), conv_min := Some 0, conv_max := Some (lit 1 2)\<rparr>"

theorem convert_bounded_witness:
  "\<exists>v' fl. convert sample_conv [] (default_value\<lparr>raw := lit 9 1\<rparr>) None = (Ok (v', fl) :: (engine_error, _) outcome) \<and>
     le64 0 (cur v') \<and> le64 (cur v') (lit 1 2) \<and> status v' = StatusOk \<and> le64 (raw v') (lit 4 1)"
proof -
  let ?v = "default_value\<lparr>raw := lit 9 1\<rparr>"
  have c: "conv_func sample_conv = None" "conv_min sample_conv = Some 0" "conv_max sample_conv = Some (lit 1 2)"
    "low sample_conv = Some 0" "high sample_conv = Some (lit 4 1)" "table_index sample_conv = None" "adc_mode sample_conv = False"
    by (simp_all add: sample_conv_def default_conv_def)
  have le: "le64 0 (lit 1 2)" "le64 0 (lit 4 1)" "\<not> nan64 (lit 9 1)" by (simp_all add: float_eval)
  obtain r where r: "clamp64 (lit 9 1) 0 (lit 4 1) = (Ok r :: (engine_error, f64) outcome)" using le by (simp add: clamp64_def)
  then have run: "convert sample_conv [] ?v None =
      (Ok (finish_range sample_conv r (range_scaled 0 (lit 4 1) r) ?v, None) :: (engine_error, _) outcome)"
    by (simp add: convert_def convert_table_or_range_def c or_else_def Let_def)
  show ?thesis
    using convert_bounded [OF run c(2,3) le(1)] le run by (simp add: c finish_range_cur or_else_def)
qed

end
