(* ===== verification/Priority_Array.thy ===== *)
theory Priority_Array
  imports Floats
begin

text \<open>
  The BACnet-style write priority array of an output channel (\<open>sandstar-engine/src/priority.rs\<close>):
  17 levels, of which the first one that holds a value is effective. The code caches the index of
  that level. \<open>first_set\<close> is the specification without the cache; the cached index agrees
  with it in every state that operations reach, so that every answer of the array is the one of the
  specification. Timed levels carry a deadline and go away with the first expiry at or after it.
\<close>

section \<open>Levels and operations\<close>

definition MAX_LEVELS :: usize where "MAX_LEVELS = 17"
definition MAX_WHO_LEN :: usize where "MAX_WHO_LEN = 16"

record write_level =
  level_value :: "f64 option"
  level_who :: string
  level_duration :: f64
  level_expires_at :: "instant option"

definition default_level :: write_level where
  "default_level = \<lparr>level_value = None, level_who = [], level_duration = 0, level_expires_at = None\<rparr>"

record write_result =
  effective_value :: "f64 option"
  effective_level :: u8

record priority_array =
  levels :: "write_level list"
  active_level :: usize

definition default_array :: priority_array where
  "default_array = \<lparr>levels = replicate MAX_LEVELS default_level, active_level = MAX_LEVELS - 1\<rparr>"

text \<open>\<open>self.levels[self.active_level].value\<close>; an index past the array panics.\<close>

definition active_value :: "priority_array \<Rightarrow> ('e, f64 option) outcome" where
  "active_value pa = (if active_level pa < length (levels pa)
     then Ok (level_value (levels pa ! active_level pa)) else Panic)"

definition effective :: "priority_array \<Rightarrow> ('e, f64 option \<times> u8) outcome" where
  "effective pa = bindO (active_value pa) (\<lambda>v.
     Ok (v, if v \<noteq> None then of_nat (active_level pa + 1) else 0))"

text \<open>The scan for the first level with a value, from index \<open>i\<close> on.\<close>

fun scan_levels :: "nat \<Rightarrow> write_level list \<Rightarrow> nat" where
  "scan_levels i [] = MAX_LEVELS - 1"
| "scan_levels i (l # ls) = (if level_value l \<noteq> None then i else scan_levels (i + 1) ls)"

definition recalculate_active :: "priority_array \<Rightarrow> priority_array" where
  "recalculate_active pa = pa\<lparr>active_level := scan_levels 0 (levels pa)\<rparr>"

definition deadline :: "instant \<Rightarrow> f64 option \<Rightarrow> f64 \<Rightarrow> ('e, instant option) outcome" where
  "deadline now v d = (if lt64 0 d \<and> v \<noteq> None
     then bindO (from_secs_f64 d) (\<lambda>n. bindO (instant_add now n) (\<lambda>t. Ok (Some t)))
     else Ok None)"

definition set_level :: "instant \<Rightarrow> u8 \<Rightarrow> f64 option \<Rightarrow> string \<Rightarrow> f64 \<Rightarrow>
    (priority_array, 'e, write_result) routine" where
  "set_level now level v who d =
     (if \<not> (1 \<le> level \<and> level \<le> of_nat MAX_LEVELS)
      then query (\<lambda>pa. bindO (effective pa) (\<lambda>(ev, el). Ok \<lparr>effective_value = ev, effective_level = el\<rparr>))
      else
        let idx = unat (level - 1) in
        bnd (lift (deadline now v d)) (\<lambda>t.
        sq (query (\<lambda>pa. if idx < length (levels pa) then Ok () else Panic))
       (sq (modify (\<lambda>pa. pa\<lparr>levels := (levels pa)[idx :=
              \<lparr>level_value = v, level_who = take MAX_WHO_LEN who, level_duration = d, level_expires_at = t\<rparr>]\<rparr>))
       (\<lambda>pa.
          if v \<noteq> None then
            if idx \<le> active_level pa
            then (Ok \<lparr>effective_value = v, effective_level = level\<rparr>, pa\<lparr>active_level := idx\<rparr>)
            else query (\<lambda>pa. bindO (active_value pa) (\<lambda>ev.
                   Ok \<lparr>effective_value = ev, effective_level = of_nat (active_level pa + 1)\<rparr>)) pa
          else
            sq (if idx = active_level pa then modify recalculate_active else ret ())
               (query (\<lambda>pa. bindO (active_value pa) (\<lambda>ev.
                  Ok \<lparr>effective_value = ev,
                      effective_level = if ev \<noteq> None then of_nat (active_level pa + 1) else 0\<rparr>))) pa))))"

definition clear_array :: "priority_array \<Rightarrow> priority_array" where
  "clear_array pa = pa\<lparr>levels := map (\<lambda>_. default_level) (levels pa), active_level := MAX_LEVELS - 1\<rparr>"

definition level_due :: "instant \<Rightarrow> write_level \<Rightarrow> bool" where
  "level_due now l \<longleftrightarrow> (case level_expires_at l of Some t \<Rightarrow> t \<le> now \<and> level_value l \<noteq> None | None \<Rightarrow> False)"

definition expire_level :: "instant \<Rightarrow> write_level \<Rightarrow> write_level" where
  "expire_level now l = (if level_due now l
     then l\<lparr>level_value := None, level_who := [], level_duration := 0, level_expires_at := None\<rparr> else l)"

definition expire_timed_levels :: "instant \<Rightarrow> priority_array \<Rightarrow> bool \<times> priority_array" where
  "expire_timed_levels now pa =
     (let any_expired = list_ex (level_due now) (levels pa);
          pa' = pa\<lparr>levels := map (expire_level now) (levels pa)\<rparr>
      in (any_expired, if any_expired then recalculate_active pa' else pa'))"

section \<open>Specification\<close>

text \<open>The value and the 1-based number of the first level that holds one, and 0 when none does.\<close>

fun first_set :: "nat \<Rightarrow> f64 option list \<Rightarrow> f64 option \<times> nat" where
  "first_set i [] = (None, 0)"
| "first_set i (None # vs) = first_set (i + 1) vs"
| "first_set i (Some v # vs) = (Some v, i + 1)"

definition level_values :: "priority_array \<Rightarrow> f64 option list" where
  "level_values pa = map level_value (levels pa)"

definition spec_effective :: "priority_array \<Rightarrow> f64 option \<times> u8" where
  "spec_effective pa = map_prod (\<lambda>v. v) of_nat (first_set 0 (level_values pa))"

definition array_ok :: "priority_array \<Rightarrow> bool" where
  "array_ok pa \<longleftrightarrow> length (levels pa) = MAX_LEVELS \<and> active_level pa = scan_levels 0 (levels pa)"

lemma scan_levels_bound: "i + length ls \<le> MAX_LEVELS \<Longrightarrow> scan_levels i ls < MAX_LEVELS"
  by (induction i ls rule: scan_levels.induct) (auto simp: MAX_LEVELS_def)

lemma scan_levels_cases:
  "(\<forall>l\<in>set ls. level_value l = None) \<and> scan_levels i ls = MAX_LEVELS - 1 \<or>
   (\<exists>k<length ls. scan_levels i ls = i + k \<and> level_value (ls ! k) \<noteq> None \<and> (\<forall>j<k. level_value (ls ! j) = None))"
proof (induction i ls rule: scan_levels.induct)
  case (2 i l ls)
  show ?case
  proof (cases "level_value l")
    case None
    with 2 consider "\<forall>l\<in>set ls. level_value l = None" "scan_levels (i + 1) ls = MAX_LEVELS - 1"
      | k where "k < length ls" "scan_levels (i + 1) ls = i + 1 + k" "level_value (ls ! k) \<noteq> None"
          "\<forall>j<k. level_value (ls ! j) = None" by blast
    then show ?thesis
    proof cases
      case 2
      with None have "\<forall>j<Suc k. level_value ((l # ls) ! j) = None" by (simp add: All_less_Suc2)
      with 2 None show ?thesis by (intro disjI2 exI [of _ "Suc k"]) simp
    qed (simp add: None)
  qed (auto intro!: exI [of _ 0])
qed simp

lemma first_set_scan:
  "first_set i (map level_value ls) =
     (if \<forall>l\<in>set ls. level_value l = None then (None, 0)
      else (level_value (ls ! (scan_levels i ls - i)), scan_levels i ls + 1))"
proof (induction i ls rule: scan_levels.induct)
  case (2 i l ls)
  show ?case
  proof (cases "level_value l")
    case None
    have "scan_levels (i + 1) ls - i = Suc (scan_levels (i + 1) ls - (i + 1))" if "\<not> (\<forall>l\<in>set ls. level_value l = None)"
      using scan_levels_cases [of ls "i + 1"] that by auto
    with None 2 show ?thesis by auto
  qed auto
qed simp

text \<open>The cached index is the one the specification finds, so that \<open>effective\<close> is the specification.\<close>

lemma scan_all_empty: "\<forall>l\<in>set ls. level_value l = None \<Longrightarrow> scan_levels i ls = MAX_LEVELS - 1"
  by (induction i ls rule: scan_levels.induct) auto

lemma effective_spec: "array_ok pa \<Longrightarrow> effective pa = Ok (spec_effective pa)"
  using scan_levels_bound [of 0 "levels pa"] scan_levels_cases [of "levels pa" 0]
  by (auto simp: array_ok_def effective_def active_value_def spec_effective_def level_values_def first_set_scan
      scan_all_empty)

lemma spec_effective_eq:
  assumes "array_ok pa"
  shows "level_value (levels pa ! active_level pa) = fst (spec_effective pa)" "active_level pa < length (levels pa)"
    and "snd (spec_effective pa) = (if fst (spec_effective pa) \<noteq> None then of_nat (active_level pa + 1) else 0)"
  using effective_spec [OF assms, where ?'a = unit]
  by (auto simp: effective_def active_value_def split: if_splits dest: arg_cong [of _ _ fst] arg_cong [of _ _ snd])

lemma active_value_spec: "array_ok pa \<Longrightarrow> active_value pa = Ok (fst (spec_effective pa))"
  by (simp add: active_value_def spec_effective_eq)

section \<open>Operations keep the cache right\<close>

lemma default_array_ok: "array_ok default_array"
  by (simp add: array_ok_def default_array_def scan_all_empty default_level_def)

lemma recalculate_ok: "length (levels pa) = MAX_LEVELS \<Longrightarrow> array_ok (recalculate_active pa)"
  by (simp add: array_ok_def recalculate_active_def)

lemma scan_update_Some:
  assumes "idx < length ls" "idx \<le> scan_levels 0 ls" "level_value l = Some v"
  shows "scan_levels 0 (ls[idx := l]) = idx"
proof -
  have "scan_levels i (ls[idx := l]) = i + idx" if "i + idx \<le> scan_levels i ls" "idx < length ls" for i
    using that assms(3)
    by (induction i ls arbitrary: idx rule: scan_levels.induct)
       (fastforce split: nat.splits if_splits)+
  from this [of 0] assms show ?thesis by simp
qed

lemma scan_lower: "i + length ls \<le> MAX_LEVELS \<Longrightarrow> i \<le> Suc (scan_levels i ls)"
  by (induction i ls rule: scan_levels.induct) auto

lemma scan_update_later:
  assumes "scan_levels 0 ls < idx" "idx < length ls" "length ls \<le> MAX_LEVELS"
  shows "scan_levels 0 (ls[idx := l]) = scan_levels 0 ls"
proof -
  have "scan_levels i (ls[idx := l]) = scan_levels i ls"
    if "scan_levels i ls < i + idx" "idx < length ls" "i + length ls \<le> MAX_LEVELS" for i
    using that
  proof (induction i ls arbitrary: idx rule: scan_levels.induct)
    case (2 i l ls)
    then show ?case using scan_lower [of "Suc i" ls] by (auto split: nat.splits if_splits)
  qed simp
  from this [of 0] assms show ?thesis by simp
qed

lemma scan_update_None:
  "level_value (ls ! idx) = None \<Longrightarrow> level_value l = None \<Longrightarrow> scan_levels i (ls[idx := l]) = scan_levels i ls"
  by (induction i ls arbitrary: idx rule: scan_levels.induct) (auto split: nat.splits)

lemma before_active_empty:
  "array_ok pa \<Longrightarrow> idx < active_level pa \<Longrightarrow> level_value (levels pa ! idx) = None"
  using scan_levels_cases [of "levels pa" 0] scan_levels_bound [of 0 "levels pa"] by (auto simp: array_ok_def)

text \<open>The level that a write stores, and the array with it.\<close>

definition stored :: "u8 \<Rightarrow> write_level \<Rightarrow> priority_array \<Rightarrow> write_level list" where
  "stored level l pa = (levels pa)[unat (level - 1) := l]"

definition valid_level :: "u8 \<Rightarrow> bool" where
  "valid_level level \<longleftrightarrow> 1 \<le> level \<and> level \<le> 17"

definition new_level :: "f64 option \<Rightarrow> string \<Rightarrow> f64 \<Rightarrow> instant option \<Rightarrow> write_level" where
  "new_level v who d t = \<lparr>level_value = v, level_who = take 16 who, level_duration = d, level_expires_at = t\<rparr>"

lemma valid_level_index: "valid_level level \<Longrightarrow> unat (level - 1) < 17 \<and> of_nat (unat (level - 1) + 1) = level"
proof -
  assume "valid_level level"
  then have "1 \<le> unat level" "unat level \<le> 17" "unat (level - 1) = unat level - 1"
    by (auto simp: valid_level_def word_le_nat_alt unat_sub)
  then show ?thesis by simp
qed

lemma store_ok:
  assumes "array_ok pa" "valid_level level"
  defines "idx \<equiv> unat (level - 1)"
  shows "v \<noteq> None \<Longrightarrow> idx \<le> active_level pa \<Longrightarrow>
           array_ok (pa\<lparr>levels := (levels pa)[idx := new_level v who d t], active_level := idx\<rparr>)"
    and "v \<noteq> None \<Longrightarrow> \<not> idx \<le> active_level pa \<Longrightarrow>
           array_ok (pa\<lparr>levels := (levels pa)[idx := new_level v who d t]\<rparr>)"
    and "idx \<noteq> active_level pa \<Longrightarrow> array_ok (pa\<lparr>levels := (levels pa)[idx := new_level None who d t]\<rparr>)"
proof -
  have len: "length (levels pa) = 17" "scan_levels 0 (levels pa) = active_level pa"
    using assms(1) by (simp_all add: array_ok_def MAX_LEVELS_def)
  have idx: "idx < 17" using valid_level_index [OF assms(2)] by (simp add: idx_def)
  show "v \<noteq> None \<Longrightarrow> idx \<le> active_level pa \<Longrightarrow>
      array_ok (pa\<lparr>levels := (levels pa)[idx := new_level v who d t], active_level := idx\<rparr>)"
    using len idx by (auto simp: array_ok_def MAX_LEVELS_def new_level_def scan_update_Some)
  show "v \<noteq> None \<Longrightarrow> \<not> idx \<le> active_level pa \<Longrightarrow>
      array_ok (pa\<lparr>levels := (levels pa)[idx := new_level v who d t]\<rparr>)"
    using len idx by (simp add: array_ok_def MAX_LEVELS_def scan_update_later)
  assume ne: "idx \<noteq> active_level pa"
  show "array_ok (pa\<lparr>levels := (levels pa)[idx := new_level None who d t]\<rparr>)"
  proof (cases "idx < active_level pa")
    case True
    then show ?thesis using before_active_empty [OF assms(1) True] len
      by (simp add: array_ok_def MAX_LEVELS_def scan_update_None new_level_def)
  next
    case False
    then show ?thesis using ne len idx by (simp add: array_ok_def MAX_LEVELS_def scan_update_later)
  qed
qed

lemma MAX_LEVELS_word [simp]: "(of_nat MAX_LEVELS :: u8) = 17"
  by (simp add: MAX_LEVELS_def)

lemma set_level_invalid:
  "array_ok pa \<Longrightarrow> \<not> valid_level level \<Longrightarrow> set_level now level v who d pa =
     (Ok \<lparr>effective_value = fst (spec_effective pa), effective_level = snd (spec_effective pa)\<rparr>, pa)"
  by (simp add: set_level_def valid_level_def query_def effective_spec split_beta)

lemma relinquish_answer:
  "array_ok pa \<Longrightarrow> bindO (active_value pa) (\<lambda>ev. Ok \<lparr>effective_value = ev,
      effective_level = if ev \<noteq> None then of_nat (active_level pa + 1) else 0\<rparr>) =
    Ok \<lparr>effective_value = fst (spec_effective pa), effective_level = snd (spec_effective pa)\<rparr>"
  by (simp add: active_value_spec spec_effective_eq(3))

lemma set_level_valid:
  assumes ok: "array_ok pa" and v: "valid_level level" and t: "deadline now v d = (Ok t :: ('e, instant option) outcome)"
  shows "\<exists>pa'. set_level now level v who d pa =
      ((Ok \<lparr>effective_value = fst (spec_effective pa'), effective_level = snd (spec_effective pa')\<rparr>
         :: ('e, write_result) outcome), pa') \<and>
    array_ok pa' \<and> levels pa' = stored level (new_level v who d t) pa"
proof -
  define idx where "idx = unat (level - 1)"
  define pa1 where "pa1 = pa\<lparr>levels := (levels pa)[idx := new_level v who d t]\<rparr>"
  have idx: "idx < length (levels pa)" "of_nat (idx + 1) = level" and len: "length (levels pa) = MAX_LEVELS"
    using valid_level_index [OF v] ok by (simp_all add: idx_def array_ok_def MAX_LEVELS_def)
  have run: "(set_level now level v who d pa :: ('e, _) outcome \<times> _) =
      (if v \<noteq> None then
         if idx \<le> active_level pa1 then (Ok \<lparr>effective_value = v, effective_level = level\<rparr>, pa1\<lparr>active_level := idx\<rparr>)
         else (bindO (active_value pa1) (\<lambda>ev.
                 Ok \<lparr>effective_value = ev, effective_level = of_nat (active_level pa1 + 1)\<rparr>), pa1)
       else (let pa2 = if idx = active_level pa1 then recalculate_active pa1 else pa1 in
             (bindO (active_value pa2) (\<lambda>ev. Ok \<lparr>effective_value = ev,
                effective_level = if ev \<noteq> None then of_nat (active_level pa2 + 1) else 0\<rparr>), pa2)))"
    using v t idx
    by (cases v) (auto simp: set_level_def valid_level_def idx_def [symmetric] monad_defs Let_def MAX_WHO_LEN_def pa1_def
        new_level_def cong: if_cong)
  have le: "active_level pa1 = active_level pa" by (simp add: pa1_def)
  consider (higher) "v \<noteq> None" "idx \<le> active_level pa" | (lower) "v \<noteq> None" "\<not> idx \<le> active_level pa"
    | (active) "v = None" "idx = active_level pa" | (other) "v = None" "idx \<noteq> active_level pa" by blast
  then show ?thesis
  proof cases
    case higher
    with store_ok(1) [OF ok v, of v who d t] have "array_ok (pa1\<lparr>active_level := idx\<rparr>)" by (simp add: pa1_def idx_def)
    moreover from this higher idx have "spec_effective (pa1\<lparr>active_level := idx\<rparr>) = (v, level)"
      using effective_spec [of "pa1\<lparr>active_level := idx\<rparr>"]
      by (simp add: effective_def active_value_def pa1_def new_level_def)
    ultimately show ?thesis using run higher by (auto simp: le stored_def pa1_def idx_def)
  next
    case lower
    with store_ok(2) [OF ok v, of v who d t] have pa1: "array_ok pa1" by (simp add: pa1_def idx_def)
    have "level_value (levels pa ! active_level pa) \<noteq> None"
      using scan_levels_cases [of "levels pa" 0] lower(2) idx(1) len ok by (auto simp: array_ok_def)
    then have "snd (spec_effective pa1) = of_nat (active_level pa + 1)"
      using effective_spec [OF pa1] lower(2) by (auto simp: effective_def active_value_def pa1_def split: if_splits dest: arg_cong [of _ _ snd])
    then show ?thesis using run lower pa1 by (auto simp: le active_value_spec stored_def pa1_def idx_def)
  next
    case active
    have "array_ok (recalculate_active pa1)" using len by (simp add: recalculate_ok pa1_def)
    moreover have "levels (recalculate_active pa1) = stored level (new_level v who d t) pa"
      by (simp add: recalculate_active_def pa1_def stored_def idx_def)
    ultimately show ?thesis unfolding run using active
      by (intro exI [of _ "recalculate_active pa1"]) (simp add: le Let_def relinquish_answer [simplified])
  next
    case other
    with store_ok(3) [OF ok v, of who d t] have "array_ok pa1" by (simp add: pa1_def idx_def)
    moreover have "levels pa1 = stored level (new_level v who d t) pa" by (simp add: pa1_def stored_def idx_def)
    ultimately show ?thesis unfolding run using other
      by (intro exI [of _ pa1]) (simp add: Let_def relinquish_answer [simplified] le)
  qed
qed

lemma deadline_no_error: "deadline now v d \<noteq> Err e"
  by (auto simp: deadline_def from_secs_f64_def instant_add_def Let_def split: fval.splits if_splits)

lemma set_level_panic:
  assumes "array_ok pa" "valid_level level" "deadline now v d = (Panic :: ('e, instant option) outcome)"
  shows "set_level now level v who d pa = ((Panic :: ('e, write_result) outcome), pa)"
  using assms by (simp add: set_level_def valid_level_def monad_defs Let_def)

lemma clear_array_ok: "array_ok pa \<Longrightarrow> array_ok (clear_array pa)"
  by (simp add: array_ok_def clear_array_def default_level_def scan_all_empty)

lemma expire_level_id: "\<not> level_due now l \<Longrightarrow> expire_level now l = l"
  by (simp add: expire_level_def)

lemma expire_none_due: "\<not> list_ex (level_due now) ls \<Longrightarrow> map (expire_level now) ls = ls"
  by (induction ls) (auto simp: expire_level_id)

lemma expire_array_ok:
  assumes "array_ok pa"
  shows "array_ok (snd (expire_timed_levels now pa))"
    and "levels (snd (expire_timed_levels now pa)) = map (expire_level now) (levels pa)"
    and "fst (expire_timed_levels now pa) \<longleftrightarrow> (\<exists>l\<in>set (levels pa). level_due now l)"
  using assms expire_none_due [of now "levels pa"]
  by (auto simp: expire_timed_levels_def Let_def recalculate_active_def array_ok_def list_ex_iff)

section \<open>Sequences of operations\<close>

datatype array_op =
  SetLevel instant u8 "f64 option" string f64
| ClearArray
| ExpireLevels instant

primrec array_step :: "array_op \<Rightarrow> priority_array \<Rightarrow> priority_array" where
  "array_step (SetLevel now level v who d) pa = snd (set_level now level v who d pa :: (unit, write_result) outcome \<times> _)"
| "array_step ClearArray pa = clear_array pa"
| "array_step (ExpireLevels now) pa = snd (expire_timed_levels now pa)"

definition array_after :: "array_op list \<Rightarrow> priority_array" where
  "array_after ops = fold array_step ops default_array"

text \<open>An invariant of the array: what the initial array has and every operation keeps.\<close>

locale array_invariant =
  fixes I :: "priority_array \<Rightarrow> bool"
  assumes init: "I default_array"
    and set_keeps: "I pa \<Longrightarrow> I (snd (set_level now level v who d pa :: (unit, write_result) outcome \<times> _))"
    and clear_keeps: "I pa \<Longrightarrow> I (clear_array pa)"
    and expire_keeps: "I pa \<Longrightarrow> I (snd (expire_timed_levels now pa))"
begin

lemma step_keeps: "I pa \<Longrightarrow> I (array_step op pa)"
  by (cases op) (simp_all add: set_keeps clear_keeps expire_keeps)

lemma after: "I (array_after ops)"
proof -
  have "I pa \<Longrightarrow> I (fold array_step ops pa)" for pa
    by (induction ops arbitrary: pa) (simp_all add: step_keeps)
  then show ?thesis by (simp add: array_after_def init)
qed

end

interpretation cache: array_invariant array_ok
proof
  fix pa now level v who d
  assume ok: "array_ok pa"
  show "array_ok (snd (set_level now level v who d pa :: (unit, write_result) outcome \<times> _))"
  proof (cases "valid_level level")
    case True
    show ?thesis
    proof (cases "deadline now v d :: (unit, instant option) outcome")
      case (Ok t)
      then show ?thesis using set_level_valid [OF ok True Ok, of who] by auto
    qed (simp_all add: ok deadline_no_error set_level_panic True)
  qed (simp add: set_level_invalid ok)
qed (simp_all add: default_array_ok clear_array_ok expire_array_ok)

section \<open>Properties\<close>

lemma stored_values: "valid_level level \<Longrightarrow>
  map level_value (stored level (new_level v who d t) pa) = (level_values pa)[unat (level - 1) := v]"
  by (simp add: stored_def level_values_def map_update new_level_def)

lemma priority_array_refines_cases:
  assumes "pa = array_after ops"
  shows "effective pa = Ok (spec_effective pa)"
    and "deadline now v d = (Ok t :: (unit, instant option) outcome) \<Longrightarrow>
      (\<exists>r pa'. set_level now level v who d pa = ((Ok r :: (unit, write_result) outcome), pa') \<and>
        (effective_value r, effective_level r) = spec_effective pa' \<and>
        level_values pa' = (if 1 \<le> level \<and> level \<le> 17 then (level_values pa)[unat (level - 1) := v] else level_values pa))"
proof -
  have ok: "array_ok pa" using cache.after assms by simp
  then show "effective pa = Ok (spec_effective pa)" by (rule effective_spec)
  assume t: "deadline now v d = (Ok t :: (unit, instant option) outcome)"
  show "\<exists>r pa'. set_level now level v who d pa = ((Ok r :: (unit, write_result) outcome), pa') \<and>
        (effective_value r, effective_level r) = spec_effective pa' \<and>
        level_values pa' = (if 1 \<le> level \<and> level \<le> 17 then (level_values pa)[unat (level - 1) := v] else level_values pa)"
  proof (cases "valid_level level")
    case True
    with set_level_valid [OF ok True t, of who] show ?thesis
      by (force simp: stored_values level_values_def valid_level_def [symmetric])
  qed (auto simp: set_level_invalid ok valid_level_def [symmetric])
qed

text \<open>C6. The priority array refines its specification: after any sequence of writes, relinquishments, clears and
  expiries, \<open>effective\<close> returns the value and number of the first level that holds a value (0 when none does).
  A write whose deadline can be computed succeeds from there, stores its value at
  its level and nowhere else, and returns the effective value of the array it leaves; a level number outside
  1 to 17 changes nothing.\<close>

theorem priority_array_refines:
  assumes "pa = array_after ops"
  shows "effective pa = Ok (spec_effective pa) \<and>
    (deadline now v d = (Ok t :: (unit, instant option) outcome) \<longrightarrow>
      (\<exists>r pa'. set_level now level v who d pa = ((Ok r :: (unit, write_result) outcome), pa') \<and>
        (effective_value r, effective_level r) = spec_effective pa' \<and>
        level_values pa' = (if 1 \<le> level \<and> level \<le> 17 then (level_values pa)[unat (level - 1) := v] else level_values pa)))"
  using priority_array_refines_cases [OF assms] by blast

theorem priority_array_refines_witness:
  "let pa = array_after [SetLevel 0 8 (Some 5) ''op'' 0, SetLevel 0 16 (Some 7) ''dfl'' 0] in
   effective pa = (Ok (Some 5, 8) :: (unit, _) outcome) \<and>
   (\<exists>r pa'. set_level 9 8 None ''op'' 0 pa = ((Ok r :: (unit, write_result) outcome), pa') \<and>
      (effective_value r, effective_level r) = (Some 7, 16))"
proof -
  define ops where "ops = [SetLevel 0 8 (Some 5) ''op'' 0, SetLevel 0 16 (Some 7) ''dfl'' 0]"
  have spec: "spec_effective (array_after ops) = (Some 5, 8)"
    "map_prod (\<lambda>v. v) of_nat (first_set 0 ((level_values (array_after ops))[unat (8 - 1 :: u8) := None])) = (Some 7, 16 :: u8)"
    unfolding ops_def by code_simp+
  have dl: "deadline 9 None 0 = (Ok None :: (unit, instant option) outcome)" by (simp add: deadline_def)
  obtain r pa' where "set_level 9 8 None ''op'' 0 (array_after ops) = ((Ok r :: (unit, write_result) outcome), pa')"
    "(effective_value r, effective_level r) = spec_effective pa'"
    "level_values pa' = (level_values (array_after ops))[unat (8 - 1 :: u8) := None]"
    using priority_array_refines [OF refl, of ops 9 None 0 None 8 "''op''"] dl by auto
  then show ?thesis using conjunct1 [OF priority_array_refines [OF refl, of ops]] spec
    by (simp add: ops_def [symmetric] Let_def spec_effective_def [of pa'])
qed

lemma timed_write_expires_cases:
  assumes "pa = array_after ops" "1 \<le> level" "level \<le> 17"
    and "deadline now (Some v) d = (Ok (Some t) :: (unit, instant option) outcome)"
    and "set_level now level (Some v) who d pa = ((Ok r :: (unit, write_result) outcome), pa1)"
    and "expire_timed_levels now' pa1 = (expired, pa2)"
  shows "level_value (levels pa2 ! unat (level - 1)) = (if t \<le> now' then None else Some v)"
    and "i < 17 \<Longrightarrow> i \<noteq> unat (level - 1) \<Longrightarrow> \<not> level_due now' (levels pa ! i) \<Longrightarrow> levels pa2 ! i = levels pa ! i"
    and "expired \<longleftrightarrow> (\<exists>l\<in>set (levels pa1). level_due now' l)"
    and "effective pa2 = Ok (spec_effective pa2)"
proof -
  have ok: "array_ok pa" using cache.after assms by simp
  have v: "valid_level level" using assms by (simp add: valid_level_def)
  from set_level_valid [OF ok v assms(4), of who] assms(5)
  have pa1: "array_ok pa1" "levels pa1 = stored level (new_level (Some v) who d (Some t)) pa" by auto
  have len: "length (levels pa) = 17" using ok by (simp add: array_ok_def MAX_LEVELS_def)
  have pa2: "array_ok pa2" "levels pa2 = map (expire_level now') (levels pa1)"
    and "expired \<longleftrightarrow> (\<exists>l\<in>set (levels pa1). level_due now' l)"
    using expire_array_ok [OF pa1(1), of now'] assms(6) by simp_all
  then show "expired \<longleftrightarrow> (\<exists>l\<in>set (levels pa1). level_due now' l)" by simp
  show "effective pa2 = Ok (spec_effective pa2)" using pa2 by (simp add: effective_spec)
  show "level_value (levels pa2 ! unat (level - 1)) = (if t \<le> now' then None else Some v)"
    using valid_level_index [OF v] len by (simp add: pa2 pa1 stored_def expire_level_def level_due_def new_level_def)
  show "i < 17 \<Longrightarrow> i \<noteq> unat (level - 1) \<Longrightarrow> \<not> level_due now' (levels pa ! i) \<Longrightarrow> levels pa2 ! i = levels pa ! i"
    using len by (simp add: pa2 pa1 stored_def expire_level_id)
qed

text \<open>A timed write lasts until its deadline and no longer: an expiry before the deadline leaves the level, an
  expiry at or after it empties the level, no expiry touches a level that has no deadline or one still ahead,
  and the effective value follows.\<close>

theorem timed_write_expires:
  assumes "pa = array_after ops" "1 \<le> level" "level \<le> 17"
    and "deadline now (Some v) d = (Ok (Some t) :: (unit, instant option) outcome)"
    and "set_level now level (Some v) who d pa = ((Ok r :: (unit, write_result) outcome), pa1)"
    and "expire_timed_levels now' pa1 = (expired, pa2)"
  shows "level_value (levels pa2 ! unat (level - 1)) = (if t \<le> now' then None else Some v) \<and>
    (i < 17 \<and> i \<noteq> unat (level - 1) \<and> \<not> level_due now' (levels pa ! i) \<longrightarrow>
      levels pa2 ! i = levels pa ! i) \<and>
    (expired \<longleftrightarrow> (\<exists>l\<in>set (levels pa1). level_due now' l)) \<and>
    effective pa2 = Ok (spec_effective pa2)"
  using timed_write_expires_cases [OF assms] by blast

theorem timed_write_expires_witness:
  "\<exists>r pa1. set_level 0 8 (Some 5) ''op'' (lit 15 10) (array_after []) = ((Ok r :: (unit, write_result) outcome), pa1) \<and>
     level_value (levels (snd (expire_timed_levels 1500000000 pa1)) ! 7) = None \<and>
     level_value (levels (snd (expire_timed_levels 1499999999 pa1)) ! 7) = Some 5"
proof -
  have lt: "lt64 0 (lit 15 10)" and s: "(from_secs_f64 (lit 15 10) :: (unit, duration) outcome) = Ok 1500000000"
    by (simp_all add: float_eval)
  then have dl: "deadline 0 (Some 5) (lit 15 10) = (Ok (Some 1500000000) :: (unit, instant option) outcome)"
    by (simp add: deadline_def instant_add_def nanos_def)
  obtain r pa1 where r: "set_level 0 8 (Some 5) ''op'' (lit 15 10) (array_after []) = ((Ok r :: (unit, write_result) outcome), pa1)"
    using set_level_valid [OF cache.after [of "[]"] _ dl, of 8 "''op''"] by (auto simp: valid_level_def)
  show ?thesis
    using conjunct1 [OF timed_write_expires [OF refl _ _ dl r prod.collapse [symmetric]]] r by simp
qed

end
