(* ===== verification/Engine_Stores.thy ===== *)
theory Engine_Stores
  imports Engine_Values Priority_Array "HOL-Library.AList"
begin

text \<open>
  The stores of the engine: channels (\<open>sandstar-engine/src/channel.rs\<close>), polled channels (\<open>poll.rs\<close>), watches of single
  channels (\<open>watch.rs\<close>) and subscribers of all changes (\<open>notify.rs\<close>). A hash map is an association list
  with distinct keys; its order stands for the unspecified order of iteration. The two
  subscription stores share a contract, stated as a locale: they are sets with an order of registration.
\<close>

section \<open>Channels\<close>

definition I2C_RAW_MAX :: f64 where "I2C_RAW_MAX = lit 32767 1"
definition ZERO_DROP_BASELINE :: f64 where "ZERO_DROP_BASELINE = lit 50 1"
definition SDP810_SPIKE_RATIO :: f64 where "SDP810_SPIKE_RATIO = lit 5 1"

datatype channel_type = Analog | Digital | Pwm | Triac | I2c | Uart | VirtualAnalog | VirtualDigital

definition is_virtual :: "channel_type \<Rightarrow> bool" where
  "is_virtual t \<longleftrightarrow> t = VirtualAnalog \<or> t = VirtualDigital"

datatype channel_direction = DirIn | DirOut | DirHigh | DirLow | DirNone

definition is_output :: "channel_direction \<Rightarrow> bool" where
  "is_output d \<longleftrightarrow> d = DirOut \<or> d = DirHigh \<or> d = DirLow"

record flow_state =
  flow_detected :: bool

record channel =
  chan_id :: channel_id
  channel_in :: "channel_id option"
  enabled :: bool
  chan_type :: channel_type
  chan_direction :: channel_direction
  device :: u32
  address :: u32
  chan_trigger :: bool
  failed :: bool
  retry_counter :: u32
  exported :: bool
  conv :: value_conv
  chan_value :: engine_value
  label :: string
  flow :: "flow_state option"
  spike :: spike_state
  smooth :: smooth_state
  rate_limiter :: rate_limit_state
  pwm_disabled :: bool
  priorities :: "priority_array option"
  last_valid_value :: f64
  spike_reading_count :: u32
  zinc_tags :: "(string \<times> string) list"

definition channel_new :: "channel_id \<Rightarrow> channel_type \<Rightarrow> channel_direction \<Rightarrow> u32 \<Rightarrow> u32 \<Rightarrow> bool \<Rightarrow> value_conv \<Rightarrow> string \<Rightarrow> channel" where
  "channel_new cid ct cd dev adr trig cv lbl =
     \<lparr>chan_id = cid, channel_in = None, enabled = True, chan_type = ct, chan_direction = cd, device = dev, address = adr,
      chan_trigger = trig, failed = False, retry_counter = 0, exported = False, conv = cv, chan_value = default_value,
      label = lbl, flow = (if ct = I2c then Some \<lparr>flow_detected = False\<rparr> else None), spike = default_spike,
      smooth = default_smooth, rate_limiter = default_rate_limit, pwm_disabled = False, priorities = None,
      last_valid_value = 0, spike_reading_count = 0, zinc_tags = []\<rparr>"

definition is_sdp810 :: "channel \<Rightarrow> bool" where
  "is_sdp810 ch \<longleftrightarrow> chan_type ch = I2c \<and> 610 \<le> chan_id ch \<and> chan_id ch \<le> 614"

definition validate_i2c_raw :: "channel \<Rightarrow> f64 \<Rightarrow> f64" where
  "validate_i2c_raw ch x =
     (if \<not> is_sdp810 ch then x
      else if \<not> (le64 0 x \<and> le64 x I2C_RAW_MAX)
           then (if \<not> eq64 (last_valid_value ch) 0 then last_valid_value ch else 0)
      else x)"

definition check_sdp810_spike :: "channel \<Rightarrow> f64 \<Rightarrow> ('e, f64 \<times> channel) outcome" where
  "check_sdp810_spike ch0 x =
     (if \<not> is_sdp810 ch0 then Ok (x, ch0)
      else if spike_reading_count ch0 = - 1 then Panic
      else Ok (
        let ch = ch0\<lparr>spike_reading_count := spike_reading_count ch0 + 1\<rparr>; baseline = last_valid_value ch in
        if eq64 (last_valid_value ch) 0 \<or> spike_reading_count ch < 3 then (x, ch\<lparr>last_valid_value := x\<rparr>)
        else if lt64 ZERO_DROP_BASELINE (abs64 baseline) \<and> lt64 (abs64 x) (lit 1 1) then (baseline, ch)
        else if lt64 (lit 1 (10 ^ 10)) (abs64 baseline) \<and> lt64 SDP810_SPIKE_RATIO (abs64 (div64 x baseline))
        then (baseline, ch)
        else (x, ch\<lparr>last_valid_value := x\<rparr>)))"

type_synonym channel_store = "(channel_id \<times> channel) list"

definition channel_add :: "channel \<Rightarrow> (channel_store, engine_error, unit) routine" where
  "channel_add ch cs =
     (if map_of cs (chan_id ch) \<noteq> None then (Err (DuplicateChannel (chan_id ch)), cs)
      else (Ok (), AList.update (chan_id ch) ch cs))"

definition channel_remove :: "channel_id \<Rightarrow> (channel_store, engine_error, unit) routine" where
  "channel_remove cid cs =
     (if map_of cs cid = None then (Err (ChannelNotFound cid), cs) else (Ok (), AList.delete cid cs))"

definition channel_get :: "channel_store \<Rightarrow> channel_id \<Rightarrow> channel option" where
  "channel_get cs cid = map_of cs cid"

definition channel_put :: "channel_id \<Rightarrow> channel \<Rightarrow> channel_store \<Rightarrow> channel_store" where
  "channel_put cid ch cs = AList.update cid ch cs"

definition channel_contains :: "channel_store \<Rightarrow> channel_id \<Rightarrow> bool" where
  "channel_contains cs cid \<longleftrightarrow> map_of cs cid \<noteq> None"

definition channel_count :: "channel_store \<Rightarrow> usize" where
  "channel_count cs = length cs"

definition update_metadata :: "channel_id \<Rightarrow> bool \<Rightarrow> value_conv \<Rightarrow> string \<Rightarrow> (channel_store, engine_error, unit) routine" where
  "update_metadata cid en cv lbl cs = (case channel_get cs cid of
      None \<Rightarrow> (Err (ChannelNotFound cid), cs)
    | Some ch \<Rightarrow>
        let cv1 = (if conv_func cv = None then cv\<lparr>conv_func := conv_func (conv ch)\<rparr> else cv);
            cv2 = (if conv_func cv1 = None \<and> 610 \<le> cid \<and> cid \<le> 614
                   then cv1\<lparr>conv_func := conversion_from_channel_id cid\<rparr> else cv1)
        in (Ok (), channel_put cid (ch\<lparr>enabled := en, conv := cv2, label := lbl\<rparr>) cs))"

definition update_virtual :: "channel_id \<Rightarrow> channel_id \<Rightarrow> (channel_store, engine_error, unit) routine" where
  "update_virtual cid src cs = (case channel_get cs cid of
      None \<Rightarrow> (Err (ChannelNotFound cid), cs)
    | Some ch \<Rightarrow> (Ok (), channel_put cid (ch\<lparr>channel_in := Some src\<rparr>) cs))"

definition channel_clear :: "channel_store \<Rightarrow> channel_store" where
  "channel_clear cs = []"

section \<open>Polled channels\<close>

definition POLL_RETRY_INTERVAL :: u32 where "POLL_RETRY_INTERVAL = 30"

record poll_item =
  poll_channel :: channel_id
  last_polled :: engine_value
  unchanged_count :: u32
  consecutive_fail_count :: u32

definition poll_item_new :: "channel_id \<Rightarrow> poll_item" where
  "poll_item_new cid = \<lparr>poll_channel = cid, last_polled = default_value, unchanged_count = 0, consecutive_fail_count = 0\<rparr>"

type_synonym poll_store = "(channel_id \<times> poll_item) list"

definition poll_add :: "channel_id \<Rightarrow> poll_store \<Rightarrow> poll_store" where
  "poll_add cid ps = (if map_of ps cid \<noteq> None then ps else AList.update cid (poll_item_new cid) ps)"

definition poll_remove :: "channel_id \<Rightarrow> poll_store \<Rightarrow> poll_store" where
  "poll_remove cid ps = AList.delete cid ps"

definition poll_get :: "poll_store \<Rightarrow> channel_id \<Rightarrow> poll_item option" where
  "poll_get ps cid = map_of ps cid"

definition poll_contains :: "poll_store \<Rightarrow> channel_id \<Rightarrow> bool" where
  "poll_contains ps cid \<longleftrightarrow> map_of ps cid \<noteq> None"

definition poll_count :: "poll_store \<Rightarrow> usize" where
  "poll_count ps = length ps"

definition poll_clear :: "poll_store \<Rightarrow> poll_store" where
  "poll_clear ps = []"

text \<open>A reload of the configuration keeps a copy of the poll list and puts it back when it fails.\<close>

definition snapshot :: "poll_store \<Rightarrow> poll_store" where
  "snapshot ps = ps"

definition restore :: "poll_store \<Rightarrow> poll_store \<Rightarrow> poll_store" where
  "restore saved ps = saved"

text \<open>Counters are 32 bits wide; counting past the last one panics.\<close>

definition record_value :: "channel_id \<Rightarrow> engine_value \<Rightarrow> (poll_store, 'e, bool) routine" where
  "record_value cid v ps = (case map_of ps cid of
      None \<Rightarrow> (Ok False, ps)
    | Some item \<Rightarrow>
        let changed = \<not> values_equal (last_polled item) v in
        if \<not> changed \<and> unchanged_count item = - 1 then (Panic, ps)
        else (Ok changed, AList.update cid
               (item\<lparr>unchanged_count := if changed then 0 else unchanged_count item + 1,
                     last_polled := v, consecutive_fail_count := 0\<rparr>) ps))"

definition record_failure :: "channel_id \<Rightarrow> (poll_store, 'e, unit) routine" where
  "record_failure cid ps = (case map_of ps cid of
      None \<Rightarrow> (Ok (), ps)
    | Some item \<Rightarrow>
        if consecutive_fail_count item = - 1 then (Panic, ps)
        else (Ok (), AList.update cid (item\<lparr>consecutive_fail_count := consecutive_fail_count item + 1\<rparr>) ps))"

section \<open>Subscriptions\<close>

type_synonym watch_id = u64
type_synonym notify_id = u64

record watch_item =
  watch_channel :: channel_id
  subscriber :: watch_id

type_synonym watch_store = "watch_item list"
type_synonym notify_store = "notify_id list"

definition watch_add :: "channel_id \<Rightarrow> watch_id \<Rightarrow> watch_store \<Rightarrow> bool \<times> watch_store" where
  "watch_add c s ws =
     (if list_ex (\<lambda>w. watch_channel w = c \<and> subscriber w = s) ws then (False, ws)
      else (True, ws @ [\<lparr>watch_channel = c, subscriber = s\<rparr>]))"

definition watch_remove :: "channel_id \<Rightarrow> watch_id \<Rightarrow> watch_store \<Rightarrow> bool \<times> watch_store" where
  "watch_remove c s ws =
     (let ws' = filter (\<lambda>w. \<not> (watch_channel w = c \<and> subscriber w = s)) ws in (length ws' < length ws, ws'))"

definition subscribers_for :: "watch_store \<Rightarrow> channel_id \<Rightarrow> watch_id list" where
  "subscribers_for ws c = map subscriber (filter (\<lambda>w. watch_channel w = c) ws)"

definition watch_notifications :: "watch_store \<Rightarrow> channel_id \<Rightarrow> engine_value \<Rightarrow> (watch_id \<times> channel_id \<times> engine_value) list" where
  "watch_notifications ws c v = map (\<lambda>s. (s, c, v)) (subscribers_for ws c)"

definition notify_add :: "notify_id \<Rightarrow> notify_store \<Rightarrow> bool \<times> notify_store" where
  "notify_add s ns = (if s \<in> set ns then (False, ns) else (True, ns @ [s]))"

definition notify_remove :: "notify_id \<Rightarrow> notify_store \<Rightarrow> bool \<times> notify_store" where
  "notify_remove s ns = (let ns' = filter (\<lambda>x. x \<noteq> s) ns in (length ns' < length ns, ns'))"

definition notify_notifications :: "notify_store \<Rightarrow> channel_id \<Rightarrow> engine_value \<Rightarrow> (notify_id \<times> channel_id \<times> engine_value) list" where
  "notify_notifications ns c v = map (\<lambda>s. (s, c, v)) ns"

subsection \<open>The contract of a subscription store\<close>

datatype 'k subscription = Subscribe 'k | Unsubscribe 'k

primrec key_of :: "'k subscription \<Rightarrow> 'k" where
  "key_of (Subscribe k) = k"
| "key_of (Unsubscribe k) = k"

text \<open>The last operation on a key subscribed it.\<close>

definition subscribed :: "'k subscription list \<Rightarrow> 'k \<Rightarrow> bool" where
  "subscribed ops k \<longleftrightarrow> (\<exists>pre post. ops = pre @ Subscribe k # post \<and> Unsubscribe k \<notin> set post)"

lemma subscribed_snoc:
  "\<not> subscribed [] k" "subscribed (ops @ [Subscribe j]) k \<longleftrightarrow> k = j \<or> subscribed ops k"
  "subscribed (ops @ [Unsubscribe j]) k \<longleftrightarrow> k \<noteq> j \<and> subscribed ops k"
proof -
  show "\<not> subscribed [] k" by (simp add: subscribed_def)
  have last: "subscribed (ops @ [op]) k \<longleftrightarrow> op = Subscribe k \<or> op \<noteq> Unsubscribe k \<and> subscribed ops k" for op
  proof
    assume "subscribed (ops @ [op]) k"
    then obtain pre post where "ops @ [op] = pre @ Subscribe k # post" "Unsubscribe k \<notin> set post"
      by (auto simp: subscribed_def)
    then show "op = Subscribe k \<or> op \<noteq> Unsubscribe k \<and> subscribed ops k"
      by (cases post rule: rev_cases) (auto simp: subscribed_def)
  next
    assume "op = Subscribe k \<or> op \<noteq> Unsubscribe k \<and> subscribed ops k"
    then consider "op = Subscribe k" | pre post where "op \<noteq> Unsubscribe k" "ops = pre @ Subscribe k # post" "Unsubscribe k \<notin> set post"
      by (auto simp: subscribed_def)
    then show "subscribed (ops @ [op]) k"
    proof cases
      case 1
      then show ?thesis unfolding subscribed_def by (intro exI [of _ ops] exI [of _ "[]"]) simp
    next
      case 2
      then show ?thesis unfolding subscribed_def by (intro exI [of _ pre] exI [of _ "post @ [op]"]) auto
    qed
  qed
  show "subscribed (ops @ [Subscribe j]) k \<longleftrightarrow> k = j \<or> subscribed ops k" by (auto simp: last)
  show "subscribed (ops @ [Unsubscribe j]) k \<longleftrightarrow> k \<noteq> j \<and> subscribed ops k" by (auto simp: last)
qed

text \<open>The store after a sequence of operations.\<close>

primrec sub_step :: "('k \<Rightarrow> 's \<Rightarrow> bool \<times> 's) \<Rightarrow> ('k \<Rightarrow> 's \<Rightarrow> bool \<times> 's) \<Rightarrow> 'k subscription \<Rightarrow> 's \<Rightarrow> 's" where
  "sub_step add remove (Subscribe k) s = snd (add k s)"
| "sub_step add remove (Unsubscribe k) s = snd (remove k s)"

definition sub_after :: "'s \<Rightarrow> ('k \<Rightarrow> 's \<Rightarrow> bool \<times> 's) \<Rightarrow> ('k \<Rightarrow> 's \<Rightarrow> bool \<times> 's) \<Rightarrow> 'k subscription list \<Rightarrow> 's" where
  "sub_after s add remove ops = fold (sub_step add remove) ops s"

text \<open>A store of subscriptions: adding and removing report whether they changed it, and its elements behave as a set.\<close>

locale subscription_store =
  fixes empty :: 's and add :: "'k \<Rightarrow> 's \<Rightarrow> bool \<times> 's" and remove :: "'k \<Rightarrow> 's \<Rightarrow> bool \<times> 's" and elems :: "'s \<Rightarrow> 'k list"
  assumes elems_empty: "elems empty = []"
    and add_elems: "elems (snd (add k s)) = (if k \<in> set (elems s) then elems s else elems s @ [k])"
    and remove_elems: "elems (snd (remove k s)) = filter (\<lambda>j. j \<noteq> k) (elems s)"
    and add_changes: "fst (add k s) \<longleftrightarrow> k \<notin> set (elems s)"
    and remove_changes: "fst (remove k s) \<longleftrightarrow> k \<in> set (elems s)"
begin

lemma after_snoc: "sub_after empty add remove [] = empty"
  "sub_after empty add remove (ops @ [op]) = sub_step add remove op (sub_after empty add remove ops)"
  by (simp_all add: sub_after_def)

lemma distinct_elems: "distinct (elems (sub_after empty add remove ops))"
proof (induction ops rule: rev_induct)
  case (snoc op ops)
  then show ?case by (cases op) (simp_all add: after_snoc add_elems remove_elems)
qed (simp add: after_snoc elems_empty)

lemma elems_iff: "k \<in> set (elems (sub_after empty add remove ops)) \<longleftrightarrow> subscribed ops k"
proof (induction ops rule: rev_induct)
  case (snoc op ops)
  then show ?case by (cases op) (auto simp: after_snoc add_elems remove_elems subscribed_snoc)
qed (simp add: after_snoc elems_empty subscribed_snoc)

lemma answers: "fst (add k (sub_after empty add remove ops)) \<longleftrightarrow> \<not> subscribed ops k" "fst (remove k (sub_after empty add remove ops)) \<longleftrightarrow> subscribed ops k"
  by (simp_all add: add_changes remove_changes elems_iff)

end

definition watch_pairs :: "watch_store \<Rightarrow> (channel_id \<times> watch_id) list" where
  "watch_pairs ws = map (\<lambda>w. (watch_channel w, subscriber w)) ws"

lemma filter_shorter: "length (filter p xs) < length xs \<longleftrightarrow> (\<exists>x\<in>set xs. \<not> p x)"
  by (induction xs) (auto simp: less_Suc_eq_le)

lemma watch_pairs_mem: "(c, s) \<in> set (watch_pairs ws) \<longleftrightarrow> (\<exists>w\<in>set ws. watch_channel w = c \<and> subscriber w = s)"
  by (auto simp: watch_pairs_def)

interpretation watches: subscription_store "[]" "\<lambda>(c, s). watch_add c s" "\<lambda>(c, s). watch_remove c s" watch_pairs
proof
  fix k :: "channel_id \<times> watch_id" and ws
  obtain c s where k: "k = (c, s)" by force
  show "watch_pairs (snd ((case k of (c, s) \<Rightarrow> watch_add c s) ws)) =
      (if k \<in> set (watch_pairs ws) then watch_pairs ws else watch_pairs ws @ [k])"
    using watch_pairs_mem [of c s ws] by (auto simp: k watch_add_def list_ex_iff watch_pairs_def)
  show "watch_pairs (snd ((case k of (c, s) \<Rightarrow> watch_remove c s) ws)) = filter (\<lambda>j. j \<noteq> k) (watch_pairs ws)"
    by (simp add: k watch_remove_def watch_pairs_def Let_def filter_map comp_def)
  show "fst ((case k of (c, s) \<Rightarrow> watch_add c s) ws) \<longleftrightarrow> k \<notin> set (watch_pairs ws)"
    by (auto simp: k watch_pairs_mem watch_add_def list_ex_iff)
  show "fst ((case k of (c, s) \<Rightarrow> watch_remove c s) ws) \<longleftrightarrow> k \<in> set (watch_pairs ws)"
    by (auto simp: k watch_pairs_mem watch_remove_def Let_def filter_shorter)
qed (simp add: watch_pairs_def)

interpretation notifies: subscription_store "[]" notify_add notify_remove "\<lambda>ns. ns"
  by unfold_locales (auto simp: notify_add_def notify_remove_def Let_def filter_shorter)

definition watches_after :: "(channel_id \<times> watch_id) subscription list \<Rightarrow> watch_store" where
  "watches_after ops = sub_after [] (\<lambda>(c, s). watch_add c s) (\<lambda>(c, s). watch_remove c s) ops"

definition notifies_after :: "notify_id subscription list \<Rightarrow> notify_store" where
  "notifies_after ops = sub_after [] notify_add notify_remove ops"

lemma subscribers_for_pairs: "subscribers_for ws c = map snd (filter (\<lambda>p. fst p = c) (watch_pairs ws))"
  by (simp add: subscribers_for_def watch_pairs_def filter_map comp_def)

lemma subscribers_distinct: "distinct (watch_pairs ws) \<Longrightarrow> distinct (subscribers_for ws c)"
  by (auto simp: subscribers_for_pairs distinct_map inj_on_def)

lemma subscribers_mem: "s \<in> set (subscribers_for ws c) \<longleftrightarrow> (c, s) \<in> set (watch_pairs ws)"
  by (force simp: subscribers_for_pairs)

lemma subscribers_notified_once_cases:
  shows "distinct (watch_notifications (watches_after wops) c v)"
    and "(s, c', v') \<in> set (watch_notifications (watches_after wops) c v) \<longleftrightarrow> c' = c \<and> v' = v \<and> subscribed wops (c, s)"
    and "distinct (notify_notifications (notifies_after nops) c v)"
    and "(s, c', v') \<in> set (notify_notifications (notifies_after nops) c v) \<longleftrightarrow> c' = c \<and> v' = v \<and> subscribed nops s"
    and "fst (watch_add c s (watches_after wops)) = (\<not> subscribed wops (c, s))"
    and "fst (watch_remove c s (watches_after wops)) = subscribed wops (c, s)"
    and "fst (notify_add s (notifies_after nops)) = (\<not> subscribed nops s)"
    and "fst (notify_remove s (notifies_after nops)) = subscribed nops s"
  using watches.distinct_elems [of wops] watches.elems_iff [of "(c, s)" wops] watches.answers [of "(c, s)" wops]
    notifies.distinct_elems [of nops] notifies.elems_iff [of s nops] notifies.answers [of s nops]
    subscribers_distinct [of "watches_after wops" c] subscribers_mem [of s "watches_after wops" c]
  by (auto simp: watches_after_def notifies_after_def watch_notifications_def notify_notifications_def
      distinct_map inj_on_def)

text \<open>Every subscriber gets each change once. After any sequence of subscriptions and cancellations, a change of a channel
  is reported to exactly those watchers of the channel, and to exactly those global subscribers, whose last operation was
  to subscribe, and to each of them once; adding and removing report whether they changed the subscription.\<close>

theorem subscribers_notified_once:
  shows "distinct (watch_notifications (watches_after wops) c v) \<and>
    ((s, c', v') \<in> set (watch_notifications (watches_after wops) c v) \<longleftrightarrow> c' = c \<and> v' = v \<and> subscribed wops (c, s)) \<and>
    distinct (notify_notifications (notifies_after nops) c v) \<and>
    ((s, c', v') \<in> set (notify_notifications (notifies_after nops) c v) \<longleftrightarrow> c' = c \<and> v' = v \<and> subscribed nops s) \<and>
    fst (watch_add c s (watches_after wops)) = (\<not> subscribed wops (c, s)) \<and>
    fst (watch_remove c s (watches_after wops)) = subscribed wops (c, s) \<and>
    fst (notify_add s (notifies_after nops)) = (\<not> subscribed nops s) \<and>
    fst (notify_remove s (notifies_after nops)) = subscribed nops s"
  by (intro conjI subscribers_notified_once_cases)

end
