(* ===== verification/Engine.thy ===== *)
theory Engine
  imports Engine_Stores
begin

text \<open>
  The engine (\<open>sandstar-engine/src/engine.rs\<close>): reading a channel through the hardware abstraction, conversion and
  filters, writing outputs through their priority arrays, recovery of failed sensors with exponential
  backoff, and the poll cycle with coalesced sensor reads and notifications. The hardware is a record of functions
  over an arbitrary state, one for each method of the traits \<open>HalRead\<close>, \<open>HalWrite\<close> and \<open>HalDiagnostics\<close>
  that the engine calls. The monotonic clock is an argument; one instant stands for a whole call.
\<close>

section \<open>State\<close>

definition RETRY_COOLDOWN_BASE :: u32 where "RETRY_COOLDOWN_BASE = 30"
definition RETRY_COOLDOWN_MAX :: u32 where "RETRY_COOLDOWN_MAX = 300"
definition CONSECUTIVE_FAIL_THRESHOLD :: u32 where "CONSECUTIVE_FAIL_THRESHOLD = 5"

record 'h hal =
  read_analog :: "u32 \<Rightarrow> u32 \<Rightarrow> 'h \<Rightarrow> (hal_error + f64) \<times> 'h"
  read_digital :: "u32 \<Rightarrow> 'h \<Rightarrow> (hal_error + bool) \<times> 'h"
  read_i2c :: "u32 \<Rightarrow> u32 \<Rightarrow> string \<Rightarrow> 'h \<Rightarrow> (hal_error + f64) \<times> 'h"
  read_pwm :: "u32 \<Rightarrow> u32 \<Rightarrow> 'h \<Rightarrow> (hal_error + f64) \<times> 'h"
  read_uart :: "u32 \<Rightarrow> string \<Rightarrow> 'h \<Rightarrow> (hal_error + f64) \<times> 'h"
  write_digital :: "u32 \<Rightarrow> bool \<Rightarrow> 'h \<Rightarrow> (hal_error + unit) \<times> 'h"
  write_pwm :: "u32 \<Rightarrow> u32 \<Rightarrow> f64 \<Rightarrow> 'h \<Rightarrow> (hal_error + unit) \<times> 'h"
  reinit_i2c_sensor :: "u32 \<Rightarrow> u32 \<Rightarrow> string \<Rightarrow> 'h \<Rightarrow> (hal_error + unit) \<times> 'h"

record backoff_state =
  cooldown :: u32
  consecutive_failures :: u32

definition backoff_new :: backoff_state where
  "backoff_new = \<lparr>cooldown = RETRY_COOLDOWN_BASE, consecutive_failures = 0\<rparr>"

definition backoff_record_failure :: "backoff_state \<Rightarrow> ('e, backoff_state) outcome" where
  "backoff_record_failure b =
     (if consecutive_failures b = - 1 \<or> 2 * unat (cooldown b) \<ge> 2 ^ 32 then Panic
      else Ok \<lparr>cooldown = min (cooldown b * 2) RETRY_COOLDOWN_MAX, consecutive_failures = consecutive_failures b + 1\<rparr>)"

definition backoff_reset :: "backoff_state \<Rightarrow> backoff_state" where
  "backoff_reset b = \<lparr>cooldown = RETRY_COOLDOWN_BASE, consecutive_failures = 0\<rparr>"

datatype notification =
  Watch watch_id channel_id engine_value
| Notify notify_id channel_id engine_value

record 'h engine =
  hardware :: 'h
  channels :: channel_store
  tables_of :: table_store
  polls :: poll_store
  watches_of :: watch_store
  notifies_of :: notify_store
  i2c_backoff :: "((u32 \<times> u32) \<times> backoff_state) list"

definition engine_new :: "'h \<Rightarrow> 'h engine" where
  "engine_new h = \<lparr>hardware = h, channels = [], tables_of = [], polls = [], watches_of = [], notifies_of = [], i2c_backoff = []\<rparr>"

type_synonym ('h, 'a) engine_routine = "('h engine, engine_error, 'a) routine"

text \<open>Access to a channel, and a call of the hardware.\<close>

definition get_chan :: "channel_id \<Rightarrow> ('h, channel) engine_routine" where
  "get_chan cid = query (\<lambda>e. ok_or (channel_get (channels e) cid) (ChannelNotFound cid))"

definition put_chan :: "channel_id \<Rightarrow> channel \<Rightarrow> ('h, unit) engine_routine" where
  "put_chan cid ch = modify (\<lambda>e. e\<lparr>channels := channel_put cid ch (channels e)\<rparr>)"

definition hal_call :: "('h \<Rightarrow> 'r \<times> 'h) \<Rightarrow> ('h, 'r) engine_routine" where
  "hal_call op = (\<lambda>e. let (r, h) = op (hardware e) in (Ok r, e\<lparr>hardware := h\<rparr>))"

section \<open>Recovery of failed channels\<close>

definition cooldown_of :: "channel \<Rightarrow> 'h engine \<Rightarrow> u32" where
  "cooldown_of ch e =
     (if chan_type ch = I2c
      then (case map_of (i2c_backoff e) (device ch, address ch) of Some b \<Rightarrow> cooldown b | None \<Rightarrow> RETRY_COOLDOWN_BASE)
      else RETRY_COOLDOWN_BASE)"

definition raise_backoff :: "u32 \<times> u32 \<Rightarrow> ('h, unit) engine_routine" where
  "raise_backoff key = bnd
     (query (\<lambda>e. backoff_record_failure (or_else (map_of (i2c_backoff e) key) backoff_new)))
     (\<lambda>b. modify (\<lambda>e. e\<lparr>i2c_backoff := AList.update key b (i2c_backoff e)\<rparr>))"

definition clear_backoff :: "u32 \<times> u32 \<Rightarrow> ('h, unit) engine_routine" where
  "clear_backoff key = modify (\<lambda>e. case map_of (i2c_backoff e) key of
      Some b \<Rightarrow> e\<lparr>i2c_backoff := AList.update key (backoff_reset b) (i2c_backoff e)\<rparr>
    | None \<Rightarrow> e)"

definition try_i2c_recovery :: "'h hal \<Rightarrow> channel_id \<Rightarrow> ('h, engine_value option) engine_routine" where
  "try_i2c_recovery H cid = bnd (get_chan cid) (\<lambda>ch.
     if \<not> failed ch then ret None
     else bnd (query (\<lambda>e. Ok (cooldown_of ch e))) (\<lambda>limit.
       if retry_counter ch < limit
       then sq (put_chan cid (ch\<lparr>retry_counter := retry_counter ch + 1\<rparr>)) (ret (Some (with_status Down)))
       else if chan_type ch = I2c then
         bnd (hal_call (reinit_i2c_sensor H (device ch) (address ch) (label ch))) (\<lambda>r. case r of
           Inl _ \<Rightarrow> sq (raise_backoff (device ch, address ch))
             (bnd (get_chan cid) (\<lambda>ch'.
               sq (put_chan cid (ch'\<lparr>retry_counter := 0\<rparr>)) (ret (Some (with_status Down)))))
         | Inr _ \<Rightarrow> sq (clear_backoff (device ch, address ch))
             (bnd (get_chan cid) (\<lambda>ch'.
               sq (put_chan cid (ch'\<lparr>failed := False, retry_counter := 0\<rparr>)) (ret None))))
       else sq (put_chan cid (ch\<lparr>failed := False, retry_counter := 0\<rparr>)) (ret None)))"

section \<open>Reading\<close>

text \<open>Steps 7 to 16 of the pipeline on the channel of a reading: garbage detection, sensor detection, conversion, the
  spike checks, smoothing, the rate limit and the trigger.\<close>

definition convert_reading :: "table_store \<Rightarrow> channel_id \<Rightarrow> f64 \<Rightarrow> channel \<Rightarrow> (engine_error, channel) outcome" where
  "convert_reading ts cid x ch0 =
     (let ch1 = ch0\<lparr>chan_value := set_raw x (chan_value ch0)\<rparr>;
          ch2 = ch1\<lparr>chan_value := (chan_value ch1)\<lparr>raw := validate_i2c_raw ch1 x\<rparr>\<rparr>;
          ch3 = ch2\<lparr>conv := snd (auto_detect_sensor cid ts (conv ch2))\<rparr>
      in bindO (convert (conv ch3) ts (chan_value ch3) (map_option flow_detected (flow ch3))) (\<lambda>(v, fl).
           Ok (ch3\<lparr>chan_value := v,
                   flow := (case fl of Some d \<Rightarrow> map_option (\<lambda>f. f\<lparr>flow_detected := d\<rparr>) (flow ch3) | None \<Rightarrow> flow ch3)\<rparr>)))"

definition with_cur :: "f64 \<Rightarrow> channel \<Rightarrow> channel" where
  "with_cur x ch = ch\<lparr>chan_value := (chan_value ch)\<lparr>cur := x\<rparr>\<rparr>"

definition filter_spikes :: "channel \<Rightarrow> (engine_error, channel) outcome" where
  "filter_spikes ch =
     bindO (check_sdp810_spike ch (cur (chan_value ch))) (\<lambda>(x, ch1).
       let ch2 = with_cur x ch1 in
       case Option.bind (filter_cfg (conv ch2)) spike_filter of
         None \<Rightarrow> Ok ch2
       | Some cfg \<Rightarrow> bindO (apply_spike_filter (spike ch2) (cur (chan_value ch2)) cfg) (\<lambda>(y, st).
           Ok (with_cur y (ch2\<lparr>spike := st\<rparr>))))"

definition smooth_reading :: "channel \<Rightarrow> channel" where
  "smooth_reading ch = (case Option.bind (filter_cfg (conv ch)) smoothing of
      None \<Rightarrow> ch
    | Some cfg \<Rightarrow>
        let (x, st) = apply_smoothing (smooth ch) (cur (chan_value ch)) (window cfg) (smoothing_method cfg)
        in with_cur x (ch\<lparr>smooth := st\<rparr>))"

definition limit_reading :: "instant \<Rightarrow> channel \<Rightarrow> channel" where
  "limit_reading now ch = (case Option.bind (filter_cfg (conv ch)) rate_limit of
      None \<Rightarrow> ch
    | Some cfg \<Rightarrow>
        let (x, st) = apply_rate_limit now (rate_limiter ch) (cur (chan_value ch)) (max_rise cfg) (max_fall cfg)
        in with_cur x (ch\<lparr>rate_limiter := st\<rparr>))"

definition trigger_reading :: "bool \<Rightarrow> channel \<Rightarrow> channel" where
  "trigger_reading trig ch =
     (if eq64 (cur (chan_value ch)) 0 then ch\<lparr>chan_value := (chan_value ch)\<lparr>trigger := trig\<rparr>\<rparr> else ch)"

definition process_reading :: "instant \<Rightarrow> table_store \<Rightarrow> channel_id \<Rightarrow> bool \<Rightarrow> f64 \<Rightarrow> channel \<Rightarrow> (engine_error, channel) outcome" where
  "process_reading now ts cid trig x ch =
     bindO (convert_reading ts cid x ch) (\<lambda>ch1.
     bindO (filter_spikes ch1) (\<lambda>ch2.
       Ok (trigger_reading trig (limit_reading now (smooth_reading ch2)))))"

definition finish_reading :: "instant \<Rightarrow> channel_id \<Rightarrow> bool \<Rightarrow> hal_error + f64 \<Rightarrow> ('h, engine_value) engine_routine" where
  "finish_reading now cid trig r = (case r of
      Inl _ \<Rightarrow> bnd (get_chan cid) (\<lambda>ch.
        sq (put_chan cid (ch\<lparr>failed := True, chan_value := (chan_value ch)\<lparr>status := Down\<rparr>\<rparr>))
           (ret (with_status Down)))
    | Inr x \<Rightarrow> bnd (get_chan cid) (\<lambda>ch.
        bnd (query (\<lambda>e. process_reading now (tables_of e) cid trig x ch)) (\<lambda>ch'.
        sq (put_chan cid ch') (ret (chan_value ch')))))"

text \<open>A virtual channel returns what was written to it, or the value of the channel it is linked to.\<close>

definition has_written_value :: "channel \<Rightarrow> ('e, bool) outcome" where
  "has_written_value ch = (case priorities ch of
      None \<Rightarrow> Ok False
    | Some pa \<Rightarrow> bindO (effective pa) (\<lambda>(v, _). Ok (v \<noteq> None)))"

definition read_virtual :: "channel_id \<Rightarrow> ('h, engine_value) engine_routine" where
  "read_virtual cid = bnd (get_chan cid) (\<lambda>ch.
     bnd (lift (has_written_value ch)) (\<lambda>is_written.
     bnd (query (\<lambda>e. Ok (if is_written then cur (chan_value ch)
            else case Option.bind (channel_in ch) (channel_get (channels e)) of
                   Some src \<Rightarrow> cur (chan_value src) | None \<Rightarrow> 0))) (\<lambda>x.
     let v = (chan_value ch)\<lparr>cur := x, status := StatusOk, flags := flags (chan_value ch) OR FLAG_CUR\<rparr>
     in sq (put_chan cid (ch\<lparr>chan_value := v\<rparr>)) (ret v))))"

definition bool_reading :: "hal_error + bool \<Rightarrow> hal_error + f64" where
  "bool_reading r = (case r of Inl e \<Rightarrow> Inl e | Inr b \<Rightarrow> Inr (if b then lit 1 1 else 0))"

text \<open>The dispatch on the type of the channel; the routine for I2C is a parameter, since the poll cycle serves it from its cache.\<close>

definition hal_read :: "'h hal \<Rightarrow> (channel \<Rightarrow> ('h, hal_error + f64) engine_routine) \<Rightarrow> channel \<Rightarrow> ('h, hal_error + f64) engine_routine" where
  "hal_read H i2c ch = (case chan_type ch of
      Analog \<Rightarrow> hal_call (read_analog H (device ch) (address ch))
    | Digital \<Rightarrow> bnd (hal_call (read_digital H (address ch))) (\<lambda>r. ret (bool_reading r))
    | Triac \<Rightarrow> bnd (hal_call (read_digital H (address ch))) (\<lambda>r. ret (bool_reading r))
    | Pwm \<Rightarrow> if pwm_disabled ch then ret (Inr 0) else hal_call (read_pwm H (device ch) (address ch))
    | I2c \<Rightarrow> i2c ch
    | Uart \<Rightarrow> hal_call (read_uart H (device ch) (label ch))
    | VirtualAnalog \<Rightarrow> panic
    | VirtualDigital \<Rightarrow> panic)"

definition read_pipeline :: "instant \<Rightarrow> 'h hal \<Rightarrow> (channel \<Rightarrow> ('h, hal_error + f64) engine_routine) \<Rightarrow> channel_id \<Rightarrow>
    ('h, engine_value) engine_routine" where
  "read_pipeline now H i2c cid = bnd (get_chan cid) (\<lambda>ch0.
     if \<not> enabled ch0 then ret (with_status Disabled)
     else bnd (try_i2c_recovery H cid) (\<lambda>waiting. case waiting of
       Some v \<Rightarrow> ret v
     | None \<Rightarrow> bnd (get_chan cid) (\<lambda>ch.
         if is_virtual (chan_type ch) then read_virtual cid
         else bnd (hal_read H i2c ch) (\<lambda>r. finish_reading now cid (chan_trigger ch) r))))"

definition direct_i2c :: "'h hal \<Rightarrow> channel \<Rightarrow> ('h, hal_error + f64) engine_routine" where
  "direct_i2c H ch = hal_call (read_i2c H (device ch) (address ch) (label ch))"

definition channel_read :: "instant \<Rightarrow> 'h hal \<Rightarrow> channel_id \<Rightarrow> ('h, engine_value) engine_routine" where
  "channel_read now H cid = read_pipeline now H (direct_i2c H) cid"

type_synonym i2c_cache = "((u32 \<times> u32 \<times> string) \<times> (hal_error + f64)) list"

definition i2c_key :: "channel \<Rightarrow> u32 \<times> u32 \<times> string" where
  "i2c_key ch = (device ch, address ch, label ch)"

definition cached_i2c :: "'h hal \<Rightarrow> i2c_cache \<Rightarrow> channel \<Rightarrow> ('h, hal_error + f64) engine_routine" where
  "cached_i2c H cache ch = (case map_of cache (i2c_key ch) of
      Some (Inr v) \<Rightarrow> ret (Inr v)
    | Some (Inl _) \<Rightarrow> ret (Inl (BusError (device ch) ''cached I2C read failed''))
    | None \<Rightarrow> direct_i2c H ch)"

definition channel_read_cached :: "instant \<Rightarrow> 'h hal \<Rightarrow> i2c_cache \<Rightarrow> channel_id \<Rightarrow> ('h, engine_value) engine_routine" where
  "channel_read_cached now H cache cid = read_pipeline now H (cached_i2c H cache) cid"

section \<open>Writing\<close>

text \<open>\<open>channel_convert\<close> of a value: raw only is converted, converted only is reverted.\<close>

definition complete_value :: "channel \<Rightarrow> table_store \<Rightarrow> engine_value \<Rightarrow> (engine_error, engine_value) outcome" where
  "complete_value ch ts v =
     (if has_flag (flags v) FLAG_RAW \<and> \<not> has_flag (flags v) FLAG_CUR
      then bindO (convert (conv ch) ts v None) (\<lambda>(v', _). Ok v')
      else if has_flag (flags v) FLAG_CUR \<and> \<not> has_flag (flags v) FLAG_RAW then revert (conv ch) ts v
      else Ok v)"

definition channel_convert :: "channel_id \<Rightarrow> engine_value \<Rightarrow> ('h, engine_value) engine_routine" where
  "channel_convert cid v = bnd (get_chan cid) (\<lambda>ch. query (\<lambda>e. complete_value ch (tables_of e) v))"

definition store_written :: "channel_id \<Rightarrow> engine_value \<Rightarrow> ('h, engine_value) engine_routine" where
  "store_written cid v = bnd (get_chan cid) (\<lambda>ch. sq (put_chan cid (ch\<lparr>chan_value := v\<rparr>)) (ret v))"

definition after_hal_write :: "engine_value \<Rightarrow> hal_error + unit \<Rightarrow> engine_value" where
  "after_hal_write v r = (case r of Inl _ \<Rightarrow> v\<lparr>status := Down\<rparr> | Inr _ \<Rightarrow> v)"

text \<open>The write itself returns the value as the caller sees it afterwards.\<close>

definition write_hardware :: "'h hal \<Rightarrow> channel \<Rightarrow> channel_id \<Rightarrow> engine_value \<Rightarrow> ('h, engine_value) engine_routine" where
  "write_hardware H ch cid v =
     (if chan_type ch = Digital \<or> chan_type ch = Triac then
        let bit = lt64 (lit 1 2) (raw v);
            v1 = (if \<not> adc_mode (conv ch) then v\<lparr>raw := if bit then lit 1 1 else 0, cur := if bit then lit 1 1 else 0\<rparr> else v)
        in bnd (hal_call (write_digital H (address ch) bit)) (\<lambda>r. store_written cid (after_hal_write v1 r))
      else if chan_type ch = Pwm then
        bnd (hal_call (write_pwm H (device ch) (address ch) (raw v))) (\<lambda>r. store_written cid (after_hal_write v r))
      else if is_virtual (chan_type ch) then store_written cid v
      else raise (WriteNotSupported cid))"

definition channel_write :: "'h hal \<Rightarrow> channel_id \<Rightarrow> engine_value \<Rightarrow> ('h, engine_value) engine_routine" where
  "channel_write H cid v = bnd (get_chan cid) (\<lambda>ch.
     if \<not> (is_output (chan_direction ch) \<or> is_virtual (chan_type ch)) \<or> flags v = 0 then raise (WriteNotSupported cid)
     else if \<not> enabled ch then ret (v\<lparr>status := Disabled\<rparr>)
     else bnd (query (\<lambda>e. complete_value ch (tables_of e) v)) (\<lambda>v'. write_hardware H ch cid v'))"

definition level_request :: "f64 \<Rightarrow> engine_value" where
  "level_request x = (set_cur x default_value)\<lparr>flags := FLAG_CUR\<rparr>"

definition channel_write_level :: "instant \<Rightarrow> 'h hal \<Rightarrow> channel_id \<Rightarrow> u8 \<Rightarrow> f64 option \<Rightarrow> string \<Rightarrow> f64 \<Rightarrow>
    ('h, write_result) engine_routine" where
  "channel_write_level now H cid level v who d = bnd (get_chan cid) (\<lambda>ch.
     if \<not> (1 \<le> level \<and> level \<le> 17) then raise (InvalidWriteLevel level)
     else
       let pa = or_else (priorities ch) default_array in
       sq (put_chan cid (ch\<lparr>priorities := Some pa\<rparr>))
      (bnd (\<lambda>e. let (r, pa') = set_level now level v who d pa
                in (r, e\<lparr>channels := channel_put cid (ch\<lparr>priorities := Some pa'\<rparr>) (channels e)\<rparr>)) (\<lambda>w.
         case effective_value w of
           Some x \<Rightarrow> sq (channel_write H cid (level_request x)) (ret w)
         | None \<Rightarrow> ret w)))"

definition get_write_levels :: "channel_id \<Rightarrow> ('h, priority_array option) engine_routine" where
  "get_write_levels cid = bnd (get_chan cid) (\<lambda>ch. ret (priorities ch))"

text \<open>\<open>let _ = \<dots>\<close>: the error of a call is dropped, its effects stay.\<close>

definition ignore_error :: "('s, 'e, 'a) routine \<Rightarrow> ('s, 'f, unit) routine" where
  "ignore_error m = (\<lambda>s. case m s of (Panic, t) \<Rightarrow> (Panic, t) | (_, t) \<Rightarrow> (Ok (), t))"

definition expire_channel :: "instant \<Rightarrow> 'h hal \<Rightarrow> channel_id \<Rightarrow> ('h, unit) engine_routine" where
  "expire_channel now H cid = (\<lambda>e. case channel_get (channels e) cid of
      None \<Rightarrow> (Ok (), e)
    | Some ch \<Rightarrow> (case priorities ch of
        None \<Rightarrow> (Ok (), e)
      | Some pa \<Rightarrow>
          let (expired, pa') = expire_timed_levels now pa;
              e' = e\<lparr>channels := channel_put cid (ch\<lparr>priorities := Some pa'\<rparr>) (channels e)\<rparr>
          in if \<not> expired then (Ok (), e')
             else bnd (lift (effective pa')) (\<lambda>(v, _). case v of
                 Some x \<Rightarrow> ignore_error (channel_write H cid (level_request x))
               | None \<Rightarrow> ret ()) e'))"

definition expire_priority_timers :: "instant \<Rightarrow> 'h hal \<Rightarrow> ('h, unit) engine_routine" where
  "expire_priority_timers now H = (\<lambda>e.
     forM (map fst (filter (\<lambda>(cid, ch). priorities ch \<noteq> None) (channels e))) (expire_channel now H) e)"

section \<open>The poll cycle\<close>

definition pre_read_one :: "'h hal \<Rightarrow> channel_id \<Rightarrow> i2c_cache \<Rightarrow> ('h, i2c_cache) engine_routine" where
  "pre_read_one H cid cache = (\<lambda>e. case channel_get (channels e) cid of
      Some ch \<Rightarrow>
        if chan_type ch = I2c \<and> enabled ch \<and> \<not> failed ch \<and> map_of cache (i2c_key ch) = None
        then bnd (direct_i2c H ch) (\<lambda>r. ret (AList.update (i2c_key ch) r cache)) e
        else (Ok cache, e)
    | None \<Rightarrow> (Ok cache, e))"

primrec pre_read_all :: "'h hal \<Rightarrow> channel_id list \<Rightarrow> i2c_cache \<Rightarrow> ('h, i2c_cache) engine_routine" where
  "pre_read_all H [] cache = ret cache"
| "pre_read_all H (cid # cids) cache = bnd (pre_read_one H cid cache) (pre_read_all H cids)"

definition pre_read_i2c_channels :: "'h hal \<Rightarrow> ('h, i2c_cache) engine_routine" where
  "pre_read_i2c_channels H = (\<lambda>e. pre_read_all H (map fst (polls e)) [] e)"

definition on_polls :: "(poll_store, engine_error, 'a) routine \<Rightarrow> ('h, 'a) engine_routine" where
  "on_polls m = (\<lambda>e. let (r, ps) = m (polls e) in (r, e\<lparr>polls := ps\<rparr>))"

definition reset_fail_count :: "channel_id \<Rightarrow> poll_store \<Rightarrow> poll_store" where
  "reset_fail_count cid ps = (case map_of ps cid of
      Some item \<Rightarrow> if consecutive_fail_count item \<ge> CONSECUTIVE_FAIL_THRESHOLD
                   then AList.update cid (item\<lparr>consecutive_fail_count := 0\<rparr>) ps else ps
    | None \<Rightarrow> ps)"

definition notifications_for :: "'h engine \<Rightarrow> channel_id \<Rightarrow> engine_value \<Rightarrow> notification list" where
  "notifications_for e cid v =
     map (\<lambda>(s, c, x). Watch s c x) (watch_notifications (watches_of e) cid v) @
     map (\<lambda>(s, c, x). Notify s c x) (notify_notifications (notifies_of e) cid v)"

definition poll_failed :: "channel_id \<Rightarrow> ('h, notification list) engine_routine" where
  "poll_failed cid = sq (on_polls (record_failure cid))
     (sq (on_polls (modify (reset_fail_count cid))) (ret []))"

definition poll_read :: "channel_id \<Rightarrow> engine_value \<Rightarrow> ('h, notification list) engine_routine" where
  "poll_read cid v = bnd (on_polls (record_value cid v)) (\<lambda>changed.
     if changed then query (\<lambda>e. Ok (notifications_for e cid v)) else ret [])"

definition poll_one :: "instant \<Rightarrow> 'h hal \<Rightarrow> i2c_cache \<Rightarrow> channel_id \<Rightarrow> ('h, notification list) engine_routine" where
  "poll_one now H cache cid = (\<lambda>e. case channel_read_cached now H cache cid e of
      (Panic, e') \<Rightarrow> (Panic, e')
    | (Err _, e') \<Rightarrow> poll_failed cid e'
    | (Ok v, e') \<Rightarrow> poll_read cid v e')"

primrec poll_all :: "instant \<Rightarrow> 'h hal \<Rightarrow> i2c_cache \<Rightarrow> channel_id list \<Rightarrow> ('h, notification list) engine_routine" where
  "poll_all now H cache [] = ret []"
| "poll_all now H cache (cid # cids) =
     bnd (poll_one now H cache cid) (\<lambda>ns. bnd (poll_all now H cache cids) (\<lambda>ms. ret (ns @ ms)))"

definition poll_update :: "instant \<Rightarrow> 'h hal \<Rightarrow> ('h, notification list) engine_routine" where
  "poll_update now H = sq (expire_priority_timers now H)
     (bnd (pre_read_i2c_channels H) (\<lambda>cache. (\<lambda>e. poll_all now H cache (map fst (polls e)) e)))"

end
