(* ===== verification/Engine_Invariants.thy ===== *)
theory Engine_Invariants
  imports Engine
begin

text \<open>
  What every operation of the engine keeps. The locale \<open>engine_invariant\<close> takes a property that the elementary updates
  preserve and shows that reading, writing and expiry preserve it, \<open>engine_poll_invariant\<close> adds the poll cycle. They are
  interpreted on the well-formedness of the engine, which includes the priority arrays, the filter
  buffers and the bounds of the backoff.
\<close>

section \<open>Rules for routines\<close>

lemma keeps_option [wp]: "(\<And>x. v = Some x \<Longrightarrow> keeps I (f x)) \<Longrightarrow> (v = None \<Longrightarrow> keeps I m) \<Longrightarrow> keeps I (case v of Some x \<Rightarrow> f x | None \<Rightarrow> m)"
  by (cases v) simp_all

lemma keeps_sum [wp]: "(\<And>x. keeps I (f x)) \<Longrightarrow> (\<And>y. keeps I (g y)) \<Longrightarrow> keeps I (case v of Inl x \<Rightarrow> f x | Inr y \<Rightarrow> g y)"
  by (cases v) simp_all

lemma keeps_ignore_error [wp]: "keeps I m \<Longrightarrow> keeps I (ignore_error m)"
  by (auto simp: keeps_def ignore_error_def split: prod.splits outcome.splits)

lemma keeps_state: "keeps I m \<Longrightarrow> I s \<Longrightarrow> m s = (r, t) \<Longrightarrow> I t"
  by (metis keeps_def snd_conv)

text \<open>A query whose answer satisfies \<open>Q\<close> in the states of the invariant.\<close>

lemma keeps_query_bnd:
  "(\<And>e a. I e \<Longrightarrow> q e = Ok a \<Longrightarrow> Q a) \<Longrightarrow> (\<And>a. Q a \<Longrightarrow> keeps I (f a)) \<Longrightarrow> keeps I (bnd (query q) f)"
  by (auto simp: keeps_def bnd_def query_def split: outcome.splits)

section \<open>Invariants of the engine\<close>

text \<open>An invariant \<open>I\<close> of the engine with a property \<open>P\<close> of its channels, which the updates of single channels keep.\<close>

locale engine_invariant =
  fixes I :: "'h engine \<Rightarrow> bool" and P :: "channel_id \<Rightarrow> channel \<Rightarrow> bool"
  assumes get: "I e \<Longrightarrow> channel_get (channels e) cid = Some ch \<Longrightarrow> P cid ch"
    and put: "I e \<Longrightarrow> P cid ch \<Longrightarrow> I (e\<lparr>channels := channel_put cid ch (channels e)\<rparr>)"
    and hardware_keeps: "I e \<Longrightarrow> I (e\<lparr>hardware := h\<rparr>)"
    and backoff_failure_keeps: "I e \<Longrightarrow>
      backoff_record_failure (or_else (map_of (i2c_backoff e) key) backoff_new) = (Ok s :: (engine_error, _) outcome) \<Longrightarrow>
      I (e\<lparr>i2c_backoff := AList.update key s (i2c_backoff e)\<rparr>)"
    and backoff_reset_keeps: "I e \<Longrightarrow> map_of (i2c_backoff e) key = Some s \<Longrightarrow>
      I (e\<lparr>i2c_backoff := AList.update key (backoff_reset s) (i2c_backoff e)\<rparr>)"
    and retry_keeps: "P cid ch \<Longrightarrow> P cid (ch\<lparr>retry_counter := n\<rparr>)"
    and failed_keeps: "P cid ch \<Longrightarrow> P cid (ch\<lparr>failed := b\<rparr>)"
    and value_keeps: "P cid ch \<Longrightarrow> P cid (ch\<lparr>chan_value := v\<rparr>)"
    and reading_keeps: "P cid ch \<Longrightarrow> process_reading now ts cid trig x ch = Ok ch' \<Longrightarrow> P cid ch'"
    and init_keeps: "P cid ch \<Longrightarrow> P cid (ch\<lparr>priorities := Some (or_else (priorities ch) default_array)\<rparr>)"
    and level_keeps: "P cid ch \<Longrightarrow> P cid (ch\<lparr>priorities :=
        Some (snd (set_level now level v' who d (or_else (priorities ch) default_array) :: (engine_error, _) outcome \<times> _))\<rparr>)"
    and expire_keeps: "P cid ch \<Longrightarrow> priorities ch = Some pa \<Longrightarrow> P cid (ch\<lparr>priorities := Some (snd (expire_timed_levels now pa))\<rparr>)"
begin

lemma keeps_get_chan: "(\<And>ch. P cid ch \<Longrightarrow> keeps I (f ch)) \<Longrightarrow> keeps I (bnd (get_chan cid) f)"
  by (auto simp: keeps_def bnd_def get_chan_def query_def dest: get split: outcome.splits)

lemma keeps_put_chan: "P cid ch \<Longrightarrow> keeps I (put_chan cid ch)"
  by (simp add: keeps_def put_chan_def modify_def put)

lemma keeps_hal_call: "keeps I (hal_call op)"
  by (simp add: keeps_def hal_call_def split_beta hardware_keeps)

lemma raise_backoff: "keeps I (raise_backoff key)"
  by (auto simp: raise_backoff_def keeps_def monad_defs intro: backoff_failure_keeps split: outcome.splits)

lemma clear_backoff: "keeps I (clear_backoff key)"
  unfolding clear_backoff_def by (rule keeps_modify) (auto intro: backoff_reset_keeps split: option.splits)

lemma retry_failed_keeps: "P cid ch \<Longrightarrow> P cid (ch\<lparr>failed := b, retry_counter := n\<rparr>)"
  using retry_keeps [OF failed_keeps] by simp

lemma failed_value_keeps: "P cid ch \<Longrightarrow> P cid (ch\<lparr>failed := b, chan_value := v\<rparr>)"
  using value_keeps [OF failed_keeps] by simp

lemmas keeps_chan = keeps_get_chan keeps_put_chan
lemmas field_keeps = retry_keeps value_keeps retry_failed_keeps failed_value_keeps

lemma recovery: "keeps I (try_i2c_recovery H cid)"
  unfolding try_i2c_recovery_def by (intro keeps_chan wp field_keeps raise_backoff clear_backoff keeps_hal_call) assumption+

lemma finish: "keeps I (finish_reading now cid trig r)"
proof (cases r)
  case (Inl e)
  then show ?thesis unfolding finish_reading_def by simp (intro wp keeps_chan field_keeps)
next
  case (Inr x)
  show ?thesis unfolding finish_reading_def Inr sum.case
    by (intro keeps_get_chan keeps_query_bnd [where Q = "P cid"] wp keeps_put_chan) (auto intro: reading_keeps)
qed

lemma virtual_read: "keeps I (read_virtual cid)"
  unfolding read_virtual_def Let_def by (intro keeps_chan wp field_keeps)

lemma hal_read: "(\<And>ch. keeps I (i2c ch)) \<Longrightarrow> keeps I (hal_read H i2c ch)"
  unfolding hal_read_def by (cases "chan_type ch") (auto intro: wp keeps_hal_call)

lemma pipeline: "(\<And>ch. keeps I (i2c ch)) \<Longrightarrow> keeps I (read_pipeline now H i2c cid)"
  unfolding read_pipeline_def by (intro keeps_chan wp recovery virtual_read hal_read finish)

lemma i2c_routines: "keeps I (direct_i2c H ch)" "keeps I (cached_i2c H cache ch)"
  unfolding direct_i2c_def cached_i2c_def by (intro wp keeps_hal_call)+

lemma reading: "keeps I (channel_read now H cid)" "keeps I (channel_read_cached now H cache cid)"
  unfolding channel_read_def channel_read_cached_def by (intro pipeline i2c_routines)+

lemma store_written: "keeps I (store_written cid v)"
  unfolding store_written_def by (intro keeps_chan wp field_keeps)

lemma writing: "keeps I (channel_write H cid v)"
  unfolding channel_write_def write_hardware_def Let_def by (intro keeps_chan wp store_written keeps_hal_call)

lemma write_level: "keeps I (channel_write_level now H cid level v who d)"
  unfolding channel_write_level_def Let_def
proof (intro keeps_chan wp init_keeps writing)
  fix ch assume "P cid ch"
  then have "P cid (ch\<lparr>priorities := Some (snd (set_level now level v who d (or_else (priorities ch) default_array)
      :: (engine_error, _) outcome \<times> _))\<rparr>)" by (rule level_keeps)
  then show "keeps I (\<lambda>e. case set_level now level v who d (or_else (priorities ch) default_array) of
      (r :: (engine_error, _) outcome, pa') \<Rightarrow> (r, e\<lparr>channels := channel_put cid (ch\<lparr>priorities := Some pa'\<rparr>) (channels e)\<rparr>))"
    by (simp add: keeps_def split_beta put)
qed

lemma expire_channel: "keeps I (expire_channel now H cid)"
proof (unfold keeps_def, intro allI impI)
  fix e assume e: "I e"
  show "I (snd (expire_channel now H cid e))"
  proof (cases "Option.bind (channel_get (channels e) cid) priorities")
    case None
    then show ?thesis using e by (auto simp: expire_channel_def bind_eq_None_conv split: option.splits)
  next
    case (Some pa)
    then obtain ch where ch: "channel_get (channels e) cid = Some ch" "priorities ch = Some pa"
      by (auto simp: bind_eq_Some_conv)
    obtain b pa' where pa': "expire_timed_levels now pa = (b, pa')" by force
    define e' where "e' = e\<lparr>channels := channel_put cid (ch\<lparr>priorities := Some pa'\<rparr>) (channels e)\<rparr>"
    have e': "I e'"
      using expire_keeps [OF get [OF e ch(1)] ch(2), of now] e by (simp add: pa' e'_def put)
    have k: "keeps I (bnd (lift (effective pa')) (\<lambda>(v, _). case v of
        Some x \<Rightarrow> ignore_error (channel_write H cid (level_request x)) | None \<Rightarrow> ret ()) :: ('h, unit) engine_routine)"
      by (intro wp) (auto intro!: wp writing split: prod.splits)
    show ?thesis using e' k by (simp add: expire_channel_def ch pa' e'_def [symmetric] keeps_def)
  qed
qed

lemma expire: "keeps I (expire_priority_timers now H)"
proof -
  have "keeps I (forM xs (expire_channel now H))" for xs by (intro wp expire_channel)
  then show ?thesis by (simp add: keeps_def expire_priority_timers_def)
qed

lemma pre_read_one: "keeps I (pre_read_one H cid cache)"
proof -
  have "keeps I (bnd (direct_i2c H ch) (\<lambda>r. ret (g r)) :: ('h, i2c_cache) engine_routine)" for ch g by (intro wp i2c_routines)
  then show ?thesis by (simp add: keeps_def pre_read_one_def split: option.splits)
qed

lemma pre_read: "keeps I (pre_read_i2c_channels H)"
proof -
  have "keeps I (pre_read_all H cids cache)" for cids cache
    by (induction cids arbitrary: cache) (auto intro: wp pre_read_one)
  then show ?thesis by (simp add: keeps_def pre_read_i2c_channels_def)
qed

end

text \<open>An invariant that the bookkeeping of the poll cycle keeps too.\<close>

locale engine_poll_invariant = engine_invariant +
  assumes item_keeps: "I e \<Longrightarrow> map_of (polls e) cid = Some item \<Longrightarrow>
    I (e\<lparr>polls := AList.update cid (item\<lparr>unchanged_count := n, last_polled := v, consecutive_fail_count := m\<rparr>) (polls e)\<rparr>)"
begin

lemma fail_count_keeps: "I e \<Longrightarrow> map_of (polls e) cid = Some item \<Longrightarrow>
    I (e\<lparr>polls := AList.update cid (item\<lparr>consecutive_fail_count := m\<rparr>) (polls e)\<rparr>)"
  using item_keeps [where e = e and cid = cid and item = item and n = "unchanged_count item" and v = "last_polled item" and m = m]
  by simp

lemma on_polls: "keeps I (on_polls (record_value cid v))" "keeps I (on_polls (record_failure cid))"
  "keeps I (on_polls (modify (reset_fail_count cid)))"
proof -
  show "keeps I (on_polls (record_value cid v))"
    by (auto simp: keeps_def on_polls_def record_value_def Let_def intro!: item_keeps split: option.splits)
  show "keeps I (on_polls (record_failure cid))" "keeps I (on_polls (modify (reset_fail_count cid)))"
    by (auto simp: keeps_def on_polls_def record_failure_def modify_def reset_fail_count_def
        intro!: fail_count_keeps split: option.splits)
qed

lemma poll_one: "keeps I (poll_one now H cache cid)"
proof -
  have "keeps I (poll_failed cid)"
    "keeps I (poll_read cid v)" for v
    unfolding poll_failed_def poll_read_def by (intro wp on_polls)+
  then show ?thesis using keeps_state [OF reading(2) [of now H cache cid]]
    by (auto simp: keeps_def poll_one_def split: prod.splits outcome.splits)
qed

lemma poll: "keeps I (poll_update now H)"
proof -
  have "keeps I (poll_all now H cache cids)" for cids cache
    by (induction cids) (auto intro: wp poll_one)
  then have "keeps I (\<lambda>e. poll_all now H cache (map fst (polls e)) e)" for cache
    by (simp add: keeps_def)
  then show ?thesis unfolding poll_update_def by (intro wp expire pre_read)
qed

end

section \<open>Well-formed engines\<close>

definition smooth_ok :: "smooth_state \<Rightarrow> bool" where
  "smooth_ok st \<longleftrightarrow> length (buffer st) = SMOOTH_BUFFER_MAX \<and> head_pos st < SMOOTH_BUFFER_MAX \<and> sample_count st \<le> SMOOTH_BUFFER_MAX"

text \<open>A channel is stored under its own number, its priority array is consistent and its smoothing buffer is in bounds.\<close>

definition chan_ok :: "channel_id \<Rightarrow> channel \<Rightarrow> bool" where
  "chan_ok cid ch \<longleftrightarrow> chan_id ch = cid \<and> (\<forall>pa. priorities ch = Some pa \<longrightarrow> array_ok pa) \<and> smooth_ok (smooth ch)"

definition backoff_ok :: "backoff_state \<Rightarrow> bool" where
  "backoff_ok b \<longleftrightarrow> RETRY_COOLDOWN_BASE \<le> cooldown b \<and> cooldown b \<le> RETRY_COOLDOWN_MAX"

definition item_ok :: "channel_id \<Rightarrow> poll_item \<Rightarrow> bool" where
  "item_ok cid item \<longleftrightarrow> poll_channel item = cid"

definition engine_ok :: "'h engine \<Rightarrow> bool" where
  "engine_ok e \<longleftrightarrow>
     (\<forall>cid ch. map_of (channels e) cid = Some ch \<longrightarrow> chan_ok cid ch) \<and>
     (\<forall>key b. map_of (i2c_backoff e) key = Some b \<longrightarrow> backoff_ok b) \<and>
     (\<forall>cid item. map_of (polls e) cid = Some item \<longrightarrow> item_ok cid item)"

lemma smooth_ok_apply: "smooth_ok st \<Longrightarrow> smooth_ok (snd (apply_smoothing st v w m))"
  using clamp_window_range [of w] less_le_trans [OF mod_less_divisor [of "clamp_window w" "Suc (head_pos st)"], of 10]
  by (simp add: smooth_ok_def apply_smoothing_state push_sample_def SMOOTH_BUFFER_MAX_def)

lemma with_cur_fields [simp]:
  "chan_id (with_cur x ch) = chan_id ch" "priorities (with_cur x ch) = priorities ch" "smooth (with_cur x ch) = smooth ch"
  "conv (with_cur x ch) = conv ch" "chan_ok cid (with_cur x ch) = chan_ok cid ch"
  by (simp_all add: with_cur_def chan_ok_def)

lemma convert_reading_ok: "convert_reading ts cid x ch = Ok ch' \<Longrightarrow> chan_ok cid ch \<Longrightarrow> chan_ok cid ch'"
  by (auto simp: convert_reading_def Let_def chan_ok_def)

lemma check_spike_ok: "check_sdp810_spike ch x = Ok (y, ch') \<Longrightarrow> chan_ok cid ch \<Longrightarrow> chan_ok cid ch'"
  by (auto simp: check_sdp810_spike_def Let_def chan_ok_def split: if_splits)

lemma chan_ok_spike [simp]: "chan_ok cid (ch\<lparr>spike := st\<rparr>) = chan_ok cid ch"
  by (simp add: chan_ok_def)

lemma filter_spikes_ok:
  assumes "filter_spikes ch = Ok ch'" "chan_ok cid ch"
  shows "chan_ok cid ch'"
proof -
  obtain x ch1 where spike: "check_sdp810_spike ch (cur (chan_value ch)) = (Ok (x, ch1) :: (engine_error, _) outcome)"
    using assms(1) by (auto simp: filter_spikes_def)
  then have "chan_ok cid ch1" using assms(2) by (rule check_spike_ok)
  then show ?thesis using assms(1) by (auto simp: filter_spikes_def spike Let_def split: option.splits)
qed

lemma smooth_reading_ok: "chan_ok cid ch \<Longrightarrow> chan_ok cid (smooth_reading ch)"
  using smooth_ok_apply by (auto simp: smooth_reading_def Let_def chan_ok_def split: option.splits prod.splits) (metis snd_conv)+

lemma limit_trigger_ok: "chan_ok cid ch \<Longrightarrow> chan_ok cid (limit_reading now ch)" "chan_ok cid ch \<Longrightarrow> chan_ok cid (trigger_reading t ch)"
  by (auto simp: limit_reading_def trigger_reading_def Let_def chan_ok_def split: option.splits prod.splits)

lemma or_default_ok: "chan_ok cid ch \<Longrightarrow> array_ok (or_else (priorities ch) default_array)"
  by (cases "priorities ch") (simp_all add: or_else_def default_array_ok chan_ok_def)

lemma set_level_keeps_ok:
  assumes "array_ok pa"
  shows "array_ok (snd (set_level now level v who d pa :: ('e, write_result) outcome \<times> _))"
proof (cases "valid_level level")
  case True
  show ?thesis
  proof (cases "deadline now v d :: ('e, instant option) outcome")
    case (Ok t)
    then show ?thesis using set_level_valid [OF assms True Ok, of who] by auto
  qed (simp_all add: assms deadline_no_error set_level_panic True)
qed (simp add: set_level_invalid assms)

lemma backoff_failure_ok:
  assumes "backoff_ok b" "backoff_record_failure b = Ok b'"
  shows "backoff_ok b'"
proof -
  have "unat (cooldown b) \<le> 300" "30 \<le> unat (cooldown b)"
    using assms(1) by (simp_all add: backoff_ok_def RETRY_COOLDOWN_BASE_def RETRY_COOLDOWN_MAX_def word_le_nat_alt)
  then have "unat (cooldown b * 2) = unat (cooldown b) * 2" by (simp add: unat_word_ariths)
  then show ?thesis using assms
    by (auto simp: backoff_record_failure_def backoff_ok_def RETRY_COOLDOWN_BASE_def RETRY_COOLDOWN_MAX_def word_le_nat_alt min_def
        split: if_splits)
qed

lemma backoff_new_ok: "backoff_ok backoff_new" "backoff_ok (backoff_reset b)"
  by (simp_all add: backoff_ok_def backoff_new_def backoff_reset_def RETRY_COOLDOWN_BASE_def RETRY_COOLDOWN_MAX_def)

lemma engine_ok_backoff:
  "engine_ok e \<Longrightarrow> backoff_ok b \<Longrightarrow> engine_ok (e\<lparr>i2c_backoff := AList.update key b (i2c_backoff e)\<rparr>)"
  by (simp add: engine_ok_def update_conv')

lemma engine_ok_known_backoff: "engine_ok e \<Longrightarrow> backoff_ok (or_else (map_of (i2c_backoff e) key) backoff_new)"
  by (cases key; cases "map_of (i2c_backoff e) key") (auto simp: engine_ok_def or_else_def backoff_new_ok)

interpretation ok: engine_poll_invariant engine_ok chan_ok
proof
  fix e :: "'h engine" and key s
  assume e: "engine_ok e"
  show "engine_ok (e\<lparr>i2c_backoff := AList.update key s (i2c_backoff e)\<rparr>)"
    if "backoff_record_failure (or_else (map_of (i2c_backoff e) key) backoff_new) = (Ok s :: (engine_error, _) outcome)"
    using backoff_failure_ok [OF engine_ok_known_backoff [OF e] that] e by (rule engine_ok_backoff [rotated])
  show "engine_ok (e\<lparr>i2c_backoff := AList.update key (backoff_reset s) (i2c_backoff e)\<rparr>)"
    using e by (simp add: engine_ok_backoff backoff_new_ok)
next
  fix cid ch now ts trig x ch'
  assume "chan_ok cid ch" "process_reading now ts cid trig x ch = Ok ch'"
  then show "chan_ok cid ch'"
    by (auto simp: process_reading_def intro!: limit_trigger_ok smooth_reading_ok
        dest!: convert_reading_ok filter_spikes_ok)
next
  fix cid ch now level v' who d
  assume ch: "chan_ok cid ch"
  show "chan_ok cid (ch\<lparr>priorities := Some (snd (set_level now level v' who d (or_else (priorities ch) default_array)
      :: (engine_error, _) outcome \<times> _))\<rparr>)"
    using set_level_keeps_ok [OF or_default_ok [OF ch]] ch by (simp add: chan_ok_def)
next
  fix cid ch pa now
  assume "chan_ok cid ch" "priorities ch = Some pa"
  then show "chan_ok cid (ch\<lparr>priorities := Some (snd (expire_timed_levels now pa))\<rparr>)"
    by (simp add: chan_ok_def expire_array_ok)
next
  fix cid ch assume "chan_ok cid ch"
  then show "chan_ok cid (ch\<lparr>priorities := Some (or_else (priorities ch) default_array)\<rparr>)"
    using or_default_ok [of cid ch] by (simp add: chan_ok_def)
qed (simp_all add: engine_ok_def channel_get_def channel_put_def update_conv' chan_ok_def item_ok_def)

section \<open>Reachable engines\<close>

text \<open>The engine after any sequence of configuration changes, reads, writes and poll cycles; the hardware may change by itself
  between them.\<close>

inductive engine_reach :: "'h hal \<Rightarrow> 'h engine \<Rightarrow> bool" for H where
  reach_new: "engine_reach H (engine_new h)"
| reach_hardware: "engine_reach H e \<Longrightarrow> engine_reach H (e\<lparr>hardware := h\<rparr>)"
| reach_add: "engine_reach H e \<Longrightarrow> channel_add (channel_new cid ct cd dev adr trig cv lbl) (channels e) = (r, cs) \<Longrightarrow>
    engine_reach H (e\<lparr>channels := cs\<rparr>)"
| reach_remove: "engine_reach H e \<Longrightarrow> channel_remove cid (channels e) = (r, cs) \<Longrightarrow> engine_reach H (e\<lparr>channels := cs\<rparr>)"
| reach_metadata: "engine_reach H e \<Longrightarrow> update_metadata cid en cv lbl (channels e) = (r, cs) \<Longrightarrow>
    engine_reach H (e\<lparr>channels := cs\<rparr>)"
| reach_virtual: "engine_reach H e \<Longrightarrow> update_virtual cid src (channels e) = (r, cs) \<Longrightarrow> engine_reach H (e\<lparr>channels := cs\<rparr>)"
| reach_clear: "engine_reach H e \<Longrightarrow> engine_reach H (e\<lparr>channels := channel_clear (channels e)\<rparr>)"
| reach_tables: "engine_reach H e \<Longrightarrow> engine_reach H (e\<lparr>tables_of := ts\<rparr>)"
| reach_poll_add: "engine_reach H e \<Longrightarrow> engine_reach H (e\<lparr>polls := poll_add cid (polls e)\<rparr>)"
| reach_poll_remove: "engine_reach H e \<Longrightarrow> engine_reach H (e\<lparr>polls := poll_remove cid (polls e)\<rparr>)"
| reach_poll_clear: "engine_reach H e \<Longrightarrow> engine_reach H (e\<lparr>polls := poll_clear (polls e)\<rparr>)"
| reach_restore: "engine_reach H e \<Longrightarrow> engine_reach H e0 \<Longrightarrow> engine_reach H (e\<lparr>polls := restore (snapshot (polls e0)) (polls e)\<rparr>)"
| reach_subscriptions: "engine_reach H e \<Longrightarrow> engine_reach H (e\<lparr>watches_of := ws, notifies_of := ns\<rparr>)"
| reach_read: "engine_reach H e \<Longrightarrow> channel_read now H cid e = (r, e') \<Longrightarrow> engine_reach H e'"
| reach_write: "engine_reach H e \<Longrightarrow> channel_write H cid v e = (r', e') \<Longrightarrow> engine_reach H e'"
| reach_level: "engine_reach H e \<Longrightarrow> channel_write_level now H cid level v' who d e = (r'', e') \<Longrightarrow> engine_reach H e'"
| reach_poll: "engine_reach H e \<Longrightarrow> poll_update now H e = (rn, e') \<Longrightarrow> engine_reach H e'"

lemma channel_new_ok: "chan_ok cid (channel_new cid ct cd dev adr trig cv lbl)"
  by (simp add: chan_ok_def channel_new_def smooth_ok_def default_smooth_def SMOOTH_BUFFER_MAX_def)

lemma channel_new_id [simp]: "chan_id (channel_new cid ct cd dev adr trig cv lbl) = cid"
  by (simp add: channel_new_def)

lemma engine_ok_channels:
  assumes "engine_ok e" "\<And>cid ch. map_of cs cid = Some ch \<Longrightarrow> chan_ok cid ch"
  shows "engine_ok (e\<lparr>channels := cs\<rparr>)"
  using assms by (simp add: engine_ok_def)

lemma store_operations_ok:
  assumes "engine_ok e"
  shows "channel_add (channel_new cid ct cd dev adr trig cv lbl) (channels e) = (r, cs) \<Longrightarrow> engine_ok (e\<lparr>channels := cs\<rparr>)"
    and "channel_remove cid (channels e) = (r, cs) \<Longrightarrow> engine_ok (e\<lparr>channels := cs\<rparr>)"
    and "update_metadata cid en cv lbl (channels e) = (r, cs) \<Longrightarrow> engine_ok (e\<lparr>channels := cs\<rparr>)"
    and "update_virtual cid src (channels e) = (r, cs) \<Longrightarrow> engine_ok (e\<lparr>channels := cs\<rparr>)"
proof -
  have ok: "chan_ok c ch" if "map_of (channels e) c = Some ch" for c ch
    using assms that by (simp add: engine_ok_def)
  show "engine_ok (e\<lparr>channels := cs\<rparr>)"
    if "channel_add (channel_new cid ct cd dev adr trig cv lbl) (channels e) = (r, cs)"
    using that ok channel_new_ok
    by (intro engine_ok_channels [OF assms]) (auto simp: channel_add_def update_conv' split: if_splits)
  show "engine_ok (e\<lparr>channels := cs\<rparr>)" if "channel_remove cid (channels e) = (r, cs)"
    using that ok
    by (intro engine_ok_channels [OF assms]) (auto simp: channel_remove_def delete_conv' split: if_splits)
  have upd: "chan_ok cid (ch\<lparr>enabled := en, conv := cv', label := lbl\<rparr>)" "chan_ok cid (ch\<lparr>channel_in := Some src\<rparr>)"
    if "channel_get (channels e) cid = Some ch" for ch cv'
    using ok [of cid ch] that by (simp_all add: chan_ok_def channel_get_def)
  show "engine_ok (e\<lparr>channels := cs\<rparr>)" if "update_metadata cid en cv lbl (channels e) = (r, cs)"
    using that ok upd(1)
    by (intro engine_ok_channels [OF assms])
       (auto simp: update_metadata_def channel_put_def update_conv' Let_def split: option.splits if_splits)
  show "engine_ok (e\<lparr>channels := cs\<rparr>)" if "update_virtual cid src (channels e) = (r, cs)"
    using that ok upd(2)
    by (intro engine_ok_channels [OF assms])
       (auto simp: update_virtual_def channel_put_def update_conv' split: option.splits if_splits)
qed

lemma engine_routines_ok:
  assumes "engine_ok e"
  shows "channel_read now H cid e = (r, e') \<Longrightarrow> engine_ok e'"
    and "channel_write H cid v e = (r, e') \<Longrightarrow> engine_ok e'"
    and "channel_write_level now H cid level v' who d e = (r'', e') \<Longrightarrow> engine_ok e'"
    and "poll_update now H e = (rn, e') \<Longrightarrow> engine_ok e'"
  using assms
  by (blast intro: keeps_state [OF ok.reading(1)], blast intro: keeps_state [OF ok.writing],
      blast intro: keeps_state [OF ok.write_level], blast intro: keeps_state [OF ok.poll])

lemma other_fields_ok:
  assumes "engine_ok e"
  shows "engine_ok (e\<lparr>hardware := h\<rparr>)" "engine_ok (e\<lparr>tables_of := ts\<rparr>)" "engine_ok (e\<lparr>watches_of := ws, notifies_of := ns\<rparr>)"
    "engine_ok (e\<lparr>polls := poll_add cid (polls e)\<rparr>)" "engine_ok (e\<lparr>polls := poll_remove cid (polls e)\<rparr>)"
    "engine_ok (e\<lparr>channels := channel_clear (channels e)\<rparr>)" "engine_ok (e\<lparr>polls := poll_clear (polls e)\<rparr>)"
  using assms
  by (auto simp: channel_clear_def poll_clear_def engine_ok_def poll_add_def poll_remove_def update_conv' delete_conv' poll_item_new_def item_ok_def
      split: if_splits)

lemma restore_ok: "engine_ok e \<Longrightarrow> engine_ok e0 \<Longrightarrow> engine_ok (e\<lparr>polls := restore (snapshot (polls e0)) (polls e)\<rparr>)"
  by (simp add: engine_ok_def restore_def snapshot_def)

lemma engine_new_ok: "engine_ok (engine_new h)"
  by (simp add: engine_ok_def engine_new_def)

lemma engine_reach_ok: "engine_reach H e \<Longrightarrow> engine_ok e"
  by (induction rule: engine_reach.induct)
     (erule (1) engine_routines_ok store_operations_ok | erule other_fields_ok | erule (1) restore_ok | rule engine_new_ok)+

lemma engine_well_formed_cases:
  assumes "engine_reach H e"
  shows "map_of (channels e) cid = Some ch \<Longrightarrow> chan_id ch = cid \<and> length (buffer (smooth ch)) = 10 \<and>
      head_pos (smooth ch) < 10 \<and> sample_count (smooth ch) \<le> 10"
    and "map_of (channels e) cid = Some ch \<Longrightarrow> priorities ch = Some pa \<Longrightarrow> effective pa = Ok (spec_effective pa)"
    and "map_of (polls e) cid = Some item \<Longrightarrow> poll_channel item = cid"
    and "map_of (i2c_backoff e) key = Some b \<Longrightarrow> 30 \<le> cooldown b \<and> cooldown b \<le> 300"
  using engine_reach_ok [OF assms]
  by (auto simp: engine_ok_def chan_ok_def smooth_ok_def SMOOTH_BUFFER_MAX_def effective_spec item_ok_def
      backoff_ok_def RETRY_COOLDOWN_BASE_def RETRY_COOLDOWN_MAX_def)
     (cases key, simp)+

text \<open>C7. Every reachable engine is well-formed: after any configuration changes, reads, writes, priority writes and poll
  cycles on any hardware, whether they succeed or fail, each channel is stored under its own number, its priority array answers with
  the first level that holds a value, its smoothing buffer has ten samples with the positions inside, every poll item
  is that of its channel, and every retry cooldown of a sensor lies between 30 and 300 poll cycles.\<close>

theorem engine_well_formed:
  assumes "engine_reach H e"
  shows "(map_of (channels e) cid = Some ch \<longrightarrow>
      chan_id ch = cid \<and> length (buffer (smooth ch)) = 10 \<and>
      head_pos (smooth ch) < 10 \<and> sample_count (smooth ch) \<le> 10) \<and>
    (map_of (channels e) cid = Some ch \<and> priorities ch = Some pa \<longrightarrow>
      effective pa = Ok (spec_effective pa)) \<and>
    (map_of (polls e) cid = Some item \<longrightarrow>
      poll_channel item = cid) \<and>
    (map_of (i2c_backoff e) key = Some b \<longrightarrow>
      30 \<le> cooldown b \<and> cooldown b \<le> 300)"
  using engine_well_formed_cases [OF assms] by blast

text \<open>Hardware without devices: every read and every initialisation fails, writes are accepted.\<close>

definition dead_hal :: "unit hal" where
  "dead_hal = \<lparr>read_analog = \<lambda>_ _ h. (Inl (HalIo []), h), read_digital = \<lambda>_ h. (Inl (HalIo []), h),
     read_i2c = \<lambda>_ _ _ h. (Inl (HalIo []), h), read_pwm = \<lambda>_ _ h. (Inl (HalIo []), h), read_uart = \<lambda>_ _ h. (Inl (HalIo []), h),
     write_digital = \<lambda>_ _ h. (Inr (), h), write_pwm = \<lambda>_ _ _ h. (Inr (), h), reinit_i2c_sensor = \<lambda>_ _ _ h. (Inl (HalIo []), h)\<rparr>"

definition sample_channel :: channel where
  "sample_channel = channel_new 612 I2c DirIn 2 37 False default_conv ''sdp810''"

definition sample_engine :: "unit engine" where
  "sample_engine = (engine_new ())\<lparr>channels := [(612, sample_channel)], polls := [(612, poll_item_new 612)]\<rparr>"

lemma sample_engine_reach: "engine_reach dead_hal sample_engine"
proof -
  have "channel_add sample_channel (channels (engine_new ())) = (Ok (), [(612, sample_channel)])"
    by (simp add: channel_add_def engine_new_def sample_channel_def)
  from reach_poll_add [OF reach_add [OF reach_new this [unfolded sample_channel_def]], of dead_hal 612]
  show ?thesis by (simp add: sample_engine_def sample_channel_def poll_add_def engine_new_def)
qed

theorem engine_well_formed_witness:
  "engine_reach dead_hal sample_engine \<and> map_of (channels sample_engine) 612 = Some sample_channel \<and>
   chan_id sample_channel = 612 \<and> length (buffer (smooth sample_channel)) = 10 \<and>
   poll_channel (the (map_of (polls sample_engine) 612)) = 612"
proof -
  have m: "map_of (channels sample_engine) 612 = Some sample_channel" "map_of (polls sample_engine) 612 = Some (poll_item_new 612)"
    by (simp_all add: sample_engine_def)
  show ?thesis
    using sample_engine_reach engine_well_formed [OF sample_engine_reach, of 612 sample_channel default_array "poll_item_new 612" "(0, 0)" backoff_new] m
    by auto
qed

end
