(* ===== verification/Engine_Poll.thy ===== *)
theory Engine_Poll
  imports Engine_Invariants
begin

text \<open>
  The poll cycle: coalescing of sensor reads does not change what a cycle does, and the notifications of a cycle are those of
  the channels whose value changed. The frame of the routines that read and write (they leave polled channels and
  subscriptions alone) is an interpretation of \<open>engine_invariant\<close>.
\<close>

section \<open>Frame of reading and writing\<close>

definition frame :: "channel_id set \<Rightarrow> poll_store \<Rightarrow> watch_store \<Rightarrow> notify_store \<Rightarrow> 'h engine \<Rightarrow> bool" where
  "frame D ps ws ns e \<longleftrightarrow> dom (map_of (channels e)) = D \<and> polls e = ps \<and> watches_of e = ws \<and> notifies_of e = ns"

interpretation frame: engine_invariant "frame D ps ws ns" "\<lambda>cid ch. cid \<in> D" for D ps ws ns
  by unfold_locales (auto simp: frame_def channel_get_def channel_put_def update_conv' dom_def)

section \<open>Reading a known channel never fails\<close>

text \<open>A routine that returns no error from the states of an invariant, and keeps it.\<close>

definition no_error :: "('s \<Rightarrow> bool) \<Rightarrow> ('s, 'e, 'a) routine \<Rightarrow> bool" where
  "no_error I m \<longleftrightarrow> (\<forall>s. I s \<longrightarrow> I (snd (m s)) \<and> (\<forall>x. fst (m s) \<noteq> Err x))"

lemma no_error_bnd: "no_error I m \<Longrightarrow> (\<And>a. no_error I (f a)) \<Longrightarrow> no_error I (bnd m f)"
  by (fastforce simp: no_error_def bnd_def split: prod.splits outcome.splits)

lemma no_error_sq: "no_error I m \<Longrightarrow> no_error I n \<Longrightarrow> no_error I (sq m n)"
  unfolding sq_def by (rule no_error_bnd)

lemma no_error_basic: "no_error I (ret a)" "no_error I panic"
  by (simp_all add: no_error_def ret_def panic_def)

lemma no_error_query: "(\<And>e x. I e \<Longrightarrow> q e \<noteq> Err x) \<Longrightarrow> no_error I (query q)"
  by (simp add: no_error_def query_def)

lemma no_error_lift: "(\<And>x. r \<noteq> Err x) \<Longrightarrow> no_error I (lift r)"
  by (simp add: no_error_def lift_def)

lemma no_error_option: "(\<And>x. no_error I (f x)) \<Longrightarrow> no_error I m \<Longrightarrow> no_error I (case v of Some x \<Rightarrow> f x | None \<Rightarrow> m)"
  by (cases v) simp_all

lemma no_error_sum: "(\<And>x. no_error I (f x)) \<Longrightarrow> (\<And>y. no_error I (g y)) \<Longrightarrow> no_error I (case v of Inl x \<Rightarrow> f x | Inr y \<Rightarrow> g y)"
  by (cases v) simp_all

lemma no_error_if: "no_error I m \<Longrightarrow> no_error I n \<Longrightarrow> no_error I (if b then m else n)"
  by simp

lemmas no_error_rules = no_error_bnd no_error_sq no_error_basic no_error_option no_error_sum no_error_if

lemma no_error_keeps: "keeps I m \<Longrightarrow> (\<And>s x. I s \<Longrightarrow> fst (m s) \<noteq> Err x) \<Longrightarrow> no_error I m"
  by (simp add: no_error_def keeps_def)

lemma bindO_Err_iff: "bindO m f = Err x \<longleftrightarrow> m = Err x \<or> (\<exists>a. m = Ok a \<and> f a = Err x)"
  by (cases m) auto

lemma conversion_no_error: "clamp64 a b c \<noteq> Err x" "apply_combined_transform cv a \<noteq> Err x" "convert_table_or_range cv ts v \<noteq> Err x"
  by (auto simp: clamp64_def apply_combined_transform_def convert_table_or_range_def Let_def bindO_Err_iff
      split: option.splits if_splits)

lemma process_no_error: "process_reading now ts cid trig r ch \<noteq> Err x"
proof -
  have "convert_reading ts cid r ch \<noteq> Err x" for ch
    by (auto simp: convert_reading_def convert_def Let_def bindO_Err_iff conversion_no_error split: option.splits prod.splits)
  moreover have "filter_spikes ch \<noteq> Err x" for ch
    by (auto simp: filter_spikes_def check_sdp810_spike_def apply_spike_filter_def Let_def bindO_Err_iff
        split: option.splits if_splits prod.splits)
  ultimately show ?thesis by (auto simp: process_reading_def bindO_Err_iff)
qed

text \<open>With the channel among the known ones, \<open>get_chan\<close> succeeds and \<open>put_chan\<close> keeps it known.\<close>

lemma frame_no_error:
  assumes "cid \<in> D"
  shows "no_error (frame D ps ws ns) (get_chan cid)" "no_error (frame D ps ws ns) (put_chan cid ch)"
    "no_error (frame D ps ws ns) (hal_call op)" "no_error (frame D ps ws ns) (raise_backoff key)"
    "no_error (frame D ps ws ns) (clear_backoff key)"
proof -
  show "no_error (frame D ps ws ns) (get_chan cid)"
    using assms by (auto simp: no_error_def get_chan_def query_def frame_def channel_get_def)
  show "no_error (frame D ps ws ns) (put_chan cid ch)"
    by (rule no_error_keeps [OF frame.keeps_put_chan [OF assms]]) (simp add: put_chan_def modify_def)
  show "no_error (frame D ps ws ns) (hal_call op)"
    by (rule no_error_keeps [OF frame.keeps_hal_call]) (simp add: hal_call_def split_beta)
  show "no_error (frame D ps ws ns) (raise_backoff key)"
    by (rule no_error_keeps [OF frame.raise_backoff])
       (auto simp: raise_backoff_def monad_defs backoff_record_failure_def split: if_splits)
  show "no_error (frame D ps ws ns) (clear_backoff key)"
    by (rule no_error_keeps [OF frame.clear_backoff]) (simp add: clear_backoff_def modify_def)
qed

lemma has_written_no_error: "has_written_value ch \<noteq> Err x"
  by (auto simp: has_written_value_def effective_def active_value_def bindO_Err_iff split: option.splits if_splits)

lemma read_no_error:
  assumes "cid \<in> D"
  shows "no_error (frame D ps ws ns) (channel_read_cached now H cache cid)"
proof -
  note rules = no_error_rules frame_no_error [OF assms]
  have recovery: "no_error (frame D ps ws ns) (try_i2c_recovery H cid)"
    unfolding try_i2c_recovery_def by (intro rules no_error_query) simp
  have finish: "no_error (frame D ps ws ns) (finish_reading now cid t r)" for t r
    unfolding finish_reading_def by (intro rules no_error_query process_no_error)
  have virt: "no_error (frame D ps ws ns) (read_virtual cid)"
    unfolding read_virtual_def Let_def by (intro rules no_error_query no_error_lift has_written_no_error) simp
  have hal: "no_error (frame D ps ws ns) (hal_read H (cached_i2c H cache) ch)" for ch
    unfolding hal_read_def cached_i2c_def direct_i2c_def
    by (cases "chan_type ch") (simp_all add: rules split: option.split sum.split)
  show ?thesis
    unfolding channel_read_cached_def read_pipeline_def by (intro rules recovery finish virt hal)
qed

section \<open>Notifications of a cycle\<close>

definition last_of :: "poll_store \<Rightarrow> channel_id \<Rightarrow> engine_value" where
  "last_of ps cid = last_polled (the (map_of ps cid))"

text \<open>The notifications for a channel between two states of the poll store.\<close>

definition change_notes :: "'h engine \<Rightarrow> poll_store \<Rightarrow> poll_store \<Rightarrow> channel_id \<Rightarrow> notification list" where
  "change_notes e ps ps' cid =
     (if cid \<in> dom (map_of (channels e)) \<and> \<not> values_equal (last_of ps cid) (last_of ps' cid)
      then notifications_for e cid (last_of ps' cid) else [])"

lemma change_notes_frame:
  "frame (dom (map_of (channels e))) ps (watches_of e) (notifies_of e) e' \<Longrightarrow> change_notes e' = change_notes e"
  by (intro ext) (simp add: change_notes_def frame_def notifications_for_def)

lemma read_unknown: "map_of (channels e) cid = None \<Longrightarrow> channel_read_cached now H cache cid e = (Err (ChannelNotFound cid), e)"
  by (simp add: channel_read_cached_def read_pipeline_def get_chan_def channel_get_def bnd_def query_def)

lemma poll_one_effect:
  assumes fr: "frame D ps ws ns e" and item: "map_of ps cid = Some item" and run: "poll_one now H cache cid e = (Ok sent, e')"
  obtains item' where "frame D (AList.update cid item' ps) ws ns e'"
    "sent = change_notes e ps (AList.update cid item' ps) cid"
proof (cases "cid \<in> D")
  case True
  then obtain v e1 where read: "channel_read_cached now H cache cid e = (Ok v, e1)" and fr1: "frame D ps ws ns e1"
    using read_no_error [OF True, of ps ws ns now H cache] fr run
    by (cases "channel_read_cached now H cache cid e"; cases "fst (channel_read_cached now H cache cid e)")
       (auto simp: no_error_def poll_one_def dest: spec [of _ e])
  define item' where "item' = item\<lparr>unchanged_count := if \<not> values_equal (last_polled item) v then 0 else unchanged_count item + 1,
      last_polled := v, consecutive_fail_count := 0\<rparr>"
  have e': "e' = e1\<lparr>polls := AList.update cid item' ps\<rparr>"
    and sent: "sent = (if \<not> values_equal (last_polled item) v then notifications_for e1 cid v else [])"
    using run fr1 item
    by (auto simp: poll_one_def read poll_read_def on_polls_def record_value_def Let_def bnd_def query_def ret_def frame_def item'_def
        notifications_for_def split: if_splits)
  have "frame D (AList.update cid item' ps) ws ns e'" using fr1 by (simp add: e' frame_def)
  moreover have "sent = change_notes e ps (AList.update cid item' ps) cid"
    using sent fr fr1 item True
    by (auto simp: change_notes_def last_of_def update_conv' item'_def frame_def notifications_for_def)
  ultimately show thesis by (rule that)
next
  case False
  then have read: "channel_read_cached now H cache cid e = (Err (ChannelNotFound cid), e)"
    using fr by (intro read_unknown) (auto simp: frame_def dom_def)
  have "sent = [] \<and> (\<exists>item'. e' = e\<lparr>polls := AList.update cid item' ps\<rparr> \<and> last_polled item' = last_polled item)"
    using run fr item
    by (auto simp: poll_one_def read poll_failed_def on_polls_def record_failure_def reset_fail_count_def sq_def bnd_def modify_def
        ret_def frame_def update_conv' split: if_splits intro: exI [of _ "item\<lparr>consecutive_fail_count := n\<rparr>" for n])
  then obtain item' where "sent = []" "e' = e\<lparr>polls := AList.update cid item' ps\<rparr>" by blast
  then show thesis using that [of item'] fr False by (simp add: frame_def change_notes_def)
qed

lemma poll_all_effect:
  assumes "poll_all now H cache cids e = (Ok sent, e')" "frame D ps ws ns e" "distinct cids" "set cids \<subseteq> dom (map_of ps)"
  obtains ps' where "frame D ps' ws ns e'" "map fst ps' = map fst ps" "\<And>c. c \<notin> set cids \<Longrightarrow> map_of ps' c = map_of ps c"
    "sent = concat (map (change_notes e ps ps') cids)"
  using assms
proof (induction cids arbitrary: e ps sent thesis)
  case Nil
  then show ?case by (auto simp: ret_def)
next
  case (Cons cid cids)
  obtain ns1 e1 ns2 where one: "poll_one now H cache cid e = (Ok ns1, e1)" and
    rest: "poll_all now H cache cids e1 = (Ok ns2, e')" and sent: "sent = ns1 @ ns2"
    using Cons.prems(2) by (auto simp: bnd_eq_Ok ret_def)
  obtain item where item: "map_of ps cid = Some item" using Cons.prems(5) by auto
  from poll_one_effect [OF Cons.prems(3) item one] obtain item' where
    fr1: "frame D (AList.update cid item' ps) ws ns e1" and ns1: "ns1 = change_notes e ps (AList.update cid item' ps) cid" .
  let ?ps1 = "AList.update cid item' ps"
  have keys: "map fst ?ps1 = map fst ps" using item by (force simp: update_keys dest: map_of_SomeD)
  have dom1: "set cids \<subseteq> dom (map_of ?ps1)" using Cons.prems(5) by (auto simp: update_conv')
  obtain ps' where ps': "frame D ps' ws ns e'" "map fst ps' = map fst ?ps1"
    "\<And>c. c \<notin> set cids \<Longrightarrow> map_of ps' c = map_of ?ps1 c" "ns2 = concat (map (change_notes e1 ?ps1 ps') cids)"
    using Cons.IH [OF _ rest fr1 _ dom1] Cons.prems(4) by auto
  have e1: "change_notes e1 = change_notes e" using fr1 Cons.prems(3)
    by (intro ext) (simp add: change_notes_def frame_def notifications_for_def)
  have cid: "cid \<notin> set cids" using Cons.prems(4) by simp
  have "ns1 = change_notes e ps ps' cid"
    using ns1 ps'(3) [OF cid] by (simp add: change_notes_def last_of_def)
  moreover have "change_notes e ?ps1 ps' c = change_notes e ps ps' c" if "c \<in> set cids" for c
    using that cid by (auto simp: change_notes_def last_of_def update_conv')
  ultimately have "sent = concat (map (change_notes e ps ps') (cid # cids))"
    using sent ps'(4) by (simp add: e1 cong: map_cong)
  moreover have "map_of ps' c = map_of ps c" if "c \<notin> set (cid # cids)" for c
    using ps'(3) [of c] that by (simp add: update_conv')
  ultimately show ?case using Cons.prems(1) [OF ps'(1) ps'(2) [unfolded keys]] by blast
qed

lemma poll_notifies_changes_cases:
  assumes "distinct (map fst (polls e))" "poll_update now H e = (Ok sent, e')"
  shows "sent = concat (map (\<lambda>cid.
      if channel_contains (channels e) cid \<and> \<not> values_equal (last_of (polls e) cid) (last_of (polls e') cid)
      then notifications_for e cid (last_of (polls e') cid) else []) (map fst (polls e)))"
    and "map fst (polls e') = map fst (polls e)" "watches_of e' = watches_of e" "notifies_of e' = notifies_of e"
proof -
  let ?fr = "frame (dom (map_of (channels e))) (polls e) (watches_of e) (notifies_of e)"
  have fr: "?fr e" by (simp add: frame_def)
  obtain cache e1 e2 where "expire_priority_timers now H e = (Ok (), e1)" "pre_read_i2c_channels H e1 = (Ok cache, e2)" and
    poll: "poll_all now H cache (map fst (polls e2)) e2 = (Ok sent, e')"
    using assms(2) by (auto simp: poll_update_def sq_def bnd_eq_Ok)
  then have fr2: "?fr e2" using keeps_state [OF frame.expire fr] keeps_state [OF frame.pre_read] by blast
  then have polls: "polls e2 = polls e" by (simp add: frame_def)
  from poll fr2 assms(1) obtain ps' where ps': "frame (dom (map_of (channels e))) ps' (watches_of e) (notifies_of e) e'"
    "map fst ps' = map fst (polls e)" "sent = concat (map (change_notes e2 (polls e) ps') (map fst (polls e)))"
    unfolding polls by (elim poll_all_effect) (auto simp: dom_map_of_conv_image_fst)
  have polls': "polls e' = ps'" using ps'(1) by (simp add: frame_def)
  have "sent = concat (map (change_notes e (polls e) (polls e')) (map fst (polls e)))"
    using ps'(3) by (simp only: change_notes_frame [OF fr2] polls')
  then show "sent = concat (map (\<lambda>cid.
      if channel_contains (channels e) cid \<and> \<not> values_equal (last_of (polls e) cid) (last_of (polls e') cid)
      then notifications_for e cid (last_of (polls e') cid) else []) (map fst (polls e)))"
    by (simp add: change_notes_def [abs_def] channel_contains_def dom_def)
  show "map fst (polls e') = map fst (polls e)" "watches_of e' = watches_of e" "notifies_of e' = notifies_of e"
    using ps' by (simp_all add: polls' frame_def)
qed

text \<open>C21. A poll cycle reports exactly the changes: the notifications of a cycle are, channel by channel in the order of polling, one for
  each watcher of the channel and each global subscriber when the channel exists and the value recorded for it differs
  from the one of the cycle before, and none otherwise. The cycle records a value for the channels it polls and
  changes neither the set of polled channels nor the subscriptions.\<close>

theorem poll_notifies_changes:
  assumes "distinct (map fst (polls e))" "poll_update now H e = (Ok sent, e')"
  shows "(sent = concat (map (\<lambda>cid.
      if channel_contains (channels e) cid \<and> \<not> values_equal (last_of (polls e) cid) (last_of (polls e') cid)
      then notifications_for e cid (last_of (polls e') cid) else []) (map fst (polls e)))) \<and>
    map fst (polls e') = map fst (polls e) \<and>
    watches_of e' = watches_of e \<and>
    notifies_of e' = notifies_of e"
  using poll_notifies_changes_cases [OF assms] by blast

text \<open>A cycle on a sensor that cannot be read: its status goes from unknown to down, and the subscriber hears of it.\<close>

theorem poll_notifies_changes_witness:
  "\<exists>sent e'. poll_update 0 dead_hal (sample_engine\<lparr>notifies_of := [9]\<rparr>) = (Ok sent, e') \<and> sent = [Notify 9 612 (with_status Down)]"
proof -
  let ?e = "sample_engine\<lparr>notifies_of := [9]\<rparr>"
  define r where "r = poll_update 0 dead_hal ?e"
  have ok: "\<exists>sent. fst r = Ok sent" unfolding r_def by (rule exI) code_simp
  then obtain sent where sent: "poll_update 0 dead_hal ?e = (Ok sent, snd r)" by (cases r) (auto simp: r_def)
  have last: "last_of [(612, poll_item_new 612)] 612 = default_value" "last_of (polls (snd r)) 612 = with_status Down"
    "map fst (polls ?e) = [612]" unfolding r_def by code_simp+
  have "distinct (map fst (polls ?e))" by (simp add: sample_engine_def)
  from conjunct1 [OF poll_notifies_changes [OF this sent]]
  have "sent = [Notify 9 612 (with_status Down)]"
    unfolding last(3)
    by (simp add: last values_equal_def with_status_def default_value_def channel_contains_def sample_engine_def engine_new_def
        notifications_for_def watch_notifications_def subscribers_for_def notify_notifications_def)
  with sent show ?thesis by blast
qed

section \<open>Coalescing\<close>

text \<open>The cycle without the cache: every channel is read from the hardware.\<close>

definition poll_one_direct :: "instant \<Rightarrow> 'h hal \<Rightarrow> channel_id \<Rightarrow> ('h, notification list) engine_routine" where
  "poll_one_direct now H cid = (\<lambda>e. case channel_read now H cid e of
      (Panic, e') \<Rightarrow> (Panic, e')
    | (Err _, e') \<Rightarrow> poll_failed cid e'
    | (Ok v, e') \<Rightarrow> poll_read cid v e')"

primrec poll_all_direct :: "instant \<Rightarrow> 'h hal \<Rightarrow> channel_id list \<Rightarrow> ('h, notification list) engine_routine" where
  "poll_all_direct now H [] = ret []"
| "poll_all_direct now H (cid # cids) =
     bnd (poll_one_direct now H cid) (\<lambda>ns. bnd (poll_all_direct now H cids) (\<lambda>ms. ret (ns @ ms)))"

definition poll_update_direct :: "instant \<Rightarrow> 'h hal \<Rightarrow> ('h, notification list) engine_routine" where
  "poll_update_direct now H = sq (expire_priority_timers now H) (\<lambda>e. poll_all_direct now H (map fst (polls e)) e)"

text \<open>Sensors that give the same answer during a cycle, and a cache that holds such answers.\<close>

definition steady :: "'h hal \<Rightarrow> (u32 \<times> u32 \<times> string \<Rightarrow> hal_error + f64) \<Rightarrow> bool" where
  "steady H ans \<longleftrightarrow> (\<forall>dev adr lbl h. read_i2c H dev adr lbl h = (ans (dev, adr, lbl), h))"

definition cache_sound :: "(u32 \<times> u32 \<times> string \<Rightarrow> hal_error + f64) \<Rightarrow> i2c_cache \<Rightarrow> bool" where
  "cache_sound ans cache \<longleftrightarrow> (\<forall>key r. map_of cache key = Some r \<longrightarrow> r = ans key)"

lemma direct_i2c_steady: "steady H ans \<Longrightarrow> direct_i2c H ch = ret (ans (i2c_key ch))"
  by (intro ext) (simp add: direct_i2c_def hal_call_def steady_def i2c_key_def ret_def)

lemma finish_reading_error: "finish_reading now cid t (Inl a) = finish_reading now cid t (Inl b)"
  by (simp add: finish_reading_def)

lemma cached_i2c_steady:
  assumes "steady H ans" "cache_sound ans cache"
  shows "bnd (cached_i2c H cache ch) (finish_reading now cid t) = bnd (direct_i2c H ch) (finish_reading now cid t)"
proof (cases "map_of cache (i2c_key ch)")
  case (Some r)
  then have "r = ans (i2c_key ch)" using assms(2) by (cases "i2c_key ch") (simp add: cache_sound_def)
  then show ?thesis using Some assms(1)
    by (cases "ans (i2c_key ch)") (simp_all add: cached_i2c_def direct_i2c_steady finish_reading_error [of now cid t "BusError (device ch) ''cached I2C read failed''"])
qed (simp add: cached_i2c_def)

lemma hal_read_bnd:
  "bnd (i2c ch) f = bnd (i2c' ch) f \<Longrightarrow> bnd (hal_read H i2c ch) f = bnd (hal_read H i2c' ch) f"
  by (cases "chan_type ch") (simp_all add: hal_read_def)

lemma read_cached_steady:
  assumes "steady H ans" "cache_sound ans cache"
  shows "channel_read_cached now H cache cid = channel_read now H cid"
proof -
  have eq: "bnd (hal_read H (cached_i2c H cache) ch) (finish_reading now cid t) =
      bnd (hal_read H (direct_i2c H) ch) (finish_reading now cid t)" for ch t
    by (rule hal_read_bnd) (rule cached_i2c_steady [OF assms])
  show ?thesis by (simp only: channel_read_cached_def channel_read_def read_pipeline_def eq)
qed

lemma poll_all_steady:
  "steady H ans \<Longrightarrow> cache_sound ans cache \<Longrightarrow> poll_all now H cache cids = poll_all_direct now H cids"
  by (induction cids) (simp_all add: poll_one_def poll_one_direct_def read_cached_steady)

lemma pre_read_steady:
  assumes "steady H ans" "cache_sound ans cache"
  shows "\<exists>cache'. pre_read_all H cids cache e = (Ok cache', e) \<and> cache_sound ans cache'"
  using assms(2)
proof (induction cids arbitrary: cache)
  case (Cons cid cids)
  have upd: "cache_sound ans (AList.update key (ans key) cache)" for key
    using Cons.prems by (simp add: cache_sound_def update_conv')
  have "\<exists>cache1. pre_read_one H cid cache e = (Ok cache1, e) \<and> cache_sound ans cache1"
    unfolding pre_read_one_def direct_i2c_steady [OF assms(1)]
    by (cases "channel_get (channels e) cid") (simp_all add: ret_def Cons.prems upd)
  with Cons.IH show ?case by auto
qed (simp add: ret_def)

text \<open>C31. Coalescing is invisible: when the I2C sensors give the same answer to every read of a cycle and reading does not disturb
  the hardware, a poll cycle that serves shared sensors from its cache ends with the same result, the same
  notifications and the same engine and hardware as one that reads every channel from the hardware.\<close>

theorem coalescing_invisible:
  assumes "\<forall>dev adr lbl h. read_i2c H dev adr lbl h = (ans (dev, adr, lbl), h)"
  shows "poll_update now H e = poll_update_direct now H e"
proof -
  have st: "steady H ans" using assms by (simp add: steady_def)
  have "bnd (pre_read_i2c_channels H) (\<lambda>cache e. poll_all now H cache (map fst (polls e)) e) e1 =
      poll_all_direct now H (map fst (polls e1)) e1" for e1
    using pre_read_steady [OF st, of "[]" "map fst (polls e1)" e1] poll_all_steady [OF st]
    by (auto simp: pre_read_i2c_channels_def cache_sound_def)
  then show ?thesis by (simp add: poll_update_def poll_update_direct_def sq_def bnd_def split: prod.splits outcome.splits)
qed

theorem coalescing_invisible_witness:
  "(\<forall>dev adr lbl h. read_i2c dead_hal dev adr lbl h = ((\<lambda>_. Inl (HalIo [])) (dev, adr, lbl), h)) \<and>
   poll_update 7 dead_hal sample_engine = poll_update_direct 7 dead_hal sample_engine"
  using coalescing_invisible [of dead_hal "\<lambda>_. Inl (HalIo [])"] by (simp add: dead_hal_def)

end
