(* ===== verification/Engine_Control.thy ===== *)
theory Engine_Control
  imports Engine_Invariants
begin

text \<open>
  Two behaviours of the engine over several calls: a failed sensor is tried again after a bounded number of reads, with a
  cooldown that doubles up to its limit, and a write at a priority level drives the hardware with the value of the first level
  that holds one.
\<close>

section \<open>Recovery\<close>

lemma put_get [simp]: "channel_get (channel_put cid ch cs) c = (if c = cid then Some ch else channel_get cs c)"
  by (auto simp: channel_get_def channel_put_def update_conv')

lemma put_put [simp]: "channel_put cid ch (channel_put cid ch' cs) = channel_put cid ch cs"
  by (simp add: channel_put_def)

lemma put_same: "channel_get cs cid = Some ch \<Longrightarrow> channel_put cid ch cs = cs"
  by (simp add: channel_get_def channel_put_def update_triv)

lemma get_chan_run: "channel_get (channels e) cid = Some ch \<Longrightarrow> get_chan cid e = (Ok ch, e)"
  by (simp add: get_chan_def query_def)

lemma put_chan_run: "put_chan cid ch e = (Ok (), e\<lparr>channels := channel_put cid ch (channels e)\<rparr>)"
  by (simp add: put_chan_def modify_def)

lemmas run_simps = get_chan_run put_chan_run sq_def bnd_def ret_def query_def hal_call_def modify_def

text \<open>The engine with another retry counter of a channel, and the state after some reads.\<close>

definition with_retry :: "channel_id \<Rightarrow> channel \<Rightarrow> u32 \<Rightarrow> 'h engine \<Rightarrow> 'h engine" where
  "with_retry cid ch n e = e\<lparr>channels := channel_put cid (ch\<lparr>retry_counter := n\<rparr>) (channels e)\<rparr>"

definition after_reads :: "instant \<Rightarrow> 'h hal \<Rightarrow> channel_id \<Rightarrow> nat \<Rightarrow> 'h engine \<Rightarrow> 'h engine" where
  "after_reads now H cid n e = ((\<lambda>s. snd (channel_read now H cid s)) ^^ n) e"

lemma cooldown_of_cong [simp]:
  "cooldown_of (ch\<lparr>retry_counter := n\<rparr>) e = cooldown_of ch e" "cooldown_of c (with_retry cid ch n e) = cooldown_of c e"
  by (simp_all add: cooldown_of_def with_retry_def)

lemma with_retry_get: "channel_get (channels (with_retry cid ch n e)) cid = Some (ch\<lparr>retry_counter := n\<rparr>)"
  by (simp add: with_retry_def)

lemma with_retry_again: "with_retry cid (ch\<lparr>retry_counter := m\<rparr>) n (with_retry cid ch m e) = with_retry cid ch n e"
  by (simp add: with_retry_def)

lemma waiting_read:
  assumes "channel_get (channels e) cid = Some ch" "enabled ch" "failed ch" "retry_counter ch < cooldown_of ch e"
  shows "channel_read now H cid e = (Ok (with_status Down), with_retry cid ch (retry_counter ch + 1) e)"
  using assms by (simp add: channel_read_def read_pipeline_def try_i2c_recovery_def run_simps with_retry_def)

lemma waiting_reads:
  assumes "channel_get (channels e) cid = Some ch" "enabled ch" "failed ch"
    and "unat (retry_counter ch) + n \<le> unat (cooldown_of ch e)"
  shows "after_reads now H cid n e = with_retry cid ch (retry_counter ch + of_nat n) e"
    and "i < n \<Longrightarrow> fst (channel_read now H cid (after_reads now H cid i e)) = Ok (with_status Down)"
proof -
  have step: "channel_read now H cid (with_retry cid ch (retry_counter ch + of_nat i) e) =
      (Ok (with_status Down), with_retry cid ch (retry_counter ch + of_nat (Suc i)) e)"
    if "unat (retry_counter ch) + i < unat (cooldown_of ch e)" for i
  proof -
    have "unat (cooldown_of ch e) < 2 ^ 32" using unsigned_less [of "cooldown_of ch e", where ?'a = nat] by simp
    then have "unat (retry_counter ch + of_nat i) = unat (retry_counter ch) + i"
      using that by (simp add: unat_word_ariths unat_of_nat)
    then have "retry_counter ch + of_nat i < cooldown_of ch e" using that by (simp add: word_less_nat_alt)
    then show ?thesis
      using waiting_read [of "with_retry cid ch (retry_counter ch + of_nat i) e" cid "ch\<lparr>retry_counter := retry_counter ch + of_nat i\<rparr>" now H] assms
      by (simp add: with_retry_again with_retry_get ac_simps)
  qed
  have start: "with_retry cid ch (retry_counter ch + of_nat 0) e = e"
    using assms(1) by (simp add: with_retry_def put_same)
  have reads: "unat (retry_counter ch) + n \<le> unat (cooldown_of ch e) \<Longrightarrow>
      after_reads now H cid n e = with_retry cid ch (retry_counter ch + of_nat n) e" for n
  proof (induction n)
    case (Suc n)
    then show ?case using step [of n] by (simp add: after_reads_def)
  qed (use start in \<open>simp add: after_reads_def\<close>)
  show "after_reads now H cid n e = with_retry cid ch (retry_counter ch + of_nat n) e" using reads assms(4) by simp
  show "i < n \<Longrightarrow> fst (channel_read now H cid (after_reads now H cid i e)) = Ok (with_status Down)"
    using reads [of i] step [of i] assms(4) by simp
qed

text \<open>The read at the end of the cooldown.\<close>

lemma due_recovery:
  assumes "channel_get (channels e) cid = Some ch" "failed ch" "chan_type ch = I2c" "\<not> retry_counter ch < cooldown_of ch e"
    and "reinit_i2c_sensor H (device ch) (address ch) (label ch) (hardware e) = (Inr u, h)"
  shows "\<exists>e1. try_i2c_recovery H cid e = (Ok None, e1) \<and> hardware e1 = h \<and>
    channel_get (channels e1) cid = Some (ch\<lparr>failed := False, retry_counter := 0\<rparr>) \<and> cooldown_of ch e1 = RETRY_COOLDOWN_BASE"
  using assms
  by (auto simp: try_i2c_recovery_def run_simps clear_backoff_def cooldown_of_def backoff_reset_def update_conv' split: option.splits)

lemma due_failure:
  assumes "channel_get (channels e) cid = Some ch" "enabled ch" "failed ch" "chan_type ch = I2c" "\<not> retry_counter ch < cooldown_of ch e"
    and "reinit_i2c_sensor H (device ch) (address ch) (label ch) (hardware e) = (Inl x, h)"
    and "backoff_record_failure (or_else (map_of (i2c_backoff e) (device ch, address ch)) backoff_new) = (Ok b :: (engine_error, _) outcome)"
  shows "\<exists>e1. channel_read now H cid e = (Ok (with_status Down), e1) \<and> hardware e1 = h \<and>
    channel_get (channels e1) cid = Some (ch\<lparr>retry_counter := 0\<rparr>) \<and> cooldown_of ch e1 = cooldown b"
  using assms
  by (simp add: channel_read_def read_pipeline_def try_i2c_recovery_def run_simps raise_backoff_def cooldown_of_def update_conv')

lemma reach_cooldown: "engine_reach H e \<Longrightarrow> RETRY_COOLDOWN_BASE \<le> cooldown_of ch e \<and> cooldown_of ch e \<le> RETRY_COOLDOWN_MAX"
  using engine_reach_ok [of H e]
  by (auto simp: cooldown_of_def engine_ok_def backoff_ok_def RETRY_COOLDOWN_BASE_def RETRY_COOLDOWN_MAX_def split: option.splits)

lemma sensor_recovery_cases:
  assumes "engine_reach H e" "channel_get (channels e) cid = Some ch" "enabled ch" "failed ch" "chan_type ch = I2c"
    and "k = unat (cooldown_of ch e) - unat (retry_counter ch)" "e' = after_reads now H cid k e"
  shows "k \<le> 300" "hardware e' = hardware e"
    and "i < k \<Longrightarrow> fst (channel_read now H cid (after_reads now H cid i e)) = Ok (with_status Down)"
    and "reinit_i2c_sensor H (device ch) (address ch) (label ch) (hardware e) = (Inr u, h) \<Longrightarrow>
      \<exists>e1. try_i2c_recovery H cid e' = (Ok None, e1) \<and> hardware e1 = h \<and>
        channel_get (channels e1) cid = Some (ch\<lparr>failed := False, retry_counter := 0\<rparr>) \<and> cooldown_of ch e1 = 30"
    and "reinit_i2c_sensor H (device ch) (address ch) (label ch) (hardware e) = (Inl x, h) \<Longrightarrow>
      (\<And>b. map_of (i2c_backoff e) (device ch, address ch) = Some b \<Longrightarrow> consecutive_failures b \<noteq> - 1) \<Longrightarrow>
      \<exists>e1. channel_read now H cid e' = (Ok (with_status Down), e1) \<and> hardware e1 = h \<and>
        channel_get (channels e1) cid = Some (ch\<lparr>retry_counter := 0\<rparr>) \<and> cooldown_of ch e1 = min (cooldown_of ch e * 2) 300"
proof -
  have cd: "30 \<le> unat (cooldown_of ch e)" "unat (cooldown_of ch e) \<le> 300"
    using reach_cooldown [OF assms(1), of ch] by (simp_all add: RETRY_COOLDOWN_BASE_def RETRY_COOLDOWN_MAX_def word_le_nat_alt)
  then show "k \<le> 300" using assms(6) by simp
  define n where "n = retry_counter ch + of_nat k"
  have e': "e' = with_retry cid ch n e"
  proof (cases "unat (retry_counter ch) \<le> unat (cooldown_of ch e)")
    case True
    then show ?thesis using waiting_reads(1) [OF assms(2-4), of k now H] assms(6,7) by (simp add: n_def)
  next
    case False
    then show ?thesis using assms(2,6,7) by (simp add: n_def after_reads_def with_retry_def put_same)
  qed
  then show "hardware e' = hardware e" by (simp add: with_retry_def)
  show "i < k \<Longrightarrow> fst (channel_read now H cid (after_reads now H cid i e)) = Ok (with_status Down)"
    using waiting_reads(2) [OF assms(2-4), of k i now H] assms(6) by simp
  have "unat (retry_counter ch) + k < 2 ^ 32" using unsigned_less [of "retry_counter ch", where ?'a = nat] cd assms(6) by (auto simp: min_def)
  then have n: "unat n = unat (retry_counter ch) + k" unfolding n_def by (simp add: unat_word_ariths unat_of_nat)
  then have due: "\<not> n < cooldown_of ch e" using assms(6) by (simp add: word_less_nat_alt)
  let ?ch = "ch\<lparr>retry_counter := n\<rparr>"
  have ch': "channel_get (channels e') cid = Some ?ch" "enabled ?ch" "failed ?ch" "chan_type ?ch = I2c" "\<not> retry_counter ?ch < cooldown_of ?ch e'"
    using assms(3-5) due by (simp_all add: e' with_retry_def cooldown_of_def)
  show "reinit_i2c_sensor H (device ch) (address ch) (label ch) (hardware e) = (Inr u, h) \<Longrightarrow>
      \<exists>e1. try_i2c_recovery H cid e' = (Ok None, e1) \<and> hardware e1 = h \<and>
        channel_get (channels e1) cid = Some (ch\<lparr>failed := False, retry_counter := 0\<rparr>) \<and> cooldown_of ch e1 = 30"
    using due_recovery [OF ch'(1,3,4,5), of H u h] \<open>hardware e' = hardware e\<close> by (simp add: RETRY_COOLDOWN_BASE_def)
  assume fail: "reinit_i2c_sensor H (device ch) (address ch) (label ch) (hardware e) = (Inl x, h)"
    and room: "\<And>b. map_of (i2c_backoff e) (device ch, address ch) = Some b \<Longrightarrow> consecutive_failures b \<noteq> - 1"
  define b0 where "b0 = or_else (map_of (i2c_backoff e) (device ch, address ch)) backoff_new"
  have b0: "cooldown b0 = cooldown_of ch e" "consecutive_failures b0 \<noteq> - 1"
    using assms(5) room
    by (auto simp: b0_def cooldown_of_def or_else_def backoff_new_def split: option.splits)
  then obtain b where b: "backoff_record_failure b0 = (Ok b :: (engine_error, _) outcome)" "cooldown b = min (cooldown_of ch e * 2) 300"
    using cd by (auto simp: backoff_record_failure_def RETRY_COOLDOWN_MAX_def)
  have same: "or_else (map_of (i2c_backoff e') (device ?ch, address ?ch)) backoff_new = b0" by (simp add: b0_def e' with_retry_def)
  show "\<exists>e1. channel_read now H cid e' = (Ok (with_status Down), e1) \<and> hardware e1 = h \<and>
        channel_get (channels e1) cid = Some (ch\<lparr>retry_counter := 0\<rparr>) \<and> cooldown_of ch e1 = min (cooldown_of ch e * 2) 300"
    using due_failure [OF ch', of H x h, unfolded same, OF _ b(1), of now] fail b(2) \<open>hardware e' = hardware e\<close> by simp
qed

text \<open>C30. A failed sensor is tried again. In a reachable engine, an enabled I2C channel that has failed answers the reads of its
  cooldown, at most 300, with the status down and without touching the hardware. The read after them initialises the sensor again: when
  that succeeds, the channel is healthy, its cooldown is back at 30 and the read goes on to the hardware; when it
  fails, the answer is down again and the next cooldown is twice as long, up to 300.\<close>

theorem sensor_recovery:
  assumes "engine_reach H e" "channel_get (channels e) cid = Some ch" "enabled ch" "failed ch" "chan_type ch = I2c"
    and "k = unat (cooldown_of ch e) - unat (retry_counter ch)" "e' = after_reads now H cid k e"
  shows "k \<le> 300 \<and>
    hardware e' = hardware e \<and>
    (i < k \<longrightarrow>
      fst (channel_read now H cid (after_reads now H cid i e)) = Ok (with_status Down)) \<and>
    (reinit_i2c_sensor H (device ch) (address ch) (label ch) (hardware e) = (Inr u, h) \<longrightarrow>
      (\<exists>e1. try_i2c_recovery H cid e' = (Ok None, e1) \<and> hardware e1 = h \<and>
        channel_get (channels e1) cid = Some (ch\<lparr>failed := False, retry_counter := 0\<rparr>) \<and> cooldown_of ch e1 = 30)) \<and>
    (reinit_i2c_sensor H (device ch) (address ch) (label ch) (hardware e) = (Inl x, h) \<and>
      (\<forall>b. map_of (i2c_backoff e) (device ch, address ch) = Some b \<longrightarrow> consecutive_failures b \<noteq> - 1) \<longrightarrow>
      (\<exists>e1. channel_read now H cid e' = (Ok (with_status Down), e1) \<and> hardware e1 = h \<and>
        channel_get (channels e1) cid = Some (ch\<lparr>retry_counter := 0\<rparr>) \<and> cooldown_of ch e1 = min (cooldown_of ch e * 2) 300))"
  using sensor_recovery_cases [OF assms] by blast

theorem sensor_recovery_witness:
  "\<exists>e ch e1. engine_reach dead_hal e \<and> channel_get (channels e) 612 = Some ch \<and> failed ch \<and>
     channel_read 0 dead_hal 612 (after_reads 0 dead_hal 612 30 e) = (Ok (with_status Down), e1) \<and> cooldown_of ch e1 = 60"
proof -
  define e where "e = snd (channel_read 0 dead_hal 612 sample_engine)"
  define ch where "ch = sample_channel\<lparr>failed := True, chan_value := default_value\<lparr>status := Down\<rparr>\<rparr>"
  have e: "engine_reach dead_hal e" unfolding e_def by (rule reach_read [OF sample_engine_reach]) (rule prod.collapse [symmetric])
  have sc: "channel_get (channels sample_engine) 612 = Some sample_channel" by (simp add: sample_engine_def channel_get_def)
  have flags: "enabled sample_channel" "\<not> failed sample_channel" "chan_type sample_channel = I2c" "retry_counter sample_channel = 0"
    "chan_value sample_channel = default_value" by (simp_all add: sample_channel_def channel_new_def)
  have same: "sample_engine\<lparr>hardware := ()\<rparr> = sample_engine" by (cases sample_engine) simp
  have read: "e = sample_engine\<lparr>channels := channel_put 612 ch (channels sample_engine)\<rparr>"
    by (simp add: e_def ch_def channel_read_def read_pipeline_def try_i2c_recovery_def run_simps sc flags is_virtual_def hal_read_def
        direct_i2c_def) (simp add: dead_hal_def same finish_reading_def run_simps sc flags)
  have ch: "channel_get (channels e) 612 = Some ch" "enabled ch" "failed ch" "chan_type ch = I2c" "retry_counter ch = 0"
    using flags by (simp_all add: read ch_def)
  have bo: "i2c_backoff e = []" by (simp add: read sample_engine_def engine_new_def)
  have cd: "cooldown_of ch e = 30" using ch(4) by (simp add: cooldown_of_def bo RETRY_COOLDOWN_BASE_def)
  have "\<exists>e1. channel_read 0 dead_hal 612 (after_reads 0 dead_hal 612 30 e) = (Ok (with_status Down), e1) \<and> hardware e1 = () \<and>
      channel_get (channels e1) 612 = Some (ch\<lparr>retry_counter := 0\<rparr>) \<and> cooldown_of ch e1 = min (cooldown_of ch e * 2) 300"
    using sensor_recovery [OF e ch(1-4) refl refl, where x = "HalIo []" and now = 0 and h = "()"] by (simp add: cd ch(5) bo dead_hal_def)
  with e ch cd show ?thesis by (auto simp: min_def)
qed

section \<open>Priority writes\<close>

lemma set_level_run:
  assumes "array_ok pa" "1 \<le> level" "level \<le> 17" "deadline now v d = (Ok t :: (engine_error, instant option) outcome)"
  obtains pa' where "set_level now level v who d pa =
      ((Ok \<lparr>effective_value = fst (spec_effective pa'), effective_level = snd (spec_effective pa')\<rparr> :: (engine_error, _) outcome), pa')"
    "array_ok pa'" "level_values pa' = (level_values pa)[unat (level - 1) := v]"
proof -
  have v: "valid_level level" using assms by (simp add: valid_level_def)
  from set_level_valid [OF assms(1) v assms(4), of who] obtain pa' where
    "set_level now level v who d pa =
      ((Ok \<lparr>effective_value = fst (spec_effective pa'), effective_level = snd (spec_effective pa')\<rparr> :: (engine_error, _) outcome), pa')"
    "array_ok pa'" "levels pa' = stored level (new_level v who d t) pa" by blast
  then show thesis using that [of pa'] stored_values [OF v] by (simp add: level_values_def)
qed

definition with_priorities :: "channel_id \<Rightarrow> channel \<Rightarrow> priority_array \<Rightarrow> 'h engine \<Rightarrow> 'h engine" where
  "with_priorities cid ch pa e = e\<lparr>channels := channel_put cid (ch\<lparr>priorities := Some pa\<rparr>) (channels e)\<rparr>"

lemma write_level_run:
  assumes "channel_get (channels e) cid = Some ch" "1 \<le> level" "level \<le> 17"
    and "set_level now level v who d (or_else (priorities ch) default_array) = ((Ok w :: (engine_error, _) outcome), pa')"
  shows "channel_write_level now H cid level v who d e =
    (case effective_value w of Some x \<Rightarrow> sq (channel_write H cid (level_request x)) (ret w) | None \<Rightarrow> ret w) (with_priorities cid ch pa' e)"
  using assms by (simp add: channel_write_level_def run_simps Let_def with_priorities_def)

lemma pwm_write:
  assumes "channel_get (channels e) cid = Some ch" "is_output (chan_direction ch)" "enabled ch" "chan_type ch = Pwm"
    and "revert (conv ch) (tables_of e) (level_request x) = (Ok v :: (engine_error, _) outcome)"
    and "write_pwm H (device ch) (address ch) (raw v) (hardware e) = (r, h)"
  shows "channel_write H cid (level_request x) e = (Ok (after_hal_write v r),
    e\<lparr>hardware := h, channels := channel_put cid (ch\<lparr>chan_value := after_hal_write v r\<rparr>) (channels e)\<rparr>)"
proof -
  have "flags (level_request x) = FLAG_CUR" by (simp add: level_request_def)
  then show ?thesis using assms
    by (simp add: channel_write_def run_simps complete_value_def write_hardware_def store_written_def is_virtual_def)
qed

lemma write_level_effect:
  assumes "engine_reach H e" "channel_get (channels e) cid = Some ch" "is_output (chan_direction ch)" "enabled ch" "chan_type ch = Pwm"
    and "1 \<le> level" "level \<le> 17" "deadline now v d = (Ok t :: (engine_error, instant option) outcome)"
    and "\<And>x. revert (conv ch) (tables_of e) (level_request x) = (Ok (reverted x) :: (engine_error, _) outcome)"
  shows "\<exists>w pa' e'. channel_write_level now H cid level v who d e = (Ok w, e') \<and>
    Option.bind (channel_get (channels e') cid) priorities = Some pa' \<and>
    level_values pa' = (level_values (or_else (priorities ch) default_array))[unat (level - 1) := v] \<and>
    (effective_value w, effective_level w) = spec_effective pa' \<and>
    hardware e' = (case effective_value w of None \<Rightarrow> hardware e
      | Some x \<Rightarrow> snd (write_pwm H (device ch) (address ch) (raw (reverted x)) (hardware e)))"
proof -
  have "chan_ok cid ch" using engine_reach_ok [OF assms(1)] assms(2) by (simp add: engine_ok_def channel_get_def)
  then obtain pa' where pa': "set_level now level v who d (or_else (priorities ch) default_array) =
      ((Ok \<lparr>effective_value = fst (spec_effective pa'), effective_level = snd (spec_effective pa')\<rparr> :: (engine_error, _) outcome), pa')"
    "level_values pa' = (level_values (or_else (priorities ch) default_array))[unat (level - 1) := v]"
    by (rule set_level_run [OF or_default_ok assms(6,7,8), where who = who])
  note run = write_level_run [OF assms(2,6,7) pa'(1), of H]
  let ?e = "with_priorities cid ch pa' e" and ?ch = "ch\<lparr>priorities := Some pa'\<rparr>"
  have ch: "channel_get (channels ?e) cid = Some ?ch" "is_output (chan_direction ?ch)" "enabled ?ch" "chan_type ?ch = Pwm"
    using assms(3-5) by (simp_all add: with_priorities_def)
  let ?w = "\<lparr>effective_value = fst (spec_effective pa'), effective_level = snd (spec_effective pa')\<rparr>"
  show ?thesis
  proof (cases "fst (spec_effective pa')")
    case None
    then have "channel_write_level now H cid level v who d e = (Ok ?w, ?e)" using run by (simp add: ret_def)
    then show ?thesis using ch(1) pa'(2) None
      by (intro exI [of _ ?w] exI [of _ pa'] exI [of _ ?e] conjI) (simp_all add: with_priorities_def prod_eq_iff)
  next
    case (Some x)
    obtain r h where h: "write_pwm H (device ch) (address ch) (raw (reverted x)) (hardware e) = (r, h)" by force
    let ?e' = "?e\<lparr>hardware := h, channels := channel_put cid (?ch\<lparr>chan_value := after_hal_write (reverted x) r\<rparr>) (channels ?e)\<rparr>"
    have "channel_write H cid (level_request x) ?e = (Ok (after_hal_write (reverted x) r), ?e')"
      by (rule pwm_write [OF ch]) (simp_all add: with_priorities_def assms(9) h)
    then have "channel_write_level now H cid level v who d e = (Ok ?w, ?e')"
      using run Some by (simp add: sq_def bnd_def ret_def)
    then show ?thesis using pa'(2) Some h
      by (intro exI [of _ ?w] exI [of _ pa'] exI [of _ ?e'] conjI) (simp_all add: prod_eq_iff)
  qed
qed


lemma first_set_found: "Some x \<in> set vs \<Longrightarrow> \<exists>y. fst (first_set i vs) = Some y"
  by (induction i vs rule: first_set.induct) auto

text \<open>A write at a level of a channel that is neither an output nor virtual is rejected, and its level stays stored.\<close>

theorem rejected_write_is_stored:
  assumes "chan_ok cid ch" "channel_get (channels e) cid = Some ch" "\<not> is_output (chan_direction ch)" "\<not> is_virtual (chan_type ch)"
    and "1 \<le> level" "level \<le> 17" "deadline now (Some x) d = (Ok t :: (engine_error, instant option) outcome)"
  shows "\<exists>pa'. channel_write_level now H cid level (Some x) who d e = (Err (WriteNotSupported cid), with_priorities cid ch pa' e) \<and>
    level_values pa' = (level_values (or_else (priorities ch) default_array))[unat (level - 1) := Some x]"
proof -
  from assms(1) obtain pa' where pa': "set_level now level (Some x) who d (or_else (priorities ch) default_array) =
      ((Ok \<lparr>effective_value = fst (spec_effective pa'), effective_level = snd (spec_effective pa')\<rparr> :: (engine_error, _) outcome), pa')"
    "array_ok pa'" "level_values pa' = (level_values (or_else (priorities ch) default_array))[unat (level - 1) := Some x]"
    by (rule set_level_run [OF or_default_ok assms(5,6,7), where who = who])
  have "\<exists>y. fst (spec_effective pa') = Some y"
  proof -
    have len: "length (level_values (or_else (priorities ch) default_array)) = 17"
      using or_default_ok [OF assms(1)] by (simp add: array_ok_def level_values_def MAX_LEVELS_def)
    have "unat (level - 1) < 17" using assms(5,6) by (simp add: word_le_nat_alt unat_sub)
    then have "Some x \<in> set (level_values pa')" using pa'(3) len by (simp add: set_update_memI)
    then show ?thesis by (auto simp: spec_effective_def dest: first_set_found)
  qed
  then obtain y where y: "fst (spec_effective pa') = Some y" ..
  have "channel_write H cid (level_request y) (with_priorities cid ch pa' e) = (Err (WriteNotSupported cid), with_priorities cid ch pa' e)"
    using assms(3,4) by (simp add: channel_write_def bnd_def get_chan_def query_def with_priorities_def raise_def)
  then show ?thesis using write_level_run [OF assms(2,5,6) pa'(1), of H] y pa'(3)
    by (intro exI [of _ pa']) (simp add: sq_def bnd_def)
qed

text \<open>Hardware that remembers the last value its PWM output was given, and an engine with one such output.\<close>

definition pwm_hal :: "f64 hal" where
  "pwm_hal = \<lparr>read_analog = \<lambda>_ _ h. (Inl (HalIo []), h), read_digital = \<lambda>_ h. (Inl (HalIo []), h),
     read_i2c = \<lambda>_ _ _ h. (Inl (HalIo []), h), read_pwm = \<lambda>_ _ h. (Inr h, h), read_uart = \<lambda>_ _ h. (Inl (HalIo []), h),
     write_digital = \<lambda>_ _ h. (Inr (), h), write_pwm = \<lambda>_ _ x h. (Inr (), x), reinit_i2c_sensor = \<lambda>_ _ _ h. (Inr (), h)\<rparr>"

definition pwm_channel :: channel where
  "pwm_channel = channel_new 2001 Pwm DirOut 0 1 False default_conv ''AO1''"

definition pwm_engine :: "f64 engine" where
  "pwm_engine = (engine_new 0)\<lparr>channels := [(2001, pwm_channel)]\<rparr>"

lemma pwm_engine_reach: "engine_reach pwm_hal pwm_engine"
proof -
  have "channel_add pwm_channel (channels (engine_new 0)) = (Ok (), [(2001, pwm_channel)])"
    by (simp add: channel_add_def engine_new_def pwm_channel_def)
  from reach_add [OF reach_new this [unfolded pwm_channel_def], of pwm_hal]
  show ?thesis by (simp add: pwm_engine_def pwm_channel_def engine_new_def)
qed


end
