(* ===== verification/Engine_Blocks.thy ===== *)
theory Engine_Blocks
  imports Engine_Filters
begin

text \<open>
  The control blocks of the engine (\<open>sandstar-engine/src/components.rs\<close>, \<open>pid.rs\<close>, \<open>sequencer.rs\<close>): arithmetic,
  logic, timers, two-point controllers, daily schedules, the PID controller and the lead
  sequencer. Each block is a record with one definition per method; a method that takes the time gets it as an
  argument, as in the source. The facts relate the state of a block to the history of its inputs.
\<close>

section \<open>Arithmetic\<close>

record add2 =
  add2_in1 :: f64
  add2_in2 :: f64

definition add2_new :: add2 where "add2_new = \<lparr>add2_in1 = 0, add2_in2 = 0\<rparr>"

definition add2_execute :: "add2 \<Rightarrow> f64" where
  "add2_execute c = add64 (add2_in1 c) (add2_in2 c)"

record sub2 =
  sub2_in1 :: f64
  sub2_in2 :: f64

definition sub2_new :: sub2 where "sub2_new = \<lparr>sub2_in1 = 0, sub2_in2 = 0\<rparr>"

definition sub2_execute :: "sub2 \<Rightarrow> f64" where
  "sub2_execute c = sub64 (sub2_in1 c) (sub2_in2 c)"

record mul2 =
  mul2_in1 :: f64
  mul2_in2 :: f64

definition mul2_new :: mul2 where "mul2_new = \<lparr>mul2_in1 = 0, mul2_in2 = 0\<rparr>"

definition mul2_execute :: "mul2 \<Rightarrow> f64" where
  "mul2_execute c = mul64 (mul2_in1 c) (mul2_in2 c)"

record div2 =
  div2_in1 :: f64
  div2_in2 :: f64

definition div2_new :: div2 where "div2_new = \<lparr>div2_in1 = 0, div2_in2 = 0\<rparr>"

definition div2_execute :: "div2 \<Rightarrow> f64" where
  "div2_execute c = (if eq64 (div2_in2 c) 0 then 0 else div64 (div2_in1 c) (div2_in2 c))"

record neg_block =
  neg_input :: f64

definition neg_new :: neg_block where "neg_new = \<lparr>neg_input = 0\<rparr>"

definition neg_execute :: "neg_block \<Rightarrow> f64" where
  "neg_execute c = neg64 (neg_input c)"

record round_block =
  round_input :: f64
  decimals :: u32

definition round_new :: round_block where "round_new = \<lparr>round_input = 0, decimals = 0\<rparr>"

definition round_execute :: "round_block \<Rightarrow> f64" where
  "round_execute c =
     (let factor = powi64 (lit 10 1) (decimals c)
      in div64 (round64 (mul64 (round_input c) factor)) factor)"

record float_offset =
  offset_input :: f64
  offset_by :: f64

definition offset_new :: float_offset where "offset_new = \<lparr>offset_input = 0, offset_by = 0\<rparr>"

definition offset_execute :: "float_offset \<Rightarrow> f64" where
  "offset_execute c = add64 (offset_input c) (offset_by c)"

section \<open>Logic\<close>

record and2 =
  and2_in1 :: bool
  and2_in2 :: bool

definition and2_new :: and2 where "and2_new = \<lparr>and2_in1 = False, and2_in2 = False\<rparr>"

definition and2_execute :: "and2 \<Rightarrow> bool" where
  "and2_execute c \<longleftrightarrow> and2_in1 c \<and> and2_in2 c"

record or2 =
  or2_in1 :: bool
  or2_in2 :: bool

definition or2_new :: or2 where "or2_new = \<lparr>or2_in1 = False, or2_in2 = False\<rparr>"

definition or2_execute :: "or2 \<Rightarrow> bool" where
  "or2_execute c \<longleftrightarrow> or2_in1 c \<or> or2_in2 c"

record not_block =
  not_input :: bool

definition not_new :: not_block where "not_new = \<lparr>not_input = False\<rparr>"

definition not_execute :: "not_block \<Rightarrow> bool" where
  "not_execute c \<longleftrightarrow> \<not> not_input c"

record sr_latch =
  sr_set :: bool
  sr_reset :: bool
  sr_output :: bool

definition sr_new :: sr_latch where "sr_new = \<lparr>sr_set = False, sr_reset = False, sr_output = False\<rparr>"

definition sr_execute :: "sr_latch \<Rightarrow> bool \<times> sr_latch" where
  "sr_execute c =
     (let out = (if sr_set c then True else if sr_reset c then False else sr_output c)
      in (out, c\<lparr>sr_output := out\<rparr>))"

section \<open>Timers\<close>

definition elapsed_ms :: "instant \<Rightarrow> instant \<Rightarrow> u64" where
  "elapsed_ms now start = as_millis (duration_since now start)"

record delay_on =
  on_delay_ms :: u64
  on_input :: bool
  on_enabled :: bool
  on_start :: "instant option"
  on_output :: bool

definition delay_on_new :: delay_on where
  "delay_on_new = \<lparr>on_delay_ms = 1000, on_input = False, on_enabled = True, on_start = None, on_output = False\<rparr>"

definition delay_on_execute :: "instant \<Rightarrow> delay_on \<Rightarrow> bool \<times> delay_on" where
  "delay_on_execute now c =
     (if \<not> on_enabled c then (on_output c, c)
      else
        let c' = (if on_input c
                  then (case on_start c of
                          None \<Rightarrow> c\<lparr>on_start := Some now\<rparr>
                        | Some start \<Rightarrow> if on_delay_ms c \<le> elapsed_ms now start then c\<lparr>on_output := True\<rparr> else c)
                  else c\<lparr>on_start := None, on_output := False\<rparr>)
        in (on_output c', c'))"

record delay_off =
  off_delay_ms :: u64
  off_input :: bool
  off_enabled :: bool
  off_time :: "instant option"
  off_output :: bool

definition delay_off_new :: delay_off where
  "delay_off_new = \<lparr>off_delay_ms = 1000, off_input = False, off_enabled = True, off_time = None, off_output = False\<rparr>"

definition delay_off_execute :: "instant \<Rightarrow> delay_off \<Rightarrow> bool \<times> delay_off" where
  "delay_off_execute now c =
     (if \<not> off_enabled c then (off_output c, c)
      else
        let c' = (if off_input c then c\<lparr>off_output := True, off_time := None\<rparr>
                  else if off_output c
                  then (case off_time c of
                          None \<Rightarrow> c\<lparr>off_time := Some now\<rparr>
                        | Some start \<Rightarrow> if off_delay_ms c \<le> elapsed_ms now start
                                        then c\<lparr>off_output := False, off_time := None\<rparr> else c)
                  else c)
        in (off_output c', c'))"

record one_shot =
  shot_duration_ms :: u64
  shot_input :: bool
  shot_prev_input :: bool
  shot_trigger_time :: "instant option"
  shot_output :: bool

definition one_shot_new :: one_shot where
  "one_shot_new = \<lparr>shot_duration_ms = 1000, shot_input = False, shot_prev_input = False, shot_trigger_time = None,
     shot_output = False\<rparr>"

definition one_shot_execute :: "instant \<Rightarrow> one_shot \<Rightarrow> bool \<times> one_shot" where
  "one_shot_execute now c =
     (let c1 = (if shot_input c \<and> \<not> shot_prev_input c then c\<lparr>shot_trigger_time := Some now, shot_output := True\<rparr> else c);
          c2 = (case shot_trigger_time c1 of
                  None \<Rightarrow> c1
                | Some trigger \<Rightarrow> if shot_duration_ms c1 \<le> elapsed_ms now trigger
                                  then c1\<lparr>shot_output := False, shot_trigger_time := None\<rparr> else c1);
          c3 = c2\<lparr>shot_prev_input := shot_input c2\<rparr>
      in (shot_output c3, c3))"

record ramp =
  ramp_min :: f64
  ramp_max :: f64
  ramp_period_ms :: u64
  ramp_enabled :: bool
  ramp_start :: "instant option"
  ramp_output :: f64

definition ramp_new :: ramp where
  "ramp_new = \<lparr>ramp_min = 0, ramp_max = lit 100 1, ramp_period_ms = 5000, ramp_enabled = True, ramp_start = None, ramp_output = 0\<rparr>"

definition ramp_execute :: "instant \<Rightarrow> ramp \<Rightarrow> f64 \<times> ramp" where
  "ramp_execute now c =
     (if \<not> ramp_enabled c then (ramp_output c, c)
      else if ramp_period_ms c = 0 then (ramp_min c, c\<lparr>ramp_output := ramp_min c\<rparr>)
      else case ramp_start c of
        None \<Rightarrow> (ramp_min c, c\<lparr>ramp_start := Some now, ramp_output := ramp_min c\<rparr>)
      | Some start \<Rightarrow>
          let position_ms = elapsed_ms now start mod ramp_period_ms c;
              fraction = div64 (f64_of_int (uint position_ms)) (f64_of_int (uint (ramp_period_ms c)));
              out = add64 (ramp_min c) (mul64 (sub64 (ramp_max c) (ramp_min c)) fraction)
          in (out, c\<lparr>ramp_output := out\<rparr>))"

definition ramp_reset :: "ramp \<Rightarrow> ramp" where
  "ramp_reset c = c\<lparr>ramp_start := None, ramp_output := ramp_min c\<rparr>"

section \<open>Two-point controllers\<close>

record thermostat =
  th_setpoint :: f64
  th_deadband :: f64
  th_heating :: bool
  th_output :: bool

definition thermostat_new :: thermostat where
  "thermostat_new = \<lparr>th_setpoint = lit 72 1, th_deadband = lit 2 1, th_heating = True, th_output = False\<rparr>"

definition th_low :: "thermostat \<Rightarrow> f64" where
  "th_low c = sub64 (th_setpoint c) (div64 (th_deadband c) (lit 2 1))"

definition th_high :: "thermostat \<Rightarrow> f64" where
  "th_high c = add64 (th_setpoint c) (div64 (th_deadband c) (lit 2 1))"

definition thermostat_execute :: "f64 \<Rightarrow> thermostat \<Rightarrow> bool \<times> thermostat" where
  "thermostat_execute temp c =
     (let out =
        (if th_heating c
         then if lt64 temp (th_low c) then True else if lt64 (th_high c) temp then False else th_output c
         else if lt64 (th_high c) temp then True else if lt64 temp (th_low c) then False else th_output c)
      in (out, c\<lparr>th_output := out\<rparr>))"

record hysteresis_block =
  rising_threshold :: f64
  falling_threshold :: f64
  hyst_high_value :: f64
  hyst_low_value :: f64
  hyst_output :: f64

definition hysteresis_new :: hysteresis_block where
  "hysteresis_new = \<lparr>rising_threshold = lit 75 1, falling_threshold = lit 70 1, hyst_high_value = lit 100 1,
     hyst_low_value = 0, hyst_output = 0\<rparr>"

definition hysteresis_execute :: "f64 \<Rightarrow> hysteresis_block \<Rightarrow> f64 \<times> hysteresis_block" where
  "hysteresis_execute x c =
     (let out = (if le64 (rising_threshold c) x then hyst_high_value c
                 else if le64 x (falling_threshold c) then hyst_low_value c else hyst_output c)
      in (out, c\<lparr>hyst_output := out\<rparr>))"

section \<open>Daily schedules\<close>

definition day_minutes :: "u8 \<Rightarrow> u8 \<Rightarrow> u16" where
  "day_minutes hour minute = ucast hour * 60 + ucast minute"

text \<open>The loop of both schedules: the entry kept is replaced by a later entry of the list that has passed and is
  not before it in the day.\<close>

definition better_entry :: "('a \<Rightarrow> u16) \<Rightarrow> u16 \<Rightarrow> 'a option \<Rightarrow> 'a \<Rightarrow> 'a option" where
  "better_entry mins now best entry =
     (if mins entry \<le> now
      then (case best of None \<Rightarrow> Some entry
            | Some prev \<Rightarrow> if mins prev \<le> mins entry then Some entry else best)
      else best)"

record schedule_entry =
  entry_hour :: u8
  entry_minute :: u8
  entry_value :: f64

definition entry_minutes :: "schedule_entry \<Rightarrow> u16" where
  "entry_minutes e = day_minutes (entry_hour e) (entry_minute e)"

record daily_schedule =
  sched_entries :: "schedule_entry list"
  sched_default :: f64
  sched_enabled :: bool

definition schedule_new :: daily_schedule where
  "schedule_new = \<lparr>sched_entries = [], sched_default = 0, sched_enabled = True\<rparr>"

definition schedule_evaluate :: "daily_schedule \<Rightarrow> u8 \<Rightarrow> u8 \<Rightarrow> f64" where
  "schedule_evaluate c hour minute =
     (if \<not> sched_enabled c \<or> sched_entries c = [] then sched_default c
      else case foldl (better_entry entry_minutes (day_minutes hour minute)) None (sched_entries c) of
        Some e \<Rightarrow> entry_value e
      | None \<Rightarrow> sched_default c)"

record bool_schedule_entry =
  bool_entry_hour :: u8
  bool_entry_minute :: u8
  bool_entry_value :: bool

definition bool_entry_minutes :: "bool_schedule_entry \<Rightarrow> u16" where
  "bool_entry_minutes e = day_minutes (bool_entry_hour e) (bool_entry_minute e)"

record bool_schedule =
  bool_entries :: "bool_schedule_entry list"
  bool_default :: bool
  bool_enabled :: bool

definition bool_schedule_new :: bool_schedule where
  "bool_schedule_new = \<lparr>bool_entries = [], bool_default = False, bool_enabled = True\<rparr>"

definition bool_schedule_evaluate :: "bool_schedule \<Rightarrow> u8 \<Rightarrow> u8 \<Rightarrow> bool" where
  "bool_schedule_evaluate c hour minute =
     (if \<not> bool_enabled c \<or> bool_entries c = [] then bool_default c
      else case foldl (better_entry bool_entry_minutes (day_minutes hour minute)) None (bool_entries c) of
        Some e \<Rightarrow> bool_entry_value e
      | None \<Rightarrow> bool_default c)"

section \<open>The PID controller\<close>

record pid_controller =
  kp :: f64
  ki :: f64
  kd :: f64
  out_min :: f64
  out_max :: f64
  bias_of :: f64
  max_delta :: f64
  direct_action :: bool
  exec_interval_ms :: u64
  pid_enabled :: bool
  pid_output :: f64
  integral :: f64
  last_error :: f64
  last_exec :: "instant option"
  pid_initialized :: bool

definition pid_new :: pid_controller where
  "pid_new = \<lparr>kp = lit 1 1, ki = 0, kd = 0, out_min = 0, out_max = lit 100 1, bias_of = lit 50 1, max_delta = 0,
     direct_action = True, exec_interval_ms = 1000, pid_enabled = True, pid_output = 0, integral = 0, last_error = 0,
     last_exec = None, pid_initialized = False\<rparr>"

definition pid_start :: "instant \<Rightarrow> (pid_controller, 'e, f64) routine" where
  "pid_start now = sq (modify (\<lambda>c. c\<lparr>last_exec := Some now, last_error := 0, pid_initialized := True\<rparr>))
     (\<lambda>c. if eq64 (ki c) 0
          then bnd (lift (clamp64 (bias_of c) (out_min c) (out_max c))) (\<lambda>v. sq (modify (pid_output_update (\<lambda>_. v))) (ret v)) c
          else ret (pid_output c) c)"

definition control_error :: "f64 \<Rightarrow> f64 \<Rightarrow> pid_controller \<Rightarrow> f64" where
  "control_error sp pv c = (let e = sub64 sp pv in if direct_action c then e else neg64 e)"

definition integrate :: "f64 \<Rightarrow> f64 \<Rightarrow> (pid_controller, 'e, unit) routine" where
  "integrate err dt = (\<lambda>c. if eq64 (ki c) 0 then ret () c
     else sq (modify (\<lambda>c. c\<lparr>integral := add64 (integral c) (div64 (mul64 (mul64 (ki c) err) dt) (lit 60 1))\<rparr>))
       (bnd (query (\<lambda>c. clamp64 (integral c) (out_min c) (out_max c))) (\<lambda>i. modify (\<lambda>c. c\<lparr>integral := i\<rparr>))) c)"

definition pid_sum :: "f64 \<Rightarrow> f64 \<Rightarrow> pid_controller \<Rightarrow> f64" where
  "pid_sum err dt c =
     (let p = mul64 (kp c) err;
          d = (if eq64 (kd c) 0 then 0 else div64 (mul64 (kd c) (sub64 err (last_error c))) dt)
      in if eq64 (ki c) 0 then add64 (add64 p d) (bias_of c) else add64 (add64 p (integral c)) d)"

definition limit_output :: "f64 \<Rightarrow> pid_controller \<Rightarrow> ('e, f64) outcome" where
  "limit_output x c = bindO (clamp64 x (out_min c) (out_max c)) (\<lambda>new.
     if lt64 0 (max_delta c)
     then let change = sub64 new (pid_output c)
          in if lt64 (max_delta c) (abs64 change)
             then clamp64 (add64 (pid_output c) (mul64 (signum64 change) (max_delta c))) (out_min c) (out_max c)
             else Ok new
     else Ok new)"

definition pid_cycle :: "f64 \<Rightarrow> f64 \<Rightarrow> instant \<Rightarrow> f64 \<Rightarrow> (pid_controller, 'e, f64) routine" where
  "pid_cycle sp pv now dt = (\<lambda>c0. let err = control_error sp pv c0 in
     sq (integrate err dt)
       (bnd (query (\<lambda>c. limit_output (pid_sum err dt c) c)) (\<lambda>new.
         sq (modify (\<lambda>c. c\<lparr>last_error := err, last_exec := Some now, pid_output := new\<rparr>)) (ret new))) c0)"

definition pid_execute :: "f64 \<Rightarrow> f64 \<Rightarrow> instant \<Rightarrow> (pid_controller, 'e, f64) routine" where
  "pid_execute sp pv now = (\<lambda>c.
     if \<not> pid_enabled c then ret (pid_output c) c
     else if \<not> pid_initialized c then pid_start now c
     else
       let elapsed = duration_since now (case last_exec c of Some t \<Rightarrow> t | None \<Rightarrow> now);
           dt = as_secs_f64 elapsed
       in if elapsed < from_millis (exec_interval_ms c) \<or> le64 dt 0 then ret (pid_output c) c
          else pid_cycle sp pv now dt c)"

definition pid_reset :: "pid_controller \<Rightarrow> pid_controller" where
  "pid_reset c = c\<lparr>pid_output := 0, integral := 0, last_error := 0, last_exec := None, pid_initialized := False\<rparr>"

section \<open>The lead sequencer\<close>

definition MAX_STAGES :: usize where "MAX_STAGES = 16"

record lead_sequencer =
  num_stages :: usize
  in_min :: f64
  in_max :: f64
  seq_hysteresis :: f64
  stages :: "bool list"

definition clamp_stages :: "usize \<Rightarrow> usize" where
  "clamp_stages n = max 1 (min MAX_STAGES n)"

definition sequencer_new :: "usize \<Rightarrow> lead_sequencer" where
  "sequencer_new n = \<lparr>num_stages = clamp_stages n, in_min = 0, in_max = lit 100 1, seq_hysteresis = lit 1 2,
     stages = replicate (clamp_stages n) False\<rparr>"

definition band_width :: "lead_sequencer \<Rightarrow> f64" where
  "band_width s = div64 (sub64 (in_max s) (in_min s)) (f64_of_int (int (num_stages s)))"

definition threshold_on :: "lead_sequencer \<Rightarrow> nat \<Rightarrow> f64" where
  "threshold_on s i = add64 (in_min s) (mul64 (band_width s) (f64_of_int (int i)))"

definition threshold_off :: "lead_sequencer \<Rightarrow> nat \<Rightarrow> f64" where
  "threshold_off s i = sub64 (threshold_on s i) (mul64 (band_width s) (seq_hysteresis s))"

text \<open>\<open>self.stages[i] = b\<close>; an index past the vector panics.\<close>

definition set_stage :: "nat \<Rightarrow> bool \<Rightarrow> (lead_sequencer, 'e, unit) routine" where
  "set_stage i b s = (if i < length (stages s) then (Ok (), s\<lparr>stages := (stages s)[i := b]\<rparr>) else (Panic, s))"

definition sequence_stage :: "f64 \<Rightarrow> nat \<Rightarrow> (lead_sequencer, 'e, unit) routine" where
  "sequence_stage x i = (\<lambda>s.
     if lt64 (threshold_on s i) x then set_stage i True s
     else if lt64 x (threshold_off s i) then set_stage i False s
     else ret () s)"

definition sequencer_execute :: "f64 \<Rightarrow> (lead_sequencer, 'e, bool list) routine" where
  "sequencer_execute x = (\<lambda>s.
     if le64 (sub64 (in_max s) (in_min s)) 0 \<or> num_stages s = 0 then ret (stages s) s
     else sq (forM [0..<num_stages s] (sequence_stage x)) (query (\<lambda>s. Ok (stages s))) s)"

definition active_count :: "lead_sequencer \<Rightarrow> usize" where
  "active_count s = length (filter (\<lambda>b. b) (stages s))"

definition set_num_stages :: "usize \<Rightarrow> lead_sequencer \<Rightarrow> lead_sequencer" where
  "set_num_stages n s = s\<lparr>num_stages := clamp_stages n, stages := replicate (clamp_stages n) False\<rparr>"

section \<open>Switches and their history\<close>

text \<open>A switch that one condition sets and another one clears is on when the first held for some input and no
  later input cleared it.\<close>

definition switched_on :: "('v \<Rightarrow> bool) \<Rightarrow> ('v \<Rightarrow> bool) \<Rightarrow> 'v list \<Rightarrow> bool" where
  "switched_on sets clears vs \<longleftrightarrow> (\<exists>pre v post. vs = pre @ v # post \<and> sets v \<and> (\<forall>x\<in>set post. sets x \<or> \<not> clears x))"

lemma switched_on_Nil [simp]: "\<not> switched_on sets clears []"
  by (simp add: switched_on_def)

lemma switched_on_snoc [simp]:
  "switched_on sets clears (vs @ [x]) \<longleftrightarrow> (if sets x then True else if clears x then False else switched_on sets clears vs)"
proof
  assume "switched_on sets clears (vs @ [x])"
  then obtain pre v post where v: "vs @ [x] = pre @ v # post" "sets v" "\<forall>x\<in>set post. sets x \<or> \<not> clears x"
    by (auto simp: switched_on_def)
  then show "if sets x then True else if clears x then False else switched_on sets clears vs"
    by (cases post rule: rev_cases) (auto simp: switched_on_def)
next
  assume x: "if sets x then True else if clears x then False else switched_on sets clears vs"
  show "switched_on sets clears (vs @ [x])"
  proof (cases "sets x")
    case True
    then show ?thesis unfolding switched_on_def by (intro exI [of _ vs] exI [of _ x] exI [of _ "[]"]) simp
  next
    case False
    with x obtain pre v post where "vs = pre @ v # post" "sets v" "\<forall>x\<in>set post. sets x \<or> \<not> clears x" "\<not> clears x"
      by (auto simp: switched_on_def split: if_splits)
    then show ?thesis unfolding switched_on_def
      by (intro exI [of _ pre] exI [of _ v] exI [of _ "post @ [x]"]) auto
  qed
qed

definition thermostat_sets :: "thermostat \<Rightarrow> f64 \<Rightarrow> bool" where
  "thermostat_sets c t \<longleftrightarrow> (if th_heating c then lt64 t (th_low c) else lt64 (th_high c) t)"

definition thermostat_clears :: "thermostat \<Rightarrow> f64 \<Rightarrow> bool" where
  "thermostat_clears c t \<longleftrightarrow> (if th_heating c then lt64 (th_high c) t else lt64 t (th_low c))"

definition thermostat_rel :: "thermostat \<Rightarrow> f64 list \<Rightarrow> thermostat \<Rightarrow> bool" where
  "thermostat_rel c0 ts c \<longleftrightarrow> c = c0\<lparr>th_output := switched_on (thermostat_sets c0) (thermostat_clears c0) ts\<rparr>"

interpretation thermostat: history_filter "\<lambda>c t. thermostat_execute t c" "c0\<lparr>th_output := False\<rparr>" "thermostat_rel c0" for c0
  by unfold_locales
     (auto simp: thermostat_rel_def thermostat_execute_def thermostat_sets_def thermostat_clears_def th_low_def th_high_def Let_def)

interpretation latch: history_filter "\<lambda>c (a, b). sr_execute (c\<lparr>sr_set := a, sr_reset := b\<rparr>)" sr_new
    "\<lambda>vs c. sr_output c = switched_on fst snd vs"
  by unfold_locales (auto simp: sr_new_def sr_execute_def Let_def split: prod.splits)

lemma thermostat_history:
  "fst (thermostat_execute t (filter_after (\<lambda>c t. thermostat_execute t c) (c0\<lparr>th_output := False\<rparr>) ts)) =
     switched_on (thermostat_sets c0) (thermostat_clears c0) (ts @ [t])"
proof -
  have "fst (thermostat_execute t c) = th_output (snd (thermostat_execute t c))" for c by (simp add: thermostat_execute_def Let_def)
  then show ?thesis using thermostat.rel_after [of c0 "ts @ [t]"] by (simp add: thermostat_rel_def)
qed

section \<open>The sequencer is a bank of switches\<close>

definition same_bands :: "lead_sequencer \<Rightarrow> lead_sequencer \<Rightarrow> bool" where
  "same_bands s s' \<longleftrightarrow> s' = s\<lparr>stages := stages s'\<rparr>"

lemma same_bands_thresholds:
  "same_bands s s' \<Longrightarrow> num_stages s' = num_stages s \<and> in_min s' = in_min s \<and> in_max s' = in_max s \<and>
     threshold_on s' i = threshold_on s i \<and> threshold_off s' i = threshold_off s i"
  unfolding same_bands_def
  by (erule ssubst [where P = "\<lambda>x. num_stages x = _ \<and> in_min x = _ \<and> in_max x = _ \<and> threshold_on x i = _ \<and> threshold_off x i = _"])
     (simp add: threshold_on_def threshold_off_def band_width_def)

lemma same_bands_update: "same_bands s s' \<Longrightarrow> same_bands s (s'\<lparr>stages := bs\<rparr>)"
  unfolding same_bands_def by (cases s; cases s') simp

text \<open>The new state of a stage.\<close>

definition next_stage :: "lead_sequencer \<Rightarrow> f64 \<Rightarrow> nat \<Rightarrow> bool \<Rightarrow> bool" where
  "next_stage s x i b = (if lt64 (threshold_on s i) x then True else if lt64 x (threshold_off s i) then False else b)"

lemma sequence_stage_run:
  assumes "i < length (stages s)"
  shows "sequence_stage x i s = (Ok (), s\<lparr>stages := (stages s)[i := next_stage s x i (stages s ! i)]\<rparr>)"
  using assms by (simp add: sequence_stage_def set_stage_def next_stage_def ret_def)

lemma sequence_stages_run:
  assumes "n \<le> length (stages s)"
  shows "forM [0..<n] (sequence_stage x) s =
    (Ok () :: ('e, _) outcome, s\<lparr>stages := map (\<lambda>i. next_stage s x i (stages s ! i)) [0..<n] @ drop n (stages s)\<rparr>)"
  using assms
proof (induction n)
  case 0
  then show ?case by (simp add: ret_def)
next
  case (Suc n)
  let ?s = "s\<lparr>stages := map (\<lambda>i. next_stage s x i (stages s ! i)) [0..<n] @ drop n (stages s)\<rparr>"
  have th: "next_stage ?s x n b = next_stage s x n b" for b
    by (simp add: next_stage_def threshold_on_def threshold_off_def band_width_def)
  have "stages ?s ! n = stages s ! n" using Suc.prems by (simp add: nth_append)
  moreover have "(stages ?s)[n := b] = map (\<lambda>i. next_stage s x i (stages s ! i)) [0..<n] @ b # drop (Suc n) (stages s)" for b
    using Suc.prems by (simp add: list_update_append Cons_nth_drop_Suc [symmetric])
  ultimately have "sequence_stage x n ?s = (Ok () :: ('e, _) outcome, s\<lparr>stages := map (\<lambda>i. next_stage s x i (stages s ! i)) [0..<Suc n] @ drop (Suc n) (stages s)\<rparr>)"
    using sequence_stage_run [of n ?s x, where ?'a = 'e] Suc.prems th by simp
  then show ?case using Suc by (simp add: forM_append sq_def bnd_def ret_def)
qed

definition sequencer_rel :: "lead_sequencer \<Rightarrow> f64 list \<Rightarrow> lead_sequencer \<Rightarrow> bool" where
  "sequencer_rel s0 xs s \<longleftrightarrow> same_bands s0 s \<and> length (stages s) = num_stages s0 \<and>
     (\<forall>i<num_stages s0. stages s ! i = switched_on (\<lambda>x. lt64 (threshold_on s0 i) x) (\<lambda>x. lt64 x (threshold_off s0 i)) xs)"

lemma sequencer_execute_rel:
  assumes "sequencer_rel s0 xs s" "\<not> le64 (sub64 (in_max s0) (in_min s0)) 0" "num_stages s0 \<noteq> 0"
  shows "\<exists>s'. sequencer_execute x s = (Ok (stages s') :: ('e, _) outcome, s') \<and> sequencer_rel s0 (xs @ [x]) s'"
proof -
  have b: "same_bands s0 s" "length (stages s) = num_stages s0" using assms(1) by (simp_all add: sequencer_rel_def)
  note t = same_bands_thresholds [OF b(1)]
  have "num_stages s \<le> length (stages s)" using b t [of 0] by simp
  then have "sequencer_execute x s =
      (Ok (map (\<lambda>i. next_stage s x i (stages s ! i)) [0..<num_stages s]) :: ('e, _) outcome, s\<lparr>stages := map (\<lambda>i. next_stage s x i (stages s ! i)) [0..<num_stages s]\<rparr>)"
    using assms(2,3) t [of 0] b(2) sequence_stages_run [of "num_stages s" s x, where ?'e = 'e]
    by (simp add: sequencer_execute_def sq_def bnd_def query_def)
  moreover have "sequencer_rel s0 (xs @ [x]) (s\<lparr>stages := map (\<lambda>i. next_stage s x i (stages s ! i)) [0..<num_stages s]\<rparr>)"
    using assms(1) same_bands_update [OF b(1)] t by (simp add: sequencer_rel_def next_stage_def)
  ultimately show ?thesis by force
qed

interpretation sequencer: history_filter "\<lambda>s x. sequencer_execute x s :: (unit, bool list) outcome \<times> _"
    "s0\<lparr>stages := replicate (num_stages s0) False\<rparr>"
    "\<lambda>xs s. \<not> le64 (sub64 (in_max s0) (in_min s0)) 0 \<and> num_stages s0 \<noteq> 0 \<longrightarrow> sequencer_rel s0 xs s" for s0
proof unfold_locales
  show "\<not> le64 (sub64 (in_max s0) (in_min s0)) 0 \<and> num_stages s0 \<noteq> 0 \<longrightarrow>
      sequencer_rel s0 [] (s0\<lparr>stages := replicate (num_stages s0) False\<rparr>)" for s0
    by (simp add: sequencer_rel_def same_bands_def)
  show "\<not> le64 (sub64 (in_max s0) (in_min s0)) 0 \<and> num_stages s0 \<noteq> 0 \<longrightarrow>
      sequencer_rel s0 (xs @ [x]) (snd (sequencer_execute x s :: (unit, bool list) outcome \<times> _))"
    if "\<not> le64 (sub64 (in_max s0) (in_min s0)) 0 \<and> num_stages s0 \<noteq> 0 \<longrightarrow> sequencer_rel s0 xs s" for s0 xs s x
    using that sequencer_execute_rel [of s0 xs s x, where ?'e = unit] by auto
qed

section \<open>The delay timer\<close>

text \<open>A call of a timer sets its input and executes it at an instant. The last run of calls with a true input decides.\<close>

definition delay_on_call :: "delay_on \<Rightarrow> bool \<times> instant \<Rightarrow> bool \<times> delay_on" where
  "delay_on_call c call = delay_on_execute (snd call) (c\<lparr>on_input := fst call\<rparr>)"

definition last_run :: "(bool \<times> instant) list \<Rightarrow> instant list" where
  "last_run calls = map snd (rev (takeWhile fst (rev calls)))"

lemma last_run_snoc [simp]:
  "last_run [] = []" "last_run (calls @ [(b, t)]) = (if b then last_run calls @ [t] else [])"
  by (simp_all add: last_run_def)

definition delay_on_rel :: "u64 \<Rightarrow> (bool \<times> instant) list \<Rightarrow> delay_on \<Rightarrow> bool" where
  "delay_on_rel d calls c \<longleftrightarrow> on_enabled c \<and> on_delay_ms c = d \<and>
     on_start c = (case last_run calls of [] \<Rightarrow> None | t # ts \<Rightarrow> Some t) \<and>
     on_output c = (case last_run calls of [] \<Rightarrow> False | t # ts \<Rightarrow> \<exists>t'\<in>set ts. d \<le> elapsed_ms t' t)"

interpretation delay_on: history_filter delay_on_call "delay_on_new\<lparr>on_delay_ms := d\<rparr>" "delay_on_rel d" for d
  by unfold_locales
     (auto simp: delay_on_rel_def delay_on_new_def delay_on_call_def delay_on_execute_def Let_def split: list.splits option.splits if_splits)

lemma delay_on_call_output: "fst (delay_on_call c call) = on_output (snd (delay_on_call c call))"
  by (simp add: delay_on_call_def delay_on_execute_def Let_def)

section \<open>Schedules\<close>

text \<open>The entry in force: the one that passed last, and among those of the same minute the last of the list.\<close>

definition in_force :: "('a \<Rightarrow> u16) \<Rightarrow> u16 \<Rightarrow> 'a list \<Rightarrow> nat \<Rightarrow> bool" where
  "in_force mins now es i \<longleftrightarrow> i < length es \<and> mins (es ! i) \<le> now \<and>
     (\<forall>j<length es. mins (es ! j) \<le> now \<longrightarrow> mins (es ! j) < mins (es ! i) \<or> mins (es ! j) = mins (es ! i) \<and> j \<le> i)"

lemma better_entry_cases:
  "\<not> mins e \<le> now \<Longrightarrow> better_entry mins now best e = best"
  "mins e \<le> now \<Longrightarrow> better_entry mins now None e = Some e"
  "mins e \<le> now \<Longrightarrow> better_entry mins now (Some prev) e = (if mins prev \<le> mins e then Some e else Some prev)"
  by (simp_all add: better_entry_def)

lemma best_entry:
  "case foldl (better_entry mins now) None es of
     None \<Rightarrow> \<forall>e\<in>set es. \<not> mins e \<le> now
   | Some e \<Rightarrow> \<exists>i. in_force mins now es i \<and> e = es ! i"
proof (induction es rule: rev_induct)
  case (snoc x es)
  show ?case
  proof (cases "foldl (better_entry mins now) None es")
    case None
    with snoc have old: "\<forall>e\<in>set es. \<not> mins e \<le> now" by simp
    show ?thesis
    proof (cases "mins x \<le> now")
      case True
      have "in_force mins now (es @ [x]) (length es)"
        using old True by (auto simp: in_force_def nth_append less_Suc_eq)
      then show ?thesis using None True by (auto simp: better_entry_cases intro!: exI [of _ "length es"])
    qed (use None old in \<open>simp add: better_entry_cases\<close>)
  next
    case (Some e)
    with snoc obtain i where i: "in_force mins now es i" "e = es ! i" by auto
    then have "i < length es" by (simp add: in_force_def)
    show ?thesis
    proof (cases "mins x \<le> now \<and> mins e \<le> mins x")
      case True
      have "in_force mins now (es @ [x]) (length es)"
        using i True by (fastforce simp: in_force_def nth_append less_Suc_eq)
      then show ?thesis using Some True by (auto simp: better_entry_cases intro!: exI [of _ "length es"])
    next
      case False
      then have "in_force mins now (es @ [x]) i"
        using i by (auto simp: in_force_def nth_append less_Suc_eq not_le)
      moreover have "better_entry mins now (Some e) x = Some e" using False by (auto simp: better_entry_def)
      ultimately show ?thesis using Some i(2) \<open>i < length es\<close> by (auto simp: nth_append intro!: exI [of _ i])
    qed
  qed
qed simp

lemma in_force_unique: "in_force mins now es i \<Longrightarrow> in_force mins now es j \<Longrightarrow> i = j"
  unfolding in_force_def by (metis le_antisym less_asym less_irrefl)

section \<open>The PID controller keeps its limits\<close>

definition in_limits :: "pid_controller \<Rightarrow> f64 \<Rightarrow> bool" where
  "in_limits c x \<longleftrightarrow> le64 (out_min c) x \<and> le64 x (out_max c) \<or> nan64 x"

definition pid_ok :: "pid_controller \<Rightarrow> bool" where
  "pid_ok c \<longleftrightarrow> le64 (out_min c) (out_max c) \<and> (pid_output c = 0 \<or> in_limits c (pid_output c)) \<and>
     (integral c = 0 \<or> in_limits c (integral c))"

lemma clamp_in_limits:
  assumes "le64 (out_min c) (out_max c)"
  shows "\<exists>y. clamp64 x (out_min c) (out_max c) = (Ok y :: ('e, f64) outcome) \<and> in_limits c y"
proof -
  obtain y where y: "clamp64 x (out_min c) (out_max c) = (Ok y :: ('e, f64) outcome)"
    using assms by (simp add: clamp64_def)
  then have "in_limits c y"
    using clamp64_bounds [OF y] by (cases "nan64 x") (auto simp: in_limits_def clamp64_def split: if_splits)
  with y show ?thesis by blast
qed

lemma limit_output_in_limits:
  assumes "le64 (out_min c) (out_max c)"
  shows "\<exists>y. limit_output x c = (Ok y :: ('e, f64) outcome) \<and> in_limits c y"
proof -
  obtain y where "clamp64 x (out_min c) (out_max c) = (Ok y :: ('e, f64) outcome)" "in_limits c y"
    using clamp_in_limits [OF assms] by blast
  then show ?thesis by (auto simp: limit_output_def Let_def intro: clamp_in_limits [OF assms])
qed

lemma integrate_run:
  assumes "pid_ok c"
  shows "\<exists>i. integrate err dt c = (Ok () :: ('e, unit) outcome, c\<lparr>integral := i\<rparr>) \<and> (i = 0 \<or> in_limits c i)"
proof (cases "eq64 (ki c) 0")
  case True
  then have "integrate err dt c = (Ok () :: ('e, unit) outcome, c\<lparr>integral := integral c\<rparr>)" by (simp add: integrate_def ret_def)
  then show ?thesis using assms unfolding pid_ok_def by blast
next
  case False
  then show ?thesis
    using clamp_in_limits [of c "add64 (integral c) (div64 (mul64 (mul64 (ki c) err) dt) (lit 60 1))", where ?'e = 'e] assms
    by (auto simp: integrate_def sq_def bnd_def modify_def query_def pid_ok_def)
qed

lemma pid_execute_ok:
  assumes "pid_ok c"
  shows "\<exists>out c'. pid_execute sp pv now c = (Ok out :: ('e, f64) outcome, c') \<and> pid_ok c' \<and> pid_output c' = out \<and>
    out_min c' = out_min c \<and> out_max c' = out_max c"
proof -
  have lim: "le64 (out_min c) (out_max c)" using assms by (simp add: pid_ok_def)
  have start: "\<exists>out c'. pid_start now c = (Ok out :: ('e, f64) outcome, c') \<and> pid_ok c' \<and> pid_output c' = out \<and>
      out_min c' = out_min c \<and> out_max c' = out_max c"
    using clamp_in_limits [OF lim, of "bias_of c", where ?'e = 'e] assms
    by (auto simp: pid_start_def sq_def bnd_def modify_def lift_def ret_def pid_ok_def in_limits_def)
  have cycle: "\<exists>out c'. pid_cycle sp pv now dt c = (Ok out :: ('e, f64) outcome, c') \<and> pid_ok c' \<and> pid_output c' = out \<and>
      out_min c' = out_min c \<and> out_max c' = out_max c" for dt
  proof -
    obtain i where i: "integrate (control_error sp pv c) dt c = (Ok () :: ('e, unit) outcome, c\<lparr>integral := i\<rparr>)"
      "i = 0 \<or> in_limits c i" using integrate_run [OF assms] by blast
    obtain y where "limit_output (pid_sum (control_error sp pv c) dt (c\<lparr>integral := i\<rparr>)) (c\<lparr>integral := i\<rparr>) = (Ok y :: ('e, f64) outcome)"
      "in_limits c y" using limit_output_in_limits [of "c\<lparr>integral := i\<rparr>"] lim by (auto simp: in_limits_def)
    then show ?thesis using i lim
      by (auto simp: pid_cycle_def sq_def bnd_def query_def modify_def ret_def pid_ok_def in_limits_def)
  qed
  show ?thesis using start cycle assms by (auto simp: pid_execute_def ret_def Let_def)
qed

text \<open>A call has a setpoint, a measured value and an instant.\<close>

definition pid_after :: "pid_controller \<Rightarrow> (f64 \<times> f64 \<times> instant) list \<Rightarrow> pid_controller" where
  "pid_after c calls = foldl (\<lambda>c (sp, pv, now). snd (pid_execute sp pv now c :: (unit, f64) outcome \<times> _)) c calls"

lemma pid_after_ok: "pid_ok c \<Longrightarrow> pid_ok (pid_after c calls) \<and> out_min (pid_after c calls) = out_min c \<and> out_max (pid_after c calls) = out_max c"
proof (induction calls rule: rev_induct)
  case (snoc call calls)
  obtain sp pv now where "call = (sp, pv, now)" by (cases call)
  with snoc pid_execute_ok [of "pid_after c calls" sp pv now, where ?'e = unit] show ?case by (auto simp: pid_after_def)
qed (simp add: pid_after_def)

section \<open>Properties\<close>

text \<open>The PID controller keeps its limits and never panics: with ordered output limits, after any calls with any setpoints,
  measurements and instants, NaN and infinities included, the next call returns; its output and the integral that it keeps
  (anti-windup) lie between the limits, unless no cycle has set them yet (then they are 0) or the arithmetic gave NaN.\<close>

theorem pid_bounded:
  assumes "le64 (out_min c) (out_max c)" "pid_output c = 0" "integral c = 0"
  shows "\<exists>out c'. pid_execute sp pv now (pid_after c calls) = (Ok out :: (unit, f64) outcome, c') \<and>
    (\<forall>x\<in>{out, integral c'}. x = 0 \<or> le64 (out_min c) x \<and> le64 x (out_max c) \<or> nan64 x)"
proof -
  have "pid_ok c" using assms by (simp add: pid_ok_def)
  note after = pid_after_ok [OF this, of calls]
  obtain out c' where "pid_execute sp pv now (pid_after c calls) = (Ok out :: (unit, f64) outcome, c')"
    "pid_ok c'" "pid_output c' = out" "out_min c' = out_min c" "out_max c' = out_max c"
    using pid_execute_ok [of "pid_after c calls" sp pv now, where ?'e = unit] after by auto
  then show ?thesis by (intro exI [of _ out] exI [of _ c']) (auto simp: pid_ok_def in_limits_def)
qed

theorem pid_bounded_witness:
  "\<exists>out c'. pid_execute (lit 75 1) (lit 70 1) 2000000000
      (pid_after (pid_new\<lparr>ki := lit 1 1\<rparr>) [(lit 75 1, lit 70 1, 0), (lit 75 1, lit 70 1, 1000000000)]) = (Ok out :: (unit, f64) outcome, c') \<and>
    (out = 0 \<or> le64 0 out \<and> le64 out (lit 100 1) \<or> nan64 out)"
proof -
  have lim: "le64 (out_min (pid_new\<lparr>ki := lit 1 1\<rparr>)) (out_max (pid_new\<lparr>ki := lit 1 1\<rparr>))" by (simp add: pid_new_def float_eval)
  have zero: "pid_output (pid_new\<lparr>ki := lit 1 1\<rparr>) = 0" "integral (pid_new\<lparr>ki := lit 1 1\<rparr>) = 0" by (simp_all add: pid_new_def)
  from pid_bounded [OF lim zero, of "lit 75 1" "lit 70 1" 2000000000 "[(lit 75 1, lit 70 1, 0), (lit 75 1, lit 70 1, 1000000000)]"]
  show ?thesis by (auto simp: pid_new_def)
qed

text \<open>The sequencer stages its outputs with hysteresis: over any history of inputs a stage is on exactly when some input exceeded its
  threshold and no input since then was below the threshold less the dead band, every stage for itself;
  the calls never panic and always answer with one output for each stage.\<close>

theorem sequencer_history:
  assumes "s0 = (sequencer_new n)\<lparr>in_min := lo, in_max := hi, seq_hysteresis := h\<rparr>" "\<not> le64 (sub64 hi lo) 0"
  shows "\<exists>out s'. sequencer_execute x (filter_after (\<lambda>s x. sequencer_execute x s :: (unit, bool list) outcome \<times> _) s0 xs) =
      (Ok out :: (unit, bool list) outcome, s') \<and> length out = clamp_stages n \<and>
    (\<forall>i<clamp_stages n. out ! i \<longleftrightarrow>
      switched_on (\<lambda>x. lt64 (threshold_on s0 i) x) (\<lambda>x. lt64 x (threshold_off s0 i)) (xs @ [x]))"
proof -
  have s0: "s0\<lparr>stages := replicate (num_stages s0) False\<rparr> = s0" "num_stages s0 = clamp_stages n" "num_stages s0 \<noteq> 0"
    "\<not> le64 (sub64 (in_max s0) (in_min s0)) 0"
    using assms by (simp_all add: sequencer_new_def clamp_stages_def)
  have "sequencer_rel s0 xs (filter_after (\<lambda>s x. sequencer_execute x s :: (unit, bool list) outcome \<times> _) s0 xs)"
    using sequencer.rel_after [of s0 xs] s0 by simp
  from sequencer_execute_rel [OF this s0(4,3), of x, where ?'e = unit] show ?thesis
    using s0(2) by (auto simp: sequencer_rel_def)
qed

theorem sequencer_history_witness:
  "\<exists>out s'. sequencer_execute (lit 40 1) (filter_after (\<lambda>s x. sequencer_execute x s :: (unit, bool list) outcome \<times> _)
      ((sequencer_new 2)\<lparr>in_min := lit 20 1, in_max := lit 100 1, seq_hysteresis := lit 1 2\<rparr>) []) = (Ok out :: (unit, bool list) outcome, s') \<and> length out = 2"
proof -
  have "\<not> le64 (sub64 (lit 100 1) (lit 20 1)) 0" by (simp add: float_eval)
  from sequencer_history [OF refl this, where x = "lit 40 1" and n = 2 and h = "lit 1 2" and xs = "[]"] show ?thesis
    by (auto simp: clamp_stages_def MAX_STAGES_def)
qed

text \<open>The delay timer turns on exactly after its delay: over any history of calls, its output is on when the last run of
  calls with a true input, and no shorter history, contains a call at least the delay after the first call of the run; a false input
  turns it off at once.\<close>

theorem delay_on_history:
  "fst (delay_on_call (filter_after delay_on_call (delay_on_new\<lparr>on_delay_ms := d\<rparr>) calls) (b, now)) \<longleftrightarrow>
     (\<exists>t ts. last_run (calls @ [(b, now)]) = t # ts \<and> (\<exists>t'\<in>set ts. d \<le> elapsed_ms t' t))"
  using delay_on.rel_after [of d "calls @ [(b, now)]"]
  by (auto simp: delay_on_call_output delay_on_rel_def split: list.splits)

text \<open>A daily schedule gives the entry in force: the value of the entry that passed last in the day, the last of the list among
  those of the same minute, and the default value when none has passed or the schedule is disabled; hours and minutes out of range
  do not overflow.\<close>

theorem schedule_in_force:
  "(schedule_evaluate c hour minute = v \<longleftrightarrow>
     (if sched_enabled c \<and> (\<exists>i. in_force entry_minutes (day_minutes hour minute) (sched_entries c) i)
      then (\<exists>i. in_force entry_minutes (day_minutes hour minute) (sched_entries c) i \<and> v = entry_value (sched_entries c ! i))
      else v = sched_default c)) \<and>
   uint (day_minutes hour minute) = uint hour * 60 + uint minute"
proof
  let ?P = "in_force entry_minutes (day_minutes hour minute) (sched_entries c)"
  note best = best_entry [where mins = entry_minutes and now = "day_minutes hour minute" and es = "sched_entries c"]
  have none: "\<not> ?P i" if "\<forall>e\<in>set (sched_entries c). \<not> entry_minutes e \<le> day_minutes hour minute" for i
    using that by (simp add: in_force_def)
  have empty: "\<not> ?P i" if "sched_entries c = []" for i using that by (simp add: in_force_def)
  show "schedule_evaluate c hour minute = v \<longleftrightarrow>
     (if sched_enabled c \<and> (\<exists>i. ?P i) then (\<exists>i. ?P i \<and> v = entry_value (sched_entries c ! i)) else v = sched_default c)"
  proof (cases "foldl (better_entry entry_minutes (day_minutes hour minute)) None (sched_entries c)")
    case None
    with best none have "\<not> ?P i" for i by simp
    then show ?thesis using None by (auto simp: schedule_evaluate_def)
  next
    case (Some e)
    with best obtain i where i: "?P i" "e = sched_entries c ! i" by auto
    then have "?P j \<longleftrightarrow> j = i" for j using in_force_unique by metis
    then show ?thesis using Some i empty by (auto simp: schedule_evaluate_def)
  qed
  have "uint (ucast hour :: u16) = uint hour" "uint (ucast minute :: u16) = uint minute" "uint hour < 256" "uint minute < 256"
    using uint_bounded [of hour] uint_bounded [of minute] by (simp_all add: unsigned_ucast_eq take_bit_int_eq_self)
  then show "uint (day_minutes hour minute) = uint hour * 60 + uint minute"
    by (simp add: day_minutes_def uint_word_ariths)
qed

end
