(* ===== verification/Control.thy ===== *)
theory Control
  imports Engine_Control Engine_Blocks
begin

text \<open>
  The control runner of the server (\<open>sandstar-server/src/control.rs\<close>): control loops, a PID controller with an optional
  sequencer between engine channels, and stand-alone blocks wired to channels, both built from a configuration file. The
  TOML parser is a parameter: it gives the configuration records with the defaults of the source filled
  in, or an error message. The wall clock, which daily schedules read, is an argument. A panic of a loop stops the
  cycle, and its state is the one of the engine at that point.
\<close>

section \<open>Configuration\<close>

record pid_config =
  cfg_kp :: f64
  cfg_ki :: f64
  cfg_kd :: f64
  cfg_min :: f64
  cfg_max :: f64
  cfg_bias :: f64
  cfg_max_delta :: f64
  cfg_direct :: bool
  cfg_exec_interval_ms :: u64

record seq_config =
  cfg_hysteresis :: f64

record loop_config =
  lc_name :: string
  lc_feedback_channel :: channel_id
  lc_setpoint_channel :: channel_id
  lc_output_channels :: "channel_id list"
  lc_write_level :: u8
  lc_pid :: pid_config
  lc_sequencer :: "seq_config option"
  lc_enable_query :: "string option"

record schedule_entry_config =
  sec_hour :: u8
  sec_minute :: u8
  sec_value :: f64

record bool_schedule_entry_config =
  bsec_hour :: u8
  bsec_minute :: u8
  bsec_value :: bool

record component_config =
  cc_name :: string
  cc_type :: string
  cc_input_channels :: "channel_id list"
  cc_output_channel :: channel_id
  cc_write_level :: u8
  cc_value :: "f64 option"
  cc_min :: "f64 option"
  cc_max :: "f64 option"
  cc_period_ms :: "u64 option"
  cc_delay_ms :: "u64 option"
  cc_duration_ms :: "u64 option"
  cc_setpoint :: "f64 option"
  cc_deadband :: "f64 option"
  cc_heating :: "bool option"
  cc_rising_threshold :: "f64 option"
  cc_falling_threshold :: "f64 option"
  cc_high_value :: "f64 option"
  cc_low_value :: "f64 option"
  cc_default_value :: "f64 option"
  cc_entries :: "schedule_entry_config list option"
  cc_bool_entries :: "bool_schedule_entry_config list option"
  cc_offset :: "f64 option"
  cc_decimals :: "u32 option"

record control_toml =
  toml_loops :: "loop_config list"
  toml_components :: "component_config list"

section \<open>Loops and components\<close>

record control_loop =
  loop_name :: string
  feedback_channel :: channel_id
  setpoint_channel :: channel_id
  output_channels :: "channel_id list"
  loop_write_level :: u8
  loop_pid :: pid_controller
  loop_sequencer :: "lead_sequencer option"
  enable_query :: "string option"
  loop_enabled :: bool

datatype component_kind =
  Add2 add2 | Sub2 sub2 | Mul2 mul2 | Div2 div2 | NegKind neg_block | RoundKind round_block | FloatOffset float_offset
| ConstFloat f64 | Ramp ramp | Thermostat thermostat | Hysteresis hysteresis_block
| DailyScheduleFloat daily_schedule | DailyScheduleBool bool_schedule
| DelayOn delay_on | DelayOff delay_off | OneShot one_shot | And2 and2 | Or2 or2 | NotKind not_block | SRLatch sr_latch

record component_instance =
  comp_name :: string
  comp_inputs :: "channel_id list"
  comp_output :: channel_id
  comp_write_level :: u8
  comp_kind :: component_kind
  comp_enabled :: bool

record control_runner =
  runner_loops :: "control_loop list"
  runner_components :: "component_instance list"

definition control_new :: control_runner where
  "control_new = \<lparr>runner_loops = [], runner_components = []\<rparr>"

definition quoted :: "string \<Rightarrow> string" where
  "quoted s = CHR 0x27 # s @ [CHR 0x27]"

definition build_ramp :: "component_config \<Rightarrow> ramp" where
  "build_ramp cc = ramp_new\<lparr>ramp_min := or_else (cc_min cc) (ramp_min ramp_new), ramp_max := or_else (cc_max cc) (ramp_max ramp_new),
     ramp_period_ms := or_else (cc_period_ms cc) (ramp_period_ms ramp_new)\<rparr>"

definition build_thermostat :: "component_config \<Rightarrow> thermostat" where
  "build_thermostat cc = thermostat_new\<lparr>th_setpoint := or_else (cc_setpoint cc) (th_setpoint thermostat_new),
     th_deadband := or_else (cc_deadband cc) (th_deadband thermostat_new), th_heating := or_else (cc_heating cc) (th_heating thermostat_new)\<rparr>"

definition build_hysteresis :: "component_config \<Rightarrow> hysteresis_block" where
  "build_hysteresis cc = hysteresis_new\<lparr>
     rising_threshold := or_else (cc_rising_threshold cc) (rising_threshold hysteresis_new),
     falling_threshold := or_else (cc_falling_threshold cc) (falling_threshold hysteresis_new),
     hyst_high_value := or_else (cc_high_value cc) (hyst_high_value hysteresis_new),
     hyst_low_value := or_else (cc_low_value cc) (hyst_low_value hysteresis_new)\<rparr>"

definition build_schedule :: "component_config \<Rightarrow> daily_schedule" where
  "build_schedule cc = schedule_new\<lparr>sched_default := or_else (cc_default_value cc) (sched_default schedule_new),
     sched_entries := (case cc_entries cc of None \<Rightarrow> sched_entries schedule_new
       | Some es \<Rightarrow> map (\<lambda>e. \<lparr>entry_hour = sec_hour e, entry_minute = sec_minute e, entry_value = sec_value e\<rparr>) es)\<rparr>"

definition build_bool_schedule :: "component_config \<Rightarrow> bool_schedule" where
  "build_bool_schedule cc = bool_schedule_new\<lparr>
     bool_default := (case cc_default_value cc of None \<Rightarrow> bool_default bool_schedule_new | Some x \<Rightarrow> \<not> eq64 x 0),
     bool_entries := (case cc_bool_entries cc of None \<Rightarrow> bool_entries bool_schedule_new
       | Some es \<Rightarrow> map (\<lambda>e. \<lparr>bool_entry_hour = bsec_hour e, bool_entry_minute = bsec_minute e, bool_entry_value = bsec_value e\<rparr>) es)\<rparr>"

definition build_component_kind :: "component_config \<Rightarrow> (string, component_kind) outcome" where
  "build_component_kind cc = (let t = cc_type cc in
     if t = ''add2'' then Ok (Add2 add2_new)
     else if t = ''sub2'' then Ok (Sub2 sub2_new)
     else if t = ''mul2'' then Ok (Mul2 mul2_new)
     else if t = ''div2'' then Ok (Div2 div2_new)
     else if t = ''neg'' then Ok (NegKind neg_new)
     else if t = ''round'' then Ok (RoundKind (round_new\<lparr>decimals := or_else (cc_decimals cc) (decimals round_new)\<rparr>))
     else if t = ''float_offset'' then Ok (FloatOffset (offset_new\<lparr>offset_by := or_else (cc_offset cc) (offset_by offset_new)\<rparr>))
     else if t = ''const_float'' then
       (case cc_value cc of
          Some v \<Rightarrow> Ok (ConstFloat v)
        | None \<Rightarrow> Err (''component '' @ quoted (cc_name cc) @ '': const_float requires '' @ quoted ''value'' @ '' field''))
     else if t = ''ramp'' then Ok (Ramp (build_ramp cc))
     else if t = ''thermostat'' then Ok (Thermostat (build_thermostat cc))
     else if t = ''hysteresis'' then Ok (Hysteresis (build_hysteresis cc))
     else if t = ''daily_schedule_float'' then Ok (DailyScheduleFloat (build_schedule cc))
     else if t = ''daily_schedule_bool'' then Ok (DailyScheduleBool (build_bool_schedule cc))
     else if t = ''delay_on'' then Ok (DelayOn (delay_on_new\<lparr>on_delay_ms := or_else (cc_delay_ms cc) (on_delay_ms delay_on_new)\<rparr>))
     else if t = ''delay_off'' then Ok (DelayOff (delay_off_new\<lparr>off_delay_ms := or_else (cc_delay_ms cc) (off_delay_ms delay_off_new)\<rparr>))
     else if t = ''one_shot'' then Ok (OneShot (one_shot_new\<lparr>shot_duration_ms := or_else (cc_duration_ms cc) (shot_duration_ms one_shot_new)\<rparr>))
     else if t = ''and2'' then Ok (And2 and2_new)
     else if t = ''or2'' then Ok (Or2 or2_new)
     else if t = ''not'' then Ok (NotKind not_new)
     else if t = ''sr_latch'' then Ok (SRLatch sr_new)
     else Err (''component '' @ quoted (cc_name cc) @ '': unknown type '' @ quoted t))"

section \<open>Loading\<close>

definition level_error :: "string \<Rightarrow> string \<Rightarrow> u8 \<Rightarrow> string" where
  "level_error what name level = what @ '' '' @ quoted name @ '': write_level '' @ show_nat (unat level) @ '' out of range 1..=17''"

definition pid_from_config :: "pid_config \<Rightarrow> pid_controller" where
  "pid_from_config pc = pid_new\<lparr>kp := cfg_kp pc, ki := cfg_ki pc, kd := cfg_kd pc, out_min := cfg_min pc, out_max := cfg_max pc,
     bias_of := cfg_bias pc, max_delta := cfg_max_delta pc, direct_action := cfg_direct pc, exec_interval_ms := cfg_exec_interval_ms pc\<rparr>"

definition build_loop :: "loop_config \<Rightarrow> control_loop" where
  "build_loop lc = \<lparr>loop_name = lc_name lc, feedback_channel = lc_feedback_channel lc, setpoint_channel = lc_setpoint_channel lc,
     output_channels = lc_output_channels lc, loop_write_level = lc_write_level lc, loop_pid = pid_from_config (lc_pid lc),
     loop_sequencer = map_option (\<lambda>sc. (sequencer_new (length (lc_output_channels lc)))\<lparr>seq_hysteresis := cfg_hysteresis sc\<rparr>) (lc_sequencer lc),
     enable_query = lc_enable_query lc, loop_enabled = True\<rparr>"

fun build_loops :: "loop_config list \<Rightarrow> (string, control_loop list) outcome" where
  "build_loops [] = Ok []"
| "build_loops (lc # lcs) =
     (if lc_write_level lc = 0 \<or> lc_write_level lc > 17 then Err (level_error ''loop'' (lc_name lc) (lc_write_level lc))
      else if lc_output_channels lc = [] then build_loops lcs
      else bindO (build_loops lcs) (\<lambda>ls. Ok (build_loop lc # ls)))"

fun build_components :: "component_config list \<Rightarrow> (string, component_instance list) outcome" where
  "build_components [] = Ok []"
| "build_components (cc # ccs) =
     (if cc_write_level cc = 0 \<or> cc_write_level cc > 17 then Err (level_error ''component'' (cc_name cc) (cc_write_level cc))
      else bindO (build_component_kind cc) (\<lambda>k. bindO (build_components ccs) (\<lambda>cs.
        Ok (\<lparr>comp_name = cc_name cc, comp_inputs = cc_input_channels cc, comp_output = cc_output_channel cc,
             comp_write_level = cc_write_level cc, comp_kind = k, comp_enabled = True\<rparr> # cs))))"

definition control_load :: "files \<Rightarrow> (string \<Rightarrow> string + control_toml) \<Rightarrow> string \<Rightarrow> (string, control_runner) outcome" where
  "control_load fs parse_toml file = (case fs file of
      Inl e \<Rightarrow> Err (''failed to read '' @ file @ '': '' @ e)
    | Inr content \<Rightarrow> (case parse_toml content of
        Inl e \<Rightarrow> Err (''failed to parse '' @ file @ '': '' @ e)
      | Inr cfg \<Rightarrow> bindO (build_loops (toml_loops cfg)) (\<lambda>ls. bindO (build_components (toml_components cfg)) (\<lambda>cs.
          Ok \<lparr>runner_loops = ls, runner_components = cs\<rparr>))))"

section \<open>Execution\<close>

definition input_at :: "f64 list \<Rightarrow> nat \<Rightarrow> f64" where
  "input_at inputs i = (if i < length inputs then inputs ! i else 0)"

definition truthy :: "f64 \<Rightarrow> bool" where
  "truthy x \<longleftrightarrow> \<not> eq64 x 0"

definition of_truth :: "bool \<Rightarrow> f64" where
  "of_truth b = (if b then lit 1 1 else 0)"

text \<open>The hour and minute of a schedule: from two inputs, or from the seconds since the epoch.\<close>

definition schedule_time :: "u64 \<Rightarrow> f64 list \<Rightarrow> u8 \<times> u8" where
  "schedule_time wall inputs =
     (if 2 \<le> length inputs then (f64_to_u8 (inputs ! 0), f64_to_u8 (inputs ! 1))
      else let secs = wall mod 86400 in (ucast (secs div 3600), ucast (secs mod 3600 div 60)))"

definition execute_component :: "instant \<Rightarrow> u64 \<Rightarrow> f64 list \<Rightarrow> component_kind \<Rightarrow> f64 option \<times> component_kind" where
  "execute_component now wall inputs kind =
     (let a = input_at inputs 0; b = input_at inputs 1 in case kind of
        Add2 c \<Rightarrow> let c = c\<lparr>add2_in1 := a, add2_in2 := b\<rparr> in (Some (add2_execute c), Add2 c)
      | Sub2 c \<Rightarrow> let c = c\<lparr>sub2_in1 := a, sub2_in2 := b\<rparr> in (Some (sub2_execute c), Sub2 c)
      | Mul2 c \<Rightarrow> let c = c\<lparr>mul2_in1 := a, mul2_in2 := b\<rparr> in (Some (mul2_execute c), Mul2 c)
      | Div2 c \<Rightarrow> let c = c\<lparr>div2_in1 := a, div2_in2 := b\<rparr> in (Some (div2_execute c), Div2 c)
      | NegKind c \<Rightarrow> let c = c\<lparr>neg_input := a\<rparr> in (Some (neg_execute c), NegKind c)
      | RoundKind c \<Rightarrow> let c = c\<lparr>round_input := a\<rparr> in (Some (round_execute c), RoundKind c)
      | FloatOffset c \<Rightarrow> let c = c\<lparr>offset_input := a\<rparr> in (Some (offset_execute c), FloatOffset c)
      | ConstFloat v \<Rightarrow> (Some v, ConstFloat v)
      | Ramp c \<Rightarrow> let (out, c) = ramp_execute now c in (Some out, Ramp c)
      | Thermostat c \<Rightarrow> let (out, c) = thermostat_execute a c in (Some (of_truth out), Thermostat c)
      | Hysteresis c \<Rightarrow> let (out, c) = hysteresis_execute a c in (Some out, Hysteresis c)
      | DailyScheduleFloat c \<Rightarrow> let (h, m) = schedule_time wall inputs in (Some (schedule_evaluate c h m), DailyScheduleFloat c)
      | DailyScheduleBool c \<Rightarrow>
          let (h, m) = schedule_time wall inputs in (Some (of_truth (bool_schedule_evaluate c h m)), DailyScheduleBool c)
      | DelayOn c \<Rightarrow> let (out, c) = delay_on_execute now (c\<lparr>on_input := truthy a\<rparr>) in (Some (of_truth out), DelayOn c)
      | DelayOff c \<Rightarrow> let (out, c) = delay_off_execute now (c\<lparr>off_input := truthy a\<rparr>) in (Some (of_truth out), DelayOff c)
      | OneShot c \<Rightarrow> let (out, c) = one_shot_execute now (c\<lparr>shot_input := truthy a\<rparr>) in (Some (of_truth out), OneShot c)
      | And2 c \<Rightarrow> let c = c\<lparr>and2_in1 := truthy a, and2_in2 := truthy b\<rparr> in (Some (of_truth (and2_execute c)), And2 c)
      | Or2 c \<Rightarrow> let c = c\<lparr>or2_in1 := truthy a, or2_in2 := truthy b\<rparr> in (Some (of_truth (or2_execute c)), Or2 c)
      | NotKind c \<Rightarrow> let c = c\<lparr>not_input := truthy a\<rparr> in (Some (of_truth (not_execute c)), NotKind c)
      | SRLatch c \<Rightarrow> let (out, c) = sr_execute (c\<lparr>sr_set := truthy a, sr_reset := truthy b\<rparr>) in (Some (of_truth out), SRLatch c))"

text \<open>\<open>match call { Ok(v) \<dots>, Err(e) \<dots> }\<close>.\<close>

definition attempt :: "('s, 'e, 'a) routine \<Rightarrow> ('s, 'f, 'e + 'a) routine" where
  "attempt m = (\<lambda>s. case m s of (Ok v, t) \<Rightarrow> (Ok (Inr v), t) | (Err e, t) \<Rightarrow> (Ok (Inl e), t) | (Panic, t) \<Rightarrow> (Panic, t))"

primrec mapM :: "('a \<Rightarrow> ('s, 'e, 'b) routine) \<Rightarrow> 'a list \<Rightarrow> ('s, 'e, 'b list) routine" where
  "mapM f [] = ret []"
| "mapM f (x # xs) = bnd (f x) (\<lambda>y. bnd (mapM f xs) (\<lambda>ys. ret (y # ys)))"

definition read_input :: "instant \<Rightarrow> 'h hal \<Rightarrow> channel_id \<Rightarrow> ('h, f64) engine_routine" where
  "read_input now H cid = bnd (attempt (channel_read now H cid)) (\<lambda>r. ret (case r of Inr v \<Rightarrow> cur v | Inl _ \<Rightarrow> 0))"

definition read_input_channels :: "instant \<Rightarrow> 'h hal \<Rightarrow> channel_id list \<Rightarrow> ('h, f64 list) engine_routine" where
  "read_input_channels now H = mapM (read_input now H)"

definition write_control :: "instant \<Rightarrow> 'h hal \<Rightarrow> u8 \<Rightarrow> channel_id \<Rightarrow> f64 \<Rightarrow> ('h, unit) engine_routine" where
  "write_control now H level cid v = ignore_error (channel_write_level now H cid level (Some v) ''control'' 0)"

definition stage_value :: "bool list \<Rightarrow> nat \<Rightarrow> f64" where
  "stage_value bits i = of_truth (i < length bits \<and> bits ! i)"

definition write_outputs :: "instant \<Rightarrow> 'h hal \<Rightarrow> control_loop \<Rightarrow> f64 \<Rightarrow> ('h, control_loop) engine_routine" where
  "write_outputs now H l out = (case loop_sequencer l of
      Some s \<Rightarrow> bnd (lift (fst (sequencer_execute out s))) (\<lambda>bits.
        sq (forM (zip [0..<length (output_channels l)] (output_channels l))
             (\<lambda>(i, cid). write_control now H (loop_write_level l) cid (stage_value bits i)))
           (ret (l\<lparr>loop_sequencer := Some (snd (sequencer_execute out s :: (engine_error, bool list) outcome \<times> _))\<rparr>)))
    | None \<Rightarrow> (case output_channels l of
        [] \<Rightarrow> ret l
      | cid # _ \<Rightarrow> sq (write_control now H (loop_write_level l) cid out) (ret l)))"

definition drive_loop :: "instant \<Rightarrow> 'h hal \<Rightarrow> control_loop \<Rightarrow> f64 \<Rightarrow> f64 \<Rightarrow> ('h, control_loop) engine_routine" where
  "drive_loop now H l sp pv =
     bnd (lift (fst (pid_execute sp pv now (loop_pid l)))) (\<lambda>out.
       write_outputs now H (l\<lparr>loop_pid := snd (pid_execute sp pv now (loop_pid l) :: (engine_error, f64) outcome \<times> _)\<rparr>) out)"

definition execute_loop :: "instant \<Rightarrow> 'h hal \<Rightarrow> control_loop \<Rightarrow> ('h, control_loop) engine_routine" where
  "execute_loop now H l =
     (if \<not> loop_enabled l then ret l
      else bnd (attempt (channel_read now H (feedback_channel l))) (\<lambda>r. case r of
        Inl _ \<Rightarrow> ret l
      | Inr pv \<Rightarrow>
          if status pv = StatusOk
          then bnd (attempt (channel_read now H (setpoint_channel l))) (\<lambda>r. case r of
                 Inl _ \<Rightarrow> ret l
               | Inr sp \<Rightarrow> drive_loop now H l (cur sp) (cur pv))
          else ret l))"

definition execute_instance :: "instant \<Rightarrow> u64 \<Rightarrow> 'h hal \<Rightarrow> component_instance \<Rightarrow> ('h, component_instance) engine_routine" where
  "execute_instance now wall H inst =
     (if \<not> comp_enabled inst then ret inst
      else bnd (read_input_channels now H (comp_inputs inst)) (\<lambda>inputs.
        let (out, k) = execute_component now wall inputs (comp_kind inst)
        in sq (case out of Some v \<Rightarrow> write_control now H (comp_write_level inst) (comp_output inst) v | None \<Rightarrow> ret ())
              (ret (inst\<lparr>comp_kind := k\<rparr>))))"

definition control_execute :: "instant \<Rightarrow> u64 \<Rightarrow> 'h hal \<Rightarrow> control_runner \<Rightarrow> ('h, control_runner) engine_routine" where
  "control_execute now wall H r =
     bnd (mapM (execute_loop now H) (runner_loops r)) (\<lambda>ls.
     bnd (mapM (execute_instance now wall H) (runner_components r)) (\<lambda>cs.
       ret \<lparr>runner_loops = ls, runner_components = cs\<rparr>))"

definition loop_count :: "control_runner \<Rightarrow> usize" where
  "loop_count r = length (runner_loops r)"

definition component_count :: "control_runner \<Rightarrow> usize" where
  "component_count r = length (runner_components r)"

definition control_is_empty :: "control_runner \<Rightarrow> bool" where
  "control_is_empty r \<longleftrightarrow> runner_loops r = [] \<and> runner_components r = []"

text \<open>The first loop of the name, or else the first component, is switched.\<close>

fun update_first :: "('a \<Rightarrow> bool) \<Rightarrow> ('a \<Rightarrow> 'a) \<Rightarrow> 'a list \<Rightarrow> 'a list option" where
  "update_first p f [] = None"
| "update_first p f (x # xs) = (if p x then Some (f x # xs) else map_option ((#) x) (update_first p f xs))"

definition set_enabled :: "string \<Rightarrow> bool \<Rightarrow> control_runner \<Rightarrow> bool \<times> control_runner" where
  "set_enabled name on r = (case update_first (\<lambda>l. loop_name l = name) (\<lambda>l. l\<lparr>loop_enabled := on\<rparr>) (runner_loops r) of
      Some ls \<Rightarrow> (True, r\<lparr>runner_loops := ls\<rparr>)
    | None \<Rightarrow> (case update_first (\<lambda>c. comp_name c = name) (\<lambda>c. c\<lparr>comp_enabled := on\<rparr>) (runner_components r) of
        Some cs \<Rightarrow> (True, r\<lparr>runner_components := cs\<rparr>)
      | None \<Rightarrow> (False, r)))"

section \<open>What a cycle keeps\<close>

lemma keeps_attempt [wp]: "keeps I m \<Longrightarrow> keeps I (attempt m)"
  by (auto simp: keeps_def attempt_def split: prod.splits outcome.splits)

lemma keeps_mapM [wp]: "(\<And>x. keeps I (f x)) \<Longrightarrow> keeps I (mapM f xs)"
  by (induction xs) (auto intro!: wp)

lemma keeps_reach: "keeps (engine_reach H) (channel_read now H cid)" "keeps (engine_reach H) (channel_write_level now H cid level v who d)"
  unfolding keeps_def by (auto intro: reach_read reach_level prod.collapse [symmetric])

lemma keeps_write_control: "keeps (engine_reach H) (write_control now H level cid v)"
  unfolding write_control_def by (intro wp keeps_reach)

lemma keeps_execute_loop: "keeps (engine_reach H) (execute_loop now H l)"
  unfolding execute_loop_def drive_loop_def write_outputs_def
  by (auto intro!: wp keeps_reach keeps_write_control split: list.splits prod.splits)

lemma keeps_execute_instance: "keeps (engine_reach H) (execute_instance now wall H c)"
  unfolding execute_instance_def read_input_channels_def read_input_def
  by (auto intro!: wp keeps_reach keeps_write_control split: prod.splits)

lemma keeps_control_execute: "keeps (engine_reach H) (control_execute now wall H r)"
  unfolding control_execute_def by (intro wp keeps_execute_loop keeps_execute_instance)

text \<open>A routine without an error result: it returns or panics, and what it returns satisfies a property.\<close>

definition returns :: "('a \<Rightarrow> bool) \<Rightarrow> ('s, 'e, 'a) routine \<Rightarrow> bool" where
  "returns Q m \<longleftrightarrow> (\<forall>s. case fst (m s) of Ok a \<Rightarrow> Q a | Err _ \<Rightarrow> False | Panic \<Rightarrow> True)"

lemma returns_bnd:
  assumes "returns P m" "\<And>a. P a \<Longrightarrow> returns Q (f a)"
  shows "returns Q (bnd m f)"
  unfolding returns_def
proof
  fix s
  obtain r t where m: "m s = (r, t)" by force
  with assms show "case fst (bnd m f s) of Ok a \<Rightarrow> Q a | Err _ \<Rightarrow> False | Panic \<Rightarrow> True"
    by (cases r) (auto simp: returns_def bnd_def dest: spec [of _ s])
qed

lemma returns_sq: "returns (\<lambda>_. True) m \<Longrightarrow> returns Q n \<Longrightarrow> returns Q (sq m n)"
  unfolding sq_def by (rule returns_bnd)

lemma returns_basic: "Q a \<Longrightarrow> returns Q (ret a)" "returns (\<lambda>_. True) (ignore_error m)" "returns (\<lambda>_. True) (attempt m)"
  by (auto simp: returns_def ret_def ignore_error_def attempt_def split: prod.splits outcome.splits)

lemma returns_lift: "(\<And>e. r \<noteq> Err e) \<Longrightarrow> returns (\<lambda>_. True) (lift r)"
  by (auto simp: returns_def lift_def split: outcome.splits)

lemma returns_forM: "(\<And>x. returns (\<lambda>_. True) (f x)) \<Longrightarrow> returns (\<lambda>_. True) (forM xs f)"
  by (induction xs) (auto intro!: returns_sq returns_basic)

lemma returns_mapM: "(\<And>x. returns (Q x) (f x)) \<Longrightarrow> returns (list_all2 Q xs) (mapM f xs)"
  by (induction xs) (auto intro!: returns_bnd returns_basic)

lemma returns_modify: "returns (\<lambda>_. True) (modify f)" "(\<And>s e. q s \<noteq> Err e) \<Longrightarrow> returns (\<lambda>_. True) (query q)"
  by (auto simp: returns_def modify_def query_def split: outcome.splits)

lemma returns_state: "(\<And>s. \<exists>n. m s = n s \<and> returns Q n) \<Longrightarrow> returns Q m"
  unfolding returns_def by metis

lemma returns_if_state:
  "(\<And>s. returns Q (m s)) \<Longrightarrow> (\<And>s. returns Q (n s)) \<Longrightarrow> returns Q (\<lambda>s. if b s then m s s else n s s)"
  by (auto simp: returns_def)

lemmas returns_rules = returns_bnd returns_sq returns_basic returns_lift returns_modify returns_forM

lemma clamp_no_error [simp]: "clamp64 x lo hi \<noteq> Err e"
  by (simp add: clamp64_def)

lemma limit_output_no_error [simp]: "limit_output x c \<noteq> Err e"
  by (auto simp: limit_output_def clamp64_def Let_def)

lemma returns_no_error: "returns Q m \<Longrightarrow> fst (m s) \<noteq> Err e"
  by (auto simp: returns_def dest: spec [of _ s])

lemma pid_execute_no_error: "fst (pid_execute sp pv now c) \<noteq> Err e"
proof -
  have start: "returns (\<lambda>_. True) (pid_start t)" for t
    unfolding pid_start_def
    by (rule returns_sq [OF returns_modify(1)], rule returns_if_state) (auto intro!: returns_rules)
  have int: "returns (\<lambda>_. True) (integrate err dt)" for err dt
    unfolding integrate_def by (rule returns_if_state) (auto intro!: returns_rules)
  have cycle: "returns (\<lambda>_. True) (pid_cycle sp pv now dt)" for dt
    unfolding pid_cycle_def Let_def
  proof (rule returns_state, intro exI conjI)
    show "returns (\<lambda>_. True) (sq (integrate (control_error sp pv c) dt)
       (bnd (query (\<lambda>c. limit_output (pid_sum (control_error sp pv d) dt c) c)) (\<lambda>new.
         sq (modify (\<lambda>c. c\<lparr>last_error := control_error sp pv f, last_exec := Some now, pid_output := new\<rparr>)) (ret new))))" for c d f
      by (auto intro!: returns_rules int)
  qed simp
  have "\<exists>n. pid_execute sp pv now c = n c \<and> returns (\<lambda>_. True) n" for c
    using start cycle returns_basic(1) [of "\<lambda>_. True" "pid_output c"] unfolding pid_execute_def Let_def by metis
  then have "returns (\<lambda>_. True) (pid_execute sp pv now)" by (rule returns_state)
  then show ?thesis by (rule returns_no_error)
qed

lemma sequencer_no_error: "fst (sequencer_execute x s) \<noteq> Err e"
proof -
  have "returns (\<lambda>_. True) (sequence_stage x i)" for i
    unfolding sequence_stage_def by (auto simp: returns_def set_stage_def ret_def)
  then have "returns (\<lambda>_. True) (sequencer_execute x)"
    unfolding sequencer_execute_def by (intro returns_if_state) (auto intro!: returns_rules)
  then show ?thesis by (rule returns_no_error)
qed

text \<open>What a cycle may change of a loop and of a component: the state of its blocks.\<close>

definition same_wiring :: "control_loop \<Rightarrow> control_loop \<Rightarrow> bool" where
  "same_wiring l l' \<longleftrightarrow> l' = l\<lparr>loop_pid := loop_pid l', loop_sequencer := loop_sequencer l'\<rparr>"

definition same_instance :: "component_instance \<Rightarrow> component_instance \<Rightarrow> bool" where
  "same_instance c c' \<longleftrightarrow> c' = c\<lparr>comp_kind := comp_kind c'\<rparr>"

lemma execute_loop_returns: "returns (same_wiring l) (execute_loop now H l)"
proof -
  have out: "returns (same_wiring l) (write_outputs now H (l\<lparr>loop_pid := p\<rparr>) x)" for p x
    unfolding write_outputs_def write_control_def
    by (auto intro!: returns_bnd [OF returns_lift] returns_sq returns_forM returns_basic
        simp: sequencer_no_error same_wiring_def split: option.splits list.splits prod.splits)
  show ?thesis unfolding execute_loop_def drive_loop_def
    by (auto intro!: returns_bnd [OF returns_basic(3)] returns_bnd [OF returns_lift] returns_basic out
        simp: pid_execute_no_error same_wiring_def split: sum.splits)
qed

lemma execute_instance_returns: "returns (same_instance c) (execute_instance now wall H c)"
proof -
  have "returns (\<lambda>_. True) (read_input now H cid)" for cid
    unfolding read_input_def by (auto intro!: returns_bnd [OF returns_basic(3)] returns_basic)
  then have "returns (\<lambda>_. True) (read_input_channels now H cids)" for cids
    unfolding read_input_channels_def
    using returns_mapM [of "\<lambda>_ _. True" "read_input now H" cids] by (auto simp: returns_def split: outcome.splits)
  then show ?thesis unfolding execute_instance_def write_control_def
    by (auto intro!: returns_bnd returns_sq returns_basic simp: same_instance_def split: prod.splits option.splits)
qed

section \<open>A loop from the sensor to the output\<close>

lemma execute_loop_fault:
  assumes "loop_enabled l" "channel_read now H (feedback_channel l) e = (r, e1)" "r \<noteq> Panic"
    and "\<And>v. r = Ok v \<Longrightarrow> status v \<noteq> StatusOk"
  shows "execute_loop now H l e = (Ok l, e1)"
  using assms by (cases r) (simp_all add: execute_loop_def attempt_def bnd_def ret_def)

lemma execute_loop_drives:
  assumes "engine_reach H e" "loop_enabled l" "loop_sequencer l = None" "output_channels l = cid # rest" "1 \<le> loop_write_level l" "loop_write_level l \<le> 17"
    and "channel_read now H (feedback_channel l) e = (Ok pv, e1)" "status pv = StatusOk"
    and "channel_read now H (setpoint_channel l) e1 = (Ok sp, e2)"
    and "pid_execute (cur sp) (cur pv) now (loop_pid l) = (Ok out :: (engine_error, f64) outcome, p)"
    and "channel_get (channels e2) cid = Some ch" "is_output (chan_direction ch)" "enabled ch" "chan_type ch = Pwm"
    and "\<And>x. revert (conv ch) (tables_of e2) (level_request x) = (Ok (reverted x) :: (engine_error, _) outcome)"
  shows "\<exists>pa' e3. execute_loop now H l e = (Ok (l\<lparr>loop_pid := p\<rparr>), e3) \<and>
    Option.bind (channel_get (channels e3) cid) priorities = Some pa' \<and>
    level_values pa' = (level_values (or_else (priorities ch) default_array))[unat (loop_write_level l - 1) := Some out] \<and>
    hardware e3 = (case fst (spec_effective pa') of None \<Rightarrow> hardware e2
      | Some x \<Rightarrow> snd (write_pwm H (device ch) (address ch) (raw (reverted x)) (hardware e2)))"
proof -
  have "engine_reach H e2" using assms(1,7,9) by (blast intro: reach_read)
  moreover have "deadline now (Some out) 0 = (Ok None :: (engine_error, instant option) outcome)" by (simp add: deadline_def float_eval)
  ultimately obtain w pa' e3 where w: "channel_write_level now H cid (loop_write_level l) (Some out) ''control'' 0 e2 = (Ok w, e3)"
    "Option.bind (channel_get (channels e3) cid) priorities = Some pa'"
    "level_values pa' = (level_values (or_else (priorities ch) default_array))[unat (loop_write_level l - 1) := Some out]"
    "(effective_value w, effective_level w) = spec_effective pa'"
    "hardware e3 = (case effective_value w of None \<Rightarrow> hardware e2
      | Some x \<Rightarrow> snd (write_pwm H (device ch) (address ch) (raw (reverted x)) (hardware e2)))"
    using write_level_effect [OF _ assms(11-14,5,6) _ assms(15)] by blast
  have "execute_loop now H l e = (Ok (l\<lparr>loop_pid := p\<rparr>), e3)"
    using assms(2-4,7-10) w(1)
    by (simp add: execute_loop_def attempt_def bnd_def ret_def drive_loop_def lift_def write_outputs_def sq_def write_control_def ignore_error_def)
  moreover have "effective_value w = fst (spec_effective pa')" using w(4) by (metis fst_conv)
  ultimately show ?thesis using w(2,3,5) by auto
qed

section \<open>What loading accepts\<close>

lemma build_loops_ok:
  "build_loops lcs = Ok ls \<longleftrightarrow> (\<forall>lc\<in>set lcs. 1 \<le> lc_write_level lc \<and> lc_write_level lc \<le> 17) \<and>
     ls = map build_loop (filter (\<lambda>lc. lc_output_channels lc \<noteq> []) lcs)"
proof (induction lcs arbitrary: ls)
  case (Cons lc lcs)
  have lvl: "(lc_write_level lc = 0 \<or> lc_write_level lc > 17) \<longleftrightarrow> \<not> (1 \<le> lc_write_level lc \<and> lc_write_level lc \<le> 17)"
    by (auto simp: word_le_nat_alt word_less_nat_alt unat_eq_0 [symmetric] not_le)
  show ?case unfolding build_loops.simps lvl by (auto simp: Cons bindO_Ok_iff)
qed auto

lemma build_components_ok:
  "build_components ccs = Ok cs \<Longrightarrow> list_all2 (\<lambda>cc c. 1 \<le> comp_write_level c \<and> comp_write_level c \<le> 17 \<and>
     comp_write_level c = cc_write_level cc \<and> build_component_kind cc = Ok (comp_kind c) \<and> comp_inputs c = cc_input_channels cc \<and>
     comp_output c = cc_output_channel cc \<and> comp_enabled c) ccs cs"
proof (induction ccs arbitrary: cs)
  case (Cons cc ccs)
  have lvl: "(cc_write_level cc = 0 \<or> cc_write_level cc > 17) \<longleftrightarrow> \<not> (1 \<le> cc_write_level cc \<and> cc_write_level cc \<le> 17)"
    by (auto simp: word_le_nat_alt word_less_nat_alt unat_eq_0 [symmetric] not_le)
  show ?case using Cons unfolding build_components.simps lvl by (auto simp: bindO_Ok_iff split: if_splits)
qed simp

section \<open>Properties\<close>


text \<open>An engine with a virtual channel and a PWM output, and a loop of one controller that follows the first and drives the second.\<close>

definition plant_sensor :: channel where
  "plant_sensor = channel_new 3001 VirtualAnalog DirOut 0 0 False default_conv ''SP''"

definition plant_engine :: "f64 engine" where
  "plant_engine = (engine_new 0)\<lparr>channels := [(2001, pwm_channel), (3001, plant_sensor)]\<rparr>"

definition plant_loop :: control_loop where
  "plant_loop = \<lparr>loop_name = ''zone'', feedback_channel = 3001, setpoint_channel = 3001, output_channels = [2001], loop_write_level = 8,
     loop_pid = pid_new, loop_sequencer = None, enable_query = None, loop_enabled = True\<rparr>"

definition plant_read :: "f64 engine" where
  "plant_read = plant_engine\<lparr>channels := channel_put 3001 (plant_sensor\<lparr>chan_value := default_value\<lparr>cur := 0, status := StatusOk,
     flags := flags default_value OR FLAG_CUR\<rparr>\<rparr>) (channels plant_engine)\<rparr>"

lemma plant_engine_reach: "engine_reach pwm_hal plant_engine"
proof -
  have "channel_add plant_sensor (channels pwm_engine) = (Ok (), [(2001, pwm_channel), (3001, plant_sensor)])"
    by (simp add: channel_add_def pwm_engine_def plant_sensor_def channel_new_def)
  from reach_add [OF pwm_engine_reach this [unfolded plant_sensor_def]]
  show ?thesis by (simp add: plant_engine_def plant_sensor_def pwm_engine_def)
qed

lemma plant_reads:
  "channel_read 0 pwm_hal 3001 plant_engine = (Ok (default_value\<lparr>cur := 0, status := StatusOk, flags := flags default_value OR FLAG_CUR\<rparr>), plant_read)"
  "channel_read 0 pwm_hal 3001 plant_read = (Ok (default_value\<lparr>cur := 0, status := StatusOk, flags := flags default_value OR FLAG_CUR\<rparr>), plant_read)"
  by (simp_all add: channel_read_def read_pipeline_def try_i2c_recovery_def run_simps plant_read_def plant_engine_def channel_get_def channel_put_def
      plant_sensor_def channel_new_def is_virtual_def read_virtual_def has_written_value_def Let_def lift_def query_def)

lemma plant_pid: "pid_execute sp pv 0 pid_new = (Ok (lit 50 1) :: (engine_error, f64) outcome, snd (pid_execute sp pv 0 pid_new :: (engine_error, f64) outcome \<times> _))"
  by (simp add: pid_execute_def pid_new_def pid_start_def run_simps lift_def clamp64_def float_eval)



lemma plant_reverts:
  "revert (conv pwm_channel) (tables_of e) (level_request x) =
     (Ok ((level_request x)\<lparr>status := StatusOk, raw := mul64 x (sub64 (lit 1 1) 0), flags := FLAG_CUR OR FLAG_RAW\<rparr>) :: (engine_error, _) outcome)"
  by (simp add: pwm_channel_def channel_new_def revert_def default_conv_def or_else_def level_request_def set_cur_def default_value_def)

lemma plant_output:
  "channel_get (channels plant_read) 2001 = Some pwm_channel" "is_output (chan_direction pwm_channel)" "enabled pwm_channel"
  "chan_type pwm_channel = Pwm" "priorities pwm_channel = None"
  by (simp_all add: plant_read_def plant_engine_def channel_get_def channel_put_def pwm_channel_def channel_new_def is_output_def)


text \<open>Loading accepts exactly the valid control configurations: when it succeeds, the file was read and parsed, every write level
  is between 1 and 17, the runner has the loops of the file that have outputs, in order, each with a fresh controller of its configuration and one
  sequencer stage per output up to 16, and the components of the file, in order, with the blocks of their types.\<close>

theorem control_load_valid:
  assumes "control_load fs parse_toml file = Ok r"
  shows "\<exists>content cfg. fs file = Inr content \<and> parse_toml content = Inr cfg \<and>
    (\<forall>lc\<in>set (toml_loops cfg). 1 \<le> lc_write_level lc \<and> lc_write_level lc \<le> 17) \<and>
    runner_loops r = map build_loop (filter (\<lambda>lc. lc_output_channels lc \<noteq> []) (toml_loops cfg)) \<and>
    (\<forall>l\<in>set (runner_loops r). pid_output (loop_pid l) = 0 \<and> integral (loop_pid l) = 0 \<and>
      (\<forall>s. loop_sequencer l = Some s \<longrightarrow> length (stages s) = min 16 (length (output_channels l)))) \<and>
    list_all2 (\<lambda>cc c. 1 \<le> comp_write_level c \<and> comp_write_level c \<le> 17 \<and> comp_write_level c = cc_write_level cc \<and>
      build_component_kind cc = Ok (comp_kind c) \<and> comp_inputs c = cc_input_channels cc \<and>
      comp_output c = cc_output_channel cc \<and> comp_enabled c) (toml_components cfg) (runner_components r)"
proof -
  obtain content cfg ls cs where c: "fs file = Inr content" "parse_toml content = Inr cfg" "build_loops (toml_loops cfg) = Ok ls"
    "build_components (toml_components cfg) = Ok cs" "r = \<lparr>runner_loops = ls, runner_components = cs\<rparr>"
    using assms by (auto simp: control_load_def bindO_Ok_iff split: sum.splits)
  have fresh: "pid_output (loop_pid (build_loop lc)) = 0 \<and> integral (loop_pid (build_loop lc)) = 0 \<and>
      (\<forall>s. loop_sequencer (build_loop lc) = Some s \<longrightarrow> length (stages s) = min 16 (length (output_channels (build_loop lc))))"
    if "lc_output_channels lc \<noteq> []" for lc
    using that by (auto simp: build_loop_def pid_from_config_def pid_new_def sequencer_new_def clamp_stages_def MAX_STAGES_def max_def Suc_le_eq)
  show ?thesis using c build_loops_ok [of "toml_loops cfg" ls] build_components_ok [OF c(4)] fresh
    by (intro exI [of _ content] exI [of _ cfg]) auto
qed

text \<open>A configuration with one loop of two staged outputs and a component that holds a constant.\<close>

definition zone_config :: loop_config where
  "zone_config = \<lparr>lc_name = ''zone'', lc_feedback_channel = 1100, lc_setpoint_channel = 3001, lc_output_channels = [2001, 2002], lc_write_level = 8,
     lc_pid = \<lparr>cfg_kp = lit 1 1, cfg_ki = 0, cfg_kd = 0, cfg_min = 0, cfg_max = lit 100 1, cfg_bias = lit 50 1, cfg_max_delta = 0,
       cfg_direct = True, cfg_exec_interval_ms = 1000\<rparr>,
     lc_sequencer = Some \<lparr>cfg_hysteresis = lit 1 2\<rparr>, lc_enable_query = None\<rparr>"

definition constant_config :: component_config where
  "constant_config = \<lparr>cc_name = ''c'', cc_type = ''const_float'', cc_input_channels = [], cc_output_channel = 2003, cc_write_level = 16,
     cc_value = Some (lit 1 1), cc_min = None, cc_max = None, cc_period_ms = None, cc_delay_ms = None, cc_duration_ms = None, cc_setpoint = None,
     cc_deadband = None, cc_heating = None, cc_rising_threshold = None, cc_falling_threshold = None, cc_high_value = None, cc_low_value = None,
     cc_default_value = None, cc_entries = None, cc_bool_entries = None, cc_offset = None, cc_decimals = None\<rparr>"

theorem control_load_valid_witness:
  "\<exists>r. control_load (\<lambda>_. Inr []) (\<lambda>_. Inr \<lparr>toml_loops = [zone_config], toml_components = [constant_config]\<rparr>) ''control.toml'' = Ok r \<and>
     runner_loops r = [build_loop zone_config] \<and> (\<forall>s. loop_sequencer (build_loop zone_config) = Some s \<longrightarrow> length (stages s) = 2)"
proof -
  let ?load = "control_load (\<lambda>_. Inr []) (\<lambda>_. Inr \<lparr>toml_loops = [zone_config], toml_components = [constant_config]\<rparr>) ''control.toml''"
  have "?load = Ok (case ?load of Ok r \<Rightarrow> r)"
    by (simp add: control_load_def zone_config_def constant_config_def build_component_kind_def)
  from control_load_valid [OF this] this
  have "\<exists>r. ?load = Ok r \<and> runner_loops r = [build_loop zone_config] \<and>
    (\<forall>s. loop_sequencer (build_loop zone_config) = Some s \<longrightarrow> length (stages s) = min 16 (length (output_channels (build_loop zone_config))))"
    by (auto simp: zone_config_def)
  moreover have "min 16 (length (output_channels (build_loop zone_config))) = 2" by (simp add: build_loop_def zone_config_def)
  ultimately show ?thesis by (simp only:)
qed

end
