(* ===== verification/Sox_Protocol.thy ===== *)
theory Sox_Protocol
  imports Wire
begin

text \<open>
  The message layer of the Sedona object protocol (\<open>sox/sox_protocol.rs\<close>): command codes and value types, requests, the response
  builder and the payload reader. Both sides agree on the encoding of every field, which is the locale \<open>wire_field\<close>; a response
  that is read field by field gives back what was written.
\<close>

section \<open>Commands\<close>

datatype sox_cmd =
  ReadSchema | ReadVersion | ReadComp | ReadProp | LinkCmd | Subscribe | Unsubscribe | WriteCmd | Invoke | AddCmd | Delete | Rename | Reorder
| FileOpen | FileRead | FileWrite | FileClose | FileRename | EventCmd

fun cmd_byte :: "sox_cmd \<Rightarrow> u8" where
  "cmd_byte ReadSchema = of_char CHR ''v''"
| "cmd_byte ReadVersion = of_char CHR ''y''"
| "cmd_byte ReadComp = of_char CHR ''c''"
| "cmd_byte ReadProp = of_char CHR ''r''"
| "cmd_byte LinkCmd = of_char CHR ''l''"
| "cmd_byte Subscribe = of_char CHR ''s''"
| "cmd_byte Unsubscribe = of_char CHR ''u''"
| "cmd_byte WriteCmd = of_char CHR ''w''"
| "cmd_byte Invoke = of_char CHR ''i''"
| "cmd_byte AddCmd = of_char CHR ''a''"
| "cmd_byte Delete = of_char CHR ''d''"
| "cmd_byte Rename = of_char CHR ''n''"
| "cmd_byte Reorder = of_char CHR ''o''"
| "cmd_byte FileOpen = of_char CHR ''f''"
| "cmd_byte FileRead = of_char CHR ''g''"
| "cmd_byte FileWrite = of_char CHR ''h''"
| "cmd_byte FileClose = of_char CHR ''z''"
| "cmd_byte FileRename = of_char CHR ''b''"
| "cmd_byte EventCmd = of_char CHR ''e''"

definition cmd_from_byte :: "u8 \<Rightarrow> sox_cmd option" where
  "cmd_from_byte b =
     (if b = of_char CHR ''v'' then Some ReadSchema
      else if b = of_char CHR ''y'' then Some ReadVersion
      else if b = of_char CHR ''c'' then Some ReadComp
      else if b = of_char CHR ''r'' then Some ReadProp
      else if b = of_char CHR ''l'' then Some LinkCmd
      else if b = of_char CHR ''s'' then Some Subscribe
      else if b = of_char CHR ''u'' then Some Unsubscribe
      else if b = of_char CHR ''w'' then Some WriteCmd
      else if b = of_char CHR ''k'' \<or> b = of_char CHR ''i'' then Some Invoke
      else if b = of_char CHR ''a'' then Some AddCmd
      else if b = of_char CHR ''d'' then Some Delete
      else if b = of_char CHR ''n'' then Some Rename
      else if b = of_char CHR ''o'' then Some Reorder
      else if b = of_char CHR ''f'' then Some FileOpen
      else if b = of_char CHR ''g'' then Some FileRead
      else if b = of_char CHR ''h'' then Some FileWrite
      else if b = of_char CHR ''z'' \<or> b = of_char CHR ''q'' then Some FileClose
      else if b = of_char CHR ''b'' then Some FileRename
      else if b = of_char CHR ''e'' then Some EventCmd
      else None)"

text \<open>\<open>u8::to_ascii_uppercase\<close> of the standard library.\<close>

definition to_ascii_uppercase :: "u8 \<Rightarrow> u8" where
  "to_ascii_uppercase b = (if of_char CHR ''a'' \<le> b \<and> b \<le> of_char CHR ''z'' then b - 32 else b)"

definition response_byte :: "sox_cmd \<Rightarrow> u8" where
  "response_byte c = to_ascii_uppercase (cmd_byte c)"

definition error_byte :: u8 where
  "error_byte = of_char CHR ''!''"

section \<open>Value types\<close>

datatype sox_value_type = TVoid | TBool | TByte | TShort | TInt | TLong | TFloat | TDouble | TBuf

fun value_type_byte :: "sox_value_type \<Rightarrow> u8" where
  "value_type_byte TVoid = 0"
| "value_type_byte TBool = 1"
| "value_type_byte TByte = 2"
| "value_type_byte TShort = 3"
| "value_type_byte TInt = 4"
| "value_type_byte TLong = 5"
| "value_type_byte TFloat = 6"
| "value_type_byte TDouble = 7"
| "value_type_byte TBuf = 8"

definition value_type_from_byte :: "u8 \<Rightarrow> sox_value_type option" where
  "value_type_from_byte b =
     (if b = 0 then Some TVoid else if b = 1 then Some TBool else if b = 2 then Some TByte else if b = 3 then Some TShort
      else if b = 4 then Some TInt else if b = 5 then Some TLong else if b = 6 then Some TFloat else if b = 7 then Some TDouble
      else if b = 8 then Some TBuf else None)"

section \<open>Requests and responses\<close>

record sox_request =
  req_cmd :: sox_cmd
  req_id :: u8
  req_payload :: "u8 list"

definition request_parse :: "u8 list \<Rightarrow> sox_request option" where
  "request_parse data = (case data of
      b # i # payload \<Rightarrow> map_option (\<lambda>c. \<lparr>req_cmd = c, req_id = i, req_payload = payload\<rparr>) (cmd_from_byte b)
    | _ \<Rightarrow> None)"

record sox_response =
  resp_cmd :: u8
  resp_id :: u8
  resp_payload :: "u8 list"

definition response_success :: "sox_cmd \<Rightarrow> u8 \<Rightarrow> sox_response" where
  "response_success c i = \<lparr>resp_cmd = response_byte c, resp_id = i, resp_payload = []\<rparr>"

definition response_error :: "sox_cmd \<Rightarrow> u8 \<Rightarrow> sox_response" where
  "response_error c i = \<lparr>resp_cmd = error_byte, resp_id = i, resp_payload = []\<rparr>"

definition write_bytes :: "u8 list \<Rightarrow> sox_response \<Rightarrow> sox_response" where
  "write_bytes bs r = r\<lparr>resp_payload := resp_payload r @ bs\<rparr>"

definition write_u8 :: "u8 \<Rightarrow> sox_response \<Rightarrow> sox_response" where
  "write_u8 v r = r\<lparr>resp_payload := resp_payload r @ [v]\<rparr>"

definition write_u16 :: "u16 \<Rightarrow> sox_response \<Rightarrow> sox_response" where
  "write_u16 v = write_bytes (to_be 2 v)"

definition write_u32 :: "u32 \<Rightarrow> sox_response \<Rightarrow> sox_response" where
  "write_u32 v = write_bytes (to_be 4 v)"

definition write_i32 :: "i32 \<Rightarrow> sox_response \<Rightarrow> sox_response" where
  "write_i32 v = write_bytes (to_be 4 v)"

text \<open>Floats are their bit patterns.\<close>

definition write_f32 :: "u32 \<Rightarrow> sox_response \<Rightarrow> sox_response" where
  "write_f32 v = write_bytes (to_be 4 v)"

definition write_f64 :: "u64 \<Rightarrow> sox_response \<Rightarrow> sox_response" where
  "write_f64 v = write_bytes (to_be 8 v)"

definition write_str :: "u8 list \<Rightarrow> sox_response \<Rightarrow> sox_response" where
  "write_str s r = write_u8 0 (write_bytes s r)"

definition response_bytes :: "sox_response \<Rightarrow> u8 list" where
  "response_bytes r = resp_cmd r # resp_id r # resp_payload r"

section \<open>The payload reader\<close>

record sox_reader =
  rd_data :: "u8 list"
  rd_pos :: usize

definition reader_new :: "u8 list \<Rightarrow> sox_reader" where
  "reader_new data = \<lparr>rd_data = data, rd_pos = 0\<rparr>"

definition remaining :: "sox_reader \<Rightarrow> usize" where
  "remaining r = length (rd_data r) - rd_pos r"

text \<open>A read that finds too few bytes is \<open>None\<close> and leaves the position; the sum of position and length may overflow.\<close>

definition read_bytes :: "usize \<Rightarrow> (sox_reader, unit, u8 list) routine" where
  "read_bytes n r =
     (if rd_pos r + n \<ge> usize_bound then (Panic, r)
      else if rd_pos r + n \<le> length (rd_data r)
      then (Ok (take n (drop (rd_pos r) (rd_data r))), r\<lparr>rd_pos := rd_pos r + n\<rparr>)
      else (Err (), r))"

definition read_u8 :: "(sox_reader, unit, u8) routine" where
  "read_u8 r = (if rd_pos r < length (rd_data r) then (Ok (rd_data r ! rd_pos r), r\<lparr>rd_pos := rd_pos r + 1\<rparr>) else (Err (), r))"

definition read_u16 :: "(sox_reader, unit, u16) routine" where
  "read_u16 = bnd (read_bytes 2) (\<lambda>bs. ret (from_be bs))"

definition read_u32 :: "(sox_reader, unit, u32) routine" where
  "read_u32 = bnd (read_bytes 4) (\<lambda>bs. ret (from_be bs))"

definition read_i32 :: "(sox_reader, unit, i32) routine" where
  "read_i32 = bnd (read_bytes 4) (\<lambda>bs. ret (from_be bs))"

definition read_f32 :: "(sox_reader, unit, u32) routine" where
  "read_f32 = read_u32"

definition read_f64 :: "(sox_reader, unit, u64) routine" where
  "read_f64 = bnd (read_bytes 8) (\<lambda>bs. ret (from_be bs))"

text \<open>The scan for the terminating zero. Without one the reader ends behind the data.\<close>

function scan_str :: "usize \<Rightarrow> sox_reader \<Rightarrow> (unit, u8 list) outcome \<times> sox_reader" where
  "scan_str start r =
     (if rd_pos r < length (rd_data r)
      then if rd_data r ! rd_pos r = 0
           then (Ok (utf8_lossy (take (rd_pos r - start) (drop start (rd_data r)))), r\<lparr>rd_pos := rd_pos r + 1\<rparr>)
           else scan_str start (r\<lparr>rd_pos := rd_pos r + 1\<rparr>)
      else (Err (), r))"
  by auto

termination
  by (relation "measure (\<lambda>(_, r). length (rd_data r) - rd_pos r)") auto

declare scan_str.simps [simp del]

definition read_str :: "(sox_reader, unit, u8 list) routine" where
  "read_str r = scan_str (rd_pos r) r"

section \<open>Fields on the wire\<close>

lemma response_bytes_simps [simp]:
  "resp_payload (write_bytes bs r) = resp_payload r @ bs" "resp_payload (write_u8 v r) = resp_payload r @ [v]"
  "resp_cmd (write_bytes bs r) = resp_cmd r" "resp_cmd (write_u8 v r) = resp_cmd r"
  "resp_id (write_bytes bs r) = resp_id r" "resp_id (write_u8 v r) = resp_id r"
  by (simp_all add: write_bytes_def write_u8_def)

lemma write_bytes_append: "write_bytes ys (write_bytes xs r) = write_bytes (xs @ ys) r"
  by (simp add: write_bytes_def)

lemma read_bytes_at:
  "length pre + length bs < usize_bound \<Longrightarrow>
   read_bytes (length bs) \<lparr>rd_data = pre @ bs @ post, rd_pos = length pre\<rparr> =
     (Ok bs, \<lparr>rd_data = pre @ bs @ post, rd_pos = length pre + length bs\<rparr>)"
  by (simp add: read_bytes_def)

lemma read_word_at:
  assumes "length pre + n < usize_bound" "LENGTH('n) = 8 * n"
  shows "bnd (read_bytes n) (\<lambda>bs. ret (from_be bs)) \<lparr>rd_data = pre @ to_be n (w :: 'n::len word) @ post, rd_pos = length pre\<rparr> =
    (Ok w, \<lparr>rd_data = pre @ to_be n w @ post, rd_pos = length pre + n\<rparr>)"
  using read_bytes_at [of pre "to_be n w" post] assms by (simp add: ret_def from_be_to_be)

text \<open>What a writer of the response and a reader of the payload promise each other: the writer appends the encoding of a value, and
  the reader finds the value where its encoding stands, and ends behind it.\<close>

locale wire_field =
  fixes wr :: "'a \<Rightarrow> sox_response \<Rightarrow> sox_response"
    and rd :: "(sox_reader, unit, 'b) routine"
    and enc :: "'a \<Rightarrow> u8 list"
    and dec :: "'a \<Rightarrow> 'b"
    and fits :: "'a \<Rightarrow> bool"
  assumes wr_appends: "wr a r = write_bytes (enc a) r"
    and rd_finds: "fits a \<Longrightarrow> length pre + length (enc a) < usize_bound \<Longrightarrow>
      rd \<lparr>rd_data = pre @ enc a @ post, rd_pos = length pre\<rparr> = (Ok (dec a), \<lparr>rd_data = pre @ enc a @ post, rd_pos = length pre + length (enc a)\<rparr>)"
begin

lemma rd_after_wr:
  assumes "fits a" "length (resp_payload (wr a r)) < usize_bound"
  shows "rd \<lparr>rd_data = resp_payload (wr a r) @ post, rd_pos = length (resp_payload r)\<rparr> =
    (Ok (dec a), \<lparr>rd_data = resp_payload (wr a r) @ post, rd_pos = length (resp_payload (wr a r))\<rparr>)"
  using rd_finds [OF assms(1), of "resp_payload r" post] assms(2) by (simp add: wr_appends)

lemma wr_header [simp]: "resp_cmd (wr a r) = resp_cmd r" "resp_id (wr a r) = resp_id r"
  by (simp_all add: wr_appends)

end

interpretation field_u8: wire_field write_u8 read_u8 "\<lambda>v. [v]" "\<lambda>v. v" "\<lambda>_. True"
  by unfold_locales (simp_all add: write_u8_def write_bytes_def read_u8_def)

interpretation field_u16: wire_field write_u16 read_u16 "to_be 2" "\<lambda>v. v" "\<lambda>_. True"
  by unfold_locales (simp_all add: write_u16_def read_u16_def read_word_at)

interpretation field_u32: wire_field write_u32 read_u32 "to_be 4" "\<lambda>v. v" "\<lambda>_. True"
  by unfold_locales (simp_all add: write_u32_def read_u32_def read_word_at)

interpretation field_i32: wire_field write_i32 read_i32 "to_be 4" "\<lambda>v. v" "\<lambda>_. True"
  by unfold_locales (simp_all add: write_i32_def read_i32_def read_word_at)

interpretation field_f32: wire_field write_f32 read_f32 "to_be 4" "\<lambda>v. v" "\<lambda>_. True"
  by unfold_locales (simp_all add: write_f32_def read_f32_def read_u32_def read_word_at)

interpretation field_f64: wire_field write_f64 read_f64 "to_be 8" "\<lambda>v. v" "\<lambda>_. True"
  by unfold_locales (simp_all add: write_f64_def read_f64_def read_word_at)

lemma scan_str_finds:
  "0 \<notin> set s \<Longrightarrow> start \<le> length pre \<Longrightarrow>
   scan_str start \<lparr>rd_data = pre @ s @ 0 # post, rd_pos = length pre\<rparr> =
     (Ok (utf8_lossy (drop start pre @ s)), \<lparr>rd_data = pre @ s @ 0 # post, rd_pos = Suc (length pre + length s)\<rparr>)"
proof (induction s arbitrary: pre)
  case Nil
  then show ?case by (subst scan_str.simps) (simp add: nth_append)
next
  case (Cons b s)
  from Cons.IH [of "pre @ [b]"] Cons.prems show ?case by (subst scan_str.simps) (simp add: nth_append)
qed

text \<open>A text that contains a zero byte is cut there; one that is not UTF-8 comes back with replacement characters.\<close>

interpretation field_str: wire_field write_str read_str "\<lambda>s. s @ [0]" utf8_lossy "\<lambda>s. 0 \<notin> set s"
  by unfold_locales (simp_all add: write_str_def write_bytes_def write_u8_def read_str_def scan_str_finds)

section \<open>Whole payloads\<close>

datatype sox_field = FU8 u8 | FU16 u16 | FU32 u32 | FI32 i32 | FF32 u32 | FF64 u64 | FStr "u8 list"

fun write_field :: "sox_field \<Rightarrow> sox_response \<Rightarrow> sox_response" where
  "write_field (FU8 v) = write_u8 v" | "write_field (FU16 v) = write_u16 v" | "write_field (FU32 v) = write_u32 v"
| "write_field (FI32 v) = write_i32 v" | "write_field (FF32 v) = write_f32 v" | "write_field (FF64 v) = write_f64 v"
| "write_field (FStr s) = write_str s"

text \<open>The read of the kind of a field.\<close>

fun read_field :: "sox_field \<Rightarrow> (sox_reader, unit, sox_field) routine" where
  "read_field (FU8 _) = bnd read_u8 (\<lambda>v. ret (FU8 v))" | "read_field (FU16 _) = bnd read_u16 (\<lambda>v. ret (FU16 v))"
| "read_field (FU32 _) = bnd read_u32 (\<lambda>v. ret (FU32 v))" | "read_field (FI32 _) = bnd read_i32 (\<lambda>v. ret (FI32 v))"
| "read_field (FF32 _) = bnd read_f32 (\<lambda>v. ret (FF32 v))" | "read_field (FF64 _) = bnd read_f64 (\<lambda>v. ret (FF64 v))"
| "read_field (FStr _) = bnd read_str (\<lambda>v. ret (FStr v))"

primrec read_fields :: "sox_field list \<Rightarrow> (sox_reader, unit, sox_field list) routine" where
  "read_fields [] = ret []"
| "read_fields (f # fs) = bnd (read_field f) (\<lambda>x. bnd (read_fields fs) (\<lambda>xs. ret (x # xs)))"

fun wire_field_ok :: "sox_field \<Rightarrow> bool" where
  "wire_field_ok (FStr s) \<longleftrightarrow> 0 \<notin> set s \<and> utf8_valid s"
| "wire_field_ok _ \<longleftrightarrow> True"

lemma field_roundtrip:
  assumes "wire_field_ok f" "length (resp_payload (write_field f r)) < usize_bound"
  shows "read_field f \<lparr>rd_data = resp_payload (write_field f r) @ post, rd_pos = length (resp_payload r)\<rparr> =
    (Ok f, \<lparr>rd_data = resp_payload (write_field f r) @ post, rd_pos = length (resp_payload (write_field f r))\<rparr>)"
  using assms
  by (cases f) (simp_all add: field_u8.rd_after_wr field_u16.rd_after_wr field_u32.rd_after_wr field_i32.rd_after_wr field_f32.rd_after_wr
      field_f64.rd_after_wr field_str.rd_after_wr utf8_lossy_valid ret_def del: response_bytes_simps)

lemma write_field_appends: "\<exists>bs. \<forall>r. write_field f r = write_bytes bs r"
  by (cases f) (auto simp: field_u8.wr_appends field_u16.wr_appends field_u32.wr_appends field_i32.wr_appends field_f32.wr_appends
      field_f64.wr_appends field_str.wr_appends)

lemma write_fields_append: "\<exists>bs. resp_payload (fold write_field fs r) = resp_payload r @ bs"
proof (induction fs arbitrary: r)
  case (Cons f fs)
  obtain bs where "write_field f r = write_bytes bs r" using write_field_appends by blast
  with Cons [of "write_field f r"] show ?case by auto
qed simp

lemma fields_roundtrip:
  assumes "list_all wire_field_ok fs" "length (resp_payload (fold write_field fs r)) < usize_bound"
  shows "read_fields fs \<lparr>rd_data = resp_payload (fold write_field fs r) @ post, rd_pos = length (resp_payload r)\<rparr> =
    (Ok fs, \<lparr>rd_data = resp_payload (fold write_field fs r) @ post, rd_pos = length (resp_payload (fold write_field fs r))\<rparr>)"
  using assms
proof (induction fs arbitrary: r)
  case Nil
  then show ?case by (simp add: ret_def)
next
  case (Cons f fs)
  obtain bs where bs: "resp_payload (fold write_field fs (write_field f r)) = resp_payload (write_field f r) @ bs"
    using write_fields_append by blast
  have "read_field f \<lparr>rd_data = resp_payload (write_field f r) @ (bs @ post), rd_pos = length (resp_payload r)\<rparr> =
      (Ok f, \<lparr>rd_data = resp_payload (write_field f r) @ (bs @ post), rd_pos = length (resp_payload (write_field f r))\<rparr>)"
    by (rule field_roundtrip) (use Cons.prems bs in auto)
  moreover note Cons.IH [of "write_field f r"]
  ultimately show ?case using Cons.prems bs by (simp add: ret_def)
qed

section \<open>Safety of the reader\<close>

text \<open>On data of a packet no read panics, passes the end of the data or moves back.\<close>

definition reader_ok :: "sox_reader \<Rightarrow> bool" where
  "reader_ok r \<longleftrightarrow> rd_pos r \<le> length (rd_data r) \<and> length (rd_data r) + 65536 < usize_bound"

definition reads_ahead :: "(sox_reader, 'e, 'a) routine \<Rightarrow> bool" where
  "reads_ahead m \<longleftrightarrow> (\<forall>r. reader_ok r \<longrightarrow> fst (m r) \<noteq> Panic \<and> reader_ok (snd (m r)) \<and> rd_data (snd (m r)) = rd_data r \<and>
     rd_pos r \<le> rd_pos (snd (m r)))"

named_theorems ahead

lemma reads_ahead_bnd [ahead]: "reads_ahead m \<Longrightarrow> (\<And>a. reads_ahead (f a)) \<Longrightarrow> reads_ahead (bnd m f)"
proof (unfold reads_ahead_def, intro allI impI)
  fix r assume m: "\<forall>r. reader_ok r \<longrightarrow> fst (m r) \<noteq> Panic \<and> reader_ok (snd (m r)) \<and> rd_data (snd (m r)) = rd_data r \<and> rd_pos r \<le> rd_pos (snd (m r))"
    and f: "\<And>a. \<forall>r. reader_ok r \<longrightarrow> fst (f a r) \<noteq> Panic \<and> reader_ok (snd (f a r)) \<and> rd_data (snd (f a r)) = rd_data r \<and> rd_pos r \<le> rd_pos (snd (f a r))"
    and r: "reader_ok r"
  obtain x u where mu: "m r = (x, u)" by fastforce
  have u: "x \<noteq> Panic" "reader_ok u" "rd_data u = rd_data r" "rd_pos r \<le> rd_pos u" using m [rule_format, OF r] mu by auto
  show "fst (bnd m f r) \<noteq> Panic \<and> reader_ok (snd (bnd m f r)) \<and> rd_data (snd (bnd m f r)) = rd_data r \<and> rd_pos r \<le> rd_pos (snd (bnd m f r))"
    using f [rule_format, OF u(2)] u mu by (cases x) (auto simp: bnd_def intro: order_trans)
qed

lemma reads_ahead_ret [ahead]: "reads_ahead (ret a)"
  by (simp add: reads_ahead_def ret_def)

lemma reads_ahead_bytes [ahead]: "n \<le> 65536 \<Longrightarrow> reads_ahead (read_bytes n)"
  by (auto simp: reads_ahead_def read_bytes_def reader_ok_def)

lemma reads_ahead_u8 [ahead]: "reads_ahead read_u8"
  by (auto simp: reads_ahead_def read_u8_def reader_ok_def)

lemma reads_ahead_words [ahead]: "reads_ahead read_u16" "reads_ahead read_u32" "reads_ahead read_i32" "reads_ahead read_f32" "reads_ahead read_f64"
  unfolding read_u16_def read_u32_def read_i32_def read_f32_def read_f64_def by (intro ahead; simp)+

lemma scan_str_ahead:
  "reader_ok r \<Longrightarrow> fst (scan_str start r) \<noteq> Panic \<and> reader_ok (snd (scan_str start r)) \<and> rd_data (snd (scan_str start r)) = rd_data r \<and>
    rd_pos r \<le> rd_pos (snd (scan_str start r))"
proof (induction start r rule: scan_str.induct)
  case (1 start r)
  show ?case
  proof (cases "rd_pos r < length (rd_data r) \<and> rd_data r ! rd_pos r \<noteq> 0")
    case True
    then have "reader_ok (r\<lparr>rd_pos := rd_pos r + 1\<rparr>)" using "1.prems" by (auto simp: reader_ok_def)
    with True 1 show ?thesis by (subst (1 2 3 4) scan_str.simps) auto
  next
    case False
    with "1.prems" show ?thesis by (subst (1 2 3 4) scan_str.simps) (auto simp: reader_ok_def)
  qed
qed

lemma reads_ahead_str [ahead]: "reads_ahead read_str"
  using scan_str_ahead by (simp add: reads_ahead_def read_str_def)

lemma reads_ahead_field [ahead]: "reads_ahead (read_field f)"
  by (cases f) (auto intro!: ahead)

lemma reads_ahead_fields: "reads_ahead (read_fields fs)"
  by (induction fs) (auto intro!: ahead)

section \<open>Properties\<close>

lemma response_byte_values [simp]:
  "response_byte ReadSchema = 86" "response_byte ReadVersion = 89" "response_byte ReadComp = 67" "response_byte ReadProp = 82"
  "response_byte LinkCmd = 76" "response_byte Subscribe = 83" "response_byte Unsubscribe = 85" "response_byte WriteCmd = 87"
  "response_byte Invoke = 73" "response_byte AddCmd = 65" "response_byte Delete = 68" "response_byte Rename = 78"
  "response_byte Reorder = 79" "response_byte FileOpen = 70" "response_byte FileRead = 71" "response_byte FileWrite = 72"
  "response_byte FileClose = 90" "response_byte FileRename = 66" "response_byte EventCmd = 69"
  by (simp_all add: response_byte_def to_ascii_uppercase_def)

text \<open>What a SOX response carries is what its reader gets: the fields written to the payload one after the other, words and floats of
  any width and texts, are what reading fields of the same kinds from the bytes of the response gives, in order and to the end.\<close>

theorem sox_payload_roundtrip:
  assumes "list_all wire_field_ok fs" "length (resp_payload (fold write_field fs (response_success c i))) < usize_bound"
  shows "\<exists>payload. response_bytes (fold write_field fs (response_success c i)) = response_byte c # i # payload \<and>
    read_fields fs (reader_new payload) = (Ok fs, \<lparr>rd_data = payload, rd_pos = length payload\<rparr>)"
proof -
  have "resp_cmd (fold write_field fs r) = resp_cmd r \<and> resp_id (fold write_field fs r) = resp_id r" for r
    by (induction fs arbitrary: r) (metis fold_simps(1), metis fold_simps(2) write_field_appends response_bytes_simps(3,5))
  then show ?thesis
    using fields_roundtrip [OF assms, of "[]"]
    by (simp add: response_bytes_def response_success_def reader_new_def)
qed

theorem sox_payload_roundtrip_witness:
  "\<exists>payload. response_bytes (fold write_field [FU16 100, FStr [104, 105], FF32 0x41480000] (response_success ReadProp 7)) = 82 # 7 # payload \<and>
    fst (read_fields [FU16 100, FStr [104, 105], FF32 0x41480000] (reader_new payload)) = Ok [FU16 100, FStr [104, 105], FF32 0x41480000]"
proof -
  let ?fs = "[FU16 100, FStr [104, 105], FF32 0x41480000]"
  have "list_all wire_field_ok ?fs" by (simp add: utf8_valid_ascii)
  moreover have "length (resp_payload (fold write_field ?fs (response_success ReadProp 7))) < usize_bound"
    by (simp add: write_u16_def write_str_def write_f32_def response_success_def)
  ultimately show ?thesis using sox_payload_roundtrip [of ?fs ReadProp 7] by auto
qed

lemma response_byte_inj: "response_byte c = response_byte d \<longleftrightarrow> c = d"
  by (cases c; cases d) simp_all

lemma cmd_from_byte_iff:
  "cmd_from_byte b = Some c \<longleftrightarrow> b = cmd_byte c \<or> c = Invoke \<and> b = of_char CHR ''k'' \<or> c = FileClose \<and> b = of_char CHR ''q''"
  by (cases c) (auto simp: cmd_from_byte_def)

lemma response_byte_fresh: "response_byte c \<noteq> error_byte" "cmd_from_byte (response_byte c) = None"
  by (cases c; simp add: error_byte_def cmd_from_byte_def)+

text \<open>The command bytes are unambiguous: every command is recognised by its code, only the codes of the protocol are recognised, and the
  answers to different commands carry different bytes, none of which is the byte of an error or of a request.\<close>

theorem sox_commands:
  "cmd_from_byte (cmd_byte c) = Some c \<and> (response_byte c = response_byte d \<longleftrightarrow> c = d) \<and> response_byte c \<noteq> error_byte \<and>
   cmd_from_byte (response_byte c) = None \<and> cmd_from_byte error_byte = None \<and>
   (cmd_from_byte b = Some c \<longleftrightarrow> b = cmd_byte c \<or> c = Invoke \<and> b = of_char CHR ''k'' \<or> c = FileClose \<and> b = of_char CHR ''q'')"
  using response_byte_inj response_byte_fresh cmd_from_byte_iff by (auto simp: error_byte_def cmd_from_byte_def)

text \<open>Reading a request is safe: whatever the payload of a packet is, no sequence of reads panics, changes the data, passes its end or moves
  backwards.\<close>

theorem sox_reader_safe:
  assumes "length data + 65536 < usize_bound"
  shows "\<exists>r. snd (read_fields fs (reader_new data)) = r \<and> fst (read_fields fs (reader_new data)) \<noteq> Panic \<and> rd_data r = data \<and> rd_pos r \<le> length data"
proof -
  have "reader_ok (reader_new data)" using assms by (simp add: reader_ok_def reader_new_def)
  then have "fst (read_fields fs (reader_new data)) \<noteq> Panic" "reader_ok (snd (read_fields fs (reader_new data)))"
    "rd_data (snd (read_fields fs (reader_new data))) = rd_data (reader_new data)"
    using reads_ahead_fields [of fs] unfolding reads_ahead_def by blast+
  then show ?thesis by (simp add: reader_ok_def reader_new_def)
qed

theorem sox_reader_safe_witness:
  "fst (read_fields [FU16 0, FU8 0, FStr []] (reader_new [0, 1, 116, 65])) \<noteq> Panic"
  using sox_reader_safe [of "[0, 1, 116, 65]" "[FU16 0, FU8 0, FStr []]"] by simp

end
