(* ===== verification/Name_Intern.thy ===== *)
theory Name_Intern
  imports Wire "HOL-Library.AList"
begin

text \<open>
  The table of component names (\<open>sox/name_intern.rs\<close>): every name is stored once and referred to by a 16-bit id, and the
  rules for names. The two locks of the table are taken in the same order by the only writer, so that the operations are
  atomic: the table is a record that they pass on.
\<close>

section \<open>The table\<close>

type_synonym name_id = u16

definition MAX_NAME_LEN :: usize where
  "MAX_NAME_LEN = 31"

definition INVALID :: name_id where
  "INVALID = 0"

definition is_valid :: "name_id \<Rightarrow> bool" where
  "is_valid i \<longleftrightarrow> i \<noteq> 0"

record name_table =
  nt_names :: "u8 list list"
  nt_lookup :: "(u8 list \<times> u16) list"

definition names_new :: name_table where
  "names_new = \<lparr>nt_names = [[]], nt_lookup = []\<rparr>"

text \<open>A name that is not there gets the next id; the assertion fails when the ids are used up.\<close>

definition intern :: "u8 list \<Rightarrow> (name_table, 'e, name_id) routine" where
  "intern name t = (case map_of (nt_lookup t) name of
      Some i \<Rightarrow> (Ok i, t)
    | None \<Rightarrow>
        let i = of_nat (length (nt_names t)) :: u16
        in if \<not> i < 0xFFFF then (Panic, t)
           else (Ok i, t\<lparr>nt_names := nt_names t @ [name], nt_lookup := AList.update name i (nt_lookup t)\<rparr>))"

definition resolve :: "name_table \<Rightarrow> name_id \<Rightarrow> u8 list" where
  "resolve t i = (if unat i < length (nt_names t) then nt_names t ! unat i else [])"

definition table_contains :: "name_table \<Rightarrow> u8 list \<Rightarrow> bool" where
  "table_contains t name \<longleftrightarrow> map_of (nt_lookup t) name \<noteq> None"

definition get_id :: "name_table \<Rightarrow> u8 list \<Rightarrow> name_id option" where
  "get_id t name = map_of (nt_lookup t) name"

definition table_len :: "name_table \<Rightarrow> ('e, usize) outcome" where
  "table_len t = (if nt_names t = [] then Panic else Ok (length (nt_names t) - 1))"

definition table_is_empty :: "name_table \<Rightarrow> ('e, bool) outcome" where
  "table_is_empty t = bindO (table_len t) (\<lambda>n. Ok (n = 0))"

definition all_names :: "name_table \<Rightarrow> (name_id \<times> u8 list) list" where
  "all_names t = drop 1 (map (\<lambda>(i, n). (of_nat i, n)) (List.enumerate 0 (nt_names t)))"

section \<open>The rules for names\<close>

definition is_ascii_alphabetic :: "u8 \<Rightarrow> bool" where
  "is_ascii_alphabetic b \<longleftrightarrow> of_char CHR ''A'' \<le> b \<and> b \<le> of_char CHR ''Z'' \<or> of_char CHR ''a'' \<le> b \<and> b \<le> of_char CHR ''z''"

definition is_ascii_alphanumeric :: "u8 \<Rightarrow> bool" where
  "is_ascii_alphanumeric b \<longleftrightarrow> is_ascii_alphabetic b \<or> of_char CHR ''0'' \<le> b \<and> b \<le> of_char CHR ''9''"

definition validate_name :: "u8 list \<Rightarrow> string option" where
  "validate_name name =
     (if name = [] then Some ''name cannot be empty''
      else if length name > MAX_NAME_LEN then Some ''name too long (max 31 chars)''
      else if \<not> is_ascii_alphabetic (hd name) then Some ''name must start with a letter''
      else if \<exists>b\<in>set (tl name). \<not> is_ascii_alphanumeric b \<and> b \<noteq> of_char CHR ''_''
      then Some ''name can only contain letters, numbers, and underscores''
      else None)"

section \<open>The table is a bijection\<close>

text \<open>Ids and names correspond one to one: the lookup gives the position of every name but the reserved first one.\<close>

definition table_ok :: "name_table \<Rightarrow> bool" where
  "table_ok t \<longleftrightarrow> nt_names t \<noteq> [] \<and> length (nt_names t) \<le> 0xFFFF \<and>
     (\<forall>name i. map_of (nt_lookup t) name = Some i \<longleftrightarrow> i \<noteq> 0 \<and> unat i < length (nt_names t) \<and> nt_names t ! unat i = name)"

lemma names_new_ok [simp]: "table_ok names_new"
  by (auto simp: table_ok_def names_new_def unat_eq_0)

lemma table_okD:
  assumes "table_ok t"
  shows "map_of (nt_lookup t) name = Some i \<longleftrightarrow> i \<noteq> 0 \<and> unat i < length (nt_names t) \<and> nt_names t ! unat i = name"
  using assms by (simp add: table_ok_def)

lemma intern_fresh_ok:
  assumes "table_ok t" "map_of (nt_lookup t) name = None" "(of_nat (length (nt_names t)) :: u16) < 0xFFFF"
  shows "table_ok (t\<lparr>nt_names := nt_names t @ [name], nt_lookup := AList.update name (of_nat (length (nt_names t))) (nt_lookup t)\<rparr>)"
proof -
  let ?n = "length (nt_names t)"
  have n: "?n \<le> 0xFFFF" "?n \<noteq> 0" using assms(1) by (simp_all add: table_ok_def)
  then have un: "unat (of_nat ?n :: u16) = ?n" by (simp add: unat_of_nat)
  then have lt: "?n < 0xFFFF" using assms(3) by (simp add: word_less_nat_alt)
  have pos: "(of_nat ?n :: u16) \<noteq> 0" using un n by auto
  have absent: "nt_names t ! unat i \<noteq> name" if "i \<noteq> (0 :: u16)" "unat i < ?n" for i
    using that assms(2) table_okD [OF assms(1), of name i] by auto
  have "map_of (AList.update name (of_nat ?n) (nt_lookup t)) m = Some i \<longleftrightarrow>
      i \<noteq> 0 \<and> unat i < Suc ?n \<and> (nt_names t @ [name]) ! unat i = m" for m and i :: u16
  proof (cases "unat i = ?n")
    case True
    then have "i = of_nat ?n" using un by (metis word_unat_eq_iff)
    moreover have "map_of (nt_lookup t) m \<noteq> Some i" using True table_okD [OF assms(1), of m i] by simp
    ultimately show ?thesis using True pos by (auto simp: update_conv')
  next
    case False
    then have "i \<noteq> of_nat ?n" using un by auto
    with False show ?thesis using absent [of i] table_okD [OF assms(1), of m i]
      by (auto simp: update_conv' nth_append less_Suc_eq)
  qed
  with lt show ?thesis by (simp add: table_ok_def)
qed

lemma intern_ok:
  assumes "table_ok t" "intern name t = (r, t')"
  shows "table_ok t'"
  using assms intern_fresh_ok [OF assms(1)] by (auto simp: intern_def Let_def split: option.splits if_splits)

lemma intern_effect:
  assumes "table_ok t" "intern name t = (Ok i, t')"
  shows "i \<noteq> 0 \<and> resolve t' i = name \<and> get_id t' name = Some i \<and> (\<forall>j. unat j < length (nt_names t) \<longrightarrow> resolve t' j = resolve t j) \<and>
    (\<forall>m. m \<noteq> name \<longrightarrow> get_id t' m = get_id t m) \<and> (map_of (nt_lookup t) name = None \<longrightarrow> nt_names t' = nt_names t @ [name]) \<and>
    (map_of (nt_lookup t) name \<noteq> None \<longrightarrow> t' = t)"
proof -
  have "get_id t' name = Some i"
    using assms(2) by (auto simp: intern_def get_id_def update_conv' Let_def split: option.splits if_splits)
  then have "i \<noteq> 0" "resolve t' i = name"
    using table_okD [OF intern_ok [OF assms], of name i] by (simp_all add: get_id_def resolve_def)
  moreover have "(\<forall>j. unat j < length (nt_names t) \<longrightarrow> resolve t' j = resolve t j) \<and> (\<forall>m. m \<noteq> name \<longrightarrow> get_id t' m = get_id t m) \<and>
    (map_of (nt_lookup t) name = None \<longrightarrow> nt_names t' = nt_names t @ [name]) \<and> (map_of (nt_lookup t) name \<noteq> None \<longrightarrow> t' = t)"
  proof (cases "map_of (nt_lookup t) name")
    case None
    then have "t' = t\<lparr>nt_names := nt_names t @ [name], nt_lookup := AList.update name (of_nat (length (nt_names t))) (nt_lookup t)\<rparr>"
      using assms(2) by (auto simp: intern_def Let_def split: if_splits)
    then show ?thesis using None by (simp add: resolve_def get_id_def update_conv' nth_append)
  next
    case (Some j)
    then show ?thesis using assms(2) by (simp add: intern_def)
  qed
  ultimately show ?thesis using \<open>get_id t' name = Some i\<close> by blast
qed

lemma intern_panics:
  "table_ok t \<Longrightarrow> fst (intern name t :: ('e, name_id) outcome \<times> _) = Panic \<longleftrightarrow> map_of (nt_lookup t) name = None \<and> length (nt_names t) = 0xFFFF"
  by (auto simp: intern_def Let_def table_ok_def word_less_nat_alt unat_of_nat split: option.splits)

lemma keeps_intern [wp]: "keeps table_ok (intern name)"
  by (auto simp: keeps_def dest: intern_ok intro: prod.collapse [symmetric])

text \<open>The table after interning a list of names; \<open>None\<close> when it is exhausted.\<close>

primrec intern_all :: "u8 list list \<Rightarrow> name_table \<Rightarrow> name_table option" where
  "intern_all [] t = Some t"
| "intern_all (n # ns) t = (case intern n t of (Ok _ :: (unit, name_id) outcome, t') \<Rightarrow> intern_all ns t' | _ \<Rightarrow> None)"

lemma intern_all_ok: "table_ok t \<Longrightarrow> intern_all ns t = Some t' \<Longrightarrow> table_ok t'"
proof (induction ns arbitrary: t)
  case (Cons n ns)
  then show ?case by (auto split: prod.splits outcome.splits dest: intern_ok)
qed simp

lemma intern_all_names:
  assumes "table_ok t" "intern_all ns t = Some t'"
  shows "dom (get_id t') = dom (get_id t) \<union> set ns \<and> (\<forall>m i. get_id t m = Some i \<longrightarrow> get_id t' m = Some i)"
  using assms
proof (induction ns arbitrary: t)
  case (Cons n ns)
  then obtain i u where u: "intern n t = (Ok i :: (unit, name_id) outcome, u)" "intern_all ns u = Some t'"
    by (auto split: prod.splits outcome.splits)
  note eff = intern_effect [OF Cons.prems(1) u(1)]
  have "dom (get_id u) = insert n (dom (get_id t))" using eff by (auto simp: dom_def) metis+
  moreover have "get_id u m = Some j" if "get_id t m = Some j" for m j
    using that eff by (metis get_id_def option.discI)
  ultimately show ?case using Cons.IH [OF intern_ok [OF Cons.prems(1) u(1)] u(2)] by (auto split: prod.splits outcome.splits)
qed simp

section \<open>Properties\<close>

text \<open>Interning is a bijection between names and ids: after any names have been interned, interning one more gives an id that resolves to
  this name and is found for it, no other name has this id, and every id given before still resolves to its name; it panics exactly when the name
  is new and all 65534 ids are used up.\<close>

theorem intern_bijection:
  assumes "intern_all ns names_new = Some t"
  shows "dom (get_id t) = set ns \<and>
    (case intern name t of
       (Ok i :: (unit, name_id) outcome, t') \<Rightarrow> resolve t' i = name \<and> is_valid i \<and> (\<forall>m. get_id t' m = Some i \<longleftrightarrow> m = name) \<and>
         (\<forall>m j. get_id t m = Some j \<longrightarrow> resolve t' j = m)
     | (r, t') \<Rightarrow> name \<notin> set ns \<and> length (nt_names t) = 65535)"
proof -
  have ok: "table_ok t" using intern_all_ok [OF names_new_ok assms] .
  have dom: "dom (get_id t) = set ns"
    using intern_all_names [OF names_new_ok assms] by (simp add: get_id_def names_new_def dom_def)
  obtain r t' where it: "intern name t = (r :: (unit, name_id) outcome, t')" by fastforce
  show ?thesis
  proof (cases r)
    case (Ok i)
    note e = intern_effect [OF ok it [unfolded Ok]] and ok' = intern_ok [OF ok it]
    have "m = name" if "get_id t' m = Some i" for m
      using that table_okD [OF ok', of m i] e by (simp add: get_id_def resolve_def)
    moreover have "resolve t' j = m" if "get_id t m = Some j" for m j
      using that table_okD [OF ok, of m j] e by (auto simp: get_id_def resolve_def)
    ultimately have "\<forall>m. get_id t' m = Some i \<longleftrightarrow> m = name" "\<forall>m j. get_id t m = Some j \<longrightarrow> resolve t' j = m" using e by blast+
    then show ?thesis using e dom by (simp add: it Ok is_valid_def)
  next
    case (Err e)
    then show ?thesis using it by (simp add: intern_def Let_def split: option.splits if_splits)
  next
    case Panic
    then have "map_of (nt_lookup t) name = None" "length (nt_names t) = 65535" using intern_panics [OF ok, of name, where ?'e = unit] it by simp_all
    moreover from this(1) have "name \<notin> set ns" unfolding dom [symmetric] by (simp add: dom_def get_id_def)
    ultimately show ?thesis using dom by (simp add: it Panic)
  qed
qed

theorem intern_bijection_witness:
  "\<exists>t i. intern_all [[97], [98], [97]] names_new = Some t \<and> intern [98] t = (Ok i :: (unit, name_id) outcome, t) \<and> i = 2 \<and> resolve t i = [98]"
proof -
  define t where "t = \<lparr>nt_names = [[], [97], [98 :: u8]], nt_lookup = [([97], 1), ([98], 2 :: u16)]\<rparr>"
  have "intern_all [[97], [98], [97]] names_new = Some t"
    by (simp add: t_def intern_def names_new_def)
  moreover from intern_bijection [OF this, of "[98]"] have "resolve t 2 = [98]" by (simp add: t_def intern_def)
  ultimately show ?thesis by (auto simp: t_def intern_def)
qed

end
