(* ===== verification/Sox_Tree.thy ===== *)
theory Sox_Tree
  imports Sox_Protocol Name_Intern Floats
begin

text \<open>
  The virtual component tree of the SOX server (\<open>sox/sox_handlers.rs\<close>): slot values, components with their slots, children and
  links, and the tree with its indexes. Hash maps are association lists with distinct keys and hash sets are lists without
  duplicates; their order stands for the unspecified order of iteration. Texts are lists of their UTF-8 bytes.
\<close>

section \<open>Values, slots and components\<close>

datatype slot_value =
  SvBool bool | SvInt i32 | SvLong i64 | SvFloat u32 | SvDouble u64 | SvStr "u8 list" | SvBuf "u8 list" | SvNull

fun slot_type_id :: "slot_value \<Rightarrow> u8" where
  "slot_type_id (SvBool _) = value_type_byte TBool"
| "slot_type_id (SvInt _) = value_type_byte TInt"
| "slot_type_id (SvLong _) = value_type_byte TLong"
| "slot_type_id (SvFloat _) = value_type_byte TFloat"
| "slot_type_id (SvDouble _) = value_type_byte TDouble"
| "slot_type_id (SvStr _) = value_type_byte TDouble + 1"
| "slot_type_id (SvBuf _) = value_type_byte TBuf"
| "slot_type_id SvNull = value_type_byte TVoid"

text \<open>The derived equality compares floats as floats: NaN differs from itself and the two zeros are equal.\<close>

fun slot_value_eq :: "slot_value \<Rightarrow> slot_value \<Rightarrow> bool" where
  "slot_value_eq (SvFloat a) (SvFloat b) = rel32 feq a b"
| "slot_value_eq (SvDouble a) (SvDouble b) = rel64 feq a b"
| "slot_value_eq a b = (a = b)"

definition SLOT_FLAG_PROPERTY :: u8 where "SLOT_FLAG_PROPERTY = 0"
definition SLOT_FLAG_CONFIG :: u8 where "SLOT_FLAG_CONFIG = 1"
definition SLOT_FLAG_ACTION :: u8 where "SLOT_FLAG_ACTION = 2"
definition SLOT_FLAG_RUNTIME :: u8 where "SLOT_FLAG_RUNTIME = 4"
definition SLOT_FLAG_OPERATOR :: u8 where "SLOT_FLAG_OPERATOR = 8"

record link =
  from_comp :: u16
  from_slot :: u8
  to_comp :: u16
  to_slot :: u8

record virtual_slot =
  vs_name :: "u8 list"
  vs_type :: u8
  vs_flags :: u8
  vs_value :: slot_value

record virtual_component =
  vc_id :: u16
  vc_parent :: u16
  vc_name :: "u8 list"
  vc_type_name :: "u8 list"
  vc_kit :: u8
  vc_type :: u8
  vc_children :: "u16 list"
  vc_slots :: "virtual_slot list"
  vc_links :: "link list"

record component_state =
  st_counter :: i32
  st_direction :: i32
  st_prev_bool :: bool

definition default_state :: component_state where
  "default_state = \<lparr>st_counter = 0, st_direction = 0, st_prev_bool = False\<rparr>"

definition NO_PARENT :: u16 where "NO_PARENT = 0xFFFF"
definition CHANNEL_COMP_BASE :: u16 where "CHANNEL_COMP_BASE = 100"

text \<open>The schemas of component types; they are loaded in \<open>Sox_Manifest\<close>.\<close>

record manifest_slot =
  ms_name :: "u8 list"
  ms_type :: u8
  ms_flags :: u8
  ms_default :: slot_value

record manifest_db =
  md_types :: "((u8 \<times> u8) \<times> manifest_slot list) list"
  md_type_names :: "((u8 \<times> u8 list) \<times> u8) list"

definition manifest_new :: manifest_db where
  "manifest_new = \<lparr>md_types = [], md_type_names = []\<rparr>"

definition get_slots :: "manifest_db \<Rightarrow> u8 \<Rightarrow> u8 \<Rightarrow> manifest_slot list option" where
  "get_slots db kit type = map_of (md_types db) (kit, type)"

definition slots_to_virtual :: "manifest_slot list \<Rightarrow> virtual_slot list" where
  "slots_to_virtual = map (\<lambda>m. \<lparr>vs_name = ms_name m, vs_type = ms_type m, vs_flags = ms_flags m, vs_value = ms_default m\<rparr>)"

section \<open>The tree\<close>

record component_tree =
  components :: "(u16 \<times> virtual_component) list"
  next_id :: u16
  channel_comp_end :: u16
  manifests :: manifest_db
  user_added_ids :: "u16 list"
  dirty :: bool
  persist_path :: "u8 list option"
  component_states :: "(u16 \<times> component_state) list"
  output_channel_ids :: "i32 list"
  name_to_comp :: "(u8 list \<times> u16) list"
  names :: name_table

definition tree_new_with_manifest :: "manifest_db \<Rightarrow> component_tree" where
  "tree_new_with_manifest db = \<lparr>components = [], next_id = 0, channel_comp_end = CHANNEL_COMP_BASE, manifests = db, user_added_ids = [],
     dirty = False, persist_path = None, component_states = [], output_channel_ids = [], name_to_comp = [], names = names_new\<rparr>"

definition tree_new :: component_tree where
  "tree_new = tree_new_with_manifest manifest_new"

definition tree_get :: "component_tree \<Rightarrow> u16 \<Rightarrow> virtual_component option" where
  "tree_get t cid = map_of (components t) cid"

text \<open>\<open>if let Some(c) = components.get_mut(&cid)\<close> with the changes of the body.\<close>

definition update_comp :: "u16 \<Rightarrow> (virtual_component \<Rightarrow> virtual_component) \<Rightarrow> component_tree \<Rightarrow> component_tree" where
  "update_comp cid f t = (case tree_get t cid of
      None \<Rightarrow> t
    | Some c \<Rightarrow> t\<lparr>components := AList.update cid (f c) (components t)\<rparr>)"

definition on_names :: "(name_table, 'e, 'a) routine \<Rightarrow> (component_tree, 'e, 'a) routine" where
  "on_names m t = (case m (names t) of (r, n) \<Rightarrow> (r, t\<lparr>names := n\<rparr>))"

definition bump_next_id :: "u16 \<Rightarrow> (component_tree, 'e, unit) routine" where
  "bump_next_id cid t =
     (if next_id t \<le> cid then if cid = 0xFFFF then (Panic, t) else (Ok (), t\<lparr>next_id := cid + 1\<rparr>) else (Ok (), t))"

definition index_name :: "u8 list \<Rightarrow> u16 \<Rightarrow> (component_tree, 'e, unit) routine" where
  "index_name name cid =
     (if name = [] then ret ()
      else sq (modify (\<lambda>t. t\<lparr>name_to_comp := AList.update name cid (name_to_comp t)\<rparr>))
        (sq (on_names (intern name)) (ret ())))"

definition register_child :: "u16 \<Rightarrow> u16 \<Rightarrow> component_tree \<Rightarrow> component_tree" where
  "register_child parent cid t =
     (if parent \<noteq> NO_PARENT \<and> parent \<noteq> cid
      then update_comp parent (\<lambda>p. if cid \<in> set (vc_children p) then p else p\<lparr>vc_children := vc_children p @ [cid]\<rparr>) t
      else t)"

definition insert_comp :: "virtual_component \<Rightarrow> component_tree \<Rightarrow> component_tree" where
  "insert_comp c t = register_child (vc_parent c) (vc_id c) (t\<lparr>components := AList.update (vc_id c) c (components t)\<rparr>)"

definition tree_add :: "virtual_component \<Rightarrow> (component_tree, 'e, unit) routine" where
  "tree_add c = sq (bump_next_id (vc_id c)) (sq (index_name (vc_name c) (vc_id c)) (modify (insert_comp c)))"

definition tree_len :: "component_tree \<Rightarrow> usize" where
  "tree_len t = length (components t)"

definition tree_is_empty :: "component_tree \<Rightarrow> bool" where
  "tree_is_empty t \<longleftrightarrow> components t = []"

definition comp_ids :: "component_tree \<Rightarrow> u16 list" where
  "comp_ids t = map fst (components t)"

definition next_comp_id :: "component_tree \<Rightarrow> ('e, u16) outcome" where
  "next_comp_id t = (let m = fold max (comp_ids t) 0 in if m = 0xFFFF then Panic else Ok (m + 1))"

text \<open>A name leaves the index only when it leads to this component.\<close>

definition unindex_name :: "u8 list \<Rightarrow> u16 \<Rightarrow> component_tree \<Rightarrow> component_tree" where
  "unindex_name name cid t =
     (if map_of (name_to_comp t) name = Some cid then t\<lparr>name_to_comp := AList.delete name (name_to_comp t)\<rparr> else t)"

definition tree_remove :: "u16 \<Rightarrow> component_tree \<Rightarrow> virtual_component option \<times> component_tree" where
  "tree_remove cid t = (case tree_get t cid of
      None \<Rightarrow> (None, t)
    | Some c \<Rightarrow>
        (Some c, unindex_name (vc_name c) cid
           (update_comp (vc_parent c) (\<lambda>p. p\<lparr>vc_children := filter (\<lambda>i. i \<noteq> cid) (vc_children p)\<rparr>)
              (t\<lparr>components := AList.delete cid (components t)\<rparr>))))"

definition tree_rename :: "u16 \<Rightarrow> u8 list \<Rightarrow> (component_tree, 'e, bool) routine" where
  "tree_rename cid new_name t = (case tree_get t cid of
      None \<Rightarrow> (Ok False, t)
    | Some c \<Rightarrow> sq (modify (unindex_name (vc_name c) cid))
        (sq (modify (update_comp cid (\<lambda>c. c\<lparr>vc_name := new_name\<rparr>)))
        (sq (index_name new_name cid) (ret True))) t)"

definition lookup_by_name :: "component_tree \<Rightarrow> u8 list \<Rightarrow> u16 option" where
  "lookup_by_name t name = map_of (name_to_comp t) name"

section \<open>Links\<close>

definition MAX_DEPTH :: u32 where "MAX_DEPTH = 100"

text \<open>The outgoing links of a component that lead to components not visited yet are pushed on the stack, whose top is the head of the list.\<close>

definition push_targets :: "component_tree \<Rightarrow> u16 \<Rightarrow> u16 list \<Rightarrow> u16 list \<Rightarrow> u16 list" where
  "push_targets t current visited stack = (case tree_get t current of
      None \<Rightarrow> stack
    | Some c \<Rightarrow> fold (\<lambda>l st. if from_comp l = current \<and> to_comp l \<notin> set visited then to_comp l # st else st) (vc_links c) stack)"

lemma depth_decreases: "\<not> MAX_DEPTH \<le> depth \<Longrightarrow> 100 - unat (depth + 1) < 100 - unat depth"
  by (auto simp: MAX_DEPTH_def word_le_nat_alt unat_word_ariths)

function cycle_search :: "component_tree \<Rightarrow> u16 \<Rightarrow> u16 list \<Rightarrow> u16 list \<Rightarrow> u32 \<Rightarrow> bool" where
  "cycle_search t from [] visited depth = False"
| "cycle_search t from (current # stack) visited depth =
     (if current = from then True
      else if MAX_DEPTH \<le> depth then True
      else if current \<in> set visited then cycle_search t from stack visited depth
      else cycle_search t from (push_targets t current (current # visited) stack) (current # visited) (depth + 1))"
  by pat_completeness auto

termination
  by (relation "measures [\<lambda>(t, from, stack, visited, depth). 100 - unat depth, \<lambda>(t, from, stack, visited, depth). length stack]")
     (use depth_decreases in auto)

definition would_create_cycle :: "component_tree \<Rightarrow> u16 \<Rightarrow> u16 \<Rightarrow> bool" where
  "would_create_cycle t from to = (if from = to then False else cycle_search t from [to] [] 0)"

definition push_link :: "link \<Rightarrow> virtual_component \<Rightarrow> virtual_component" where
  "push_link l c = c\<lparr>vc_links := vc_links c @ [l]\<rparr>"

definition add_link :: "link \<Rightarrow> component_tree \<Rightarrow> bool \<times> component_tree" where
  "add_link l t = (case tree_get t (to_comp l) of
      None \<Rightarrow> (False, t)
    | Some c \<Rightarrow>
        if l \<in> set (vc_links c) then (False, t)
        else if would_create_cycle t (from_comp l) (to_comp l) then (False, t)
        else (True,
          let t1 = update_comp (to_comp l) (push_link l) t
          in if from_comp l \<noteq> to_comp l
             then update_comp (from_comp l) (\<lambda>c. if l \<in> set (vc_links c) then c else push_link l c) t1
             else t1))"

definition drop_link :: "link \<Rightarrow> virtual_component \<Rightarrow> virtual_component" where
  "drop_link l c = c\<lparr>vc_links := filter (\<lambda>k. k \<noteq> l) (vc_links c)\<rparr>"

definition remove_link :: "link \<Rightarrow> component_tree \<Rightarrow> bool \<times> component_tree" where
  "remove_link l t =
     (let removed = (case tree_get t (to_comp l) of
             None \<Rightarrow> False
           | Some c \<Rightarrow> length (vc_links (drop_link l c)) < length (vc_links c));
          t1 = update_comp (to_comp l) (drop_link l) t
      in (removed, if from_comp l \<noteq> to_comp l then update_comp (from_comp l) (drop_link l) t1 else t1))"

definition get_links :: "component_tree \<Rightarrow> u16 \<Rightarrow> link list" where
  "get_links t cid = (case tree_get t cid of Some c \<Rightarrow> vc_links c | None \<Rightarrow> [])"

definition reorder_children :: "u16 \<Rightarrow> u16 list \<Rightarrow> component_tree \<Rightarrow> bool \<times> component_tree" where
  "reorder_children parent ids t = (case tree_get t parent of
      None \<Rightarrow> (False, t)
    | Some p \<Rightarrow> if sort (vc_children p) \<noteq> sort ids then (False, t)
                else (True, update_comp parent (\<lambda>p. p\<lparr>vc_children := ids\<rparr>) t))"

section \<open>Flags and marks\<close>

definition is_channel_comp :: "component_tree \<Rightarrow> u16 \<Rightarrow> bool" where
  "is_channel_comp t cid \<longleftrightarrow> CHANNEL_COMP_BASE \<le> cid \<and> cid < channel_comp_end t"

definition is_user_added :: "component_tree \<Rightarrow> u16 \<Rightarrow> bool" where
  "is_user_added t cid \<longleftrightarrow> cid \<in> set (user_added_ids t)"

definition mark_user_added :: "u16 \<Rightarrow> component_tree \<Rightarrow> component_tree" where
  "mark_user_added cid t = t\<lparr>user_added_ids := List.insert cid (user_added_ids t), dirty := True\<rparr>"

definition mark_dirty :: "component_tree \<Rightarrow> component_tree" where
  "mark_dirty t = t\<lparr>dirty := True\<rparr>"

definition take_dirty :: "component_tree \<Rightarrow> bool \<times> component_tree" where
  "take_dirty t = (dirty t, t\<lparr>dirty := False\<rparr>)"

definition set_persist_path :: "u8 list \<Rightarrow> component_tree \<Rightarrow> component_tree" where
  "set_persist_path path t = t\<lparr>persist_path := Some path\<rparr>"

text \<open>A component with all its descendants, in preorder. The pending iterations of the enclosing loops of the recursion are a list; \<open>out\<close> is
  what has been collected.\<close>

lemma unseen_decreases: "cid \<notin> set out \<Longrightarrow> card (- set (out @ [cid :: u16])) < card (- set out)"
  by (rule psubset_card_mono) auto

function collect_pending :: "component_tree \<Rightarrow> u16 list \<Rightarrow> u16 list \<Rightarrow> u16 list" where
  "collect_pending t [] out = out"
| "collect_pending t (cid # pending) out =
     (if cid \<in> set out then collect_pending t pending out
      else collect_pending t ((case tree_get t cid of Some c \<Rightarrow> vc_children c | None \<Rightarrow> []) @ pending) (out @ [cid]))"
  by pat_completeness auto

termination
  by (relation "measures [\<lambda>(t, pending, out). card (- set out), \<lambda>(t, pending, out). length pending]")
     (use unseen_decreases in auto)

definition collect_subtree :: "component_tree \<Rightarrow> u16 \<Rightarrow> u16 list \<Rightarrow> u16 list" where
  "collect_subtree t cid out = collect_pending t [cid] out"

section \<open>Building the tree from the channels\<close>

text \<open>What the tree takes of the \<open>ChannelInfo\<close> of the engine.\<close>

record channel_info =
  ci_id :: u32
  ci_label :: "u8 list"
  ci_type :: "u8 list"
  ci_direction :: "u8 list"
  ci_enabled :: bool
  ci_status :: "u8 list"
  ci_cur :: f64
  ci_raw :: f64

definition channel_type_name :: "u8 list \<Rightarrow> u8 list" where
  "channel_type_name d =
     (if d \<in> {ascii ''AI'', ascii ''ao'', ascii ''AO''} then ascii ''control::NumericPoint''
      else if d \<in> {ascii ''DI'', ascii ''do'', ascii ''DO''} then ascii ''control::BooleanPoint''
      else ascii ''control::NumericPoint'')"

definition encode_meta_with_pos :: "u8 \<Rightarrow> u8 \<Rightarrow> i32" where
  "encode_meta_with_pos x y = 1 OR push_bit 16 (ucast x) OR push_bit 24 (ucast y)"

definition slot_of :: "string \<Rightarrow> sox_value_type \<Rightarrow> u8 \<Rightarrow> slot_value \<Rightarrow> virtual_slot" where
  "slot_of name ty fl v = \<lparr>vs_name = ascii name, vs_type = value_type_byte ty, vs_flags = fl, vs_value = v\<rparr>"

definition channel_slots :: "channel_info \<Rightarrow> virtual_slot list" where
  "channel_slots ch =
     [slot_of ''meta'' TInt SLOT_FLAG_CONFIG (SvInt 1),
      slot_of ''channelName'' TBuf SLOT_FLAG_RUNTIME (SvStr (ci_label ch)),
      slot_of ''channel'' TInt SLOT_FLAG_RUNTIME (SvInt (ci_id ch)),
      slot_of ''pointQuery'' TBuf SLOT_FLAG_CONFIG (SvStr []),
      slot_of ''pointQuerySize'' TInt SLOT_FLAG_RUNTIME (SvInt 0),
      slot_of ''pointQueryStatus'' TBool SLOT_FLAG_RUNTIME (SvBool False),
      slot_of ''out'' TFloat SLOT_FLAG_RUNTIME (SvFloat (f64_to_f32 (ci_cur ch))),
      slot_of ''curStatus'' TBuf SLOT_FLAG_RUNTIME (SvStr (ci_status ch)),
      slot_of ''enabled'' TBool SLOT_FLAG_RUNTIME (SvBool (ci_enabled ch))]"

definition channel_slots_with_pos :: "channel_info \<Rightarrow> u8 \<Rightarrow> u8 \<Rightarrow> virtual_slot list" where
  "channel_slots_with_pos ch x y = (case channel_slots ch of
      [] \<Rightarrow> []
    | m # ss \<Rightarrow> m\<lparr>vs_value := SvInt (encode_meta_with_pos x y)\<rparr> # ss)"

definition folder :: "u16 \<Rightarrow> u16 \<Rightarrow> string \<Rightarrow> string \<Rightarrow> u8 \<Rightarrow> u8 \<Rightarrow> virtual_slot list \<Rightarrow> virtual_component" where
  "folder cid parent name type_name kit type slots = \<lparr>vc_id = cid, vc_parent = parent, vc_name = ascii name, vc_type_name = ascii type_name,
     vc_kit = kit, vc_type = type, vc_children = [], vc_slots = slots, vc_links = []\<rparr>"

definition system_components :: "virtual_component list" where
  "system_components =
     [folder 0 NO_PARENT ''app'' ''sys::App'' 0 10 [slot_of ''appName'' TFloat SLOT_FLAG_CONFIG (SvStr (ascii ''sandstar''))],
      folder 1 0 ''service'' ''sys::Folder'' 0 11 [],
      folder 2 1 ''sox'' ''sox::SoxService'' 12 1 [slot_of ''port'' TInt SLOT_FLAG_CONFIG (SvInt 1876)],
      folder 3 1 ''users'' ''sys::UserService'' 0 16 [],
      folder 4 1 ''plat'' ''sys::PlatformService'' 0 13 [slot_of ''platformId'' TFloat SLOT_FLAG_PROPERTY (SvStr (ascii ''sandstar-rust''))],
      folder 5 0 ''io'' ''sys::Folder'' 0 11 [],
      folder 6 0 ''control'' ''sys::Folder'' 0 11 []]"

text \<open>The arithmetic of the canvas position is in 8 bits and that of the id in 16.\<close>

definition checked_u8 :: "nat \<Rightarrow> ('e, u8) outcome" where
  "checked_u8 n = (if n < 256 then Ok (of_nat n) else Panic)"

definition channel_component :: "nat \<Rightarrow> channel_info \<Rightarrow> ('e, virtual_component) outcome" where
  "channel_component i ch =
     (if 100 + i mod 65536 \<ge> 65536 then Panic
      else bindO (checked_u8 (2 + i mod 6 * 30)) (\<lambda>x. bindO (checked_u8 (2 + i div 6 mod 256 * 12)) (\<lambda>y.
        Ok \<lparr>vc_id = CHANNEL_COMP_BASE + of_nat i, vc_parent = 5, vc_name = ascii (''ch_'' @ show_nat (unat (ci_id ch))),
            vc_type_name = channel_type_name (ci_direction ch), vc_kit = 1, vc_type = 0, vc_children = [],
            vc_slots = channel_slots_with_pos ch x y, vc_links = []\<rparr>)))"

definition ascii_lower :: "u8 \<Rightarrow> u8" where
  "ascii_lower b = (if of_char CHR ''A'' \<le> b \<and> b \<le> of_char CHR ''Z'' then b + 32 else b)"

text \<open>The comparisons of the lower-case direction with ASCII literals: a character that is not ASCII has no ASCII lower case, except the
  Kelvin sign, which occurs in none of the literals.\<close>

definition is_output_direction :: "u8 list \<Rightarrow> bool" where
  "is_output_direction d \<longleftrightarrow> map ascii_lower d \<in> {ascii ''out'', ascii ''ao'', ascii ''do''}"

definition from_channels_with_manifest :: "channel_info list \<Rightarrow> manifest_db \<Rightarrow> ('e, component_tree) outcome" where
  "from_channels_with_manifest channels db =
     (case sq (forM system_components tree_add)
        (sq (forM (List.enumerate 0 channels) (\<lambda>(i, ch). bnd (lift (channel_component i ch)) tree_add))
        (query (\<lambda>t. if 100 + length channels mod 65536 \<ge> 65536 then Panic
                   else Ok (t\<lparr>channel_comp_end := CHANNEL_COMP_BASE + of_nat (length channels),
                     output_channel_ids := fold (\<lambda>ch os. if is_output_direction (ci_direction ch) then List.insert (ci_id ch) os else os)
                       channels (output_channel_ids t)\<rparr>)))) (tree_new_with_manifest db) of
       (r, _) \<Rightarrow> r)"

definition from_channels :: "channel_info list \<Rightarrow> ('e, component_tree) outcome" where
  "from_channels channels = from_channels_with_manifest channels manifest_new"

section \<open>Persistence\<close>

text \<open>The document that is written to disk; its text form, the file and its path are outside of the model.\<close>

record persist_data =
  pd_components :: "virtual_component list"
  pd_user_added_ids :: "u16 list"
  pd_next_comp_id :: u16
  pd_name_table :: "u8 list list"

definition save_data :: "component_tree \<Rightarrow> persist_data" where
  "save_data t = \<lparr>pd_components = List.map_filter (tree_get t) (user_added_ids t), pd_user_added_ids = user_added_ids t,
     pd_next_comp_id = next_id t, pd_name_table = map snd (all_names (names t))\<rparr>"

definition restore_component :: "virtual_component \<Rightarrow> (component_tree, 'e, unit) routine" where
  "restore_component c = sq (index_name (vc_name c) (vc_id c)) (modify (insert_comp c))"

definition restore_next_id :: "u16 \<Rightarrow> (component_tree, 'e, unit) routine" where
  "restore_next_id n = sq (modify (\<lambda>t. if next_id t < n then t\<lparr>next_id := n\<rparr> else t))
     (\<lambda>t. if components t = [] then (Ok (), t)
          else let m = fold max (comp_ids t) 0
               in if next_id t \<le> m then if m = 0xFFFF then (Panic, t) else (Ok (), t\<lparr>next_id := m + 1\<rparr>) else (Ok (), t))"

definition load_data :: "persist_data \<Rightarrow> (component_tree, 'e, usize) routine" where
  "load_data d = sq (forM (pd_name_table d) (\<lambda>n. sq (on_names (intern n)) (ret ())))
     (sq (modify (\<lambda>t. t\<lparr>user_added_ids := fold List.insert (pd_user_added_ids d) (user_added_ids t)\<rparr>))
     (sq (forM (pd_components d) restore_component)
     (sq (restore_next_id (pd_next_comp_id d)) (ret (length (pd_components d))))))"

end
