(* ===== verification/Sox_Links.thy ===== *)
theory Sox_Links
  imports Sox_Tree
begin

text \<open>
  The search for cycles in the links of the component tree: what it decides, and that links that are stored at both of their ends never
  form a cycle.
\<close>

section \<open>Lookup after updates\<close>

lemma tree_get_update [simp]:
  "tree_get (update_comp cid f t) k = (if k = cid then map_option f (tree_get t k) else tree_get t k)"
  by (auto simp: update_comp_def tree_get_def update_conv' split: option.splits)

lemma update_comp_more [simp]:
  "next_id (update_comp cid f t) = next_id t" "channel_comp_end (update_comp cid f t) = channel_comp_end t"
  "manifests (update_comp cid f t) = manifests t" "user_added_ids (update_comp cid f t) = user_added_ids t"
  "dirty (update_comp cid f t) = dirty t" "component_states (update_comp cid f t) = component_states t"
  "output_channel_ids (update_comp cid f t) = output_channel_ids t" "name_to_comp (update_comp cid f t) = name_to_comp t"
  "names (update_comp cid f t) = names t" "persist_path (update_comp cid f t) = persist_path t"
  by (simp_all add: update_comp_def split: option.splits)

section \<open>The search\<close>

text \<open>The edges that the search follows: the links that a component holds and starts.\<close>

definition leads :: "component_tree \<Rightarrow> (u16 \<times> u16) set" where
  "leads t = {(from_comp l, to_comp l) |l c. tree_get t (from_comp l) = Some c \<and> l \<in> set (vc_links c)}"

lemma leads_iff: "(v, w) \<in> leads t \<longleftrightarrow> (\<exists>c l. tree_get t v = Some c \<and> l \<in> set (vc_links c) \<and> from_comp l = v \<and> to_comp l = w)"
  by (auto simp: leads_def)

lemma push_targets_set:
  "set (push_targets t cur visited stack) = set stack \<union> {w. (cur, w) \<in> leads t \<and> w \<notin> set visited}"
proof (cases "tree_get t cur")
  case None
  then show ?thesis by (auto simp: push_targets_def leads_iff)
next
  case (Some c)
  have "set (fold (\<lambda>l st. if from_comp l = cur \<and> to_comp l \<notin> set visited then to_comp l # st else st) ls stack) =
      set stack \<union> {to_comp l |l. l \<in> set ls \<and> from_comp l = cur \<and> to_comp l \<notin> set visited}" for ls
    by (induction ls arbitrary: stack) auto
  then show ?thesis using Some by (auto simp: push_targets_def leads_iff)
qed

lemma cycle_search_sound:
  assumes "\<not> cycle_search t from stack visited depth" "from \<notin> set visited"
    and "\<And>v w. v \<in> set visited \<Longrightarrow> (v, w) \<in> leads t \<Longrightarrow> w \<in> set visited \<union> set stack"
  shows "\<exists>V. set visited \<union> set stack \<subseteq> V \<and> from \<notin> V \<and> (\<forall>v w. v \<in> V \<longrightarrow> (v, w) \<in> leads t \<longrightarrow> w \<in> V)"
  using assms
proof (induction t "from" stack visited depth rule: cycle_search.induct)
  case (1 t "from" visited depth)
  then show ?case by (intro exI [of _ "set visited"]) auto
next
  case (2 t "from" current stack visited depth)
  then have c: "current \<noteq> from" "\<not> MAX_DEPTH \<le> depth" by (auto split: if_splits)
  show ?case
  proof (cases "current \<in> set visited")
    case True
    have "\<exists>V. set visited \<union> set stack \<subseteq> V \<and> from \<notin> V \<and> (\<forall>v w. v \<in> V \<longrightarrow> (v, w) \<in> leads t \<longrightarrow> w \<in> V)"
    proof (rule "2.IH"(1) [OF c True])
      show "\<not> cycle_search t from stack visited depth" using "2.prems"(1) c True by simp
      show "w \<in> set visited \<union> set stack" if "v \<in> set visited" "(v, w) \<in> leads t" for v w
        using "2.prems"(3) [OF that] True by auto
    qed (rule "2.prems"(2))
    moreover have "set visited \<union> set (current # stack) = set visited \<union> set stack" using True by auto
    ultimately show ?thesis by (simp only:)
  next
    case False
    have "\<exists>V. set (current # visited) \<union> set (push_targets t current (current # visited) stack) \<subseteq> V \<and> from \<notin> V \<and>
        (\<forall>v w. v \<in> V \<longrightarrow> (v, w) \<in> leads t \<longrightarrow> w \<in> V)"
    proof (rule "2.IH"(2) [OF c False])
      show "\<not> cycle_search t from (push_targets t current (current # visited) stack) (current # visited) (depth + 1)"
        using "2.prems"(1) c False by simp
      show "from \<notin> set (current # visited)" using "2.prems"(2) c by simp
      show "w \<in> set (current # visited) \<union> set (push_targets t current (current # visited) stack)"
        if "v \<in> set (current # visited)" "(v, w) \<in> leads t" for v w
        using that "2.prems"(3) [of v w] by (auto simp: push_targets_set)
    qed
    moreover have "set visited \<union> set (current # stack) \<subseteq> set (current # visited) \<union> set (push_targets t current (current # visited) stack)"
      by (auto simp: push_targets_set)
    ultimately show ?thesis by (meson subset_trans)
  qed
qed

lemma cycle_search_complete:
  assumes "cycle_search t from stack visited depth" "unat depth = length visited" "distinct visited"
    and "set visited \<union> set stack \<subseteq> (leads t)\<^sup>* `` {to}"
  shows "(to, from) \<in> (leads t)\<^sup>* \<or> 100 \<le> card ((leads t)\<^sup>* `` {to})"
  using assms
proof (induction t "from" stack visited depth rule: cycle_search.induct)
  case (2 t "from" current stack visited depth)
  consider "current = from" | "current \<noteq> from" "MAX_DEPTH \<le> depth" | "current \<noteq> from" "\<not> MAX_DEPTH \<le> depth" by blast
  then show ?case
  proof cases
    case 1
    then show ?thesis using "2.prems"(4) by auto
  next
    case 2
    then have "100 \<le> card (set visited)"
      using "2.prems"(2,3) by (simp add: MAX_DEPTH_def word_le_nat_alt distinct_card)
    also have "card (set visited) \<le> card ((leads t)\<^sup>* `` {to})" using "2.prems"(4) by (intro card_mono) auto
    finally show ?thesis by simp
  next
    case 3
    show ?thesis
    proof (cases "current \<in> set visited")
      case True
      with 3 "2.IH"(1) "2.prems" show ?thesis by auto
    next
      case False
      have depth: "unat (depth + 1) = length (current # visited)"
        using 3(2) "2.prems"(2) by (simp add: MAX_DEPTH_def word_le_nat_alt unat_word_ariths)
      have "set (push_targets t current (current # visited) stack) \<subseteq> (leads t)\<^sup>* `` {to}"
        using "2.prems"(4) by (auto simp: push_targets_set intro: rtrancl_into_rtrancl)
      with 3 "2.IH"(2) [OF 3 False _ depth] "2.prems" False show ?thesis by auto
    qed
  qed
qed simp

lemma would_create_cycle_sound:
  assumes "\<not> would_create_cycle t from to" "from \<noteq> to"
  shows "(to, from) \<notin> (leads t)\<^sup>*"
proof -
  obtain V where V: "to \<in> V" "from \<notin> V" "\<And>v w. v \<in> V \<Longrightarrow> (v, w) \<in> leads t \<Longrightarrow> w \<in> V"
    using cycle_search_sound [of t "from" "[to]" "[]" 0] assms by (auto simp: would_create_cycle_def)
  have "x \<in> V" if "(to, x) \<in> (leads t)\<^sup>*" for x using that by induction (use V in auto)
  then show ?thesis using V(2) by blast
qed

lemma would_create_cycle_complete:
  assumes "would_create_cycle t from to"
  shows "from \<noteq> to \<and> ((to, from) \<in> (leads t)\<^sup>* \<or> 100 \<le> card ((leads t)\<^sup>* `` {to}))"
  using assms cycle_search_complete [of t "from" "[to]" "[]" 0 to] by (auto simp: would_create_cycle_def split: if_splits)

section \<open>Links at both ends\<close>

text \<open>Every link is held by both components that it connects, and by no other.\<close>

definition both_ends :: "component_tree \<Rightarrow> bool" where
  "both_ends t \<longleftrightarrow> (\<forall>k c l. tree_get t k = Some c \<and> l \<in> set (vc_links c) \<longrightarrow> k \<in> {from_comp l, to_comp l} \<and>
     (\<forall>e\<in>{from_comp l, to_comp l}. \<exists>d. tree_get t e = Some d \<and> l \<in> set (vc_links d)))"

text \<open>The data flow: a link from one component to another, held anywhere.\<close>

definition flows :: "component_tree \<Rightarrow> (u16 \<times> u16) set" where
  "flows t = {(from_comp l, to_comp l) |l k c. tree_get t k = Some c \<and> l \<in> set (vc_links c) \<and> from_comp l \<noteq> to_comp l}"

lemma flows_leads: "both_ends t \<Longrightarrow> flows t \<subseteq> leads t"
  by (fastforce simp: flows_def leads_def both_ends_def)

lemma leads_flows: "leads t \<subseteq> flows t \<union> Id"
  by (fastforce simp: flows_def leads_def)

lemma leads_rtrancl: "both_ends t \<Longrightarrow> (leads t)\<^sup>* = (flows t)\<^sup>*"
proof (rule antisym)
  assume "both_ends t"
  then show "(flows t)\<^sup>* \<subseteq> (leads t)\<^sup>*" by (intro rtrancl_mono flows_leads)
  have "(leads t)\<^sup>* \<subseteq> (flows t \<union> Id)\<^sup>*" by (intro rtrancl_mono leads_flows)
  then show "(leads t)\<^sup>* \<subseteq> (flows t)\<^sup>*" by simp
qed

lemma add_link_get:
  assumes "add_link l t = (True, t')"
  shows "tree_get t' k = map_option (\<lambda>c. if k \<in> {from_comp l, to_comp l} \<and> l \<notin> set (vc_links c) then push_link l c else c) (tree_get t k)"
  using assms by (auto simp: add_link_def Let_def map_option_case split: option.splits if_splits)

lemma vc_links_push [simp]: "vc_links (push_link l c) = vc_links c @ [l]"
  by (simp add: push_link_def)

lemma add_link_links:
  assumes "add_link l t = (True, t')"
  shows "(\<exists>c. tree_get t' k = Some c \<and> m \<in> set (vc_links c)) \<longleftrightarrow>
    (\<exists>c. tree_get t k = Some c \<and> (m \<in> set (vc_links c) \<or> m = l \<and> k \<in> {from_comp l, to_comp l}))"
  using add_link_get [OF assms, of k] by (cases "tree_get t k") auto

text \<open>A tree reads as a set of held links, on which the two predicates depend.\<close>

definition holds :: "component_tree \<Rightarrow> u16 \<Rightarrow> link \<Rightarrow> bool" where
  "holds t k l \<longleftrightarrow> (\<exists>c. tree_get t k = Some c \<and> l \<in> set (vc_links c))"

lemma both_ends_iff:
  "both_ends t \<longleftrightarrow> (\<forall>k l. holds t k l \<longrightarrow> k \<in> {from_comp l, to_comp l} \<and> holds t (from_comp l) l \<and> holds t (to_comp l) l)"
  by (fastforce simp: both_ends_def holds_def)

lemma flows_iff: "(v, w) \<in> flows t \<longleftrightarrow> v \<noteq> w \<and> (\<exists>k l. holds t k l \<and> from_comp l = v \<and> to_comp l = w)"
  by (fastforce simp: flows_def holds_def)

lemma holds_add_link:
  "add_link l t = (True, t') \<Longrightarrow> holds t' k m \<longleftrightarrow> holds t k m \<or> m = l \<and> k \<in> {from_comp l, to_comp l} \<and> tree_get t k \<noteq> None"
  using add_link_links [of l t t' k m] by (auto simp: holds_def)

lemma holds_remove_link:
  "both_ends t \<Longrightarrow> holds (snd (remove_link l t)) k m \<longleftrightarrow> holds t k m \<and> m \<noteq> l"
  by (auto simp: both_ends_iff holds_def remove_link_def Let_def drop_link_def split: if_splits)

lemma both_ends_add_link:
  assumes "both_ends t" "add_link l t = (True, t')" "tree_get t (from_comp l) \<noteq> None"
  shows "both_ends t'"
proof -
  have "tree_get t (to_comp l) \<noteq> None" using assms(2) by (auto simp: add_link_def split: option.splits)
  then show ?thesis using assms(1,3) unfolding both_ends_iff holds_add_link [OF assms(2)] by blast
qed

lemma both_ends_remove_link: "both_ends t \<Longrightarrow> both_ends (snd (remove_link l t))"
  using holds_remove_link [of t] unfolding both_ends_iff [of "snd (remove_link l t)"] by (auto simp: both_ends_iff)

lemma flows_add_link:
  assumes "add_link l t = (True, t')"
  shows "flows t' = (if from_comp l = to_comp l then flows t else insert (from_comp l, to_comp l) (flows t))"
proof -
  have "tree_get t (to_comp l) \<noteq> None" using assms by (auto simp: add_link_def split: option.splits)
  then have "(v, w) \<in> flows t' \<longleftrightarrow> (v, w) \<in> (if from_comp l = to_comp l then flows t else insert (from_comp l, to_comp l) (flows t))" for v w
    unfolding flows_iff holds_add_link [OF assms] by (auto simp: flows_iff)
  then show ?thesis by auto
qed

lemma add_link_acyclic_cases:
  assumes "both_ends t" "acyclic (flows t)" "add_link l t = (True, t')"
  shows "acyclic (flows t')"
proof (cases "from_comp l = to_comp l")
  case True
  then show ?thesis using assms(2) by (simp add: flows_add_link [OF assms(3)])
next
  case False
  have "\<not> would_create_cycle t (from_comp l) (to_comp l)" using assms(3) by (auto simp: add_link_def split: option.splits if_splits)
  then have "(to_comp l, from_comp l) \<notin> (flows t)\<^sup>*"
    using would_create_cycle_sound False leads_rtrancl [OF assms(1)] by metis
  then show ?thesis using assms(2) False by (simp add: flows_add_link [OF assms(3)] acyclic_insert)
qed

section \<open>Properties\<close>

text \<open>C10. The editor cannot wire a loop. On a tree whose links stand at both of their ends and form no cycle, adding a new link between two
  existing components has one of two outcomes. The link is accepted: it stands at both of its ends, no other link has changed and the links form no
  cycle. Or it is refused and nothing has changed: then it would have closed a cycle, or 100 components or more are downstream of its target.\<close>

theorem add_link_keeps_acyclic:
  assumes "both_ends t" "acyclic (flows t)" "tree_get t (from_comp l) \<noteq> None" "tree_get t (to_comp l) = Some c" "l \<notin> set (vc_links c)"
  shows "case add_link l t of
      (True, t') \<Rightarrow> both_ends t' \<and> acyclic (flows t') \<and> (\<forall>k m. holds t' k m \<longleftrightarrow> holds t k m \<or> m = l \<and> k \<in> {from_comp l, to_comp l})
    | (False, t') \<Rightarrow> t' = t \<and> from_comp l \<noteq> to_comp l \<and>
        ((to_comp l, from_comp l) \<in> (flows t)\<^sup>* \<or> 100 \<le> card ((flows t)\<^sup>* `` {to_comp l}))"
proof -
  obtain b t' where add: "add_link l t = (b, t')" by fastforce
  show ?thesis
  proof (cases b)
    case True
    show ?thesis using add assms(3,4) both_ends_add_link [OF assms(1) _ assms(3)] add_link_acyclic_cases [OF assms(1,2)] holds_add_link True
      by auto
  next
    case False
    then have "would_create_cycle t (from_comp l) (to_comp l)" "t' = t" using add assms(4,5) by (auto simp: add_link_def split: if_splits)
    then show ?thesis using would_create_cycle_complete [of t "from_comp l" "to_comp l"] leads_rtrancl [OF assms(1)] add False by simp
  qed
qed

text \<open>Two components that are not linked yet.\<close>

theorem add_link_keeps_acyclic_witness:
  "\<exists>t l. from_comp l = 7 \<and> to_comp l = 8 \<and> l \<notin> set (get_links t 8) \<and> fst (add_link l t) \<and> acyclic (flows (snd (add_link l t))) \<and> l \<in> set (get_links (snd (add_link l t)) 8)"
proof -
  let ?c = "\<lambda>k. folder k 6 ''f'' ''sys::Folder'' 0 11 []"
  let ?t = "tree_new\<lparr>components := [(7, ?c 7), (8, ?c 8)]\<rparr>" and ?l = "\<lparr>from_comp = 7, from_slot = 1, to_comp = 8, to_slot = 2\<rparr>"
  have none: "\<not> holds ?t k l" for k l by (simp add: holds_def tree_get_def folder_def)
  then have "both_ends ?t" "flows ?t = {}" by (auto simp: both_ends_iff flows_iff)
  then have "acyclic (flows ?t)" by (simp add: acyclic_def)
  moreover have get: "tree_get ?t (from_comp ?l) \<noteq> None" "tree_get ?t (to_comp ?l) = Some (?c 8)" "?l \<notin> set (vc_links (?c 8))"
    by (simp_all add: tree_get_def folder_def)
  moreover have add: "fst (add_link ?l ?t)" by code_simp
  moreover obtain t' where t': "add_link ?l ?t = (True, t')" using add by (cases "add_link ?l ?t") auto
  ultimately have "acyclic (flows t')" "holds t' 8 ?l" using add_link_keeps_acyclic [of ?t ?l "?c 8"] \<open>both_ends ?t\<close> by auto
  moreover have "?l \<notin> set (get_links ?t 8)" by code_simp
  ultimately show ?thesis using t' add by (intro exI [of _ ?t] exI [of _ ?l]) (auto simp: holds_def get_links_def)
qed

end
