(* ===== verification/Dyn_Slots.thy ===== *)
theory Dyn_Slots
  imports Wire Floats "HOL-Library.AList"
begin

text \<open>
  The dynamic tags of components (\<open>sox/dyn_slots.rs\<close>): the table of tag names, the store of tags with its limits, computed slots
  and the document that is saved. Hash maps are association lists with distinct keys. The text of a float in a concatenation is
  what \<open>f64::to_string\<close> of the standard library gives, an argument of the definitions. The invariant counts the tags.
\<close>

section \<open>Tag names\<close>

definition COMMON_TAG_NAMES :: "u8 list list" where
  "COMMON_TAG_NAMES = map ascii
     [''dis'', ''navName'', ''unit'', ''kind'', ''point'', ''sensor'', ''cmd'', ''equip'', ''site'', ''geoAddr'', ''geoCoord'', ''tz'', ''modbusAddr'',
      ''modbusReg'', ''modbusType'', ''modbusScale'', ''bacnetObj'', ''bacnetType'', ''bacnetProp'', ''devEUI'', ''appEUI'', ''devAddr'', ''mqttTopic'',
      ''mqttQos'', ''channel'', ''direction'', ''enabled'', ''status'']"

record tag_interner =
  tn_names :: "u8 list list"
  tn_lookup :: "(u8 list \<times> u16) list"

definition tag_intern :: "u8 list \<Rightarrow> (tag_interner, 'e, u16) routine" where
  "tag_intern name t = (case map_of (tn_lookup t) name of
      Some i \<Rightarrow> (Ok i, t)
    | None \<Rightarrow>
        if length (tn_names t) \<ge> 0xFFFF then (Panic, t)
        else let i = of_nat (length (tn_names t))
             in (Ok i, t\<lparr>tn_names := tn_names t @ [name], tn_lookup := AList.update name i (tn_lookup t)\<rparr>))"

definition tag_interner_new :: tag_interner where
  "tag_interner_new = snd (forM COMMON_TAG_NAMES (\<lambda>n. sq (tag_intern n) (ret ())) \<lparr>tn_names = [], tn_lookup = []\<rparr> :: (unit, unit) outcome \<times> _)"

definition tag_resolve :: "tag_interner \<Rightarrow> u16 \<Rightarrow> u8 list option" where
  "tag_resolve t i = (if unat i < length (tn_names t) then Some (tn_names t ! unat i) else None)"

definition tag_get_id :: "tag_interner \<Rightarrow> u8 list \<Rightarrow> u16 option" where
  "tag_get_id t name = map_of (tn_lookup t) name"

definition tag_names_stats :: "tag_interner \<Rightarrow> usize \<times> usize" where
  "tag_names_stats t = (length (tn_names t), sum_list (map length (tn_names t)))"

section \<open>Values and formulas\<close>

datatype dyn_value = DynNull | DynMarker | DynBool bool | DynInt i64 | DynFloat u64 | DynStr "u8 list" | DynRef "u8 list"

datatype numeric_op = OpAdd | OpSub | OpMul | OpDiv

datatype computed_formula =
  Constant dyn_value
| CopyTag "u8 list"
| Concat "u8 list list"
| NumericOp "u8 list" numeric_op "u8 list"
| TagExists "u8 list" dyn_value dyn_value

record computed_slot =
  cs_name :: "u8 list"
  cs_formula :: computed_formula

fun dyn_as_f64 :: "dyn_value \<Rightarrow> f64 option" where
  "dyn_as_f64 (DynFloat f) = Some f"
| "dyn_as_f64 (DynInt i) = Some (f64_of_int (sint i))"
| "dyn_as_f64 _ = None"

definition show_i64 :: "i64 \<Rightarrow> string" where
  "show_i64 v = (if sint v < 0 then ''-'' @ show_nat (nat (- sint v)) else show_nat (nat (sint v)))"

fun to_display_string :: "(f64 \<Rightarrow> u8 list) \<Rightarrow> dyn_value \<Rightarrow> u8 list" where
  "to_display_string f64_text DynNull = []"
| "to_display_string f64_text DynMarker = [0xE2, 0x9C, 0x93]"
| "to_display_string f64_text (DynBool b) = ascii (if b then ''true'' else ''false'')"
| "to_display_string f64_text (DynInt i) = ascii (show_i64 i)"
| "to_display_string f64_text (DynFloat f) = f64_text f"
| "to_display_string f64_text (DynStr s) = s"
| "to_display_string f64_text (DynRef s) = s"

type_synonym tag_map = "(u8 list \<times> dyn_value) list"

section \<open>The store\<close>

record dyn_slot_store =
  ds_slots :: "(u16 \<times> tag_map) list"
  ds_max_per_comp :: usize
  ds_max_total :: usize
  ds_total :: usize
  ds_dirty :: bool
  ds_interner :: tag_interner
  ds_computed :: "(u16 \<times> computed_slot list) list"

definition DEFAULT_MAX_PER_COMP :: usize where "DEFAULT_MAX_PER_COMP = 64"
definition DEFAULT_MAX_TOTAL :: usize where "DEFAULT_MAX_TOTAL = 10000"

definition ds_new :: "usize \<Rightarrow> usize \<Rightarrow> dyn_slot_store" where
  "ds_new per_comp max_tags = \<lparr>ds_slots = [], ds_max_per_comp = per_comp, ds_max_total = max_tags, ds_total = 0, ds_dirty = False,
     ds_interner = tag_interner_new, ds_computed = []\<rparr>"

definition ds_with_defaults :: dyn_slot_store where
  "ds_with_defaults = ds_new DEFAULT_MAX_PER_COMP DEFAULT_MAX_TOTAL"

definition ds_get_all :: "dyn_slot_store \<Rightarrow> u16 \<Rightarrow> tag_map option" where
  "ds_get_all s cid = map_of (ds_slots s) cid"

definition ds_get :: "dyn_slot_store \<Rightarrow> u16 \<Rightarrow> u8 list \<Rightarrow> dyn_value option" where
  "ds_get s cid key = Option.bind (ds_get_all s cid) (\<lambda>tags. map_of tags key)"

definition on_interner :: "(tag_interner, 'e, 'a) routine \<Rightarrow> (dyn_slot_store, 'e, 'a) routine" where
  "on_interner m s = (case m (ds_interner s) of (r, n) \<Rightarrow> (r, s\<lparr>ds_interner := n\<rparr>))"

datatype dyn_error = CompLimit u16 usize usize | TotalLimit usize usize | TagsOverLimit usize usize | NewTotalOverLimit usize usize

text \<open>The entry of the component is created before the limits are checked.\<close>

definition ds_insert :: "u16 \<Rightarrow> u8 list \<Rightarrow> dyn_value \<Rightarrow> (dyn_slot_store, dyn_error, dyn_value option) routine" where
  "ds_insert cid key v s =
     (let tags = (case map_of (ds_slots s) cid of Some m \<Rightarrow> m | None \<Rightarrow> []);
          put = (\<lambda>m. AList.update cid m (ds_slots s))
      in case map_of tags key of
           Some prev \<Rightarrow> (Ok (Some prev), s\<lparr>ds_slots := put (AList.update key v tags), ds_dirty := True\<rparr>)
         | None \<Rightarrow>
             if length tags \<ge> ds_max_per_comp s then (Err (CompLimit cid (length tags) (ds_max_per_comp s)), s\<lparr>ds_slots := put tags\<rparr>)
             else if ds_total s \<ge> ds_max_total s then (Err (TotalLimit (ds_total s) (ds_max_total s)), s\<lparr>ds_slots := put tags\<rparr>)
             else (Ok None, s\<lparr>ds_slots := put (AList.update key v tags), ds_total := ds_total s + 1, ds_dirty := True\<rparr>))"

definition ds_set :: "u16 \<Rightarrow> u8 list \<Rightarrow> dyn_value \<Rightarrow> (dyn_slot_store, dyn_error, dyn_value option) routine" where
  "ds_set cid key v = sq (on_interner (tag_intern key)) (ds_insert cid key v)"

definition ds_remove :: "u16 \<Rightarrow> u8 list \<Rightarrow> (dyn_slot_store, 'e, dyn_value option) routine" where
  "ds_remove cid key s = (case map_of (ds_slots s) cid of
      None \<Rightarrow> (Ok None, s)
    | Some tags \<Rightarrow> (case map_of tags key of
        None \<Rightarrow> (Ok None, s)
      | Some v \<Rightarrow>
          let tags' = AList.delete key tags
          in if ds_total s = 0 then (Panic, s\<lparr>ds_slots := AList.update cid tags' (ds_slots s)\<rparr>)
             else (Ok (Some v), s\<lparr>ds_slots := (if tags' = [] then AList.delete cid (ds_slots s) else AList.update cid tags' (ds_slots s)),
                ds_total := ds_total s - 1, ds_dirty := True\<rparr>)))"

definition ds_set_all :: "u16 \<Rightarrow> tag_map \<Rightarrow> (dyn_slot_store, dyn_error, unit) routine" where
  "ds_set_all cid tags s =
     (if length tags > ds_max_per_comp s then (Err (TagsOverLimit (length tags) (ds_max_per_comp s)), s)
      else let old = (case map_of (ds_slots s) cid of Some m \<Rightarrow> length m | None \<Rightarrow> 0) in
        if ds_total s < old then (Panic, s)
        else let new = ds_total s - old + length tags in
          if new > ds_max_total s then (Err (NewTotalOverLimit new (ds_max_total s)), s)
          else sq (forM (map fst tags) (\<lambda>k. sq (on_interner (tag_intern k)) (ret ())))
            (modify (\<lambda>s. s\<lparr>ds_slots := (if tags = [] then AList.delete cid (ds_slots s) else AList.update cid tags (ds_slots s)),
               ds_total := new, ds_dirty := True\<rparr>)) s)"

definition ds_remove_all :: "u16 \<Rightarrow> (dyn_slot_store, 'e, unit) routine" where
  "ds_remove_all cid = sq
     (\<lambda>s. case map_of (ds_slots s) cid of
        None \<Rightarrow> (Ok (), s)
      | Some tags \<Rightarrow>
          if ds_total s < length tags then (Panic, s\<lparr>ds_slots := AList.delete cid (ds_slots s)\<rparr>)
          else (Ok (), s\<lparr>ds_slots := AList.delete cid (ds_slots s), ds_total := ds_total s - length tags, ds_dirty := True\<rparr>))
     (modify (\<lambda>s. s\<lparr>ds_computed := AList.delete cid (ds_computed s)\<rparr>))"

section \<open>Computed slots\<close>

primrec replace_slot :: "computed_slot \<Rightarrow> computed_slot list \<Rightarrow> computed_slot list" where
  "replace_slot c [] = [c]"
| "replace_slot c (d # ds) = (if cs_name d = cs_name c then c # ds else d # replace_slot c ds)"

definition add_computed :: "u16 \<Rightarrow> computed_slot \<Rightarrow> dyn_slot_store \<Rightarrow> dyn_slot_store" where
  "add_computed cid c s =
     s\<lparr>ds_computed := AList.update cid (replace_slot c (case map_of (ds_computed s) cid of Some cs \<Rightarrow> cs | None \<Rightarrow> [])) (ds_computed s)\<rparr>"

definition remove_computed :: "u16 \<Rightarrow> u8 list \<Rightarrow> dyn_slot_store \<Rightarrow> bool \<times> dyn_slot_store" where
  "remove_computed cid name s = (case map_of (ds_computed s) cid of
      None \<Rightarrow> (False, s)
    | Some cs \<Rightarrow>
        let kept = filter (\<lambda>c. cs_name c \<noteq> name) cs
        in (length kept < length cs,
            s\<lparr>ds_computed := (if kept = [] then AList.delete cid (ds_computed s) else AList.update cid kept (ds_computed s))\<rparr>))"

definition get_computed :: "dyn_slot_store \<Rightarrow> u16 \<Rightarrow> computed_slot list option" where
  "get_computed s cid = map_of (ds_computed s) cid"

fun apply_numeric :: "numeric_op \<Rightarrow> f64 \<Rightarrow> f64 \<Rightarrow> dyn_value" where
  "apply_numeric OpAdd l r = DynFloat (op64 fadd l r)"
| "apply_numeric OpSub l r = DynFloat (op64 fsub l r)"
| "apply_numeric OpMul l r = DynFloat (op64 fmul l r)"
| "apply_numeric OpDiv l r = (if rel64 feq r 0 then DynNull else DynFloat (op64 fdiv l r))"

fun evaluate_formula :: "(f64 \<Rightarrow> u8 list) \<Rightarrow> tag_map option \<Rightarrow> computed_formula \<Rightarrow> dyn_value" where
  "evaluate_formula f64_text tags (Constant v) = v"
| "evaluate_formula f64_text tags (CopyTag src) = (case Option.bind tags (\<lambda>t. map_of t src) of Some v \<Rightarrow> v | None \<Rightarrow> DynNull)"
| "evaluate_formula f64_text tags (Concat srcs) = DynStr (case tags of
      None \<Rightarrow> []
    | Some t \<Rightarrow> concat (map (\<lambda>src. case map_of t src of Some v \<Rightarrow> to_display_string f64_text v | None \<Rightarrow> []) srcs))"
| "evaluate_formula f64_text tags (NumericOp l oper r) =
     (case (Option.bind (Option.bind tags (\<lambda>t. map_of t l)) dyn_as_f64, Option.bind (Option.bind tags (\<lambda>t. map_of t r)) dyn_as_f64) of
        (Some x, Some y) \<Rightarrow> apply_numeric oper x y
      | _ \<Rightarrow> DynNull)"
| "evaluate_formula f64_text tags (TagExists tag a b) = (if Option.bind tags (\<lambda>t. map_of t tag) \<noteq> None then a else b)"

definition get_all_with_computed :: "(f64 \<Rightarrow> u8 list) \<Rightarrow> dyn_slot_store \<Rightarrow> u16 \<Rightarrow> tag_map" where
  "get_all_with_computed f64_text s cid =
     fold (\<lambda>c tags. if map_of tags (cs_name c) = None
                    then AList.update (cs_name c) (evaluate_formula f64_text (map_of (ds_slots s) cid) (cs_formula c)) tags else tags)
       (case map_of (ds_computed s) cid of Some cs \<Rightarrow> cs | None \<Rightarrow> [])
       (case map_of (ds_slots s) cid of Some tags \<Rightarrow> tags | None \<Rightarrow> [])"

section \<open>Counts, flags and persistence\<close>

definition ds_comp_ids :: "dyn_slot_store \<Rightarrow> u16 list" where
  "ds_comp_ids s = map fst (ds_slots s)"

definition tag_count :: "dyn_slot_store \<Rightarrow> u16 \<Rightarrow> usize" where
  "tag_count s cid = (case map_of (ds_slots s) cid of Some tags \<Rightarrow> length tags | None \<Rightarrow> 0)"

definition ds_take_dirty :: "dyn_slot_store \<Rightarrow> bool \<times> dyn_slot_store" where
  "ds_take_dirty s = (ds_dirty s, s\<lparr>ds_dirty := False\<rparr>)"

text \<open>What \<open>save\<close> writes and \<open>load\<close> reads back, \<open>None\<close> for a missing or corrupt file; the JSON text and the file are outside of the model.\<close>

definition ds_save_data :: "dyn_slot_store \<Rightarrow> (u16 \<times> tag_map) list" where
  "ds_save_data s = ds_slots s"

definition total_tags :: "(u16 \<times> tag_map) list \<Rightarrow> nat" where
  "total_tags m = sum_list (map (length \<circ> snd) m)"

definition ds_load_data :: "(u16 \<times> tag_map) list option \<Rightarrow> (dyn_slot_store, 'e, usize) routine" where
  "ds_load_data d = (case d of
      None \<Rightarrow> ret 0
    | Some m \<Rightarrow> sq (forM (concat (map (map fst \<circ> snd) m)) (\<lambda>k. sq (on_interner (tag_intern k)) (ret ())))
        (sq (modify (\<lambda>s. s\<lparr>ds_slots := m, ds_total := total_tags m, ds_dirty := False\<rparr>)) (query (\<lambda>s. Ok (ds_total s)))))"

section \<open>The limits\<close>

text \<open>Every key stands once, the total counts the tags, and the limits are kept.\<close>

definition ds_ok :: "dyn_slot_store \<Rightarrow> bool" where
  "ds_ok s \<longleftrightarrow> distinct (map fst (ds_slots s)) \<and> (\<forall>m\<in>set (map snd (ds_slots s)). distinct (map fst m) \<and> length m \<le> ds_max_per_comp s) \<and>
     ds_total s = total_tags (ds_slots s) \<and> ds_total s \<le> ds_max_total s"

definition count_at :: "(u16 \<times> tag_map) list \<Rightarrow> u16 \<Rightarrow> nat" where
  "count_at m cid = (case map_of m cid of Some tags \<Rightarrow> length tags | None \<Rightarrow> 0)"

lemma total_delete: "distinct (map fst m) \<Longrightarrow> total_tags (AList.delete cid m) + count_at m cid = total_tags m"
proof (induction m)
  case (Cons x m)
  then show ?case by (cases x) (auto simp: total_tags_def count_at_def delete_id)
qed (simp add: total_tags_def count_at_def)

lemma total_update: "distinct (map fst m) \<Longrightarrow> total_tags (AList.update cid tags m) + count_at m cid = total_tags m + length tags"
proof (induction m)
  case (Cons x m)
  then show ?case by (cases x) (auto simp: total_tags_def count_at_def)
qed (simp add: total_tags_def count_at_def)

lemma set_snd_update: "set (map snd (AList.update k v m)) \<subseteq> insert v (set (map snd m))"
  by (induction m) auto

lemma set_snd_delete: "set (map snd (AList.delete k m)) \<subseteq> set (map snd m)"
  by (induction m) auto

lemma length_update_fresh: "map_of m k = None \<Longrightarrow> length (AList.update k v m) = Suc (length m)"
  by (induction m) (auto split: if_splits)

lemma tags_update_old: "map_of m k = Some w \<Longrightarrow> length (AList.update k v m) = length m"
  by (induction m) (auto split: if_splits)

lemma length_delete: "distinct (map fst m) \<Longrightarrow> map_of m k = Some v \<Longrightarrow> Suc (length (AList.delete k m)) = length m"
  by (induction m) (auto simp: delete_id split: if_splits)

text \<open>The new tags of a component, and what remains of the count.\<close>

definition put_tags :: "u16 \<Rightarrow> tag_map \<Rightarrow> (u16 \<times> tag_map) list \<Rightarrow> (u16 \<times> tag_map) list" where
  "put_tags cid tags m = (if tags = [] then AList.delete cid m else AList.update cid tags m)"

lemma put_tags_total: "distinct (map fst m) \<Longrightarrow> total_tags (put_tags cid tags m) + count_at m cid = total_tags m + length tags"
  by (simp add: put_tags_def total_delete total_update)

lemma ds_ok_put:
  assumes "ds_ok s" "distinct (map fst tags)" "length tags \<le> ds_max_per_comp s" "m \<in> {AList.update cid tags (ds_slots s), put_tags cid tags (ds_slots s)}"
    "total_tags m \<le> ds_max_total s"
  shows "ds_ok (s\<lparr>ds_slots := m, ds_total := total_tags m\<rparr>)"
proof -
  have "m = AList.update cid tags (ds_slots s) \<or> m = AList.delete cid (ds_slots s)" using assms(4) by (auto simp: put_tags_def split: if_splits)
  then have "set (map snd m) \<subseteq> insert tags (set (map snd (ds_slots s)))"
    using set_snd_update [of cid tags "ds_slots s"] set_snd_delete [of cid "ds_slots s"] by (elim disjE) (simp_all only: subset_insertI2)
  moreover have "distinct (map fst m)" using assms(1,4) by (auto simp: ds_ok_def put_tags_def distinct_update distinct_delete split: if_splits)
  moreover have "distinct (map fst x) \<and> length x \<le> ds_max_per_comp s" if "x \<in> insert tags (set (map snd (ds_slots s)))" for x
    using assms(1-3) that unfolding ds_ok_def by blast
  ultimately show ?thesis using assms(5) by (auto simp: ds_ok_def)
qed

lemma ds_ok_irrelevant [simp]: "ds_ok (s\<lparr>ds_dirty := d\<rparr>) = ds_ok s" "ds_ok (s\<lparr>ds_interner := i\<rparr>) = ds_ok s" "ds_ok (s\<lparr>ds_computed := c\<rparr>) = ds_ok s"
  by (simp_all add: ds_ok_def)

lemma ds_ok_tags:
  assumes "ds_ok s" "map_of (ds_slots s) cid = Some tags"
  shows "distinct (map fst tags)" "length tags \<le> ds_max_per_comp s" "length tags \<le> ds_total s"
proof -
  have "(cid, tags) \<in> set (ds_slots s)" using assms(2) by (rule map_of_SomeD)
  then have "tags \<in> set (map snd (ds_slots s))" by force
  then show "distinct (map fst tags)" "length tags \<le> ds_max_per_comp s" using assms(1) by (auto simp: ds_ok_def)
  show "length tags \<le> ds_total s" using assms total_delete [of "ds_slots s" cid] by (simp add: ds_ok_def count_at_def)
qed

lemma on_interner_frame: "on_interner m s = (r, s') \<Longrightarrow> \<exists>n. s' = s\<lparr>ds_interner := n\<rparr>"
  by (auto simp: on_interner_def split: prod.splits)

lemma keeps_on_interner [wp]: "keeps ds_ok (on_interner m)"
  by (auto simp: keeps_def on_interner_def split: prod.splits)

lemma keeps_intern_keys [wp]: "keeps ds_ok (forM ks (\<lambda>k. sq (on_interner (tag_intern k)) (ret ())))"
  by (rule wp)+

lemma ds_total_same: "s\<lparr>ds_slots := m, ds_total := ds_total s\<rparr> = s\<lparr>ds_slots := m\<rparr>"
  by simp

lemma ds_insert_ok:
  assumes "ds_ok s"
  shows "ds_ok (snd (ds_insert cid key v s))"
proof -
  define tags where "tags = (case map_of (ds_slots s) cid of Some m \<Rightarrow> m | None \<Rightarrow> [])"
  have tags: "distinct (map fst tags)" "length tags \<le> ds_max_per_comp s" "count_at (ds_slots s) cid = length tags"
    using ds_ok_tags [OF assms] by (auto simp: tags_def count_at_def split: option.splits)
  have put: "ds_ok (s\<lparr>ds_slots := AList.update cid m (ds_slots s), ds_total := n\<rparr>)"
    if "distinct (map fst m)" "length m \<le> ds_max_per_comp s" "n + length tags = ds_total s + length m" "n \<le> ds_max_total s" for m n
  proof -
    have "total_tags (AList.update cid m (ds_slots s)) = n"
      using total_update [of "ds_slots s" cid m] assms tags(3) that(3) by (simp add: ds_ok_def)
    then show ?thesis using ds_ok_put [OF assms that(1,2), of "AList.update cid m (ds_slots s)" cid] that(4) by simp
  qed
  have max: "ds_total s \<le> ds_max_total s" using assms by (simp add: ds_ok_def)
  have same: "ds_ok (s\<lparr>ds_slots := AList.update cid m (ds_slots s)\<rparr>)" if "distinct (map fst m)" "length m = length tags" for m
    using put [of m "ds_total s"] that tags max by (simp add: ds_total_same)
  have one: "ds_ok (s\<lparr>ds_slots := AList.update cid m (ds_slots s), ds_total := ds_total s + 1\<rparr>)"
    if "distinct (map fst m)" "length m = Suc (length tags)" "length tags < ds_max_per_comp s" "ds_total s < ds_max_total s" for m
    using put [of m "ds_total s + 1"] that by simp
  show ?thesis
    using same [of tags] same [of "AList.update key v tags"] one [of "AList.update key v tags"] tags(1) distinct_update [OF tags(1)]
    unfolding ds_insert_def tags_def [symmetric] Let_def
    by (cases "map_of tags key") (simp_all add: tags_update_old length_update_fresh)
qed

lemma keeps_ds_set [wp]: "keeps ds_ok (ds_set cid key v)"
  unfolding ds_set_def by (rule keeps_sq [OF keeps_on_interner]) (simp add: keeps_def ds_insert_ok)

lemma ds_ok_replace:
  assumes "ds_ok s" "map_of (ds_slots s) cid = Some tags" "distinct (map fst new)" "length new \<le> length tags" "n + length tags = ds_total s + length new"
  shows "ds_ok (s\<lparr>ds_slots := put_tags cid new (ds_slots s), ds_total := n\<rparr>)"
proof -
  have "total_tags (put_tags cid new (ds_slots s)) = n"
    using put_tags_total [of "ds_slots s" cid new] assms(1,2,5) by (simp add: ds_ok_def count_at_def)
  moreover have "n \<le> ds_max_total s" using assms(1,4,5) by (simp add: ds_ok_def)
  ultimately show ?thesis using ds_ok_put [OF assms(1,3), of "put_tags cid new (ds_slots s)" cid] ds_ok_tags(2) [OF assms(1,2)] assms(4) by simp
qed

lemma ds_remove_ok:
  assumes "ds_ok s"
  shows "ds_ok (snd (ds_remove cid key s)) \<and> fst (ds_remove cid key s) \<noteq> Panic"
proof (cases "\<exists>tags v. map_of (ds_slots s) cid = Some tags \<and> map_of tags key = Some v")
  case True
  then obtain tags v where t: "map_of (ds_slots s) cid = Some tags" "map_of tags key = Some v" by blast
  have l: "Suc (length (AList.delete key tags)) = length tags" by (rule length_delete [OF ds_ok_tags(1) [OF assms t(1)] t(2)])
  then have pos: "ds_total s \<noteq> 0" using ds_ok_tags(3) [OF assms t(1)] by simp
  have "ds_ok (s\<lparr>ds_slots := put_tags cid (AList.delete key tags) (ds_slots s), ds_total := ds_total s - 1\<rparr>)"
    by (rule ds_ok_replace [OF assms t(1)]) (use l pos distinct_delete [OF ds_ok_tags(1) [OF assms t(1)]] in auto)
  then have "ds_ok (s\<lparr>ds_slots := put_tags cid (AList.delete key tags) (ds_slots s), ds_total := ds_total s - 1, ds_dirty := True\<rparr>)" by simp
  then show ?thesis using pos t by (simp add: ds_remove_def Let_def put_tags_def)
next
  case False
  then show ?thesis using assms by (auto simp: ds_remove_def split: option.splits)
qed

lemma ds_remove_all_ok:
  assumes "ds_ok s"
  shows "ds_ok (snd (ds_remove_all cid s)) \<and> fst (ds_remove_all cid s) \<noteq> Panic"
proof (cases "map_of (ds_slots s) cid")
  case None
  then show ?thesis using assms by (simp add: ds_remove_all_def monad_defs)
next
  case (Some tags)
  have "ds_ok (s\<lparr>ds_slots := put_tags cid [] (ds_slots s), ds_total := ds_total s - length tags\<rparr>)"
    by (rule ds_ok_replace [OF assms Some]) (use ds_ok_tags(3) [OF assms Some] in auto)
  then have "ds_ok (s\<lparr>ds_slots := put_tags cid [] (ds_slots s), ds_total := ds_total s - length tags, ds_dirty := True,
      ds_computed := AList.delete cid (ds_computed s)\<rparr>)" by simp
  then show ?thesis using Some ds_ok_tags(3) [OF assms Some] by (simp add: ds_remove_all_def monad_defs put_tags_def)
qed

lemma ds_set_all_ok:
  assumes "ds_ok s" "distinct (map fst tags)"
  shows "ds_ok (snd (ds_set_all cid tags s))"
proof -
  let ?old = "count_at (ds_slots s) cid" and ?m = "put_tags cid tags (ds_slots s)"
  have old: "?old \<le> ds_total s" using ds_ok_tags(3) [OF assms(1), of cid] by (auto simp: count_at_def split: option.splits)
  have new: "total_tags ?m = ds_total s - ?old + length tags"
    using put_tags_total [of "ds_slots s" cid tags] assms(1) old by (simp add: ds_ok_def)
  have keys: "\<exists>n. snd (forM ks (\<lambda>k. sq (on_interner (tag_intern k)) (ret ())) s :: ('e, unit) outcome \<times> _) = s\<lparr>ds_interner := n\<rparr>" for ks s
  proof (induction ks arbitrary: s)
    case Nil
    show ?case by (intro exI [of _ "ds_interner s"]) (simp add: ret_def)
  next
    case (Cons k ks)
    obtain r n where on: "on_interner (tag_intern k) s = (r :: ('e, u16) outcome, s\<lparr>ds_interner := n\<rparr>)"
      using on_interner_frame by (metis surj_pair)
    show ?case using on Cons [of "s\<lparr>ds_interner := n\<rparr>"] by (cases r) (auto simp: sq_def bnd_def ret_def)
  qed
  show ?thesis
  proof (cases "length tags \<le> ds_max_per_comp s \<and> ds_total s - ?old + length tags \<le> ds_max_total s")
    case True
    then have ok: "ds_ok (s\<lparr>ds_slots := ?m, ds_total := total_tags ?m\<rparr>)" using new by (intro ds_ok_put [OF assms]) auto
    obtain r n where keys': "forM (map fst tags) (\<lambda>k. sq (on_interner (tag_intern k)) (ret ())) s = (r :: (dyn_error, unit) outcome, s\<lparr>ds_interner := n\<rparr>)"
      using keys by (metis surjective_pairing)
    from ok have "ds_ok (s\<lparr>ds_interner := n, ds_slots := ?m, ds_total := ds_total s - ?old + length tags, ds_dirty := True\<rparr>)"
      by (simp add: ds_ok_def new)
    then show ?thesis using True old assms(1) keys'
      by (cases r) (auto simp: ds_set_all_def Let_def count_at_def [symmetric] sq_def bnd_def modify_def put_tags_def)
  next
    case False
    then show ?thesis using assms(1) old by (auto simp: ds_set_all_def Let_def count_at_def [symmetric])
  qed
qed

text \<open>The operations of the store, as its clients call them in any order.\<close>

inductive ds_reach :: "usize \<Rightarrow> usize \<Rightarrow> dyn_slot_store \<Rightarrow> bool" for per_comp max_tags where
  fresh: "ds_reach per_comp max_tags (ds_new per_comp max_tags)"
| set: "ds_reach per_comp max_tags s \<Longrightarrow> ds_reach per_comp max_tags (snd (ds_set cid key v s))"
| set_all: "ds_reach per_comp max_tags s \<Longrightarrow> distinct (map fst tags) \<Longrightarrow> ds_reach per_comp max_tags (snd (ds_set_all cid tags s))"
| remove: "ds_reach per_comp max_tags s \<Longrightarrow> ds_reach per_comp max_tags (snd (ds_remove cid key s :: (unit, _) outcome \<times> _))"
| remove_all: "ds_reach per_comp max_tags s \<Longrightarrow> ds_reach per_comp max_tags (snd (ds_remove_all cid s :: (unit, _) outcome \<times> _))"
| computed: "ds_reach per_comp max_tags s \<Longrightarrow> ds_reach per_comp max_tags (add_computed cid c s)"
| drop_computed: "ds_reach per_comp max_tags s \<Longrightarrow> ds_reach per_comp max_tags (snd (remove_computed cid name s))"
| saved: "ds_reach per_comp max_tags s \<Longrightarrow> ds_reach per_comp max_tags (snd (ds_take_dirty s))"

lemma ds_reach_ok: "ds_reach per_comp max_tags s \<Longrightarrow> ds_ok s"
proof (induction rule: ds_reach.induct)
  case fresh
  show ?case by (simp add: ds_ok_def ds_new_def total_tags_def)
qed (use keeps_ds_set in \<open>auto simp: keeps_def ds_set_all_ok ds_remove_ok ds_remove_all_ok add_computed_def remove_computed_def ds_take_dirty_def Let_def
    split: option.splits\<close>)

section \<open>Properties\<close>



end
