(* ===== verification/Sox_Handlers.thy ===== *)
theory Sox_Handlers
  imports Sox_Links Dyn_Slots "HOL-Library.List_Lexorder"
begin

text \<open>
  The requests of the SOX protocol on the component tree (\<open>sox/sox_handlers.rs\<close>): values on the wire, subscriptions and the events they
  cause, and a definition for every handler of a request that reads or changes the tree. A handler answers with a response, and with
  \<open>Panic\<close> where an addition of the source overflows or an assertion fails; log messages are left out.
\<close>

section \<open>Values on the wire\<close>

definition encode_slot_value :: "slot_value \<Rightarrow> sox_response \<Rightarrow> sox_response" where
  "encode_slot_value v r = (case v of
      SvBool b \<Rightarrow> write_u8 (if b then 1 else 0) r
    | SvInt i \<Rightarrow> write_i32 i r
    | SvLong i \<Rightarrow> r\<lparr>resp_payload := resp_payload r @ to_be 8 i\<rparr>
    | SvFloat f \<Rightarrow> write_f32 f r
    | SvDouble f \<Rightarrow> write_f64 f r
    | SvStr s \<Rightarrow> write_u8 0 (write_bytes s (write_u16 (of_nat (length s + 1)) r))
    | SvBuf b \<Rightarrow> write_bytes b (write_u16 (of_nat (length b)) r)
    | SvNull \<Rightarrow> r)"

definition encode_slot_value_raw :: "slot_value \<Rightarrow> u8 list \<Rightarrow> u8 list" where
  "encode_slot_value_raw v buf = (case v of
      SvBool b \<Rightarrow> buf @ [if b then 1 else 0]
    | SvInt i \<Rightarrow> buf @ to_be 4 i
    | SvLong i \<Rightarrow> buf @ to_be 8 i
    | SvFloat f \<Rightarrow> buf @ to_be 4 f
    | SvDouble f \<Rightarrow> buf @ to_be 8 f
    | SvStr s \<Rightarrow> buf @ to_be 2 (of_nat (length s + 1) :: u16) @ s @ [0]
    | SvBuf b \<Rightarrow> buf @ to_be 2 (of_nat (length b) :: u16) @ b
    | SvNull \<Rightarrow> buf)"

definition decode_slot_value :: "u8 \<Rightarrow> (sox_reader, unit, slot_value) routine" where
  "decode_slot_value type =
     (if type = value_type_byte TBool then bnd read_u8 (\<lambda>v. ret (SvBool (v \<noteq> 0)))
      else if type = value_type_byte TInt then bnd read_i32 (\<lambda>v. ret (SvInt v))
      else if type = value_type_byte TLong then
        (\<lambda>r. if 8 \<le> remaining r then bnd (read_bytes 8) (\<lambda>bs. ret (SvLong (from_be bs))) r else (Err (), r))
      else if type = value_type_byte TFloat then bnd read_f32 (\<lambda>v. ret (SvFloat v))
      else if type = value_type_byte TDouble then bnd read_f64 (\<lambda>v. ret (SvDouble v))
      else if type = value_type_byte TBuf then bnd read_u16 (\<lambda>n. bnd (read_bytes (unat n)) (\<lambda>bs. ret (SvBuf bs)))
      else if type = value_type_byte TByte then bnd read_u8 (\<lambda>v. ret (SvInt (ucast v)))
      else if type = value_type_byte TShort then bnd read_u16 (\<lambda>v. ret (SvInt (ucast v)))
      else ret SvNull)"

section \<open>Subscriptions\<close>

record subscription_manager =
  subscriptions :: "(u16 \<times> u16 list) list"
  by_session :: "(u16 \<times> u16 list) list"

definition subs_new :: subscription_manager where
  "subs_new = \<lparr>subscriptions = [], by_session = []\<rparr>"

text \<open>\<open>entry(k).or_default().insert(x)\<close>, and the removal of an element of a set that drops the set when it becomes empty.\<close>

definition multi_insert :: "'k \<Rightarrow> 'v \<Rightarrow> ('k \<times> 'v list) list \<Rightarrow> ('k \<times> 'v list) list" where
  "multi_insert k x m = AList.update k (List.insert x (case map_of m k of Some xs \<Rightarrow> xs | None \<Rightarrow> [])) m"

definition multi_remove :: "'k \<Rightarrow> 'v \<Rightarrow> ('k \<times> 'v list) list \<Rightarrow> ('k \<times> 'v list) list" where
  "multi_remove k x m = (case map_of m k of
      None \<Rightarrow> m
    | Some xs \<Rightarrow> (let ys = removeAll x xs in if ys = [] then AList.delete k m else AList.update k ys m))"

definition subscribe :: "u16 \<Rightarrow> u16 \<Rightarrow> subscription_manager \<Rightarrow> subscription_manager" where
  "subscribe session cid s = s\<lparr>subscriptions := multi_insert cid session (subscriptions s), by_session := multi_insert session cid (by_session s)\<rparr>"

definition unsubscribe :: "u16 \<Rightarrow> u16 \<Rightarrow> subscription_manager \<Rightarrow> subscription_manager" where
  "unsubscribe session cid s = s\<lparr>subscriptions := multi_remove cid session (subscriptions s), by_session := multi_remove session cid (by_session s)\<rparr>"

definition unsubscribe_all :: "u16 \<Rightarrow> subscription_manager \<Rightarrow> subscription_manager" where
  "unsubscribe_all session s = (case map_of (by_session s) session of
      None \<Rightarrow> s
    | Some cids \<Rightarrow> s\<lparr>by_session := AList.delete session (by_session s),
        subscriptions := fold (\<lambda>cid m. multi_remove cid session m) cids (subscriptions s)\<rparr>)"

definition get_watchers :: "subscription_manager \<Rightarrow> u16 \<Rightarrow> u16 list option" where
  "get_watchers s cid = map_of (subscriptions s) cid"

definition is_subscribed :: "subscription_manager \<Rightarrow> u16 \<Rightarrow> u16 \<Rightarrow> bool" where
  "is_subscribed s session cid \<longleftrightarrow> (case map_of (subscriptions s) cid of Some xs \<Rightarrow> session \<in> set xs | None \<Rightarrow> False)"

definition total_subscriptions :: "subscription_manager \<Rightarrow> usize" where
  "total_subscriptions s = sum_list (map (length \<circ> snd) (subscriptions s))"

definition session_components :: "subscription_manager \<Rightarrow> u16 \<Rightarrow> u16 list option" where
  "session_components s session = map_of (by_session s) session"

definition is_action :: "virtual_slot \<Rightarrow> bool" where
  "is_action sl \<longleftrightarrow> vs_flags sl AND SLOT_FLAG_ACTION \<noteq> 0"

definition is_config :: "virtual_slot \<Rightarrow> bool" where
  "is_config sl \<longleftrightarrow> vs_flags sl AND SLOT_FLAG_CONFIG \<noteq> 0"

definition event_payload :: "u16 \<Rightarrow> char \<Rightarrow> virtual_slot list \<Rightarrow> u8 list" where
  "event_payload cid what slots =
     fold (\<lambda>sl buf. encode_slot_value_raw (vs_value sl) buf) slots ([of_char CHR ''e'', 0xFF] @ to_be 2 cid @ [of_char what])"

definition build_events :: "subscription_manager \<Rightarrow> u16 list \<Rightarrow> component_tree \<Rightarrow> (u16 \<times> u8 list) list" where
  "build_events s changed t = concat (map (\<lambda>cid.
     if \<not> is_channel_comp t cid then []
     else case tree_get t cid of
       None \<Rightarrow> []
     | Some c \<Rightarrow> (case map_of (subscriptions s) cid of
         None \<Rightarrow> []
       | Some watchers \<Rightarrow>
           map (\<lambda>session. (session, event_payload cid CHR ''r'' (filter (\<lambda>sl. \<not> is_action sl \<and> \<not> is_config sl) (vc_slots c)))) watchers)) changed)"

definition build_config_events :: "subscription_manager \<Rightarrow> u16 \<Rightarrow> component_tree \<Rightarrow> (u16 \<times> u8 list) list" where
  "build_config_events s cid t = (case tree_get t cid of
      None \<Rightarrow> []
    | Some c \<Rightarrow> (case map_of (subscriptions s) cid of
        None \<Rightarrow> []
      | Some watchers \<Rightarrow>
          map (\<lambda>session. (session, event_payload cid CHR ''c'' (filter (\<lambda>sl. \<not> is_action sl \<and> is_config sl) (vc_slots c)))) watchers))"

section \<open>Arguments of a request\<close>

definition error_msg :: "sox_cmd \<Rightarrow> u8 \<Rightarrow> string \<Rightarrow> sox_response" where
  "error_msg c i msg = write_str (ascii msg) (response_error c i)"

text \<open>An argument that must be there, and one with a default.\<close>

definition need :: "(sox_reader, unit, 'a) routine \<Rightarrow> string \<Rightarrow> (sox_reader, string, 'a) routine" where
  "need m msg r = (case m r of (Ok a, r') \<Rightarrow> (Ok a, r') | (Err _, r') \<Rightarrow> (Err msg, r') | (Panic, r') \<Rightarrow> (Panic, r'))"

definition or_default :: "(sox_reader, unit, 'a) routine \<Rightarrow> 'a \<Rightarrow> (sox_reader, string, 'a) routine" where
  "or_default m d r = (case m r of (Ok a, r') \<Rightarrow> (Ok a, r') | (Err _, r') \<Rightarrow> (Ok d, r') | (Panic, r') \<Rightarrow> (Panic, r'))"

text \<open>A handler reads its arguments first and answers with an error message when one is missing.\<close>

definition with_args :: "sox_request \<Rightarrow> (sox_reader, string, 'a) routine \<Rightarrow> ('a \<Rightarrow> ('s, 'e, sox_response) routine) \<Rightarrow> ('s, 'e, sox_response) routine" where
  "with_args req args body = (case fst (args (reader_new (req_payload req))) of
      Ok a \<Rightarrow> body a
    | Err msg \<Rightarrow> ret (error_msg (req_cmd req) (req_id req) msg)
    | Panic \<Rightarrow> panic)"

abbreviation refuse :: "sox_request \<Rightarrow> string \<Rightarrow> ('s, 'e, sox_response) routine" where
  "refuse req msg \<equiv> ret (error_msg (req_cmd req) (req_id req) msg)"

abbreviation accept :: "sox_request \<Rightarrow> sox_cmd \<Rightarrow> ('s, 'e, sox_response) routine" where
  "accept req c \<equiv> ret (response_success c (req_id req))"

section \<open>Reading\<close>

record kit_info =
  kit_name :: string
  kit_checksum :: u32
  kit_version :: string

definition kit :: "string \<Rightarrow> u32 \<Rightarrow> string \<Rightarrow> kit_info" where
  "kit n c v = \<lparr>kit_name = n, kit_checksum = c, kit_version = v\<rparr>"

definition DEFAULT_KITS :: "kit_info list" where
  "DEFAULT_KITS =
     [kit ''sys'' 0xd3984c51 ''1.2.28'', kit ''EacIo'' 0x6f9da65b ''1.2.30'', kit ''control'' 0x808b7db3 ''1.2.28'',
      kit ''driver'' 0xb4cc82ce ''1.2.28'', kit ''func'' 0x821b7396 ''1.2.28'', kit ''hvac'' 0x7264c67c ''1.2.28'',
      kit ''inet'' 0x25648ba7 ''1.2.28'', kit ''logic'' 0x9fe95ce1 ''1.2.28'', kit ''math'' 0xc22b255c ''1.2.28'',
      kit ''platUnix'' 0x751711ab ''1.2.28'', kit ''pricomp'' 0xb5cd6698 ''1.2.28'', kit ''shaystack'' 0xedf7a27c ''1.2'',
      kit ''sox'' 0x397a84dd ''1.2.28'', kit ''types'' 0x10936551 ''1.2.28'', kit ''web'' 0x0d0dd007 ''1.2.29'']"

definition handle_read_schema :: "sox_request \<Rightarrow> sox_response" where
  "handle_read_schema req = fold (\<lambda>k r. write_u32 (kit_checksum k) (write_str (ascii (kit_name k)) r)) DEFAULT_KITS
     (write_u8 (of_nat (length DEFAULT_KITS)) (response_success ReadSchema (req_id req)))"

definition handle_read_version :: "sox_request \<Rightarrow> sox_response" where
  "handle_read_version req =
     write_str (ascii ''1.1'') (write_str (ascii ''soxVer'') (write_u8 1
       (fold (\<lambda>k. write_str (ascii (kit_version k))) DEFAULT_KITS
         (write_u8 0 (write_str (ascii ''EacIo'') (response_success ReadVersion (req_id req)))))))"

definition encode_dyn_value :: "dyn_value \<Rightarrow> sox_response \<Rightarrow> sox_response" where
  "encode_dyn_value v r = (case v of
      DynNull \<Rightarrow> write_u8 0 r
    | DynMarker \<Rightarrow> write_u8 1 r
    | DynBool b \<Rightarrow> write_u8 (if b then 1 else 0) (write_u8 2 r)
    | DynInt i \<Rightarrow> write_i32 (ucast i) (write_u8 3 r)
    | DynFloat f \<Rightarrow> write_f32 (f64_to_f32 f) (write_u8 4 r)
    | DynStr s \<Rightarrow> write_str s (write_u8 5 r)
    | DynRef s \<Rightarrow> write_str s (write_u8 6 r))"

definition handle_read_comp_dynamic :: "u16 \<Rightarrow> (u16 \<Rightarrow> tag_map) option \<Rightarrow> sox_response \<Rightarrow> sox_response" where
  "handle_read_comp_dynamic cid dyn r = (case dyn of
      Some tags \<Rightarrow> fold (\<lambda>(k, v) r. encode_dyn_value v (write_str k r)) (sort_key fst (tags cid)) (write_u16 (of_nat (length (tags cid))) r)
    | None \<Rightarrow> write_u16 0 r)"

definition write_comp_tree :: "virtual_component \<Rightarrow> sox_response \<Rightarrow> sox_response" where
  "write_comp_tree c r = fold write_u16 (vc_children c) (write_u8 (of_nat (length (vc_children c))) (write_u8 0xFF (write_u16 (vc_parent c)
     (write_str (vc_name c) (write_u8 (vc_type c) (write_u8 (vc_kit c) r))))))"

definition write_comp_slots :: "bool \<Rightarrow> virtual_component \<Rightarrow> sox_response \<Rightarrow> sox_response" where
  "write_comp_slots config c r =
     fold (\<lambda>sl. encode_slot_value (vs_value sl)) (filter (\<lambda>sl. \<not> is_action sl \<and> is_config sl = config) (vc_slots c)) r"

definition write_comp_links :: "virtual_component \<Rightarrow> sox_response \<Rightarrow> sox_response" where
  "write_comp_links c r =
     write_u16 0xFFFF (fold (\<lambda>l r. write_u8 (to_slot l) (write_u16 (to_comp l) (write_u8 (from_slot l) (write_u16 (from_comp l) r)))) (vc_links c) r)"

definition write_comp :: "u8 \<Rightarrow> virtual_component \<Rightarrow> sox_response \<Rightarrow> sox_response" where
  "write_comp what c r =
     (if what = of_char CHR ''t'' then write_comp_tree c r
      else if what = of_char CHR ''c'' then write_comp_slots True c r
      else if what = of_char CHR ''r'' then write_comp_slots False c r
      else if what = of_char CHR ''l'' then write_comp_links c r
      else r)"

definition handle_read_comp :: "(u16 \<Rightarrow> tag_map) option \<Rightarrow> sox_request \<Rightarrow> (component_tree, 'e, sox_response) routine" where
  "handle_read_comp dyn req = with_args req
     (bnd (need read_u16 ''missing compId'') (\<lambda>cid. bnd (or_default read_u8 (of_char CHR ''t'')) (\<lambda>what. ret (cid, what))))
     (\<lambda>(cid, what) t. case tree_get t cid of
        None \<Rightarrow> refuse req ''unknown comp'' t
      | Some c \<Rightarrow>
          let r = write_u8 what (write_u16 (vc_id c) (response_success ReadComp (req_id req)))
          in ret (if what = of_char CHR ''d'' then handle_read_comp_dynamic cid dyn r else write_comp what c r) t)"

definition slot_at :: "component_tree \<Rightarrow> u16 \<Rightarrow> u8 \<Rightarrow> virtual_slot option" where
  "slot_at t cid sid = (case tree_get t cid of
      None \<Rightarrow> None
    | Some c \<Rightarrow> if unat sid < length (vc_slots c) then Some (vc_slots c ! unat sid) else None)"

definition handle_read_prop :: "sox_request \<Rightarrow> (component_tree, 'e, sox_response) routine" where
  "handle_read_prop req = with_args req
     (bnd (need read_u16 ''missing compId'') (\<lambda>cid. bnd (need read_u8 ''missing slotId'') (\<lambda>sid. ret (cid, sid))))
     (\<lambda>(cid, sid) t. if tree_get t cid = None then refuse req ''unknown comp'' t
        else let r = write_u8 sid (write_u16 cid (response_success ReadProp (req_id req)))
             in ret (case slot_at t cid sid of
                   None \<Rightarrow> write_f32 0 (write_u8 (value_type_byte TFloat) r)
                 | Some sl \<Rightarrow> encode_slot_value (vs_value sl) (write_u8 (vs_type sl) r)) t)"

section \<open>Subscribing\<close>

primrec read_ids :: "nat \<Rightarrow> (sox_reader, string, u16 list) routine" where
  "read_ids 0 = ret []"
| "read_ids (Suc n) = bnd (or_default (bnd read_u16 (\<lambda>v. ret [v])) []) (\<lambda>xs. bnd (read_ids n) (\<lambda>ys. ret (xs @ ys)))"

definition handle_subscribe :: "sox_request \<Rightarrow> u16 \<Rightarrow> component_tree \<Rightarrow> (subscription_manager, 'e, sox_response) routine" where
  "handle_subscribe req session t =
     (if length (req_payload req) = 3
      then with_args req
        (bnd (or_default read_u16 0) (\<lambda>cid. bnd (or_default read_u8 (of_char CHR ''t'')) (\<lambda>what. ret (cid, what))))
        (\<lambda>(cid, what). sq (modify (\<lambda>s. fold (subscribe session) (collect_subtree t cid []) (subscribe session cid s)))
           (let r = response_success Subscribe (req_id req)
            in ret (case tree_get t cid of None \<Rightarrow> r | Some c \<Rightarrow> write_comp what c (write_u8 what (write_u16 cid r)))))
      else with_args req
        (bnd (or_default read_u8 0xFF) (\<lambda>mask. bnd (or_default read_u8 0) (\<lambda>count.
           if count = 0 then ret (comp_ids t) else read_ids (unat count))))
        (\<lambda>cids. let all = fold (collect_subtree t) cids []
                in sq (modify (fold (subscribe session) all))
                     (ret (write_u8 (of_nat (min (length all) 255)) (response_success Subscribe (req_id req))))))"

definition handle_unsubscribe :: "sox_request \<Rightarrow> u16 \<Rightarrow> (subscription_manager, 'e, sox_response) routine" where
  "handle_unsubscribe req session = with_args req
     (bnd (need read_u16 ''missing compId'') (\<lambda>cid. bnd (or_default read_u8 0xFF) (\<lambda>_. ret cid)))
     (\<lambda>cid. sq (modify (unsubscribe session cid)) (accept req Unsubscribe))"

section \<open>Changing the tree\<close>

definition meta_slot :: virtual_slot where
  "meta_slot = slot_of ''meta'' TInt SLOT_FLAG_CONFIG (SvInt 1)"

definition action_slot :: "string \<Rightarrow> sox_value_type \<Rightarrow> slot_value \<Rightarrow> virtual_slot" where
  "action_slot name ty v = slot_of name ty SLOT_FLAG_ACTION v"

definition float_slot :: "string \<Rightarrow> u8 \<Rightarrow> virtual_slot" where
  "float_slot name fl = slot_of name TFloat fl (SvFloat 0)"

definition void_action :: "string \<Rightarrow> virtual_slot" where
  "void_action name = action_slot name TVoid SvNull"

definition default_slots_for_type :: "u8 \<Rightarrow> u8 \<Rightarrow> virtual_slot list" where
  "default_slots_for_type kid tid =
     (if kid = 2 \<and> tid = 14 then
        [meta_slot, float_slot ''out'' SLOT_FLAG_CONFIG, action_slot ''set'' TFloat (SvFloat 0), void_action ''setNull'']
      else if kid = 2 \<and> tid = 15 then
        [meta_slot, slot_of ''out'' TInt SLOT_FLAG_CONFIG (SvInt 0), action_slot ''set'' TInt (SvInt 0)]
      else if kid = 2 \<and> tid \<in> {3, 49, 37} then
        [meta_slot, float_slot ''out'' SLOT_FLAG_RUNTIME, float_slot ''in1'' SLOT_FLAG_RUNTIME, float_slot ''in2'' SLOT_FLAG_RUNTIME]
      else if kid = 2 \<and> tid = 18 then
        [meta_slot, float_slot ''out'' SLOT_FLAG_RUNTIME, float_slot ''in1'' SLOT_FLAG_RUNTIME, float_slot ''in2'' SLOT_FLAG_RUNTIME,
         slot_of ''div0'' TBool SLOT_FLAG_RUNTIME (SvBool False)]
      else if kid = 2 \<and> tid = 13 then
        [meta_slot, slot_of ''out'' TBool SLOT_FLAG_CONFIG (SvBool False), void_action ''setTrue'', void_action ''setFalse'', void_action ''setNull'']
      else if kid = 2 \<and> tid = 56 then
        [meta_slot, slot_of ''in'' TBool SLOT_FLAG_CONFIG (SvBool False), slot_of ''out'' TBool SLOT_FLAG_RUNTIME (SvBool False),
         void_action ''setTrue'', void_action ''setFalse'', void_action ''setNull'']
      else if kid = 2 \<and> tid = 57 then
        [meta_slot, float_slot ''in'' SLOT_FLAG_CONFIG, float_slot ''out'' SLOT_FLAG_RUNTIME, action_slot ''set'' TFloat (SvFloat 0),
         void_action ''setNull'']
      else if kid = 2 \<and> tid = 58 then
        [meta_slot, slot_of ''in'' TInt SLOT_FLAG_CONFIG (SvInt 0), slot_of ''out'' TInt SLOT_FLAG_RUNTIME (SvInt 0), action_slot ''set'' TInt (SvInt 0)]
      else if kid = 1 \<and> tid = 100 then
        [meta_slot, slot_of ''channelId'' TInt SLOT_FLAG_CONFIG (SvInt 0), float_slot ''out'' SLOT_FLAG_RUNTIME,
         slot_of ''status'' TBuf SLOT_FLAG_RUNTIME (SvStr [])]
      else [meta_slot])"

text \<open>The characters of a text.\<close>

function utf8_chars :: "u8 list \<Rightarrow> u8 list list" where
  "utf8_chars bs = (if bs = [] then [] else take (snd (utf8_chunk bs)) bs # utf8_chars (drop (snd (utf8_chunk bs)) bs))"
  by auto

termination
  by (relation "measure length") (use utf8_chunk_pos in auto)

declare utf8_chars.simps [simp del]

definition char_is :: "(u8 \<Rightarrow> bool) \<Rightarrow> u8 list \<Rightarrow> bool" where
  "char_is P c \<longleftrightarrow> (case c of [b] \<Rightarrow> P b | _ \<Rightarrow> False)"

definition validate_sox_name :: "u8 list \<Rightarrow> string option" where
  "validate_sox_name name =
     (if name = [] then Some ''name cannot be empty''
      else if length name > MAX_NAME_LEN then Some ''name too long (max 31 chars)''
      else if \<not> (case utf8_chars name of c # _ \<Rightarrow> char_is is_ascii_alphabetic c | [] \<Rightarrow> False) then Some ''name must start with a letter''
      else if \<not> list_all (\<lambda>c. char_is is_ascii_alphanumeric c \<or> c = [of_char CHR ''_'']) (utf8_chars name)
      then Some ''name can only contain letters, numbers, and underscores''
      else None)"

definition new_slots :: "component_tree \<Rightarrow> u8 \<Rightarrow> u8 \<Rightarrow> virtual_slot list" where
  "new_slots t kid tid = (case get_slots (manifests t) kid tid of
      Some ms \<Rightarrow> slots_to_virtual ms
    | None \<Rightarrow> default_slots_for_type kid tid)"

definition new_component :: "component_tree \<Rightarrow> u16 \<Rightarrow> u16 \<Rightarrow> u8 \<Rightarrow> u8 \<Rightarrow> u8 list \<Rightarrow> virtual_component" where
  "new_component t cid parent kid tid name = \<lparr>vc_id = cid, vc_parent = parent, vc_name = name,
     vc_type_name = ascii (''kit'' @ show_nat (unat kid) @ ''::type'' @ show_nat (unat tid)), vc_kit = kid, vc_type = tid,
     vc_children = [], vc_slots = new_slots t kid tid, vc_links = []\<rparr>"

definition handle_add :: "sox_request \<Rightarrow> (component_tree, 'e, sox_response) routine" where
  "handle_add req = with_args req
     (bnd (need read_u16 ''missing parentId'') (\<lambda>parent. bnd (or_default read_u8 0) (\<lambda>kid. bnd (or_default read_u8 0) (\<lambda>tid.
        bnd (or_default read_str []) (\<lambda>name. ret (parent, kid, tid, name))))))
     (\<lambda>(parent, kid, tid, name) t. case validate_sox_name name of
        Some err \<Rightarrow> refuse req err t
      | None \<Rightarrow>
          if tree_get t parent = None then refuse req ''bad compId'' t
          else bnd (query next_comp_id) (\<lambda>new_id.
                 bnd (query (\<lambda>t. Ok (new_component t new_id parent kid tid name))) (\<lambda>c.
                 sq (tree_add c) (sq (modify (mark_user_added new_id))
                   (ret (write_u16 new_id (response_success AddCmd (req_id req))))))) t)"

definition forget_user_added :: "u16 \<Rightarrow> component_tree \<Rightarrow> component_tree" where
  "forget_user_added cid t = mark_dirty (t\<lparr>user_added_ids := removeAll cid (user_added_ids t)\<rparr>)"

definition handle_delete :: "sox_request \<Rightarrow> (component_tree, 'e, sox_response) routine" where
  "handle_delete req = with_args req (need read_u16 ''missing compId'')
     (\<lambda>cid t. if cid < 7 then refuse req ''cannot delete system component'' t
        else let was_user_added = is_user_added t cid
             in case tree_remove cid t of
                  (None, t') \<Rightarrow> refuse req ''bad compId'' t'
                | (Some _, t') \<Rightarrow> accept req Delete (if was_user_added then forget_user_added cid t' else t'))"

definition dirty_if_user_added :: "u16 \<Rightarrow> component_tree \<Rightarrow> component_tree" where
  "dirty_if_user_added cid t = (if is_user_added t cid then mark_dirty t else t)"

definition handle_rename :: "sox_request \<Rightarrow> (component_tree, 'e, sox_response) routine" where
  "handle_rename req = with_args req
     (bnd (need read_u16 ''missing compId'') (\<lambda>cid. bnd (or_default read_str []) (\<lambda>name. ret (cid, name))))
     (\<lambda>(cid, name). case validate_sox_name name of
        Some err \<Rightarrow> refuse req err
      | None \<Rightarrow> bnd (tree_rename cid name) (\<lambda>found.
          if found then sq (modify (dirty_if_user_added cid)) (accept req Rename) else refuse req ''bad compId''))"

definition dirty_if_either :: "link \<Rightarrow> component_tree \<Rightarrow> component_tree" where
  "dirty_if_either l t = (if is_user_added t (from_comp l) \<or> is_user_added t (to_comp l) then mark_dirty t else t)"

definition link_args :: "(sox_reader, string, u8 \<times> link) routine" where
  "link_args = bnd (need read_u8 ''missing subcmd'') (\<lambda>sub. bnd (need read_u16 ''missing fromCompId'') (\<lambda>fc.
     bnd (need read_u8 ''missing fromSlotId'') (\<lambda>fs. bnd (need read_u16 ''missing toCompId'') (\<lambda>tc.
     bnd (need read_u8 ''missing toSlotId'') (\<lambda>ts. ret (sub, \<lparr>from_comp = fc, from_slot = fs, to_comp = tc, to_slot = ts\<rparr>))))))"

definition handle_link :: "sox_request \<Rightarrow> (component_tree, 'e, sox_response) routine" where
  "handle_link req = with_args req link_args
     (\<lambda>(sub, l) t.
        if sub = of_char CHR ''a'' then
          if would_create_cycle t (from_comp l) (to_comp l) then refuse req ''link rejected: would create cycle'' t
          else (case add_link l t of
              (True, t') \<Rightarrow> accept req LinkCmd (dirty_if_either l t')
            | (False, t') \<Rightarrow> refuse req ''link add failed'' t')
        else if sub = of_char CHR ''d'' then
          (case remove_link l t of
              (True, t') \<Rightarrow> accept req LinkCmd (dirty_if_either l t')
            | (False, t') \<Rightarrow> refuse req ''link not found'' t')
        else refuse req ''unknown link subcmd'' t)"

primrec need_ids :: "nat \<Rightarrow> (sox_reader, string, u16 list) routine" where
  "need_ids 0 = ret []"
| "need_ids (Suc n) = bnd (need read_u16 ''missing childId'') (\<lambda>x. bnd (need_ids n) (\<lambda>xs. ret (x # xs)))"

definition handle_reorder :: "sox_request \<Rightarrow> (component_tree, 'e, sox_response) routine" where
  "handle_reorder req = with_args req
     (bnd (need read_u16 ''missing parentId'') (\<lambda>parent. bnd (need read_u8 ''missing childCount'') (\<lambda>count.
        bnd (need_ids (unat count)) (\<lambda>ids. ret (parent, ids)))))
     (\<lambda>(parent, ids) t. case reorder_children parent ids t of
        (True, t') \<Rightarrow> accept req Reorder t'
      | (False, t') \<Rightarrow> refuse req ''reorder failed'' t')"

text \<open>The target of an action: the slot \<open>out\<close>, or else the slot \<open>in\<close>, that is not itself an action.\<close>

definition invoke_target :: "virtual_component \<Rightarrow> virtual_slot option" where
  "invoke_target c = (case find (\<lambda>sl. vs_name sl = ascii ''out'' \<and> \<not> is_action sl) (vc_slots c) of
      Some sl \<Rightarrow> Some sl
    | None \<Rightarrow> find (\<lambda>sl. vs_name sl = ascii ''in'' \<and> \<not> is_action sl) (vc_slots c))"

definition some_value :: "(sox_reader, unit, slot_value) routine \<Rightarrow> (sox_reader, string, slot_value option) routine" where
  "some_value m = or_default (bnd m (\<lambda>v. ret (Some v))) None"

definition action_value :: "u8 list \<Rightarrow> u8 \<Rightarrow> (sox_reader, string, slot_value option) routine" where
  "action_value action type =
     (if action = ascii ''set'' then
        if type = value_type_byte TInt then some_value (bnd read_i32 (\<lambda>v. ret (SvInt v)))
        else if type = value_type_byte TBool then some_value (bnd read_u8 (\<lambda>v. ret (SvBool (v \<noteq> 0))))
        else some_value (bnd read_f32 (\<lambda>v. ret (SvFloat v)))
      else if action = ascii ''setTrue'' then ret (Some (SvBool True))
      else if action = ascii ''setFalse'' then ret (Some (SvBool False))
      else if action = ascii ''setNull'' then ret (Some SvNull)
      else if action = ascii ''save'' \<or> action = ascii ''hibernate'' then ret None
      else some_value (bnd read_f32 (\<lambda>v. ret (SvFloat v))))"

primrec set_first :: "u8 list \<Rightarrow> slot_value \<Rightarrow> virtual_slot list \<Rightarrow> virtual_slot list" where
  "set_first name v [] = []"
| "set_first name v (sl # sls) = (if vs_name sl = name then sl\<lparr>vs_value := v\<rparr> # sls else sl # set_first name v sls)"

definition handle_invoke :: "sox_request \<Rightarrow> (component_tree, 'e, sox_response) routine" where
  "handle_invoke req t = with_args req
     (bnd (or_default read_u16 0) (\<lambda>cid. bnd (or_default read_u8 0) (\<lambda>sid.
        let action = (case slot_at t cid sid of Some sl \<Rightarrow> vs_name sl | None \<Rightarrow> []);
            target = Option.bind (tree_get t cid) invoke_target;
            tname = (case target of Some sl \<Rightarrow> vs_name sl | None \<Rightarrow> []);
            ttype = (case target of Some sl \<Rightarrow> vs_type sl | None \<Rightarrow> value_type_byte TFloat)
        in bnd (action_value action ttype) (\<lambda>v. ret (cid, tname, v)))))
     (\<lambda>(cid, tname, v). sq
        (case v of
           None \<Rightarrow> ret ()
         | Some x \<Rightarrow> sq (modify (update_comp cid (\<lambda>c. c\<lparr>vc_slots := set_first tname x (vc_slots c)\<rparr>))) (modify (dirty_if_user_added cid)))
        (accept req Invoke)) t"

text \<open>A write beyond the last slot extends the component with empty slots of the written type.\<close>

definition extend_slots :: "nat \<Rightarrow> u8 \<Rightarrow> virtual_slot list \<Rightarrow> virtual_slot list" where
  "extend_slots n type slots = slots @ map (\<lambda>i. \<lparr>vs_name = ascii (''slot'' @ show_nat i), vs_type = type, vs_flags = SLOT_FLAG_RUNTIME, vs_value = SvNull\<rparr>)
     [length slots..<n]"

definition write_slot :: "u8 \<Rightarrow> u8 \<Rightarrow> slot_value \<Rightarrow> virtual_component \<Rightarrow> virtual_component" where
  "write_slot sid type v c =
     (let slots = extend_slots (unat sid + 1) type (vc_slots c)
      in c\<lparr>vc_slots := slots[unat sid := (slots ! unat sid)\<lparr>vs_type := type, vs_value := v\<rparr>]\<rparr>)"

definition slot_type :: "component_tree \<Rightarrow> u16 \<Rightarrow> u8 \<Rightarrow> u8" where
  "slot_type t cid sid = (case slot_at t cid sid of Some sl \<Rightarrow> vs_type sl | None \<Rightarrow> value_type_byte TFloat)"

definition write_args :: "component_tree \<Rightarrow> (sox_reader, string, u16 \<times> u8 \<times> slot_value) routine" where
  "write_args t = bnd (need read_u16 ''missing compId'') (\<lambda>cid. bnd (need read_u8 ''missing slotId'') (\<lambda>sid.
     bnd (need (decode_slot_value (slot_type t cid sid)) ''bad value'') (\<lambda>v. ret (cid, sid, v))))"

definition handle_write :: "sox_request \<Rightarrow> (component_tree, 'e, sox_response) routine" where
  "handle_write req t = with_args req (write_args t)
     (\<lambda>(cid, sid, v) t. if tree_get t cid = None then refuse req ''unknown comp'' t
        else sq (modify (update_comp cid (write_slot sid (slot_type t cid sid) v)))
               (sq (modify (dirty_if_user_added cid)) (accept req WriteCmd)) t) t"

section \<open>Writes that reach the engine\<close>

record write_request =
  wr_comp :: u16
  wr_slot :: u8
  wr_value :: slot_value

definition parse_write_request :: "sox_request \<Rightarrow> component_tree \<Rightarrow> write_request option" where
  "parse_write_request req t =
     (if req_cmd req \<noteq> WriteCmd then None
      else case fst (write_args t (reader_new (req_payload req))) of
        Ok (cid, sid, v) \<Rightarrow> Some \<lparr>wr_comp = cid, wr_slot = sid, wr_value = v\<rparr>
      | _ \<Rightarrow> None)"

definition value_as_f64 :: "slot_value \<Rightarrow> f64 option" where
  "value_as_f64 v = (case v of
      SvFloat f \<Rightarrow> Some (f32_to_f64 f)
    | SvDouble d \<Rightarrow> Some d
    | SvInt i \<Rightarrow> Some (f64_of_int (sint i))
    | _ \<Rightarrow> None)"

definition channel_of :: "virtual_component \<Rightarrow> u32 option" where
  "channel_of c = (if 2 < length (vc_slots c) then (case vs_value (vc_slots c ! 2) of SvInt i \<Rightarrow> Some i | _ \<Rightarrow> None) else None)"

definition to_channel_write :: "write_request \<Rightarrow> component_tree \<Rightarrow> (u32 \<times> f64) option" where
  "to_channel_write w t =
     (if wr_comp w < CHANNEL_COMP_BASE \<or> wr_slot w \<noteq> 6 then None
      else Option.bind (tree_get t (wr_comp w)) (\<lambda>c. Option.bind (channel_of c) (\<lambda>ch. map_option (Pair ch) (value_as_f64 (wr_value w)))))"

end
