(* ===== verification/Sox_Execute.thy ===== *)
theory Sox_Execute
  imports Sox_Links
begin

text \<open>
  The data flow of the component tree (\<open>sox/sox_handlers.rs\<close>): values from the channels, transfers along the links, the function
  blocks of the control kit, the bridge between channels and constants, and the writes that go back to the engine. One tick
  runs these in this order. Numbers in slots are single precision floats, given by their bit patterns.
\<close>

section \<open>Single precision\<close>

abbreviation add32 :: "u32 \<Rightarrow> u32 \<Rightarrow> u32" where "add32 \<equiv> op32 fadd"
abbreviation sub32 :: "u32 \<Rightarrow> u32 \<Rightarrow> u32" where "sub32 \<equiv> op32 fsub"
abbreviation mul32 :: "u32 \<Rightarrow> u32 \<Rightarrow> u32" where "mul32 \<equiv> op32 fmul"
abbreviation div32 :: "u32 \<Rightarrow> u32 \<Rightarrow> u32" where "div32 \<equiv> op32 fdiv"
abbreviation lt32 :: "u32 \<Rightarrow> u32 \<Rightarrow> bool" where "lt32 \<equiv> rel32 flt"
abbreviation le32 :: "u32 \<Rightarrow> u32 \<Rightarrow> bool" where "le32 \<equiv> rel32 fle"
abbreviation eq32 :: "u32 \<Rightarrow> u32 \<Rightarrow> bool" where "eq32 \<equiv> rel32 feq"

text \<open>\<open>f32::round\<close>, \<open>f32::floor\<close> and \<open>f32::powi\<close> of the standard library.\<close>

definition round32 :: "u32 \<Rightarrow> u32" where
  "round32 a = (case decode F32 (unat a) of
      FFin neg m e \<Rightarrow> (if 0 \<le> e then a
        else of_nat (encode F32 (FFin neg ((2 * m + 2 ^ nat (- e)) div (2 * 2 ^ nat (- e))) 0)))
    | _ \<Rightarrow> a)"

definition floor32 :: "u32 \<Rightarrow> u32" where
  "floor32 a = (case decode F32 (unat a) of
      FFin neg m e \<Rightarrow> (if 0 \<le> e then a
        else of_nat (encode F32 (FFin neg (if neg then (m + 2 ^ nat (- e) - 1) div 2 ^ nat (- e) else m div 2 ^ nat (- e)) 0)))
    | _ \<Rightarrow> a)"

fun powi32_loop :: "u32 \<Rightarrow> nat \<Rightarrow> u32 \<Rightarrow> u32" where
  "powi32_loop a n r =
     (let r' = (if odd n then mul32 r a else r)
      in if n div 2 = 0 then r' else powi32_loop (mul32 a a) (n div 2) r')"

declare powi32_loop.simps [simp del]

definition one32 :: u32 where "one32 = 0x3F800000"
definition ten32 :: u32 where "ten32 = 0x41200000"
definition two32 :: u32 where "two32 = 0x40000000"

definition powi32 :: "u32 \<Rightarrow> i32 \<Rightarrow> u32" where
  "powi32 a k = (let r = powi32_loop a (nat \<bar>sint k\<bar>) one32 in if sint k < 0 then div32 one32 r else r)"

section \<open>Slots\<close>

definition slot_value_at :: "virtual_slot list \<Rightarrow> nat \<Rightarrow> slot_value option" where
  "slot_value_at slots i = (if i < length slots then Some (vs_value (slots ! i)) else None)"

definition slot_float :: "virtual_slot list \<Rightarrow> nat \<Rightarrow> u32" where
  "slot_float slots i = (case slot_value_at slots i of
      Some (SvFloat v) \<Rightarrow> v
    | Some (SvInt v) \<Rightarrow> f32_of_int (sint v)
    | _ \<Rightarrow> 0)"

definition slot_bool :: "virtual_slot list \<Rightarrow> nat \<Rightarrow> bool" where
  "slot_bool slots i = (case slot_value_at slots i of Some (SvBool v) \<Rightarrow> v | _ \<Rightarrow> False)"

definition slot_int :: "virtual_slot list \<Rightarrow> nat \<Rightarrow> i32" where
  "slot_int slots i = (case slot_value_at slots i of
      Some (SvInt v) \<Rightarrow> v
    | Some (SvFloat v) \<Rightarrow> f32_to_i32 v
    | _ \<Rightarrow> 0)"

text \<open>A slot takes a value that differs from its own; the flag tells whether it did.\<close>

definition put_value :: "nat \<Rightarrow> slot_value \<Rightarrow> virtual_slot list \<Rightarrow> bool \<times> virtual_slot list" where
  "put_value i v slots =
     (if i < length slots \<and> \<not> slot_value_eq (vs_value (slots ! i)) v
      then (True, slots[i := (slots ! i)\<lparr>vs_value := v\<rparr>]) else (False, slots))"

definition assign_slot :: "u16 \<Rightarrow> nat \<Rightarrow> slot_value \<Rightarrow> component_tree \<Rightarrow> bool \<times> component_tree" where
  "assign_slot cid i v t = (case tree_get t cid of
      None \<Rightarrow> (False, t)
    | Some c \<Rightarrow> (fst (put_value i v (vc_slots c)), update_comp cid (\<lambda>c. c\<lparr>vc_slots := snd (put_value i v (vc_slots c))\<rparr>) t))"

section \<open>Values from the channels\<close>

definition slots_differ :: "virtual_slot list \<Rightarrow> virtual_slot list \<Rightarrow> bool" where
  "slots_differ a b \<longleftrightarrow> length a \<noteq> length b \<or> list_ex (\<lambda>(x, y). \<not> slot_value_eq (vs_value x) (vs_value y)) (zip a b)"

definition keep_meta :: "virtual_slot list \<Rightarrow> virtual_slot list \<Rightarrow> virtual_slot list" where
  "keep_meta old new = (case (old, new) of
      (m # _, n # ns) \<Rightarrow> if vs_name m = ascii ''meta'' \<and> vs_name n = ascii ''meta'' then n\<lparr>vs_value := vs_value m\<rparr> # ns else new
    | _ \<Rightarrow> new)"

text \<open>The state of the loop: the changed components and the new values of output channels.\<close>

type_synonym channel_changes = "u16 list \<times> (i32 \<times> slot_value) list"

definition update_channel :: "nat \<times> channel_info \<Rightarrow> component_tree \<times> channel_changes \<Rightarrow> ('e, component_tree \<times> channel_changes) outcome" where
  "update_channel x acc = (case (x, acc) of ((i, ch), (t, changed, outs)) \<Rightarrow>
     if 100 + i mod 65536 \<ge> 65536 then Panic
     else let cid = CHANNEL_COMP_BASE + of_nat i in
       case tree_get t cid of
         None \<Rightarrow> Ok (t, changed, outs)
       | Some c \<Rightarrow>
           let new = keep_meta (vc_slots c) (channel_slots ch)
           in if slots_differ (vc_slots c) new
              then Ok (update_comp cid (\<lambda>c. c\<lparr>vc_slots := new\<rparr>) t, changed @ [cid],
                     if ci_id ch \<in> set (output_channel_ids t) \<and> 6 < length new then outs @ [(ci_id ch, vs_value (new ! 6))] else outs)
              else Ok (t, changed, outs))"

fun foldO :: "('a \<Rightarrow> 'b \<Rightarrow> ('e, 'b) outcome) \<Rightarrow> 'a list \<Rightarrow> 'b \<Rightarrow> ('e, 'b) outcome" where
  "foldO f [] b = Ok b"
| "foldO f (x # xs) b = bindO (f x b) (foldO f xs)"

text \<open>The decimal text of an \<open>i32\<close>.\<close>

definition show_int32 :: "i32 \<Rightarrow> string" where
  "show_int32 v = (if sint v < 0 then ''-'' @ show_nat (nat (- sint v)) else show_nat (nat (sint v)))"

definition sync_output :: "i32 \<times> slot_value \<Rightarrow> component_tree \<times> u16 list \<Rightarrow> component_tree \<times> u16 list" where
  "sync_output x acc = (case (x, acc) of ((ch, v), (t, changed)) \<Rightarrow>
     (case lookup_by_name t (ascii (''ch'' @ show_int32 ch)) of
        None \<Rightarrow> (t, changed)
      | Some cid \<Rightarrow> if \<not> is_user_added t cid then (t, changed)
          else (case assign_slot cid 1 v t of (b, t') \<Rightarrow> (t', if b then changed @ [cid] else changed))))"

definition update_from_channels :: "channel_info list \<Rightarrow> component_tree \<Rightarrow> ('e, component_tree \<times> u16 list) outcome" where
  "update_from_channels channels t = bindO (foldO update_channel (List.enumerate 0 channels) (t, [], []))
     (\<lambda>(t', changed, outs). Ok (fold sync_output outs (t', changed)))"

section \<open>Links\<close>

definition link_transfers :: "component_tree \<Rightarrow> (slot_value \<times> u16 \<times> u8) list" where
  "link_transfers t = concat (map (\<lambda>(_, c). List.map_filter (\<lambda>l.
     if vc_id c \<noteq> to_comp l then None
     else Option.bind (tree_get t (from_comp l)) (\<lambda>src. map_option (\<lambda>v. (v, to_comp l, to_slot l)) (slot_value_at (vc_slots src) (unat (from_slot l)))))
       (vc_links c)) (components t))"

definition apply_transfer :: "slot_value \<times> u16 \<times> u8 \<Rightarrow> component_tree \<times> u16 list \<Rightarrow> component_tree \<times> u16 list" where
  "apply_transfer x acc = (case (x, acc) of ((v, cid, sid), (t, changed)) \<Rightarrow>
     (case assign_slot cid (unat sid) v t of (b, t') \<Rightarrow> (t', if b then List.insert cid changed else changed)))"

definition execute_links :: "component_tree \<Rightarrow> component_tree \<times> u16 list" where
  "execute_links t = fold apply_transfer (link_transfers t) (t, [])"

section \<open>Function blocks\<close>

type_synonym slot_updates = "(nat \<times> slot_value) list"

definition eval_arithmetic :: "u8 \<Rightarrow> virtual_slot list \<Rightarrow> slot_updates" where
  "eval_arithmetic tid s =
     (let in1 = slot_float s 2; in2 = slot_float s 3; in3 = slot_float s 4; in4 = slot_float s 5 in
      if tid = 3 then [(1, SvFloat (add32 in1 in2))]
      else if tid = 49 then [(1, SvFloat (sub32 in1 in2))]
      else if tid = 37 then [(1, SvFloat (mul32 in1 in2))]
      else if tid = 18 then
        (let div0 = eq32 in2 0 in [(1, SvFloat (if div0 then 0 else div32 in1 in2)), (4, SvBool div0)])
      else if tid = 4 then [(1, SvFloat (add32 (add32 (add32 in1 in2) in3) in4))]
      else if tid = 50 then [(1, SvFloat (sub32 (sub32 (sub32 in1 in2) in3) in4))]
      else if tid = 38 then [(1, SvFloat (mul32 (mul32 (mul32 in1 in2) in3) in4))]
      else [])"

definition eval_unary :: "u8 \<Rightarrow> virtual_slot list \<Rightarrow> slot_updates" where
  "eval_unary tid s =
     (if tid = 39 then [(1, SvFloat (neg32 (slot_float s 2)))]
      else if tid = 23 then [(1, SvFloat (add32 (slot_float s 2) (slot_float s 3)))]
      else if tid = 34 then [(1, SvFloat (if lt32 (slot_float s 3) (slot_float s 2) then slot_float s 2 else slot_float s 3))]
      else if tid = 35 then [(1, SvFloat (if lt32 (slot_float s 2) (slot_float s 3) then slot_float s 2 else slot_float s 3))]
      else if tid = 32 then
        (let v = slot_float s 2; low = slot_float s 3; high = slot_float s 4
         in [(1, SvFloat (if lt32 v low then low else if lt32 high v then high else v))])
      else if tid = 47 then
        (let factor = powi32 ten32 (slot_int s 3) in [(1, SvFloat (div32 (round32 (mul32 (slot_float s 2) factor)) factor))])
      else [])"

definition eval_logic :: "u8 \<Rightarrow> virtual_slot list \<Rightarrow> slot_updates" where
  "eval_logic tid s =
     (let in1 = slot_bool s 2; in2 = slot_bool s 3; in3 = slot_bool s 4; in4 = slot_bool s 5 in
      if tid = 5 then [(1, SvBool (in1 \<and> in2))]
      else if tid = 6 then [(1, SvBool (in1 \<and> in2 \<and> in3 \<and> in4))]
      else if tid = 42 then [(1, SvBool (in1 \<or> in2))]
      else if tid = 43 then [(1, SvBool (in1 \<or> in2 \<or> in3 \<or> in4))]
      else if tid = 40 then [(1, SvBool (\<not> in1))]
      else if tid = 59 then [(1, SvBool (in1 \<noteq> in2))]
      else [])"

definition eval_select :: "u8 \<Rightarrow> virtual_slot list \<Rightarrow> slot_updates" where
  "eval_select tid s =
     (if tid = 12 then
        (let x = slot_float s 4; y = slot_float s 5 in [(1, SvBool (lt32 y x)), (2, SvBool (eq32 x y)), (3, SvBool (lt32 x y))])
      else if tid = 10 then [(1, SvBool (slot_bool s 2))]
      else if tid = 22 then [(1, SvInt (f32_to_i32 (slot_float s 2)))]
      else if tid = 26 then [(1, SvFloat (f32_of_int (sint (slot_int s 2))))]
      else if tid = 1 then [(1, SvFloat (if slot_bool s 2 then slot_float s 4 else slot_float s 3))]
      else if tid = 11 then [(1, SvBool (if slot_bool s 2 then slot_bool s 4 else slot_bool s 3))]
      else if tid = 28 then [(1, SvInt (if slot_bool s 2 then slot_int s 4 else slot_int s 3))]
      else [])"

definition eval_control :: "u8 \<Rightarrow> virtual_slot list \<Rightarrow> slot_updates" where
  "eval_control tid s =
     (if tid = 25 then
        (let v = slot_float s 2; rising = slot_float s 3; falling = slot_float s 4
         in [(1, SvBool (if slot_bool s 1 then le32 falling v else le32 rising v))])
      else if tid = 48 then [(1, SvBool (if slot_bool s 3 then False else if slot_bool s 2 then True else slot_bool s 1))]
      else if tid = 46 then
        (let in_low = slot_float s 3; out_low = slot_float s 5; range = sub32 (slot_float s 4) in_low
         in [(1, SvFloat (if eq32 range 0 then out_low
              else add32 out_low (mul32 (div32 (sub32 (slot_float s 2) in_low) range) (sub32 (slot_float s 6) out_low))))])
      else if tid = 57 then [(1, SvFloat (slot_float s 2))]
      else if tid = 56 then [(1, SvBool (slot_bool s 2))]
      else if tid = 58 then [(1, SvInt (slot_int s 2))]
      else if tid = 31 then
        (let n = slot_int s 3
         in if 0 <s n then [(1, SvInt (let stage = f32_to_i32 (floor32 (mul32 (slot_float s 2) (f32_of_int (sint n))))
              in if stage <s 0 then 0 else if n <s stage then n else stage))]
            else [])
      else [])"

definition eval_tstat :: "virtual_slot list \<Rightarrow> slot_updates" where
  "eval_tstat s =
     (let half_db = div32 (slot_float s 1) two32; sp = slot_float s 3; cv = slot_float s 4; current = slot_bool s 5;
          (out, rise, fall) =
            (if slot_bool s 2 then
               if lt32 cv (sub32 sp half_db) then (True, True, False)
               else if lt32 (add32 sp half_db) cv then (False, False, True)
               else (current, False, False)
             else
               if lt32 (add32 sp half_db) cv then (True, False, True)
               else if lt32 cv (sub32 sp half_db) then (False, True, False)
               else (current, False, False))
      in [(5, SvBool out), (6, SvBool rise), (7, SvBool fall)])"

definition eval_updn :: "virtual_slot list \<Rightarrow> slot_updates" where
  "eval_updn s =
     (let step = slot_float s 4; lo = slot_float s 5; hi = slot_float s 6;
          o1 = (if slot_bool s 2 then let x = add32 (slot_float s 1) step in if lt32 hi x then hi else x else slot_float s 1);
          o2 = (if slot_bool s 3 then let x = sub32 o1 step in if lt32 x lo then lo else x else o1)
      in [(1, SvFloat o2)])"

text \<open>Counters are 32-bit and overflow.\<close>

definition inc_i32 :: "i32 \<Rightarrow> ('e, i32) outcome" where
  "inc_i32 v = (if v = 0x7FFFFFFF then Panic else Ok (v + 1))"

definition eval_timed :: "u8 \<Rightarrow> virtual_slot list \<Rightarrow> component_state \<Rightarrow> ('e, slot_updates \<times> component_state) outcome" where
  "eval_timed tid s st =
     (if tid = 20 then
        if slot_bool s 2
        then bindO (inc_i32 (st_counter st)) (\<lambda>n. Ok ([(1, SvBool (f32_to_i32 (slot_float s 3) \<le>s n))], st\<lparr>st_counter := n\<rparr>))
        else Ok ([(1, SvBool False)], st\<lparr>st_counter := 0\<rparr>)
      else if tid = 19 then
        if \<not> slot_bool s 2
        then bindO (inc_i32 (st_counter st)) (\<lambda>n. Ok ([(1, SvBool (n <s f32_to_i32 (slot_float s 3)))], st\<lparr>st_counter := n\<rparr>))
        else Ok ([(1, SvBool True)], st\<lparr>st_counter := 0\<rparr>)
      else if tid = 16 then
        (let input = slot_bool s 2; preset = slot_int s 3 in
         bindO (if input \<and> \<not> st_prev_bool st
                then bindO (inc_i32 (slot_int s 1)) (\<lambda>n. Ok (if 0 <s preset \<and> preset \<le>s n then 0 else n))
                else Ok (slot_int s 1)) (\<lambda>n. Ok ([(1, SvInt n)], st\<lparr>st_prev_bool := input\<rparr>)))
      else
        (let lo = slot_float s 2; hi = slot_float s 3; d = (if st_direction st = 0 then 1 else st_direction st);
             x = add32 (slot_float s 1) (mul32 (slot_float s 4) (f32_of_int (sint d)))
         in if le32 hi x then Ok ([(1, SvFloat hi)], st\<lparr>st_direction := -1\<rparr>)
            else if le32 x lo then Ok ([(1, SvFloat lo)], st\<lparr>st_direction := 1\<rparr>)
            else Ok ([(1, SvFloat x)], st\<lparr>st_direction := d\<rparr>)))"

definition arithmetic_types :: "u8 list" where "arithmetic_types = [3, 49, 37, 18, 4, 50, 38]"
definition unary_types :: "u8 list" where "unary_types = [39, 23, 34, 35, 32, 47]"
definition logic_types :: "u8 list" where "logic_types = [5, 6, 42, 43, 40, 59]"
definition select_types :: "u8 list" where "select_types = [12, 10, 22, 26, 1, 11, 28]"
definition control_types :: "u8 list" where "control_types = [25, 48, 46, 57, 56, 58, 31]"
definition timed_types :: "u8 list" where "timed_types = [19, 20, 16, 44]"

text \<open>The types that are evaluated; the reader of a channel is one of them and has no updates of its own.\<close>

definition is_evaluated :: "virtual_component \<Rightarrow> bool" where
  "is_evaluated c \<longleftrightarrow> vc_kit c = 2 \<and> vc_type c \<in> set (arithmetic_types @ unary_types @ logic_types @ select_types @ control_types @ timed_types @ [54, 55]) \<or>
     vc_kit c = 1 \<and> vc_type c = 100"

definition evaluate :: "component_tree \<Rightarrow> virtual_component \<Rightarrow> ('e, slot_updates \<times> component_state option) outcome" where
  "evaluate t c =
     (let tid = vc_type c; s = vc_slots c in
      if tid \<in> set arithmetic_types then Ok (eval_arithmetic tid s, None)
      else if tid \<in> set unary_types then Ok (eval_unary tid s, None)
      else if tid \<in> set logic_types then Ok (eval_logic tid s, None)
      else if tid \<in> set select_types then Ok (eval_select tid s, None)
      else if tid \<in> set control_types then Ok (eval_control tid s, None)
      else if tid \<in> set timed_types then
        bindO (eval_timed tid s (case map_of (component_states t) (vc_id c) of Some st \<Rightarrow> st | None \<Rightarrow> default_state)) (\<lambda>(us, st). Ok (us, Some st))
      else if tid = 54 then Ok (eval_tstat s, None)
      else if tid = 55 then Ok (eval_updn s, None)
      else Ok ([], None))"

definition evaluate_all :: "component_tree \<Rightarrow> ('e, (u16 \<times> slot_updates \<times> component_state option) list) outcome" where
  "evaluate_all t = foldO (\<lambda>cid us. case tree_get t cid of
       None \<Rightarrow> Ok us
     | Some c \<Rightarrow> bindO (evaluate t c) (\<lambda>(u, st). Ok (if u \<noteq> [] \<or> st \<noteq> None then us @ [(cid, u, st)] else us)))
     (map (vc_id \<circ> snd) (filter (is_evaluated \<circ> snd) (components t))) []"

definition apply_slot_update :: "u16 \<Rightarrow> nat \<times> slot_value \<Rightarrow> component_tree \<times> bool \<Rightarrow> component_tree \<times> bool" where
  "apply_slot_update cid u acc = (case (u, acc) of ((i, v), (t, b)) \<Rightarrow> (case assign_slot cid i v t of (b', t') \<Rightarrow> (t', b \<or> b')))"

definition apply_update :: "u16 \<times> slot_updates \<times> component_state option \<Rightarrow> component_tree \<times> u16 list \<Rightarrow> component_tree \<times> u16 list" where
  "apply_update x acc = (case (x, acc) of ((cid, us, st), (t, changed)) \<Rightarrow>
     (case fold (apply_slot_update cid) us (t, False) of (t1, b) \<Rightarrow>
        (case st of Some st' \<Rightarrow> t1\<lparr>component_states := AList.update cid st' (component_states t1)\<rparr> | None \<Rightarrow> t1,
         if b then changed @ [cid] else changed)))"

section \<open>The bridge to the channels\<close>

text \<open>\<open>str::parse::<i32>()\<close>.\<close>

definition parse_i32 :: "u8 list \<Rightarrow> i32 option" where
  "parse_i32 s =
     (let neg = (s \<noteq> [] \<and> hd s = of_char CHR ''-''); ds = (if s \<noteq> [] \<and> (hd s = of_char CHR ''-'' \<or> hd s = of_char CHR ''+'') then tl s else s)
      in if ds = [] \<or> \<not> list_all (\<lambda>b. of_char CHR ''0'' \<le> b \<and> b \<le> of_char CHR ''9'') ds then None
         else let n = foldl (\<lambda>n d. n * 10 + int (unat d - 48)) 0 ds; v = (if neg then - n else n)
              in if - (2 ^ 31) \<le> v \<and> v < 2 ^ 31 then Some (of_int v) else None)"

fun trim_start_ch :: "u8 list \<Rightarrow> u8 list" where
  "trim_start_ch (a # b # s) = (if a = of_char CHR ''c'' \<and> b = of_char CHR ''h'' then trim_start_ch s else a # b # s)"
| "trim_start_ch s = s"

definition channel_in_name :: "u8 list \<Rightarrow> i32 option" where
  "channel_in_name name =
     (if take 2 name = ascii ''ch'' then parse_i32 (dropWhile (\<lambda>b. b = of_char CHR ''_'') (trim_start_ch name)) else None)"

text \<open>The components that take the value of a channel (with the slot that receives it), and those that give theirs to one.\<close>

definition bridge_of :: "component_tree \<Rightarrow> virtual_component \<Rightarrow> ((u16 \<times> i32 \<times> nat) + (u16 \<times> i32 \<times> nat)) option" where
  "bridge_of t c =
     (if vc_kit c = 1 \<and> vc_type c = 100 then
        (let ch = slot_int (vc_slots c) 1 in if 0 <s ch then Some (Inl (vc_id c, ch, 2)) else None)
      else if is_user_added t (vc_id c) then
        (case channel_in_name (vc_name c) of
           Some ch \<Rightarrow> if 0 <s ch then Some (if ch \<in> set (output_channel_ids t) then Inr (vc_id c, ch, 1) else Inl (vc_id c, ch, 1)) else None
         | None \<Rightarrow> None)
      else None)"

definition channel_comp :: "component_tree \<Rightarrow> i32 \<Rightarrow> virtual_component option" where
  "channel_comp t ch = find (\<lambda>c. is_channel_comp t (vc_id c) \<and> slot_value_at (vc_slots c) 2 = Some (SvInt ch)) (map snd (components t))"

definition put_and_note :: "u16 \<Rightarrow> nat \<Rightarrow> slot_value \<Rightarrow> component_tree \<times> u16 list \<Rightarrow> component_tree \<times> u16 list" where
  "put_and_note cid i v acc = (case acc of (t, changed) \<Rightarrow> (case assign_slot cid i v t of (b, t') \<Rightarrow> (t', if b then changed @ [cid] else changed)))"

definition bridge_in :: "u16 \<times> i32 \<times> nat \<Rightarrow> component_tree \<times> u16 list \<Rightarrow> component_tree \<times> u16 list" where
  "bridge_in x acc = (case (x, acc) of ((cid, ch, i), (t, changed)) \<Rightarrow>
     (case Option.bind (channel_comp t ch) (\<lambda>c. slot_value_at (vc_slots c) 6) of
        Some v \<Rightarrow> put_and_note cid i v (t, changed)
      | None \<Rightarrow> (t, changed)))"

definition bridge_out :: "u16 \<times> i32 \<times> nat \<Rightarrow> component_tree \<times> u16 list \<Rightarrow> component_tree \<times> u16 list" where
  "bridge_out x acc = (case (x, acc) of ((cid, ch, i), (t, changed)) \<Rightarrow>
     (case Option.bind (tree_get t cid) (\<lambda>c. slot_value_at (vc_slots c) i) of
        None \<Rightarrow> (t, changed)
      | Some v \<Rightarrow> (case channel_comp t ch of
          Some c \<Rightarrow> put_and_note (vc_id c) 6 v (t, changed)
        | None \<Rightarrow> (t, changed))))"

definition run_bridges :: "component_tree \<times> u16 list \<Rightarrow> component_tree \<times> u16 list" where
  "run_bridges acc =
     (let bs = List.map_filter (bridge_of (fst acc)) (map snd (components (fst acc)));
          ins = List.map_filter (\<lambda>b. case b of Inl x \<Rightarrow> Some x | Inr _ \<Rightarrow> None) bs;
          outs = List.map_filter (\<lambda>b. case b of Inr x \<Rightarrow> Some x | Inl _ \<Rightarrow> None) bs
      in fold bridge_out outs (fold bridge_in ins acc))"

definition execute_components :: "component_tree \<Rightarrow> ('e, component_tree \<times> u16 list) outcome" where
  "execute_components t = bindO (evaluate_all t) (\<lambda>us. Ok (run_bridges (fold apply_update us (t, []))))"

section \<open>Writes to the engine\<close>

definition slot_number :: "slot_value \<Rightarrow> f64 option" where
  "slot_number v = (case v of
      SvFloat f \<Rightarrow> Some (f32_to_f64 f)
    | SvDouble d \<Rightarrow> Some d
    | SvInt i \<Rightarrow> Some (f64_of_int (sint i))
    | _ \<Rightarrow> None)"

definition channel_write_of :: "component_tree \<Rightarrow> u16 \<Rightarrow> (u32 \<times> f64) option" where
  "channel_write_of t cid =
     (if \<not> is_channel_comp t cid then None
      else Option.bind (tree_get t cid) (\<lambda>c. case slot_value_at (vc_slots c) 2 of
        Some (SvInt ch) \<Rightarrow>
          if list_ex (\<lambda>l. to_comp l = cid \<and> to_slot l = 6) (vc_links c) \<or> ch \<in> set (output_channel_ids t)
          then map_option (Pair ch) (Option.bind (slot_value_at (vc_slots c) 6) slot_number)
          else None
      | _ \<Rightarrow> None))"

definition collect_channel_writes :: "component_tree \<Rightarrow> u16 list \<Rightarrow> (u32 \<times> f64) list" where
  "collect_channel_writes t changed = List.map_filter (channel_write_of t) changed"

end
