(* ===== verification/Sox_Invariants.thy ===== *)
theory Sox_Invariants
  imports Sox_Handlers Sox_Execute
begin

text \<open>
  The invariant of the component tree, that every operation keeps it, and what the data flow leaves alone.
\<close>

section \<open>The shape of a tree\<close>

text \<open>A component without the values of its slots, and what the data flow of the tree never changes.\<close>

definition skeleton :: "virtual_component \<Rightarrow> virtual_component" where
  "skeleton c = c\<lparr>vc_slots := []\<rparr>"

definition shape :: "component_tree \<Rightarrow> u16 \<Rightarrow> virtual_component option" where
  "shape t k = map_option skeleton (tree_get t k)"

text \<open>Everything but the values of slots and the state of the function blocks.\<close>

definition frame_of :: "component_tree \<Rightarrow> component_tree" where
  "frame_of t = t\<lparr>components := map (\<lambda>(k, c). (k, skeleton c)) (components t), component_states := []\<rparr>"

lemma skeleton_simps [simp]:
  "vc_id (skeleton c) = vc_id c" "vc_parent (skeleton c) = vc_parent c" "vc_name (skeleton c) = vc_name c"
  "vc_children (skeleton c) = vc_children c" "vc_links (skeleton c) = vc_links c" "vc_kit (skeleton c) = vc_kit c" "vc_type (skeleton c) = vc_type c"
  "skeleton (c\<lparr>vc_slots := s\<rparr>) = skeleton c"
  by (simp_all add: skeleton_def)

lemma tree_get_frame: "tree_get (frame_of t) k = shape t k"
  by (simp add: shape_def tree_get_def frame_of_def map_of_map)

text \<open>
  The invariant. Every component stands under its own id below the next free one; its parent, if any, has a smaller id; its children are exactly
  the components with this parent, once each; its links touch it, once each. The index of names leads to components of that name, all names are
  interned, and the components marked as added by the user exist and are not system components.
\<close>

definition comp_ok :: "component_tree \<Rightarrow> u16 \<Rightarrow> virtual_component \<Rightarrow> bool" where
  "comp_ok t k c \<longleftrightarrow> vc_id c = k \<and> k < next_id t \<and> (vc_parent c = NO_PARENT \<or> vc_parent c < k) \<and>
     distinct (vc_children c) \<and> (\<forall>i. i \<in> set (vc_children c) \<longleftrightarrow> (\<exists>d. tree_get t i = Some d \<and> vc_parent d = k)) \<and>
     distinct (vc_links c) \<and> (\<forall>l\<in>set (vc_links c). k \<in> {from_comp l, to_comp l}) \<and>
     (vc_name c \<noteq> [] \<longrightarrow> table_contains (names t) (vc_name c))"

definition tree_ok :: "component_tree \<Rightarrow> bool" where
  "tree_ok t \<longleftrightarrow> distinct (map fst (components t)) \<and> (\<forall>k c. tree_get t k = Some c \<longrightarrow> comp_ok t k c) \<and>
     (\<forall>n k. map_of (name_to_comp t) n = Some k \<longrightarrow> (\<exists>c. tree_get t k = Some c \<and> vc_name c = n)) \<and> table_ok (names t) \<and>
     distinct (user_added_ids t) \<and> (\<forall>k\<in>set (user_added_ids t). 7 \<le> k \<and> tree_get t k \<noteq> None)"

lemma tree_okD:
  assumes "tree_ok t"
  shows "tree_get t k = Some c \<Longrightarrow> comp_ok t k c" "distinct (map fst (components t))" "table_ok (names t)"
    "map_of (name_to_comp t) n = Some k \<Longrightarrow> \<exists>c. tree_get t k = Some c \<and> vc_name c = n"
    "k \<in> set (user_added_ids t) \<Longrightarrow> 7 \<le> k \<and> tree_get t k \<noteq> None" "distinct (user_added_ids t)"
  using assms by (auto simp: tree_ok_def)

lemma frame_fields [simp]:
  "next_id (frame_of t) = next_id t" "names (frame_of t) = names t" "name_to_comp (frame_of t) = name_to_comp t"
  "user_added_ids (frame_of t) = user_added_ids t" "map fst (components (frame_of t)) = map fst (components t)"
  by (simp_all add: frame_of_def split_def)

lemma frame_parent: "(\<exists>d. tree_get (frame_of t) i = Some d \<and> vc_parent d = k) \<longleftrightarrow> (\<exists>d. tree_get t i = Some d \<and> vc_parent d = k)"
  "(\<exists>d. tree_get (frame_of t) i = Some d \<and> vc_name d = n) \<longleftrightarrow> (\<exists>d. tree_get t i = Some d \<and> vc_name d = n)"
  by (auto simp: tree_get_frame shape_def)

lemma comp_ok_frame: "comp_ok (frame_of t) k (skeleton c) = comp_ok t k c"
  by (simp add: comp_ok_def frame_parent)

lemma tree_ok_frame: "tree_ok (frame_of t) = tree_ok t"
proof -
  have "(\<forall>k c. tree_get (frame_of t) k = Some c \<longrightarrow> comp_ok (frame_of t) k c) \<longleftrightarrow> (\<forall>k c. tree_get t k = Some c \<longrightarrow> comp_ok (frame_of t) k (skeleton c))"
    by (auto simp: tree_get_frame shape_def)
  moreover have "tree_get (frame_of t) k \<noteq> None \<longleftrightarrow> tree_get t k \<noteq> None" for k by (simp add: tree_get_frame shape_def)
  ultimately show ?thesis by (simp only: tree_ok_def comp_ok_frame frame_fields frame_parent)
qed

lemma frame_eq_ok: "frame_of t' = frame_of t \<Longrightarrow> tree_ok t \<Longrightarrow> tree_ok t'"
  by (metis tree_ok_frame)

section \<open>The data flow keeps the shape\<close>

lemma frame_update_slots [simp]:
  assumes "\<And>c. skeleton (f c) = skeleton c"
  shows "frame_of (update_comp k f t) = frame_of t"
proof (cases "tree_get t k")
  case None
  then show ?thesis by (simp add: update_comp_def)
next
  case (Some c)
  have "map (\<lambda>(k, c). (k, skeleton c)) (AList.update k (f c) xs) = map (\<lambda>(k, c). (k, skeleton c)) xs" if "map_of xs k = Some c" for xs
    using that by (induction xs) (auto simp: assms split: if_splits)
  then show ?thesis using Some by (simp add: update_comp_def frame_of_def tree_get_def)
qed

lemma frame_put_slot [simp]: "frame_of (snd (assign_slot k i v t)) = frame_of t"
  by (simp add: assign_slot_def split: option.splits)

lemma frame_put_slotD: "assign_slot k i v t = (b, t') \<Longrightarrow> frame_of t' = frame_of t"
  using frame_put_slot [of k i v t] by simp

lemma frame_states [simp]: "frame_of (t\<lparr>component_states := s\<rparr>) = frame_of t"
  by (simp add: frame_of_def)

text \<open>A loop that threads the tree keeps its shape when every round does.\<close>

lemma frame_fold:
  assumes "\<And>x t c. frame_of (fst (f x (t, c))) = frame_of t"
  shows "frame_of (fst (fold f xs (t, c))) = frame_of t"
proof (induction xs arbitrary: t c)
  case (Cons x xs)
  show ?case using Cons [of "fst (f x (t, c))" "snd (f x (t, c))"] assms by simp
qed simp

lemma frame_sync [simp]: "frame_of (fst (sync_output x (t, c))) = frame_of t"
  by (auto simp: sync_output_def split: prod.splits option.splits dest: frame_put_slotD)

lemma frame_transfer [simp]: "frame_of (fst (apply_transfer x (t, c))) = frame_of t"
  by (auto simp: apply_transfer_def split: prod.splits dest: frame_put_slotD)

lemma frame_put_and_note [simp]: "frame_of (fst (put_and_note k i v (t, c))) = frame_of t"
  by (auto simp: put_and_note_def split: prod.splits dest: frame_put_slotD)

lemma frame_bridges [simp]: "frame_of (fst (bridge_in x (t, c))) = frame_of t" "frame_of (fst (bridge_out x (t, c))) = frame_of t"
  by (auto simp: bridge_in_def bridge_out_def split: prod.splits option.splits)

lemma frame_slot_update [simp]: "frame_of (fst (apply_slot_update k u (t, b))) = frame_of t"
  by (auto simp: apply_slot_update_def split: prod.splits dest: frame_put_slotD)

lemma frame_apply_update [simp]: "frame_of (fst (apply_update x (t, c))) = frame_of t"
proof -
  obtain k us st where x: "x = (k, us, st)" by (cases x) auto
  have "frame_of (fst (fold (apply_slot_update k) us (t, False))) = frame_of t" by (rule frame_fold) simp
  then show ?thesis by (auto simp: apply_update_def x split: prod.splits option.splits)
qed

lemma frame_execute_links: "frame_of (fst (execute_links t)) = frame_of t"
  unfolding execute_links_def by (rule frame_fold) simp

lemma frame_run_bridges: "frame_of (fst (run_bridges (t, c))) = frame_of t"
proof -
  have "frame_of (fst (fold bridge_out ys (fold bridge_in xs (t, c)))) = frame_of t" for xs ys
    by (metis frame_bridges frame_fold prod.collapse)
  then show ?thesis by (simp add: run_bridges_def Let_def)
qed

lemma frame_execute_components: "execute_components t = (Ok (t', c) :: ('e, _) outcome) \<Longrightarrow> frame_of t' = frame_of t"
  by (auto simp: execute_components_def) (metis frame_apply_update frame_fold frame_run_bridges fst_conv prod.collapse)

lemma frame_update_channel:
  assumes "update_channel x (t, c) = (Ok (t', c') :: ('e, _) outcome)"
  shows "frame_of t' = frame_of t"
  using assms by (auto simp: update_channel_def Let_def split: prod.splits if_splits option.splits)

lemma frame_update_from_channels:
  assumes "update_from_channels chs t = (Ok (t', c) :: ('e, _) outcome)"
  shows "frame_of t' = frame_of t"
proof -
  have loop: "foldO update_channel xs (t, d) = (Ok (u, e) :: ('e, _) outcome) \<Longrightarrow> frame_of u = frame_of t" for xs t d u e
  proof (induction xs arbitrary: t d)
    case (Cons x xs)
    then obtain t1 d1 where "update_channel x (t, d) = (Ok (t1, d1) :: ('e, _) outcome)" "foldO update_channel xs (t1, d1) = (Ok (u, e) :: ('e, _) outcome)"
      by auto
    then show ?case using Cons.IH frame_update_channel by metis
  qed simp
  obtain u ch outs where u: "foldO update_channel (List.enumerate 0 chs) (t, [], []) = (Ok (u, ch, outs) :: ('e, _) outcome)"
    "fold sync_output outs (u, ch) = (t', c)" using assms by (auto simp: update_from_channels_def)
  have "frame_of (fst (fold sync_output outs (u, ch))) = frame_of u" by (rule frame_fold) simp
  then show ?thesis using loop [OF u(1)] u(2) by simp
qed

section \<open>Adding a component\<close>

lemma table_contains_intern:
  "table_ok n \<Longrightarrow> intern name n = (Ok i :: ('e, name_id) outcome, n') \<Longrightarrow> table_contains n' m \<longleftrightarrow> table_contains n m \<or> m = name"
  using intern_effect [of n name i n'] by (cases "m = name") (auto simp: table_contains_def get_id_def)

text \<open>What indexing a name leaves.\<close>

lemma index_name_run:
  assumes "table_ok (names t)" "index_name name k t = (Ok () :: ('e, unit) outcome, t')"
  shows "\<exists>n. t' = t\<lparr>name_to_comp := (if name = [] then name_to_comp t else AList.update name k (name_to_comp t)), names := n\<rparr> \<and> table_ok n \<and>
    (\<forall>m. table_contains (names t) m \<longrightarrow> table_contains n m) \<and> (name \<noteq> [] \<longrightarrow> table_contains n name)"
proof (cases "name = []")
  case True
  then show ?thesis using assms by (intro exI [of _ "names t"]) (simp add: index_name_def ret_def)
next
  case False
  then obtain i n where n: "intern name (names t) = (Ok i :: ('e, name_id) outcome, n)"
    "t' = t\<lparr>name_to_comp := AList.update name k (name_to_comp t), names := n\<rparr>"
    using assms(2) by (auto simp: index_name_def sq_def bnd_def modify_def on_names_def ret_def split: prod.splits outcome.splits)
  then show ?thesis using False intern_ok [OF assms(1) n(1)] table_contains_intern [OF assms(1) n(1)] by auto
qed

lemma tree_get_insert:
  "tree_get (insert_comp c t) k =
     (let g = (tree_get t)(vc_id c \<mapsto> c) in
      if k = vc_parent c \<and> vc_parent c \<noteq> NO_PARENT \<and> vc_parent c \<noteq> vc_id c
      then map_option (\<lambda>p. if vc_id c \<in> set (vc_children p) then p else p\<lparr>vc_children := vc_children p @ [vc_id c]\<rparr>) (g k) else g k)"
proof -
  have "tree_get (t\<lparr>components := AList.update (vc_id c) c (components t)\<rparr>) = (tree_get t)(vc_id c \<mapsto> c)"
    by (rule ext) (simp add: tree_get_def update_conv')
  then show ?thesis by (simp add: insert_comp_def register_child_def Let_def)
qed

lemma map_fst_update: "map fst (AList.update k v xs) = (if k \<in> set (map fst xs) then map fst xs else map fst xs @ [k])"
  by (induction xs) auto

lemma insert_comp_keys: "map fst (components (insert_comp c t)) = (if vc_id c \<in> set (map fst (components t)) then map fst (components t)
    else map fst (components t) @ [vc_id c])"
proof -
  have "map fst (components (update_comp k f t)) = map fst (components t)" for k f t
    by (auto simp: update_comp_def tree_get_def map_fst_update split: option.splits dest: map_of_SomeD simp flip: map_of_eq_None_iff)
  then show ?thesis by (simp add: insert_comp_def register_child_def map_fst_update)
qed

lemma insert_comp_more [simp]:
  "next_id (insert_comp c t) = next_id t" "name_to_comp (insert_comp c t) = name_to_comp t" "names (insert_comp c t) = names t"
  "user_added_ids (insert_comp c t) = user_added_ids t" "channel_comp_end (insert_comp c t) = channel_comp_end t"
  "manifests (insert_comp c t) = manifests t"
  by (simp_all add: insert_comp_def register_child_def)

text \<open>A component that may be added: its id is above all others, and it has neither children nor links yet.\<close>

definition addable :: "component_tree \<Rightarrow> virtual_component \<Rightarrow> bool" where
  "addable t c \<longleftrightarrow> (\<forall>k. tree_get t k \<noteq> None \<longrightarrow> k < vc_id c) \<and> vc_children c = [] \<and> vc_links c = [] \<and>
     (vc_parent c = NO_PARENT \<or> vc_parent c < vc_id c)"

lemma inc_u16: "(x :: u16) \<noteq> 0xFFFF \<Longrightarrow> x < x + 1"
proof -
  assume "x \<noteq> 0xFFFF"
  then have "unat x \<noteq> unat (0xFFFF :: u16)" by (simp only: word_unat_eq_iff not_False_eq_True)
  moreover have "unat x < 65536" using unsigned_less [of x, where ?'a = nat] by simp
  ultimately show ?thesis by (simp add: word_less_nat_alt unat_word_ariths)
qed

lemma tree_add_run:
  assumes "tree_ok t" "addable t c" "tree_add c t = (Ok () :: ('e, unit) outcome, t')"
  shows "\<exists>n m nc. t' = insert_comp c (t\<lparr>next_id := m, name_to_comp := nc, names := n\<rparr>) \<and> vc_id c < m \<and> next_id t \<le> m \<and>
    nc = (if vc_name c = [] then name_to_comp t else AList.update (vc_name c) (vc_id c) (name_to_comp t)) \<and> table_ok n \<and>
    (\<forall>m. table_contains (names t) m \<longrightarrow> table_contains n m) \<and> (vc_name c \<noteq> [] \<longrightarrow> table_contains n (vc_name c))"
proof -
  obtain u v where u: "bump_next_id (vc_id c) t = (Ok () :: ('e, unit) outcome, u)" "index_name (vc_name c) (vc_id c) u = (Ok () :: ('e, unit) outcome, v)"
    "t' = insert_comp c v"
    using assms(3) by (auto simp: tree_add_def sq_def bnd_def modify_def split: prod.splits outcome.splits)
  obtain m where m: "u = t\<lparr>next_id := m\<rparr>" "vc_id c < m" "next_id t \<le> m"
  proof (cases "next_id t \<le> vc_id c")
    case True
    then have "vc_id c \<noteq> 0xFFFF" "u = t\<lparr>next_id := vc_id c + 1\<rparr>" using u(1) by (auto simp: bump_next_id_def split: if_splits)
    moreover from this(1) have "vc_id c < vc_id c + 1" by (rule inc_u16)
    ultimately show thesis using that [of "vc_id c + 1"] True by (auto intro: order.trans less_imp_le)
  next
    case False
    then show thesis using u(1) that [of "next_id t"] by (simp add: bump_next_id_def)
  qed
  have "table_ok (names u)" using assms(1) by (simp add: m(1) tree_okD(3))
  from index_name_run [OF this u(2)] obtain n where
    "v = u\<lparr>name_to_comp := (if vc_name c = [] then name_to_comp u else AList.update (vc_name c) (vc_id c) (name_to_comp u)), names := n\<rparr>"
    "table_ok n" "\<forall>m. table_contains (names u) m \<longrightarrow> table_contains n m" "vc_name c \<noteq> [] \<longrightarrow> table_contains n (vc_name c)"
    by blast
  then show ?thesis using u(3) m by (intro exI [of _ n] exI [of _ m] exI [of _ "name_to_comp v"]) simp
qed

text \<open>The id \<open>0xFFFF\<close> stands for no parent; nothing is below a next id that is not above it.\<close>

lemma below_NO_PARENT: "k < (m :: u16) \<Longrightarrow> k \<noteq> NO_PARENT"
  using unsigned_less [of m, where ?'a = nat] by (auto simp: NO_PARENT_def word_less_nat_alt)

lemma tree_get_added:
  assumes "tree_ok t" "addable t c" "tree_add c t = (Ok () :: ('e, unit) outcome, t')"
  shows "tree_get t' k = (if k = vc_id c then Some c
      else if k = vc_parent c then map_option (\<lambda>p. p\<lparr>vc_children := vc_children p @ [vc_id c]\<rparr>) (tree_get t k) else tree_get t k)"
proof -
  obtain n m nc where t': "t' = insert_comp c (t\<lparr>next_id := m, name_to_comp := nc, names := n\<rparr>)" and m: "vc_id c < m"
    using tree_add_run [OF assms] by blast
  have above: "k < vc_id c" if "tree_get t k \<noteq> None" for k using assms(2) that by (simp add: addable_def)
  have fresh: "tree_get t (vc_id c) = None" using above by (metis less_irrefl)
  have "tree_get t k = None" if "k = NO_PARENT" using that above [of k] below_NO_PARENT by metis
  moreover have "vc_id c \<notin> set (vc_children p)" if "tree_get t k = Some p" for p
    using tree_okD(1) [OF assms(1) that] fresh by (simp add: comp_ok_def)
  moreover have "tree_get (t\<lparr>next_id := m, name_to_comp := nc, names := n\<rparr>) = tree_get t" by (simp add: tree_get_def fun_eq_iff)
  moreover have "vc_parent c \<noteq> vc_id c" using assms(2) below_NO_PARENT [OF m] by (auto simp: addable_def)
  ultimately show ?thesis by (cases "tree_get t k") (auto simp: t' tree_get_insert Let_def)
qed

lemma tree_add_comp_ok:
  assumes "tree_ok t" "addable t c" "tree_add c t = (Ok () :: ('e, unit) outcome, t')" "tree_get t' k = Some d"
  shows "comp_ok t' k d"
proof -
  obtain n m nc where t': "t' = insert_comp c (t\<lparr>next_id := m, name_to_comp := nc, names := n\<rparr>)" and m: "vc_id c < m" "next_id t \<le> m"
    and n: "\<And>x. table_contains (names t) x \<Longrightarrow> table_contains n x" "vc_name c \<noteq> [] \<Longrightarrow> table_contains n (vc_name c)"
    using tree_add_run [OF assms(1-3)] by blast
  note get = tree_get_added [OF assms(1-3)]
  note ok = tree_okD(1) [OF assms(1)]
  have above: "k < vc_id c" if "tree_get t k \<noteq> None" for k using assms(2) that by (simp add: addable_def)
  have c: "vc_parent c = NO_PARENT \<or> vc_parent c < vc_id c" "vc_children c = []" "vc_links c = []" using assms(2) by (simp_all add: addable_def)
  have kids: "(\<exists>d. tree_get t' i = Some d \<and> vc_parent d = j) \<longleftrightarrow> i = vc_id c \<and> vc_parent c = j \<or> (\<exists>d. tree_get t i = Some d \<and> vc_parent d = j)" for i j
    using above [of i] by (cases "tree_get t i") (auto simp: get)
  have orphan: "vc_parent d \<noteq> vc_id c" if "tree_get t i = Some d" for i d
    using ok [OF that] above [of i] that below_NO_PARENT [OF m(1)] by (auto simp: comp_ok_def)
  have "vc_parent c \<noteq> vc_id c" using c below_NO_PARENT [OF m(1)] by auto
  have flds: "next_id t' = m" "names t' = n" by (simp_all add: t')
  have new: "comp_ok t' k d" if "k = vc_id c"
  proof -
    have "d = c" using that assms(4) by (simp add: get)
    then show ?thesis using that c m(1) n(2) orphan \<open>vc_parent c \<noteq> vc_id c\<close> unfolding comp_ok_def kids flds by auto
  qed
  have old: "comp_ok t' k d" if k: "k \<noteq> vc_id c"
  proof -
    obtain e where e: "tree_get t k = Some e" "d = (if k = vc_parent c then e\<lparr>vc_children := vc_children e @ [vc_id c]\<rparr> else e)"
      using assms(4) k by (auto simp: get split: if_splits)
    have "k < next_id t" using ok [OF e(1)] by (simp add: comp_ok_def)
    then have "k < m" using m(2) by (rule less_le_trans)
    have fresh: "vc_id c \<notin> set (vc_children e)" using ok [OF e(1)] above [of "vc_id c"] by (auto simp: comp_ok_def)
    have kids': "distinct (vc_children d) \<and> (\<forall>i. i \<in> set (vc_children d) \<longleftrightarrow> i = vc_id c \<and> vc_parent c = k \<or> (\<exists>d. tree_get t i = Some d \<and> vc_parent d = k))"
    proof -
      have "distinct (vc_children e)" "\<And>i. i \<in> set (vc_children e) \<longleftrightarrow> (\<exists>d. tree_get t i = Some d \<and> vc_parent d = k)"
        using ok [OF e(1)] by (simp_all only: comp_ok_def)
      then show ?thesis using fresh by (auto simp: e(2))
    qed
    have "vc_id d = vc_id e" "vc_parent d = vc_parent e" "vc_links d = vc_links e" "vc_name d = vc_name e" by (simp_all add: e(2))
    with \<open>k < m\<close> kids' n(1) ok [OF e(1)] show ?thesis unfolding comp_ok_def kids flds by (simp only: simp_thms) blast
  qed
  show ?thesis using new old by blast
qed

lemma tree_add_ok:
  assumes "tree_ok t" "addable t c" "tree_add c t = (Ok () :: ('e, unit) outcome, t')"
  shows "tree_ok t'" "user_added_ids t' = user_added_ids t" "manifests t' = manifests t"
proof -
  obtain n m nc where t': "t' = insert_comp c (t\<lparr>next_id := m, name_to_comp := nc, names := n\<rparr>)" and n: "table_ok n"
    and nc: "nc = (if vc_name c = [] then name_to_comp t else AList.update (vc_name c) (vc_id c) (name_to_comp t))"
    using tree_add_run [OF assms] by blast
  note get = tree_get_added [OF assms]
  show ids: "user_added_ids t' = user_added_ids t" "manifests t' = manifests t" by (simp_all add: t')
  have above: "k < vc_id c" if "tree_get t k \<noteq> None" for k using assms(2) that by (simp add: addable_def)
  have name: "\<exists>d. tree_get t' k = Some d \<and> vc_name d = x" if "map_of (name_to_comp t') x = Some k" for x k
  proof (cases "vc_name c \<noteq> [] \<and> x = vc_name c")
    case True
    then have "k = vc_id c" using that by (simp add: t' nc update_conv')
    then show ?thesis using True by (simp add: get)
  next
    case False
    then have "map_of (name_to_comp t) x = Some k" using that by (auto simp: t' nc update_conv' split: if_splits)
    from tree_okD(4) [OF assms(1) this] show ?thesis using above [of k] by (auto simp: get)
  qed
  have "distinct (map fst (components t'))" using tree_okD(2) [OF assms(1)] by (simp add: t' insert_comp_keys)
  moreover have "7 \<le> k \<and> tree_get t' k \<noteq> None" if "k \<in> set (user_added_ids t)" for k
    using tree_okD(5) [OF assms(1) that] by (auto simp: get)
  ultimately show "tree_ok t'"
    unfolding tree_ok_def using tree_add_comp_ok [OF assms] name n tree_okD(6) [OF assms(1)] by (simp add: ids) (simp add: t')
qed

section \<open>The other operations\<close>

text \<open>A change of a component that keeps its place and name, and for which its new children and links are as they should be.\<close>

definition in_place :: "virtual_component \<Rightarrow> virtual_component \<Rightarrow> bool" where
  "in_place c d \<longleftrightarrow> vc_id d = vc_id c \<and> vc_parent d = vc_parent c \<and> vc_name d = vc_name c \<and> distinct (vc_children d) \<and>
     set (vc_children d) = set (vc_children c) \<and> distinct (vc_links d) \<and> (\<forall>l\<in>set (vc_links d). vc_id c \<in> {from_comp l, to_comp l})"

lemma update_comp_keys: "map fst (components (update_comp k f t)) = map fst (components t)"
  by (auto simp: update_comp_def tree_get_def map_fst_update split: option.splits dest: map_of_SomeD simp flip: map_of_eq_None_iff)

lemma tree_ok_update:
  assumes "tree_ok t" "\<And>c. tree_get t cid = Some c \<Longrightarrow> in_place c (f c)"
  shows "tree_ok (update_comp cid f t)"
proof -
  let ?t = "update_comp cid f t"
  note ok = tree_okD [OF assms(1)]
  have get: "tree_get ?t k = (if k = cid then map_option f (tree_get t k) else tree_get t k)" for k by simp
  have parent: "(\<exists>d. tree_get ?t i = Some d \<and> vc_parent d = k) \<longleftrightarrow> (\<exists>d. tree_get t i = Some d \<and> vc_parent d = k)" for i k
    using assms(2) by (cases "tree_get t i") (auto simp: in_place_def)
  have name: "(\<exists>d. tree_get ?t i = Some d \<and> vc_name d = n) \<longleftrightarrow> (\<exists>d. tree_get t i = Some d \<and> vc_name d = n)" for i n
    using assms(2) by (cases "tree_get t i") (auto simp: in_place_def)
  have comp: "comp_ok ?t k d" if "tree_get ?t k = Some d" for k d
  proof (cases "k = cid")
    case True
    then obtain c where c: "tree_get t k = Some c" "d = f c" using \<open>tree_get ?t k = Some d\<close> by auto
    have "in_place c d" using assms(2) c True by simp
    with ok(1) [OF c(1)] show ?thesis unfolding comp_ok_def parent in_place_def update_comp_more by simp
  next
    case False
    then have "tree_get t k = Some d" using \<open>tree_get ?t k = Some d\<close> by simp
    from ok(1) [OF this] show ?thesis unfolding comp_ok_def parent update_comp_more .
  qed
  have "tree_get ?t k \<noteq> None \<longleftrightarrow> tree_get t k \<noteq> None" for k by simp
  then show ?thesis unfolding tree_ok_def name update_comp_more update_comp_keys using comp assms(1) by (simp add: tree_ok_def)
qed

lemma tree_ok_slots: "tree_ok t \<Longrightarrow> (\<And>c. skeleton (f c) = skeleton c) \<Longrightarrow> tree_ok (update_comp cid f t)"
  by (rule frame_eq_ok [OF frame_update_slots])

lemma tree_ok_marks [simp]:
  "tree_ok (mark_dirty t) = tree_ok t" "tree_ok (dirty_if_user_added k t) = tree_ok t" "tree_ok (dirty_if_either l t) = tree_ok t"
  by (simp_all add: mark_dirty_def dirty_if_user_added_def dirty_if_either_def tree_ok_def comp_ok_def tree_get_def)

lemma tree_links:
  assumes "tree_ok t" "tree_get t k = Some c"
  shows "distinct (vc_links c)" "l \<in> set (vc_links c) \<Longrightarrow> k \<in> {from_comp l, to_comp l}"
  using tree_okD(1) [OF assms] by (auto simp: comp_ok_def)

lemma tree_ok_links:
  assumes "tree_ok t" "\<And>c. tree_get t k = Some c \<Longrightarrow> distinct (g c) \<and> (\<forall>l\<in>set (g c). k \<in> {from_comp l, to_comp l})"
  shows "tree_ok (update_comp k (\<lambda>c. c\<lparr>vc_links := g c\<rparr>) t)"
proof (rule tree_ok_update [OF assms(1)])
  fix c assume c: "tree_get t k = Some c"
  show "in_place c (c\<lparr>vc_links := g c\<rparr>)"
    using tree_okD(1) [OF assms(1) c] assms(2) [OF c] by (simp add: comp_ok_def in_place_def)
qed

lemma tree_ok_push_link:
  assumes "tree_ok t" "k \<in> {from_comp l, to_comp l}" "\<And>c. tree_get t k = Some c \<Longrightarrow> l \<notin> set (vc_links c)"
  shows "tree_ok (update_comp k (push_link l) t)"
proof -
  have "tree_ok (update_comp k (\<lambda>c. c\<lparr>vc_links := vc_links c @ [l]\<rparr>) t)"
    by (rule tree_ok_links [OF assms(1)]) (use assms(2,3) tree_links [OF assms(1)] in fastforce)
  then show ?thesis by (simp add: push_link_def [abs_def])
qed

lemma tree_ok_drop_link:
  assumes "tree_ok t"
  shows "tree_ok (update_comp k (drop_link l) t)"
proof -
  have "tree_ok (update_comp k (\<lambda>c. c\<lparr>vc_links := filter (\<lambda>k. k \<noteq> l) (vc_links c)\<rparr>) t)"
    by (rule tree_ok_links [OF assms]) (use tree_links [OF assms] in fastforce)
  then show ?thesis by (simp add: drop_link_def [abs_def])
qed

lemma tree_ok_add_link:
  assumes "tree_ok t"
  shows "tree_ok (snd (add_link l t))"
proof -
  have push: "tree_ok (update_comp k (\<lambda>c. if l \<in> set (vc_links c) then c else push_link l c) t)"
    if "tree_ok t" "k \<in> {from_comp l, to_comp l}" for k t
  proof (cases "tree_get t k")
    case None
    then show ?thesis using that by (simp add: update_comp_def)
  next
    case (Some c)
    show ?thesis
    proof (cases "l \<in> set (vc_links c)")
      case True
      have "in_place c c" using tree_okD(1) [OF that(1) Some] by (simp add: comp_ok_def in_place_def)
      then show ?thesis using True Some by (intro tree_ok_update [OF that(1)]) simp
    next
      case False
      then have "update_comp k (\<lambda>c. if l \<in> set (vc_links c) then c else push_link l c) t = update_comp k (push_link l) t"
        using Some by (simp add: update_comp_def)
      then show ?thesis using tree_ok_push_link [OF that] Some False by simp
    qed
  qed
  have "tree_ok (update_comp (to_comp l) (push_link l) t)" if "tree_get t (to_comp l) = Some c" "l \<notin> set (vc_links c)" for c
    by (rule tree_ok_push_link [OF assms]) (use that in simp_all)
  then show ?thesis using assms push by (auto simp: add_link_def Let_def split: option.splits)
qed

lemma tree_ok_remove_link: "tree_ok t \<Longrightarrow> tree_ok (snd (remove_link l t))"
  by (simp add: remove_link_def Let_def tree_ok_drop_link)

lemma tree_ok_reorder:
  assumes "tree_ok t"
  shows "tree_ok (snd (reorder_children k ids t))"
proof (cases "\<exists>p. tree_get t k = Some p \<and> sort (vc_children p) = sort ids")
  case True
  then obtain p where p: "tree_get t k = Some p" "sort (vc_children p) = sort ids" by blast
  have "set ids = set (vc_children p)" "distinct ids \<longleftrightarrow> distinct (vc_children p)" using p(2) by (metis set_sort, metis distinct_sort)
  then have "in_place p (p\<lparr>vc_children := ids\<rparr>)" using tree_okD(1) [OF assms p(1)] by (simp add: comp_ok_def in_place_def)
  then have "tree_ok (update_comp k (\<lambda>p. p\<lparr>vc_children := ids\<rparr>) t)" using p(1) by (intro tree_ok_update [OF assms]) simp
  then show ?thesis using p by (simp add: reorder_children_def)
next
  case False
  then show ?thesis using assms by (auto simp: reorder_children_def split: option.splits)
qed

text \<open>Removing a component. Its children stay, under a parent that does not exist any more.\<close>

lemma unindex_fields [simp]:
  "components (unindex_name n k t) = components t" "tree_get (unindex_name n k t) i = tree_get t i" "next_id (unindex_name n k t) = next_id t"
  "names (unindex_name n k t) = names t" "user_added_ids (unindex_name n k t) = user_added_ids t"
  "map_of (name_to_comp (unindex_name n k t)) = (if map_of (name_to_comp t) n = Some k then (map_of (name_to_comp t))(n := None) else map_of (name_to_comp t))"
  by (simp_all add: unindex_name_def tree_get_def delete_conv')

lemma tree_remove_get:
  assumes "tree_remove cid t = (Some c, t')"
  shows "tree_get t cid = Some c" "tree_get t' k = (if k = cid then None else if k = vc_parent c
    then map_option (\<lambda>p. p\<lparr>vc_children := filter (\<lambda>i. i \<noteq> cid) (vc_children p)\<rparr>) (tree_get t k) else tree_get t k)"
proof -
  show "tree_get t cid = Some c" using assms by (auto simp: tree_remove_def split: option.splits)
  moreover have "tree_get (t\<lparr>components := AList.delete cid (components t)\<rparr>) i = (if i = cid then None else tree_get t i)" for i
    by (simp add: tree_get_def delete_conv')
  ultimately show "tree_get t' k = (if k = cid then None else if k = vc_parent c
    then map_option (\<lambda>p. p\<lparr>vc_children := filter (\<lambda>i. i \<noteq> cid) (vc_children p)\<rparr>) (tree_get t k) else tree_get t k)"
    using assms by (auto simp: tree_remove_def)
qed

lemma tree_remove_fields:
  assumes "tree_remove cid t = (Some c, t')"
  shows "next_id t' = next_id t" "names t' = names t" "user_added_ids t' = user_added_ids t"
    "map fst (components t') = removeAll cid (map fst (components t))"
    "map_of (name_to_comp t') = map_of (name_to_comp (unindex_name (vc_name c) cid t))"
  using assms by (auto simp: tree_remove_def update_comp_keys AList.delete_keys split: option.splits)

lemma tree_remove_comp_ok:
  assumes "tree_ok t" "tree_remove cid t = (Some c, t')" "tree_get t' k = Some d"
  shows "comp_ok t' k d"
proof -
  note get = tree_remove_get [OF assms(2)]
  have k: "k \<noteq> cid" using assms(3) by (auto simp: get(2))
  then obtain e where e: "tree_get t k = Some e" "d = (if k = vc_parent c then e\<lparr>vc_children := filter (\<lambda>i. i \<noteq> cid) (vc_children e)\<rparr> else e)"
    using assms(3) by (auto simp: get(2) split: if_splits)
  note ok = tree_okD(1) [OF assms(1) e(1)]
  have kids: "(\<exists>d. tree_get t' i = Some d \<and> vc_parent d = j) \<longleftrightarrow> i \<noteq> cid \<and> (\<exists>d. tree_get t i = Some d \<and> vc_parent d = j)" for i j
    by (cases "tree_get t i") (auto simp: get(2))
  have old: "distinct (vc_children e)" "\<And>i. i \<in> set (vc_children e) \<longleftrightarrow> (\<exists>d. tree_get t i = Some d \<and> vc_parent d = k)"
    using ok by (simp_all only: comp_ok_def)
  have "distinct (vc_children d)" "\<And>i. i \<in> set (vc_children d) \<longleftrightarrow> i \<noteq> cid \<and> (\<exists>d. tree_get t i = Some d \<and> vc_parent d = k)"
    using old get(1) by (auto simp: e(2))
  moreover have "vc_id d = vc_id e" "vc_parent d = vc_parent e" "vc_links d = vc_links e" "vc_name d = vc_name e" by (simp_all add: e(2))
  ultimately show ?thesis using ok unfolding comp_ok_def kids tree_remove_fields [OF assms(2)] by (simp only: simp_thms) blast
qed

lemma tree_remove_ok:
  assumes "tree_ok t" "tree_remove cid t = (Some c, t')"
  shows "tree_ok (t'\<lparr>user_added_ids := removeAll cid (user_added_ids t')\<rparr>)"
proof -
  let ?t = "t'\<lparr>user_added_ids := removeAll cid (user_added_ids t')\<rparr>"
  note get = tree_remove_get [OF assms(2)] and flds = tree_remove_fields [OF assms(2)]
  have same: "tree_get ?t = tree_get t'" by (simp add: tree_get_def fun_eq_iff)
  have comp: "comp_ok ?t k d" if "tree_get t' k = Some d" for k d
    using tree_remove_comp_ok [OF assms that] by (simp add: comp_ok_def same)
  have name: "\<exists>d. tree_get t' k = Some d \<and> vc_name d = n" if "map_of (name_to_comp t') n = Some k" for n k
  proof -
    have n: "map_of (name_to_comp t) n = Some k" "\<not> (n = vc_name c \<and> k = cid)" using that by (auto simp: flds split: if_splits)
    from tree_okD(4) [OF assms(1) n(1)] obtain d where d: "tree_get t k = Some d" "vc_name d = n" by blast
    then have "k \<noteq> cid" using n(2) get(1) by auto
    then show ?thesis using d by (auto simp: get(2))
  qed
  have "7 \<le> k \<and> tree_get t' k \<noteq> None" if "k \<in> set (removeAll cid (user_added_ids t))" for k
    using tree_okD(5) [OF assms(1), of k] that by (auto simp: get(2))
  then show ?thesis unfolding tree_ok_def same using tree_okD(2,3,6) [OF assms(1)] comp name
    by (simp add: flds distinct_removeAll)
qed

lemma tree_rename_ok:
  assumes "tree_ok t" "tree_rename cid n t = (Ok b :: ('e, bool) outcome, t')"
  shows "tree_ok t'"
proof (cases "tree_get t cid")
  case None
  then show ?thesis using assms by (simp add: tree_rename_def)
next
  case (Some c)
  let ?u = "update_comp cid (\<lambda>c. c\<lparr>vc_name := n\<rparr>) (unindex_name (vc_name c) cid t)"
  have "index_name n cid ?u = (Ok () :: ('e, unit) outcome, t')" using assms(2) Some
    by (auto simp: tree_rename_def sq_def bnd_def modify_def ret_def split: prod.splits outcome.splits)
  moreover have "table_ok (names ?u)" using tree_okD(3) [OF assms(1)] by simp
  ultimately obtain m where t': "t' = ?u\<lparr>name_to_comp := (if n = [] then name_to_comp ?u else AList.update n cid (name_to_comp ?u)), names := m\<rparr>"
    and m: "table_ok m" "\<And>x. table_contains (names t) x \<Longrightarrow> table_contains m x" "n \<noteq> [] \<Longrightarrow> table_contains m n"
    using index_name_run [of ?u n cid t'] by (auto simp del: unindex_fields(6))
  have get: "tree_get t' k = (if k = cid then Some (c\<lparr>vc_name := n\<rparr>) else tree_get t k)" for k
    using Some by (simp add: t' tree_get_def [of "_\<lparr>names := _\<rparr>"]) (simp add: tree_get_def flip: tree_get_def)
  have flds: "next_id t' = next_id t" "names t' = m" "user_added_ids t' = user_added_ids t" "map fst (components t') = map fst (components t)"
    by (simp_all add: t' update_comp_keys)
  have kids: "(\<exists>d. tree_get t' i = Some d \<and> vc_parent d = j) \<longleftrightarrow> (\<exists>d. tree_get t i = Some d \<and> vc_parent d = j)" for i j
    using Some by (auto simp: get)
  have comp: "comp_ok t' k d" if "tree_get t' k = Some d" for k d
  proof -
    obtain e where e: "tree_get t k = Some e" "d = (if k = cid then e\<lparr>vc_name := n\<rparr> else e)"
      using Some \<open>tree_get t' k = Some d\<close> by (auto simp: get split: if_splits)
    have "vc_id d = vc_id e" "vc_parent d = vc_parent e" "vc_links d = vc_links e" "vc_children d = vc_children e" by (simp_all add: e(2))
    moreover have "vc_name d \<noteq> [] \<longrightarrow> table_contains m (vc_name d)"
      using tree_okD(1) [OF assms(1) e(1)] m(2,3) by (simp add: comp_ok_def e(2))
    ultimately show ?thesis using tree_okD(1) [OF assms(1) e(1)] unfolding comp_ok_def kids flds by (simp only: simp_thms) blast
  qed
  have name: "\<exists>d. tree_get t' k = Some d \<and> vc_name d = x" if "map_of (name_to_comp t') x = Some k" for x k
  proof (cases "n \<noteq> [] \<and> x = n")
    case True
    then have "k = cid" using that by (simp add: t' update_conv')
    then show ?thesis using True by (simp add: get)
  next
    case False
    then have x: "map_of (name_to_comp t) x = Some k" "\<not> (x = vc_name c \<and> k = cid)"
      using that by (auto simp: t' update_conv' split: if_splits)
    from tree_okD(4) [OF assms(1) x(1)] obtain d where "tree_get t k = Some d" "vc_name d = x" by blast
    moreover then have "k \<noteq> cid" using x(2) Some by auto
    ultimately show ?thesis by (simp add: get)
  qed
  have "7 \<le> k \<and> tree_get t' k \<noteq> None" if "k \<in> set (user_added_ids t)" for k
    using tree_okD(5) [OF assms(1) that] by (simp add: get)
  then show ?thesis unfolding tree_ok_def flds using tree_okD(2,3,6) [OF assms(1)] comp name m(1) by simp
qed

section \<open>The handlers\<close>

text \<open>\<open>yields I m\<close>: when \<open>m\<close> does not panic, \<open>I\<close> holds afterwards if it held before.\<close>

definition yields :: "('s \<Rightarrow> bool) \<Rightarrow> ('s, 'e, 'a) routine \<Rightarrow> bool" where
  "yields I m \<longleftrightarrow> (\<forall>s a t. I s \<longrightarrow> m s = (Ok a, t) \<longrightarrow> I t)"

named_theorems yi \<open>rules for yields\<close>

lemma yieldsI: "(\<And>s a t. I s \<Longrightarrow> m s = (Ok a, t) \<Longrightarrow> I t) \<Longrightarrow> yields I m"
  by (simp add: yields_def)

lemma yieldsD: "yields I m \<Longrightarrow> I s \<Longrightarrow> m s = (Ok a, t) \<Longrightarrow> I t"
  by (simp add: yields_def)

lemma yields_bnd [yi]: "yields I m \<Longrightarrow> (\<And>a. yields I (f a)) \<Longrightarrow> yields I (bnd m f)"
  by (rule yieldsI) (metis bnd_eq_Ok yieldsD)

lemma yields_sq [yi]: "yields I m \<Longrightarrow> yields I n \<Longrightarrow> yields I (sq m n)"
  unfolding sq_def by (rule yields_bnd)

lemma yields_basic [yi]: "yields I (ret a)" "yields I panic" "yields I (query q)"
  by (simp_all add: yields_def monad_defs)

lemma yields_modify: "(\<And>s. I s \<Longrightarrow> I (f s)) \<Longrightarrow> yields I (modify f)"
  by (simp add: yields_def modify_def)

lemma yields_with_args [yi]: "(\<And>a. yields I (body a)) \<Longrightarrow> yields I (with_args req args body)"
  unfolding with_args_def by (cases "fst (args (reader_new (req_payload req)))") (simp_all add: yields_basic)

lemma with_args_run: "(\<And>a. yields I (body a)) \<Longrightarrow> I s \<Longrightarrow> with_args req args body s = (Ok r, t) \<Longrightarrow> I t"
  by (rule yieldsD [OF yields_with_args])

text \<open>The components of the system folder are always there.\<close>

definition rooted :: "component_tree \<Rightarrow> bool" where
  "rooted t \<longleftrightarrow> tree_ok t \<and> (\<forall>k<7. tree_get t k \<noteq> None)"

lemma next_comp_id_above:
  assumes "next_comp_id t = (Ok i :: ('e, u16) outcome)" "tree_get t k \<noteq> None"
  shows "k < i"
proof -
  have "\<exists>c. (k, c) \<in> set (components t)" using assms(2) by (auto simp: tree_get_def dest: map_of_SomeD)
  then have "k \<in> set (comp_ids t)" by (force simp: comp_ids_def)
  moreover have "x \<in> set xs \<Longrightarrow> x \<le> fold max xs a" for x a and xs :: "u16 list"
    by (metis List.finite_set Max.set_eq_fold Max_ge list.set_intros(2))
  ultimately have "k \<le> fold max (comp_ids t) 0" by blast
  moreover have "fold max (comp_ids t) 0 < i" using assms(1) inc_u16 by (auto simp: next_comp_id_def Let_def split: if_splits)
  ultimately show ?thesis by simp
qed

lemma rooted_add:
  assumes "rooted t" "tree_get t parent \<noteq> None" "next_comp_id t = (Ok i :: ('e, u16) outcome)"
    "tree_add (new_component t i parent kid tid name) t = (Ok () :: ('e, unit) outcome, t')"
  shows "rooted (mark_user_added i t')"
proof -
  let ?c = "new_component t i parent kid tid name"
  have id: "vc_id ?c = i" "vc_parent ?c = parent" by (simp_all add: new_component_def)
  have above: "k < i" if "tree_get t k \<noteq> None" for k using next_comp_id_above [OF assms(3)] that by blast
  have t: "tree_ok t" "\<And>k. k < 7 \<Longrightarrow> tree_get t k \<noteq> None" using assms(1) by (simp_all add: rooted_def)
  have add: "addable t ?c" using above assms(2) by (auto simp: addable_def new_component_def)
  note ok = tree_add_ok [OF t(1) add assms(4)] and get = tree_get_added [OF t(1) add assms(4)]
  have "6 < i" using above [of 6] t(2) [of 6] by simp
  then have "7 \<le> i" by (metis add.commute inc_le numeral_plus_one semiring_norm(5))
  moreover have "tree_get (mark_user_added i t') = tree_get t'" by (simp add: mark_user_added_def tree_get_def fun_eq_iff)
  moreover have "tree_get t' i \<noteq> None" using get [of i] by (simp add: id)
  ultimately have "tree_ok (mark_user_added i t')" using ok(1)
    by (auto simp: tree_ok_def comp_ok_def mark_user_added_def tree_get_def)
  moreover have "tree_get t' k \<noteq> None" if "k < 7" for k using t(2) [OF that] by (auto simp: get)
  ultimately show ?thesis by (simp add: rooted_def mark_user_added_def tree_get_def)
qed

lemma rooted_update:
  assumes "rooted t" "tree_ok t'" "\<And>k. k < 7 \<Longrightarrow> tree_get t k \<noteq> None \<Longrightarrow> tree_get t' k \<noteq> None"
  shows "rooted t'"
  using assms by (simp add: rooted_def)

lemma rooted_slots: "rooted t \<Longrightarrow> (\<And>c. skeleton (f c) = skeleton c) \<Longrightarrow> rooted (update_comp cid f t)"
  by (rule rooted_update) (auto intro: tree_ok_slots simp: rooted_def)

lemma rooted_frame:
  assumes "rooted t" "frame_of t' = frame_of t"
  shows "rooted t'"
proof (rule rooted_update [OF assms(1)])
  show "tree_ok t'" using assms frame_eq_ok by (auto simp: rooted_def)
  show "tree_get t' k \<noteq> None" if "tree_get t k \<noteq> None" for k
  proof -
    have "shape t' k = shape t k" using tree_get_frame [of t k] tree_get_frame [of t' k] assms(2) by simp
    then show ?thesis using that by (cases "tree_get t' k") (auto simp: shape_def)
  qed
qed

lemma rooted_marks [simp]:
  "rooted (mark_dirty t) = rooted t" "rooted (dirty_if_user_added k t) = rooted t" "rooted (dirty_if_either l t) = rooted t"
  by (simp_all add: rooted_def) (simp_all add: mark_dirty_def dirty_if_user_added_def dirty_if_either_def tree_get_def)

lemma keeps_components:
  "tree_get (snd (add_link l t)) k = None \<longleftrightarrow> tree_get t k = None" "tree_get (snd (remove_link l t)) k = None \<longleftrightarrow> tree_get t k = None"
  "tree_get (snd (reorder_children p ids t)) k = None \<longleftrightarrow> tree_get t k = None"
  by (auto simp: add_link_def remove_link_def reorder_children_def Let_def split: option.splits)

lemma rooted_links: "rooted t \<Longrightarrow> rooted (snd (add_link l t))" "rooted t \<Longrightarrow> rooted (snd (remove_link l t))"
  "rooted t \<Longrightarrow> rooted (snd (reorder_children p ids t))"
  by (simp_all add: rooted_def tree_ok_add_link tree_ok_remove_link tree_ok_reorder keeps_components)

lemma skeleton_write_slot [simp]: "skeleton (write_slot sid ty v c) = skeleton c"
  by (simp add: write_slot_def Let_def)

lemma yields_read [yi]: "yields rooted (handle_read_comp dyn req)" "yields rooted (handle_read_prop req)"
  unfolding handle_read_comp_def handle_read_prop_def
  by (rule yields_with_args, rule yieldsI, force simp: ret_def Let_def split: prod.splits option.splits if_splits)+

lemma yields_write [yi]: "yields rooted (handle_write req)"
proof (rule yieldsI)
  fix t a t' assume t: "rooted t" and run: "handle_write req t = (Ok a, t')"
  show "rooted t'"
    by (rule with_args_run [where I = rooted and s = t, OF _ t run [unfolded handle_write_def]], rule yieldsI) (auto simp: monad_defs rooted_slots split: if_splits)
qed

lemma yields_invoke [yi]: "yields rooted (handle_invoke req)"
proof (rule yieldsI)
  fix t a t' assume t: "rooted t" and run: "handle_invoke req t = (Ok a, t')"
  show "rooted t'"
    by (rule with_args_run [where I = rooted and s = t, OF _ t run [unfolded handle_invoke_def]], rule yieldsI)
       (auto simp: monad_defs rooted_slots split: option.splits prod.splits)
qed

lemma yields_add [yi]: "yields rooted (handle_add req)"
  unfolding handle_add_def
proof (rule yields_with_args, rule yieldsI, clarify)
  fix t a t' parent kid tid name
  assume t: "rooted t" and run: "(case validate_sox_name name of
        Some err \<Rightarrow> refuse req err t
      | None \<Rightarrow>
          if tree_get t parent = None then refuse req ''bad compId'' t
          else bnd (query next_comp_id) (\<lambda>new_id.
                 bnd (query (\<lambda>t. Ok (new_component t new_id parent kid tid name))) (\<lambda>c.
                 sq (tree_add c) (sq (modify (mark_user_added new_id))
                   (ret (write_u16 new_id (response_success AddCmd (req_id req))))))) t) = (Ok a :: ('e, sox_response) outcome, t')"
  show "rooted t'"
  proof (cases "validate_sox_name name \<noteq> None \<or> tree_get t parent = None")
    case True
    then show ?thesis using t run by (auto simp: ret_def split: option.splits)
  next
    case False
    then obtain i u where i: "next_comp_id t = (Ok i :: ('e, u16) outcome)" "tree_add (new_component t i parent kid tid name) t = (Ok () :: ('e, unit) outcome, u)"
      "t' = mark_user_added i u" using run
      by (auto simp: bnd_def sq_def query_def modify_def ret_def split: outcome.splits prod.splits)
    show ?thesis using rooted_add [OF t _ i(1,2)] False i(3) by blast
  qed
qed

lemma rooted_remove:
  assumes "rooted t" "7 \<le> cid" "tree_remove cid t = (Some c, t')"
  shows "rooted (t'\<lparr>user_added_ids := removeAll cid (user_added_ids t')\<rparr>)"
proof (rule rooted_update [OF assms(1)])
  show "tree_ok (t'\<lparr>user_added_ids := removeAll cid (user_added_ids t')\<rparr>)" using assms tree_remove_ok by (auto simp: rooted_def)
  show "tree_get (t'\<lparr>user_added_ids := removeAll cid (user_added_ids t')\<rparr>) k \<noteq> None" if "k < 7" "tree_get t k \<noteq> None" for k
  proof -
    have "k \<noteq> cid" using that(1) assms(2) by auto
    then have "tree_get t' k \<noteq> None" using that(2) by (auto simp: tree_remove_get(2) [OF assms(3)])
    then show ?thesis by (simp add: tree_get_def)
  qed
qed

lemma yields_delete [yi]: "yields rooted (handle_delete req)"
  unfolding handle_delete_def
proof (rule yields_with_args, rule yieldsI)
  fix cid t a t'
  assume t: "rooted t" and run: "(if cid < 7 then refuse req ''cannot delete system component'' t
        else let was_user_added = is_user_added t cid
             in case tree_remove cid t of
                  (None, t') \<Rightarrow> refuse req ''bad compId'' t'
                | (Some _, t') \<Rightarrow> accept req Delete (if was_user_added then forget_user_added cid t' else t')) = (Ok a :: ('e, sox_response) outcome, t')"
  show "rooted t'"
  proof (cases "cid < 7 \<or> tree_get t cid = None")
    case True
    then show ?thesis using t run by (auto simp: ret_def tree_remove_def Let_def split: if_splits)
  next
    case False
    obtain c u where u: "tree_remove cid t = (Some c, u)" using False by (auto simp: tree_remove_def)
    have "rooted (u\<lparr>user_added_ids := removeAll cid (user_added_ids u)\<rparr>)" using rooted_remove [OF t _ u] False by (simp add: linorder_not_less)
    moreover have "u\<lparr>user_added_ids := removeAll cid (user_added_ids u)\<rparr> = u" if "\<not> is_user_added t cid"
      using that by (simp add: is_user_added_def tree_remove_fields(3) [OF u] flip: tree_remove_fields(3) [OF u])
    ultimately show ?thesis using run u False by (auto simp: ret_def forget_user_added_def Let_def split: if_splits)
  qed
qed

lemma yields_rename [yi]: "yields rooted (handle_rename req)"
proof -
  have "yields rooted (tree_rename cid n)" for cid n
  proof (rule yieldsI)
    fix t a t' assume t: "rooted t" and run: "tree_rename cid n t = (Ok a :: ('e, bool) outcome, t')"
    have "tree_get t' k \<noteq> None" if "tree_get t k \<noteq> None" for k
    proof (cases "tree_get t cid")
      case None
      then show ?thesis using run that by (simp add: tree_rename_def)
    next
      case (Some c)
      have "components t' = components (update_comp cid (\<lambda>c. c\<lparr>vc_name := n\<rparr>) (unindex_name (vc_name c) cid t))"
        using run Some by (auto simp: tree_rename_def index_name_def on_names_def monad_defs split: prod.splits outcome.splits if_splits)
      then have "tree_get t' k = tree_get (update_comp cid (\<lambda>c. c\<lparr>vc_name := n\<rparr>) (unindex_name (vc_name c) cid t)) k" by (simp add: tree_get_def)
      then show ?thesis using that by auto
    qed
    then show "rooted t'" using t tree_rename_ok [OF _ run] by (simp add: rooted_def)
  qed
  then show ?thesis unfolding handle_rename_def
    by (intro yields_with_args) (auto intro!: yi yields_modify split: option.splits)
qed

lemma yields_link [yi]: "yields rooted (handle_link req)"
  unfolding handle_link_def
proof (rule yields_with_args, rule yieldsI, clarify)
  fix sub l t a t'
  assume t: "rooted t" and run: "(if sub = of_char CHR ''a'' then
          if would_create_cycle t (from_comp l) (to_comp l) then refuse req ''link rejected: would create cycle'' t
          else (case add_link l t of
              (True, t') \<Rightarrow> accept req LinkCmd (dirty_if_either l t')
            | (False, t') \<Rightarrow> refuse req ''link add failed'' t')
        else if sub = of_char CHR ''d'' then
          (case remove_link l t of
              (True, t') \<Rightarrow> accept req LinkCmd (dirty_if_either l t')
            | (False, t') \<Rightarrow> refuse req ''link not found'' t')
        else refuse req ''unknown link subcmd'' t) = (Ok a :: ('e, sox_response) outcome, t')"
  have "add_link l t = (b, u) \<Longrightarrow> rooted u" "remove_link l t = (b, u) \<Longrightarrow> rooted u" for b u using rooted_links(1,2) [OF t, of l] by auto
  then show "rooted t'" using t run by (auto simp: ret_def split: if_splits prod.splits bool.splits)
qed

lemma yields_reorder [yi]: "yields rooted (handle_reorder req)"
  unfolding handle_reorder_def
proof (rule yields_with_args, rule yieldsI, clarify)
  fix p ids t a t'
  assume t: "rooted t" and run: "(case reorder_children p ids t of
        (True, t') \<Rightarrow> accept req Reorder t'
      | (False, t') \<Rightarrow> refuse req ''reorder failed'' t') = (Ok a :: ('e, sox_response) outcome, t')"
  then show "rooted t'" using rooted_links(3) [OF t, of p ids] by (auto simp: ret_def split: prod.splits bool.splits)
qed

section \<open>Building the tree\<close>

text \<open>A loop that adds components with growing ids, none of which has children or links.\<close>

definition plain :: "virtual_component \<Rightarrow> bool" where
  "plain c \<longleftrightarrow> vc_children c = [] \<and> vc_links c = [] \<and> (vc_parent c = NO_PARENT \<or> vc_parent c < vc_id c)"

lemma tree_add_grows:
  assumes "tree_ok t" "plain c" "\<And>k. tree_get t k \<noteq> None \<Longrightarrow> k < vc_id c" "tree_add c t = (Ok () :: ('e, unit) outcome, t')"
  shows "tree_ok t'" "tree_get t' k \<noteq> None \<longleftrightarrow> k = vc_id c \<or> tree_get t k \<noteq> None" "user_added_ids t' = user_added_ids t"
proof -
  have add: "addable t c" using assms(2,3) by (simp add: addable_def plain_def)
  show "tree_ok t'" "user_added_ids t' = user_added_ids t" using tree_add_ok(1,2) [OF assms(1) add assms(4)] by auto
  show "tree_get t' k \<noteq> None \<longleftrightarrow> k = vc_id c \<or> tree_get t k \<noteq> None" by (auto simp: tree_get_added [OF assms(1) add assms(4)])
qed

lemma add_all_ok:
  assumes "tree_ok t" "forM cs tree_add t = (Ok () :: ('e, unit) outcome, t')" "\<forall>c\<in>set cs. plain c" "sorted_wrt (<) (map vc_id cs)"
    "\<And>k c. tree_get t k \<noteq> None \<Longrightarrow> c \<in> set cs \<Longrightarrow> k < vc_id c"
  shows "tree_ok t' \<and> (\<forall>k. tree_get t' k \<noteq> None \<longleftrightarrow> k \<in> vc_id ` set cs \<or> tree_get t k \<noteq> None) \<and> user_added_ids t' = user_added_ids t"
  using assms
proof (induction cs arbitrary: t)
  case Nil
  then show ?case by (simp add: ret_def)
next
  case (Cons c cs)
  obtain u where u: "tree_add c t = (Ok () :: ('e, unit) outcome, u)" "forM cs tree_add u = (Ok () :: ('e, unit) outcome, t')"
    using Cons.prems(2) by (auto simp: sq_def bnd_eq_Ok)
  have grows: "tree_ok u" "\<And>k. tree_get u k \<noteq> None \<longleftrightarrow> k = vc_id c \<or> tree_get t k \<noteq> None" "user_added_ids u = user_added_ids t"
    using tree_add_grows [OF Cons.prems(1) _ _ u(1)] Cons.prems(3,5) by auto
  have "k < vc_id d" if "tree_get u k \<noteq> None" "d \<in> set cs" for k d
    using that grows(2) Cons.prems(4,5) by auto
  then show ?case using Cons.IH [OF grows(1) u(2)] Cons.prems(3,4) grows(2,3) by auto
qed

text \<open>The loop over the channels adds the components that are computed for them, when each of them can be.\<close>

lemma forM_lift:
  "forM xs (\<lambda>x. bnd (lift (g x)) f) t = (Ok () :: ('e, unit) outcome, t') \<Longrightarrow>
    \<exists>cs. map g xs = map Ok cs \<and> forM cs f t = (Ok () :: ('e, unit) outcome, t')"
proof (induction xs arbitrary: t)
  case Nil
  then show ?case by simp
next
  case (Cons x xs)
  then obtain c u where u: "g x = Ok c" "f c t = (Ok () :: ('e, unit) outcome, u)"
    "forM xs (\<lambda>x. bnd (lift (g x)) f) u = (Ok () :: ('e, unit) outcome, t')"
    by (auto simp: sq_def bnd_eq_Ok lift_def)
  from Cons.IH [OF u(3)] obtain cs where "map g xs = map Ok cs" "forM cs f u = (Ok () :: ('e, unit) outcome, t')" by blast
  then show ?case using u by (intro exI [of _ "c # cs"]) (simp add: sq_def)
qed

lemma channel_component_Ok:
  assumes "channel_component i ch = Ok c" "i \<le> 132"
  shows "plain c" "unat (vc_id c) = 100 + i" "i < 132"
proof -
  show i: "i < 132"
  proof (rule ccontr)
    assume "\<not> i < 132"
    then have "i = 132" using assms(2) by simp
    then show False using assms(1) by (simp add: channel_component_def checked_u8_def)
  qed
  have c: "vc_id c = CHANNEL_COMP_BASE + of_nat i" "vc_parent c = 5" "vc_children c = []" "vc_links c = []"
    using assms(1) by (auto simp: channel_component_def split: if_splits)
  show id: "unat (vc_id c) = 100 + i" using i by (simp add: c(1) CHANNEL_COMP_BASE_def unat_word_ariths unat_of_nat)
  show "plain c" using c id by (simp add: plain_def word_less_nat_alt)
qed

lemma channel_components:
  assumes "map (\<lambda>(i, ch). channel_component i ch :: ('e, _) outcome) (List.enumerate 0 chs) = map Ok cs"
  shows "length chs \<le> 132 \<and> (\<forall>i<length chs. plain (cs ! i) \<and> unat (vc_id (cs ! i)) = 100 + i)"
proof -
  have len: "length cs = length chs" using arg_cong [OF assms, of length] by simp
  have nth: "channel_component i (chs ! i) = (Ok (cs ! i) :: ('e, _) outcome)" if "i < length chs" for i
    using arg_cong [OF assms, of "\<lambda>xs. xs ! i"] that len by (simp add: nth_enumerate_eq)
  have short: "length chs \<le> 132"
  proof (rule ccontr)
    assume "\<not> length chs \<le> 132"
    then have "132 < length chs" by simp
    then show False using channel_component_Ok(3) [OF nth, of 132] by simp
  qed
  then show ?thesis using channel_component_Ok(1,2) [OF nth] by auto
qed

lemma system_components_ok: "list_all plain system_components" "sorted_wrt (<) (map vc_id system_components)"
    "map vc_id system_components = [0, 1, 2, 3, 4, 5, 6]"
  by code_simp+

lemma tree_new_ok: "tree_ok (tree_new_with_manifest db)" "tree_get (tree_new_with_manifest db) k = None"
  by (simp_all add: tree_ok_def tree_new_with_manifest_def tree_get_def names_new_ok)

lemma tree_ok_setup: "tree_ok (t\<lparr>channel_comp_end := e, output_channel_ids := outs\<rparr>) = tree_ok t"
  by (simp add: tree_ok_def comp_ok_def tree_get_def)

lemma below_7: "(k :: u16) < 7 \<longleftrightarrow> k \<in> set [0, 1, 2, 3, 4, 5, 6]"
proof
  assume "k < 7"
  then have "unat k < 7" by (simp add: word_less_nat_alt)
  then have "unat k \<in> {0, 1, 2, 3, 4, 5, 6}" by auto
  then show "k \<in> set [0, 1, 2, 3, 4, 5, 6]" by (auto simp: word_unat_eq_iff)
qed auto

lemma from_channels_rooted:
  assumes "from_channels_with_manifest chs db = (Ok t :: ('e, component_tree) outcome)"
  shows "rooted t \<and> user_added_ids t = [] \<and> (\<forall>k. tree_get t k \<noteq> None \<longleftrightarrow> k < 7 \<or> is_channel_comp t k)"
proof -
  obtain u v outs where u: "forM system_components tree_add (tree_new_with_manifest db) = (Ok () :: ('e, unit) outcome, u)"
    "forM (List.enumerate 0 chs) (\<lambda>(i, ch). bnd (lift (channel_component i ch)) tree_add) u = (Ok () :: ('e, unit) outcome, v)"
    "t = v\<lparr>channel_comp_end := CHANNEL_COMP_BASE + of_nat (length chs), output_channel_ids := outs\<rparr>"
    using assms by (auto simp: from_channels_with_manifest_def sq_def bnd_eq_Ok query_def split: prod.splits if_splits)
  have sys: "tree_ok u" "\<And>k. tree_get u k \<noteq> None \<longleftrightarrow> k < 7" "user_added_ids u = []"
    using add_all_ok [OF tree_new_ok(1) u(1)] system_components_ok tree_new_ok(2)
    unfolding below_7 by (simp_all add: list_all_iff image_set tree_new_with_manifest_def)
  obtain cs where cs: "map (\<lambda>(i, ch). channel_component i ch :: ('e, _) outcome) (List.enumerate 0 chs) = map Ok cs" "forM cs tree_add u = (Ok () :: ('e, unit) outcome, v)"
    using forM_lift [of "List.enumerate 0 chs" "\<lambda>(i, ch). channel_component i ch" tree_add u v] u(2) by (auto simp: split_def)
  have len: "length cs = length chs" using arg_cong [OF cs(1), of length] by simp
  note ch = channel_components [OF cs(1)]
  have 1: "\<forall>c\<in>set cs. plain c" using ch len by (metis in_set_conv_nth)
  have 2: "sorted_wrt (<) (map vc_id cs)" using ch len by (auto simp: sorted_wrt_iff_nth_less word_less_nat_alt)
  have 3: "k < vc_id c" if "tree_get u k \<noteq> None" "c \<in> set cs" for k c
  proof -
    obtain i where "i < length chs" "c = cs ! i" using \<open>c \<in> set cs\<close> len by (metis in_set_conv_nth)
    then have "unat (vc_id c) = 100 + i" using ch by blast
    moreover have "k < 7" using that(1) sys(2) by blast
    ultimately show ?thesis by (simp add: word_less_nat_alt)
  qed
  note all = add_all_ok [OF sys(1) cs(2) 1 2 3]
  have ids: "k \<in> vc_id ` set cs \<longleftrightarrow> is_channel_comp t k" for k
  proof -
    have "k \<in> vc_id ` set cs \<longleftrightarrow> (\<exists>i<length chs. k = vc_id (cs ! i))" using len by (metis (no_types, lifting) image_iff in_set_conv_nth)
    also have "\<dots> \<longleftrightarrow> (\<exists>i<length chs. unat k = 100 + i)" using ch by (metis word_unat_eq_iff)
    also have "\<dots> \<longleftrightarrow> 100 \<le> unat k \<and> unat k < 100 + length chs" by (auto intro: exI [of _ "unat k - 100"])
    finally show ?thesis using ch
      by (simp add: u(3) is_channel_comp_def CHANNEL_COMP_BASE_def word_less_nat_alt word_le_nat_alt unat_word_ariths unat_of_nat)
  qed
  have get: "tree_get t = tree_get v" by (simp add: u(3) tree_get_def fun_eq_iff)
  have "tree_ok v" using all by blast
  then have ok: "tree_ok t" by (simp add: u(3) tree_ok_setup)
  have "user_added_ids t = []" using all sys(3) by (simp add: u(3))
  moreover have "tree_get t k \<noteq> None \<longleftrightarrow> k < 7 \<or> is_channel_comp t k" for k unfolding get using all sys(2) [of k] ids [of k] by blast
  ultimately show ?thesis using ok by (simp add: rooted_def)
qed

end
