(* ===== verification/Sox_Subscriptions.thy ===== *)
theory Sox_Subscriptions
  imports Sox_Handlers
begin

text \<open>
  The subscriptions of SOX sessions refine a relation between sessions and components: the two indexes of the source always agree with it.
\<close>

section \<open>Maps to sets\<close>

definition member :: "('k \<times> 'v list) list \<Rightarrow> 'k \<Rightarrow> 'v \<Rightarrow> bool" where
  "member m k x \<longleftrightarrow> (case map_of m k of Some xs \<Rightarrow> x \<in> set xs | None \<Rightarrow> False)"

definition multi_ok :: "('k \<times> 'v list) list \<Rightarrow> bool" where
  "multi_ok m \<longleftrightarrow> distinct (map fst m) \<and> (\<forall>xs\<in>snd ` set m. xs \<noteq> [] \<and> distinct xs)"

lemma member_insert [simp]: "member (multi_insert k x m) j y \<longleftrightarrow> member m j y \<or> j = k \<and> y = x"
  by (auto simp: member_def multi_insert_def update_conv' split: option.splits)

lemma member_remove [simp]: "member (multi_remove k x m) j y \<longleftrightarrow> member m j y \<and> \<not> (j = k \<and> y = x)"
  by (auto simp: member_def multi_remove_def update_conv' delete_conv' Let_def removeAll_id split: option.splits)
     (metis empty_iff empty_set set_removeAll Diff_iff insertE)+

lemma set_update_subset: "set (AList.update k v m) \<subseteq> insert (k, v) (set m)"
  by (induction m) auto

lemma set_delete_subset: "set (AList.delete k m) \<subseteq> set m"
  by (induction m) auto

lemma multi_ok_map_of: "multi_ok m \<Longrightarrow> map_of m k = Some xs \<Longrightarrow> xs \<noteq> [] \<and> distinct xs"
  by (force simp: multi_ok_def dest: map_of_SomeD)

lemma multi_describes:
  "multi_ok m \<Longrightarrow> case map_of m k of Some xs \<Rightarrow> distinct xs \<and> xs \<noteq> [] \<and> set xs = {x. member m k x} | None \<Rightarrow> {x. member m k x} = {}"
  by (cases "map_of m k") (auto simp: member_def multi_ok_map_of)

lemma multi_ok_update: "multi_ok m \<Longrightarrow> xs \<noteq> [] \<Longrightarrow> distinct xs \<Longrightarrow> multi_ok (AList.update k xs m)"
  using set_update_subset [of k xs m] by (auto simp: multi_ok_def distinct_update)

lemma multi_ok_delete: "multi_ok m \<Longrightarrow> multi_ok (AList.delete k m)"
  using set_delete_subset [of k m] by (auto simp: multi_ok_def distinct_delete)

lemma multi_ok_insert: "multi_ok m \<Longrightarrow> multi_ok (multi_insert k x m)"
  unfolding multi_insert_def by (rule multi_ok_update) (auto dest: multi_ok_map_of simp: List.insert_def split: option.splits)

lemma multi_ok_remove: "multi_ok m \<Longrightarrow> multi_ok (multi_remove k x m)"
  by (auto simp: multi_remove_def Let_def multi_ok_delete intro!: multi_ok_update distinct_removeAll dest: multi_ok_map_of split: option.splits)

text \<open>The number of entries is the number of pairs.\<close>

lemma member_pairs:
  assumes "distinct (map fst m)"
  shows "{(k, x). member m k x} = (\<Union>(k, xs)\<in>set m. {k} \<times> set xs)"
  using assms by (auto simp: member_def split: option.splits dest: map_of_SomeD) (metis map_of_eq_Some_iff not_Some_eq option.inject)+

lemma count_pairs: "multi_ok m \<Longrightarrow> finite {(k, x). member m k x} \<and> card {(k, x). member m k x} = sum_list (map (length \<circ> snd) m)"
proof (induction m)
  case Nil
  show ?case by (simp add: member_def)
next
  case (Cons e m)
  obtain k xs where e: "e = (k, xs)" by fastforce
  have m: "multi_ok m" "k \<notin> fst ` set m" "distinct xs" using Cons.prems by (auto simp: multi_ok_def e)
  have split: "{(j, x). member (e # m) j x} = {k} \<times> set xs \<union> {(j, x). member m j x}"
    using m(2) by (auto simp: e member_def split: if_splits option.splits) (metis map_of_SomeD fst_conv image_eqI)
  have "({k} \<times> set xs) \<inter> {(j, x). member m j x} = {}"
    using m(2) by (auto simp: member_def split: option.splits dest!: map_of_SomeD) (metis fst_conv image_eqI)
  then show ?case unfolding split using Cons.IH [OF m(1)] m(3) by (simp add: card_Un_disjoint card_cartesian_product distinct_card e)
qed

section \<open>The two indexes\<close>

definition subs_ok :: "subscription_manager \<Rightarrow> bool" where
  "subs_ok s \<longleftrightarrow> multi_ok (subscriptions s) \<and> multi_ok (by_session s) \<and> (\<forall>c x. member (subscriptions s) c x \<longleftrightarrow> member (by_session s) x c)"

text \<open>The relation that the subscriptions stand for.\<close>

definition watching :: "subscription_manager \<Rightarrow> (u16 \<times> u16) set" where
  "watching s = {(x, c). is_subscribed s x c}"

lemma is_subscribed_member: "is_subscribed s x c \<longleftrightarrow> member (subscriptions s) c x"
  by (simp add: is_subscribed_def member_def)

lemma subs_new_ok: "subs_ok subs_new" "watching subs_new = {}"
  by (simp_all add: subs_ok_def subs_new_def multi_ok_def member_def watching_def is_subscribed_def)

lemma subscribe_ok: "subs_ok s \<Longrightarrow> subs_ok (subscribe x c s)" "watching (subscribe x c s) = insert (x, c) (watching s)"
  by (auto simp: subs_ok_def subscribe_def multi_ok_insert watching_def is_subscribed_member)

lemma unsubscribe_ok: "subs_ok s \<Longrightarrow> subs_ok (unsubscribe x c s)" "watching (unsubscribe x c s) = watching s - {(x, c)}"
  by (auto simp: subs_ok_def unsubscribe_def multi_ok_remove watching_def is_subscribed_member)

lemma fold_remove:
  "multi_ok m \<Longrightarrow> multi_ok (fold (\<lambda>c m. multi_remove c x m) cs m)"
  "member (fold (\<lambda>c m. multi_remove c x m) cs m) k y \<longleftrightarrow> member m k y \<and> \<not> (k \<in> set cs \<and> y = x)"
  by (induction cs arbitrary: m) (auto simp: multi_ok_remove)

lemma unsubscribe_all_ok:
  assumes "subs_ok s"
  shows "subs_ok (unsubscribe_all x s)" "watching (unsubscribe_all x s) = {(y, c) \<in> watching s. y \<noteq> x}"
proof -
  have mem: "member (AList.delete x m) k y \<longleftrightarrow> member m k y \<and> k \<noteq> x" for m :: "(u16 \<times> u16 list) list" and k y
    by (simp add: member_def delete_conv')
  have x: "member (by_session s) x c \<longleftrightarrow> (\<exists>cs. map_of (by_session s) x = Some cs \<and> c \<in> set cs)" for c
    by (simp add: member_def split: option.splits)
  note ok = assms [unfolded subs_ok_def]
  show "subs_ok (unsubscribe_all x s)"
    using ok x by (cases "map_of (by_session s) x") (auto simp: unsubscribe_all_def subs_ok_def multi_ok_delete fold_remove mem)
  show "watching (unsubscribe_all x s) = {(y, c) \<in> watching s. y \<noteq> x}"
    using ok x by (cases "map_of (by_session s) x") (auto simp: unsubscribe_all_def watching_def is_subscribed_member fold_remove)
qed

lemma total_watching: "subs_ok s \<Longrightarrow> total_subscriptions s = card (watching s)"
proof -
  assume "subs_ok s"
  then have "total_subscriptions s = card {(c, x). member (subscriptions s) c x}"
    using count_pairs [of "subscriptions s"] by (simp add: subs_ok_def total_subscriptions_def)
  also have "\<dots> = card (watching s)"
    by (rule bij_betw_same_card [of prod.swap]) (auto simp: bij_betw_def inj_on_def watching_def is_subscribed_member image_iff)
  finally show ?thesis .
qed

section \<open>Requests\<close>

lemma keeps_subs:
  "subs_ok s \<Longrightarrow> subs_ok (fold (subscribe x) cs s)" "subs_ok s \<Longrightarrow> subs_ok (fold unsubscribe_all xs s)"
  by (induction cs arbitrary: s) (simp_all add: subscribe_ok, induction xs arbitrary: s, simp_all add: unsubscribe_all_ok)

lemma watching_fold: "watching (fold (subscribe x) cs s) = watching s \<union> {x} \<times> set cs"
  by (induction cs arbitrary: s) (auto simp: subscribe_ok)

text \<open>A history of subscriptions, and what it means.\<close>

datatype sub_op = OpSubscribe u16 u16 | OpUnsubscribe u16 u16 | OpUnsubscribeAll u16

primrec run_sub_op :: "sub_op \<Rightarrow> subscription_manager \<Rightarrow> subscription_manager" where
  "run_sub_op (OpSubscribe x c) = subscribe x c"
| "run_sub_op (OpUnsubscribe x c) = unsubscribe x c"
| "run_sub_op (OpUnsubscribeAll x) = unsubscribe_all x"

primrec rel_sub_op :: "sub_op \<Rightarrow> (u16 \<times> u16) set \<Rightarrow> (u16 \<times> u16) set" where
  "rel_sub_op (OpSubscribe x c) r = insert (x, c) r"
| "rel_sub_op (OpUnsubscribe x c) r = r - {(x, c)}"
| "rel_sub_op (OpUnsubscribeAll x) r = {(y, c) \<in> r. y \<noteq> x}"

lemma run_sub_op_refines: "subs_ok s \<Longrightarrow> subs_ok (run_sub_op a s) \<and> watching (run_sub_op a s) = rel_sub_op a (watching s)"
  by (cases a) (simp_all add: subscribe_ok unsubscribe_ok unsubscribe_all_ok)

lemma run_sub_ops_refine:
  "subs_ok s \<Longrightarrow> subs_ok (fold run_sub_op as s) \<and> watching (fold run_sub_op as s) = fold rel_sub_op as (watching s)"
  by (induction as arbitrary: s) (simp_all add: run_sub_op_refines)

section \<open>Properties\<close>

text \<open>C27. The subscriptions refine a relation: after any sequence of subscribing, unsubscribing and closing of sessions, both indexes of the
  source describe the relation that results from adding and removing pairs: a session is a watcher of a component exactly when the pair is in
  it, the components of a session are those it is paired with, no watcher stands twice, and the total is the size of the relation.\<close>

theorem subscriptions_refine:
  "let s = fold run_sub_op as subs_new; r = fold rel_sub_op as {}
   in (\<forall>c. (case get_watchers s c of Some xs \<Rightarrow> distinct xs \<and> xs \<noteq> [] \<and> set xs = {x. (x, c) \<in> r} | None \<Rightarrow> {x. (x, c) \<in> r} = {})) \<and>
      (\<forall>x. (case session_components s x of Some cs \<Rightarrow> distinct cs \<and> cs \<noteq> [] \<and> set cs = {c. (x, c) \<in> r} | None \<Rightarrow> {c. (x, c) \<in> r} = {})) \<and>
      total_subscriptions s = card r"
proof -
  define s r where "s = fold run_sub_op as subs_new" and "r = fold rel_sub_op as {}"
  have ok: "subs_ok s" and r: "watching s = r"
    using run_sub_ops_refine [OF subs_new_ok(1), of as] by (simp_all add: s_def r_def subs_new_ok)
  have w: "(x, c) \<in> r \<longleftrightarrow> member (subscriptions s) c x" "(x, c) \<in> r \<longleftrightarrow> member (by_session s) x c" for x c
    using ok by (auto simp: r [symmetric] watching_def is_subscribed_member subs_ok_def)
  have mo: "multi_ok (subscriptions s)" "multi_ok (by_session s)" using ok by (simp_all add: subs_ok_def)
  have "case get_watchers s c of Some xs \<Rightarrow> distinct xs \<and> xs \<noteq> [] \<and> set xs = {x. (x, c) \<in> r} | None \<Rightarrow> {x. (x, c) \<in> r} = {}" for c
    unfolding w(1) get_watchers_def by (rule multi_describes [OF mo(1)])
  moreover have "case session_components s x of Some cs \<Rightarrow> distinct cs \<and> cs \<noteq> [] \<and> set cs = {c. (x, c) \<in> r} | None \<Rightarrow> {c. (x, c) \<in> r} = {}" for x
    unfolding w(2) session_components_def by (rule multi_describes [OF mo(2)])
  ultimately show ?thesis using total_watching [OF ok] by (simp add: s_def [symmetric] r_def [symmetric] r)
qed

end
