(* ===== verification/Sox_Files.thy ===== *)
theory Sox_Files
  imports Sox_Handlers
begin

text \<open>
  File transfer over SOX (\<open>sox/sox_handlers.rs\<close>): opening a file for reading or writing, chunks in both directions, closing, renaming, and
  the check of paths. The file system is a record of functions over a state of its own. The transfer is behind a mutex: a
  panic while it is held poisons it, and every later use of it panics.
\<close>

section \<open>The file system and paths\<close>

text \<open>A path is the text of its bytes. Reading gives \<open>None\<close> when it fails; the operations that change the file system answer whether they succeeded.\<close>

record 'f sox_fs =
  fs_temp_dir :: "u8 list"
  fs_read :: "u8 list \<Rightarrow> 'f \<Rightarrow> u8 list option"
  fs_exists :: "u8 list \<Rightarrow> 'f \<Rightarrow> bool"
  fs_canonicalize :: "u8 list \<Rightarrow> 'f \<Rightarrow> u8 list option"
  fs_create_dir_all :: "u8 list \<Rightarrow> 'f \<Rightarrow> bool \<times> 'f"
  fs_write :: "u8 list \<Rightarrow> u8 list \<Rightarrow> 'f \<Rightarrow> bool \<times> 'f"
  fs_rename :: "u8 list \<Rightarrow> u8 list \<Rightarrow> 'f \<Rightarrow> bool \<times> 'f"

text \<open>A file system that is an association list of paths and contents, for examples.\<close>

definition mem_fs :: "(u8 list \<times> u8 list) list sox_fs" where
  "mem_fs = \<lparr>fs_temp_dir = ascii ''/tmp'', fs_read = (\<lambda>p w. map_of w p), fs_exists = (\<lambda>p w. True), fs_canonicalize = (\<lambda>p w. Some p),
     fs_create_dir_all = (\<lambda>p w. (True, w)), fs_write = (\<lambda>p c w. (True, AList.update p c w)),
     fs_rename = (\<lambda>a b w. case map_of w a of Some c \<Rightarrow> (True, AList.update b c (AList.delete a w)) | None \<Rightarrow> (False, w))\<rparr>"

definition slash :: u8 where "slash = of_char CHR ''/''"

text \<open>\<open>Path::components\<close> of an absolute path: empty and single-dot parts do not count.\<close>

fun split_slash :: "u8 list \<Rightarrow> u8 list \<Rightarrow> u8 list list" where
  "split_slash cur [] = [cur]"
| "split_slash cur (b # bs) = (if b = slash then cur # split_slash [] bs else split_slash (cur @ [b]) bs)"

definition path_components :: "u8 list \<Rightarrow> u8 list list" where
  "path_components p = filter (\<lambda>c. c \<noteq> [] \<and> c \<noteq> ascii ''.'') (split_slash [] p)"

definition join_components :: "u8 list list \<Rightarrow> u8 list" where
  "join_components cs = (if cs = [] then [slash] else concat (map (\<lambda>c. slash # c) cs))"

definition path_parent :: "u8 list \<Rightarrow> u8 list option" where
  "path_parent p = (if path_components p = [] then None else Some (join_components (butlast (path_components p))))"

definition path_file_name :: "u8 list \<Rightarrow> u8 list option" where
  "path_file_name p = (if path_components p = [] then None else Some (last (path_components p)))"

definition path_join :: "u8 list \<Rightarrow> u8 list \<Rightarrow> u8 list" where
  "path_join p name = (if p = [] \<or> last p = slash then p @ name else p @ [slash] @ name)"

definition starts_with :: "u8 list \<Rightarrow> u8 list \<Rightarrow> bool" where
  "starts_with p d \<longleftrightarrow> take (length d) p = d"

fun contains_dots :: "u8 list \<Rightarrow> bool" where
  "contains_dots (a # b # bs) \<longleftrightarrow> a = of_char CHR ''.'' \<and> b = of_char CHR ''.'' \<or> contains_dots (b # bs)"
| "contains_dots _ \<longleftrightarrow> False"

definition SOX_CHUNK_SIZE :: usize where "SOX_CHUNK_SIZE = 256"
definition KITS_BASE_DIR :: "u8 list" where "KITS_BASE_DIR = ascii ''/home/eacio/sandstar/etc/kits''"
definition MANIFESTS_DIR :: "u8 list" where "MANIFESTS_DIR = ascii ''/home/eacio/sandstar/etc/manifests''"

definition WRITE_ALLOWED_DIRS :: "u8 list list" where
  "WRITE_ALLOWED_DIRS = [MANIFESTS_DIR, ascii ''/home/eacio/sandstar/etc/config'', ascii ''/tmp'']"

definition trim_end_seps :: "u8 list \<Rightarrow> u8 list" where
  "trim_end_seps p = rev (dropWhile (\<lambda>b. b = slash \<or> b = 0x5C) (rev p))"

definition allowed_write_dirs :: "'f sox_fs \<Rightarrow> 'f \<Rightarrow> u8 list list" where
  "allowed_write_dirs F w =
     (let d = trim_end_seps (utf8_lossy (case fs_canonicalize F (fs_temp_dir F) w of Some p \<Rightarrow> p | None \<Rightarrow> fs_temp_dir F))
      in if d \<in> set WRITE_ALLOWED_DIRS then WRITE_ALLOWED_DIRS else WRITE_ALLOWED_DIRS @ [d])"

definition resolve_sox_uri :: "u8 list \<Rightarrow> string + u8 list" where
  "resolve_sox_uri uri =
     (if starts_with uri (ascii ''m:'') then
        if drop 2 uri = ascii ''m.zip'' then Inl ''m.zip not supported'' else Inr (MANIFESTS_DIR @ [slash] @ drop 2 uri)
      else if starts_with uri (ascii ''/kits/'') then Inr (KITS_BASE_DIR @ [slash] @ drop 6 uri)
      else if starts_with uri [slash] then Inr uri
      else Inr (KITS_BASE_DIR @ [slash] @ uri))"

text \<open>The directory of a file to be written is created before it is checked.\<close>

definition validate_path :: "'f sox_fs \<Rightarrow> u8 list \<Rightarrow> bool \<Rightarrow> ('f, string, u8 list) routine" where
  "validate_path F p allow_write =
     (if contains_dots p \<or> 0 \<in> set p then raise ''invalid path''
      else if allow_write then
        bnd (query (\<lambda>w. Ok (allowed_write_dirs F w))) (\<lambda>dirs.
        case path_parent p of
          None \<Rightarrow> raise ''invalid path''
        | Some parent \<Rightarrow> sq
            (\<lambda>w. if fs_exists F parent w then (Ok (), w)
                 else case fs_create_dir_all F parent w of (ok, w') \<Rightarrow> (if ok then Ok () else Err ''cannot create directory'', w'))
            (\<lambda>w. case fs_canonicalize F parent w of
               None \<Rightarrow> (Err ''invalid path'', w)
             | Some canon \<Rightarrow>
                 if \<not> list_ex (starts_with (utf8_lossy canon)) dirs then (Err ''invalid path'', w)
                 else case path_file_name p of
                   Some name \<Rightarrow> (Ok (path_join canon name), w)
                 | None \<Rightarrow> (Err ''invalid path'', w)))
      else (\<lambda>w. case fs_canonicalize F p w of
          None \<Rightarrow> (Err ''file not found'', w)
        | Some canon \<Rightarrow> if \<not> list_ex (starts_with (utf8_lossy canon)) [KITS_BASE_DIR, MANIFESTS_DIR] then (Err ''invalid path'', w)
                        else (Ok canon, w)))"

section \<open>Transfers\<close>

datatype xfer_mode = GetMode | PutMode

record sox_file_xfer =
  fx_data :: "u8 list"
  fx_chunk_size :: usize
  fx_mode :: xfer_mode
  fx_write_path :: "u8 list option"
  fx_file_size :: usize
  fx_num_chunks :: usize
  fx_chunks_received :: usize
  fx_offset :: usize

record 'f file_server =
  xfer :: "sox_file_xfer option"
  xfer_poisoned :: bool
  disk :: 'f

type_synonym ('f, 'a) file_routine = "('f file_server, unit, 'a) routine"

definition on_disk :: "('f, string, 'a) routine \<Rightarrow> ('f, string + 'a) file_routine" where
  "on_disk m s = (case m (disk s) of
      (Ok a, w) \<Rightarrow> (Ok (Inr a), s\<lparr>disk := w\<rparr>)
    | (Err e, w) \<Rightarrow> (Ok (Inl e), s\<lparr>disk := w\<rparr>)
    | (Panic, w) \<Rightarrow> (Panic, s\<lparr>disk := w\<rparr>))"

text \<open>A section that holds the lock: it panics when the lock is poisoned, and a panic inside poisons it.\<close>

definition locked :: "('f, 'a) file_routine \<Rightarrow> ('f, 'a) file_routine" where
  "locked m s = (if xfer_poisoned s then (Panic, s)
     else case m s of (Panic, s') \<Rightarrow> (Panic, s'\<lparr>xfer_poisoned := True\<rparr>) | r \<Rightarrow> r)"

text \<open>Addition and multiplication of \<open>usize\<close>.\<close>

definition usize_ok :: "nat \<Rightarrow> ('s, 'e, usize) routine" where
  "usize_ok n = (if n < usize_bound then ret n else panic)"

definition is_digit_byte :: "u8 \<Rightarrow> bool" where
  "is_digit_byte b \<longleftrightarrow> of_char CHR ''0'' \<le> b \<and> b \<le> of_char CHR ''9''"

text \<open>\<open>str::parse::<usize>().unwrap_or(0)\<close>.\<close>

definition parse_usize :: "u8 list \<Rightarrow> usize" where
  "parse_usize s =
     (let ds = (if starts_with s (ascii ''+'') then tl s else s)
      in if ds = [] \<or> \<not> list_all is_digit_byte ds then 0
         else let n = foldl (\<lambda>n d. n * 10 + (unat d - 48)) 0 ds in if n < usize_bound then n else 0)"

lemma scan_str_advances: "scan_str start r = (Ok s, r') \<Longrightarrow> rd_data r' = rd_data r \<and> rd_pos r < rd_pos r' \<and> rd_pos r' \<le> length (rd_data r)"
proof (induction start r rule: scan_str.induct)
  case (1 start r)
  from "1.prems" have "scan_str start r = (Ok s, r')" .
  then show ?case using "1.IH" by (subst (asm) scan_str.simps) (auto split: if_splits)
qed

text \<open>The headers, pairs of texts up to an empty key or the end of the data; only the offset matters.\<close>

function read_headers :: "usize \<Rightarrow> (sox_reader, unit, usize) routine" where
  "read_headers offset r = (case read_str r of
      (Ok key, r') \<Rightarrow>
        if key = [] then (Ok offset, r')
        else (case read_str r' of
            (Ok v, r'') \<Rightarrow> read_headers (if key = ascii ''offset'' then parse_usize v else offset) r''
          | (_, r'') \<Rightarrow> (Ok (if key = ascii ''offset'' then parse_usize [] else offset), r''))
    | (_, r') \<Rightarrow> (Ok offset, r'))"
  by pat_completeness auto

termination
  by (relation "measure (\<lambda>(_, r). length (rd_data r) - rd_pos r)") (auto simp: read_str_def dest!: scan_str_advances [OF sym])

declare read_headers.simps [simp del]

definition open_args :: "(sox_reader, string, u8 list \<times> u8 list \<times> usize \<times> usize \<times> usize) routine" where
  "open_args = bnd (or_default read_str []) (\<lambda>how. bnd (or_default read_str []) (\<lambda>uri.
     bnd (or_default read_u32 0) (\<lambda>fsize. bnd (or_default read_u16 (of_nat SOX_CHUNK_SIZE)) (\<lambda>chunk.
     bnd (or_default (read_headers 0) 0) (\<lambda>offset.
       ret (how, uri, unat fsize, if chunk = 0 then SOX_CHUNK_SIZE else unat chunk, offset))))))"

definition open_reply :: "sox_request \<Rightarrow> usize \<Rightarrow> usize \<Rightarrow> sox_response" where
  "open_reply req fsize chunk = write_u8 0 (write_u16 (of_nat chunk) (write_u32 (of_nat fsize) (response_success FileOpen (req_id req))))"

definition start_transfer :: "sox_file_xfer \<Rightarrow> ('f, unit) file_routine" where
  "start_transfer f = locked (modify (\<lambda>s. s\<lparr>xfer := Some f\<rparr>))"

definition open_get :: "'f sox_fs \<Rightarrow> sox_request \<Rightarrow> u8 list \<Rightarrow> usize \<Rightarrow> usize \<Rightarrow> usize \<Rightarrow> ('f, sox_response) file_routine" where
  "open_get F req path fsize chunk offset = bnd (on_disk (validate_path F path False)) (\<lambda>v. case v of
      Inl msg \<Rightarrow> ret (error_msg FileOpen (req_id req) msg)
    | Inr canon \<Rightarrow> (\<lambda>s. case fs_read F canon (disk s) of
        None \<Rightarrow> ret (error_msg FileOpen (req_id req) ''file not found'') s
      | Some content \<Rightarrow>
          let eff = (if fsize = 0 then length content - offset else min fsize (length content - offset))
          in sq (start_transfer \<lparr>fx_data = content, fx_chunk_size = chunk, fx_mode = GetMode, fx_write_path = None, fx_file_size = eff,
                   fx_num_chunks = 0, fx_chunks_received = 0, fx_offset = offset\<rparr>)
               (ret (open_reply req eff chunk)) s))"

definition open_put :: "'f sox_fs \<Rightarrow> sox_request \<Rightarrow> u8 list \<Rightarrow> usize \<Rightarrow> usize \<Rightarrow> usize \<Rightarrow> ('f, sox_response) file_routine" where
  "open_put F req path fsize chunk offset = bnd (on_disk (validate_path F path True)) (\<lambda>v. case v of
      Inl msg \<Rightarrow> ret (error_msg FileOpen (req_id req) msg)
    | Inr canon \<Rightarrow>
        if fsize > 10 * 1024 * 1024 then ret (error_msg FileOpen (req_id req) ''too big'')
        else sq (start_transfer \<lparr>fx_data = replicate fsize 0, fx_chunk_size = chunk, fx_mode = PutMode, fx_write_path = Some (utf8_lossy canon),
                   fx_file_size = fsize, fx_num_chunks = (if fsize = 0 then 1 else (fsize + chunk - 1) div chunk), fx_chunks_received = 0,
                   fx_offset = offset\<rparr>)
               (ret (open_reply req fsize chunk)))"

definition handle_file_open :: "'f sox_fs \<Rightarrow> sox_request \<Rightarrow> ('f, sox_response) file_routine" where
  "handle_file_open F req = with_args req open_args (\<lambda>(how, uri, fsize, chunk, offset).
     case resolve_sox_uri uri of
       Inl msg \<Rightarrow> ret (error_msg FileOpen (req_id req) msg)
     | Inr path \<Rightarrow> bnd (locked (query (\<lambda>s. Ok (xfer s \<noteq> None)))) (\<lambda>busy.
         if busy then ret (error_msg FileOpen (req_id req) ''busy'')
         else if how = ascii ''g'' then open_get F req path fsize chunk offset
         else if how = ascii ''p'' then open_put F req path fsize chunk offset
         else ret (error_msg FileOpen (req_id req) ''bad method'')))"

definition read_chunk :: "sox_request \<Rightarrow> sox_file_xfer \<Rightarrow> nat \<Rightarrow> ('f, sox_response) file_routine" where
  "read_chunk req f n =
     (if fx_mode f \<noteq> GetMode then ret (error_msg FileRead (req_id req) ''not in get mode'')
      else if n * fx_chunk_size f \<ge> usize_bound then ret (error_msg FileRead (req_id req) ''chunk out of range'')
      else bnd (usize_ok (n * fx_chunk_size f + fx_offset f)) (\<lambda>start.
           bnd (usize_ok (start + fx_chunk_size f)) (\<lambda>stop.
           bnd (usize_ok (fx_offset f + fx_file_size f)) (\<lambda>limit.
             let last = min (min stop limit) (length (fx_data f))
             in if start < length (fx_data f) \<and> start < limit
                then ret (write_bytes (take (last - start) (drop start (fx_data f))) (response_success FileRead (req_id req)))
                else ret (error_msg FileRead (req_id req) ''chunk out of range'')))))"

definition handle_file_read :: "sox_request \<Rightarrow> ('f, sox_response) file_routine" where
  "handle_file_read req = with_args req (or_default read_u16 0) (\<lambda>n. locked (\<lambda>s. case xfer s of
      Some f \<Rightarrow> read_chunk req f (unat n) s
    | None \<Rightarrow> ret (error_msg FileRead (req_id req) ''no file open'') s))"

definition handle_file_close :: "'f sox_fs \<Rightarrow> sox_request \<Rightarrow> ('f, sox_response) file_routine" where
  "handle_file_close F req = locked (\<lambda>s. case Option.bind (xfer s) (\<lambda>f. if fx_mode f = PutMode then map_option (\<lambda>p. (p, fx_data f)) (fx_write_path f) else None) of
      Some (path, content) \<Rightarrow> (case fs_write F path content (disk s) of
          (True, w) \<Rightarrow> ret (response_success FileClose (req_id req)) (s\<lparr>xfer := None, disk := w\<rparr>)
        | (False, w) \<Rightarrow> ret (error_msg FileClose (req_id req) ''write failed'') (s\<lparr>xfer := None, disk := w\<rparr>))
    | None \<Rightarrow> ret (response_success FileClose (req_id req)) (s\<lparr>xfer := None\<rparr>))"

definition chunk_args :: "(sox_reader, string, nat \<times> u8 list) routine" where
  "chunk_args = bnd (need read_u16 ''bad chunk'') (\<lambda>n. bnd (need read_u16 ''bad chunk'') (\<lambda>k.
     bnd (need (read_bytes (unat k)) ''truncated chunk'') (\<lambda>bs. ret (unat n, bs))))"

text \<open>A chunk goes to its place in the buffer; \<open>Some msg\<close> when it is refused.\<close>

definition store_chunk :: "nat \<Rightarrow> u8 list \<Rightarrow> ('f, string option) file_routine" where
  "store_chunk n bs s = (case xfer s of
      None \<Rightarrow> (Ok (Some ''no file open''), s)
    | Some f \<Rightarrow>
        if fx_mode f \<noteq> PutMode then (Ok (Some ''not in put mode''), s)
        else bnd (usize_ok (n * fx_chunk_size f)) (\<lambda>p. bnd (usize_ok (fx_offset f + p)) (\<lambda>start. bnd (usize_ok (start + length bs)) (\<lambda>stop.
          if stop > length (fx_data f) then ret (Some ''chunk out of range'')
          else bnd (usize_ok (fx_chunks_received f + 1)) (\<lambda>k.
               sq (modify (\<lambda>s. s\<lparr>xfer := Some (f\<lparr>fx_data := set_range (fx_data f) start bs, fx_chunks_received := k\<rparr>)\<rparr>)) (ret None))))) s)"

definition handle_file_write :: "sox_request \<Rightarrow> ('f, sox_response) file_routine" where
  "handle_file_write req = (case fst (chunk_args (reader_new (req_payload req))) of
      Err msg \<Rightarrow> ret (error_msg FileWrite (req_id req) msg)
    | Panic \<Rightarrow> panic
    | Ok (n, bs) \<Rightarrow> bnd (locked (store_chunk n bs)) (\<lambda>refused. case refused of
        Some msg \<Rightarrow> ret (error_msg FileWrite (req_id req) msg)
      | None \<Rightarrow> ret (response_success FileWrite (req_id req))))"

definition is_put_transfer_active :: "('f, bool) file_routine" where
  "is_put_transfer_active = locked (query (\<lambda>s. Ok (case xfer s of Some f \<Rightarrow> fx_mode f = PutMode | None \<Rightarrow> False)))"

definition handle_put_chunk :: "u8 list \<Rightarrow> ('f, sox_response option) file_routine" where
  "handle_put_chunk payload = (case fst (chunk_args (reader_new payload)) of
      Err _ \<Rightarrow> ret None
    | Panic \<Rightarrow> panic
    | Ok (n, bs) \<Rightarrow> sq (locked (store_chunk n bs)) (ret None))"

definition handle_file_rename :: "'f sox_fs \<Rightarrow> sox_request \<Rightarrow> ('f, sox_response) file_routine" where
  "handle_file_rename F req = with_args req (bnd (or_default read_str []) (\<lambda>a. bnd (or_default read_str []) (\<lambda>b. ret (a, b)))) (\<lambda>(a, b).
     let fail = (\<lambda>msg. ret (error_msg FileRename (req_id req) msg))
     in if a = [] \<or> b = [] then fail ''empty path''
        else case resolve_sox_uri a of
          Inl msg \<Rightarrow> fail msg
        | Inr pa \<Rightarrow> (case resolve_sox_uri b of
            Inl msg \<Rightarrow> fail msg
          | Inr pb \<Rightarrow> bnd (on_disk (validate_path F pa True)) (\<lambda>va. case va of
              Inl msg \<Rightarrow> fail msg
            | Inr ca \<Rightarrow> (\<lambda>s. if \<not> fs_exists F ca (disk s) then fail ''not found'' s
                else bnd (on_disk (validate_path F pb True)) (\<lambda>vb. case vb of
                    Inl msg \<Rightarrow> fail msg
                  | Inr cb \<Rightarrow> (\<lambda>s. case fs_rename F ca cb (disk s) of
                      (True, w) \<Rightarrow> ret (response_success FileRename (req_id req)) (s\<lparr>disk := w\<rparr>)
                    | (False, w) \<Rightarrow> fail ''rename failed'' (s\<lparr>disk := w\<rparr>))) s))))"

end
