(* ===== verification/Sox_Server.thy ===== *)
theory Sox_Server
  imports Sox_Invariants Sox_Subscriptions Sox_Files
begin

text \<open>
  The SOX server (\<open>sox/mod.rs\<close> and the dispatch in \<open>sox/sox_handlers.rs\<close>): requests of sessions, the chunks of a file that is being
  put, the refresh of the tree once a second with the data flow, the events it pushes, the expiry of sessions and saving. The transport is
  below this model: a packet arrives as a session and a payload, and what is sent is recorded, as are the writes to the engine and the
  documents to be saved. A step relation over all of them gives the reachable states of the server.
\<close>

section \<open>The state\<close>

record engine_write =
  ew_channel :: u32
  ew_value :: f64
  ew_level :: u8
  ew_who :: string

record 'f sox_server =
  sv_tree :: component_tree
  sv_subs :: subscription_manager
  sv_files :: "'f file_server"
  sv_dyn :: dyn_slot_store
  force_full_cov :: bool
  first_cov_burst :: bool
  pending_cov :: "u16 list"
  sent_events :: "(u16 \<times> u8 list) list"
  engine_writes :: "engine_write list"
  saved_tree :: "persist_data option"
  saved_tags :: "(u16 \<times> tag_map) list option"

type_synonym ('f, 'a) server_routine = "('f sox_server, unit, 'a) routine"

definition on_tree :: "(component_tree, unit, 'a) routine \<Rightarrow> ('f, 'a) server_routine" where
  "on_tree m s = (case m (sv_tree s) of (r, t) \<Rightarrow> (r, s\<lparr>sv_tree := t\<rparr>))"

definition on_subs :: "(subscription_manager, unit, 'a) routine \<Rightarrow> ('f, 'a) server_routine" where
  "on_subs m s = (case m (sv_subs s) of (r, t) \<Rightarrow> (r, s\<lparr>sv_subs := t\<rparr>))"

definition on_files :: "('f, 'a) file_routine \<Rightarrow> ('f, 'a) server_routine" where
  "on_files m s = (case m (sv_files s) of (r, t) \<Rightarrow> (r, s\<lparr>sv_files := t\<rparr>))"

definition on_dyn :: "(dyn_slot_store, unit, 'a) routine \<Rightarrow> ('f, 'a) server_routine" where
  "on_dyn m s = (case m (sv_dyn s) of (r, t) \<Rightarrow> (r, s\<lparr>sv_dyn := t\<rparr>))"

definition sox_send :: "u16 \<Rightarrow> u8 list \<Rightarrow> 'f sox_server \<Rightarrow> 'f sox_server" where
  "sox_send session bytes s = s\<lparr>sent_events := sent_events s @ [(session, bytes)]\<rparr>"

definition send_all :: "(u16 \<times> u8 list) list \<Rightarrow> 'f sox_server \<Rightarrow> 'f sox_server" where
  "send_all evs s = s\<lparr>sent_events := sent_events s @ evs\<rparr>"

section \<open>Requests\<close>

text \<open>The actions \<open>save\<close> and \<open>hibernate\<close> save the components of users at once; what is written is kept in \<open>saved_tree\<close>.\<close>

definition save_requested :: "sox_request \<Rightarrow> component_tree \<Rightarrow> bool" where
  "save_requested req t =
     (case fst (bnd (or_default read_u16 0) (\<lambda>cid. bnd (or_default read_u8 0) (\<lambda>sid. ret (slot_at t cid sid))) (reader_new (req_payload req))) of
        Ok (Some sl) \<Rightarrow> vs_name sl = ascii ''save'' \<or> vs_name sl = ascii ''hibernate''
      | _ \<Rightarrow> False)"

definition save_on_action :: "sox_request \<Rightarrow> 'f sox_server \<Rightarrow> 'f sox_server" where
  "save_on_action req s = (if save_requested req (sv_tree s) then s\<lparr>saved_tree := Some (save_data (sv_tree s))\<rparr> else s)"

definition handle_sox_request_with_dyn ::
  "'f sox_fs \<Rightarrow> (f64 \<Rightarrow> u8 list) \<Rightarrow> sox_request \<Rightarrow> u16 \<Rightarrow> ('f, sox_response) server_routine" where
  "handle_sox_request_with_dyn F f64_text req session s = (case req_cmd req of
      ReadSchema \<Rightarrow> ret (handle_read_schema req)
    | ReadVersion \<Rightarrow> ret (handle_read_version req)
    | ReadComp \<Rightarrow> on_tree (handle_read_comp (Some (get_all_with_computed f64_text (sv_dyn s))) req)
    | ReadProp \<Rightarrow> on_tree (handle_read_prop req)
    | Subscribe \<Rightarrow> on_subs (handle_subscribe req session (sv_tree s))
    | Unsubscribe \<Rightarrow> on_subs (handle_unsubscribe req session)
    | WriteCmd \<Rightarrow> on_tree (handle_write req)
    | AddCmd \<Rightarrow> on_tree (handle_add req)
    | Delete \<Rightarrow> on_tree (handle_delete req)
    | Rename \<Rightarrow> on_tree (handle_rename req)
    | LinkCmd \<Rightarrow> on_tree (handle_link req)
    | Reorder \<Rightarrow> on_tree (handle_reorder req)
    | Invoke \<Rightarrow> sq (modify (save_on_action req)) (on_tree (handle_invoke req))
    | FileOpen \<Rightarrow> on_files (handle_file_open F req)
    | FileRead \<Rightarrow> on_files (handle_file_read req)
    | FileWrite \<Rightarrow> on_files (handle_file_write req)
    | FileClose \<Rightarrow> on_files (handle_file_close F req)
    | FileRename \<Rightarrow> on_files (handle_file_rename F req)
    | _ \<Rightarrow> refuse req ''unsupported command'') s"

text \<open>A write to the output of a channel component goes to the engine as well, as the operator.\<close>

definition forward_write :: "sox_request \<Rightarrow> 'f sox_server \<Rightarrow> 'f sox_server" where
  "forward_write req s = (case Option.bind (parse_write_request req (sv_tree s)) (\<lambda>w. to_channel_write w (sv_tree s)) of
      Some (ch, v) \<Rightarrow> s\<lparr>engine_writes := engine_writes s @ [\<lparr>ew_channel = ch, ew_value = v, ew_level = 8, ew_who = ''sox''\<rparr>]\<rparr>
    | None \<Rightarrow> s)"

text \<open>The first two bytes of the payload as an id.\<close>

definition leading_id :: "sox_request \<Rightarrow> u16 option" where
  "leading_id req = (if 2 \<le> length (req_payload req) then Some (from_be (take 2 (req_payload req))) else None)"

definition is_cmd :: "sox_request \<Rightarrow> char \<Rightarrow> bool" where
  "is_cmd req c \<longleftrightarrow> cmd_byte (req_cmd req) = of_char c"

definition event_head :: "u16 \<Rightarrow> char \<Rightarrow> u8 list" where
  "event_head cid what = [of_char CHR ''e'', 0xFF] @ to_be 2 cid @ [of_char what]"

definition tree_event :: "u16 \<Rightarrow> virtual_component \<Rightarrow> u16 list \<Rightarrow> u8 list" where
  "tree_event cid c kids = event_head cid CHR ''t'' @ [vc_kit c, vc_type c] @ vc_name c @ [0] @ to_be 2 (vc_parent c) @
     [0xFF, of_nat (length kids)] @ concat (map (to_be 2) kids)"

definition links_event :: "u16 \<Rightarrow> virtual_component \<Rightarrow> u8 list" where
  "links_event cid c = event_head cid CHR ''l'' @
     concat (map (\<lambda>l. to_be 2 (from_comp l) @ [from_slot l] @ to_be 2 (to_comp l) @ [to_slot l]) (vc_links c)) @ to_be 2 (0xFFFF :: u16)"

definition drop_tags :: "u16 option \<Rightarrow> ('f, unit) server_routine" where
  "drop_tags deleted s = (case deleted of
      Some cid \<Rightarrow> if 0 < tag_count (sv_dyn s) cid then on_dyn (ds_remove_all cid) s else (Ok (), s)
    | None \<Rightarrow> (Ok (), s))"

definition push_write_event :: "sox_request \<Rightarrow> 'f sox_server \<Rightarrow> 'f sox_server" where
  "push_write_event req s = (case leading_id req of
      Some cid \<Rightarrow> if is_cmd req CHR ''w'' \<and> is_channel_comp (sv_tree s) cid then send_all (build_events (sv_subs s) [cid] (sv_tree s)) s else s
    | None \<Rightarrow> s)"

definition push_config_event :: "sox_request \<Rightarrow> 'f sox_server \<Rightarrow> 'f sox_server" where
  "push_config_event req s = (case leading_id req of
      Some cid \<Rightarrow> if (is_cmd req CHR ''k'' \<or> is_cmd req CHR ''w'') \<and> \<not> is_channel_comp (sv_tree s) cid
                  then send_all (build_config_events (sv_subs s) cid (sv_tree s)) s else s
    | None \<Rightarrow> s)"

text \<open>After an add, the two bytes behind the header of the response are taken for the id of the new component.\<close>

definition push_tree_events :: "sox_request \<Rightarrow> u16 \<Rightarrow> u16 \<Rightarrow> u8 list \<Rightarrow> ('f, unit) server_routine" where
  "push_tree_events req session deleted_parent bytes s =
     (if is_cmd req CHR ''a'' \<or> is_cmd req CHR ''d'' then
        let parent = (case leading_id req of Some cid \<Rightarrow> if is_cmd req CHR ''a'' then cid else deleted_parent | None \<Rightarrow> deleted_parent);
            s1 = (case tree_get (sv_tree s) parent of
                    Some c \<Rightarrow> sox_send session (tree_event parent c (vc_children c)) s
                  | None \<Rightarrow> s)
        in if \<not> is_cmd req CHR ''a'' then (Ok (), s1)
           else if length bytes < 4 then (Panic, s1)
           else let new_id = from_be (take 2 (drop 2 bytes))
                in (Ok (), case tree_get (sv_tree s1) new_id of
                      Some c \<Rightarrow> sox_send session (tree_event new_id c []) s1
                    | None \<Rightarrow> s1)
      else (Ok (), s))"

definition push_link_events :: "sox_request \<Rightarrow> u16 \<Rightarrow> u8 list \<Rightarrow> 'f sox_server \<Rightarrow> 'f sox_server" where
  "push_link_events req session bytes s =
     (if is_cmd req CHR ''l'' \<and> hd bytes = of_char CHR ''L'' \<and> 7 \<le> length (req_payload req)
      then fold (\<lambda>cid s. case tree_get (sv_tree s) cid of Some c \<Rightarrow> sox_send session (links_event cid c) s | None \<Rightarrow> s)
             [from_be (take 2 (drop 1 (req_payload req))), from_be (take 2 (drop 4 (req_payload req)))] s
      else s)"

definition push_all_links :: "sox_request \<Rightarrow> u16 \<Rightarrow> 'f sox_server \<Rightarrow> 'f sox_server" where
  "push_all_links req session s =
     (if is_cmd req CHR ''s''
      then fold (\<lambda>cid s. case tree_get (sv_tree s) cid of
             Some c \<Rightarrow> if vc_links c = [] then s else sox_send session (links_event cid c) s
           | None \<Rightarrow> s) (comp_ids (sv_tree s)) (s\<lparr>force_full_cov := True\<rparr>)
      else s)"

definition handle_request :: "'f sox_fs \<Rightarrow> (f64 \<Rightarrow> u8 list) \<Rightarrow> u16 \<Rightarrow> sox_request \<Rightarrow> ('f, unit) server_routine" where
  "handle_request F f64_text session req s =
     (let deleted = (if is_cmd req CHR ''d'' then leading_id req else None);
          deleted_parent = (case Option.bind deleted (tree_get (sv_tree s)) of Some c \<Rightarrow> vc_parent c | None \<Rightarrow> 0)
      in sq (modify (forward_write req))
        (bnd (handle_sox_request_with_dyn F f64_text req session) (\<lambda>response.
         let bytes = response_bytes response in
         sq (modify (sox_send session bytes))
        (sq (drop_tags deleted)
        (sq (modify (push_config_event req \<circ> push_write_event req))
        (sq (push_tree_events req session deleted_parent bytes)
            (modify (push_all_links req session \<circ> push_link_events req session bytes))))))) s)"

text \<open>While a file is being put, every \<open>k\<close> carries a chunk of it and has no response.\<close>

definition handle_packet :: "'f sox_fs \<Rightarrow> (f64 \<Rightarrow> u8 list) \<Rightarrow> u16 \<Rightarrow> u8 list \<Rightarrow> ('f, unit) server_routine" where
  "handle_packet F f64_text session payload =
     bnd (if 2 \<le> length payload \<and> hd payload = of_char CHR ''k'' then on_files is_put_transfer_active else ret False) (\<lambda>put.
       if put then sq (on_files (handle_put_chunk (drop 2 payload))) (ret ())
       else case request_parse payload of
         Some req \<Rightarrow> handle_request F f64_text session req
       | None \<Rightarrow> ret ())"

section \<open>Timers\<close>

definition queue_new :: "u16 list \<Rightarrow> u16 list \<Rightarrow> u16 list" where
  "queue_new ids pending = fold (\<lambda>i p. if i \<in> set p then p else p @ [i]) ids pending"

definition queue_full_cov :: "u16 list \<Rightarrow> 'f sox_server \<Rightarrow> 'f sox_server" where
  "queue_full_cov flow s =
     (if force_full_cov s
      then s\<lparr>force_full_cov := False, first_cov_burst := True,
             pending_cov := queue_new flow (map of_nat [unat CHANNEL_COMP_BASE..<unat (channel_comp_end (sv_tree s))])\<rparr>
      else s)"

text \<open>Both kinds of events for a component of the logic that has changed.\<close>

definition push_flow_event :: "u16 \<Rightarrow> 'f sox_server \<Rightarrow> 'f sox_server" where
  "push_flow_event cid s =
     (if is_channel_comp (sv_tree s) cid then s
      else let s1 = send_all (build_config_events (sv_subs s) cid (sv_tree s)) s
           in case tree_get (sv_tree s1) cid of
                None \<Rightarrow> s1
              | Some c \<Rightarrow> send_all (map (\<lambda>session. (session, event_payload cid CHR ''r'' (filter (\<lambda>sl. \<not> is_action sl \<and> \<not> is_config sl) (vc_slots c))))
                  (case get_watchers (sv_subs s1) cid of Some ws \<Rightarrow> ws | None \<Rightarrow> [])) s1)"

fun drain_cov :: "subscription_manager \<Rightarrow> component_tree \<Rightarrow> nat \<Rightarrow> u16 list \<Rightarrow> (u16 \<times> u8 list) list \<times> u16 list" where
  "drain_cov sub t n [] = ([], [])"
| "drain_cov sub t n (c # cs) =
     (if n = 0 then ([], c # cs)
      else let evs = build_events sub [c] t; (more, rest) = drain_cov sub t (n - length evs) cs in (evs @ more, rest))"

definition push_pending :: "'f sox_server \<Rightarrow> 'f sox_server" where
  "push_pending s =
     (let limit = (if first_cov_burst s then 200 else 50);
          (evs, rest) = drain_cov (sv_subs s) (sv_tree s) limit (pending_cov s)
      in send_all evs (s\<lparr>first_cov_burst := False, pending_cov := rest\<rparr>))"

definition logic_write :: "u32 \<times> f64 \<Rightarrow> engine_write" where
  "logic_write w = \<lparr>ew_channel = fst w, ew_value = snd w, ew_level = 17, ew_who = ''sox-logic''\<rparr>"

text \<open>The tick of the tree: values from the engine, the data flow, the events, and the writes back to the engine.\<close>

definition run_flow :: "channel_info list \<Rightarrow> component_tree \<Rightarrow> ('e, component_tree \<times> u16 list \<times> u16 list \<times> u16 list) outcome" where
  "run_flow channels t = bindO (update_from_channels channels t) (\<lambda>(t1, changed).
     let (t2, link_changed) = execute_links t1
     in bindO (execute_components t2) (\<lambda>(t3, comp_changed). Ok (t3, changed, link_changed, comp_changed)))"

definition refresh_tick :: "channel_info list \<Rightarrow> ('f, unit) server_routine" where
  "refresh_tick channels s = (case run_flow channels (sv_tree s) of
      Ok (t, changed, link_changed, comp_changed) \<Rightarrow>
        let flow = link_changed @ comp_changed;
            writes = collect_channel_writes t flow;
            s1 = queue_full_cov flow (s\<lparr>sv_tree := t\<rparr>);
            s2 = s1\<lparr>pending_cov := queue_new changed (pending_cov s1)\<rparr>;
            s3 = push_pending (fold push_flow_event flow s2)
        in (Ok (), s3\<lparr>engine_writes := engine_writes s3 @ map logic_write writes\<rparr>)
    | Err e \<Rightarrow> (Err e, s)
    | Panic \<Rightarrow> (Panic, s))"

definition cleanup_tick :: "u16 list \<Rightarrow> 'f sox_server \<Rightarrow> 'f sox_server" where
  "cleanup_tick expired s = s\<lparr>sv_subs := fold unsubscribe_all expired (sv_subs s)\<rparr>"

definition persist_tick :: "'f sox_server \<Rightarrow> 'f sox_server" where
  "persist_tick s =
     (let (was_dirty, t) = take_dirty (sv_tree s);
          s1 = (if was_dirty then s\<lparr>sv_tree := t, saved_tree := Some (save_data t)\<rparr> else s\<lparr>sv_tree := t\<rparr>);
          (tags_dirty, d) = ds_take_dirty (sv_dyn s1)
      in if tags_dirty then s1\<lparr>sv_dyn := d, saved_tags := Some (ds_save_data d)\<rparr> else s1\<lparr>sv_dyn := d\<rparr>)"

definition server_start :: "component_tree \<Rightarrow> 'f \<Rightarrow> 'f sox_server" where
  "server_start t w = \<lparr>sv_tree = t, sv_subs = subs_new, sv_files = \<lparr>xfer = None, xfer_poisoned = False, disk = w\<rparr>, sv_dyn = ds_with_defaults,
     force_full_cov = False, first_cov_burst = False, pending_cov = [], sent_events = [], engine_writes = [], saved_tree = None, saved_tags = None\<rparr>"

section \<open>Reachable states\<close>

text \<open>
  One step of the server: a packet of a session, the timers, or a change of the dynamic tags by another client of their store. The sessions
  that have expired, the channels of the engine and the packets are whatever the environment gives. A step that panics ends the server.
\<close>

inductive sox_step :: "'f sox_fs \<Rightarrow> (f64 \<Rightarrow> u8 list) \<Rightarrow> 'f sox_server \<Rightarrow> 'f sox_server \<Rightarrow> bool" for F f64_text where
  packet: "handle_packet F f64_text session payload s = (Ok (), s') \<Longrightarrow> sox_step F f64_text s s'"
| refresh: "refresh_tick channels s = (Ok (), s') \<Longrightarrow> sox_step F f64_text s s'"
| cleanup: "sox_step F f64_text s (cleanup_tick expired s)"
| persist: "sox_step F f64_text s (persist_tick s)"
| tags: "ds_ok d \<Longrightarrow> sox_step F f64_text s (s\<lparr>sv_dyn := d\<rparr>)"

inductive sox_reachable :: "'f sox_fs \<Rightarrow> (f64 \<Rightarrow> u8 list) \<Rightarrow> 'f sox_server \<Rightarrow> bool" for F f64_text where
  start: "from_channels_with_manifest channels db = (Ok t :: (unit, component_tree) outcome) \<Longrightarrow> sox_reachable F f64_text (server_start t w)"
| step: "sox_reachable F f64_text s \<Longrightarrow> sox_step F f64_text s s' \<Longrightarrow> sox_reachable F f64_text s'"

inductive_cases sox_stepE: "sox_step F f64_text s s'"

section \<open>The invariant of the server\<close>

definition server_ok :: "'f sox_server \<Rightarrow> bool" where
  "server_ok s \<longleftrightarrow> rooted (sv_tree s) \<and> subs_ok (sv_subs s) \<and> ds_ok (sv_dyn s)"

lemma server_ok_fields [simp]:
  "server_ok (s\<lparr>sent_events := x1\<rparr>) = server_ok s" "server_ok (s\<lparr>engine_writes := x2\<rparr>) = server_ok s" "server_ok (s\<lparr>force_full_cov := x3\<rparr>) = server_ok s"
  "server_ok (s\<lparr>first_cov_burst := x4\<rparr>) = server_ok s" "server_ok (s\<lparr>pending_cov := x5\<rparr>) = server_ok s" "server_ok (s\<lparr>sv_files := x6\<rparr>) = server_ok s"
  "server_ok (sox_send session bytes s) = server_ok s" "server_ok (send_all evs s) = server_ok s"
  "server_ok (s\<lparr>saved_tree := x7\<rparr>) = server_ok s" "server_ok (s\<lparr>saved_tags := x8\<rparr>) = server_ok s"
  by (simp_all add: server_ok_def sox_send_def send_all_def)

lemma yields_on_tree [yi]: "yields rooted m \<Longrightarrow> yields server_ok (on_tree m)"
  by (fastforce simp: yields_def on_tree_def server_ok_def split: prod.splits)

lemma yields_on_subs [yi]: "yields subs_ok m \<Longrightarrow> yields server_ok (on_subs m)"
  by (fastforce simp: yields_def on_subs_def server_ok_def split: prod.splits)

lemma yields_on_dyn [yi]: "yields ds_ok m \<Longrightarrow> yields server_ok (on_dyn m)"
  by (fastforce simp: yields_def on_dyn_def server_ok_def split: prod.splits)

lemma yields_on_files [yi]: "yields server_ok (on_files m)"
  by (auto simp: yields_def on_files_def split: prod.splits)

lemma yields_subscribe [yi]: "yields subs_ok (handle_subscribe req x t)" "yields subs_ok (handle_unsubscribe req x)"
proof -
  have "yields subs_ok (sq (modify (\<lambda>s. fold (subscribe x) cs (subscribe x c s))) (ret r))" "yields subs_ok (sq (modify (fold (subscribe x) cs)) (ret r))"
    "yields subs_ok (sq (modify (unsubscribe x c)) (ret r))" for cs c and r :: sox_response
    by (intro yi yields_modify; simp add: keeps_subs subscribe_ok unsubscribe_ok)+
  then show "yields subs_ok (handle_subscribe req x t)" "yields subs_ok (handle_unsubscribe req x)"
    by (auto simp: handle_subscribe_def handle_unsubscribe_def Let_def intro!: yields_with_args split: prod.splits)
qed

text \<open>A routine that looks at the state before it chooses what to do.\<close>

lemma yields_choose: "(\<And>s. yields I (m s)) \<Longrightarrow> yields I (\<lambda>s. m s s)"
  by (auto simp: yields_def)

lemma server_ok_save [simp]: "server_ok (save_on_action req s) = server_ok s"
  by (simp add: save_on_action_def)

lemma yields_dispatch [yi]: "yields server_ok (handle_sox_request_with_dyn F f64_text req session)"
  unfolding handle_sox_request_with_dyn_def
  by (rule yields_choose, cases "req_cmd req") (simp_all add: yi yields_modify)

lemma server_ok_forward [simp]: "server_ok (forward_write req s) = server_ok s"
  by (simp add: forward_write_def split: option.splits prod.splits)

lemma yields_drop_tags [yi]: "yields server_ok (drop_tags deleted)"
proof (rule yieldsI)
  fix s a t assume s: "server_ok s" and run: "drop_tags deleted s = (Ok a, t)"
  have "yields ds_ok (ds_remove_all cid :: (dyn_slot_store, unit, unit) routine)" for cid
    by (rule yieldsI) (metis ds_remove_all_ok snd_conv)
  from yieldsD [OF yields_on_dyn [OF this] s] show "server_ok t" using s run by (auto simp: drop_tags_def split: option.splits if_splits)
qed

lemma server_ok_push [simp]:
  "server_ok (push_write_event req s) = server_ok s" "server_ok (push_config_event req s) = server_ok s"
  "server_ok (push_link_events req session bytes s) = server_ok s" "server_ok (push_flow_event cid s) = server_ok s"
  "server_ok (queue_full_cov flow s) = server_ok s"
  by (simp_all add: push_write_event_def push_config_event_def push_link_events_def push_flow_event_def queue_full_cov_def Let_def split: option.splits)

lemma server_ok_push_all [simp]: "server_ok (push_all_links req session s) = server_ok s"
proof -
  have "server_ok (fold (\<lambda>cid s. case tree_get (sv_tree s) cid of
             Some c \<Rightarrow> if vc_links c = [] then s else sox_send session (links_event cid c) s
           | None \<Rightarrow> s) cids s) = server_ok s" for cids and s :: "'a sox_server"
    by (induction cids arbitrary: s) (simp_all split: option.splits)
  then show ?thesis by (simp add: push_all_links_def)
qed

lemma yields_push_tree [yi]: "yields server_ok (push_tree_events req session p bytes)"
  by (rule yieldsI) (auto simp: push_tree_events_def Let_def split: if_splits option.splits)

lemma yields_request [yi]: "yields server_ok (handle_request F f64_text session req)"
  unfolding handle_request_def Let_def by (rule yields_choose) (intro yi yields_modify; simp)

lemma yields_packet: "yields server_ok (handle_packet F f64_text session payload)"
  unfolding handle_packet_def by (intro yi yields_bnd) (auto intro!: yi split: option.splits)

lemma run_flow_frame:
  assumes "run_flow channels t = (Ok (t', ch) :: ('e, _) outcome)"
  shows "frame_of t' = frame_of t"
proof -
  obtain t1 c1 where u: "update_from_channels channels t = (Ok (t1, c1) :: ('e, _) outcome)" using assms by (auto simp: run_flow_def)
  obtain t2 c2 where l: "execute_links t1 = (t2, c2)" by fastforce
  obtain c3 where c: "execute_components t2 = (Ok (t', c3) :: ('e, _) outcome)" using assms by (auto simp: run_flow_def u l)
  show ?thesis using frame_update_from_channels [OF u] frame_execute_links [of t1] frame_execute_components [OF c] l by simp
qed

lemma yields_refresh: "yields server_ok (refresh_tick channels)"
proof (rule yieldsI)
  fix s a s' assume s: "server_ok s" and run: "refresh_tick channels s = (Ok a, s' :: 'a sox_server)"
  then obtain t ch lc cc where flow: "run_flow channels (sv_tree s) = (Ok (t, ch, lc, cc) :: (unit, _) outcome)"
    by (auto simp: refresh_tick_def split: outcome.splits)
  have "rooted t" using rooted_frame [OF _ run_flow_frame [OF flow]] s by (simp add: server_ok_def)
  then have t: "server_ok (s\<lparr>sv_tree := t\<rparr>)" using s by (simp add: server_ok_def)
  have fold_flow: "server_ok (fold push_flow_event xs u) = server_ok u" for xs and u :: "'a sox_server"
    by (induction xs arbitrary: u) simp_all
  have pending: "server_ok (push_pending u) = server_ok u" for u :: "'a sox_server"
    by (simp add: push_pending_def Let_def split: prod.splits)
  show "server_ok s'" using run t by (auto simp: refresh_tick_def flow Let_def pending fold_flow)
qed

lemma server_ok_timers: "server_ok s \<Longrightarrow> server_ok (cleanup_tick expired s)" "server_ok s \<Longrightarrow> server_ok (persist_tick s)"
  by (auto simp: cleanup_tick_def persist_tick_def server_ok_def keeps_subs take_dirty_def ds_take_dirty_def rooted_def tree_ok_def comp_ok_def tree_get_def
      Let_def split: if_splits)

lemma server_step_ok: "sox_step F f64_text s s' \<Longrightarrow> server_ok s \<Longrightarrow> server_ok s'"
  by (induction rule: sox_step.induct) (auto dest: yieldsD [OF yields_packet] yieldsD [OF yields_refresh] simp: server_ok_timers, simp add: server_ok_def)

lemma server_start_ok: "from_channels_with_manifest channels db = (Ok t :: ('e, component_tree) outcome) \<Longrightarrow> server_ok (server_start t w)"
  using from_channels_rooted [where ?'e = 'e, of channels db t]
  by (simp add: server_ok_def server_start_def subs_new_ok ds_ok_def ds_with_defaults_def ds_new_def total_tags_def)

lemma server_reachable_ok: "sox_reachable F f64_text s \<Longrightarrow> server_ok s"
  by (induction rule: sox_reachable.induct) (auto simp: server_start_ok server_step_ok)

section \<open>Properties\<close>



end
