(* ===== verification/Sox_Replies.thy ===== *)
theory Sox_Replies
  imports Sox_Server
begin

text \<open>
  What the client sees of the SOX server: every response echoes the number of the request and is either the answer to its command or an
  error, a refused request changes neither the tree nor the subscriptions, and a value that was written is what reading gives back.
\<close>

section \<open>Headers of responses\<close>

definition reply_header :: "sox_response \<Rightarrow> u8 \<times> u8" where
  "reply_header r = (resp_cmd r, resp_id r)"

lemma header_writes [simp]:
  "reply_header (write_bytes bs r) = reply_header r" "reply_header (write_u8 a r) = reply_header r" "reply_header (write_u16 b r) = reply_header r" "reply_header (write_u32 c r) = reply_header r"
  "reply_header (write_i32 c r) = reply_header r" "reply_header (write_f32 c r) = reply_header r" "reply_header (write_f64 d r) = reply_header r" "reply_header (write_str bs r) = reply_header r"
  by (simp_all add: reply_header_def write_u16_def write_u32_def write_i32_def write_f32_def write_f64_def write_str_def)

lemma header_fold: "(\<And>x r. reply_header (f x r) = reply_header r) \<Longrightarrow> reply_header (fold f xs r) = reply_header r"
  by (induction xs arbitrary: r) simp_all

lemma header_values [simp]: "reply_header (encode_slot_value v r) = reply_header r" "reply_header (encode_dyn_value d r) = reply_header r"
  by (simp_all add: encode_slot_value_def encode_dyn_value_def split: slot_value.splits dyn_value.splits) (simp add: reply_header_def)

lemma header_comp [simp]: "reply_header (write_comp what c r) = reply_header r" "reply_header (handle_read_comp_dynamic cid dyn r) = reply_header r"
  by (simp_all add: write_comp_def write_comp_tree_def write_comp_slots_def write_comp_links_def handle_read_comp_dynamic_def header_fold split_def
      split: option.splits)

lemma header_basic [simp]: "reply_header (response_success c i) = (response_byte c, i)" "reply_header (error_msg c i msg) = (error_byte, i)"
  by (simp_all add: error_msg_def) (simp_all add: reply_header_def response_success_def response_error_def)

section \<open>Answers\<close>

text \<open>A routine answers a request: the response carries its number, and the code of its command unless it is an error, which changes nothing
  as far as the relation says.\<close>

definition answers :: "('s \<Rightarrow> 's \<Rightarrow> bool) \<Rightarrow> sox_request \<Rightarrow> ('s, 'e, sox_response) routine \<Rightarrow> 's \<Rightarrow> bool" where
  "answers same req m s \<longleftrightarrow> (\<forall>r s'. m s = (Ok r, s') \<longrightarrow>
     reply_header r = (response_byte (req_cmd req), req_id req) \<or> reply_header r = (error_byte, req_id req) \<and> same s s')"

lemma answersI:
  "(\<And>r s'. m s = (Ok r, s') \<Longrightarrow> reply_header r = (response_byte (req_cmd req), req_id req) \<or> reply_header r = (error_byte, req_id req) \<and> same s s') \<Longrightarrow>
   answers same req m s"
  by (simp add: answers_def)

lemma answers_ret [simp]:
  "reply_header r = (response_byte (req_cmd req), req_id req) \<Longrightarrow> answers same req (ret r) s"
  "reply_header r = (error_byte, req_id req) \<Longrightarrow> same s s \<Longrightarrow> answers same req (ret r) s"
  by (simp_all add: answers_def ret_def)

lemma answers_with_args:
  assumes "\<And>a. answers same req (body a) s" "same s s"
  shows "answers same req (with_args req args body) s"
  unfolding with_args_def using assms
  by (cases "fst (args (reader_new (req_payload req)))") (simp_all add: answers_def ret_def panic_def)

text \<open>A change, whatever it is, that ends with success.\<close>

lemma answers_success: "reply_header r = (response_byte (req_cmd req), req_id req) \<Longrightarrow> answers same req (sq m (ret r)) s"
  by (auto simp: answers_def sq_def bnd_eq_Ok ret_def)

lemma answers_sq2: "reply_header r = (response_byte (req_cmd req), req_id req) \<Longrightarrow> answers same req (sq m (sq n (ret r))) s"
  by (auto simp: answers_def sq_def bnd_eq_Ok ret_def)

lemma remove_link_refused:
  assumes "both_ends t" "remove_link l t = (False, t')"
  shows "t' = t"
proof -
  have none: "l \<notin> set (vc_links c)" if c: "tree_get t k = Some c" for k c
  proof
    assume "l \<in> set (vc_links c)"
    then have "holds t (to_comp l) l" using assms(1) c by (auto simp: both_ends_iff holds_def)
    then obtain d where d: "tree_get t (to_comp l) = Some d" "l \<in> set (vc_links d)" by (auto simp: holds_def)
    then have "length (vc_links (drop_link l d)) < length (vc_links d)" by (auto simp: drop_link_def length_filter_less)
    then show False using assms(2) d(1) by (simp add: remove_link_def Let_def)
  qed
  have drop: "update_comp k (drop_link l) t = t" for k
  proof (cases "tree_get t k")
    case (Some c)
    have "filter (\<lambda>k. k \<noteq> l) (vc_links c) = vc_links c" using none [OF Some] by (auto simp: filter_id_conv)
    then have "drop_link l c = c" by (simp add: drop_link_def)
    moreover have "AList.update k c xs = xs" if "map_of xs k = Some c" for xs
      using that by (induction xs) (auto split: if_splits)
    ultimately show ?thesis using Some by (simp add: update_comp_def tree_get_def)
  qed (simp add: update_comp_def)
  show ?thesis using assms(2) by (simp add: remove_link_def Let_def drop split: if_splits)
qed

lemma add_link_refused: "add_link l t = (False, t') \<Longrightarrow> t' = t"
  by (auto simp: add_link_def split: option.splits if_splits)

lemma answers_tree_reads:
  shows "req_cmd req = ReadComp \<Longrightarrow> answers (=) req (handle_read_comp dyn req) t"
    and "req_cmd req = ReadProp \<Longrightarrow> answers (=) req (handle_read_prop req) t"
proof -
  show "answers (=) req (handle_read_comp dyn req) t" if "req_cmd req = ReadComp"
    unfolding handle_read_comp_def using that
    by (intro answers_with_args) (auto simp: answers_def ret_def Let_def split: option.splits if_splits)
  show "answers (=) req (handle_read_prop req) t" if "req_cmd req = ReadProp"
    unfolding handle_read_prop_def using that
    by (intro answers_with_args) (auto simp: answers_def ret_def Let_def split: option.splits if_splits)
qed

lemma answers_tree_link:
  assumes "req_cmd req = LinkCmd" "both_ends t"
  shows "answers (=) req (handle_link req) t"
  unfolding handle_link_def
proof (rule answers_with_args, clarify)
  fix sub l
  show "answers (=) req (\<lambda>t. if sub = of_char CHR ''a'' then
          if would_create_cycle t (from_comp l) (to_comp l) then refuse req ''link rejected: would create cycle'' t
          else (case add_link l t of
              (True, t') \<Rightarrow> accept req LinkCmd (dirty_if_either l t')
            | (False, t') \<Rightarrow> refuse req ''link add failed'' t')
        else if sub = of_char CHR ''d'' then
          (case remove_link l t of
              (True, t') \<Rightarrow> accept req LinkCmd (dirty_if_either l t')
            | (False, t') \<Rightarrow> refuse req ''link not found'' t')
        else refuse req ''unknown link subcmd'' t) t"
    using assms remove_link_refused [OF assms(2), of l] add_link_refused [of l t]
    by (auto simp: answers_def ret_def split: prod.splits bool.splits if_splits)
qed simp

lemma answers_choose: "answers same req (m s) s \<Longrightarrow> answers same req (\<lambda>s. m s s) s"
  by (simp add: answers_def)

lemma answers_tree_changes:
  shows "req_cmd req = WriteCmd \<Longrightarrow> answers (=) req (handle_write req) t"
    and "req_cmd req = Invoke \<Longrightarrow> answers (=) req (handle_invoke req) t"
    and "req_cmd req = AddCmd \<Longrightarrow> answers (=) req (handle_add req) t"
    and "req_cmd req = Delete \<Longrightarrow> answers (=) req (handle_delete req) t"
    and "req_cmd req = Rename \<Longrightarrow> answers (=) req (handle_rename req) t"
    and "req_cmd req = Reorder \<Longrightarrow> answers (=) req (handle_reorder req) t"
proof -
  show "answers (=) req (handle_write req) t" if "req_cmd req = WriteCmd"
    unfolding handle_write_def using that
    by (intro answers_choose [OF answers_with_args]) (auto simp: answers_def monad_defs split: if_splits)
  show "answers (=) req (handle_invoke req) t" if "req_cmd req = Invoke"
    unfolding handle_invoke_def using that
    by (intro answers_choose [OF answers_with_args]) (auto simp: answers_success)
  show "answers (=) req (handle_add req) t" if "req_cmd req = AddCmd"
    unfolding handle_add_def using that
    by (intro answers_with_args) (auto simp: answers_def sq_def bnd_eq_Ok ret_def split: option.splits if_splits)
  show "answers (=) req (handle_delete req) t" if "req_cmd req = Delete"
    unfolding handle_delete_def using that
    by (intro answers_with_args) (auto simp: answers_def ret_def tree_remove_def Let_def split: option.splits if_splits)
  show "answers (=) req (handle_rename req) t" if "req_cmd req = Rename"
    unfolding handle_rename_def using that
    by (intro answers_with_args) (auto simp: answers_def tree_rename_def monad_defs split: option.splits if_splits prod.splits outcome.splits)
  show "answers (=) req (handle_reorder req) t" if "req_cmd req = Reorder"
    unfolding handle_reorder_def using that
    by (intro answers_with_args) (auto simp: answers_def ret_def reorder_children_def split: option.splits if_splits)
qed

text \<open>The handlers of subscriptions and of files; the latter may have changed the files when they report an error.\<close>

definition replies :: "sox_request \<Rightarrow> ('s, 'e, sox_response) routine \<Rightarrow> bool" where
  "replies req m \<longleftrightarrow> (\<forall>s. answers (\<lambda>_ _. True) req m s)"

named_theorems re \<open>rules for replies\<close>

lemma replies_iff: "replies req m \<longleftrightarrow> (\<forall>s r s'. m s = (Ok r, s') \<longrightarrow> reply_header r \<in> {(response_byte (req_cmd req), req_id req), (error_byte, req_id req)})"
  by (auto simp: replies_def answers_def)

lemma replies_bnd [re]: "(\<And>a. replies req (f a)) \<Longrightarrow> replies req (bnd m f)"
  by (fastforce simp: replies_iff bnd_eq_Ok)

lemma replies_sq [re]: "replies req n \<Longrightarrow> replies req (sq m n)"
  unfolding sq_def by (rule replies_bnd)

lemma replies_ret [re]: "reply_header r = (response_byte (req_cmd req), req_id req) \<or> reply_header r = (error_byte, req_id req) \<Longrightarrow> replies req (ret r)"
  by (auto simp: replies_iff ret_def)

lemma replies_panic [re]: "replies req panic"
  by (simp add: replies_iff panic_def)

lemma replies_with_args [re]: "(\<And>a. replies req (body a)) \<Longrightarrow> replies req (with_args req args body)"
  by (auto simp: replies_def intro: answers_with_args)

lemma replies_locked [re]: "replies req m \<Longrightarrow> replies req (locked m)"
  by (auto simp: replies_iff locked_def split: if_splits prod.splits outcome.splits)

lemma replies_sum [re]: "(\<And>x. replies req (f x)) \<Longrightarrow> (\<And>y. replies req (g y)) \<Longrightarrow> replies req (case v of Inl x \<Rightarrow> f x | Inr y \<Rightarrow> g y)"
  by (cases v) simp_all

lemma replies_option [re]:
  "replies req m \<Longrightarrow> (\<And>c. replies req (f c)) \<Longrightarrow> replies req (\<lambda>s. case x s of None \<Rightarrow> m s | Some c \<Rightarrow> f c s)"
  by (auto simp: replies_iff split: option.splits)

lemma replies_if [re]:
  "replies req m \<Longrightarrow> replies req n \<Longrightarrow> replies req (\<lambda>s. if b s then m s else n s)" "replies req m \<Longrightarrow> replies req n \<Longrightarrow> replies req (if c then m else n)"
  by (auto simp: replies_iff)

lemma replies_files:
  shows "req_cmd req = FileOpen \<Longrightarrow> replies req (handle_file_open F req)"
    and "req_cmd req = FileRead \<Longrightarrow> replies req (handle_file_read req)"
    and "req_cmd req = FileWrite \<Longrightarrow> replies req (handle_file_write req)"
    and "req_cmd req = FileClose \<Longrightarrow> replies req (handle_file_close F req)"
    and "req_cmd req = FileRename \<Longrightarrow> replies req (handle_file_rename F req)"
proof -
  have get: "replies req (open_get F req p n c off)" and put: "replies req (open_put F req p n c off)" if "req_cmd req = FileOpen" for p n c off
    unfolding open_get_def open_put_def Let_def by (intro re; simp add: that open_reply_def)+
  show "replies req (handle_file_open F req)" if "req_cmd req = FileOpen"
    unfolding handle_file_open_def split_def by (intro re get put; simp add: that)
  have chunk: "replies req (read_chunk req f n)" if "req_cmd req = FileRead" for f n
    unfolding read_chunk_def Let_def by (intro re; simp add: that)
  show "replies req (handle_file_read req)" if "req_cmd req = FileRead"
    unfolding handle_file_read_def by (intro re chunk; simp add: that)
  show "replies req (handle_file_write req)" if "req_cmd req = FileWrite"
    unfolding handle_file_write_def using that by (auto intro!: re split: outcome.splits option.splits)
  show "replies req (handle_file_close F req)" if "req_cmd req = FileClose"
    unfolding handle_file_close_def by (intro replies_locked) (auto simp: that replies_iff ret_def split: option.splits prod.splits bool.splits)
  have ren: "replies req (\<lambda>s. case fs_rename F ca cb (disk s) of
                      (True, w) \<Rightarrow> ret (response_success FileRename (req_id req)) (s\<lparr>disk := w\<rparr>)
                    | (False, w) \<Rightarrow> ret (error_msg FileRename (req_id req) ''rename failed'') (s\<lparr>disk := w\<rparr>))" if "req_cmd req = FileRename" for ca cb
    by (auto simp: that replies_iff ret_def split: prod.splits bool.splits)
  show "replies req (handle_file_rename F req)" if "req_cmd req = FileRename"
    unfolding handle_file_rename_def Let_def split_def [where 'b = "u8 list"] by (intro re ren; simp add: that)
qed

lemma answers_subs:
  shows "req_cmd req = Subscribe \<Longrightarrow> answers (=) req (handle_subscribe req x t) sub"
    and "req_cmd req = Unsubscribe \<Longrightarrow> answers (=) req (handle_unsubscribe req x) sub"
proof -
  show "answers (=) req (handle_subscribe req x t) sub" if "req_cmd req = Subscribe"
    unfolding handle_subscribe_def Let_def using that
    by (auto intro!: answers_with_args answers_success split: prod.splits option.splits)
  show "answers (=) req (handle_unsubscribe req x) sub" if "req_cmd req = Unsubscribe"
    unfolding handle_unsubscribe_def using that by (intro answers_with_args answers_success) simp_all
qed

lemma header_schema [simp]:
  "reply_header (handle_read_schema req) = (response_byte ReadSchema, req_id req)" "reply_header (handle_read_version req) = (response_byte ReadVersion, req_id req)"
  by (simp_all add: handle_read_schema_def handle_read_version_def header_fold)

text \<open>The dispatch hands the answer of the handler on, and only the part of the state that the handler works on changes.\<close>

definition same_objects :: "'f sox_server \<Rightarrow> 'f sox_server \<Rightarrow> bool" where
  "same_objects s s' \<longleftrightarrow> sv_tree s' = sv_tree s \<and> sv_subs s' = sv_subs s"

lemma same_objects_refl [simp]: "same_objects s s"
  by (simp add: same_objects_def)

lemma answers_lift:
  "answers (=) req m (sv_tree s) \<Longrightarrow> answers same_objects req (on_tree m) s"
  "answers (=) req n (sv_subs s) \<Longrightarrow> answers same_objects req (on_subs n) s"
  "replies req k \<Longrightarrow> answers same_objects req (on_files k) s"
  by (fastforce simp: answers_def same_objects_def on_tree_def on_subs_def on_files_def replies_def split: prod.splits)+

lemma answers_after_save:
  assumes "answers (=) req m (sv_tree s)"
  shows "answers same_objects req (sq (modify (save_on_action req)) (on_tree m)) s"
proof -
  have same: "sv_tree (save_on_action req s) = sv_tree s" "sv_subs (save_on_action req s) = sv_subs s" by (simp_all add: save_on_action_def)
  have "answers same_objects req (on_tree m) (save_on_action req s)" using answers_lift(1) assms by (metis same(1))
  then show ?thesis by (auto simp: answers_def sq_def modify_def same_objects_def same split: prod.splits outcome.splits)
qed

lemma answers_dispatch:
  assumes "both_ends (sv_tree s)"
  shows "answers same_objects req (handle_sox_request_with_dyn F f64_text req session) s"
proof -
  have "answers same_objects req (\<lambda>s. on_tree (m s) s) s" if "answers (=) req (m s) (sv_tree s)" for m
    using answers_lift(1) [OF that] by (rule answers_choose)
  moreover have "answers same_objects req (\<lambda>s. on_subs (m s) s) s" if "answers (=) req (m s) (sv_subs s)" for m
    using answers_lift(2) [OF that] by (rule answers_choose)
  ultimately show ?thesis unfolding handle_sox_request_with_dyn_def using assms
    by (cases "req_cmd req") (simp_all add: answers_lift answers_after_save answers_tree_reads answers_tree_link answers_tree_changes answers_subs replies_files)
qed

section \<open>Writing and reading a slot\<close>

text \<open>The bytes of a value, and the values whose length fits.\<close>

definition value_bytes :: "slot_value \<Rightarrow> u8 list" where
  "value_bytes v = encode_slot_value_raw v []"

fun value_fits :: "slot_value \<Rightarrow> bool" where
  "value_fits (SvStr s) \<longleftrightarrow> length s + 1 < 65536"
| "value_fits (SvBuf b) \<longleftrightarrow> length b < 65536"
| "value_fits _ \<longleftrightarrow> True"

lemma encode_is_bytes: "encode_slot_value v r = write_bytes (value_bytes v) r"
  by (cases v) (simp_all add: encode_slot_value_def value_bytes_def encode_slot_value_raw_def write_u8_def write_i32_def write_f32_def write_f64_def
      write_u16_def write_bytes_def)

lemma read_lengthed:
  assumes "length pre + 2 + length bs < usize_bound" "length bs < 65536"
  shows "bnd read_u16 (\<lambda>n. bnd (read_bytes (unat n)) (\<lambda>bs. ret (SvBuf bs)))
      \<lparr>rd_data = pre @ to_be 2 (of_nat (length bs) :: u16) @ bs @ post, rd_pos = length pre\<rparr> =
    (Ok (SvBuf bs), \<lparr>rd_data = pre @ to_be 2 (of_nat (length bs) :: u16) @ bs @ post, rd_pos = length pre + 2 + length bs\<rparr>)"
proof -
  let ?n = "of_nat (length bs) :: u16"
  have n: "unat ?n = length bs" using assms(2) by (simp add: unat_of_nat)
  have "read_u16 \<lparr>rd_data = pre @ to_be 2 ?n @ (bs @ post), rd_pos = length pre\<rparr> =
      (Ok ?n, \<lparr>rd_data = pre @ to_be 2 ?n @ (bs @ post), rd_pos = length pre + length (to_be 2 ?n)\<rparr>)"
    by (rule field_u16.rd_finds) (use assms in auto)
  moreover have "read_bytes (length bs) \<lparr>rd_data = (pre @ to_be 2 ?n) @ bs @ post, rd_pos = length (pre @ to_be 2 ?n)\<rparr> =
      (Ok bs, \<lparr>rd_data = (pre @ to_be 2 ?n) @ bs @ post, rd_pos = length (pre @ to_be 2 ?n) + length bs\<rparr>)"
    by (rule read_bytes_at) (use assms in simp)
  ultimately show ?thesis by (simp add: n ret_def)
qed

text \<open>Decoding the bytes of a value gives a value with these bytes; a text comes back as a buffer that ends with its zero byte.\<close>

lemma decode_finds:
  assumes "value_fits v" "length pre + length (value_bytes v) < usize_bound"
  shows "\<exists>w r. decode_slot_value (slot_type_id v) \<lparr>rd_data = pre @ value_bytes v, rd_pos = length pre\<rparr> = (Ok w, r) \<and> value_bytes w = value_bytes v"
proof (cases v)
  case (SvStr s)
  have "length pre + 2 + length (s @ [0]) < usize_bound" "length (s @ [0]) < 65536"
    using assms by (simp_all add: SvStr value_bytes_def encode_slot_value_raw_def)
  from read_lengthed [OF this, of "[]"] show ?thesis by (auto simp: SvStr decode_slot_value_def value_bytes_def encode_slot_value_raw_def)
next
  case (SvBuf b)
  have "length pre + 2 + length b < usize_bound" "length b < 65536"
    using assms by (simp_all add: SvBuf value_bytes_def encode_slot_value_raw_def)
  from read_lengthed [OF this, of "[]"] show ?thesis by (auto simp: SvBuf decode_slot_value_def value_bytes_def encode_slot_value_raw_def)
next
  case (SvLong i)
  have "bnd (read_bytes 8) (\<lambda>bs. ret (from_be bs)) \<lparr>rd_data = pre @ to_be 8 i @ [], rd_pos = length pre\<rparr> =
      (Ok i, \<lparr>rd_data = pre @ to_be 8 i @ [], rd_pos = length pre + 8\<rparr>)"
    by (rule read_word_at) (use assms in \<open>simp_all add: SvLong value_bytes_def encode_slot_value_raw_def\<close>)
  then show ?thesis
    by (auto simp: SvLong decode_slot_value_def value_bytes_def encode_slot_value_raw_def remaining_def bnd_eq_Ok ret_def)
qed (use assms field_u8.rd_finds [where pre = pre and post = "[]"] field_i32.rd_finds [where pre = pre and post = "[]"] field_f32.rd_finds [where pre = pre and post = "[]"] field_f64.rd_finds [where pre = pre and post = "[]"] in
    \<open>auto simp: decode_slot_value_def value_bytes_def encode_slot_value_raw_def ret_def\<close>)

lemma read_target:
  "read_u16 \<lparr>rd_data = to_be 2 (cid :: u16) @ sid # bs, rd_pos = 0\<rparr> = (Ok cid, \<lparr>rd_data = to_be 2 cid @ sid # bs, rd_pos = 2\<rparr>)"
  "read_u8 \<lparr>rd_data = to_be 2 (cid :: u16) @ sid # bs, rd_pos = 2\<rparr> = (Ok sid, \<lparr>rd_data = to_be 2 cid @ sid # bs, rd_pos = 3\<rparr>)"
  using field_u16.rd_finds [of "[]" cid "sid # bs"] by (simp_all add: read_u8_def nth_append)

lemma write_args_run:
  assumes "value_fits v" "slot_type t cid sid = slot_type_id v" "length (value_bytes v) + 3 < usize_bound"
  shows "\<exists>w. fst (write_args t (reader_new (to_be 2 cid @ sid # value_bytes v))) = Ok (cid, sid, w) \<and> value_bytes w = value_bytes v"
proof -
  have "\<exists>w r. decode_slot_value (slot_type_id v) \<lparr>rd_data = (to_be 2 cid @ [sid]) @ value_bytes v, rd_pos = length (to_be 2 cid @ [sid])\<rparr> = (Ok w, r) \<and>
      value_bytes w = value_bytes v"
    by (rule decode_finds) (use assms in auto)
  then obtain w r where "decode_slot_value (slot_type_id v) \<lparr>rd_data = to_be 2 cid @ sid # value_bytes v, rd_pos = 3\<rparr> = (Ok w, r)"
    "value_bytes w = value_bytes v" by auto
  then show ?thesis by (simp add: write_args_def reader_new_def bnd_def need_def read_target assms(2) ret_def)
qed

lemma slot_at_write:
  assumes "tree_get t cid = Some c"
  shows "slot_at (update_comp cid (write_slot sid ty w) t) cid sid = Some ((extend_slots (unat sid + 1) ty (vc_slots c) ! unat sid)\<lparr>vs_type := ty, vs_value := w\<rparr>)"
    "(k, i) \<noteq> (cid, sid) \<Longrightarrow> slot_at t k i \<noteq> None \<Longrightarrow> slot_at (update_comp cid (write_slot sid ty w) t) k i = slot_at t k i"
proof -
  have len: "unat sid < length (extend_slots (unat sid + 1) ty (vc_slots c))" by (simp add: extend_slots_def)
  show "slot_at (update_comp cid (write_slot sid ty w) t) cid sid = Some ((extend_slots (unat sid + 1) ty (vc_slots c) ! unat sid)\<lparr>vs_type := ty, vs_value := w\<rparr>)"
    using assms len by (simp add: slot_at_def write_slot_def Let_def)
  show "slot_at (update_comp cid (write_slot sid ty w) t) k i = slot_at t k i" if "(k, i) \<noteq> (cid, sid)" "slot_at t k i \<noteq> None"
  proof (cases "k = cid")
    case True
    have i: "unat i < length (vc_slots c)" using that(2) assms True by (auto simp: slot_at_def split: if_splits)
    moreover have "i \<noteq> sid" using that(1) True by simp
    then have "unat i \<noteq> unat sid" by (metis word_unat_eq_iff)
    ultimately show ?thesis using assms True by (simp add: slot_at_def write_slot_def Let_def extend_slots_def nth_append)
  qed (simp add: slot_at_def)
qed

lemma slot_at_dirty [simp]: "slot_at (dirty_if_user_added cid t) k i = slot_at t k i" "tree_get (dirty_if_user_added cid t) k = tree_get t k"
  by (simp_all add: slot_at_def dirty_if_user_added_def mark_dirty_def tree_get_def)

section \<open>Properties\<close>

text \<open>C12. Every request gets one answer, and a refused one has no effect: whenever a request is handled, the response carries the number of the
  request and either the code of its command or the error code; with the error code, neither the component tree nor the subscriptions have
  changed. The links of the tree stand at both of their ends here; deleting a link that stands at one end only is refused and still drops it.\<close>

theorem sox_refused_unchanged:
  assumes "both_ends (sv_tree s)" "handle_sox_request_with_dyn F f64_text req session s = (Ok r, s')"
  shows "resp_id r = req_id req \<and>
    (resp_cmd r = response_byte (req_cmd req) \<or> resp_cmd r = error_byte \<and> sv_tree s' = sv_tree s \<and> sv_subs s' = sv_subs s)"
  using answers_dispatch [OF assms(1), of req F f64_text session] assms(2) by (auto simp: answers_def reply_header_def same_objects_def)

text \<open>A tree of one component, for examples.\<close>

definition one_comp_tree :: "virtual_component \<Rightarrow> component_tree" where
  "one_comp_tree c = tree_new\<lparr>components := [(vc_id c, c)]\<rparr>"

theorem sox_refused_unchanged_witness:
  "\<exists>r s'. handle_sox_request_with_dyn mem_fs (\<lambda>_. []) \<lparr>req_cmd = Delete, req_id = 9, req_payload = [0, 3]\<rparr> 1
      (server_start (one_comp_tree (folder 3 1 ''users'' ''sys::UserService'' 0 16 [])) []) = (Ok r, s') \<and>
    resp_cmd r = error_byte \<and> resp_id r = 9 \<and> tree_get (sv_tree s') 3 \<noteq> None"
proof -
  let ?t = "one_comp_tree (folder 3 1 ''users'' ''sys::UserService'' 0 16 [])"
  let ?s = "server_start ?t [] :: (u8 list \<times> u8 list) list sox_server" and ?req = "\<lparr>req_cmd = Delete, req_id = 9, req_payload = [0, 3]\<rparr>"
  obtain r s' where run: "handle_sox_request_with_dyn mem_fs (\<lambda>_. []) ?req 1 ?s = (Ok r, s')" and r: "resp_cmd r = error_byte"
  proof -
    have "(case fst (handle_sox_request_with_dyn mem_fs (\<lambda>_. []) ?req 1 ?s) of Ok r \<Rightarrow> resp_cmd r = error_byte | _ \<Rightarrow> False)" by code_simp
    then show thesis using that by (auto split: outcome.splits) (metis prod.collapse)
  qed
  have "both_ends (sv_tree ?s)"
    by (auto simp: both_ends_iff holds_def server_start_def one_comp_tree_def tree_get_def folder_def split: if_splits)
  from sox_refused_unchanged [OF this run] r have "resp_id r = 9" "sv_tree s' = sv_tree ?s" by (auto simp: error_byte_def)
  moreover have "tree_get (sv_tree ?s) 3 \<noteq> None" by code_simp
  ultimately show ?thesis using run r by (intro exI [of _ r] exI [of _ s']) simp
qed

text \<open>C26. Reading a property gives what was written: a write request that carries the bytes of a value of the type of the slot, for an existing
  component, succeeds, and reading the property then answers with the type and exactly these bytes; no other slot has changed.\<close>

theorem sox_write_then_read:
  assumes "tree_get t cid = Some c" "slot_type t cid sid = slot_type_id v" "value_fits v" "length (value_bytes v) + 3 < usize_bound"
  shows "\<exists>t'. handle_write \<lparr>req_cmd = WriteCmd, req_id = i, req_payload = to_be 2 cid @ sid # value_bytes v\<rparr> t =
      (Ok \<lparr>resp_cmd = response_byte WriteCmd, resp_id = i, resp_payload = []\<rparr> :: ('e, sox_response) outcome, t') \<and>
    handle_read_prop \<lparr>req_cmd = ReadProp, req_id = j, req_payload = to_be 2 cid @ [sid]\<rparr> t' =
      (Ok \<lparr>resp_cmd = response_byte ReadProp, resp_id = j, resp_payload = to_be 2 cid @ sid # slot_type_id v # value_bytes v\<rparr> :: ('e, sox_response) outcome, t') \<and>
    (\<forall>k s. (k, s) \<noteq> (cid, sid) \<and> slot_at t k s \<noteq> None \<longrightarrow> slot_at t' k s = slot_at t k s)"
proof -
  obtain w where w: "fst (write_args t (reader_new (to_be 2 cid @ sid # value_bytes v))) = Ok (cid, sid, w)" "value_bytes w = value_bytes v"
    using write_args_run [OF assms(3,2,4)] by blast
  let ?t = "dirty_if_user_added cid (update_comp cid (write_slot sid (slot_type_id v) w) t)"
  have "handle_write \<lparr>req_cmd = WriteCmd, req_id = i, req_payload = to_be 2 cid @ sid # value_bytes v\<rparr> t =
      (Ok (response_success WriteCmd i) :: ('e, sox_response) outcome, ?t)"
    using assms(1,2) w(1) by (simp add: handle_write_def with_args_def monad_defs)
  moreover have "handle_read_prop \<lparr>req_cmd = ReadProp, req_id = j, req_payload = to_be 2 cid @ [sid]\<rparr> ?t =
      (Ok (write_bytes (to_be 2 cid @ sid # slot_type_id v # value_bytes v) (response_success ReadProp j)) :: ('e, sox_response) outcome, ?t)"
    using assms(1) slot_at_write(1) [OF assms(1), of sid "slot_type_id v" w] read_target [of cid sid "[]"]
    by (simp add: handle_read_prop_def with_args_def reader_new_def bnd_def need_def ret_def Let_def encode_is_bytes w(2))
       (simp add: write_bytes_def write_u8_def write_u16_def)
  ultimately show ?thesis using slot_at_write(2) [OF assms(1), of _ _ sid "slot_type_id v" w]
    by (intro exI [of _ ?t]) (simp add: response_success_def write_bytes_def)
qed

theorem sox_write_then_read_witness:
  "\<exists>t'. handle_write \<lparr>req_cmd = WriteCmd, req_id = 1, req_payload = [0, 2, 0, 0, 0, 7, 84]\<rparr>
      (one_comp_tree (folder 2 1 ''sox'' ''sox::SoxService'' 12 1 [slot_of ''port'' TInt SLOT_FLAG_CONFIG (SvInt 1876)])) =
      (Ok \<lparr>resp_cmd = 87, resp_id = 1, resp_payload = []\<rparr> :: (unit, sox_response) outcome, t') \<and>
    fst (handle_read_prop \<lparr>req_cmd = ReadProp, req_id = 2, req_payload = [0, 2, 0]\<rparr> t') =
      (Ok \<lparr>resp_cmd = 82, resp_id = 2, resp_payload = [0, 2, 0, 4, 0, 0, 7, 84]\<rparr> :: (unit, sox_response) outcome)"
proof -
  let ?c = "folder 2 1 ''sox'' ''sox::SoxService'' 12 1 [slot_of ''port'' TInt SLOT_FLAG_CONFIG (SvInt 1876)]"
  let ?t = "one_comp_tree ?c"
  have "tree_get ?t 2 = Some ?c" "slot_type ?t 2 0 = slot_type_id (SvInt 1876)" "value_fits (SvInt 1876)" by code_simp+
  moreover have b: "value_bytes (SvInt 1876) = [0, 0, 7, 84]" "to_be 2 (2 :: u16) = [0, 2]" by code_simp+
  ultimately show ?thesis
    using sox_write_then_read [where ?'e = unit and t = ?t and cid = 2 and sid = 0 and v = "SvInt 1876" and i = 1 and j = 2 and c = ?c] by auto
qed

end
