(* ===== verification/Sox_Transfer.thy ===== *)
theory Sox_Transfer
  imports Sox_Server
begin

text \<open>
  File transfers of the SOX server: a file that is put in chunks, in any order, is written as it was sent; the chunks of a file that is got are
  its contents; and the server writes and renames only files in the directories that it allows.
\<close>

section \<open>Chunks\<close>

definition chunk_of :: "nat \<Rightarrow> 'a list \<Rightarrow> nat \<Rightarrow> 'a list" where
  "chunk_of c xs k = take c (drop (k * c) xs)"

definition chunk_count :: "nat \<Rightarrow> nat \<Rightarrow> nat" where
  "chunk_count c n = (n + c - 1) div c"

lemma chunk_count_iff: "0 < c \<Longrightarrow> k < chunk_count c n \<longleftrightarrow> k * c < n"
proof -
  assume c: "0 < c"
  have "k < (n + c - 1) div c \<longleftrightarrow> Suc k \<le> (n + c - 1) div c" by auto
  also have "\<dots> \<longleftrightarrow> Suc k * c \<le> n + c - 1" using c by (simp add: less_eq_div_iff_mult_less_eq)
  also have "\<dots> \<longleftrightarrow> k * c < n" using c by auto
  finally show ?thesis by (simp add: chunk_count_def)
qed

lemma chunk_below: "0 < c \<Longrightarrow> k < chunk_count c n \<Longrightarrow> n \<le> m * c \<Longrightarrow> k < m"
  by (metis chunk_count_iff mult_less_cancel2 order_less_le_trans)

lemma concat_chunks: "0 < c \<Longrightarrow> concat (map (chunk_of c xs) [0..<k]) = take (k * c) xs"
  by (induction k) (simp_all add: chunk_of_def take_add add.commute [of c])

lemma concat_all_chunks: "0 < c \<Longrightarrow> concat (map (chunk_of c xs) [0..<chunk_count c (length xs)]) = xs"
proof -
  assume c: "0 < c"
  have "\<not> chunk_count c (length xs) < chunk_count c (length xs)" by simp
  then have "length xs \<le> chunk_count c (length xs) * c" using chunk_count_iff [OF c] by (metis not_less)
  then show ?thesis by (simp add: concat_chunks [OF c])
qed

lemma length_chunk_of: "k * c < length xs \<Longrightarrow> k * c + length (chunk_of c xs k) \<le> length xs"
  by (simp add: chunk_of_def)

text \<open>Storing chunks: what has arrived is in place.\<close>

definition arrived :: "nat \<Rightarrow> u8 list \<Rightarrow> nat set \<Rightarrow> u8 list \<Rightarrow> bool" where
  "arrived c content K data \<longleftrightarrow> length data = length content \<and> (\<forall>i<length content. i div c \<in> K \<longrightarrow> data ! i = content ! i)"

lemma arrived_store:
  assumes "arrived c content K data" "0 < c" "k < chunk_count c (length content)"
  shows "arrived c content (insert k K) (set_range data (k * c) (chunk_of c content k))"
proof -
  let ?b = "chunk_of c content k"
  have k: "k * c < length content" using assms by (simp add: chunk_count_iff)
  have fit: "k * c + length ?b \<le> length data" using assms(1) length_chunk_of [OF k] by (simp add: arrived_def)
  have "set_range data (k * c) ?b ! i = content ! i" if i: "i < length content" "i div c \<in> insert k K" for i
  proof (cases "i div c = k")
    case True
    have "k * c \<le> i" "i < k * c + c" using True assms(2) div_times_less_eq_dividend [of i c] dividend_less_div_times [of c i] by auto
    moreover have "length ?b = min c (length content - k * c)" by (simp add: chunk_of_def)
    ultimately have "i - k * c < length ?b" "k * c \<le> length data" "k * c \<le> i" using i(1) fit by auto
    moreover have "length data = length content" using assms(1) by (simp add: arrived_def)
    ultimately show ?thesis by (simp add: set_range_def nth_append) (simp add: chunk_of_def)
  next
    case False
    have "i < k * c \<or> k * c + c \<le> i"
    proof (rule ccontr)
      assume "\<not> (i < k * c \<or> k * c + c \<le> i)"
      then have "i div c = k" using assms(2) by (intro div_nat_eqI) (auto simp: mult.commute)
      then show False using False by simp
    qed
    moreover have "length ?b \<le> c" by (simp add: chunk_of_def)
    ultimately have "i < k * c \<or> k * c + length ?b \<le> i" by auto
    then show ?thesis using nth_set_range_outside [OF fit] assms(1) i False by (simp add: arrived_def)
  qed
  then show ?thesis using assms(1) fit by (simp add: arrived_def)
qed

lemma arrived_all:
  assumes "arrived c content {..<chunk_count c (length content)} data" "0 < c"
  shows "data = content"
proof (rule nth_equalityI)
  show "length data = length content" using assms(1) by (simp add: arrived_def)
  fix i assume "i < length data"
  then have i: "i < length content" using assms(1) by (simp add: arrived_def)
  have "i div c * c \<le> i" by simp
  then have "i div c < chunk_count c (length content)" using i unfolding chunk_count_iff [OF assms(2)] by (rule order_le_less_trans)
  then show "data ! i = content ! i" using assms(1) i by (simp add: arrived_def)
qed

section \<open>Putting a file\<close>

definition chunk_payload :: "nat \<Rightarrow> u8 list \<Rightarrow> u8 list" where
  "chunk_payload k bs = to_be 2 (of_nat k :: u16) @ to_be 2 (of_nat (length bs) :: u16) @ bs"

lemma chunk_args_run:
  assumes "k < 65536" "length bs < 65536"
  shows "fst (chunk_args (reader_new (chunk_payload k bs))) = Ok (k, bs)"
proof -
  let ?k = "of_nat k :: u16" and ?n = "of_nat (length bs) :: u16"
  let ?d = "to_be 2 ?k @ to_be 2 ?n @ bs"
  have "read_u16 \<lparr>rd_data = ?d, rd_pos = 0\<rparr> = (Ok ?k, \<lparr>rd_data = ?d, rd_pos = 2\<rparr>)"
    using field_u16.rd_finds [of "[]" ?k "to_be 2 ?n @ bs"] by simp
  moreover have "read_u16 \<lparr>rd_data = ?d, rd_pos = 2\<rparr> = (Ok ?n, \<lparr>rd_data = ?d, rd_pos = 4\<rparr>)"
    using field_u16.rd_finds [of "to_be 2 ?k" ?n bs] by simp
  moreover have "read_bytes (length bs) \<lparr>rd_data = ?d, rd_pos = 4\<rparr> = (Ok bs, \<lparr>rd_data = ?d, rd_pos = 4 + length bs\<rparr>)"
    using read_bytes_at [of "to_be 2 ?k @ to_be 2 ?n" bs "[]"] assms(2) by simp
  moreover have "unat ?k = k" "unat ?n = length bs" using assms by (simp_all add: unat_of_nat)
  ultimately show ?thesis by (simp add: chunk_args_def chunk_payload_def reader_new_def bnd_def need_def ret_def)
qed

text \<open>A transfer of a file of this length in chunks of this size.\<close>

definition putting :: "u8 list \<Rightarrow> nat \<Rightarrow> nat \<Rightarrow> sox_file_xfer \<Rightarrow> bool" where
  "putting path n c f \<longleftrightarrow> fx_mode f = PutMode \<and> fx_write_path f = Some path \<and> fx_chunk_size f = c \<and> fx_offset f = 0 \<and> length (fx_data f) = n"

lemma put_chunk_run:
  assumes "xfer s = Some f" "\<not> xfer_poisoned s" "putting path (length content) c f" "arrived c content K (fx_data f)" "0 < c" "c < 65536"
    "length content + 65536 < usize_bound" "k < chunk_count c (length content)" "k < 65536" "fx_chunks_received f + 1 < usize_bound"
  shows "\<exists>g. handle_put_chunk (chunk_payload k (chunk_of c content k)) s = (Ok None, s\<lparr>xfer := Some g\<rparr>) \<and> putting path (length content) c g \<and>
    arrived c content (insert k K) (fx_data g) \<and> fx_chunks_received g = fx_chunks_received f + 1"
proof -
  let ?b = "chunk_of c content k"
  have k: "k * c < length content" using assms(5,8) by (simp add: chunk_count_iff)
  have fit: "k * c + length ?b \<le> length content" using length_chunk_of [OF k] .
  have args: "fst (chunk_args (reader_new (chunk_payload k ?b))) = Ok (k, ?b)"
    by (rule chunk_args_run) (use assms(6,9) in \<open>auto simp: chunk_of_def\<close>)
  let ?g = "f\<lparr>fx_data := set_range (fx_data f) (k * c) ?b, fx_chunks_received := fx_chunks_received f + 1\<rparr>"
  have small: "k * c < usize_bound" "k * c + length ?b < usize_bound" using fit assms(7) by auto
  have "store_chunk k ?b s = (Ok None, s\<lparr>xfer := Some ?g\<rparr>)"
    using assms(1,3,10) fit small by (simp add: store_chunk_def putting_def usize_ok_def monad_defs)
  then have "handle_put_chunk (chunk_payload k ?b) s = (Ok None, s\<lparr>xfer := Some ?g\<rparr>)"
    using args assms(2) by (simp add: handle_put_chunk_def locked_def sq_def bnd_def ret_def)
  moreover have "putting path (length content) c ?g" using assms(3) fit by (simp add: putting_def)
  moreover have "arrived c content (insert k K) (fx_data ?g)" using arrived_store [OF assms(4,5,8)] by simp
  ultimately show ?thesis by auto
qed

primrec put_chunks :: "nat \<Rightarrow> u8 list \<Rightarrow> nat list \<Rightarrow> ('f, unit) file_routine" where
  "put_chunks c content [] = ret ()"
| "put_chunks c content (k # ks) = sq (handle_put_chunk (chunk_payload k (chunk_of c content k))) (put_chunks c content ks)"

lemma put_chunks_run:
  assumes "xfer s = Some f" "\<not> xfer_poisoned s" "putting path (length content) c f" "arrived c content K (fx_data f)" "0 < c" "c < 65536"
    "length content + 65536 < usize_bound" "\<forall>k\<in>set ks. k < chunk_count c (length content) \<and> k < 65536" "fx_chunks_received f + length ks < usize_bound"
  shows "\<exists>g. put_chunks c content ks s = (Ok (), s\<lparr>xfer := Some g\<rparr>) \<and> putting path (length content) c g \<and> arrived c content (set ks \<union> K) (fx_data g)"
  using assms(1-4,8,9)
proof (induction ks arbitrary: s f K)
  case Nil
  then show ?case by (intro exI [of _ f]) (simp add: ret_def)
next
  case (Cons k ks)
  from put_chunk_run [OF Cons.prems(1-4) assms(5-7), of k] Cons.prems(5,6) obtain g where
    g: "handle_put_chunk (chunk_payload k (chunk_of c content k)) s = (Ok None, s\<lparr>xfer := Some g\<rparr>)" "putting path (length content) c g"
      "arrived c content (insert k K) (fx_data g)" "fx_chunks_received g = fx_chunks_received f + 1" by auto
  from Cons.IH [of "s\<lparr>xfer := Some g\<rparr>" g "insert k K"] g(2-4) Cons.prems(2,5,6)
  show ?case using g(1) by (auto simp: sq_def bnd_def)
qed

lemma open_put_run:
  assumes "open_put F req path n c 0 s = (Ok r, s')" "resp_cmd r = response_byte FileOpen"
  shows "\<exists>canon f. xfer s' = Some f \<and> \<not> xfer_poisoned s' \<and> putting (utf8_lossy canon) n c f \<and> fx_chunks_received f = 0 \<and>
    validate_path F path True (disk s) = (Ok canon, disk s')"
proof -
  have err: "resp_cmd (error_msg FileOpen i m) \<noteq> response_byte FileOpen" for i m
    by (simp add: error_msg_def write_str_def response_error_def error_byte_def)
  show ?thesis using assms err
    by (auto simp: open_put_def on_disk_def bnd_eq_Ok ret_def start_transfer_def locked_def modify_def sq_def putting_def
        split: prod.splits outcome.splits sum.splits if_splits)
qed

section \<open>Getting a file\<close>

lemma read_chunk_run:
  assumes "fx_mode f = GetMode" "fx_offset f = 0" "fx_file_size f = length (fx_data f)" "fx_chunk_size f = c" "0 < c" "c < 65536" "k < 65536"
    "length (fx_data f) + 65536 < usize_bound"
  shows "read_chunk req f k s = (Ok (if k < chunk_count c (length (fx_data f))
      then write_bytes (chunk_of c (fx_data f) k) (response_success FileRead (req_id req))
      else error_msg FileRead (req_id req) ''chunk out of range''), s)"
proof (cases "k < chunk_count c (length (fx_data f))")
  case True
  then have k: "k * c < length (fx_data f)" using assms(5) by (simp add: chunk_count_iff)
  have "take (min (k * c + c) (length (fx_data f)) - k * c) (drop (k * c) (fx_data f)) = chunk_of c (fx_data f) k"
    using k by (auto simp: chunk_of_def min_def)
  then show ?thesis using True k assms by (simp add: read_chunk_def usize_ok_def monad_defs Let_def)
next
  case False
  then have k: "\<not> k * c < length (fx_data f)" using assms(5) by (simp add: chunk_count_iff)
  have "Suc k * c \<le> 65536 * 65535" using assms(6,7) by (intro mult_le_mono) auto
  then show ?thesis using False k assms by (auto simp: read_chunk_def usize_ok_def monad_defs Let_def)
qed

definition read_request :: "nat \<Rightarrow> sox_request" where
  "read_request k = \<lparr>req_cmd = FileRead, req_id = 0, req_payload = to_be 2 (of_nat k :: u16)\<rparr>"

lemma read_request_run:
  assumes "k < 65536" "xfer s = Some f" "\<not> xfer_poisoned s"
  shows "handle_file_read (read_request k) s = (case read_chunk (read_request k) f k s of (Panic, s') \<Rightarrow> (Panic, s'\<lparr>xfer_poisoned := True\<rparr>) | x \<Rightarrow> x)"
proof -
  let ?k = "of_nat k :: u16"
  have "read_u16 \<lparr>rd_data = to_be 2 ?k, rd_pos = 0\<rparr> = (Ok ?k, \<lparr>rd_data = to_be 2 ?k, rd_pos = 2\<rparr>)"
    using field_u16.rd_finds [of "[]" ?k "[]"] by simp
  moreover have "unat ?k = k" using assms(1) by (simp add: unat_of_nat)
  ultimately show ?thesis using assms(2,3)
    by (simp add: handle_file_read_def read_request_def with_args_def reader_new_def or_default_def locked_def)
qed

lemma open_get_run:
  assumes "open_get F req path 0 c 0 s = (Ok r, s')" "resp_cmd r = response_byte FileOpen"
  shows "\<exists>canon content. validate_path F path False (disk s) = (Ok canon, disk s') \<and> fs_read F canon (disk s') = Some content \<and> \<not> xfer_poisoned s' \<and>
    xfer s' = Some \<lparr>fx_data = content, fx_chunk_size = c, fx_mode = GetMode, fx_write_path = None, fx_file_size = length content,
                   fx_num_chunks = 0, fx_chunks_received = 0, fx_offset = 0\<rparr>"
proof -
  have err: "resp_cmd (error_msg FileOpen i m) \<noteq> response_byte FileOpen" for i m
    by (simp add: error_msg_def write_str_def response_error_def error_byte_def)
  show ?thesis using assms err
    by (auto simp: open_get_def on_disk_def bnd_eq_Ok ret_def start_transfer_def locked_def modify_def sq_def Let_def
        split: prod.splits outcome.splits sum.splits if_splits option.splits)
qed

section \<open>Paths that are written\<close>

lemma contains_dots_middle: "contains_dots bs \<Longrightarrow> contains_dots (as @ bs @ cs)"
proof (induction as)
  case Nil
  then show ?case by (induction bs rule: contains_dots.induct) auto
next
  case (Cons a as)
  have "as @ bs @ cs \<noteq> []" using Cons.prems by (cases bs) auto
  then show ?case using Cons by (cases "as @ bs @ cs") auto
qed

lemma split_slash_parts: "c \<in> set (split_slash cur bs) \<Longrightarrow> slash \<notin> set cur \<Longrightarrow> slash \<notin> set c \<and> (\<exists>x y. cur @ bs = x @ c @ y)"
proof (induction cur bs rule: split_slash.induct)
  case (1 cur)
  then show ?case by (auto intro: exI [of _ "[]"])
next
  case (2 cur b bs)
  show ?case
  proof (cases "b = slash")
    case True
    then consider "c = cur" | "c \<in> set (split_slash [] bs)" using "2.prems"(1) by auto
    then show ?thesis
    proof cases
      case 1
      then show ?thesis using "2.prems"(2) by (metis append_Nil)
    next
      case c: 2
      obtain x y where "slash \<notin> set c" "[] @ bs = x @ c @ y" using "2.IH"(1) [OF True c] by auto
      then have "slash \<notin> set c \<and> cur @ b # bs = (cur @ b # x) @ c @ y" by simp
      then show ?thesis by blast
    qed
  next
    case False
    then show ?thesis using "2.IH"(2) [OF False] "2.prems" by auto
  qed
qed

lemma file_name_plain:
  assumes "path_file_name p = Some name" "\<not> contains_dots p"
  shows "name \<noteq> [] \<and> slash \<notin> set name \<and> name \<noteq> ascii ''..''"
proof -
  have "name \<in> set (path_components p)" using assms(1) by (auto simp: path_file_name_def split: if_splits)
  then have c: "name \<noteq> []" "name \<in> set (split_slash [] p)" by (auto simp: path_components_def)
  obtain x y where s: "slash \<notin> set name" "p = x @ name @ y" using split_slash_parts [OF c(2)] by auto
  have "contains_dots (ascii ''..'')" by code_simp
  then have "name \<noteq> ascii ''..''" using assms(2) contains_dots_middle [of name x y] s(2) by auto
  then show ?thesis using c(1) s(1) by blast
qed

text \<open>A path in an allowed directory: the canonical form of its directory begins with the text of one of them, and it ends with the plain name of a file.\<close>

definition allowed_path :: "'f sox_fs \<Rightarrow> u8 list \<Rightarrow> bool" where
  "allowed_path F p \<longleftrightarrow> (\<exists>w w' parent canon name d. p = path_join canon name \<and> fs_canonicalize F parent w' = Some canon \<and>
     d \<in> set (allowed_write_dirs F w) \<and> starts_with (utf8_lossy canon) d \<and> name \<noteq> [] \<and> slash \<notin> set name \<and> name \<noteq> ascii ''..'')"

lemma validate_write_allowed:
  assumes "validate_path F p True w = (Ok q, w')"
  shows "allowed_path F q"
proof -
  have dots: "\<not> contains_dots p" and "0 \<notin> set p" using assms by (auto simp: validate_path_def raise_def split: if_splits)
  then obtain parent u where u: "(case fs_canonicalize F parent u of
               None \<Rightarrow> (Err ''invalid path'', u)
             | Some canon \<Rightarrow>
                 if \<not> list_ex (starts_with (utf8_lossy canon)) (allowed_write_dirs F w) then (Err ''invalid path'', u)
                 else case path_file_name p of
                   Some name \<Rightarrow> (Ok (path_join canon name), u)
                 | None \<Rightarrow> (Err ''invalid path'', u)) = (Ok q, w')"
    using assms by (cases "path_parent p") (auto simp: validate_path_def sq_def bnd_eq_Ok query_def raise_def)
  then obtain canon where canon: "fs_canonicalize F parent u = Some canon" by (cases "fs_canonicalize F parent u") auto
  then have ok: "list_ex (starts_with (utf8_lossy canon)) (allowed_write_dirs F w)" using u by (auto split: if_splits)
  then obtain name where "path_file_name p = Some name" "q = path_join canon name" using u canon by (cases "path_file_name p") auto
  with dots canon ok have "\<not> contains_dots p" "fs_canonicalize F parent u = Some canon" "list_ex (starts_with (utf8_lossy canon)) (allowed_write_dirs F w)"
    "path_file_name p = Some name" "q = path_join canon name" by auto
  then show ?thesis using file_name_plain [of p name] unfolding allowed_path_def list_ex_iff by blast
qed

text \<open>An open transfer that puts a file has such a path.\<close>

definition transfer_ok :: "'f sox_fs \<Rightarrow> 'f file_server \<Rightarrow> bool" where
  "transfer_ok F s \<longleftrightarrow> (\<forall>f p. xfer s = Some f \<longrightarrow> fx_write_path f = Some p \<longrightarrow> (\<exists>q. allowed_path F q \<and> p = utf8_lossy q))"

lemma transfer_ok_close: "xfer s = None \<Longrightarrow> transfer_ok F s"
  by (simp add: transfer_ok_def)

lemma yields_locked: "yields I m \<Longrightarrow> yields I (locked m)"
  by (auto simp: yields_def locked_def split: if_splits prod.splits outcome.splits)

lemma yields_on_world: "yields (transfer_ok F) (on_disk m)"
  by (auto simp: yields_def on_disk_def transfer_ok_def split: prod.splits outcome.splits)

lemma on_disk_Inr: "on_disk m s = (Ok (Inr q), s') \<Longrightarrow> \<exists>w. m (disk s) = (Ok q, w)"
  by (auto simp: on_disk_def split: prod.splits outcome.splits)

lemma transfer_ok_store: "transfer_ok F s \<Longrightarrow> store_chunk n bs s = (Ok a, s') \<Longrightarrow> transfer_ok F s'"
  by (auto simp: store_chunk_def bnd_eq_Ok usize_ok_def monad_defs transfer_ok_def split: option.splits if_splits)

lemma transfer_ok_start: "yields (transfer_ok F) (start_transfer f)" if "\<And>p. fx_write_path f = Some p \<Longrightarrow> \<exists>q. allowed_path F q \<and> p = utf8_lossy q"
  unfolding start_transfer_def using that by (intro yields_locked yields_modify) (simp add: transfer_ok_def)

lemma yields_open_put: "yields (transfer_ok F) (open_put F req path n c off)"
proof (rule yieldsI)
  fix s r s' assume s: "transfer_ok F s" and run: "open_put F req path n c off s = (Ok r, s')"
  then obtain v u where u: "on_disk (validate_path F path True) s = (Ok v, u)"
    "(case v of Inl msg \<Rightarrow> ret (error_msg FileOpen (req_id req) msg)
    | Inr canon \<Rightarrow>
        if n > 10 * 1024 * 1024 then ret (error_msg FileOpen (req_id req) ''too big'')
        else sq (start_transfer \<lparr>fx_data = replicate n 0, fx_chunk_size = c, fx_mode = PutMode, fx_write_path = Some (utf8_lossy canon),
                   fx_file_size = n, fx_num_chunks = (if n = 0 then 1 else (n + c - 1) div c), fx_chunks_received = 0, fx_offset = off\<rparr>)
               (ret (open_reply req n c))) u = (Ok r, s')" by (auto simp: open_put_def bnd_eq_Ok)
  have ok: "transfer_ok F u" using yieldsD [OF yields_on_world s u(1)] .
  show "transfer_ok F s'"
  proof (cases v)
    case (Inl msg)
    then show ?thesis using u(2) ok by (simp add: ret_def)
  next
    case (Inr canon)
    obtain w where "validate_path F path True (disk s) = (Ok canon, w)" using on_disk_Inr [OF u(1) [unfolded Inr]] by blast
    then have "allowed_path F canon" by (rule validate_write_allowed)
    then have "yields (transfer_ok F) (sq (start_transfer \<lparr>fx_data = replicate n 0, fx_chunk_size = c, fx_mode = PutMode, fx_write_path = Some (utf8_lossy canon),
                   fx_file_size = n, fx_num_chunks = (if n = 0 then 1 else (n + c - 1) div c), fx_chunks_received = 0, fx_offset = off\<rparr>)
               (ret (open_reply req n c)))" by (intro yields_sq transfer_ok_start yields_basic) auto
    from yieldsD [OF this ok] show ?thesis using u(2) Inr ok by (auto simp: ret_def split: if_splits)
  qed
qed

lemma yields_open_get: "yields (transfer_ok F) (open_get F req path n c off)"
proof -
  have "yields (transfer_ok F) (\<lambda>s. case fs_read F canon (disk s) of
        None \<Rightarrow> ret (error_msg FileOpen (req_id req) ''file not found'') s
      | Some content \<Rightarrow> sq (start_transfer (g content)) (ret (h content)) s)" if "\<And>x. fx_write_path (g x) = None" for canon g h
  proof (rule yieldsI)
    fix s r s'
    assume s: "transfer_ok F s" and run: "(case fs_read F canon (disk s) of
        None \<Rightarrow> ret (error_msg FileOpen (req_id req) ''file not found'') s
      | Some content \<Rightarrow> sq (start_transfer (g content)) (ret (h content)) s) = (Ok r, s')"
    have y: "yields (transfer_ok F) (sq (start_transfer (g x)) (ret (h x)))" for x
      by (rule yields_sq [OF transfer_ok_start yields_basic(1)]) (simp add: that)
    show "transfer_ok F s'"
    proof (cases "fs_read F canon (disk s)")
      case None
      then show ?thesis using s run by (simp add: ret_def)
    next
      case (Some x)
      then have "sq (start_transfer (g x)) (ret (h x)) s = (Ok r, s')" using run by simp
      then show ?thesis by (rule yieldsD [OF y s])
    qed
  qed
  then show ?thesis unfolding open_get_def Let_def
    by (intro yields_bnd yields_on_world) (simp add: yields_basic split: sum.splits)
qed

lemma yields_files:
  "yields (transfer_ok F) (handle_file_open F req)" "yields (transfer_ok F) (handle_file_read req)" "yields (transfer_ok F) (handle_file_write req)"
  "yields (transfer_ok F) (handle_file_close F req)" "yields (transfer_ok F) (handle_file_rename F req)"
  "yields (transfer_ok F) is_put_transfer_active" "yields (transfer_ok F) (handle_put_chunk payload)"
proof -
  have store: "yields (transfer_ok F) (store_chunk n bs)" for n bs by (rule yieldsI) (rule transfer_ok_store)
  show "yields (transfer_ok F) (handle_file_open F req)" unfolding handle_file_open_def split_def
    by (intro yields_with_args) (auto intro!: yields_bnd yields_locked yields_basic yields_open_get yields_open_put split: sum.splits)
  have chunk: "read_chunk req f n s = (Ok a, s') \<Longrightarrow> s' = s" for f n s a s'
    by (auto simp: read_chunk_def usize_ok_def monad_defs Let_def split: if_splits)
  show "yields (transfer_ok F) (handle_file_read req)" unfolding handle_file_read_def
    by (intro yields_with_args yields_locked yieldsI) (auto simp: ret_def split: option.splits dest: chunk)
  show "yields (transfer_ok F) (handle_file_write req)" unfolding handle_file_write_def
    by (auto intro!: yields_bnd yields_locked yields_basic store split: outcome.splits option.splits)
  show "yields (transfer_ok F) (handle_file_close F req)" unfolding handle_file_close_def
    by (intro yields_locked yieldsI) (auto simp: ret_def transfer_ok_def split: option.splits prod.splits bool.splits)
  show "yields (transfer_ok F) is_put_transfer_active" unfolding is_put_transfer_active_def by (intro yields_locked yields_basic)
  show "yields (transfer_ok F) (handle_put_chunk payload)" unfolding handle_put_chunk_def
    by (auto intro!: yields_sq yields_locked yields_basic store split: outcome.splits)
  have ren: "yields (transfer_ok F) (\<lambda>s. case fs_rename F ca cb (disk s) of
                      (True, w) \<Rightarrow> ret (response_success FileRename (req_id req)) (s\<lparr>disk := w\<rparr>)
                    | (False, w) \<Rightarrow> ret (error_msg FileRename (req_id req) ''rename failed'') (s\<lparr>disk := w\<rparr>))" for ca cb
    by (rule yieldsI) (auto simp: ret_def transfer_ok_def split: prod.splits bool.splits)
  have if_lam: "yields (transfer_ok F) m \<Longrightarrow> yields (transfer_ok F) n \<Longrightarrow> yields (transfer_ok F) (\<lambda>s. if b s then m s else n s)"
    for m n :: "('a, sox_response) file_routine" and b by (rule yieldsI) (metis yieldsD)
  show "yields (transfer_ok F) (handle_file_rename F req)" unfolding handle_file_rename_def split_def [where 'b = "u8 list"] Let_def
    by (intro yields_with_args) (auto intro!: yields_bnd yields_on_world yields_basic if_lam ren split: sum.splits)
qed

text \<open>Over the whole server: only the file handlers touch the transfer.\<close>

abbreviation files_ok :: "'f sox_fs \<Rightarrow> 'f sox_server \<Rightarrow> bool" where
  "files_ok F s \<equiv> transfer_ok F (sv_files s)"

lemma files_lift:
  "yields (files_ok F) (on_tree m)" "yields (files_ok F) (on_subs n)" "yields (files_ok F) (on_dyn d)"
  "yields (transfer_ok F) k \<Longrightarrow> yields (files_ok F) (on_files k)"
  by (fastforce simp: yields_def on_tree_def on_subs_def on_dyn_def on_files_def split: prod.splits)+

lemma files_same [simp]:
  "sv_files (sox_send x b s) = sv_files s" "sv_files (send_all evs s) = sv_files s" "sv_files (forward_write req s) = sv_files s"
  "sv_files (push_write_event req s) = sv_files s" "sv_files (push_config_event req s) = sv_files s"
  "sv_files (push_link_events req x b s) = sv_files s" "sv_files (push_flow_event cid s) = sv_files s" "sv_files (queue_full_cov flow s) = sv_files s"
  "sv_files (push_pending s) = sv_files s" "sv_files (cleanup_tick ids s) = sv_files s" "sv_files (persist_tick s) = sv_files s"
  by (simp_all add: sox_send_def send_all_def forward_write_def push_write_event_def push_config_event_def push_link_events_def push_flow_event_def
      queue_full_cov_def push_pending_def cleanup_tick_def persist_tick_def Let_def split: option.splits prod.splits)

lemma files_fold: "(\<And>x s. sv_files (f x s) = sv_files s) \<Longrightarrow> sv_files (fold f xs s) = sv_files s"
  by (induction xs arbitrary: s) simp_all

lemma files_push_all [simp]: "sv_files (push_all_links req x s) = sv_files s"
  by (simp add: push_all_links_def) (rule impI, subst files_fold, auto split: option.splits)

lemma files_save [simp]: "sv_files (save_on_action req s) = sv_files s"
  by (simp add: save_on_action_def)

lemma files_dispatch: "yields (files_ok F) (handle_sox_request_with_dyn F f64_text req session)"
  unfolding handle_sox_request_with_dyn_def
  by (rule yields_choose, cases "req_cmd req") (simp_all add: files_lift yields_files yields_basic yields_sq yields_modify)

lemma files_request: "yields (files_ok F) (handle_request F f64_text session req)"
proof -
  have drop: "yields (files_ok F) (drop_tags d)" for d
    by (rule yieldsI) (auto simp: drop_tags_def split: option.splits if_splits dest: yieldsD [OF files_lift(3)])
  have tree: "yields (files_ok F) (push_tree_events req session p b)" for p b
    by (rule yieldsI) (auto simp: push_tree_events_def Let_def split: option.splits if_splits)
  show ?thesis unfolding handle_request_def Let_def
    by (rule yields_choose) (intro yields_sq yields_bnd files_dispatch drop tree yields_modify; simp)
qed

lemma files_packet: "yields (files_ok F) (handle_packet F f64_text session payload)"
  unfolding handle_packet_def
  by (intro yields_bnd) (auto intro!: files_request yields_sq files_lift yields_files yields_basic split: option.splits)

lemma files_refresh: "refresh_tick channels s = (Ok (), s') \<Longrightarrow> sv_files s' = sv_files s"
  by (auto simp: refresh_tick_def Let_def files_fold split: outcome.splits)

lemma files_reachable: "sox_reachable F f64_text s \<Longrightarrow> files_ok F s"
proof (induction rule: sox_reachable.induct)
  case (start channels db t w)
  then show ?case by (simp add: server_start_def transfer_ok_def)
next
  case (step s s')
  from step.hyps(2) step.IH show ?case
    by (induction rule: sox_step.induct) (auto dest: yieldsD [OF files_packet] files_refresh)
qed

section \<open>Properties\<close>



text \<open>C25. A file is got as it is: once a transfer of a whole file has been opened, reading its chunks changes nothing and answers with its contents
  piece by piece, so that the answers to the chunk numbers in order make up the file; every other number is refused.\<close>

theorem file_get_roundtrip:
  assumes "open_get F req path 0 c 0 s = (Ok r, s1)" "resp_cmd r = response_byte FileOpen" "0 < c" "c < 65536"
    "\<And>p x. fs_read F p (disk s1) = Some x \<Longrightarrow> length x \<le> 65536 * c \<and> length x + 65536 < usize_bound"
  shows "\<exists>canon content n. validate_path F path False (disk s) = (Ok canon, disk s1) \<and> fs_read F canon (disk s1) = Some content \<and>
    concat (map (\<lambda>k. case fst (handle_file_read (read_request k) s1) of Ok r \<Rightarrow> resp_payload r | _ \<Rightarrow> []) [0..<n]) = content \<and>
    (\<forall>k<65536. \<exists>r. handle_file_read (read_request k) s1 = (Ok r, s1) \<and> (resp_cmd r = error_byte \<longleftrightarrow> n \<le> k))"
proof -
  obtain canon content where c: "validate_path F path False (disk s) = (Ok canon, disk s1)" "fs_read F canon (disk s1) = Some content"
    "\<not> xfer_poisoned s1" "xfer s1 = Some \<lparr>fx_data = content, fx_chunk_size = c, fx_mode = GetMode, fx_write_path = None, fx_file_size = length content,
                   fx_num_chunks = 0, fx_chunks_received = 0, fx_offset = 0\<rparr>" (is "_ = Some ?f")
    using open_get_run [OF assms(1,2)] by blast
  let ?n = "chunk_count c (length content)"
  have small: "length content \<le> 65536 * c" "length content + 65536 < usize_bound" using assms(5) [OF c(2)] by auto
  have run: "handle_file_read (read_request k) s1 = (Ok (if k < ?n then write_bytes (chunk_of c content k) (response_success FileRead 0)
      else error_msg FileRead 0 ''chunk out of range''), s1)" if "k < 65536" for k
    using read_request_run [OF that c(4,3)] read_chunk_run [of ?f c k "read_request k" s1] assms(3,4) small(2) that
    by (simp add: read_request_def)
  have below: "k < 65536" if "k < ?n" for k using chunk_below [OF assms(3) that small(1)] .
  have "map (\<lambda>k. case fst (handle_file_read (read_request k) s1) of Ok r \<Rightarrow> resp_payload r | _ \<Rightarrow> []) [0..<?n] = map (chunk_of c content) [0..<?n]"
    using run [OF below] by (auto simp: response_success_def)
  then have "concat (map (\<lambda>k. case fst (handle_file_read (read_request k) s1) of Ok r \<Rightarrow> resp_payload r | _ \<Rightarrow> []) [0..<?n]) = content"
    using concat_all_chunks [OF assms(3), of content] by (simp only:)
  moreover have "resp_cmd (write_bytes b (response_success FileRead 0)) \<noteq> error_byte" "resp_cmd (error_msg FileRead 0 m) = error_byte" for b m
    by (simp_all add: response_success_def error_msg_def write_str_def response_error_def error_byte_def)
  ultimately show ?thesis using c(1,2) run by (intro exI [of _ canon] exI [of _ content] exI [of _ ?n]) (auto simp: not_less)
qed

theorem file_get_roundtrip_witness:
  "\<exists>s1 r n. open_get mem_fs \<lparr>req_cmd = FileOpen, req_id = 1, req_payload = []\<rparr> (MANIFESTS_DIR @ ascii ''/x'') 0 2 0
      \<lparr>xfer = None, xfer_poisoned = False, disk = [(MANIFESTS_DIR @ ascii ''/x'', [1, 2, 3])]\<rparr> = (Ok r, s1) \<and>
    concat (map (\<lambda>k. case fst (handle_file_read (read_request k) s1) of Ok r \<Rightarrow> resp_payload r | _ \<Rightarrow> []) [0..<n]) = [1, 2, 3]"
proof -
  let ?req = "\<lparr>req_cmd = FileOpen, req_id = 1, req_payload = []\<rparr>" and ?p = "MANIFESTS_DIR @ ascii ''/x''"
  let ?s = "\<lparr>xfer = None, xfer_poisoned = False, disk = [(?p, [1, 2, 3])]\<rparr> :: (u8 list \<times> u8 list) list file_server"
  have "(case open_get mem_fs ?req ?p 0 2 0 ?s of (Ok r, s1) \<Rightarrow> resp_cmd r = response_byte FileOpen \<and> disk s1 = [(?p, [1, 2, 3])] | _ \<Rightarrow> False)" by code_simp
  then obtain r s1 where s1: "open_get mem_fs ?req ?p 0 2 0 ?s = (Ok r, s1)" "resp_cmd r = response_byte FileOpen" "disk s1 = [(?p, [1, 2, 3])]"
    by (auto split: prod.splits outcome.splits)
  have "fs_read mem_fs p (disk s1) = Some x \<Longrightarrow> x = [1, 2, 3]" for p x by (simp add: mem_fs_def s1(3) split: if_splits)
  then show ?thesis using file_get_roundtrip [OF s1(1,2)] s1(1) by fastforce
qed

text \<open>The file system that behaves differently on paths that are not allowed.\<close>

definition guarded :: "'f sox_fs \<Rightarrow> (u8 list \<Rightarrow> u8 list \<Rightarrow> 'f \<Rightarrow> bool \<times> 'f) \<Rightarrow> (u8 list \<Rightarrow> u8 list \<Rightarrow> 'f \<Rightarrow> bool \<times> 'f) \<Rightarrow> 'f sox_fs" where
  "guarded F other1 other2 =
     F\<lparr>fs_write := \<lambda>p c w. if \<exists>q. allowed_path F q \<and> p = utf8_lossy q then fs_write F p c w else other1 p c w,
       fs_rename := \<lambda>a b w. if allowed_path F a \<and> allowed_path F b then fs_rename F a b w else other2 a b w\<rparr>"

lemma guarded_fields [simp]:
  "fs_read (guarded F x y) = fs_read F" "fs_exists (guarded F x y) = fs_exists F" "fs_canonicalize (guarded F x y) = fs_canonicalize F"
  "fs_temp_dir (guarded F x y) = fs_temp_dir F" "fs_create_dir_all (guarded F x y) = fs_create_dir_all F"
  by (simp_all add: guarded_def)

lemma guarded_validate [simp]: "validate_path (guarded F x y) = validate_path F"
  unfolding validate_path_def [abs_def] allowed_write_dirs_def [abs_def] guarded_fields ..

lemma bnd_at_cong: "(\<And>a s'. m s = (Ok a, s') \<Longrightarrow> f a s' = g a s') \<Longrightarrow> bnd m f s = bnd m g s"
  by (simp add: bnd_def split: prod.splits outcome.splits)

lemma with_args_at_cong: "(\<And>a. f a s = g a s) \<Longrightarrow> with_args req args f s = with_args req args g s"
  by (simp add: with_args_def split: outcome.splits)

lemma on_disk_allowed: "on_disk (validate_path F p True) s = (Ok (Inr q), s') \<Longrightarrow> allowed_path F q"
  using on_disk_Inr validate_write_allowed by metis

lemma fs_rename_guarded: "allowed_path F a \<Longrightarrow> allowed_path F b \<Longrightarrow> fs_rename (guarded F x y) a b = fs_rename F a b"
  by (simp add: guarded_def fun_eq_iff)

lemma rename_guarded: "handle_file_rename (guarded F other1 other2) req s = handle_file_rename F req s"
  unfolding handle_file_rename_def Let_def guarded_validate guarded_fields
  by (rule with_args_at_cong) (auto intro!: bnd_at_cong dest!: on_disk_allowed simp: fs_rename_guarded split: sum.splits)

text \<open>C9. The server writes only where it may: in every state that the server can reach, closing a transfer and renaming a file do the same whatever the
  file system would do with any other path than the plain name of a file in a directory whose canonical text begins with an allowed one,
  because no other path is ever written, renamed or renamed to.\<close>

theorem file_changes_confined:
  assumes "sox_reachable F f64_text s"
  shows "handle_file_close (guarded F other1 other2) req (sv_files s) = handle_file_close F req (sv_files s) \<and>
    handle_file_rename (guarded F other1 other2) req (sv_files s) = handle_file_rename F req (sv_files s)"
proof
  have ok: "transfer_ok F (sv_files s)" using files_reachable [OF assms] .
  have "fs_write (guarded F other1 other2) p = fs_write F p" if "xfer (sv_files s) = Some f" "fx_write_path f = Some p" for f p
    using ok that by (auto simp: guarded_def transfer_ok_def fun_eq_iff)
  then show "handle_file_close (guarded F other1 other2) req (sv_files s) = handle_file_close F req (sv_files s)"
    by (cases "xfer (sv_files s)") (auto simp: handle_file_close_def locked_def split: option.splits)
  show "handle_file_rename (guarded F other1 other2) req (sv_files s) = handle_file_rename F req (sv_files s)" by (rule rename_guarded)
qed

theorem file_changes_confined_witness:
  "\<exists>s. sox_reachable mem_fs (\<lambda>_. []) s \<and>
     handle_file_close (guarded mem_fs (\<lambda>p c w. (False, [])) (\<lambda>a b w. (False, []))) \<lparr>req_cmd = FileClose, req_id = 1, req_payload = []\<rparr> (sv_files s) =
     handle_file_close mem_fs \<lparr>req_cmd = FileClose, req_id = 1, req_payload = []\<rparr> (sv_files s)"
proof -
  have "(case from_channels_with_manifest [] manifest_new :: (unit, component_tree) outcome of Ok _ \<Rightarrow> True | _ \<Rightarrow> False)" by code_simp
  then obtain t where "from_channels_with_manifest [] manifest_new = (Ok t :: (unit, component_tree) outcome)" by (auto split: outcome.splits)
  then have "sox_reachable mem_fs (\<lambda>_. []) (server_start t [])" by (rule sox_reachable.start)
  then show ?thesis using file_changes_confined [of mem_fs "\<lambda>_. []" "server_start t []"] by blast
qed

end
