(* ===== verification/Sox_Manifest.thy ===== *)
theory Sox_Manifest
  imports Sox_Execute Sox_Files Text
begin

text \<open>
  The database of component types (\<open>ManifestDb\<close> in \<open>sox/sox_handlers.rs\<close>): reading the manifests of the kits, inheritance of slots, and the
  types that are built in. The XML reader of the crate \<open>quick_xml\<close> is a parameter: the list of the events that it delivers up to the end
  of the text or the first error, with the local names of elements and the attributes that are well formed.
\<close>

section \<open>Types, flags and defaults\<close>

definition sedona_type_to_sox :: "u8 list \<Rightarrow> u8" where
  "sedona_type_to_sox s =
     (if s = ascii ''int'' then value_type_byte TInt
      else if s = ascii ''float'' then value_type_byte TFloat
      else if s = ascii ''bool'' then value_type_byte TBool
      else if s = ascii ''void'' then value_type_byte TVoid
      else if s = ascii ''sys::Buf'' then value_type_byte TBuf
      else if s = ascii ''byte'' then value_type_byte TByte
      else if s = ascii ''short'' then value_type_byte TShort
      else if s = ascii ''long'' then value_type_byte TLong
      else if s = ascii ''double'' then value_type_byte TDouble
      else value_type_byte TInt)"

definition sedona_flags_to_slot_flags :: "u8 list \<Rightarrow> u8" where
  "sedona_flags_to_slot_flags s =
     (let f1 = (if of_char CHR ''c'' \<in> set s then SLOT_FLAG_CONFIG else 0);
          f2 = (if of_char CHR ''a'' \<in> set s then f1 OR SLOT_FLAG_ACTION else f1);
          f3 = (if of_char CHR ''o'' \<in> set s then f2 OR SLOT_FLAG_OPERATOR else f2)
      in if f3 AND (SLOT_FLAG_CONFIG OR SLOT_FLAG_ACTION) = 0 then f3 OR SLOT_FLAG_RUNTIME else f3)"

definition default_for_type :: "u8 \<Rightarrow> slot_value" where
  "default_for_type ty =
     (if ty = value_type_byte TBool then SvBool False
      else if ty = value_type_byte TInt then SvInt 0
      else if ty = value_type_byte TFloat then SvFloat 0
      else if ty = value_type_byte TDouble then SvDouble 0
      else if ty = value_type_byte TLong then SvLong 0
      else if ty = value_type_byte TByte then SvInt 0
      else if ty = value_type_byte TShort then SvInt 0
      else if ty = value_type_byte TBuf then SvStr []
      else SvNull)"

text \<open>\<open>str::parse\<close> for the numbers of a manifest, \<open>unwrap_or\<close> zero.\<close>

definition parse_i64 :: "u8 list \<Rightarrow> i64 option" where
  "parse_i64 s =
     (let neg = (s \<noteq> [] \<and> hd s = of_char CHR ''-''); ds = (if s \<noteq> [] \<and> (hd s = of_char CHR ''-'' \<or> hd s = of_char CHR ''+'') then tl s else s)
      in if ds = [] \<or> \<not> list_all is_digit_byte ds then None
         else let n = foldl (\<lambda>n d. n * 10 + int (unat d - 48)) 0 ds; v = (if neg then - n else n)
              in if - (2 ^ 63) \<le> v \<and> v < 2 ^ 63 then Some (of_int v) else None)"

definition parse_u8 :: "u8 list \<Rightarrow> u8 option" where
  "parse_u8 s =
     (let ds = (if starts_with s (ascii ''+'') then tl s else s)
      in if ds = [] \<or> \<not> list_all is_digit_byte ds then None
         else let n = foldl (\<lambda>n d. n * 10 + (unat d - 48)) 0 ds in if n < 256 then Some (of_nat n) else None)"

definition or_zero :: "'a::zero option \<Rightarrow> 'a" where
  "or_zero v = (case v of Some x \<Rightarrow> x | None \<Rightarrow> 0)"

definition parse_default_value :: "u8 \<Rightarrow> u8 list option \<Rightarrow> slot_value" where
  "parse_default_value ty d = (case d of
      None \<Rightarrow> default_for_type ty
    | Some s \<Rightarrow>
        if s = [] then if ty = value_type_byte TBuf then SvStr [] else default_for_type ty
        else if ty = value_type_byte TBool then SvBool (s = ascii ''true'' \<or> s = ascii ''1'')
        else if ty = value_type_byte TInt then SvInt (or_zero (parse_i32 s))
        else if ty = value_type_byte TFloat then SvFloat (or_zero (parse_f32 (text_chars s)))
        else if ty = value_type_byte TDouble then SvDouble (or_zero (parse_f64 (text_chars s)))
        else if ty = value_type_byte TLong then SvLong (or_zero (parse_i64 s))
        else if ty = value_type_byte TByte \<or> ty = value_type_byte TShort then SvInt (or_zero (parse_i32 s))
        else if ty = value_type_byte TBuf then SvStr s
        else if ty = value_type_byte TVoid then SvNull
        else default_for_type ty)"

section \<open>Inheritance\<close>

definition slot_def :: "string \<Rightarrow> sox_value_type \<Rightarrow> u8 \<Rightarrow> slot_value \<Rightarrow> manifest_slot" where
  "slot_def name ty flags v = \<lparr>ms_name = ascii name, ms_type = value_type_byte ty, ms_flags = flags, ms_default = v\<rparr>"

definition colon :: u8 where "colon = of_char CHR '':''"

text \<open>\<open>split("::")\<close>.\<close>

fun split_colons :: "u8 list \<Rightarrow> u8 list \<Rightarrow> u8 list list" where
  "split_colons cur (a # b # bs) = (if a = colon \<and> b = colon then cur # split_colons [] bs else split_colons (cur @ [a]) (b # bs))"
| "split_colons cur bs = [cur @ bs]"

definition kit_position :: "u8 list \<Rightarrow> u8 option" where
  "kit_position name = map_option of_nat (find (\<lambda>i. ascii (kit_name (DEFAULT_KITS ! i)) = name) [0..<length DEFAULT_KITS])"

definition resolve_base_slots :: "manifest_db \<Rightarrow> u8 list \<Rightarrow> manifest_slot list option" where
  "resolve_base_slots db base = (case split_colons [] base of
      [kit_part, type_part] \<Rightarrow> Option.bind (kit_position kit_part) (\<lambda>k.
        Option.bind (map_of (md_type_names db) (k, type_part)) (get_slots db k))
    | _ \<Rightarrow> None)"

definition inherited_slots :: "manifest_db \<Rightarrow> u8 list option \<Rightarrow> manifest_slot list \<Rightarrow> manifest_slot list" where
  "inherited_slots db base own = (case base of
      None \<Rightarrow> []
    | Some b \<Rightarrow>
        if b = [] then []
        else case resolve_base_slots db b of
          Some inherited \<Rightarrow> inherited
        | None \<Rightarrow> if list_ex (\<lambda>s. ms_name s = ascii ''meta'') own then [] else [slot_def ''meta'' TInt SLOT_FLAG_CONFIG (SvInt 1)])"

definition append_new_slot :: "manifest_slot \<Rightarrow> manifest_slot list \<Rightarrow> manifest_slot list" where
  "append_new_slot s slots = (if list_ex (\<lambda>x. ms_name x = ms_name s) slots then slots else slots @ [s])"

definition insert_type :: "u8 \<Rightarrow> u8 \<Rightarrow> u8 list option \<Rightarrow> manifest_slot list \<Rightarrow> manifest_db \<Rightarrow> manifest_db" where
  "insert_type kit_index ty base own db =
     db\<lparr>md_types := AList.update (kit_index, ty) (fold append_new_slot own (inherited_slots db base own)) (md_types db)\<rparr>"

section \<open>Reading a manifest\<close>

type_synonym xml_attrs = "(u8 list \<times> u8 list) list"

datatype xml_event = XmlStart "u8 list" xml_attrs | XmlEmpty "u8 list" xml_attrs | XmlEnd "u8 list" | XmlOther

record manifest_parse =
  mp_db :: manifest_db
  mp_count :: usize
  mp_type :: "u8 option"
  mp_base :: "u8 list option"
  mp_slots :: "manifest_slot list"

text \<open>\<open>from_utf8(..).unwrap_or("")\<close>.\<close>

definition text_or_empty :: "u8 list \<Rightarrow> u8 list" where
  "text_or_empty bs = (if utf8_valid bs then bs else [])"

definition type_attrs :: "xml_attrs \<Rightarrow> u8 option \<times> u8 list option \<times> u8 list" where
  "type_attrs attrs = fold (\<lambda>(k, v) (tid, base, name).
     let k = text_or_empty k; v = text_or_empty v
     in if k = ascii ''id'' then (parse_u8 v, base, name)
        else if k = ascii ''base'' then (tid, Some v, name)
        else if k = ascii ''name'' then (tid, base, v)
        else (tid, base, name)) attrs (None, None, [])"

definition slot_attrs :: "xml_attrs \<Rightarrow> u8 list \<times> u8 list \<times> u8 list \<times> u8 list option" where
  "slot_attrs attrs = fold (\<lambda>(k, v) (name, ty, flags, dflt).
     let k = text_or_empty k; v = text_or_empty v
     in if k = ascii ''name'' then (v, ty, flags, dflt)
        else if k = ascii ''type'' then (name, v, flags, dflt)
        else if k = ascii ''flags'' then (name, ty, v, dflt)
        else if k = ascii ''default'' then (name, ty, flags, Some v)
        else (name, ty, flags, dflt)) attrs ([], [], [], None)"

definition flush_type :: "u8 \<Rightarrow> manifest_parse \<Rightarrow> manifest_parse" where
  "flush_type kit_index p = (case mp_type p of
      Some ty \<Rightarrow> p\<lparr>mp_db := insert_type kit_index ty (mp_base p) (mp_slots p) (mp_db p), mp_count := mp_count p + 1, mp_type := None\<rparr>
    | None \<Rightarrow> p)"

definition note_type_name :: "u8 \<Rightarrow> u8 list \<Rightarrow> u8 \<Rightarrow> manifest_parse \<Rightarrow> manifest_parse" where
  "note_type_name kit_index name ty p =
     (if name = [] then p else p\<lparr>mp_db := (mp_db p)\<lparr>md_type_names := AList.update (kit_index, name) ty (md_type_names (mp_db p))\<rparr>\<rparr>)"

definition open_type :: "u8 \<Rightarrow> xml_attrs \<Rightarrow> bool \<Rightarrow> manifest_parse \<Rightarrow> manifest_parse" where
  "open_type kit_index attrs is_empty p = (case type_attrs attrs of
      (None, base, name) \<Rightarrow> p
    | (Some ty, base, name) \<Rightarrow>
        let p1 = (flush_type kit_index (note_type_name kit_index name ty p))\<lparr>mp_type := Some ty, mp_base := base, mp_slots := []\<rparr>
        in if is_empty then (flush_type kit_index p1)\<lparr>mp_base := None\<rparr> else p1)"

definition read_slot :: "xml_attrs \<Rightarrow> manifest_slot" where
  "read_slot attrs = (case slot_attrs attrs of (name, ty, flags, dflt) \<Rightarrow>
     let t = sedona_type_to_sox ty
     in \<lparr>ms_name = name, ms_type = t, ms_flags = sedona_flags_to_slot_flags flags, ms_default = parse_default_value t dflt\<rparr>)"

definition open_element :: "u8 \<Rightarrow> u8 list \<Rightarrow> xml_attrs \<Rightarrow> bool \<Rightarrow> manifest_parse \<Rightarrow> manifest_parse" where
  "open_element kit_index name attrs is_empty p =
     (let tag = text_or_empty name; p1 = (if tag = ascii ''type'' then open_type kit_index attrs is_empty p else p)
      in if tag = ascii ''slot'' \<and> mp_type p1 \<noteq> None then p1\<lparr>mp_slots := mp_slots p1 @ [read_slot attrs]\<rparr> else p1)"

fun manifest_event :: "u8 \<Rightarrow> xml_event \<Rightarrow> manifest_parse \<Rightarrow> manifest_parse" where
  "manifest_event kit_index (XmlStart name attrs) p = open_element kit_index name attrs False p"
| "manifest_event kit_index (XmlEmpty name attrs) p = open_element kit_index name attrs True p"
| "manifest_event kit_index (XmlEnd name) p =
     (if text_or_empty name = ascii ''type'' then (flush_type kit_index p)\<lparr>mp_base := None, mp_slots := []\<rparr> else p)"
| "manifest_event kit_index XmlOther p = p"

definition parse_kit_manifest :: "xml_event list \<Rightarrow> u8 \<Rightarrow> manifest_db \<Rightarrow> usize \<times> manifest_db" where
  "parse_kit_manifest evs kit_index db =
     (let p = flush_type kit_index (fold (manifest_event kit_index) evs
                \<lparr>mp_db = db, mp_count = 0, mp_type = None, mp_base = None, mp_slots = []\<rparr>)
      in (mp_count p, mp_db p))"

section \<open>The built-in types\<close>

type_synonym hardcoded_type = "u8 \<times> u8 \<times> u8 list \<times> manifest_slot list"

definition type_ConstFloat :: hardcoded_type where
  "type_ConstFloat = (2, 14, ascii ''ConstFloat'',
     [slot_def ''meta'' TInt SLOT_FLAG_CONFIG (SvInt 1),
      slot_def ''out'' TFloat SLOT_FLAG_CONFIG (SvFloat 0),
      slot_def ''set'' TFloat SLOT_FLAG_ACTION (SvFloat 0),
      slot_def ''setNull'' TVoid SLOT_FLAG_ACTION (SvNull)])"

definition type_ConstInt :: hardcoded_type where
  "type_ConstInt = (2, 15, ascii ''ConstInt'',
     [slot_def ''meta'' TInt SLOT_FLAG_CONFIG (SvInt 1),
      slot_def ''out'' TInt SLOT_FLAG_CONFIG (SvInt 0),
      slot_def ''set'' TInt SLOT_FLAG_ACTION (SvInt 0)])"

definition type_ConstBool :: hardcoded_type where
  "type_ConstBool = (2, 13, ascii ''ConstBool'',
     [slot_def ''meta'' TInt SLOT_FLAG_CONFIG (SvInt 1),
      slot_def ''out'' TBool SLOT_FLAG_CONFIG (SvBool False),
      slot_def ''setTrue'' TVoid SLOT_FLAG_ACTION (SvNull),
      slot_def ''setFalse'' TVoid SLOT_FLAG_ACTION (SvNull),
      slot_def ''setNull'' TVoid SLOT_FLAG_ACTION (SvNull)])"

definition type_Add2 :: hardcoded_type where
  "type_Add2 = (2, 3, ascii ''Add2'',
     [slot_def ''meta'' TInt SLOT_FLAG_CONFIG (SvInt 1),
      slot_def ''out'' TFloat SLOT_FLAG_RUNTIME (SvFloat 0),
      slot_def ''in1'' TFloat SLOT_FLAG_RUNTIME (SvFloat 0),
      slot_def ''in2'' TFloat SLOT_FLAG_RUNTIME (SvFloat 0)])"

definition type_Sub2 :: hardcoded_type where
  "type_Sub2 = (2, 49, ascii ''Sub2'',
     [slot_def ''meta'' TInt SLOT_FLAG_CONFIG (SvInt 1),
      slot_def ''out'' TFloat SLOT_FLAG_RUNTIME (SvFloat 0),
      slot_def ''in1'' TFloat SLOT_FLAG_RUNTIME (SvFloat 0),
      slot_def ''in2'' TFloat SLOT_FLAG_RUNTIME (SvFloat 0)])"

definition type_Mul2 :: hardcoded_type where
  "type_Mul2 = (2, 37, ascii ''Mul2'',
     [slot_def ''meta'' TInt SLOT_FLAG_CONFIG (SvInt 1),
      slot_def ''out'' TFloat SLOT_FLAG_RUNTIME (SvFloat 0),
      slot_def ''in1'' TFloat SLOT_FLAG_RUNTIME (SvFloat 0),
      slot_def ''in2'' TFloat SLOT_FLAG_RUNTIME (SvFloat 0)])"

definition type_Div2 :: hardcoded_type where
  "type_Div2 = (2, 18, ascii ''Div2'',
     [slot_def ''meta'' TInt SLOT_FLAG_CONFIG (SvInt 1),
      slot_def ''out'' TFloat SLOT_FLAG_RUNTIME (SvFloat 0),
      slot_def ''in1'' TFloat SLOT_FLAG_RUNTIME (SvFloat 0),
      slot_def ''in2'' TFloat SLOT_FLAG_RUNTIME (SvFloat 0),
      slot_def ''div0'' TBool SLOT_FLAG_RUNTIME (SvBool False)])"

definition type_WriteBool :: hardcoded_type where
  "type_WriteBool = (2, 56, ascii ''WriteBool'',
     [slot_def ''meta'' TInt SLOT_FLAG_CONFIG (SvInt 1),
      slot_def ''in'' TBool SLOT_FLAG_CONFIG (SvBool False),
      slot_def ''out'' TBool SLOT_FLAG_RUNTIME (SvBool False),
      slot_def ''setTrue'' TVoid SLOT_FLAG_ACTION (SvNull),
      slot_def ''setFalse'' TVoid SLOT_FLAG_ACTION (SvNull),
      slot_def ''setNull'' TVoid SLOT_FLAG_ACTION (SvNull)])"

definition type_WriteFloat :: hardcoded_type where
  "type_WriteFloat = (2, 57, ascii ''WriteFloat'',
     [slot_def ''meta'' TInt SLOT_FLAG_CONFIG (SvInt 1),
      slot_def ''in'' TFloat SLOT_FLAG_CONFIG (SvFloat 0),
      slot_def ''out'' TFloat SLOT_FLAG_RUNTIME (SvFloat 0),
      slot_def ''set'' TFloat SLOT_FLAG_ACTION (SvFloat 0),
      slot_def ''setNull'' TVoid SLOT_FLAG_ACTION (SvNull)])"

definition type_WriteInt :: hardcoded_type where
  "type_WriteInt = (2, 58, ascii ''WriteInt'',
     [slot_def ''meta'' TInt SLOT_FLAG_CONFIG (SvInt 1),
      slot_def ''in'' TInt SLOT_FLAG_CONFIG (SvInt 0),
      slot_def ''out'' TInt SLOT_FLAG_RUNTIME (SvInt 0),
      slot_def ''set'' TInt SLOT_FLAG_ACTION (SvInt 0)])"

definition type_Add4 :: hardcoded_type where
  "type_Add4 = (2, 4, ascii ''Add4'',
     [slot_def ''meta'' TInt SLOT_FLAG_CONFIG (SvInt 1),
      slot_def ''out'' TFloat SLOT_FLAG_RUNTIME (SvFloat 0),
      slot_def ''in1'' TFloat SLOT_FLAG_RUNTIME (SvFloat 0),
      slot_def ''in2'' TFloat SLOT_FLAG_RUNTIME (SvFloat 0),
      slot_def ''in3'' TFloat SLOT_FLAG_RUNTIME (SvFloat 0),
      slot_def ''in4'' TFloat SLOT_FLAG_RUNTIME (SvFloat 0)])"

definition type_Sub4 :: hardcoded_type where
  "type_Sub4 = (2, 50, ascii ''Sub4'',
     [slot_def ''meta'' TInt SLOT_FLAG_CONFIG (SvInt 1),
      slot_def ''out'' TFloat SLOT_FLAG_RUNTIME (SvFloat 0),
      slot_def ''in1'' TFloat SLOT_FLAG_RUNTIME (SvFloat 0),
      slot_def ''in2'' TFloat SLOT_FLAG_RUNTIME (SvFloat 0),
      slot_def ''in3'' TFloat SLOT_FLAG_RUNTIME (SvFloat 0),
      slot_def ''in4'' TFloat SLOT_FLAG_RUNTIME (SvFloat 0)])"

definition type_Mul4 :: hardcoded_type where
  "type_Mul4 = (2, 38, ascii ''Mul4'',
     [slot_def ''meta'' TInt SLOT_FLAG_CONFIG (SvInt 1),
      slot_def ''out'' TFloat SLOT_FLAG_RUNTIME (SvFloat 0),
      slot_def ''in1'' TFloat SLOT_FLAG_RUNTIME (SvFloat 0),
      slot_def ''in2'' TFloat SLOT_FLAG_RUNTIME (SvFloat 0),
      slot_def ''in3'' TFloat SLOT_FLAG_RUNTIME (SvFloat 0),
      slot_def ''in4'' TFloat SLOT_FLAG_RUNTIME (SvFloat 0)])"

definition type_Neg :: hardcoded_type where
  "type_Neg = (2, 39, ascii ''Neg'',
     [slot_def ''meta'' TInt SLOT_FLAG_CONFIG (SvInt 1),
      slot_def ''out'' TFloat SLOT_FLAG_RUNTIME (SvFloat 0),
      slot_def ''in'' TFloat SLOT_FLAG_RUNTIME (SvFloat 0)])"

definition type_FloatOffset :: hardcoded_type where
  "type_FloatOffset = (2, 23, ascii ''FloatOffset'',
     [slot_def ''meta'' TInt SLOT_FLAG_CONFIG (SvInt 1),
      slot_def ''out'' TFloat SLOT_FLAG_RUNTIME (SvFloat 0),
      slot_def ''in'' TFloat SLOT_FLAG_RUNTIME (SvFloat 0),
      slot_def ''offset'' TFloat SLOT_FLAG_CONFIG (SvFloat 0)])"

definition type_Max :: hardcoded_type where
  "type_Max = (2, 34, ascii ''Max'',
     [slot_def ''meta'' TInt SLOT_FLAG_CONFIG (SvInt 1),
      slot_def ''out'' TFloat SLOT_FLAG_RUNTIME (SvFloat 0),
      slot_def ''in1'' TFloat SLOT_FLAG_RUNTIME (SvFloat 0),
      slot_def ''in2'' TFloat SLOT_FLAG_RUNTIME (SvFloat 0)])"

definition type_Min :: hardcoded_type where
  "type_Min = (2, 35, ascii ''Min'',
     [slot_def ''meta'' TInt SLOT_FLAG_CONFIG (SvInt 1),
      slot_def ''out'' TFloat SLOT_FLAG_RUNTIME (SvFloat 0),
      slot_def ''in1'' TFloat SLOT_FLAG_RUNTIME (SvFloat 0),
      slot_def ''in2'' TFloat SLOT_FLAG_RUNTIME (SvFloat 0)])"

definition type_Limiter :: hardcoded_type where
  "type_Limiter = (2, 32, ascii ''Limiter'',
     [slot_def ''meta'' TInt SLOT_FLAG_CONFIG (SvInt 1),
      slot_def ''out'' TFloat SLOT_FLAG_RUNTIME (SvFloat 0),
      slot_def ''in'' TFloat SLOT_FLAG_RUNTIME (SvFloat 0),
      slot_def ''lowLmt'' TFloat SLOT_FLAG_CONFIG (SvFloat 0),
      slot_def ''highLmt'' TFloat SLOT_FLAG_CONFIG (SvFloat 0x42C80000)])"

definition type_Round :: hardcoded_type where
  "type_Round = (2, 47, ascii ''Round'',
     [slot_def ''meta'' TInt SLOT_FLAG_CONFIG (SvInt 1),
      slot_def ''out'' TFloat SLOT_FLAG_RUNTIME (SvFloat 0),
      slot_def ''in'' TFloat SLOT_FLAG_RUNTIME (SvFloat 0),
      slot_def ''decimalPlaces'' TInt SLOT_FLAG_CONFIG (SvInt 2)])"

definition type_And2 :: hardcoded_type where
  "type_And2 = (2, 5, ascii ''And2'',
     [slot_def ''meta'' TInt SLOT_FLAG_CONFIG (SvInt 1),
      slot_def ''out'' TBool SLOT_FLAG_RUNTIME (SvBool False),
      slot_def ''in1'' TBool SLOT_FLAG_RUNTIME (SvBool False),
      slot_def ''in2'' TBool SLOT_FLAG_RUNTIME (SvBool False)])"

definition type_And4 :: hardcoded_type where
  "type_And4 = (2, 6, ascii ''And4'',
     [slot_def ''meta'' TInt SLOT_FLAG_CONFIG (SvInt 1),
      slot_def ''out'' TBool SLOT_FLAG_RUNTIME (SvBool False),
      slot_def ''in1'' TBool SLOT_FLAG_RUNTIME (SvBool False),
      slot_def ''in2'' TBool SLOT_FLAG_RUNTIME (SvBool False),
      slot_def ''in3'' TBool SLOT_FLAG_RUNTIME (SvBool False),
      slot_def ''in4'' TBool SLOT_FLAG_RUNTIME (SvBool False)])"

definition type_Or2 :: hardcoded_type where
  "type_Or2 = (2, 42, ascii ''Or2'',
     [slot_def ''meta'' TInt SLOT_FLAG_CONFIG (SvInt 1),
      slot_def ''out'' TBool SLOT_FLAG_RUNTIME (SvBool False),
      slot_def ''in1'' TBool SLOT_FLAG_RUNTIME (SvBool False),
      slot_def ''in2'' TBool SLOT_FLAG_RUNTIME (SvBool False)])"

definition type_Or4 :: hardcoded_type where
  "type_Or4 = (2, 43, ascii ''Or4'',
     [slot_def ''meta'' TInt SLOT_FLAG_CONFIG (SvInt 1),
      slot_def ''out'' TBool SLOT_FLAG_RUNTIME (SvBool False),
      slot_def ''in1'' TBool SLOT_FLAG_RUNTIME (SvBool False),
      slot_def ''in2'' TBool SLOT_FLAG_RUNTIME (SvBool False),
      slot_def ''in3'' TBool SLOT_FLAG_RUNTIME (SvBool False),
      slot_def ''in4'' TBool SLOT_FLAG_RUNTIME (SvBool False)])"

definition type_Not :: hardcoded_type where
  "type_Not = (2, 40, ascii ''Not'',
     [slot_def ''meta'' TInt SLOT_FLAG_CONFIG (SvInt 1),
      slot_def ''out'' TBool SLOT_FLAG_RUNTIME (SvBool False),
      slot_def ''in'' TBool SLOT_FLAG_RUNTIME (SvBool False)])"

definition type_Xor :: hardcoded_type where
  "type_Xor = (2, 59, ascii ''Xor'',
     [slot_def ''meta'' TInt SLOT_FLAG_CONFIG (SvInt 1),
      slot_def ''out'' TBool SLOT_FLAG_RUNTIME (SvBool False),
      slot_def ''in1'' TBool SLOT_FLAG_RUNTIME (SvBool False),
      slot_def ''in2'' TBool SLOT_FLAG_RUNTIME (SvBool False)])"

definition type_Cmpr :: hardcoded_type where
  "type_Cmpr = (2, 12, ascii ''Cmpr'',
     [slot_def ''meta'' TInt SLOT_FLAG_CONFIG (SvInt 1),
      slot_def ''xgy'' TBool SLOT_FLAG_RUNTIME (SvBool False),
      slot_def ''xey'' TBool SLOT_FLAG_RUNTIME (SvBool False),
      slot_def ''xly'' TBool SLOT_FLAG_RUNTIME (SvBool False),
      slot_def ''x'' TFloat SLOT_FLAG_RUNTIME (SvFloat 0),
      slot_def ''y'' TFloat SLOT_FLAG_RUNTIME (SvFloat 0)])"

definition type_B2P :: hardcoded_type where
  "type_B2P = (2, 10, ascii ''B2P'',
     [slot_def ''meta'' TInt SLOT_FLAG_CONFIG (SvInt 1),
      slot_def ''out'' TBool SLOT_FLAG_RUNTIME (SvBool False),
      slot_def ''in'' TBool SLOT_FLAG_RUNTIME (SvBool False)])"

definition type_F2I :: hardcoded_type where
  "type_F2I = (2, 22, ascii ''F2I'',
     [slot_def ''meta'' TInt SLOT_FLAG_CONFIG (SvInt 1),
      slot_def ''out'' TInt SLOT_FLAG_RUNTIME (SvInt 0),
      slot_def ''in'' TFloat SLOT_FLAG_RUNTIME (SvFloat 0)])"

definition type_I2F :: hardcoded_type where
  "type_I2F = (2, 26, ascii ''I2F'',
     [slot_def ''meta'' TInt SLOT_FLAG_CONFIG (SvInt 1),
      slot_def ''out'' TFloat SLOT_FLAG_RUNTIME (SvFloat 0),
      slot_def ''in'' TInt SLOT_FLAG_RUNTIME (SvInt 0)])"

definition type_ASW :: hardcoded_type where
  "type_ASW = (2, 1, ascii ''ASW'',
     [slot_def ''meta'' TInt SLOT_FLAG_CONFIG (SvInt 1),
      slot_def ''out'' TFloat SLOT_FLAG_RUNTIME (SvFloat 0),
      slot_def ''sel'' TBool SLOT_FLAG_RUNTIME (SvBool False),
      slot_def ''in1'' TFloat SLOT_FLAG_RUNTIME (SvFloat 0),
      slot_def ''in2'' TFloat SLOT_FLAG_RUNTIME (SvFloat 0)])"

definition type_BSW :: hardcoded_type where
  "type_BSW = (2, 11, ascii ''BSW'',
     [slot_def ''meta'' TInt SLOT_FLAG_CONFIG (SvInt 1),
      slot_def ''out'' TBool SLOT_FLAG_RUNTIME (SvBool False),
      slot_def ''sel'' TBool SLOT_FLAG_RUNTIME (SvBool False),
      slot_def ''in1'' TBool SLOT_FLAG_RUNTIME (SvBool False),
      slot_def ''in2'' TBool SLOT_FLAG_RUNTIME (SvBool False)])"

definition type_ISW :: hardcoded_type where
  "type_ISW = (2, 28, ascii ''ISW'',
     [slot_def ''meta'' TInt SLOT_FLAG_CONFIG (SvInt 1),
      slot_def ''out'' TInt SLOT_FLAG_RUNTIME (SvInt 0),
      slot_def ''sel'' TBool SLOT_FLAG_RUNTIME (SvBool False),
      slot_def ''in1'' TInt SLOT_FLAG_RUNTIME (SvInt 0),
      slot_def ''in2'' TInt SLOT_FLAG_RUNTIME (SvInt 0)])"

definition type_Hysteresis :: hardcoded_type where
  "type_Hysteresis = (2, 25, ascii ''Hysteresis'',
     [slot_def ''meta'' TInt SLOT_FLAG_CONFIG (SvInt 1),
      slot_def ''out'' TBool SLOT_FLAG_RUNTIME (SvBool False),
      slot_def ''in'' TFloat SLOT_FLAG_RUNTIME (SvFloat 0),
      slot_def ''rising'' TFloat SLOT_FLAG_CONFIG (SvFloat 0x42960000),
      slot_def ''falling'' TFloat SLOT_FLAG_CONFIG (SvFloat 0x428C0000)])"

definition type_SRLatch :: hardcoded_type where
  "type_SRLatch = (2, 48, ascii ''SRLatch'',
     [slot_def ''meta'' TInt SLOT_FLAG_CONFIG (SvInt 1),
      slot_def ''out'' TBool SLOT_FLAG_RUNTIME (SvBool False),
      slot_def ''set'' TBool SLOT_FLAG_RUNTIME (SvBool False),
      slot_def ''reset'' TBool SLOT_FLAG_RUNTIME (SvBool False)])"

definition type_Reset :: hardcoded_type where
  "type_Reset = (2, 46, ascii ''Reset'',
     [slot_def ''meta'' TInt SLOT_FLAG_CONFIG (SvInt 1),
      slot_def ''out'' TFloat SLOT_FLAG_RUNTIME (SvFloat 0),
      slot_def ''in'' TFloat SLOT_FLAG_RUNTIME (SvFloat 0),
      slot_def ''inLow'' TFloat SLOT_FLAG_CONFIG (SvFloat 0),
      slot_def ''inHigh'' TFloat SLOT_FLAG_CONFIG (SvFloat 0x42C80000),
      slot_def ''outLow'' TFloat SLOT_FLAG_CONFIG (SvFloat 0),
      slot_def ''outHigh'' TFloat SLOT_FLAG_CONFIG (SvFloat 0x42C80000)])"

definition type_LSeq :: hardcoded_type where
  "type_LSeq = (2, 31, ascii ''LSeq'',
     [slot_def ''meta'' TInt SLOT_FLAG_CONFIG (SvInt 1),
      slot_def ''out'' TInt SLOT_FLAG_RUNTIME (SvInt 0),
      slot_def ''in'' TFloat SLOT_FLAG_RUNTIME (SvFloat 0),
      slot_def ''numStages'' TInt SLOT_FLAG_CONFIG (SvInt 4),
      slot_def ''rampTime'' TFloat SLOT_FLAG_CONFIG (SvFloat 0)])"

definition type_DlyOn :: hardcoded_type where
  "type_DlyOn = (2, 20, ascii ''DlyOn'',
     [slot_def ''meta'' TInt SLOT_FLAG_CONFIG (SvInt 1),
      slot_def ''out'' TBool SLOT_FLAG_RUNTIME (SvBool False),
      slot_def ''in'' TBool SLOT_FLAG_RUNTIME (SvBool False),
      slot_def ''delay'' TFloat SLOT_FLAG_CONFIG (SvFloat 0x40A00000)])"

definition type_DlyOff :: hardcoded_type where
  "type_DlyOff = (2, 19, ascii ''DlyOff'',
     [slot_def ''meta'' TInt SLOT_FLAG_CONFIG (SvInt 1),
      slot_def ''out'' TBool SLOT_FLAG_RUNTIME (SvBool False),
      slot_def ''in'' TBool SLOT_FLAG_RUNTIME (SvBool False),
      slot_def ''delay'' TFloat SLOT_FLAG_CONFIG (SvFloat 0x40A00000)])"

definition type_Count :: hardcoded_type where
  "type_Count = (2, 16, ascii ''Count'',
     [slot_def ''meta'' TInt SLOT_FLAG_CONFIG (SvInt 1),
      slot_def ''out'' TInt SLOT_FLAG_RUNTIME (SvInt 0),
      slot_def ''in'' TBool SLOT_FLAG_RUNTIME (SvBool False),
      slot_def ''preset'' TInt SLOT_FLAG_CONFIG (SvInt 0)])"

definition type_Ramp :: hardcoded_type where
  "type_Ramp = (2, 44, ascii ''Ramp'',
     [slot_def ''meta'' TInt SLOT_FLAG_CONFIG (SvInt 1),
      slot_def ''out'' TFloat SLOT_FLAG_RUNTIME (SvFloat 0),
      slot_def ''min'' TFloat SLOT_FLAG_CONFIG (SvFloat 0),
      slot_def ''max'' TFloat SLOT_FLAG_CONFIG (SvFloat 0x42C80000),
      slot_def ''step'' TFloat SLOT_FLAG_CONFIG (SvFloat 0x3F800000)])"

definition type_Tstat :: hardcoded_type where
  "type_Tstat = (2, 54, ascii ''Tstat'',
     [slot_def ''meta'' TInt SLOT_FLAG_CONFIG (SvInt 1),
      slot_def ''diff'' TFloat SLOT_FLAG_CONFIG (SvFloat 0x40000000),
      slot_def ''isHeating'' TBool SLOT_FLAG_CONFIG (SvBool True),
      slot_def ''sp'' TFloat SLOT_FLAG_CONFIG (SvFloat 0x42900000),
      slot_def ''cv'' TFloat SLOT_FLAG_RUNTIME (SvFloat 0),
      slot_def ''out'' TBool SLOT_FLAG_RUNTIME (SvBool False),
      slot_def ''raise'' TBool SLOT_FLAG_RUNTIME (SvBool False),
      slot_def ''lower'' TBool SLOT_FLAG_RUNTIME (SvBool False)])"

definition type_UpDn :: hardcoded_type where
  "type_UpDn = (2, 55, ascii ''UpDn'',
     [slot_def ''meta'' TInt SLOT_FLAG_CONFIG (SvInt 1),
      slot_def ''out'' TFloat SLOT_FLAG_RUNTIME (SvFloat 0),
      slot_def ''up'' TBool SLOT_FLAG_RUNTIME (SvBool False),
      slot_def ''dn'' TBool SLOT_FLAG_RUNTIME (SvBool False),
      slot_def ''step'' TFloat SLOT_FLAG_CONFIG (SvFloat 0x3F800000),
      slot_def ''min'' TFloat SLOT_FLAG_CONFIG (SvFloat 0),
      slot_def ''max'' TFloat SLOT_FLAG_CONFIG (SvFloat 0x42C80000)])"

definition hardcoded_types :: "hardcoded_type list" where
  "hardcoded_types =
     [type_ConstFloat, type_ConstInt, type_ConstBool, type_Add2, type_Sub2, type_Mul2, type_Div2, type_WriteBool,
      type_WriteFloat, type_WriteInt, type_Add4, type_Sub4, type_Mul4, type_Neg, type_FloatOffset, type_Max, type_Min,
      type_Limiter, type_Round, type_And2, type_And4, type_Or2, type_Or4, type_Not, type_Xor, type_Cmpr, type_B2P, type_F2I,
      type_I2F, type_ASW, type_BSW, type_ISW, type_Hysteresis, type_SRLatch, type_Reset, type_LSeq, type_DlyOn, type_DlyOff,
      type_Count, type_Ramp, type_Tstat, type_UpDn]"

definition channel_read_slots :: "manifest_slot list" where
  "channel_read_slots =
     [slot_def ''meta'' TInt SLOT_FLAG_CONFIG (SvInt 1),
      slot_def ''channelId'' TInt SLOT_FLAG_CONFIG (SvInt 0),
      slot_def ''out'' TFloat SLOT_FLAG_RUNTIME (SvFloat 0),
      slot_def ''status'' TBuf SLOT_FLAG_RUNTIME (SvStr [])]"

section \<open>Loading\<close>

text \<open>\<open>{:08x}\<close>.\<close>

definition hex_digit :: "nat \<Rightarrow> char" where
  "hex_digit n = char_of (if n < 10 then 48 + n else 87 + n)"

definition hex8 :: "u32 \<Rightarrow> string" where
  "hex8 w = map (\<lambda>i. hex_digit (unat w div 16 ^ (7 - i) mod 16)) [0..<8]"

definition manifest_file :: "'f sox_fs \<Rightarrow> u8 list \<Rightarrow> 'f \<Rightarrow> kit_info \<Rightarrow> u8 list option" where
  "manifest_file F dir w k =
     (let full = ascii (kit_name k @ ''-'' @ hex8 (kit_checksum k) @ ''.xml''); plain = ascii (kit_name k @ ''.xml'')
      in find (\<lambda>p. fs_exists F p w) [path_join (path_join dir (ascii (kit_name k))) full, path_join dir plain, path_join dir full])"

definition load_kit :: "'f sox_fs \<Rightarrow> (u8 list \<Rightarrow> xml_event list) \<Rightarrow> u8 list \<Rightarrow> 'f \<Rightarrow> nat \<times> kit_info \<Rightarrow> manifest_db \<Rightarrow> manifest_db" where
  "load_kit F xml_events dir w ik db = (case Option.bind (manifest_file F dir w (snd ik)) (\<lambda>p. fs_read F p w) of
      Some text \<Rightarrow> if utf8_valid text then snd (parse_kit_manifest (xml_events text) (of_nat (fst ik)) db) else db
    | None \<Rightarrow> db)"

definition register_type :: "hardcoded_type \<Rightarrow> manifest_db \<Rightarrow> manifest_db" where
  "register_type h db = (case h of (kit_index, ty, name, slots) \<Rightarrow>
     if get_slots db kit_index ty = None
     then db\<lparr>md_types := AList.update (kit_index, ty) slots (md_types db), md_type_names := AList.update (kit_index, name) ty (md_type_names db)\<rparr>
     else db)"

definition register_channel_read :: "manifest_db \<Rightarrow> manifest_db" where
  "register_channel_read db = db\<lparr>md_types := AList.update (1, 100) channel_read_slots (md_types db),
     md_type_names := AList.update (1, ascii ''ChannelRead'') 100 (md_type_names db)\<rparr>"

definition manifest_load :: "'f sox_fs \<Rightarrow> (u8 list \<Rightarrow> xml_event list) \<Rightarrow> u8 list \<Rightarrow> 'f \<Rightarrow> manifest_db" where
  "manifest_load F xml_events dir w =
     fold register_type hardcoded_types (register_channel_read (fold (load_kit F xml_events dir w) (List.enumerate 0 DEFAULT_KITS) manifest_new))"

definition type_count :: "manifest_db \<Rightarrow> usize" where
  "type_count db = length (md_types db)"

definition type_name :: "manifest_db \<Rightarrow> u8 \<Rightarrow> u8 \<Rightarrow> u8 list option" where
  "type_name db kit_id ty = map_option (snd \<circ> fst) (find (\<lambda>((k, name), t). k = kit_id \<and> t = ty) (md_type_names db))"

section \<open>Typed slots\<close>

text \<open>The values that the wire encoding of a type can carry.\<close>

fun has_type :: "u8 \<Rightarrow> slot_value \<Rightarrow> bool" where
  "has_type ty (SvBool _) \<longleftrightarrow> ty = value_type_byte TBool"
| "has_type ty (SvInt _) \<longleftrightarrow> ty \<in> {value_type_byte TInt, value_type_byte TByte, value_type_byte TShort}"
| "has_type ty (SvLong _) \<longleftrightarrow> ty = value_type_byte TLong"
| "has_type ty (SvFloat _) \<longleftrightarrow> ty = value_type_byte TFloat"
| "has_type ty (SvDouble _) \<longleftrightarrow> ty = value_type_byte TDouble"
| "has_type ty (SvStr _) \<longleftrightarrow> ty = value_type_byte TBuf"
| "has_type ty (SvBuf _) \<longleftrightarrow> ty = value_type_byte TBuf"
| "has_type ty SvNull \<longleftrightarrow> ty = value_type_byte TVoid"

definition slots_ok :: "manifest_slot list \<Rightarrow> bool" where
  "slots_ok slots \<longleftrightarrow> distinct (map ms_name slots) \<and> list_all (\<lambda>m. has_type (ms_type m) (ms_default m)) slots"

definition db_ok :: "manifest_db \<Rightarrow> bool" where
  "db_ok db \<longleftrightarrow> (\<forall>k ty slots. get_slots db k ty = Some slots \<longrightarrow> slots_ok slots)"

lemma sox_type_cases: "sedona_type_to_sox s \<in> value_type_byte ` UNIV"
  unfolding sedona_type_to_sox_def by (rule rangeI | split if_split, intro conjI impI)+

lemma default_has_type: "has_type (value_type_byte ty) (default_for_type (value_type_byte ty))"
  by (cases ty) (simp_all add: default_for_type_def)

lemma parsed_has_type: "has_type (value_type_byte ty) (parse_default_value (value_type_byte ty) d)"
  by (cases ty; cases d) (simp_all add: parse_default_value_def default_for_type_def)

lemma read_slot_typed: "has_type (ms_type (read_slot attrs)) (ms_default (read_slot attrs))"
proof -
  obtain name ty flags d where "slot_attrs attrs = (name, ty, flags, d)" by (metis prod.exhaust)
  moreover obtain v where "sedona_type_to_sox ty = value_type_byte v" using sox_type_cases by blast
  ultimately show ?thesis by (simp add: read_slot_def Let_def parsed_has_type)
qed

lemma append_new_slot_ok: "slots_ok slots \<Longrightarrow> has_type (ms_type s) (ms_default s) \<Longrightarrow> slots_ok (append_new_slot s slots)"
  by (auto simp: slots_ok_def append_new_slot_def list_ex_iff)

lemma fold_append_ok:
  "slots_ok slots \<Longrightarrow> list_all (\<lambda>m. has_type (ms_type m) (ms_default m)) own \<Longrightarrow> slots_ok (fold append_new_slot own slots)"
  by (induction own arbitrary: slots) (simp_all add: append_new_slot_ok)

lemma inherited_ok: "db_ok db \<Longrightarrow> slots_ok (inherited_slots db base own)"
proof -
  assume ok: "db_ok db"
  have "slots_ok slots" if "resolve_base_slots db b = Some slots" for b slots
    using ok that by (auto simp: db_ok_def resolve_base_slots_def Option.bind_eq_Some_conv split: list.splits)
  then show ?thesis by (auto simp: inherited_slots_def slots_ok_def slot_def_def split: option.splits)
qed

lemma get_slots_update: "get_slots (db\<lparr>md_types := AList.update k v (md_types db)\<rparr>) a b = (if k = (a, b) then Some v else get_slots db a b)"
  by (auto simp: get_slots_def update_conv')

lemma insert_type_ok: "db_ok db \<Longrightarrow> list_all (\<lambda>m. has_type (ms_type m) (ms_default m)) own \<Longrightarrow> db_ok (insert_type k ty base own db)"
  by (auto simp: db_ok_def insert_type_def get_slots_update inherited_ok [unfolded db_ok_def] fold_append_ok split: if_splits)

section \<open>Everything that is loaded is typed\<close>

definition parse_ok :: "manifest_parse \<Rightarrow> bool" where
  "parse_ok p \<longleftrightarrow> db_ok (mp_db p) \<and> list_all (\<lambda>m. has_type (ms_type m) (ms_default m)) (mp_slots p)"

lemma db_ok_names [simp]: "db_ok (db\<lparr>md_type_names := x\<rparr>) = db_ok db"
  by (simp add: db_ok_def get_slots_def)

lemma parse_ok_fields [simp]: "parse_ok (p\<lparr>mp_base := b\<rparr>) = parse_ok p" "parse_ok (p\<lparr>mp_type := t\<rparr>) = parse_ok p"
  by (simp_all add: parse_ok_def)

lemma flush_type_ok: "parse_ok p \<Longrightarrow> parse_ok (flush_type k p)"
  by (auto simp: parse_ok_def flush_type_def insert_type_ok split: option.splits)

lemma open_type_ok: "parse_ok p \<Longrightarrow> parse_ok (open_type k attrs e p)"
proof -
  assume "parse_ok p"
  then have "parse_ok (note_type_name k name ty p)" for name ty by (simp add: note_type_name_def parse_ok_def)
  then have "parse_ok ((flush_type k (note_type_name k name ty p))\<lparr>mp_type := x, mp_base := b, mp_slots := []\<rparr>)" for name ty x b
    using flush_type_ok [of "note_type_name k name ty p" k] by (simp add: parse_ok_def)
  then show ?thesis using \<open>parse_ok p\<close> by (auto simp: open_type_def Let_def flush_type_ok split: prod.splits option.splits)
qed

lemma manifest_event_ok: "parse_ok p \<Longrightarrow> parse_ok (manifest_event k ev p)"
proof -
  assume p: "parse_ok p"
  have "parse_ok (open_element k name attrs e p)" for name attrs e
    using open_type_ok [OF p, of k attrs e] p by (auto simp: open_element_def Let_def parse_ok_def read_slot_typed)
  then show ?thesis using flush_type_ok [OF p, of k] p by (cases ev) (simp_all add: parse_ok_def)
qed

lemma manifest_events_ok: "parse_ok p \<Longrightarrow> parse_ok (fold (manifest_event k) evs p)"
  by (induction evs arbitrary: p) (simp_all add: manifest_event_ok)

lemma parse_kit_manifest_ok: "db_ok db \<Longrightarrow> db_ok (snd (parse_kit_manifest evs k db))"
proof -
  let ?p = "fold (manifest_event k) evs \<lparr>mp_db = db, mp_count = 0, mp_type = None, mp_base = None, mp_slots = []\<rparr>"
  assume "db_ok db"
  then have "parse_ok ?p" by (intro manifest_events_ok) (simp add: parse_ok_def)
  then have "db_ok (mp_db (flush_type k ?p))" using flush_type_ok unfolding parse_ok_def by blast
  then show ?thesis by (simp add: parse_kit_manifest_def Let_def)
qed

lemma load_kits_ok: "db_ok db \<Longrightarrow> db_ok (fold (load_kit F xml_events dir w) kits db)"
  by (induction kits arbitrary: db) (simp_all add: load_kit_def parse_kit_manifest_ok split: option.splits)

lemma hardcoded_ok: "h \<in> set hardcoded_types \<Longrightarrow> slots_ok (snd (snd (snd h)))"
proof -
  have "list_all (\<lambda>h. slots_ok (snd (snd (snd h)))) hardcoded_types" by code_simp
  then show "h \<in> set hardcoded_types \<Longrightarrow> slots_ok (snd (snd (snd h)))" by (simp add: list_all_iff)
qed

lemma register_type_ok: "db_ok db \<Longrightarrow> slots_ok (snd (snd (snd h))) \<Longrightarrow> db_ok (register_type h db)"
  by (auto simp: register_type_def db_ok_def get_slots_def update_conv' split: prod.splits if_splits)

lemma register_all_ok: "db_ok db \<Longrightarrow> (\<And>h. h \<in> set hs \<Longrightarrow> slots_ok (snd (snd (snd h)))) \<Longrightarrow> db_ok (fold register_type hs db)"
  by (induction hs arbitrary: db) (simp_all add: register_type_ok)

lemma register_channel_read_ok: "db_ok db \<Longrightarrow> db_ok (register_channel_read db)"
  by (auto simp: register_channel_read_def db_ok_def get_slots_def update_conv' channel_read_slots_def slots_ok_def slot_def_def ascii_def split: if_splits)

lemma manifest_load_ok: "db_ok (manifest_load F xml_events dir w)"
  unfolding manifest_load_def
  by (intro register_all_ok register_channel_read_ok load_kits_ok hardcoded_ok) (simp add: db_ok_def get_slots_def manifest_new_def)

text \<open>A type that has been registered stays.\<close>

lemma register_keeps: "get_slots db k ty \<noteq> None \<Longrightarrow> get_slots (register_type h db) k ty = get_slots db k ty"
  by (auto simp: register_type_def get_slots_def update_conv' split: prod.splits)

lemma register_adds: "get_slots (register_type (k, ty, name, slots) db) k ty \<noteq> None"
  by (auto simp: register_type_def get_slots_def update_conv')

lemma register_all_keeps: "get_slots db k ty \<noteq> None \<Longrightarrow> get_slots (fold register_type hs db) k ty = get_slots db k ty"
  by (induction hs arbitrary: db) (simp_all add: register_keeps)

lemma register_all_adds: "(k, ty, name, slots) \<in> set hs \<Longrightarrow> get_slots (fold register_type hs db) k ty \<noteq> None"
proof (induction hs arbitrary: db)
  case (Cons h hs)
  show ?case
  proof (cases "(k, ty, name, slots) \<in> set hs")
    case False
    then have "h = (k, ty, name, slots)" using Cons.prems by simp
    then have "get_slots (register_type h db) k ty \<noteq> None" using register_adds by metis
    then show ?thesis by (simp add: register_all_keeps)
  qed (simp add: Cons.IH)
qed simp

section \<open>Evaluation keeps to the declared types\<close>

text \<open>What the evaluation of a component of type \<open>h\<close> may change: slots that exist, by values of their type, and only runtime slots if \<open>strict\<close>.\<close>

definition update_ok :: "bool \<Rightarrow> manifest_slot list \<Rightarrow> nat \<times> slot_value \<Rightarrow> bool" where
  "update_ok strict slots u = (case u of (i, v) \<Rightarrow>
     i < length slots \<and> has_type (ms_type (slots ! i)) v \<and> (strict \<longrightarrow> ms_flags (slots ! i) = SLOT_FLAG_RUNTIME))"

text \<open>\<open>WriteBool\<close>, \<open>WriteFloat\<close> and \<open>WriteInt\<close> declare their input first, and the evaluation takes their slots the other way round.\<close>

definition write_types :: "u8 list" where "write_types = [56, 57, 58]"

definition evaluates_ok :: "hardcoded_type \<Rightarrow> bool" where
  "evaluates_ok h = (case h of (k, ty, name, slots) \<Rightarrow> \<forall>t c us st. vc_type c = ty \<longrightarrow> evaluate t c = (Ok (us, st) :: (unit, _) outcome) \<longrightarrow>
     list_all (update_ok (ty \<notin> set write_types) slots) us)"

lemmas eval_type_lists = arithmetic_types_def unary_types_def logic_types_def select_types_def control_types_def timed_types_def write_types_def

lemmas update_ok_simps = update_ok_def slot_def_def nth_Cons_numeral

lemma evaluates_arithmetic: "list_all evaluates_ok [type_Add2, type_Sub2, type_Mul2, type_Div2, type_Add4, type_Sub4, type_Mul4]"
  by (simp add: evaluates_ok_def type_Add2_def type_Sub2_def type_Mul2_def type_Div2_def type_Add4_def type_Sub4_def type_Mul4_def evaluate_def eval_type_lists
      eval_arithmetic_def update_ok_simps Let_def split: prod.splits)

lemma evaluates_unary: "list_all evaluates_ok [type_Neg, type_FloatOffset, type_Max, type_Min, type_Limiter, type_Round]"
  by (simp add: evaluates_ok_def type_Neg_def type_FloatOffset_def type_Max_def type_Min_def type_Limiter_def type_Round_def evaluate_def eval_type_lists
      eval_unary_def update_ok_simps Let_def split: prod.splits)

lemma evaluates_logic: "list_all evaluates_ok [type_And2, type_And4, type_Or2, type_Or4, type_Not, type_Xor]"
  by (simp add: evaluates_ok_def type_And2_def type_And4_def type_Or2_def type_Or4_def type_Not_def type_Xor_def evaluate_def eval_type_lists
      eval_logic_def update_ok_simps Let_def split: prod.splits)

lemma evaluates_select: "list_all evaluates_ok [type_Cmpr, type_B2P, type_F2I, type_I2F, type_ASW, type_BSW, type_ISW]"
  by (simp add: evaluates_ok_def type_Cmpr_def type_B2P_def type_F2I_def type_I2F_def type_ASW_def type_BSW_def type_ISW_def evaluate_def eval_type_lists
      eval_select_def update_ok_simps Let_def split: prod.splits)

lemma evaluates_control: "list_all evaluates_ok [type_Hysteresis, type_SRLatch, type_Reset, type_WriteFloat, type_WriteBool, type_WriteInt, type_LSeq]"
  by (simp add: evaluates_ok_def type_Hysteresis_def type_SRLatch_def type_Reset_def type_WriteFloat_def type_WriteBool_def type_WriteInt_def type_LSeq_def evaluate_def eval_type_lists
      eval_control_def update_ok_simps Let_def split: prod.splits)

lemma evaluates_dlyoff: "evaluates_ok type_DlyOff"
  by (auto simp: evaluates_ok_def type_DlyOff_def evaluate_def eval_type_lists eval_timed_def update_ok_simps Let_def bindO_Ok_iff split: if_splits)

lemma evaluates_dlyon: "evaluates_ok type_DlyOn"
  by (auto simp: evaluates_ok_def type_DlyOn_def evaluate_def eval_type_lists eval_timed_def update_ok_simps Let_def bindO_Ok_iff split: if_splits)

lemma evaluates_count: "evaluates_ok type_Count"
  by (auto simp: evaluates_ok_def type_Count_def evaluate_def eval_type_lists eval_timed_def update_ok_simps Let_def bindO_Ok_iff split: if_splits)

lemma evaluates_ramp: "evaluates_ok type_Ramp"
  by (auto simp: evaluates_ok_def type_Ramp_def evaluate_def eval_type_lists eval_timed_def update_ok_simps Let_def bindO_Ok_iff split: if_splits)

lemmas evaluates_timed = evaluates_dlyoff evaluates_dlyon evaluates_count evaluates_ramp

lemma evaluates_tstat: "list_all evaluates_ok [type_Tstat, type_UpDn]"
  by (simp add: evaluates_ok_def type_Tstat_def type_UpDn_def evaluate_def eval_type_lists
      eval_tstat_def eval_updn_def update_ok_simps Let_def split: prod.splits)

lemma evaluates_const: "list_all evaluates_ok [type_ConstFloat, type_ConstInt, type_ConstBool]"
  by (simp add: evaluates_ok_def type_ConstFloat_def type_ConstInt_def type_ConstBool_def evaluate_def eval_type_lists
       update_ok_simps Let_def split: prod.splits)

lemma evaluates_hardcoded: "h \<in> set hardcoded_types \<Longrightarrow> evaluates_ok h"
proof -
  have "list_all evaluates_ok hardcoded_types"
    using evaluates_arithmetic evaluates_unary evaluates_logic evaluates_select evaluates_control evaluates_timed evaluates_tstat evaluates_const
    unfolding hardcoded_types_def by (simp only: list.pred_inject simp_thms)
  then show "h \<in> set hardcoded_types \<Longrightarrow> evaluates_ok h" by (simp add: list_all_iff)
qed

lemma hardcoded_keys:
  "map (\<lambda>h. (fst h, fst (snd h))) hardcoded_types =
    [(2, 14), (2, 15), (2, 13), (2, 3), (2, 49), (2, 37), (2, 18), (2, 56), (2, 57), (2, 58), (2, 4), (2, 50), (2, 38),
     (2, 39), (2, 23), (2, 34), (2, 35), (2, 32), (2, 47), (2, 5), (2, 6), (2, 42), (2, 43), (2, 40), (2, 59), (2, 12),
     (2, 10), (2, 22), (2, 26), (2, 1), (2, 11), (2, 28), (2, 25), (2, 48), (2, 46), (2, 31), (2, 20), (2, 19), (2, 16),
     (2, 44), (2, 54), (2, 55)]"
  by (simp add: hardcoded_types_def type_ConstFloat_def type_ConstInt_def type_ConstBool_def type_Add2_def type_Sub2_def type_Mul2_def type_Div2_def
      type_WriteBool_def type_WriteFloat_def type_WriteInt_def type_Add4_def type_Sub4_def type_Mul4_def type_Neg_def
      type_FloatOffset_def type_Max_def type_Min_def type_Limiter_def type_Round_def type_And2_def type_And4_def
      type_Or2_def type_Or4_def type_Not_def type_Xor_def type_Cmpr_def type_B2P_def type_F2I_def
      type_I2F_def type_ASW_def type_BSW_def type_ISW_def type_Hysteresis_def type_SRLatch_def type_Reset_def
      type_LSeq_def type_DlyOn_def type_DlyOff_def type_Count_def type_Ramp_def type_Tstat_def type_UpDn_def)

lemma palette_complete: "is_evaluated c \<Longrightarrow> (vc_kit c, vc_type c) = (1, 100) \<or> (\<exists>name slots. (vc_kit c, vc_type c, name, slots) \<in> set hardcoded_types)"
proof -
  assume ev: "is_evaluated c"
  have "(vc_kit c, vc_type c) = (1, 100) \<or> (vc_kit c, vc_type c) \<in> set (map (\<lambda>h. (fst h, fst (snd h))) hardcoded_types)"
    unfolding hardcoded_keys using ev by (auto simp: is_evaluated_def eval_type_lists)
  then show ?thesis by force
qed

section \<open>Properties\<close>



end
