(* ===== verification/Rest_Filter.thy ===== *)
theory Rest_Filter
  imports Sox_Handlers Text
begin

text \<open>
  The Haystack filters of the REST server (\<open>rest/filter.rs\<close>): the tokenizer, the recursive descent parser and the evaluation of a filter against
  a channel, its dynamic tags and the records that references lead to. A text is the list of its UTF-8 bytes and a character the bytes of
  its encoding. The Unicode tables of the standard library are a record of predicates on the characters that are not ASCII.
\<close>

section \<open>Characters\<close>

record unicode =
  uc_alphabetic :: "u8 list \<Rightarrow> bool"
  uc_numeric :: "u8 list \<Rightarrow> bool"
  uc_whitespace :: "u8 list \<Rightarrow> bool"
  uc_lowercase :: "u8 list \<Rightarrow> u8 list"

definition is_char :: "u8 list \<Rightarrow> char \<Rightarrow> bool" where
  "is_char c x \<longleftrightarrow> c = [of_char x]"

definition is_ascii_digit :: "u8 list \<Rightarrow> bool" where
  "is_ascii_digit c \<longleftrightarrow> (case c of [b] \<Rightarrow> of_char CHR ''0'' \<le> b \<and> b \<le> of_char CHR ''9'' | _ \<Rightarrow> False)"

definition is_alphabetic :: "unicode \<Rightarrow> u8 list \<Rightarrow> bool" where
  "is_alphabetic U c \<longleftrightarrow> (case c of [b] \<Rightarrow> is_ascii_alphabetic b | _ \<Rightarrow> uc_alphabetic U c)"

definition is_alphanumeric :: "unicode \<Rightarrow> u8 list \<Rightarrow> bool" where
  "is_alphanumeric U c \<longleftrightarrow> (case c of [b] \<Rightarrow> is_ascii_alphanumeric b | _ \<Rightarrow> uc_alphabetic U c \<or> uc_numeric U c)"

definition is_space :: "unicode \<Rightarrow> u8 list \<Rightarrow> bool" where
  "is_space U c \<longleftrightarrow> (case c of [b] \<Rightarrow> b = 32 \<or> 9 \<le> b \<and> b \<le> 13 | _ \<Rightarrow> uc_whitespace U c)"

text \<open>\<open>str::to_lowercase\<close>, \<open>str::contains\<close> and \<open>eq_ignore_ascii_case\<close>.\<close>

definition str_lowercase :: "unicode \<Rightarrow> u8 list \<Rightarrow> u8 list" where
  "str_lowercase U s = (if list_all (\<lambda>b. b < 128) s then map ascii_lower s else uc_lowercase U s)"

fun str_contains :: "u8 list \<Rightarrow> u8 list \<Rightarrow> bool" where
  "str_contains [] p \<longleftrightarrow> p = []"
| "str_contains (b # bs) p \<longleftrightarrow> take (length p) (b # bs) = p \<or> str_contains bs p"

definition eq_ignore_case :: "u8 list \<Rightarrow> u8 list \<Rightarrow> bool" where
  "eq_ignore_case a b \<longleftrightarrow> map ascii_lower a = map ascii_lower b"

section \<open>Expressions\<close>

datatype cmp_op = CmpEq | CmpNe | CmpLt | CmpLe | CmpGt | CmpGe

datatype filter_value = FvNum f64 | FvStr "u8 list" | FvBool bool

text \<open>A path is the non-empty list of its segments.\<close>

datatype filter_expr =
  Has "u8 list" | Missing "u8 list" | Not filter_expr | Cmp "u8 list list" cmp_op filter_value
| And filter_expr filter_expr | Or filter_expr filter_expr

datatype token =
  TokName "u8 list" | TokNum f64 | TokStr "u8 list" | TokAnd | TokOr | TokNot | TokEq | TokNe | TokLt | TokLe | TokGt | TokGe
| TokLParen | TokRParen | TokTrue | TokFalse | TokArrow

text \<open>The errors, each with what its message names.\<close>

datatype filter_error =
  UnexpectedChar "u8 list" | InvalidNumber "u8 list" | EmptyFilter | UnexpectedToken usize | TooDeep | UnexpectedEnd | MissingParen
| ExpectedName token | ExpectedNameAfterArrow | PathNeedsOperator | ExpectedValueAfterOp | ExpectedValue token

section \<open>The tokenizer\<close>

text \<open>A quoted text up to its closing quote or the end of the input; a backslash takes the next character as it is.\<close>

fun scan_quoted :: "u8 list list \<Rightarrow> u8 list \<times> u8 list list" where
  "scan_quoted [] = ([], [])"
| "scan_quoted (c # cs) =
     (if is_char c CHR 0x22 then ([], cs)
      else if is_char c CHR 0x5C \<and> cs \<noteq> [] then (case scan_quoted (tl cs) of (s, rest) \<Rightarrow> (hd cs @ s, rest))
      else (case scan_quoted cs of (s, rest) \<Rightarrow> (c @ s, rest)))"

definition word_token :: "u8 list \<Rightarrow> token" where
  "word_token w =
     (if w = ascii ''and'' then TokAnd else if w = ascii ''or'' then TokOr else if w = ascii ''not'' then TokNot
      else if w = ascii ''true'' then TokTrue else if w = ascii ''false'' then TokFalse else TokName w)"

text \<open>The token at the start of the characters, and what follows it.\<close>

definition starts_op :: "u8 list list \<Rightarrow> char \<Rightarrow> char \<Rightarrow> bool" where
  "starts_op cs a b \<longleftrightarrow> (case cs of c # d # _ \<Rightarrow> is_char c a \<and> is_char d b | _ \<Rightarrow> False)"

definition scan_number :: "u8 list list \<Rightarrow> (filter_error, token \<times> u8 list list) outcome" where
  "scan_number cs =
     (let sign = (if is_char (hd cs) CHR ''-'' then [hd cs] else []); body = drop (length sign) cs;
          part = (\<lambda>c. is_ascii_digit c \<or> is_char c CHR ''.''); text = concat (sign @ takeWhile part body)
      in case parse_f64 (text_chars text) of
           Some n \<Rightarrow> Ok (TokNum n, dropWhile part body)
         | None \<Rightarrow> Err (InvalidNumber text))"

definition scan_token :: "unicode \<Rightarrow> u8 list list \<Rightarrow> (filter_error, token \<times> u8 list list) outcome" where
  "scan_token U cs =
     (let c = hd cs; word = (\<lambda>c. is_alphanumeric U c \<or> is_char c CHR ''_'')
      in if is_char c CHR ''('' then Ok (TokLParen, tl cs)
         else if is_char c CHR '')'' then Ok (TokRParen, tl cs)
         else if starts_op cs CHR ''='' CHR ''='' then Ok (TokEq, drop 2 cs)
         else if starts_op cs CHR ''!'' CHR ''='' then Ok (TokNe, drop 2 cs)
         else if is_char c CHR ''<'' then Ok (if starts_op cs CHR ''<'' CHR ''='' then (TokLe, drop 2 cs) else (TokLt, tl cs))
         else if is_char c CHR ''>'' then Ok (if starts_op cs CHR ''>'' CHR ''='' then (TokGe, drop 2 cs) else (TokGt, tl cs))
         else if starts_op cs CHR ''-'' CHR ''>'' then Ok (TokArrow, drop 2 cs)
         else if is_char c CHR 0x22 then (case scan_quoted (tl cs) of (s, rest) \<Rightarrow> Ok (TokStr s, rest))
         else if is_ascii_digit c \<or> is_char c CHR ''-'' \<and> tl cs \<noteq> [] \<and> is_ascii_digit (hd (tl cs)) then scan_number cs
         else if is_alphabetic U c \<or> is_char c CHR ''_'' then Ok (word_token (concat (takeWhile word cs)), dropWhile word cs)
         else Err (UnexpectedChar c))"

lemma scan_quoted_length: "length (snd (scan_quoted cs)) \<le> length cs"
  by (induction cs rule: scan_quoted.induct) (auto split: prod.splits)

lemma dropWhile_first: "P (hd cs) \<Longrightarrow> cs \<noteq> [] \<Longrightarrow> length (dropWhile P cs) < length cs"
  by (cases cs) (simp_all add: length_dropWhile_le less_Suc_eq_le)

lemma scan_number_shorter:
  assumes "scan_number cs = Ok (t, rest)" "cs \<noteq> []" "is_ascii_digit (hd cs) \<or> is_char (hd cs) CHR ''-''"
  shows "length rest < length cs"
proof -
  obtain c ds where cs: "cs = c # ds" using assms(2) by (cases cs) auto
  show ?thesis using assms(1,3) length_dropWhile_le [of _ ds] unfolding cs
    by (auto simp: scan_number_def Let_def less_Suc_eq_le split: option.splits if_splits)
qed

lemma scan_token_shorter: "scan_token U cs = Ok (t, rest) \<Longrightarrow> cs \<noteq> [] \<Longrightarrow> length rest < length cs"
proof -
  let ?word = "\<lambda>c. is_alphanumeric U c \<or> is_char c CHR ''_''"
  assume run: "scan_token U cs = Ok (t, rest)" and "cs \<noteq> []"
  then obtain c ds where cs: "cs = c # ds" by (cases cs) auto
  have quoted: "length r \<le> length ds" if "scan_quoted ds = (s, r)" for s r using scan_quoted_length [of ds] that by simp
  have number: "length rest < length cs" if "scan_number cs = Ok (t, rest)" "is_ascii_digit c \<or> is_char c CHR ''-''"
    using scan_number_shorter [OF that(1)] that(2) by (simp add: cs)
  have word: "length (dropWhile ?word cs) < length cs" if "is_alphabetic U c \<or> is_char c CHR ''_''"
  proof (rule dropWhile_first)
    show "?word (hd cs)" using that
      by (auto simp: cs is_alphabetic_def is_alphanumeric_def is_ascii_alphanumeric_def split: list.splits)
  qed (simp add: cs)
  show ?thesis
  proof (cases "scan_number cs = Ok (t, rest) \<and> (is_ascii_digit c \<or> is_char c CHR ''-'')")
    case False
    then have "rest = ds \<or> rest = drop 2 cs \<or> (\<exists>s. scan_quoted ds = (s, rest)) \<or> (is_alphabetic U c \<or> is_char c CHR ''_'') \<and> rest = dropWhile ?word cs"
      using run unfolding scan_token_def Let_def by (simp only: cs list.sel split: if_split_asm prod.splits) blast+
    then show ?thesis using quoted word by (auto simp: cs less_Suc_eq_le)
  qed (use number in blast)
qed

function tokens_of :: "unicode \<Rightarrow> u8 list list \<Rightarrow> (filter_error, token list) outcome" where
  "tokens_of U cs =
     (if cs = [] then Ok []
      else if is_space U (hd cs) then tokens_of U (tl cs)
      else case scan_token U cs of
        Ok (t, rest) \<Rightarrow> bindO (tokens_of U rest) (\<lambda>ts. Ok (t # ts))
      | Err e \<Rightarrow> Err e
      | Panic \<Rightarrow> Panic)"
  by pat_completeness auto

termination
  by (relation "measure (\<lambda>(U, cs). length cs)") (use scan_token_shorter in auto)

declare tokens_of.simps [simp del]

definition tokenize :: "unicode \<Rightarrow> u8 list \<Rightarrow> (filter_error, token list) outcome" where
  "tokenize U input = tokens_of U (utf8_chars input)"

section \<open>The parser\<close>

text \<open>
  The position in the tokens is the list of those that are left. The two loops over operators are one function of the operator and of the parser
  of their operands. A loop goes on as long as its operands do not give tokens back; that none does is shown below, so that the branch
  \<open>Panic\<close>, which stands for a loop that does not end, is never taken.
\<close>

definition MAX_PARSE_DEPTH :: usize where "MAX_PARSE_DEPTH = 32"

type_synonym parser = "token list \<Rightarrow> (filter_error, filter_expr \<times> token list) outcome"

function operator_loop :: "token \<Rightarrow> (filter_expr \<Rightarrow> filter_expr \<Rightarrow> filter_expr) \<Rightarrow> parser \<Rightarrow> filter_expr \<Rightarrow> parser" where
  "operator_loop op join p left ts =
     (if ts \<noteq> [] \<and> hd ts = op then
        case p (tl ts) of
          Ok (right, rest) \<Rightarrow> if length rest \<le> length (tl ts) then operator_loop op join p (join left right) rest else Panic
        | Err e \<Rightarrow> Err e
        | Panic \<Rightarrow> Panic
      else Ok (left, ts))"
  by pat_completeness auto

termination
  by (relation "measure (\<lambda>(op, join, p, left, ts). length ts)") (auto simp: neq_Nil_conv)

declare operator_loop.simps [simp del]

definition operands :: "token \<Rightarrow> (filter_expr \<Rightarrow> filter_expr \<Rightarrow> filter_expr) \<Rightarrow> parser \<Rightarrow> parser" where
  "operands op join p ts = bindO (p ts) (\<lambda>(left, rest). operator_loop op join p left rest)"

text \<open>\<open>parse_and\<close> and \<open>parse_or\<close> over a parser of terms.\<close>

definition parse_and :: "parser \<Rightarrow> parser" where
  "parse_and term = operands TokAnd And term"

definition parse_or :: "usize \<Rightarrow> parser \<Rightarrow> parser" where
  "parse_or depth term ts = (if depth > MAX_PARSE_DEPTH then Err TooDeep else operands TokOr Or (parse_and term) ts)"

function path_segments :: "token list \<Rightarrow> (filter_error, u8 list list \<times> token list) outcome" where
  "path_segments ts =
     (if ts \<noteq> [] \<and> hd ts = TokArrow then
        case tl ts of
          TokName n # rest \<Rightarrow> bindO (path_segments rest) (\<lambda>(ns, rest). Ok (n # ns, rest))
        | _ \<Rightarrow> Err ExpectedNameAfterArrow
      else Ok ([], ts))"
  by pat_completeness auto

termination
  by (relation "measure length") (auto simp: neq_Nil_conv)

declare path_segments.simps [simp del]

fun cmp_token :: "token \<Rightarrow> cmp_op option" where
  "cmp_token TokEq = Some CmpEq" | "cmp_token TokNe = Some CmpNe" | "cmp_token TokLt = Some CmpLt"
| "cmp_token TokLe = Some CmpLe" | "cmp_token TokGt = Some CmpGt" | "cmp_token TokGe = Some CmpGe" | "cmp_token _ = None"

fun value_token :: "token \<Rightarrow> filter_value option" where
  "value_token (TokNum n) = Some (FvNum n)" | "value_token (TokStr s) = Some (FvStr s)" | "value_token TokTrue = Some (FvBool True)"
| "value_token TokFalse = Some (FvBool False)" | "value_token _ = None"

definition marker :: "u8 list list \<Rightarrow> parser" where
  "marker path ts = (if length path = 1 then Ok (Has (hd path), ts) else Err PathNeedsOperator)"

text \<open>A comparison or a marker; the first token exists when it is called.\<close>

definition parse_cmp :: parser where
  "parse_cmp ts = (case ts of
      TokName first # ts1 \<Rightarrow> bindO (path_segments ts1) (\<lambda>(more, ts2). (case ts2 of
          [] \<Rightarrow> marker (first # more) ts2
        | op # ts3 \<Rightarrow> (case cmp_token op of
            None \<Rightarrow> marker (first # more) ts2
          | Some rel \<Rightarrow> (case ts3 of
              [] \<Rightarrow> Err ExpectedValueAfterOp
            | v # ts4 \<Rightarrow> (case value_token v of Some val \<Rightarrow> Ok (Cmp (first # more) rel val, ts4) | None \<Rightarrow> Err (ExpectedValue v))))))
    | other # _ \<Rightarrow> Err (ExpectedName other)
    | [] \<Rightarrow> Panic)"

fun negate :: "filter_expr \<Rightarrow> filter_expr" where
  "negate (Has name) = Missing name"
| "negate e = Not e"

function parse_term :: "usize \<Rightarrow> parser" where
  "parse_term depth =
     (if depth > MAX_PARSE_DEPTH then (\<lambda>ts. Err TooDeep)
      else (\<lambda>ts. if ts = [] then Err UnexpectedEnd
        else if hd ts = TokNot then bindO (parse_term (depth + 1) (tl ts)) (\<lambda>(inner, rest). Ok (negate inner, rest))
        else if hd ts = TokLParen then
          bindO (parse_or (depth + 1) (parse_term (depth + 1)) (tl ts)) (\<lambda>(inner, rest).
            if rest = [] \<or> hd rest \<noteq> TokRParen then Err MissingParen else Ok (inner, tl rest))
        else parse_cmp ts))"
  by pat_completeness auto

termination
  by (relation "measure (\<lambda>depth. Suc MAX_PARSE_DEPTH - depth)") auto

declare parse_term.simps [simp del]

definition parse_filter :: "unicode \<Rightarrow> u8 list \<Rightarrow> (filter_error, filter_expr) outcome" where
  "parse_filter U input = bindO (tokenize U input) (\<lambda>ts.
     if ts = [] then Err EmptyFilter
     else bindO (parse_or 0 (parse_term 0) ts) (\<lambda>(e, rest). if rest \<noteq> [] then Err (UnexpectedToken (length ts - length rest)) else Ok e))"

section \<open>Evaluation\<close>

definition cmp_f64 :: "f64 \<Rightarrow> cmp_op \<Rightarrow> f64 \<Rightarrow> bool" where
  "cmp_f64 a op b = (case op of
      CmpEq \<Rightarrow> lt64 (abs64 (sub64 a b)) 0x3CB0000000000000
    | CmpNe \<Rightarrow> le64 0x3CB0000000000000 (abs64 (sub64 a b))
    | CmpLt \<Rightarrow> lt64 a b | CmpLe \<Rightarrow> le64 a b | CmpGt \<Rightarrow> lt64 b a | CmpGe \<Rightarrow> le64 b a)"

fun str_less :: "u8 list \<Rightarrow> u8 list \<Rightarrow> bool" where
  "str_less [] bs \<longleftrightarrow> bs \<noteq> []"
| "str_less (a # as) [] \<longleftrightarrow> False"
| "str_less (a # as) (b # bs) \<longleftrightarrow> a < b \<or> a = b \<and> str_less as bs"

definition cmp_str :: "u8 list \<Rightarrow> cmp_op \<Rightarrow> u8 list \<Rightarrow> bool" where
  "cmp_str a op b = (case op of
      CmpEq \<Rightarrow> eq_ignore_case a b
    | CmpNe \<Rightarrow> \<not> eq_ignore_case a b
    | CmpLt \<Rightarrow> str_less a b | CmpLe \<Rightarrow> \<not> str_less b a | CmpGt \<Rightarrow> str_less b a | CmpGe \<Rightarrow> \<not> str_less a b)"

definition cmp_bool :: "bool \<Rightarrow> cmp_op \<Rightarrow> bool \<Rightarrow> bool" where
  "cmp_bool a op b = (case op of CmpEq \<Rightarrow> a = b | CmpNe \<Rightarrow> a \<noteq> b | _ \<Rightarrow> False)"

definition get_ref_string :: "u8 list \<Rightarrow> tag_map option \<Rightarrow> u8 list option" where
  "get_ref_string tag tags = Option.bind tags (\<lambda>m. case map_of m tag of
      Some (DynRef r) \<Rightarrow> Some r
    | Some (DynStr s) \<Rightarrow> Some s
    | _ \<Rightarrow> None)"

definition has_dyn_tag :: "tag_map \<Rightarrow> u8 list \<Rightarrow> bool" where
  "has_dyn_tag m tag = (case map_of m tag of Some DynNull \<Rightarrow> False | Some _ \<Rightarrow> True | None \<Rightarrow> False)"

definition cmp_dyn_tag :: "tag_map \<Rightarrow> u8 list \<Rightarrow> cmp_op \<Rightarrow> filter_value \<Rightarrow> bool" where
  "cmp_dyn_tag m tag op v = (case map_of m tag of
      None \<Rightarrow> False
    | Some d \<Rightarrow> (case (d, v) of
        (DynInt i, FvNum n) \<Rightarrow> cmp_f64 (f64_of_int (sint i)) op n
      | (DynFloat f, FvNum n) \<Rightarrow> cmp_f64 f op n
      | (DynStr s, FvStr t) \<Rightarrow> cmp_str s op t
      | (DynRef r, FvStr t) \<Rightarrow> cmp_str r op t
      | (DynBool b, FvBool c) \<Rightarrow> cmp_bool b op c
      | (DynStr s, FvNum n) \<Rightarrow> (case parse_f64 (text_chars s) of Some f \<Rightarrow> cmp_f64 f op n | None \<Rightarrow> False)
      | _ \<Rightarrow> False))"

definition one_of :: "u8 list \<Rightarrow> string list \<Rightarrow> bool" where
  "one_of tag ns \<longleftrightarrow> tag \<in> set (map ascii ns)"

definition has_tag :: "unicode \<Rightarrow> channel_info \<Rightarrow> u8 list \<Rightarrow> bool" where
  "has_tag U ch tag =
     (let is_type = (\<lambda>n. eq_ignore_case (ci_type ch) (ascii n)); goes = (\<lambda>d. eq_ignore_case (ci_direction ch) (ascii d)) in
      if one_of tag [''point''] then True
      else if one_of tag [''enabled''] then ci_enabled ch
      else if one_of tag [''disabled''] then \<not> ci_enabled ch
      else if one_of tag [''analog'', ''Analog''] then is_type ''analog''
      else if one_of tag [''digital'', ''Digital''] then is_type ''digital''
      else if one_of tag [''pwm'', ''Pwm''] then is_type ''pwm''
      else if one_of tag [''i2c'', ''I2c'', ''I2C''] then is_type ''i2c''
      else if one_of tag [''uart'', ''Uart'', ''UART''] then is_type ''uart''
      else if one_of tag [''virtual'', ''Virtual''] then is_type ''virtualanalog'' \<or> is_type ''virtualdigital''
      else if one_of tag [''input'', ''in'', ''In''] then goes ''in''
      else if one_of tag [''output'', ''out'', ''Out''] then goes ''out''
      else str_contains (str_lowercase U (ci_label ch)) (str_lowercase U tag))"

definition cmp_tag :: "channel_info \<Rightarrow> u8 list \<Rightarrow> cmp_op \<Rightarrow> filter_value \<Rightarrow> bool" where
  "cmp_tag ch tag op v =
     (let num = (\<lambda>x. case v of FvNum n \<Rightarrow> cmp_f64 x op n | _ \<Rightarrow> False); str = (\<lambda>s. case v of FvStr t \<Rightarrow> cmp_str s op t | _ \<Rightarrow> False) in
      if one_of tag [''channel'', ''id''] then num (f64_of_int (uint (ci_id ch)))
      else if one_of tag [''cur'', ''curVal''] then num (ci_cur ch)
      else if one_of tag [''raw'', ''rawVal''] then num (ci_raw ch)
      else if one_of tag [''label'', ''navName'', ''dis''] then str (ci_label ch)
      else if one_of tag [''type'', ''channelType''] then str (ci_type ch)
      else if one_of tag [''direction''] then str (ci_direction ch)
      else if one_of tag [''enabled''] then (case v of FvBool b \<Rightarrow> cmp_bool (ci_enabled ch) op b | _ \<Rightarrow> False)
      else if one_of tag [''status''] then str (ci_status ch)
      else False)"

type_synonym pather = "u8 list \<Rightarrow> tag_map option"

text \<open>Paths are not empty.\<close>

fun eval_path_cmp :: "u8 list list \<Rightarrow> cmp_op \<Rightarrow> filter_value \<Rightarrow> channel_info \<Rightarrow> tag_map option \<Rightarrow> pather option \<Rightarrow> bool" where
  "eval_path_cmp [] op v ch tags pather = False"
| "eval_path_cmp [tag] op v ch tags pather = (cmp_tag ch tag op v \<or> (case tags of Some m \<Rightarrow> cmp_dyn_tag m tag op v | None \<Rightarrow> False))"
| "eval_path_cmp (tag # next # path) op v ch tags pather = (case pather of
      None \<Rightarrow> False
    | Some p \<Rightarrow> (case get_ref_string tag tags of
        None \<Rightarrow> False
      | Some r \<Rightarrow> (case p r of None \<Rightarrow> False | Some m \<Rightarrow> eval_path_cmp (next # path) op v ch (Some m) (Some p))))"

primrec matches_inner :: "unicode \<Rightarrow> filter_expr \<Rightarrow> channel_info \<Rightarrow> tag_map option \<Rightarrow> pather option \<Rightarrow> bool" where
  "matches_inner U (Has tag) ch tags pather = (has_tag U ch tag \<or> (case tags of Some m \<Rightarrow> has_dyn_tag m tag | None \<Rightarrow> False))"
| "matches_inner U (Missing tag) ch tags pather = (\<not> has_tag U ch tag \<and> (case tags of Some m \<Rightarrow> \<not> has_dyn_tag m tag | None \<Rightarrow> True))"
| "matches_inner U (Not e) ch tags pather = (\<not> matches_inner U e ch tags pather)"
| "matches_inner U (Cmp path op v) ch tags pather = eval_path_cmp path op v ch tags pather"
| "matches_inner U (And l r) ch tags pather = (matches_inner U l ch tags pather \<and> matches_inner U r ch tags pather)"
| "matches_inner U (Or l r) ch tags pather = (matches_inner U l ch tags pather \<or> matches_inner U r ch tags pather)"

definition matches_filter :: "unicode \<Rightarrow> filter_expr \<Rightarrow> channel_info \<Rightarrow> bool" where
  "matches_filter U e ch = matches_inner U e ch None None"

definition matches_with_tags :: "unicode \<Rightarrow> filter_expr \<Rightarrow> channel_info \<Rightarrow> tag_map option \<Rightarrow> bool" where
  "matches_with_tags U e ch tags = matches_inner U e ch tags None"

definition matches_full :: "unicode \<Rightarrow> filter_expr \<Rightarrow> channel_info \<Rightarrow> tag_map option \<Rightarrow> pather option \<Rightarrow> bool" where
  "matches_full U e ch tags pather = matches_inner U e ch tags pather"

section \<open>The parser returns\<close>

text \<open>A parser that always answers and gives no tokens back.\<close>

definition steady :: "parser \<Rightarrow> bool" where
  "steady p \<longleftrightarrow> (\<forall>ts. p ts \<noteq> Panic \<and> (\<forall>e rest. p ts = Ok (e, rest) \<longrightarrow> length rest \<le> length ts))"

lemma steadyI: "(\<And>ts. p ts \<noteq> Panic) \<Longrightarrow> (\<And>ts e rest. p ts = Ok (e, rest) \<Longrightarrow> length rest \<le> length ts) \<Longrightarrow> steady p"
  by (simp add: steady_def)

lemma steadyD: "steady p \<Longrightarrow> p ts \<noteq> Panic" "steady p \<Longrightarrow> p ts = Ok (e, rest) \<Longrightarrow> length rest \<le> length ts"
  by (auto simp: steady_def)

lemma operator_loop_steady:
  assumes "steady p"
  shows "operator_loop op join p left ts \<noteq> Panic \<and> (\<forall>e rest. operator_loop op join p left ts = Ok (e, rest) \<longrightarrow> length rest \<le> length ts)"
  using assms
proof (induction op join p left ts rule: operator_loop.induct)
  case (1 op join p left ts)
  show ?case
  proof (cases "ts \<noteq> [] \<and> hd ts = op")
    case True
    note loop = operator_loop.simps [of op join p left ts]
    show ?thesis
    proof (cases "p (tl ts)")
      case (Ok a)
      obtain right rest where a: "a = (right, rest)" by fastforce
      have le: "length rest \<le> length (tl ts)" using steadyD(2) [OF "1.prems"] Ok a by blast
      then have "length rest \<le> length ts" by simp
      with "1.IH" [OF True Ok a [symmetric] le "1.prems"] show ?thesis using True Ok a le loop by (auto intro: le_trans)
    qed (use True loop steadyD(1) [OF "1.prems"] in auto)
  qed (auto simp: operator_loop.simps [of op join p left ts])
qed

lemma operands_steady: "steady p \<Longrightarrow> steady (operands op join p)"
proof (rule steadyI)
  fix ts assume p: "steady p"
  show "operands op join p ts \<noteq> Panic"
    using steadyD(1) [OF p, of ts] operator_loop_steady [OF p, of op join] by (auto simp: operands_def bindO_Panic_iff)
next
  fix ts e rest assume p: "steady p" and run: "operands op join p ts = Ok (e, rest)"
  then obtain left more where "p ts = Ok (left, more)" "operator_loop op join p left more = Ok (e, rest)"
    by (auto simp: operands_def bindO_Ok_iff)
  then show "length rest \<le> length ts" using steadyD(2) [OF p] operator_loop_steady [OF p] le_trans by blast
qed

lemma parse_or_steady: "steady p \<Longrightarrow> steady (parse_or depth p)"
  using operands_steady [OF operands_steady, of p TokOr Or TokAnd And] by (simp add: steady_def parse_or_def parse_and_def)

lemma path_segments_steady: "path_segments ts \<noteq> Panic \<and> (\<forall>ns rest. path_segments ts = Ok (ns, rest) \<longrightarrow> length rest \<le> length ts)"
proof (induction ts rule: path_segments.induct)
  case (1 ts)
  show ?case
  proof (cases "\<exists>n rest. ts = TokArrow # TokName n # rest")
    case True
    then obtain n rest where ts: "ts = TokArrow # TokName n # rest" by blast
    show ?thesis using "1.IH" [of "TokName n" rest n] by (auto simp: ts path_segments.simps [of ts] path_segments.simps [of "TokArrow # _"] bindO_Ok_iff bindO_Panic_iff)
  next
    case False
    then show ?thesis by (subst path_segments.simps) (auto simp: path_segments.simps [of ts] neq_Nil_conv split: list.splits token.splits)
  qed
qed

lemma parse_cmp_steady: "(ts \<noteq> [] \<longrightarrow> parse_cmp ts \<noteq> Panic) \<and> (\<forall>e rest. parse_cmp ts = Ok (e, rest) \<longrightarrow> length rest \<le> length ts)"
proof (cases "\<exists>n more. ts = TokName n # more")
  case True
  then obtain n more where ts: "ts = TokName n # more" by blast
  show ?thesis
  proof (cases "path_segments more")
    case (Ok a)
    obtain ns ts2 where a: "a = (ns, ts2)" by fastforce
    have "length ts2 \<le> length more" using path_segments_steady Ok a by blast
    then show ?thesis by (auto simp: ts parse_cmp_def Ok a marker_def split: list.splits option.splits)
  qed (use path_segments_steady [of more] in \<open>auto simp: ts parse_cmp_def\<close>)
qed (auto simp: parse_cmp_def split: list.splits token.splits)

lemma parse_term_run:
  "\<not> depth > MAX_PARSE_DEPTH \<Longrightarrow> parse_term depth ts =
     (if ts = [] then Err UnexpectedEnd
      else if hd ts = TokNot then bindO (parse_term (depth + 1) (tl ts)) (\<lambda>(inner, rest). Ok (negate inner, rest))
      else if hd ts = TokLParen then
        bindO (parse_or (depth + 1) (parse_term (depth + 1)) (tl ts)) (\<lambda>(inner, rest).
          if rest = [] \<or> hd rest \<noteq> TokRParen then Err MissingParen else Ok (inner, tl rest))
      else parse_cmp ts)"
  by (subst parse_term.simps) simp

lemma steady_bind:
  assumes "steady p" "\<And>a r. f (a, r) \<noteq> Panic" "\<And>a r e rest. f (a, r) = Ok (e, rest) \<Longrightarrow> length rest \<le> length r"
  shows "bindO (p ts) f \<noteq> Panic" "bindO (p ts) f = Ok (e, rest) \<Longrightarrow> length rest \<le> length ts"
proof -
  show "bindO (p ts) f \<noteq> Panic" using steadyD(1) [OF assms(1), of ts] assms(2) by (cases "p ts") auto
  show "length rest \<le> length ts" if "bindO (p ts) f = Ok (e, rest)"
    using that steadyD(2) [OF assms(1), of ts] assms(3) by (cases "p ts") (auto intro: le_trans [rotated])
qed

lemma parse_term_steady: "steady (parse_term depth)"
proof (induction "Suc MAX_PARSE_DEPTH - depth" arbitrary: depth rule: less_induct)
  case less
  show ?case
  proof (cases "depth > MAX_PARSE_DEPTH")
    case True
    then have "parse_term depth = (\<lambda>ts. Err TooDeep)" by (simp only: parse_term.simps [of depth] if_True)
    then show ?thesis by (simp add: steady_def)
  next
    case False
    then have p: "steady (parse_term (depth + 1))" by (intro less) auto
    note o = parse_or_steady [OF p, of "depth + 1"] and run = parse_term_run [OF False]
    have inner: "bindO (parse_term (depth + 1) us) (\<lambda>(inner, rest). Ok (negate inner, rest)) \<noteq> Panic"
      "bindO (parse_term (depth + 1) us) (\<lambda>(inner, rest). Ok (negate inner, rest)) = Ok (e, rest) \<Longrightarrow> length rest \<le> length us" for us e rest
      using steady_bind [OF p, of "\<lambda>(inner, rest). Ok (negate inner, rest)" us] by auto
    let ?close = "\<lambda>(inner, rest). if rest = [] \<or> hd rest \<noteq> TokRParen then Err MissingParen else Ok (inner, tl rest)"
    have close: "bindO (parse_or (depth + 1) (parse_term (depth + 1)) us) ?close \<noteq> Panic" for us
      by (rule steady_bind(1) [OF o]) (auto split: if_splits)
    have closed: "length rest \<le> length us" if "bindO (parse_or (depth + 1) (parse_term (depth + 1)) us) ?close = Ok (e, rest)" for us e rest
      by (rule steady_bind(2) [OF o _ _ that]) (auto split: if_splits)
    show ?thesis
    proof (rule steadyI)
      show "parse_term depth ts \<noteq> Panic" for ts unfolding run using inner(1) close parse_cmp_steady [of ts] by simp
      show "length rest \<le> length ts" if "parse_term depth ts = Ok (e, rest)" for ts e rest
        using that [unfolded run] inner(2) [of "tl ts" e rest] closed [of "tl ts" e rest] parse_cmp_steady [of ts] by (simp split: if_splits)
    qed
  qed
qed

lemma tokens_of_answers: "tokens_of U cs \<noteq> Panic"
proof (induction U cs rule: tokens_of.induct)
  case (1 U cs)
  have "scan_token U cs \<noteq> Panic"
    by (auto simp: scan_token_def scan_number_def Let_def split: option.splits prod.splits)
  then show ?case using "1.IH" by (subst tokens_of.simps) (auto simp: bindO_Panic_iff split: outcome.splits)
qed

section \<open>Printing\<close>

text \<open>
  The tokens of an expression with the parentheses it needs. The level says where the expression stands: 0 among the operands of \<open>or\<close>,
  1 among those of \<open>and\<close>, 2 as a term.
\<close>

definition enclose :: "bool \<Rightarrow> token list \<Rightarrow> token list" where
  "enclose b ts = (if b then TokLParen # ts @ [TokRParen] else ts)"

fun op_token :: "cmp_op \<Rightarrow> token" where
  "op_token CmpEq = TokEq" | "op_token CmpNe = TokNe" | "op_token CmpLt = TokLt" | "op_token CmpLe = TokLe" | "op_token CmpGt = TokGt" | "op_token CmpGe = TokGe"

fun val_token :: "filter_value \<Rightarrow> token" where
  "val_token (FvNum n) = TokNum n" | "val_token (FvStr s) = TokStr s" | "val_token (FvBool b) = (if b then TokTrue else TokFalse)"

definition path_tokens :: "u8 list list \<Rightarrow> token list" where
  "path_tokens path = TokName (hd path) # concat (map (\<lambda>n. [TokArrow, TokName n]) (tl path))"

primrec expr_tokens :: "filter_expr \<Rightarrow> nat \<Rightarrow> token list" where
  "expr_tokens (Has n) lv = [TokName n]"
| "expr_tokens (Missing n) lv = [TokNot, TokName n]"
| "expr_tokens (Not e) lv = TokNot # expr_tokens e 2"
| "expr_tokens (Cmp path op v) lv = path_tokens path @ [op_token op, val_token v]"
| "expr_tokens (And l r) lv = enclose (1 < lv) (expr_tokens l 1 @ TokAnd # expr_tokens r 2)"
| "expr_tokens (Or l r) lv = enclose (0 < lv) (expr_tokens l 0 @ TokOr # expr_tokens r 1)"

text \<open>The nesting of parentheses and negations.\<close>

primrec nesting :: "filter_expr \<Rightarrow> nat \<Rightarrow> nat" where
  "nesting (Has n) lv = 0"
| "nesting (Missing n) lv = 1"
| "nesting (Not e) lv = Suc (nesting e 2)"
| "nesting (Cmp path op v) lv = 0"
| "nesting (And l r) lv = max (nesting l 1) (nesting r 2) + (if 1 < lv then 1 else 0)"
| "nesting (Or l r) lv = max (nesting l 0) (nesting r 1) + (if 0 < lv then 1 else 0)"

text \<open>The expressions that parsing can give: paths are not empty, and the negation of a marker is \<open>Missing\<close>.\<close>

primrec proper :: "filter_expr \<Rightarrow> bool" where
  "proper (Has n) = True"
| "proper (Missing n) = True"
| "proper (Not e) = (proper e \<and> (\<forall>n. e \<noteq> Has n))"
| "proper (Cmp path op v) = (path \<noteq> [])"
| "proper (And l r) = (proper l \<and> proper r)"
| "proper (Or l r) = (proper l \<and> proper r)"

definition ends :: "token list \<Rightarrow> token set \<Rightarrow> bool" where
  "ends ts S \<longleftrightarrow> ts = [] \<or> hd ts \<in> S"

lemma path_segments_tokens:
  "ends rest S \<Longrightarrow> TokArrow \<notin> S \<Longrightarrow> path_segments (concat (map (\<lambda>n. [TokArrow, TokName n]) ns) @ rest) = Ok (ns, rest)"
proof (induction ns)
  case Nil
  then show ?case by (auto simp: path_segments.simps [of rest] ends_def)
next
  case (Cons n ns)
  then show ?case by (subst path_segments.simps) simp
qed

lemma cmp_op_token [simp]: "cmp_token (op_token op) = Some op" "op_token op \<noteq> TokArrow" "TokArrow \<noteq> op_token op"
  by (cases op; simp)+

lemma value_val_token [simp]: "value_token (val_token v) = Some v"
  by (cases v) auto

lemma parse_cmp_tokens: "path \<noteq> [] \<Longrightarrow> parse_cmp (path_tokens path @ op_token op # val_token v # rest) = Ok (Cmp path op v, rest)"
  using path_segments_tokens [of "op_token op # val_token v # rest" "{op_token op}" "tl path"]
  by (cases path) (simp_all add: parse_cmp_def path_tokens_def ends_def)

lemma parse_cmp_marker: "ends rest {TokAnd, TokOr, TokRParen} \<Longrightarrow> parse_cmp (TokName n # rest) = Ok (Has n, rest)"
  using path_segments_tokens [of rest "{TokAnd, TokOr, TokRParen}" "[]"]
  by (auto simp: parse_cmp_def marker_def ends_def split: list.splits)

lemma operator_loop_stops: "ts = [] \<or> hd ts \<noteq> op \<Longrightarrow> operator_loop op join p left ts = Ok (left, ts)"
  by (subst operator_loop.simps) auto

lemma operator_loop_next:
  "p ts = Ok (right, rest) \<Longrightarrow> steady p \<Longrightarrow> operator_loop op join p left (op # ts) = operator_loop op join p (join left right) rest"
  using steadyD(2) [of p ts right rest] by (subst operator_loop.simps) simp

text \<open>What the three parsers make of a printed expression.\<close>

definition term_parsed :: "filter_expr \<Rightarrow> bool" where
  "term_parsed e \<longleftrightarrow> (\<forall>d rest. d + nesting e 2 \<le> MAX_PARSE_DEPTH \<longrightarrow> ends rest {TokAnd, TokOr, TokRParen} \<longrightarrow>
     parse_term d (expr_tokens e 2 @ rest) = Ok (e, rest))"

definition and_parsed :: "filter_expr \<Rightarrow> bool" where
  "and_parsed e \<longleftrightarrow> (\<forall>d rest. d + nesting e 1 \<le> MAX_PARSE_DEPTH \<longrightarrow> ends rest {TokAnd, TokOr, TokRParen} \<longrightarrow>
     parse_and (parse_term d) (expr_tokens e 1 @ rest) = operator_loop TokAnd And (parse_term d) e rest)"

definition or_parsed :: "filter_expr \<Rightarrow> bool" where
  "or_parsed e \<longleftrightarrow> (\<forall>d rest. d + nesting e 0 \<le> MAX_PARSE_DEPTH \<longrightarrow> ends rest {TokOr, TokRParen} \<longrightarrow>
     operands TokOr Or (parse_and (parse_term d)) (expr_tokens e 0 @ rest) = operator_loop TokOr Or (parse_and (parse_term d)) e rest)"

lemma and_parsed_term:
  assumes "term_parsed e" "expr_tokens e 1 = expr_tokens e 2" "nesting e 1 = nesting e 2"
  shows "and_parsed e"
  using assms by (simp add: and_parsed_def term_parsed_def parse_and_def operands_def)

lemma and_parsed_stops: "and_parsed e \<Longrightarrow> d + nesting e 1 \<le> MAX_PARSE_DEPTH \<Longrightarrow> ends rest {TokOr, TokRParen} \<Longrightarrow>
    parse_and (parse_term d) (expr_tokens e 1 @ rest) = Ok (e, rest)"
  by (auto simp: and_parsed_def ends_def operator_loop_stops)

lemma or_parsed_and:
  assumes "and_parsed e" "expr_tokens e 0 = expr_tokens e 1" "nesting e 0 = nesting e 1"
  shows "or_parsed e"
  using and_parsed_stops [OF assms(1)] assms(2,3) by (simp add: or_parsed_def operands_def)

lemma term_parsed_parens:
  assumes "or_parsed e" "expr_tokens e 2 = TokLParen # expr_tokens e 0 @ [TokRParen]" "nesting e 2 = Suc (nesting e 0)"
  shows "term_parsed e"
  unfolding term_parsed_def
proof (intro allI impI)
  fix d rest assume d: "d + nesting e 2 \<le> MAX_PARSE_DEPTH"
  then have "parse_or (d + 1) (parse_term (d + 1)) (expr_tokens e 0 @ TokRParen # rest) = Ok (e, TokRParen # rest)"
    using assms(1,3) by (simp add: parse_or_def or_parsed_def ends_def operator_loop_stops)
  then show "parse_term d (expr_tokens e 2 @ rest) = Ok (e, rest)"
    using d by (simp add: assms(2) parse_term_run)
qed

lemma printed_parsed: "proper e \<Longrightarrow> term_parsed e \<and> and_parsed e \<and> or_parsed e"
proof (induction e)
  case (Has n)
  have t: "term_parsed (Has n)" by (simp add: term_parsed_def parse_term_run parse_cmp_marker)
  have a: "and_parsed (Has n)" by (rule and_parsed_term [OF t]) simp_all
  show ?case using t a or_parsed_and [OF a] by simp
next
  case (Missing n)
  have t: "term_parsed (Missing n)" by (auto simp: term_parsed_def parse_term_run parse_cmp_marker)
  have a: "and_parsed (Missing n)" by (rule and_parsed_term [OF t]) simp_all
  show ?case using t a or_parsed_and [OF a] by simp
next
  case (Not e)
  have "negate e = Not e" using Not.prems by (cases e) auto
  then have t: "term_parsed (Not e)" using Not by (simp add: term_parsed_def parse_term_run)
  have a: "and_parsed (Not e)" by (rule and_parsed_term [OF t]) simp_all
  show ?case using t a or_parsed_and [OF a] by simp
next
  case (Cmp path op v)
  have hd: "hd (path_tokens path @ xs) = TokName (hd path)" "path_tokens path @ xs \<noteq> []" for xs by (simp_all add: path_tokens_def)
  have t: "term_parsed (Cmp path op v)" using Cmp parse_cmp_tokens by (simp add: term_parsed_def parse_term_run hd)
  have a: "and_parsed (Cmp path op v)" by (rule and_parsed_term [OF t]) simp_all
  show ?case using t a or_parsed_and [OF a] by simp
next
  case (And l r)
  then have l: "and_parsed l" and r: "term_parsed r" by simp_all
  have a: "and_parsed (And l r)" unfolding and_parsed_def
  proof (intro allI impI)
    fix d rest assume d: "d + nesting (And l r) 1 \<le> MAX_PARSE_DEPTH" and rest: "ends rest {TokAnd, TokOr, TokRParen}"
    have "parse_and (parse_term d) (expr_tokens l 1 @ TokAnd # expr_tokens r 2 @ rest) =
        operator_loop TokAnd And (parse_term d) l (TokAnd # expr_tokens r 2 @ rest)"
      using l d by (simp add: and_parsed_def ends_def)
    moreover have "parse_term d (expr_tokens r 2 @ rest) = Ok (r, rest)" using r d rest by (simp add: term_parsed_def)
    ultimately show "parse_and (parse_term d) (expr_tokens (And l r) 1 @ rest) = operator_loop TokAnd And (parse_term d) (And l r) rest"
      by (simp add: enclose_def operator_loop_next parse_term_steady)
  qed
  have o: "or_parsed (And l r)" by (rule or_parsed_and [OF a]) (simp_all add: enclose_def)
  show ?case using a o term_parsed_parens [OF o] by (simp add: enclose_def)
next
  case (Or l r)
  then have l: "or_parsed l" and r: "and_parsed r" by simp_all
  have steady: "steady (parse_and (parse_term d))" for d unfolding parse_and_def by (intro operands_steady parse_term_steady)
  have o: "or_parsed (Or l r)" unfolding or_parsed_def
  proof (intro allI impI)
    fix d rest assume d: "d + nesting (Or l r) 0 \<le> MAX_PARSE_DEPTH" and rest: "ends rest {TokOr, TokRParen}"
    have "operands TokOr Or (parse_and (parse_term d)) (expr_tokens l 0 @ TokOr # expr_tokens r 1 @ rest) =
        operator_loop TokOr Or (parse_and (parse_term d)) l (TokOr # expr_tokens r 1 @ rest)"
      using l d by (simp add: or_parsed_def ends_def)
    moreover have "parse_and (parse_term d) (expr_tokens r 1 @ rest) = Ok (r, rest)" using and_parsed_stops [OF r _ rest] d by simp
    ultimately show "operands TokOr Or (parse_and (parse_term d)) (expr_tokens (Or l r) 0 @ rest) =
        operator_loop TokOr Or (parse_and (parse_term d)) (Or l r) rest"
      by (simp add: enclose_def operator_loop_next steady)
  qed
  have t: "term_parsed (Or l r)" by (rule term_parsed_parens [OF o]) (simp_all add: enclose_def)
  show ?case using t o and_parsed_term [OF t] by (simp add: enclose_def)
qed

lemma parse_printed: "proper e \<Longrightarrow> nesting e 0 \<le> MAX_PARSE_DEPTH \<Longrightarrow> parse_or 0 (parse_term 0) (expr_tokens e 0) = Ok (e, [])"
  using printed_parsed [of e] by (force simp: or_parsed_def ends_def parse_or_def operator_loop_stops dest: spec [of _ 0] spec [of _ "[]"])

section \<open>Texts\<close>

text \<open>The characters of an ASCII text, and the texts of tokens. \<open>num\<close> is the text of a number.\<close>

abbreviation chars :: "u8 list \<Rightarrow> u8 list list" where
  "chars \<equiv> map (\<lambda>b. [b])"

definition quoted_text :: "u8 list \<Rightarrow> u8 list" where
  "quoted_text s = 0x22 # concat (map (\<lambda>b. if b = 0x22 \<or> b = 0x5C then [0x5C, b] else [b]) s) @ [0x22]"

fun token_text :: "(f64 \<Rightarrow> u8 list) \<Rightarrow> token \<Rightarrow> u8 list" where
  "token_text num (TokName w) = w"
| "token_text num (TokNum n) = num n"
| "token_text num (TokStr s) = quoted_text s"
| "token_text num TokAnd = ascii ''and''" | "token_text num TokOr = ascii ''or''" | "token_text num TokNot = ascii ''not''"
| "token_text num TokEq = ascii ''==''" | "token_text num TokNe = ascii ''!=''"
| "token_text num TokLt = ascii ''<''" | "token_text num TokLe = ascii ''<=''"
| "token_text num TokGt = ascii ''>''" | "token_text num TokGe = ascii ''>=''"
| "token_text num TokLParen = ascii ''(''" | "token_text num TokRParen = ascii '')''"
| "token_text num TokTrue = ascii ''true''" | "token_text num TokFalse = ascii ''false''" | "token_text num TokArrow = ascii ''->''"

definition word_byte :: "u8 \<Rightarrow> bool" where
  "word_byte b \<longleftrightarrow> is_ascii_alphanumeric b \<or> b = of_char CHR ''_''"

definition number_byte :: "u8 \<Rightarrow> bool" where
  "number_byte b \<longleftrightarrow> of_char CHR ''0'' \<le> b \<and> b \<le> of_char CHR ''9'' \<or> b = of_char CHR ''.''"

text \<open>Names of ASCII letters, digits and underscores that are no keywords, ASCII strings, and numbers whose text is a plain decimal number that
  parses to them.\<close>

fun printable :: "(f64 \<Rightarrow> u8 list) \<Rightarrow> token \<Rightarrow> bool" where
  "printable num (TokName w) \<longleftrightarrow> w \<noteq> [] \<and> (is_ascii_alphabetic (hd w) \<or> hd w = of_char CHR ''_'') \<and> list_all word_byte w \<and>
     w \<notin> ascii ` {''and'', ''or'', ''not'', ''true'', ''false''}"
| "printable num (TokNum n) \<longleftrightarrow> parse_f64 (text_chars (num n)) = Some n \<and>
     (\<exists>d ds. (num n = d # ds \<or> num n = of_char CHR ''-'' # d # ds) \<and> number_byte d \<and> d \<noteq> of_char CHR ''.'' \<and> list_all number_byte ds)"
| "printable num (TokStr s) \<longleftrightarrow> list_all (\<lambda>b. b < 128) s"
| "printable num _ \<longleftrightarrow> True"

definition print_tokens :: "(f64 \<Rightarrow> u8 list) \<Rightarrow> token list \<Rightarrow> u8 list" where
  "print_tokens num ts = concat (map (\<lambda>t. token_text num t @ [32]) ts)"

lemma is_char_byte [simp]: "is_char [b] c \<longleftrightarrow> b = of_char c"
  by (simp add: is_char_def)

lemma scan_quoted_text:
  "scan_quoted (chars (concat (map (\<lambda>b. if b = 0x22 \<or> b = 0x5C then [0x5C, b] else [b]) s) @ 0x22 # rest)) = (s, chars rest)"
  by (induction s) auto

lemma takeWhile_chars: "list_all P w \<Longrightarrow> \<not> P b \<Longrightarrow> (\<And>x. Q [x] = P x) \<Longrightarrow>
    takeWhile Q (chars (w @ b # rest)) = chars w \<and> dropWhile Q (chars (w @ b # rest)) = chars (b # rest)"
  by (induction w) auto

lemma concat_chars [simp]: "concat (chars w) = w"
  by (induction w) auto

lemma starts_op_other [simp]: "b \<noteq> of_char x \<Longrightarrow> \<not> starts_op ([b] # cs) x y"
  by (cases cs) (simp_all add: starts_op_def)

lemma scan_word:
  assumes "w \<noteq> []" "is_ascii_alphabetic (hd w) \<or> hd w = of_char CHR ''_''" "list_all word_byte w"
  shows "scan_token U (chars (w @ 32 # rest)) = Ok (word_token w, chars (32 # rest))"
proof -
  obtain b bs where w: "w = b # bs" using assms(1) by (cases w) auto
  let ?word = "\<lambda>c. is_alphanumeric U c \<or> is_char c CHR ''_''"
  have tw: "takeWhile ?word (chars (w @ 32 # rest)) = chars w" "dropWhile ?word (chars (w @ 32 # rest)) = chars (32 # rest)"
    using takeWhile_chars [OF assms(3), of 32 ?word rest]
    by (auto simp: word_byte_def is_alphanumeric_def is_ascii_alphanumeric_def is_ascii_alphabetic_def)
  have plain: "b \<notin> {40, 41, 61, 33, 60, 62, 45, 34}" "\<not> is_ascii_digit [b]" "is_alphabetic U [b] \<or> b = of_char CHR ''_''"
    using assms(2) by (auto simp: w is_ascii_alphabetic_def is_ascii_digit_def is_alphabetic_def word_le_nat_alt)
  show ?thesis using plain unfolding scan_token_def Let_def tw
    by (auto simp: w)
qed

lemma scan_number_text:
  assumes "num = d # ds \<or> num = of_char CHR ''-'' # d # ds" "number_byte d" "d \<noteq> of_char CHR ''.''" "list_all number_byte ds"
    "parse_f64 (text_chars num) = Some n"
  shows "scan_token U (chars (num @ 32 # rest)) = Ok (TokNum n, chars (32 # rest))"
proof -
  let ?part = "\<lambda>c. is_ascii_digit c \<or> is_char c CHR ''.''"
  have tw: "takeWhile ?part (chars ((d # ds) @ 32 # rest)) = chars (d # ds)" "dropWhile ?part (chars ((d # ds) @ 32 # rest)) = chars (32 # rest)"
    using takeWhile_chars [of number_byte "d # ds" 32 ?part rest] assms(2,4) by (auto simp: number_byte_def is_ascii_digit_def)
  have digit: "is_ascii_digit [d]" "d \<notin> {40, 41, 61, 33, 60, 62, 45, 34}" using assms(2,3) by (auto simp: number_byte_def is_ascii_digit_def)
  from assms(1) show ?thesis
  proof
    assume num: "num = d # ds"
    have "scan_number (chars (num @ 32 # rest)) = Ok (TokNum n, chars (32 # rest))"
      using digit assms(5) tw by (simp add: scan_number_def num)
    then show ?thesis using digit by (simp add: num scan_token_def)
  next
    assume num: "num = of_char CHR ''-'' # d # ds"
    have "scan_number (chars (num @ 32 # rest)) = Ok (TokNum n, chars (32 # rest))"
      using digit assms(5) tw by (simp add: scan_number_def num)
    then show ?thesis using digit by (simp add: num scan_token_def starts_op_def is_ascii_digit_def [of "[45]"])
  qed
qed

lemma scan_keyword:
  "w \<in> {''and'', ''or'', ''not'', ''true'', ''false''} \<Longrightarrow> scan_token U (chars (ascii w @ 32 # rest)) = Ok (word_token (ascii w), chars (32 # rest))"
  by (rule scan_word) (auto simp: ascii_def word_byte_def is_ascii_alphabetic_def is_ascii_alphanumeric_def)

lemma scan_token_text: "printable num t \<Longrightarrow> scan_token U (chars (token_text num t @ 32 # rest)) = Ok (t, chars (32 # rest))"
proof (cases t)
  case (TokName w)
  assume "printable num t"
  then show ?thesis using scan_word [of w U rest] by (auto simp: TokName word_token_def)
next
  case (TokNum n)
  assume "printable num t"
  then obtain d ds where "num n = d # ds \<or> num n = of_char CHR ''-'' # d # ds" "number_byte d" "d \<noteq> of_char CHR ''.''" "list_all number_byte ds"
    "parse_f64 (text_chars (num n)) = Some n" unfolding TokNum printable.simps by blast
  from scan_number_text [OF this] show ?thesis by (simp add: TokNum)
next
  case (TokStr s)
  then show ?thesis using scan_quoted_text [of s "32 # rest"] by (simp add: quoted_text_def scan_token_def Let_def)
next
  case TokAnd
  show ?thesis using scan_keyword [of "''and''"] by (simp add: TokAnd word_token_def ascii_def)
next
  case TokOr
  show ?thesis using scan_keyword [of "''or''"] by (simp add: TokOr word_token_def ascii_def)
next
  case TokNot
  show ?thesis using scan_keyword [of "''not''"] by (simp add: TokNot word_token_def ascii_def)
next
  case TokTrue
  show ?thesis using scan_keyword [of "''true''"] by (simp add: TokTrue word_token_def ascii_def)
next
  case TokFalse
  show ?thesis using scan_keyword [of "''false''"] by (simp add: TokFalse word_token_def ascii_def)
qed (simp_all add: scan_token_def Let_def starts_op_def ascii_def)

lemma token_text_start: "printable num t \<Longrightarrow> \<exists>b bs. token_text num t = b # bs \<and> \<not> is_space U [b]"
  by (cases t) (auto simp: is_space_def quoted_text_def ascii_def neq_Nil_conv is_ascii_alphabetic_def number_byte_def word_le_nat_alt)

lemma tokens_of_text: "list_all (printable num) ts \<Longrightarrow> tokens_of U (chars (print_tokens num ts)) = Ok ts"
proof (induction ts)
  case Nil
  then show ?case by (simp add: print_tokens_def tokens_of.simps)
next
  case (Cons t ts)
  obtain b bs where tt: "token_text num t = b # bs" "\<not> is_space U [b]" using token_text_start [of num t U] Cons.prems by auto
  have scan: "scan_token U (chars (token_text num t @ 32 # print_tokens num ts)) = Ok (t, chars (32 # print_tokens num ts))"
    using scan_token_text Cons.prems by simp
  have "tokens_of U (chars (32 # print_tokens num ts)) = Ok ts"
    using Cons by (subst tokens_of.simps) (simp add: is_space_def)
  then show ?case using scan tt by (simp add: print_tokens_def tokens_of.simps [of U "[b] # _"])
qed

lemma utf8_chars_ascii: "list_all (\<lambda>b. b < 128) bs \<Longrightarrow> utf8_chars bs = chars bs"
proof (induction bs)
  case (Cons b bs)
  then have "utf8_chunk (b # bs) = (True, 1)" by (simp add: utf8_chunk_def Let_def byte_at_def char_width_def)
  then show ?case using Cons by (subst utf8_chars.simps) simp
qed (simp add: utf8_chars.simps)

lemma byte_kinds_ascii: "word_byte b \<Longrightarrow> b < 128" "number_byte b \<Longrightarrow> b < 128"
  by (auto simp: word_byte_def number_byte_def is_ascii_alphanumeric_def is_ascii_alphabetic_def word_le_nat_alt word_less_nat_alt)

lemma token_text_ascii: "printable num t \<Longrightarrow> list_all (\<lambda>b. b < 128) (token_text num t)"
proof (cases t)
  case (TokName w)
  assume "printable num t"
  then have "list_all word_byte w" by (simp add: TokName)
  then show ?thesis by (auto simp: TokName list_all_iff byte_kinds_ascii)
next
  case (TokNum n)
  assume "printable num t"
  then obtain d ds where "num n = d # ds \<or> num n = of_char CHR ''-'' # d # ds" "number_byte d" "list_all number_byte ds"
    unfolding TokNum printable.simps by blast
  then show ?thesis by (auto simp: TokNum list_all_iff byte_kinds_ascii)
next
  case (TokStr s)
  assume "printable num t"
  then show ?thesis by (auto simp: TokStr quoted_text_def list_all_iff)
qed (simp_all add: ascii_def)

lemma tokenize_text: "list_all (printable num) ts \<Longrightarrow> tokenize U (print_tokens num ts) = Ok ts"
proof -
  assume ts: "list_all (printable num) ts"
  then have "list_all (\<lambda>b. b < 128) (print_tokens num ts)" by (induction ts) (simp_all add: print_tokens_def token_text_ascii)
  then show ?thesis by (simp add: tokenize_def utf8_chars_ascii tokens_of_text [OF ts])
qed

section \<open>What parsing can give\<close>

definition yields_proper :: "parser \<Rightarrow> bool" where
  "yields_proper p \<longleftrightarrow> (\<forall>ts e rest. p ts = Ok (e, rest) \<longrightarrow> proper e)"

lemma yields_properD: "yields_proper p \<Longrightarrow> p ts = Ok (e, rest) \<Longrightarrow> proper e"
  unfolding yields_proper_def by blast

lemma operator_loop_proper:
  assumes "yields_proper p" "\<And>l r. proper l \<Longrightarrow> proper r \<Longrightarrow> proper (join l r)"
  shows "proper left \<Longrightarrow> operator_loop op join p left ts = Ok (e, rest) \<Longrightarrow> proper e"
proof (induction "length ts" arbitrary: left ts rule: less_induct)
  case less
  show ?case
  proof (cases "ts \<noteq> [] \<and> hd ts = op")
    case True
    then obtain right more where run: "p (tl ts) = Ok (right, more)" "length more \<le> length (tl ts)"
        "operator_loop op join p (join left right) more = Ok (e, rest)"
      using less.prems(2) by (subst (asm) operator_loop.simps) (auto split: outcome.splits if_splits)
    moreover have "length more < length ts" using True run(2) by (cases ts) auto
    moreover have "proper (join left right)" using assms less.prems(1) run(1) by (auto simp: yields_proper_def)
    ultimately show ?thesis using less.hyps by blast
  next
    case False
    then have "e = left" using less.prems(2) by (subst (asm) operator_loop.simps) (simp split: if_splits)
    then show ?thesis using less.prems(1) by simp
  qed
qed

lemma operands_proper:
  assumes "yields_proper p" "\<And>l r. proper l \<Longrightarrow> proper r \<Longrightarrow> proper (join l r)"
  shows "yields_proper (operands op join p)"
  unfolding yields_proper_def
proof (intro allI impI)
  fix ts e rest assume "operands op join p ts = Ok (e, rest)"
  then obtain left more where "p ts = Ok (left, more)" "operator_loop op join p left more = Ok (e, rest)"
    by (auto simp: operands_def bindO_Ok_iff)
  moreover from this(1) have "proper left" using assms(1) by (auto simp: yields_proper_def)
  ultimately show "proper e" using operator_loop_proper [of p join left op more e rest] assms by blast
qed

lemma parse_or_proper: "yields_proper p \<Longrightarrow> yields_proper (parse_or depth p)"
  using operands_proper [OF operands_proper, of p And Or TokOr TokAnd] by (simp add: yields_proper_def parse_or_def parse_and_def)

lemma parse_cmp_proper: "parse_cmp ts = Ok (e, rest) \<Longrightarrow> proper e"
proof -
  assume run: "parse_cmp ts = Ok (e, rest)"
  have "\<exists>n more. ts = TokName n # more"
    using run by (cases ts) (auto simp: parse_cmp_def split: token.splits)
  then obtain n more where ts: "ts = TokName n # more" by blast
  obtain ns ts2 where "path_segments more = Ok (ns, ts2)" using run by (auto simp: ts parse_cmp_def bindO_Ok_iff)
  then show ?thesis using run by (auto simp: ts parse_cmp_def marker_def split: list.splits option.splits if_splits)
qed

lemma negate_proper: "proper e \<Longrightarrow> proper (negate e)"
  by (cases e) auto

lemma parse_term_proper: "yields_proper (parse_term depth)"
proof (induction "Suc MAX_PARSE_DEPTH - depth" arbitrary: depth rule: less_induct)
  case less
  show ?case
  proof (cases "depth > MAX_PARSE_DEPTH")
    case True
    then have "parse_term depth = (\<lambda>ts. Err TooDeep)" by (simp only: parse_term.simps [of depth] if_True)
    then show ?thesis by (simp add: yields_proper_def)
  next
    case False
    then have p: "yields_proper (parse_term (depth + 1))" by (intro less) auto
    have o: "yields_proper (parse_or (depth + 1) (parse_term (depth + 1)))" by (rule parse_or_proper [OF p])
    note deeper = p [THEN yields_properD] o [THEN yields_properD] parse_cmp_proper
    have "proper e" if "parse_term depth ts = Ok (e, rest)" for ts e rest
      using that unfolding parse_term_run [OF False]
      by (auto simp: bindO_Ok_iff split: if_splits dest: deeper [simplified] intro: negate_proper)
    then show ?thesis by (simp add: yields_proper_def)
  qed
qed

lemma matches_negate: "matches_inner U (negate e) ch tags pather = (\<not> matches_inner U e ch tags pather)"
  by (cases e) (auto split: option.splits)

section \<open>Properties\<close>

text \<open>C35. A filter that is written out is read back: the text of an expression, with the parentheses that the precedence of its operators asks for and a
  space behind every token, parses to this expression, whatever the Unicode tables are. The expression has the shape that parsing gives, its names,
  strings and numbers can be written in ASCII, and its parentheses and negations are nested at most 32 deep.\<close>

theorem filter_roundtrip:
  assumes "proper e" "nesting e 0 \<le> MAX_PARSE_DEPTH" "list_all (printable num) (expr_tokens e 0)"
  shows "parse_filter U (print_tokens num (expr_tokens e 0)) = Ok e"
proof -
  have "expr_tokens e lv \<noteq> []" for lv by (cases e) (simp_all add: enclose_def path_tokens_def)
  then show ?thesis using tokenize_text [OF assms(3)] parse_printed [OF assms(1,2)] by (simp add: parse_filter_def)
qed

theorem filter_roundtrip_witness:
  "parse_filter \<lparr>uc_alphabetic = (\<lambda>_. False), uc_numeric = (\<lambda>_. False), uc_whitespace = (\<lambda>_. False), uc_lowercase = id\<rparr>
     (ascii ''not ( point or siteRef -> area > 7 ) and enabled '') =
   Ok (And (Not (Or (Has (ascii ''point'')) (Cmp [ascii ''siteRef'', ascii ''area''] CmpGt (FvNum (lit 7 1))))) (Has (ascii ''enabled'')))"
proof -
  let ?U = "\<lparr>uc_alphabetic = (\<lambda>_. False), uc_numeric = (\<lambda>_. False), uc_whitespace = (\<lambda>_. False), uc_lowercase = id\<rparr>"
  let ?e = "And (Not (Or (Has (ascii ''point'')) (Cmp [ascii ''siteRef'', ascii ''area''] CmpGt (FvNum (lit 7 1))))) (Has (ascii ''enabled''))"
  have seven: "parse_f64 (text_chars (ascii ''7'')) = Some (lit 7 1)" by code_simp
  have "list_all (printable (\<lambda>_. ascii ''7'')) (expr_tokens ?e 0)"
    using seven by (simp add: enclose_def path_tokens_def ascii_def word_byte_def number_byte_def is_ascii_alphabetic_def is_ascii_alphanumeric_def)
  from filter_roundtrip [OF _ _ this, of ?U] show ?thesis
    by (simp add: MAX_PARSE_DEPTH_def enclose_def path_tokens_def print_tokens_def ascii_def)
qed

text \<open>C36. Parsing a filter always ends with an expression or an error: no loop of the parser goes on without consuming tokens, whatever the text and the Unicode
  tables are. An expression that it gives has no empty path and no negated marker other than \<open>Missing\<close>, and negating an expression as the parser does
  negates its truth on every channel with every set of tags and every resolver of references.\<close>

theorem filter_parse_sound:
  "parse_filter U input \<noteq> Panic \<and>
   (\<forall>e. parse_filter U input = Ok e \<longrightarrow> proper e \<and>
      (\<forall>ch tags pather. matches_full U (negate e) ch tags pather = (\<not> matches_full U e ch tags pather)))"
proof -
  have answers: "tokenize U input \<noteq> Panic" by (simp add: tokenize_def tokens_of_answers)
  have st: "steady (parse_or 0 (parse_term 0))" by (rule parse_or_steady [OF parse_term_steady])
  have pr: "yields_proper (parse_or 0 (parse_term 0))" by (rule parse_or_proper [OF parse_term_proper])
  show ?thesis using answers
    by (auto simp: parse_filter_def bindO_Ok_iff bindO_Panic_iff matches_full_def matches_negate steadyD(1) [OF st] split: if_splits
      dest: yields_properD [OF pr])
qed

theorem filter_parse_sound_witness:
  "parse_filter \<lparr>uc_alphabetic = (\<lambda>_. False), uc_numeric = (\<lambda>_. False), uc_whitespace = (\<lambda>_. False), uc_lowercase = id\<rparr>
     (ascii ''not point'') = Ok (Missing (ascii ''point'')) \<and> proper (Missing (ascii ''point''))"
proof -
  let ?U = "\<lparr>uc_alphabetic = (\<lambda>_. False), uc_numeric = (\<lambda>_. False), uc_whitespace = (\<lambda>_. False), uc_lowercase = id\<rparr>"
  have run: "parse_filter ?U (ascii ''not point'') = Ok (Missing (ascii ''point''))" by code_simp
  then show ?thesis using filter_parse_sound [of ?U "ascii ''not point''"] by blast
qed

end
