(* ===== verification/Spec2Isabelle.thy ===== *)
theory Spec2Isabelle
  imports Bacnet_Driver Svm_Runner Vm_Control Vm_Objects Sab_Validator Dasp_Transport Engine_Poll Control Sox_Replies Sox_Transfer Sox_Manifest Rest_Filter
begin

text \<open>
  \<^bold>\<open>Verification of the Sandstar runtime: virtual machine, session protocol, engine, object server and BACnet driver.\<close>

  Sandstar (\<open>src/crates\<close>) is a controller runtime in Rust for building automation. Its \<^emph>\<open>engine\<close> (\<open>sandstar-engine\<close>)
  polls sensors and drives outputs through a hardware abstraction: it converts and filters readings, arbitrates writes in
  priority arrays, recovers failed sensors and notifies subscribers. Its application logic is Sedona bytecode, which the
  \<^emph>\<open>virtual machine\<close> (\<open>sandstar-svm\<close>) loads, validates and interprets. Tools reach the controller over
  \<^emph>\<open>DASP\<close> (\<open>sandstar-server/src/sox/dasp.rs\<close>), a session protocol with authentication over datagrams. The \<^emph>\<open>SOX server\<close> behind it
  (\<open>sandstar-server/src/sox\<close>) shows the controller as a tree of components that tools read, write, wire and subscribe to. Its REST interface selects
  points with \<^emph>\<open>Haystack filters\<close>. The \<^emph>\<open>BACnet driver\<close> (\<open>sandstar-server/src/drivers/bacnet\<close>) polls and writes points of other devices
  on the network. This development models these parts. The definitions are shallow: a method of the source is a function from the state of its object to an
  outcome and the state it leaves.

  \<^bold>\<open>Conventions.\<close> Rust's \<open>u8\<close> to \<open>i64\<close> are words of their width, so that \<open>wrapping_add\<close> and the like are the
  operations of words. \<open>usize\<close> is a natural number below \<open>2 ^ 32\<close>, the width of the target (ARMv7); where the source
  adds or multiplies numbers that may leave their range, or subtracts below zero, the model has the value \<open>Panic\<close>,
  which is what the program does with overflow checks. \<open>Prelude.outcome\<close> has the constructors \<open>Ok\<close>, \<open>Err\<close>
  and \<open>Panic\<close>; \<open>bnd\<close> and \<open>sq\<close> are the \<open>?\<close> operator and sequencing, and they keep the effects
  that happened before an error, as the code does. Floats and doubles are bit patterns; \<open>Ieee\<close> and \<open>Floats\<close> give
  their arithmetic with round-to-nearest-even and one canonical NaN. Hash maps are association lists with
  distinct keys; their order stands for the unspecified order of iteration. Parameters of the model: native methods (functions over a native
  context and an arbitrary outside world), the hardware (a record \<open>hal\<close> of functions over a state of its own), the
  clock (an instant for each call), the content of files and the file system, SHA-1, the nonces, what the socket receives and
  whether it can send, the text of a float in a computed tag, the XML events of a manifest and the Unicode tables of characters
  that are not ASCII. The sockets of the BACnet driver are a sequence of events (a datagram, a failure, silence until a deadline), each with the time that passes.
  Log messages are left out.

  \<^bold>\<open>Virtual machine\<close> (\<open>src/crates/sandstar-svm/src\<close>).
  \<^item> \<open>Prelude\<close>: outcomes and methods, their laws, triples with the rule collection \<open>wp\<close>, byte ranges,
    little-endian encodings and their round trips.
  \<^item> \<open>Vm_Base\<close> (\<open>vm_error.rs\<close>, \<open>vm_config.rs\<close>): errors, limits and their validation.
  \<^item> \<open>Vm_Stack\<close> (\<open>vm_stack.rs\<close>): cells, stack pointer, frames; the abstraction \<open>contents\<close> and a locale
    of typed cells, interpreted for ints, floats, longs, doubles and references.
  \<^item> \<open>Image_Loader\<close> (\<open>image_loader.rs\<close>): the 32-byte header, validation, loading; round trip with the documented layout.
  \<^item> \<open>Vm_Memory\<close> (\<open>vm_memory.rs\<close>): code and data segments with checked access; a locale of typed
    stores, interpreted for the six kinds of field.
  \<^item> \<open>Opcodes\<close> (\<open>opcodes.rs\<close>): the instruction set in the sections of the source, its byte encoding and operand sizes.
  \<^item> \<open>Native_Table\<close> (\<open>native_table.rs\<close>): registration and dispatch; a locale of dispatch tables.
  \<^item> \<open>Ieee\<close>: the float operations that the instructions use.
  \<^item> \<open>Vm_Interpreter\<close> (\<open>vm_interpreter.rs\<close>): the machine record \<open>vm\<close>, one definition per section of the match in
    \<open>VmInterpreter::step\<close> (\<open>step_literal\<close> to \<open>step_misc\<close>), the frame helpers, \<open>exec_op\<close>, \<open>fetch\<close>, \<open>step\<close>.
  \<^item> \<open>Vm_Safety\<close>: the invariants and the locales \<open>vm_data_invariant\<close> and \<open>vm_invariant\<close>: what every instruction keeps
    when the primitive operations keep it.
  \<^item> \<open>Vm_Run\<close> (\<open>vm_interpreter.rs\<close>): \<open>run_loop\<close> and the entry points, the transition relation \<open>vm_trans\<close>, and the
    locale \<open>vm_run_invariant\<close> that lifts an invariant of \<open>step\<close> to executions.
  \<^item> \<open>Vm_Semantics\<close>: a specification of the computing instructions as functions on the operand
    stack (\<open>op_effect\<close>) and the proof that the interpreter refines it.
  \<^item> \<open>Vm_Control\<close>, \<open>Vm_Calls\<close>, \<open>Vm_Objects\<close>: sequencing, branches and panic freedom; the calling convention,
    parameters and locals; object and array initialisation.
  \<^item> \<open>Vm_Balance\<close>: every execution that returns removes the frames and cells it added.
  \<^item> \<open>Sab_Validator\<close> (\<open>sab_validator.rs\<close>): the linear scan of an image and its report.
  \<^item> \<open>Svm_Runner\<close> (\<open>rust_runner.rs\<close>): \<open>start\<close>, \<open>resume\<close>, \<open>stop\<close> and the lifecycle.
  \<^item> This theory: sessions, the property that spans loader, memory, interpreter and runner.

  \<^bold>\<open>Session protocol\<close> (\<open>src/crates/sandstar-server/src/sox/dasp.rs\<close>).
  \<^item> \<open>Wire\<close>: big-endian numbers and the decoding of UTF-8 with replacement characters.
  \<^item> \<open>Dasp_Message\<close>: message types, header fields, \<open>parse_header\<close> and \<open>encode_message\<close>, and their round trip.
  \<^item> \<open>Dasp_Transport\<close>: the record \<open>transport\<close> with the session tables, \<open>poll\<close> with a definition per handler, sending, expiry.
    \<open>dasp_run\<close> is the relation of all packet sequences; a locale lifts invariants of the operations to it and is interpreted
    for the tables and for the agreement of authentication.

  \<^bold>\<open>Engine\<close> (\<open>src/crates/sandstar-engine/src\<close>).
  \<^item> \<open>Floats\<close>, \<open>Text\<close>: doubles, durations and instants, numbers in text, as the standard library has them.
  \<^item> \<open>Priority_Array\<close> (\<open>priority.rs\<close>): 17 levels with a cached active one; specification \<open>spec_effective\<close>.
  \<^item> \<open>Engine_Filters\<close> (\<open>conversion/filters.rs\<close>, \<open>conversion/sdp610.rs\<close>): smoothing, rate limit, spike filter, flow sensor;
    a locale of filters whose state abstracts their history.
  \<^item> \<open>Engine_Base\<close> (\<open>lib.rs\<close>, \<open>error.rs\<close>), \<open>Engine_Tables\<close> (\<open>table.rs\<close>), \<open>Engine_Values\<close> (\<open>value.rs\<close>, \<open>conversion/auto_detect.rs\<close>):
    values, lookup tables, conversion and reversion.
  \<^item> \<open>Engine_Stores\<close> (\<open>channel.rs\<close>, \<open>poll.rs\<close>, \<open>watch.rs\<close>, \<open>notify.rs\<close>): channels, the poll list and subscriptions; a
    locale of subscription stores, interpreted for watches and notifications.
  \<^item> \<open>Engine\<close> (\<open>engine.rs\<close>): the record \<open>engine\<close>, the read pipeline, recovery, writes and the poll cycle.
  \<^item> \<open>Engine_Invariants\<close>, \<open>Engine_Poll\<close>, \<open>Engine_Control\<close>: locales of engine invariants, reachable engines, what a poll cycle
    reports, coalesced reads, recovery of sensors, priority writes down to the hardware.

  \<^bold>\<open>Control\<close> (\<open>sandstar-engine/src\<close>, \<open>sandstar-server/src/control.rs\<close>).
  \<^item> \<open>Engine_Blocks\<close> (\<open>components.rs\<close>, \<open>pid.rs\<close>, \<open>sequencer.rs\<close>): the arithmetic, logic, timing, thermostat and schedule blocks, the PID
    controller and the lead sequencer; the locale of history filters is interpreted for those with memory.
  \<^item> \<open>Control\<close> (\<open>control.rs\<close>): the runner that loads loops and components from \<open>control.toml\<close> and runs them against the engine after
    every poll. The TOML parser and the wall clock of the schedules are parameters.

  \<^bold>\<open>SOX server\<close> (\<open>src/crates/sandstar-server/src/sox\<close>): the Sedona object protocol on top of DASP sessions.
  \<^item> \<open>Sox_Protocol\<close> (\<open>sox_protocol.rs\<close>): commands, value types, requests, the response builder and the payload reader.
  \<^item> \<open>Name_Intern\<close> (\<open>name_intern.rs\<close>), \<open>Dyn_Slots\<close> (\<open>dyn_slots.rs\<close>): the table of component names; dynamic tags with their limits,
    computed tags, and what is saved and loaded of them.
  \<^item> \<open>Sox_Tree\<close>, \<open>Sox_Links\<close> (\<open>sox_handlers.rs\<close>): the record \<open>component_tree\<close> with every operation, its construction from the channels,
    what is saved and restored, the search for cycles; the graph of links and its acyclicity.
  \<^item> \<open>Sox_Handlers\<close> (\<open>sox_handlers.rs\<close>): subscriptions and events, one definition per request handler (\<open>handle_add\<close> to \<open>handle_write\<close>).
  \<^item> \<open>Sox_Execute\<close> (\<open>sox_handlers.rs\<close>): the data flow: channel values into the tree, transfers along links, evaluation of the component types
    in the groups of the source, bridges, and the writes back to the engine.
  \<^item> \<open>Sox_Manifest\<close> (\<open>ManifestDb\<close> in \<open>sox_handlers.rs\<close>): the types of components from the manifests of the kits, whose XML reader is a
    parameter, and the built-in types; types of slots and what evaluation may change.
  \<^item> \<open>Sox_Files\<close> (\<open>sox_handlers.rs\<close>): file transfers and the check of paths; the file system is a record \<open>sox_fs\<close> of functions over a state of
    its own, the transfer is behind a mutex that a panic poisons.
  \<^item> \<open>Sox_Server\<close> (\<open>mod.rs\<close>): what \<open>run_sox_server\<close> does with a packet and in its three timers; \<open>sox_step\<close> and \<open>sox_reachable\<close> are the
    step relation and the reachable states, from a start without a saved file. Packets, expired sessions and the channels of the engine come from the
    environment; responses and events are recorded in \<open>sent_events\<close>, writes in \<open>engine_writes\<close>.
  \<^item> \<open>Sox_Invariants\<close>, \<open>Sox_Subscriptions\<close>, \<open>Sox_Replies\<close>, \<open>Sox_Transfer\<close>: what every handler keeps of the tree (rules \<open>yi\<close>), the relation
    that the subscriptions represent, answers and refusals, the round trips of files and where files may be written.

  \<^bold>\<open>Haystack server\<close> (\<open>src/crates/sandstar-server/src/rest\<close>): filters only.
  \<^item> \<open>Rest_Filter\<close> (\<open>filter.rs\<close>): the tokenizer, the recursive descent parser and the evaluation of filters against channels, dynamic tags
    and references; the printed form of an expression and its round trip. The Unicode tables are a record \<open>unicode\<close>.

  \<^bold>\<open>BACnet driver\<close> (\<open>src/crates/sandstar-server/src/drivers/bacnet\<close>).
  \<^item> \<open>Bacnet_Value\<close> (\<open>value.rs\<close>, \<open>object.rs\<close>): application tags, object types and property identifiers.
  \<^item> \<open>Bacnet_Frame\<close> (\<open>frame.rs\<close>): messages, one definition per encoder and per decoder; the frame of a message (\<open>apdu_frame\<close>) and the
    relation \<open>reads_as\<close> of a message and what is read of it. The locales of repeated entries and of objects are interpreted for lists of values, requested
    properties and results.
  \<^item> \<open>Bacnet_Transaction\<close> (\<open>transaction.rs\<close>, \<open>discovery.rs\<close>, \<open>mod.rs\<close>): requests in flight with their one-shot channels, known devices, the cache of
    notified values.
  \<^item> \<open>Bacnet_Driver\<close> (\<open>mod.rs\<close>, \<open>discovery.rs\<close>): the record \<open>bacnet_driver\<close>, the exchange of a request with retries, discovery and registration, polling,
    writing, learning, subscriptions and their renewal. \<open>driver_reachable\<close> are the states after any operations on any network; the locale of
    driver properties says what every operation keeps when sending, receiving and the tables keep it.

  \<^bold>\<open>What is shown.\<close> Functional behaviour: the computing instructions refine their specification; branches, calls,
  returns and array initialisation do what the
  instruction set says; loading and the validator's verdict are characterised exactly; a poll cycle notifies exactly the
  changes; a priority write drives the output with the first level that holds a value; filters and tables refine their
  specifications; sequencers, timers and schedules are functions of their history; a control loop drives its output from a sound sensor only. Safety: no
  bytecode changes its own code, leaves the bounds of stack and data, or exceeds 512 frames; a large set of
  instructions cannot panic; a run that returns is balanced; a DASP session is authenticated only by the digest of its own
  nonce; conversions and PID controllers keep their limits; reading a SOX payload cannot panic, a link never closes a
  loop, and files are written only below the allowed directories. Invariants of every reachable runner, transport, engine and SOX server. SOX requests:
  each is answered once, a refused one changes nothing, a property reads back as written, and files arrive as they were sent, whatever the order of their
  chunks. Filters of the Haystack server are parsed to an expression or an error, and their printed form is read back. The frames of the BACnet driver
  are read back, and its decoder panics for exactly one kind of datagram; the tables of the driver stay sound, and a poll has one result for every point. Termination: \<open>run_loop\<close> is total, because
  every iteration counts towards the limit of ten million instructions (\<open>MAX_INSTRUCTIONS\<close>), which is the measure
  of its termination proof; \<open>run_loop_iff\<close> relates it to the unbounded transition relation. The search for a free DASP session id
  is a \<open>partial_function\<close>, and \<open>dasp_poll_returns\<close> proves that it ends. No fuel is used. Liveness: a correct client is
  authenticated; a failed sensor is initialised again after at most 300 reads; a BACnet device that answers within four
  requests is heard. Errors: the error branches of memory access, dispatch, loading and the runner.
  Theorems that document behaviour that is not intended: \<open>sab_size_mismatch\<close>, \<open>failed_execute_leaks\<close>, \<open>rejected_write_is_stored\<close>, \<open>double_misread\<close>,
  \<open>bacnet_send_failures_exhaust\<close>.

  \<^bold>\<open>Not modelled.\<close> The bodies of the native kits (operating system calls behind the table), the opcode name
  table, the FFI bridge to the C virtual machine, the drivers of the hardware abstraction; of the SOX server the JSON text of what is saved and the
  XML reader; of the BACnet driver the reading of its configuration from the environment and the setting of socket options; and of the server the HTTP handlers
  and formats, the task that owns the drivers, the Modbus, MQTT and replication parts, which mostly drive asynchronous and third-party libraries, and the command line.
\<close>

section \<open>Sessions\<close>

text \<open>
  A session of a runner on an image: a start that succeeds and any number of \<open>resume\<close> calls that return a value.
\<close>

inductive session :: "u8 list \<Rightarrow> 'w native_table \<Rightarrow> 'w runner \<Rightarrow> bool" for bytes table where
  session_start: "\<not> running r \<Longrightarrow> start path (Ok bytes) table r = (Ok (), r') \<Longrightarrow> session bytes table r'"
| session_resume: "session bytes table r \<Longrightarrow> resume r = (Ok v, r') \<Longrightarrow> session bytes table r'"

text \<open>A machine between two calls: it holds the image unchanged, its stack is empty and it has not been stopped.\<close>

definition idle_on :: "u8 list \<Rightarrow> 'w vm \<Rightarrow> bool" where
  "idle_on bytes vm \<longleftrightarrow> code (memory vm) = bytes \<and> frames (stack vm) = [] \<and> sp (stack vm) = 0 \<and> \<not> stopped vm"

lemma execute_idle:
  assumes "execute entry (vm :: 'w vm) = (Ok v, vm')" "idle_on bytes vm"
  shows "idle_on bytes vm'"
proof -
  have "same_machine vm vm'"
    using machine_run.execute_keeps(2) [of vm entry] same_machine_refl [of vm] assms(1)
    by (auto simp: keeps_def dest: spec [of _ vm])
  moreover have "frames (stack vm') = frames (stack vm) \<and> sp (stack vm') = sp (stack vm)"
    using run_from_entry [of entry "[]" 0 entry vm v vm'] assms
    by (simp add: execute_def execute_with_args_def stack_ok_def idle_on_def)
  ultimately show ?thesis using assms(2) by (simp add: idle_on_def same_machine_def mem_rel_def)
qed

lemma vm_new_idle: "load_from_file path (Ok bytes) = Ok img \<Longrightarrow> from_image img = Ok mem \<Longrightarrow>
  idle_on bytes (vm_new mem table w)"
  by (auto simp: load_from_file_def load_from_bytes_def from_image_def idle_on_def vm_new_def stack_new_def
      split: if_splits outcome.splits)

text \<open>The sample image of \<open>Svm_Runner\<close>, executed from its entry at byte 32.\<close>

lemma sample_execute:
  assumes "code (memory s) = sample_image" "stack s = stack_new 4096" "\<not> stopped (s :: 'w vm)"
  shows "fst (execute 32 s) = Ok 1"
proof -
  have f: "code_u8 (memory s) 32 = Ok (opcode_byte (Literal LoadI1))"
    "code_u8 (memory s) 33 = Ok (opcode_byte (CallOp ReturnPop))"
    by (simp_all add: code_u8_def assms sample_image_def opcode_byte_def)
  have len: "length (cells (stack_new 4096)) = 4096" "sp (stack_new 4096) = 0" "frames (stack_new 4096) = []"
    by (simp_all add: stack_new_def)
  have run: "run_loop u = (if stopped u then (Err Stopped, u)
      else if instruction_count (tick u) > MAX_INSTRUCTIONS then (Err Timeout, tick u)
      else case exec_op op (tick u) of
             (Ok Continue, t) \<Rightarrow> run_loop t
           | (Ok (ReturnI32 v), t) \<Rightarrow> (Ok v, t)
           | (Ok r, t) \<Rightarrow> (Ok 0, t) | (Err e, t) \<Rightarrow> (Err e, t) | (Panic, t) \<Rightarrow> (Panic, t))"
    if "code_u8 (memory u) (pc u) = Ok (opcode_byte op)" for u :: "'w vm" and op
    using that by (subst run_loop.simps) (simp add: step_at tick_def split: prod.splits outcome.splits step_result.splits)
  show ?thesis
    by (simp add: execute_def execute_with_args_def enter_top_def enter_frame_def sq_def bnd_def on_stack_def
        push_i32_def assms len ret_def push_frame_def MAX_FRAME_DEPTH_def start_at_def modify_def)
       (simp add: run [where op = "Literal LoadI1"] run [where op = "CallOp ReturnPop"] f assms
        MAX_INSTRUCTIONS_def tick_def step_simps continue_def then_advance_def sq_def bnd_def on_stack_def
        push_i32_def len advance_def return_value_def unwind_frame_def leave_frame_def pop_i32_def
        index_cell_def pop_frame_def set_sp_def modify_def ret_def)
qed


lemma sample_start: "fst (start path (Ok sample_image) table (runner_new w)) = Ok ()"
proof -
  let ?mem = "\<lparr>code = sample_image, data = replicate 16 0, mem_block_size = 4, mem_address_width = Block16\<rparr>"
  have "load_from_bytes sample_image = Ok \<lparr>header = \<lparr>magic = SCODE_MAGIC, major_ver = 1, minor_ver = 5,
      block_size = 4, ref_size = 4, image_size = 34, data_size = 16, main_method = 8, tests_bix = 0,
      resume_method = 8\<rparr>, image_code = sample_image\<rparr>" by code_simp
  moreover have "fst (execute 32 (vm_new ?mem table w)) = Ok 1"
    by (rule sample_execute) (simp_all add: vm_new_def)
  then obtain vm where "execute 32 (vm_new ?mem table w) = (Ok 1, vm)" by (metis prod.collapse)
  ultimately show ?thesis
    by (simp add: start_def load_from_file_def lift_def bnd_def sq_def modify_def from_image_def
        block_to_offset_def runner_new_def)
qed

section \<open>Properties\<close>

text \<open>
  C3 Sessions: after a successful start from a file and any number of \<open>resume\<close> calls that return, the runner
  runs, the code segment is the file byte for byte, whatever the bytecode did, and no cell and no frame is left
  on the stack.
\<close>

theorem session_idle:
  assumes "session bytes table r"
  shows "running r \<and> (\<exists>vm. interpreter r = Some vm \<and> idle_on bytes vm)"
  using assms
proof induction
  case (session_start r path r')
  from session_start(2,1) show ?case
    by (cases rule: start_cases) (auto dest: vm_new_idle execute_idle)
next
  case (session_resume r v r')
  then obtain vm where vm: "interpreter r = Some vm" "idle_on bytes vm" by blast
  then have "idle_on bytes (vm\<lparr>world := outside r\<rparr>)" by (simp add: idle_on_def)
  with session_resume vm show ?case
    by (auto simp: resume_def split: if_splits option.splits prod.splits dest: execute_idle)
qed

lemma session_idle_witness:
  "running (snd (start ''app.scode'' (Ok sample_image) table_new (runner_new ()))) \<and>
   (\<exists>vm. interpreter (snd (start ''app.scode'' (Ok sample_image) table_new (runner_new ()))) = Some vm \<and>
      idle_on sample_image vm)"
proof -
  have "session sample_image table_new (snd (start ''app.scode'' (Ok sample_image) table_new (runner_new ())))"
    using sample_start [of "''app.scode''" table_new "()"]
    by (intro session_start [of "runner_new ()" "''app.scode''"]) (simp_all add: runner_new_def prod_eq_iff)
  from session_idle [OF this] show ?thesis .
qed
end
